(* ===== verification/Prelude.thy ===== *)
theory Prelude
  imports Main "HOL-Library.Word"
begin

unbundle bit_operations_syntax

section \<open>Machine words, printed numbers and the development's collections\<close>

text \<open>
  The vocabulary every component shares: the unsigned integer types of the C++ code, the
  decimal and hexadecimal printers its messages use (\<open>std::to_string\<close>, \<open>"0x%x"\<close>,
  \<open>"%08x"\<close>), and the generic facts on words and lists that several components need.
\<close>

named_theorems inv_intros \<open>an effect keeps an invariant of the state\<close>
named_theorems nothrow_intros \<open>an effect does not end in an exception or undefined behaviour\<close>
named_theorems halts_intros \<open>an effect ends without exhausting its loops and the clock does not run back\<close>

type_synonym u8 = "8 word"
type_synonym u16 = "16 word"
type_synonym u32 = "32 word"
type_synonym u64 = "64 word"

subsection \<open>Printed numbers\<close>

definition digit_char :: "nat \<Rightarrow> char" where
  "digit_char d = (if d < 10 then char_of (48 + d) else char_of (87 + d))"

function radix_string :: "nat \<Rightarrow> nat \<Rightarrow> string" where
  "radix_string b n =
     (if b < 2 \<or> n < b then [digit_char n]
      else radix_string b (n div b) @ [digit_char (n mod b)])"
  by pat_completeness auto
termination
  by (relation "measure snd") (auto intro: div_less_dividend)

declare radix_string.simps [simp del]

abbreviation to_string :: "nat \<Rightarrow> string" where
  "to_string n \<equiv> radix_string 10 n"

definition to_string_int :: "int \<Rightarrow> string" where
  "to_string_int i = (if i < 0 then CHR ''-'' # to_string (nat (- i)) else to_string (nat i))"

definition pad_left :: "nat \<Rightarrow> char \<Rightarrow> string \<Rightarrow> string" where
  "pad_left w c s = replicate (w - length s) c @ s"

lemma radix_string_not_Nil [simp]: "radix_string b n \<noteq> []"
  by (subst radix_string.simps) simp

lemma digit_char_hex_lower:
  assumes "d < 16"
  shows "digit_char d \<in> set ''0123456789abcdef''"
proof -
  have "\<forall>k \<in> set [0..<16]. digit_char k \<in> set ''0123456789abcdef''"
    by code_simp
  then show ?thesis using assms by simp
qed


lemma radix_string_length:
  assumes "2 \<le> b" and "n < b ^ Suc k"
  shows "length (radix_string b n) \<le> Suc k"
  using assms(2)
proof (induction k arbitrary: n)
  case 0
  then show ?case by (subst radix_string.simps) simp
next
  case (Suc k)
  have "n div b < b ^ Suc k"
    using Suc.prems assms(1) by (intro less_mult_imp_div_less) (simp add: mult.commute)
  then show ?case
    using Suc.IH [of "n div b"] by (subst radix_string.simps) simp
qed

lemma radix_string_hex: "set (radix_string 16 n) \<subseteq> set ''0123456789abcdef''"
proof (induction n rule: less_induct)
  case (less n)
  show ?case
  proof (cases "n < 16")
    case True
    then show ?thesis
      using digit_char_hex_lower by (subst radix_string.simps) auto
  next
    case False
    then have "set (radix_string 16 (n div 16)) \<subseteq> set ''0123456789abcdef''"
      by (intro less) simp
    then show ?thesis
      using False digit_char_hex_lower [of "n mod 16"] by (subst radix_string.simps) simp
  qed
qed

text \<open>The \<open>"0x%x"\<close> printer of the flash programmer's messages.\<close>

definition hex :: "'a::len word \<Rightarrow> string" where
  "hex v = ''0x'' @ radix_string 16 (unat v)"

lemma hex_not_Nil [simp]: "hex v \<noteq> []"
  by (simp add: hex_def)

text \<open>\<^verbatim>\<open>isspace\<close> of the C locale.\<close>

definition is_space :: "char \<Rightarrow> bool" where
  "is_space c \<longleftrightarrow> c = CHR '' '' \<or> (9 \<le> (of_char c :: nat) \<and> (of_char c :: nat) \<le> 13)"

subsection \<open>Signed division\<close>

text \<open>The C++ quotient of a signed integer by a positive one: it truncates towards zero.\<close>

definition cdiv :: "int \<Rightarrow> int \<Rightarrow> int" where
  "cdiv a b = (if 0 \<le> a then a div b else - ((- a) div b))"

lemma cdiv_nonneg [simp]: "0 \<le> a \<Longrightarrow> cdiv a b = a div b"
  by (simp add: cdiv_def)

subsection \<open>Counted loops\<close>

text \<open>The starts of the pieces of length \<open>step\<close> of a range: \<open>for(p = 0; p < n; p += step)\<close>.\<close>

definition piece_starts :: "nat \<Rightarrow> nat \<Rightarrow> nat list" where
  "piece_starts n step = map (\<lambda>k. step * k) [0..<(n + step - 1) div step]"

end
