(* ===== verification/Effects.thy ===== *)
theory Effects
  imports Prelude
begin

section \<open>Effects: state, exceptions, undefined behaviour and bounded loops\<close>

text \<open>
  The imperative code is modelled by state-passing functions with an explicit outcome:
  \<^item> \<open>Ret a\<close>: the call returned \<open>a\<close>;
  \<^item> \<open>Throw m\<close>: an exception derived from \<open>std::exception\<close> with \<open>what() = m\<close> left the call;
  \<^item> \<open>Undef\<close>: the C++ expression has no defined behaviour (an index outside a vector);
    no handler catches it;
  \<^item> \<open>Spin\<close>: a loop used up its bound on the number of iterations.
  \<open>tryE\<close> is \<open>try/catch(const std::exception&)\<close>, \<open>foldE\<close> a range-based \<open>for\<close> over a
  container with the local variables the body assigns as accumulator, \<open>loopE\<close> a
  \<open>while(true)\<close> whose body either goes round again (\<open>Inl\<close>, with the new values of its
  local variables) or leaves the loop (\<open>Inr\<close>).
\<close>

datatype 'a outcome = Ret 'a | Throw string | Undef | Spin

type_synonym ('s, 'a) eff = "'s \<Rightarrow> 'a outcome \<times> 's"

definition ret :: "'a \<Rightarrow> ('s, 'a) eff" where
  "ret a s = (Ret a, s)"

definition throw :: "string \<Rightarrow> ('s, 'a) eff" where
  "throw m s = (Throw m, s)"

definition undefined_behaviour :: "('s, 'a) eff" where
  "undefined_behaviour s = (Undef, s)"

definition spin :: "('s, 'a) eff" where
  "spin s = (Spin, s)"

definition gets :: "('s \<Rightarrow> 'a) \<Rightarrow> ('s, 'a) eff" where
  "gets f s = (Ret (f s), s)"

definition modify :: "('s \<Rightarrow> 's) \<Rightarrow> ('s, unit) eff" where
  "modify f s = (Ret (), f s)"

definition bindE :: "('s, 'a) eff \<Rightarrow> ('a \<Rightarrow> ('s, 'b) eff) \<Rightarrow> ('s, 'b) eff" where
  "bindE m k s =
     (case m s of
        (Ret a, s') \<Rightarrow> k a s'
      | (Throw e, s') \<Rightarrow> (Throw e, s')
      | (Undef, s') \<Rightarrow> (Undef, s')
      | (Spin, s') \<Rightarrow> (Spin, s'))"

definition seqE :: "('s, unit) eff \<Rightarrow> ('s, 'b) eff \<Rightarrow> ('s, 'b) eff" where
  "seqE m k = bindE m (\<lambda>_. k)"

definition tryE :: "('s, 'a) eff \<Rightarrow> (string \<Rightarrow> ('s, 'a) eff) \<Rightarrow> ('s, 'a) eff" where
  "tryE m h s =
     (case m s of
        (Ret a, s') \<Rightarrow> (Ret a, s')
      | (Throw e, s') \<Rightarrow> h e s'
      | (Undef, s') \<Rightarrow> (Undef, s')
      | (Spin, s') \<Rightarrow> (Spin, s'))"

text \<open>A scope whose destructor runs whatever the outcome (\<open>Held\<close> and other RAII guards).\<close>

definition scopedE :: "('s \<Rightarrow> 's) \<Rightarrow> ('s \<Rightarrow> 's) \<Rightarrow> ('s, 'a) eff \<Rightarrow> ('s, 'a) eff" where
  "scopedE enter leave m s = (case m (enter s) of (r, s') \<Rightarrow> (r, leave s'))"

primrec loopE :: "nat \<Rightarrow> ('l \<Rightarrow> ('s, 'l + 'a) eff) \<Rightarrow> 'l \<Rightarrow> ('s, 'a) eff" where
  "loopE 0 b l = (\<lambda>s. (Spin, s))"
| "loopE (Suc n) b l =
     bindE (b l) (\<lambda>x. case x of Inl l' \<Rightarrow> loopE n b l' | Inr a \<Rightarrow> ret a)"

primrec foldE :: "('x \<Rightarrow> 'acc \<Rightarrow> ('s, 'acc) eff) \<Rightarrow> 'x list \<Rightarrow> 'acc \<Rightarrow> ('s, 'acc) eff" where
  "foldE f [] acc = ret acc"
| "foldE f (x # xs) acc = bindE (f x acc) (foldE f xs)"

text \<open>A counted loop with an exit test before each round: at most \<open>n\<close> rounds.\<close>

primrec repeatE :: "nat \<Rightarrow> ('acc \<Rightarrow> bool) \<Rightarrow> ('acc \<Rightarrow> ('s, 'acc) eff) \<Rightarrow> 'acc \<Rightarrow> ('s, 'acc) eff" where
  "repeatE 0 c b acc = ret acc"
| "repeatE (Suc n) c b acc = (if c acc then bindE (b acc) (repeatE n c b) else ret acc)"

text \<open>Reading an element of a vector: an index outside it has no defined behaviour.\<close>

definition at :: "'a list \<Rightarrow> nat \<Rightarrow> ('s, 'a) eff" where
  "at xs i = (if i < length xs then ret (xs ! i) else undefined_behaviour)"

definition slice :: "'a list \<Rightarrow> nat \<Rightarrow> nat \<Rightarrow> ('s, 'a list) eff" where
  "slice xs off n = (if off + n \<le> length xs then ret (take n (drop off xs)) else undefined_behaviour)"

text \<open>\<open>forE\<close> is \<open>foldE\<close> for a body that assigns no local variable of the caller.\<close>

definition forE :: "'x list \<Rightarrow> ('x \<Rightarrow> ('s, unit) eff) \<Rightarrow> ('s, unit) eff" where
  "forE xs f = foldE (\<lambda>x _. f x) xs ()"

definition whenE :: "bool \<Rightarrow> ('s, unit) eff \<Rightarrow> ('s, unit) eff" where
  "whenE b m = (if b then m else ret ())"

lemmas eff_simps = ret_def throw_def gets_def modify_def bindE_def seqE_def tryE_def
  whenE_def scopedE_def undefined_behaviour_def spin_def

subsection \<open>Algebra of the combinators\<close>

lemma bindE_cases:
  "bindE m k s =
     (case fst (m s) of
        Ret a \<Rightarrow> k a (snd (m s))
      | Throw e \<Rightarrow> (Throw e, snd (m s))
      | Undef \<Rightarrow> (Undef, snd (m s))
      | Spin \<Rightarrow> (Spin, snd (m s)))"
  by (cases "m s") (simp add: bindE_def split: outcome.splits)

lemma tryE_cases:
  "tryE m h s =
     (case fst (m s) of
        Ret a \<Rightarrow> (Ret a, snd (m s))
      | Throw e \<Rightarrow> h e (snd (m s))
      | Undef \<Rightarrow> (Undef, snd (m s))
      | Spin \<Rightarrow> (Spin, snd (m s)))"
  by (cases "m s") (simp add: tryE_def split: outcome.splits)

lemma bindE_ret [simp]: "bindE (ret a) k = k a"
  by (rule ext) (simp add: bindE_def ret_def)

lemma bindE_ret_right [simp]: "bindE m ret = m"
  by (rule ext) (simp add: bindE_def ret_def split: prod.splits outcome.splits)

lemma bindE_assoc: "bindE (bindE m f) g = bindE m (\<lambda>a. bindE (f a) g)"
  by (rule ext) (simp add: bindE_def split: prod.splits outcome.splits)

lemma tryE_ret [simp]: "tryE (ret a) h = ret a"
  by (rule ext) (simp add: tryE_def ret_def)

lemma tryE_throw [simp]: "tryE (throw m) h = h m"
  by (rule ext) (simp add: tryE_def throw_def)

lemma foldE_append: "foldE f (xs @ ys) acc = bindE (foldE f xs acc) (foldE f ys)"
proof (induction xs arbitrary: acc)
  case Nil
  then show ?case by simp
next
  case (Cons x xs)
  then have "foldE f (xs @ ys) = (\<lambda>a. bindE (foldE f xs a) (foldE f ys))"
    by (rule ext)
  then show ?case by (simp add: bindE_assoc)
qed

lemma forE_snoc: "forE (xs @ [x]) f = seqE (forE xs f) (f x)"
proof -
  have "foldE (\<lambda>x _. f x) [] = ret" by (rule ext) simp
  then have "foldE (\<lambda>x _. f x) [x] = (\<lambda>_. f x)" by (intro ext) simp
  then show ?thesis by (simp only: forE_def foldE_append seqE_def)
qed

lemma loopE_more_fuel:
  assumes "loopE n b l s = (r, s')" and "r \<noteq> Spin"
  shows "loopE (n + k) b l s = (r, s')"
  using assms
proof (induction n arbitrary: l s)
  case 0
  then show ?case by simp
next
  case (Suc n)
  then show ?case
    by (auto simp: bindE_def ret_def split: prod.splits outcome.splits sum.splits)
qed

subsection \<open>Invariants: properties every effect keeps, whatever its outcome\<close>

definition keeps :: "('s \<Rightarrow> bool) \<Rightarrow> ('s, 'a) eff \<Rightarrow> bool" where
  "keeps I m \<longleftrightarrow> (\<forall>s. I s \<longrightarrow> I (snd (m s)))"

lemma keepsI: "(\<And>s. I s \<Longrightarrow> I (snd (m s))) \<Longrightarrow> keeps I m"
  by (simp add: keeps_def)

lemma keepsD: "keeps I m \<Longrightarrow> I s \<Longrightarrow> I (snd (m s))"
  by (simp add: keeps_def)

lemma keeps_ret [inv_intros]: "keeps I (ret a)"
  by (simp add: keeps_def ret_def)

lemma keeps_throw [inv_intros]: "keeps I (throw m)"
  by (simp add: keeps_def throw_def)

lemma keeps_undef [inv_intros]: "keeps I undefined_behaviour"
  by (simp add: keeps_def undefined_behaviour_def)

lemma keeps_spin [inv_intros]: "keeps I spin"
  by (simp add: keeps_def spin_def)

lemma keeps_gets [inv_intros]: "keeps I (gets f)"
  by (simp add: keeps_def gets_def)

lemma keeps_modify: "(\<And>s. I s \<Longrightarrow> I (f s)) \<Longrightarrow> keeps I (modify f)"
  by (simp add: keeps_def modify_def)

lemma keeps_bindE [inv_intros]:
  "keeps I m \<Longrightarrow> (\<And>a. keeps I (k a)) \<Longrightarrow> keeps I (bindE m k)"
  by (rule keepsI) (simp add: bindE_cases keepsD split: outcome.splits)

lemma keeps_bindE_gets:
  "(\<And>s. I s \<Longrightarrow> keeps I (k (f s))) \<Longrightarrow> keeps I (bindE (gets f) k)"
  by (auto simp: keeps_def bindE_def gets_def)

lemma keeps_seqE [inv_intros]: "keeps I m \<Longrightarrow> keeps I k \<Longrightarrow> keeps I (seqE m k)"
  by (simp add: seqE_def keeps_bindE)

lemma keeps_tryE [inv_intros]:
  "keeps I m \<Longrightarrow> (\<And>e. keeps I (h e)) \<Longrightarrow> keeps I (tryE m h)"
  by (rule keepsI) (simp add: tryE_cases keepsD split: outcome.splits)

lemma keeps_whenE [inv_intros]: "(b \<Longrightarrow> keeps I m) \<Longrightarrow> keeps I (whenE b m)"
  by (simp add: whenE_def keeps_ret)

lemma keeps_scopedE:
  assumes "\<And>s. I s \<Longrightarrow> J (enter s)" and "keeps J m" and "\<And>s. J s \<Longrightarrow> I (leave s)"
  shows "keeps I (scopedE enter leave m)"
  using assms by (force simp: keeps_def scopedE_def split: prod.splits)

lemma keeps_loopE [inv_intros]: "(\<And>l. keeps I (b l)) \<Longrightarrow> keeps I (loopE n b l)"
proof (induction n arbitrary: l)
  case 0
  then show ?case by (simp add: keeps_def)
next
  case (Suc n)
  then show ?case
    by (auto intro!: keeps_bindE keeps_ret split: sum.splits)
qed

lemma keeps_foldE [inv_intros]:
  "(\<And>x acc. x \<in> set xs \<Longrightarrow> keeps I (f x acc)) \<Longrightarrow> keeps I (foldE f xs acc)"
  by (induction xs arbitrary: acc) (auto intro!: keeps_bindE keeps_ret)

lemma keeps_repeatE [inv_intros]: "(\<And>acc. keeps I (b acc)) \<Longrightarrow> keeps I (repeatE n c b acc)"
  by (induction n arbitrary: acc) (auto intro!: keeps_bindE keeps_ret)

lemma keeps_at [inv_intros]: "keeps I (at xs i)"
  by (simp add: at_def keeps_ret keeps_undef)

lemma keeps_slice [inv_intros]: "keeps I (slice xs off n)"
  by (simp add: slice_def keeps_ret keeps_undef)

lemma keeps_forE [inv_intros]:
  "(\<And>x. x \<in> set xs \<Longrightarrow> keeps I (f x)) \<Longrightarrow> keeps I (forE xs f)"
  by (simp add: forE_def keeps_foldE)

lemma keeps_if [inv_intros]:
  "(b \<Longrightarrow> keeps I m) \<Longrightarrow> (\<not> b \<Longrightarrow> keeps I m') \<Longrightarrow> keeps I (if b then m else m')"
  by simp

lemma keeps_conj: "keeps I m \<Longrightarrow> keeps J m \<Longrightarrow> keeps (\<lambda>s. I s \<and> J s) m"
  by (auto simp: keeps_def)


lemma keeps_case_prod [inv_intros]:
  "(\<And>a b. x = (a, b) \<Longrightarrow> keeps I (f a b)) \<Longrightarrow> keeps I (case_prod f x)"
  by (cases x) simp

lemma keeps_case_prod_arg [inv_intros]:
  "(\<And>a b. x = (a, b) \<Longrightarrow> keeps I (f a b y)) \<Longrightarrow> keeps I (case_prod f x y)"
  by (cases x) simp

lemma keeps_case_option [inv_intros]:
  "keeps I m \<Longrightarrow> (\<And>a. keeps I (f a)) \<Longrightarrow> keeps I (case x of None \<Rightarrow> m | Some a \<Rightarrow> f a)"
  by (cases x) simp_all

lemma keeps_let [inv_intros]: "keeps I (f x) \<Longrightarrow> keeps I (Let x f)"
  by simp

subsection \<open>Values: what an effect can return\<close>

definition returns :: "('a \<Rightarrow> bool) \<Rightarrow> ('s, 'a) eff \<Rightarrow> bool" where
  "returns P m \<longleftrightarrow> (\<forall>s a. fst (m s) = Ret a \<longrightarrow> P a)"

lemma returnsD: "returns P m \<Longrightarrow> m s = (Ret a, s') \<Longrightarrow> P a"
  by (auto simp: returns_def) (metis fst_conv)

lemma returns_ret: "P a \<Longrightarrow> returns P (ret a)"
  by (simp add: returns_def ret_def)

lemma returns_True: "returns (\<lambda>_. True) m"
  by (simp add: returns_def)

lemma returns_bindE: "(\<And>a. returns P (k a)) \<Longrightarrow> returns P (bindE m k)"
  by (auto simp: returns_def bindE_cases split: outcome.splits)

lemma returns_bindE_via:
  "returns Q m \<Longrightarrow> (\<And>a. Q a \<Longrightarrow> returns P (k a)) \<Longrightarrow> returns P (bindE m k)"
  unfolding returns_def by (simp add: bindE_cases split: outcome.splits) blast

lemma returns_if: "(b \<Longrightarrow> returns P m) \<Longrightarrow> (\<not> b \<Longrightarrow> returns P m') \<Longrightarrow> returns P (if b then m else m')"
  by simp

lemma returns_tryE: "returns P m \<Longrightarrow> (\<And>e. returns P (h e)) \<Longrightarrow> returns P (tryE m h)"
  by (auto simp: returns_def tryE_cases split: outcome.splits)

lemma returns_foldE:
  "P acc \<Longrightarrow> (\<And>x acc. x \<in> set xs \<Longrightarrow> P acc \<Longrightarrow> returns P (f x acc)) \<Longrightarrow> returns P (foldE f xs acc)"
  by (induction xs arbitrary: acc) (auto intro!: returns_bindE_via [where Q = P] returns_ret)

lemma keeps_bindE_via:
  assumes "keeps I m" and "returns P m" and "\<And>a. P a \<Longrightarrow> keeps I (k a)"
  shows "keeps I (bindE m k)"
proof (rule keepsI)
  fix s assume s: "I s"
  show "I (snd (bindE m k s))"
  proof (cases "fst (m s)")
    case (Ret a)
    then have "P a" using assms(2) by (simp add: returns_def)
    then show ?thesis using Ret assms(1,3) s by (simp add: bindE_cases keepsD)
  qed (use assms(1) s in \<open>simp_all add: bindE_cases keepsD\<close>)
qed

text \<open>A counted loop whose accumulator satisfies \<open>P i\<close> before round \<open>i\<close>.\<close>

lemma keeps_repeatE_via:
  assumes "P i acc"
    and "\<And>j acc. i \<le> j \<Longrightarrow> j < i + n \<Longrightarrow> P j acc \<Longrightarrow> c acc \<Longrightarrow> keeps I (b acc) \<and> returns (P (Suc j)) (b acc)"
  shows "keeps I (repeatE n c b acc)"
  using assms
proof (induction n arbitrary: i acc)
  case 0
  then show ?case by (simp add: keeps_ret)
next
  case (Suc n)
  show ?case
  proof (cases "c acc")
    case True
    then have "keeps I (b acc)" and "returns (P (Suc i)) (b acc)"
      using Suc.prems(1) Suc.prems(2) [of i acc] True by simp_all
    moreover have "keeps I (repeatE n c b a)" if "P (Suc i) a" for a
    proof (rule Suc.IH [of "Suc i", OF that])
      fix j acc assume "Suc i \<le> j" "j < Suc i + n" "P j acc" "c acc"
      then show "keeps I (b acc) \<and> returns (P (Suc j)) (b acc)"
        by (intro Suc.prems(2)) simp_all
    qed
    ultimately show ?thesis using True by (simp add: keeps_bindE_via)
  qed (simp add: keeps_ret)
qed

subsection \<open>Effects without undefined behaviour, and without exceptions\<close>

text \<open>
  \<open>safe t I P m\<close>: from a state with \<open>I\<close> the effect keeps \<open>I\<close>, never has undefined behaviour,
  throws only if \<open>t\<close> permits it, and a value it returns satisfies \<open>P\<close>.
\<close>

fun permits :: "bool \<Rightarrow> ('a \<Rightarrow> bool) \<Rightarrow> 'a outcome \<Rightarrow> bool" where
  "permits t P (Ret a) = P a"
| "permits t P (Throw m) = t"
| "permits t P Undef = False"
| "permits t P Spin = True"

definition safe :: "bool \<Rightarrow> ('s \<Rightarrow> bool) \<Rightarrow> ('a \<Rightarrow> bool) \<Rightarrow> ('s, 'a) eff \<Rightarrow> bool" where
  "safe t I P m \<longleftrightarrow> (\<forall>s. I s \<longrightarrow> I (snd (m s)) \<and> permits t P (fst (m s)))"

lemma safeI: "(\<And>s. I s \<Longrightarrow> I (snd (m s)) \<and> permits t P (fst (m s))) \<Longrightarrow> safe t I P m"
  by (simp add: safe_def)

lemma safeD: "safe t I P m \<Longrightarrow> I s \<Longrightarrow> I (snd (m s)) \<and> permits t P (fst (m s))"
  by (simp add: safe_def)

abbreviation any :: "'a \<Rightarrow> bool" where
  "any \<equiv> \<lambda>_. True"

lemma safe_keeps: "safe t I P m \<Longrightarrow> keeps I m"
  by (simp add: safe_def keeps_def)

lemma safe_Ret: "safe t I P m \<Longrightarrow> I s \<Longrightarrow> m s = (Ret a, s') \<Longrightarrow> P a \<and> I s'"
  using safeD [of t I P m s] by simp

lemma safe_ret: "P a \<Longrightarrow> safe t I P (ret a)"
  by (simp add: safe_def ret_def)

lemma safe_throw: "safe True I P (throw m)"
  by (simp add: safe_def throw_def)

lemma safe_spin [nothrow_intros]: "safe t I P spin"
  by (simp add: safe_def spin_def)

lemma safe_mono: "safe t I P m \<Longrightarrow> (t \<Longrightarrow> t') \<Longrightarrow> (\<And>a. P a \<Longrightarrow> Q a) \<Longrightarrow> safe t' I Q m"
  unfolding safe_def by (metis permits.elims(2,3) permits.simps)

lemma safe_any: "safe t I P m \<Longrightarrow> safe t I any m"
  by (erule safe_mono) simp_all

lemma safe_throws: "safe False I P m \<Longrightarrow> safe t I P m"
  by (erule safe_mono) simp_all

lemma safe_gets: "(\<And>s. I s \<Longrightarrow> P (f s)) \<Longrightarrow> safe t I P (gets f)"
  by (simp add: safe_def gets_def)

lemma safe_modify: "(\<And>s. I s \<Longrightarrow> I (f s)) \<Longrightarrow> safe t I any (modify f)"
  by (simp add: safe_def modify_def)

lemma safe_bindE:
  "safe t I Q m \<Longrightarrow> (\<And>a. Q a \<Longrightarrow> safe t I P (k a)) \<Longrightarrow> safe t I P (bindE m k)"
  by (rule safeI, drule safeD, assumption) (auto simp: bindE_cases safe_def split: outcome.splits)

lemma safe_bindE_any:
  "safe t I any m \<Longrightarrow> (\<And>a. safe t I P (k a)) \<Longrightarrow> safe t I P (bindE m k)"
  by (rule safe_bindE)

lemma safe_bindE_gets:
  "(\<And>s. I s \<Longrightarrow> safe t I P (k (f s))) \<Longrightarrow> safe t I P (bindE (gets f) k)"
  unfolding safe_def by (auto simp: bindE_def gets_def)

lemma safe_seqE: "safe t I any m \<Longrightarrow> safe t I P k \<Longrightarrow> safe t I P (seqE m k)"
  by (simp add: seqE_def safe_bindE_any)

lemma safe_tryE: "safe True I P m \<Longrightarrow> (\<And>e. safe t I P (h e)) \<Longrightarrow> safe t I P (tryE m h)"
  by (rule safeI, drule safeD, assumption) (auto simp: tryE_cases safe_def split: outcome.splits)

lemma safe_whenE: "(b \<Longrightarrow> safe t I any m) \<Longrightarrow> safe t I any (whenE b m)"
  by (simp add: whenE_def safe_ret)

lemma safe_if: "(b \<Longrightarrow> safe t I P m) \<Longrightarrow> (\<not> b \<Longrightarrow> safe t I P m') \<Longrightarrow> safe t I P (if b then m else m')"
  by simp

lemma safe_loopE:
  "(\<And>l. safe t I (\<lambda>x. case x of Inl _ \<Rightarrow> True | Inr a \<Rightarrow> P a) (b l)) \<Longrightarrow> safe t I P (loopE n b l)"
proof (induction n arbitrary: l)
  case 0
  then show ?case by (simp add: safe_def)
next
  case (Suc n)
  show ?case
    unfolding loopE.simps
    by (rule safe_bindE [OF Suc.prems]) (auto intro: Suc safe_ret split: sum.splits)
qed

lemma safe_foldE:
  "P acc \<Longrightarrow> (\<And>x acc. x \<in> set xs \<Longrightarrow> P acc \<Longrightarrow> safe t I P (f x acc)) \<Longrightarrow> safe t I P (foldE f xs acc)"
  by (induction xs arbitrary: acc) (auto intro!: safe_bindE [where Q = P] safe_ret)

lemma safe_forE: "(\<And>x. x \<in> set xs \<Longrightarrow> safe t I any (f x)) \<Longrightarrow> safe t I any (forE xs f)"
  by (simp add: forE_def safe_foldE)

text \<open>A counted loop whose accumulator satisfies \<open>P i\<close> before round \<open>i\<close>.\<close>

lemma safe_repeatE:
  assumes "P i acc"
    and "\<And>j acc. i \<le> j \<Longrightarrow> j < i + n \<Longrightarrow> P j acc \<Longrightarrow> c acc \<Longrightarrow> safe t I (P (Suc j)) (b acc)"
    and "\<And>j acc. j \<le> i + n \<Longrightarrow> P j acc \<Longrightarrow> Q acc"
  shows "safe t I Q (repeatE n c b acc)"
  using assms
proof (induction n arbitrary: i acc)
  case 0
  then have "Q acc" by (meson le_add1)
  then show ?case by (simp add: safe_ret)
next
  case (Suc n)
  have "safe t I Q (repeatE n c b a)" if "P (Suc i) a" for a
    by (rule Suc.IH [of "Suc i", OF that]) (auto intro: Suc.prems)
  moreover have "safe t I (P (Suc i)) (b acc)" if "c acc"
    using Suc.prems that by simp
  ultimately show ?case
    using Suc.prems(1) Suc.prems(3) [of i acc] by (auto intro!: safe_bindE safe_ret)
qed

lemma safe_repeatE_any: "(\<And>acc. safe t I any (b acc)) \<Longrightarrow> safe t I any (repeatE n c b acc)"
  by (rule safe_repeatE [where P = "\<lambda>_ _. True"]) simp_all

lemma safe_at: "i < length xs \<Longrightarrow> safe t I any (at xs i)"
  by (simp add: at_def safe_ret)

lemma safe_slice: "off + n \<le> length xs \<Longrightarrow> safe t I any (slice xs off n)"
  by (simp add: slice_def safe_ret)

lemma safe_case_prod: "(\<And>a b. x = (a, b) \<Longrightarrow> safe t I P (f a b)) \<Longrightarrow> safe t I P (case_prod f x)"
  by (cases x) simp

lemma safe_case_prod_arg: "(\<And>a b. x = (a, b) \<Longrightarrow> safe t I P (f a b y)) \<Longrightarrow> safe t I P (case_prod f x y)"
  by (cases x) simp

lemma safe_let: "safe t I P (f x) \<Longrightarrow> safe t I P (Let x f)"
  by simp

lemma safe_case_option:
  "(x = None \<Longrightarrow> safe t I P m) \<Longrightarrow> (\<And>a. x = Some a \<Longrightarrow> safe t I P (f a)) \<Longrightarrow>
   safe t I P (case x of None \<Rightarrow> m | Some a \<Rightarrow> f a)"
  by (cases x) simp_all

lemmas safe_intros = safe_seqE safe_tryE safe_whenE safe_if safe_forE safe_let safe_case_prod safe_case_prod_arg

subsection \<open>Postconditions\<close>

text \<open>\<open>post P m Q\<close>: from a state with \<open>P\<close>, a value the effect returns and its final state satisfy \<open>Q\<close>.\<close>

definition post :: "('s \<Rightarrow> bool) \<Rightarrow> ('s, 'a) eff \<Rightarrow> ('a \<Rightarrow> 's \<Rightarrow> bool) \<Rightarrow> bool" where
  "post P m Q \<longleftrightarrow> (\<forall>s a s'. P s \<longrightarrow> m s = (Ret a, s') \<longrightarrow> Q a s')"

lemma postI: "(\<And>s a s'. P s \<Longrightarrow> m s = (Ret a, s') \<Longrightarrow> Q a s') \<Longrightarrow> post P m Q"
  by (simp add: post_def)

lemma postD: "post P m Q \<Longrightarrow> P s \<Longrightarrow> m s = (Ret a, s') \<Longrightarrow> Q a s'"
  by (simp add: post_def)

lemma post_weaken: "post P m Q \<Longrightarrow> (\<And>s. P' s \<Longrightarrow> P s) \<Longrightarrow> (\<And>a s. Q a s \<Longrightarrow> Q' a s) \<Longrightarrow> post P' m Q'"
  unfolding post_def by blast

lemma post_keeps: "keeps P m \<Longrightarrow> post P m (\<lambda>_. P)"
  by (rule postI) (metis keepsD snd_conv)

lemma post_ret: "(\<And>s. P s \<Longrightarrow> Q a s) \<Longrightarrow> post P (ret a) Q"
  by (simp add: post_def ret_def)

lemma post_gets: "(\<And>s. P s \<Longrightarrow> Q (f s) s) \<Longrightarrow> post P (gets f) Q"
  by (simp add: post_def gets_def)

lemma post_modify: "(\<And>s. P s \<Longrightarrow> Q () (f s)) \<Longrightarrow> post P (modify f) Q"
  by (simp add: post_def modify_def)

lemma bindE_Ret: "bindE m k s = (Ret b, s') \<longleftrightarrow> (\<exists>a t. m s = (Ret a, t) \<and> k a t = (Ret b, s'))"
  by (auto simp: bindE_def split: prod.splits outcome.splits)

lemma seqE_Ret: "seqE m k s = (Ret b, s') \<longleftrightarrow> (\<exists>t. m s = (Ret (), t) \<and> k t = (Ret b, s'))"
  by (simp add: seqE_def bindE_Ret)

lemma post_bindE: "post P m R \<Longrightarrow> (\<And>a. post (R a) (k a) Q) \<Longrightarrow> post P (bindE m k) Q"
  unfolding post_def bindE_Ret by blast

lemma post_bindE_gets: "(\<And>x. post (\<lambda>s. P s \<and> f s = x) (k x) Q) \<Longrightarrow> post P (bindE (gets f) k) Q"
  unfolding post_def bindE_Ret gets_def by blast

lemma post_seqE: "post P m (\<lambda>_. R) \<Longrightarrow> post R k Q \<Longrightarrow> post P (seqE m k) Q"
  unfolding seqE_def by (rule post_bindE)

lemma post_tryE:
  assumes "post P m Q" and "keeps P m" and "\<And>e. post P (h e) Q"
  shows "post P (tryE m h) Q"
proof (rule postI)
  fix s a s' assume "P s" and run: "tryE m h s = (Ret a, s')"
  then have "P (snd (m s))" using assms(2) by (simp add: keepsD)
  then show "Q a s'"
    using run \<open>P s\<close> assms(1,3) by (cases "m s") (auto simp: tryE_def post_def split: outcome.splits)
qed

lemma post_if: "(b \<Longrightarrow> post P m Q) \<Longrightarrow> (\<not> b \<Longrightarrow> post P m' Q) \<Longrightarrow> post P (if b then m else m') Q"
  by simp

lemma post_case_option:
  "(x = None \<Longrightarrow> post P m Q) \<Longrightarrow> (\<And>a. x = Some a \<Longrightarrow> post P (f a) Q) \<Longrightarrow>
   post P (case x of None \<Rightarrow> m | Some a \<Rightarrow> f a) Q"
  by (cases x) simp_all

lemma post_foldE:
  "(\<And>x ys acc. x \<in> set xs \<Longrightarrow> post (P (x # ys) acc) (f x acc) (P ys)) \<Longrightarrow> post (P xs acc) (foldE f xs acc) (P [])"
proof (induction xs arbitrary: acc)
  case (Cons x xs)
  have "post (P xs a) (foldE f xs a) (P [])" for a
    by (rule Cons.IH) (simp add: Cons.prems)
  then show ?case by (auto intro: post_bindE [OF Cons.prems])
qed (simp add: post_ret)

lemma post_loopE:
  "(\<And>l. post P (b l) (\<lambda>x s. case x of Inl _ \<Rightarrow> P s | Inr a \<Rightarrow> Q a s)) \<Longrightarrow> post P (loopE n b l) Q"
proof (induction n arbitrary: l)
  case 0
  then show ?case by (simp add: post_def)
next
  case (Suc n)
  show ?case
    unfolding loopE.simps
    by (rule post_bindE [OF Suc.prems]) (auto intro: Suc post_ret split: sum.splits)
qed

lemma post_loopE_acc:
  "(\<And>l. post (I l) (b l) (\<lambda>x s. case x of Inl l' \<Rightarrow> I l' s | Inr a \<Rightarrow> Q a s)) \<Longrightarrow> post (I l) (loopE n b l) Q"
proof (induction n arbitrary: l)
  case 0
  then show ?case by (simp add: post_def)
next
  case (Suc n)
  show ?case
    unfolding loopE.simps
    by (rule post_bindE [OF Suc.prems]) (auto intro: Suc post_ret split: sum.splits)
qed

subsection \<open>What holds on return and what holds on every outcome\<close>

text \<open>\<open>ends P m Q I\<close>: from a state in \<open>P\<close> every outcome leaves the state in \<open>I\<close>, and a return in \<open>Q\<close>.\<close>

definition ends :: "('s \<Rightarrow> bool) \<Rightarrow> ('s, 'a) eff \<Rightarrow> ('a \<Rightarrow> 's \<Rightarrow> bool) \<Rightarrow> ('s \<Rightarrow> bool) \<Rightarrow> bool" where
  "ends P m Q I \<longleftrightarrow> (\<forall>s. P s \<longrightarrow> I (snd (m s)) \<and> (\<forall>a. fst (m s) = Ret a \<longrightarrow> Q a (snd (m s))))"

lemma ends_I: "ends P m Q I \<Longrightarrow> P s \<Longrightarrow> I (snd (m s))"
  by (simp add: ends_def)

lemma ends_keeps: "keeps P m \<Longrightarrow> (\<And>s. P s \<Longrightarrow> I s) \<Longrightarrow> ends P m (\<lambda>_. P) I"
  by (simp add: ends_def keeps_def)

lemma ends_any: "keeps I m \<Longrightarrow> (\<And>s. P s \<Longrightarrow> I s) \<Longrightarrow> ends P m (\<lambda>_ _. True) I"
  by (auto simp: ends_def keeps_def)

lemma ends_bindE: "ends P m R I \<Longrightarrow> (\<And>a. ends (R a) (k a) Q I) \<Longrightarrow> ends P (bindE m k) Q I"
  by (auto simp: ends_def bindE_cases split: outcome.splits)

lemma ends_gets: "(\<And>s. P s \<Longrightarrow> Q (f s) s \<and> I s) \<Longrightarrow> ends P (gets f) Q I"
  by (auto simp: ends_def gets_def)

lemma ends_modify: "(\<And>s. P s \<Longrightarrow> Q () (f s) \<and> I (f s)) \<Longrightarrow> ends P (modify f) Q I"
  by (auto simp: ends_def modify_def)

lemma ends_ret: "(\<And>s. P s \<Longrightarrow> Q a s \<and> I s) \<Longrightarrow> ends P (ret a) Q I"
  by (auto simp: ends_def ret_def)

lemma ends_throw: "(\<And>s. P s \<Longrightarrow> I s) \<Longrightarrow> ends P (throw m) Q I"
  by (auto simp: ends_def throw_def)

lemma ends_if: "(b \<Longrightarrow> ends P m Q I) \<Longrightarrow> (\<not> b \<Longrightarrow> ends P m' Q I) \<Longrightarrow> ends P (if b then m else m') Q I"
  by simp

lemma ends_pre: "ends P m Q I \<Longrightarrow> (\<And>s. P' s \<Longrightarrow> P s) \<Longrightarrow> ends P' m Q I"
  by (auto simp: ends_def)

lemma ends_post: "ends P m Q I \<Longrightarrow> (\<And>a s. Q a s \<Longrightarrow> Q' a s) \<Longrightarrow> ends P m Q' I"
  by (auto simp: ends_def)

lemma ends_pure: "(Z \<Longrightarrow> ends P m Q I) \<Longrightarrow> ends (\<lambda>s. P s \<and> Z) m Q I"
  by (auto simp: ends_def)

end
