(* ===== verification/Doubles.thy ===== *)
theory Doubles
  imports Prelude "HOL-Library.Log_Nat"
begin

section \<open>Double-precision arithmetic\<close>

text \<open>
  The value of a non-negative C++ \<^verbatim>\<open>double\<close> is a rational number; an operation gives the exact result rounded
  to 53 significant bits, to the nearest value and, half way, to the even one. Overflow and denormal numbers do not
  occur in the ranges the code uses (values between \<open>2 ^ -64\<close> and \<open>2 ^ 64\<close>).
\<close>

type_synonym double = rat

definition round_even :: "rat \<Rightarrow> int" where
  "round_even x =
     (let f = \<lfloor>x\<rfloor>; d = x - of_int f in
      if d < 1 / 2 then f else if d > 1 / 2 then f + 1 else if even f then f else f + 1)"

definition ulp_exponent :: "rat \<Rightarrow> int" where
  "ulp_exponent q =
     (case quotient_of q of (p, r) \<Rightarrow>
      let e = bitlen p - bitlen r - 53 in if 2 ^ 53 * (2 powi e) \<le> q then e + 1 else e)"

definition rounded :: "rat \<Rightarrow> double" where
  "rounded q = (if q \<le> 0 then 0 else of_int (round_even (q / 2 powi ulp_exponent q)) * 2 powi ulp_exponent q)"

definition of_uint :: "'a::len word \<Rightarrow> double" where
  "of_uint w = rounded (of_nat (unat w))"

subsection \<open>The error of a rounding\<close>

lemma round_even_error: "\<bar>of_int (round_even x) - x\<bar> \<le> 1 / 2"
proof -
  have "of_int \<lfloor>x\<rfloor> \<le> x" "x < of_int \<lfloor>x\<rfloor> + 1" using floor_correct [of x] by simp_all
  then show ?thesis unfolding round_even_def Let_def abs_le_iff by (simp split: if_splits) linarith
qed

lemma round_even_int [simp]: "round_even (of_int k) = k"
  by (simp add: round_even_def)

lemma bitlen_rat:
  assumes "0 < p"
  shows "2 powi (bitlen p - 1) \<le> (of_int p :: rat)" "(of_int p :: rat) < 2 powi (bitlen p)"
proof -
  have b: "2 ^ nat (bitlen p - 1) \<le> p" "p < 2 ^ nat (bitlen p)" using bitlen_bounds [OF assms] by auto
  have "0 < bitlen p" using assms bitlen_eq_zero_iff [of p] bitlen_nonneg [of p] by linarith
  then have n: "(2 :: rat) powi (bitlen p - 1) = 2 ^ nat (bitlen p - 1)" "(2 :: rat) powi (bitlen p) = 2 ^ nat (bitlen p)"
    by (simp_all add: power_int_def)
  have "(of_int (2 ^ nat (bitlen p - 1)) :: rat) \<le> of_int p" "(of_int p :: rat) < of_int (2 ^ nat (bitlen p))"
    using b by (simp_all only: of_int_le_iff of_int_less_iff)
  then show "2 powi (bitlen p - 1) \<le> (of_int p :: rat)" "(of_int p :: rat) < 2 powi (bitlen p)"
    unfolding n by simp_all
qed

lemma ulp_exponent_bounds:
  assumes "0 < q"
  shows "2 ^ 52 \<le> q / 2 powi ulp_exponent q" "q / 2 powi ulp_exponent q < 2 ^ 53"
proof -
  obtain p r where pr: "quotient_of q = (p, r)" by (cases "quotient_of q")
  have r: "0 < r" by (rule quotient_of_denom_pos [OF pr])
  have q: "q = of_int p / of_int r" by (rule quotient_of_div [OF pr])
  have p: "0 < p" using assms r by (simp add: q zero_less_divide_iff)
  define e where "e = bitlen p - bitlen r - 53"
  note bp = bitlen_rat [OF p] and br = bitlen_rat [OF r]
  have pos: "0 < (of_int r :: rat)" "0 < (2 powi k :: rat)" for k using r by simp_all
  have split: "(2 :: rat) powi (bitlen p) = 2 powi e * 2 powi (bitlen r) * 2 ^ 53"
    "(2 :: rat) powi (bitlen p - 1) = 2 powi e * 2 powi (bitlen r) * 2 ^ 52"
  proof -
    have "bitlen p = e + bitlen r + 53" "bitlen p - 1 = e + bitlen r + 52" by (simp_all add: e_def)
    moreover have "(2 :: rat) powi (e + bitlen r + 53) = 2 powi e * 2 powi (bitlen r) * 2 ^ 53"
      "(2 :: rat) powi (e + bitlen r + 52) = 2 powi e * 2 powi (bitlen r) * 2 ^ 52"
      by (subst power_int_add, simp, subst power_int_add, simp, simp add: power_int_def)+
    ultimately show "(2 :: rat) powi (bitlen p) = 2 powi e * 2 powi (bitlen r) * 2 ^ 53"
      "(2 :: rat) powi (bitlen p - 1) = 2 powi e * 2 powi (bitlen r) * 2 ^ 52"
      by (simp_all only:)
  qed
  have low: "2 ^ 52 * 2 powi e < q"
  proof -
    have "2 ^ 52 * 2 powi e * of_int r < 2 ^ 52 * 2 powi e * (2 powi (bitlen r) :: rat)"
      using br(2) pos by (intro mult_strict_left_mono) simp_all
    also have "\<dots> \<le> of_int p" using bp(1) unfolding split by (simp add: mult_ac)
    finally show ?thesis using pos by (simp add: q pos_less_divide_eq)
  qed
  have high: "q < 2 ^ 54 * 2 powi e"
  proof -
    have b2: "(2 :: rat) powi (bitlen r) = 2 * 2 powi (bitlen r - 1)"
      using power_int_add [of "2 :: rat" 1 "bitlen r - 1"] by simp
    have "of_int p < 2 powi e * (2 powi (bitlen r) :: rat) * 2 ^ 53" using bp(2) unfolding split .
    also have "\<dots> = 2 ^ 54 * 2 powi e * 2 powi (bitlen r - 1)" unfolding b2 by simp
    also have "\<dots> \<le> 2 ^ 54 * 2 powi e * of_int r" using br(1) pos by (intro mult_left_mono) simp_all
    finally show ?thesis using pos by (simp add: q pos_divide_less_eq)
  qed
  have step: "(2 :: rat) powi (e + 1) = 2 * 2 powi e" by (simp add: power_int_add_1')
  have u: "ulp_exponent q = (if 2 ^ 53 * 2 powi e \<le> q then e + 1 else e)"
    by (simp add: ulp_exponent_def pr e_def Let_def)
  show "2 ^ 52 \<le> q / 2 powi ulp_exponent q" "q / 2 powi ulp_exponent q < 2 ^ 53"
    unfolding u using low high pos by (auto simp: step pos_le_divide_eq pos_divide_less_eq)
qed

lemma rounded_error:
  assumes "0 < q"
  shows "\<bar>rounded q - q\<bar> \<le> q / 2 ^ 53"
proof -
  let ?u = "2 powi ulp_exponent q :: rat" and ?x = "q / 2 powi ulp_exponent q"
  have u: "0 < ?u" by simp
  have "rounded q - q = (of_int (round_even ?x) - ?x) * ?u" using assms u by (simp add: rounded_def left_diff_distrib)
  then have "\<bar>rounded q - q\<bar> = \<bar>of_int (round_even ?x) - ?x\<bar> * ?u" using u by (simp add: abs_mult)
  also have "\<dots> \<le> 1 / 2 * ?u" using round_even_error u by (intro mult_right_mono) simp_all
  also have "\<dots> \<le> q / 2 ^ 53" using ulp_exponent_bounds(1) [OF assms] u by (simp add: pos_le_divide_eq)
  finally show ?thesis .
qed

lemma rounded_exact:
  assumes "n < 2 ^ 53"
  shows "rounded (of_nat n) = of_nat n"
proof (cases "n = 0")
  case False
  let ?q = "of_nat n :: rat" and ?e = "ulp_exponent (of_nat n)"
  have q: "0 < ?q" using False by simp
  have "?q < 2 ^ 53" using assms proof -
    have "(of_nat n :: rat) < of_nat (2 ^ 53)" using assms by (rule of_nat_less_iff [THEN iffD2])
    then show ?thesis by simp
  qed
  have "(2 :: rat) powi ?e < 2"
  proof -
    have "2 ^ 52 * (2 :: rat) powi ?e \<le> ?q" using ulp_exponent_bounds(1) [OF q] by (simp add: pos_le_divide_eq)
    then show ?thesis using \<open>?q < 2 ^ 53\<close> by simp
  qed
  then have e: "?e \<le> 0" using power_int_increasing [of 1 ?e "2 :: rat"] by (cases "?e \<le> 0") simp_all
  have k: "?q / 2 powi ?e = of_int (int n * 2 ^ nat (- ?e))" using e by (simp add: power_int_def field_simps)
  have "rounded ?q = of_int (round_even (?q / 2 powi ?e)) * 2 powi ?e" using q by (simp add: rounded_def)
  also have "\<dots> = ?q / 2 powi ?e * 2 powi ?e" unfolding k round_even_int ..
  finally show ?thesis by simp
qed (simp add: rounded_def)

lemma of_uint_exact: "LENGTH('a) \<le> 53 \<Longrightarrow> of_uint (w :: 'a::len word) = of_nat (unat w)"
proof -
  assume "LENGTH('a) \<le> 53"
  then have "(2 :: nat) ^ LENGTH('a) \<le> 2 ^ 53" by (intro power_increasing) simp_all
  then have "unat w < 2 ^ 53" by (rule order_less_le_trans [OF unsigned_less])
  then show ?thesis unfolding of_uint_def by (rule rounded_exact)
qed

end
