(* ===== verification/Run_Plan.thy ===== *)
theory Run_Plan
  imports Effects Doubles
begin

section \<open>The Shared Run Plan: its text\<close>

text \<open>
  \<^verbatim>\<open>CFOFrontEndInterface\<close> (otsdaq-mu2e/FEInterfaces/CFOFrontEndInterfaceImpl.cc and CFOFrontEndInterface.h): a run plan is
  the program that the CFO (the board that starts all event windows) executes in an endless loop. The shared run plan
  has always the same operations; subsystems join and leave it by changes of the masks that its AND and OR operations
  apply to the mode bits of the next event. This theory holds the duty-cycle arithmetic and the generation of the
  plan's text; the CFO library, its compiler and the files are the record \<open>cfolib\<close>, functions on an environment.
\<close>

subsection \<open>The CFO and its library\<close>

text \<open>What a CFO did is recorded, the latest first: a plan's text written, a compiled plan loaded.\<close>

datatype lit = Hex u64 | Dec nat | KeepAll

datatype plan_op = SET_TAG u64 | LABEL | LOOP nat | DO_LOOP | GOTO_LABEL
  | AND_MODE_BITS nat nat lit | OR_MODE_BITS nat nat lit | OR_SINGLESHOT_MODE_BITS u64
  | HEARTBEAT | MARKER | WAIT string string | INC_TAG

type_synonym plan_line = "nat \<times> plan_op"

datatype plan_event = Written "plan_line list" | Loaded "u8 list"

record 'e cfo =
  cs_env :: 'e
  cs_planSize :: nat
  cs_percent :: "nat list"
  cs_hist :: "plan_event list"

datatype cfo_call = DisableBeamOnMode | DisableBeamOffMode | CfoSoftReset | EnableEmbeddedClockMarker | EnableLink
  | EnableBeamOffMode | SetLinuxTimestampPreset | DisableEmbeddedClockMarker | ClearControlRegister | DisableAllOutputs
  | ResetCoreSERDES | ResetSERDES | ReleaseAllBuffers | EnableAcceleratorRF0 | SetPunchEnable

datatype cfo_text = LinuxTimestamp | FormatRunPlanCurrentTag | FormatRunPlanCurrentMode | FormatBeamOnMode | FormatBeamOffMode
  | FormatRunPlanBeamOnBaseAddress | FormatRunPlanBeamOffBaseAddress

datatype cfo_count = RunPlanCurrentTag | ReceiveRF0MarkerCount | TransmitHeartbeatPacketCount | TransmitEventWindowMarkerCount

text \<open>The differences that \<^verbatim>\<open>CompareRunPlanData\<close> finds, in the order of their addresses, each with the expected and
  the actual word; and the masks of the AND and OR operations it reads back.\<close>

record readback =
  rb_mismatches :: "(u32 \<times> u32 \<times> u32) list"
  rb_and :: "u64 list"
  rb_or :: "u64 list"

datatype operating_mode = HARDWARE_DEV | LOOPBACK | EVENT_BUILDING | EVENT_BUILDING_AND_SYNC | OTHER_MODE

text \<open>The members of \<^verbatim>\<open>CFO_INSTR\<close> the code names; \<open>cf_code\<close> are their values and \<open>cf_ops\<close> is \<^verbatim>\<open>CODE_to_OP_TRANSLATION\<close>.\<close>

datatype op_name = OP_LOOP | OP_DO_LOOP | OP_MARKER | OP_OR_MODE_BITS | OP_OR_SINGLESHOT_MODE_BITS | OP_AND_MODE_BITS | OP_WAIT

record 'e cfolib =
  cf_operatingMode :: operating_mode
  cf_data_path :: "string + string"
  cf_FPGAClock :: u64
  cf_do :: "cfo_call \<Rightarrow> 'e \<Rightarrow> (string + unit) \<times> 'e"
  cf_text :: "cfo_text \<Rightarrow> 'e \<Rightarrow> (string + string) \<times> 'e"
  cf_count :: "cfo_count \<Rightarrow> 'e \<Rightarrow> (string + u64) \<times> 'e"
  cf_ReadBeamOnMode :: "'e \<Rightarrow> (string + bool) \<times> 'e"
  cf_ReadBeamOffMode :: "'e \<Rightarrow> (string + bool) \<times> 'e"
  cf_SetRunPlanData :: "u8 list \<Rightarrow> 'e \<Rightarrow> (string + unit) \<times> 'e"
  cf_CompareRunPlanData :: "u8 list \<Rightarrow> 'e \<Rightarrow> (string + readback) \<times> 'e"
  cf_processFile :: "string \<Rightarrow> string \<Rightarrow> 'e \<Rightarrow> (string + string) \<times> 'e"
  cf_write_file :: "string \<Rightarrow> string \<Rightarrow> 'e \<Rightarrow> bool \<times> 'e"
  cf_read_file :: "string \<Rightarrow> 'e \<Rightarrow> ((int \<times> string) + u8 list) \<times> 'e"
  cf_usleep :: "u64 \<Rightarrow> 'e \<Rightarrow> 'e"
  cf_code :: "op_name \<Rightarrow> u8"
  cf_ops :: "u8 \<Rightarrow> string option"
  cf_double :: "double \<Rightarrow> string"
  cf_getNumber :: "string \<Rightarrow> u64 option"
  cf_strtod :: "string \<Rightarrow> double"
  cf_split :: "string \<Rightarrow> string list"

type_synonym ('e, 'a) cfo_eff = "('e cfo, 'a) eff"

definition cfo_io :: "('e \<Rightarrow> (string + 'a) \<times> 'e) \<Rightarrow> ('e, 'a) cfo_eff" where
  "cfo_io f s = (case f (cs_env s) of (x, e) \<Rightarrow> ((case x of Inl m \<Rightarrow> Throw m | Inr a \<Rightarrow> Ret a), s\<lparr>cs_env := e\<rparr>))"

definition record_event :: "plan_event \<Rightarrow> ('e, unit) cfo_eff" where
  "record_event ev = modify (\<lambda>s. s\<lparr>cs_hist := ev # cs_hist s\<rparr>)"

abbreviation line_end :: string where
  "line_end \<equiv> [CHR 0x0A]"

subsection \<open>The duty cycle\<close>

definition standardNValues :: "nat list" where
  "standardNValues = [100, 200, 1000, 2000, 10000, 100000, 1000000, 10000000, 100000000, 1000000000]"

text \<open>The conversion of a \<^verbatim>\<open>double\<close> to an unsigned type cuts off the fraction; a value out of range has no defined result.\<close>

definition to_uint32 :: "double \<Rightarrow> ('s, u32) eff" where
  "to_uint32 x = (if 0 \<le> x \<and> \<lfloor>x\<rfloor> < 2 ^ 32 then ret (word_of_int \<lfloor>x\<rfloor>) else undefined_behaviour)"

primrec search_N :: "double \<Rightarrow> nat list \<Rightarrow> ('s, u32 \<times> u32) eff" where
  "search_N t [] = ret (1, word_of_nat (last standardNValues))"
| "search_N t (n # ns) =
     bindE (to_uint32 (rounded (t * of_nat n))) (\<lambda>m.
     if m > 0 then ret (if n > 100 then 1 else m, word_of_nat n) else search_N t ns)"

definition getRatioOfOnPerEvents :: "u32 \<Rightarrow> u32 \<Rightarrow> ('s, u32 \<times> u32) eff" where
  "getRatioOfOnPerEvents clocksPerOn clocksPerEvent =
     (if clocksPerEvent = 0 then throw (''Invalid clocksPerEvent value: '' @ to_string (unat clocksPerEvent) @ line_end)
      else if clocksPerOn = 0 then throw (''Invalid clocksPerOn value: '' @ to_string (unat clocksPerOn) @ line_end)
      else let eventsPerOn = rounded (of_uint clocksPerOn / of_uint clocksPerEvent) in
           search_N (rounded (1 / eventsPerOn)) standardNValues)"

definition ratio_text :: "u32 \<Rightarrow> u32 \<Rightarrow> string" where
  "ratio_text m n = to_string (unat m) @ '':'' @ to_string (unat n)"

definition comma_numbers :: "nat list \<Rightarrow> string" where
  "comma_numbers ns = foldl (\<lambda>t n. (if t = [] then [] else t @ '', '') @ to_string n) [] ns"

text \<open>The log text, which the code appends to a stream of the caller, is returned with the ratio.\<close>

definition mnFixRatio :: "'e cfolib \<Rightarrow> string \<Rightarrow> u32 \<Rightarrow> u32 \<Rightarrow> ('s, string \<times> u32 \<times> u32) eff" where
  "mnFixRatio C lg m n =
     (let lg = lg @ ''Resolving input ratio M:N = '' @ ratio_text m n @ '' to N in  {'' @ comma_numbers standardNValues @ ''}...'' @ line_end in
      if n > 0 \<and> n < 100
      then if m = 0 \<or> m > n
           then throw (''Invalid sub-fine ratio M:N = '' @ ratio_text m n @ ''. M must satisfy 0 < M <= N.'' @ line_end)
           else if 100 mod n \<noteq> 0
           then throw (''Invalid sub-fine ratio M:N = '' @ ratio_text m n @ ''. N must satisfy 100 % N = 0.'' @ line_end)
           else ret (lg @ ''Sub-fine ratio accepted: M:N = '' @ ratio_text m n @ '' repeats '' @ to_string (unat (100 div n))
                     @ '' times per super-cycle.'' @ line_end, m, n)
      else let targetRatio = rounded (of_uint m / of_uint n) in
           bindE (getRatioOfOnPerEvents n m) (\<lambda>(m, n).
           let actualRatio = rounded (of_uint m / of_uint n);
               errPct = rounded (rounded (rounded \<bar>actualRatio - targetRatio\<bar> / targetRatio) * 100);
               lg = lg @ line_end @ ''Resolved input ratio to '' @ ratio_text m n @ ''. Target Ratio = '' @ cf_double C targetRatio
                     @ '', Actual Ratio = '' @ cf_double C actualRatio @ '', Err Pct = '' @ cf_double C errPct @ '' %'' @ line_end in
           if unat n \<notin> set standardNValues
           then throw (''Failed to resolve target ratio M:N = '' @ ratio_text m n @ line_end @ line_end @ line_end @ lg @ line_end)
           else if n \<noteq> 100 \<and> m \<noteq> 1
           then throw (''Invalid M:N ratio: '' @ ratio_text m n @ ''. For N > 100, M must be 1 to ensure periodicity.'' @ line_end
                       @ line_end @ line_end @ lg @ line_end)
           else ret (lg, m, n)))"

subsection \<open>The text of the plan\<close>

definition lit_text :: "lit \<Rightarrow> string" where
  "lit_text v = (case v of Hex w \<Rightarrow> ''0x'' @ radix_string 16 (unat w) | Dec k \<Rightarrow> to_string k | KeepAll \<Rightarrow> ''0xFFFFFFFFFFFF'')"

definition mode_bits_text :: "string \<Rightarrow> nat \<Rightarrow> nat \<Rightarrow> lit \<Rightarrow> string" where
  "mode_bits_text op start count v =
     op @ ''_MODE_BITS start_bit= '' @ to_string start @ '' bit_count= '' @ to_string count @ '' value= '' @ lit_text v"

definition op_text :: "plan_op \<Rightarrow> string" where
  "op_text p =
     (case p of
        SET_TAG t \<Rightarrow> ''SET_TAG '' @ to_string (unat t)
      | LABEL \<Rightarrow> ''LABEL //for infinite loop''
      | LOOP n \<Rightarrow> ''LOOP '' @ to_string n
      | DO_LOOP \<Rightarrow> ''DO_LOOP''
      | GOTO_LABEL \<Rightarrow> ''GOTO_LABEL //for infinite loop''
      | AND_MODE_BITS i n v \<Rightarrow> mode_bits_text ''AND'' i n v
      | OR_MODE_BITS i n v \<Rightarrow> mode_bits_text ''OR'' i n v
      | OR_SINGLESHOT_MODE_BITS v \<Rightarrow> mode_bits_text ''OR_SINGLESHOT'' 0 48 (Hex v)
      | HEARTBEAT \<Rightarrow> ''HEARTBEAT event_mode = registered // use existing run mode''
      | MARKER \<Rightarrow> ''MARKER''
      | WAIT v u \<Rightarrow> ''WAIT '' @ v @ '' '' @ u
      | INC_TAG \<Rightarrow> ''INC_TAG //increment event window tag'')"

definition plan_text :: "plan_line list \<Rightarrow> string" where
  "plan_text ls = concat (map (\<lambda>(d, p). replicate d (CHR 0x09) @ op_text p @ line_end) ls)"

text \<open>The lines of the plan's loops, from the masks of the operations: \<open>outer l\<close> are the lines before the loop of level
  \<open>l\<close>, \<open>slot i\<close> the lines of event \<open>i\<close> of the fine loop, \<open>after l\<close> the line after the loop of level \<open>l\<close>.\<close>

definition loop_start :: "(nat \<Rightarrow> plan_op list) \<Rightarrow> nat \<Rightarrow> plan_line list" where
  "loop_start outer l = map (Pair (10 - l)) (outer l @ [LOOP (standardNValues ! l div standardNValues ! (l - 1))])"

definition loop_end :: "(nat \<Rightarrow> plan_op) \<Rightarrow> nat \<Rightarrow> plan_line list" where
  "loop_end after l = [(11 - l, DO_LOOP), (10 - l, after l)]"

definition event_ops :: "string \<Rightarrow> string \<Rightarrow> plan_op list" where
  "event_ops num units = [HEARTBEAT, MARKER, WAIT num units, INC_TAG]"

definition plan_lines ::
  "u64 \<Rightarrow> (nat \<Rightarrow> plan_op list) \<Rightarrow> (nat \<Rightarrow> plan_op list) \<Rightarrow> plan_op \<Rightarrow> (nat \<Rightarrow> plan_op) \<Rightarrow> string \<Rightarrow> string \<Rightarrow> plan_line list" where
  "plan_lines tag outer slot fine_end after num units =
     [(0, SET_TAG tag), (0, LABEL)]
     @ concat (map (loop_start outer) (rev [1..<10]))
     @ map (Pair 10) (concat (map (\<lambda>i. slot i @ event_ops num units) [0..<100]))
     @ [(10, fine_end)]
     @ concat (map (loop_end after) [1..<10])
     @ [(0, GOTO_LABEL)]"

definition write_plan :: "'e cfolib \<Rightarrow> string \<Rightarrow> plan_line list \<Rightarrow> ('e, unit) cfo_eff" where
  "write_plan C path ls =
     bindE (cfo_io (\<lambda>e. case cf_write_file C path (plan_text ls) e of (opened, e) \<Rightarrow> (Inr opened, e))) (\<lambda>opened.
     if opened then record_event (Written ls)
     else throw (''Error - please check path. Generated Run Plan file from template could not be created at '' @ path @ line_end))"

subsection \<open>Mode on\<close>

definition all48 :: u64 where "all48 = 0xFFFFFFFFFFFF"

text \<open>A shift by 64 and more has no defined result.\<close>

definition shl64 :: "u64 \<Rightarrow> u16 \<Rightarrow> ('s, u64) eff" where
  "shl64 v n = (if unat n < 64 then ret (push_bit (unat n) v) else undefined_behaviour)"

definition bits_mask :: "u16 \<Rightarrow> u16 \<Rightarrow> ('s, u64) eff" where
  "bits_mask start count = bindE (shl64 1 count) (\<lambda>k. shl64 (k - 1) start)"

definition set_bits :: "u64 \<Rightarrow> u16 \<Rightarrow> u16 \<Rightarrow> ('s, u64) eff" where
  "set_bits v start count = bindE (shl64 v start) (\<lambda>a. bindE (bits_mask start count) (\<lambda>b. ret (a AND b)))"

definition fine_phase :: "nat \<Rightarrow> nat \<Rightarrow> nat" where
  "fine_phase offset i = (i + 100 - offset mod 100) mod 100"

definition sub_phase :: "nat \<Rightarrow> nat \<Rightarrow> nat \<Rightarrow> nat" where
  "sub_phase n offset i = (if n = 0 then 0 else (i + n - offset mod n) mod n)"

definition should_clear :: "nat \<Rightarrow> nat \<Rightarrow> nat \<Rightarrow> nat \<Rightarrow> bool" where
  "should_clear m n offset i \<longleftrightarrow>
     (n > 100 \<and> i > 0) \<or> (n = 100 \<and> fine_phase offset i \<ge> m) \<or> (n < 100 \<and> sub_phase n offset i \<ge> m)"

definition should_set :: "nat \<Rightarrow> nat \<Rightarrow> nat \<Rightarrow> nat \<Rightarrow> bool" where
  "should_set m n offset i \<longleftrightarrow> (n = 100 \<and> fine_phase offset i < m) \<or> (n < 100 \<and> sub_phase n offset i < m)"

definition merged_and :: "u64 \<Rightarrow> nat \<Rightarrow> nat \<Rightarrow> nat \<Rightarrow> u64 list \<Rightarrow> nat \<Rightarrow> u64" where
  "merged_and bits m n offset ands i = ands ! i AND (if should_clear m n offset i then all48 AND NOT bits else all48)"

definition merged_or :: "u64 \<Rightarrow> nat \<Rightarrow> nat \<Rightarrow> nat \<Rightarrow> bool \<Rightarrow> u64 list \<Rightarrow> nat \<Rightarrow> u64" where
  "merged_or bits m n offset apply_or ors i = ors ! (9 + i) OR (if apply_or \<and> should_set m n offset i then bits else 0)"

definition coarse_or :: "u64 \<Rightarrow> nat \<Rightarrow> bool \<Rightarrow> u64 list \<Rightarrow> nat \<Rightarrow> u64" where
  "coarse_or bits n apply_or ors l = ors ! (9 - l) OR (if apply_or \<and> standardNValues ! l = n then bits else 0)"

definition shot_mask :: "u64 list \<Rightarrow> nat \<Rightarrow> u64" where
  "shot_mask shots k = (if shots \<noteq> [] then shots ! k else 0)"

definition on_lines ::
  "u64 \<Rightarrow> u64 \<Rightarrow> nat \<Rightarrow> nat \<Rightarrow> nat \<Rightarrow> string \<Rightarrow> string \<Rightarrow> u64 list \<Rightarrow> u64 list \<Rightarrow> u64 list \<Rightarrow> bool \<Rightarrow> plan_line list" where
  "on_lines tag bits m n offset num units ands ors shots apply_or =
     plan_lines tag
       (\<lambda>l. [OR_SINGLESHOT_MODE_BITS (shot_mask shots (9 - l)), OR_MODE_BITS 0 48 (Hex (coarse_or bits n apply_or ors l))])
       (\<lambda>i. [AND_MODE_BITS 0 48 (Hex (merged_and bits m n offset ands i)),
             OR_MODE_BITS 0 48 (Hex (merged_or bits m n offset apply_or ors i)),
             OR_SINGLESHOT_MODE_BITS (shot_mask shots (9 + i))])
       (AND_MODE_BITS 0 48 (Hex (ands ! 100)))
       (\<lambda>l. AND_MODE_BITS 0 48 (Hex (ands ! (100 + l))))
       num units"

definition masks_error :: "u64 list \<Rightarrow> u64 list \<Rightarrow> string" where
  "masks_error ands ors =
     ''existingAndMasks and existingOrMasks must each have size 110 and 109 respectively. Got andMasks='' @ to_string (length ands)
     @ '' orMasks='' @ to_string (length ors) @ line_end"

definition generateSharedRunPlanWithPeriodicModeOn ::
  "'e cfolib \<Rightarrow> string \<Rightarrow> string \<Rightarrow> u64 \<Rightarrow> u16 \<Rightarrow> u16 \<Rightarrow> u64 \<Rightarrow> u32 \<Rightarrow> u32 \<Rightarrow> u32 \<Rightarrow> string \<Rightarrow> string \<Rightarrow> u64 list \<Rightarrow> u64 list \<Rightarrow> u64 list
   \<Rightarrow> bool \<Rightarrow> ('e, string) cfo_eff" where
  "generateSharedRunPlanWithPeriodicModeOn C lg path tag start count v m n offset num units ands ors shots apply_or =
     bindE (if v = 0 \<and> m = 1 \<and> n = 1 then ret (lg, m, n) else mnFixRatio C lg m n) (\<lambda>(lg, m, n).
     if length ands \<noteq> 110 \<or> length ors \<noteq> 109 then throw (masks_error ands ors)
     else if shots \<noteq> [] \<and> length shots \<noteq> 109
     then throw (''singleShotMasks must have size 109 when provided. Got singleShotMasks='' @ to_string (length shots) @ line_end)
     else bindE (set_bits v start count) (\<lambda>bits.
          seqE (write_plan C path (on_lines tag bits (unat m) (unat n) (unat offset) num units ands ors shots apply_or)) (ret lg)))"

subsection \<open>Mode off\<close>

definition clear_bits :: "u16 \<Rightarrow> u16 \<Rightarrow> ('s, u64) eff" where
  "clear_bits start count = (if count > 0 then bits_mask start count else ret 0)"

definition off_lines :: "u64 \<Rightarrow> string \<Rightarrow> string \<Rightarrow> u64 list \<Rightarrow> u64 list \<Rightarrow> plan_line list" where
  "off_lines bits num units ands ors =
     plan_lines 0
       (\<lambda>l. [OR_SINGLESHOT_MODE_BITS 0, OR_MODE_BITS 0 48 (Hex (ors ! (9 - l) AND NOT bits))])
       (\<lambda>i. [AND_MODE_BITS 0 48 (Hex (ands ! i AND (all48 AND NOT bits))), OR_MODE_BITS 0 48 (Hex (ors ! (9 + i) AND NOT bits)),
             OR_SINGLESHOT_MODE_BITS 0])
       (AND_MODE_BITS 0 48 (Hex (ands ! 100 OR bits)))
       (\<lambda>l. AND_MODE_BITS 0 48 (Hex (ands ! (100 + l) OR bits)))
       num units"

definition legacy_off_lines :: "u16 \<Rightarrow> u16 \<Rightarrow> string \<Rightarrow> string \<Rightarrow> plan_line list" where
  "legacy_off_lines start count num units =
     plan_lines 0
       (\<lambda>l. [OR_SINGLESHOT_MODE_BITS 0, OR_MODE_BITS 0 1 (Dec 0)])
       (\<lambda>i. [AND_MODE_BITS (unat start) (unat count) (Dec 0), OR_MODE_BITS 0 1 (Dec 0), OR_SINGLESHOT_MODE_BITS 0])
       (AND_MODE_BITS 0 48 KeepAll) (\<lambda>l. AND_MODE_BITS 0 48 KeepAll) num units"

definition generateSharedRunPlanWithPeriodicModeOff ::
  "'e cfolib \<Rightarrow> string \<Rightarrow> u16 \<Rightarrow> u16 \<Rightarrow> string \<Rightarrow> string \<Rightarrow> u64 list \<Rightarrow> u64 list \<Rightarrow> ('e, unit) cfo_eff" where
  "generateSharedRunPlanWithPeriodicModeOff C path start count num units ands ors =
     (let useMasks = ands \<noteq> [] \<or> ors \<noteq> [] in
      if useMasks \<and> (length ands \<noteq> 110 \<or> length ors \<noteq> 109) then throw (masks_error ands ors)
      else bindE (clear_bits start count) (\<lambda>bits.
           write_plan C path (if useMasks then off_lines bits num units ands ors else legacy_off_lines start count num units)))"

end
