(* ===== verification/Run_Plan_Meaning.thy ===== *)
theory Run_Plan_Meaning
  imports Run_Plan
begin

section \<open>What a run plan does\<close>

text \<open>
  The operations of a run plan as the comments of the code document them: an AND keeps the mode bits where its mask
  is 1 and removes those where it is 0, an OR adds bits, a single-shot OR adds them once and is then cleared, the
  heartbeat starts an event with the mode bits of the moment, loops nest. \<open>op_step\<close> is a machine for the list of
  operations, whatever its indentation: program counter, stack of the open loops (where the body starts, rounds left),
  mode bits, and the single shots that have fired. It stops at the jump back to the label: \<open>pass\<close> is one pass of the
  endless loop. \<open>pass_level_run\<close> gives the events of a pass as a function of the plan's masks, level by level.
\<close>

subsection \<open>The machine\<close>

type_synonym machine = "nat \<times> (nat \<times> nat) list \<times> u64 \<times> nat set"

definition lit_val :: "lit \<Rightarrow> u64" where
  "lit_val v = (case v of Hex w \<Rightarrow> w | Dec k \<Rightarrow> word_of_nat k | KeepAll \<Rightarrow> all48)"

definition bit_field :: "nat \<Rightarrow> nat \<Rightarrow> u64" where
  "bit_field start count = push_bit start (mask count)"

definition and_bits :: "nat \<Rightarrow> nat \<Rightarrow> u64 \<Rightarrow> u64 \<Rightarrow> u64" where
  "and_bits start count v m = m AND (push_bit start v OR NOT (bit_field start count))"

definition or_bits :: "nat \<Rightarrow> nat \<Rightarrow> u64 \<Rightarrow> u64 \<Rightarrow> u64" where
  "or_bits start count v m = m OR (push_bit start v AND bit_field start count)"

definition label_pc :: "plan_op list \<Rightarrow> nat" where
  "label_pc P = length (takeWhile (\<lambda>p. p \<noteq> LABEL) P)"

fun op_step :: "plan_op list \<Rightarrow> machine \<Rightarrow> u64 list \<times> machine" where
  "op_step P (pc, stk, m, F) =
     (case P ! pc of
        AND_MODE_BITS i n v \<Rightarrow> ([], pc + 1, stk, and_bits i n (lit_val v) m, F)
      | OR_MODE_BITS i n v \<Rightarrow> ([], pc + 1, stk, or_bits i n (lit_val v) m, F)
      | OR_SINGLESHOT_MODE_BITS v \<Rightarrow> ([], pc + 1, stk, if pc \<in> F then m else or_bits 0 48 v m, insert pc F)
      | HEARTBEAT \<Rightarrow> ([m], pc + 1, stk, m, F)
      | LOOP n \<Rightarrow> ([], pc + 1, (pc + 1, n) # stk, m, F)
      | DO_LOOP \<Rightarrow> (case stk of
            [] \<Rightarrow> ([], pc + 1, [], m, F)
          | (r, k) # t \<Rightarrow> if k > 1 then ([], r, (r, k - 1) # t, m, F) else ([], pc + 1, t, m, F))
      | GOTO_LABEL \<Rightarrow> ([], pc, stk, m, F)
      | _ \<Rightarrow> ([], pc + 1, stk, m, F))"

text \<open>A number of steps, with the modes of the events started on the way.\<close>

inductive exec :: "plan_op list \<Rightarrow> machine \<Rightarrow> u64 list \<Rightarrow> machine \<Rightarrow> bool" for P where
  exec_refl: "exec P s [] s"
| exec_step: "op_step P s = (e, t) \<Longrightarrow> exec P t es u \<Longrightarrow> exec P s (e @ es) u"

lemma exec_trans: "exec P s es t \<Longrightarrow> exec P t es' u \<Longrightarrow> exec P s (es @ es') u"
  by (induction rule: exec.induct) (auto intro: exec_step)

lemma exec_one: "op_step P s = (e, t) \<Longrightarrow> exec P s e t"
  using exec_step [of P s e t "[]" t] exec_refl by simp

definition halted :: "plan_op list \<Rightarrow> machine \<Rightarrow> bool" where
  "halted P s \<longleftrightarrow> P ! fst s = GOTO_LABEL"

lemma halted_step: "halted P s \<Longrightarrow> op_step P s = ([], s)"
  by (cases s) (simp add: halted_def)

lemma exec_halted: "exec P s es t \<Longrightarrow> halted P s \<Longrightarrow> es = [] \<and> t = s"
  by (induction rule: exec.induct) (auto simp: halted_step)

lemma exec_unique: "exec P s es t \<Longrightarrow> halted P t \<Longrightarrow> exec P s es' t' \<Longrightarrow> halted P t' \<Longrightarrow> es = es' \<and> t = t'"
proof (induction arbitrary: es' rule: exec.induct)
  case (exec_refl s)
  then show ?case using exec_halted by fastforce
next
  case (exec_step s e t es u)
  from exec_step.prems(2) show ?case
  proof cases
    case exec_refl
    then show ?thesis
      using exec_halted [OF exec.exec_step [OF exec_step.hyps(1, 2)]] exec_step.prems(3) by auto
  next
    case (exec_step e2 t2 es2)
    then show ?thesis
      using \<open>op_step P s = (e, t)\<close> exec_step.IH [of es2] \<open>halted P u\<close> \<open>halted P t'\<close> by auto
  qed
qed

text \<open>The state a pass starts in and the one it ends in are the mode bits and the single shots that have fired.\<close>

type_synonym mode = "u64 \<times> nat set"

definition pass :: "plan_line list \<Rightarrow> mode \<Rightarrow> u64 list \<Rightarrow> mode \<Rightarrow> bool" where
  "pass ls s es s' \<longleftrightarrow>
     (let P = map snd ls in \<exists>pc stk. exec P (label_pc P, [], s) es (pc, stk, s') \<and> halted P (pc, stk, s'))"

lemma pass_unique: "pass ls s es s' \<Longrightarrow> pass ls s es' s'' \<Longrightarrow> es = es' \<and> s' = s''"
  unfolding pass_def Let_def using exec_unique by blast

subsection \<open>Segments of the plan\<close>

text \<open>
  A segment's single shots are all armed (\<open>fresh\<close>) or have all fired. The run of a segment takes the mode bits to the
  events and the mode bits after it; then its single shots have fired, and no others.
\<close>

type_synonym seg_run = "bool \<Rightarrow> u64 \<Rightarrow> u64 list \<times> u64"

definition shots_are :: "bool \<Rightarrow> nat set \<Rightarrow> nat \<Rightarrow> plan_op list \<Rightarrow> bool" where
  "shots_are fresh F p ops \<longleftrightarrow> (\<forall>k<length ops. \<forall>v. ops ! k = OR_SINGLESHOT_MODE_BITS v \<longrightarrow> (p + k \<in> F \<longleftrightarrow> \<not> fresh))"

lemma shots_are_append: "shots_are fresh F p (xs @ ys) \<longleftrightarrow> shots_are fresh F p xs \<and> shots_are fresh F (p + length xs) ys"
  unfolding shots_are_def
proof -
  have *: "(\<forall>k<length (xs @ ys). Q k) \<longleftrightarrow> (\<forall>k<length xs. Q k) \<and> (\<forall>k<length ys. Q (length xs + k))" for Q
  proof (intro iffI conjI allI impI, goal_cases)
    case (3 k)
    then have l: "\<forall>k<length xs. Q k" and r: "\<forall>k<length ys. Q (length xs + k)" by simp_all
    show ?case
    proof (cases "k < length xs")
      case False
      with 3(2) have "k - length xs < length ys" by simp
      then show ?thesis using r False by (metis le_add_diff_inverse linorder_not_less)
    qed (use l in simp)
  qed simp_all
  show "(\<forall>k<length (xs @ ys). \<forall>v. (xs @ ys) ! k = OR_SINGLESHOT_MODE_BITS v \<longrightarrow> (p + k \<in> F) = (\<not> fresh)) \<longleftrightarrow>
      (\<forall>k<length xs. \<forall>v. xs ! k = OR_SINGLESHOT_MODE_BITS v \<longrightarrow> (p + k \<in> F) = (\<not> fresh)) \<and>
      (\<forall>k<length ys. \<forall>v. ys ! k = OR_SINGLESHOT_MODE_BITS v \<longrightarrow> (p + length xs + k \<in> F) = (\<not> fresh))"
    unfolding * by (simp add: nth_append add.assoc)
qed

lemma shots_are_loop: "shots_are fresh F p ([LOOP k] @ xs @ [DO_LOOP]) \<longleftrightarrow> shots_are fresh F (Suc p) xs"
  unfolding shots_are_append by (simp add: shots_are_def)

lemma shots_are_outside:
  "shots_are fresh F p ops \<Longrightarrow> F \<subseteq> F' \<Longrightarrow> F' \<subseteq> F \<union> {a..<b} \<Longrightarrow> b \<le> p \<or> p + length ops \<le> a \<Longrightarrow> shots_are fresh F' p ops"
  unfolding shots_are_def by (auto 0 3)

definition segment :: "plan_op list \<Rightarrow> seg_run \<Rightarrow> bool" where
  "segment ops f \<longleftrightarrow>
     (\<forall>xs ys stk m F fresh. shots_are fresh F (length xs) ops \<longrightarrow>
        (\<exists>F'. exec (xs @ ops @ ys) (length xs, stk, m, F) (fst (f fresh m)) (length xs + length ops, stk, snd (f fresh m), F')
           \<and> shots_are False F' (length xs) ops \<and> F \<subseteq> F' \<and> F' \<subseteq> F \<union> {length xs..<length xs + length ops}))"

lemma segmentE:
  assumes "segment ops f" "shots_are fresh F (length xs) ops"
  obtains F' where "exec (xs @ ops @ ys) (length xs, stk, m, F) (fst (f fresh m)) (length xs + length ops, stk, snd (f fresh m), F')"
    "shots_are False F' (length xs) ops" "F \<subseteq> F'" "F' \<subseteq> F \<union> {length xs..<length xs + length ops}"
  using assms unfolding segment_def by blast

definition andThen :: "seg_run \<Rightarrow> seg_run \<Rightarrow> seg_run" where
  "andThen f g fresh m = (fst (f fresh m) @ fst (g fresh (snd (f fresh m))), snd (g fresh (snd (f fresh m))))"

primrec rounds :: "nat \<Rightarrow> (u64 \<Rightarrow> u64 list \<times> u64) \<Rightarrow> u64 \<Rightarrow> u64 list \<times> u64" where
  "rounds 0 f m = ([], m)"
| "rounds (Suc k) f m = (fst (f m) @ fst (rounds k f (snd (f m))), snd (rounds k f (snd (f m))))"

definition looped :: "nat \<Rightarrow> seg_run \<Rightarrow> seg_run" where
  "looped k f fresh m =
     (fst (f fresh m) @ fst (rounds (k - 1) (f False) (snd (f fresh m))), snd (rounds (k - 1) (f False) (snd (f fresh m))))"

lemma segment_append:
  assumes f: "segment ops f" and g: "segment ops' g"
  shows "segment (ops @ ops') (andThen f g)"
  unfolding segment_def
proof (intro allI impI)
  fix xs ys stk m F fresh
  assume "shots_are fresh F (length (xs :: plan_op list)) (ops @ ops')"
  then have 1: "shots_are fresh F (length xs) ops" and 2: "shots_are fresh F (length (xs @ ops)) ops'"
    by (simp_all add: shots_are_append)
  from segmentE [OF f 1, of "ops' @ ys" stk m] obtain F' where
    F': "exec (xs @ ops @ ops' @ ys) (length xs, stk, m, F) (fst (f fresh m)) (length xs + length ops, stk, snd (f fresh m), F')"
      "shots_are False F' (length xs) ops" "F \<subseteq> F'" "F' \<subseteq> F \<union> {length xs..<length xs + length ops}" .
  have "shots_are fresh F' (length (xs @ ops)) ops'" by (rule shots_are_outside [OF 2 F'(3, 4)]) simp
  from segmentE [OF g this, of ys stk "snd (f fresh m)"] obtain F'' where
    F'': "exec ((xs @ ops) @ ops' @ ys) (length (xs @ ops), stk, snd (f fresh m), F') (fst (g fresh (snd (f fresh m))))
        (length (xs @ ops) + length ops', stk, snd (g fresh (snd (f fresh m))), F'')"
      "shots_are False F'' (length (xs @ ops)) ops'" "F' \<subseteq> F''" "F'' \<subseteq> F' \<union> {length (xs @ ops)..<length (xs @ ops) + length ops'}" .
  have "shots_are False F'' (length xs) ops" by (rule shots_are_outside [OF F'(2) F''(3, 4)]) simp
  moreover have "exec (xs @ (ops @ ops') @ ys) (length xs, stk, m, F) (fst (andThen f g fresh m))
      (length xs + length (ops @ ops'), stk, snd (andThen f g fresh m), F'')"
    using exec_trans [OF F'(1), of "fst (g fresh (snd (f fresh m)))"] F''(1) by (simp add: andThen_def add.assoc)
  moreover have "F'' \<subseteq> F \<union> {length xs..<length xs + length (ops @ ops')}"
    using F'(4) F''(4) by fastforce
  ultimately show "\<exists>F'. exec (xs @ (ops @ ops') @ ys) (length xs, stk, m, F) (fst (andThen f g fresh m))
      (length xs + length (ops @ ops'), stk, snd (andThen f g fresh m), F') \<and> shots_are False F' (length xs) (ops @ ops')
      \<and> F \<subseteq> F' \<and> F' \<subseteq> F \<union> {length xs..<length xs + length (ops @ ops')}"
    using F''(2, 3) F'(3) by (auto simp: shots_are_append)
qed

lemma segment_loop:
  assumes f: "segment ops f" and k: "0 < k"
  shows "segment ([LOOP k] @ ops @ [DO_LOOP]) (looped k f)"
  unfolding segment_def
proof (intro allI impI)
  fix xs ys stk m F fresh
  let ?L = "[LOOP k] @ ops @ [DO_LOOP]"
  let ?P = "xs @ ?L @ ys" and ?p = "length (xs :: plan_op list)"
  let ?q = "Suc ?p + length ops"
  assume "shots_are fresh F ?p ?L"
  then have S: "shots_are fresh F (length (xs @ [LOOP k])) ops" by (simp only: shots_are_loop length_append list.size) simp
  have op: "?P ! ?p = LOOP k" "?P ! ?q = DO_LOOP" by (simp_all add: nth_append)
  have outside: "shots_are False F' (Suc ?p) ops \<Longrightarrow> shots_are False F' ?p ?L" for F'
    by (simp only: shots_are_loop)
  have loop: "\<exists>F'. exec ?P (Suc ?p, (Suc ?p, Suc j) # stk, m, F) (fst (looped (Suc j) f fresh m)) (Suc ?q, stk, snd (looped (Suc j) f fresh m), F')
      \<and> shots_are False F' (Suc ?p) ops \<and> F \<subseteq> F' \<and> F' \<subseteq> F \<union> {Suc ?p..<?q}"
    if "shots_are fresh F (length (xs @ [LOOP k])) ops" for j m F fresh using that
  proof (induction j arbitrary: m F fresh)
    case (0 m F fresh)
    from segmentE [OF f 0, of "DO_LOOP # ys" "(Suc ?p, 1) # stk" m] obtain F' where
      F': "exec ?P (Suc ?p, (Suc ?p, 1) # stk, m, F) (fst (f fresh m)) (?q, (Suc ?p, 1) # stk, snd (f fresh m), F')"
        "shots_are False F' (Suc ?p) ops" "F \<subseteq> F'" "F' \<subseteq> F \<union> {Suc ?p..<?q}" by auto
    have "exec ?P (?q, (Suc ?p, 1) # stk, snd (f fresh m), F') [] (Suc ?q, stk, snd (f fresh m), F')"
      by (rule exec_one) (simp only: op_step.simps op plan_op.case, simp)
    from exec_trans [OF F'(1) this] F'(2-) show ?case by (auto simp: looped_def)
  next
    case (Suc j m F fresh)
    from segmentE [OF f Suc.prems, of "DO_LOOP # ys" "(Suc ?p, Suc (Suc j)) # stk" m] obtain F' where
      F': "exec ?P (Suc ?p, (Suc ?p, Suc (Suc j)) # stk, m, F) (fst (f fresh m)) (?q, (Suc ?p, Suc (Suc j)) # stk, snd (f fresh m), F')"
        "shots_are False F' (length (xs @ [LOOP k])) ops" "F \<subseteq> F'" "F' \<subseteq> F \<union> {Suc ?p..<?q}" by auto
    have "exec ?P (?q, (Suc ?p, Suc (Suc j)) # stk, snd (f fresh m), F') [] (Suc ?p, (Suc ?p, Suc j) # stk, snd (f fresh m), F')"
      by (rule exec_one) (simp only: op_step.simps op plan_op.case, simp)
    note step = exec_trans [OF F'(1) this]
    from Suc.IH [OF F'(2), of "snd (f fresh m)"] obtain F'' where
      F'': "exec ?P (Suc ?p, (Suc ?p, Suc j) # stk, snd (f fresh m), F') (fst (looped (Suc j) f False (snd (f fresh m))))
          (Suc ?q, stk, snd (looped (Suc j) f False (snd (f fresh m))), F'')"
        "shots_are False F'' (Suc ?p) ops" "F' \<subseteq> F''" "F'' \<subseteq> F' \<union> {Suc ?p..<?q}" by auto
    have "looped (Suc (Suc j)) f fresh m = (fst (f fresh m) @ fst (looped (Suc j) f False (snd (f fresh m))), snd (looped (Suc j) f False (snd (f fresh m))))"
      by (simp add: looped_def)
    moreover have "F \<subseteq> F''" "F'' \<subseteq> F \<union> {Suc ?p..<?q}" using F'(3, 4) F''(3, 4) by fast+
    ultimately show ?case using exec_trans [OF step F''(1)] F''(2) by (intro exI [of _ F'']) simp
  qed
  obtain j where j: "k = Suc j" using k by (cases k) auto
  from loop [OF S, of j m] obtain F' where
    F': "exec ?P (Suc ?p, (Suc ?p, k) # stk, m, F) (fst (looped k f fresh m)) (Suc ?q, stk, snd (looped k f fresh m), F')"
      "shots_are False F' (Suc ?p) ops" "F \<subseteq> F'" "F' \<subseteq> F \<union> {Suc ?p..<?q}" unfolding j by blast
  have "exec ?P (?p, stk, m, F) [] (Suc ?p, (Suc ?p, k) # stk, m, F)"
    by (rule exec_one) (simp only: op_step.simps op plan_op.case, simp)
  from exec_trans [OF this F'(1)] F'(3, 4) outside [OF F'(2)]
  show "\<exists>F'. exec ?P (?p, stk, m, F) (fst (looped k f fresh m)) (?p + length ?L, stk, snd (looped k f fresh m), F')
      \<and> shots_are False F' ?p ?L \<and> F \<subseteq> F' \<and> F' \<subseteq> F \<union> {?p..<?p + length ?L}"
    by (intro exI [of _ F']) auto
qed

text \<open>The operations of a plan that are not a loop's.\<close>

definition op_run :: "plan_op \<Rightarrow> seg_run" where
  "op_run x fresh m =
     (case x of
        AND_MODE_BITS i n v \<Rightarrow> ([], and_bits i n (lit_val v) m)
      | OR_MODE_BITS i n v \<Rightarrow> ([], or_bits i n (lit_val v) m)
      | OR_SINGLESHOT_MODE_BITS v \<Rightarrow> ([], if fresh then or_bits 0 48 v m else m)
      | HEARTBEAT \<Rightarrow> ([m], m)
      | _ \<Rightarrow> ([], m))"

definition straight :: "plan_op \<Rightarrow> bool" where
  "straight x = (case x of LOOP n \<Rightarrow> False | DO_LOOP \<Rightarrow> False | GOTO_LABEL \<Rightarrow> False | _ \<Rightarrow> True)"

primrec ops_run :: "plan_op list \<Rightarrow> seg_run" where
  "ops_run [] = (\<lambda>fresh m. ([], m))"
| "ops_run (x # xs) = andThen (op_run x) (ops_run xs)"

lemma segment_op: "straight x \<Longrightarrow> segment [x] (op_run x)"
  unfolding segment_def
proof (intro allI impI)
  fix xs ys stk m F fresh
  assume x: "straight x" and F: "shots_are fresh F (length (xs :: plan_op list)) [x]"
  have op: "(xs @ y # ys) ! length xs = y" for y by simp
  let ?F = "case x of OR_SINGLESHOT_MODE_BITS v \<Rightarrow> insert (length xs) F | _ \<Rightarrow> F"
  have "op_step (xs @ [x] @ ys) (length xs, stk, m, F) = (fst (op_run x fresh m), length xs + length [x], stk, snd (op_run x fresh m), ?F)"
    using x F by (cases x) (simp_all add: straight_def op_run_def shots_are_def)
  from exec_one [OF this]
  show "\<exists>F'. exec (xs @ [x] @ ys) (length xs, stk, m, F) (fst (op_run x fresh m)) (length xs + length [x], stk, snd (op_run x fresh m), F')
      \<and> shots_are False F' (length xs) [x] \<and> F \<subseteq> F' \<and> F' \<subseteq> F \<union> {length xs..<length xs + length [x]}"
    by (intro exI [of _ ?F]) (cases x; auto simp: shots_are_def)
qed

lemma segment_ops: "list_all straight xs \<Longrightarrow> segment xs (ops_run xs)"
proof (induction xs)
  case Nil
  show ?case by (auto simp: segment_def shots_are_def intro: exec_refl)
next
  case (Cons x xs)
  then have "segment ([x] @ xs) (andThen (op_run x) (ops_run xs))"
    by (intro segment_append segment_op) simp_all
  then show ?case by simp
qed

subsection \<open>The levels of the plan\<close>

text \<open>The masks of a plan: of the slots of the fine loop, of its end, and of the levels of the coarse loops.\<close>

record masks =
  mk_and :: "nat \<Rightarrow> u64"
  mk_or :: "nat \<Rightarrow> u64"
  mk_shot :: "nat \<Rightarrow> u64"
  mk_end :: u64
  mk_outer_shot :: "nat \<Rightarrow> u64"
  mk_outer_or :: "nat \<Rightarrow> u64"
  mk_after :: "nat \<Rightarrow> u64"

abbreviation and48 :: "u64 \<Rightarrow> plan_op" where "and48 v \<equiv> AND_MODE_BITS 0 48 (Hex v)"
abbreviation or48 :: "u64 \<Rightarrow> plan_op" where "or48 v \<equiv> OR_MODE_BITS 0 48 (Hex v)"

definition slot_ops :: "masks \<Rightarrow> string \<Rightarrow> string \<Rightarrow> nat \<Rightarrow> plan_op list" where
  "slot_ops M num units i = [and48 (mk_and M i), or48 (mk_or M i), OR_SINGLESHOT_MODE_BITS (mk_shot M i)] @ event_ops num units"

definition loop_count :: "nat \<Rightarrow> nat" where
  "loop_count l = standardNValues ! l div standardNValues ! (l - 1)"

primrec level_ops :: "masks \<Rightarrow> string \<Rightarrow> string \<Rightarrow> nat \<Rightarrow> plan_op list" where
  "level_ops M num units 0 = concat (map (slot_ops M num units) [0..<100]) @ [and48 (mk_end M)]"
| "level_ops M num units (Suc l) =
     [OR_SINGLESHOT_MODE_BITS (mk_outer_shot M (Suc l)), or48 (mk_outer_or M (Suc l))]
     @ ([LOOP (loop_count (Suc l))] @ level_ops M num units l @ [DO_LOOP]) @ [and48 (mk_after M (Suc l))]"

text \<open>The masks' plan, as the code prints it and by its levels.\<close>

definition mask_plan :: "u64 \<Rightarrow> masks \<Rightarrow> string \<Rightarrow> string \<Rightarrow> plan_line list" where
  "mask_plan tag M num units =
     plan_lines tag (\<lambda>l. [OR_SINGLESHOT_MODE_BITS (mk_outer_shot M l), or48 (mk_outer_or M l)])
       (\<lambda>i. [and48 (mk_and M i), or48 (mk_or M i), OR_SINGLESHOT_MODE_BITS (mk_shot M i)])
       (and48 (mk_end M)) (\<lambda>l. and48 (mk_after M l)) num units"

lemma levels: "[1..<10] = [1, 2, 3, 4, 5, 6, 7, 8, 9]"
  by (simp add: upt_rec)

lemma mask_plan_levels: "map snd (mask_plan tag M num units) = [SET_TAG tag, LABEL] @ level_ops M num units 9 @ [GOTO_LABEL]"
proof -
  have fine: "concat (map (\<lambda>i. [and48 (mk_and M i), or48 (mk_or M i), OR_SINGLESHOT_MODE_BITS (mk_shot M i)] @ event_ops num units) [0..<100])
      = concat (map (slot_ops M num units) [0..<100])"
    by (rule arg_cong [of _ _ concat], rule map_cong) (simp_all add: slot_ops_def)
  have pairs: "map snd (map (Pair k) xs) = xs" for k :: nat and xs :: "plan_op list"
    by (induction xs) simp_all
  have nine: "level_ops M num units 9 = level_ops M num units (Suc (Suc (Suc (Suc (Suc (Suc (Suc (Suc (Suc 0)))))))))"
    by (simp add: numeral_eq_Suc)
  show ?thesis
    unfolding mask_plan_def plan_lines_def levels fine loop_start_def loop_end_def map_append pairs nine
    by (simp add: loop_count_def numeral_eq_Suc)
qed

text \<open>What the levels do to the mode bits.\<close>

definition slot_mode :: "masks \<Rightarrow> bool \<Rightarrow> nat \<Rightarrow> u64 \<Rightarrow> u64" where
  "slot_mode M fresh i m =
     (let m = or_bits 0 48 (mk_or M i) (and_bits 0 48 (mk_and M i) m) in if fresh then or_bits 0 48 (mk_shot M i) m else m)"

primrec fine_run :: "masks \<Rightarrow> bool \<Rightarrow> nat list \<Rightarrow> u64 \<Rightarrow> u64 list \<times> u64" where
  "fine_run M fresh [] m = ([], m)"
| "fine_run M fresh (i # is) m =
     (slot_mode M fresh i m # fst (fine_run M fresh is (slot_mode M fresh i m)), snd (fine_run M fresh is (slot_mode M fresh i m)))"

definition enter_mode :: "masks \<Rightarrow> bool \<Rightarrow> nat \<Rightarrow> u64 \<Rightarrow> u64" where
  "enter_mode M fresh l m = or_bits 0 48 (mk_outer_or M l) (if fresh then or_bits 0 48 (mk_outer_shot M l) m else m)"

primrec level_run :: "masks \<Rightarrow> nat \<Rightarrow> seg_run" where
  "level_run M 0 = (\<lambda>fresh m. (fst (fine_run M fresh [0..<100] m), and_bits 0 48 (mk_end M) (snd (fine_run M fresh [0..<100] m))))"
| "level_run M (Suc l) = (\<lambda>fresh m.
     let r = looped (loop_count (Suc l)) (level_run M l) fresh (enter_mode M fresh (Suc l) m)
     in (fst r, and_bits 0 48 (mk_after M (Suc l)) (snd r)))"

lemma segment_fine: "segment (concat (map (slot_ops M num units) is)) (\<lambda>fresh. fine_run M fresh is)"
proof (induction "is")
  case Nil
  show ?case using segment_ops [of "[]"] by simp
next
  case (Cons i "is")
  have "segment (slot_ops M num units i) (ops_run (slot_ops M num units i))"
    by (rule segment_ops) (simp add: slot_ops_def event_ops_def straight_def)
  from segment_append [OF this Cons.IH]
  have "segment (concat (map (slot_ops M num units) (i # is))) (andThen (ops_run (slot_ops M num units i)) (\<lambda>fresh. fine_run M fresh is))"
    by simp
  moreover have "andThen (ops_run (slot_ops M num units i)) (\<lambda>fresh. fine_run M fresh is) = (\<lambda>fresh. fine_run M fresh (i # is))"
    by (intro ext) (simp add: andThen_def slot_ops_def event_ops_def op_run_def slot_mode_def lit_val_def Let_def)
  ultimately show ?case by (simp only:)
qed

lemma segment_and: "segment ops f \<Longrightarrow> segment (ops @ [and48 v]) (\<lambda>fresh m. (fst (f fresh m), and_bits 0 48 v (snd (f fresh m))))"
proof -
  assume f: "segment ops f"
  have "segment [and48 v] (ops_run [and48 v])" by (rule segment_ops) (simp add: straight_def)
  moreover have "andThen f (ops_run [and48 v]) = (\<lambda>fresh m. (fst (f fresh m), and_bits 0 48 v (snd (f fresh m))))"
    by (intro ext) (simp add: andThen_def op_run_def lit_val_def)
  ultimately show ?thesis using segment_append [OF f] by metis
qed

lemma level_cases: "l < 10 \<Longrightarrow> l = 0 \<or> l \<in> {1, 2, 3, 4, 5, 6, 7, 8, 9}" for l :: nat
  by (simp, presburger)

lemma loop_count_pos: "l < 10 \<Longrightarrow> 0 < loop_count l"
  by (drule level_cases) (auto simp: loop_count_def standardNValues_def)

lemma segment_level: "l < 10 \<Longrightarrow> segment (level_ops M num units l) (level_run M l)"
proof (induction l)
  case 0
  show ?case unfolding level_ops.simps level_run.simps by (rule segment_and [OF segment_fine])
next
  case (Suc l)
  let ?in = "[OR_SINGLESHOT_MODE_BITS (mk_outer_shot M (Suc l)), or48 (mk_outer_or M (Suc l))]"
  have "segment ?in (ops_run ?in)" by (rule segment_ops) (simp add: straight_def)
  moreover have "segment ([LOOP (loop_count (Suc l))] @ level_ops M num units l @ [DO_LOOP]) (looped (loop_count (Suc l)) (level_run M l))"
    using Suc by (intro segment_loop loop_count_pos) simp_all
  ultimately have "segment (level_ops M num units (Suc l)) (\<lambda>fresh m.
      (fst (andThen (ops_run ?in) (looped (loop_count (Suc l)) (level_run M l)) fresh m),
       and_bits 0 48 (mk_after M (Suc l)) (snd (andThen (ops_run ?in) (looped (loop_count (Suc l)) (level_run M l)) fresh m))))"
    unfolding level_ops.simps append_assoc [symmetric] by (intro segment_and) (simp only: append_assoc segment_append)
  moreover have "level_run M (Suc l) = (\<lambda>fresh m.
      (fst (andThen (ops_run ?in) (looped (loop_count (Suc l)) (level_run M l)) fresh m),
       and_bits 0 48 (mk_after M (Suc l)) (snd (andThen (ops_run ?in) (looped (loop_count (Suc l)) (level_run M l)) fresh m))))"
    by (intro ext) (simp add: andThen_def op_run_def enter_mode_def lit_val_def Let_def)
  ultimately show ?case by (simp only:)
qed

text \<open>The events of a pass: with the plan just loaded (\<open>fresh\<close>) or when all its single shots have fired.\<close>

theorem pass_level_run:
  assumes "shots_are fresh F 2 (level_ops M num units 9)"
  shows "\<exists>F'. pass (mask_plan tag M num units) (m, F) (fst (level_run M 9 fresh m)) (snd (level_run M 9 fresh m), F')
    \<and> shots_are False F' 2 (level_ops M num units 9)"
proof -
  let ?P = "[SET_TAG tag, LABEL] @ level_ops M num units 9 @ [GOTO_LABEL]"
  have two: "length [SET_TAG tag, LABEL] = 2" by simp
  have "(9 :: nat) < 10" by simp
  from segmentE [OF segment_level [OF this], of fresh F "[SET_TAG tag, LABEL]", unfolded two, OF assms, of "[GOTO_LABEL]" "[]" m]
  obtain F' where F': "exec ?P (2, [], m, F) (fst (level_run M 9 fresh m)) (2 + length (level_ops M num units 9), [], snd (level_run M 9 fresh m), F')"
    "shots_are False F' 2 (level_ops M num units 9)" by blast
  have "op_step ?P (1, [], m, F) = ([], 2, [], m, F)" by simp
  from exec_trans [OF exec_one [OF this] F'(1)]
  have "exec ?P (label_pc ?P, [], m, F) (fst (level_run M 9 fresh m)) (2 + length (level_ops M num units 9), [], snd (level_run M 9 fresh m), F')"
    by (simp add: label_pc_def)
  moreover have "halted ?P (2 + length (level_ops M num units 9), [], snd (level_run M 9 fresh m), F')"
    by (simp add: halted_def nth_append)
  ultimately show ?thesis using F'(2) unfolding pass_def mask_plan_levels Let_def by blast
qed

end
