(* ===== verification/Run_Plan_Bits.thy ===== *)
theory Run_Plan_Bits
  imports Run_Plan_Meaning
begin

section \<open>One mode bit over the events of a plan\<close>

text \<open>
  A pass starts \<open>10 ^ 9\<close> events. \<open>emits\<close> says what one mode bit is in the events of a level of the plan, from its value
  before to its value after it; the rules follow the levels. \<open>events_of\<close> are the events of the \<open>k\<close>-th pass of a plan that
  was loaded when the mode bits were \<open>m\<close>.
\<close>

subsection \<open>The passes of a plan\<close>

primrec nth_pass :: "plan_line list \<Rightarrow> u64 \<Rightarrow> nat \<Rightarrow> u64 list \<Rightarrow> mode \<Rightarrow> bool" where
  "nth_pass ls m 0 es s \<longleftrightarrow> pass ls (m, {}) es s"
| "nth_pass ls m (Suc k) es s \<longleftrightarrow> (\<exists>es' s'. nth_pass ls m k es' s' \<and> pass ls s' es s)"

definition events_of :: "plan_line list \<Rightarrow> u64 \<Rightarrow> nat \<Rightarrow> u64 list \<Rightarrow> bool" where
  "events_of ls m k es \<longleftrightarrow> (\<exists>s. nth_pass ls m k es s)"

lemma nth_pass_unique: "nth_pass ls m k es s \<Longrightarrow> nth_pass ls m k es' s' \<Longrightarrow> es = es' \<and> s = s'"
proof (induction k arbitrary: es s es' s')
  case (Suc k)
  then show ?case using pass_unique by (metis nth_pass.simps(2))
qed (use pass_unique in auto)

lemma events_of_unique: "events_of ls m k es \<Longrightarrow> events_of ls m k es' \<Longrightarrow> es = es'"
  unfolding events_of_def using nth_pass_unique by blast

primrec mode_at :: "masks \<Rightarrow> u64 \<Rightarrow> nat \<Rightarrow> u64" where
  "mode_at M m 0 = m"
| "mode_at M m (Suc k) = snd (level_run M 9 (k = 0) (mode_at M m k))"

lemma mode_at_later: "mode_at M m (Suc (Suc k)) = snd (level_run M 9 False (mode_at M m (Suc k)))"
  by (simp only: mode_at.simps nat.distinct simp_thms)

lemma nth_pass_run:
  "\<exists>F. nth_pass (mask_plan tag M num units) m k (fst (level_run M 9 (k = 0) (mode_at M m k))) (mode_at M m (Suc k), F)
     \<and> shots_are False F 2 (level_ops M num units 9)"
proof (induction k)
  case 0
  have "shots_are True {} 2 (level_ops M num units 9)" by (simp add: shots_are_def)
  from pass_level_run [OF this, of tag m] show ?case by auto
next
  case (Suc k)
  then obtain F where F: "nth_pass (mask_plan tag M num units) m k (fst (level_run M 9 (k = 0) (mode_at M m k))) (mode_at M m (Suc k), F)"
    "shots_are False F 2 (level_ops M num units 9)" by blast
  from pass_level_run [OF F(2), of tag "mode_at M m (Suc k)"] obtain F' where
    F': "pass (mask_plan tag M num units) (mode_at M m (Suc k), F) (fst (level_run M 9 False (mode_at M m (Suc k)))) (mode_at M m (Suc (Suc k)), F')"
      "shots_are False F' 2 (level_ops M num units 9)" unfolding mode_at_later by blast
  have "(Suc k = 0) = False" by simp
  with F(1) F' show ?case unfolding nth_pass.simps by (intro exI [of _ F']) (simp only: simp_thms, blast)
qed

theorem events_of_mask_plan: "events_of (mask_plan tag M num units) m k es \<longleftrightarrow> es = fst (level_run M 9 (k = 0) (mode_at M m k))"
  using nth_pass_run [of tag M num units m k] events_of_unique unfolding events_of_def by blast

subsection \<open>One bit\<close>

lemma bit_and48: "b < 48 \<Longrightarrow> bit (and_bits 0 48 v m) b \<longleftrightarrow> bit m b \<and> bit v b"
  by (auto simp: and_bits_def bit_field_def bit_and_iff bit_or_iff bit_not_iff bit_mask_iff)

lemma bit_or48: "b < 48 \<Longrightarrow> bit (or_bits 0 48 v m) b \<longleftrightarrow> bit m b \<or> bit v b"
  by (auto simp: or_bits_def bit_field_def bit_and_iff bit_or_iff bit_mask_iff)

definition emits :: "nat \<Rightarrow> (bool \<Rightarrow> bool) \<Rightarrow> (u64 \<Rightarrow> u64 list \<times> u64) \<Rightarrow> nat \<Rightarrow> (nat \<Rightarrow> bool) \<Rightarrow> (bool \<Rightarrow> bool) \<Rightarrow> bool" where
  "emits b P f N h Q \<longleftrightarrow>
     (\<forall>m. P (bit m b) \<longrightarrow> length (fst (f m)) = N \<and> (\<forall>j<N. bit (fst (f m) ! j) b \<longleftrightarrow> h j) \<and> Q (bit (snd (f m)) b))"

lemma emits_mono:
  "emits b P f N h Q \<Longrightarrow> (\<And>x. P' x \<Longrightarrow> P x) \<Longrightarrow> (\<And>x. Q x \<Longrightarrow> Q' x) \<Longrightarrow> (\<And>j. j < N \<Longrightarrow> h j = h' j) \<Longrightarrow> emits b P' f N h' Q'"
  unfolding emits_def by blast

lemma emits_rounds: "emits b P f N h P \<Longrightarrow> emits b P (rounds k f) (k * N) (\<lambda>j. h (j mod N)) P"
proof (induction k)
  case (Suc k)
  show ?case unfolding emits_def
  proof (intro allI impI conjI)
    fix m :: u64 assume m: "P (bit m b)"
    have f: "length (fst (f m)) = N" "\<And>j. j < N \<Longrightarrow> bit (fst (f m) ! j) b \<longleftrightarrow> h j" "P (bit (snd (f m)) b)"
      using Suc.prems m unfolding emits_def by auto
    have r: "length (fst (rounds k f (snd (f m)))) = k * N"
      "\<And>j. j < k * N \<Longrightarrow> bit (fst (rounds k f (snd (f m))) ! j) b \<longleftrightarrow> h (j mod N)" "P (bit (snd (rounds k f (snd (f m)))) b)"
      using Suc.IH [OF Suc.prems] f(3) unfolding emits_def by auto
    show "length (fst (rounds (Suc k) f m)) = Suc k * N" "P (bit (snd (rounds (Suc k) f m)) b)" using f r by simp_all
    fix j assume "j < Suc k * N"
    then show "bit (fst (rounds (Suc k) f m) ! j) b \<longleftrightarrow> h (j mod N)"
      using f(1, 2) r(2) [of "j - N"] by (cases "j < N") (simp_all add: nth_append mod_if)
  qed
qed (simp add: emits_def)

lemma emits_looped:
  assumes first: "emits b P (f fresh) N h R" and later: "emits b R (f False) N h' R" and k: "0 < k"
  shows "emits b P (looped k f fresh) (k * N) (\<lambda>j. if j < N then h j else h' (j mod N)) R"
  unfolding emits_def
proof (intro allI impI conjI)
  fix m :: u64 assume m: "P (bit m b)"
  have f: "length (fst (f fresh m)) = N" "\<And>j. j < N \<Longrightarrow> bit (fst (f fresh m) ! j) b \<longleftrightarrow> h j" "R (bit (snd (f fresh m)) b)"
    using first m unfolding emits_def by auto
  have r: "length (fst (rounds (k - 1) (f False) (snd (f fresh m)))) = (k - 1) * N"
    "\<And>j. j < (k - 1) * N \<Longrightarrow> bit (fst (rounds (k - 1) (f False) (snd (f fresh m))) ! j) b \<longleftrightarrow> h' (j mod N)"
    "R (bit (snd (rounds (k - 1) (f False) (snd (f fresh m)))) b)"
    using emits_rounds [OF later, of "k - 1"] f(3) unfolding emits_def by auto
  have kN: "k * N = N + (k - 1) * N" using k by (cases k) simp_all
  show "length (fst (looped k f fresh m)) = k * N" "R (bit (snd (looped k f fresh m)) b)"
    using f r by (simp_all add: looped_def kN)
  fix j assume "j < k * N"
  then show "bit (fst (looped k f fresh m) ! j) b \<longleftrightarrow> (if j < N then h j else h' (j mod N))"
    using f(1, 2) r(2) [of "j - N"] by (cases "j < N") (simp_all add: looped_def nth_append kN le_mod_geq)
qed

subsection \<open>The levels\<close>

abbreviation level_size :: "nat \<Rightarrow> nat" where "level_size l \<equiv> standardNValues ! l"

lemma level_size_Suc: "Suc l < 10 \<Longrightarrow> level_size (Suc l) = loop_count (Suc l) * level_size l"
  by (drule level_cases) (auto simp: loop_count_def standardNValues_def)

lemma level_size_100: "l < 10 \<Longrightarrow> 100 dvd level_size l \<and> 0 < level_size l"
  by (drule level_cases) (auto simp: standardNValues_def)

lemma level_size_dvd: "l' \<le> l \<Longrightarrow> l < 10 \<Longrightarrow> level_size l' dvd level_size l"
proof (induction l)
  case (Suc l)
  then show ?case by (cases "l' = Suc l") (simp_all add: level_size_Suc)
qed simp

lemma level_size_9: "level_size 9 = 10 ^ 9" and level_size_0: "level_size 0 = 100"
  by (simp_all add: standardNValues_def)

text \<open>One bit in the slots of the fine loop, and at the entry of a level.\<close>

definition slot_bit :: "masks \<Rightarrow> nat \<Rightarrow> bool \<Rightarrow> nat \<Rightarrow> bool \<Rightarrow> bool" where
  "slot_bit M b fresh i x \<longleftrightarrow> (x \<and> bit (mk_and M i) b) \<or> bit (mk_or M i) b \<or> (fresh \<and> bit (mk_shot M i) b)"

primrec fine_bit :: "masks \<Rightarrow> nat \<Rightarrow> bool \<Rightarrow> bool \<Rightarrow> nat \<Rightarrow> bool" where
  "fine_bit M b fresh x 0 = slot_bit M b fresh 0 x"
| "fine_bit M b fresh x (Suc i) = slot_bit M b fresh (Suc i) (fine_bit M b fresh x i)"

definition enter_bit :: "masks \<Rightarrow> nat \<Rightarrow> bool \<Rightarrow> nat \<Rightarrow> bool \<Rightarrow> bool" where
  "enter_bit M b fresh l x \<longleftrightarrow> x \<or> bit (mk_outer_or M l) b \<or> (fresh \<and> bit (mk_outer_shot M l) b)"

lemma bit_slot_mode: "b < 48 \<Longrightarrow> bit (slot_mode M fresh i m) b \<longleftrightarrow> slot_bit M b fresh i (bit m b)"
  by (auto simp: slot_mode_def slot_bit_def Let_def bit_and48 bit_or48)

lemma bit_enter_mode: "b < 48 \<Longrightarrow> bit (enter_mode M fresh l m) b \<longleftrightarrow> enter_bit M b fresh l (bit m b)"
  by (auto simp: enter_mode_def enter_bit_def bit_or48)

lemma fine_run_append:
  "fine_run M fresh (xs @ ys) m = (fst (fine_run M fresh xs m) @ fst (fine_run M fresh ys (snd (fine_run M fresh xs m))),
     snd (fine_run M fresh ys (snd (fine_run M fresh xs m))))"
  by (induction xs arbitrary: m) simp_all

lemma emits_fine:
  assumes "b < 48"
  shows "emits b ((=) x) (fine_run M fresh [0..<Suc n]) (Suc n) (fine_bit M b fresh x) ((=) (fine_bit M b fresh x n))"
proof (induction n)
  case 0
  show ?case using assms by (simp add: emits_def bit_slot_mode)
next
  case (Suc n)
  have upt: "[0..<Suc (Suc n)] = [0..<Suc n] @ [Suc n]" by simp
  have "length (fst r @ fst (fine_run M fresh [Suc n] (snd r))) = Suc (Suc n) \<and>
      (\<forall>j<Suc (Suc n). bit ((fst r @ fst (fine_run M fresh [Suc n] (snd r))) ! j) b \<longleftrightarrow> fine_bit M b fresh x j) \<and>
      fine_bit M b fresh x (Suc n) = bit (snd (fine_run M fresh [Suc n] (snd r))) b"
    if "length (fst r) = Suc n \<and> (\<forall>j<Suc n. bit (fst r ! j) b \<longleftrightarrow> fine_bit M b fresh x j) \<and> fine_bit M b fresh x n = bit (snd r) b"
    for r :: "u64 list \<times> u64"
    using that assms by (auto simp: nth_append bit_slot_mode less_Suc_eq)
  then show ?case using Suc unfolding emits_def upt fine_run_append fst_conv snd_conv by blast
qed

lemma emits_level_0:
  assumes "b < 48"
  shows "emits b ((=) x) (level_run M 0 fresh) 100 (fine_bit M b fresh x) ((=) (fine_bit M b fresh x 99 \<and> bit (mk_end M) b))"
  using emits_fine [OF assms, of x M fresh 99] assms unfolding emits_def by (simp add: bit_and48)

lemma emits_level:
  assumes l: "Suc l < 10" and b: "b < 48"
    and first: "emits b P' (level_run M l fresh) (level_size l) h R"
    and later: "emits b R (level_run M l False) (level_size l) h' R"
    and pre: "\<And>x. P x \<Longrightarrow> P' (enter_bit M b fresh (Suc l) x)" and post: "\<And>x. R x \<Longrightarrow> Q (x \<and> bit (mk_after M (Suc l)) b)"
  shows "emits b P (level_run M (Suc l) fresh) (level_size (Suc l)) (\<lambda>j. if j < level_size l then h j else h' (j mod level_size l)) Q"
proof -
  have "0 < loop_count (Suc l)" by (rule loop_count_pos [OF l])
  from emits_looped [where f = "level_run M l", OF first later this] show ?thesis
    unfolding emits_def level_size_Suc [OF l] level_run.simps Let_def fst_conv snd_conv
    using pre post by (simp add: bit_enter_mode bit_and48 b)
qed

text \<open>From the levels to the passes of the plan.\<close>

theorem plan_emits:
  assumes es: "events_of (mask_plan tag M num units) m k es"
    and first: "emits b P (level_run M 9 True) (10 ^ 9) h Q" and later: "emits b Q (level_run M 9 False) (10 ^ 9) h' Q" and m: "P (bit m b)"
  shows "length es = 10 ^ 9 \<and> (\<forall>j<10 ^ 9. bit (es ! j) b \<longleftrightarrow> (if k = 0 then h j else h' j))"
proof -
  have Q: "Q (bit (mode_at M m (Suc k)) b)" for k
  proof (induction k)
    case 0
    show ?case using first m by (simp add: emits_def)
  next
    case (Suc k)
    with later show ?case unfolding emits_def mode_at_later by blast
  qed
  have e: "es = fst (level_run M 9 (k = 0) (mode_at M m k))" using es by (simp only: events_of_mask_plan)
  show ?thesis
  proof (cases k)
    case 0
    then show ?thesis using first m unfolding e emits_def by simp
  next
    case (Suc k')
    then show ?thesis using later Q [of k'] unfolding e emits_def by simp
  qed
qed

lemma events_exist: "\<exists>es. events_of (mask_plan tag M num units) m k es"
  by (simp add: events_of_mask_plan)

end
