(* ===== verification/Run_Plan_Patterns.thy ===== *)
theory Run_Plan_Patterns
  imports Run_Plan_Bits
begin

section \<open>The patterns of one mode bit in a plan\<close>

text \<open>
  Four ways in which a plan's masks determine a mode bit: by the slot of the fine loop alone (\<open>level_slots\<close>), on at the
  first event of each round of one coarse loop (\<open>level_above\<close>), kept on from a single shot before a coarse loop to its
  end (\<open>shot_above\<close>), and set by single shots in slots (\<open>level_slot_shots\<close>). Bits that two plans treat alike are the
  same in their events (\<open>level_agree\<close>).
\<close>

subsection \<open>Determined by the slot\<close>

lemma level_slots:
  assumes b: "b < 48" and slot: "\<And>f i x. i < 100 \<Longrightarrow> (f \<longrightarrow> fresh) \<Longrightarrow> slot_bit M b f i x = g i"
  shows "l < 10 \<Longrightarrow> (f \<longrightarrow> fresh) \<Longrightarrow> emits b (\<lambda>_. True) (level_run M l f) (level_size l) (\<lambda>j. g (j mod 100)) (\<lambda>_. True)"
proof (induction l arbitrary: f)
  case 0
  have "fine_bit M b f x i = g i" if "i < 100" for i x using that slot 0 by (cases i) auto
  with emits_level_0 [OF b, of _ M f] show ?case unfolding level_size_0 emits_def by auto
next
  case (Suc l)
  then have l: "l < 10" by simp
  have "emits b (\<lambda>_. True) (level_run M (Suc l) f) (level_size (Suc l))
      (\<lambda>j. if j < level_size l then g (j mod 100) else g (j mod level_size l mod 100)) (\<lambda>_. True)"
    by (rule emits_level [OF Suc.prems(1) b Suc.IH [OF l Suc.prems(2)] Suc.IH [OF l]]) simp_all
  then show ?case by (rule emits_mono) (use level_size_100 [OF l] in \<open>simp_all add: mod_mod_cancel\<close>)
qed

subsection \<open>The first event of a coarse loop\<close>

definition coarse_on :: "masks \<Rightarrow> nat \<Rightarrow> nat \<Rightarrow> bool" where
  "coarse_on M b l0 \<longleftrightarrow> b < 48 \<and> (\<forall>f i x. i < 100 \<longrightarrow> slot_bit M b f i x = (i = 0 \<and> x))
     \<and> (\<forall>f l x. 0 < l \<longrightarrow> l < 10 \<longrightarrow> enter_bit M b f l x = (x \<or> l = l0))"

lemma level_below:
  assumes c: "coarse_on M b l0"
  shows "l < l0 \<Longrightarrow> l < 10 \<Longrightarrow> emits b ((=) x) (level_run M l fresh) (level_size l) (\<lambda>j. j = 0 \<and> x) (\<lambda>y. \<not> y)"
proof (induction l arbitrary: fresh x)
  case 0
  have b: "b < 48" using c by (simp add: coarse_on_def)
  have "fine_bit M b fresh x i = (i = 0 \<and> x)" if "i < 100" for i
    using that c by (induction i) (auto simp: coarse_on_def)
  with emits_level_0 [OF b, of x M fresh] show ?case unfolding level_size_0 emits_def by auto
next
  case (Suc l)
  then have l: "l < l0" "l < 10" by simp_all
  have b: "b < 48" using c by (simp add: coarse_on_def)
  have "emits b ((=) x) (level_run M (Suc l) fresh) (level_size (Suc l))
      (\<lambda>j. if j < level_size l then j = 0 \<and> x else j mod level_size l = 0 \<and> False) (\<lambda>y. \<not> y)"
    by (rule emits_level [OF Suc.prems(2) b Suc.IH [OF l] emits_mono [OF Suc.IH [OF l, of False False]]])
      (use c Suc.prems in \<open>auto simp: coarse_on_def\<close>)
  then show ?case by (rule emits_mono) (use level_size_100 [OF l(2)] in auto)
qed

lemma level_above:
  assumes c: "coarse_on M b l0" and l0: "0 < l0"
  shows "l0 \<le> l \<Longrightarrow> l < 10 \<Longrightarrow> emits b (\<lambda>_. True) (level_run M l fresh) (level_size l) (\<lambda>j. j mod level_size l0 = 0) (\<lambda>y. \<not> y)"
proof (induction l arbitrary: fresh)
  case 0
  then show ?case using l0 by simp
next
  case (Suc l)
  have b: "b < 48" using c by (simp add: coarse_on_def)
  have l: "l < 10" using Suc.prems by simp
  show ?case
  proof (cases "l0 = Suc l")
    case True
    then have "l < l0" by simp
    have "emits b (\<lambda>_. True) (level_run M (Suc l) fresh) (level_size (Suc l))
        (\<lambda>j. if j < level_size l then j = 0 \<and> True else j mod level_size l = 0 \<and> False) (\<lambda>y. \<not> y)"
      by (rule emits_level [OF Suc.prems(2) b level_below [OF c \<open>l < l0\<close> l] emits_mono [OF level_below [OF c \<open>l < l0\<close> l, of False False]]])
        (use c Suc.prems True in \<open>auto simp: coarse_on_def\<close>)
    then show ?thesis by (rule emits_mono) (use level_size_100 [OF l] True in auto)
  next
    case False
    then have "l0 \<le> l" using Suc.prems by simp
    note IH = Suc.IH [OF this l]
    have "emits b (\<lambda>_. True) (level_run M (Suc l) fresh) (level_size (Suc l))
        (\<lambda>j. if j < level_size l then j mod level_size l0 = 0 else j mod level_size l mod level_size l0 = 0) (\<lambda>y. \<not> y)"
      by (rule emits_level [OF Suc.prems(2) b IH emits_mono [OF IH]]) simp_all
    then show ?thesis
      by (rule emits_mono) (use level_size_dvd [OF \<open>l0 \<le> l\<close> l] in \<open>simp_all add: mod_mod_cancel\<close>)
  qed
qed

subsection \<open>A single shot before a coarse loop\<close>

text \<open>All masks keep the bit, but the one after the loop of level \<open>l0\<close>; only the single shot of that level sets it.\<close>

definition coarse_shot :: "masks \<Rightarrow> nat \<Rightarrow> nat \<Rightarrow> bool" where
  "coarse_shot M b l0 \<longleftrightarrow> b < 48 \<and> (\<forall>f i x. i < 100 \<longrightarrow> slot_bit M b f i x = x) \<and> bit (mk_end M) b
     \<and> (\<forall>f l x. 0 < l \<longrightarrow> l < 10 \<longrightarrow> enter_bit M b f l x = (x \<or> (f \<and> l = l0)))
     \<and> (\<forall>l. 0 < l \<longrightarrow> l < 10 \<longrightarrow> bit (mk_after M l) b = (l \<noteq> l0))"

lemma shot_keeps:
  assumes c: "coarse_shot M b l0"
  shows "l < 10 \<Longrightarrow> (x \<longrightarrow> l < l0) \<Longrightarrow> (fresh \<longrightarrow> l < l0) \<Longrightarrow> emits b ((=) x) (level_run M l fresh) (level_size l) (\<lambda>j. x) ((=) x)"
proof (induction l arbitrary: fresh)
  case 0
  have b: "b < 48" using c by (simp add: coarse_shot_def)
  have "fine_bit M b fresh x i = x" if "i < 100" for i
    using that c by (induction i) (auto simp: coarse_shot_def)
  with emits_level_0 [OF b, of x M fresh] show ?case using c unfolding level_size_0 emits_def by (auto simp: coarse_shot_def)
next
  case (Suc l)
  then have l: "l < 10" "x \<longrightarrow> l < l0" "fresh \<longrightarrow> l < l0" by auto
  have b: "b < 48" using c by (simp add: coarse_shot_def)
  have "emits b ((=) x) (level_run M (Suc l) fresh) (level_size (Suc l)) (\<lambda>j. if j < level_size l then x else x) ((=) x)"
    by (rule emits_level [OF Suc.prems(1) b Suc.IH [OF l] Suc.IH [OF l(1, 2)]]) (use c Suc.prems in \<open>auto simp: coarse_shot_def\<close>)
  then show ?case by (rule emits_mono) simp_all
qed

lemma shot_above:
  assumes c: "coarse_shot M b l0" and l0: "0 < l0"
  shows "l0 \<le> l \<Longrightarrow> l < 10 \<Longrightarrow> emits b (\<lambda>_. True) (level_run M l True) (level_size l) (\<lambda>j. j < level_size l0) (\<lambda>y. \<not> y)"
proof (induction l)
  case 0
  then show ?case using l0 by simp
next
  case (Suc l)
  have b: "b < 48" using c by (simp add: coarse_shot_def)
  have l: "l < 10" using Suc.prems by simp
  show ?case
  proof (cases "l0 = Suc l")
    case True
    then have "l < l0" by simp
    have "emits b (\<lambda>_. True) (level_run M (Suc l) True) (level_size (Suc l)) (\<lambda>j. if j < level_size l then True else True) (\<lambda>y. \<not> y)"
      by (rule emits_level [OF Suc.prems(2) b shot_keeps [OF c l] shot_keeps [OF c l]])
        (use c Suc.prems True in \<open>auto simp: coarse_shot_def\<close>)
    then have "emits b (\<lambda>_. True) (level_run M l0 True) (level_size l0) (\<lambda>j. if j < level_size l then True else True) (\<lambda>y. \<not> y)"
      using True by (simp only:)
    then show ?thesis unfolding True [symmetric] by (rule emits_mono) simp_all
  next
    case False
    then have "l0 \<le> l" using Suc.prems by simp
    have "emits b (\<lambda>_. True) (level_run M (Suc l) True) (level_size (Suc l)) (\<lambda>j. if j < level_size l then j < level_size l0 else False) (\<lambda>y. \<not> y)"
      by (rule emits_level [OF Suc.prems(2) b Suc.IH [OF \<open>l0 \<le> l\<close> l] emits_mono [OF shot_keeps [OF c l, of False False]]])
        (use c Suc.prems False in \<open>auto simp: coarse_shot_def\<close>)
    then show ?thesis
      by (rule emits_mono) (use dvd_imp_le [OF level_size_dvd [OF \<open>l0 \<le> l\<close> l]] level_size_100 [OF l] in auto)
  qed
qed

lemma shot_fired: "coarse_shot M b l0 \<Longrightarrow> l < 10 \<Longrightarrow> emits b (\<lambda>y. \<not> y) (level_run M l False) (level_size l) (\<lambda>j. False) (\<lambda>y. \<not> y)"
  using shot_keeps [of M b l0 l False False] unfolding emits_def by simp

subsection \<open>Single shots in slots\<close>

lemma level_slot_shots:
  assumes b: "b < 48" and slot: "\<And>f i x. i < 100 \<Longrightarrow> slot_bit M b f i x = (f \<and> g i)"
  shows "l < 10 \<Longrightarrow> emits b (\<lambda>_. True) (level_run M l True) (level_size l) (\<lambda>j. j < 100 \<and> g j) (\<lambda>_. True)"
proof (induction l)
  case 0
  have "fine_bit M b True x i = g i" if "i < 100" for i x using that slot by (cases i) auto
  with emits_level_0 [OF b, of _ M True] show ?case unfolding level_size_0 emits_def by auto
next
  case (Suc l)
  then have l: "l < 10" by simp
  have F: "emits b (\<lambda>_. True) (level_run M l False) (level_size l) (\<lambda>j. False) (\<lambda>_. True)"
    by (rule level_slots [OF b, of False M "\<lambda>_. False"]) (use slot l in simp_all)
  have "emits b (\<lambda>_. True) (level_run M (Suc l) True) (level_size (Suc l))
      (\<lambda>j. if j < level_size l then j < 100 \<and> g j else False) (\<lambda>_. True)"
    by (rule emits_level [OF Suc.prems b Suc.IH [OF l] F]) simp_all
  then show ?case by (rule emits_mono) (use dvd_imp_le [of 100 "level_size l"] level_size_100 [OF l] in auto)
qed

subsection \<open>Plans that treat a bit alike\<close>

definition agree :: "nat \<Rightarrow> (u64 \<Rightarrow> u64 list \<times> u64) \<Rightarrow> (u64 \<Rightarrow> u64 list \<times> u64) \<Rightarrow> bool" where
  "agree b f g \<longleftrightarrow>
     (\<forall>m m'. bit m b = bit m' b \<longrightarrow>
        list_all2 (\<lambda>v w. bit v b = bit w b) (fst (f m)) (fst (g m')) \<and> bit (snd (f m)) b = bit (snd (g m')) b)"

definition masks_agree :: "nat \<Rightarrow> masks \<Rightarrow> masks \<Rightarrow> bool" where
  "masks_agree b M M' \<longleftrightarrow> b < 48
     \<and> (\<forall>i<100. bit (mk_and M i) b = bit (mk_and M' i) b \<and> bit (mk_or M i) b = bit (mk_or M' i) b \<and> bit (mk_shot M i) b = bit (mk_shot M' i) b)
     \<and> bit (mk_end M) b = bit (mk_end M') b
     \<and> (\<forall>l. 0 < l \<longrightarrow> l < 10 \<longrightarrow> bit (mk_outer_shot M l) b = bit (mk_outer_shot M' l) b \<and> bit (mk_outer_or M l) b = bit (mk_outer_or M' l) b
          \<and> bit (mk_after M l) b = bit (mk_after M' l) b)"

lemma agreeD:
  assumes "agree b f g" "bit m b = bit m' b"
  shows "list_all2 (\<lambda>v w. bit v b = bit w b) (fst (f m)) (fst (g m'))" "bit (snd (f m)) b = bit (snd (g m')) b"
  using assms unfolding agree_def by blast+

lemma agree_then:
  "agree b f g \<Longrightarrow> agree b f' g' \<Longrightarrow>
   agree b (\<lambda>m. (fst (f m) @ fst (f' (snd (f m))), snd (f' (snd (f m))))) (\<lambda>m. (fst (g m) @ fst (g' (snd (g m))), snd (g' (snd (g m)))))"
  unfolding agree_def fst_conv snd_conv using list_all2_appendI by blast

lemma agree_rounds: "agree b f g \<Longrightarrow> agree b (rounds k f) (rounds k g)"
proof (induction k)
  case (Suc k)
  from agree_then [OF Suc.prems Suc.IH [OF Suc.prems]] show ?case unfolding rounds.simps .
qed (simp add: agree_def)

lemma agree_looped: "agree b (f fresh) (g fresh) \<Longrightarrow> agree b (f False) (g False) \<Longrightarrow> agree b (looped k f fresh) (looped k g fresh)"
  unfolding looped_def by (rule agree_then, assumption, rule agree_rounds)

lemma fine_agree:
  assumes "masks_agree b M M'"
  shows "\<forall>i\<in>set is. i < 100 \<Longrightarrow> agree b (fine_run M fresh is) (fine_run M' fresh is)"
proof (induction "is")
  case (Cons i "is")
  have "bit (slot_mode M fresh i m) b = bit (slot_mode M' fresh i m') b" if "bit m b = bit m' b" for m m'
    using assms Cons.prems that by (simp add: masks_agree_def bit_slot_mode slot_bit_def)
  with Cons show ?case by (simp add: agree_def)
qed (simp add: agree_def)

lemma level_agree:
  assumes a: "masks_agree b M M'"
  shows "l < 10 \<Longrightarrow> agree b (level_run M l fresh) (level_run M' l fresh)"
proof (induction l arbitrary: fresh)
  case 0
  have "agree b (fine_run M fresh [0..<100]) (fine_run M' fresh [0..<100])" by (rule fine_agree [OF a]) simp
  with a show ?case by (simp add: agree_def masks_agree_def bit_and48)
next
  case (Suc l)
  then have loop: "agree b (looped (loop_count (Suc l)) (level_run M l) fresh) (looped (loop_count (Suc l)) (level_run M' l) fresh)"
    by (intro agree_looped) simp_all
  have "list_all2 (\<lambda>v w. bit v b = bit w b) (fst (level_run M (Suc l) fresh m)) (fst (level_run M' (Suc l) fresh m'))
      \<and> bit (snd (level_run M (Suc l) fresh m)) b = bit (snd (level_run M' (Suc l) fresh m')) b" if "bit m b = bit m' b" for m m'
  proof -
    have "bit (enter_mode M fresh (Suc l) m) b = bit (enter_mode M' fresh (Suc l) m') b"
      using a Suc.prems that by (simp add: masks_agree_def bit_enter_mode enter_bit_def)
    from agreeD [OF loop this] show ?thesis
      unfolding level_run.simps Let_def fst_conv snd_conv using a Suc.prems by (simp add: masks_agree_def bit_and48)
  qed
  then show ?case unfolding agree_def by blast
qed

theorem plans_agree:
  assumes a: "masks_agree b M M'" and m: "bit m b = bit m' b"
    and es: "events_of (mask_plan tag M num units) m k es" "events_of (mask_plan tag' M' num' units') m' k es'"
  shows "list_all2 (\<lambda>v w. bit v b = bit w b) es es'"
proof -
  have A: "agree b (level_run M 9 f) (level_run M' 9 f)" for f by (rule level_agree [OF a]) simp
  have "bit (mode_at M m k) b = bit (mode_at M' m' k) b"
  proof (induction k)
    case (Suc k)
    show ?case unfolding mode_at.simps by (rule agreeD(2) [OF A Suc])
  qed (simp add: m)
  from agreeD(1) [OF A this] show ?thesis using es by (simp only: events_of_mask_plan)
qed

end
