(* ===== verification/Run_Plan_Duty.thy ===== *)
theory Run_Plan_Duty
  imports Run_Plan_Patterns
begin

section \<open>The duty cycle of a subsystem in the plan\<close>

text \<open>
  What the generated plans mean: the masks of \<open>on_lines\<close> and \<open>off_lines\<close>, the events in which a subsystem's bit is on
  after it joined, and that the other bits stay as they were.
\<close>

subsection \<open>The masks of the plans\<close>

definition on_masks :: "u64 \<Rightarrow> nat \<Rightarrow> nat \<Rightarrow> nat \<Rightarrow> u64 list \<Rightarrow> u64 list \<Rightarrow> u64 list \<Rightarrow> bool \<Rightarrow> masks" where
  "on_masks bits m n offset ands ors shots apply_or =
     \<lparr>mk_and = merged_and bits m n offset ands, mk_or = merged_or bits m n offset apply_or ors,
      mk_shot = (\<lambda>i. shot_mask shots (9 + i)), mk_end = ands ! 100,
      mk_outer_shot = (\<lambda>l. shot_mask shots (9 - l)), mk_outer_or = coarse_or bits n apply_or ors,
      mk_after = (\<lambda>l. ands ! (100 + l))\<rparr>"

definition off_masks :: "u64 \<Rightarrow> u64 list \<Rightarrow> u64 list \<Rightarrow> masks" where
  "off_masks bits ands ors =
     \<lparr>mk_and = (\<lambda>i. ands ! i AND (all48 AND NOT bits)), mk_or = (\<lambda>i. ors ! (9 + i) AND NOT bits), mk_shot = (\<lambda>i. 0),
      mk_end = ands ! 100 OR bits, mk_outer_shot = (\<lambda>l. 0), mk_outer_or = (\<lambda>l. ors ! (9 - l) AND NOT bits),
      mk_after = (\<lambda>l. ands ! (100 + l) OR bits)\<rparr>"

lemma on_lines_masks:
  "on_lines tag bits m n offset num units ands ors shots apply_or = mask_plan tag (on_masks bits m n offset ands ors shots apply_or) num units"
  by (simp add: on_lines_def mask_plan_def on_masks_def)

lemma off_lines_masks: "off_lines bits num units ands ors = mask_plan 0 (off_masks bits ands ors) num units"
  by (simp add: off_lines_def mask_plan_def off_masks_def)

lemma all48_mask: "all48 = mask 48"
  by (simp add: all48_def mask_eq_exp_minus_1)

lemma bit_all48: "b < 48 \<Longrightarrow> bit all48 b"
  by (simp add: all48_mask bit_mask_iff)

lemma bit_not64: "b < 48 \<Longrightarrow> bit (NOT v) b \<longleftrightarrow> \<not> bit v b" for v :: u64
  by (simp add: bit_not_iff)

lemmas bit48 = bit_and_iff bit_or_iff bit_not64 bit_all48

lemma bit_merged_and: "b < 48 \<Longrightarrow> bit (merged_and bits m n offset ands i) b \<longleftrightarrow> bit (ands ! i) b \<and> \<not> (should_clear m n offset i \<and> bit bits b)"
  by (simp add: merged_and_def bit48)

lemma bit_merged_or: "bit (merged_or bits m n offset apply_or ors i) b \<longleftrightarrow> bit (ors ! (9 + i)) b \<or> (apply_or \<and> should_set m n offset i \<and> bit bits b)"
  by (auto simp: merged_or_def bit_or_iff)

lemma bit_coarse_or: "bit (coarse_or bits n apply_or ors l) b \<longleftrightarrow> bit (ors ! (9 - l)) b \<or> (apply_or \<and> level_size l = n \<and> bit bits b)"
  by (auto simp: coarse_or_def bit_or_iff)

lemma no_shots [simp]: "shot_mask [] k = 0"
  by (simp add: shot_mask_def)

lemma on_masks_agree:
  assumes "b < 48" "\<not> bit bits b"
  shows "masks_agree b (on_masks bits m n offset ands ors shots apply_or) (on_masks 0 1 1 0 ands ors shots False)"
  using assms by (simp add: masks_agree_def on_masks_def bit_merged_and bit_merged_or bit_coarse_or)

lemma off_masks_agree:
  assumes "b < 48" "\<not> bit bits b"
  shows "masks_agree b (off_masks bits ands ors) (on_masks 0 1 1 0 ands ors [] False)"
  using assms by (simp add: masks_agree_def on_masks_def off_masks_def bit_merged_and bit_merged_or bit_coarse_or bit48)

subsection \<open>Counting\<close>

lemma card_window:
  fixes n N c :: nat
  assumes "n dvd N"
  shows "card {j \<in> {c..<c + N}. P (j mod n)} = card {j \<in> {0..<N}. P (j mod n)}"
proof (induction c)
  case (Suc c)
  let ?S = "{j \<in> {Suc c..<c + N}. P (j mod n)}"
  have same: "(c + N) mod n = c mod n" using assms by (simp add: mod_add_right_eq [symmetric])
  show ?case
  proof (cases "N = 0")
    case False
    have "{j \<in> {c..<c + N}. P (j mod n)} = (if P (c mod n) then insert c ?S else ?S)" using False by (auto simp: Suc_le_eq le_less)
    moreover have "{j \<in> {Suc c..<Suc c + N}. P (j mod n)} = (if P (c mod n) then insert (c + N) ?S else ?S)"
      using False same by (auto simp: less_Suc_eq)
    ultimately have "card {j \<in> {Suc c..<Suc c + N}. P (j mod n)} = card {j \<in> {c..<c + N}. P (j mod n)}" by simp
    with Suc show ?thesis by simp
  qed simp
qed simp

lemma card_rounds: "0 < n \<Longrightarrow> card {j \<in> {0..<q * n}. j mod n < m} = q * min m n" for n q m :: nat
proof (induction q)
  case (Suc q)
  have "{j \<in> {0..<Suc q * n}. j mod n < m} = {j \<in> {0..<q * n}. j mod n < m} \<union> (+) (q * n) ` {0..<min m n}"
  proof (intro equalityI subsetI)
    fix j assume j: "j \<in> {j \<in> {0..<Suc q * n}. j mod n < m}"
    show "j \<in> {j \<in> {0..<q * n}. j mod n < m} \<union> (+) (q * n) ` {0..<min m n}"
    proof (cases "j < q * n")
      case False
      define i where "i = j - q * n"
      have i: "j = q * n + i" using False by (simp add: i_def)
      with j have "i < n" by simp
      note i = i this
      then have "j mod n = i" by simp
      with i j show ?thesis by auto
    qed (use j in simp)
  next
    fix j assume "j \<in> {j \<in> {0..<q * n}. j mod n < m} \<union> (+) (q * n) ` {0..<min m n}"
    then consider "j < q * n" "j mod n < m" | i where "j = q * n + i" "i < n" "i < m"
      by (auto elim!: imageE simp del: image_add_atLeastLessThan image_add_0 image_add_atLeastLessThan')
    then show "j \<in> {j \<in> {0..<Suc q * n}. j mod n < m}" by cases auto
  qed
  moreover have "{j \<in> {0..<q * n}. j mod n < m} \<inter> (+) (q * n) ` {0..<min m n} = {}" by auto
  moreover have "card ((+) (q * n) ` {0..<min m n}) = min m n" by (subst card_image) (simp_all add: inj_on_def)
  ultimately show ?case using Suc by (simp add: card_Un_disjoint)
qed simp

lemma card_phase:
  fixes n N c m :: nat
  assumes "0 < n" "n dvd N"
  shows "n * card {j. j < N \<and> (j + c) mod n < m} = min m n * N"
proof -
  obtain q where q: "N = q * n" using assms(2) by (auto simp: dvd_def mult.commute)
  have "(\<lambda>j. j + c) ` {j. j < N \<and> (j + c) mod n < m} = {j \<in> {c..<c + N}. j mod n < m}"
  proof (intro equalityI subsetI)
    fix j assume "j \<in> {j \<in> {c..<c + N}. j mod n < m}"
    then show "j \<in> (\<lambda>j. j + c) ` {j. j < N \<and> (j + c) mod n < m}" by (intro image_eqI [of _ _ "j - c"]) auto
  qed auto
  with card_image [of "\<lambda>j. j + c" "{j. j < N \<and> (j + c) mod n < m}"]
  have "card {j. j < N \<and> (j + c) mod n < m} = card {j \<in> {c..<c + N}. j mod n < m}" by (simp add: inj_on_def)
  also have "\<dots> = q * min m n" using card_window [OF assms(2), of c "\<lambda>i. i < m"] card_rounds [OF assms(1), of q m] by (simp add: q)
  finally show ?thesis by (simp add: q)
qed

subsection \<open>The resolved ratio\<close>

definition valid_ratio :: "nat \<Rightarrow> nat \<Rightarrow> bool" where
  "valid_ratio m n \<longleftrightarrow> 0 < m \<and> 0 < n
     \<and> (n < 100 \<and> n dvd 100 \<and> m \<le> n \<or> n = 100 \<or> 100 < n \<and> n \<in> set standardNValues \<and> m = 1)"

lemma search_N_valid:
  assumes "search_N t ns s = (Ret (m, n), s')" "set ns \<subseteq> set standardNValues"
  shows "0 < unat m \<and> unat n \<in> set standardNValues \<and> (100 < unat n \<longrightarrow> m = 1) \<and> s' = s"
  using assms
proof (induction ns)
  case Nil
  then show ?case by (auto simp: ret_def standardNValues_def)
next
  case (Cons n0 ns)
  have "n0 \<in> set standardNValues" using Cons.prems(2) by simp
  then have n0: "n0 < 2 ^ 32" by (auto simp: standardNValues_def)
  then have "unat (word_of_nat n0 :: u32) = n0" by (simp add: unat_of_nat)
  then show ?case
    using Cons by (auto simp: bindE_cases to_uint32_def ret_def undefined_behaviour_def unat_gt_0 split: if_splits)
qed

lemma getRatio_valid:
  assumes "getRatioOfOnPerEvents a b s = (Ret (m, n), s')"
  shows "valid_ratio (unat m) (unat n) \<and> 100 \<le> unat n \<and> s' = s"
proof -
  have std: "k \<in> set standardNValues \<Longrightarrow> 100 \<le> k" for k by (auto simp: standardNValues_def)
  obtain t where "search_N t standardNValues s = (Ret (m, n), s')"
    using assms by (auto simp: getRatioOfOnPerEvents_def throw_def Let_def split: if_splits)
  from search_N_valid [OF this] std [of "unat n"] show ?thesis by (auto simp: valid_ratio_def)
qed

lemma dvd100: "(100 :: u32) mod n = 0 \<Longrightarrow> unat n dvd 100"
proof -
  assume "(100 :: u32) mod n = 0"
  then have "unat (100 mod n) = 0" by simp
  then show ?thesis by (simp add: unat_mod dvd_eq_mod_eq_0)
qed

lemma mnFixRatio_valid:
  assumes "mnFixRatio C lg m n s = (Ret (lg', m', n'), s')"
  shows "valid_ratio (unat m') (unat n') \<and> s' = s"
proof (cases "n > 0 \<and> n < 100")
  case True
  then have "m' = m" "n' = n" "m \<noteq> 0" "\<not> n < m" "(100 :: u32) mod n = 0" "s' = s"
    using assms by (simp_all add: mnFixRatio_def Let_def throw_def ret_def split: if_splits)
  then show ?thesis using True dvd100 [of n]
    by (auto simp: valid_ratio_def unat_gt_0 word_le_nat_alt word_less_nat_alt)
next
  case False
  from assms obtain m1 n1 s1 where r: "getRatioOfOnPerEvents n m s = (Ret (m1, n1), s1)" and
    "n' = n1" "m' = m1" "s' = s1"
    unfolding mnFixRatio_def Let_def if_not_P [OF False] bindE_Ret
    by (auto simp: throw_def ret_def simp del: append.simps append_assoc split: if_splits)
  then show ?thesis using getRatio_valid [OF r] by simp
qed

subsection \<open>The events of a join\<close>

text \<open>The duty cycle M:N as it is meant: of every \<open>n\<close> events the first \<open>m\<close>, counted from the offset; with a coarse \<open>n\<close> the first.\<close>

definition duty_event :: "nat \<Rightarrow> nat \<Rightarrow> nat \<Rightarrow> nat \<Rightarrow> bool" where
  "duty_event m n offset j \<longleftrightarrow> (if n \<le> 100 then (j + (n - offset mod n)) mod n < m else j mod n = 0)"

lemma should_clear_set: "0 < n \<Longrightarrow> n \<le> 100 \<Longrightarrow> should_clear m n offset i \<longleftrightarrow> \<not> should_set m n offset i"
  by (auto simp: should_clear_def should_set_def)

lemma should_set_phase:
  assumes "0 < n" "n dvd 100"
  shows "should_set m n offset (j mod 100) \<longleftrightarrow> (j + (n - offset mod n)) mod n < m"
proof -
  have n: "n \<le> 100" using assms by (simp add: dvd_imp_le)
  have le: "offset mod n \<le> n" using assms(1) by (simp add: less_imp_le)
  have "should_set m n offset (j mod 100) \<longleftrightarrow> (j mod 100 + n - offset mod n) mod n < m"
    using n assms(1) by (auto simp: should_set_def fine_phase_def sub_phase_def)
  moreover have "(j mod 100 + n - offset mod n) mod n = (j + (n - offset mod n)) mod n"
    using mod_add_left_eq [of "j mod 100" n "n - offset mod n"] mod_add_left_eq [of j n "n - offset mod n"] le
    by (simp add: mod_mod_cancel [OF assms(2)])
  ultimately show ?thesis by simp
qed

lemma standard_level:
  assumes "n \<in> set standardNValues" "100 < n"
  obtains l where "0 < l" "l < 10" "n = level_size l"
proof -
  from assms(1) obtain l where l: "l < length standardNValues" "n = level_size l" by (auto simp: in_set_conv_nth)
  have "length standardNValues = 10" by (simp add: standardNValues_def)
  with l have "l < 10" by simp
  moreover have "l \<noteq> 0"
  proof
    assume "l = 0"
    then show False using l(2) assms(2) level_size_0 by simp
  qed
  ultimately show ?thesis using l(2) by (intro that) simp_all
qed

lemma level_size_inj: "l < 10 \<Longrightarrow> l' < 10 \<Longrightarrow> level_size l = level_size l' \<longleftrightarrow> l = l'"
  by (rule nth_eq_iff_index_eq) (simp_all add: standardNValues_def)

lemma duty_count:
  assumes "valid_ratio m n"
  shows "n * card {j. j < 10 ^ 9 \<and> duty_event m n offset j} = min m n * 10 ^ 9"
proof (cases "n \<le> 100")
  case True
  then have n: "0 < n" "n dvd 100" using assms by (auto simp: valid_ratio_def)
  then have "n dvd 10 ^ 9" using dvd_trans [of n 100 "10 ^ 9"] by simp
  from card_phase [OF n(1) this] show ?thesis using True by (simp add: duty_event_def)
next
  case False
  then have v: "n \<in> set standardNValues" "m = 1" "0 < n" using assms by (auto simp: valid_ratio_def)
  obtain l where l: "0 < l" "l < 10" "n = level_size l" using standard_level [OF v(1)] False by auto
  have "n dvd 10 ^ 9" using level_size_dvd [of l 9] l by (simp add: level_size_9)
  from card_phase [OF v(3) this, of 0 1] False v(2) show ?thesis by (simp add: duty_event_def)
qed

lemma on_plan_events:
  assumes es: "events_of (on_lines tag bits m n offset num units ands ors [] True) md k es"
    and b: "b < 48" "bit bits b" and v: "valid_ratio m n"
    and ors: "\<forall>i<109. \<not> bit (ors ! i) b" and ands: "n \<le> 100 \<or> bit (ands ! 0) b"
  shows "length es = 10 ^ 9 \<and> (\<forall>j<10 ^ 9. bit (es ! j) b \<longleftrightarrow> duty_event m n offset j)"
proof -
  let ?M = "on_masks bits m n offset ands ors [] True"
  have es: "events_of (mask_plan tag ?M num units) md k es" using es by (simp only: on_lines_masks)
  show ?thesis
  proof (cases "n \<le> 100")
    case True
    then have n: "0 < n" "n dvd 100" using v by (auto simp: valid_ratio_def)
    have slot: "slot_bit ?M b f i x = should_set m n offset i" if "i < 100" for f i x
      using that b ors should_clear_set [OF n(1) True]
      by (auto simp: slot_bit_def on_masks_def bit_merged_and bit_merged_or)
    have E: "emits b (\<lambda>_. True) (level_run ?M 9 f) (10 ^ 9) (\<lambda>j. should_set m n offset (j mod 100)) (\<lambda>_. True)" for f
      using level_slots [OF b(1), of True ?M "should_set m n offset" 9 f] slot by (simp add: level_size_9)
    from plan_emits [OF es E E] True show ?thesis by (simp add: duty_event_def should_set_phase [OF n])
  next
    case False
    then have vm: "n \<in> set standardNValues" "100 < n" using v by (auto simp: valid_ratio_def)
    obtain l0 where l0: "0 < l0" "l0 < 10" "n = level_size l0" using standard_level [OF vm] .
    have "enter_bit ?M b f l x = (x \<or> l = l0)" if "0 < l" "l < 10" for f l x
      using that b ors level_size_inj [of l l0] l0 by (auto simp: enter_bit_def on_masks_def bit_coarse_or)
    moreover have "slot_bit ?M b f i x = (i = 0 \<and> x)" if "i < 100" for f i x
      using that b ors ands vm by (auto simp: slot_bit_def on_masks_def bit_merged_and bit_merged_or should_clear_def should_set_def)
    ultimately have c: "coarse_on ?M b l0" using b by (auto simp: coarse_on_def)
    have E: "emits b (\<lambda>_. True) (level_run ?M 9 f) (10 ^ 9) (\<lambda>j. j mod n = 0) (\<lambda>y. \<not> y)" for f
      using level_above [OF c l0(1), of 9 f] l0 by (simp add: level_size_9)
    from plan_emits [OF es E emits_mono [OF E]] False show ?thesis by (simp add: duty_event_def)
  qed
qed

text \<open>The bits that the join does not set are as in the plan it started from.\<close>

abbreviation existing_lines :: "u64 \<Rightarrow> string \<Rightarrow> string \<Rightarrow> u64 list \<Rightarrow> u64 list \<Rightarrow> plan_line list" where
  "existing_lines tag num units ands ors \<equiv> on_lines tag 0 1 1 0 num units ands ors [] False"

lemma on_plan_others:
  assumes "events_of (on_lines tag bits m n offset num units ands ors [] apply_or) md k es"
    and "events_of (existing_lines tag' num' units' ands ors) md k es0" and "b < 48" "\<not> bit bits b"
  shows "list_all2 (\<lambda>v w. bit v b = bit w b) es es0"
  using assms unfolding on_lines_masks by (intro plans_agree [OF on_masks_agree refl])

lemma off_plan_others:
  assumes "events_of (off_lines bits num units ands ors) md k es"
    and "events_of (existing_lines tag' num' units' ands ors) md k es0" and "b < 48" "\<not> bit bits b"
  shows "list_all2 (\<lambda>v w. bit v b = bit w b) es es0"
  using assms unfolding on_lines_masks off_lines_masks by (intro plans_agree [OF off_masks_agree refl])

lemma off_plan_events:
  assumes es: "events_of (off_lines bits num units ands ors) md k es" and b: "b < 48" "bit bits b"
  shows "length es = 10 ^ 9 \<and> (\<forall>j<10 ^ 9. \<not> bit (es ! j) b)"
proof -
  let ?M = "off_masks bits ands ors"
  have es: "events_of (mask_plan 0 ?M num units) md k es" using es by (simp only: off_lines_masks)
  have slot: "slot_bit ?M b f i x = False" if "i < 100" for f i x
    using b by (simp add: slot_bit_def off_masks_def bit48)
  have E: "emits b (\<lambda>_. True) (level_run ?M 9 f) (10 ^ 9) (\<lambda>j. False) (\<lambda>_. True)" for f
    using level_slots [OF b(1), of True ?M "\<lambda>_. False" 9 f] slot by (simp add: level_size_9)
  from plan_emits [OF es E E] show ?thesis by simp
qed

end
