(* ===== verification/Run_Plan_Masks.thy ===== *)
theory Run_Plan_Masks
  imports Run_Plan_Duty
begin

section \<open>The operations of a plan and the masks read back from it\<close>

text \<open>
  All plans of the shared run plan have the same operations, so that a plan read back from the CFO differs from the
  generated one only in its operands; and the masks, read back in the order of the operations, are those that the
  next generation takes as the existing ones.
\<close>

subsection \<open>The same operations\<close>

definition op_shape :: "plan_op \<Rightarrow> plan_op" where
  "op_shape p =
     (case p of
        SET_TAG _ \<Rightarrow> SET_TAG 0
      | AND_MODE_BITS _ _ _ \<Rightarrow> AND_MODE_BITS 0 0 KeepAll
      | OR_MODE_BITS _ _ _ \<Rightarrow> OR_MODE_BITS 0 0 KeepAll
      | OR_SINGLESHOT_MODE_BITS _ \<Rightarrow> OR_SINGLESHOT_MODE_BITS 0
      | WAIT _ _ \<Rightarrow> WAIT [] []
      | _ \<Rightarrow> p)"

definition plan_shape :: "plan_line list \<Rightarrow> plan_line list" where
  "plan_shape ls = map (\<lambda>(d, p). (d, op_shape p)) ls"

text \<open>The shape of a shared run plan: no masks, no duration.\<close>

definition shared_shape :: "plan_line list" where
  "shared_shape =
     plan_shape (plan_lines 0 (\<lambda>_. [OR_SINGLESHOT_MODE_BITS 0, OR_MODE_BITS 0 0 KeepAll])
       (\<lambda>_. [AND_MODE_BITS 0 0 KeepAll, OR_MODE_BITS 0 0 KeepAll, OR_SINGLESHOT_MODE_BITS 0])
       (AND_MODE_BITS 0 0 KeepAll) (\<lambda>_. AND_MODE_BITS 0 0 KeepAll) [] [])"

lemma plan_shape_append: "plan_shape (xs @ ys) = plan_shape xs @ plan_shape ys"
  by (simp add: plan_shape_def)

lemma plan_shape_concat: "plan_shape (concat xss) = concat (map plan_shape xss)"
  by (induction xss) (simp_all add: plan_shape_append, simp add: plan_shape_def)

lemma plan_shape_pair: "plan_shape (map (Pair d) ps) = map (Pair d) (map op_shape ps)"
  by (simp add: plan_shape_def)

lemma plan_lines_shape:
  assumes "\<And>l. map op_shape (outer l) = map op_shape (outer' l)" "\<And>i. map op_shape (slot i) = map op_shape (slot' i)"
    and "op_shape fine = op_shape fine'" "\<And>l. op_shape (after l) = op_shape (after' l)"
  shows "plan_shape (plan_lines tag outer slot fine after num units) = plan_shape (plan_lines tag' outer' slot' fine' after' num' units')"
proof -
  have outer: "plan_shape (loop_start outer l) = plan_shape (loop_start outer' l)" for l
    unfolding loop_start_def plan_shape_pair by (simp add: assms(1))
  have after: "plan_shape (loop_end after l) = plan_shape (loop_end after' l)" for l
    by (simp add: loop_end_def plan_shape_def assms(4))
  have slot: "map op_shape (slot i @ event_ops num units) = map op_shape (slot' i @ event_ops num' units')" for i
    by (simp add: assms(2)) (simp add: event_ops_def op_shape_def)
  have fine: "map op_shape (concat (map (\<lambda>i. slot i @ event_ops num units) is)) = map op_shape (concat (map (\<lambda>i. slot' i @ event_ops num' units') is))" for "is"
    unfolding map_concat map_map o_def slot ..
  show ?thesis
    unfolding plan_lines_def plan_shape_append plan_shape_concat map_map o_def outer after plan_shape_pair fine
    by (simp add: plan_shape_def assms(3)) (simp add: op_shape_def)
qed

lemma mask_plan_shape: "plan_shape (mask_plan tag M num units) = shared_shape"
  unfolding mask_plan_def shared_shape_def by (rule plan_lines_shape) (simp_all add: op_shape_def)

lemma legacy_shape: "plan_shape (legacy_off_lines start count num units) = shared_shape"
  unfolding legacy_off_lines_def shared_shape_def by (rule plan_lines_shape) (simp_all add: op_shape_def)

subsection \<open>The masks in the order of the operations\<close>

definition and_mask :: "plan_op \<Rightarrow> u64 list" where
  "and_mask p = (case p of AND_MODE_BITS _ _ v \<Rightarrow> [lit_val v] | _ \<Rightarrow> [])"

definition or_mask :: "plan_op \<Rightarrow> u64 list" where
  "or_mask p = (case p of OR_MODE_BITS _ _ v \<Rightarrow> [lit_val v] | _ \<Rightarrow> [])"

definition plan_and_masks :: "plan_line list \<Rightarrow> u64 list" where
  "plan_and_masks ls = concat (map and_mask (map snd ls))"

definition plan_or_masks :: "plan_line list \<Rightarrow> u64 list" where
  "plan_or_masks ls = concat (map or_mask (map snd ls))"

lemma fine_masks:
  "concat (map and_mask (concat (map (slot_ops M num units) is))) = map (mk_and M) is"
  "concat (map or_mask (concat (map (slot_ops M num units) is))) = map (mk_or M) is"
  by (induction "is") (simp_all add: slot_ops_def event_ops_def and_mask_def or_mask_def lit_val_def)

lemma level_masks:
  "concat (map and_mask (level_ops M num units l)) = map (mk_and M) [0..<100] @ [mk_end M] @ map (mk_after M) [1..<Suc l]"
  "concat (map or_mask (level_ops M num units l)) = map (mk_outer_or M) (rev [1..<Suc l]) @ map (mk_or M) [0..<100]"
proof (induction l)
  case 0
  show "concat (map and_mask (level_ops M num units 0)) = map (mk_and M) [0..<100] @ [mk_end M] @ map (mk_after M) [1..<Suc 0]"
    unfolding level_ops.simps map_append concat_append fine_masks by (simp add: and_mask_def lit_val_def)
  show "concat (map or_mask (level_ops M num units 0)) = map (mk_outer_or M) (rev [1..<Suc 0]) @ map (mk_or M) [0..<100]"
    unfolding level_ops.simps map_append concat_append fine_masks by (simp add: or_mask_def)
next
  case (Suc l)
  have upt: "[1..<Suc (Suc l)] = [1..<Suc l] @ [Suc l]" by simp
  show "concat (map and_mask (level_ops M num units (Suc l))) = map (mk_and M) [0..<100] @ [mk_end M] @ map (mk_after M) [1..<Suc (Suc l)]"
    unfolding level_ops.simps map_append concat_append Suc upt by (simp add: and_mask_def lit_val_def del: upt_Suc)
  show "concat (map or_mask (level_ops M num units (Suc l))) = map (mk_outer_or M) (rev [1..<Suc (Suc l)]) @ map (mk_or M) [0..<100]"
    unfolding level_ops.simps map_append concat_append Suc upt by (simp add: or_mask_def lit_val_def del: upt_Suc)
qed

lemma mask_plan_masks:
  "plan_and_masks (mask_plan tag M num units) = map (mk_and M) [0..<100] @ [mk_end M] @ map (mk_after M) [1..<10]"
  "plan_or_masks (mask_plan tag M num units) = map (mk_outer_or M) (rev [1..<10]) @ map (mk_or M) [0..<100]"
proof -
  have ten: "Suc 9 = 10" by simp
  show "plan_and_masks (mask_plan tag M num units) = map (mk_and M) [0..<100] @ [mk_end M] @ map (mk_after M) [1..<10]"
    unfolding plan_and_masks_def mask_plan_levels map_append concat_append level_masks ten by (simp add: and_mask_def)
  show "plan_or_masks (mask_plan tag M num units) = map (mk_outer_or M) (rev [1..<10]) @ map (mk_or M) [0..<100]"
    unfolding plan_or_masks_def mask_plan_levels map_append concat_append level_masks ten by (simp add: or_mask_def)
qed

lemma and_masks_nth:
  assumes "i < 110"
  shows "plan_and_masks (mask_plan tag M num units) ! i = (if i < 100 then mk_and M i else if i = 100 then mk_end M else mk_after M (i - 100))"
proof -
  have "Suc (i - 101) = i - 100" if "100 < i" using that by arith
  then show ?thesis using assms unfolding mask_plan_masks by (auto simp: nth_append nth_Cons' simp del: upt_Suc)
qed

lemma or_masks_nth:
  assumes "i < 109"
  shows "plan_or_masks (mask_plan tag M num units) ! i = (if i < 9 then mk_outer_or M (9 - i) else mk_or M (i - 9))"
proof -
  have "Suc (8 - i) = 9 - i" if "i < 9" using that by arith
  then show ?thesis using assms unfolding mask_plan_masks by (auto simp: nth_append rev_nth simp del: upt_Suc)
qed

lemma masks_length:
  "length (plan_and_masks (mask_plan tag M num units)) = 110" "length (plan_or_masks (mask_plan tag M num units)) = 109"
  unfolding mask_plan_masks by simp_all

lemma and_all48: "v < 2 ^ 48 \<Longrightarrow> v AND all48 = v" for v :: u64
proof -
  assume "v < 2 ^ 48"
  then have "take_bit 48 v = v" by (simp add: take_bit_eq_mod unat_arith_simps)
  then show ?thesis by (simp add: all48_mask take_bit_eq_mask)
qed

end
