(* ===== verification/Run_Plan_Macros.thy ===== *)
theory Run_Plan_Macros
  imports Run_Plan
begin

section \<open>The Shared Run Plan: the macros\<close>

text \<open>
  The front-end macros of the shared run plan (CFOFrontEndInterfaceImpl.cc): start, stop, status, join (for good, or
  for a number of events) and leave; and \<^verbatim>\<open>convertEventDurationToClocks\<close> of
  otsdaq-mu2e/CFOandDTCCore/CFOandDTCCoreVInterface.cc. The result of a macro is its output argument "Result".
\<close>

subsection \<open>The hardware\<close>

definition cfo_do :: "'e cfolib \<Rightarrow> cfo_call \<Rightarrow> ('e, unit) cfo_eff" where
  "cfo_do C c = cfo_io (cf_do C c)"

definition read_binary :: "'e cfolib \<Rightarrow> string \<Rightarrow> ('e, u8 list) cfo_eff" where
  "read_binary C path =
     cfo_io (\<lambda>e. case cf_read_file C path e of
       (Inl (errno, why), e) \<Rightarrow> (Inl (''Could not open file at '' @ path @ ''. Error: '' @ to_string_int errno @ '' - '' @ why @ line_end), e)
     | (Inr bytes, e) \<Rightarrow> (Inr bytes, e))"

definition SetRunplan :: "'e cfolib \<Rightarrow> string \<Rightarrow> ('e, string) cfo_eff" where
  "SetRunplan C path =
     bindE (read_binary C path) (\<lambda>bytes.
     seqE (cfo_io (cf_SetRunPlanData C bytes))
    (seqE (record_event (Loaded bytes))
    (seqE (cfo_do C SetLinuxTimestampPreset)
    (bindE (cfo_io (cf_text C LinuxTimestamp)) (\<lambda>t.
     ret (line_end @ line_end @ ''Initialized CFO Linux Timestamp to '' @ t @ line_end @ line_end
          @ ''Downloaded to CFO binary run plan file: '' @ path @ line_end))))))"

definition cfo_halt :: "'e cfolib \<Rightarrow> ('e, unit) cfo_eff" where
  "cfo_halt C =
     whenE (cf_operatingMode C \<noteq> HARDWARE_DEV \<and> cf_operatingMode C \<noteq> LOOPBACK)
       (seqE (cfo_do C DisableBeamOnMode) (cfo_do C DisableBeamOffMode))"

text \<open>The right operand of \<^verbatim>\<open>||\<close> is read only when the left one is false.\<close>

definition in_run_plan :: "'e cfolib \<Rightarrow> ('e, bool) cfo_eff" where
  "in_run_plan C = bindE (cfo_io (cf_ReadBeamOnMode C)) (\<lambda>b. if b then ret True else cfo_io (cf_ReadBeamOffMode C))"

definition data_path :: "'e cfolib \<Rightarrow> ('e, string) cfo_eff" where
  "data_path C = (case cf_data_path C of Inl m \<Rightarrow> throw m | Inr p \<Rightarrow> ret (p @ ''/''))"

definition in_file :: "string \<Rightarrow> string" where "in_file base = base @ ''Mu2eCFORunPlanFromTEMPLATE.txt''"
definition out_file :: "string \<Rightarrow> string" where "out_file base = base @ ''Mu2eCFORunPlanFromTEMPLATE.bin''"

definition files_text :: "string \<Rightarrow> string" where
  "files_text base = ''Generated Run Plan text file: <FILE>'' @ in_file base @ ''</FILE>'' @ line_end
     @ ''Compiled Run Plan binary file: <FILE>'' @ out_file base @ ''</FILE>'' @ line_end"

definition compile :: "'e cfolib \<Rightarrow> string \<Rightarrow> ('e, string) cfo_eff" where
  "compile C base = cfo_io (cf_processFile C (in_file base) (out_file base))"

subsection \<open>The event duration\<close>

definition unit_char :: "char \<Rightarrow> bool" where
  "unit_char c \<longleftrightarrow> c \<in> set ''smunc''"

definition no_units :: "string \<Rightarrow> string" where
  "no_units t = ''No units were found in the input parameters '' @ [CHR 0x27] @ ''Fixed-width Event Window Duration'' @ [CHR 0x27]
     @ '' value: '' @ t @ ''. Please use units when specifying event window duration (s, ms, us, ns, and clocks are allowed). For example ''
     @ [CHR 0x27] @ ''1.7us'' @ [CHR 0x27] @ '' or '' @ [CHR 0x27] @ ''1675ns'' @ [CHR 0x27] @ '' would be valid.'' @ line_end"

definition parseEventDurationForRunPlan :: "string \<Rightarrow> ('s, string \<times> string) eff" where
  "parseEventDurationForRunPlan t =
     (if list_ex unit_char t then ret (takeWhile (\<lambda>c. \<not> unit_char c) t, dropWhile (\<lambda>c. \<not> unit_char c) t)
      else throw (no_units t))"

definition scaled_clocks :: "'e cfolib \<Rightarrow> double \<Rightarrow> double \<Rightarrow> ('s, u32) eff" where
  "scaled_clocks C timeValue perUnit = to_uint32 (rounded (rounded (timeValue * perUnit) / of_uint (cf_FPGAClock C)))"

definition duration_clocks :: "'e cfolib \<Rightarrow> u64 \<Rightarrow> double \<Rightarrow> string \<Rightarrow> ('s, u32) eff" where
  "duration_clocks C v timeValue units =
     (if units = ''s'' then scaled_clocks C timeValue 1000000000
      else if units = ''ms'' then scaled_clocks C timeValue 1000000
      else if units = ''us'' then scaled_clocks C timeValue 1000
      else if units = ''ns''
      then if v mod cf_FPGAClock C \<noteq> 0
           then throw (''FPGA can only wait in multiples of '' @ to_string (unat (cf_FPGAClock C)) @ '' ns: the input event duration value ''
                  @ [CHR 0x27] @ to_string (unat v) @ [CHR 0x27] @ '' yields a remainder of '' @ to_string (unat (v mod cf_FPGAClock C)) @ line_end)
           else ret (ucast (v div cf_FPGAClock C))
      else if units = ''clocks'' then ret (ucast v)
      else throw (''The event duration input parameter is missing a valid unit type after parameter: '' @ units
                  @ ''. Accepted unit types are clocks, ns, us, ms, and s.'' @ line_end))"

definition convertEventDurationToClocks :: "'e cfolib \<Rightarrow> string \<Rightarrow> ('s, u64) eff" where
  "convertEventDurationToClocks C t =
     bindE (parseEventDurationForRunPlan t) (\<lambda>(num, units).
     case cf_getNumber C num of
       None \<Rightarrow> throw (''The duration parameter value '' @ [CHR 0x27] @ num @ '' '' @ units @ [CHR 0x27] @ '' is not a valid number. ''
                 @ ''Use 0x### to indicate hex and b### to indicate binary; otherwise, decimal is inferred.'' @ line_end)
     | Some v \<Rightarrow>
         bindE (duration_clocks C v (max (cf_strtod C num) (of_uint v)) units) (\<lambda>clocks.
         if clocks < 40
         then throw (''The event duration input parameter can not evaluate to less than 40 clocks (1000ns). The input value '' @ [CHR 0x27]
                @ num @ '' '' @ units @ [CHR 0x27] @ '' evaluates to '' @ to_string (unat clocks) @ ''clocks < 40.'' @ line_end)
         else ret (ucast clocks)))"

subsection \<open>Reading back the plan\<close>

definition plan_mismatch_text :: "u32 \<Rightarrow> u32 \<Rightarrow> u32 \<Rightarrow> string" where
  "plan_mismatch_text a expected actual =
     ''Mismatches were found when comparing the generated Run Plan to the current CFO Run Plan data read back from the CFO. ''
     @ ''This likely indicates that the CFO is not currently running the expected shared Run Plan, or that there is an issue with ''
     @ ''reading back the Run Plan data from the CFO.'' @ line_end
     @ ''Address: '' @ to_string (unat a) @ '' Line #: '' @ to_string (unat (a div 2 + 1)) @ '' Expected: 0x'' @ radix_string 16 (unat expected)
     @ '' Actual: 0x'' @ radix_string 16 (unat actual) @ line_end"

definition op_code :: "u32 \<Rightarrow> u8" where
  "op_code w = ucast (drop_bit 24 w AND 0xEF)"

text \<open>The locals of the search: the duration found, and the address and low word of the last even mismatch.\<close>

definition look_mismatch :: "'e cfolib \<Rightarrow> u32 \<times> u32 \<times> u32 \<Rightarrow> u64 \<times> u32 \<times> u64 \<Rightarrow> ('s, u64 \<times> u32 \<times> u64) eff" where
  "look_mismatch C x acc =
     (case (x, acc) of ((a, expected, actual), (duration, last_a, pot)) \<Rightarrow>
      if even a then ret (duration, a, ucast actual)
      else if op_code expected \<noteq> op_code actual then throw (plan_mismatch_text a expected actual)
      else if op_code expected \<noteq> cf_code C OP_WAIT then ret acc
      else if last_a \<noteq> a - 1
      then throw (''Unexpected mismatch pattern found when comparing the generated Run Plan to the current CFO Run Plan data read back from the CFO. ''
             @ ''Expected mismatches for WAIT op to be in consecutive addresses with the first address containing the low 32-bits of event duration ''
             @ ''and the second address containing the high 32-bits of event duration. Found mismatch at address '' @ to_string (unat last_a)
             @ '' followed by mismatch at non-consecutive address '' @ to_string (unat a) @ line_end)
      else let pot = pot OR push_bit 32 (ucast (actual AND 0xFFFF)) in
           if duration = 0 then ret (pot, last_a, pot)
           else if duration \<noteq> pot
           then throw (''Inconsistent event duration values found in CFO Run Plan mismatches. Expected: '' @ to_string (unat duration)
                  @ '', Found: '' @ to_string (unat pot) @ line_end)
           else ret (duration, last_a, pot))"

definition dummy_duration :: string where
  "dummy_duration = to_string (2 ^ 47 + 1)"

text \<open>The masks are checked when the caller asks for them (\<open>want\<close>); all callers ask for both or none.\<close>

definition extract_body :: "'e cfolib \<Rightarrow> bool \<Rightarrow> ('e, u64 \<times> u64 list \<times> u64 list) cfo_eff" where
  "extract_body C want =
     bindE (data_path C) (\<lambda>base.
     seqE (generateSharedRunPlanWithPeriodicModeOff C (in_file base) 0 1 dummy_duration ''clocks'' [] [])
    (bindE (compile C base) (\<lambda>_.
     bindE (read_binary C (out_file base)) (\<lambda>bytes.
     seqE (modify (\<lambda>s. s\<lparr>cs_planSize := length bytes\<rparr>))
    (bindE (cfo_io (cf_CompareRunPlanData C bytes)) (\<lambda>rb.
     if rb_mismatches rb = []
     then throw (''IMPOSSIBLE!! No mismatches were found when comparing the generated Run Plan to the current CFO Run Plan data read back from the CFO. ''
            @ ''This indicates that the CFO is currently running the expected shared Run Plan, and that reading back the Run Plan data from the CFO.'' @ line_end)
     else bindE (foldE (look_mismatch C) (rb_mismatches rb) (0, 0, 0)) (\<lambda>(duration, _, _).
          if want \<and> length (rb_and rb) \<noteq> 110
          then throw (''Extracted AND ops size mismatch. Expected 110, got andMasks='' @ to_string (length (rb_and rb)) @ line_end)
          else if want \<and> length (rb_or rb) \<noteq> 109
          then throw (''Internal error: extracted mask vector size mismatch. Expected 109, got orMasks='' @ to_string (length (rb_or rb)) @ line_end)
          else ret (duration, rb_and rb, rb_or rb))))))))"

definition extractSharedRunPlanEventDuration :: "'e cfolib \<Rightarrow> bool \<Rightarrow> ('e, u64 \<times> u64 list \<times> u64 list) cfo_eff" where
  "extractSharedRunPlanEventDuration C want =
     tryE (extract_body C want) (\<lambda>e.
       throw (''Error extracting event duration for the Shared Run Plan - please make sure there is an active Shared Run Plan (i.e. common operation set). ''
         @ ''To start a Shared Run Plan, do '' @ [CHR 0x27] @ ''CFO Halt'' @ [CHR 0x27] @ '' and then '' @ [CHR 0x27] @ ''Share Run Plan Start.''
         @ [CHR 0x27] @ line_end @ line_end @ ''Here was the error:'' @ line_end @ e @ line_end))"

subsection \<open>Start and stop\<close>

definition Calo_inject :: u16 where "Calo_inject = 16"

definition calo_clocks :: "'e cfolib \<Rightarrow> ('s, u32) eff" where
  "calo_clocks C =
     (let rate = rounded (1 / rounded (3 / 2)); perNs = rounded (1 / 1000000000) in
      to_uint32 (rounded (1 / rounded (rounded (rate * perNs) * of_uint (cf_FPGAClock C)))))"

definition start_part ::
  "'e cfolib \<Rightarrow> string \<Rightarrow> string \<Rightarrow> u64 \<Rightarrow> u16 \<Rightarrow> u16 \<Rightarrow> u64 \<Rightarrow> u32 \<Rightarrow> u32 \<Rightarrow> string \<Rightarrow> string \<Rightarrow> ('e, string) cfo_eff" where
  "start_part C base lg tag start count v m n num units =
     generateSharedRunPlanWithPeriodicModeOn C lg (in_file base) tag start count v m n 0 num units
       (replicate 110 all48) (replicate 109 0) [] True"

definition SharedRunPlanStart :: "'e cfolib \<Rightarrow> u64 \<Rightarrow> u64 \<Rightarrow> string \<Rightarrow> ('e, string) cfo_eff" where
  "SharedRunPlanStart C initEventMode initEventTag eventDuration =
     bindE (in_run_plan C) (\<lambda>running.
     if running
     then throw (''Error: CFO is already in a Run Plan. Please do '' @ [CHR 0x27] @ ''CFO Halt'' @ [CHR 0x27]
            @ '' to halt the current Run Plan before starting a new one.'' @ line_end)
     else
     bindE (parseEventDurationForRunPlan eventDuration) (\<lambda>(num, units).
     bindE (convertEventDurationToClocks C eventDuration) (\<lambda>clocks.
     bindE (calo_clocks C) (\<lambda>calo.
     bindE (getRatioOfOnPerEvents calo (ucast clocks)) (\<lambda>(m, n).
     seqE (cfo_halt C)
    (seqE (cfo_do C DisableBeamOnMode)
    (seqE (cfo_do C DisableBeamOffMode)
    (seqE (cfo_do C CfoSoftReset)
    (bindE (data_path C) (\<lambda>base.
     bindE (start_part C base (files_text base) initEventTag 0 48 initEventMode 1 1 num units) (\<lambda>lg.
     bindE (compile C base) (\<lambda>out1.
     bindE (SetRunplan C (out_file base)) (\<lambda>set1.
     seqE (cfo_do C EnableEmbeddedClockMarker)
    (seqE (cfo_do C EnableLink)
    (seqE (cfo_do C EnableBeamOffMode)
    (bindE (start_part C base (lg @ line_end @ line_end @ ''Run Plan part-1:'' @ line_end @ out1 @ set1) initEventTag Calo_inject 1 1 m n num units) (\<lambda>lg.
     bindE (compile C base) (\<lambda>out2.
     bindE (SetRunplan C (out_file base)) (\<lambda>set2.
     ret (lg @ line_end @ line_end @ ''Run Plan part-2:'' @ line_end @ out2 @ set2))))))))))))))))))))"

definition SharedRunPlanStop :: "'e cfolib \<Rightarrow> ('e, string) cfo_eff" where
  "SharedRunPlanStop C =
     seqE (cfo_halt C) (seqE (cfo_do C DisableBeamOnMode) (seqE (cfo_do C DisableBeamOffMode) (ret (''Done'' @ line_end))))"

end
