(* ===== verification/Run_Plan_Join.thy ===== *)
theory Run_Plan_Join
  imports Run_Plan_Macros
begin

section \<open>The Shared Run Plan: status, join and leave\<close>

text \<open>
  \<^verbatim>\<open>SharedRunPlanStatus\<close>, \<^verbatim>\<open>SharedRunPlanSubsystemJoin\<close> and \<^verbatim>\<open>SharedRunPlanSubsystemLeave\<close> (CFOFrontEndInterfaceImpl.cc).
  The status macro, which the join runs through the framework by its name, is called directly.
\<close>

subsection \<open>Status\<close>

definition mode_bit_names :: "(nat \<times> string) list" where
  "mode_bit_names = [(7, ''HWDev''), (15, ''Tracker''), (16, ''Calo Inject''), (23, ''Calo''), (31, ''CRV''), (37, ''STM''), (39, ''ExtMon'')]"

definition bit_description :: "nat \<Rightarrow> string" where
  "bit_description b = to_string b @ (case map_of mode_bit_names b of None \<Rightarrow> [] | Some t \<Rightarrow> ''('' @ t @ '')'')"

definition formatSetBitsComment :: "u64 \<Rightarrow> string" where
  "formatSetBitsComment d =
     (if d = all48 then ''all bits''
      else if d = 0 then ''no bits''
      else let ds = map bit_description (filter (bit d) [0..<48]) in
           if length ds = 1 then ''bit-'' @ hd ds
           else ''bits-'' @ concat (map (\<lambda>(i, t). (if i = 0 then [] else '','') @ t) (enumerate 0 ds)))"

text \<open>The locals of the loop over the read-back: the next address, the low word and its text, the indentation, the markers.\<close>

record status_loop =
  sl_result :: string
  sl_expected :: u32
  sl_loText :: string
  sl_lo :: u32
  sl_tabs :: nat
  sl_markers :: nat

definition line_hex8 :: "u32 \<Rightarrow> string" where
  "line_hex8 w = pad_left 8 CHR ''0'' (radix_string 16 (unat w))"

definition line_head :: "u32 \<Rightarrow> nat \<Rightarrow> string" where
  "line_head a tabs = line_end @ ''Line #'' @ pad_left 4 CHR '' '' (to_string (unat (a div 2))) @ '':'' @ replicate tabs (CHR 0x09) @ ''     0x''"

text \<open>One round of the loop that stands for words that are not in the list of differences, which are all ones.\<close>

definition pad_word :: "u32 \<Rightarrow> status_loop \<Rightarrow> status_loop" where
  "pad_word a L =
     (let L = (if even (sl_expected L) then L\<lparr>sl_lo := 0xFFFFFFFF, sl_loText := line_hex8 0xFFFFFFFF @ '' ''\<rparr>
               else L\<lparr>sl_result := sl_result L @ line_hex8 0xFFFFFFFF @ '' '' @ sl_loText L @ ''   // INVALID''\<rparr>);
          L = L\<lparr>sl_expected := sl_expected L + 1\<rparr>
      in if odd (sl_expected L) then L\<lparr>sl_result := sl_result L @ line_head a (sl_tabs L)\<rparr> else L)"

definition op_text_of :: "'e cfolib \<Rightarrow> op_name \<Rightarrow> ('s, string) eff" where
  "op_text_of C c = (case cf_ops C (cf_code C c) of None \<Rightarrow> throw ''map::at'' | Some t \<Rightarrow> ret t)"

definition data48 :: "u32 \<Rightarrow> u32 \<Rightarrow> u64" where
  "data48 hi lo = push_bit 32 (ucast (hi AND 0xFFFF)) OR ucast lo"

text \<open>The names of the operations are looked up once; \<open>T\<close> gives them.\<close>

definition op_comment :: "(op_name \<Rightarrow> string) \<Rightarrow> string \<Rightarrow> u64 \<Rightarrow> string" where
  "op_comment T op d =
     (if op = T OP_OR_MODE_BITS \<or> op = T OP_OR_SINGLESHOT_MODE_BITS then '' sets '' @ formatSetBitsComment d
      else if op = T OP_AND_MODE_BITS then '' clears '' @ formatSetBitsComment (NOT (d OR push_bit 48 0xFFFF)) else [])"

definition readback_line :: "'e cfolib \<Rightarrow> (op_name \<Rightarrow> string) \<Rightarrow> u32 \<Rightarrow> status_loop \<Rightarrow> status_loop" where
  "readback_line C T actual L =
     (let op = (case cf_ops C (ucast (drop_bit 24 actual)) of None \<Rightarrow> ''INVALID'' | Some t \<Rightarrow> t);
          L = (if op = T OP_LOOP then L\<lparr>sl_tabs := sl_tabs L + 1\<rparr>
               else if op = T OP_DO_LOOP then L\<lparr>sl_tabs := sl_tabs L - 1\<rparr> else L);
          L = L\<lparr>sl_result := sl_result L @ line_hex8 actual @ '' '' @ sl_loText L @ ''   // '' @ op @ op_comment T op (data48 actual (sl_lo L))\<rparr>
      in if op = T OP_MARKER
         then L\<lparr>sl_markers := sl_markers L + 1, sl_result := sl_result L @ '' -----> #'' @ to_string (sl_markers L + 1)\<rparr> else L)"

definition readback_word :: "'e cfolib \<Rightarrow> (op_name \<Rightarrow> string) \<Rightarrow> u32 \<times> u32 \<times> u32 \<Rightarrow> status_loop \<Rightarrow> status_loop" where
  "readback_word C T x L =
     (case x of (a, _, actual) \<Rightarrow>
      let L = (if odd (sl_expected L) then L\<lparr>sl_result := sl_result L @ line_head a (sl_tabs L)\<rparr> else L);
          L = (pad_word a ^^ (unat a - unat (sl_expected L))) L;
          L = (if even (sl_expected L) then L\<lparr>sl_lo := actual, sl_loText := line_hex8 actual @ '' ''\<rparr> else readback_line C T actual L)
      in L\<lparr>sl_expected := a + 1\<rparr>)"

definition divider :: string where
  "divider = replicate 55 (CHR ''='') @ line_end"

definition counter_text :: "string \<Rightarrow> u64 \<Rightarrow> string" where
  "counter_text name v = name @ to_string (unat v) @ '' (0x'' @ radix_string 16 (unat v) @ '')'' @ line_end"

definition duration_text :: "'e cfolib \<Rightarrow> u64 \<Rightarrow> string" where
  "duration_text C clocks =
     (let us = rounded (of_uint (clocks * cf_FPGAClock C) / 1000) in
      line_end @ divider @ ''Event Window Duration:                      '' @ to_string (unat clocks) @ '' 0x'' @ radix_string 16 (unat clocks)
      @ '' clocks ('' @ cf_double C us @ '' us)'' @ line_end
      @ line_end @ divider @ ''Event Window Rate:                         ''
      @ (if clocks > 0 then cf_double C (rounded (1000 / us)) @ '' kHz'' else ''0'') @ line_end)"

definition status_section :: "'e cfolib \<Rightarrow> cfo_text \<Rightarrow> string \<Rightarrow> ('e, string) cfo_eff" where
  "status_section C x t = bindE (cfo_io (cf_text C x)) (\<lambda>v. ret (t @ line_end @ divider @ v @ line_end))"

definition status_counter :: "'e cfolib \<Rightarrow> cfo_count \<times> string \<Rightarrow> string \<Rightarrow> ('e, string) cfo_eff" where
  "status_counter C x t = bindE (cfo_io (cf_count C (fst x))) (\<lambda>v. ret (t @ counter_text (snd x) v))"

definition status_head :: "bool \<Rightarrow> bool \<Rightarrow> string" where
  "status_head on off = ''CFO Shared Run Plan: '' @ (if on \<or> off then ''RUNNING'' else ''OFF'') @ (if on then '' (Beam-On)'' else [])
     @ (if off then '' (Beam-Off)'' else []) @ line_end
     @ ''Available chunk loop counts: {'' @ comma_numbers standardNValues @ ''}'' @ line_end"

definition readback_text :: "'e cfolib \<Rightarrow> string \<Rightarrow> ('e, string) cfo_eff" where
  "readback_text C t =
     bindE (gets cs_planSize) (\<lambda>k.
     bindE (cfo_io (cf_CompareRunPlanData C (replicate k 0xFF))) (\<lambda>rb.
     bindE (op_text_of C OP_LOOP) (\<lambda>loop. bindE (op_text_of C OP_DO_LOOP) (\<lambda>do_loop. bindE (op_text_of C OP_MARKER) (\<lambda>marker.
     bindE (op_text_of C OP_OR_MODE_BITS) (\<lambda>or_bits. bindE (op_text_of C OP_OR_SINGLESHOT_MODE_BITS) (\<lambda>shot_bits.
     bindE (op_text_of C OP_AND_MODE_BITS) (\<lambda>and_bits.
     let T = (\<lambda>c. case c of OP_LOOP \<Rightarrow> loop | OP_DO_LOOP \<Rightarrow> do_loop | OP_MARKER \<Rightarrow> marker | OP_OR_MODE_BITS \<Rightarrow> or_bits
                | OP_OR_SINGLESHOT_MODE_BITS \<Rightarrow> shot_bits | OP_AND_MODE_BITS \<Rightarrow> and_bits | OP_WAIT \<Rightarrow> []);
         L = fold (readback_word C T) (rb_mismatches rb)
               \<lparr>sl_result = t @ line_end @ line_end @ divider @ ''Run Plan Readback:'' @ line_end, sl_expected = 0, sl_loText = [], sl_lo = 0,
                sl_tabs = 0, sl_markers = 0\<rparr>
     in ret (sl_result L @ line_end)))))))))"

definition SharedRunPlanStatus :: "'e cfolib \<Rightarrow> ('e, string) cfo_eff" where
  "SharedRunPlanStatus C =
     bindE (cfo_io (cf_ReadBeamOnMode C)) (\<lambda>on.
     bindE (cfo_io (cf_ReadBeamOffMode C)) (\<lambda>off.
     bindE (status_section C FormatRunPlanCurrentTag (status_head on off)) (\<lambda>t.
     bindE (extractSharedRunPlanEventDuration C False) (\<lambda>(clocks, _, _).
     bindE (foldE (status_section C)
              [FormatRunPlanCurrentMode, FormatBeamOnMode, FormatBeamOffMode, FormatRunPlanBeamOnBaseAddress, FormatRunPlanBeamOffBaseAddress]
              (t @ duration_text C clocks)) (\<lambda>t.
     bindE (foldE (status_counter C)
              [(ReceiveRF0MarkerCount, ''RF-0 Markers Received (16-bits):            ''),
               (TransmitHeartbeatPacketCount, ''Heartbeats Transmitted (16-bits):           ''),
               (TransmitEventWindowMarkerCount, ''Event Window Markers Transmitted (16-bits): '')]
              (t @ line_end @ divider @ line_end)) (\<lambda>t.
     readback_text C t))))))"

subsection \<open>Joining and leaving\<close>

definition supportedSubsystems :: "(string \<times> u16) list" where
  "supportedSubsystems = [(''CRV'', 31), (''Calo'', 23), (''Custom'', 0), (''ExtMon'', 39), (''STM'', 37), (''Tracker'', 15)]"

text \<open>The arguments of a join or leave; the custom ones are read only for the subsystem "Custom".\<close>

record join_args =
  ja_subsystem :: string
  ja_dutyCycle :: string
  ja_offset :: u32
  ja_position :: u16
  ja_count :: u16
  ja_value :: u64
  ja_events :: u32

definition require_subsystem :: "string \<Rightarrow> ('s, unit) eff" where
  "require_subsystem t =
     whenE (map_of supportedSubsystems t = None)
       (throw (''Specified subsystem '' @ [CHR 0x27] @ t @ [CHR 0x27] @ '' was not found in the set of supported subsystems: ''
               @ concat (map (\<lambda>(k, _). CHR 0x09 # k @ line_end) supportedSubsystems)))"

text \<open>\<^verbatim>\<open>strtoul\<close> in base 10: leading space, a sign, digits; too large a number gives the largest one.\<close>

definition decimal_digit :: "char \<Rightarrow> bool" where
  "decimal_digit c \<longleftrightarrow> 48 \<le> (of_char c :: nat) \<and> (of_char c :: nat) < 58"

definition strtoul10 :: "string \<Rightarrow> u64" where
  "strtoul10 text =
     (let t = dropWhile is_space text;
          neg = (take 1 t = ''-'');
          ds = takeWhile decimal_digit (if neg \<or> take 1 t = ''+'' then drop 1 t else t);
          v = foldl (\<lambda>v c. 10 * v + (of_char c - 48)) (0 :: nat) ds
      in if v \<ge> 2 ^ 64 then - 1 else if neg then - word_of_nat v else word_of_nat v)"

definition parse_duty :: "'e cfolib \<Rightarrow> string \<Rightarrow> ('s, u32 \<times> u32) eff" where
  "parse_duty C duty =
     (if duty \<noteq> [] \<and> last duty = CHR ''%''
      then let m = ucast (strtoul10 duty) in
           if m > 100
           then throw (''Illegal duty cycle percentage '' @ [CHR 0x27] @ duty @ [CHR 0x27]
                  @ ''.. expecting a percentage less than or equal to 100%.'' @ line_end)
           else ret (m, 100)
      else case cf_split C duty of
             [m, n] \<Rightarrow> ret (ucast (strtoul10 m), ucast (strtoul10 n))
           | _ \<Rightarrow> throw (''Illegal duty cycle ratio '' @ [CHR 0x27] @ duty @ [CHR 0x27] @ ''.. expecting M:N format, e.g. 1:200.'' @ line_end))"

definition on_bits :: "join_args \<Rightarrow> u16 \<times> u16 \<times> u64" where
  "on_bits A =
     (if ja_subsystem A = ''Custom'' then (ja_position A, ja_count A, ja_value A)
      else (the (map_of supportedSubsystems (ja_subsystem A)), 1, 1))"

definition bit_parameters :: "string \<Rightarrow> u16 \<Rightarrow> u16 \<Rightarrow> string \<Rightarrow> u64 \<Rightarrow> string" where
  "bit_parameters on start count middle v =
     line_end @ CHR 0x09 # on @ ''Bits_startBit = '' @ to_string (unat start)
     @ line_end @ CHR 0x09 # on @ ''Bits_bitCount = '' @ to_string (unat count) @ middle
     @ line_end @ CHR 0x09 # on @ ''Bits_value = 0x'' @ radix_string 16 (unat v) @ line_end"

definition not_in_run_plan :: string where
  "not_in_run_plan = ''Error: CFO is not currently in a Run Plan. Please do '' @ [CHR 0x27] @ ''Shared Run Plan Start'' @ [CHR 0x27]
     @ '' to start the shared Run Plan before adding subsystems.'' @ line_end"

definition join_pass ::
  "'e cfolib \<Rightarrow> string \<Rightarrow> string \<Rightarrow> join_args \<Rightarrow> u32 \<Rightarrow> u32 \<Rightarrow> u64 \<Rightarrow> u64 list \<Rightarrow> u64 list \<Rightarrow> bool \<Rightarrow> ('e, string) cfo_eff" where
  "join_pass C base lg A m n clocks ands ors apply_or =
     (case on_bits A of (start, count, v) \<Rightarrow>
      generateSharedRunPlanWithPeriodicModeOn C lg (in_file base) 0 start count v m n (ja_offset A)
        (to_string (unat clocks)) ''clocks'' ands ors [] apply_or)"

definition join_text :: "join_args \<Rightarrow> string \<Rightarrow> string \<Rightarrow> u32 \<Rightarrow> u32 \<Rightarrow> string" where
  "join_text A before what m n =
     (case on_bits A of (start, count, v) \<Rightarrow>
      before @ ''Subsystem '' @ [CHR 0x27] @ ja_subsystem A @ [CHR 0x27] @ what @ '' with M:N ratio '' @ ratio_text m n @ '' with mode bit parameters: ''
      @ bit_parameters ''on'' start count (line_end @ CHR 0x09 # ''eventOffsetInLoop = '' @ to_string (unat (ja_offset A))) v)"

definition SharedRunPlanSubsystemJoin :: "'e cfolib \<Rightarrow> join_args \<Rightarrow> ('e, string) cfo_eff" where
  "SharedRunPlanSubsystemJoin C A =
     bindE (in_run_plan C) (\<lambda>running.
     if \<not> running then throw not_in_run_plan
     else
     seqE (require_subsystem (ja_subsystem A))
    (bindE (parse_duty C (ja_dutyCycle A)) (\<lambda>(m, n).
     bindE (extractSharedRunPlanEventDuration C True) (\<lambda>(clocks, ands, ors).
     bindE (data_path C) (\<lambda>base.
     let lg = line_end @ ''Adding subsystem '' @ [CHR 0x27] @ ja_subsystem A @ [CHR 0x27] @ '' to the Shared Run Plan with dutyCycle '' @ [CHR 0x27]
           @ ja_dutyCycle A @ [CHR 0x27] @ ''...'' @ line_end @ line_end @ files_text base @ line_end
           @ join_text A (line_end @ line_end) '' joining'' m n @ line_end
     in
     bindE (join_pass C base lg A m n clocks ands ors False) (\<lambda>lg.
     bindE (compile C base) (\<lambda>_.
     bindE (SetRunplan C (out_file base)) (\<lambda>set1.
     bindE (join_pass C base (lg @ set1 @ ''Set preparation Run Plan for subsystem join with updated AND masks and suppressed OR additions.'' @ line_end)
              A m n clocks ands ors True) (\<lambda>lg.
     bindE (compile C base) (\<lambda>out2.
     bindE (SetRunplan C (out_file base)) (\<lambda>set2.
     bindE (SharedRunPlanStatus C) (\<lambda>status.
     ret (lg @ line_end @ line_end @ ''Run Plan to join:'' @ line_end @ out2 @ set2
          @ line_end @ line_end @ ''Here is the Run Plan Status after the join:'' @ line_end @ status
          @ join_text A (line_end @ line_end) '' successfully joined'' m n)))))))))))))"

definition off_bits :: "join_args \<Rightarrow> u16 \<times> u16" where
  "off_bits A =
     (if ja_subsystem A = ''Custom'' then (ja_position A, ja_count A) else (the (map_of supportedSubsystems (ja_subsystem A)), 1))"

definition SharedRunPlanSubsystemLeave :: "'e cfolib \<Rightarrow> join_args \<Rightarrow> ('e, string) cfo_eff" where
  "SharedRunPlanSubsystemLeave C A =
     bindE (in_run_plan C) (\<lambda>running.
     if \<not> running then throw (''Error: CFO is not currently in a Run Plan. No active Run Plan to leave!'' @ line_end)
     else
     seqE (require_subsystem (ja_subsystem A))
    (bindE (extractSharedRunPlanEventDuration C True) (\<lambda>(clocks, ands, ors).
     bindE (data_path C) (\<lambda>base.
     case off_bits A of (start, count) \<Rightarrow>
     seqE (generateSharedRunPlanWithPeriodicModeOff C (in_file base) start count (to_string (unat clocks)) ''clocks'' ands ors)
    (bindE (compile C base) (\<lambda>out2.
     bindE (SetRunplan C (out_file base)) (\<lambda>set2.
     let q = [CHR 0x27] @ ja_subsystem A @ [CHR 0x27] in
     ret (line_end @ ''Removing subsystem '' @ q @ '' from the Shared Run Plan...'' @ line_end @ line_end @ files_text base @ line_end
          @ line_end @ line_end @ ''Subsystem '' @ q @ '' leaving with mode off bit parameters: '' @ bit_parameters ''off'' start count [] 0 @ line_end
          @ line_end @ line_end @ ''Run Plan to join:'' @ line_end @ out2 @ set2
          @ line_end @ ''Subsystem '' @ q @ '' successfully removed from the Shared Run Plan with mode bit parameters: ''
          @ bit_parameters ''off'' start count [] 0))))))))"

end
