(* ===== verification/Run_Plan_Ratio.thy ===== *)
theory Run_Plan_Ratio
  imports Run_Plan_Duty Run_Plan_Join
begin

section \<open>The ratio that a duty cycle resolves to\<close>

text \<open>
  \<^verbatim>\<open>mnFixRatio\<close> resolves a requested M:N with \<open>N \<ge> 100\<close> to a standard N by double-precision arithmetic. The bounds:
  the resolved duty never exceeds the requested one, but for the rounding of the doubles, and with \<open>N = 100\<close> it misses
  it by less than one event in 100.
\<close>

lemma to_uint32_floor: "\<lfloor>x\<rfloor> = int k \<Longrightarrow> k < 2 ^ 32 \<Longrightarrow> to_uint32 x = ret (word_of_nat k)"
proof -
  assume k: "\<lfloor>x\<rfloor> = int k" "k < 2 ^ 32"
  then have "0 \<le> x" using of_int_floor_le [of x] by (metis of_int_of_nat_eq of_nat_0_le_iff order_trans)
  moreover have "int k < 2 ^ 32" using k(2) by simp
  ultimately show ?thesis unfolding to_uint32_def k(1) by simp
qed

lemma ratio_1_200: "getRatioOfOnPerEvents 200 1 s = (Ret (1, 200), s)"
proof -
  have 1: "rounded (of_uint (200 :: u32) / of_uint (1 :: u32)) = 200" by code_simp
  have 2: "\<lfloor>rounded (rounded (1 / 200) * 100)\<rfloor> = 0" by code_simp
  have 3: "\<lfloor>rounded (rounded (1 / 200) * 200)\<rfloor> = 1" by code_simp
  have z: "to_uint32 (rounded (rounded (1 / 200) * 100)) = ret 0" using to_uint32_floor [of _ 0] 2 by simp
  have o: "to_uint32 (rounded (rounded (1 / 200) * 200)) = ret 1" using to_uint32_floor [of _ 1] 3 by simp
  show ?thesis by (simp add: getRatioOfOnPerEvents_def 1 z o standardNValues_def Let_def) (simp add: ret_def)
qed

lemma to_uint32_Ret: "to_uint32 x s = (Ret w, s') \<Longrightarrow> 0 \<le> x \<and> int (unat w) = \<lfloor>x\<rfloor> \<and> s' = s"
proof -
  assume "to_uint32 x s = (Ret w, s')"
  then have c: "0 \<le> x" "\<lfloor>x\<rfloor> < 2 ^ 32" "w = word_of_int \<lfloor>x\<rfloor>" "s' = s"
    unfolding to_uint32_def ret_def undefined_behaviour_def by (simp_all split: if_split_asm)
  have "int (unat w) = \<lfloor>x\<rfloor> mod 2 ^ 32" unfolding c(3) by (simp add: uint_word_of_int)
  also have "\<dots> = \<lfloor>x\<rfloor>" using c(1, 2) by (intro mod_pos_pos_trivial) simp_all
  finally show "0 \<le> x \<and> int (unat w) = \<lfloor>x\<rfloor> \<and> s' = s" using c by simp
qed

lemma to_uint32_bounds: "to_uint32 x s = (Ret w, s') \<Longrightarrow> of_nat (unat w) \<le> x \<and> x < of_nat (unat w) + 1"
proof -
  assume "to_uint32 x s = (Ret w, s')"
  then have "of_int \<lfloor>x\<rfloor> = (of_nat (unat w) :: rat)" using to_uint32_Ret [of x s w s'] by (metis of_int_of_nat_eq)
  then show ?thesis using floor_correct [of x] by simp
qed

text \<open>The result of the search, by the first N whose product with the target is 1 or more; where no product is, the last N was
  too small as well.\<close>

lemma search_N_bounds:
  assumes "search_N t ns s = (Ret (m, n), s')" "set ns \<subseteq> set standardNValues" "0 < t"
  shows "(m = 1 \<and> unat n = 10 ^ 9 \<and> (ns \<noteq> [] \<longrightarrow> rounded (t * of_nat (last ns)) < 1)) \<or> of_nat (unat m) \<le> rounded (t * of_nat (unat n))"
    and "unat n = 100 \<Longrightarrow> rounded (t * 100) < of_nat (unat m) + 1"
proof -
  have "((m = 1 \<and> unat n = 10 ^ 9 \<and> (ns \<noteq> [] \<longrightarrow> rounded (t * of_nat (last ns)) < 1)) \<or> of_nat (unat m) \<le> rounded (t * of_nat (unat n)))
      \<and> (unat n = 100 \<longrightarrow> rounded (t * 100) < of_nat (unat m) + 1)"
    using assms
  proof (induction ns)
    case Nil
    then show ?case by (auto simp: ret_def standardNValues_def)
  next
    case (Cons n0 ns)
    have "n0 \<in> set standardNValues" using Cons.prems(2) by simp
    then have n0: "n0 < 2 ^ 32" by (auto simp: standardNValues_def)
    then have u: "unat (word_of_nat n0 :: u32) = n0" by (simp add: unat_of_nat)
    from Cons.prems(1) obtain k where k: "to_uint32 (rounded (t * of_nat n0)) s = (Ret k, s)"
      and rest: "(if k > 0 then ret (if n0 > 100 then 1 else k, word_of_nat n0) else search_N t ns) s = (Ret (m, n), s')"
      by (auto simp: bindE_Ret dest: to_uint32_Ret)
    note B = to_uint32_bounds [OF k]
    show ?case
    proof (cases "k > 0")
      case True
      then have "n = word_of_nat n0" "m = (if n0 > 100 then 1 else k)" using rest by (auto simp: ret_def)
      moreover have "1 \<le> unat k" using True by (simp add: word_less_nat_alt)
      then have "(1 :: rat) \<le> of_nat (unat k)" by (metis of_nat_1 of_nat_le_iff)
      ultimately show ?thesis using B u by auto
    next
      case False
      then have "k = 0" by (simp add: word_gt_0)
      then have "rounded (t * of_nat n0) < 1" using B by simp
      then show ?thesis using Cons False rest by auto
    qed
  qed
  then show "(m = 1 \<and> unat n = 10 ^ 9 \<and> (ns \<noteq> [] \<longrightarrow> rounded (t * of_nat (last ns)) < 1)) \<or> of_nat (unat m) \<le> rounded (t * of_nat (unat n))"
    "unat n = 100 \<Longrightarrow> rounded (t * 100) < of_nat (unat m) + 1" by blast+
qed

lemma rounded_bounds:
  assumes "0 < q"
  shows "q * (1 - 1 / 2 ^ 53) \<le> rounded q" "rounded q \<le> q * (1 + 1 / 2 ^ 53)"
  using rounded_error [OF assms] unfolding abs_le_iff by (simp_all add: algebra_simps)

lemma rounded_pos: "0 < q \<Longrightarrow> 0 < rounded q"
  using rounded_bounds(1) [of q] by (simp add: less_le_trans)

text \<open>The target and its product, within three roundings.\<close>

lemma target_bounds:
  fixes a b :: rat
  assumes "0 < a" "0 < b" "0 < k"
  defines "t \<equiv> rounded (1 / rounded (a / b))"
  shows "b / a * k * (1 - 1 / 2 ^ 50) \<le> rounded (t * k)" "rounded (t * k) \<le> b / a * k * (1 + 1 / 2 ^ 50)"
proof -
  let ?u = "1 / 2 ^ 53 :: rat"
  define q where "q = rounded (a / b)"
  have q: "a / b * (1 - ?u) \<le> q" "q \<le> a / b * (1 + ?u)" "0 < q"
    unfolding q_def using rounded_bounds [of "a / b"] rounded_pos [of "a / b"] assms by simp_all
  have inv: "b / a / (1 + ?u) \<le> 1 / q" "1 / q \<le> b / a / (1 - ?u)"
  proof -
    have "1 / (a / b * (1 + ?u)) \<le> 1 / q" using q assms by (intro divide_left_mono) simp_all
    then show "b / a / (1 + ?u) \<le> 1 / q" by simp
    have "1 / q \<le> 1 / (a / b * (1 - ?u))" using q assms by (intro divide_left_mono) simp_all
    then show "1 / q \<le> b / a / (1 - ?u)" by simp
  qed
  have t: "1 / q * (1 - ?u) \<le> t" "t \<le> 1 / q * (1 + ?u)" "0 < t"
    unfolding t_def q_def [symmetric] using rounded_bounds [of "1 / q"] rounded_pos [of "1 / q"] q(3) by simp_all
  have tk: "t * k * (1 - ?u) \<le> rounded (t * k)" "rounded (t * k) \<le> t * k * (1 + ?u)"
    using rounded_bounds [of "t * k"] t(3) assms(3) by simp_all
  have pos: "0 < b / a * k" using assms by simp
  have "b / a * k * (1 - 1 / 2 ^ 50) \<le> b / a * k * ((1 - ?u) * (1 - ?u) / (1 + ?u))"
    using pos by (intro mult_left_mono less_imp_le) simp_all
  also have "\<dots> = b / a / (1 + ?u) * (1 - ?u) * k * (1 - ?u)" by simp
  also have "\<dots> \<le> 1 / q * (1 - ?u) * k * (1 - ?u)" using inv(1) assms(3) by (intro mult_right_mono) simp_all
  also have "\<dots> \<le> t * k * (1 - ?u)" using t(1) assms(3) by (intro mult_right_mono) simp_all
  also note tk(1)
  finally show "b / a * k * (1 - 1 / 2 ^ 50) \<le> rounded (t * k)" .
  note tk(2)
  also have "t * k * (1 + ?u) \<le> 1 / q * (1 + ?u) * k * (1 + ?u)" using t(2) assms(3) by (intro mult_right_mono) simp_all
  also have "\<dots> \<le> b / a / (1 - ?u) * (1 + ?u) * k * (1 + ?u)" using inv(2) assms(3) by (intro mult_right_mono) simp_all
  also have "\<dots> = b / a * k * ((1 + ?u) * (1 + ?u) / (1 - ?u))" by simp
  also have "\<dots> \<le> b / a * k * (1 + 1 / 2 ^ 50)" using pos by (intro mult_left_mono less_imp_le) simp_all
  finally show "rounded (t * k) \<le> b / a * k * (1 + 1 / 2 ^ 50)" .
qed

lemma mnFixRatio_standard:
  assumes "mnFixRatio C lg m n s = (Ret (lg', m', n'), s')" "\<not> (n > 0 \<and> n < 100)"
  shows "getRatioOfOnPerEvents n m s = (Ret (m', n'), s)"
proof -
  from assms(1) obtain m1 n1 s1 where r: "getRatioOfOnPerEvents n m s = (Ret (m1, n1), s1)" and "n' = n1" "m' = m1" "s' = s1"
    unfolding mnFixRatio_def Let_def if_not_P [OF assms(2)] bindE_Ret
    by (auto simp: throw_def ret_def simp del: append.simps append_assoc split: if_splits)
  then show ?thesis using getRatio_valid [OF r] by simp
qed

lemma mnFixRatio_small:
  assumes "mnFixRatio C lg m n s = (Ret (lg', m', n'), s')" "n > 0 \<and> n < 100"
  shows "m' = m" "n' = n"
  using assms(1) unfolding mnFixRatio_def Let_def if_P [OF assms(2)] by (auto simp: throw_def ret_def split: if_splits)

lemma standard_duty_bounds:
  assumes "mnFixRatio C lg m n s = (Ret (lg', m', n'), s')" "\<not> (n > 0 \<and> n < 100)"
  defines "x \<equiv> (of_nat (unat m) / of_nat (unat n) :: rat)"
  shows "(of_nat (unat m') / of_nat (unat n') \<le> x * (1 + 1 / 2 ^ 50) \<or> (m' = 1 \<and> n' = 10 ^ 9 \<and> x * (1 - 1 / 2 ^ 50) < 1 / 10 ^ 9))
    \<and> (n' = 100 \<longrightarrow> of_nat (unat m') > 100 * x * (1 - 1 / 2 ^ 50) - 1)"
proof -
  from mnFixRatio_standard [OF assms(1,2)] have r: "getRatioOfOnPerEvents n m s = (Ret (m', n'), s)" .
  let ?m = "of_nat (unat m) :: rat" and ?n = "of_nat (unat n) :: rat"
  let ?t = "rounded (1 / rounded (?n / ?m))"
  have exact: "of_uint n = ?n" "of_uint m = ?m" by (simp_all add: of_uint_exact)
  have m0: "m \<noteq> 0" "n \<noteq> 0" and search: "search_N ?t standardNValues s = (Ret (m', n'), s)"
    using r by (auto simp: getRatioOfOnPerEvents_def throw_def exact split: if_splits)
  have "0 < unat m" "0 < unat n" using m0 by (simp_all add: unat_gt_0)
  then have pos: "0 < ?m" "0 < ?n" by (simp_all only: of_nat_0_less_iff)
  then have t: "0 < ?t" by (intro rounded_pos) (simp add: rounded_pos)
  note B = search_N_bounds [OF search subset_refl t]
  have "0 < unat n'" using getRatio_valid [OF r] by (simp add: valid_ratio_def)
  then have n': "0 < (of_nat (unat n') :: rat)" by (simp only: of_nat_0_less_iff)
  have "of_nat (unat m') / of_nat (unat n') \<le> x * (1 + 1 / 2 ^ 50)" if "of_nat (unat m') \<le> rounded (?t * of_nat (unat n'))"
  proof -
    have "of_nat (unat m') \<le> ?m / ?n * of_nat (unat n') * (1 + 1 / 2 ^ 50)"
      using that target_bounds(2) [OF pos(2, 1) n'] by (rule order_trans)
    also have "\<dots> = x * (1 + 1 / 2 ^ 50) * of_nat (unat n')" unfolding x_def by (simp only: mult_ac)
    finally show ?thesis using n' by (simp only: pos_divide_le_eq)
  qed
  moreover have "x * (1 - 1 / 2 ^ 50) < 1 / 10 ^ 9" if "rounded (?t * of_nat (last standardNValues)) < 1"
  proof -
    have "?m / ?n * 10 ^ 9 * (1 - 1 / 2 ^ 50) < 1"
      by (rule le_less_trans [OF target_bounds(1) [OF pos(2, 1)]]) (use that in \<open>simp_all add: standardNValues_def\<close>)
    then show ?thesis unfolding x_def by (simp add: field_simps)
  qed
  moreover have "n' = 10 ^ 9" if "unat n' = 10 ^ 9"
    using that by (simp add: word_unat_eq_iff)
  moreover have "of_nat (unat m') > 100 * x * (1 - 1 / 2 ^ 50) - 1" if "n' = 100"
  proof -
    have "unat n' = 100" using that by simp
    have "?m / ?n * 100 * (1 - 1 / 2 ^ 50) < of_nat (unat m') + 1"
      by (rule le_less_trans [OF target_bounds(1) [OF pos(2, 1)] B(2)]) (simp, fact)
    then show ?thesis unfolding x_def by (simp only: mult_ac diff_less_eq add_ac)
  qed
  moreover have "standardNValues \<noteq> []" by (simp add: standardNValues_def)
  ultimately show ?thesis using B(1) by blast
qed

text \<open>
  C35. The duty cycle a request resolves to, when it resolves: it is not above the requested one but for the rounding of the
  doubles (a factor of \<open>1 + 2 ^ -50\<close>), or the request was, but for that rounding, below the smallest duty \<open>1 : 10 ^ 9\<close> and
  resolves to \<open>1 : 10 ^ 9\<close>, above the request; and when it resolves to \<open>N = 100\<close> it is less than one event in 100 below, but for the rounding.
\<close>

theorem resolved_duty_bounds:
  assumes "mnFixRatio C lg m n s = (Ret (lg', m', n'), s')"
  defines "x \<equiv> (of_nat (unat m) / of_nat (unat n) :: rat)"
  shows "(of_nat (unat m') / of_nat (unat n') \<le> x * (1 + 1 / 2 ^ 50) \<or> (m' = 1 \<and> n' = 10 ^ 9 \<and> x * (1 - 1 / 2 ^ 50) < 1 / 10 ^ 9))
    \<and> (n' = 100 \<longrightarrow> of_nat (unat m') > 100 * x * (1 - 1 / 2 ^ 50) - 1)"
proof (cases "n > 0 \<and> n < 100")
  case True
  have "0 \<le> x" unfolding x_def by (intro divide_nonneg_nonneg of_nat_0_le_iff)
  then have "x \<le> x * (1 + 1 / 2 ^ 50)" by (simp add: distrib_left)
  then show ?thesis using mnFixRatio_small [OF assms(1) True] True unfolding x_def by auto
next
  case False
  then show ?thesis using standard_duty_bounds [OF assms(1) False] unfolding x_def by blast
qed

theorem resolved_duty_bounds_witness:
  "\<forall>(C :: unit cfolib) lg (s :: unit). \<exists>t. mnFixRatio C lg 1 200 s = (Ret (t, 1, 200), s) \<and> (1 / 200 :: rat) \<le> 1 / 200 * (1 + 1 / 2 ^ 50)"
proof (intro allI)
  fix C :: "unit cfolib" and lg and s :: unit
  obtain t where t: "mnFixRatio C lg 1 200 s = (Ret (t, 1, 200), s)"
    using ratio_1_200 [of s] by (simp add: mnFixRatio_def Let_def bindE_def standardNValues_def ret_def)
  from resolved_duty_bounds [OF this] t
  show "\<exists>t. mnFixRatio C lg 1 200 s = (Ret (t, 1, 200), s) \<and> (1 / 200 :: rat) \<le> 1 / 200 * (1 + 1 / 2 ^ 50)" by auto
qed

text \<open>
  A percentage is not rounded but cut off after the double-precision arithmetic: a subsystem that joins with "7%"
  gets 6 of 100 events.
\<close>

theorem seven_percent: "\<exists>t. bindE (parse_duty C ''7%'') (\<lambda>(m, n). mnFixRatio C lg m n) s = (Ret (t, 6, 100), s)"
proof -
  have 1: "rounded (of_uint (100 :: u32) / of_uint (7 :: u32)) = rounded (100 / 7)" by (simp add: of_uint_exact)
  have "\<lfloor>rounded (rounded (1 / rounded (100 / 7)) * 100)\<rfloor> = 6" by code_simp
  then have m: "to_uint32 (rounded (rounded (1 / rounded (100 / 7)) * 100)) = ret 6" using to_uint32_floor [of _ 6] by simp
  have r: "getRatioOfOnPerEvents 100 7 s = (Ret (6, 100), s)"
    by (simp add: getRatioOfOnPerEvents_def 1 m standardNValues_def Let_def) (simp add: ret_def)
  have "strtoul10 ''7%'' = 7" by (simp add: strtoul10_def is_space_def decimal_digit_def)
  then have p: "parse_duty C ''7%'' = ret (7, 100)" by (simp add: parse_duty_def)
  show ?thesis unfolding p bindE_ret prod.case using r by (simp add: mnFixRatio_def Let_def bindE_def standardNValues_def ret_def)
qed

end
