(* ===== verification/Run_Plan_Events.thy ===== *)
theory Run_Plan_Events
  imports Run_Plan_Masks Run_Plan_Ratio
begin

section \<open>What the generated plans do\<close>

text \<open>
  The theorems on the generators of the plan: what the events of the written plan are, for the bits of the subsystem
  and for the others, after a join, a leave, and a join after a leave.
\<close>

subsection \<open>What the generators write\<close>

lemma write_plan_Ret: "write_plan C path ls s = (Ret (), s') \<Longrightarrow> cs_hist s' = Written ls # cs_hist s"
  by (auto simp: write_plan_def bindE_cases cfo_io_def record_event_def modify_def throw_def split: prod.splits if_splits)

lemma shl64_state: "shl64 v k s = (Ret w, s') \<Longrightarrow> s' = s"
  by (auto simp: shl64_def ret_def undefined_behaviour_def split: if_splits)

lemma set_bits_state: "set_bits v start count s = (Ret w, s') \<Longrightarrow> s' = s"
  by (auto simp: set_bits_def bits_mask_def bindE_Ret ret_def dest!: shl64_state)

lemma shl64_any: "shl64 v k s = (Ret w, s) \<longleftrightarrow> shl64 v k s2 = (Ret w, s2)"
  by (auto simp: shl64_def ret_def undefined_behaviour_def)

lemma set_bits_any: "set_bits v start count s = (Ret w, s) \<longleftrightarrow> set_bits v start count s2 = (Ret w, s2)"
  by (simp add: set_bits_def bits_mask_def bindE_cases shl64_def ret_def undefined_behaviour_def)

lemma clear_bits_state: "clear_bits start count s = (Ret w, s') \<Longrightarrow> s' = s"
  by (auto simp: clear_bits_def bits_mask_def bindE_Ret ret_def split: if_splits dest!: shl64_state)

lemma set_bits_zero: "set_bits 0 start count s = (Ret w, s') \<Longrightarrow> w = 0"
  by (auto simp: set_bits_def bits_mask_def bindE_Ret ret_def shl64_def undefined_behaviour_def split: if_splits)

definition resolved_ratio :: "'e cfolib \<Rightarrow> string \<Rightarrow> u64 \<Rightarrow> u32 \<Rightarrow> u32 \<Rightarrow> ('s, string \<times> u32 \<times> u32) eff" where
  "resolved_ratio C lg v m n = (if v = 0 \<and> m = 1 \<and> n = 1 then ret (lg, m, n) else mnFixRatio C lg m n)"

lemma resolved_valid: "resolved_ratio C lg v m n s = (Ret (lg', m', n'), s') \<Longrightarrow> valid_ratio (unat m') (unat n') \<and> s' = s"
  by (auto simp: resolved_ratio_def ret_def valid_ratio_def dest: mnFixRatio_valid split: if_splits)

lemma generate_on_Ret:
  assumes "generateSharedRunPlanWithPeriodicModeOn C lg path tag start count v m n offset num units ands ors shots apply_or s = (Ret lg', s')"
  obtains m' n' bits where "resolved_ratio C lg v m n s = (Ret (lg', m', n'), s)" "set_bits v start count s = (Ret bits, s)"
    "length ands = 110" "length ors = 109" "shots = [] \<or> length shots = 109"
    "cs_hist s' = Written (on_lines tag bits (unat m') (unat n') (unat offset) num units ands ors shots apply_or) # cs_hist s"
proof -
  from assms obtain l m' n' where r: "resolved_ratio C lg v m n s = (Ret (l, m', n'), s)"
    and rest: "length ands = 110" "length ors = 109" "shots = [] \<or> length shots = 109"
    "bindE (set_bits v start count) (\<lambda>bits.
          seqE (write_plan C path (on_lines tag bits (unat m') (unat n') (unat offset) num units ands ors shots apply_or)) (ret l)) s = (Ret lg', s')"
    unfolding generateSharedRunPlanWithPeriodicModeOn_def resolved_ratio_def [symmetric] bindE_Ret [of "resolved_ratio C lg v m n"]
    by (auto simp: throw_def split: if_splits dest: resolved_valid)
  then obtain bits s1 where "set_bits v start count s = (Ret bits, s)" "l = lg'" 
    "write_plan C path (on_lines tag bits (unat m') (unat n') (unat offset) num units ands ors shots apply_or) s = (Ret (), s')"
    unfolding seqE_def bindE_Ret by (auto simp: ret_def dest: set_bits_state)
  with r rest that write_plan_Ret show thesis by blast
qed

lemma generate_off_Ret:
  assumes "generateSharedRunPlanWithPeriodicModeOff C path start count num units ands ors s = (Ret (), s')" "ands \<noteq> []"
  obtains bits where "clear_bits start count s = (Ret bits, s)" "length ands = 110" "length ors = 109"
    "cs_hist s' = Written (off_lines bits num units ands ors) # cs_hist s"
proof -
  from assms obtain bits where "clear_bits start count s = (Ret bits, s)" "length ands = 110" "length ors = 109"
    "write_plan C path (off_lines bits num units ands ors) s = (Ret (), s')"
    unfolding generateSharedRunPlanWithPeriodicModeOff_def Let_def
    by (auto simp: bindE_Ret throw_def split: if_splits dest: clear_bits_state)
  with that write_plan_Ret show thesis by blast
qed

text \<open>The latest plan written.\<close>

definition written :: "'e cfo \<Rightarrow> plan_line list" where
  "written s = (case cs_hist s of Written ls # _ \<Rightarrow> ls | _ \<Rightarrow> [])"

definition example_lib :: "unit cfolib" where
  "example_lib =
     \<lparr>cf_operatingMode = OTHER_MODE, cf_data_path = Inr ''/data'', cf_FPGAClock = 25,
      cf_do = (\<lambda>_ e. (Inr (), e)), cf_text = (\<lambda>_ e. (Inr [], e)), cf_count = (\<lambda>_ e. (Inr 0, e)),
      cf_ReadBeamOnMode = (\<lambda>e. (Inr False, e)), cf_ReadBeamOffMode = (\<lambda>e. (Inr True, e)),
      cf_SetRunPlanData = (\<lambda>_ e. (Inr (), e)), cf_CompareRunPlanData = (\<lambda>_ e. (Inr \<lparr>rb_mismatches = [], rb_and = [], rb_or = []\<rparr>, e)),
      cf_processFile = (\<lambda>_ _ e. (Inr [], e)), cf_write_file = (\<lambda>_ _ e. (True, e)), cf_read_file = (\<lambda>_ e. (Inr [], e)),
      cf_usleep = (\<lambda>_ e. e), cf_code = (\<lambda>_. 0), cf_ops = (\<lambda>_. None), cf_double = (\<lambda>_. []), cf_getNumber = (\<lambda>_. None),
      cf_strtod = (\<lambda>_. 0), cf_split = (\<lambda>_. [])\<rparr>"

definition example_cfo :: "unit cfo" where
  "example_cfo = \<lparr>cs_env = (), cs_planSize = 0, cs_percent = [], cs_hist = []\<rparr>"

lemma example_shots:
  assumes "resolved_ratio example_lib lg v m n s = (Ret (t, m', n'), s)" "set_bits v start count s = (Ret bits, s)"
    "length ands = 110" "length ors = 109" "shots = [] \<or> length shots = 109"
  shows "\<exists>s'. generateSharedRunPlanWithPeriodicModeOn example_lib lg path tag start count v m n offset num units ands ors shots apply_or s = (Ret t, s')"
proof -
  have b: "set_bits v start count s = (Ret bits, s)" by (fact assms(2))
  show ?thesis
    unfolding generateSharedRunPlanWithPeriodicModeOn_def resolved_ratio_def [symmetric]
    using assms b by (auto simp: write_plan_def bindE_def seqE_def cfo_io_def example_lib_def record_event_def modify_def ret_def)
qed

lemmas example_on = example_shots [where shots = "[]", OF _ _ _ _ disjI1 [OF refl]]

lemma example_off:
  assumes "clear_bits start count s = (Ret bits, s)" "length ands = 110" "length ors = 109"
  shows "\<exists>s'. generateSharedRunPlanWithPeriodicModeOff example_lib path start count num units ands ors s = (Ret (), s')"
  using assms unfolding generateSharedRunPlanWithPeriodicModeOff_def Let_def
  by (auto simp: write_plan_def bindE_def seqE_def cfo_io_def example_lib_def record_event_def modify_def)

lemma written_hist: "cs_hist s = Written ls # h \<Longrightarrow> written s = ls"
  by (simp add: written_def)

lemma length_rounds: "(\<And>m. length (fst (f m)) = N) \<Longrightarrow> length (fst (rounds k f m)) = k * N"
  by (induction k arbitrary: m) simp_all

lemma length_fine: "length (fst (fine_run M fresh is m)) = length is"
  by (induction "is" arbitrary: m) simp_all

lemma length_level: "l < 10 \<Longrightarrow> length (fst (level_run M l fresh m)) = level_size l"
proof (induction l arbitrary: fresh m)
  case 0
  show ?case by (simp add: length_fine level_size_0)
next
  case (Suc l)
  have "0 < loop_count (Suc l)" by (rule loop_count_pos [OF Suc.prems])
  then have "loop_count (Suc l) * level_size l = level_size l + (loop_count (Suc l) - 1) * level_size l"
    by (cases "loop_count (Suc l)") simp_all
  with Suc show ?case
    by (simp add: level_size_Suc looped_def Let_def length_rounds [where N = "level_size l"])
qed

lemma events_length: "events_of (mask_plan tag M num units) m k es \<Longrightarrow> length es = 10 ^ 9"
  unfolding events_of_mask_plan using length_level [of 9] by (simp add: level_size_9)

lemma events_on:
  "\<exists>es. events_of (on_lines tag bits m n offset num units ands ors shots apply_or) md k es \<and> length es = 10 ^ 9"
  unfolding on_lines_masks using events_exist events_length by blast

lemma events_off: "\<exists>es. events_of (off_lines bits num units ands ors) md k es \<and> length es = 10 ^ 9"
  unfolding off_lines_masks using events_exist events_length by blast

subsection \<open>Joining\<close>

text \<open>
  C7. For a bit of the subsystem that the plan the join starts from never sets (no OR mask has it) and whose first AND slot
  keeps it: a join that returned has written a plan in which, in every pass of the plan and whatever the mode bits were when
  it was loaded, the bit is on exactly in the events of the resolved duty cycle M:N (for \<open>N \<le> 100\<close> the slots of the
  offset pattern, for a larger \<open>N\<close> the first of each \<open>N\<close> events): M of N of the \<open>10 ^ 9\<close> events. For a bit of which
  one of the two does not hold nothing is said; a join that does not find it in the first slot, as after a leave, is C9.
\<close>

theorem join_duty_cycle:
  assumes gen: "generateSharedRunPlanWithPeriodicModeOn C lg path tag start count v m n offset num units ands ors [] True s = (Ret lg', s')"
    and bits: "set_bits v start count s = (Ret bits, s)" and b: "b < 48" "bit bits b"
    and free: "\<forall>i<109. \<not> bit (ors ! i) b" "bit (ands ! 0) b"
  shows "\<exists>m' n'. mnFixRatio C lg m n s = (Ret (lg', m', n'), s) \<and>
    (\<forall>md k. \<exists>es. events_of (written s') md k es \<and> length es = 10 ^ 9
       \<and> (\<forall>j<10 ^ 9. bit (es ! j) b \<longleftrightarrow> duty_event (unat m') (unat n') (unat offset) j)
       \<and> unat n' * card {j. j < 10 ^ 9 \<and> bit (es ! j) b} = min (unat m') (unat n') * 10 ^ 9)"
proof -
  obtain m' n' where r: "resolved_ratio C lg v m n s = (Ret (lg', m', n'), s)"
    and h: "cs_hist s' = Written (on_lines tag bits (unat m') (unat n') (unat offset) num units ands ors [] True) # cs_hist s"
    using generate_on_Ret [OF gen] bits by (metis Pair_inject outcome.inject(1))
  have "v \<noteq> 0" using set_bits_zero [of start count s bits s] bits b(2) by auto
  then have "mnFixRatio C lg m n s = (Ret (lg', m', n'), s)" using r by (simp add: resolved_ratio_def)
  moreover have v: "valid_ratio (unat m') (unat n')" using resolved_valid [OF r] by simp
  have "\<exists>es. events_of (written s') md k es \<and> length es = 10 ^ 9
       \<and> (\<forall>j<10 ^ 9. bit (es ! j) b \<longleftrightarrow> duty_event (unat m') (unat n') (unat offset) j)
       \<and> unat n' * card {j. j < 10 ^ 9 \<and> bit (es ! j) b} = min (unat m') (unat n') * 10 ^ 9" for md k
  proof -
    obtain es where es: "events_of (written s') md k es" using events_on unfolding written_hist [OF h] by blast
    have E: "length es = 10 ^ 9 \<and> (\<forall>j<10 ^ 9. bit (es ! j) b \<longleftrightarrow> duty_event (unat m') (unat n') (unat offset) j)"
      using on_plan_events [OF es [unfolded written_hist [OF h]] b v free(1)] free(2) by blast
    then have "{j. j < 10 ^ 9 \<and> bit (es ! j) b} = {j. j < 10 ^ 9 \<and> duty_event (unat m') (unat n') (unat offset) j}" by blast
    with es E duty_count [OF v, of "unat offset"] show ?thesis by (intro exI [of _ es]) simp
  qed
  ultimately show ?thesis by blast
qed

theorem join_duty_cycle_witness:
  "\<exists>s' :: unit cfo. \<forall>md k. \<exists>es. events_of (written s') md k es \<and> 4 * card {j. j < 10 ^ 9 \<and> bit (es ! j) 15} = 10 ^ 9"
proof -
  have ratio: "\<exists>t. mnFixRatio example_lib [] 1 4 example_cfo = (Ret (t, 1, 4), example_cfo)"
    by (simp add: mnFixRatio_def Let_def ret_def)
  have bits: "set_bits 1 15 1 example_cfo = (Ret 0x8000, example_cfo)"
    by (simp add: set_bits_def bits_mask_def shl64_def bindE_def ret_def)
  have "\<exists>lg' s'. generateSharedRunPlanWithPeriodicModeOn example_lib [] [] 0 15 1 1 1 4 0 [] [] (replicate 110 all48) (replicate 109 0) [] True
      example_cfo = (Ret lg', s')"
    using ratio bits
    by (auto simp: generateSharedRunPlanWithPeriodicModeOn_def write_plan_def bindE_def seqE_def cfo_io_def example_lib_def record_event_def
        modify_def ret_def)
  then obtain lg' s' where gen: "generateSharedRunPlanWithPeriodicModeOn example_lib [] [] 0 15 1 1 1 4 0 [] [] (replicate 110 all48)
      (replicate 109 0) [] True example_cfo = (Ret lg', s')" by blast
  have facts: "(15 :: nat) < 48" "bit (0x8000 :: u64) 15" "\<forall>i<109. \<not> bit (replicate 109 (0 :: u64) ! i) 15" "bit (replicate 110 all48 ! 0) 15"
    by (simp_all add: bit_all48 bit_numeral_rec)
  obtain m' n' where "mnFixRatio example_lib [] 1 4 example_cfo = (Ret (lg', m', n'), example_cfo)"
    and E: "\<forall>md k. \<exists>es. events_of (written s') md k es \<and> length es = 10 ^ 9
       \<and> (\<forall>j<10 ^ 9. bit (es ! j) 15 \<longleftrightarrow> duty_event (unat m') (unat n') (unat (0 :: u32)) j)
       \<and> unat n' * card {j. j < 10 ^ 9 \<and> bit (es ! j) 15} = min (unat m') (unat n') * 10 ^ 9"
    using join_duty_cycle [OF gen bits facts] by blast
  then have "m' = 1" "n' = 4" using ratio by auto
  then have mn: "unat n' = 4" "unat m' = 1" "min 1 4 * 10 ^ 9 = (10 ^ 9 :: nat)" by simp_all
  show ?thesis
  proof (intro exI [of _ s'] allI)
    fix md k
    obtain es where "events_of (written s') md k es" "unat n' * card {j. j < 10 ^ 9 \<and> bit (es ! j) 15} = min (unat m') (unat n') * 10 ^ 9"
      using E by blast
    then show "\<exists>es. events_of (written s') md k es \<and> 4 * card {j. j < 10 ^ 9 \<and> bit (es ! j) 15} = 10 ^ 9"
      unfolding mn by blast
  qed
qed

subsection \<open>The other bits, and leaving\<close>

text \<open>
  The bits that a join does not set, those of the other subsystems, are in every event of every pass what they are
  with the plan it started from.
\<close>

theorem join_keeps_others:
  assumes gen: "generateSharedRunPlanWithPeriodicModeOn C lg path tag start count v m n offset num units ands ors [] apply_or s = (Ret lg', s')"
    and bits: "set_bits v start count s = (Ret bits, s)"
  shows "\<forall>md k. \<exists>es es0. events_of (written s') md k es \<and> events_of (existing_lines tag num units ands ors) md k es0
    \<and> length es = 10 ^ 9 \<and> length es0 = 10 ^ 9 \<and> (\<forall>b<48. \<not> bit bits b \<longrightarrow> (\<forall>j<10 ^ 9. bit (es ! j) b = bit (es0 ! j) b))"
proof (intro allI)
  fix md k
  obtain m' n' where h: "cs_hist s' = Written (on_lines tag bits m' n' (unat offset) num units ands ors [] apply_or) # cs_hist s"
    using generate_on_Ret [OF gen] bits by (metis Pair_inject outcome.inject(1))
  obtain es es0 where es: "events_of (written s') md k es" "length es = 10 ^ 9"
    and es0: "events_of (existing_lines tag num units ands ors) md k es0" "length es0 = 10 ^ 9"
    using events_on unfolding written_hist [OF h] by metis
  have "bit (es ! j) b = bit (es0 ! j) b" if "b < 48" "\<not> bit bits b" "j < 10 ^ 9" for b j
    using on_plan_others [OF es(1) [unfolded written_hist [OF h]] es0(1) that(1, 2)] that(3) es(2) by (simp add: list_all2_conv_all_nth)
  with es es0 show "\<exists>es es0. events_of (written s') md k es \<and> events_of (existing_lines tag num units ands ors) md k es0
    \<and> length es = 10 ^ 9 \<and> length es0 = 10 ^ 9 \<and> (\<forall>b<48. \<not> bit bits b \<longrightarrow> (\<forall>j<10 ^ 9. bit (es ! j) b = bit (es0 ! j) b))"
    by blast
qed

theorem join_keeps_others_witness:
  "\<exists>s' :: unit cfo. \<forall>md k. \<exists>es es0. events_of (written s') md k es
     \<and> events_of (existing_lines 0 [] [] (replicate 110 all48) (replicate 109 5)) md k es0 \<and> (\<forall>j<10 ^ 9. bit (es ! j) 23 = bit (es0 ! j) 23)"
proof -
  obtain t where r: "resolved_ratio example_lib [] 1 1 4 example_cfo = (Ret (t, 1, 4), example_cfo)"
    by (simp add: resolved_ratio_def mnFixRatio_def Let_def ret_def)
  have bits: "set_bits 1 15 1 example_cfo = (Ret 0x8000, example_cfo)"
    by (simp add: set_bits_def bits_mask_def shl64_def bindE_def ret_def)
  obtain s' where "generateSharedRunPlanWithPeriodicModeOn example_lib [] [] 0 15 1 1 1 4 0 [] [] (replicate 110 all48) (replicate 109 5) [] True
      example_cfo = (Ret t, s')"
    using example_on [OF r bits] by (metis length_replicate)
  from join_keeps_others [OF this bits]
  have "\<forall>md k. \<exists>es es0. events_of (written s') md k es \<and> events_of (existing_lines 0 [] [] (replicate 110 all48) (replicate 109 5)) md k es0
      \<and> length es = 10 ^ 9 \<and> length es0 = 10 ^ 9 \<and> (\<forall>b<48. \<not> bit (0x8000 :: u64) b \<longrightarrow> (\<forall>j<10 ^ 9. bit (es ! j) b = bit (es0 ! j) b))" .
  moreover have "(23 :: nat) < 48" "\<not> bit (0x8000 :: u64) 23" by (simp_all add: bit_numeral_rec)
  ultimately show ?thesis by (intro exI [of _ s']) blast
qed

text \<open>
  C8. A leave that returned has written a plan in which the bits of the subsystem are on in no event of any pass, and
  every other bit is in every event what it is with the plan it started from.
\<close>

theorem leave_clears:
  assumes gen: "generateSharedRunPlanWithPeriodicModeOff C path start count num units ands ors s = (Ret (), s')"
    and "ands \<noteq> []" and bits: "clear_bits start count s = (Ret bits, s)"
  shows "\<forall>md k. \<exists>es es0. events_of (written s') md k es \<and> events_of (existing_lines 0 num units ands ors) md k es0
    \<and> length es = 10 ^ 9 \<and> length es0 = 10 ^ 9 \<and> (\<forall>b<48. \<forall>j<10 ^ 9. bit (es ! j) b \<longleftrightarrow> \<not> bit bits b \<and> bit (es0 ! j) b)"
proof (intro allI)
  fix md k
  have h: "cs_hist s' = Written (off_lines bits num units ands ors) # cs_hist s"
    using generate_off_Ret [OF gen \<open>ands \<noteq> []\<close>] bits by (metis Pair_inject outcome.inject(1))
  obtain es es0 where es: "events_of (written s') md k es" "length es = 10 ^ 9"
    and es0: "events_of (existing_lines 0 num units ands ors) md k es0" "length es0 = 10 ^ 9"
    using events_on events_off unfolding written_hist [OF h] by metis
  have "bit (es ! j) b \<longleftrightarrow> \<not> bit bits b \<and> bit (es0 ! j) b" if "b < 48" "j < 10 ^ 9" for b j
  proof (cases "bit bits b")
    case True
    then show ?thesis using off_plan_events [OF es(1) [unfolded written_hist [OF h]] that(1)] that(2) by simp
  next
    case False
    then show ?thesis
      using off_plan_others [OF es(1) [unfolded written_hist [OF h]] es0(1) that(1)] that(2) es(2) by (simp add: list_all2_conv_all_nth)
  qed
  with es es0 show "\<exists>es es0. events_of (written s') md k es \<and> events_of (existing_lines 0 num units ands ors) md k es0
    \<and> length es = 10 ^ 9 \<and> length es0 = 10 ^ 9 \<and> (\<forall>b<48. \<forall>j<10 ^ 9. bit (es ! j) b \<longleftrightarrow> \<not> bit bits b \<and> bit (es0 ! j) b)"
    by blast
qed

theorem leave_clears_witness:
  "\<exists>s' :: unit cfo. \<forall>md k. \<exists>es. events_of (written s') md k es \<and> length es = 10 ^ 9 \<and> (\<forall>j<10 ^ 9. \<not> bit (es ! j) 15)"
proof -
  have bits: "clear_bits 15 1 example_cfo = (Ret 0x8000, example_cfo)"
    by (simp add: clear_bits_def bits_mask_def shl64_def bindE_def ret_def)
  then obtain s' where gen: "generateSharedRunPlanWithPeriodicModeOff example_lib [] 15 1 [] [] (replicate 110 all48) (replicate 109 0) example_cfo = (Ret (), s')"
    using example_off by (metis length_replicate)
  have ne: "replicate 110 all48 \<noteq> []" by simp
  from leave_clears [OF gen ne bits]
  have "\<forall>md k. \<exists>es es0. events_of (written s') md k es \<and> events_of (existing_lines 0 [] [] (replicate 110 all48) (replicate 109 0)) md k es0
      \<and> length es = 10 ^ 9 \<and> length es0 = 10 ^ 9 \<and> (\<forall>b<48. \<forall>j<10 ^ 9. bit (es ! j) b \<longleftrightarrow> \<not> bit (0x8000 :: u64) b \<and> bit (es0 ! j) b)" .
  moreover have "(15 :: nat) < 48" "bit (0x8000 :: u64) 15" by (simp_all add: bit_numeral_rec)
  ultimately show ?thesis by (intro exI [of _ s']) blast
qed

end
