(* ===== verification/Run_Plan_Rejoin.thy ===== *)
theory Run_Plan_Rejoin
  imports Run_Plan_Events
begin

section \<open>Plans in a row\<close>

text \<open>
  The plan that a join or leave starts from is the one the CFO runs: its masks are read back in the order of the
  operations. Generating a plan again without a change gives the same masks; all plans have the same operations; and
  what a join does after a leave.
\<close>

subsection \<open>The same operations\<close>

lemma shared_shape_length: "length shared_shape = 749"
proof -
  have c: "length (concat (map f xs)) = k * length xs" if "\<And>x. length (f x) = k" for f :: "nat \<Rightarrow> 'a list" and k xs
    using that by (induction xs) simp_all
  show ?thesis
    unfolding shared_shape_def plan_shape_def length_map plan_lines_def length_append
    by (simp add: c [of _ 3] c [of _ 2] c [of _ 7] loop_start_def loop_end_def event_ops_def del: upt_Suc upt_rec_numeral)
qed

text \<open>
  C17. All plans of the shared run plan, of a join with any arguments, of a leave and the one that the read-back is
  compared to, are the same operations with the same loop counts and nesting: they differ only in the tag, the masks and
  the duration. They are 749 operations, which the CFO's memory of 1024 holds.
\<close>

theorem same_operations:
  "(generateSharedRunPlanWithPeriodicModeOn C lg path tag start count v m n offset num units ands ors shots apply_or s = (Ret lg', s')
      \<longrightarrow> plan_shape (written s') = shared_shape)
   \<and> (generateSharedRunPlanWithPeriodicModeOff C path start count num units ands ors s = (Ret (), s') \<longrightarrow> plan_shape (written s') = shared_shape)
   \<and> length shared_shape = 749"
proof (intro conjI impI)
  assume "generateSharedRunPlanWithPeriodicModeOn C lg path tag start count v m n offset num units ands ors shots apply_or s = (Ret lg', s')"
  then obtain m' n' bits where "cs_hist s' = Written (on_lines tag bits m' n' (unat offset) num units ands ors shots apply_or) # cs_hist s"
    by (rule generate_on_Ret)
  then show "plan_shape (written s') = shared_shape" by (simp add: written_hist on_lines_masks mask_plan_shape)
next
  assume gen: "generateSharedRunPlanWithPeriodicModeOff C path start count num units ands ors s = (Ret (), s')"
  from gen obtain bits where "write_plan C path (if ands \<noteq> [] \<or> ors \<noteq> [] then off_lines bits num units ands ors else legacy_off_lines start count num units) s
      = (Ret (), s')"
    unfolding generateSharedRunPlanWithPeriodicModeOff_def Let_def
    by (cases "(ands \<noteq> [] \<or> ors \<noteq> []) \<and> (length ands \<noteq> 110 \<or> length ors \<noteq> 109)")
      (simp add: throw_def, simp only: if_False bindE_Ret, blast dest: clear_bits_state)
  from write_plan_Ret [OF this] show "plan_shape (written s') = shared_shape"
    by (simp add: written_hist off_lines_masks mask_plan_shape legacy_shape)
qed (rule shared_shape_length)

theorem same_operations_witness:
  "\<exists>(s' :: unit cfo) (s'' :: unit cfo). plan_shape (written s') = shared_shape \<and> plan_shape (written s'') = shared_shape \<and> cs_hist s' \<noteq> cs_hist s''"
proof -
  have "resolved_ratio example_lib [] 0 1 1 example_cfo = (Ret ([], 1, 1), example_cfo)" by (simp add: resolved_ratio_def ret_def)
  moreover have "set_bits 0 0 0 example_cfo = (Ret 0, example_cfo)" by (simp add: set_bits_def bits_mask_def shl64_def bindE_def ret_def)
  ultimately obtain s' where on: "generateSharedRunPlanWithPeriodicModeOn example_lib [] [] 5 0 0 0 1 1 0 [] [] (replicate 110 all48) (replicate 109 0) [] True
      example_cfo = (Ret [], s')"
    using example_on [of "[]" 0 1 1 example_cfo "[]" 1 1 0 0 0] by (metis length_replicate)
  have "clear_bits 0 0 example_cfo = (Ret 0, example_cfo)" by (simp add: clear_bits_def ret_def)
  then obtain s'' where off: "generateSharedRunPlanWithPeriodicModeOff example_lib [] 0 0 [] [] (replicate 110 all48) (replicate 109 0) example_cfo = (Ret (), s'')"
    using example_off by (metis length_replicate)
  have "cs_hist s' \<noteq> cs_hist s''"
  proof -
    have first: "hd (on_lines tag bits m n offset num units ands ors shots apply_or) = (0, SET_TAG tag)"
      "hd (off_lines bits num units ands ors) = (0, SET_TAG 0)" for tag bits m n offset num units ands ors shots apply_or
      by (simp_all add: on_lines_def off_lines_def plan_lines_def)
    obtain bits and m' n' :: u32 where 1: "cs_hist s' = Written (on_lines 5 bits (unat m') (unat n') (unat (0 :: u32)) [] [] (replicate 110 all48) (replicate 109 0) [] True) # cs_hist example_cfo"
      by (rule generate_on_Ret [OF on]) blast
    have ne: "replicate 110 all48 \<noteq> []" by simp
    obtain bits' where 2: "cs_hist s'' = Written (off_lines bits' [] [] (replicate 110 all48) (replicate 109 0)) # cs_hist example_cfo"
      by (rule generate_off_Ret [OF off ne]) blast
    have "hd (written s') \<noteq> hd (written s'')" unfolding written_hist [OF 1] written_hist [OF 2] first by simp
    then show ?thesis by (auto simp: written_def)
  qed
  with same_operations [of example_lib "[]" "[]" 5 0 0 0 1 1 0 "[]" "[]" "replicate 110 all48" "replicate 109 0" "[]" True example_cfo "[]" s']
    same_operations [of example_lib "[]" "[]" 5 0 0 0 1 1 0 "[]" "[]" "replicate 110 all48" "replicate 109 0" "[]" True example_cfo "[]" s'']
    on off show ?thesis by blast
qed

subsection \<open>The masks of a plan without a change\<close>

text \<open>
  A plan that is generated from masks without a bit to set (as for every chunk of a single-shot join) has exactly
  those masks, in the order in which they are read back: the next generation starts from the same ones.
\<close>

theorem regenerate_masks:
  assumes gen: "generateSharedRunPlanWithPeriodicModeOn C lg path tag start count 0 1 1 offset num units ands ors shots apply_or s = (Ret lg', s')"
    and "\<forall>a\<in>set ands. a < 2 ^ 48"
  shows "plan_and_masks (written s') = ands \<and> plan_or_masks (written s') = ors"
proof -
  obtain m' n' bits where b: "set_bits 0 start count s = (Ret bits, s)" and len: "length ands = 110" "length ors = 109"
    and h: "cs_hist s' = Written (on_lines tag bits m' n' (unat offset) num units ands ors shots apply_or) # cs_hist s"
    using generate_on_Ret [OF gen] by metis
  have "bits = 0" by (rule set_bits_zero [OF b])
  with written_hist [OF h] have w: "written s' = mask_plan tag (on_masks 0 m' n' (unat offset) ands ors shots apply_or) num units"
    by (simp add: on_lines_masks)
  have "plan_and_masks (written s') ! i = ands ! i" if "i < 110" for i
    using that assms(2) len and_all48 [of "ands ! i"] unfolding w
    by (auto simp: and_masks_nth on_masks_def merged_and_def)
  moreover have "plan_or_masks (written s') ! i = ors ! i" if "i < 109" for i
    using that unfolding w by (auto simp: or_masks_nth on_masks_def merged_or_def coarse_or_def)
  ultimately show ?thesis using len by (auto simp: list_eq_iff_nth_eq masks_length w)
qed

theorem regenerate_masks_witness:
  "\<exists>s' :: unit cfo. plan_and_masks (written s') = (replicate 110 0)[3 := 7] \<and> plan_or_masks (written s') = (replicate 109 0)[5 := 9]"
proof -
  have "resolved_ratio example_lib [] 0 1 1 example_cfo = (Ret ([], 1, 1), example_cfo)" by (simp add: resolved_ratio_def ret_def)
  moreover have "set_bits 0 0 0 example_cfo = (Ret 0, example_cfo)" by (simp add: set_bits_def bits_mask_def shl64_def bindE_def ret_def)
  ultimately obtain s' where on: "generateSharedRunPlanWithPeriodicModeOn example_lib [] [] 5 0 0 0 1 1 0 [] [] ((replicate 110 0)[3 := 7]) ((replicate 109 0)[5 := 9]) [] True
      example_cfo = (Ret [], s')"
    using example_on [of "[]" 0 1 1 example_cfo "[]" 1 1 0 0 0 "(replicate 110 0)[3 := 7]" "(replicate 109 0)[5 := 9]"] by fastforce
  have "set ((replicate 110 (0 :: u64))[3 := 7]) \<subseteq> insert 7 {0}" by (rule order_trans [OF set_update_subset_insert]) auto
  then have "\<forall>a\<in>set ((replicate 110 (0 :: u64))[3 := 7]). a < 2 ^ 48" by auto
  from regenerate_masks [OF on this] show ?thesis by blast
qed

subsection \<open>Joining again\<close>

text \<open>
  C9. A subsystem that left and joins again, with the masks of the plan of its leave: for \<open>N \<le> 100\<close> it is on in exactly
  the events of its duty cycle; for a larger \<open>N\<close> the join reports success and the bit is on in no event of any pass,
  since the leave has cleared the bit in the masks of all slots and the join restores none of them.
\<close>

theorem rejoin_after_leave:
  assumes off: "generateSharedRunPlanWithPeriodicModeOff C path start count num units ands ors s = (Ret (), s1)" "ands \<noteq> []"
    and on: "generateSharedRunPlanWithPeriodicModeOn C lg path tag start count v m n offset num units
        (plan_and_masks (written s1)) (plan_or_masks (written s1)) [] True s1 = (Ret lg', s2)"
    and cleared: "clear_bits start count s = (Ret gone, s)" and bits: "set_bits v start count s1 = (Ret bits, s1)"
    and b: "b < 48" "bit gone b" "bit bits b"
  shows "\<exists>m' n'. mnFixRatio C lg m n s1 = (Ret (lg', m', n'), s1) \<and>
    (\<forall>md k. \<exists>es. events_of (written s2) md k es \<and> length es = 10 ^ 9
       \<and> (\<forall>j<10 ^ 9. bit (es ! j) b \<longleftrightarrow> n' \<le> 100 \<and> duty_event (unat m') (unat n') (unat offset) j))"
proof -
  have h1: "cs_hist s1 = Written (off_lines gone num units ands ors) # cs_hist s"
    using generate_off_Ret [OF off] cleared by (metis Pair_inject outcome.inject(1))
  define ands' ors' where "ands' = plan_and_masks (written s1)" and "ors' = plan_or_masks (written s1)"
  have M: "written s1 = mask_plan 0 (off_masks gone ands ors) num units" by (simp add: written_hist [OF h1] off_lines_masks)
  have no_and: "\<not> bit (ands' ! i) b" if "i < 100" for i
    unfolding ands'_def M using that b by (simp add: and_masks_nth off_masks_def bit48)
  have no_or: "\<forall>i<109. \<not> bit (ors' ! i) b"
    unfolding ors'_def M using b by (auto simp: or_masks_nth off_masks_def bit48)
  obtain m' n' where r: "resolved_ratio C lg v m n s1 = (Ret (lg', m', n'), s1)"
    and h2: "cs_hist s2 = Written (on_lines tag bits (unat m') (unat n') (unat offset) num units ands' ors' [] True) # cs_hist s1"
    using generate_on_Ret [OF on] bits unfolding ands'_def ors'_def by (metis Pair_inject outcome.inject(1))
  have "v \<noteq> 0" using set_bits_zero [of start count s1 bits s1] bits b(3) by auto
  then have "mnFixRatio C lg m n s1 = (Ret (lg', m', n'), s1)" using r by (simp add: resolved_ratio_def)
  moreover have v: "valid_ratio (unat m') (unat n')" using resolved_valid [OF r] by simp
  have "\<exists>es. events_of (written s2) md k es \<and> length es = 10 ^ 9
       \<and> (\<forall>j<10 ^ 9. bit (es ! j) b \<longleftrightarrow> n' \<le> 100 \<and> duty_event (unat m') (unat n') (unat offset) j)" for md k
  proof -
    obtain es where es: "events_of (written s2) md k es" "length es = 10 ^ 9" using events_on unfolding written_hist [OF h2] by metis
    note on_es = es(1) [unfolded written_hist [OF h2]]
    show ?thesis
    proof (cases "n' \<le> 100")
      case True
      then have "unat n' \<le> 100" by (simp add: word_le_nat_alt)
      with on_plan_events [OF on_es b(1, 3) v no_or] True es show ?thesis by blast
    next
      case False
      then have n: "100 < unat n'" by (simp add: word_le_nat_alt)
      let ?M = "on_masks bits (unat m') (unat n') (unat offset) ands' ors' [] True"
      have slot: "slot_bit ?M b f i x = False" if "i < 100" for f i x
        using that b n no_and no_or by (auto simp: slot_bit_def on_masks_def bit_merged_and bit_merged_or should_set_def)
      have E: "emits b (\<lambda>_. True) (level_run ?M 9 f) (10 ^ 9) (\<lambda>j. False) (\<lambda>_. True)" for f
        using level_slots [OF b(1), of True ?M "\<lambda>_. False" 9 f] slot by (simp add: level_size_9)
      from plan_emits [OF on_es [unfolded on_lines_masks] E E] False es show ?thesis by auto
    qed
  qed
  ultimately show ?thesis by blast
qed

theorem rejoin_after_leave_witness:
  "\<exists>s2 :: unit cfo. \<forall>md k. \<exists>es. events_of (written s2) md k es \<and> length es = 10 ^ 9 \<and> (\<forall>j<10 ^ 9. \<not> bit (es ! j) 15)"
proof -
  have "clear_bits 15 1 example_cfo = (Ret 0x8000, example_cfo)"
    by (simp add: clear_bits_def bits_mask_def shl64_def bindE_def ret_def)
  note cleared = this
  then obtain s1 where off: "generateSharedRunPlanWithPeriodicModeOff example_lib [] 15 1 [] [] (replicate 110 all48) (replicate 109 0) example_cfo = (Ret (), s1)"
    using example_off by (metis length_replicate)
  have bits: "set_bits 1 15 1 s1 = (Ret 0x8000, s1)"
    by (simp add: set_bits_def bits_mask_def shl64_def bindE_def ret_def)
  have len: "length (plan_and_masks (written s1)) = 110" "length (plan_or_masks (written s1)) = 109"
  proof -
    have ne: "replicate 110 all48 \<noteq> []" by simp
    obtain gone where "cs_hist s1 = Written (off_lines gone [] [] (replicate 110 all48) (replicate 109 0)) # cs_hist example_cfo"
      by (rule generate_off_Ret [OF off ne]) blast
    from written_hist [OF this] show "length (plan_and_masks (written s1)) = 110" "length (plan_or_masks (written s1)) = 109"
      by (simp_all only: off_lines_masks masks_length)
  qed
  have "getRatioOfOnPerEvents 200 1 s1 = (Ret (1, 200), s1)" by (rule ratio_1_200)
  then have ratio: "\<exists>t. mnFixRatio example_lib [] 1 200 s1 = (Ret (t, 1, 200), s1)"
    by (simp add: mnFixRatio_def Let_def bindE_def standardNValues_def ret_def)
  then obtain t where "resolved_ratio example_lib [] 1 1 200 s1 = (Ret (t, 1, 200), s1)" by (auto simp: resolved_ratio_def)
  from example_on [OF this bits len] obtain s2 where
    on: "generateSharedRunPlanWithPeriodicModeOn example_lib [] [] 0 15 1 1 1 200 0 [] [] (plan_and_masks (written s1)) (plan_or_masks (written s1)) [] True s1 = (Ret t, s2)"
    by blast
  have ne: "replicate 110 all48 \<noteq> []" by simp
  have b: "(15 :: nat) < 48" "bit (0x8000 :: u64) 15" by (simp_all add: bit_numeral_rec)
  obtain m' n' where mn: "mnFixRatio example_lib [] 1 200 s1 = (Ret (t, m', n'), s1)"
    and E: "\<forall>md k. \<exists>es. events_of (written s2) md k es \<and> length es = 10 ^ 9
       \<and> (\<forall>j<10 ^ 9. bit (es ! j) 15 \<longleftrightarrow> n' \<le> 100 \<and> duty_event (unat m') (unat n') (unat (0 :: u32)) j)"
    using rejoin_after_leave [OF off ne on cleared bits b(1, 2, 2)] by blast
  from mn ratio have "n' = 200" by auto
  then have "(n' \<le> 100) = False" by simp
  with E show ?thesis by (intro exI [of _ s2]) (simp only: simp_thms)
qed

end
