(* ===== verification/Run_Plan_Shots.thy ===== *)
theory Run_Plan_Shots
  imports Run_Plan_Join
begin

section \<open>The Shared Run Plan: joining for a number of events\<close>

text \<open>
  \<^verbatim>\<open>SharedRunPlanSubsystemSingleShotJoin\<close> (CFOFrontEndInterfaceImpl.cc): the number of events is split into chunks, each
  armed by the single-shot OR operations of a plan of its own; the next chunk waits until the CFO has cleared them and
  enough events have passed. A chunk is its number of events and, for a coarse one, the index of its loop's masks.
\<close>

type_synonym chunk = "nat \<times> nat option"

definition on_slot :: "nat \<Rightarrow> nat \<Rightarrow> nat \<Rightarrow> bool" where
  "on_slot m n i \<longleftrightarrow> (n = 100 \<and> i < m) \<or> (n < 100 \<and> (if n = 0 then 0 else i mod n) < m)"

definition on_fine_slots :: "nat \<Rightarrow> nat \<Rightarrow> nat list" where
  "on_fine_slots m n = filter (on_slot m n) [0..<100]"

text \<open>The coarse loops, largest first, with the indices of their masks.\<close>

definition coarse_batches :: "(nat \<times> nat) list" where
  "coarse_batches = map (\<lambda>i. (standardNValues ! i, 9 - i)) (rev [1..<10])"

definition next_chunk :: "bool \<Rightarrow> nat \<Rightarrow> nat \<Rightarrow> chunk" where
  "next_chunk full active remaining =
     (case find (\<lambda>(k, _). full \<and> k \<le> remaining) coarse_batches of
        Some (k, idx) \<Rightarrow> (k, Some idx)
      | None \<Rightarrow> (min remaining active, None))"

lemma coarse_batches_pos: "(k, i) \<in> set coarse_batches \<Longrightarrow> 0 < k"
  by (auto simp: coarse_batches_def standardNValues_def upt_rec)

lemma next_chunk_pos: "0 < remaining \<Longrightarrow> 0 < active \<Longrightarrow> 0 < fst (next_chunk full active remaining)"
  by (auto simp: next_chunk_def find_Some_iff split: option.split) (metis coarse_batches_pos nth_mem)

text \<open>With no active slot, which the code excludes before, the loop would not end.\<close>

function chunks :: "bool \<Rightarrow> nat \<Rightarrow> nat \<Rightarrow> chunk list" where
  "chunks full active remaining =
     (if remaining = 0 \<or> active = 0 then []
      else next_chunk full active remaining # chunks full active (remaining - fst (next_chunk full active remaining)))"
  by pat_completeness auto
termination
  by (relation "measure (\<lambda>(_, _, r). r)") (auto intro!: diff_less next_chunk_pos)

declare chunks.simps [simp del]

text \<open>The AND masks and the single-shot masks of a chunk, and what it logs. The code's check of the chunk's index always
  passes: the caller's loop goes through the chunks.\<close>

definition configureSingleShotChunk ::
  "u64 \<Rightarrow> nat list \<Rightarrow> u64 list \<Rightarrow> chunk \<Rightarrow> ('s, u64 list \<times> u64 list \<times> string) eff" where
  "configureSingleShotChunk bits slots ands ch =
     (case ch of
        (count, Some idx) \<Rightarrow>
          let l = 9 - idx; end_idx = 100 + l in
          if idx \<ge> 9
          then throw (''Internal error: coarse mask index out of range '' @ to_string idx @ '' (N_coarse=9).'' @ line_end)
          else if end_idx \<ge> length ands
          then throw (''Internal error: coarse end-AND index out of range '' @ to_string end_idx @ '' (andMasks size='' @ to_string (length ands) @ '').'' @ line_end)
          else let kept = map (\<lambda>a. a OR bits) ands in
               ret (kept[end_idx := kept ! end_idx AND NOT bits], (replicate 109 0)[idx := bits],
                    ''Using coarse-batch chunk N='' @ to_string count @ '' with coarse OR_SINGLESHOT index '' @ to_string idx @ '' (loop N=''
                    @ to_string (standardNValues ! l) @ ''): keep forced at all AND points, clear applied only at coarse end-AND index ''
                    @ to_string end_idx @ ''.'' @ line_end)
      | (count, None) \<Rightarrow>
          if count < 1 \<or> count > length slots
          then throw (''Internal error: unsupported duty-based fine-batch chunk count '' @ to_string count @ '' (activePerFinePass=''
                 @ to_string (length slots) @ '').'' @ line_end)
          else ret (map (\<lambda>a. a AND NOT bits) ands, fold (\<lambda>k ms. ms[9 + slots ! k := bits]) [0..<count] (replicate 109 0),
                    ''Using duty-based fine-batch chunk N='' @ to_string count @ '' (activePerFinePass='' @ to_string (length slots)
                    @ ''): OR_SINGLESHOT set at '' @ to_string count @ '' fine locations, AND clears applied at all loop AND points.'' @ line_end))"

subsection \<open>Waiting for a chunk\<close>

text \<open>The single-shot operations of a read-back: whether there is one, and those that are not zero, with their lines.\<close>

definition shot_ops :: "'e cfolib \<Rightarrow> (u32 \<times> u32 \<times> u32) list \<Rightarrow> (u32 \<times> u64) list" where
  "shot_ops C ms =
     snd (fold (\<lambda>(a, _, actual) (lo, acc).
            if even a then (actual, acc)
            else if ucast (drop_bit 24 actual) \<noteq> cf_code C OP_OR_SINGLESHOT_MODE_BITS then (lo, acc)
            else (lo, acc @ [(a div 2, data48 actual lo)])) ms (0, []))"

definition uncleared_text :: "(u32 \<times> u64) list \<Rightarrow> string" where
  "uncleared_text xs = foldl (\<lambda>t (l, d). (if t = [] then [] else t @ '', '') @ ''line#'' @ to_string (unat l) @ ''=0x'' @ radix_string 16 (unat d)) [] xs"

definition areSingleShotValuesCleared :: "'e cfolib \<Rightarrow> ('e, bool \<times> string) cfo_eff" where
  "areSingleShotValuesCleared C =
     bindE (gets cs_planSize) (\<lambda>k.
     bindE (cfo_io (cf_CompareRunPlanData C (replicate k 0xFF))) (\<lambda>rb.
     let found = shot_ops C (rb_mismatches rb); left = filter (\<lambda>(_, d). d \<noteq> 0) found in
     if found = [] then throw (''Failed to locate OR_SINGLESHOT instructions in run plan readback.'' @ line_end)
     else ret (left = [], uncleared_text left)))"

definition to_uint64 :: "double \<Rightarrow> ('s, u64) eff" where
  "to_uint64 x = (if 0 \<le> x \<and> \<lfloor>x\<rfloor> < 2 ^ 64 then ret (word_of_int \<lfloor>x\<rfloor>) else undefined_behaviour)"

definition chunk_percent :: "u64 \<Rightarrow> u64 \<Rightarrow> nat \<Rightarrow> nat \<Rightarrow> nat" where
  "chunk_percent delta expected idx total_chunks =
     (let p = (if expected > 0 then unat (ucast (100 * delta div expected) :: u32) else 0) in
      (idx * 100 + min p 100) div total_chunks)"

definition completed_text :: "'e cfolib \<Rightarrow> u64 \<Rightarrow> u64 \<Rightarrow> nat \<Rightarrow> nat \<Rightarrow> nat \<Rightarrow> string" where
  "completed_text C delta expected waitedUs idx total_chunks =
     (if idx > 25 \<and> idx \<noteq> total_chunks - 1 then ''.''
      else (if idx = total_chunks - 1 then line_end @ line_end else [])
           @ ''Chunk '' @ to_string (idx + 1) @ ''/'' @ to_string total_chunks @ '' completed; OR_SINGLESHOT readback values cleared and ''
           @ ''run-plan current tag increased by '' @ to_string (unat delta) @ '' (expected '' @ to_string (unat expected) @ '') after ''
           @ cf_double C (rounded (rounded (of_nat waitedUs) / 1000)) @ '' ms.'' @ line_end)"

definition shot_timeout :: "nat \<Rightarrow> nat \<Rightarrow> nat \<Rightarrow> bool \<Rightarrow> string \<Rightarrow> u64 \<Rightarrow> u64 \<Rightarrow> ('s, 'a) eff" where
  "shot_timeout idx total_chunks count cleared details delta expected =
     throw (''Timed out waiting for chunk '' @ to_string (idx + 1) @ ''/'' @ to_string total_chunks @ '' (count='' @ to_string count @ '') to complete. ''
       @ (if \<not> cleared then ''OR_SINGLESHOT values not cleared: '' @ (if details = [] then ''<none reported>'' else details) @ '' '' else [])
       @ ''Run-plan current tag delta='' @ to_string (unat delta) @ '' (expected '' @ to_string (unat expected) @ '').'' @ line_end)"

text \<open>One look: whether the single shots are cleared, with the details, and how far the tag has advanced.\<close>

definition look_shots :: "'e cfolib \<Rightarrow> u64 \<Rightarrow> u64 \<Rightarrow> nat \<Rightarrow> nat \<Rightarrow> ('e, bool \<times> string \<times> u64) cfo_eff" where
  "look_shots C initial expected idx total_chunks =
     bindE (areSingleShotValuesCleared C) (\<lambda>(cleared, details).
     bindE (cfo_io (cf_count C RunPlanCurrentTag)) (\<lambda>now.
     let delta = now - initial in
     seqE (modify (\<lambda>s. s\<lparr>cs_percent := cs_percent s @ [chunk_percent delta expected idx total_chunks]\<rparr>))
          (ret (cleared, details, delta))))"

definition cfo_usleep :: "'e cfolib \<Rightarrow> u64 \<Rightarrow> ('e, unit) cfo_eff" where
  "cfo_usleep C us = modify (\<lambda>s. s\<lparr>cs_env := cf_usleep C us (cs_env s)\<rparr>)"

text \<open>The loop over the time waited: \<open>k\<close> rounds are left after this one.\<close>

primrec poll_shots ::
  "'e cfolib \<Rightarrow> u64 \<Rightarrow> u64 \<Rightarrow> u64 \<Rightarrow> nat \<Rightarrow> nat \<Rightarrow> nat \<Rightarrow> nat \<Rightarrow> nat \<Rightarrow> ('e, string) cfo_eff" where
  "poll_shots C initial expected interval count idx total_chunks 0 waited =
     bindE (look_shots C initial expected idx total_chunks) (\<lambda>(cleared, details, delta).
     if cleared \<and> delta \<ge> expected then ret (completed_text C delta expected waited idx total_chunks)
     else seqE (cfo_usleep C interval) (shot_timeout idx total_chunks count cleared details delta expected))"
| "poll_shots C initial expected interval count idx total_chunks (Suc k) waited =
     bindE (look_shots C initial expected idx total_chunks) (\<lambda>(cleared, details, delta).
     if cleared \<and> delta \<ge> expected then ret (completed_text C delta expected waited idx total_chunks)
     else seqE (cfo_usleep C interval) (poll_shots C initial expected interval count idx total_chunks k (waited + unat interval)))"

definition expected_delta :: "bool \<Rightarrow> nat \<Rightarrow> u64" where
  "expected_delta full count = ucast ((if full then word_of_nat count else 100) * 2 :: u32)"

text \<open>The sums of the loop's counter stay below \<open>2 ^ 64\<close> for every chunk of less than 500,000 years.\<close>

definition waitForSingleShotReady :: "'e cfolib \<Rightarrow> u64 \<Rightarrow> bool \<Rightarrow> nat \<Rightarrow> nat \<Rightarrow> nat \<Rightarrow> ('e, string) cfo_eff" where
  "waitForSingleShotReady C clocks full count idx total_chunks =
     (let expected = expected_delta full count in
      bindE (cfo_io (cf_count C RunPlanCurrentTag)) (\<lambda>initial.
      let us = rounded (rounded (rounded (of_uint expected * of_uint clocks) * of_uint (cf_FPGAClock C)) / 1000);
          interval = (if us < 20000 then 1000 else if us < 200000 then 5000 else 50000) in
      bindE (to_uint64 (rounded (us * rounded (6 / 5)))) (\<lambda>limit.
      poll_shots C initial expected interval count idx total_chunks (unat (limit + 5000000) div unat interval) 0)))"

subsection \<open>The macro\<close>

definition chunk_plan :: "'e cfolib \<Rightarrow> string \<Rightarrow> string \<Rightarrow> u64 \<Rightarrow> u64 list \<Rightarrow> u64 list \<Rightarrow> u64 list \<Rightarrow> ('e, string) cfo_eff" where
  "chunk_plan C base lg clocks ands ors shots =
     bindE (generateSharedRunPlanWithPeriodicModeOn C lg (in_file base) 0 0 1 0 1 1 0 (to_string (unat clocks)) ''clocks'' ands ors shots True) (\<lambda>lg.
     bindE (compile C base) (\<lambda>_.
     bindE (SetRunplan C (out_file base)) (\<lambda>set_text. ret (lg @ set_text))))"

text \<open>The result so far and the number of events so far.\<close>

definition run_chunk ::
  "'e cfolib \<Rightarrow> string \<Rightarrow> u64 \<Rightarrow> nat list \<Rightarrow> bool \<Rightarrow> u64 \<Rightarrow> u64 list \<Rightarrow> u64 list \<Rightarrow> nat \<Rightarrow> nat \<times> chunk \<Rightarrow> string \<times> nat \<Rightarrow> ('e, string \<times> nat) cfo_eff" where
  "run_chunk C base bits slots full clocks ands ors total_chunks ich acc =
     (case (ich, acc) of ((idx, ch), (result, so_far)) \<Rightarrow>
      let follow = '' (with '' @ to_string (total_chunks - 1) @ '' chunks to follow)'';
          result = (if idx > 25 \<and> idx \<noteq> total_chunks - 1 then result @ (if idx = 26 then line_end else []) @ ''.''
                    else result @ line_end @ ''*** Launching chunk '' @ to_string (idx + 1) @ ''/'' @ to_string total_chunks @ '' with count ''
                         @ to_string (fst ch) @ '' (events so far = '' @ to_string so_far @ '')'' @ line_end)
      in
      bindE (configureSingleShotChunk bits slots ands ch) (\<lambda>(chunk_ands, shots, lg).
      bindE (chunk_plan C base [] clocks chunk_ands ors (replicate 109 0)) (\<lambda>_.
      let result = (if idx = 0 then result @ ''Set preparation Run Plan for single-shot chunk '' @ to_string (idx + 1) @ follow
                                    @ '' with updated AND masks and cleared OR_SINGLESHOT bits.'' @ line_end else result) in
      bindE (chunk_plan C base lg clocks chunk_ands ors shots) (\<lambda>lg.
      let sub_result = lg @ ''Set armed Run Plan for single-shot chunk '' @ to_string (idx + 1) @ follow
                       @ '' with the same AND masks and the requested OR_SINGLESHOT bits.'' @ line_end;
          result = (if idx = 0 then result @ sub_result else result) in
      bindE (waitForSingleShotReady C clocks full (fst ch) idx total_chunks) (\<lambda>t.
      ret (result @ t, so_far + fst ch))))))"

definition chunks_text :: "nat \<Rightarrow> u32 \<Rightarrow> u32 \<Rightarrow> chunk list \<Rightarrow> string" where
  "chunks_text events m n cs =
     (if length cs > 1
      then ''Requested single-shot count '' @ to_string events @ '' with duty '' @ ratio_text m n @ '' will be executed in '' @ to_string (length cs)
           @ '' chunks: '' @ concat (map (\<lambda>(i, k, c). (if i = 0 then [] else '', '') @ to_string k @ (if c \<noteq> None then ''(coarse)'' else ''(fine)''))
                                     (enumerate 0 cs)) @ line_end
      else [])
     @ (if m \<noteq> n then ''Duty is below 100%; single-shot chunking is constrained to fine batches to preserve duty-cycle semantics.'' @ line_end else [])"

text \<open>From the resolved duty cycle on.\<close>

definition launch_chunks ::
  "'e cfolib \<Rightarrow> join_args \<Rightarrow> u64 \<Rightarrow> u64 list \<Rightarrow> u64 list \<Rightarrow> string \<Rightarrow> u32 \<Rightarrow> u32 \<Rightarrow> ('e, string) cfo_eff" where
  "launch_chunks C A clocks ands ors lg m n =
     (let q = [CHR 0x27] @ ja_subsystem A @ [CHR 0x27]; events = unat (ja_events A) in
      case on_bits A of (start, count, v) \<Rightarrow>
      if n > 100
      then throw (''Single-shot duty cycle currently supports resolved N <= 100. Resolved M:N = '' @ ratio_text m n @ '' from input '' @ [CHR 0x27]
             @ ja_dutyCycle A @ [CHR 0x27] @ ''.'' @ line_end)
      else
      bindE (set_bits v start count) (\<lambda>bits.
      let slots = on_fine_slots (unat m) (unat n) in
      if slots = []
      then throw (''Resolved duty cycle M:N = '' @ ratio_text m n @ '' produced zero active fine-loop slots for single-shot join.'' @ line_end)
      else
      let cs = chunks (m = n) (length slots) events in
      bindE (data_path C) (\<lambda>base.
      let lg = lg @ chunks_text events m n cs @ line_end @ files_text base @ line_end
            @ line_end @ line_end @ ''Subsystem '' @ q @ '' single-shot joining for '' @ to_string events @ '' events with mode bit parameters: ''
            @ bit_parameters ''on'' start count [] v @ line_end
      in
      bindE (foldE (run_chunk C base bits slots (m = n) clocks ands ors (length cs)) (enumerate 0 cs) (lg, 0)) (\<lambda>(lg, _).
      bindE (SharedRunPlanStatus C) (\<lambda>status.
      ret (lg @ line_end @ line_end @ ''Here is the Run Plan Status after the single-shot join:'' @ line_end @ status
           @ line_end @ line_end @ ''Subsystem '' @ q @ '' successfully single-shot joined for '' @ to_string events @ '' events with mode bit parameters: ''
           @ bit_parameters ''on'' start count [] v))))))"

definition SharedRunPlanSubsystemSingleShotJoin :: "'e cfolib \<Rightarrow> join_args \<Rightarrow> ('e, string) cfo_eff" where
  "SharedRunPlanSubsystemSingleShotJoin C A =
     bindE (in_run_plan C) (\<lambda>running.
     if \<not> running then throw not_in_run_plan
     else
     seqE (require_subsystem (ja_subsystem A))
    (seqE (whenE (ja_events A < 1) (throw (''Single-shot event count must be greater than 0.'' @ line_end)))
    (bindE (extractSharedRunPlanEventDuration C True) (\<lambda>(clocks, ands, ors).
     bindE (parse_duty C (ja_dutyCycle A)) (\<lambda>(m, n).
     bindE (mnFixRatio C (line_end @ ''Single-shot joining subsystem '' @ [CHR 0x27] @ ja_subsystem A @ [CHR 0x27]
              @ '' to the Shared Run Plan...'' @ line_end) m n) (\<lambda>(lg, m, n).
     launch_chunks C A clocks ands ors lg m n))))))"

end
