(* ===== verification/Run_Plan_Chunks.thy ===== *)
theory Run_Plan_Chunks
  imports Run_Plan_Rejoin Run_Plan_Shots
begin

section \<open>Joining for a number of events: the chunks\<close>

text \<open>
  The chunks of a single-shot join add up to the requested number of events, each is accepted by the configuration, and
  the plan that is armed for a chunk has the subsystem's bits in exactly so many events.
\<close>

subsection \<open>The decomposition\<close>

definition valid_chunk :: "bool \<Rightarrow> nat \<Rightarrow> chunk \<Rightarrow> bool" where
  "valid_chunk full active ch =
     (case ch of
        (count, Some idx) \<Rightarrow> full \<and> idx < 9 \<and> count = level_size (9 - idx)
      | (count, None) \<Rightarrow> 0 < count \<and> count \<le> active)"

lemma coarse_batches_valid: "(k, idx) \<in> set coarse_batches \<Longrightarrow> idx < 9 \<and> k = level_size (9 - idx)"
  unfolding coarse_batches_def by auto

lemma next_chunk_valid:
  assumes "0 < remaining" "0 < active"
  shows "valid_chunk full active (next_chunk full active remaining) \<and> fst (next_chunk full active remaining) \<le> remaining"
proof (cases "find (\<lambda>(k, _). full \<and> k \<le> remaining) coarse_batches")
  case None
  then show ?thesis using assms by (simp add: next_chunk_def valid_chunk_def)
next
  case (Some b)
  obtain k idx where b: "b = (k, idx)" by (cases b)
  with Some have "(k, idx) \<in> set coarse_batches" "full" "k \<le> remaining" by (auto simp: find_Some_iff in_set_conv_nth)
  then show ?thesis using coarse_batches_valid Some b by (simp add: next_chunk_def valid_chunk_def)
qed

lemma chunks_valid: "0 < active \<Longrightarrow> \<forall>ch\<in>set (chunks full active remaining). valid_chunk full active ch"
proof (induction full active remaining rule: chunks.induct)
  case (1 full active remaining)
  show ?case
  proof (cases "remaining = 0")
    case False
    then have "chunks full active remaining =
        next_chunk full active remaining # chunks full active (remaining - fst (next_chunk full active remaining))"
      using 1 by (subst chunks.simps) simp
    then show ?thesis using 1 False next_chunk_valid [of remaining active full] by simp
  qed (simp add: chunks.simps)
qed

lemma chunks_sum: "0 < active \<Longrightarrow> sum_list (map fst (chunks full active remaining)) = remaining"
proof (induction full active remaining rule: chunks.induct)
  case (1 full active remaining)
  show ?case
  proof (cases "remaining = 0")
    case False
    then have "chunks full active remaining =
        next_chunk full active remaining # chunks full active (remaining - fst (next_chunk full active remaining))"
      using 1 by (subst chunks.simps) simp
    then show ?thesis using 1 False next_chunk_valid [of remaining active full] by simp
  qed (simp add: chunks.simps)
qed

lemma unat_ucast64: "unat (ucast (w :: u32) :: u64) = unat w"
proof -
  have "unat w < 2 ^ LENGTH(32)" by (rule unsigned_less)
  then have "unat w < 2 ^ 64" by simp
  then show ?thesis by (simp add: unsigned_ucast_eq take_bit_nat_eq_self)
qed

text \<open>With the duty cycle's slots, a coarse chunk is a whole loop and a fine one at most one pass of the fine loop.\<close>

lemma configure_returns:
  assumes "valid_chunk full (length slots) ch" "length ands = 110"
  shows "\<exists>ands' shots lg. configureSingleShotChunk bits slots ands ch s = (Ret (ands', shots, lg), s)"
  using assms by (auto simp: valid_chunk_def configureSingleShotChunk_def Let_def ret_def split: option.splits prod.splits)

text \<open>
  The chunks of a single-shot join add up to the requested number of events; every chunk is accepted by the
  configuration of its masks; and twice the events a chunk waits for fits the 32-bit variable of the code.
\<close>

theorem chunks_exact:
  assumes "on_fine_slots m n \<noteq> []" "length ands = 110"
  shows "sum_list (map fst (chunks full (length (on_fine_slots m n)) k)) = k
    \<and> (\<forall>ch\<in>set (chunks full (length (on_fine_slots m n)) k).
         (\<exists>r. configureSingleShotChunk bits (on_fine_slots m n) ands ch s = (Ret r, s))
       \<and> unat (expected_delta full (fst ch)) = 2 * (if full then fst ch else 100))"
proof -
  let ?a = "length (on_fine_slots m n)"
  have a: "0 < ?a" using assms(1) by simp
  have "?a \<le> length [0..<100 :: nat]" unfolding on_fine_slots_def by (rule length_filter_le)
  then have a100: "?a \<le> 100" by simp
  have "(\<exists>r. configureSingleShotChunk bits (on_fine_slots m n) ands ch s = (Ret r, s))
       \<and> unat (expected_delta full (fst ch)) = 2 * (if full then fst ch else 100)" if "ch \<in> set (chunks full ?a k)" for ch
  proof -
    have v: "valid_chunk full ?a ch" using chunks_valid [OF a] that by blast
    have "fst ch \<le> 10 ^ 9"
    proof (cases ch)
      case (Pair count c)
      show ?thesis
      proof (cases c)
        case (Some idx)
        then have "fst ch = level_size (9 - idx)" using v Pair by (simp add: valid_chunk_def)
        then show ?thesis using dvd_imp_le [OF level_size_dvd [of "9 - idx" 9]] by (simp add: level_size_9)
      qed (use v Pair a100 in \<open>simp add: valid_chunk_def\<close>)
    qed
    then have "2 * fst ch < 2 ^ 32" by simp
    then have "unat (expected_delta full (fst ch)) = 2 * (if full then fst ch else 100)"
      by (simp add: expected_delta_def unat_ucast64 unat_word_ariths unat_of_nat)
    then show ?thesis using configure_returns [OF v assms(2), of bits s] by blast
  qed
  then show ?thesis using chunks_sum [OF a] by blast
qed

lemma coarse_batches_list:
  "coarse_batches = [(1000000000, 0), (100000000, 1), (10000000, 2), (1000000, 3), (100000, 4), (10000, 5), (2000, 6), (1000, 7), (200, 8)]"
  unfolding coarse_batches_def levels by (simp add: standardNValues_def)

theorem chunks_exact_witness:
  "sum_list (map fst (chunks True 100 1234)) = 1234 \<and> unat (expected_delta True (fst (hd (chunks True 100 1234)))) = 2000"
proof -
  have slots: "on_fine_slots 1 1 = [0..<100]" by (simp add: on_fine_slots_def on_slot_def)
  have "hd (chunks True 100 1234) = (1000, Some 7)"
    by (subst chunks.simps) (simp add: next_chunk_def coarse_batches_list)
  moreover have "chunks True 100 1234 \<noteq> []"
    by (subst chunks.simps) simp
  ultimately have "fst (hd (chunks True 100 1234)) = 1000" "hd (chunks True 100 1234) \<in> set (chunks True 100 1234)"
    by (simp_all only: fst_conv) (metis hd_in_set)
  moreover have "sum_list (map fst (chunks True 100 1234)) = 1234 \<and> (\<forall>ch\<in>set (chunks True 100 1234).
      (\<exists>r. configureSingleShotChunk 0 (on_fine_slots 1 1) (replicate 110 all48) ch () = (Ret r, ()))
      \<and> unat (expected_delta True (fst ch)) = 2 * (if True then fst ch else 100))"
    using chunks_exact [of 1 1 "replicate 110 all48" True 1234 0 "()"] unfolding slots by simp
  ultimately show ?thesis by fastforce
qed

subsection \<open>The armed plan\<close>

lemma fold_update_shots: "fold (\<lambda>k ms. ms[9 + slots ! k := bits]) ks (replicate 109 (0 :: u64)) ! i
    = (if i < 109 \<and> (\<exists>k\<in>set ks. i = 9 + slots ! k) then bits else 0)" if "i < 109" for ks
proof -
  have "fold (\<lambda>k ms. ms[9 + slots ! k := bits]) ks ms ! i = (if \<exists>k\<in>set ks. i = 9 + slots ! k then bits else ms ! i)
      \<and> length (fold (\<lambda>k ms. ms[9 + slots ! k := bits]) ks ms) = length ms" if "i < length ms" for ms :: "u64 list"
    using that by (induction ks arbitrary: ms) auto
  from this [of "replicate 109 0"] \<open>i < 109\<close> show ?thesis by auto
qed

lemma fold_update_length: "length (fold (\<lambda>k ms. ms[f k := bits]) ks ms) = length ms"
  by (induction ks arbitrary: ms) simp_all

lemma configure_lengths:
  "configureSingleShotChunk bits slots ands ch s = (Ret (ands', shots, lg), s') \<Longrightarrow> length ands' = length ands \<and> length shots = 109"
  by (auto simp: configureSingleShotChunk_def Let_def ret_def throw_def fold_update_length split: prod.splits option.splits if_splits)

lemma on_fine_slots_props: "distinct (on_fine_slots m n)" "\<forall>i\<in>set (on_fine_slots m n). i < 100"
  by (auto simp: on_fine_slots_def)

text \<open>What the events of the armed plan are in its first pass and in the later ones.\<close>

lemma fine_chunk_events:
  assumes es: "events_of (on_lines tag 0 m n offset num units ands' ors shots True) md k es"
    and conf: "configureSingleShotChunk bits slots ands (count, None) s = (Ret (ands', shots, lg), s')"
    and slots: "distinct slots" "\<forall>i\<in>set slots. i < 100" and len: "length ands = 110"
    and b: "b < 48" "bit bits b" and ors: "\<forall>i<109. \<not> bit (ors ! i) b"
  shows "card {j. j < 10 ^ 9 \<and> bit (es ! j) b} = (if k = 0 then count else 0)"
proof -
  have c: "1 \<le> count" "count \<le> length slots" and ands': "ands' = map (\<lambda>a. a AND NOT bits) ands"
    and shots: "shots = fold (\<lambda>k ms. ms[9 + slots ! k := bits]) [0..<count] (replicate 109 0)"
    using conf by (auto simp: configureSingleShotChunk_def ret_def throw_def split: if_splits)
  define S where "S = set (take count slots)"
  have ne: "shots \<noteq> []" using configure_lengths [OF conf] by auto
  have S: "i \<in> S \<longleftrightarrow> (\<exists>k\<in>set [0..<count]. i = slots ! k)" for i
    using c(2) by (auto simp: S_def in_set_conv_nth)
  have shot: "bit (shots ! (9 + i)) b \<longleftrightarrow> i \<in> S" if "i < 100" for i
    unfolding shots using that fold_update_shots [of "9 + i" slots bits "[0..<count]"] b(2) S by auto
  have outer: "\<not> bit (shots ! (9 - l)) b" if "0 < l" for l
    unfolding shots using that fold_update_shots [of "9 - l" slots bits "[0..<count]"] by auto
  let ?M = "on_masks 0 m n offset ands' ors shots True"
  have slot: "slot_bit ?M b f i x = (f \<and> i \<in> S)" if "i < 100" for f i x
    using that b ors shot [OF that] len ne
    by (auto simp: slot_bit_def on_masks_def bit_merged_and bit_merged_or ands' bit48 shot_mask_def)
  have first: "emits b (\<lambda>_. True) (level_run ?M 9 True) (10 ^ 9) (\<lambda>j. j < 100 \<and> j \<in> S) (\<lambda>_. True)"
    using level_slot_shots [OF b(1), of ?M "\<lambda>i. i \<in> S" 9] slot by (simp add: level_size_9)
  have later: "emits b (\<lambda>_. True) (level_run ?M 9 False) (10 ^ 9) (\<lambda>j. False) (\<lambda>_. True)"
    using level_slots [OF b(1), of False ?M "\<lambda>_. False" 9 False] slot by (simp add: level_size_9)
  have E: "\<forall>j<10 ^ 9. bit (es ! j) b \<longleftrightarrow> k = 0 \<and> j \<in> S"
    using plan_emits [OF es [unfolded on_lines_masks] first later] slots(2) by (auto simp: S_def dest: in_set_takeD)
  have "S \<subseteq> {..<10 ^ 9}" using slots(2) by (force simp: S_def dest: in_set_takeD)
  then have "{j. j < 10 ^ 9 \<and> bit (es ! j) b} = (if k = 0 then S else {})" using E by auto
  moreover have "card S = count" using c(2) slots(1) by (simp add: S_def distinct_card)
  ultimately show ?thesis by simp
qed

lemma coarse_chunk_events:
  assumes es: "events_of (on_lines tag 0 m n offset num units ands' ors shots True) md k es"
    and conf: "configureSingleShotChunk bits slots ands (count, Some idx) s = (Ret (ands', shots, lg), s')"
    and idx: "idx < 9" "count = level_size (9 - idx)" and len: "length ands = 110" and mn: "0 < m" "n = 1"
    and b: "b < 48" "bit bits b" and ors: "\<forall>i<109. \<not> bit (ors ! i) b"
  shows "card {j. j < 10 ^ 9 \<and> bit (es ! j) b} = (if k = 0 then count else 0)"
proof -
  let ?l = "9 - idx" and ?kept = "map (\<lambda>a. a OR bits) ands"
  have ands': "ands' = ?kept[100 + ?l := ?kept ! (100 + ?l) AND NOT bits]" and shots: "shots = (replicate 109 0)[idx := bits]"
    using conf idx by (auto simp: configureSingleShotChunk_def Let_def ret_def throw_def split: if_splits)
  let ?M = "on_masks 0 m n offset ands' ors shots True"
  have and_bit: "bit (ands' ! i) b \<longleftrightarrow> i \<noteq> 100 + ?l" if "i < 110" for i
    using that len b by (simp add: ands' nth_list_update bit48)
  have shot_bit: "bit (shots ! i) b \<longleftrightarrow> i = idx" if "i < 109" for i
    using that b idx by (simp add: shots nth_list_update)
  have ne: "shots \<noteq> []" by (simp add: shots)
  have "slot_bit ?M b f i x = x" if "i < 100" for f i x
    using that b ors and_bit [of i] shot_bit [of "9 + i"] ne idx
    by (auto simp: slot_bit_def on_masks_def bit_merged_and bit_merged_or shot_mask_def)
  moreover have "enter_bit ?M b f l x = (x \<or> (f \<and> l = ?l))" if "0 < l" "l < 10" for f l x
    using that b ors shot_bit [of "9 - l"] ne idx by (auto simp: enter_bit_def on_masks_def bit_coarse_or shot_mask_def)
  ultimately have c: "coarse_shot ?M b ?l"
    using b and_bit idx by (auto simp: coarse_shot_def on_masks_def)
  have l: "0 < ?l" "?l \<le> 9" "(9 :: nat) < 10" using idx by auto
  have first: "emits b (\<lambda>_. True) (level_run ?M 9 True) (10 ^ 9) (\<lambda>j. j < count) (\<lambda>y. \<not> y)"
    using shot_above [OF c l] unfolding level_size_9 idx(2) .
  have later: "emits b (\<lambda>y. \<not> y) (level_run ?M 9 False) (10 ^ 9) (\<lambda>j. False) (\<lambda>y. \<not> y)"
    using shot_fired [OF c l(3)] unfolding level_size_9 .
  have E: "\<forall>j<10 ^ 9. bit (es ! j) b \<longleftrightarrow> k = 0 \<and> j < count"
    using plan_emits [OF es [unfolded on_lines_masks] first later] by simp
  have "count \<le> 10 ^ 9" using dvd_imp_le [OF level_size_dvd [OF l(2, 3)]] idx(2) by (simp add: level_size_9)
  then have "{j. j < 10 ^ 9 \<and> bit (es ! j) b} = (if k = 0 then {..<count} else {})" using E by auto
  then show ?thesis by simp
qed

text \<open>The plan of a chunk, armed.\<close>

definition armed_for :: "u64 \<Rightarrow> u64 list \<Rightarrow> nat \<Rightarrow> plan_line list \<Rightarrow> bool" where
  "armed_for bits ors count ls \<longleftrightarrow>
     (\<forall>b<48. bit bits b \<and> (\<forall>i<109. \<not> bit (ors ! i) b) \<longrightarrow>
        (\<forall>md k. \<exists>es. events_of ls md k es \<and> length es = 10 ^ 9
           \<and> card {j. j < 10 ^ 9 \<and> bit (es ! j) b} = (if k = 0 then count else 0)))"

lemma armed_lines:
  assumes v: "valid_chunk full (length slots) ch" and slots: "distinct slots" "\<forall>i\<in>set slots. i < 100"
    and conf: "configureSingleShotChunk bits slots ands ch s = (Ret (ands', shots, lg), s')" and len: "length ands = 110"
  shows "armed_for bits ors (fst ch) (on_lines 0 0 1 1 0 num units ands' ors shots True)"
  unfolding armed_for_def
proof (intro allI impI)
  fix b md k
  assume b: "b < 48" and free: "bit bits b \<and> (\<forall>i<109. \<not> bit (ors ! i) b)"
  then have bits: "bit bits b" and ors: "\<forall>i<109. \<not> bit (ors ! i) b" by simp_all
  obtain es where es: "events_of (on_lines 0 0 1 1 0 num units ands' ors shots True) md k es" "length es = 10 ^ 9" using events_on by metis
  have v: "valid_chunk full (length slots) (fst ch, snd ch)" using v by simp
  have conf: "configureSingleShotChunk bits slots ands (fst ch, snd ch) s = (Ret (ands', shots, lg), s')" using conf by simp
  have "card {j. j < 10 ^ 9 \<and> bit (es ! j) b} = (if k = 0 then fst ch else 0)"
  proof (cases "snd ch")
    case None
    show ?thesis by (rule fine_chunk_events [OF es(1) conf [unfolded None] slots len b bits ors])
  next
    case (Some idx)
    have "idx < 9" "fst ch = level_size (9 - idx)" using v Some by (simp_all add: valid_chunk_def)
    then show ?thesis using coarse_chunk_events [OF es(1) conf [unfolded Some] _ _ len _ _ b bits ors] by simp
  qed
  with es show "\<exists>es. events_of (on_lines 0 0 1 1 0 num units ands' ors shots True) md k es \<and> length es = 10 ^ 9
      \<and> card {j. j < 10 ^ 9 \<and> bit (es ! j) b} = (if k = 0 then fst ch else 0)" by blast
qed

lemma generate_plain_Ret:
  assumes "generateSharedRunPlanWithPeriodicModeOn C lg path 0 0 1 0 1 1 0 num units ands ors shots True s = (Ret t, s')"
  shows "cs_hist s' = Written (on_lines 0 0 1 1 0 num units ands ors shots True) # cs_hist s"
proof -
  obtain m' n' z where r: "resolved_ratio C lg 0 1 1 s = (Ret (t, m', n'), s)" and z: "set_bits 0 0 1 s = (Ret z, s)"
    and h: "cs_hist s' = Written (on_lines 0 z (unat m') (unat n') (unat (0 :: u32)) num units ands ors shots True) # cs_hist s"
    by (rule generate_on_Ret [OF assms]) blast
  have "z = 0" by (rule set_bits_zero [OF z])
  moreover have "m' = 1" "n' = 1" using r by (simp_all add: resolved_ratio_def ret_def)
  ultimately show ?thesis using h by simp
qed

text \<open>
  The plan that is armed for a chunk of a single-shot join has each of the subsystem's bits in exactly as many
  events of its first pass as the chunk counts, and in no event of a later pass, whatever the mode bits were when it was
  loaded, if no operation of the plan sets the bit otherwise.
\<close>

theorem armed_chunk_exact:
  assumes ch: "ch \<in> set (chunks full (length (on_fine_slots m n)) events)" and ne: "on_fine_slots m n \<noteq> []"
    and conf: "configureSingleShotChunk bits (on_fine_slots m n) ands ch s = (Ret (ands', shots, lg), s)" and len: "length ands = 110"
    and gen: "generateSharedRunPlanWithPeriodicModeOn C lg' path 0 0 1 0 1 1 0 num units ands' ors shots True s = (Ret t, s')"
    and b: "b < 48" "bit bits b" and ors: "\<forall>i<109. \<not> bit (ors ! i) b"
  shows "\<forall>md k. \<exists>es. events_of (written s') md k es \<and> length es = 10 ^ 9
    \<and> card {j. j < 10 ^ 9 \<and> bit (es ! j) b} = (if k = 0 then fst ch else 0)"
proof -
  have "valid_chunk full (length (on_fine_slots m n)) ch" using chunks_valid ne ch by blast
  from armed_lines [OF this on_fine_slots_props conf len, of ors num units] b ors show ?thesis
    unfolding written_hist [OF generate_plain_Ret [OF gen]] armed_for_def by blast
qed

theorem armed_chunk_exact_witness:
  "\<exists>s' :: unit cfo. \<forall>md k. \<exists>es. events_of (written s') md k es \<and> card {j. j < 10 ^ 9 \<and> bit (es ! j) 15} = (if k = 0 then 34 else 0)"
proof -
  have slots: "on_fine_slots 1 1 = [0..<100]" by (simp add: on_fine_slots_def on_slot_def)
  have ch: "(34, None) \<in> set (chunks True (length (on_fine_slots 1 1)) 34)" and ne: "on_fine_slots 1 1 \<noteq> []"
    unfolding slots by (subst chunks.simps, simp add: next_chunk_def coarse_batches_list) simp
  obtain ands' shots lg where conf: "configureSingleShotChunk 0x8000 (on_fine_slots 1 1) (replicate 110 all48) (34, None) example_cfo = (Ret (ands', shots, lg), example_cfo)"
    and len: "length ands' = 110" "length shots = 109"
  proof -
    have v: "valid_chunk True (length (on_fine_slots 1 1)) (34, None)" unfolding slots by (simp add: valid_chunk_def)
    have l: "length (replicate 110 all48) = 110" by simp
    from configure_returns [OF v l, of "0x8000" example_cfo] configure_lengths that show thesis by (metis l)
  qed
  have "resolved_ratio example_lib [] 0 1 1 example_cfo = (Ret ([], 1, 1), example_cfo)" by (simp add: resolved_ratio_def ret_def)
  moreover have "set_bits 0 0 1 example_cfo = (Ret 0, example_cfo)" by (simp add: set_bits_def bits_mask_def shl64_def bindE_def ret_def)
  ultimately obtain s' where gen: "generateSharedRunPlanWithPeriodicModeOn example_lib [] [] 0 0 1 0 1 1 0 [] [] ands' (replicate 109 0) shots True example_cfo = (Ret [], s')"
    using example_shots len by (metis length_replicate)
  have b: "(15 :: nat) < 48" "bit (0x8000 :: u64) 15" "\<forall>i<109. \<not> bit (replicate 109 (0 :: u64) ! i) 15" by (simp_all add: bit_numeral_rec)
  have "length (replicate 110 all48) = 110" by simp
  from armed_chunk_exact [OF ch ne conf this gen b] show ?thesis by (intro exI [of _ s']) (simp only: fst_conv, blast)
qed

end
