(* ===== verification/Run_Plan_History.thy ===== *)
theory Run_Plan_History
  imports Run_Plan_Chunks
begin

section \<open>The plans that the macros write and load\<close>

text \<open>
  Which plans a macro writes and loads, in which order: a join first loads a plan with the new AND masks and the OR
  masks as they were, then the one with both; a single-shot join loads for every chunk a plan with all single shots
  cleared and then the armed one, and goes on only when the CFO has cleared them.
\<close>

subsection \<open>The steps\<close>

lemma keeps_cfo_io [inv_intros]: "keeps (\<lambda>s. cs_hist s = h) (cfo_io f)"
  by (rule keepsI) (simp add: cfo_io_def split: prod.splits)

lemma keeps_hist:
  "keeps (\<lambda>s. cs_hist s = h) (in_run_plan C)" "keeps (\<lambda>s. cs_hist s = h) (compile C base)"
  "keeps (\<lambda>s. cs_hist s = h) (data_path C)" "keeps (\<lambda>s. cs_hist s = h) (read_binary C path)"
  "keeps (\<lambda>s. cs_hist s = h) (cfo_do C c)" "keeps (\<lambda>s. cs_hist s = h) (status_section C x t)"
  "keeps (\<lambda>s. cs_hist s = h) (status_counter C y t)" "keeps (\<lambda>s. cs_hist s = h) (op_text_of C c')"
  "keeps (\<lambda>s. cs_hist s = h) (require_subsystem u)"
  unfolding in_run_plan_def compile_def data_path_def read_binary_def cfo_do_def status_section_def status_counter_def op_text_of_def
    require_subsystem_def
  by (auto intro!: inv_intros split: sum.splits option.splits)

lemma keeps_readback_text: "keeps (\<lambda>s. cs_hist s = h) (readback_text C t)"
  unfolding readback_text_def Let_def by (intro inv_intros keeps_hist)

lemma keeps_look_mismatch: "keeps P (look_mismatch C x acc)"
  unfolding look_mismatch_def Let_def by (auto intro!: inv_intros split: prod.splits)

lemma keeps_areSingleShotValuesCleared: "keeps (\<lambda>s. cs_hist s = h) (areSingleShotValuesCleared C)"
  unfolding areSingleShotValuesCleared_def Let_def by (intro inv_intros)

lemma keeps_look_shots: "keeps (\<lambda>s. cs_hist s = h) (look_shots C initial expected idx total_chunks)"
  unfolding look_shots_def Let_def
  by (intro inv_intros keeps_areSingleShotValuesCleared keeps_case_prod_arg keeps_modify) simp

lemma keeps_poll_shots: "keeps (\<lambda>s. cs_hist s = h) (poll_shots C initial expected interval count idx total_chunks k waited)"
proof (induction k arbitrary: waited)
  case 0
  show ?case unfolding poll_shots.simps shot_timeout_def cfo_usleep_def
    by (intro inv_intros keeps_look_shots keeps_modify) simp
next
  case (Suc k)
  show ?case unfolding poll_shots.simps cfo_usleep_def
    by (intro inv_intros keeps_look_shots keeps_modify Suc.IH) simp
qed

lemma keeps_wait: "keeps (\<lambda>s. cs_hist s = h) (waitForSingleShotReady C clocks full count idx total_chunks)"
  unfolding waitForSingleShotReady_def Let_def to_uint64_def by (intro inv_intros keeps_poll_shots)

lemma hist_same: "(\<And>h. keeps (\<lambda>s. cs_hist s = h) m) \<Longrightarrow> m s = (x, s') \<Longrightarrow> cs_hist s' = cs_hist s"
  using keepsD [of "\<lambda>t. cs_hist t = cs_hist s" m s] by simp

lemma SetRunplan_Ret: "SetRunplan C path s = (Ret t, s') \<Longrightarrow> \<exists>bytes. cs_hist s' = Loaded bytes # cs_hist s"
  unfolding SetRunplan_def seqE_def bindE_Ret record_event_def modify_def
  by (auto simp: ret_def dest!: hist_same [OF keeps_hist(4)] hist_same [OF keeps_cfo_io] hist_same [OF keeps_hist(5)])

text \<open>The plan that every read-back writes, to compare with the CFO's.\<close>

abbreviation comparison_plan :: "plan_line list" where
  "comparison_plan \<equiv> legacy_off_lines 0 1 dummy_duration ''clocks''"

lemma generate_comparison_Ret:
  "generateSharedRunPlanWithPeriodicModeOff C path 0 1 dummy_duration ''clocks'' [] [] s = (Ret (), s') \<Longrightarrow> cs_hist s' = Written comparison_plan # cs_hist s"
  unfolding generateSharedRunPlanWithPeriodicModeOff_def
  by (auto simp: bindE_Ret dest!: write_plan_Ret clear_bits_state)

lemma extract_body_Ret:
  assumes "extract_body C want s = (Ret x, s')"
  shows "cs_hist s' = Written comparison_plan # cs_hist s
    \<and> (want \<longrightarrow> length (fst (snd x)) = 110 \<and> length (snd (snd x)) = 109)"
proof -
  obtain base s1 s2 t2 s3 bytes s4 rb s5 d s6 where
    1: "data_path C s = (Ret base, s1)" "generateSharedRunPlanWithPeriodicModeOff C (in_file base) 0 1 dummy_duration ''clocks'' [] [] s1 = (Ret (), s2)"
      "compile C base s2 = (Ret t2, s3)" "read_binary C (out_file base) s3 = (Ret bytes, s4)"
      "cfo_io (cf_CompareRunPlanData C bytes) (s4\<lparr>cs_planSize := length bytes\<rparr>) = (Ret rb, s5)"
      "foldE (look_mismatch C) (rb_mismatches rb) (0, 0, 0) s5 = (Ret d, s6)"
    and x: "s' = s6" "snd x = (rb_and rb, rb_or rb)" "want \<longrightarrow> length (rb_and rb) = 110 \<and> length (rb_or rb) = 109"
    using assms unfolding extract_body_def seqE_def bindE_Ret
    by (auto simp: modify_def throw_def ret_def bindE_Ret split: if_splits prod.splits)
  have "keeps (\<lambda>s. cs_hist s = h) (foldE (look_mismatch C) (rb_mismatches rb) (0, 0, 0))" for h
    by (intro inv_intros keeps_look_mismatch)
  from hist_same [OF this 1(6)] hist_same [OF keeps_cfo_io 1(5)] hist_same [OF keeps_hist(4) 1(4)] hist_same [OF keeps_hist(2) 1(3)]
    generate_comparison_Ret [OF 1(2)] hist_same [OF keeps_hist(3) 1(1)]
  show ?thesis using x by simp
qed

lemma extract_Ret:
  assumes "extractSharedRunPlanEventDuration C want s = (Ret (clocks, ands, ors), s')"
  shows "cs_hist s' = Written comparison_plan # cs_hist s \<and> (want \<longrightarrow> length ands = 110 \<and> length ors = 109)"
proof -
  have "extract_body C want s = (Ret (clocks, ands, ors), s')"
    using assms unfolding extractSharedRunPlanEventDuration_def tryE_def throw_def by (auto split: prod.splits outcome.splits)
  from extract_body_Ret [OF this] show ?thesis by simp
qed

lemma status_Ret:
  assumes "SharedRunPlanStatus C s = (Ret t, s')"
  shows "cs_hist s' = Written comparison_plan # cs_hist s"
proof -
  obtain on s1 off s2 t3 s3 x s4 t5 s5 t6 s6 where
    1: "cfo_io (cf_ReadBeamOnMode C) s = (Ret on, s1)" "cfo_io (cf_ReadBeamOffMode C) s1 = (Ret off, s2)"
      "status_section C FormatRunPlanCurrentTag (status_head on off) s2 = (Ret t3, s3)" "extractSharedRunPlanEventDuration C False s3 = (Ret x, s4)"
      "foldE (status_section C) [FormatRunPlanCurrentMode, FormatBeamOnMode, FormatBeamOffMode, FormatRunPlanBeamOnBaseAddress, FormatRunPlanBeamOffBaseAddress]
        (t3 @ duration_text C (fst x)) s4 = (Ret t5, s5)"
      "foldE (status_counter C) [(ReceiveRF0MarkerCount, ''RF-0 Markers Received (16-bits):            ''),
               (TransmitHeartbeatPacketCount, ''Heartbeats Transmitted (16-bits):           ''),
               (TransmitEventWindowMarkerCount, ''Event Window Markers Transmitted (16-bits): '')] (t5 @ line_end @ divider @ line_end) s5 = (Ret t6, s6)"
      "readback_text C t6 s6 = (Ret t, s')"
    using assms unfolding SharedRunPlanStatus_def bindE_Ret case_prod_beta by (elim exE conjE) (rule that; assumption)
  have f: "keeps (\<lambda>s. cs_hist s = h) (foldE (status_section C) xs a)" "keeps (\<lambda>s. cs_hist s = h) (foldE (status_counter C) ys a)" for h xs ys a
    by (intro inv_intros keeps_hist)+
  obtain clocks ands ors where x: "x = (clocks, ands, ors)" by (cases x)
  from hist_same [OF keeps_readback_text 1(7)] hist_same [OF f(2) 1(6)] hist_same [OF f(1) 1(5)] extract_Ret [OF 1(4) [unfolded x]]
    hist_same [OF keeps_hist(6) 1(3)] hist_same [OF keeps_cfo_io 1(2)] hist_same [OF keeps_cfo_io 1(1)]
  show ?thesis by simp
qed

subsection \<open>Waiting for a chunk\<close>

lemma poll_shots_Ret:
  "poll_shots C initial expected interval count idx total_chunks k waited s = (Ret t, s') \<Longrightarrow>
   \<exists>s1 details delta. look_shots C initial expected idx total_chunks s1 = (Ret (True, details, delta), s') \<and> expected \<le> delta"
proof (induction k arbitrary: waited s)
  case 0
  then show ?case unfolding poll_shots.simps bindE_Ret
    by (auto simp: ret_def seqE_def bindE_Ret shot_timeout_def throw_def split: if_splits)
next
  case (Suc k)
  then show ?case unfolding poll_shots.simps bindE_Ret
    by (auto simp: ret_def seqE_def bindE_Ret split: if_splits)
qed

text \<open>
  The wait for a chunk returns only after a look at the CFO in which all single shots were cleared and the tag had
  advanced by the expected number of events since the wait began.
\<close>

theorem wait_sees_chunk_end:
  assumes "waitForSingleShotReady C clocks full count idx total_chunks s = (Ret t, s')"
  shows "\<exists>initial s0 s1 details delta. cfo_io (cf_count C RunPlanCurrentTag) s = (Ret initial, s0)
    \<and> look_shots C initial (expected_delta full count) idx total_chunks s1 = (Ret (True, details, delta), s')
    \<and> expected_delta full count \<le> delta"
proof -
  obtain initial s0 limit s1 interval w where "cfo_io (cf_count C RunPlanCurrentTag) s = (Ret initial, s0)"
    "poll_shots C initial (expected_delta full count) interval count idx total_chunks w 0 s1 = (Ret t, s')"
    using assms unfolding waitForSingleShotReady_def Let_def bindE_Ret by blast
  with poll_shots_Ret [OF this(2)] show ?thesis by blast
qed

end
