(* ===== verification/Run_Plan_Whole.thy ===== *)
theory Run_Plan_Whole
  imports Run_Plan_History
begin

section \<open>The macros of the shared run plan as a whole\<close>

text \<open>
  What a join, and a join for a number of events, have done when they return: the plans they wrote and loaded, in order,
  and what the events of these plans are.
\<close>

subsection \<open>Joining\<close>

definition on_value :: "join_args \<Rightarrow> ('s, u64) eff" where
  "on_value A = (case on_bits A of (start, count, v) \<Rightarrow> set_bits v start count)"

lemma join_pass_Ret:
  assumes "join_pass C base lg A m n clocks ands ors apply_or s = (Ret lg', s')"
  obtains m' n' bits where "on_value A s = (Ret bits, s)" "valid_ratio (unat m') (unat n')"
    "resolved_ratio C lg (snd (snd (on_bits A))) m n s = (Ret (lg', m', n'), s)"
    "cs_hist s' = Written (on_lines 0 bits (unat m') (unat n') (unat (ja_offset A)) (to_string (unat clocks)) ''clocks'' ands ors [] apply_or) # cs_hist s"
proof -
  obtain start count v where A: "on_bits A = (start, count, v)" by (cases "on_bits A")
  from assms have gen: "generateSharedRunPlanWithPeriodicModeOn C lg (in_file base) 0 start count v m n (ja_offset A)
        (to_string (unat clocks)) ''clocks'' ands ors [] apply_or s = (Ret lg', s')" by (simp add: join_pass_def A)
  show thesis
  proof (rule generate_on_Ret [OF gen], rule that)
    fix m' n' bits
    assume r: "resolved_ratio C lg v m n s = (Ret (lg', m', n'), s)" and b: "set_bits v start count s = (Ret bits, s)"
      and h: "cs_hist s' = Written (on_lines 0 bits (unat m') (unat n') (unat (ja_offset A)) (to_string (unat clocks)) ''clocks'' ands ors [] apply_or) # cs_hist s"
    show "on_value A s = (Ret bits, s)" using b by (simp add: on_value_def A)
    show "valid_ratio (unat m') (unat n')" using resolved_valid [OF r] by simp
    show "resolved_ratio C lg (snd (snd (on_bits A))) m n s = (Ret (lg', m', n'), s)" using r A by simp
    show "cs_hist s' = Written (on_lines 0 bits (unat m') (unat n') (unat (ja_offset A)) (to_string (unat clocks)) ''clocks'' ands ors [] apply_or) # cs_hist s" by (rule h)
  qed
qed

text \<open>The ratio does not depend on the text so far nor on the state.\<close>

lemma getRatio_any: "getRatioOfOnPerEvents a b s = (Ret r, s) \<Longrightarrow> getRatioOfOnPerEvents a b s2 = (Ret r, s2)"
proof -
  have "search_N t ns s = (Ret r, s) \<Longrightarrow> search_N t ns s2 = (Ret r, s2)" for t ns
    by (induction ns) (auto simp: bindE_cases to_uint32_def ret_def undefined_behaviour_def split: if_splits)
  then show "getRatioOfOnPerEvents a b s = (Ret r, s) \<Longrightarrow> getRatioOfOnPerEvents a b s2 = (Ret r, s2)"
    by (auto simp: getRatioOfOnPerEvents_def throw_def Let_def split: if_splits)
qed

lemma resolved_any:
  assumes 1: "resolved_ratio C lg v m n s = (Ret (l1, m1, n1), s)" and 2: "resolved_ratio C lg' v m n s2 = (Ret (l2, m2, n2), s2)"
  shows "m2 = m1 \<and> n2 = n1"
proof (cases "v = 0 \<and> m = 1 \<and> n = 1")
  case True
  then show ?thesis using 1 2 by (simp add: resolved_ratio_def ret_def)
next
  case False
  then have r: "mnFixRatio C lg m n s = (Ret (l1, m1, n1), s)" "mnFixRatio C lg' m n s2 = (Ret (l2, m2, n2), s2)"
    using 1 2 by (auto simp: resolved_ratio_def)
  show ?thesis
  proof (cases "n > 0 \<and> n < 100")
    case True
    then show ?thesis using r by (simp add: mnFixRatio_def Let_def throw_def ret_def split: if_splits)
  next
    case False
    then show ?thesis using getRatio_any [OF mnFixRatio_standard [OF r(1) False], of s2] mnFixRatio_standard [OF r(2) False] by simp
  qed
qed

lemma on_value_any: "on_value A s = (Ret x, s) \<Longrightarrow> on_value A s2 = (Ret y, s2) \<Longrightarrow> x = y"
proof -
  obtain start count v where A: "on_bits A = (start, count, v)" by (cases "on_bits A")
  assume "on_value A s = (Ret x, s)" "on_value A s2 = (Ret y, s2)"
  then have "set_bits v start count s = (Ret x, s)" "set_bits v start count s2 = (Ret y, s2)" by (simp_all add: on_value_def A)
  with set_bits_any [of v start count s x s2] show "x = y" by simp
qed

lemma prepared_masks:
  assumes "length ors = 109"
  shows "plan_or_masks (on_lines tag bits m n offset num units ands ors [] False) = ors"
    and "plan_and_masks (on_lines tag bits m n offset num units ands ors [] False) = plan_and_masks (on_lines tag bits m n offset num units ands ors [] True)"
proof -
  have "plan_or_masks (on_lines tag bits m n offset num units ands ors [] False) ! i = ors ! i" if "i < 109" for i
    using that unfolding on_lines_masks by (auto simp: or_masks_nth on_masks_def merged_or_def coarse_or_def)
  then show "plan_or_masks (on_lines tag bits m n offset num units ands ors [] False) = ors"
    using assms unfolding on_lines_masks by (auto simp: list_eq_iff_nth_eq masks_length)
  show "plan_and_masks (on_lines tag bits m n offset num units ands ors [] False) = plan_and_masks (on_lines tag bits m n offset num units ands ors [] True)"
    unfolding on_lines_masks mask_plan_masks by (simp add: on_masks_def)
qed

lemma parse_duty_state: "parse_duty C duty s = (Ret x, s') \<Longrightarrow> s' = s"
  by (auto simp: parse_duty_def Let_def ret_def throw_def split: if_splits list.splits)

lemma require_subsystem_state: "require_subsystem u s = (Ret x, s') \<Longrightarrow> s' = s"
  by (auto simp: require_subsystem_def whenE_def ret_def throw_def split: if_splits)

text \<open>
  C5. A join that returned has read back the plan of the CFO, then loaded a plan with exactly its OR masks and the new
  AND masks, then one with the same AND masks and the new OR masks. In this last one each bit of the subsystem that the old
  plan never set (no OR mask read back has it) and that its first AND slot keeps is on exactly in the events of the resolved
  duty cycle; of a bit for which one of the two does not hold nothing is said (after a leave the first slot clears it: C9).
\<close>

theorem join_macro_plans:
  assumes "SharedRunPlanSubsystemJoin C A s = (Ret t, s')"
  shows "\<exists>s1 clocks ands ors s2 m n lg lg' m' n' bits prep final b1 b2.
    parse_duty C (ja_dutyCycle A) s1 = (Ret (m, n), s1) \<and> extractSharedRunPlanEventDuration C True s1 = (Ret (clocks, ands, ors), s2)
    \<and> resolved_ratio C lg (snd (snd (on_bits A))) m n s2 = (Ret (lg', m', n'), s2) \<and> on_value A s2 = (Ret bits, s2)
    \<and> cs_hist s' = [Written comparison_plan, Loaded b2, Written final, Loaded b1, Written prep, Written comparison_plan] @ cs_hist s
    \<and> plan_or_masks prep = ors \<and> plan_and_masks prep = plan_and_masks final
    \<and> (\<forall>b<48. bit bits b \<and> (\<forall>i<109. \<not> bit (ors ! i) b) \<and> bit (ands ! 0) b \<longrightarrow>
         (\<forall>md k. \<exists>es. events_of final md k es \<and> length es = 10 ^ 9
            \<and> (\<forall>j<10 ^ 9. bit (es ! j) b \<longleftrightarrow> duty_event (unat m') (unat n') (unat (ja_offset A)) j)))"
proof -
  obtain running s0 where r0: "in_run_plan C s = (Ret running, s0)" and running: "running"
    and rest: "seqE (require_subsystem (ja_subsystem A))
      (bindE (parse_duty C (ja_dutyCycle A)) (\<lambda>(m, n).
       bindE (extractSharedRunPlanEventDuration C True) (\<lambda>(clocks, ands, ors).
       bindE (data_path C) (\<lambda>base.
       let lg = line_end @ ''Adding subsystem '' @ [CHR 0x27] @ ja_subsystem A @ [CHR 0x27] @ '' to the Shared Run Plan with dutyCycle '' @ [CHR 0x27]
             @ ja_dutyCycle A @ [CHR 0x27] @ ''...'' @ line_end @ line_end @ files_text base @ line_end
             @ join_text A (line_end @ line_end) '' joining'' m n @ line_end
       in
       bindE (join_pass C base lg A m n clocks ands ors False) (\<lambda>lg.
       bindE (compile C base) (\<lambda>_.
       bindE (SetRunplan C (out_file base)) (\<lambda>set1.
       bindE (join_pass C base (lg @ set1 @ ''Set preparation Run Plan for subsystem join with updated AND masks and suppressed OR additions.'' @ line_end)
                A m n clocks ands ors True) (\<lambda>lg.
       bindE (compile C base) (\<lambda>out2.
       bindE (SetRunplan C (out_file base)) (\<lambda>set2.
       bindE (SharedRunPlanStatus C) (\<lambda>status.
       ret (lg @ line_end @ line_end @ ''Run Plan to join:'' @ line_end @ out2 @ set2
            @ line_end @ line_end @ ''Here is the Run Plan Status after the join:'' @ line_end @ status
            @ join_text A (line_end @ line_end) '' successfully joined'' m n)))))))))))) s0 = (Ret t, s')"
    using assms unfolding SharedRunPlanSubsystemJoin_def bindE_Ret [of "in_run_plan C"]
    by (auto simp: throw_def simp del: append.simps append_assoc split: if_split_asm)
  obtain mn cao lg0 base lg1 lg2 out1 out2 set1 set2 status u s1 s1' s2 s3 s4 s5 s6 s7 s8 s9 s10 where
    p: "require_subsystem (ja_subsystem A) s0 = (Ret u, s1)" "parse_duty C (ja_dutyCycle A) s1 = (Ret mn, s1')"
    and e: "extractSharedRunPlanEventDuration C True s1' = (Ret cao, s2)" and d: "data_path C s2 = (Ret base, s3)"
    and j1: "join_pass C base lg0 A (fst mn) (snd mn) (fst cao) (fst (snd cao)) (snd (snd cao)) False s3 = (Ret lg1, s4)"
    and c1: "compile C base s4 = (Ret out1, s5)" and l1: "SetRunplan C (out_file base) s5 = (Ret set1, s6)"
    and j2: "join_pass C base (lg1 @ set1 @ ''Set preparation Run Plan for subsystem join with updated AND masks and suppressed OR additions.'' @ line_end)
        A (fst mn) (snd mn) (fst cao) (fst (snd cao)) (snd (snd cao)) True s6 = (Ret lg2, s7)"
    and c2: "compile C base s7 = (Ret out2, s8)" and l2: "SetRunplan C (out_file base) s8 = (Ret set2, s9)"
    and st: "SharedRunPlanStatus C s9 = (Ret status, s10)" "s10 = s'"
    using rest unfolding seqE_def bindE_Ret case_prod_beta Let_def ret_def
    by (elim exE conjE) (rule that, (assumption | simp)+)
  obtain m n where mn: "mn = (m, n)" by (cases mn)
  obtain clocks ands ors where cao: "cao = (clocks, ands, ors)" by (cases cao)
  have s1: "s1' = s1" "s1 = s0" using parse_duty_state [OF p(2)] require_subsystem_state [OF p(1)] by simp_all
  have s3: "s3 = s2" using d by (auto simp: data_path_def throw_def ret_def split: sum.splits)
  note E = extract_Ret [OF e [unfolded cao s1(1)]]
  obtain m1 n1 bits where P1: "on_value A s3 = (Ret bits, s3)" "valid_ratio (unat m1) (unat n1)"
    "resolved_ratio C lg0 (snd (snd (on_bits A))) m n s3 = (Ret (lg1, m1, n1), s3)"
    "cs_hist s4 = Written (on_lines 0 bits (unat m1) (unat n1) (unat (ja_offset A)) (to_string (unat clocks)) ''clocks'' ands ors [] False) # cs_hist s3"
    by (rule join_pass_Ret [OF j1 [unfolded mn cao fst_conv snd_conv]]) blast
  obtain m2 n2 bits2 lgx where P2: "on_value A s6 = (Ret bits2, s6)"
    "resolved_ratio C lgx (snd (snd (on_bits A))) m n s6 = (Ret (lg2, m2, n2), s6)"
    "cs_hist s7 = Written (on_lines 0 bits2 (unat m2) (unat n2) (unat (ja_offset A)) (to_string (unat clocks)) ''clocks'' ands ors [] True) # cs_hist s6"
    by (rule join_pass_Ret [OF j2 [unfolded mn cao fst_conv snd_conv]]) blast
  have same: "bits2 = bits" "m2 = m1" "n2 = n1"
    using on_value_any [OF P1(1) P2(1)] resolved_any [OF P1(3) P2(2)] by simp_all
  let ?prep = "on_lines 0 bits (unat m1) (unat n1) (unat (ja_offset A)) (to_string (unat clocks)) ''clocks'' ands ors [] False"
  let ?final = "on_lines 0 bits (unat m1) (unat n1) (unat (ja_offset A)) (to_string (unat clocks)) ''clocks'' ands ors [] True"
  obtain b1 b2 where L: "cs_hist s6 = Loaded b1 # cs_hist s5" "cs_hist s9 = Loaded b2 # cs_hist s8"
    using SetRunplan_Ret [OF l1] SetRunplan_Ret [OF l2] by blast
  have hist: "cs_hist s' = [Written comparison_plan, Loaded b2, Written ?final, Loaded b1, Written ?prep, Written comparison_plan] @ cs_hist s"
    using status_Ret [OF st(1)] L hist_same [OF keeps_hist(2) c2] hist_same [OF keeps_hist(2) c1] P1(4) P2(3) E s3 s1 hist_same [OF keeps_hist(1) r0] same st(2)
    by simp
  have meaning: "\<exists>es. events_of ?final md k es \<and> length es = 10 ^ 9
      \<and> (\<forall>j<10 ^ 9. bit (es ! j) b \<longleftrightarrow> duty_event (unat m1) (unat n1) (unat (ja_offset A)) j)"
    if "b < 48" "bit bits b" "\<forall>i<109. \<not> bit (ors ! i) b" "bit (ands ! 0) b" for b md k
  proof -
    obtain es where es: "events_of ?final md k es" using events_on by blast
    from on_plan_events [OF es that(1, 2) P1(2) that(3)] that(4) es show ?thesis by blast
  qed
  have len: "length ors = 109" using E by simp
  show ?thesis
  proof (intro exI conjI)
    show "parse_duty C (ja_dutyCycle A) s1 = (Ret (m, n), s1)" using p(2) mn s1(1) by simp
    show "extractSharedRunPlanEventDuration C True s1 = (Ret (clocks, ands, ors), s2)" using e cao s1(1) by simp
    show "resolved_ratio C lg0 (snd (snd (on_bits A))) m n s2 = (Ret (lg1, m1, n1), s2)" using P1(3) s3 by simp
    show "on_value A s2 = (Ret bits, s2)" using P1(1) s3 by simp
    show "cs_hist s' = [Written comparison_plan, Loaded b2, Written ?final, Loaded b1, Written ?prep, Written comparison_plan] @ cs_hist s"
      by (rule hist)
    show "plan_or_masks ?prep = ors" "plan_and_masks ?prep = plan_and_masks ?final" by (rule prepared_masks [OF len])+
    show "\<forall>b<48. bit bits b \<and> (\<forall>i<109. \<not> bit (ors ! i) b) \<and> bit (ands ! 0) b \<longrightarrow>
        (\<forall>md k. \<exists>es. events_of ?final md k es \<and> length es = 10 ^ 9
           \<and> (\<forall>j<10 ^ 9. bit (es ! j) b \<longleftrightarrow> duty_event (unat m1) (unat n1) (unat (ja_offset A)) j))"
      using meaning by blast
  qed
qed

subsection \<open>A CFO on which the macros return\<close>

text \<open>
  Its environment is the tag, which advances by 5000 between two reads; its plan is read back as one cleared single shot,
  with masks that keep all and set nothing.
\<close>

definition running_lib :: "u64 cfolib" where
  "running_lib =
     \<lparr>cf_operatingMode = OTHER_MODE, cf_data_path = Inr ''/data'', cf_FPGAClock = 25,
      cf_do = (\<lambda>_ e. (Inr (), e)), cf_text = (\<lambda>_ e. (Inr [], e)), cf_count = (\<lambda>_ e. (Inr e, e + 5000)),
      cf_ReadBeamOnMode = (\<lambda>e. (Inr False, e)), cf_ReadBeamOffMode = (\<lambda>e. (Inr True, e)),
      cf_SetRunPlanData = (\<lambda>_ e. (Inr (), e)),
      cf_CompareRunPlanData = (\<lambda>_ e. (Inr \<lparr>rb_mismatches = [(0, 1, 0), (1, 0x05010000, 0x05000000)],
         rb_and = replicate 110 all48, rb_or = replicate 109 0\<rparr>, e)),
      cf_processFile = (\<lambda>_ _ e. (Inr [], e)), cf_write_file = (\<lambda>_ _ e. (True, e)), cf_read_file = (\<lambda>_ e. (Inr [], e)),
      cf_usleep = (\<lambda>_ e. e), cf_code = (\<lambda>c. if c = OP_OR_SINGLESHOT_MODE_BITS then 5 else 7), cf_ops = (\<lambda>_. Some ''OP''), cf_double = (\<lambda>_. []),
      cf_getNumber = (\<lambda>_. None), cf_strtod = (\<lambda>_. 0), cf_split = (\<lambda>_. [''1'', ''4''])\<rparr>"

definition returning :: "('s, 'a) eff \<Rightarrow> bool" where
  "returning m \<longleftrightarrow> (\<forall>s. \<exists>a s'. m s = (Ret a, s'))"

lemma returning_bindE: "returning m \<Longrightarrow> (\<And>a. returning (k a)) \<Longrightarrow> returning (bindE m k)"
  unfolding returning_def bindE_Ret by blast

lemma returning_bindE_via: "returning m \<Longrightarrow> returns P m \<Longrightarrow> (\<And>a. P a \<Longrightarrow> returning (k a)) \<Longrightarrow> returning (bindE m k)"
  unfolding returning_def bindE_Ret by (metis returnsD)

lemma returning_seqE: "returning m \<Longrightarrow> returning k \<Longrightarrow> returning (seqE m k)"
  unfolding seqE_def by (rule returning_bindE)

lemma returning_simple: "returning (ret a)" "returning (modify f)" "returning (gets g)"
  by (simp_all add: returning_def ret_def modify_def gets_def)

lemma returning_foldE: "(\<And>x acc. returning (f x acc)) \<Longrightarrow> returning (foldE f xs acc)"
  by (induction xs arbitrary: acc) (auto intro: returning_simple returning_bindE)

lemma returning_let: "returning (f x) \<Longrightarrow> returning (Let x f)"
  by simp

lemma returning_case_prod: "(\<And>a b. returning (f a b)) \<Longrightarrow> returning (case_prod f x)"
  by (cases x) simp

lemmas returning_intros = returning_bindE returning_seqE returning_simple returning_foldE returning_let returning_case_prod

lemma running_io:
  "returning (cfo_io (cf_ReadBeamOnMode running_lib))" "returning (cfo_io (cf_ReadBeamOffMode running_lib))"
  "returning (cfo_io (cf_text running_lib x))" "returning (cfo_io (cf_count running_lib y))"
  "returning (cfo_io (cf_SetRunPlanData running_lib bs))" "returning (cfo_io (cf_CompareRunPlanData running_lib bs))"
  "returning (cfo_io (cf_processFile running_lib p q))" "returning (cfo_do running_lib c)"
  by (simp_all add: returning_def cfo_do_def cfo_io_def running_lib_def) (metis, metis)

lemma running_steps:
  "returning (write_plan running_lib p ls)" "returning (read_binary running_lib p)" "returning (data_path running_lib)"
  "returning (compile running_lib base)" "returning (op_text_of running_lib c)"
  by (simp_all add: returning_def write_plan_def read_binary_def data_path_def compile_def op_text_of_def running_lib_def cfo_io_def
      bindE_def record_event_def modify_def ret_def)

lemma running_SetRunplan: "returning (SetRunplan running_lib p)"
  unfolding SetRunplan_def record_event_def by (intro returning_intros running_steps running_io)

lemma running_generate_off: "returning (generateSharedRunPlanWithPeriodicModeOff running_lib p 0 1 num units [] [])"
proof -
  have c: "returning (clear_bits 0 1)" by (simp add: returning_def clear_bits_def bits_mask_def shl64_def bindE_def ret_def)
  show ?thesis
    unfolding generateSharedRunPlanWithPeriodicModeOff_def Let_def by (simp, rule returning_bindE [OF c running_steps(1)])
qed

lemma running_compare:
  "cfo_io (cf_CompareRunPlanData running_lib bs) s
     = (Ret \<lparr>rb_mismatches = [(0, 1, 0), (1, 0x05010000, 0x05000000)], rb_and = replicate 110 all48, rb_or = replicate 109 0\<rparr>, s)"
  by (simp add: running_lib_def cfo_io_def)

lemma running_look: "foldE (look_mismatch running_lib) [(0, 1, 0), (1, 0x05010000, 0x05000000)] (0, 0, 0) = ret (0, 0, 0)"
  by (simp add: look_mismatch_def running_lib_def op_code_def)

lemma running_extract_body: "\<exists>s'. extract_body running_lib want s = (Ret (0, replicate 110 all48, replicate 109 0), s')"
proof -
  obtain base s1 where "data_path running_lib s = (Ret base, s1)" using running_steps(3) unfolding returning_def by blast
  moreover obtain s2 where "generateSharedRunPlanWithPeriodicModeOff running_lib (in_file base) 0 1 dummy_duration ''clocks'' [] [] s1 = (Ret (), s2)"
    using running_generate_off unfolding returning_def by (metis old.unit.exhaust)
  moreover obtain out1 s3 where "compile running_lib base s2 = (Ret out1, s3)" using running_steps(4) unfolding returning_def by blast
  moreover obtain bytes s4 where "read_binary running_lib (out_file base) s3 = (Ret bytes, s4)" using running_steps(2) unfolding returning_def by blast
  ultimately show ?thesis
    unfolding extract_body_def seqE_def bindE_def by (simp add: modify_def running_compare running_look ret_def del: foldE.simps)
qed

lemma running_extract: "\<exists>s'. extractSharedRunPlanEventDuration running_lib want s = (Ret (0, replicate 110 all48, replicate 109 0), s')"
  using running_extract_body [of want s] unfolding extractSharedRunPlanEventDuration_def tryE_def by auto

lemma returning_extract: "returning (extractSharedRunPlanEventDuration running_lib want)"
  using running_extract unfolding returning_def by blast

lemma running_readback_text: "returning (readback_text running_lib t)"
  unfolding readback_text_def Let_def by (intro returning_intros running_io running_steps)

lemma running_status: "returning (SharedRunPlanStatus running_lib)"
  unfolding SharedRunPlanStatus_def status_section_def status_counter_def
  by (intro returning_intros running_io returning_extract running_readback_text)

definition tracker_quarter :: join_args where
  "tracker_quarter = \<lparr>ja_subsystem = ''Tracker'', ja_dutyCycle = ''1:4'', ja_offset = 2, ja_position = 0, ja_count = 0, ja_value = 0, ja_events = 0\<rparr>"

lemma running_parse: "parse_duty running_lib ''1:4'' = ret (1, 4)"
proof -
  have "strtoul10 ''1'' = 1" "strtoul10 ''4'' = 4" by (simp_all add: strtoul10_def is_space_def decimal_digit_def)
  then show ?thesis by (simp add: parse_duty_def running_lib_def)
qed

lemma tracker_bits: "set_bits 1 15 1 = ret 0x8000"
  by (intro ext) (simp add: set_bits_def bits_mask_def shl64_def)

lemma quarter: "\<exists>t. mnFixRatio C lg 1 4 = ret (t, 1, 4)"
  by (simp add: mnFixRatio_def Let_def) (rule exI, rule refl)

lemma running_join_pass: "returning (join_pass running_lib base lg tracker_quarter 1 4 clocks (replicate 110 all48) (replicate 109 0) apply_or)"
proof -
  obtain t where "(mnFixRatio running_lib lg 1 4 :: (u64 cfo, _) eff) = ret (t, 1, 4)" using quarter by blast
  then show ?thesis
    by (simp add: join_pass_def on_bits_def tracker_quarter_def generateSharedRunPlanWithPeriodicModeOn_def supportedSubsystems_def tracker_bits
        returning_seqE returning_simple running_steps)
qed

lemma running_join: "returning (SharedRunPlanSubsystemJoin running_lib tracker_quarter)"
proof -
  have run: "in_run_plan running_lib = ret True" by (intro ext) (simp add: in_run_plan_def running_lib_def cfo_io_def bindE_def ret_def)
  have ok: "require_subsystem ''Tracker'' = ret ()" by (simp add: require_subsystem_def supportedSubsystems_def whenE_def)
  have e: "returns (\<lambda>x. x = (0, replicate 110 all48, replicate 109 0)) (extractSharedRunPlanEventDuration running_lib True)"
    unfolding returns_def using running_extract [of True] by (metis fst_conv outcome.inject(1))
  have f: "ja_subsystem tracker_quarter = ''Tracker''" "ja_dutyCycle tracker_quarter = ''1:4''" by (simp_all add: tracker_quarter_def)
  show ?thesis
    unfolding SharedRunPlanSubsystemJoin_def run f running_parse ok bindE_ret prod.case seqE_def if_not_P [of "\<not> True", simplified]
    by (simp only: simp_thms if_False, intro returning_bindE_via [OF returning_extract e])
      (simp only: prod.case Let_def, intro returning_intros running_steps running_join_pass running_SetRunplan running_status)
qed

theorem join_macro_plans_witness:
  "\<exists>(s' :: u64 cfo) prep final b1 b2. cs_hist s' = [Written comparison_plan, Loaded b2, Written final, Loaded b1, Written prep, Written comparison_plan]
     \<and> plan_or_masks prep = replicate 109 0
     \<and> (\<forall>md k. \<exists>es. events_of final md k es \<and> (\<forall>j<10 ^ 9. bit (es ! j) 15 \<longleftrightarrow> (j + 2) mod 4 < 1))"
proof -
  define s where "s = \<lparr>cs_env = (0 :: u64), cs_planSize = 0, cs_percent = [], cs_hist = []\<rparr>"
  obtain t s' where "SharedRunPlanSubsystemJoin running_lib tracker_quarter s = (Ret t, s')" using running_join unfolding returning_def by blast
  from join_macro_plans [OF this] obtain s1 clocks ands ors s2 m n lg lg' m' n' bits prep final b1 b2 where
    1: "parse_duty running_lib (ja_dutyCycle tracker_quarter) s1 = (Ret (m, n), s1)" and
    2: "extractSharedRunPlanEventDuration running_lib True s1 = (Ret (clocks, ands, ors), s2)" and
    3: "resolved_ratio running_lib lg (snd (snd (on_bits tracker_quarter))) m n s2 = (Ret (lg', m', n'), s2)" and
    4: "on_value tracker_quarter s2 = (Ret bits, s2)" and
    5: "cs_hist s' = [Written comparison_plan, Loaded b2, Written final, Loaded b1, Written prep, Written comparison_plan] @ cs_hist s" and
    6: "plan_or_masks prep = ors" and
    7: "\<forall>b<48. bit bits b \<and> (\<forall>i<109. \<not> bit (ors ! i) b) \<and> bit (ands ! 0) b \<longrightarrow>
         (\<forall>md k. \<exists>es. events_of final md k es \<and> length es = 10 ^ 9
            \<and> (\<forall>j<10 ^ 9. bit (es ! j) b \<longleftrightarrow> duty_event (unat m') (unat n') (unat (ja_offset tracker_quarter)) j))"
    by (elim exE conjE) (rule that; assumption)
  have on: "on_bits tracker_quarter = (15, 1, 1)" by (simp add: on_bits_def tracker_quarter_def supportedSubsystems_def)
  have mn: "m = 1" "n = 4" using 1 by (simp_all add: tracker_quarter_def running_parse ret_def)
  have masks: "ands = replicate 110 all48" "ors = replicate 109 0" using 2 running_extract [of True s1] by auto
  obtain t' where "mnFixRatio running_lib lg 1 4 = (ret (t', 1, 4) :: (u64 cfo, _) eff)" using quarter by blast
  then have ratio: "m' = 1" "n' = 4" using 3 by (simp_all add: on mn resolved_ratio_def ret_def)
  have bits: "bits = 0x8000" using 4 by (simp add: on_value_def on tracker_bits ret_def)
  have b: "(15 :: nat) < 48" "bit bits 15" "\<forall>i<109. \<not> bit (ors ! i) 15" "bit (ands ! 0) 15"
    by (simp_all add: bits masks bit_all48 bit_numeral_rec)
  have duty: "duty_event (unat m') (unat n') (unat (ja_offset tracker_quarter)) j \<longleftrightarrow> (j + 2) mod 4 < 1" for j
    by (simp add: duty_event_def ratio tracker_quarter_def)
  have "\<forall>md k. \<exists>es. events_of final md k es \<and> (\<forall>j<10 ^ 9. bit (es ! j) 15 \<longleftrightarrow> (j + 2) mod 4 < 1)"
    using 7 b unfolding duty by blast
  moreover have "cs_hist s' = [Written comparison_plan, Loaded b2, Written final, Loaded b1, Written prep, Written comparison_plan]"
    using 5 by (simp add: s_def)
  ultimately show ?thesis using 6 masks by blast
qed

end
