(* ===== verification/Run_Plan_Count.thy ===== *)
theory Run_Plan_Count
  imports Run_Plan_Whole
begin

section \<open>A join for a number of events as a whole\<close>

text \<open>
  A single-shot join that returned has armed the CFO, chunk after chunk, for exactly the requested number of events.
\<close>

text \<open>What the macro writes and loads for a chunk (the latest first).\<close>

definition chunk_history :: "u64 \<Rightarrow> u64 list \<Rightarrow> nat \<Rightarrow> plan_event list \<Rightarrow> bool" where
  "chunk_history bits ors count h \<longleftrightarrow>
     (\<exists>b2 armed b1 prep. h = [Loaded b2, Written armed, Loaded b1, Written prep] \<and> armed_for bits ors count armed)"

lemma chunk_plan_Ret:
  assumes "chunk_plan C base lg clocks ands ors shots s = (Ret t, s')"
  shows "\<exists>b. cs_hist s' = [Loaded b, Written (on_lines 0 0 1 1 0 (to_string (unat clocks)) ''clocks'' ands ors shots True)] @ cs_hist s"
proof -
  obtain lg1 s1 x s2 set_text s3 where
    1: "generateSharedRunPlanWithPeriodicModeOn C lg (in_file base) 0 0 1 0 1 1 0 (to_string (unat clocks)) ''clocks'' ands ors shots True s = (Ret lg1, s1)"
      "compile C base s1 = (Ret x, s2)" "SetRunplan C (out_file base) s2 = (Ret set_text, s3)" and s': "s' = s3"
    using assms unfolding chunk_plan_def bindE_Ret by (auto simp: ret_def)
  obtain b where "cs_hist s3 = Loaded b # cs_hist s2" using SetRunplan_Ret [OF 1(3)] by blast
  then show ?thesis using hist_same [OF keeps_hist(2) 1(2)] generate_plain_Ret [OF 1(1)] s' by simp
qed

lemma configure_state: "configureSingleShotChunk bits slots ands ch s = (Ret x, s') \<Longrightarrow> s' = s"
  by (auto simp: configureSingleShotChunk_def Let_def ret_def throw_def split: prod.splits option.splits if_splits)

lemma run_chunk_Ret:
  assumes r: "run_chunk C base bits slots full clocks ands ors total_chunks (idx, ch) (tx, so_far) s = (Ret (tx', so_far'), s')"
    and v: "valid_chunk full (length slots) ch" and slots: "distinct slots" "\<forall>i\<in>set slots. i < 100" and len: "length ands = 110"
  shows "so_far' = so_far + fst ch \<and> (\<exists>h. chunk_history bits ors (fst ch) h \<and> cs_hist s' = h @ cs_hist s)"
proof -
  obtain conf t1 t2 t3 s1 s2 s3 where
    1: "configureSingleShotChunk bits slots ands ch s = (Ret conf, s1)"
      "chunk_plan C base [] clocks (fst conf) ors (replicate 109 0) s1 = (Ret t1, s2)"
      "chunk_plan C base (snd (snd conf)) clocks (fst conf) ors (fst (snd conf)) s2 = (Ret t2, s3)"
      "waitForSingleShotReady C clocks full (fst ch) idx total_chunks s3 = (Ret t3, s')" and n: "so_far' = so_far + fst ch"
    using r unfolding run_chunk_def Let_def bindE_Ret case_prod_beta fst_conv snd_conv
    by (elim exE conjE) (rule that, (assumption | simp add: ret_def)+)
  obtain ands' shots lg where conf: "conf = (ands', shots, lg)" by (cases conf)
  have s1: "s1 = s" by (rule configure_state [OF 1(1)])
  obtain b1 where h1: "cs_hist s2 = [Loaded b1, Written (on_lines 0 0 1 1 0 (to_string (unat clocks)) ''clocks'' ands' ors (replicate 109 0) True)] @ cs_hist s"
    using chunk_plan_Ret [OF 1(2)] s1 conf by auto
  obtain b2 where h2: "cs_hist s3 = [Loaded b2, Written (on_lines 0 0 1 1 0 (to_string (unat clocks)) ''clocks'' ands' ors shots True)] @ cs_hist s2"
    using chunk_plan_Ret [OF 1(3)] conf by auto
  have "armed_for bits ors (fst ch) (on_lines 0 0 1 1 0 (to_string (unat clocks)) ''clocks'' ands' ors shots True)"
    by (rule armed_lines [OF v slots 1(1) [unfolded conf] len])
  then show ?thesis using n h1 h2 hist_same [OF keeps_wait 1(4)] by (auto simp: chunk_history_def)
qed

lemma run_chunks_Ret:
  assumes "foldE (run_chunk C base bits slots full clocks ands ors total_chunks) (enumerate k cs) (tx, so_far) s = (Ret (tx', so_far'), s')"
    and "\<forall>ch\<in>set cs. valid_chunk full (length slots) ch" and slots: "distinct slots" "\<forall>i\<in>set slots. i < 100" and len: "length ands = 110"
  shows "\<exists>hs. list_all2 (chunk_history bits ors) (map fst cs) hs \<and> cs_hist s' = concat (rev hs) @ cs_hist s"
  using assms(1, 2)
proof (induction cs arbitrary: k tx so_far s)
  case Nil
  then show ?case by (auto simp: ret_def)
next
  case (Cons ch cs)
  from Cons.prems(1) obtain acc s1 where
    r: "run_chunk C base bits slots full clocks ands ors total_chunks (k, ch) (tx, so_far) s = (Ret acc, s1)"
    and f: "foldE (run_chunk C base bits slots full clocks ands ors total_chunks) (enumerate (Suc k) cs) acc s1 = (Ret (tx', so_far'), s')"
    by (auto simp: bindE_Ret)
  obtain t1 n1 where acc: "acc = (t1, n1)" by (cases acc)
  obtain h where h: "chunk_history bits ors (fst ch) h" "cs_hist s1 = h @ cs_hist s"
    using run_chunk_Ret [OF r [unfolded acc] _ slots len] Cons.prems(2) by auto
  obtain hs where hs: "list_all2 (chunk_history bits ors) (map fst cs) hs" "cs_hist s' = concat (rev hs) @ cs_hist s1"
    using Cons.IH [OF f [unfolded acc]] Cons.prems(2) by auto
  show ?case using h hs by (intro exI [of _ "h # hs"]) simp
qed

lemma launch_chunks_Ret:
  assumes "launch_chunks C A clocks ands ors lg m n s = (Ret t, s')" and len: "length ands = 110"
  shows "\<exists>bits counts hs. on_value A s = (Ret bits, s) \<and> sum_list counts = unat (ja_events A) \<and> list_all2 (chunk_history bits ors) counts hs
    \<and> cs_hist s' = Written comparison_plan # concat (rev hs) @ cs_hist s"
proof -
  obtain start count v where A: "on_bits A = (start, count, v)" by (cases "on_bits A")
  let ?slots = "on_fine_slots (unat m) (unat n)"
  let ?cs = "chunks (m = n) (length ?slots) (unat (ja_events A))"
  have n: "\<not> n > 100" using assms(1) unfolding launch_chunks_def Let_def A prod.case by (auto simp: throw_def split: if_split_asm)
  note r = assms(1) [unfolded launch_chunks_def Let_def A prod.case if_not_P [OF n] bindE_Ret [of "set_bits v start count"]]
  obtain bits s1 where b: "set_bits v start count s = (Ret bits, s1)" using r by blast
  have s1: "s1 = s" by (rule set_bits_state [OF b])
  have ne: "?slots \<noteq> []" using r by (auto simp: throw_def split: if_split_asm)
  obtain lg0 base s2 acc s3 status where d: "data_path C s = (Ret base, s2)"
    and f: "foldE (run_chunk C base bits ?slots (m = n) clocks ands ors (length ?cs)) (enumerate 0 ?cs) (lg0, 0) s2 = (Ret acc, s3)"
    and st: "SharedRunPlanStatus C s3 = (Ret status, s')"
    using r b unfolding s1 if_not_P [OF ne] bindE_Ret case_prod_beta
    by (elim exE conjE) (rule that, (assumption | simp add: ret_def)+)
  obtain t1 n1 where acc: "acc = (t1, n1)" by (cases acc)
  have slots: "0 < length ?slots" using ne by simp
  obtain hs where hs: "list_all2 (chunk_history bits ors) (map fst ?cs) hs" "cs_hist s3 = concat (rev hs) @ cs_hist s2"
    using run_chunks_Ret [OF f [unfolded acc] chunks_valid [OF slots] on_fine_slots_props len] by blast
  have "cs_hist s2 = cs_hist s" by (rule hist_same [OF keeps_hist(3) d])
  then show ?thesis using hs status_Ret [OF st] chunks_sum [OF slots] b s1
    by (intro exI [of _ bits] exI [of _ "map fst ?cs"] exI [of _ hs]) (simp add: on_value_def A)
qed

text \<open>
  C6. A single-shot join that returned has read back the plan of the CFO and then, for each of a sequence of chunks that
  add up to the requested number of events, loaded a plan with its single shots cleared and the armed one, which has each
  bit of the subsystem (if no operation sets it otherwise) in exactly as many events of its first pass, and in none later.
\<close>

theorem single_shot_macro:
  assumes "SharedRunPlanSubsystemSingleShotJoin C A s = (Ret t, s')"
  shows "\<exists>s1 clocks ands ors s2 bits counts hs. extractSharedRunPlanEventDuration C True s1 = (Ret (clocks, ands, ors), s2)
    \<and> on_value A s2 = (Ret bits, s2) \<and> sum_list counts = unat (ja_events A)
    \<and> list_all2 (chunk_history bits ors) counts hs
    \<and> cs_hist s' = Written comparison_plan # concat (rev hs) @ Written comparison_plan # cs_hist s"
proof -
  obtain running s0 where r0: "in_run_plan C s = (Ret running, s0)" and running: "running" and rest:
    "seqE (require_subsystem (ja_subsystem A))
    (seqE (whenE (ja_events A < 1) (throw (''Single-shot event count must be greater than 0.'' @ line_end)))
    (bindE (extractSharedRunPlanEventDuration C True) (\<lambda>(clocks, ands, ors).
     bindE (parse_duty C (ja_dutyCycle A)) (\<lambda>(m, n).
     bindE (mnFixRatio C (line_end @ ''Single-shot joining subsystem '' @ [CHR 0x27] @ ja_subsystem A @ [CHR 0x27]
              @ '' to the Shared Run Plan...'' @ line_end) m n) (\<lambda>(lg, m, n).
     launch_chunks C A clocks ands ors lg m n))))) s0 = (Ret t, s')"
    using assms unfolding SharedRunPlanSubsystemSingleShotJoin_def bindE_Ret [of "in_run_plan C"]
    by (auto simp: throw_def simp del: append.simps append_assoc split: if_split_asm)
  obtain u1 u2 s1 s1' cao mn s2 s3 ratio s4 where
    p: "require_subsystem (ja_subsystem A) s0 = (Ret u1, s1)"
      "whenE (ja_events A < 1) (throw (''Single-shot event count must be greater than 0.'' @ line_end)) s1 = (Ret u2, s1')"
    and e: "extractSharedRunPlanEventDuration C True s1' = (Ret cao, s2)" and d: "parse_duty C (ja_dutyCycle A) s2 = (Ret mn, s3)"
    and m: "mnFixRatio C (line_end @ ''Single-shot joining subsystem '' @ [CHR 0x27] @ ja_subsystem A @ [CHR 0x27]
              @ '' to the Shared Run Plan...'' @ line_end) (fst mn) (snd mn) s3 = (Ret ratio, s4)"
    and l: "launch_chunks C A (fst cao) (fst (snd cao)) (snd (snd cao)) (fst ratio) (fst (snd ratio)) (snd (snd ratio)) s4 = (Ret t, s')"
    using rest unfolding seqE_def bindE_Ret case_prod_beta by (elim exE conjE) (rule that; assumption)
  obtain clocks ands ors where cao: "cao = (clocks, ands, ors)" by (cases cao)
  obtain lg m' n' where ratio: "ratio = (lg, m', n')" by (cases ratio)
  have s: "s1 = s0" "s3 = s2" "s1' = s1"
    using require_subsystem_state [OF p(1)] parse_duty_state [OF d] p(2) by (simp_all add: whenE_def throw_def ret_def split: if_split_asm)
  have s4: "s4 = s2" using mnFixRatio_valid [OF m [unfolded ratio]] s by simp
  note E = extract_Ret [OF e [unfolded cao]]
  have len: "length ands = 110" using E by simp
  obtain bits counts hs where "on_value A s2 = (Ret bits, s2)" "sum_list counts = unat (ja_events A)" "list_all2 (chunk_history bits ors) counts hs"
    "cs_hist s' = Written comparison_plan # concat (rev hs) @ cs_hist s2"
    using launch_chunks_Ret [OF l [unfolded cao ratio s4 fst_conv snd_conv] len] by blast
  moreover have "cs_hist s2 = Written comparison_plan # cs_hist s" using E s hist_same [OF keeps_hist(1) r0] by simp
  moreover have "extractSharedRunPlanEventDuration C True s1' = (Ret (clocks, ands, ors), s2)" using e cao by simp
  ultimately show ?thesis
    by (intro exI [of _ s1'] exI [of _ clocks] exI [of _ ands] exI [of _ ors] exI [of _ s2] exI [of _ bits] exI [of _ counts] exI [of _ hs]) simp
qed

text \<open>The CFO of the example clears its single shots at once and advances its tag by 5000.\<close>

definition tracker_shots :: join_args where
  "tracker_shots = tracker_quarter\<lparr>ja_events := 30\<rparr>"

lemma poll_first:
  assumes "look_shots C initial expected idx total_chunks s = (Ret (True, details, delta), s')" "expected \<le> delta"
  shows "\<exists>t. poll_shots C initial expected interval count idx total_chunks k waited s = (Ret t, s')"
  using assms by (cases k) (simp_all add: bindE_def ret_def)

lemma running_shot_ops: "shot_ops running_lib [(0, 1, 0), (1, 0x05010000, 0x05000000)] = [(0, 0)]"
  by (simp add: shot_ops_def running_lib_def data48_def)

lemma running_cleared: "areSingleShotValuesCleared running_lib s = (Ret (True, []), s)"
  by (simp add: areSingleShotValuesCleared_def bindE_def gets_def running_compare running_shot_ops Let_def uncleared_text_def ret_def)

lemma running_count: "cfo_io (cf_count running_lib c) s = (Ret (cs_env s), s\<lparr>cs_env := cs_env s + 5000\<rparr>)"
  by (simp add: cfo_io_def running_lib_def)

lemma running_wait: "returning (waitForSingleShotReady running_lib 0 False count idx total_chunks)"
  unfolding returning_def
proof
  fix s :: "u64 cfo"
  have zero: "rounded 0 = 0" by (simp add: rounded_def)
  have z64: "of_uint (0 :: u64) = 0" by (simp add: of_uint_def zero)
  have lim: "to_uint64 0 = ret 0" by (simp add: to_uint64_def)
  let ?s1 = "s\<lparr>cs_env := cs_env s + 5000\<rparr>"
  have "\<exists>s'. look_shots running_lib (cs_env s) (expected_delta False count) idx total_chunks ?s1 = (Ret (True, [], 5000), s')"
    by (simp add: look_shots_def bindE_def seqE_def running_cleared running_count Let_def modify_def ret_def)
  then obtain s' where "look_shots running_lib (cs_env s) (expected_delta False count) idx total_chunks ?s1 = (Ret (True, [], 5000), s')" by blast
  moreover have "expected_delta False count \<le> 5000" by (simp add: expected_delta_def word_le_nat_alt)
  ultimately have "\<exists>t. poll_shots running_lib (cs_env s) (expected_delta False count) interval count idx total_chunks k 0 ?s1 = (Ret t, s')" for interval k
    by (rule poll_first)
  then show "\<exists>a s'. waitForSingleShotReady running_lib 0 False count idx total_chunks s = (Ret a, s')"
    by (simp add: waitForSingleShotReady_def Let_def bindE_def running_count z64 zero lim ret_def, blast)
qed

lemma running_chunk_plan:
  assumes "length ands = 110" "length ors = 109" "length shots = 109"
  shows "returning (chunk_plan running_lib base lg clocks ands ors shots)"
proof -
  have b: "set_bits 0 0 1 = ret 0" by (intro ext) (simp add: set_bits_def bits_mask_def shl64_def)
  have "returning (generateSharedRunPlanWithPeriodicModeOn running_lib lg (in_file base) 0 0 1 0 1 1 0 (to_string (unat clocks)) ''clocks'' ands ors shots True)"
    using assms by (simp add: generateSharedRunPlanWithPeriodicModeOn_def b returning_seqE returning_simple running_steps)
  then show ?thesis unfolding chunk_plan_def by (intro returning_intros running_steps running_SetRunplan)
qed

lemma running_run_chunk:
  assumes v: "valid_chunk False (length slots) ch" and len: "length ands = 110" "length ors = 109"
  shows "returning (run_chunk running_lib base bits slots False 0 ands ors total_chunks (idx, ch) acc)"
proof -
  have c: "returning (configureSingleShotChunk bits slots ands ch :: (u64 cfo, _) eff)"
    unfolding returning_def
  proof
    fix s :: "u64 cfo"
    from configure_returns [OF v len(1), of bits s] show "\<exists>a s'. configureSingleShotChunk bits slots ands ch s = (Ret a, s')" by blast
  qed
  have l: "returns (\<lambda>x. length (fst x) = 110 \<and> length (fst (snd x)) = 109) (configureSingleShotChunk bits slots ands ch :: (u64 cfo, _) eff)"
    unfolding returns_def
  proof (intro allI impI)
    fix s :: "u64 cfo" and x :: "u64 list \<times> u64 list \<times> string"
    assume "fst (configureSingleShotChunk bits slots ands ch s) = Ret x"
    then have "configureSingleShotChunk bits slots ands ch s = (Ret (fst x, fst (snd x), snd (snd x)), snd (configureSingleShotChunk bits slots ands ch s))"
      by (simp add: prod_eq_iff)
    from configure_lengths [OF this] len show "length (fst x) = 110 \<and> length (fst (snd x)) = 109" by simp
  qed
  obtain t0 n0 where acc: "acc = (t0, n0)" by (cases acc)
  show ?thesis
    unfolding run_chunk_def Let_def acc prod.case case_prod_beta fst_conv snd_conv
    by (rule returning_bindE_via [OF c l], elim conjE, intro returning_bindE running_chunk_plan running_wait returning_simple) (simp_all add: len)
qed

lemma running_run_chunks:
  "\<forall>ch\<in>set cs. valid_chunk False (length slots) ch \<Longrightarrow> length ands = 110 \<Longrightarrow> length ors = 109 \<Longrightarrow>
   returning (foldE (run_chunk running_lib base bits slots False 0 ands ors total_chunks) (enumerate k cs) acc)"
  by (induction cs arbitrary: k acc) (auto intro!: returning_bindE running_run_chunk returning_simple)

lemma running_launch:
  "returning (launch_chunks running_lib tracker_shots 0 (replicate 110 all48) (replicate 109 0) lg 1 4)"
proof -
  have on: "on_bits tracker_shots = (15, 1, 1)" by (simp add: on_bits_def tracker_shots_def tracker_quarter_def supportedSubsystems_def)
  have slots: "on_fine_slots 1 4 \<noteq> []" by (simp add: on_fine_slots_def on_slot_def filter_empty_conv, rule bexI [of _ 0], simp_all)
  then have "0 < length (on_fine_slots 1 4)" by simp
  note v = chunks_valid [OF this, of False]
  show ?thesis
    unfolding launch_chunks_def Let_def on prod.case tracker_bits
    using slots by (simp, intro returning_bindE returning_simple returning_case_prod running_steps running_status running_run_chunks) (use v in simp_all)
qed

lemma running_shots: "returning (SharedRunPlanSubsystemSingleShotJoin running_lib tracker_shots)"
proof -
  have run: "in_run_plan running_lib = ret True" by (intro ext) (simp add: in_run_plan_def running_lib_def cfo_io_def bindE_def ret_def)
  have ok: "require_subsystem ''Tracker'' = ret ()" by (simp add: require_subsystem_def supportedSubsystems_def whenE_def)
  have e: "returns (\<lambda>x. x = (0, replicate 110 all48, replicate 109 0)) (extractSharedRunPlanEventDuration running_lib True)"
    unfolding returns_def using running_extract [of True] by (metis fst_conv outcome.inject(1))
  have f: "ja_subsystem tracker_shots = ''Tracker''" "ja_dutyCycle tracker_shots = ''1:4''" "\<not> ja_events tracker_shots < 1"
    by (simp_all add: tracker_shots_def tracker_quarter_def)
  have q: "\<exists>t. mnFixRatio running_lib lg 1 4 = (ret (t, 1, 4) :: (u64 cfo, _) eff)" for lg by (rule quarter)
  show ?thesis
    unfolding SharedRunPlanSubsystemSingleShotJoin_def run f running_parse bindE_ret prod.case
  proof (simp only: ok whenE_def f(3) if_False seqE_def bindE_ret simp_thms, rule returning_bindE_via [OF returning_extract e], simp only: prod.case)
    fix a :: "u64 \<times> u64 list \<times> u64 list"
    let ?lg = "line_end @ ''Single-shot joining subsystem '' @ [CHR 0x27] @ ''Tracker'' @ [CHR 0x27] @ '' to the Shared Run Plan...'' @ line_end"
    obtain t where "mnFixRatio running_lib ?lg 1 4 = (ret (t, 1, 4) :: (u64 cfo, _) eff)" using q by blast
    then show "returning (bindE (mnFixRatio running_lib ?lg 1 4)
       (\<lambda>(lg, m, n). launch_chunks running_lib tracker_shots 0 (replicate 110 all48) (replicate 109 0) lg m n))"
      by (simp only: bindE_ret prod.case running_launch)
  qed
qed

theorem single_shot_macro_witness:
  "\<exists>(s' :: u64 cfo) counts hs. sum_list counts = 30 \<and> list_all2 (chunk_history 0x8000 (replicate 109 0)) counts hs
     \<and> cs_hist s' = Written comparison_plan # concat (rev hs) @ [Written comparison_plan]"
proof -
  define s where "s = \<lparr>cs_env = (0 :: u64), cs_planSize = 0, cs_percent = [], cs_hist = []\<rparr>"
  obtain t s' where "SharedRunPlanSubsystemSingleShotJoin running_lib tracker_shots s = (Ret t, s')"
    using running_shots unfolding returning_def by blast
  from single_shot_macro [OF this] obtain s1 clocks ands ors s2 bits counts hs where
    1: "extractSharedRunPlanEventDuration running_lib True s1 = (Ret (clocks, ands, ors), s2)" and
    2: "on_value tracker_shots s2 = (Ret bits, s2)" and 3: "sum_list counts = unat (ja_events tracker_shots)" and
    4: "list_all2 (chunk_history bits ors) counts hs" and
    5: "cs_hist s' = Written comparison_plan # concat (rev hs) @ Written comparison_plan # cs_hist s"
    by (elim exE conjE) (rule that; assumption)
  have "ors = replicate 109 0" using 1 running_extract [of True s1] by auto
  moreover have "on_bits tracker_shots = (15, 1, 1)" by (simp add: on_bits_def tracker_shots_def tracker_quarter_def supportedSubsystems_def)
  then have "bits = 0x8000" using 2 by (simp add: on_value_def tracker_bits ret_def)
  moreover have "unat (ja_events tracker_shots) = 30" by (simp add: tracker_shots_def)
  ultimately show ?thesis using 3 4 5 by (intro exI [of _ s'] exI [of _ counts] exI [of _ hs]) (simp add: s_def)
qed

theorem wait_sees_chunk_end_witness:
  "\<exists>(s :: u64 cfo) t s' initial s1 details delta. waitForSingleShotReady running_lib 0 False 3 0 1 s = (Ret t, s')
     \<and> look_shots running_lib initial (expected_delta False 3) 0 1 s1 = (Ret (True, details, delta), s') \<and> 200 \<le> delta"
proof -
  define s where "s = \<lparr>cs_env = (0 :: u64), cs_planSize = 0, cs_percent = [], cs_hist = []\<rparr>"
  obtain t s' where r: "waitForSingleShotReady running_lib 0 False 3 0 1 s = (Ret t, s')" using running_wait unfolding returning_def by blast
  have "expected_delta False 3 = 200" by (simp add: expected_delta_def)
  then show ?thesis using wait_sees_chunk_end [OF r] r by metis
qed

end
