(* ===== verification/Run_Info.thy ===== *)
theory Run_Info
  imports Effects
begin

section \<open>The run information plugin\<close>

text \<open>
  \<^verbatim>\<open>DBRunInfo\<close> (otsdaq-mu2e/RunInfoPlugins/DBRunInfo_runInfo.cc and DBRunInfo.h): the gateway supervisor calls it in the
  transitions of the run state machine to claim a run number from a PostgreSQL database, to record the transitions of
  the run and the configuration of the subsystems, and to list past runs. libpq, the JSON library and the functions
  of otsdaq are the record \<open>pglib\<close>; they act on an environment. Log lines are not modelled.
\<close>

subsection \<open>The libraries\<close>

datatype conn_status = CONNECTION_OK | CONNECTION_BAD | CONNECTION_OTHER
datatype exec_status = PGRES_TUPLES_OK | PGRES_COMMAND_OK | PGRES_OTHER

text \<open>What a query gives: its status and message, the number of fields, the rows.\<close>

record pg_reply =
  pg_status :: exec_status
  pg_error :: string
  pg_nfields :: nat
  pg_rows :: "string list list"

text \<open>
  The \<open>n\<close>th connection, result and escaped text that libpq hands out are named \<open>n\<close>. \<open>None\<close> is the null connection.
  A value of the JSON type \<open>'j\<close> is parsed from a text, a text itself (\<open>Inr\<close> in the members of an object), and read
  as a flag. \<open>pl_write True\<close> appends; a file that cannot be opened is left alone.
\<close>

record ('e, 'j) pglib =
  pl_getenv :: "string \<Rightarrow> string option"
  pl_connect :: "string \<Rightarrow> 'e \<Rightarrow> 'e"
  pl_status :: "nat option \<Rightarrow> 'e \<Rightarrow> conn_status"
  pl_conn_error :: "nat option \<Rightarrow> 'e \<Rightarrow> string"
  pl_exec :: "nat \<Rightarrow> string \<Rightarrow> string list \<Rightarrow> 'e \<Rightarrow> pg_reply \<times> 'e"
  pl_escape :: "nat \<Rightarrow> string \<Rightarrow> 'e \<Rightarrow> string option \<times> 'e"
  pl_sanitize :: "string \<Rightarrow> string"
  pl_expand :: "string \<Rightarrow> string + string"
  pl_machine :: string
  pl_parse :: "string \<Rightarrow> 'j option"
  pl_contains :: "'j \<Rightarrow> string \<Rightarrow> bool"
  pl_flag :: "'j \<Rightarrow> string \<Rightarrow> bool option"
  pl_dump :: "(string \<times> ('j + string)) list \<Rightarrow> string + string"
  pl_write :: "bool \<Rightarrow> string \<Rightarrow> string \<Rightarrow> 'e \<Rightarrow> 'e"
  pl_cast_error :: string

text \<open>What the plugin did with its handles and files, the latest first.\<close>

datatype db_event = Connected nat string | Asked "nat option" | Finished "nat option"
  | Executed nat string "string list" nat pg_reply | Used nat | Cleared nat
  | Escaped nat nat string | Freed nat | Dumped bool string string

record 'e run_info =
  ri_env :: 'e
  ri_conns :: nat
  ri_results :: nat
  ri_literals :: nat
  runInfoDbConn :: "nat option"
  ri_hist :: "db_event list"

type_synonym ('e, 'a) db_eff = "('e run_info, 'a) eff"

definition note_event :: "db_event \<Rightarrow> ('e, unit) db_eff" where
  "note_event ev = modify (\<lambda>s. s\<lparr>ri_hist := ev # ri_hist s\<rparr>)"

definition PQconnectdb :: "('e, 'j) pglib \<Rightarrow> string \<Rightarrow> ('e, unit) db_eff" where
  "PQconnectdb L info = modify (\<lambda>s. s\<lparr>ri_env := pl_connect L info (ri_env s), ri_conns := Suc (ri_conns s),
     runInfoDbConn := Some (ri_conns s), ri_hist := Connected (ri_conns s) info # ri_hist s\<rparr>)"

definition PQstatus :: "('e, 'j) pglib \<Rightarrow> ('e, conn_status) db_eff" where
  "PQstatus L = bindE (gets runInfoDbConn) (\<lambda>c. seqE (note_event (Asked c)) (gets (\<lambda>s. pl_status L c (ri_env s))))"

definition PQerrorMessage :: "('e, 'j) pglib \<Rightarrow> ('e, string) db_eff" where
  "PQerrorMessage L = bindE (gets runInfoDbConn) (\<lambda>c. seqE (note_event (Asked c)) (gets (\<lambda>s. pl_conn_error L c (ri_env s))))"

definition PQfinish :: "('e, unit) db_eff" where
  "PQfinish = bindE (gets runInfoDbConn) (\<lambda>c. note_event (Finished c))"

definition set_conn_null :: "('e, unit) db_eff" where
  "set_conn_null = modify (\<lambda>s. s\<lparr>runInfoDbConn := None\<rparr>)"

text \<open>A query without a connection is outside what libpq documents.\<close>

type_synonym pg_result = "nat \<times> pg_reply"

definition PQexecParams :: "('e, 'j) pglib \<Rightarrow> string \<Rightarrow> string list \<Rightarrow> ('e, pg_result) db_eff" where
  "PQexecParams L sql params =
     bindE (gets runInfoDbConn) (\<lambda>c. case c of
       None \<Rightarrow> undefined_behaviour
     | Some c \<Rightarrow> (\<lambda>s. case pl_exec L c sql params (ri_env s) of (reply, e) \<Rightarrow>
         (Ret (ri_results s, reply),
          s\<lparr>ri_env := e, ri_results := Suc (ri_results s), ri_hist := Executed c sql params (ri_results s) reply # ri_hist s\<rparr>)))"

definition PQexec :: "('e, 'j) pglib \<Rightarrow> string \<Rightarrow> ('e, pg_result) db_eff" where
  "PQexec L sql = PQexecParams L sql []"

definition use_result :: "pg_result \<Rightarrow> (pg_reply \<Rightarrow> 'a) \<Rightarrow> ('e, 'a) db_eff" where
  "use_result res f = seqE (note_event (Used (fst res))) (ret (f (snd res)))"

definition PQresultStatus :: "pg_result \<Rightarrow> ('e, exec_status) db_eff" where "PQresultStatus res = use_result res pg_status"
definition PQresultErrorMessage :: "pg_result \<Rightarrow> ('e, string) db_eff" where "PQresultErrorMessage res = use_result res pg_error"
definition PQntuples :: "pg_result \<Rightarrow> ('e, nat) db_eff" where "PQntuples res = use_result res (\<lambda>r. length (pg_rows r))"
definition PQnfields :: "pg_result \<Rightarrow> ('e, nat) db_eff" where "PQnfields res = use_result res pg_nfields"

definition PQgetvalue :: "pg_result \<Rightarrow> nat \<Rightarrow> nat \<Rightarrow> ('e, string) db_eff" where
  "PQgetvalue res i j = bindE (use_result res pg_rows) (\<lambda>rows. bindE (at rows i) (\<lambda>row. at row j))"

definition PQclear :: "pg_result \<Rightarrow> ('e, unit) db_eff" where
  "PQclear res = note_event (Cleared (fst res))"

definition PQescapeLiteral :: "('e, 'j) pglib \<Rightarrow> string \<Rightarrow> ('e, (nat \<times> string) option) db_eff" where
  "PQescapeLiteral L t =
     bindE (gets runInfoDbConn) (\<lambda>c. case c of
       None \<Rightarrow> undefined_behaviour
     | Some c \<Rightarrow> (\<lambda>s. case pl_escape L c t (ri_env s) of
         (None, e) \<Rightarrow> (Ret None, s\<lparr>ri_env := e\<rparr>)
       | (Some q, e) \<Rightarrow> (Ret (Some (ri_literals s, q)),
          s\<lparr>ri_env := e, ri_literals := Suc (ri_literals s), ri_hist := Escaped c (ri_literals s) t # ri_hist s\<rparr>)))"

definition PQfreemem :: "nat \<times> string \<Rightarrow> ('e, unit) db_eff" where
  "PQfreemem l = note_event (Freed (fst l))"

definition dump_file :: "('e, 'j) pglib \<Rightarrow> bool \<Rightarrow> string \<Rightarrow> string \<Rightarrow> ('e, unit) db_eff" where
  "dump_file L app path t =
     modify (\<lambda>s. s\<lparr>ri_env := pl_write L app path t (ri_env s), ri_hist := Dumped app path t # ri_hist s\<rparr>)"

text \<open>\<^verbatim>\<open>atoi\<close>: a number outside the range of \<^verbatim>\<open>int\<close> has no defined result.\<close>

definition decimal_value :: "string \<Rightarrow> int" where
  "decimal_value t = foldl (\<lambda>n c. 10 * n + (of_char c - 48)) 0 (takeWhile (\<lambda>c. 48 \<le> (of_char c :: nat) \<and> (of_char c :: nat) \<le> 57) t)"

definition atoi_value :: "string \<Rightarrow> int" where
  "atoi_value t =
     (case dropWhile is_space t of
        [] \<Rightarrow> 0
      | c # r \<Rightarrow> if c = CHR ''-'' then - decimal_value r else if c = CHR ''+'' then decimal_value r else decimal_value (c # r))"

definition atoi :: "string \<Rightarrow> ('s, int) eff" where
  "atoi t = (if - (2 ^ 31) \<le> atoi_value t \<and> atoi_value t < 2 ^ 31 then ret (atoi_value t) else undefined_behaviour)"

text \<open>\<^verbatim>\<open>__E__\<close> and a text in quotes.\<close>

abbreviation endl :: string where
  "endl \<equiv> [CHR 0x0A]"

definition in_quotes :: "string \<Rightarrow> string" where
  "in_quotes t = [CHR 0x27] @ t @ [CHR 0x27]"

subsection \<open>The connection\<close>

definition env_or :: "('e, 'j) pglib \<Rightarrow> string \<Rightarrow> string \<Rightarrow> string" where
  "env_or L name other = (case pl_getenv L name of Some v \<Rightarrow> v | None \<Rightarrow> other)"

definition dbname :: "('e, 'j) pglib \<Rightarrow> string" where "dbname L = env_or L ''OTSDAQ_RUNINFO_DATABASE'' ''run_info''"
definition dbhost :: "('e, 'j) pglib \<Rightarrow> string" where "dbhost L = env_or L ''OTSDAQ_RUNINFO_DATABASE_HOST'' []"
definition dbport :: "('e, 'j) pglib \<Rightarrow> string" where "dbport L = env_or L ''OTSDAQ_RUNINFO_DATABASE_PORT'' []"
definition dbuser :: "('e, 'j) pglib \<Rightarrow> string" where "dbuser L = env_or L ''OTSDAQ_RUNINFO_DATABASE_USER'' []"
definition dbpwd :: "('e, 'j) pglib \<Rightarrow> string" where "dbpwd L = env_or L ''OTSDAQ_RUNINFO_DATABASE_PWD'' []"
definition dbSchema :: "('e, 'j) pglib \<Rightarrow> string" where "dbSchema L = env_or L ''OTSDAQ_RUNINFO_DATABASE_SCHEMA'' ''test''"

text \<open>The format of the connection text is continued in the next line, whose two tabs belong to it. The buffer of
  \<^verbatim>\<open>sprintf\<close> has 1024 bytes.\<close>

definition connection_info :: "('e, 'j) pglib \<Rightarrow> string" where
  "connection_info L = ''dbname='' @ dbname L @ '' host='' @ dbhost L @ '' port='' @ dbport L @ ''  '' @ [CHR 0x09, CHR 0x09]
     @ ''user='' @ dbuser L @ '' password='' @ dbpwd L @ '' connect_timeout=10''"

definition openDbConnection :: "('e, 'j) pglib \<Rightarrow> ('e, unit) db_eff" where
  "openDbConnection L =
     (if length (connection_info L) \<ge> 1024 then undefined_behaviour
      else
      seqE (PQconnectdb L (connection_info L))
     (bindE (PQstatus L) (\<lambda>st.
      if st \<noteq> CONNECTION_OK
      then bindE (PQerrorMessage L) (\<lambda>m.
           seqE PQfinish
          (seqE set_conn_null
           (throw (''Connection failed: '' @ m @ endl))))
      else ret ())))"

definition checkAndReconnectDb :: "('e, 'j) pglib \<Rightarrow> ('e, bool) db_eff" where
  "checkAndReconnectDb L =
     bindE (PQstatus L) (\<lambda>st.
     if st = CONNECTION_BAD
     then seqE PQfinish
         (seqE set_conn_null
         (seqE (openDbConnection L)
         (bindE (PQstatus L) (\<lambda>st.
          if st = CONNECTION_BAD then seqE PQfinish (seqE set_conn_null (ret False)) else ret True))))
     else ret True)"

text \<open>\<open>connected\<close> is the guard of every operation: \<^verbatim>\<open>runInfoDbConn_ && runInfoDbConnStatus_ == 1\<close>.\<close>

definition connected :: "('e, 'j) pglib \<Rightarrow> ('e, bool) db_eff" where
  "connected L = bindE (checkAndReconnectDb L) (\<lambda>up. bindE (gets runInfoDbConn) (\<lambda>c. ret (c \<noteq> None \<and> up)))"

definition DBRunInfo :: "('e, 'j) pglib \<Rightarrow> ('e, unit) db_eff" where
  "DBRunInfo L = openDbConnection L"

definition DBRunInfo_destructor :: "('e, unit) db_eff" where
  "DBRunInfo_destructor = bindE (gets runInfoDbConn) (\<lambda>c. whenE (c \<noteq> None) PQfinish)"

text \<open>A failed query: the error is composed from the result, which is then cleared.\<close>

definition fail_with :: "string \<Rightarrow> pg_result \<Rightarrow> string \<Rightarrow> ('e, 'a) db_eff" where
  "fail_with before res after =
     bindE (PQresultErrorMessage res) (\<lambda>m. seqE (PQclear res) (throw (before @ m @ after)))"

subsection \<open>Transitions\<close>

datatype RunTransitionType = HALT | STOP | ERROR | PAUSE | RESUME | START | STOP_COMPLETE | HALT_COMPLETE | OTHER_TRANSITION int

fun getTransitionTypeInfo :: "RunTransitionType \<Rightarrow> ('s, nat \<times> string) eff" where
  "getTransitionTypeInfo HALT = ret (0, ''Running to Halt - Abort'')"
| "getTransitionTypeInfo STOP = ret (1, ''Running to Configure - Stop'')"
| "getTransitionTypeInfo ERROR = ret (2, ''Other state to Error - Error'')"
| "getTransitionTypeInfo PAUSE = ret (3, ''Running to Pause - Pause'')"
| "getTransitionTypeInfo RESUME = ret (4, ''Pause to Running - Resume'')"
| "getTransitionTypeInfo START = ret (5, ''Configure to Running - Start'')"
| "getTransitionTypeInfo STOP_COMPLETE = ret (6, ''Stop transition completed successfully'')"
| "getTransitionTypeInfo HALT_COMPLETE = ret (7, ''Halt transition completed successfully'')"
| "getTransitionTypeInfo (OTHER_TRANSITION t) = throw (''Unknown RunTransitionType: '' @ to_string_int t @ endl)"

definition no_run_number :: u32 where "no_run_number = - 1"

definition transition_sql :: "('e, 'j) pglib \<Rightarrow> u32 \<Rightarrow> nat \<Rightarrow> string" where
  "transition_sql L run ty = ''INSERT INTO '' @ dbSchema L @ ''.run_transition('' @ ''run_number, '' @ ''type_id, '' @ ''transition_time) ''
     @ ''VALUES ('' @ to_string (unat run) @ '','' @ to_string ty @ '',CURRENT_TIMESTAMP);''"

definition end_sql :: "('e, 'j) pglib \<Rightarrow> u32 \<Rightarrow> string \<Rightarrow> bool \<Rightarrow> string" where
  "end_sql L run comment discard = ''INSERT INTO '' @ dbSchema L @ ''.run_end_info('' @ ''run_number, '' @ ''comment, '' @ ''discard_run, ''
     @ ''create_time) '' @ ''VALUES ('' @ to_string (unat run) @ '','' @ comment @ '','' @ (if discard then ''TRUE'' else ''NULL'')
     @ '',CURRENT_TIMESTAMP);''"

text \<open>A metadata text that does not parse, or whose flag is no boolean, is only logged.\<close>

definition discardRun :: "('e, 'j) pglib \<Rightarrow> string \<Rightarrow> bool" where
  "discardRun L metadata =
     (if metadata = [] then False
      else case pl_parse L metadata of
        None \<Rightarrow> False
      | Some j \<Rightarrow> pl_contains L j ''discardRun'' \<and> pl_flag L j ''discardRun'' = Some True)"

definition record_end :: "('e, 'j) pglib \<Rightarrow> u32 \<Rightarrow> string \<Rightarrow> string \<Rightarrow> ('e, unit) db_eff" where
  "record_end L run comment metadata =
     bindE (PQescapeLiteral L comment) (\<lambda>escaped. case escaped of
       None \<Rightarrow> bindE (PQerrorMessage L) (\<lambda>m. throw (''FAILED TO ESCAPE COMMENT FOR DATABASE!!! PQ ERROR: '' @ m @ endl))
     | Some l \<Rightarrow>
         bindE (PQexec L (end_sql L run (snd l) (discardRun L metadata))) (\<lambda>res.
         seqE (PQfreemem l)
        (bindE (PQresultStatus res) (\<lambda>st.
         if st \<noteq> PGRES_COMMAND_OK
         then fail_with ''INSERT END COMMENT INTO DATABASE TABLE FAILED!!! PQ ERROR: '' res endl
         else PQclear res))))"

definition updateRunInfo :: "('e, 'j) pglib \<Rightarrow> u32 \<Rightarrow> RunTransitionType \<Rightarrow> string \<Rightarrow> string \<Rightarrow> ('e, unit) db_eff" where
  "updateRunInfo L run ty comment metadata =
     bindE (connected L) (\<lambda>up.
     seqE (whenE up
       (bindE (getTransitionTypeInfo ty) (\<lambda>(typeId, description).
        bindE (PQexec L (transition_sql L run typeId)) (\<lambda>res.
        bindE (PQresultStatus res) (\<lambda>st.
        if st \<noteq> PGRES_COMMAND_OK
        then fail_with (''INSERT '' @ pl_sanitize L (in_quotes description) @ '' TRANSITION INTO DATABASE TABLE FAILED!!! PQ ERROR: '') res endl
        else seqE (PQclear res) (whenE (typeId = 1) (record_end L run comment metadata)))))))
    (if run = no_run_number then throw (''Impossible run number not defined by run info plugin!'' @ endl) else ret ()))"

subsection \<open>Run numbers\<close>

definition type_sql :: "('e, 'j) pglib \<Rightarrow> string \<Rightarrow> string" where
  "type_sql L alias = ''SELECT id FROM '' @ dbSchema L @ ''.run_type '' @ ''WHERE name = '' @ in_quotes alias @ '';''"

definition types_sql :: "('e, 'j) pglib \<Rightarrow> string" where
  "types_sql L = ''SELECT name FROM '' @ dbSchema L @ ''.run_type '' @ ''ORDER BY id;''"

definition run_sql :: "('e, 'j) pglib \<Rightarrow> string \<Rightarrow> int \<Rightarrow> string" where
  "run_sql L comment ty = ''INSERT INTO '' @ dbSchema L @ ''.run ('' @ ''  comment, '' @ ''  run_type_id, '' @ ''  create_time) ''
     @ '' VALUES ('' @ ''  '' @ in_quotes comment @ '', '' @ ''  '' @ to_string_int ty @ '', '' @ ''  CURRENT_TIMESTAMP) '' @ '' RETURNING run_number;''"

definition values_text :: "pg_result \<Rightarrow> nat \<Rightarrow> ('e, string) db_eff" where
  "values_text res n = foldE (\<lambda>i t. bindE (PQgetvalue res i 0) (\<lambda>v. ret (t @ (if i > 0 then '', '' else []) @ v))) [0..<n] []"

definition unknown_type :: "('e, 'j) pglib \<Rightarrow> string \<Rightarrow> string \<Rightarrow> pg_result \<Rightarrow> ('e, 'a) db_eff" where
  "unknown_type L alias machine typeRes =
     bindE (PQexec L (types_sql L)) (\<lambda>valid.
     bindE (PQresultStatus valid) (\<lambda>st.
     bindE (if st = PGRES_TUPLES_OK then PQntuples valid else ret 0) (\<lambda>n.
     bindE (if n > 0 then values_text valid n else ret ''(none defined in database)'') (\<lambda>names.
     seqE (PQclear valid)
    (seqE (PQclear typeRes)
     (throw (''Unknown run_type '' @ in_quotes alias @ ''! '' @ ''(StateMachine name: '' @ machine @ '') '' @ ''Valid run types are: ''
             @ names @ endl)))))))"

definition run_type_id :: "('e, 'j) pglib \<Rightarrow> string \<Rightarrow> string \<Rightarrow> ('e, int) db_eff" where
  "run_type_id L alias machine =
     bindE (PQexec L (type_sql L alias)) (\<lambda>typeRes.
     bindE (PQresultStatus typeRes) (\<lambda>st.
     if st \<noteq> PGRES_TUPLES_OK then fail_with ''QUERY run_type TABLE FAILED!!! PQ ERROR: '' typeRes endl
     else bindE (PQntuples typeRes) (\<lambda>n.
     if n = 1
     then bindE (PQgetvalue typeRes 0 0) (\<lambda>v. bindE (atoi v) (\<lambda>ty. seqE (PQclear typeRes) (ret ty)))
     else unknown_type L alias machine typeRes)))"

definition insert_run :: "('e, 'j) pglib \<Rightarrow> string \<Rightarrow> int \<Rightarrow> ('e, u32) db_eff" where
  "insert_run L comment ty =
     bindE (PQexec L (run_sql L comment ty)) (\<lambda>res.
     bindE (PQresultStatus res) (\<lambda>st.
     if st \<noteq> PGRES_TUPLES_OK
     then fail_with (''INSERT INTO '' @ in_quotes ''run'' @ '' DATABASE TABLE FAILED!!! PQ ERROR: '') res endl
     else bindE (PQntuples res) (\<lambda>n.
     if n = 1
     then bindE (PQgetvalue res 0 0) (\<lambda>v. bindE (atoi v) (\<lambda>k. seqE (PQclear res) (ret (word_of_int k))))
     else fail_with (''RETRIEVE RUN NUMBER FROM '' @ in_quotes ''run'' @ '' DATABASE TABLE '' @ ''FAILED!!! PQ ERROR: '') res endl)))"

definition expand :: "('e, 'j) pglib \<Rightarrow> string \<Rightarrow> ('s, string) eff" where
  "expand L t = (case pl_expand L t of Inl m \<Rightarrow> throw m | Inr v \<Rightarrow> ret v)"

definition claimNextRunNumber :: "('e, 'j) pglib \<Rightarrow> string \<Rightarrow> ('e, u32) db_eff" where
  "claimNextRunNumber L comment =
     bindE (connected L) (\<lambda>up.
     bindE (if up
       then bindE (expand L ''${OTS.ActiveStateMachine.runAlias}'') (\<lambda>alias.
            bindE (run_type_id L (pl_sanitize L alias) (pl_sanitize L (pl_machine L))) (\<lambda>ty.
            bindE (insert_run L (pl_sanitize L comment) ty) (\<lambda>run.
            seqE (updateRunInfo L run START comment []) (ret run))))
       else ret no_run_number) (\<lambda>run.
     if run = no_run_number then throw (''Impossible run number not defined by run info plugin!'' @ endl) else ret run))"

end
