(* ===== verification/Run_Records.thy ===== *)
theory Run_Records
  imports Run_Info
begin

section \<open>The run information plugin: configurations and lists of runs\<close>

text \<open>
  The rest of DBRunInfo_runInfo.cc: the configurations of the subsystems that are recorded with a run, the lists of
  runs and configurations, and the two helpers that compose the error for a name the database does not know.
\<close>

subsection \<open>The configurations of the subsystems\<close>

text \<open>The fields of a subsystem are in the order of \<^verbatim>\<open>std::map\<close>. A value that starts like a JSON object or list is
  parsed.\<close>

definition is_json :: "string \<Rightarrow> bool" where
  "is_json v =
     (case dropWhile (\<lambda>c. c \<in> {CHR '' '', CHR 0x09, CHR 0x0A, CHR 0x0D}) v of
        [] \<Rightarrow> False
      | c # _ \<Rightarrow> c = CHR ''{'' \<or> c = CHR ''['')"

definition is_alnum :: "char \<Rightarrow> bool" where
  "is_alnum c = (let n = (of_char c :: nat) in (48 \<le> n \<and> n \<le> 57) \<or> (65 \<le> n \<and> n \<le> 90) \<or> (97 \<le> n \<and> n \<le> 122))"

text \<open>\<^verbatim>\<open>char\<close> is signed: \<^verbatim>\<open>isalnum\<close> has no defined result for a character above 127.\<close>

definition safe_name :: "string \<Rightarrow> ('s, string) eff" where
  "safe_name field =
     (if list_ex (\<lambda>c. 128 \<le> (of_char c :: nat)) field then undefined_behaviour
      else ret (map (\<lambda>c. if \<not> is_alnum c \<and> c \<noteq> CHR ''_'' \<and> c \<noteq> CHR ''-'' then CHR ''_'' else c) field))"

definition parse_failed :: "('e, 'j) pglib \<Rightarrow> string \<Rightarrow> string \<Rightarrow> string \<Rightarrow> ('e, 'a) db_eff" where
  "parse_failed L subsystem field v =
     bindE (safe_name field) (\<lambda>name.
     let path = env_or L ''OTS_SCRATCH'' ''.'' @ ''/Logs/failed_json_parse_'' @ name @ ''.txt'' in
     seqE (dump_file L True path v)
     (throw (''Failed to parse JSON for subsystem '' @ in_quotes subsystem @ '', field '' @ in_quotes field @ ''. ''
             @ ''Value dumped to '' @ path @ endl)))"

text \<open>A string made from the null pointer that \<^verbatim>\<open>getenv\<close> gives for a name that is not set has no defined behaviour.\<close>

definition json_field :: "('e, 'j) pglib \<Rightarrow> string \<Rightarrow> string \<times> string \<Rightarrow> ('e, string \<times> ('j + string)) db_eff" where
  "json_field L subsystem fv =
     (case fv of (field, v) \<Rightarrow>
      if is_json v
      then (case pl_getenv L ''OTS_SCRATCH'' of
              None \<Rightarrow> undefined_behaviour
            | Some scratch \<Rightarrow>
                seqE (dump_file L False (scratch @ ''/Logs/runlog_dump.txt'') (endl @ ''--- Field: '' @ field @ '' ---'' @ endl @ v))
                (case pl_parse L v of Some j \<Rightarrow> ret (field, Inl j) | None \<Rightarrow> parse_failed L subsystem field v))
      else ret (field, Inr v))"

definition config_sql :: "('e, 'j) pglib \<Rightarrow> string" where
  "config_sql L = ''INSERT INTO '' @ dbSchema L @ ''.config '' @ ''(run_number, subsystem, settings, version, create_time) ''
     @ ''VALUES ($1, $2, $3::jsonb, $4, CURRENT_TIMESTAMP);''"

definition config_params :: "u32 \<Rightarrow> string \<Rightarrow> string \<Rightarrow> string list" where
  "config_params run subsystem settings = [to_string (unat run), subsystem, settings, ''1'']"

definition insert_config :: "('e, 'j) pglib \<Rightarrow> u32 \<Rightarrow> string \<times> (string \<times> string) list \<Rightarrow> ('e, unit) db_eff" where
  "insert_config L run sf =
     (case sf of (subsystem, members) \<Rightarrow>
      bindE (foldE (\<lambda>fv js. bindE (json_field L subsystem fv) (\<lambda>j. ret (js @ [j]))) members []) (\<lambda>js.
      bindE (case pl_dump L js of Inl m \<Rightarrow> throw m | Inr t \<Rightarrow> ret t) (\<lambda>settings.
      bindE (PQexecParams L (config_sql L) (config_params run subsystem settings)) (\<lambda>res.
      bindE (PQresultStatus res) (\<lambda>st.
      bindE (if st \<noteq> PGRES_COMMAND_OK then PQresultStatus res else ret st) (\<lambda>st.
      if st \<noteq> PGRES_COMMAND_OK \<and> st \<noteq> PGRES_TUPLES_OK
      then fail_with (''INSERT INTO '' @ in_quotes ''config'' @ '' DATABASE TABLE FAILED!!! PQ ERROR: '' @ endl) res
             (endl @ ''Subsystem: '' @ subsystem @ endl @ ''SQL: '' @ config_sql L @ endl)
      else PQclear res))))))"

definition insertRunCondition :: "('e, 'j) pglib \<Rightarrow> u32 \<Rightarrow> (string \<times> (string \<times> string) list) list \<Rightarrow> ('e, u32) db_eff" where
  "insertRunCondition L run conditions =
     bindE (connected L) (\<lambda>up.
     if up then seqE (forE conditions (insert_config L run)) (ret run)
     else throw (''Impossible condition_id not defined by run info plugin!'' @ endl))"

text \<open>Nothing is recorded when the system configures.\<close>

definition insertConfigureCondition :: "u32" where
  "insertConfigureCondition = - 1"

subsection \<open>Lists\<close>

definition result_row :: "pg_result \<Rightarrow> nat \<Rightarrow> nat \<Rightarrow> ('e, string list) db_eff" where
  "result_row res n i = foldE (\<lambda>j row. bindE (PQgetvalue res i j) (\<lambda>v. ret (row @ [v]))) [0..<n] []"

definition convertResultToVector :: "pg_result \<Rightarrow> ('e, string list list) db_eff" where
  "convertResultToVector res =
     bindE (PQntuples res) (\<lambda>rows.
     if rows \<ge> 1
     then bindE (PQnfields res) (\<lambda>n. foldE (\<lambda>i acc. bindE (result_row res n i) (\<lambda>row. ret (acc @ [row]))) [0..<rows] [])
     else ret [])"

definition runs_window :: "('e, 'j) pglib \<Rightarrow> u32 \<Rightarrow> u32 \<Rightarrow> string" where
  "runs_window L startTime endTime =
     ''WITH runs AS (''
     @ ''  SELECT r.run_number, r.comment, rt.name AS run_type_name,''
     @ ''    st.transition_time AS start_time,''
     @ ''    (SELECT min(sp.transition_time) FROM '' @ dbSchema L @ ''.run_transition sp''
     @ ''       WHERE sp.run_number = r.run_number AND sp.type_id = 1) AS ''
     @ ''stop_time,''
     @ ''    (SELECT lt.type_id FROM '' @ dbSchema L @ ''.run_transition lt''
     @ ''       WHERE lt.run_number = r.run_number''
     @ ''       ORDER BY lt.transition_time DESC LIMIT 1) AS latest_type,''
     @ ''    rei.comment AS end_comment''
     @ ''  FROM '' @ dbSchema L @ ''.run r''
     @ ''  JOIN '' @ dbSchema L @ ''.run_transition st''
     @ ''    ON st.run_number = r.run_number AND st.type_id = 5''
     @ ''  LEFT JOIN '' @ dbSchema L @ ''.run_type rt ON rt.id = r.run_type_id''
     @ ''  LEFT JOIN '' @ dbSchema L @ ''.run_end_info rei ON rei.run_number = r.run_number''
     @ ''  WHERE st.transition_time BETWEEN TO_TIMESTAMP(''
     @ to_string (unat startTime) @ '') AND TO_TIMESTAMP(''
     @ to_string (unat endTime) @ '')''
     @ '')''"

definition runs_columns :: string where
  "runs_columns =
     '' SELECT runs.run_number''
     @ '', runs.start_time AS run_time''
     @ '', runs.run_type_name AS run_type''
     @ '', COALESCE(gw.artdaq_partition, '' @ [CHR 0x27, CHR 0x27] @ '') AS artdaq_partition''
     @ '', COALESCE(gw.host_name, '' @ [CHR 0x27, CHR 0x27] @ '') AS host_name''
     @ '', COALESCE(gw.config_alias, '' @ [CHR 0x27, CHR 0x27] @ '') AS config_id''
     @ '', COALESCE(runs.comment, '' @ [CHR 0x27, CHR 0x27] @ '') AS shifter_comment''
     @ '', runs.start_time''
     @ '', runs.stop_time''
     @ '', CASE runs.latest_type WHEN 0 THEN 'halt' WHEN 1 THEN 'completed'' @ [CHR 0x27]
     @ ''   WHEN 2 THEN 'error' WHEN 3 THEN 'pause' WHEN 4 THEN 'resume'' @ [CHR 0x27]
     @ ''   WHEN 5 THEN 'start' WHEN 6 THEN 'completed' WHEN 7 THEN 'halt'' @ [CHR 0x27]
     @ ''   ELSE 'unknown' END AS run_status''
     @ '', COALESCE(sg.subsystem_groups, '' @ [CHR 0x27, CHR 0x27] @ '') AS subsystem_groups''
     @ '', COALESCE(runs.end_comment, '' @ [CHR 0x27, CHR 0x27] @ '') AS end_comment''
     @ '' FROM runs''"

definition runs_gateway :: "('e, 'j) pglib \<Rightarrow> string" where
  "runs_gateway L =
     '' LEFT JOIN LATERAL (''
     @ ''   SELECT y.e->>'HOSTNAME' AS host_name,''
     @ ''          y.e->>'ARTDAQ_PARTITION' AS artdaq_partition,''
     @ ''          y.alias AS config_alias''
     @ ''   FROM (SELECT c.settings->'env' AS e,''
     @ ''                c.settings->>'config_alias' AS alias''
     @ ''         FROM '' @ dbSchema L @ ''.config c''
     @ ''         WHERE c.run_number = runs.run_number AND c.subsystem = 'Gateway'' @ [CHR 0x27]
     @ ''         ORDER BY c.create_time DESC LIMIT 1 OFFSET 0) y) gw ON true''"

definition runs_groups :: "('e, 'j) pglib \<Rightarrow> string" where
  "runs_groups L =
     '' LEFT JOIN LATERAL (''
     @ ''   SELECT string_agg(x.subsystem''
     @ ''     || '|' || COALESCE(x.g->>'Configuration_alias','' @ [CHR 0x27, CHR 0x27] @ '')''
     @ ''     || '|' || COALESCE(x.g->>'Configuration_group_name','' @ [CHR 0x27, CHR 0x27] @ '')''
     @ ''     || '|' || COALESCE(x.g->>'Configuration_group_key','' @ [CHR 0x27, CHR 0x27] @ '')''
     @ ''     || '|' || COALESCE(x.g->>'Context_group_name','' @ [CHR 0x27, CHR 0x27] @ '')''
     @ ''     || '|' || COALESCE(x.g->>'Context_group_key','' @ [CHR 0x27, CHR 0x27] @ '')''
     @ ''     || '|' || COALESCE(x.g->>'Backbone_group_name','' @ [CHR 0x27, CHR 0x27] @ '')''
     @ ''     || '|' || COALESCE(x.g->>'Backbone_group_key','' @ [CHR 0x27, CHR 0x27] @ '')''
     @ ''     , ';' ORDER BY x.subsystem) AS subsystem_groups''
     @ ''   FROM (SELECT c.subsystem, c.settings #> '{config,groups}' AS g''
     @ ''         FROM '' @ dbSchema L @ ''.config c''
     @ ''         WHERE c.run_number = runs.run_number OFFSET 0) x) sg ON true''"

definition runs_sql :: "('e, 'j) pglib \<Rightarrow> u32 \<Rightarrow> u32 \<Rightarrow> string \<Rightarrow> string \<Rightarrow> string" where
  "runs_sql L startTime endTime runTypeClause filterClause =
     runs_window L startTime endTime @ runs_columns @ runs_gateway L @ runs_groups L
     @ '' WHERE true'' @ runTypeClause @ filterClause @ '' ORDER BY runs.run_number DESC;''"

definition run_type_clause :: "('e, 'j) pglib \<Rightarrow> string \<Rightarrow> ('e, string) db_eff" where
  "run_type_clause L runType =
     (if runType = [] then ret []
      else bindE (PQescapeLiteral L (''%'' @ runType @ ''%'')) (\<lambda>escaped. case escaped of
          None \<Rightarrow> throw (''Failed to escape runType filter for getRunRecords().'' @ endl)
        | Some l \<Rightarrow> seqE (PQfreemem l) (ret ('' AND run_type_name LIKE '' @ snd l))))"

definition fits_int :: "('e, 'j) pglib \<Rightarrow> u32 \<Rightarrow> ('s, unit) eff" where
  "fits_int L t = whenE (unat t \<ge> 2 ^ 31) (throw (pl_cast_error L))"

definition fits_long :: "('e, 'j) pglib \<Rightarrow> u64 \<Rightarrow> ('s, unit) eff" where
  "fits_long L t = whenE (unat t \<ge> 2 ^ 63) (throw (pl_cast_error L))"

definition select_rows :: "('e, 'j) pglib \<Rightarrow> string \<Rightarrow> string \<Rightarrow> ('e, string list list) db_eff" where
  "select_rows L sql failed =
     bindE (PQexec L sql) (\<lambda>res.
     bindE (PQresultStatus res) (\<lambda>st.
     if st \<noteq> PGRES_TUPLES_OK then fail_with (failed @ ''FAILED!!! PQ ERROR: '') res endl
     else bindE (convertResultToVector res) (\<lambda>records. seqE (PQclear res) (ret records))))"

definition getRunRecords :: "('e, 'j) pglib \<Rightarrow> u32 \<Rightarrow> u32 \<Rightarrow> string \<Rightarrow> string \<Rightarrow> ('e, string list list) db_eff" where
  "getRunRecords L startTime endTime queryFilter runType =
     bindE (connected L) (\<lambda>up.
     if \<not> up then ret []
     else bindE (run_type_clause L runType) (\<lambda>typeClause.
          seqE (fits_int L startTime)
         (seqE (fits_int L endTime)
         (select_rows L (runs_sql L startTime endTime typeClause (if queryFilter = [] then [] else '' '' @ queryFilter))
            (''getRunRecords() SELECT FROM '' @ in_quotes ''view_run_summary'' @ '' DATABASE TABLE '')))))"

definition subsystems_sql :: "('e, 'j) pglib \<Rightarrow> u64 \<Rightarrow> string" where
  "subsystems_sql L runNumber =
     ''SELECT subsystem''
     @ '', COALESCE(settings #>> '{config,groups,Configuration_alias}', '' @ [CHR 0x27, CHR 0x27] @ '')''
     @ '', COALESCE(settings #>> '{config,groups,Configuration_group_name}', '' @ [CHR 0x27, CHR 0x27] @ '')''
     @ '', COALESCE(settings #>> '{config,groups,Configuration_group_key}', '' @ [CHR 0x27, CHR 0x27] @ '')''
     @ '', COALESCE(settings #>> '{config,groups,Context_group_name}', '' @ [CHR 0x27, CHR 0x27] @ '')''
     @ '', COALESCE(settings #>> '{config,groups,Context_group_key}', '' @ [CHR 0x27, CHR 0x27] @ '')''
     @ '', COALESCE(settings #>> '{config,groups,Backbone_group_name}', '' @ [CHR 0x27, CHR 0x27] @ '')''
     @ '', COALESCE(settings #>> '{config,groups,Backbone_group_key}', '' @ [CHR 0x27, CHR 0x27] @ '')''
     @ '', COALESCE(settings #>> '{config,groups,Iterate_group_name}', '' @ [CHR 0x27, CHR 0x27] @ '')''
     @ '', COALESCE(settings #>> '{config,groups,Iterate_group_key}', '' @ [CHR 0x27, CHR 0x27] @ '')''
     @ '', create_time''
     @ '' FROM '' @ dbSchema L @ ''.config''
     @ '' WHERE run_number = '' @ to_string (unat runNumber)
     @ '' ORDER BY subsystem;''"

definition getRunConfigSubsystemInfo :: "('e, 'j) pglib \<Rightarrow> u64 \<Rightarrow> ('e, string list list) db_eff" where
  "getRunConfigSubsystemInfo L runNumber =
     bindE (connected L) (\<lambda>up.
     if \<not> up then ret []
     else seqE (fits_long L runNumber)
         (select_rows L (subsystems_sql L runNumber)
            (''getRunConfigSubsystemInfo() SELECT FROM '' @ in_quotes ''config'' @ '' DATABASE TABLE '')))"

definition condition_sql :: "('e, 'j) pglib \<Rightarrow> u64 \<Rightarrow> string" where
  "condition_sql L runNumber =
     ''SELECT subsystem, create_time, settings::text''
     @ '' FROM '' @ dbSchema L @ ''.config''
     @ '' WHERE run_number = '' @ to_string (unat runNumber)
     @ '' ORDER BY subsystem;''"

definition getRunConditionByID :: "('e, 'j) pglib \<Rightarrow> u64 \<Rightarrow> ('e, string list list) db_eff" where
  "getRunConditionByID L runNumber =
     bindE (connected L) (\<lambda>up.
     if \<not> up then ret []
     else seqE (fits_long L runNumber)
         (bindE (select_rows L (condition_sql L runNumber)
            (''getRunConditionByID() SELECT FROM '' @ in_quotes ''config'' @ '' DATABASE TABLE '')) (\<lambda>records.
          if records = [] then throw (''No run condition records found for run '' @ to_string (unat runNumber) @ endl) else ret records)))"

subsection \<open>Names the database does not know\<close>

text \<open>The buffer of \<^verbatim>\<open>snprintf\<close> holding 1023 characters.\<close>

definition getTableNames :: "('e, 'j) pglib \<Rightarrow> string \<Rightarrow> ('e, string list) db_eff" where
  "getTableNames L tableName =
     bindE (PQexec L (take 1023 (''SELECT name FROM '' @ dbSchema L @ ''.'' @ tableName @ '' ORDER BY name;''))) (\<lambda>res.
     bindE (PQresultStatus res) (\<lambda>st.
     bindE (if st = PGRES_TUPLES_OK then PQntuples res else ret 0) (\<lambda>n.
     bindE (foldE (\<lambda>i names. bindE (PQgetvalue res i 0) (\<lambda>v. ret (names @ [v]))) [0..<n] []) (\<lambda>names.
     seqE (PQclear res) (ret names)))))"

definition appendNotFoundError :: "string \<Rightarrow> string \<Rightarrow> string \<Rightarrow> string \<Rightarrow> string list \<Rightarrow> string \<Rightarrow> string" where
  "appendNotFoundError ss providedName tableName entityDescription availableNames additionalNote =
     ss @ ''The '' @ entityDescription @ '' '' @ in_quotes providedName @ '' does not match any entry in the '' @ tableName @ '' table.'' @ endl
     @ (if additionalNote = [] then [] else additionalNote @ endl)
     @ ''The '' @ entityDescription @ '' needs to match one of the following '' @ tableName @ '' names:'' @ endl
     @ (if availableNames = [] then ''  (No '' @ tableName @ '' entries found in the database)'' @ endl
        else concat (map (\<lambda>i. ''  '' @ to_string (i + 1) @ ''. '' @ availableNames ! i @ endl) [0..<length availableNames]))"

subsection \<open>The life of the plugin\<close>

text \<open>The supervisor's calls; \<open>run_request\<close> drops the value of a call.\<close>

datatype request = InsertConfigureCondition | ClaimNextRunNumber string
  | InsertRunCondition u32 "(string \<times> (string \<times> string) list) list"
  | UpdateRunInfo u32 RunTransitionType string string | GetRunRecords u32 u32 string string
  | GetRunConfigSubsystemInfo u64 | GetRunConditionByID u64

definition no_value :: "('s, 'a) eff \<Rightarrow> ('s, unit) eff" where
  "no_value m = bindE m (\<lambda>_. ret ())"

fun run_request :: "('e, 'j) pglib \<Rightarrow> request \<Rightarrow> ('e, unit) db_eff" where
  "run_request L InsertConfigureCondition = ret ()"
| "run_request L (ClaimNextRunNumber comment) = no_value (claimNextRunNumber L comment)"
| "run_request L (InsertRunCondition run conditions) = no_value (insertRunCondition L run conditions)"
| "run_request L (UpdateRunInfo run ty comment metadata) = updateRunInfo L run ty comment metadata"
| "run_request L (GetRunRecords startTime endTime queryFilter runType) = no_value (getRunRecords L startTime endTime queryFilter runType)"
| "run_request L (GetRunConfigSubsystemInfo run) = no_value (getRunConfigSubsystemInfo L run)"
| "run_request L (GetRunConditionByID run) = no_value (getRunConditionByID L run)"

text \<open>The caller goes on after an exception; a constructor that throws leaves no object to destroy.\<close>

definition plugin_life :: "('e, 'j) pglib \<Rightarrow> request list \<Rightarrow> ('e, unit) db_eff" where
  "plugin_life L requests =
     seqE (DBRunInfo L)
    (seqE (forE requests (\<lambda>r. tryE (run_request L r) (\<lambda>_. ret ())))
     DBRunInfo_destructor)"

definition new_plugin :: "'e \<Rightarrow> 'e run_info" where
  "new_plugin e = \<lparr>ri_env = e, ri_conns = 0, ri_results = 0, ri_literals = 0, runInfoDbConn = None, ri_hist = []\<rparr>"

end
