(* ===== verification/Run_Handles.thy ===== *)
theory Run_Handles
  imports Run_Records
begin

section \<open>The handles of the run information plugin\<close>

text \<open>
  libpq's connections, results and escaped texts are allocated by the library and freed by the caller. Whatever the
  database answers, the plugin uses only what is allocated and frees everything exactly once.
\<close>

subsection \<open>What a history holding\<close>

text \<open>The connections, results and texts held after a history (the latest event first); \<open>None\<close> after a use of a handle
  that is not held_by, or a second release.\<close>

type_synonym held_sets = "nat set \<times> nat set \<times> nat set"

fun hold_step :: "db_event \<Rightarrow> held_sets \<Rightarrow> held_sets option" where
  "hold_step (Connected c _) (cs, rs, ls) = (if c \<in> cs then None else Some (insert c cs, rs, ls))"
| "hold_step (Asked c) (cs, rs, ls) = (if set_option c \<subseteq> cs then Some (cs, rs, ls) else None)"
| "hold_step (Finished c) (cs, rs, ls) = (if set_option c \<subseteq> cs then Some (cs - set_option c, rs, ls) else None)"
| "hold_step (Executed c _ _ r _) (cs, rs, ls) = (if c \<in> cs \<and> r \<notin> rs then Some (cs, insert r rs, ls) else None)"
| "hold_step (Used r) (cs, rs, ls) = (if r \<in> rs then Some (cs, rs, ls) else None)"
| "hold_step (Cleared r) (cs, rs, ls) = (if r \<in> rs then Some (cs, rs - {r}, ls) else None)"
| "hold_step (Escaped c l _) (cs, rs, ls) = (if c \<in> cs \<and> l \<notin> ls then Some (cs, rs, insert l ls) else None)"
| "hold_step (Freed l) (cs, rs, ls) = (if l \<in> ls then Some (cs, rs, ls - {l}) else None)"
| "hold_step (Dumped _ _ _) hs = Some hs"

primrec held_by :: "db_event list \<Rightarrow> held_sets option" where
  "held_by [] = Some ({}, {}, {})"
| "held_by (ev # h) = (case held_by h of None \<Rightarrow> None | Some hs \<Rightarrow> hold_step ev hs)"

definition holding :: "nat set \<Rightarrow> nat set \<Rightarrow> nat set \<Rightarrow> 'e run_info \<Rightarrow> bool" where
  "holding cs rs ls s \<longleftrightarrow> held_by (ri_hist s) = Some (cs, rs, ls)
     \<and> (\<forall>c\<in>cs. c < ri_conns s) \<and> (\<forall>r\<in>rs. r < ri_results s) \<and> (\<forall>l\<in>ls. l < ri_literals s)"

text \<open>The connection that is held is the member; \<open>up\<close>: there is one.\<close>

definition tidy :: "bool \<Rightarrow> nat set \<Rightarrow> nat set \<Rightarrow> 'e run_info \<Rightarrow> bool" where
  "tidy up rs ls s \<longleftrightarrow> holding (set_option (runInfoDbConn s)) rs ls s \<and> (up \<longrightarrow> runInfoDbConn s \<noteq> None)"

text \<open>\<open>leaves P m Q\<close>: from \<open>P\<close> no handle is misused; a return ends in \<open>Q\<close>, an exception with nothing held but the connection.\<close>

definition leaves :: "('e run_info \<Rightarrow> bool) \<Rightarrow> ('e, 'a) db_eff \<Rightarrow> ('a \<Rightarrow> 'e run_info \<Rightarrow> bool) \<Rightarrow> bool" where
  "leaves P m Q \<longleftrightarrow> (\<forall>s. P s \<longrightarrow> held_by (ri_hist (snd (m s))) \<noteq> None \<and> fst (m s) \<noteq> Spin
     \<and> (\<forall>a. fst (m s) = Ret a \<longrightarrow> Q a (snd (m s))) \<and> (\<forall>e. fst (m s) = Throw e \<longrightarrow> tidy False {} {} (snd (m s))))"

lemma leaves_bindE: "leaves P m R \<Longrightarrow> (\<And>a. leaves (R a) (k a) Q) \<Longrightarrow> leaves P (bindE m k) Q"
  by (auto simp: leaves_def bindE_cases split: outcome.splits)

lemma leaves_seqE: "leaves P m (\<lambda>_. R) \<Longrightarrow> leaves R k Q \<Longrightarrow> leaves P (seqE m k) Q"
  unfolding seqE_def by (rule leaves_bindE)

lemma leaves_tryE: "leaves P m Q \<Longrightarrow> (\<And>e. leaves (tidy False {} {}) (h e) Q) \<Longrightarrow> leaves P (tryE m h) Q"
  by (auto simp: leaves_def tryE_cases split: outcome.splits)

lemma leaves_if: "(b \<Longrightarrow> leaves P m Q) \<Longrightarrow> (\<not> b \<Longrightarrow> leaves P m' Q) \<Longrightarrow> leaves P (if b then m else m') Q"
  by simp

lemma leaves_pre: "leaves P m Q \<Longrightarrow> (\<And>s. P' s \<Longrightarrow> P s) \<Longrightarrow> leaves P' m Q"
  by (simp add: leaves_def)

lemma leaves_post: "leaves P m R \<Longrightarrow> (\<And>a s. R a s \<Longrightarrow> Q a s) \<Longrightarrow> leaves P m Q"
  by (simp add: leaves_def)

lemma leaves_pure: "(Z \<Longrightarrow> leaves P m Q) \<Longrightarrow> leaves (\<lambda>s. P s \<and> Z) m Q"
  by (auto simp: leaves_def)

lemma leaves_ret: "(\<And>s. P s \<Longrightarrow> held_by (ri_hist s) \<noteq> None \<and> Q a s) \<Longrightarrow> leaves P (ret a) Q"
  by (simp add: leaves_def ret_def)

lemma held_tidy: "tidy up rs ls s \<Longrightarrow> held_by (ri_hist s) \<noteq> None"
  by (simp add: tidy_def holding_def)

lemma tidy_weaken: "tidy up rs ls s \<Longrightarrow> (up' \<Longrightarrow> up) \<Longrightarrow> tidy up' rs ls s"
  by (simp add: tidy_def)

lemma leaves_ret_tidy: "leaves (tidy up rs ls) (ret a) (\<lambda>_. tidy up rs ls)"
  by (rule leaves_ret) (simp add: held_tidy)

lemma leaves_throw: "leaves (tidy up {} {}) (throw m) Q"
  by (auto simp: leaves_def throw_def held_tidy intro: tidy_weaken)

lemma leaves_undef: "leaves (tidy up rs ls) undefined_behaviour Q"
  by (auto simp: leaves_def undefined_behaviour_def held_tidy)

lemma leaves_whenE: "(b \<Longrightarrow> leaves (tidy up rs ls) m (\<lambda>_. tidy up rs ls)) \<Longrightarrow> leaves (tidy up rs ls) (whenE b m) (\<lambda>_. tidy up rs ls)"
  by (simp add: whenE_def leaves_ret_tidy)

lemma leaves_foldE:
  "(\<And>x acc. leaves (tidy up rs ls) (f x acc) (\<lambda>_. tidy up rs ls)) \<Longrightarrow> leaves (tidy up rs ls) (foldE f xs acc) (\<lambda>_. tidy up rs ls)"
  by (induction xs arbitrary: acc) (auto intro: leaves_bindE leaves_ret_tidy)

lemma leaves_forE:
  "(\<And>x. leaves (tidy up rs ls) (f x) (\<lambda>_. tidy up rs ls)) \<Longrightarrow> leaves (tidy up rs ls) (forE xs f) (\<lambda>_. tidy up rs ls)"
  unfolding forE_def by (rule leaves_foldE)

lemma leaves_at: "leaves (tidy up rs ls) (at xs i) (\<lambda>_. tidy up rs ls)"
  by (simp add: at_def leaves_ret_tidy leaves_undef)

lemma leaves_at': "leaves (tidy up rs ls) (at xs i) Q" if "\<And>a. leaves (tidy up rs ls) (ret a) Q"
  using that by (simp add: at_def leaves_undef)

lemma leaves_case_option:
  "leaves P m Q \<Longrightarrow> (\<And>a. x = Some a \<Longrightarrow> leaves P (f a) Q) \<Longrightarrow> leaves P (case x of None \<Rightarrow> m | Some a \<Rightarrow> f a) Q"
  by (cases x) simp_all

subsection \<open>The calls of the library\<close>

lemma tidy_note:
  assumes "tidy up rs ls s" "hold_step ev (set_option (runInfoDbConn s), rs, ls) = Some (set_option (runInfoDbConn s), rs', ls')"
    "\<forall>r\<in>rs'. r < ri_results s" "\<forall>l\<in>ls'. l < ri_literals s"
  shows "tidy up rs' ls' (s\<lparr>ri_hist := ev # ri_hist s\<rparr>)"
  using assms by (simp add: tidy_def holding_def)

lemma note_tidy:
  assumes "\<And>s :: 'e run_info. tidy up rs ls s \<Longrightarrow> hold_step ev (set_option (runInfoDbConn s), rs, ls) = Some (set_option (runInfoDbConn s), rs', ls')"
    and "rs' \<subseteq> rs" "ls' \<subseteq> ls"
  shows "leaves (tidy up rs ls :: 'e run_info \<Rightarrow> bool) (note_event ev) (\<lambda>_. tidy up rs' ls')"
proof -
  have t: "tidy up rs' ls' (s\<lparr>ri_hist := ev # ri_hist s\<rparr>)" if "tidy up rs ls s" for s :: "'e run_info"
    by (rule tidy_note [OF that assms(1) [OF that]]) (use that assms(2, 3) in \<open>auto simp: tidy_def holding_def\<close>)
  show ?thesis unfolding leaves_def note_event_def modify_def
  proof (intro allI impI)
    fix s :: "'e run_info" assume "tidy up rs ls s"
    from t [OF this] held_tidy [OF t [OF this]]
    show "held_by (ri_hist (snd (Ret (), s\<lparr>ri_hist := ev # ri_hist s\<rparr>))) \<noteq> None \<and> fst (Ret (), s\<lparr>ri_hist := ev # ri_hist s\<rparr>) \<noteq> Spin
      \<and> (\<forall>a. fst (Ret (), s\<lparr>ri_hist := ev # ri_hist s\<rparr>) = Ret a \<longrightarrow> tidy up rs' ls' (snd (Ret (), s\<lparr>ri_hist := ev # ri_hist s\<rparr>)))
      \<and> (\<forall>e. fst (Ret (), s\<lparr>ri_hist := ev # ri_hist s\<rparr>) = Throw e \<longrightarrow> tidy False {} {} (snd (Ret (), s\<lparr>ri_hist := ev # ri_hist s\<rparr>)))"
      by (simp del: held_by.simps)
  qed
qed

lemma leaves_use: "fst res \<in> rs \<Longrightarrow> leaves (tidy up rs ls) (use_result res f) (\<lambda>_. tidy up rs ls)"
  unfolding use_result_def by (rule leaves_seqE [OF note_tidy leaves_ret_tidy]) simp_all

lemma leaves_reads:
  "fst res \<in> rs \<Longrightarrow> leaves (tidy up rs ls) (PQresultStatus res) (\<lambda>_. tidy up rs ls)"
  "fst res \<in> rs \<Longrightarrow> leaves (tidy up rs ls) (PQresultErrorMessage res) (\<lambda>_. tidy up rs ls)"
  "fst res \<in> rs \<Longrightarrow> leaves (tidy up rs ls) (PQntuples res) (\<lambda>_. tidy up rs ls)"
  "fst res \<in> rs \<Longrightarrow> leaves (tidy up rs ls) (PQnfields res) (\<lambda>_. tidy up rs ls)"
  "fst res \<in> rs \<Longrightarrow> leaves (tidy up rs ls) (PQgetvalue res i j) (\<lambda>_. tidy up rs ls)"
  unfolding PQresultStatus_def PQresultErrorMessage_def PQntuples_def PQnfields_def PQgetvalue_def
  by (blast intro: leaves_use leaves_bindE leaves_at)+

lemma leaves_clear: "fst res \<notin> rs \<Longrightarrow> leaves (tidy up (insert (fst res) rs) ls) (PQclear res) (\<lambda>_. tidy up rs ls)"
  unfolding PQclear_def by (rule note_tidy) auto

lemma leaves_freemem: "fst l \<notin> ls \<Longrightarrow> leaves (tidy up rs (insert (fst l) ls)) (PQfreemem l) (\<lambda>_. tidy up rs ls)"
  unfolding PQfreemem_def by (rule note_tidy) auto

lemma leaves_dump: "leaves (tidy up rs ls) (dump_file L app path t) (\<lambda>_. tidy up rs ls)"
  by (simp add: leaves_def dump_file_def modify_def tidy_def holding_def)

lemma leaves_exec:
  "leaves (tidy True rs ls) (PQexecParams L sql params) (\<lambda>res s. tidy True (insert (fst res) rs) ls s \<and> fst res \<notin> rs)"
  by (auto simp: leaves_def PQexecParams_def bindE_def gets_def tidy_def holding_def undefined_behaviour_def less_Suc_eq split: prod.splits)

lemma leaves_escape:
  "leaves (tidy True rs ls) (PQescapeLiteral L t)
     (\<lambda>x s. tidy True rs (case x of None \<Rightarrow> ls | Some l \<Rightarrow> insert (fst l) ls) s \<and> (\<forall>l. x = Some l \<longrightarrow> fst l \<notin> ls))"
  by (auto simp: leaves_def PQescapeLiteral_def bindE_def gets_def tidy_def holding_def less_Suc_eq split: prod.splits option.splits)

lemma leaves_asked:
  "leaves (tidy up rs ls) (PQstatus L) (\<lambda>_. tidy up rs ls)" "leaves (tidy up rs ls) (PQerrorMessage L) (\<lambda>_. tidy up rs ls)"
  by (auto simp: leaves_def PQstatus_def PQerrorMessage_def seqE_def note_event_def modify_def bindE_def gets_def tidy_def holding_def)

lemma leaves_finish: "leaves (tidy up rs ls) PQfinish (\<lambda>_. holding {} rs ls)"
  by (auto simp: leaves_def PQfinish_def note_event_def modify_def bindE_def gets_def tidy_def holding_def)

lemma leaves_null: "leaves (holding {} rs ls) set_conn_null (\<lambda>_ s. tidy False rs ls s \<and> runInfoDbConn s = None)"
  by (simp add: leaves_def set_conn_null_def modify_def tidy_def holding_def)

lemma leaves_connect: "leaves (\<lambda>s. tidy False {} {} s \<and> runInfoDbConn s = None) (PQconnectdb L info) (\<lambda>_. tidy True {} {})"
  by (auto simp: leaves_def PQconnectdb_def modify_def tidy_def holding_def)

subsection \<open>The operations\<close>

lemma leaves_open: "leaves (\<lambda>s. tidy False {} {} s \<and> runInfoDbConn s = None) (openDbConnection L) (\<lambda>_. tidy True {} {})"
proof -
  have bad: "leaves (tidy True {} {}) (bindE (PQerrorMessage L) (\<lambda>m. seqE PQfinish (seqE set_conn_null (throw (f m))))) Q" for f Q
    by (rule leaves_bindE [OF leaves_asked(2)], rule leaves_seqE [OF leaves_finish], rule leaves_seqE [OF leaves_null],
        rule leaves_pre [OF leaves_throw]) blast
  show ?thesis
    unfolding openDbConnection_def
    by (rule leaves_if, rule leaves_pre [OF leaves_undef], blast, rule leaves_seqE [OF leaves_connect],
        rule leaves_bindE [OF leaves_asked(1)], rule leaves_if, rule bad, rule leaves_ret_tidy)
qed

lemma leaves_checked: "leaves (tidy False {} {}) (checkAndReconnectDb L) (\<lambda>_. tidy False {} {})"
proof -
  have keep: "leaves (tidy True {} {}) (ret b) (\<lambda>_. tidy False {} {})" for b
    by (rule leaves_post [OF leaves_ret_tidy]) (blast intro: tidy_weaken)
  have lost: "leaves (tidy True {} {}) (seqE PQfinish (seqE set_conn_null (ret b))) (\<lambda>_. tidy False {} {})" for b
    by (rule leaves_seqE [OF leaves_finish], rule leaves_seqE [OF leaves_null], rule leaves_ret) (blast dest: held_tidy)
  show ?thesis
    unfolding checkAndReconnectDb_def
    by (rule leaves_bindE [OF leaves_asked(1)], rule leaves_if, rule leaves_seqE [OF leaves_finish], rule leaves_seqE [OF leaves_null],
        rule leaves_seqE [OF leaves_open], rule leaves_bindE [OF leaves_asked(1)], rule leaves_if, rule lost, rule keep, rule leaves_ret_tidy)
qed

lemma leaves_connected:
  "leaves (tidy False {} {}) (connected L) (\<lambda>up s. tidy False {} {} s \<and> (up \<longrightarrow> tidy True {} {} s))"
  unfolding connected_def
  by (rule leaves_bindE [OF leaves_checked])
    (auto simp: leaves_def bindE_def gets_def ret_def held_tidy tidy_def holding_def)

text \<open>Every operation first checks the connection and does its queries only with one.\<close>

lemma leaves_guarded:
  assumes "leaves (tidy True {} {}) (k True) (\<lambda>_. tidy False {} {})" "leaves (tidy False {} {}) (k False) (\<lambda>_. tidy False {} {})"
  shows "leaves (tidy False {} {}) (bindE (connected L) k) (\<lambda>_. tidy False {} {})"
proof (rule leaves_bindE [OF leaves_connected])
  fix up show "leaves (\<lambda>s. tidy False {} {} s \<and> (up \<longrightarrow> tidy True {} {} s)) (k up) (\<lambda>_. tidy False {} {})"
    by (cases up) (auto intro: leaves_pre [OF assms(1)] leaves_pre [OF assms(2)])
qed

lemma leaves_query:
  assumes "\<And>res. fst res \<notin> rs \<Longrightarrow> leaves (tidy True (insert (fst res) rs) ls) (k res) Q"
  shows "leaves (tidy True rs ls) (bindE (PQexecParams L sql params) k) Q"
  by (rule leaves_bindE [OF leaves_exec], rule leaves_pure, rule assms)

lemma leaves_query':
  assumes "\<And>res. fst res \<notin> rs \<Longrightarrow> leaves (tidy True (insert (fst res) rs) ls) (k res) Q"
  shows "leaves (tidy True rs ls) (bindE (PQexec L sql) k) Q"
  unfolding PQexec_def by (rule leaves_query [OF assms])

lemma leaves_fail: "leaves (tidy up {fst res} {}) (fail_with before res after) Q"
  unfolding fail_with_def
  by (rule leaves_bindE [OF leaves_reads(2)], simp, rule leaves_seqE [OF leaves_clear leaves_throw], simp)

lemma leaves_clear_ret: "fst res \<notin> rs \<Longrightarrow> leaves (tidy up (insert (fst res) rs) ls) (seqE (PQclear res) (ret a)) (\<lambda>_. tidy up rs ls)"
  by (rule leaves_seqE [OF leaves_clear leaves_ret_tidy])

lemma leaves_atoi: "leaves (tidy up rs ls) (atoi v) (\<lambda>_. tidy up rs ls)"
  by (simp add: atoi_def leaves_ret_tidy leaves_undef)

lemma leaves_values: "fst res \<in> rs \<Longrightarrow> leaves (tidy up rs ls) (values_text res n) (\<lambda>_. tidy up rs ls)"
  unfolding values_text_def by (rule leaves_foldE, rule leaves_bindE [OF leaves_reads(5)], simp, rule leaves_ret_tidy)

lemma leaves_row: "fst res \<in> rs \<Longrightarrow> leaves (tidy up rs ls) (result_row res n i) (\<lambda>_. tidy up rs ls)"
  unfolding result_row_def by (rule leaves_foldE, rule leaves_bindE [OF leaves_reads(5)], simp, rule leaves_ret_tidy)

lemma leaves_convert: "fst res \<in> rs \<Longrightarrow> leaves (tidy up rs ls) (convertResultToVector res) (\<lambda>_. tidy up rs ls)"
  unfolding convertResultToVector_def
  by (rule leaves_bindE [OF leaves_reads(3)], simp, rule leaves_if, rule leaves_bindE [OF leaves_reads(4)], simp, rule leaves_foldE,
      rule leaves_bindE [OF leaves_row], simp, rule leaves_ret_tidy, rule leaves_ret_tidy)

lemma leaves_unknown: "leaves (tidy True {fst typeRes} {}) (unknown_type L alias machine typeRes) Q"
  unfolding unknown_type_def
  by (rule leaves_query', rule leaves_bindE [OF leaves_reads(1)], simp, rule leaves_bindE [where R = "\<lambda>_. tidy True _ _"],
      rule leaves_if, rule leaves_reads(3), simp, rule leaves_ret_tidy, rule leaves_bindE [where R = "\<lambda>_. tidy True _ _"],
      rule leaves_if, rule leaves_values, simp, rule leaves_ret_tidy, rule leaves_seqE [OF leaves_clear], simp,
      rule leaves_seqE [OF leaves_clear leaves_throw], simp)

lemma leaves_type_id: "leaves (tidy True {} {}) (run_type_id L alias machine) (\<lambda>_. tidy True {} {})"
  unfolding run_type_id_def
  by (rule leaves_query', rule leaves_bindE [OF leaves_reads(1)], simp, rule leaves_if, rule leaves_fail,
      rule leaves_bindE [OF leaves_reads(3)], simp, rule leaves_if, rule leaves_bindE [OF leaves_reads(5)], simp,
      rule leaves_bindE [OF leaves_atoi], rule leaves_clear_ret, simp, rule leaves_unknown)

lemma leaves_insert_run: "leaves (tidy True {} {}) (insert_run L comment ty) (\<lambda>_. tidy True {} {})"
  unfolding insert_run_def
  by (rule leaves_query', rule leaves_bindE [OF leaves_reads(1)], simp, rule leaves_if, rule leaves_fail,
      rule leaves_bindE [OF leaves_reads(3)], simp, rule leaves_if, rule leaves_bindE [OF leaves_reads(5)], simp,
      rule leaves_bindE [OF leaves_atoi], rule leaves_clear_ret, simp, rule leaves_fail)

lemma leaves_select: "leaves (tidy True {} {}) (select_rows L sql failed) (\<lambda>_. tidy True {} {})"
  unfolding select_rows_def
  by (rule leaves_query', rule leaves_bindE [OF leaves_reads(1)], simp, rule leaves_if, rule leaves_fail,
      rule leaves_bindE [OF leaves_convert], simp, rule leaves_clear_ret, simp)

lemma leaves_literal:
  assumes "leaves (tidy True rs ls) (k None) Q" "\<And>l. fst l \<notin> ls \<Longrightarrow> leaves (tidy True rs (insert (fst l) ls)) (k (Some l)) Q"
  shows "leaves (tidy True rs ls) (bindE (PQescapeLiteral L t) k) Q"
proof (rule leaves_bindE [OF leaves_escape])
  fix x
  show "leaves (\<lambda>s. tidy True rs (case x of None \<Rightarrow> ls | Some l \<Rightarrow> insert (fst l) ls) s \<and> (\<forall>l. x = Some l \<longrightarrow> fst l \<notin> ls)) (k x) Q"
    by (rule leaves_pure) (cases x; simp add: assms)
qed

lemma leaves_end: "leaves (tidy True {} {}) (record_end L run comment metadata) (\<lambda>_. tidy True {} {})"
  unfolding record_end_def
  by (rule leaves_literal, simp only: option.case, rule leaves_bindE [OF leaves_asked(2) leaves_throw], simp only: option.case,
      rule leaves_query', rule leaves_seqE [OF leaves_freemem], simp, rule leaves_bindE [OF leaves_reads(1)], simp, rule leaves_if,
      rule leaves_fail, rule leaves_clear, simp)

lemma leaves_type_info: "leaves (tidy up {} {}) (getTransitionTypeInfo ty) (\<lambda>_. tidy up {} {})"
  by (cases ty) (simp_all add: leaves_ret_tidy leaves_throw)

lemma leaves_ret_weak: "leaves (tidy up {} {}) (ret a) (\<lambda>_. tidy False {} {})"
  by (rule leaves_post [OF leaves_ret_tidy]) (blast intro: tidy_weaken)

lemma leaves_recorded:
  "leaves (tidy True {} {})
     (bindE (getTransitionTypeInfo ty) (\<lambda>(typeId, description).
        bindE (PQexec L (transition_sql L run typeId)) (\<lambda>res.
        bindE (PQresultStatus res) (\<lambda>st.
        if st \<noteq> PGRES_COMMAND_OK then fail_with (before description) res endl
        else seqE (PQclear res) (whenE (typeId = 1) (record_end L run comment metadata))))))
     (\<lambda>_. tidy True {} {})"
  by (rule leaves_bindE [OF leaves_type_info], simp only: case_prod_beta, rule leaves_query', rule leaves_bindE [OF leaves_reads(1)], simp,
      rule leaves_if, rule leaves_fail, rule leaves_seqE [OF leaves_clear], simp, rule leaves_whenE, rule leaves_end)

lemma whenE_True: "whenE True m = m" and whenE_False: "whenE False m = ret ()"
  by (simp_all add: whenE_def)

lemma leaves_update: "leaves (tidy False {} {}) (updateRunInfo L run ty comment metadata) (\<lambda>_. tidy False {} {})"
proof -
  have last: "leaves (tidy up {} {}) (if run = no_run_number then throw m else ret ()) (\<lambda>_. tidy False {} {})" for m up
    by (rule leaves_if, rule leaves_throw, rule leaves_ret_weak)
  show ?thesis
    unfolding updateRunInfo_def
  proof (rule leaves_guarded, goal_cases)
    case 1
    show ?case unfolding whenE_True by (rule leaves_seqE [OF leaves_recorded last])
  next
    case 2
    show ?case unfolding whenE_False by (rule leaves_seqE [OF leaves_ret_tidy last])
  qed
qed

lemma leaves_tidy_False: "leaves (tidy False {} {}) m Q \<Longrightarrow> leaves (tidy up {} {}) m Q"
  by (rule leaves_pre) (blast intro: tidy_weaken)+

lemma leaves_expand: "leaves (tidy up {} {}) (expand L t) (\<lambda>_. tidy up {} {})"
  by (simp add: expand_def leaves_ret_tidy leaves_throw split: sum.splits)

lemma leaves_claim: "leaves (tidy False {} {}) (claimNextRunNumber L comment) (\<lambda>_. tidy False {} {})"
proof -
  have last: "leaves (tidy False {} {}) (if run = no_run_number then throw m else ret run) (\<lambda>_. tidy False {} {})" for run m
    by (rule leaves_if, rule leaves_throw, rule leaves_ret_weak)
  show ?thesis
    unfolding claimNextRunNumber_def
  proof (rule leaves_guarded, goal_cases)
    case 1
    show ?case unfolding if_True
      by (rule leaves_bindE [OF _ last], rule leaves_bindE [OF leaves_expand], rule leaves_bindE [OF leaves_type_id],
          rule leaves_bindE [OF leaves_insert_run], rule leaves_seqE [OF leaves_tidy_False [OF leaves_update] leaves_ret_tidy])
  next
    case 2
    show ?case unfolding if_False by (rule leaves_bindE [OF leaves_ret_tidy last])
  qed
qed

lemma leaves_json: "leaves (tidy up {} {}) (json_field L subsystem fv) (\<lambda>_. tidy up {} {})"
proof -
  have "leaves (tidy up {} {}) (safe_name field) (\<lambda>_. tidy up {} {})" for field
    by (simp add: safe_name_def leaves_undef leaves_ret_tidy)
  then have failed: "leaves (tidy up {} {}) (parse_failed L subsystem field v) Q" for field v Q
    unfolding parse_failed_def Let_def by (rule leaves_bindE) (rule leaves_seqE [OF leaves_dump leaves_throw])
  show ?thesis
    unfolding json_field_def case_prod_beta
    by (auto intro!: leaves_if leaves_seqE [OF leaves_dump] failed leaves_ret_tidy leaves_undef split: option.splits)
qed

lemma leaves_config: "leaves (tidy True {} {}) (insert_config L run sf) (\<lambda>_. tidy True {} {})"
proof -
  have dump: "leaves (tidy True {} {}) (case pl_dump L js of Inl m \<Rightarrow> throw m | Inr t \<Rightarrow> ret t) (\<lambda>_. tidy True {} {})" for js
    by (simp add: leaves_ret_tidy leaves_throw split: sum.splits)
  have st: "leaves (tidy True {fst res} {}) (if st \<noteq> PGRES_COMMAND_OK then PQresultStatus res else ret st) (\<lambda>_. tidy True {fst res} {})" for res st
    by (rule leaves_if, rule leaves_reads(1), simp, rule leaves_ret_tidy)
  show ?thesis
    unfolding insert_config_def case_prod_beta
    by (rule leaves_bindE [OF leaves_foldE], rule leaves_bindE [OF leaves_json leaves_ret_tidy], rule leaves_bindE [OF dump], rule leaves_query,
        rule leaves_bindE [OF leaves_reads(1)], simp, rule leaves_bindE [OF st], rule leaves_if, rule leaves_fail, rule leaves_clear, simp)
qed

lemma leaves_conditions: "leaves (tidy False {} {}) (insertRunCondition L run conditions) (\<lambda>_. tidy False {} {})"
  unfolding insertRunCondition_def
proof (rule leaves_guarded, goal_cases)
  case 1
  show ?case unfolding if_True by (rule leaves_seqE [OF leaves_forE leaves_ret_weak], rule leaves_config)
next
  case 2
  show ?case unfolding if_False by (rule leaves_throw)
qed

lemma leaves_list:
  assumes "leaves (tidy True {} {}) m (\<lambda>_. tidy False {} {})"
  shows "leaves (tidy False {} {}) (bindE (connected L) (\<lambda>up. if \<not> up then ret [] else m)) (\<lambda>_. tidy False {} {})"
  by (rule leaves_guarded) (simp_all add: assms leaves_ret_tidy)

lemma leaves_select_weak: "leaves (tidy True {} {}) (select_rows L sql failed) (\<lambda>_. tidy False {} {})"
  by (rule leaves_post [OF leaves_select]) (blast intro: tidy_weaken)

lemma leaves_fits: "leaves (tidy up {} {}) (fits_int L t) (\<lambda>_. tidy up {} {})" "leaves (tidy up {} {}) (fits_long L t') (\<lambda>_. tidy up {} {})"
  unfolding fits_int_def fits_long_def by (rule leaves_whenE, rule leaves_throw)+

lemma leaves_clause: "leaves (tidy True {} {}) (run_type_clause L runType) (\<lambda>_. tidy True {} {})"
  unfolding run_type_clause_def
  by (rule leaves_if, rule leaves_ret_tidy, rule leaves_literal, simp only: option.case, rule leaves_throw, simp only: option.case,
      rule leaves_seqE [OF leaves_freemem leaves_ret_tidy], simp)

lemma leaves_lists:
  "leaves (tidy False {} {}) (getRunRecords L startTime endTime queryFilter runType) (\<lambda>_. tidy False {} {})"
  "leaves (tidy False {} {}) (getRunConfigSubsystemInfo L run) (\<lambda>_. tidy False {} {})"
  "leaves (tidy False {} {}) (getRunConditionByID L run) (\<lambda>_. tidy False {} {})"
  unfolding getRunRecords_def getRunConfigSubsystemInfo_def getRunConditionByID_def
  by (rule leaves_list, rule leaves_bindE [OF leaves_clause], rule leaves_seqE [OF leaves_fits(1)], rule leaves_seqE [OF leaves_fits(1)],
      rule leaves_select_weak, rule leaves_list, rule leaves_seqE [OF leaves_fits(2)], rule leaves_select_weak,
      rule leaves_list, rule leaves_seqE [OF leaves_fits(2)], rule leaves_bindE [OF leaves_select], rule leaves_if, rule leaves_throw,
      rule leaves_ret_weak)

lemma leaves_no_value: "leaves (tidy False {} {}) m (\<lambda>_. tidy False {} {}) \<Longrightarrow> leaves (tidy False {} {}) (no_value m) (\<lambda>_. tidy False {} {})"
  unfolding no_value_def by (rule leaves_bindE [OF _ leaves_ret_tidy])

lemma leaves_request: "leaves (tidy False {} {}) (run_request L r) (\<lambda>_. tidy False {} {})"
  by (cases r) (simp_all add: leaves_ret_tidy leaves_update leaves_no_value leaves_claim leaves_conditions leaves_lists)

lemma leaves_destructor: "leaves (tidy False {} {}) DBRunInfo_destructor (\<lambda>_. holding {} {} {})"
  by (auto simp: leaves_def DBRunInfo_destructor_def whenE_def PQfinish_def note_event_def modify_def bindE_def gets_def ret_def tidy_def holding_def)

lemma open_throws: "fst (openDbConnection L s) = Throw m \<Longrightarrow> runInfoDbConn (snd (openDbConnection L s)) = None"
  by (auto simp: openDbConnection_def PQconnectdb_def PQstatus_def PQerrorMessage_def PQfinish_def set_conn_null_def note_event_def
      undefined_behaviour_def bindE_def seqE_def gets_def modify_def throw_def ret_def split: if_splits)

lemma rest_throws:
  "fst (seqE (forE requests (\<lambda>r. tryE (run_request L r) (\<lambda>_. ret ()))) DBRunInfo_destructor s) \<noteq> Throw m"
proof -
  have "fst (forE requests (\<lambda>r. tryE (run_request L r) (\<lambda>_. ret ())) s) \<noteq> Throw m" for s
    unfolding forE_def
    by (induction requests arbitrary: s) (simp_all add: ret_def bindE_cases tryE_cases split: outcome.splits)
  moreover have "fst (DBRunInfo_destructor s) \<noteq> Throw m" for s
    by (simp add: DBRunInfo_destructor_def PQfinish_def note_event_def whenE_def bindE_def gets_def modify_def ret_def)
  ultimately show ?thesis by (auto simp: seqE_def bindE_cases split: outcome.splits)
qed

text \<open>
  C10. Whatever the database answers, and whatever calls the supervisor makes, with or without exceptions: the plugin
  uses no connection, result or escaped text that it does not hold, releases none twice, and when it is destroyed it
  has released all of them. A constructor that throws has released everything, too.
\<close>

theorem handles_released:
  "\<exists>cs rs ls. held_by (ri_hist (snd (plugin_life L requests (new_plugin e)))) = Some (cs, rs, ls)
     \<and> ((cs, rs, ls) = ({}, {}, {}) \<or> fst (plugin_life L requests (new_plugin e)) = Undef)"
proof -
  let ?rest = "seqE (forE requests (\<lambda>r. tryE (run_request L r) (\<lambda>_. ret ()))) DBRunInfo_destructor"
  let ?s = "snd (openDbConnection L (new_plugin e))"
  have new: "tidy False {} {} (new_plugin e)" "runInfoDbConn (new_plugin e) = None"
    by (simp_all add: tidy_def holding_def new_plugin_def)
  have opened: "held_by (ri_hist ?s) \<noteq> None" "fst (openDbConnection L (new_plugin e)) \<noteq> Spin"
    "\<And>a. fst (openDbConnection L (new_plugin e)) = Ret a \<Longrightarrow> tidy True {} {} ?s"
    "\<And>m. fst (openDbConnection L (new_plugin e)) = Throw m \<Longrightarrow> holding {} {} {} ?s"
    using leaves_open [of L] new open_throws [of L "new_plugin e"] by (simp_all add: leaves_def tidy_def) (metis option.set(1))
  have rest: "leaves (tidy True {} {}) ?rest (\<lambda>_. holding {} {} {})"
    by (rule leaves_seqE [OF leaves_tidy_False [OF leaves_forE] leaves_destructor], rule leaves_tryE [OF leaves_request leaves_ret_tidy])
  show ?thesis
  proof (cases "fst (openDbConnection L (new_plugin e))")
    case (Ret a)
    have none: "fst (?rest ?s) \<noteq> Throw m" for m by (rule rest_throws)
    have "plugin_life L requests (new_plugin e) = ?rest ?s"
      unfolding plugin_life_def DBRunInfo_def using Ret by (simp add: seqE_def bindE_cases)
    then show ?thesis using opened(3) [OF Ret] rest none by (cases "fst (?rest ?s)") (auto simp: leaves_def holding_def)
  next
    case (Throw m)
    then show ?thesis using opened(4) unfolding plugin_life_def DBRunInfo_def by (simp add: seqE_def bindE_cases holding_def)
  next
    case Undef
    then show ?thesis using opened(1) unfolding plugin_life_def DBRunInfo_def by (auto simp: seqE_def bindE_cases)
  qed (use opened(2) in simp)
qed

end
