(* ===== verification/Run_Recorded.thy ===== *)
theory Run_Recorded
  imports Run_Handles
begin

section \<open>What the run information plugin records\<close>

text \<open>
  The queries of a history in their order, with what the database answered: what a call of the plugin that returned has
  inserted for a run, and where it inserts less, or more, than it reports.
\<close>

subsection \<open>Queries\<close>

type_synonym query = "string \<times> string list \<times> pg_reply"

fun executed :: "db_event list \<Rightarrow> query list" where
  "executed [] = []"
| "executed (Executed c sql params r reply # h) = executed h @ [(sql, params, reply)]"
| "executed (Connected c i # h) = executed h"
| "executed (Asked x # h) = executed h"
| "executed (Finished x # h) = executed h"
| "executed (Used r # h) = executed h"
| "executed (Cleared r # h) = executed h"
| "executed (Escaped c l t # h) = executed h"
| "executed (Freed l # h) = executed h"
| "executed (Dumped a p t # h) = executed h"

definition seen :: "'e run_info \<Rightarrow> query list \<times> nat option" where
  "seen s = (executed (ri_hist s), runInfoDbConn s)"

text \<open>\<open>blind\<close>: an effect that does no query and keeps the connection.\<close>

definition blind :: "('e, 'a) db_eff \<Rightarrow> bool" where
  "blind m \<longleftrightarrow> (\<forall>x. keeps (\<lambda>s. seen s = x) m)"

lemma blindD: "blind m \<Longrightarrow> m s = (r, s') \<Longrightarrow> seen s' = seen s"
  unfolding blind_def keeps_def by (metis snd_conv)

lemma blind_intros:
  "blind (ret a)" "blind (throw e)" "blind undefined_behaviour" "blind (gets f)" "blind (at xs i)"
  "blind m \<Longrightarrow> (\<And>a. blind (k a)) \<Longrightarrow> blind (bindE m k)"
  "blind m' \<Longrightarrow> blind k' \<Longrightarrow> blind (seqE m' k')"
  "(\<And>x acc. blind (f' x acc)) \<Longrightarrow> blind (foldE f' ys acc')"
  unfolding blind_def by (auto intro!: inv_intros)

lemma blind_if: "(b \<Longrightarrow> blind m) \<Longrightarrow> (\<not> b \<Longrightarrow> blind m') \<Longrightarrow> blind (if b then m else m')"
  by simp

lemma blind_whenE: "(b \<Longrightarrow> blind m) \<Longrightarrow> blind (whenE b m)"
  by (simp add: whenE_def blind_intros)

lemma blind_note: "(\<And>h. executed (ev # h) = executed h) \<Longrightarrow> blind (note_event ev)"
  unfolding blind_def keeps_def by (simp add: note_event_def modify_def seen_def)

lemma blind_use: "blind (use_result res f)"
  unfolding use_result_def by (intro blind_intros blind_note) simp

lemma blind_calls:
  "blind (PQstatus L)" "blind (PQerrorMessage L)" "blind (PQclear res)" "blind (PQfreemem l)" "blind (dump_file L app path t)"
  "blind (PQresultStatus res)" "blind (PQresultErrorMessage res)" "blind (PQntuples res)" "blind (PQnfields res)"
  "blind (PQgetvalue res i j)" "blind (PQescapeLiteral L t)"
proof -
  show "blind (PQstatus L)" "blind (PQerrorMessage L)" "blind (PQclear res)" "blind (PQfreemem l)"
    unfolding PQstatus_def PQerrorMessage_def PQclear_def PQfreemem_def by (intro blind_intros blind_note; simp)+
  show "blind (PQresultStatus res)" "blind (PQresultErrorMessage res)" "blind (PQntuples res)" "blind (PQnfields res)" "blind (PQgetvalue res i j)"
    unfolding PQresultStatus_def PQresultErrorMessage_def PQntuples_def PQnfields_def PQgetvalue_def by (intro blind_intros blind_use)+
  show "blind (dump_file L app path t)" "blind (PQescapeLiteral L t)"
    by (simp_all add: blind_def keeps_def dump_file_def PQescapeLiteral_def modify_def seen_def bindE_def gets_def undefined_behaviour_def
        split: option.splits prod.splits)
qed

lemma exec_Ret:
  "PQexecParams L sql params s = (Ret res, s') \<Longrightarrow> seen s' = (executed (ri_hist s) @ [(sql, params, snd res)], runInfoDbConn s)"
  by (auto simp: PQexecParams_def bindE_def gets_def undefined_behaviour_def seen_def split: option.splits prod.splits)

lemma exec_Ret': "PQexec L sql s = (Ret res, s') \<Longrightarrow> seen s' = (executed (ri_hist s) @ [(sql, [], snd res)], runInfoDbConn s)"
  unfolding PQexec_def by (rule exec_Ret)

lemma use_Ret: "use_result res f s = (Ret a, s') \<Longrightarrow> a = f (snd res) \<and> seen s' = seen s"
  by (auto simp: use_result_def seqE_def bindE_def note_event_def modify_def ret_def seen_def)

lemma read_Ret:
  "PQresultStatus res s = (Ret st, s') \<Longrightarrow> st = pg_status (snd res) \<and> seen s' = seen s"
  "PQntuples res s = (Ret n, s') \<Longrightarrow> n = length (pg_rows (snd res)) \<and> seen s' = seen s"
  unfolding PQresultStatus_def PQntuples_def by (rule use_Ret, assumption)+

lemma at_Ret: "at xs i s = (Ret a, s') \<Longrightarrow> i < length xs \<and> a = xs ! i \<and> s' = s"
  by (simp add: at_def ret_def undefined_behaviour_def split: if_splits)

lemma getvalue_Ret:
  "PQgetvalue res i j s = (Ret v, s') \<Longrightarrow>
   i < length (pg_rows (snd res)) \<and> j < length (pg_rows (snd res) ! i) \<and> v = pg_rows (snd res) ! i ! j \<and> seen s' = seen s"
  unfolding PQgetvalue_def bindE_Ret by (auto dest!: use_Ret at_Ret)

lemma atoi_Ret: "atoi t s = (Ret k, s') \<Longrightarrow> k = atoi_value t \<and> s' = s"
  by (simp add: atoi_def ret_def undefined_behaviour_def split: if_splits)

lemma fail_Ret: "fail_with before res after s \<noteq> (Ret a, s')"
  by (auto simp: fail_with_def bindE_Ret seqE_def throw_def)

lemma fail_if_Ret: "(if st \<noteq> c then fail_with before res after else m) s = (Ret x, s') \<longleftrightarrow> st = c \<and> m s = (Ret x, s')"
  using fail_Ret [of before res after s x s'] by auto

lemma ret_Ret: "ret a s = (Ret b, s') \<longleftrightarrow> b = a \<and> s' = s"
  by (auto simp: ret_def)

text \<open>After the check of the connection, the operation goes on exactly if there is one.\<close>

lemma connected_Ret:
  assumes "connected L s = (Ret up, s')"
  shows "executed (ri_hist s') = executed (ri_hist s) \<and> (up \<longleftrightarrow> runInfoDbConn s' \<noteq> None)"
proof -
  obtain b where c: "checkAndReconnectDb L s = (Ret b, s')" and up: "up \<longleftrightarrow> runInfoDbConn s' \<noteq> None \<and> b"
    using assms unfolding connected_def bindE_Ret by (auto simp: gets_def ret_def)
  have "executed (ri_hist s') = executed (ri_hist s) \<and> (b \<or> runInfoDbConn s' = None)"
    using c by (auto simp: checkAndReconnectDb_def openDbConnection_def PQconnectdb_def PQstatus_def PQerrorMessage_def PQfinish_def
        set_conn_null_def note_event_def undefined_behaviour_def bindE_def seqE_def gets_def modify_def throw_def ret_def split: if_splits)
  then show ?thesis using up by auto
qed

subsection \<open>Transitions\<close>

text \<open>The numbers of the transitions are the ones the lists of runs are made from.\<close>

definition transition_id :: "RunTransitionType \<Rightarrow> nat option" where
  "transition_id ty =
     (case ty of HALT \<Rightarrow> Some 0 | STOP \<Rightarrow> Some 1 | ERROR \<Rightarrow> Some 2 | PAUSE \<Rightarrow> Some 3 | RESUME \<Rightarrow> Some 4 | START \<Rightarrow> Some 5
      | STOP_COMPLETE \<Rightarrow> Some 6 | HALT_COMPLETE \<Rightarrow> Some 7 | OTHER_TRANSITION _ \<Rightarrow> None)"

lemma type_info_Ret: "getTransitionTypeInfo ty s = (Ret (i, d), s') \<Longrightarrow> transition_id ty = Some i \<and> s' = s"
  by (cases ty) (simp_all add: transition_id_def ret_def throw_def)

text \<open>\<open>escape_of L t q\<close>: \<open>q\<close> is what the library gives for \<open>t\<close> as a literal.\<close>

definition escape_of :: "('e, 'j) pglib \<Rightarrow> string \<Rightarrow> string \<Rightarrow> bool" where
  "escape_of L t q \<longleftrightarrow> (\<exists>c e. fst (pl_escape L c t e) = Some q)"

lemma escape_Ret: "PQescapeLiteral L t s = (Ret (Some l), s') \<Longrightarrow> escape_of L t (snd l)"
  unfolding escape_of_def
  by (auto simp: PQescapeLiteral_def bindE_def gets_def undefined_behaviour_def split: option.splits prod.splits) (metis fst_conv)

lemma end_Ret:
  assumes "record_end L run comment metadata s = (Ret x, s')"
  shows "\<exists>q reply. seen s' = (executed (ri_hist s) @ [(end_sql L run q (discardRun L metadata), [], reply)], runInfoDbConn s)
    \<and> escape_of L comment q \<and> pg_status reply = PGRES_COMMAND_OK"
proof -
  obtain l s1 res s2 s3 st s4 where
    1: "PQescapeLiteral L comment s = (Ret (Some l), s1)" "PQexec L (end_sql L run (snd l) (discardRun L metadata)) s1 = (Ret res, s2)"
      "PQfreemem l s2 = (Ret (), s3)" "PQresultStatus res s3 = (Ret st, s4)"
    and st: "st = PGRES_COMMAND_OK" and c: "PQclear res s4 = (Ret x, s')"
    using assms unfolding record_end_def bindE_Ret by (auto simp: throw_def bindE_Ret seqE_Ret fail_if_Ret split: option.splits)
  note e = exec_Ret' [OF 1(2)] blindD [OF blind_calls(11) 1(1)] blindD [OF blind_calls(4) 1(3)] read_Ret(1) [OF 1(4)] blindD [OF blind_calls(3) c]
  show ?thesis
    by (rule exI [of _ "snd l"], rule exI [of _ "snd res"]) (use e st escape_Ret [OF 1(1)] in \<open>simp add: seen_def\<close>)
qed

lemma recorded_Ret:
  assumes "(bindE (getTransitionTypeInfo ty) (\<lambda>(typeId, description).
        bindE (PQexec L (transition_sql L run typeId)) (\<lambda>res.
        bindE (PQresultStatus res) (\<lambda>st.
        if st \<noteq> PGRES_COMMAND_OK then fail_with (before description) res endl
        else seqE (PQclear res) (whenE (typeId = 1) (record_end L run comment metadata)))))) s = (Ret x, s')"
  shows "\<exists>i reply more. transition_id ty = Some i \<and> pg_status reply = PGRES_COMMAND_OK
    \<and> seen s' = (executed (ri_hist s) @ (transition_sql L run i, [], reply) # more, runInfoDbConn s)
    \<and> (if ty = STOP then \<exists>q r. more = [(end_sql L run q (discardRun L metadata), [], r)] \<and> escape_of L comment q \<and> pg_status r = PGRES_COMMAND_OK else more = [])"
proof -
  obtain i d s1 res s2 st s3 where
    1: "getTransitionTypeInfo ty s = (Ret (i, d), s1)" "PQexec L (transition_sql L run i) s1 = (Ret res, s2)" "PQresultStatus res s2 = (Ret st, s3)"
    and 2: "(if st \<noteq> PGRES_COMMAND_OK then fail_with (before d) res endl
        else seqE (PQclear res) (whenE (i = 1) (record_end L run comment metadata))) s3 = (Ret x, s')"
    using assms unfolding bindE_Ret case_prod_beta by (elim exE conjE) (rule that; simp)
  obtain s4 where st: "st = PGRES_COMMAND_OK" and 3: "PQclear res s3 = (Ret (), s4)" and 4: "whenE (i = 1) (record_end L run comment metadata) s4 = (Ret x, s')"
    using 2 unfolding fail_if_Ret seqE_Ret by blast
  have i: "transition_id ty = Some i" and s1: "s1 = s" using type_info_Ret [OF 1(1)] by simp_all
  have stop: "i = 1 \<longleftrightarrow> ty = STOP" using i by (cases ty) (auto simp: transition_id_def)
  note e = exec_Ret' [OF 1(2)] read_Ret(1) [OF 1(3)] blindD [OF blind_calls(3) 3]
  have s4: "seen s4 = (executed (ri_hist s) @ [(transition_sql L run i, [], snd res)], runInfoDbConn s)" using e s1 by (simp add: seen_def)
  show ?thesis
  proof (cases "ty = STOP")
    case True
    obtain q r where "seen s' = (executed (ri_hist s4) @ [(end_sql L run q (discardRun L metadata), [], r)], runInfoDbConn s4)"
      "escape_of L comment q" "pg_status r = PGRES_COMMAND_OK"
      using end_Ret [of L run comment metadata s4 x s'] 4 True stop by (auto simp: whenE_def)
    then show ?thesis using i st e True s4 by (intro exI [of _ i] exI [of _ "snd res"]) (simp add: seen_def, blast)
  next
    case False
    then have "s' = s4" using 4 stop by (simp add: whenE_def ret_def)
    then show ?thesis using i st e False s4 by (intro exI [of _ i] exI [of _ "snd res"]) (simp add: seen_def)
  qed
qed

lemma if_throw_Ret: "(if b then throw m else ret a) s = (Ret x, s') \<longleftrightarrow> \<not> b \<and> x = a \<and> s' = s"
  by (auto simp: throw_def ret_def)

lemma update_Ret:
  assumes "updateRunInfo L run ty comment metadata s = (Ret x, s')"
  shows "run \<noteq> no_run_number \<and>
    (if runInfoDbConn s' = None then executed (ri_hist s') = executed (ri_hist s)
     else \<exists>i reply more. transition_id ty = Some i \<and> pg_status reply = PGRES_COMMAND_OK
       \<and> executed (ri_hist s') = executed (ri_hist s) @ (transition_sql L run i, [], reply) # more
       \<and> (if ty = STOP then \<exists>q r. more = [(end_sql L run q (discardRun L metadata), [], r)] \<and> escape_of L comment q \<and> pg_status r = PGRES_COMMAND_OK else more = []))"
proof -
  obtain up s1 y s2 where c: "connected L s = (Ret up, s1)"
    and u: "whenE up (bindE (getTransitionTypeInfo ty) (\<lambda>(typeId, description).
        bindE (PQexec L (transition_sql L run typeId)) (\<lambda>res.
        bindE (PQresultStatus res) (\<lambda>st.
        if st \<noteq> PGRES_COMMAND_OK
        then fail_with (''INSERT '' @ pl_sanitize L (in_quotes description) @ '' TRANSITION INTO DATABASE TABLE FAILED!!! PQ ERROR: '') res endl
        else seqE (PQclear res) (whenE (typeId = 1) (record_end L run comment metadata)))))) s1 = (Ret y, s2)"
    and l: "run \<noteq> no_run_number" "s' = s2"
    using assms unfolding updateRunInfo_def bindE_Ret seqE_Ret if_throw_Ret by (elim exE conjE) (rule that)
  note C = connected_Ret [OF c]
  show ?thesis
  proof (cases up)
    case True
    then have up: "up = True" by simp
    from recorded_Ret [OF u [unfolded up whenE_True]] obtain i reply more where
      "transition_id ty = Some i" "pg_status reply = PGRES_COMMAND_OK"
      "seen s2 = (executed (ri_hist s1) @ (transition_sql L run i, [], reply) # more, runInfoDbConn s1)"
      "if ty = STOP then \<exists>q r. more = [(end_sql L run q (discardRun L metadata), [], r)] \<and> escape_of L comment q \<and> pg_status r = PGRES_COMMAND_OK else more = []"
      by blast
    then show ?thesis using C True l by (simp add: seen_def)
  next
    case False
    then show ?thesis using C u l by (simp add: whenE_def ret_def)
  qed
qed

text \<open>
  A transition that was recorded without an exception is in the database under its own number, for a stop together
  with the comment and the discard flag, and nothing else was written. The exception is a database that is lost for the
  second time while the plugin reconnects: then nothing is recorded and no error is reported.
\<close>

theorem transition_recorded:
  assumes "updateRunInfo L run ty comment metadata s = (Ret x, s')"
  shows "run \<noteq> no_run_number \<and>
    (if runInfoDbConn s' = None then executed (ri_hist s') = executed (ri_hist s)
     else \<exists>i reply more. transition_id ty = Some i \<and> pg_status reply = PGRES_COMMAND_OK
       \<and> executed (ri_hist s') = executed (ri_hist s) @ (transition_sql L run i, [], reply) # more
       \<and> (if ty = STOP then \<exists>q r. more = [(end_sql L run q (discardRun L metadata), [], r)] \<and> escape_of L comment q \<and> pg_status r = PGRES_COMMAND_OK else more = []))"
  by (rule update_Ret [OF assms])

subsection \<open>Run numbers\<close>

lemma type_id_Ret:
  assumes "run_type_id L alias_name machine s = (Ret ty, s')"
  shows "\<exists>reply. seen s' = (executed (ri_hist s) @ [(type_sql L alias_name, [], reply)], runInfoDbConn s)
    \<and> pg_status reply = PGRES_TUPLES_OK \<and> (\<exists>row. pg_rows reply = [row] \<and> row \<noteq> [] \<and> ty = atoi_value (hd row))"
proof -
  have unknown: "unknown_type L alias_name machine res t \<noteq> (Ret a, t')" for res t a t'
    by (auto simp: unknown_type_def bindE_Ret seqE_Ret throw_def)
  obtain res s1 s2 n s3 where
    1: "PQexec L (type_sql L alias_name) s = (Ret res, s1)" "PQresultStatus res s1 = (Ret PGRES_TUPLES_OK, s2)" "PQntuples res s2 = (Ret n, s3)"
    and 2: "(if n = 1 then bindE (PQgetvalue res 0 0) (\<lambda>v. bindE (atoi v) (\<lambda>ty. seqE (PQclear res) (ret ty)))
       else unknown_type L alias_name machine res) s3 = (Ret ty, s')"
    using assms unfolding run_type_id_def bindE_Ret fail_if_Ret by blast
  have n: "n = 1" using 2 unknown [of res s3 ty s'] by (auto split: if_splits)
  obtain v s4 s5 s6 where
    3: "PQgetvalue res 0 0 s3 = (Ret v, s4)" "atoi v s4 = (Ret ty, s5)" "PQclear res s5 = (Ret (), s6)" and s': "s' = s6"
    using 2 n by (auto simp: bindE_Ret seqE_Ret ret_def)
  note e = exec_Ret' [OF 1(1)] read_Ret(1) [OF 1(2)] read_Ret(2) [OF 1(3)] getvalue_Ret [OF 3(1)] atoi_Ret [OF 3(2)] blindD [OF blind_calls(3) 3(3)]
  obtain row where "pg_rows (snd res) = [row]" using e n by (metis length_0_conv length_Suc_conv One_nat_def)
  then show ?thesis using e n s' by (intro exI [of _ "snd res"]) (auto simp: seen_def hd_conv_nth)
qed

lemma insert_run_Ret:
  assumes "insert_run L comment ty s = (Ret run, s')"
  shows "\<exists>reply. seen s' = (executed (ri_hist s) @ [(run_sql L comment ty, [], reply)], runInfoDbConn s)
    \<and> pg_status reply = PGRES_TUPLES_OK \<and> (\<exists>row. pg_rows reply = [row] \<and> row \<noteq> [] \<and> run = word_of_int (atoi_value (hd row)))"
proof -
  obtain res s1 s2 n s3 where
    1: "PQexec L (run_sql L comment ty) s = (Ret res, s1)" "PQresultStatus res s1 = (Ret PGRES_TUPLES_OK, s2)" "PQntuples res s2 = (Ret n, s3)"
    and 2: "(if n = 1 then bindE (PQgetvalue res 0 0) (\<lambda>v. bindE (atoi v) (\<lambda>k. seqE (PQclear res) (ret (word_of_int k))))
       else fail_with (''RETRIEVE RUN NUMBER FROM '' @ in_quotes ''run'' @ '' DATABASE TABLE '' @ ''FAILED!!! PQ ERROR: '') res endl) s3 = (Ret run, s')"
    using assms unfolding insert_run_def bindE_Ret fail_if_Ret by blast
  have n: "n = 1" using 2 fail_Ret [of _ res endl s3 run s'] by (auto split: if_splits)
  obtain v s4 k s5 s6 where
    3: "PQgetvalue res 0 0 s3 = (Ret v, s4)" "atoi v s4 = (Ret k, s5)" "PQclear res s5 = (Ret (), s6)" and s': "s' = s6" "run = word_of_int k"
    using 2 n by (auto simp: bindE_Ret seqE_Ret ret_def)
  note e = exec_Ret' [OF 1(1)] read_Ret(1) [OF 1(2)] read_Ret(2) [OF 1(3)] getvalue_Ret [OF 3(1)] atoi_Ret [OF 3(2)] blindD [OF blind_calls(3) 3(3)]
  obtain row where "pg_rows (snd res) = [row]" using e n by (metis length_0_conv length_Suc_conv One_nat_def)
  then show ?thesis using e n s' by (intro exI [of _ "snd res"]) (auto simp: seen_def hd_conv_nth)
qed

text \<open>
  C11. A run number that was claimed is the one the database gave to the row inserted for the comment and the type of
  the run, which is the only type of that name, and the start of exactly this run is recorded after it. The one
  exception is a database that is lost before the start is recorded: then the number is claimed without a start.
\<close>

theorem claimed_run_recorded:
  assumes "claimNextRunNumber L comment s = (Ret run, s')"
  shows "\<exists>alias_name types trow runs rrow more. pl_expand L ''${OTS.ActiveStateMachine.runAlias}'' = Inr alias_name
    \<and> pg_status types = PGRES_TUPLES_OK \<and> pg_rows types = [trow] \<and> trow \<noteq> []
    \<and> pg_status runs = PGRES_TUPLES_OK \<and> pg_rows runs = [rrow] \<and> rrow \<noteq> []
    \<and> run = word_of_int (atoi_value (hd rrow)) \<and> run \<noteq> no_run_number
    \<and> executed (ri_hist s') = executed (ri_hist s) @ [(type_sql L (pl_sanitize L alias_name), [], types),
         (run_sql L (pl_sanitize L comment) (atoi_value (hd trow)), [], runs)] @ more
    \<and> (if runInfoDbConn s' = None then more = []
       else \<exists>start. more = [(transition_sql L run 5, [], start)] \<and> pg_status start = PGRES_COMMAND_OK)"
proof -
  obtain up s1 run' s2 where c: "connected L s = (Ret up, s1)"
    and m: "(if up then bindE (expand L ''${OTS.ActiveStateMachine.runAlias}'') (\<lambda>alias_name.
            bindE (run_type_id L (pl_sanitize L alias_name) (pl_sanitize L (pl_machine L))) (\<lambda>ty.
            bindE (insert_run L (pl_sanitize L comment) ty) (\<lambda>run.
            seqE (updateRunInfo L run START comment []) (ret run))))
       else ret no_run_number) s1 = (Ret run', s2)"
    and l: "run' \<noteq> no_run_number" "run = run'" "s' = s2"
    using assms unfolding claimNextRunNumber_def bindE_Ret if_throw_Ret by blast
  have "up" using m l by (auto simp: ret_def split: if_splits)
  with m obtain alias_name s3 ty s4 s5 s6 where
    e: "expand L ''${OTS.ActiveStateMachine.runAlias}'' s1 = (Ret alias_name, s3)" and
    t: "run_type_id L (pl_sanitize L alias_name) (pl_sanitize L (pl_machine L)) s3 = (Ret ty, s4)" and
    r: "insert_run L (pl_sanitize L comment) ty s4 = (Ret run, s5)" and
    u: "updateRunInfo L run START comment [] s5 = (Ret (), s6)" and s': "s' = s6"
    using l by (auto simp: bindE_Ret seqE_Ret ret_def)
  have ex: "pl_expand L ''${OTS.ActiveStateMachine.runAlias}'' = Inr alias_name" "s3 = s1"
    using e by (auto simp: expand_def throw_def ret_def split: sum.splits)
  obtain types trow where T: "seen s4 = (executed (ri_hist s3) @ [(type_sql L (pl_sanitize L alias_name), [], types)], runInfoDbConn s3)"
    "pg_status types = PGRES_TUPLES_OK" "pg_rows types = [trow]" "trow \<noteq> []" "ty = atoi_value (hd trow)"
    using type_id_Ret [OF t] by blast
  obtain runs rrow where R: "seen s5 = (executed (ri_hist s4) @ [(run_sql L (pl_sanitize L comment) ty, [], runs)], runInfoDbConn s4)"
    "pg_status runs = PGRES_TUPLES_OK" "pg_rows runs = [rrow]" "rrow \<noteq> []" "run = word_of_int (atoi_value (hd rrow))"
    using insert_run_Ret [OF r] by blast
  obtain more where M: "executed (ri_hist s6) = executed (ri_hist s5) @ more"
    "if runInfoDbConn s6 = None then more = [] else \<exists>start. more = [(transition_sql L run 5, [], start)] \<and> pg_status start = PGRES_COMMAND_OK"
    using update_Ret [OF u] by (auto simp: transition_id_def split: if_splits)
  show ?thesis
    using ex connected_Ret [OF c] T R M l s'
    by (intro exI [of _ alias_name] exI [of _ types] exI [of _ trow] exI [of _ runs] exI [of _ rrow] exI [of _ more]) (simp add: seen_def)
qed

subsection \<open>The configurations of the subsystems\<close>

lemma blind_json: "blind (json_field L subsystem fv)"
proof -
  have "blind (safe_name field)" for field :: string by (simp add: safe_name_def blind_intros)
  then have "blind (parse_failed L subsystem field v)" for field v
    unfolding parse_failed_def Let_def by (intro blind_intros blind_calls)
  then show ?thesis
    unfolding json_field_def case_prod_beta
    by (auto intro!: blind_if blind_intros blind_calls split: option.splits)
qed

text \<open>The members of the JSON object of a subsystem: every field in its order, parsed if it looks like JSON.\<close>

definition member_of :: "('e, 'j) pglib \<Rightarrow> string \<times> string \<Rightarrow> string \<times> ('j + string) \<Rightarrow> bool" where
  "member_of L fv j \<longleftrightarrow> fst j = fst fv
     \<and> (case snd j of Inl t \<Rightarrow> is_json (snd fv) \<and> pl_parse L (snd fv) = Some t | Inr v \<Rightarrow> \<not> is_json (snd fv) \<and> v = snd fv)"

lemma json_Ret: "json_field L subsystem fv s = (Ret j, s') \<Longrightarrow> member_of L fv j"
  by (auto simp: json_field_def member_of_def seqE_Ret parse_failed_def bindE_Ret Let_def throw_def ret_def undefined_behaviour_def
      split: if_splits option.splits prod.splits)

lemma members_Ret:
  "foldE (\<lambda>fv js. bindE (json_field L subsystem fv) (\<lambda>j. ret (js @ [j]))) fvs acc s = (Ret js, s') \<Longrightarrow>
   \<exists>new. js = acc @ new \<and> list_all2 (member_of L) fvs new \<and> seen s' = seen s"
proof (induction fvs arbitrary: acc s)
  case (Cons fv fvs)
  from Cons.prems obtain j s1 where j: "json_field L subsystem fv s = (Ret j, s1)"
    and f: "foldE (\<lambda>fv js. bindE (json_field L subsystem fv) (\<lambda>j. ret (js @ [j]))) fvs (acc @ [j]) s1 = (Ret js, s')"
    by (auto simp: bindE_Ret ret_Ret)
  from Cons.IH [OF f] obtain new where "js = (acc @ [j]) @ new" "list_all2 (member_of L) fvs new" "seen s' = seen s1" by blast
  then show ?case using json_Ret [OF j] blindD [OF blind_json j] by (intro exI [of _ "j # new"]) simp
qed (auto simp: ret_def)

text \<open>The query that inserts a subsystem.\<close>

definition config_row :: "('e, 'j) pglib \<Rightarrow> u32 \<Rightarrow> string \<times> (string \<times> string) list \<Rightarrow> query \<Rightarrow> bool" where
  "config_row L run sf q \<longleftrightarrow>
     (\<exists>js settings reply. list_all2 (member_of L) (snd sf) js \<and> pl_dump L js = Inr settings
       \<and> q = (config_sql L, config_params run (fst sf) settings, reply) \<and> pg_status reply \<in> {PGRES_COMMAND_OK, PGRES_TUPLES_OK})"

lemma config_Ret:
  assumes "insert_config L run sf s = (Ret x, s')"
  shows "\<exists>q. config_row L run sf q \<and> seen s' = (executed (ri_hist s) @ [q], runInfoDbConn s)"
proof -
  obtain js s1 settings s2 res s3 st s4 st' s5 where
    f: "foldE (\<lambda>fv js. bindE (json_field L (fst sf) fv) (\<lambda>j. ret (js @ [j]))) (snd sf) [] s = (Ret js, s1)" and
    d: "(case pl_dump L js of Inl m \<Rightarrow> throw m | Inr t \<Rightarrow> ret t) s1 = (Ret settings, s2)" and
    e: "PQexecParams L (config_sql L) (config_params run (fst sf) settings) s2 = (Ret res, s3)" and
    t: "PQresultStatus res s3 = (Ret st, s4)" "(if st \<noteq> PGRES_COMMAND_OK then PQresultStatus res else ret st) s4 = (Ret st', s5)" and
    l: "(if st' \<noteq> PGRES_COMMAND_OK \<and> st' \<noteq> PGRES_TUPLES_OK
         then fail_with (''INSERT INTO '' @ in_quotes ''config'' @ '' DATABASE TABLE FAILED!!! PQ ERROR: '' @ endl) res
             (endl @ ''Subsystem: '' @ fst sf @ endl @ ''SQL: '' @ config_sql L @ endl)
         else PQclear res) s5 = (Ret x, s')"
    using assms unfolding insert_config_def case_prod_beta bindE_Ret by (elim exE conjE) (rule that; assumption)
  obtain new where js: "js = new" "list_all2 (member_of L) (snd sf) new" "seen s1 = seen s" using members_Ret [OF f] by auto
  have d': "pl_dump L js = Inr settings" "s2 = s1" using d by (auto simp: throw_def ret_def split: sum.splits)
  have st: "st' = pg_status (snd res)" "seen s5 = seen s3"
    using read_Ret(1) [OF t(1)] t(2) read_Ret(1) [of res s4 st' s5] by (auto simp: ret_def split: if_splits)
  have ok: "st' = PGRES_COMMAND_OK \<or> st' = PGRES_TUPLES_OK" and c: "PQclear res s5 = (Ret x, s')"
    using l fail_Ret [of _ res _ s5 x s'] by (auto split: if_splits)
  show ?thesis
    using js d' st ok exec_Ret [OF e] blindD [OF blind_calls(3) c]
    by (intro exI [of _ "(config_sql L, config_params run (fst sf) settings, snd res)"]) (auto simp: config_row_def seen_def)
qed

lemma configs_Ret:
  "forE conditions (insert_config L run) s = (Ret x, s') \<Longrightarrow>
   \<exists>qs. list_all2 (config_row L run) conditions qs \<and> seen s' = (executed (ri_hist s) @ qs, runInfoDbConn s)"
  unfolding forE_def
proof (induction conditions arbitrary: s)
  case (Cons sf conditions)
  from Cons.prems obtain s1 where c: "insert_config L run sf s = (Ret (), s1)"
    and f: "foldE (\<lambda>x _. insert_config L run x) conditions () s1 = (Ret x, s')"
    by (auto simp: bindE_Ret)
  obtain q where q: "config_row L run sf q" "seen s1 = (executed (ri_hist s) @ [q], runInfoDbConn s)" using config_Ret [OF c] by blast
  obtain qs where "list_all2 (config_row L run) conditions qs" "seen s' = (executed (ri_hist s1) @ qs, runInfoDbConn s1)"
    using Cons.IH [OF f] by blast
  then show ?case using q by (intro exI [of _ "q # qs"]) (simp add: seen_def)
qed (auto simp: ret_def seen_def)

text \<open>
  C36. When the configurations of a run were recorded, every subsystem has exactly one row, in the order of their names,
  with the number of the run and a JSON object of all its fields, those that look like JSON parsed, and the database has
  accepted each; the number returned is that of the run.
\<close>

theorem conditions_recorded:
  assumes "insertRunCondition L run conditions s = (Ret n, s')"
  shows "n = run \<and> (\<exists>qs. list_all2 (config_row L run) conditions qs \<and> executed (ri_hist s') = executed (ri_hist s) @ qs)"
proof -
  obtain up s1 where c: "connected L s = (Ret up, s1)"
    and m: "(if up then seqE (forE conditions (insert_config L run)) (ret run)
       else throw (''Impossible condition_id not defined by run info plugin!'' @ endl)) s1 = (Ret n, s')"
    using assms unfolding insertRunCondition_def bindE_Ret by blast
  then have "up" by (auto simp: throw_def split: if_splits)
  with m obtain s2 where f: "forE conditions (insert_config L run) s1 = (Ret (), s2)" and r: "ret run s2 = (Ret n, s')"
    by (auto simp: seqE_Ret)
  then show ?thesis using configs_Ret [OF f] connected_Ret [OF c] by (auto simp: ret_def seen_def)
qed

subsection \<open>A database\<close>

text \<open>It answers its first two queries with a row and accepts the others, or with \<open>broken\<close> rejects them.\<close>

definition demo_reply :: "bool \<Rightarrow> nat \<Rightarrow> pg_reply" where
  "demo_reply broken k =
     \<lparr>pg_status = (if k < 2 then PGRES_TUPLES_OK else if broken then PGRES_OTHER else PGRES_COMMAND_OK), pg_error = ''rejected'',
      pg_nfields = 1, pg_rows = (if k = 0 then [[''3'']] else if k = 1 then [[''1042'']] else [])\<rparr>"

definition demo_db :: "bool \<Rightarrow> (nat, unit) pglib" where
  "demo_db broken =
     \<lparr>pl_getenv = (\<lambda>n. if n = ''OTS_SCRATCH'' then Some ''/scratch'' else None), pl_connect = (\<lambda>_ e. e), pl_status = (\<lambda>_ _. CONNECTION_OK),
      pl_conn_error = (\<lambda>_ _. []), pl_exec = (\<lambda>_ _ _ e. (demo_reply broken e, Suc e)), pl_escape = (\<lambda>_ t e. (Some (in_quotes t), e)),
      pl_sanitize = (\<lambda>t. t), pl_expand = (\<lambda>_. Inr ''Physics''), pl_machine = ''Main'', pl_parse = (\<lambda>t. if t = ''{}'' then Some () else None),
      pl_contains = (\<lambda>_ _. False), pl_flag = (\<lambda>_ _. None), pl_dump = (\<lambda>_. Inr ''{}''), pl_write = (\<lambda>_ _ _ e. e), pl_cast_error = []\<rparr>"

definition demo_plugin :: "nat \<Rightarrow> nat run_info" where
  "demo_plugin e = \<lparr>ri_env = e, ri_conns = 1, ri_results = 0, ri_literals = 0, runInfoDbConn = Some 0, ri_hist = [Connected 0 []]\<rparr>"

lemmas db_simps = PQstatus_def PQerrorMessage_def PQexec_def PQexecParams_def PQclear_def PQfreemem_def PQescapeLiteral_def PQresultStatus_def PQntuples_def PQgetvalue_def
  PQresultErrorMessage_def use_result_def note_event_def dump_file_def fail_with_def at_def

lemma demo_numbers: "atoi_value ''3'' = 3" "atoi_value ''1042'' = 1042"
  by (simp_all add: atoi_value_def decimal_value_def is_space_def)

lemma demo_claims: "\<exists>s'. claimNextRunNumber (demo_db False) ''beam'' (demo_plugin 0) = (Ret 1042, s') \<and> runInfoDbConn s' = Some 0"
  by (simp add: claimNextRunNumber_def connected_def checkAndReconnectDb_def run_type_id_def insert_run_def updateRunInfo_def db_simps eff_simps
      demo_db_def demo_plugin_def demo_reply_def expand_def atoi_def demo_numbers no_run_number_def)

theorem claimed_run_recorded_witness:
  "\<exists>s' :: nat run_info. \<exists>types runs start. runInfoDbConn s' = Some 0
     \<and> executed (ri_hist s') = [(type_sql (demo_db False) ''Physics'', [], types), (run_sql (demo_db False) ''beam'' (atoi_value (hd (hd (pg_rows types)))), [], runs),
         (transition_sql (demo_db False) 1042 5, [], start)]"
proof -
  obtain s' where r: "claimNextRunNumber (demo_db False) ''beam'' (demo_plugin 0) = (Ret 1042, s')" and c: "runInfoDbConn s' = Some 0"
    using demo_claims by blast
  have d: "executed (ri_hist (demo_plugin 0)) = []" "pl_expand (demo_db False) t = Inr ''Physics''" "pl_sanitize (demo_db False) t = t" for t
    by (simp_all add: demo_plugin_def demo_db_def)
  from claimed_run_recorded [OF r] show ?thesis using c unfolding d by fastforce
qed

text \<open>A rejected start leaves the row of the run behind: the two inserts are no transaction.\<close>

theorem run_without_start:
  "\<exists>m s' types runs failed. claimNextRunNumber (demo_db True) ''beam'' (demo_plugin 0) = (Throw m, s')
     \<and> executed (ri_hist s') = [(type_sql (demo_db True) ''Physics'', [], types), (run_sql (demo_db True) ''beam'' 3, [], runs),
         (transition_sql (demo_db True) 1042 5, [], failed)] \<and> pg_status runs = PGRES_TUPLES_OK \<and> pg_status failed = PGRES_OTHER"
  by (simp add: claimNextRunNumber_def connected_def checkAndReconnectDb_def run_type_id_def insert_run_def updateRunInfo_def db_simps eff_simps
      demo_db_def demo_plugin_def demo_reply_def expand_def atoi_def demo_numbers no_run_number_def type_sql_def run_sql_def transition_sql_def dbSchema_def env_or_def)

theorem transition_recorded_witness:
  "\<exists>(s' :: nat run_info) q r reply. runInfoDbConn s' = Some 0
     \<and> executed (ri_hist s') = [(transition_sql (demo_db False) 1042 1, [], reply), (end_sql (demo_db False) 1042 q False, [], r)]
     \<and> escape_of (demo_db False) ''end'' q"
proof -
  have u: "\<exists>s'. updateRunInfo (demo_db False) 1042 STOP ''end'' [] (demo_plugin 2) = (Ret (), s') \<and> runInfoDbConn s' = Some 0"
    by (simp add: connected_def checkAndReconnectDb_def updateRunInfo_def record_end_def db_simps eff_simps
        demo_db_def demo_plugin_def demo_reply_def no_run_number_def)
  then obtain s' where r: "updateRunInfo (demo_db False) 1042 STOP ''end'' [] (demo_plugin 2) = (Ret (), s')" and c: "runInfoDbConn s' = Some 0" by blast
  have d: "executed (ri_hist (demo_plugin 2)) = []" "discardRun (demo_db False) [] = False" "transition_id STOP = Some 1"
    by (simp_all add: demo_plugin_def discardRun_def transition_id_def)
  from transition_recorded [OF r] show ?thesis using c unfolding d by fastforce
qed

theorem conditions_recorded_witness:
  "\<exists>(s' :: nat run_info) q. executed (ri_hist s') = [q]
     \<and> config_row (demo_db False) 1042 (''Gateway'', [(''env'', ''{}''), (''name'', ''x'')]) q"
proof -
  have u: "\<exists>s'. insertRunCondition (demo_db False) 1042 [(''Gateway'', [(''env'', ''{}''), (''name'', ''x'')])] (demo_plugin 2) = (Ret 1042, s')"
    by (simp add: connected_def checkAndReconnectDb_def insertRunCondition_def insert_config_def json_field_def is_json_def forE_def db_simps eff_simps
        demo_db_def demo_plugin_def demo_reply_def)
  then obtain s' where r: "insertRunCondition (demo_db False) 1042 [(''Gateway'', [(''env'', ''{}''), (''name'', ''x'')])] (demo_plugin 2) = (Ret 1042, s')" by blast
  have d: "executed (ri_hist (demo_plugin 2)) = []" by (simp add: demo_plugin_def)
  from conditions_recorded [OF r] show ?thesis unfolding d by (auto simp: list_all2_Cons1)
qed

text \<open>With \<^verbatim>\<open>OTS_SCRATCH\<close> not set, the first field that looks like JSON makes a string from a null pointer.\<close>

theorem scratch_unset_undefined:
  assumes "connected L s = (Ret True, s1)" "pl_getenv L ''OTS_SCRATCH'' = None" "is_json v"
  shows "fst (insertRunCondition L run ((subsystem, (field, v) # fvs) # others) s) = Undef"
  using assms by (simp add: insertRunCondition_def insert_config_def json_field_def forE_def eff_simps)

end
