(* ===== verification/Cfo_Buffer.thy ===== *)
theory Cfo_Buffer
  imports Effects
begin

section \<open>The detached Buffer Test of the CFO\<close>

text \<open>
  The CFO front end (otsdaq-mu2e/FEInterfaces/CFOFrontEndInterfaceImpl.cc, the struct in CFOFrontEndInterface.h) has a
  Buffer Test of its own: a thread reads the records of the event windows from the DMA of the CFO, checks that their
  tags are consecutive, counts them, saves and publishes them. The macro "Buffer Test (detached)" and the run
  transitions start it, ask for a restart and stop it. The CFO library, the files, the clock and the supervisor are the
  record \<open>bt_lib\<close>.
\<close>

subsection \<open>The library and the thread's struct\<close>

record cfo_record =
  cr_tag :: u64
  cr_raw :: "u8 list"

text \<open>
  \<open>bt_size\<close> is \<^verbatim>\<open>sizeof(CFO_EventRecord)\<close>; \<open>bt_getData\<close> gives the result of \<^verbatim>\<open>GetData\<close> and the records, a null pointer
  as \<open>None\<close>; an exception has the message \<open>Inl\<close>. The three texts are the numbers a status computes in \<^verbatim>\<open>double\<close>, from the
  duration in nanoseconds and a count. \<open>bt_runtime\<close> tells the exceptions that are a \<^verbatim>\<open>std::runtime_error\<close>. \<open>bt_others\<close> is
  what other threads do to the struct, at the points where this one lets them.
\<close>

datatype bt_event = Handled cfo_record | Saved string "u8 list" | Launched

record 'e cfo_test =
  cb_env :: 'e
  cb_running :: bool
  cb_exitThread :: bool
  cb_resetStartEventTag :: bool
  cb_thisCFO :: "nat option"
  cb_expectedEventTag :: u64
  cb_nextEventWindowTag :: u64
  cb_saveBinaryData :: bool
  cb_doNotResetCounters :: bool
  cb_subeventsCount :: u64
  cb_mismatchedEventTagsCount :: u64
  cb_mismatchedEventTagJumps :: "(u64 \<times> u64) list"
  cb_totalSubeventBytesTransferred :: u64
  cb_transferStartTime :: "int option"
  cb_transferEndTime :: "int option"
  cb_fp :: "(string \<times> u8 list) option"
  cb_publish :: bool
  cb_error :: string
  cb_hist :: "bt_event list"

record 'e bt_lib =
  bt_size :: nat
  bt_release :: "nat \<Rightarrow> 'e \<Rightarrow> (string + unit) \<times> 'e"
  bt_getData :: "nat \<Rightarrow> 'e \<Rightarrow> (string + bool \<times> cfo_record option list) \<times> 'e"
  bt_spy :: "nat \<Rightarrow> 'e \<Rightarrow> 'e"
  bt_clock :: "'e \<Rightarrow> int \<times> 'e"
  bt_stamp :: "'e \<Rightarrow> (nat \<times> nat) \<times> 'e"
  bt_dataDir :: "'e \<Rightarrow> (string + string) \<times> 'e"
  bt_fopen :: "string \<Rightarrow> 'e \<Rightarrow> bool \<times> 'e"
  bt_fclose :: "'e \<Rightarrow> 'e"
  bt_publishData :: "u8 list \<Rightarrow> 'e \<Rightarrow> (string + unit) \<times> 'e"
  bt_isPublishing :: "'e \<Rightarrow> bool \<times> 'e"
  bt_thisCFO :: nat
  bt_ms_text :: "int \<Rightarrow> string"
  bt_rate_text :: "u64 \<Rightarrow> int \<Rightarrow> string"
  bt_events_text :: "u64 \<Rightarrow> int \<Rightarrow> string"
  bt_runtime :: "string \<Rightarrow> bool"
  bt_others :: "'e cfo_test \<Rightarrow> 'e cfo_test"

type_synonym ('e, 'a) bt_eff = "('e cfo_test, 'a) eff"

definition bt_call :: "('e \<Rightarrow> 'a \<times> 'e) \<Rightarrow> ('e, 'a) bt_eff" where
  "bt_call f s = (case f (cb_env s) of (a, e) \<Rightarrow> (Ret a, s\<lparr>cb_env := e\<rparr>))"

definition bt_try :: "('e \<Rightarrow> (string + 'a) \<times> 'e) \<Rightarrow> ('e, 'a) bt_eff" where
  "bt_try f = bindE (bt_call f) (\<lambda>r. case r of Inl m \<Rightarrow> throw m | Inr a \<Rightarrow> ret a)"

definition on_cfo :: "(nat \<Rightarrow> ('e, 'a) bt_eff) \<Rightarrow> ('e, 'a) bt_eff" where
  "on_cfo f = bindE (gets cb_thisCFO) (\<lambda>p. case p of None \<Rightarrow> undefined_behaviour | Some c \<Rightarrow> f c)"

abbreviation bt_line :: string where
  "bt_line \<equiv> [CHR 0x0A]"

text \<open>The struct as \<^verbatim>\<open>make_shared\<close> makes it, which clears the members without an initial value.\<close>

definition new_test :: "'e \<Rightarrow> 'e cfo_test" where
  "new_test e = \<lparr>cb_env = e, cb_running = False, cb_exitThread = False, cb_resetStartEventTag = False, cb_thisCFO = None,
     cb_expectedEventTag = - 1, cb_nextEventWindowTag = - 1, cb_saveBinaryData = False, cb_doNotResetCounters = False,
     cb_subeventsCount = 0, cb_mismatchedEventTagsCount = 0, cb_mismatchedEventTagJumps = [], cb_totalSubeventBytesTransferred = 0,
     cb_transferStartTime = None, cb_transferEndTime = None, cb_fp = None, cb_publish = False, cb_error = [], cb_hist = []\<rparr>"

subsection \<open>Status\<close>

text \<open>The difference of two time stamps; the earliest one (\<open>None\<close>, for not yet set) minus a later one overflows.\<close>

definition transfer_ns :: "('e, int) bt_eff" where
  "transfer_ns = bindE (gets (\<lambda>s. (cb_transferStartTime s, cb_transferEndTime s))) (\<lambda>x. case x of
     (Some a, Some b) \<Rightarrow> ret (b - a)
   | (None, None) \<Rightarrow> ret 0
   | _ \<Rightarrow> undefined_behaviour)"

definition jump_text :: "nat \<Rightarrow> u64 \<times> u64 \<Rightarrow> string" where
  "jump_text i jump =
     [CHR 0x09, CHR 0x09] @ '' Mismatch Jump-'' @ to_string i @ '' Expected:'' @ to_string (unat (fst jump)) @ ''('' @ hex (fst jump) @ '')''
     @ '' Received:'' @ to_string (unat (snd jump)) @ ''('' @ hex (snd jump) @ '')'' @ bt_line"

definition jumps_text :: "(u64 \<times> u64) list \<Rightarrow> string" where
  "jumps_text jumps =
     (if length jumps < 20
      then [CHR 0x09] @ '' Mismatched Tag Jumps...'' @ bt_line @ concat (map (\<lambda>i. jump_text i (jumps ! i)) [0..<length jumps])
      else [CHR 0x09] @ '' TOO MANY Mismatched Tag Jumps (showing 10)...'' @ bt_line @ concat (map (\<lambda>i. jump_text i (jumps ! i)) [0..<10]))"

definition yes_no :: "bool \<Rightarrow> string" where
  "yes_no b = (if b then ''true'' else ''false'')"

definition cfo_getDetachedBufferTestStatus :: "'e bt_lib \<Rightarrow> ('e, string) bt_eff" where
  "cfo_getDetachedBufferTestStatus B =
     bindE transfer_ns (\<lambda>ns.
     bindE (gets (\<lambda>s.
       (if cb_error s \<noteq> [] then ''Detached thread caught error:'' @ cb_error s @ bt_line else [])
       @ ''Detached thread running:'' @ yes_no (cb_running s) @ bt_line
       @ ''Subevents count:'' @ to_string (unat (cb_subeventsCount s)) @ bt_line
       @ ''Total CFO Subevent Bytes Transferred: '' @ to_string (unat (cb_totalSubeventBytesTransferred s)) @ '' bytes'' @ bt_line
       @ (if ns > 1000
          then ''Data Transfer Duration: '' @ bt_ms_text B ns @ '' ms'' @ bt_line
               @ ''Average Data Rate: '' @ bt_rate_text B (cb_totalSubeventBytesTransferred s) ns @ '' MB/s'' @ bt_line
          else ''Data Transfer Duration too short to establish date rate.'' @ bt_line)
       @ ''Starting Event Window Tag:'' @ to_string (unat (cb_expectedEventTag s)) @ bt_line
       @ ''Next Expected Event Window Tag:'' @ to_string (unat (cb_nextEventWindowTag s)) @ bt_line
       @ (if ns > 1000
          then ''Average Event Rate: '' @ bt_events_text B (cb_nextEventWindowTag s - cb_expectedEventTag s) ns @ '' Events/s'' @ bt_line
          else [])
       @ ''Mismatched Event Tags count:'' @ to_string (unat (cb_mismatchedEventTagsCount s)) @ bt_line
       @ jumps_text (cb_mismatchedEventTagJumps s))) (\<lambda>t.
     bindE (gets cb_error) (\<lambda>e.
     if e \<noteq> [] then throw (''Error identified in the detached buffer status: '' @ t) else ret t)))"

definition cfo_getDetachedBufferTestReceivedCount :: "('e, u64) bt_eff" where
  "cfo_getDetachedBufferTestReceivedCount = gets cb_subeventsCount"

subsection \<open>One record\<close>

definition mismatch_message :: "u64 \<Rightarrow> u64 \<Rightarrow> string" where
  "mismatch_message expected received =
     ''Mismatched event tag. Expected = '' @ to_string (unat expected) @ '' (0x'' @ pad_left 4 (CHR ''0'') (radix_string 16 (unat expected))
     @ ''), Received = '' @ to_string (unat received) @ '' (0x'' @ pad_left 4 (CHR ''0'') (radix_string 16 (unat received)) @ '')''"

definition check_tag :: "u64 \<Rightarrow> ('e, unit) bt_eff" where
  "check_tag tag =
     bindE (gets cb_nextEventWindowTag) (\<lambda>expected.
     whenE (expected \<noteq> tag)
       (seqE (modify (\<lambda>s. s\<lparr>cb_mismatchedEventTagsCount := cb_mismatchedEventTagsCount s + 1,
                            cb_mismatchedEventTagJumps := cb_mismatchedEventTagJumps s @ [(expected, tag)]\<rparr>))
             (throw (mismatch_message expected tag))))"

text \<open>The record is written in words of 4 bytes to the open file, and published as a whole.\<close>

definition write_word :: "u8 list \<Rightarrow> nat \<Rightarrow> ('e, unit) bt_eff" where
  "write_word raw l =
     bindE (gets cb_fp) (\<lambda>f. case f of
       None \<Rightarrow> ret ()
     | Some (name, bytes) \<Rightarrow> bindE (slice raw l 4) (\<lambda>w. modify (\<lambda>s. s\<lparr>cb_fp := Some (name, bytes @ w)\<rparr>)))"

definition publish_record :: "'e bt_lib \<Rightarrow> u8 list \<Rightarrow> ('e, unit) bt_eff" where
  "publish_record B raw =
     bindE (gets cb_publish) (\<lambda>p. whenE p (bindE (slice raw 0 (bt_size B)) (\<lambda>d. bt_try (bt_publishData B d))))"

definition cfo_handleDetachedSubevent :: "'e bt_lib \<Rightarrow> cfo_record \<Rightarrow> ('e, unit) bt_eff" where
  "cfo_handleDetachedSubevent B r =
     seqE (modify (\<lambda>s. s\<lparr>cb_subeventsCount := cb_subeventsCount s + 1, cb_hist := Handled r # cb_hist s\<rparr>))
    (seqE (check_tag (cr_tag r))
    (seqE (modify (\<lambda>s. s\<lparr>cb_nextEventWindowTag := cr_tag r + 1\<rparr>))
    (seqE (bindE (gets cb_transferStartTime) (\<lambda>t.
           whenE (t = None) (bindE (bt_call (bt_clock B)) (\<lambda>now. modify (\<lambda>s. s\<lparr>cb_transferStartTime := Some now\<rparr>)))))
    (seqE (modify (\<lambda>s. s\<lparr>cb_totalSubeventBytesTransferred := cb_totalSubeventBytesTransferred s + of_nat (bt_size B)\<rparr>))
    (seqE (forE (piece_starts (bt_size B) 4) (write_word (cr_raw r)))
    (seqE (publish_record B (cr_raw r))
    (bindE (bt_call (bt_clock B)) (\<lambda>now. modify (\<lambda>s. s\<lparr>cb_transferEndTime := Some now\<rparr>)))))))))"

subsection \<open>The thread\<close>

definition cfo_open_file :: "'e bt_lib \<Rightarrow> ('e, unit) bt_eff" where
  "cfo_open_file B =
     bindE (bt_call (bt_stamp B)) (\<lambda>(t, ticks).
     bindE (bt_try (bt_dataDir B)) (\<lambda>dir.
     let name = dir @ ''/'' @ ''/macroOutput_'' @ to_string t @ ''_'' @ to_string ticks @ ''.bin'' in
     bindE (bt_call (bt_fopen B name)) (\<lambda>opened.
     if opened then modify (\<lambda>s. s\<lparr>cb_fp := Some (name, [])\<rparr>)
     else seqE (modify (\<lambda>s. s\<lparr>cb_fp := None\<rparr>))
               (throw (''Failed to open file to save macro output '' @ [CHR 0x27] @ name @ [CHR 0x27] @ ''...'' @ bt_line)))))"

definition close_file :: "'e bt_lib \<Rightarrow> ('e, unit) bt_eff" where
  "close_file B =
     bindE (gets cb_fp) (\<lambda>f. case f of
       None \<Rightarrow> ret ()
     | Some (name, bytes) \<Rightarrow>
         modify (\<lambda>s. s\<lparr>cb_env := bt_fclose B (cb_env s), cb_fp := None, cb_hist := Saved name bytes # cb_hist s\<rparr>))"

definition clear_counts :: "'e cfo_test \<Rightarrow> 'e cfo_test" where
  "clear_counts s =
     s\<lparr>cb_error := [], cb_subeventsCount := 0, cb_mismatchedEventTagsCount := 0, cb_mismatchedEventTagJumps := [],
       cb_totalSubeventBytesTransferred := 0, cb_transferStartTime := None, cb_transferEndTime := None\<rparr>"

definition take_start_tag :: "('e, unit) bt_eff" where
  "take_start_tag = modify (\<lambda>s. s\<lparr>cb_nextEventWindowTag := cb_expectedEventTag s\<rparr>)"

definition thread_begin :: "'e bt_lib \<Rightarrow> ('e, unit) bt_eff" where
  "thread_begin B =
     bindE (gets cb_fp) (\<lambda>f.
     if f \<noteq> None then throw (''Impossible?! File pointer already initialized?'' @ bt_line)
     else bindE (gets cb_saveBinaryData) (\<lambda>save.
     seqE (whenE save (cfo_open_file B))
    (seqE (on_cfo (\<lambda>c. bt_try (bt_release B c)))
    (seqE take_start_tag (modify clear_counts)))))"

definition restart_test :: "'e bt_lib \<Rightarrow> ('e, unit) bt_eff" where
  "restart_test B =
     bindE (cfo_getDetachedBufferTestStatus B) (\<lambda>_.
     seqE take_start_tag
    (bindE (gets cb_doNotResetCounters) (\<lambda>retain.
     seqE (if \<not> retain
           then seqE (close_file B)
               (bindE (gets cb_saveBinaryData) (\<lambda>save. seqE (whenE save (cfo_open_file B)) (modify clear_counts)))
           else bindE (gets cb_saveBinaryData) (\<lambda>save. whenE (\<not> save) (close_file B)))
    (seqE (modify (\<lambda>s. s\<lparr>cb_resetStartEventTag := False\<rparr>))
          (on_cfo (\<lambda>c. bt_try (bt_release B c)))))))"

text \<open>The loop over the DMA goes on while there is data; null pointers are skipped.\<close>

definition read_once :: "'e bt_lib \<Rightarrow> ('e, unit + unit) bt_eff" where
  "read_once B =
     bindE (on_cfo (\<lambda>c. bt_try (bt_getData B c))) (\<lambda>(more, rs).
     if more \<and> rs \<noteq> []
     then seqE (forE rs (\<lambda>r. case r of None \<Rightarrow> ret () | Some r \<Rightarrow> cfo_handleDetachedSubevent B r)) (ret (Inl ()))
     else ret (Inr ()))"

definition cfo_thread_round :: "'e bt_lib \<Rightarrow> nat \<Rightarrow> unit \<Rightarrow> ('e, unit + unit) bt_eff" where
  "cfo_thread_round B n _ =
     seqE (modify (bt_others B))
    (bindE (gets cb_exitThread) (\<lambda>quit.
     if quit then ret (Inr ())
     else bindE (gets cb_resetStartEventTag) (\<lambda>reset.
          seqE (whenE reset (restart_test B))
         (seqE (loopE n (\<lambda>_. read_once B) ())
               (ret (Inl ()))))))"

definition thread_error :: "'e bt_lib \<Rightarrow> string \<Rightarrow> string" where
  "thread_error B m = ''Exception caught. Exiting detechedBufferTestThread().'' @ bt_line
     @ (if bt_runtime B m then ''Error message: '' @ m @ bt_line else ''Unknown error.'' @ bt_line)"

definition thread_failed :: "'e bt_lib \<Rightarrow> string \<Rightarrow> ('e, unit) bt_eff" where
  "thread_failed B m =
     seqE (on_cfo (\<lambda>c. modify (\<lambda>s. s\<lparr>cb_env := bt_spy B c (cb_env s)\<rparr>)))
          (modify (\<lambda>s. s\<lparr>cb_running := False, cb_error := cb_error s @ thread_error B m\<rparr>))"

definition detechedBufferTestThread :: "'e bt_lib \<Rightarrow> nat \<Rightarrow> nat \<Rightarrow> ('e, unit) bt_eff" where
  "detechedBufferTestThread B rounds n =
     tryE (seqE (thread_begin B)
          (seqE (loopE rounds (cfo_thread_round B n) ())
          (seqE (close_file B)
                (modify (\<lambda>s. s\<lparr>cb_running := False\<rparr>)))))
          (thread_failed B)"

subsection \<open>The front end\<close>

definition prepare_test :: "'e bt_lib \<Rightarrow> u64 \<Rightarrow> bool \<Rightarrow> ('e, unit) bt_eff" where
  "prepare_test B tag save =
     seqE (modify (\<lambda>s. s\<lparr>cb_expectedEventTag := tag, cb_saveBinaryData := save\<rparr>))
    (bindE (bt_call (bt_isPublishing B)) (\<lambda>p. modify (\<lambda>s. s\<lparr>cb_publish := p, cb_exitThread := False\<rparr>)))"

definition launch_thread :: "'e bt_lib \<Rightarrow> u64 \<Rightarrow> bool \<Rightarrow> ('e, unit) bt_eff" where
  "launch_thread B tag save =
     seqE (prepare_test B tag save)
          (modify (\<lambda>s. s\<lparr>cb_resetStartEventTag := False, cb_thisCFO := Some (bt_thisCFO B), cb_running := True,
                         cb_doNotResetCounters := False, cb_error := [], cb_hist := Launched # cb_hist s\<rparr>))"

text \<open>While the front end sleeps, the others, here the thread, go on.\<close>

definition cfo_sleep :: "'e bt_lib \<Rightarrow> ('e, unit) bt_eff" where
  "cfo_sleep B = modify (bt_others B)"

definition cfo_initDetachedBufferTest :: "'e bt_lib \<Rightarrow> u64 \<Rightarrow> bool \<Rightarrow> bool \<Rightarrow> ('e, unit) bt_eff" where
  "cfo_initDetachedBufferTest B tag save doNotReset =
     bindE (gets cb_running) (\<lambda>r.
     seqE (if r
           then seqE (prepare_test B tag save)
                     (modify (\<lambda>s. s\<lparr>cb_resetStartEventTag := True, cb_doNotResetCounters := doNotReset, cb_error := []\<rparr>))
           else launch_thread B tag save)
          (cfo_sleep B))"

text \<open>Up to ten waits of 100 ms for the thread to exit.\<close>

definition cfo_await_exit :: "'e bt_lib \<Rightarrow> ('e, bool) bt_eff" where
  "cfo_await_exit B = repeatE 10 id (\<lambda>_. seqE (cfo_sleep B) (gets cb_running)) True"

definition cfo_start_test :: "'e bt_lib \<Rightarrow> u64 \<Rightarrow> bool \<Rightarrow> ('e, string) bt_eff" where
  "cfo_start_test B tag save =
     bindE (gets cb_running) (\<lambda>r.
     bindE (if r
            then ret (''Found buffer test thread already running, doing nothing. Please '' @ [CHR 0x27] @ ''Halt'' @ [CHR 0x27]
                      @ '' before restarting. Or run '' @ [CHR 0x27] @ ''Status'' @ [CHR 0x27] @ '' to read the latest status.'' @ bt_line)
            else seqE (launch_thread B tag save)
                 (ret (''Launched detached Buffer Test thread and reading data DMA-0 starting at event tag '' @ to_string (unat tag)
                       @ '' ('' @ hex tag @ '')'' @ bt_line))) (\<lambda>t.
     seqE (cfo_sleep B)
    (bindE (cfo_getDetachedBufferTestStatus B) (\<lambda>status.
     ret (t @ ''Reading status...'' @ bt_line @ status)))))"

text \<open>
  An error in the final status of a halt is only logged. The code catches \<^verbatim>\<open>std::runtime_error\<close> there; the only exception
  the status can throw is its own \<^verbatim>\<open>std::runtime_error\<close> about the recorded error, so the handler here is the same for all.
\<close>

definition cfo_halt_test :: "'e bt_lib \<Rightarrow> ('e, string) bt_eff" where
  "cfo_halt_test B =
     seqE (modify (\<lambda>s. s\<lparr>cb_exitThread := True\<rparr>))
    (bindE (cfo_await_exit B) (\<lambda>_.
     seqE (close_file B)
    (bindE (tryE (cfo_getDetachedBufferTestStatus B) (\<lambda>_. ret [])) (\<lambda>status.
     ret (''Detached Buffer Test thread exited. '' @ bt_line @ ''Reading final status...'' @ bt_line @ status)))))"

definition saved_text :: "string \<Rightarrow> string" where
  "saved_text dir =
     ''Binary data file saved to: '' @ dir @ ''/macroOutput_*'' @ bt_line @ bt_line
     @ ''To view binary data do hexdump -v -e '' @ [CHR 0x27, CHR 0x22] @ ''%08_ax '' @ [CHR 0x22] @ '' 7/8 '' @ [CHR 0x22] @ ''%016x '' @ [CHR 0x22, CHR 0x27]
     @ '' -e '' @ [CHR 0x27, CHR 0x22, CHR 0x5C] @ ''n'' @ [CHR 0x22, CHR 0x27] @ '' '' @ dir @ ''/macroOutput_*.bin'' @ bt_line"

definition cfo_BufferTest_detached :: "'e bt_lib \<Rightarrow> string \<Rightarrow> u32 \<Rightarrow> bool \<Rightarrow> ('e, string) bt_eff" where
  "cfo_BufferTest_detached B command tag save =
     bindE (if command = ''1'' \<or> command = ''Start'' then cfo_start_test B (ucast tag) save
            else if command = ''0'' \<or> command = ''Status''
            then bindE (cfo_getDetachedBufferTestStatus B) (\<lambda>status. ret (''Reading thread status...'' @ bt_line @ status))
            else if command = ''2'' \<or> command = ''Halt'' then cfo_halt_test B
            else ret (''Unrecognized command '' @ [CHR 0x27] @ command @ [CHR 0x27] @ '' found. Valid commands are Start, Status, and Halt.'' @ bt_line)) (\<lambda>t.
     bindE (if save then bindE (bt_try (bt_dataDir B)) (\<lambda>dir. ret (saved_text dir)) else ret []) (\<lambda>saved.
     ret (''Command: '' @ command @ bt_line @ t @ saved)))"

end
