(* ===== verification/Cfo_Stream.thy ===== *)
theory Cfo_Stream
  imports Cfo_Buffer
begin

section \<open>What the Buffer Test of the CFO accepts\<close>

text \<open>
  The thread accepts exactly the records with consecutive tags from the requested one on and stops at the first other
  one; its counters, its one recorded jump and the saved file are those of the accepted records. After such a stop with
  a file the next starts read nothing.
\<close>

subsection \<open>Returns and exceptions\<close>

text \<open>\<open>goes P m Q E\<close>: from \<open>P\<close>, a return ends in \<open>Q\<close> and an exception in \<open>E\<close>.\<close>

definition goes :: "('s \<Rightarrow> bool) \<Rightarrow> ('s, 'a) eff \<Rightarrow> ('a \<Rightarrow> 's \<Rightarrow> bool) \<Rightarrow> ('s \<Rightarrow> bool) \<Rightarrow> bool" where
  "goes P m Q E \<longleftrightarrow> (\<forall>s. P s \<longrightarrow> (\<forall>a. fst (m s) = Ret a \<longrightarrow> Q a (snd (m s))) \<and> (\<forall>e. fst (m s) = Throw e \<longrightarrow> E (snd (m s))))"

lemma goes_bindE: "goes P m R E \<Longrightarrow> (\<And>a. goes (R a) (k a) Q E) \<Longrightarrow> goes P (bindE m k) Q E"
  by (auto simp: goes_def bindE_cases split: outcome.splits)

lemma goes_seqE: "goes P m (\<lambda>_. R) E \<Longrightarrow> goes R k Q E \<Longrightarrow> goes P (seqE m k) Q E"
  unfolding seqE_def by (rule goes_bindE)

lemma goes_gets: "(\<And>s. P s \<Longrightarrow> Q (f s) s) \<Longrightarrow> goes P (gets f) Q E"
  by (simp add: goes_def gets_def)

lemma goes_ret: "(\<And>s. P s \<Longrightarrow> Q a s) \<Longrightarrow> goes P (ret a) Q E"
  by (simp add: goes_def ret_def)

lemma goes_throw: "(\<And>s. P s \<Longrightarrow> E s) \<Longrightarrow> goes P (throw m) Q E"
  by (simp add: goes_def throw_def)

lemma goes_modify: "(\<And>s. P s \<Longrightarrow> Q () (f s)) \<Longrightarrow> goes P (modify f) Q E"
  by (simp add: goes_def modify_def)

lemma goes_undef: "goes P undefined_behaviour Q E"
  by (simp add: goes_def undefined_behaviour_def)

lemma goes_if: "(b \<Longrightarrow> goes P m Q E) \<Longrightarrow> (\<not> b \<Longrightarrow> goes P m' Q E) \<Longrightarrow> goes P (if b then m else m') Q E"
  by simp

lemma goes_whenE: "(b \<Longrightarrow> goes P m (\<lambda>_. Q) E) \<Longrightarrow> (\<And>s. P s \<Longrightarrow> \<not> b \<Longrightarrow> Q s) \<Longrightarrow> goes P (whenE b m) (\<lambda>_. Q) E"
  by (cases b) (simp_all add: whenE_def goes_ret)

lemma goes_pre: "goes P m Q E \<Longrightarrow> (\<And>s. P' s \<Longrightarrow> P s) \<Longrightarrow> goes P' m Q E"
  by (simp add: goes_def)

lemma goes_post: "goes P m R E \<Longrightarrow> (\<And>a s. R a s \<Longrightarrow> Q a s) \<Longrightarrow> (\<And>s. E s \<Longrightarrow> E' s) \<Longrightarrow> goes P m Q E'"
  by (simp add: goes_def)

lemma goes_pure: "(Z \<Longrightarrow> goes P m Q E) \<Longrightarrow> goes (\<lambda>s. P s \<and> Z) m Q E"
  by (auto simp: goes_def)

lemma goes_all: "(\<And>x. goes (P x) m Q E) \<Longrightarrow> goes (\<lambda>s. \<exists>x. P x s) m Q E"
  by (auto simp: goes_def)

lemma goes_forE: "(\<And>x. goes P (f x) (\<lambda>_. P) E) \<Longrightarrow> goes P (forE xs f) (\<lambda>_. P) E"
  unfolding forE_def
proof (induction xs)
  case (Cons x xs)
  have "goes P (foldE (\<lambda>x _. f x) xs a) (\<lambda>_. P) E" for a using Cons by simp
  then show ?case unfolding foldE.simps by (rule goes_bindE [OF Cons.prems])
qed (simp add: goes_ret)

text \<open>The state after each element of the list.\<close>

lemma goes_forE_nth:
  "(\<And>k. k < length xs \<Longrightarrow> goes (P k) (f (xs ! k)) (\<lambda>_. P (Suc k)) E) \<Longrightarrow> goes (P 0) (forE xs f) (\<lambda>_. P (length xs)) E"
proof (induction xs arbitrary: P)
  case (Cons x xs)
  have "goes (P (Suc 0)) (forE xs f) (\<lambda>_. P (Suc (length xs))) E"
    by (rule Cons.IH [of "\<lambda>k. P (Suc k)"]) (use Cons.prems [of "Suc _"] in simp)
  moreover have "goes (P 0) (f x) (\<lambda>_. P (Suc 0)) E" using Cons.prems [of 0] by simp
  moreover have "forE (x # xs) f = seqE (f x) (forE xs f)" by (simp add: forE_def seqE_def)
  ultimately show ?case by (simp add: goes_seqE)
qed (simp add: forE_def goes_ret)

lemma goes_loopE: "goes P (b ()) (\<lambda>x s. case x of Inl _ \<Rightarrow> P s | Inr a \<Rightarrow> Q a s) E \<Longrightarrow> goes P (loopE n b ()) Q E"
proof (induction n)
  case 0
  then show ?case by (simp add: goes_def)
next
  case (Suc n)
  show ?case unfolding loopE.simps
    by (rule goes_bindE [OF Suc.prems]) (auto intro: Suc goes_ret split: sum.splits)
qed

subsection \<open>The accepted records\<close>

primrec handled :: "bt_event list \<Rightarrow> cfo_record list" where
  "handled [] = []"
| "handled (ev # h) = (case ev of Handled r \<Rightarrow> handled h @ [r] | Saved _ _ \<Rightarrow> handled h | Launched \<Rightarrow> handled h)"

text \<open>The bytes of a record in the file: its words of 4 bytes.\<close>

definition record_words :: "'e bt_lib \<Rightarrow> cfo_record \<Rightarrow> u8 list" where
  "record_words B r = take (4 * ((bt_size B + 3) div 4)) (cr_raw r)"

text \<open>\<open>accepted B e h0 file rs bad s\<close>: since the history \<open>h0\<close> the records \<open>rs\<close> with the tags from \<open>e\<close> on were accepted, and
  \<open>bad\<close>, at most one, was not; counters and jumps are those of these records.\<close>

definition accepted :: "'e bt_lib \<Rightarrow> u64 \<Rightarrow> cfo_record list \<Rightarrow> cfo_record list \<Rightarrow> cfo_record list \<Rightarrow> 'e cfo_test \<Rightarrow> bool" where
  "accepted B e h0 rs bad s \<longleftrightarrow>
     handled (cb_hist s) = h0 @ rs @ bad \<and> length bad \<le> 1
   \<and> (\<forall>i<length rs. cr_tag (rs ! i) = e + of_nat i) \<and> (\<forall>r\<in>set bad. cr_tag r \<noteq> e + of_nat (length rs))
   \<and> cb_nextEventWindowTag s = e + of_nat (length rs) \<and> cb_subeventsCount s = of_nat (length rs + length bad)
   \<and> cb_mismatchedEventTagsCount s = of_nat (length bad)
   \<and> cb_mismatchedEventTagJumps s = map (\<lambda>r. (e + of_nat (length rs), cr_tag r)) bad
   \<and> cb_totalSubeventBytesTransferred s = of_nat (length rs * bt_size B)"

definition file_has :: "'e bt_lib \<Rightarrow> bool \<Rightarrow> string \<Rightarrow> cfo_record list \<Rightarrow> 'e cfo_test \<Rightarrow> bool" where
  "file_has B save name rs s \<longleftrightarrow> cb_fp s = (if save then Some (name, concat (map (record_words B) rs)) else None)"

definition going :: "'e bt_lib \<Rightarrow> u64 \<Rightarrow> cfo_record list \<Rightarrow> bool \<Rightarrow> string \<Rightarrow> 'e cfo_test \<Rightarrow> bool" where
  "going B e h0 save name s \<longleftrightarrow> (\<exists>rs. accepted B e h0 rs [] s \<and> file_has B save name rs s) \<and> cb_error s = [] \<and> \<not> cb_resetStartEventTag s"

definition stopped :: "'e bt_lib \<Rightarrow> u64 \<Rightarrow> cfo_record list \<Rightarrow> bool \<Rightarrow> string \<Rightarrow> 'e cfo_test \<Rightarrow> bool" where
  "stopped B e h0 save name s \<longleftrightarrow> (\<exists>rs bad. accepted B e h0 rs bad s \<and> file_has B save name rs s)"

lemma going_stopped: "going B e h0 save name s \<Longrightarrow> stopped B e h0 save name s"
  unfolding going_def stopped_def by blast

lemma accepted_snoc: "accepted B e h0 rs [] s \<Longrightarrow> i < Suc (length rs) \<Longrightarrow> cr_tag r = e + of_nat (length rs) \<Longrightarrow>
  cr_tag ((rs @ [r]) ! i) = e + of_nat i"
  by (cases "i = length rs") (auto simp: accepted_def nth_append)

text \<open>Members the state of the stream does not depend on.\<close>

lemma going_env [simp]:
  "going B e h0 save name (s\<lparr>cb_env := x\<rparr>) = going B e h0 save name s"
  "stopped B e h0 save name (s\<lparr>cb_env := x\<rparr>) = stopped B e h0 save name s"
  by (simp_all add: going_def stopped_def accepted_def file_has_def)

lemma goes_call: "(\<And>s x. P (s\<lparr>cb_env := x\<rparr>) = P s) \<Longrightarrow> goes P (bt_call f) (\<lambda>_. P) E"
  by (simp add: goes_def bt_call_def split: prod.splits)

lemma goes_try: "(\<And>s x. P (s\<lparr>cb_env := x\<rparr>) = P s) \<Longrightarrow> (\<And>s. P s \<Longrightarrow> E s) \<Longrightarrow> goes P (bt_try f) (\<lambda>_. P) E"
  unfolding bt_try_def by (rule goes_bindE [OF goes_call], simp) (auto intro: goes_throw goes_ret split: sum.splits)

lemma goes_on_cfo: "(\<And>c. goes P (f c) Q E) \<Longrightarrow> goes P (on_cfo f) Q E"
  unfolding on_cfo_def by (rule goes_bindE [OF goes_gets [where Q = "\<lambda>_. P"]]) (auto intro: goes_undef split: option.splits)

subsection \<open>One record\<close>

text \<open>While a record is handled: \<open>tag\<close>, \<open>bytes\<close> and \<open>ws\<close> say what of it has been taken over.\<close>

definition handling :: "'e bt_lib \<Rightarrow> u64 \<Rightarrow> cfo_record list \<Rightarrow> bool \<Rightarrow> string \<Rightarrow> cfo_record list \<Rightarrow> cfo_record \<Rightarrow> u64 \<Rightarrow> nat \<Rightarrow> u8 list \<Rightarrow> 'e cfo_test \<Rightarrow> bool" where
  "handling B e h0 save name rs r tag bytes ws s \<longleftrightarrow>
     handled (cb_hist s) = h0 @ rs @ [r] \<and> (\<forall>i<length rs. cr_tag (rs ! i) = e + of_nat i)
   \<and> cb_nextEventWindowTag s = tag \<and> cb_subeventsCount s = of_nat (Suc (length rs))
   \<and> cb_mismatchedEventTagsCount s = 0 \<and> cb_mismatchedEventTagJumps s = []
   \<and> cb_totalSubeventBytesTransferred s = of_nat bytes \<and> cb_error s = [] \<and> \<not> cb_resetStartEventTag s
   \<and> cb_fp s = (if save then Some (name, concat (map (record_words B) rs) @ ws) else None)"

lemma handling_env [simp]: "handling B e h0 save name rs r tag bytes ws (s\<lparr>cb_env := x\<rparr>) = handling B e h0 save name rs r tag bytes ws s"
  by (simp add: handling_def)

lemma handling_done:
  "handling B e h0 save name rs r (cr_tag r + 1) (Suc (length rs) * bt_size B) (record_words B r) s \<Longrightarrow> cr_tag r = e + of_nat (length rs) \<Longrightarrow>
   going B e h0 save name s"
  unfolding going_def
  by (intro conjI exI [of _ "rs @ [r]"]) (auto simp: handling_def accepted_def file_has_def nth_append less_Suc_eq algebra_simps)

lemma goes_check:
  "goes (handling B e h0 save name rs r (e + of_nat (length rs)) (length rs * bt_size B) []) (check_tag (cr_tag r))
     (\<lambda>_ s. handling B e h0 save name rs r (e + of_nat (length rs)) (length rs * bt_size B) [] s \<and> cr_tag r = e + of_nat (length rs))
     (stopped B e h0 save name)"
proof -
  have "stopped B e h0 save name (s\<lparr>cb_mismatchedEventTagsCount := cb_mismatchedEventTagsCount s + 1,
      cb_mismatchedEventTagJumps := cb_mismatchedEventTagJumps s @ [(e + of_nat (length rs), cr_tag r)]\<rparr>)"
    if "handling B e h0 save name rs r (e + of_nat (length rs)) (length rs * bt_size B) [] s" "cr_tag r \<noteq> e + of_nat (length rs)" for s
    unfolding stopped_def using that
    by (intro exI [of _ rs] exI [of _ "[r]"]) (auto simp: handling_def accepted_def file_has_def)
  then show ?thesis
    by (auto simp: goes_def check_tag_def whenE_def bindE_def seqE_def gets_def modify_def throw_def ret_def handling_def)
qed

lemma goes_words:
  "goes (handling B e h0 save name rs r tag bytes []) (forE (piece_starts (bt_size B) 4) (write_word (cr_raw r)))
     (\<lambda>_. handling B e h0 save name rs r tag bytes (record_words B r)) E"
proof -
  let ?P = "\<lambda>k. handling B e h0 save name rs r tag bytes (take (4 * k) (cr_raw r))"
  have starts: "length (piece_starts (bt_size B) 4) = (bt_size B + 3) div 4"
    "k < (bt_size B + 3) div 4 \<Longrightarrow> piece_starts (bt_size B) 4 ! k = 4 * k" for k
    by (simp_all add: piece_starts_def)
  have step: "take (4 * Suc k) (cr_raw r) = take (4 * k) (cr_raw r) @ take 4 (drop (4 * k) (cr_raw r))" for k
    using take_add [of "4 * k" 4 "cr_raw r"] by (simp add: add.commute)
  have "goes (?P k) (write_word (cr_raw r) (4 * k)) (\<lambda>_. ?P (Suc k)) E" for k
    unfolding step
    by (auto simp: goes_def write_word_def slice_def bindE_def gets_def modify_def ret_def undefined_behaviour_def handling_def
        split: option.splits if_splits)
  then have "goes (?P 0) (forE (piece_starts (bt_size B) 4) (write_word (cr_raw r))) (\<lambda>_. ?P (length (piece_starts (bt_size B) 4))) E"
    by (intro goes_forE_nth) (simp add: starts)
  then show ?thesis by (simp add: starts record_words_def)
qed

lemma goes_record: "goes (going B e h0 save name) (cfo_handleDetachedSubevent B r) (\<lambda>_. going B e h0 save name) (stopped B e h0 save name)"
proof -
  have "goes (\<lambda>s. accepted B e h0 rs [] s \<and> file_has B save name rs s \<and> cb_error s = [] \<and> \<not> cb_resetStartEventTag s)
      (cfo_handleDetachedSubevent B r) (\<lambda>_. going B e h0 save name) (stopped B e h0 save name)" for rs
  proof -
    let ?H = "handling B e h0 save name rs r"
    let ?e = "e + of_nat (length rs) :: u64"
    have fin: "stopped B e h0 save name s" if "?H (cr_tag r + 1) (Suc (length rs) * bt_size B) (record_words B r) s \<and> cr_tag r = ?e" for s
      using that handling_done going_stopped by blast
    have clock: "goes (?H t b w) (bindE (gets cb_transferStartTime) (\<lambda>x. whenE (x = None) (bindE (bt_call (bt_clock B)) (\<lambda>now.
        modify (\<lambda>s. s\<lparr>cb_transferStartTime := Some now\<rparr>))))) (\<lambda>_. ?H t b w) E" for t b w E
      by (auto simp: goes_def whenE_def bindE_def gets_def modify_def bt_call_def ret_def handling_def split: prod.splits)
    have publish: "goes (?H t b w) (publish_record B (cr_raw r)) (\<lambda>_. ?H t b w) E" if "\<And>s. ?H t b w s \<Longrightarrow> E s" for t b w E
    proof -
      have "goes (?H t b w) (bindE (slice (cr_raw r) 0 (bt_size B)) (\<lambda>d. bt_try (bt_publishData B d))) (\<lambda>_. ?H t b w) E"
        by (rule goes_bindE [where R = "\<lambda>_. ?H t b w"]) (auto simp: slice_def goes_ret goes_undef intro: goes_try that)
      then show ?thesis unfolding publish_record_def
        by (intro goes_bindE [OF goes_gets [where Q = "\<lambda>_. ?H t b w"]] goes_whenE) auto
    qed
    have rest: "goes (\<lambda>s. ?H ?e (length rs * bt_size B) [] s \<and> cr_tag r = ?e)
      (seqE (modify (\<lambda>s. s\<lparr>cb_nextEventWindowTag := cr_tag r + 1\<rparr>))
      (seqE (bindE (gets cb_transferStartTime) (\<lambda>t.
             whenE (t = None) (bindE (bt_call (bt_clock B)) (\<lambda>now. modify (\<lambda>s. s\<lparr>cb_transferStartTime := Some now\<rparr>)))))
      (seqE (modify (\<lambda>s. s\<lparr>cb_totalSubeventBytesTransferred := cb_totalSubeventBytesTransferred s + of_nat (bt_size B)\<rparr>))
      (seqE (forE (piece_starts (bt_size B) 4) (write_word (cr_raw r)))
      (seqE (publish_record B (cr_raw r))
      (bindE (bt_call (bt_clock B)) (\<lambda>now. modify (\<lambda>s. s\<lparr>cb_transferEndTime := Some now\<rparr>))))))))
      (\<lambda>_. going B e h0 save name) (stopped B e h0 save name)"
    proof (rule goes_pure)
      assume tag: "cr_tag r = ?e"
      let ?F = "?H (cr_tag r + 1) (Suc (length rs) * bt_size B)"
      have last: "goes (?F (record_words B r)) (bindE (bt_call (bt_clock B)) (\<lambda>now. modify (\<lambda>s. s\<lparr>cb_transferEndTime := Some now\<rparr>)))
          (\<lambda>_. going B e h0 save name) (stopped B e h0 save name)"
        by (rule goes_bindE [OF goes_call], simp, rule goes_modify, rule handling_done [OF _ tag]) (simp add: handling_def)
      show "goes (?H ?e (length rs * bt_size B) [])
      (seqE (modify (\<lambda>s. s\<lparr>cb_nextEventWindowTag := cr_tag r + 1\<rparr>))
      (seqE (bindE (gets cb_transferStartTime) (\<lambda>t.
             whenE (t = None) (bindE (bt_call (bt_clock B)) (\<lambda>now. modify (\<lambda>s. s\<lparr>cb_transferStartTime := Some now\<rparr>)))))
      (seqE (modify (\<lambda>s. s\<lparr>cb_totalSubeventBytesTransferred := cb_totalSubeventBytesTransferred s + of_nat (bt_size B)\<rparr>))
      (seqE (forE (piece_starts (bt_size B) 4) (write_word (cr_raw r)))
      (seqE (publish_record B (cr_raw r))
      (bindE (bt_call (bt_clock B)) (\<lambda>now. modify (\<lambda>s. s\<lparr>cb_transferEndTime := Some now\<rparr>))))))))
      (\<lambda>_. going B e h0 save name) (stopped B e h0 save name)"
        by (rule goes_seqE [OF goes_modify [where Q = "\<lambda>_. ?H (cr_tag r + 1) (length rs * bt_size B) []"]], simp add: handling_def,
            rule goes_seqE [OF clock], rule goes_seqE [OF goes_modify [where Q = "\<lambda>_. ?F []"]], simp add: handling_def algebra_simps,
            rule goes_seqE [OF goes_words], rule goes_seqE [OF publish last]) (use fin tag in blast)
    qed
    show ?thesis
      unfolding cfo_handleDetachedSubevent_def
      by (rule goes_seqE [OF goes_modify [where Q = "\<lambda>_. ?H ?e (length rs * bt_size B) []"]],
          simp add: handling_def accepted_def file_has_def, rule goes_seqE [OF goes_check rest])
  qed
  then have "goes (\<lambda>s. \<exists>rs. accepted B e h0 rs [] s \<and> file_has B save name rs s \<and> cb_error s = [] \<and> \<not> cb_resetStartEventTag s)
      (cfo_handleDetachedSubevent B r) (\<lambda>_. going B e h0 save name) (stopped B e h0 save name)"
    by (rule goes_all)
  then show ?thesis by (rule goes_pre) (auto simp: going_def)
qed

subsection \<open>The thread\<close>

text \<open>
  Other threads do no more than ask for the exit: no restart, no other macro, and no halt that gives up its wait for the
  thread after one second and closes the file itself.
\<close>

definition quiet_others :: "'e bt_lib \<Rightarrow> bool" where
  "quiet_others B \<longleftrightarrow> (\<forall>s. \<exists>x q. bt_others B s = s\<lparr>cb_env := x, cb_exitThread := q\<rparr>)"

lemma going_quiet: "quiet_others B \<Longrightarrow> going B e h0 save name s \<Longrightarrow> going B e h0 save name (bt_others B s)"
  unfolding quiet_others_def by (drule spec [of _ s]) (auto simp: going_def accepted_def file_has_def)

lemma goes_read: "goes (going B e h0 save name) (read_once B) (\<lambda>_. going B e h0 save name) (stopped B e h0 save name)"
  unfolding read_once_def
  by (rule goes_bindE [OF goes_on_cfo [OF goes_try]], simp, rule going_stopped, assumption, simp only: case_prod_beta, rule goes_if,
      rule goes_seqE [OF goes_forE], auto intro: goes_record goes_ret split: option.splits)

lemma goes_round:
  assumes "quiet_others B"
  shows "goes (going B e h0 save name) (cfo_thread_round B n ()) (\<lambda>_. going B e h0 save name) (stopped B e h0 save name)"
proof -
  let ?G = "going B e h0 save name"
  have loop: "goes ?G (loopE n (\<lambda>_. read_once B) ()) (\<lambda>_. ?G) (stopped B e h0 save name)"
    by (rule goes_loopE, rule goes_post [OF goes_read]) (auto split: sum.splits)
  have body: "goes ?G (bindE (gets cb_resetStartEventTag) (\<lambda>reset. seqE (whenE reset (restart_test B))
         (seqE (loopE n (\<lambda>_. read_once B) ()) (ret (Inl ()))))) (\<lambda>_. ?G) (stopped B e h0 save name)"
    by (rule goes_bindE [OF goes_gets [where Q = "\<lambda>x s. ?G s \<and> \<not> x"]], simp add: going_def, rule goes_pure,
        rule goes_seqE [OF goes_whenE [where Q = ?G]], simp, simp, rule goes_seqE [OF loop], rule goes_ret)
  show ?thesis
    unfolding cfo_thread_round_def
    by (rule goes_seqE [OF goes_modify], erule going_quiet [OF assms], rule goes_bindE [OF goes_gets [where Q = "\<lambda>_. ?G"]], assumption,
        rule goes_if, rule goes_ret, assumption, rule body)
qed

definition finished :: "'e bt_lib \<Rightarrow> u64 \<Rightarrow> cfo_record list \<Rightarrow> bool \<Rightarrow> string \<Rightarrow> 'e cfo_test \<Rightarrow> bool" where
  "finished B e h0 save name s \<longleftrightarrow> (\<exists>rs. accepted B e h0 rs [] s \<and> cb_error s = [] \<and> cb_fp s = None
     \<and> (save \<longrightarrow> (\<exists>h. cb_hist s = Saved name (concat (map (record_words B) rs)) # h)))"

lemma goes_close: "goes (going B e h0 save name) (close_file B) (\<lambda>_. finished B e h0 save name) E"
  unfolding goes_def going_def
proof (intro allI impI, elim conjE exE)
  fix s rs assume "accepted B e h0 rs [] s" "file_has B save name rs s" "cb_error s = []"
  then show "(\<forall>a. fst (close_file B s) = Ret a \<longrightarrow> finished B e h0 save name (snd (close_file B s)))
    \<and> (\<forall>ex. fst (close_file B s) = Throw ex \<longrightarrow> E (snd (close_file B s)))"
    unfolding finished_def
    by (auto intro!: exI [of _ rs] simp: close_file_def bindE_def gets_def modify_def ret_def accepted_def file_has_def split: if_splits)
qed

lemma goes_file:
  "goes (\<lambda>s. handled (cb_hist s) = h0 \<and> P (cb_expectedEventTag s) (cb_resetStartEventTag s)) (cfo_open_file B)
     (\<lambda>_ s. handled (cb_hist s) = h0 \<and> P (cb_expectedEventTag s) (cb_resetStartEventTag s) \<and> (\<exists>name. cb_fp s = Some (name, [])))
     (\<lambda>s. handled (cb_hist s) = h0)"
  by (auto simp: goes_def cfo_open_file_def bt_call_def bt_try_def bindE_def seqE_def gets_def modify_def throw_def ret_def Let_def
      split: prod.splits sum.splits if_splits)

definition fresh_test :: "u64 \<Rightarrow> cfo_record list \<Rightarrow> bool \<Rightarrow> 'e cfo_test \<Rightarrow> bool" where
  "fresh_test e h0 save s \<longleftrightarrow> handled (cb_hist s) = h0 \<and> cb_expectedEventTag s = e \<and> cb_saveBinaryData s = save \<and> cb_fp s = None
     \<and> \<not> cb_resetStartEventTag s"

lemma goes_begin:
  "goes (fresh_test e h0 save) (thread_begin B) (\<lambda>_ s. \<exists>name. going B e h0 save name s) (\<lambda>s. handled (cb_hist s) = h0)"
proof -
  let ?R = "\<lambda>s. handled (cb_hist s) = h0 \<and> cb_expectedEventTag s = e \<and> \<not> cb_resetStartEventTag s
     \<and> (if save then \<exists>name. cb_fp s = Some (name, []) else cb_fp s = None)"
  have "goes (fresh_test e h0 True) (cfo_open_file B) (\<lambda>_ s. (handled (cb_hist s) = h0 \<and> cb_expectedEventTag s = e \<and> \<not> cb_resetStartEventTag s)
      \<and> (\<exists>name. cb_fp s = Some (name, []))) (\<lambda>s. handled (cb_hist s) = h0)"
    by (rule goes_pre [OF goes_post [OF goes_file [where P = "\<lambda>x y. x = e \<and> \<not> y"]]]) (auto simp: fresh_test_def)
  then have opened: "goes (fresh_test e h0 save) (whenE save (cfo_open_file B)) (\<lambda>_. ?R) (\<lambda>s. handled (cb_hist s) = h0)"
    by (intro goes_whenE) (auto simp: fresh_test_def intro: goes_post)
  have release: "goes ?R (on_cfo (\<lambda>c. bt_try (bt_release B c))) (\<lambda>_. ?R) (\<lambda>s. handled (cb_hist s) = h0)"
    by (rule goes_on_cfo, rule goes_try) auto
  have clear: "\<exists>name. going B e h0 save name (clear_counts (s\<lparr>cb_nextEventWindowTag := cb_expectedEventTag s\<rparr>))" if "?R s" for s
    using that unfolding going_def by (cases save) (auto simp: clear_counts_def accepted_def file_has_def intro!: exI [of _ "[]"])
  have counts: "goes ?R (seqE take_start_tag (modify clear_counts)) (\<lambda>_ s. \<exists>name. going B e h0 save name s) (\<lambda>s. handled (cb_hist s) = h0)"
    using clear by (simp add: goes_def take_start_tag_def seqE_def bindE_def modify_def)
  show ?thesis
    unfolding thread_begin_def
    by (rule goes_bindE [OF goes_gets [where Q = "\<lambda>f s. fresh_test e h0 save s \<and> f = None"]], simp add: fresh_test_def, rule goes_pure,
        simp, rule goes_bindE [OF goes_gets [where Q = "\<lambda>x s. fresh_test e h0 save s \<and> x = save"]], simp add: fresh_test_def, rule goes_pure,
        simp, rule goes_seqE [OF opened], rule goes_seqE [OF release counts])
qed

lemma error_text: "thread_error B m \<noteq> []"
  by (simp add: thread_error_def)

lemma failed_Ret:
  "thread_failed B m s = (Ret x, s') \<Longrightarrow> \<not> cb_running s' \<and> cb_error s' \<noteq> [] \<and> cb_hist s' = cb_hist s \<and> cb_fp s' = cb_fp s
     \<and> (\<forall>e h0 rs bad. accepted B e h0 rs bad s \<longrightarrow> accepted B e h0 rs bad s')"
  by (auto simp: thread_failed_def on_cfo_def bindE_def seqE_def gets_def modify_def undefined_behaviour_def error_text accepted_def
      split: option.splits)

text \<open>
  C12. With no restart, and no halt that closes the file of the thread (\<open>quiet_others\<close>), a thread that ended has accepted
  exactly the records with consecutive tags from the requested one on, of all those it was given up to the first other one;
  its counters and its one recorded jump are those of these records. Without an error there was no such other record, and the file, if one was asked for, holds exactly the words
  of the accepted records and is closed. With an error the file is left open. The only other end is an exception before
  the first record.
\<close>

theorem cfo_stream_exact:
  assumes "quiet_others B" "cb_fp s = None" "\<not> cb_resetStartEventTag s" "detechedBufferTestThread B rounds n s = (Ret (), s')"
  shows "\<not> cb_running s' \<and>
    (handled (cb_hist s') = handled (cb_hist s) \<and> cb_error s' \<noteq> []
     \<or> (\<exists>rs bad name. accepted B (cb_expectedEventTag s) (handled (cb_hist s)) rs bad s'
          \<and> (if cb_error s' = []
             then bad = [] \<and> cb_fp s' = None \<and> (cb_saveBinaryData s \<longrightarrow> (\<exists>h. cb_hist s' = Saved name (concat (map (record_words B) rs)) # h))
             else cb_fp s' = (if cb_saveBinaryData s then Some (name, concat (map (record_words B) rs)) else None))))"
proof -
  let ?e = "cb_expectedEventTag s" and ?h = "handled (cb_hist s)" and ?v = "cb_saveBinaryData s"
  let ?m = "seqE (thread_begin B) (seqE (loopE rounds (cfo_thread_round B n) ()) (seqE (close_file B) (modify (\<lambda>s. s\<lparr>cb_running := False\<rparr>))))"
  let ?E = "\<lambda>s. handled (cb_hist s) = ?h \<or> (\<exists>name. stopped B ?e ?h ?v name s)"
  have loop: "goes (going B ?e ?h ?v name) (loopE rounds (cfo_thread_round B n) ()) (\<lambda>_. going B ?e ?h ?v name) (stopped B ?e ?h ?v name)" for name
    by (rule goes_loopE, rule goes_post [OF goes_round [OF assms(1)]]) (auto split: sum.splits)
  have close: "goes (going B ?e ?h ?v name) (seqE (close_file B) (modify (\<lambda>s. s\<lparr>cb_running := False\<rparr>)))
      (\<lambda>_ s. finished B ?e ?h ?v name s \<and> \<not> cb_running s) ?E" for name
    by (rule goes_seqE [OF goes_close goes_modify]) (auto simp: finished_def accepted_def)
  have "goes (\<lambda>s. \<exists>name. going B ?e ?h ?v name s) (seqE (loopE rounds (cfo_thread_round B n) ()) (seqE (close_file B) (modify (\<lambda>s. s\<lparr>cb_running := False\<rparr>))))
      (\<lambda>_ s. \<exists>name. finished B ?e ?h ?v name s \<and> \<not> cb_running s) ?E"
    by (rule goes_all, rule goes_seqE [OF goes_post [OF loop] goes_post [OF close]]) blast+
  then have "goes (fresh_test ?e ?h ?v) ?m (\<lambda>_ s. \<exists>name. finished B ?e ?h ?v name s \<and> \<not> cb_running s) ?E"
    by (intro goes_seqE [OF goes_post [OF goes_begin]]) blast+
  moreover have "fresh_test ?e ?h ?v s" using assms(2, 3) by (simp add: fresh_test_def)
  ultimately have fin: "\<And>a. fst (?m s) = Ret a \<Longrightarrow> \<exists>name. finished B ?e ?h ?v name (snd (?m s)) \<and> \<not> cb_running (snd (?m s))"
    and err: "\<And>x. fst (?m s) = Throw x \<Longrightarrow> ?E (snd (?m s))" by (auto simp: goes_def)
  show ?thesis
  proof (cases "fst (?m s)")
    case (Ret a)
    then have "s' = snd (?m s)" using assms(4) by (simp add: detechedBufferTestThread_def tryE_cases)
    then show ?thesis using fin [OF Ret] unfolding finished_def by fastforce
  next
    case (Throw x)
    then have f: "thread_failed B x (snd (?m s)) = (Ret (), s')" using assms(4) by (simp add: detechedBufferTestThread_def tryE_cases)
    note F = failed_Ret [OF f]
    from err [OF Throw] show ?thesis
    proof
      assume "\<exists>name. stopped B ?e ?h ?v name (snd (?m s))"
      then obtain name rs bad where "accepted B ?e ?h rs bad (snd (?m s))" "file_has B ?v name rs (snd (?m s))" unfolding stopped_def by blast
      then show ?thesis using F by (intro conjI disjI2 exI [of _ rs] exI [of _ bad] exI [of _ name]) (simp_all add: file_has_def)
    qed (use F in simp)
  qed (use assms(4) in \<open>simp_all add: detechedBufferTestThread_def tryE_cases\<close>)
qed

subsection \<open>After a failure\<close>

text \<open>
  C37. A test that failed while it saved leaves its file open, and then every start ends at once, with an error and without
  a record read: the thread takes the open file for a mistake and leaves it open again.
\<close>

theorem open_file_blocks_start:
  assumes "cb_fp s \<noteq> None" "launch_thread B tag save s = (Ret (), s1)" "detechedBufferTestThread B rounds n s1 = (Ret (), s2)"
  shows "handled (cb_hist s2) = handled (cb_hist s) \<and> cb_fp s2 = cb_fp s \<and> \<not> cb_running s2 \<and> cb_error s2 \<noteq> []"
proof -
  have s1: "cb_fp s1 = cb_fp s" "handled (cb_hist s1) = handled (cb_hist s)"
    using assms(2) by (auto simp: launch_thread_def prepare_test_def seqE_def bindE_def bt_call_def modify_def split: prod.splits)
  have "thread_begin B s1 = (Throw (''Impossible?! File pointer already initialized?'' @ bt_line), s1)"
    using s1 assms(1) by (simp add: thread_begin_def bindE_def gets_def throw_def)
  then have "thread_failed B (''Impossible?! File pointer already initialized?'' @ bt_line) s1 = (Ret (), s2)"
    using assms(3) by (simp add: detechedBufferTestThread_def tryE_def seqE_def bindE_def)
  from failed_Ret [OF this] show ?thesis using s1 by simp
qed

subsection \<open>Examples\<close>

text \<open>A CFO whose first block has the tags 5, 6 and 9, and one that has the next record at every look.\<close>

definition record_of :: "u64 \<Rightarrow> cfo_record" where
  "record_of t = \<lparr>cr_tag = t, cr_raw = [ucast t, 0, 0, 0]\<rparr>"

definition demo_cfo :: "nat bt_lib" where
  "demo_cfo = \<lparr>bt_size = 4, bt_release = (\<lambda>_ e. (Inr (), e)),
     bt_getData = (\<lambda>_ e. (Inr (True, [Some (record_of 5), None, Some (record_of 6), Some (record_of 9)]), Suc e)),
     bt_spy = (\<lambda>_ e. e), bt_clock = (\<lambda>e. (int e, e)), bt_stamp = (\<lambda>e. ((7, 8), e)), bt_dataDir = (\<lambda>e. (Inr ''/data'', e)),
     bt_fopen = (\<lambda>_ e. (True, e)), bt_fclose = (\<lambda>e. e), bt_publishData = (\<lambda>_ e. (Inr (), e)), bt_isPublishing = (\<lambda>e. (False, e)),
     bt_thisCFO = 0, bt_ms_text = (\<lambda>_. []), bt_rate_text = (\<lambda>_ _. []), bt_events_text = (\<lambda>_ _. []), bt_runtime = (\<lambda>_. True), bt_others = (\<lambda>s. s)\<rparr>"

definition busy_cfo :: "nat bt_lib" where
  "busy_cfo = demo_cfo\<lparr>bt_getData := (\<lambda>_ e. (Inr (True, [Some (record_of (of_nat e))]), Suc e))\<rparr>"

lemma demo_quiet: "quiet_others demo_cfo"
proof -
  have "bt_others demo_cfo s = s\<lparr>cb_env := cb_env s, cb_exitThread := cb_exitThread s\<rparr>" for s by (simp add: demo_cfo_def)
  then show ?thesis unfolding quiet_others_def by blast
qed

definition demo_test :: "nat cfo_test" where
  "demo_test = (new_test 0)\<lparr>cb_running := True, cb_thisCFO := Some 0, cb_expectedEventTag := 5, cb_saveBinaryData := True\<rparr>"

definition demo_name :: string where
  "demo_name = ''/data'' @ ''/'' @ ''/macroOutput_'' @ to_string 7 @ ''_'' @ to_string 8 @ ''.bin''"

lemmas demo_simps = detechedBufferTestThread_def thread_begin_def cfo_thread_round_def read_once_def cfo_handleDetachedSubevent_def check_tag_def write_word_def
  publish_record_def cfo_open_file_def take_start_tag_def thread_failed_def on_cfo_def bt_try_def bt_call_def slice_def clear_counts_def
  forE_def eff_simps record_of_def Let_def

lemma one_piece: "piece_starts 4 4 = [0]"
  by (simp add: piece_starts_def)

lemma demo_runs: "\<exists>s'. detechedBufferTestThread demo_cfo (Suc 0) (Suc 0) demo_test = (Ret (), s') \<and> cb_mismatchedEventTagJumps s' = [(7, 9)]
  \<and> cb_error s' \<noteq> [] \<and> cb_fp s' = Some (demo_name, [5, 0, 0, 0, 6, 0, 0, 0]) \<and> handled (cb_hist s') \<noteq> []"
  by (simp add: demo_simps demo_cfo_def demo_test_def new_test_def demo_name_def one_piece error_text)

theorem cfo_stream_exact_witness:
  "\<exists>(s' :: nat cfo_test) rs r name. cb_mismatchedEventTagJumps s' = [(7, 9)] \<and> accepted demo_cfo 5 [] rs [r] s'
     \<and> cb_fp s' = Some (name, concat (map (record_words demo_cfo) rs))"
proof -
  obtain s' where r: "detechedBufferTestThread demo_cfo (Suc 0) (Suc 0) demo_test = (Ret (), s')" and j: "cb_mismatchedEventTagJumps s' = [(7, 9)]"
    and e: "cb_error s' \<noteq> []" "handled (cb_hist s') \<noteq> []"
    using demo_runs by blast
  have d: "cb_fp demo_test = None" "\<not> cb_resetStartEventTag demo_test" "cb_expectedEventTag demo_test = 5" "cb_saveBinaryData demo_test"
    "handled (cb_hist demo_test) = []"
    by (simp_all add: demo_test_def new_test_def)
  obtain rs bad name where a: "accepted demo_cfo 5 [] rs bad s'" "cb_fp s' = Some (name, concat (map (record_words demo_cfo) rs))"
    using cfo_stream_exact [OF demo_quiet d(1, 2) r] e unfolding d(3, 5) if_not_P [OF e(1)] if_P [OF d(4)] by blast
  moreover obtain x where "bad = [x]" using a(1) j by (auto simp: accepted_def)
  ultimately show ?thesis using j by blast
qed

theorem open_file_blocks_start_witness:
  "\<exists>(s :: nat cfo_test) s1 s2. cb_mismatchedEventTagJumps s = [(7, 9)] \<and> launch_thread demo_cfo 0 True s = (Ret (), s1)
     \<and> detechedBufferTestThread demo_cfo 1 1 s1 = (Ret (), s2) \<and> handled (cb_hist s2) = handled (cb_hist s) \<and> cb_error s2 \<noteq> []"
proof -
  obtain s :: "nat cfo_test" where j: "cb_mismatchedEventTagJumps s = [(7, 9)]" and f: "cb_fp s = Some (demo_name, [5, 0, 0, 0, 6, 0, 0, 0])"
    using demo_runs by blast
  obtain s1 where l: "launch_thread demo_cfo 0 True s = (Ret (), s1)" and s1: "cb_fp s1 = cb_fp s" "cb_thisCFO s1 = Some 0"
    by (simp add: launch_thread_def prepare_test_def bt_call_def demo_cfo_def eff_simps)
  have "\<exists>s2. detechedBufferTestThread demo_cfo 1 1 s1 = (Ret (), s2)"
    using f s1 by (simp add: detechedBufferTestThread_def thread_begin_def thread_failed_def on_cfo_def eff_simps)
  then obtain s2 where r: "detechedBufferTestThread demo_cfo 1 1 s1 = (Ret (), s2)" by blast
  have "cb_fp s \<noteq> None" using f by simp
  from open_file_blocks_start [OF this l r] show ?thesis using j l r by blast
qed

text \<open>The exit is asked for between two rounds only: while every look at the DMA gives data, the loop over it does not end.\<close>

theorem busy_dma_hides_exit:
  assumes "cb_thisCFO s = Some c" "cb_nextEventWindowTag s = of_nat (cb_env s)"
  shows "fst (loopE n (\<lambda>_. read_once busy_cfo) () s) = Spin"
  using assms
proof (induction n arbitrary: s)
  case (Suc n)
  have "\<exists>s'. read_once busy_cfo s = (Ret (Inl ()), s') \<and> cb_thisCFO s' = Some c \<and> cb_nextEventWindowTag s' = of_nat (cb_env s')"
    using Suc.prems by (simp add: demo_simps busy_cfo_def demo_cfo_def one_piece split: option.splits)
  then obtain s' where "read_once busy_cfo s = (Ret (Inl ()), s')" "cb_thisCFO s' = Some c" "cb_nextEventWindowTag s' = of_nat (cb_env s')"
    by blast
  then show ?case using Suc.IH by (simp add: bindE_def)
qed simp

end
