(* ===== verification/Template_Plan.thy ===== *)
theory Template_Plan
  imports Run_Plan_Macros
begin

section \<open>The template run plans of the CFO\<close>

text \<open>
  Two macros of the CFO front end (otsdaq-mu2e/FEInterfaces/CFOFrontEndInterfaceImpl.cc) write a run plan from a
  template, compile, load and start it: super cycles of on-spill and off-spill events, and a number of events of one
  mode and duration. The front end keeps the tag at which the next plan is to start. The start of the CFO's Buffer Test
  (theory \<open>Cfo_Buffer\<close>) is an argument.
\<close>

subsection \<open>The text\<close>

datatype heartbeat = On_spill | Off_spill | With_mode u64 | Null_heartbeat

datatype template_op = T_SET_TAG u64 | T_LABEL | T_LOOP nat string | T_DO_LOOP | T_GOTO_LABEL
  | T_HEARTBEAT heartbeat | T_MARKER | T_WAIT string string | T_INC_TAG | T_END

definition heartbeat_text :: "heartbeat \<Rightarrow> string" where
  "heartbeat_text h =
     (case h of On_spill \<Rightarrow> ''0x100000019'' | Off_spill \<Rightarrow> ''0x00000020'' | With_mode v \<Rightarrow> to_string (unat v) | Null_heartbeat \<Rightarrow> ''0 // null heartbeat!'')"

definition template_text :: "template_op \<Rightarrow> string" where
  "template_text p =
     (case p of
        T_SET_TAG t \<Rightarrow> ''SET_TAG '' @ to_string (unat t)
      | T_LABEL \<Rightarrow> ''LABEL''
      | T_LOOP n comment \<Rightarrow> ''LOOP '' @ to_string n @ comment
      | T_DO_LOOP \<Rightarrow> ''DO_LOOP''
      | T_GOTO_LABEL \<Rightarrow> ''GOTO_LABEL''
      | T_HEARTBEAT h \<Rightarrow> ''HEARTBEAT event_mode= '' @ heartbeat_text h
      | T_MARKER \<Rightarrow> ''MARKER''
      | T_WAIT v u \<Rightarrow> ''WAIT '' @ v @ '' '' @ u
      | T_INC_TAG \<Rightarrow> ''INC_TAG //increment event window tag''
      | T_END \<Rightarrow> ''END'')"

definition template_lines_text :: "(nat \<times> template_op) list \<Rightarrow> string" where
  "template_lines_text ls = concat (map (\<lambda>(d, p). replicate d (CHR 0x09) @ template_text p @ line_end) ls)"

definition spill_lines :: "nat \<Rightarrow> heartbeat \<Rightarrow> string \<Rightarrow> string \<Rightarrow> (nat \<times> template_op) list" where
  "spill_lines n h t u =
     [(1, T_LOOP n '' //32-bits''), (2, T_HEARTBEAT h), (2, T_MARKER), (2, T_WAIT t u), (2, T_INC_TAG), (1, T_DO_LOOP)]"

definition super_cycle_lines :: "u32 \<Rightarrow> u64 \<Rightarrow> (nat \<times> template_op) list" where
  "super_cycle_lines n tag =
     (0, T_SET_TAG tag) # (0, if n > 0 then T_LOOP (unat n) [] else T_LABEL)
     # spill_lines 235000 On_spill ''1.7'' ''us'' @ spill_lines 10000 Off_spill ''100'' ''us''
     @ (if n > 0 then [(0, T_DO_LOOP), (0, T_END)] else [(0, T_GOTO_LABEL)])"

definition fixed_width_lines :: "u32 \<Rightarrow> u64 \<Rightarrow> u64 \<Rightarrow> string \<Rightarrow> string \<Rightarrow> (nat \<times> template_op) list" where
  "fixed_width_lines n tag v num units =
     [(0, T_SET_TAG tag), (0, if n > 1 then T_LOOP (unat (n - 1)) [] else T_LABEL),
      (1, T_HEARTBEAT (if n \<noteq> 1 then With_mode v else Null_heartbeat)), (1, T_MARKER), (1, T_WAIT num units), (1, T_INC_TAG)]
     @ (if n > 1 then (0, T_DO_LOOP) # (if n > 0 then [(0, T_HEARTBEAT Null_heartbeat), (0, T_MARKER)] else []) @ [(0, T_END)]
        else [(0, T_GOTO_LABEL)])"

subsection \<open>The macros\<close>

definition write_template :: "'e cfolib \<Rightarrow> string \<Rightarrow> (nat \<times> template_op) list \<Rightarrow> ('e, unit) cfo_eff" where
  "write_template C path ls =
     bindE (cfo_io (\<lambda>e. case cf_write_file C path (template_lines_text ls) e of (opened, e) \<Rightarrow> (Inr opened, e))) (\<lambda>opened.
     whenE (\<not> opened) (throw (''Error - please check path. Generated Run Plan file from template could not be created at '' @ path @ line_end)))"

text \<open>How the plan runs: enabled, with the Buffer Test, with clock markers; the test saves, and keeps its counters.\<close>

record launch_args =
  la_enable :: bool
  la_bufferTest :: bool
  la_clockMarkers :: bool
  la_save :: bool
  la_keepCounters :: bool

type_synonym 'e start_bt = "u64 \<Rightarrow> bool \<Rightarrow> bool \<Rightarrow> ('e, unit) cfo_eff"

definition halt_plan :: "'e cfolib \<Rightarrow> ('e, unit) cfo_eff" where
  "halt_plan C = seqE (cfo_halt C) (seqE (cfo_do C DisableBeamOnMode) (cfo_do C DisableBeamOffMode))"

definition EnableOrDisableClockMarkers :: "'e cfolib \<Rightarrow> bool \<Rightarrow> ('e, unit) cfo_eff" where
  "EnableOrDisableClockMarkers C on = cfo_do C (if on then EnableEmbeddedClockMarker else DisableEmbeddedClockMarker)"

definition cfo_wait :: "'e cfolib \<Rightarrow> u64 \<Rightarrow> ('e, unit) cfo_eff" where
  "cfo_wait C us = modify (\<lambda>s. s\<lparr>cs_env := cf_usleep C us (cs_env s)\<rparr>)"

text \<open>From the compilation on: load, start the test, markers, links, run.\<close>

definition load_and_launch :: "'e cfolib \<Rightarrow> 'e start_bt \<Rightarrow> launch_args \<Rightarrow> string \<Rightarrow> u64 \<Rightarrow> ('e, string) cfo_eff" where
  "load_and_launch C bt A base tag =
     bindE (compile C base) (\<lambda>compiled.
     bindE (SetRunplan C (out_file base)) (\<lambda>loaded.
     seqE (whenE (la_bufferTest A) (seqE (bt tag (la_save A) (la_keepCounters A)) (cfo_wait C 1000000)))
    (seqE (EnableOrDisableClockMarkers C (la_clockMarkers A))
    (seqE (cfo_do C EnableLink)
    (seqE (cfo_do C EnableBeamOffMode)
    (ret (line_end @ compiled @ loaded @ line_end @ line_end @ ''Launched CFO Run Plan!'' @ line_end)))))))"

definition CompileSetAndLaunchTemplateSuperCycleRunPlan ::
  "'e cfolib \<Rightarrow> 'e start_bt \<Rightarrow> launch_args \<Rightarrow> u32 \<Rightarrow> u64 \<Rightarrow> ('e, string) cfo_eff" where
  "CompileSetAndLaunchTemplateSuperCycleRunPlan C bt A n tag =
     seqE (halt_plan C)
     (if \<not> la_enable A then ret (''Halted CFO Emulator!'' @ line_end)
      else seqE (cfo_do C CfoSoftReset)
          (bindE (data_path C) (\<lambda>base.
           seqE (write_template C (in_file base) (super_cycle_lines n tag))
                (load_and_launch C bt A base tag))))"

definition CompileSetAndLaunchTemplateFixedWidthRunPlan ::
  "'e cfolib \<Rightarrow> 'e start_bt \<Rightarrow> launch_args \<Rightarrow> string \<Rightarrow> u32 \<Rightarrow> u64 \<Rightarrow> u64 \<Rightarrow> ('e, string) cfo_eff" where
  "CompileSetAndLaunchTemplateFixedWidthRunPlan C bt A eventDuration n tag v =
     (if v = - 1
      then throw (''Error - invalid eventWindowMode value. The value -1 is reserved in the CFO Run Plan to mean '' @ [CHR 0x27]
             @ ''leave the current event window mode unchanged'' @ [CHR 0x27]
             @ '' and is not allowed for a fixed-width run plan. Please use a value other than -1.'' @ line_end)
      else
      seqE (halt_plan C)
      (if \<not> la_enable A then ret (''Halted CFO Emulator!'' @ line_end)
       else seqE (cfo_do C CfoSoftReset)
           (bindE (data_path C) (\<lambda>base.
            bindE (parseEventDurationForRunPlan eventDuration) (\<lambda>(num, units).
            seqE (write_template C (in_file base) (fixed_width_lines n tag v num units))
                 (load_and_launch C bt A base tag))))))"

text \<open>The front-end macros: the tag to start at (by default the one kept), the tag kept for the next plan, and the effect.\<close>

definition start_tag :: "u64 \<Rightarrow> u64 \<Rightarrow> u64" where
  "start_tag next tag = (if tag = - 1 then next else tag)"

definition super_cycle_next :: "u64 \<Rightarrow> u32 \<Rightarrow> u64" where
  "super_cycle_next tag n = tag + ucast (n * n)"

definition SuperCycleRunPlan_macro ::
  "'e cfolib \<Rightarrow> 'e start_bt \<Rightarrow> launch_args \<Rightarrow> u64 \<Rightarrow> u64 \<Rightarrow> u32 \<Rightarrow> u64 \<times> ('e, string) cfo_eff" where
  "SuperCycleRunPlan_macro C bt A next tag n =
     (super_cycle_next (start_tag next tag) n,
      CompileSetAndLaunchTemplateSuperCycleRunPlan C bt A n (start_tag next tag))"

definition fixed_width_next :: "u64 \<Rightarrow> u32 \<Rightarrow> u64" where
  "fixed_width_next tag n = tag + ucast n"

definition FixedWidthRunPlan_macro ::
  "'e cfolib \<Rightarrow> 'e start_bt \<Rightarrow> launch_args \<Rightarrow> string \<Rightarrow> u64 \<Rightarrow> u64 \<Rightarrow> u32 \<Rightarrow> u64 \<Rightarrow> bool \<Rightarrow> u64 \<times> ('e, string) cfo_eff" where
  "FixedWidthRunPlan_macro C bt A eventDuration next tag n v onSpill =
     (fixed_width_next (start_tag next tag) n,
      CompileSetAndLaunchTemplateFixedWidthRunPlan C bt A eventDuration n (start_tag next tag) (if onSpill then v OR 0x100000000 else v))"

definition ResetRunplan :: "'e cfolib \<Rightarrow> ('e, unit) cfo_eff" where
  "ResetRunplan C = seqE (halt_plan C) (cfo_do C CfoSoftReset)"

definition LaunchRunplan :: "'e cfolib \<Rightarrow> ('e, unit) cfo_eff" where
  "LaunchRunplan C =
     seqE (cfo_do C DisableBeamOffMode)
    (seqE (cfo_do C DisableBeamOnMode)
    (seqE (cfo_do C CfoSoftReset)
    (seqE (cfo_wait C 10)
          (cfo_do C EnableBeamOffMode))))"

subsection \<open>What a plan sends\<close>

text \<open>
  A plan with its loops: a list of statements. A plan that jumps back to its label never ends; it is cut after \<open>r\<close> rounds.
  The state of the CFO is its tag, the heartbeats sent, each with its tag and mode, and the number of event window
  markers.
\<close>

datatype stmt = Do template_op | Repeat nat "stmt list"

fun parse_plan :: "nat \<Rightarrow> template_op list \<Rightarrow> (nat \<times> stmt list) list \<Rightarrow> stmt list \<Rightarrow> stmt list option" where
  "parse_plan r [] stack ss = (if stack = [] then Some (rev ss) else None)"
| "parse_plan r (T_LOOP n _ # ops) stack ss = parse_plan r ops ((n, ss) # stack) []"
| "parse_plan r (T_LABEL # ops) stack ss = parse_plan r ops ((r, ss) # stack) []"
| "parse_plan r (T_DO_LOOP # ops) stack ss =
     (case stack of [] \<Rightarrow> None | (n, before) # stack \<Rightarrow> parse_plan r ops stack (Repeat n (rev ss) # before))"
| "parse_plan r (T_GOTO_LABEL # ops) stack ss =
     (case stack of [(n, before)] \<Rightarrow> Some (rev (Repeat n (rev ss) # before)) | _ \<Rightarrow> None)"
| "parse_plan r (p # ops) stack ss = parse_plan r ops stack (Do p # ss)"

type_synonym sent_state = "u64 \<times> (u64 \<times> u64) list \<times> nat"

definition heartbeat_mode :: "heartbeat \<Rightarrow> u64" where
  "heartbeat_mode h = (case h of On_spill \<Rightarrow> 0x100000019 | Off_spill \<Rightarrow> 0x20 | With_mode v \<Rightarrow> v | Null_heartbeat \<Rightarrow> 0)"

fun do_op :: "template_op \<Rightarrow> sent_state \<Rightarrow> sent_state" where
  "do_op (T_SET_TAG t) (tag, hs, ms) = (t, hs, ms)"
| "do_op (T_HEARTBEAT h) (tag, hs, ms) = (tag, hs @ [(tag, heartbeat_mode h)], ms)"
| "do_op T_MARKER (tag, hs, ms) = (tag, hs, Suc ms)"
| "do_op T_INC_TAG (tag, hs, ms) = (tag + 1, hs, ms)"
| "do_op _ \<sigma> = \<sigma>"

fun do_stmt :: "stmt \<Rightarrow> sent_state \<Rightarrow> sent_state" and do_stmts :: "stmt list \<Rightarrow> sent_state \<Rightarrow> sent_state" where
  "do_stmt (Do p) \<sigma> = do_op p \<sigma>"
| "do_stmt (Repeat n ss) \<sigma> = ((do_stmts ss) ^^ n) \<sigma>"
| "do_stmts [] \<sigma> = \<sigma>"
| "do_stmts (s # ss) \<sigma> = do_stmts ss (do_stmt s \<sigma>)"

definition run_template :: "nat \<Rightarrow> (nat \<times> template_op) list \<Rightarrow> sent_state option" where
  "run_template r ls = map_option (\<lambda>ss. do_stmts ss (0, [], 0)) (parse_plan r (map snd ls) [] [])"

end
