(* ===== verification/Template_Events.thy ===== *)
theory Template_Events
  imports Template_Plan
begin

section \<open>The events of the template run plans\<close>

text \<open>
  Which heartbeats the generated plans send, with which tags and modes, and which tag the front end keeps for the
  next plan.
\<close>

subsection \<open>Loops\<close>

text \<open>\<open>train tag v n\<close>: \<open>n\<close> heartbeats of one mode with consecutive tags.\<close>

definition train :: "u64 \<Rightarrow> u64 \<Rightarrow> nat \<Rightarrow> (u64 \<times> u64) list" where
  "train tag v n = map (\<lambda>k. (tag + of_nat k, v)) [0..<n]"

lemma train_Suc: "train tag v (Suc n) = train tag v n @ [(tag + of_nat n, v)]"
  by (simp add: train_def)

abbreviation event_body :: "heartbeat \<Rightarrow> string \<Rightarrow> string \<Rightarrow> stmt list" where
  "event_body h t u \<equiv> [Do (T_HEARTBEAT h), Do T_MARKER, Do (T_WAIT t u), Do T_INC_TAG]"

lemma repeat_events:
  "do_stmt (Repeat n (event_body h t u)) (tag, hs, ms) = (tag + of_nat n, hs @ train tag (heartbeat_mode h) n, ms + n)"
  by (induction n) (simp_all add: train_Suc, simp add: train_def)

text \<open>\<open>cycles tag a b n\<close>: \<open>n\<close> times \<open>a\<close> on-spill and \<open>b\<close> off-spill events.\<close>

definition cycles :: "u64 \<Rightarrow> nat \<Rightarrow> nat \<Rightarrow> nat \<Rightarrow> (u64 \<times> u64) list" where
  "cycles tag a b n =
     map (\<lambda>k. (tag + of_nat k, if k mod (a + b) < a then heartbeat_mode On_spill else heartbeat_mode Off_spill)) [0..<n * (a + b)]"

lemma train_shift: "train (tag + of_nat i) v n = map (\<lambda>k. (tag + of_nat k, v)) [i..<i + n]"
proof -
  have "[i..<i + n] = map (\<lambda>k. k + i) [0..<n]" by (simp add: map_add_upt add.commute)
  then show ?thesis by (simp add: train_def comp_def algebra_simps)
qed

lemma cycles_Suc:
  "cycles tag a b (Suc n) = cycles tag a b n @ train (tag + of_nat (n * (a + b))) (heartbeat_mode On_spill) a
     @ train (tag + of_nat (n * (a + b) + a)) (heartbeat_mode Off_spill) b"
proof -
  let ?i = "n * (a + b)"
  let ?f = "\<lambda>k. (tag + of_nat k, if k mod (a + b) < a then heartbeat_mode On_spill else heartbeat_mode Off_spill)"
  have "[0..<Suc n * (a + b)] = [0..<?i] @ [?i..<?i + a] @ [?i + a..<?i + a + b]"
    using upt_add_eq_append [of 0 ?i "a + b"] upt_add_eq_append [of ?i "?i + a" b] by (simp add: algebra_simps)
  then have "cycles tag a b (Suc n) = cycles tag a b n @ map ?f [?i..<?i + a] @ map ?f [?i + a..<?i + a + b]"
    unfolding cycles_def by simp
  moreover have "map ?f [?i..<?i + a] = train (tag + of_nat ?i) (heartbeat_mode On_spill) a"
  proof -
    have "k mod (a + b) < a" if "k \<in> set [?i..<?i + a]" for k
    proof -
      from that obtain j where "k = j + n * (a + b)" "j < a" by (auto intro: that [of "k - ?i"])
      then show ?thesis by simp
    qed
    then show ?thesis unfolding train_shift by simp
  qed
  moreover have "map ?f [?i + a..<?i + a + b] = train (tag + of_nat (?i + a)) (heartbeat_mode Off_spill) b"
  proof -
    have "\<not> k mod (a + b) < a" if "k \<in> set [?i + a..<?i + a + b]" for k
    proof -
      from that obtain j where "k = (a + j) + n * (a + b)" "j < b" by (auto intro: that [of "k - ?i - a"])
      then show ?thesis by simp
    qed
    then show ?thesis unfolding train_shift by simp
  qed
  ultimately show ?thesis by simp
qed

lemma cycle_once:
  "do_stmts [Repeat a (event_body On_spill t u), Repeat b (event_body Off_spill t' u')] (tag, hs, ms)
     = (tag + of_nat (a + b), hs @ train tag (heartbeat_mode On_spill) a @ train (tag + of_nat a) (heartbeat_mode Off_spill) b, ms + (a + b))"
  by (simp only: do_stmts.simps repeat_events) (simp add: algebra_simps)

lemma repeat_cycles:
  "do_stmt (Repeat n [Repeat a (event_body On_spill t u), Repeat b (event_body Off_spill t' u')]) (tag, hs, ms)
     = (tag + of_nat (n * (a + b)), hs @ cycles tag a b n, ms + n * (a + b))"
proof (induction n)
  case 0
  show ?case by (simp add: cycles_def)
next
  case (Suc n)
  have "do_stmt (Repeat (Suc n) [Repeat a (event_body On_spill t u), Repeat b (event_body Off_spill t' u')]) (tag, hs, ms)
    = do_stmts [Repeat a (event_body On_spill t u), Repeat b (event_body Off_spill t' u')]
        (do_stmt (Repeat n [Repeat a (event_body On_spill t u), Repeat b (event_body Off_spill t' u')]) (tag, hs, ms))"
    by (simp del: do_stmts.simps)
  then show ?case
    unfolding Suc.IH cycle_once cycles_Suc by (simp add: algebra_simps)
qed

subsection \<open>Super cycles\<close>

lemma super_parse:
  assumes "n > 0"
  shows "parse_plan r (map snd (super_cycle_lines n tag)) [] []
    = Some [Do (T_SET_TAG tag), Repeat (unat n) [Repeat 235000 (event_body On_spill ''1.7'' ''us''), Repeat 10000 (event_body Off_spill ''100'' ''us'')], Do T_END]"
  using assms by (simp add: super_cycle_lines_def spill_lines_def)

lemma super_run:
  assumes "n > 0"
  shows "run_template r (super_cycle_lines n tag) = Some (tag + of_nat (unat n * (235000 + 10000)), cycles tag 235000 10000 (unat n), unat n * (235000 + 10000))"
  unfolding run_template_def super_parse [OF assms]
  by (simp only: option.map do_stmt.simps(1) do_stmts.simps do_op.simps repeat_cycles append_Nil add_0)

lemma cycles_length: "length (cycles tag a b n) = n * (a + b)"
  by (simp add: cycles_def)

lemma cycles_nth:
  "k < n * (a + b) \<Longrightarrow> cycles tag a b n ! k
     = (tag + of_nat k, if k mod (a + b) < a then heartbeat_mode On_spill else heartbeat_mode Off_spill)"
  by (simp add: cycles_def)

lemma ucast_square: "(ucast (n * n :: u32) :: u64) = of_nat (unat (n * n))"
  by (simp add: unsigned_ucast_eq)

lemma square_less:
  assumes "(0 :: u32) < n"
  shows "unat (n * n) < unat n * 245000"
proof (cases "unat n < 65536")
  case True
  have n: "0 < unat n" using assms by (simp add: unat_gt_0)
  have "unat (n * n) \<le> unat n * unat n" by (simp add: unat_word_ariths)
  also have "\<dots> < unat n * 245000" using True n by simp
  finally show ?thesis .
next
  case False
  have "unat (n * n) < 2 ^ 32" using unsigned_less [of "n * n"] by simp
  also have "\<dots> \<le> 65536 * (245000 :: nat)" by simp
  also have "\<dots> \<le> unat n * 245000" using False by simp
  finally show ?thesis .
qed

lemma cycles_member:
  assumes "k < n * (a + b)"
  shows "tag + of_nat k \<in> fst ` set (cycles tag a b n)"
proof -
  have "cycles tag a b n ! k \<in> set (cycles tag a b n)" by (rule nth_mem) (simp only: cycles_length assms)
  then show ?thesis using cycles_nth [OF assms, of tag] by force
qed

lemma super_events:
  assumes "n > 0"
  shows "\<exists>hs. run_template r (super_cycle_lines n tag) = Some (tag + of_nat (unat n * 245000), hs, unat n * 245000)
    \<and> length hs = unat n * 245000
    \<and> (\<forall>k<unat n * 245000. hs ! k = (tag + of_nat k, if k mod 245000 < 235000 then 0x100000019 else 0x20))
    \<and> super_cycle_next tag n \<in> fst ` set hs"
proof -
  have sum: "235000 + 10000 = (245000 :: nat)" by simp
  have modes: "heartbeat_mode On_spill = 0x100000019" "heartbeat_mode Off_spill = 0x20" by (simp_all add: heartbeat_mode_def)
  show ?thesis
    by (intro exI conjI allI impI, rule super_run [OF assms, of r tag, unfolded sum], rule cycles_length [of tag 235000 10000, unfolded sum],
        erule cycles_nth [of _ "unat n" 235000 10000 tag, unfolded sum modes],
        unfold super_cycle_next_def ucast_square, rule cycles_member, unfold sum, rule square_less [OF assms])
qed


text \<open>
  C38. A plan of \<open>n > 0\<close> super cycles sends \<open>n * 245000\<close> heartbeats with consecutive tags from the one asked for on (or
  the kept one), in every cycle first 235000 of the on-spill mode and then 10000 of the off-spill mode. But the tag the
  macro keeps for the next plan, \<open>n * n\<close> after the first, is not behind the last one: this plan sends it.
\<close>

theorem super_cycle_events:
  assumes "n > 0"
  shows "\<exists>hs. run_template r (super_cycle_lines n (start_tag next tag))
       = Some (start_tag next tag + of_nat (unat n * 245000), hs, unat n * 245000)
    \<and> length hs = unat n * 245000
    \<and> (\<forall>k<unat n * 245000. hs ! k = (start_tag next tag + of_nat k, if k mod 245000 < 235000 then 0x100000019 else 0x20))
    \<and> fst (SuperCycleRunPlan_macro C bt A next tag n) \<in> fst ` set hs"
  unfolding SuperCycleRunPlan_macro_def fst_conv by (rule super_events [OF assms])

text \<open>Two cycles from tag 1000 on: tags up to 490999 are used, tag 1004 is kept.\<close>

theorem super_cycle_events_witness:
  "\<exists>hs. run_template 0 (super_cycle_lines 2 1000) = Some (491000, hs, 490000)
    \<and> hs ! 234999 = (235999, 0x100000019) \<and> hs ! 235000 = (236000, 0x20) \<and> 1004 \<in> fst ` set hs"
proof -
  have tag: "start_tag 7 1000 = 1000" by (simp add: start_tag_def)
  have next_tag: "fst (SuperCycleRunPlan_macro C bt A 7 1000 2) = 1004" for C :: "unit cfolib" and bt A
    by (simp add: SuperCycleRunPlan_macro_def super_cycle_next_def tag)
  obtain hs where hs: "run_template 0 (super_cycle_lines 2 1000) = Some (1000 + of_nat (unat (2 :: u32) * 245000), hs, unat (2 :: u32) * 245000)"
    "\<forall>k<unat (2 :: u32) * 245000. hs ! k = (1000 + of_nat k, if k mod 245000 < 235000 then 0x100000019 else 0x20)"
    "1004 \<in> fst ` set hs"
    using super_cycle_events [of 2 0 7 1000 "undefined :: unit cfolib" undefined undefined] unfolding tag next_tag by auto
  moreover have "unat (2 :: u32) * 245000 = 490000" by simp
  ultimately show ?thesis by (intro exI [of _ hs]) simp
qed

subsection \<open>Events of one width\<close>

lemma fixed_parse:
  "parse_plan r (map snd (fixed_width_lines n tag v num units)) [] []
    = Some (if n > 1
        then [Do (T_SET_TAG tag), Repeat (unat (n - 1)) (event_body (With_mode v) num units),
              Do (T_HEARTBEAT Null_heartbeat), Do T_MARKER, Do T_END]
        else [Do (T_SET_TAG tag), Repeat r (event_body (if n \<noteq> 1 then With_mode v else Null_heartbeat) num units)])"
proof (cases "n > 1")
  case True
  then have "n \<noteq> 1" "n > 0" by (auto simp: word_less_nat_alt)
  with True show ?thesis by (simp add: fixed_width_lines_def)
next
  case False
  then show ?thesis by (simp add: fixed_width_lines_def)
qed

lemma fixed_modes: "heartbeat_mode (With_mode v) = v" "heartbeat_mode Null_heartbeat = 0"
  by (simp_all add: heartbeat_mode_def)

lemma unat_pred: "(1 :: u32) < n \<Longrightarrow> unat (n - 1) = unat n - 1 \<and> 1 \<le> unat n"
  by (auto simp: word_less_nat_alt unat_sub word_le_nat_alt)

text \<open>
  C39. A plan for \<open>n > 1\<close> event windows sends \<open>n\<close> heartbeats with consecutive tags, each with a marker: all of the
  requested mode but the last, which is null. The tag kept for the next plan is the one behind the last. A count of 0
  sends the mode without end; so does a count of 1, but with null heartbeats only: after every number \<open>r\<close> of rounds
  \<open>r\<close> tags are used, not the one that the kept tag accounts for.
\<close>

theorem fixed_width_events:
  "run_template r (fixed_width_lines n (start_tag next tag) w num units)
     = Some (if n > 1
             then (start_tag next tag + of_nat (unat n - 1),
                   train (start_tag next tag) w (unat n - 1) @ [(start_tag next tag + of_nat (unat n - 1), 0)], unat n)
             else (start_tag next tag + of_nat r, train (start_tag next tag) (if n = 1 then 0 else w) r, r))
   \<and> fst (FixedWidthRunPlan_macro C bt A eventDuration next tag n v onSpill) = start_tag next tag + of_nat (unat n)"
proof (cases "n > 1")
  case True
  then show ?thesis
    using unat_pred [OF True]
    by (simp add: run_template_def fixed_parse repeat_events fixed_modes FixedWidthRunPlan_macro_def fixed_width_next_def del: do_stmt.simps(2))
next
  case False
  then show ?thesis
    by (simp add: run_template_def fixed_parse repeat_events fixed_modes FixedWidthRunPlan_macro_def fixed_width_next_def del: do_stmt.simps(2))
qed

end
