(* ===== verification/Cfo_Configure.thy ===== *)
theory Cfo_Configure
  imports Template_Plan "HOL-Library.Sublist"
begin

section \<open>The configure transition of the CFO\<close>

text \<open>
  The state machine of the CFO front end (otsdaq-mu2e/FEInterfaces/CFOFrontEndInterfaceImpl.cc) and what it inherits
  (otsdaq-mu2e/CFOandDTCCore/CFOandDTCCoreVInterface.cc). The framework calls \<^verbatim>\<open>configure\<close> again and again, with an
  iteration and a sub-iteration index; the front end asks for another call with flags. The iterations are the phases
  of the bring-up of the timing chain: clocks, links, clock-data recovery of the DTCs, the clock edges, resets.
  The framework, the configuration tree and the macros of the other front ends are the record \<open>felib\<close>.
\<close>

subsection \<open>The front end\<close>

text \<open>What the front end does is traced, the latest first: calls of the CFO, a plan launched, macros of other front ends
  with their answers.\<close>

type_synonym macro_args = "(string \<times> string) list"

datatype fe_event = Called cfo_call | Launched | Ran string string "string + macro_args"

record 'e cfo_fe =
  fs_cfo :: "'e cfo"
  fs_iteration :: u32
  fs_sub :: u32
  fs_pass :: u32
  fs_iterationWork :: bool
  fs_subWork :: bool
  fs_passWork :: bool
  fs_phaseBase :: u32
  fs_first :: u32
  fs_clean :: int
  fs_next_tag :: u64
  fs_timeAlive :: u32
  fs_timeRead :: int
  fs_trace :: "fe_event list"

text \<open>The configuration tree, as far as it is read: \<open>None\<close> where a node is missing and reading it throws.\<close>

record fe_node =
  fn_uid :: string
  fn_enabled :: bool
  fn_plugin :: "string option"

record app_node =
  an_enabled :: bool
  an_fes :: "fe_node list option"

record ctx_node =
  cn_enabled :: bool
  cn_apps :: "app_node list option"

record 'e felib =
  fl_cfo :: "'e cfolib"
  fl_modeText :: string
  fl_skipInit :: bool
  fl_configure_clock :: bool
  fl_selectSource :: "u32 option"
  fl_autoEnable :: "bool option"
  fl_autoDuration :: "string option"
  fl_contexts :: "string + ctx_node list"
  fl_siblings :: "string list option"
  fl_standalone :: bool
  fl_isFirst :: "u32 \<Rightarrow> u32 \<Rightarrow> bool"
  fl_minReady :: u32
  fl_syncStep :: "u32 \<Rightarrow> u32 \<Rightarrow> u32"
  fl_selfMacro :: "string \<Rightarrow> string \<Rightarrow> macro_args \<Rightarrow> 'e \<Rightarrow> (string + macro_args) \<times> 'e"
  fl_remoteMacro :: "string \<Rightarrow> string \<Rightarrow> macro_args \<Rightarrow> 'e \<Rightarrow> (string + macro_args) \<times> 'e"
  fl_argOut :: "macro_args \<Rightarrow> string \<Rightarrow> string + string"
  fl_jaLocked :: "'e \<Rightarrow> (string + bool) \<times> 'e"
  fl_jaSelect :: "u32 \<Rightarrow> bool \<Rightarrow> 'e \<Rightarrow> (string + unit) \<times> 'e"
  fl_jaCSR :: "'e \<Rightarrow> (string + u32) \<times> 'e"
  fl_timeAlive :: "'e \<Rightarrow> (string + u32) \<times> 'e"
  fl_time :: "'e \<Rightarrow> int \<times> 'e"

type_synonym ('e, 'a) fe_eff = "('e cfo_fe, 'a) eff"

definition fe_board :: "('e cfo, 'a) eff \<Rightarrow> ('e, 'a) fe_eff" where
  "fe_board m s = (case m (fs_cfo s) of (x, c) \<Rightarrow> (x, s\<lparr>fs_cfo := c\<rparr>))"

definition fe_do :: "'e felib \<Rightarrow> cfo_call \<Rightarrow> ('e, unit) fe_eff" where
  "fe_do L c = seqE (modify (\<lambda>s. s\<lparr>fs_trace := Called c # fs_trace s\<rparr>)) (fe_board (cfo_do (fl_cfo L) c))"

definition fe_now :: "'e felib \<Rightarrow> ('e, int) fe_eff" where
  "fe_now L = fe_board (cfo_io (\<lambda>e. case fl_time L e of (t, e) \<Rightarrow> (Inr t, e)))"

definition indicateIterationWork :: "('e, unit) fe_eff" where
  "indicateIterationWork = modify (\<lambda>s. s\<lparr>fs_iterationWork := True\<rparr>)"

definition indicateSubIterationWork :: "('e, unit) fe_eff" where
  "indicateSubIterationWork = modify (\<lambda>s. s\<lparr>fs_subWork := True\<rparr>)"

definition indicatePassWork :: "('e, unit) fe_eff" where
  "indicatePassWork = modify (\<lambda>s. s\<lparr>fs_passWork := True\<rparr>)"

subsection \<open>What the core interface gives\<close>

fun fe_uids :: "string \<Rightarrow> fe_node list \<Rightarrow> string list" where
  "fe_uids p [] = []"
| "fe_uids p (f # fs) =
     (if \<not> fn_enabled f then fe_uids p fs
      else case fn_plugin f of
        None \<Rightarrow> []
      | Some q \<Rightarrow> if q \<noteq> p then fe_uids p fs else fn_uid f # fe_uids p fs)"

definition app_uids :: "string \<Rightarrow> app_node \<Rightarrow> string list" where
  "app_uids p a = (if \<not> an_enabled a then [] else case an_fes a of None \<Rightarrow> [] | Some fs \<Rightarrow> fe_uids p fs)"

definition ctx_uids :: "string \<Rightarrow> ctx_node \<Rightarrow> string list" where
  "ctx_uids p c = (if \<not> cn_enabled c then [] else case cn_apps c of None \<Rightarrow> [] | Some as \<Rightarrow> concat (map (app_uids p) as))"

definition getSubsystemFEUIDsOfPlugin :: "'e felib \<Rightarrow> string \<Rightarrow> ('s, string list) eff" where
  "getSubsystemFEUIDsOfPlugin L p =
     (case fl_contexts L of Inl m \<Rightarrow> throw m | Inr cs \<Rightarrow> ret (concat (map (ctx_uids p) cs)))"

definition subsystemHasCFO :: "'e felib \<Rightarrow> ('s, bool) eff" where
  "subsystemHasCFO L = bindE (getSubsystemFEUIDsOfPlugin L ''CFOFrontEndInterface'') (\<lambda>us. ret (us \<noteq> []))"

definition runs_here :: "'e felib \<Rightarrow> string \<Rightarrow> bool" where
  "runs_here L uid = (case fl_siblings L of None \<Rightarrow> False | Some us \<Rightarrow> uid \<in> set us)"

definition runSubsystemFrontEndMacro :: "'e felib \<Rightarrow> string \<Rightarrow> string \<Rightarrow> macro_args \<Rightarrow> ('e, macro_args) fe_eff" where
  "runSubsystemFrontEndMacro L uid name ins s =
     (case (if runs_here L uid then fl_selfMacro L else fl_remoteMacro L) uid name ins (cs_env (fs_cfo s)) of
        (x, e) \<Rightarrow> ((case x of Inl m \<Rightarrow> Throw m | Inr outs \<Rightarrow> Ret outs),
                   s\<lparr>fs_cfo := (fs_cfo s)\<lparr>cs_env := e\<rparr>, fs_trace := Ran uid name x # fs_trace s\<rparr>))"

definition get_arg_out :: "'e felib \<Rightarrow> macro_args \<Rightarrow> string \<Rightarrow> ('s, string) eff" where
  "get_arg_out L outs name = (case fl_argOut L outs name of Inl m \<Rightarrow> throw m | Inr v \<Rightarrow> ret v)"

definition isMyConfigureSubsystemIteration :: "'e felib \<Rightarrow> u32 \<Rightarrow> ('e, bool) fe_eff" where
  "isMyConfigureSubsystemIteration L turn = gets (\<lambda>s. fl_standalone L \<or> fs_pass s = turn)"

definition configPhase :: "('e, int) fe_eff" where
  "configPhase =
     seqE (modify (\<lambda>s. if fs_phaseBase s = - 1 then s\<lparr>fs_phaseBase := fs_iteration s\<rparr> else s))
          (gets (\<lambda>s. sint (fs_iteration s - fs_phaseBase s)))"

definition resetConfigPhase :: "('e, unit) fe_eff" where
  "resetConfigPhase = modify (\<lambda>s. s\<lparr>fs_phaseBase := - 1\<rparr>)"

definition recordTimeAlive :: "'e felib \<Rightarrow> ('e, unit) fe_eff" where
  "recordTimeAlive L =
     bindE (fe_board (cfo_io (fl_timeAlive L))) (\<lambda>v.
     seqE (modify (\<lambda>s. s\<lparr>fs_timeAlive := v\<rparr>))
    (bindE (fe_now L) (\<lambda>t. modify (\<lambda>s. s\<lparr>fs_timeRead := t\<rparr>))))"

definition in_quotes :: "string \<Rightarrow> string" where
  "in_quotes t = [CHR 0x27] @ t @ [CHR 0x27]"

definition compare_time_alive :: "string \<Rightarrow> u32 \<Rightarrow> u32 \<Rightarrow> ('s, unit) eff" where
  "compare_time_alive what old v =
     (if v < old
      then throw (''Time Alive register value DECREASED during '' @ in_quotes what @ '' transition! Current value: '' @ to_string (unat v)
             @ '', last recorded value: '' @ to_string (unat old) @ ''. This indicates the board has rebooted.'' @ line_end)
      else if v = old
      then throw (''Time Alive register has not increased in 2+ seconds during '' @ in_quotes what @ '' (value: '' @ to_string (unat v)
             @ ''). Board clock is hung or not running.'' @ line_end)
      else ret ())"

definition testAndUpdateTimeAlive :: "'e felib \<Rightarrow> string \<Rightarrow> ('e, unit) fe_eff" where
  "testAndUpdateTimeAlive L what =
     bindE (fe_now L) (\<lambda>t.
     bindE (gets fs_timeRead) (\<lambda>t0.
     if t - t0 < 2 then ret ()
     else bindE (fe_board (cfo_io (fl_timeAlive L))) (\<lambda>v.
          bindE (gets fs_timeAlive) (\<lambda>old.
          seqE (compare_time_alive what old v)
         (seqE (modify (\<lambda>s. s\<lparr>fs_timeAlive := v\<rparr>))
         (bindE (fe_now L) (\<lambda>t. modify (\<lambda>s. s\<lparr>fs_timeRead := t\<rparr>))))))))"

definition testRTFClockInEventBuildingMode :: "'e felib \<Rightarrow> string \<Rightarrow> ('e, unit) fe_eff" where
  "testRTFClockInEventBuildingMode L what =
     (if cf_operatingMode (fl_cfo L) \<noteq> EVENT_BUILDING_AND_SYNC then ret ()
      else bindE (fe_board (cfo_io (fl_jaCSR L))) (\<lambda>v.
           whenE (bit v 10)
             (throw (''RTF (RJ45) clock is missing during '' @ in_quotes what @ '' transition! JA CSR register value: 0x''
                @ radix_string 16 (unat v) @ line_end))))"

subsection \<open>Phase 1: clocks\<close>

definition substep :: "('e, int) fe_eff" where
  "substep = gets (\<lambda>s. sint (fs_sub s - fs_first s))"

definition clock_setup :: "'e felib \<Rightarrow> ('e, unit) fe_eff" where
  "clock_setup L =
     whenE (fl_configure_clock L)
       (bindE (fe_board (cfo_io (fl_jaLocked L))) (\<lambda>locked.
        seqE (fe_board (cfo_io (fl_jaSelect L (case fl_selectSource L of None \<Rightarrow> 0 | Some v \<Rightarrow> v) (\<not> locked))))
       (bindE (fe_board (cfo_io (fl_jaCSR L))) (\<lambda>_. indicateSubIterationWork))))"

definition maxPolls :: int where "maxPolls = 10"

definition clock_poll :: "'e felib \<Rightarrow> int \<Rightarrow> ('e, unit) fe_eff" where
  "clock_poll L step =
     whenE (fl_configure_clock L)
       (bindE (fe_board (cfo_io (fl_jaLocked L))) (\<lambda>locked.
        if \<not> locked \<and> step - 2 < maxPolls
        then seqE (fe_board (cfo_wait (fl_cfo L) 1000000)) indicateSubIterationWork
        else bindE (fe_board (cfo_io (fl_jaCSR L))) (\<lambda>_. ret ())))"

definition configureForTimingChain :: "'e felib \<Rightarrow> int \<Rightarrow> ('e, unit) fe_eff" where
  "configureForTimingChain L step =
     bindE (if step = - 1 then substep else ret step) (\<lambda>step.
     if step = 0
     then seqE (modify (\<lambda>s. s\<lparr>fs_next_tag := 0\<rparr>))
         (seqE (fe_do L DisableBeamOnMode)
         (seqE (fe_do L DisableBeamOffMode)
         (seqE (fe_do L ClearControlRegister)
         (seqE (fe_do L DisableAllOutputs) indicateSubIterationWork))))
     else if step = 1 then clock_setup L
     else clock_poll L step)"

subsection \<open>Phase 2: the timing chain\<close>

definition event_building :: "'e felib \<Rightarrow> bool" where
  "event_building L \<longleftrightarrow> cf_operatingMode (fl_cfo L) = EVENT_BUILDING \<or> cf_operatingMode (fl_cfo L) = EVENT_BUILDING_AND_SYNC"

definition DTCs :: "'e felib \<Rightarrow> ('s, string list) eff" where
  "DTCs L = getSubsystemFEUIDsOfPlugin L ''DTCFrontEndInterface''"

definition link_macro_args :: macro_args where
  "link_macro_args =
     [(''Target Link or Mask (Default = -1 := all configured ROC links, or 0x11111111 := all)'', ''6''),
      (''Set Link Tx Enable (Default := false)'', ''1''), (''Set Link Rx Enable (Default := false)'', ''1'')]"

definition enable_dtc_link :: "'e felib \<Rightarrow> string \<Rightarrow> ('e, unit) fe_eff" where
  "enable_dtc_link L uid =
     tryE (bindE (runSubsystemFrontEndMacro L uid ''Enable/Disable DTC Link'' link_macro_args) (\<lambda>_. ret ()))
       (\<lambda>m. throw (''Phase 2a (Timing Chain: Enable): failed to enable the CFO link on DTC '' @ uid
              @ '' via FE Macro '' @ in_quotes ''Enable/Disable DTC Link'' @ '': '' @ m))"

definition launch_fixed_width ::
  "'e felib \<Rightarrow> 'e start_bt \<Rightarrow> string \<Rightarrow> u32 \<Rightarrow> u64 \<Rightarrow> u64 \<Rightarrow> ('e, unit) fe_eff" where
  "launch_fixed_width L bt duration n tag v =
     seqE (modify (\<lambda>s. s\<lparr>fs_trace := Launched # fs_trace s\<rparr>))
          (bindE (fe_board (CompileSetAndLaunchTemplateFixedWidthRunPlan (fl_cfo L) bt
                    \<lparr>la_enable = True, la_bufferTest = False, la_clockMarkers = True, la_save = False, la_keepCounters = False\<rparr>
                    duration n tag v))
                 (\<lambda>_. ret ()))"

definition enable_chain :: "'e felib \<Rightarrow> 'e start_bt \<Rightarrow> ('e, unit) fe_eff" where
  "enable_chain L bt =
     seqE (fe_do L EnableLink)
    (seqE (fe_do L EnableEmbeddedClockMarker)
    (bindE (DTCs L) (\<lambda>us.
     seqE (forE us (enable_dtc_link L))
    (seqE (whenE (event_building L) (launch_fixed_width L bt ''1.7us'' 0 0 0))
           indicateIterationWork))))"

text \<open>\<^verbatim>\<open>std::getline\<close> until the end of a text, and the line that a search stops at.\<close>

fun getlines :: "string \<Rightarrow> string \<Rightarrow> string list" where
  "getlines line [] = (if line = [] then [] else [line])"
| "getlines line (c # cs) = (if c = CHR 0x0A then line # getlines [] cs else getlines (line @ [c]) cs)"

definition finds :: "string \<Rightarrow> string \<Rightarrow> bool" where
  "finds t line \<longleftrightarrow> sublist t line"

definition cdr_locked :: "string \<Rightarrow> bool" where
  "cdr_locked status =
     (case find (\<lambda>l. finds ''CFO'' l \<and> finds ''CDR Lock'' l) (getlines [] status) of
        None \<Rightarrow> False | Some l \<Rightarrow> finds ''[x]'' l)"

definition unreachable_mark :: string where "unreachable_mark = '' (unreachable)''"

definition lock_status :: "'e felib \<Rightarrow> string \<Rightarrow> ('e, string list) fe_eff" where
  "lock_status L uid =
     tryE (bindE (runSubsystemFrontEndMacro L uid ''Get Link Lock Status'' []) (\<lambda>outs.
           bindE (get_arg_out L outs ''Lock Status'') (\<lambda>status.
           ret (if cdr_locked status then [] else [uid]))))
       (\<lambda>m. ret [uid @ unreachable_mark])"

definition unlocked_DTCs :: "'e felib \<Rightarrow> string list \<Rightarrow> ('e, string list) fe_eff" where
  "unlocked_DTCs L us = foldE (\<lambda>uid acc. bindE (lock_status L uid) (\<lambda>x. ret (acc @ x))) us []"

definition uid_lines :: "string list \<Rightarrow> string" where
  "uid_lines us = concat (map (\<lambda>u. line_end @ ''  '' @ u) us)"

definition reset_serdes :: "'e felib \<Rightarrow> string list \<Rightarrow> ('e, unit) fe_eff" where
  "reset_serdes L us =
     tryE (seqE (fe_do L ResetCoreSERDES) (fe_do L ResetSERDES))
       (\<lambda>m. throw (''Phase 2b SERDES reset failed for '' @ to_string (length us) @ '' DTC(s) missing CFO CDR lock:'' @ uid_lines us
              @ line_end @ line_end @ ''SERDES reset error: '' @ m))"

definition judge_locks :: "'e felib \<Rightarrow> bool \<Rightarrow> string list \<Rightarrow> ('e, unit) fe_eff" where
  "judge_locks L isRetry us =
     (let unreachable = filter (finds ''(unreachable)'') us; unlocked = filter (\<lambda>u. \<not> finds ''(unreachable)'' u) us in
      if unreachable \<noteq> []
      then throw (''Phase 2b (Timing Chain: CDR Check) failed: '' @ to_string (length unreachable)
             @ '' DTC(s) unreachable via FE Macro '' @ in_quotes ''Get Link Lock Status'' @ '':'' @ uid_lines unreachable)
      else if unlocked = [] then ret ()
      else if \<not> isRetry then seqE (reset_serdes L unlocked) indicateSubIterationWork
      else throw (''Phase 2b (Timing Chain: CDR Check) failed: '' @ to_string (length unlocked)
             @ '' DTC(s) still missing CFO CDR lock after retry:'' @ uid_lines unlocked))"

definition begin_substeps :: "('e, unit) fe_eff" where
  "begin_substeps = modify (\<lambda>s. if fs_first s = - 1 then s\<lparr>fs_first := fs_sub s\<rparr> else s)"

definition end_phase :: "('e, unit) fe_eff" where
  "end_phase = seqE (modify (\<lambda>s. s\<lparr>fs_first := - 1\<rparr>)) indicateIterationWork"

definition check_chain :: "'e felib \<Rightarrow> ('e, unit) fe_eff" where
  "check_chain L =
     seqE begin_substeps
    (bindE substep (\<lambda>sub.
     bindE (DTCs L) (\<lambda>us.
     bindE (unlocked_DTCs L us) (\<lambda>unlocked.
     seqE (judge_locks L (sub = 1) unlocked)
    (bindE (gets fs_subWork) (\<lambda>again. whenE (\<not> again) end_phase))))))"

subsection \<open>Phase 2c: the clock edges\<close>

definition rtf_checks :: "(string \<times> string \<times> string) list" where
  "rtf_checks =
     [(''CFO Emulation Mode'', ''OFF'', ''CFO Emulation Mode must be OFF''), (''JA Source'', ''RJ45'', ''JA Source must be RJ45''),
      (''Saturated'', ''YES'', ''RTF histogram must be Saturated''), (''CFO CDR Lock'', ''LOCKED'', ''CFO CDR Lock must be LOCKED'')]"

definition rtf_check :: "string \<Rightarrow> string \<Rightarrow> string \<times> string \<times> string \<Rightarrow> ('s, unit) eff" where
  "rtf_check uid status chk =
     (case chk of (keyword, required, label) \<Rightarrow>
      case find (finds keyword) (getlines [] status) of
        None \<Rightarrow> throw (''Phase 2c (CFO Edge Fix): DTC '' @ uid @ '' '' @ [CHR 0xE2, CHR 0x80, CHR 0x94] @ '' could not find '' @ in_quotes keyword
                  @ '' in RTF Interface Status output.'')
      | Some line \<Rightarrow>
          whenE (\<not> finds required line)
            (throw (''Phase 2c (CFO Edge Fix): DTC '' @ uid @ '' failed check: '' @ label @ ''. Line: '' @ line)))"

definition validate_rtf :: "'e felib \<Rightarrow> string \<Rightarrow> ('e, unit) fe_eff" where
  "validate_rtf L uid =
     bindE (tryE (runSubsystemFrontEndMacro L uid ''Get RTF Interface Status'' [])
              (\<lambda>m. throw (''Phase 2c (CFO Edge Fix): Failed to read RTF Interface Status from DTC '' @ uid @ '': '' @ m))) (\<lambda>outs.
     bindE (get_arg_out L outs ''RTF Interface Status'') (\<lambda>status.
     forE rtf_checks (rtf_check uid status)))"

definition fix_edge :: "'e felib \<Rightarrow> string \<Rightarrow> string list \<Rightarrow> ('e, string list) fe_eff" where
  "fix_edge L uid toggled =
     bindE (tryE (runSubsystemFrontEndMacro L uid ''Fix CFO Clock Edge'' [])
              (\<lambda>m. throw (''Phase 2c (CFO Edge Fix): Fix CFO Clock Edge failed on DTC '' @ uid @ '': '' @ m))) (\<lambda>outs.
     bindE (get_arg_out L outs ''Fix CFO Clock Edge Result'') (\<lambda>answer.
     ret (if finds ''toggled'' answer then toggled @ [uid] else toggled)))"

definition MAX_CFO_EDGE_FIX_PASSES :: int where "MAX_CFO_EDGE_FIX_PASSES = 10"

definition edge_pass :: "'e felib \<Rightarrow> string list \<Rightarrow> int \<Rightarrow> ('e, unit) fe_eff" where
  "edge_pass L us pass =
     bindE (foldE (fix_edge L) us []) (\<lambda>toggled.
     if toggled = []
     then seqE (modify (\<lambda>s. s\<lparr>fs_clean := fs_clean s + 1\<rparr>))
              (bindE (gets fs_clean) (\<lambda>n. if n \<ge> 2 then end_phase else indicateSubIterationWork))
     else seqE (modify (\<lambda>s. s\<lparr>fs_clean := 0\<rparr>))
              (if pass \<ge> MAX_CFO_EDGE_FIX_PASSES
               then throw (''Phase 2c (CFO Edge Fix): edge fix did not converge after 10 passes. DTCs still toggling:'' @ uid_lines toggled)
               else indicateSubIterationWork))"

definition edge_fix :: "'e felib \<Rightarrow> ('e, unit) fe_eff" where
  "edge_fix L =
     (if \<not> event_building L then indicateIterationWork
      else seqE begin_substeps
          (bindE substep (\<lambda>sub.
           bindE (DTCs L) (\<lambda>us.
           if sub = 0
           then seqE (modify (\<lambda>s. s\<lparr>fs_clean := 0\<rparr>)) (seqE (forE us (validate_rtf L)) indicateSubIterationWork)
           else edge_pass L us sub))))"

subsection \<open>The phases and the transition\<close>

definition configure_phase :: "'e felib \<Rightarrow> 'e start_bt \<Rightarrow> int \<Rightarrow> ('e, unit) fe_eff" where
  "configure_phase L bt p =
     (if p = 0 then seqE begin_substeps (seqE (configureForTimingChain L (- 1)) indicateIterationWork)
      else if p = 1 then end_phase
      else if p = 2 then enable_chain L bt
      else if p = 3 then check_chain L
      else if p = 4 then edge_fix L
      else if p = 9
      then seqE (whenE (event_building L) (seqE (fe_do L DisableBeamOnMode) (fe_do L DisableBeamOffMode))) indicateIterationWork
      else if p \<in> {5, 6, 7, 8, 10, 11} then indicateIterationWork
      else if p = 12 then seqE (fe_do L ReleaseAllBuffers) (seqE (fe_do L CfoSoftReset) indicateIterationWork)
      else if p = 13 then seqE (fe_do L EnableAcceleratorRF0) (fe_do L SetPunchEnable)
      else ret ())"

definition configureEventBuildingMode :: "'e felib \<Rightarrow> 'e start_bt \<Rightarrow> int \<Rightarrow> ('e, unit) fe_eff" where
  "configureEventBuildingMode L bt step =
     (if step = - 1
      then bindE (isMyConfigureSubsystemIteration L 0) (\<lambda>mine.
           if \<not> mine then indicatePassWork else bindE configPhase (configure_phase L bt))
      else configure_phase L bt step)"

definition configure :: "'e felib \<Rightarrow> 'e start_bt \<Rightarrow> ('e, unit) fe_eff" where
  "configure L bt =
     bindE (gets (\<lambda>s. fl_isFirst L (fs_iteration s) (fs_sub s))) (\<lambda>first.
     seqE (whenE first (seqE (recordTimeAlive L) (seqE resetConfigPhase (modify (\<lambda>s. s\<lparr>fs_first := - 1\<rparr>)))))
     (if fl_skipInit L then ret ()
      else seqE (testAndUpdateTimeAlive L ''Configure'')
          (case cf_operatingMode (fl_cfo L) of
             HARDWARE_DEV \<Rightarrow> ret ()
           | OTHER_MODE \<Rightarrow> throw (''Unknown system operating mode: '' @ fl_modeText L @ line_end
               @ '' Please specify a valid operating mode in the '' @ in_quotes ''Mu2eGlobalsTable.'' @ line_end)
           | _ \<Rightarrow> configureEventBuildingMode L bt (- 1))))"

subsection \<open>Start and stop\<close>

text \<open>The plan of a run: endless, of the kept tag on.\<close>

definition launch_startup :: "'e felib \<Rightarrow> 'e start_bt \<Rightarrow> ('e, unit) fe_eff" where
  "launch_startup L bt =
     (if fl_autoEnable L \<noteq> Some True then ret ()
      else bindE (gets fs_next_tag) (\<lambda>tag.
           seqE (launch_fixed_width L bt (case fl_autoDuration L of None \<Rightarrow> ''100us'' | Some d \<Rightarrow> d) 0 tag 1)
                (modify (\<lambda>s. s\<lparr>fs_next_tag := fs_next_tag s + 0\<rparr>))))"

definition start_step :: "'e felib \<Rightarrow> 'e start_bt \<Rightarrow> ('e, unit) fe_eff" where
  "start_step L bt =
     (let ready = fl_minReady L in
      if ready < 2
      then throw (''SystemMinReadyForEventGenerationStartIteration must be >= 2 (got '' @ to_string (unat ready) @ '').'' @ line_end)
      else bindE (gets (\<lambda>s. fl_syncStep L (fs_pass s) (fs_iteration s))) (\<lambda>step.
           if step < ready - 1 then indicatePassWork
           else if step = ready - 1 then seqE (fe_do L CfoSoftReset) indicatePassWork
           else if step = ready then launch_startup L bt
           else ret ()))"

text \<open>\<open>loopback\<close> is the loopback test, not modelled.\<close>

definition cfo_start :: "'e felib \<Rightarrow> 'e start_bt \<Rightarrow> ('e, unit) fe_eff \<Rightarrow> ('e, unit) fe_eff" where
  "cfo_start L bt loopback =
     seqE (testAndUpdateTimeAlive L ''Start'')
    (seqE (testRTFClockInEventBuildingMode L ''Start'')
    (if cf_operatingMode (fl_cfo L) = HARDWARE_DEV then ret ()
     else bindE (gets (\<lambda>s. fl_isFirst L (fs_iteration s) (fs_sub s))) (\<lambda>first.
          seqE (whenE first (modify (\<lambda>s. s\<lparr>fs_next_tag := 0\<rparr>)))
         (if cf_operatingMode (fl_cfo L) = LOOPBACK then loopback
          else if event_building L then start_step L bt
          else ret ()))))"

text \<open>\<open>captan\<close> is what follows the halt, the analysis of the CAPTAN pulses, not modelled.\<close>

definition cfo_stop :: "'e felib \<Rightarrow> 'e start_bt \<Rightarrow> ('e, unit) fe_eff \<Rightarrow> ('e, unit) fe_eff" where
  "cfo_stop L bt captan =
     seqE (testAndUpdateTimeAlive L ''Stop'')
    (seqE (testRTFClockInEventBuildingMode L ''Stop'')
    (if cf_operatingMode (fl_cfo L) = HARDWARE_DEV then ret ()
     else seqE (tryE (whenE (fl_autoEnable L = Some True)
                  (bindE (fe_board (CompileSetAndLaunchTemplateFixedWidthRunPlan (fl_cfo L) bt
                     \<lparr>la_enable = False, la_bufferTest = False, la_clockMarkers = False, la_save = False, la_keepCounters = False\<rparr>
                     ''100us'' 0 0 1)) (\<lambda>_. ret ())))
                (\<lambda>_. ret ()))
         (seqE (fe_board (cfo_halt (fl_cfo L)))
         (seqE (fe_do L DisableBeamOnMode)
         (seqE (fe_do L DisableBeamOffMode) captan)))))"

end
