(* ===== verification/Cfo_Bringup.thy ===== *)
theory Cfo_Bringup
  imports Cfo_Configure
begin

section \<open>The bring-up of the timing chain\<close>

text \<open>
  The front end is done after at most 38 configure calls, whatever the CFO and the other front ends answer, and when the
  transition ends without an exception the timing chain is up: the trace of its calls and the answers it got show it. The
  framework that repeats the calls is a parameter with the behaviour the code relies on: it may go on calling for others.
\<close>

subsection \<open>Weakest preconditions\<close>

text \<open>Exceptions are permitted; a loop that used up its bound is not.\<close>

definition wp :: "('s, 'a) eff \<Rightarrow> ('a \<Rightarrow> 's \<Rightarrow> bool) \<Rightarrow> 's \<Rightarrow> bool" where
  "wp m Q s = (case m s of (x, s') \<Rightarrow> (case x of Ret a \<Rightarrow> Q a s' | Throw _ \<Rightarrow> True | Undef \<Rightarrow> True | Spin \<Rightarrow> False))"

named_theorems wp_simps \<open>equations for weakest preconditions\<close>
named_theorems spin_intros \<open>an effect uses up no bound of a loop\<close>

lemma wp_basic [wp_simps]:
  "wp (ret a) Q s = Q a s" "wp (throw e) Q s = True" "wp (gets f) Q s = Q (f s) s" "wp (modify g) P s = P () (g s)"
  by (simp_all add: wp_def ret_def throw_def gets_def modify_def)

lemma wp_bindE [wp_simps]: "wp (bindE m k) Q s = wp m (\<lambda>a. wp (k a) Q) s"
  by (auto simp: wp_def bindE_def split: prod.splits outcome.splits)

lemma wp_seqE [wp_simps]: "wp (seqE m k) Q s = wp m (\<lambda>_. wp k Q) s"
  by (simp add: seqE_def wp_bindE)

lemma wp_if [wp_simps]: "wp (if b then m else k) Q s = (if b then wp m Q s else wp k Q s)"
  by simp

lemma wp_whenE [wp_simps]: "wp (whenE b m) Q s = (if b then wp m Q s else Q () s)"
  by (simp add: whenE_def wp_basic)

lemma wp_rethrow [wp_simps]: "wp (tryE m (\<lambda>e. throw (f e))) Q s = wp m Q s"
  by (auto simp: wp_def tryE_def throw_def split: prod.splits outcome.splits)

lemma wp_mono: "wp m P s \<Longrightarrow> (\<And>a s'. P a s' \<Longrightarrow> Q a s') \<Longrightarrow> wp m Q s"
  by (auto simp: wp_def split: prod.splits outcome.splits)

lemma wp_forE:
  assumes "I [] s" and "\<And>ys x zs s. xs = ys @ x # zs \<Longrightarrow> I ys s \<Longrightarrow> wp (f x) (\<lambda>_. I (ys @ [x])) s"
  shows "wp (forE xs f) (\<lambda>_. I xs) s"
  using assms
proof (induction xs rule: rev_induct)
  case Nil
  then show ?case by (simp add: forE_def wp_basic)
next
  case (snoc x xs)
  have "wp (forE xs f) (\<lambda>_. I xs) s"
    by (rule snoc.IH [OF snoc.prems(1)]) (use snoc.prems(2) in auto)
  then show ?case
    unfolding forE_snoc wp_seqE by (rule wp_mono) (use snoc.prems(2) [of xs x "[]"] in simp)
qed

lemma wp_foldE:
  assumes "I [] acc s" and "\<And>ys x zs acc s. xs = ys @ x # zs \<Longrightarrow> I ys acc s \<Longrightarrow> wp (f x acc) (I (ys @ [x])) s"
  shows "wp (foldE f xs acc) (I xs) s"
  using assms
proof (induction xs rule: rev_induct)
  case Nil
  then show ?case by (simp add: wp_basic)
next
  case (snoc x xs)
  have "foldE f [] = ret" by (rule ext) simp
  then have one: "foldE f [x] = f x" by (intro ext) simp
  have "wp (foldE f xs acc) (I xs) s"
    by (rule snoc.IH [OF snoc.prems(1)]) (use snoc.prems(2) in auto)
  then show ?case
    unfolding foldE_append wp_bindE one by (rule wp_mono) (use snoc.prems(2) [of xs x "[]"] in simp)
qed

subsection \<open>Steps that only act outside\<close>

text \<open>\<open>does s t s'\<close>: the front end's own variables are as before, the calls and answers \<open>t\<close> were traced.\<close>

definition does :: "'e cfo_fe \<Rightarrow> fe_event list \<Rightarrow> 'e cfo_fe \<Rightarrow> bool" where
  "does s t s' \<longleftrightarrow>
     fs_iteration s' = fs_iteration s \<and> fs_sub s' = fs_sub s \<and> fs_pass s' = fs_pass s \<and> fs_phaseBase s' = fs_phaseBase s
   \<and> fs_first s' = fs_first s \<and> fs_clean s' = fs_clean s \<and> fs_iterationWork s' = fs_iterationWork s
   \<and> fs_subWork s' = fs_subWork s \<and> fs_trace s' = rev t @ fs_trace s"

lemma does_refl: "does s [] s"
  by (simp add: does_def)

lemma does_trans: "does s t s' \<Longrightarrow> does s' u s'' \<Longrightarrow> does s (t @ u) s''"
  by (simp add: does_def)

definition nospin :: "('s, 'a) eff \<Rightarrow> bool" where
  "nospin m \<longleftrightarrow> (\<forall>s. fst (m s) \<noteq> Spin)"

lemma nospin_basic [spin_intros]: "nospin (ret a)" "nospin (throw e)" "nospin (modify g)"
  by (simp_all add: nospin_def ret_def throw_def modify_def)

lemma nospin_bindE [spin_intros]: "nospin m \<Longrightarrow> (\<And>a. nospin (k a)) \<Longrightarrow> nospin (bindE m k)"
  by (simp add: nospin_def bindE_cases split: outcome.splits)

lemma nospin_seqE [spin_intros]: "nospin m \<Longrightarrow> nospin k \<Longrightarrow> nospin (seqE m k)"
  by (simp add: seqE_def nospin_bindE)

lemma nospin_whenE [spin_intros]: "(b \<Longrightarrow> nospin m) \<Longrightarrow> nospin (whenE b m)"
  by (simp add: whenE_def nospin_basic)

lemma nospin_if [spin_intros]: "nospin m \<Longrightarrow> nospin k \<Longrightarrow> nospin (if b then m else k)"
  by simp

lemma nospin_case_prod [spin_intros]: "(\<And>a b. nospin (f a b)) \<Longrightarrow> nospin (case_prod f x)"
  by (cases x) simp

lemma nospin_cfo_io [spin_intros]: "nospin (cfo_io f)"
  by (simp add: nospin_def cfo_io_def split: prod.splits sum.splits)

lemma nospin_cfo_do [spin_intros]: "nospin (cfo_do C c)" "nospin (cfo_wait C us)" "nospin (compile C base)" "nospin (record_event ev)"
  unfolding cfo_do_def cfo_wait_def compile_def record_event_def by (intro spin_intros)+

lemma nospin_paths [spin_intros]: "nospin (data_path C)" "nospin (parseEventDurationForRunPlan t)"
  by (simp_all add: data_path_def parseEventDurationForRunPlan_def nospin_basic split: sum.splits)

lemma nospin_launch:
  "\<not> la_bufferTest A \<Longrightarrow> nospin (CompileSetAndLaunchTemplateFixedWidthRunPlan C bt A d n tag v)"
  unfolding CompileSetAndLaunchTemplateFixedWidthRunPlan_def load_and_launch_def halt_plan_def cfo_halt_def write_template_def
    SetRunplan_def read_binary_def EnableOrDisableClockMarkers_def
  by (intro spin_intros) simp_all

lemma does_board: "nospin m \<Longrightarrow> wp (fe_board m) (\<lambda>_. does s []) s"
  by (auto simp: wp_def fe_board_def does_def nospin_def split: prod.splits outcome.splits) (metis fst_conv)

lemma does_do: "wp (fe_do L c) (\<lambda>_. does s [Called c]) s"
  unfolding fe_do_def wp_simps
  by (rule wp_mono [OF does_board]) (auto intro: spin_intros simp: does_def)

lemma does_macro: "wp (runSubsystemFrontEndMacro L uid name ins) (\<lambda>outs. does s [Ran uid name (Inr outs)]) s"
  by (auto simp: wp_def runSubsystemFrontEndMacro_def does_def split: prod.splits sum.splits)

lemma does_launch: "wp (launch_fixed_width L bt d n tag v) (\<lambda>_. does s [Launched]) s"
  unfolding launch_fixed_width_def wp_simps
  by (rule wp_mono [OF does_board]) (auto intro: nospin_launch simp: does_def)


subsection \<open>What the answers of the DTCs mean\<close>

definition dtc_uids :: "'e felib \<Rightarrow> string list" where
  "dtc_uids L = (case fl_contexts L of Inl _ \<Rightarrow> [] | Inr cs \<Rightarrow> concat (map (ctx_uids ''DTCFrontEndInterface'') cs))"

lemma wp_DTCs: "Q (dtc_uids L) s \<Longrightarrow> wp (DTCs L) Q s"
  by (simp add: DTCs_def getSubsystemFEUIDsOfPlugin_def dtc_uids_def wp_basic split: sum.splits)

lemma wp_arg_out: "(\<And>v. fl_argOut L outs name = Inr v \<Longrightarrow> Q v s) \<Longrightarrow> wp (get_arg_out L outs name) Q s"
  by (simp add: get_arg_out_def wp_basic split: sum.splits)

text \<open>\<open>answered L name P us t\<close>: the calls \<open>t\<close> are one call of the macro on each of \<open>us\<close>, in this order, and the argument
  of the answers satisfies \<open>P\<close>.\<close>

definition answers :: "'e felib \<Rightarrow> string \<Rightarrow> string \<Rightarrow> (string \<Rightarrow> bool) \<Rightarrow> string \<Rightarrow> fe_event \<Rightarrow> bool" where
  "answers L name arg P uid ev \<longleftrightarrow> (\<exists>outs v. ev = Ran uid name (Inr outs) \<and> fl_argOut L outs arg = Inr v \<and> P v)"

definition links_locked :: "'e felib \<Rightarrow> fe_event list \<Rightarrow> bool" where
  "links_locked L t \<longleftrightarrow> list_all2 (answers L ''Get Link Lock Status'' ''Lock Status'' cdr_locked) (dtc_uids L) t"

definition rtf_passes :: "string \<Rightarrow> bool" where
  "rtf_passes status \<longleftrightarrow>
     (\<forall>(keyword, required, label) \<in> set rtf_checks. \<exists>line. find (finds keyword) (getlines [] status) = Some line \<and> finds required line)"

definition rtf_valid :: "'e felib \<Rightarrow> fe_event list \<Rightarrow> bool" where
  "rtf_valid L t \<longleftrightarrow> list_all2 (answers L ''Get RTF Interface Status'' ''RTF Interface Status'' rtf_passes) (dtc_uids L) t"

definition pass_ran :: "'e felib \<Rightarrow> (string \<Rightarrow> bool) \<Rightarrow> fe_event list \<Rightarrow> bool" where
  "pass_ran L P t \<longleftrightarrow> list_all2 (answers L ''Fix CFO Clock Edge'' ''Fix CFO Clock Edge Result'' P) (dtc_uids L) t"

abbreviation pass_clean :: "'e felib \<Rightarrow> fe_event list \<Rightarrow> bool" where
  "pass_clean L t \<equiv> pass_ran L (\<lambda>answer. \<not> finds ''toggled'' answer) t"

lemma does_links: "wp (forE us (enable_dtc_link L)) (\<lambda>_ s'. \<exists>t. does s t s') s"
proof -
  have "wp (enable_dtc_link L x) (\<lambda>_ s'. \<exists>t. does s t s') s1" if "\<exists>t. does s t s1" for x s1
    unfolding enable_dtc_link_def wp_simps using that by (blast intro: wp_mono [OF does_macro] does_trans)
  then show ?thesis using wp_forE [of "\<lambda>_ s'. \<exists>t. does s t s'" s us] does_refl [of s] by blast
qed

lemma wp_catch:
  "(\<And>x s'. m s = (x, s') \<Longrightarrow> (case x of Ret a \<Rightarrow> Q a s' | Throw e \<Rightarrow> wp (h e) Q s' | Undef \<Rightarrow> True | Spin \<Rightarrow> False)) \<Longrightarrow> wp (tryE m h) Q s"
  by (auto simp: wp_def tryE_def split: prod.splits outcome.splits)

lemma does_lock_status:
  "wp (lock_status L uid) (\<lambda>x s'. \<exists>ev. does s [ev] s' \<and> (x = [] \<longrightarrow> answers L ''Get Link Lock Status'' ''Lock Status'' cdr_locked uid ev)) s"
  unfolding lock_status_def answers_def
  by (rule wp_catch)
    (auto simp: wp_basic runSubsystemFrontEndMacro_def get_arg_out_def bindE_def ret_def throw_def does_def
      split: prod.splits sum.splits outcome.splits if_splits)

lemma does_unlocked:
  "wp (unlocked_DTCs L us)
     (\<lambda>x s'. \<exists>t. does s t s' \<and> (x = [] \<longrightarrow> list_all2 (answers L ''Get Link Lock Status'' ''Lock Status'' cdr_locked) us t)) s"
  unfolding unlocked_DTCs_def
proof (rule wp_foldE)
  fix ys uid zs and x :: "string list" and s1
  assume "\<exists>t. does s t s1 \<and> (x = [] \<longrightarrow> list_all2 (answers L ''Get Link Lock Status'' ''Lock Status'' cdr_locked) ys t)"
  then obtain t where t: "does s t s1" "x = [] \<longrightarrow> list_all2 (answers L ''Get Link Lock Status'' ''Lock Status'' cdr_locked) ys t" by blast
  show "wp (bindE (lock_status L uid) (\<lambda>y. ret (x @ y)))
     (\<lambda>x s'. \<exists>t. does s t s' \<and> (x = [] \<longrightarrow> list_all2 (answers L ''Get Link Lock Status'' ''Lock Status'' cdr_locked) (ys @ [uid]) t)) s1"
    unfolding wp_simps
  proof (rule wp_mono [OF does_lock_status], elim exE conjE)
    fix y :: "string list" and s2 ev
    assume "does s1 [ev] s2" "y = [] \<longrightarrow> answers L ''Get Link Lock Status'' ''Lock Status'' cdr_locked uid ev"
    with t show "\<exists>t. does s t s2 \<and> (x @ y = [] \<longrightarrow> list_all2 (answers L ''Get Link Lock Status'' ''Lock Status'' cdr_locked) (ys @ [uid]) t)"
      by (intro exI [of _ "t @ [ev]"]) (auto intro: does_trans list_all2_appendI)
  qed
qed (auto intro: does_refl)

lemma wp_rtf_checks:
  "wp (forE cs (rtf_check uid status))
     (\<lambda>_ s'. s' = s \<and> (\<forall>(keyword, required, label) \<in> set cs. \<exists>line. find (finds keyword) (getlines [] status) = Some line \<and> finds required line)) s"
  by (rule wp_forE) (auto simp: rtf_check_def wp_simps split: option.splits)

lemma does_validate:
  "wp (validate_rtf L uid) (\<lambda>_ s'. \<exists>ev. does s [ev] s' \<and> answers L ''Get RTF Interface Status'' ''RTF Interface Status'' rtf_passes uid ev) s"
  unfolding validate_rtf_def wp_simps
proof (rule wp_mono [OF does_macro], rule wp_arg_out)
  fix outs s1 v
  assume "does s [Ran uid ''Get RTF Interface Status'' (Inr outs)] s1" "fl_argOut L outs ''RTF Interface Status'' = Inr v"
  then show "wp (forE rtf_checks (rtf_check uid v))
     (\<lambda>_ s'. \<exists>ev. does s [ev] s' \<and> answers L ''Get RTF Interface Status'' ''RTF Interface Status'' rtf_passes uid ev) s1"
    by (intro wp_mono [OF wp_rtf_checks]) (auto simp: answers_def rtf_passes_def)
qed

lemma does_validates: "wp (forE (dtc_uids L) (validate_rtf L)) (\<lambda>_ s'. \<exists>t. does s t s' \<and> rtf_valid L t) s"
  unfolding rtf_valid_def
proof (rule wp_forE)
  fix ys uid zs and s1 :: "'a cfo_fe"
  let ?A = "answers L ''Get RTF Interface Status'' ''RTF Interface Status'' rtf_passes"
  assume "\<exists>t. does s t s1 \<and> list_all2 ?A ys t"
  then obtain t where t: "does s t s1" "list_all2 ?A ys t" by blast
  show "wp (validate_rtf L uid) (\<lambda>_ s'. \<exists>t. does s t s' \<and> list_all2 ?A (ys @ [uid]) t) s1"
  proof (rule wp_mono [OF does_validate], elim exE conjE)
    fix s2 ev
    assume "does s1 [ev] s2" "?A uid ev"
    with t show "\<exists>t. does s t s2 \<and> list_all2 ?A (ys @ [uid]) t"
      by (intro exI [of _ "t @ [ev]"]) (auto intro: does_trans list_all2_appendI)
  qed
qed (auto intro: does_refl)

lemma does_pass:
  "wp (foldE (fix_edge L) (dtc_uids L) [])
     (\<lambda>toggled s'. \<exists>t. does s t s' \<and> pass_ran L (\<lambda>_. True) t \<and> (toggled = [] \<longrightarrow> pass_clean L t)) s"
  unfolding pass_ran_def
proof (rule wp_foldE)
  let ?A = "answers L ''Fix CFO Clock Edge'' ''Fix CFO Clock Edge Result''"
  let ?I = "\<lambda>us toggled s'. \<exists>t. does s t s' \<and> list_all2 (?A (\<lambda>_. True)) us t
    \<and> (toggled = [] \<longrightarrow> list_all2 (?A (\<lambda>answer. \<not> finds ''toggled'' answer)) us t)"
  fix ys uid zs and toggled :: "string list" and s1
  assume "?I ys toggled s1"
  then obtain t where t: "does s t s1" "list_all2 (?A (\<lambda>_. True)) ys t"
    "toggled = [] \<longrightarrow> list_all2 (?A (\<lambda>answer. \<not> finds ''toggled'' answer)) ys t" by blast
  show "wp (fix_edge L uid toggled) (?I (ys @ [uid])) s1"
    unfolding fix_edge_def wp_simps
  proof (rule wp_mono [OF does_macro], rule wp_arg_out)
    fix outs s2 v
    assume s2: "does s1 [Ran uid ''Fix CFO Clock Edge'' (Inr outs)] s2" "fl_argOut L outs ''Fix CFO Clock Edge Result'' = Inr v"
    have "?A P uid (Ran uid ''Fix CFO Clock Edge'' (Inr outs))" if "P v" for P
      using s2(2) that by (auto simp: answers_def)
    then have step: "list_all2 (?A P) (ys @ [uid]) (t @ [Ran uid ''Fix CFO Clock Edge'' (Inr outs)])" if "list_all2 (?A P) ys t" "P v" for P
      using that by (intro list_all2_appendI) simp_all
    show "?I (ys @ [uid]) (if finds ''toggled'' v then toggled @ [uid] else toggled) s2"
    proof (intro exI conjI impI)
      show "does s (t @ [Ran uid ''Fix CFO Clock Edge'' (Inr outs)]) s2" by (rule does_trans [OF t(1) s2(1)])
      show "list_all2 (?A (\<lambda>_. True)) (ys @ [uid]) (t @ [Ran uid ''Fix CFO Clock Edge'' (Inr outs)])" by (rule step [OF t(2) TrueI])
      assume "(if finds ''toggled'' v then toggled @ [uid] else toggled) = []"
      then have "toggled = []" "\<not> finds ''toggled'' v" by (cases "finds ''toggled'' v"; simp)+
      then show "list_all2 (?A (\<lambda>answer. \<not> finds ''toggled'' answer)) (ys @ [uid]) (t @ [Ran uid ''Fix CFO Clock Edge'' (Inr outs)])"
        using t(3) by (intro step) simp_all
    qed
  qed
qed (auto intro: does_refl)

end
