(* ===== verification/Cfo_Sequence.thy ===== *)
theory Cfo_Sequence
  imports Cfo_Bringup
begin

section \<open>The sequence of configure calls\<close>

text \<open>
  The invariant of the calls, phase by phase, and what follows for the whole transition.
\<close>

subsection \<open>The invariant\<close>

text \<open>The last sub-step of each phase.\<close>

definition last_sub :: "nat \<Rightarrow> nat" where
  "last_sub i = (if i = 0 then 12 else if i = 3 then 1 else if i = 4 then 11 else 0)"

definition chronicle :: "'e cfo_fe \<Rightarrow> fe_event list" where
  "chronicle s = rev (fs_trace s)"

definition chain_locked :: "'e felib \<Rightarrow> fe_event list \<Rightarrow> bool" where
  "chain_locked L tr \<longleftrightarrow> (\<exists>t0 locks. tr = t0 @ locks \<and> links_locked L locks)"

text \<open>The passes \<open>ps\<close> over the clock edges after the checks.\<close>

definition edge_passes :: "'e felib \<Rightarrow> fe_event list \<Rightarrow> fe_event list list \<Rightarrow> bool" where
  "edge_passes L tr ps \<longleftrightarrow>
     (\<exists>t0 locks rtf. tr = t0 @ locks @ rtf @ concat ps \<and> links_locked L locks \<and> rtf_valid L rtf)
   \<and> (\<forall>p\<in>set ps. pass_ran L (\<lambda>_. True) p)"

text \<open>The chain is up: the edges have converged, and after the last pass only \<open>rest\<close> was done.\<close>

definition chain_up :: "'e felib \<Rightarrow> fe_event list \<Rightarrow> fe_event list \<Rightarrow> bool" where
  "chain_up L rest tr \<longleftrightarrow>
     (\<exists>t0 ps p q. tr = t0 @ rest \<and> edge_passes L t0 (ps @ [p, q]) \<and> length ps \<le> 9 \<and> pass_clean L p \<and> pass_clean L q)"

definition after_sync :: "nat \<Rightarrow> fe_event list" where
  "after_sync i = (if i \<le> 9 then []
     else [Called DisableBeamOnMode, Called DisableBeamOffMode] @ (if i \<le> 12 then [] else [Called ReleaseAllBuffers, Called CfoSoftReset]))"

definition traced :: "'e felib \<Rightarrow> nat \<Rightarrow> nat \<Rightarrow> int \<Rightarrow> fe_event list \<Rightarrow> bool" where
  "traced L i k clean tr \<longleftrightarrow>
     (if i \<le> 3 then True
      else if i = 4 then
        (if k = 0 then chain_locked L tr
         else \<exists>ps. edge_passes L tr ps \<and> length ps = k - 1
                \<and> (clean = 0 \<and> k \<le> 10 \<or> clean = 1 \<and> (\<exists>qs q. ps = qs @ [q] \<and> pass_clean L q)))
      else chain_up L (after_sync i) tr)"

definition inv :: "'e felib \<Rightarrow> nat \<Rightarrow> nat \<Rightarrow> 'e cfo_fe \<Rightarrow> bool" where
  "inv L i k s \<longleftrightarrow> i \<le> 13 \<and> k \<le> last_sub i \<and> (i \<noteq> 1 \<longrightarrow> fs_first s = (if k = 0 then - 1 else 0))
     \<and> (i = 4 \<and> 0 < k \<longrightarrow> event_building L) \<and> (event_building L \<longrightarrow> traced L i k (fs_clean s) (chronicle s))"

definition at_call :: "'e felib \<Rightarrow> nat \<Rightarrow> nat \<Rightarrow> 'e cfo_fe \<Rightarrow> bool" where
  "at_call L i k s \<longleftrightarrow> fs_iteration s = of_nat i \<and> fs_sub s = of_nat k \<and> fs_phaseBase s = 0 \<and> (fl_standalone L \<or> fs_pass s = 0)"

definition asked :: "'e felib \<Rightarrow> nat \<Rightarrow> nat \<Rightarrow> 'e cfo_fe \<Rightarrow> bool" where
  "asked L i k s \<longleftrightarrow> at_call L i k s \<and>
     (if fs_subWork s then inv L i (Suc k) s
      else if fs_iterationWork s then inv L (Suc i) 0 s
      else i = 13
        \<and> (event_building L \<longrightarrow> chain_up L (after_sync 13 @ [Called EnableAcceleratorRF0, Called SetPunchEnable]) (chronicle s)))"

definition no_flags :: "'e cfo_fe \<Rightarrow> bool" where
  "no_flags s \<longleftrightarrow> \<not> fs_subWork s \<and> \<not> fs_iterationWork s"

lemma sint_small: "k \<le> 12 \<Longrightarrow> sint (of_nat k :: u32) = int k"
  by (simp add: signed_of_nat signed_take_bit_int_eq_self)

lemma last_sub_le: "last_sub i \<le> 12"
  by (simp add: last_sub_def)

lemma does_chronicle: "does s t s' \<Longrightarrow> chronicle s' = chronicle s @ t"
  by (simp add: does_def chronicle_def)

lemma does_now: "does s t s' \<Longrightarrow> at_call L i k s' = at_call L i k s"
  by (simp add: does_def at_call_def)

subsection \<open>The phases\<close>

lemma wp_substep:
  assumes "at_call L i k s" "k \<le> 12" "fs_first s = (if k = 0 then - 1 else 0)"
  shows "wp begin_substeps (\<lambda>_ s'. at_call L i k s' \<and> fs_first s' = 0 \<and> chronicle s' = chronicle s \<and> fs_clean s' = fs_clean s
    \<and> (no_flags s \<longrightarrow> no_flags s')) s"
  using assms by (cases "k = 0") (simp_all add: begin_substeps_def wp_simps at_call_def chronicle_def no_flags_def)

lemma substep_is: "at_call L i k s \<Longrightarrow> k \<le> 12 \<Longrightarrow> fs_first s = 0 \<Longrightarrow> wp substep Q s = Q (int k) s"
  by (simp add: substep_def wp_simps at_call_def sint_small)

definition own :: "'e felib \<Rightarrow> nat \<Rightarrow> nat \<Rightarrow> 'e cfo_fe \<Rightarrow> bool" where
  "own L i k s \<longleftrightarrow> at_call L i k s \<and> fs_first s = 0 \<and> no_flags s"

lemma own_does: "own L i k s \<Longrightarrow> does s t s' \<Longrightarrow> own L i k s'"
  by (simp add: own_def at_call_def no_flags_def does_def)

lemma wp_frame: "own L i k s \<Longrightarrow> wp m (\<lambda>_ s'. \<exists>t. does s t s') s \<Longrightarrow> (\<And>a s'. own L i k s' \<Longrightarrow> Q a s') \<Longrightarrow> wp m Q s"
  by (erule wp_mono) (blast intro: own_does)

lemma does_io: "wp (fe_board (cfo_io f)) (\<lambda>_ s'. \<exists>t. does s t s') s"
  by (rule wp_mono [OF does_board]) (auto intro: spin_intros)

lemma does_wait: "wp (fe_board (cfo_wait C us)) (\<lambda>_ s'. \<exists>t. does s t s') s"
  by (rule wp_mono [OF does_board]) (auto intro: spin_intros)

lemma does_call: "wp (fe_do L c) (\<lambda>_ s'. \<exists>t. does s t s') s"
  by (rule wp_mono [OF does_do]) blast

lemma own_tag: "own L i k s \<Longrightarrow> own L i k (s\<lparr>fs_next_tag := t\<rparr>)"
  by (simp add: own_def at_call_def no_flags_def)

definition clocks_done :: "'e felib \<Rightarrow> nat \<Rightarrow> 'e cfo_fe \<Rightarrow> bool" where
  "clocks_done L k s \<longleftrightarrow> at_call L 0 k s \<and> fs_first s = 0 \<and> (fs_subWork s \<longrightarrow> k < 12)"

lemma own_done: "own L 0 k s \<Longrightarrow> clocks_done L k s"
  by (simp add: own_def clocks_done_def no_flags_def)

lemma own_sub_done: "own L 0 k s \<Longrightarrow> k < 12 \<Longrightarrow> wp indicateSubIterationWork (\<lambda>_. clocks_done L k) s"
  by (simp add: own_def clocks_done_def no_flags_def at_call_def indicateSubIterationWork_def wp_simps)

lemma clock_sequence:
  assumes own: "own L 0 k s" and k: "k \<le> 12"
  shows "wp (configureForTimingChain L (- 1)) (\<lambda>_. clocks_done L k) s"
proof -
  have wp1: "wp (configureForTimingChain L (- 1)) (\<lambda>_. clocks_done L k) s
    = wp (if k = 0 then seqE (modify (\<lambda>s. s\<lparr>fs_next_tag := 0\<rparr>)) (seqE (fe_do L DisableBeamOnMode) (seqE (fe_do L DisableBeamOffMode)
         (seqE (fe_do L ClearControlRegister) (seqE (fe_do L DisableAllOutputs) indicateSubIterationWork))))
       else if k = 1 then clock_setup L else clock_poll L (int k)) (\<lambda>_. clocks_done L k) s"
  proof -
    have s: "at_call L 0 k s" "fs_first s = 0" using own by (simp_all add: own_def)
    have "(int k = 0) = (k = 0)" "(int k = 1) = (k = 1)" by simp_all
    then show ?thesis
      unfolding configureForTimingChain_def wp_bindE if_P [OF refl] substep_is [OF s(1) k s(2)] by simp
  qed
  consider "k = 0" | "k = 1" | "2 \<le> k" by linarith
  then show ?thesis
  proof cases
    case 1
    have "wp (fe_do L DisableBeamOnMode) (\<lambda>_. wp (fe_do L DisableBeamOffMode) (\<lambda>_. wp (fe_do L ClearControlRegister)
        (\<lambda>_. wp (fe_do L DisableAllOutputs) (\<lambda>_. wp indicateSubIterationWork (\<lambda>_. clocks_done L k))))) (s\<lparr>fs_next_tag := 0\<rparr>)"
      by (rule wp_frame, rule own_tag [OF own], rule does_call, (rule wp_frame, assumption, rule does_call)+, erule own_sub_done)
        (simp add: 1)
    then show ?thesis unfolding wp1 wp_seqE wp_basic if_P [OF 1] .
  next
    case 2
    have "wp (fe_board (cfo_io (fl_jaLocked L))) (\<lambda>locked. wp (fe_board (cfo_io (fl_jaSelect L v (\<not> locked))))
        (\<lambda>_. wp (fe_board (cfo_io (fl_jaCSR L))) (\<lambda>_. wp indicateSubIterationWork (\<lambda>_. clocks_done L k)))) s" for v
      by (rule wp_frame, rule own, rule does_io, (rule wp_frame, assumption, rule does_io)+, erule own_sub_done)
        (simp add: 2)
    then have "wp (clock_setup L) (\<lambda>_. clocks_done L k) s"
      unfolding clock_setup_def wp_whenE wp_bindE wp_seqE using own_done [OF own] by simp
    then show ?thesis unfolding wp1 using 2 by simp
  next
    case 3
    have "wp (fe_board (cfo_io (fl_jaLocked L)))
        (\<lambda>locked. wp (if \<not> locked \<and> int k - 2 < maxPolls
            then seqE (fe_board (cfo_wait (fl_cfo L) 1000000)) indicateSubIterationWork
            else bindE (fe_board (cfo_io (fl_jaCSR L))) (\<lambda>_. ret ())) (\<lambda>_. clocks_done L k)) s"
    proof (rule wp_frame [OF own does_io])
      fix locked s1
      assume s1: "own L 0 k s1"
      show "wp (if \<not> locked \<and> int k - 2 < maxPolls
            then seqE (fe_board (cfo_wait (fl_cfo L) 1000000)) indicateSubIterationWork
            else bindE (fe_board (cfo_io (fl_jaCSR L))) (\<lambda>_. ret ())) (\<lambda>_. clocks_done L k) s1"
      proof (cases "\<not> locked \<and> int k - 2 < maxPolls")
        case True
        then have "k < 12" by (simp add: maxPolls_def)
        then have "wp (fe_board (cfo_wait (fl_cfo L) 1000000)) (\<lambda>_. wp indicateSubIterationWork (\<lambda>_. clocks_done L k)) s1"
          by (intro wp_frame [OF s1 does_wait] own_sub_done)
        then show ?thesis unfolding if_P [OF True] wp_seqE .
      next
        case False
        have "wp (fe_board (cfo_io (fl_jaCSR L))) (\<lambda>_. clocks_done L k) s1"
          by (rule wp_frame [OF s1 does_io]) (rule own_done)
        then show ?thesis unfolding if_not_P [OF False] wp_bindE wp_basic .
      qed
    qed
    then have "wp (clock_poll L (int k)) (\<lambda>_. clocks_done L k) s"
      unfolding clock_poll_def wp_whenE wp_bindE [of "fe_board (cfo_io (fl_jaLocked L))"] using own_done [OF own] by simp
    then show ?thesis unfolding wp1 using 3 by simp
  qed
qed

lemma phase_0:
  assumes "inv L 0 k s" "at_call L 0 k s" "no_flags s"
  shows "wp (configure_phase L bt 0) (\<lambda>_. asked L 0 k) s"
proof -
  have k: "k \<le> 12" "fs_first s = (if k = 0 then - 1 else 0)" using assms(1) by (simp_all add: inv_def last_sub_def)
  have last: "wp indicateIterationWork (\<lambda>_. asked L 0 k) s'" if "clocks_done L k s'" for s'
    using that by (auto simp: indicateIterationWork_def wp_basic asked_def clocks_done_def at_call_def inv_def last_sub_def traced_def)
  have "wp begin_substeps (\<lambda>_ s'. wp (configureForTimingChain L (- 1)) (\<lambda>_. wp indicateIterationWork (\<lambda>_. asked L 0 k)) s') s"
    by (rule wp_mono [OF wp_substep [OF assms(2) k]], rule wp_mono [OF clock_sequence]) (use assms(3) k in \<open>auto simp: own_def intro: last\<close>)
  then show ?thesis unfolding configure_phase_def wp_seqE if_P [OF refl] .
qed

lemma ends_phase:
  assumes "at_call L i k s" "inv L (Suc i) 0 (s\<lparr>fs_first := - 1, fs_iterationWork := True\<rparr>)" "\<not> fs_subWork s"
  shows "wp end_phase (\<lambda>_. asked L i k) s"
  using assms by (simp add: end_phase_def indicateIterationWork_def wp_basic wp_seqE asked_def at_call_def)

lemma phase_1:
  assumes "at_call L 1 0 s" "no_flags s"
  shows "wp (configure_phase L bt 1) (\<lambda>_. asked L 1 0) s"
  unfolding configure_phase_def using assms
  by (simp add: ends_phase no_flags_def inv_def last_sub_def traced_def)

lemma asks_next:
  assumes "at_call L i k s" "inv L (Suc i) 0 s" "\<not> fs_subWork s"
  shows "wp indicateIterationWork (\<lambda>_. asked L i k) s"
  using assms by (simp add: indicateIterationWork_def wp_basic asked_def at_call_def inv_def chronicle_def)

lemma asks_again:
  assumes "at_call L i k s" "inv L i (Suc k) s"
  shows "wp indicateSubIterationWork (\<lambda>_. asked L i k) s"
  using assms by (simp add: indicateSubIterationWork_def wp_basic asked_def at_call_def inv_def chronicle_def)

lemma phase_2:
  assumes "inv L 2 0 s" "at_call L 2 0 s" "no_flags s"
  shows "wp (configure_phase L bt 2) (\<lambda>_. asked L 2 0) s"
proof -
  let ?R = "\<lambda>s. at_call L 2 0 s \<and> fs_first s = - 1 \<and> no_flags s"
  have R: "?R s'" if "?R s" "does s t s'" for s s' :: "'a cfo_fe" and t
    using that by (simp add: does_def at_call_def no_flags_def)
  have step: "wp m Q s" if "?R s" "\<And>s. wp m (\<lambda>_ s'. \<exists>t. does s t s') s" "\<And>a s'. ?R s' \<Longrightarrow> Q a s'"
    for m :: "('a, unit) fe_eff" and Q and s :: "'a cfo_fe"
    by (rule wp_mono [OF that(2)], erule exE, rule that(3), rule R [OF that(1)], assumption)
  have s: "?R s" using assms by (simp add: inv_def)
  have launch: "wp (whenE (event_building L) (launch_fixed_width L bt ''1.7us'' 0 0 0)) (\<lambda>_ s'. \<exists>t. does s t s') s" for s
    unfolding wp_whenE by (auto intro: wp_mono [OF does_launch] does_refl)
  have last: "wp indicateIterationWork (\<lambda>_. asked L 2 0) s'" if "?R s'" for s'
    by (rule asks_next) (use that in \<open>auto simp: inv_def last_sub_def traced_def no_flags_def\<close>)
  have "wp (enable_chain L bt) (\<lambda>_. asked L 2 0) s"
    unfolding enable_chain_def wp_seqE wp_bindE
    by (rule step [OF s does_call], rule step [OF _ does_call], assumption, rule wp_DTCs, rule step [OF _ does_links], assumption,
        rule step [OF _ launch], assumption, rule last)
  then show ?thesis unfolding configure_phase_def by simp
qed

lemma wp_judge:
  assumes "us = [] \<Longrightarrow> Q () s"
    and "us \<noteq> [] \<Longrightarrow> \<not> retry \<Longrightarrow> wp (reset_serdes L us) (\<lambda>_. wp indicateSubIterationWork Q) s"
  shows "wp (judge_locks L retry us) Q s"
proof (cases "filter (finds ''(unreachable)'') us = []")
  case True
  then have all: "filter (\<lambda>u. \<not> finds ''(unreachable)'' u) us = us" by (simp add: filter_empty_conv filter_id_conv)
  show ?thesis
    unfolding judge_locks_def Let_def all using True assms by (simp add: wp_seqE wp_basic)
next
  case False
  then show ?thesis unfolding judge_locks_def Let_def by (simp add: wp_basic)
qed

lemma does_reset: "wp (reset_serdes L us) (\<lambda>_ s'. \<exists>t. does s t s') s"
  unfolding reset_serdes_def wp_rethrow wp_seqE
  by (rule wp_mono [OF does_do], rule wp_mono [OF does_do], rule exI, rule does_trans)

lemma phase_3:
  assumes "inv L 3 k s" "at_call L 3 k s" "no_flags s"
  shows "wp (configure_phase L bt 3) (\<lambda>_. asked L 3 k) s"
proof -
  have k: "k \<le> 1" "k \<le> 12" "fs_first s = (if k = 0 then - 1 else 0)" using assms(1) by (simp_all add: inv_def last_sub_def)
  have finish: "wp (bindE (gets fs_subWork) (\<lambda>again. whenE (\<not> again) end_phase)) (\<lambda>_. asked L 3 k) s'"
    if "own L 3 k s'" "chain_locked L (chronicle s')" for s'
  proof -
    have "wp end_phase (\<lambda>_. asked L 3 k) s'"
      by (rule ends_phase) (use that in \<open>simp_all add: own_def no_flags_def inv_def last_sub_def traced_def chronicle_def\<close>)
    then show ?thesis using that by (simp add: wp_bindE wp_basic wp_whenE own_def no_flags_def)
  qed
  have again: "wp indicateSubIterationWork (\<lambda>_. wp (bindE (gets fs_subWork) (\<lambda>again. whenE (\<not> again) end_phase)) (\<lambda>_. asked L 3 k)) s'"
    if "own L 3 k s'" "int k \<noteq> 1" for s'
  proof -
    have "k = 0" using that(2) k(1) by simp
    then show ?thesis
      using that(1) by (simp add: indicateSubIterationWork_def wp_bindE wp_basic wp_whenE own_def at_call_def no_flags_def asked_def inv_def last_sub_def traced_def)
  qed
  have locks: "wp (unlocked_DTCs L (dtc_uids L))
      (\<lambda>us. wp (judge_locks L (int k = 1) us) (\<lambda>_. wp (bindE (gets fs_subWork) (\<lambda>again. whenE (\<not> again) end_phase)) (\<lambda>_. asked L 3 k))) s1"
    if own: "own L 3 k s1" for s1
  proof (rule wp_mono [OF does_unlocked], elim exE conjE)
    fix us :: "string list" and s2 t
    assume t: "does s1 t s2" "us = [] \<longrightarrow> list_all2 (answers L ''Get Link Lock Status'' ''Lock Status'' cdr_locked) (dtc_uids L) t"
    show "wp (judge_locks L (int k = 1) us) (\<lambda>_. wp (bindE (gets fs_subWork) (\<lambda>again. whenE (\<not> again) end_phase)) (\<lambda>_. asked L 3 k)) s2"
    proof (rule wp_judge)
      assume "us = []"
      then have "links_locked L t" using t(2) by (simp add: links_locked_def)
      then have "chain_locked L (chronicle s2)" unfolding does_chronicle [OF t(1)] chain_locked_def by blast
      then show "wp (bindE (gets fs_subWork) (\<lambda>again. whenE (\<not> again) end_phase)) (\<lambda>_. asked L 3 k) s2"
        by (rule finish [OF own_does [OF own t(1)]])
    next
      assume "int k \<noteq> 1"
      then show "wp (reset_serdes L us) (\<lambda>_. wp indicateSubIterationWork
          (\<lambda>_. wp (bindE (gets fs_subWork) (\<lambda>again. whenE (\<not> again) end_phase)) (\<lambda>_. asked L 3 k))) s2"
        by (intro wp_frame [OF own_does [OF own t(1)] does_reset] again)
    qed
  qed
  have "wp (check_chain L) (\<lambda>_. asked L 3 k) s"
    unfolding check_chain_def wp_seqE wp_bindE [of substep] wp_bindE [of "DTCs L"] wp_bindE [of "unlocked_DTCs L us" for us]
  proof (rule wp_mono [OF wp_substep [OF assms(2) k(2,3)]], elim conjE)
    fix s1 :: "'a cfo_fe"
    assume s1: "at_call L 3 k s1" "fs_first s1 = 0" "no_flags s \<longrightarrow> no_flags s1"
    then have own: "own L 3 k s1" using assms(3) by (simp add: own_def)
    show "wp substep (\<lambda>sub. wp (DTCs L) (\<lambda>us. wp (unlocked_DTCs L us)
        (\<lambda>x. wp (judge_locks L (sub = 1) x) (\<lambda>_. wp (bindE (gets fs_subWork) (\<lambda>again. whenE (\<not> again) end_phase)) (\<lambda>_. asked L 3 k))))) s1"
      unfolding substep_is [OF s1(1) k(2) s1(2)] by (intro wp_DTCs locks own)
  qed
  then show ?thesis unfolding configure_phase_def by simp
qed

lemma edge_more:
  assumes "edge_passes L tr ps" "pass_ran L (\<lambda>_. True) t"
  shows "edge_passes L (tr @ t) (ps @ [t])"
  using assms unfolding edge_passes_def by auto

lemma edge_begins:
  assumes "chain_locked L tr" "rtf_valid L t"
  shows "edge_passes L (tr @ t) []"
proof -
  from assms(1) obtain t0 locks where "tr = t0 @ locks" "links_locked L locks" unfolding chain_locked_def by blast
  then show ?thesis
    unfolding edge_passes_def using assms(2) by (intro conjI exI [of _ t0] exI [of _ locks] exI [of _ t]) simp_all
qed

text \<open>One pass: \<open>ps\<close> are those before.\<close>

lemma pass_again:
  assumes "own L 4 k s" "traced L 4 (Suc k) (fs_clean s) (chronicle s)" "k \<le> 10" "event_building L"
  shows "wp indicateSubIterationWork (\<lambda>_. asked L 4 k) s"
  by (rule asks_again) (use assms in \<open>simp_all add: own_def no_flags_def inv_def last_sub_def\<close>)

lemma pass_ends:
  assumes "own L 4 k s" "chain_up L [] (chronicle s)"
  shows "wp end_phase (\<lambda>_. asked L 4 k) s"
  by (rule ends_phase) (use assms in \<open>simp_all add: own_def no_flags_def inv_def last_sub_def traced_def after_sync_def chronicle_def\<close>)

lemma wp_edge_pass:
  assumes eb: "event_building L" and own: "own L 4 k s" and k: "1 \<le> k" "k \<le> 11" and tr: "traced L 4 k (fs_clean s) (chronicle s)"
  shows "wp (edge_pass L (dtc_uids L) (int k)) (\<lambda>_. asked L 4 k) s"
  unfolding edge_pass_def wp_bindE [of "foldE (fix_edge L) (dtc_uids L) []"]
proof (rule wp_mono [OF does_pass], elim exE conjE)
  fix toggled :: "string list" and s1 t
  assume t: "does s t s1" "pass_ran L (\<lambda>_. True) t" "toggled = [] \<longrightarrow> pass_clean L t"
  from tr k obtain ps where ps: "edge_passes L (chronicle s) ps" "length ps = k - 1"
    "fs_clean s = 0 \<and> k \<le> 10 \<or> fs_clean s = 1 \<and> (\<exists>qs q. ps = qs @ [q] \<and> pass_clean L q)"
    by (auto simp: traced_def)
  have new: "edge_passes L (chronicle s1) (ps @ [t])" unfolding does_chronicle [OF t(1)] by (rule edge_more [OF ps(1) t(2)])
  have clean: "fs_clean s1 = fs_clean s" using t(1) by (simp add: does_def)
  have own1: "own L 4 k (s1\<lparr>fs_clean := n\<rparr>)" for n
    using own_does [OF own t(1)] by (simp add: own_def at_call_def no_flags_def)
  have chron: "chronicle (s1\<lparr>fs_clean := n\<rparr>) = chronicle s1" for n by (simp add: chronicle_def)
  have len: "length (ps @ [t]) = Suc k - 1" using ps(2) k by simp
  show "wp (if toggled = [] then seqE (modify (\<lambda>s. s\<lparr>fs_clean := fs_clean s + 1\<rparr>))
        (bindE (gets fs_clean) (\<lambda>n. if 2 \<le> n then end_phase else indicateSubIterationWork))
      else seqE (modify (\<lambda>s. s\<lparr>fs_clean := 0\<rparr>))
        (if int k \<ge> MAX_CFO_EDGE_FIX_PASSES
         then throw (''Phase 2c (CFO Edge Fix): edge fix did not converge after 10 passes. DTCs still toggling:'' @ uid_lines toggled)
         else indicateSubIterationWork)) (\<lambda>_. asked L 4 k) s1"
  proof (cases "toggled = []")
    case True
    then have q: "pass_clean L t" using t(3) by simp
    have "wp (if 2 \<le> fs_clean s + 1 then end_phase else indicateSubIterationWork) (\<lambda>_. asked L 4 k) (s1\<lparr>fs_clean := fs_clean s + 1\<rparr>)"
    proof (cases "fs_clean s = 1")
      case one: True
      then obtain qs p where p: "ps = qs @ [p]" "pass_clean L p" using ps(3) by auto
      have "chain_up L [] (chronicle s1)"
        unfolding chain_up_def using new p q ps(2) k by (intro exI [of _ "chronicle s1"] exI [of _ qs] exI [of _ p] exI [of _ t]) simp
      then show ?thesis using one pass_ends [OF own1 [of 2]] chron by simp
    next
      case False
      then have c: "fs_clean s = 0" "k \<le> 10" using ps(3) by auto
      have "traced L 4 (Suc k) 1 (chronicle s1)" unfolding traced_def using new len q by auto
      then show ?thesis using c pass_again [OF own1 [of 1]] chron eb by simp
    qed
    then show ?thesis unfolding if_P [OF True] wp_seqE wp_bindE wp_basic by (simp add: clean)
  next
    case False
    have "wp (if int k \<ge> MAX_CFO_EDGE_FIX_PASSES
         then throw (''Phase 2c (CFO Edge Fix): edge fix did not converge after 10 passes. DTCs still toggling:'' @ uid_lines toggled)
         else indicateSubIterationWork) (\<lambda>_. asked L 4 k) (s1\<lparr>fs_clean := 0\<rparr>)"
    proof (cases "int k \<ge> MAX_CFO_EDGE_FIX_PASSES")
      case True
      show ?thesis unfolding if_P [OF True] wp_basic by (rule TrueI)
    next
      case less: False
      then have "k \<le> 9" by (simp add: MAX_CFO_EDGE_FIX_PASSES_def)
      moreover from this have "traced L 4 (Suc k) 0 (chronicle s1)" unfolding traced_def using new len by auto
      ultimately show ?thesis unfolding if_not_P [OF less] using pass_again [OF own1 [of 0]] chron eb by simp
    qed
    then show ?thesis unfolding if_not_P [OF False] wp_seqE wp_basic .
  qed
qed

lemma phase_4:
  assumes "inv L 4 k s" "at_call L 4 k s" "no_flags s"
  shows "wp (configure_phase L bt 4) (\<lambda>_. asked L 4 k) s"
proof -
  have k: "k \<le> 11" "k \<le> 12" "fs_first s = (if k = 0 then - 1 else 0)" using assms(1) by (simp_all add: inv_def last_sub_def)
  have "wp (edge_fix L) (\<lambda>_. asked L 4 k) s"
  proof (cases "event_building L")
    case False
    then have "k = 0" using assms(1) by (simp add: inv_def)
    then have "wp indicateIterationWork (\<lambda>_. asked L 4 k) s"
      by (intro asks_next) (use False assms in \<open>simp_all add: inv_def last_sub_def no_flags_def\<close>)
    then show ?thesis using False by (simp add: edge_fix_def)
  next
    case True
    then have tr: "traced L 4 k (fs_clean s) (chronicle s)" using assms(1) by (simp add: inv_def)
    have "wp (edge_fix L) (\<lambda>_. asked L 4 k) s = wp begin_substeps (\<lambda>_. wp substep (\<lambda>sub. wp (DTCs L) (\<lambda>us. wp (
         if sub = 0 then seqE (modify (\<lambda>s. s\<lparr>fs_clean := 0\<rparr>)) (seqE (forE us (validate_rtf L)) indicateSubIterationWork)
         else edge_pass L us sub) (\<lambda>_. asked L 4 k)))) s"
    proof -
      have eq: "edge_fix L = seqE begin_substeps (bindE substep (\<lambda>sub. bindE (DTCs L) (\<lambda>us.
         if sub = 0 then seqE (modify (\<lambda>s. s\<lparr>fs_clean := 0\<rparr>)) (seqE (forE us (validate_rtf L)) indicateSubIterationWork)
         else edge_pass L us sub)))"
        using True by (simp add: edge_fix_def)
      show ?thesis unfolding eq wp_seqE [of begin_substeps] wp_bindE [of substep] wp_bindE [of "DTCs L"] by (rule refl)
    qed
    also have "\<dots>"
    proof (rule wp_mono [OF wp_substep [OF assms(2) k(2,3)]], elim conjE)
      fix s1 :: "'a cfo_fe"
      assume s1: "at_call L 4 k s1" "fs_first s1 = 0" "no_flags s \<longrightarrow> no_flags s1" "chronicle s1 = chronicle s" "fs_clean s1 = fs_clean s"
      then have own: "own L 4 k s1" using assms(3) by (simp add: own_def)
      show "wp substep (\<lambda>sub. wp (DTCs L) (\<lambda>us. wp (
         if sub = 0 then seqE (modify (\<lambda>s. s\<lparr>fs_clean := 0\<rparr>)) (seqE (forE us (validate_rtf L)) indicateSubIterationWork)
         else edge_pass L us sub) (\<lambda>_. asked L 4 k))) s1"
        unfolding substep_is [OF s1(1) k(2) s1(2)]
      proof (rule wp_DTCs, cases "k = 0")
        case zero: True
        have own0: "own L 4 k (s1\<lparr>fs_clean := 0\<rparr>)" using own by (simp add: own_def at_call_def no_flags_def)
        have locked: "chain_locked L (chronicle (s1\<lparr>fs_clean := 0\<rparr>))"
          using tr zero s1(4) by (simp add: traced_def chronicle_def)
        have "wp (forE (dtc_uids L) (validate_rtf L)) (\<lambda>_. wp indicateSubIterationWork (\<lambda>_. asked L 4 k)) (s1\<lparr>fs_clean := 0\<rparr>)"
        proof (rule wp_mono [OF does_validates], elim exE conjE)
          fix s2 t
          assume t: "does (s1\<lparr>fs_clean := 0\<rparr>) t s2" "rtf_valid L t"
          have "edge_passes L (chronicle s2) []" unfolding does_chronicle [OF t(1)] by (rule edge_begins [OF locked t(2)])
          then have "traced L 4 (Suc k) (fs_clean s2) (chronicle s2)"
            unfolding traced_def using zero t(1) by (auto simp: does_def)
          then show "wp indicateSubIterationWork (\<lambda>_. asked L 4 k) s2"
            by (rule pass_again [OF own_does [OF own0 t(1)]]) (simp_all add: zero True)
        qed
        moreover have "int k = 0" using zero by simp
        ultimately show "wp (if int k = 0 then seqE (modify (\<lambda>s. s\<lparr>fs_clean := 0\<rparr>)) (seqE (forE (dtc_uids L) (validate_rtf L)) indicateSubIterationWork)
           else edge_pass L (dtc_uids L) (int k)) (\<lambda>_. asked L 4 k) s1"
          unfolding if_P [OF \<open>int k = 0\<close>] wp_seqE wp_basic by simp
      next
        case False
        then have "wp (edge_pass L (dtc_uids L) (int k)) (\<lambda>_. asked L 4 k) s1"
          by (intro wp_edge_pass own True) (use tr s1 k in auto)
        then show "wp (if int k = 0 then seqE (modify (\<lambda>s. s\<lparr>fs_clean := 0\<rparr>)) (seqE (forE (dtc_uids L) (validate_rtf L)) indicateSubIterationWork)
           else edge_pass L (dtc_uids L) (int k)) (\<lambda>_. asked L 4 k) s1"
          using False by simp
      qed
    qed
    finally show ?thesis .
  qed
  then show ?thesis unfolding configure_phase_def by simp
qed

lemma chain_more: "chain_up L rest tr \<Longrightarrow> chain_up L (rest @ t) (tr @ t)"
  unfolding chain_up_def by (metis append.assoc)

text \<open>Phases that only act on the CFO.\<close>

lemma phase_last:
  assumes inv: "inv L i 0 s" and i: "5 \<le> i" "i \<le> 12" and at_call: "at_call L i 0 s" and q: "no_flags s"
    and m: "wp m (\<lambda>_. does s t) s" and t: "event_building L \<Longrightarrow> after_sync (Suc i) = after_sync i @ t"
  shows "wp (seqE m indicateIterationWork) (\<lambda>_. asked L i 0) s"
  unfolding wp_seqE
proof (rule wp_mono [OF m], rule asks_next)
  fix s'
  assume d: "does s t s'"
  show "at_call L i 0 s'" using at_call does_now [OF d] by simp
  show "\<not> fs_subWork s'" using q d by (simp add: no_flags_def does_def)
  have "chain_up L (after_sync (Suc i)) (chronicle s')" if "event_building L"
    unfolding t [OF that] does_chronicle [OF d]
    by (rule chain_more) (use inv i that in \<open>simp add: inv_def traced_def\<close>)
  then show "inv L (Suc i) 0 s'"
    using inv i d by (simp add: inv_def last_sub_def traced_def does_def)
qed

lemma phase_idle:
  assumes "inv L i 0 s" "5 \<le> i" "i \<le> 11" "i \<noteq> 9" "at_call L i 0 s" "no_flags s"
  shows "wp indicateIterationWork (\<lambda>_. asked L i 0) s"
proof -
  have "wp (seqE (ret ()) indicateIterationWork) (\<lambda>_. asked L i 0) s"
    by (rule phase_last [where t = "[]"]) (use assms in \<open>auto simp: wp_basic does_refl after_sync_def\<close>)
  then show ?thesis by (simp add: wp_seqE wp_basic)
qed

lemma does_two: "wp (seqE (fe_do L c) (fe_do L d)) (\<lambda>_. does s [Called c, Called d]) s"
  unfolding wp_seqE
  by (rule wp_mono [OF does_do], rule wp_mono [OF does_do], drule (1) does_trans) simp

lemma phase_9:
  assumes "inv L 9 0 s" "at_call L 9 0 s" "no_flags s"
  shows "wp (configure_phase L bt 9) (\<lambda>_. asked L 9 0) s"
proof -
  have m: "wp (whenE (event_building L) (seqE (fe_do L DisableBeamOnMode) (fe_do L DisableBeamOffMode)))
      (\<lambda>_. does s (if event_building L then [Called DisableBeamOnMode, Called DisableBeamOffMode] else [])) s"
    using does_two [of L DisableBeamOnMode DisableBeamOffMode s] unfolding wp_whenE by (cases "event_building L") (simp_all only: if_True if_False does_refl)
  have "wp (seqE (whenE (event_building L) (seqE (fe_do L DisableBeamOnMode) (fe_do L DisableBeamOffMode))) indicateIterationWork) (\<lambda>_. asked L 9 0) s"
    by (rule phase_last [OF assms(1) _ _ assms(2,3) m]) (simp_all add: after_sync_def)
  then show ?thesis unfolding configure_phase_def by simp
qed

lemma phase_12:
  assumes "inv L 12 0 s" "at_call L 12 0 s" "no_flags s"
  shows "wp (configure_phase L bt 12) (\<lambda>_. asked L 12 0) s"
proof -
  have "wp (seqE (seqE (fe_do L ReleaseAllBuffers) (fe_do L CfoSoftReset)) indicateIterationWork) (\<lambda>_. asked L 12 0) s"
    by (rule phase_last [OF assms(1) _ _ assms(2,3) does_two]) (simp_all add: after_sync_def)
  then have "wp (seqE (fe_do L ReleaseAllBuffers) (seqE (fe_do L CfoSoftReset) indicateIterationWork)) (\<lambda>_. asked L 12 0) s"
    unfolding wp_seqE .
  then show ?thesis unfolding configure_phase_def by simp
qed

lemma phase_13:
  assumes "inv L 13 0 s" "at_call L 13 0 s" "no_flags s"
  shows "wp (configure_phase L bt 13) (\<lambda>_. asked L 13 0) s"
proof -
  have "wp (seqE (fe_do L EnableAcceleratorRF0) (fe_do L SetPunchEnable)) (\<lambda>_. asked L 13 0) s"
  proof (rule wp_mono [OF does_two])
    fix s'
    assume d: "does s [Called EnableAcceleratorRF0, Called SetPunchEnable] s'"
    have "chain_up L (after_sync 13 @ [Called EnableAcceleratorRF0, Called SetPunchEnable]) (chronicle s')" if "event_building L"
      unfolding does_chronicle [OF d]
      by (rule chain_more) (use assms(1) that in \<open>simp add: inv_def traced_def\<close>)
    then show "asked L 13 0 s'" using assms(2,3) d does_now [OF d] by (simp add: asked_def no_flags_def does_def)
  qed
  then show ?thesis unfolding configure_phase_def by simp
qed

lemma phases:
  assumes "inv L i k s" "at_call L i k s" "no_flags s"
  shows "wp (configure_phase L bt (int i)) (\<lambda>_. asked L i k) s"
proof -
  have b: "i \<le> 13" "k \<le> last_sub i" using assms(1) by (simp_all add: inv_def)
  consider "i = 0" | "i = 3" | "i = 4" | "k = 0" "i \<in> {1, 2, 9, 12, 13}" | "k = 0" "i \<in> {5, 6, 7, 8, 10, 11}"
  proof -
    have "k = 0" if "i \<notin> {0, 3, 4}" using b that by (simp add: last_sub_def)
    moreover have "i \<in> {0, 3, 4} \<or> i \<in> {1, 2, 9, 12, 13} \<or> i \<in> {5, 6, 7, 8, 10, 11}" using b(1) by (simp, presburger)
    ultimately show ?thesis using that by blast
  qed
  then show ?thesis
  proof cases
    case 4
    then show ?thesis using assms phase_1 [of L s bt] phase_2 [of L s bt] phase_9 [of L s bt] phase_12 [of L s bt] phase_13 [of L s bt] by auto
  next
    case 5
    then have "configure_phase L bt (int i) = indicateIterationWork" unfolding configure_phase_def by auto
    moreover have "5 \<le> i" "i \<le> 11" "i \<noteq> 9" using 5 by auto
    ultimately show ?thesis using phase_idle [of L i s] assms 5(1) by simp
  qed (use assms phase_0 [of L k s bt] phase_3 [of L k s bt] phase_4 [of L k s bt] in auto)
qed

subsection \<open>One call\<close>

text \<open>Before a call the framework takes back the flags.\<close>

definition configure_call :: "'e felib \<Rightarrow> 'e start_bt \<Rightarrow> ('e, unit) fe_eff" where
  "configure_call L bt =
     seqE (modify (\<lambda>s. s\<lparr>fs_subWork := False, fs_iterationWork := False, fs_passWork := False\<rparr>)) (configure L bt)"

definition idle_mode :: "'e felib \<Rightarrow> bool" where
  "idle_mode L \<longleftrightarrow> fl_skipInit L \<or> cf_operatingMode (fl_cfo L) = HARDWARE_DEV"

definition first_only :: "'e felib \<Rightarrow> bool" where
  "first_only L \<longleftrightarrow> (\<forall>i k. fl_isFirst L i k \<longleftrightarrow> i = 0 \<and> k = 0)"

lemma wp_io: "(\<And>a s'. does s [] s' \<Longrightarrow> Q a s') \<Longrightarrow> wp (fe_board (cfo_io f)) Q s"
  by (rule wp_mono [OF does_board]) (auto intro: spin_intros)

lemma does_step: "does s [] s1 \<Longrightarrow> does s1 [] s2 \<Longrightarrow> does s [] s2"
  using does_trans [of s "[]" s1 "[]" s2] by simp

lemma does_record: "wp (recordTimeAlive L) (\<lambda>_. does s []) s"
  unfolding recordTimeAlive_def fe_now_def wp_simps
  by (rule wp_io, rule wp_io) (simp add: does_def)

lemma does_test: "wp (testAndUpdateTimeAlive L what) (\<lambda>_. does s []) s"
proof -
  have alive: "wp (compare_time_alive what old v) (\<lambda>_. wp (modify (\<lambda>s. s\<lparr>fs_timeAlive := v\<rparr>))
      (\<lambda>_. wp (fe_now L) (\<lambda>t. wp (modify (\<lambda>s. s\<lparr>fs_timeRead := t\<rparr>)) (\<lambda>_. does s [])))) s1"
    if "does s [] s1" for s1 old v
  proof -
    have "wp (fe_board (cfo_io (\<lambda>e. case fl_time L e of (t, e) \<Rightarrow> (Inr t, e))))
        (\<lambda>t. wp (modify (\<lambda>s. s\<lparr>fs_timeRead := t\<rparr>)) (\<lambda>_. does s [])) (s1\<lparr>fs_timeAlive := v\<rparr>)"
      by (rule wp_io) (use that in \<open>simp add: does_def wp_basic\<close>)
    then show ?thesis unfolding compare_time_alive_def fe_now_def by (simp add: wp_basic)
  qed
  show ?thesis
    unfolding testAndUpdateTimeAlive_def wp_bindE [of "fe_now L"] wp_bindE [of "gets f" for f] wp_basic(3)
    unfolding fe_now_def
  proof (rule wp_io)
    fix t :: int and s1
    assume s1: "does s [] s1"
    show "wp (if t - fs_timeRead s1 < 2 then ret () else
        bindE (fe_board (cfo_io (fl_timeAlive L))) (\<lambda>v. bindE (gets fs_timeAlive) (\<lambda>old. seqE (compare_time_alive what old v)
          (seqE (modify (\<lambda>s. s\<lparr>fs_timeAlive := v\<rparr>)) (bindE (fe_board (cfo_io (\<lambda>e. case fl_time L e of (t, e) \<Rightarrow> (Inr t, e))))
            (\<lambda>t. modify (\<lambda>s. s\<lparr>fs_timeRead := t\<rparr>))))))) (\<lambda>_. does s []) s1"
    proof (cases "t - fs_timeRead s1 < 2")
      case True
      then show ?thesis using s1 by (simp add: wp_basic)
    next
      case False
      show ?thesis
        unfolding if_not_P [OF False] wp_bindE wp_seqE wp_basic(3)
        by (rule wp_io, rule alive [unfolded fe_now_def]) (rule does_step [OF s1])
    qed
  qed
qed

lemma wp_configPhase:
  assumes "fs_iteration s = of_nat i" "i \<le> 12 \<or> i = 13" "fs_phaseBase s = 0 \<or> fs_phaseBase s = - 1 \<and> i = 0"
  shows "wp configPhase Q s = Q (int i) (s\<lparr>fs_phaseBase := 0\<rparr>)"
proof -
  have "sint (of_nat i :: u32) = int i" using assms(2) sint_small by auto
  moreover have same: "s\<lparr>fs_phaseBase := 0\<rparr> = s" if "fs_phaseBase s = 0" using that by (cases s) simp
  ultimately show ?thesis
    using assms(1,3) unfolding configPhase_def wp_seqE wp_basic
    by (cases "fs_phaseBase s = 0") (simp_all add: same)
qed

definition before :: "'e felib \<Rightarrow> nat \<Rightarrow> nat \<Rightarrow> 'e cfo_fe \<Rightarrow> bool" where
  "before L i k s \<longleftrightarrow> (fl_standalone L \<or> fs_pass s = 0) \<and>
     (i = 0 \<and> k = 0 \<and> fs_iteration s = 0 \<and> fs_sub s = 0 \<or> (i \<noteq> 0 \<or> k \<noteq> 0) \<and> inv L i k s \<and> at_call L i k s)"

lemma small_zero: "n \<le> 13 \<Longrightarrow> (of_nat n :: u32) = 0 \<longleftrightarrow> n = 0"
  by (auto simp: word_of_nat_eq_0_iff dest: dvd_imp_le)

text \<open>The call in a mode that configures.\<close>

lemma configure_mode:
  assumes "inv L i k s" "no_flags s" "fl_standalone L \<or> fs_pass s = 0" "fs_iteration s = of_nat i" "fs_sub s = of_nat k"
    and "fs_phaseBase s = 0 \<or> fs_phaseBase s = - 1 \<and> i = 0"
  shows "wp (configureEventBuildingMode L bt (- 1)) (\<lambda>_. asked L i k) s"
proof -
  have i: "i \<le> 12 \<or> i = 13" using assms(1) by (auto simp: inv_def)
  have "inv L i k (s\<lparr>fs_phaseBase := 0\<rparr>)" "at_call L i k (s\<lparr>fs_phaseBase := 0\<rparr>)" "no_flags (s\<lparr>fs_phaseBase := 0\<rparr>)"
    using assms by (simp_all add: inv_def at_call_def no_flags_def chronicle_def)
  then have "wp (configure_phase L bt (int i)) (\<lambda>_. asked L i k) (s\<lparr>fs_phaseBase := 0\<rparr>)" by (rule phases)
  then have "wp (bindE configPhase (configure_phase L bt)) (\<lambda>_. asked L i k) s"
    unfolding wp_bindE wp_configPhase [OF assms(4) i assms(6)] .
  then show ?thesis
    using assms(3) by (simp add: configureEventBuildingMode_def isMyConfigureSubsystemIteration_def wp_bindE [of "gets f" for f] wp_basic)
qed

definition call_done :: "'e felib \<Rightarrow> nat \<Rightarrow> nat \<Rightarrow> 'e cfo_fe \<Rightarrow> bool" where
  "call_done L i k s \<longleftrightarrow> fs_iteration s = of_nat i \<and> fs_sub s = of_nat k \<and> (fl_standalone L \<or> fs_pass s = 0)
     \<and> (if idle_mode L then no_flags s else asked L i k s)"

lemma configure_rest:
  assumes "inv L i k s" "no_flags s" "fl_standalone L \<or> fs_pass s = 0" "fs_iteration s = of_nat i" "fs_sub s = of_nat k"
    and "fs_phaseBase s = 0 \<or> fs_phaseBase s = - 1 \<and> i = 0"
  shows "wp (if fl_skipInit L then ret ()
      else seqE (testAndUpdateTimeAlive L ''Configure'')
          (case cf_operatingMode (fl_cfo L) of
             HARDWARE_DEV \<Rightarrow> ret ()
           | OTHER_MODE \<Rightarrow> throw (''Unknown system operating mode: '' @ fl_modeText L @ line_end
               @ '' Please specify a valid operating mode in the '' @ in_quotes ''Mu2eGlobalsTable.'' @ line_end)
           | _ \<Rightarrow> configureEventBuildingMode L bt (- 1))) (\<lambda>_. call_done L i k) s"
proof (cases "fl_skipInit L")
  case True
  then show ?thesis using assms by (simp add: wp_basic call_done_def idle_mode_def)
next
  case False
  have frame: "inv L i k s1" "no_flags s1" "fl_standalone L \<or> fs_pass s1 = 0" "fs_iteration s1 = of_nat i" "fs_sub s1 = of_nat k"
    "fs_phaseBase s1 = 0 \<or> fs_phaseBase s1 = - 1 \<and> i = 0" if "does s [] s1" for s1
    using assms that by (simp_all add: does_def inv_def no_flags_def chronicle_def)
  have mode: "wp (configureEventBuildingMode L bt (- 1)) (\<lambda>_. call_done L i k) s1"
    if "does s [] s1" "cf_operatingMode (fl_cfo L) \<noteq> HARDWARE_DEV" for s1
    by (rule wp_mono [OF configure_mode [OF frame [OF that(1)]]])
      (use False that(2) in \<open>simp add: call_done_def idle_mode_def asked_def at_call_def\<close>)
  show ?thesis
    unfolding if_not_P [OF False] wp_seqE
  proof (rule wp_mono [OF does_test])
    fix s1
    assume s1: "does s [] s1"
    show "wp (case cf_operatingMode (fl_cfo L) of
             HARDWARE_DEV \<Rightarrow> ret ()
           | OTHER_MODE \<Rightarrow> throw (''Unknown system operating mode: '' @ fl_modeText L @ line_end
               @ '' Please specify a valid operating mode in the '' @ in_quotes ''Mu2eGlobalsTable.'' @ line_end)
           | _ \<Rightarrow> configureEventBuildingMode L bt (- 1)) (\<lambda>_. call_done L i k) s1"
      using mode [OF s1] frame [OF s1]
      by (cases "cf_operatingMode (fl_cfo L)") (simp_all add: wp_basic call_done_def idle_mode_def)
  qed
qed

lemma one_call:
  assumes b: "before L i k s" and first: "first_only L"
  shows "wp (configure_call L bt) (\<lambda>_. call_done L i k) s"
proof -
  let ?s = "s\<lparr>fs_subWork := False, fs_iterationWork := False, fs_passWork := False\<rparr>"
  show ?thesis
  proof (cases "i = 0 \<and> k = 0")
    case True
    then have "fl_isFirst L (fs_iteration ?s) (fs_sub ?s)" "fs_iteration s = 0" "fs_sub s = 0" "fl_standalone L \<or> fs_pass s = 0"
      using b first by (auto simp: before_def first_only_def)
    moreover have "wp (recordTimeAlive L) (\<lambda>_. wp resetConfigPhase (\<lambda>_. wp (modify (\<lambda>s. s\<lparr>fs_first := - 1\<rparr>)) (\<lambda>_. wp
       (if fl_skipInit L then ret ()
        else seqE (testAndUpdateTimeAlive L ''Configure'')
          (case cf_operatingMode (fl_cfo L) of
             HARDWARE_DEV \<Rightarrow> ret ()
           | OTHER_MODE \<Rightarrow> throw (''Unknown system operating mode: '' @ fl_modeText L @ line_end
               @ '' Please specify a valid operating mode in the '' @ in_quotes ''Mu2eGlobalsTable.'' @ line_end)
           | _ \<Rightarrow> configureEventBuildingMode L bt (- 1))) (\<lambda>_. call_done L i k)))) ?s"
      unfolding resetConfigPhase_def wp_basic
      by (rule wp_mono [OF does_record], rule configure_rest)
        (use True calculation(2-4) in \<open>simp_all add: does_def inv_def no_flags_def last_sub_def traced_def\<close>)
    ultimately show ?thesis
      unfolding configure_call_def configure_def wp_seqE wp_bindE [of "gets f" for f] wp_basic(3,4) wp_whenE by simp
  next
    case False
    then have n: "inv L i k s" "at_call L i k s" using b by (auto simp: before_def)
    then have "i \<le> 13" "k \<le> 13" using last_sub_le [of i] by (auto simp: inv_def)
    then have "\<not> fl_isFirst L (fs_iteration ?s) (fs_sub ?s)" using False n(2) first by (auto simp: first_only_def at_call_def small_zero)
    moreover have "wp (if fl_skipInit L then ret ()
        else seqE (testAndUpdateTimeAlive L ''Configure'')
          (case cf_operatingMode (fl_cfo L) of
             HARDWARE_DEV \<Rightarrow> ret ()
           | OTHER_MODE \<Rightarrow> throw (''Unknown system operating mode: '' @ fl_modeText L @ line_end
               @ '' Please specify a valid operating mode in the '' @ in_quotes ''Mu2eGlobalsTable.'' @ line_end)
           | _ \<Rightarrow> configureEventBuildingMode L bt (- 1))) (\<lambda>_. call_done L i k) ?s"
      by (rule configure_rest) (use n in \<open>simp_all add: inv_def at_call_def no_flags_def chronicle_def\<close>)
    ultimately show ?thesis
      unfolding configure_call_def configure_def wp_seqE wp_bindE [of "gets f" for f] wp_basic(3,4) wp_whenE by simp
  qed
qed

subsection \<open>The transition\<close>

text \<open>
  The framework is a parameter: from the indices of a call and the flags after it, the indices of the next call if there
  is one. The code relies on this: a call that asks for it gets another sub-iteration, otherwise the next iteration. A
  call that asks for nothing is the last one, or the next iteration comes all the same, as long as others ask for it.
\<close>

type_synonym schedule = "u32 \<times> u32 \<Rightarrow> bool \<Rightarrow> bool \<Rightarrow> (u32 \<times> u32) option"

definition repeats :: "schedule \<Rightarrow> bool" where
  "repeats N \<longleftrightarrow> (\<forall>i k. (\<forall>w. N (i, k) True w = Some (i, k + 1)) \<and> N (i, k) False True = Some (i + 1, 0)
     \<and> (N (i, k) False False = None \<or> N (i, k) False False = Some (i + 1, 0)))"

definition transition_round :: "'e felib \<Rightarrow> 'e start_bt \<Rightarrow> schedule \<Rightarrow> unit \<Rightarrow> ('e, unit + unit) fe_eff" where
  "transition_round L bt N _ =
     seqE (configure_call L bt)
    (bindE (gets (\<lambda>s. N (fs_iteration s, fs_sub s) (fs_subWork s) (fs_iterationWork s))) (\<lambda>x.
     case x of
       None \<Rightarrow> ret (Inr ())
     | Some (i, k) \<Rightarrow> seqE (modify (\<lambda>s. s\<lparr>fs_iteration := i, fs_sub := k\<rparr>)) (ret (Inl ()))))"

definition configure_transition :: "'e felib \<Rightarrow> 'e start_bt \<Rightarrow> schedule \<Rightarrow> nat \<Rightarrow> ('e, unit) fe_eff" where
  "configure_transition L bt N n = loopE n (transition_round L bt N) ()"

text \<open>The number of calls that are still possible.\<close>

definition calls_left :: "nat \<Rightarrow> nat \<Rightarrow> nat" where
  "calls_left i k = (\<Sum>j = i..<14. Suc (last_sub j)) - k"

lemma calls_left_0: "calls_left 0 0 = 38"
  by (simp add: calls_left_def last_sub_def sum.atLeast_Suc_lessThan numeral_eq_Suc)

lemma calls_left_sub: "i \<le> 13 \<Longrightarrow> Suc k \<le> last_sub i \<Longrightarrow> Suc (calls_left i (Suc k)) = calls_left i k"
proof -
  assume "i \<le> 13" "Suc k \<le> last_sub i"
  moreover from this have "last_sub i < (\<Sum>j = i..<14. Suc (last_sub j))" by (simp add: sum.atLeast_Suc_lessThan)
  ultimately show ?thesis by (simp add: calls_left_def)
qed

lemma calls_left_next: "i \<le> 13 \<Longrightarrow> k \<le> last_sub i \<Longrightarrow> Suc (calls_left (Suc i) 0) \<le> calls_left i k"
  by (simp add: calls_left_def sum.atLeast_Suc_lessThan [of i 14])

definition final_calls :: "fe_event list" where
  "final_calls = [Called DisableBeamOnMode, Called DisableBeamOffMode, Called ReleaseAllBuffers, Called CfoSoftReset,
                  Called EnableAcceleratorRF0, Called SetPunchEnable]"

definition configured :: "'e felib \<Rightarrow> 'e cfo_fe \<Rightarrow> bool" where
  "configured L s \<longleftrightarrow> (event_building L \<and> \<not> fl_skipInit L \<longrightarrow> chain_up L final_calls (chronicle s))"

definition ready :: "'e felib \<Rightarrow> nat \<Rightarrow> nat \<Rightarrow> 'e cfo_fe \<Rightarrow> bool" where
  "ready L i k s \<longleftrightarrow> i \<le> 13 \<and> k \<le> last_sub i \<and> before L i k s"

lemma repeats_others: "repeats N \<Longrightarrow> N (i, k) False False = None \<or> N (i, k) False False = Some (i + 1, 0)"
  by (simp add: repeats_def)

text \<open>Before a call in which nothing is left to do; others asked for it.\<close>

definition quiet :: "'e felib \<Rightarrow> 'e cfo_fe \<Rightarrow> bool" where
  "quiet L s \<longleftrightarrow> fs_iteration s \<noteq> 0 \<and> fs_sub s = 0 \<and> (fl_standalone L \<or> fs_pass s = 0) \<and> configured L s
     \<and> (idle_mode L \<or> fs_phaseBase s = 0 \<and> 13 < fs_iteration s)"

text \<open>The last call asked for nothing, and the framework makes another for the others.\<close>

definition for_others :: "schedule \<Rightarrow> 'e cfo_fe \<Rightarrow> bool" where
  "for_others N s \<longleftrightarrow> no_flags s \<and> (\<exists>k. N (fs_iteration s - 1, k) False False = Some (fs_iteration s, 0))"

lemma nothing_left: "13 < i \<Longrightarrow> configure_phase L bt (sint i) = ret ()" for i :: u32
proof -
  assume i: "13 < i"
  have u: "uint i < 2 ^ 32" using uint_bounded [of i] by simp
  have "sint i = uint i \<or> sint i = uint i - 2 ^ 32"
    using take_bit_int_eq_self [of "uint i" 32] u by (simp add: sint_uint signed_take_bit_eq_take_bit_minus)
  moreover have "13 < uint i" using i by (simp add: word_less_def)
  ultimately have "sint i < 0 \<or> 13 < sint i" using u by linarith
  then show ?thesis unfolding configure_phase_def by auto
qed

lemma late_phase:
  assumes "fs_phaseBase s = 0" "13 < fs_iteration s"
  shows "wp (bindE configPhase (configure_phase L bt)) Q s = Q () s"
proof -
  have same: "s\<lparr>fs_phaseBase := 0\<rparr> = s" using assms(1) by (cases s) simp
  show ?thesis using assms(1) nothing_left [OF assms(2), of L bt] by (simp add: configPhase_def wp_simps same)
qed

lemma quiet_does: "quiet L s \<Longrightarrow> no_flags s \<Longrightarrow> does s [] s' \<Longrightarrow> quiet L s' \<and> no_flags s' \<and> fs_iteration s' = fs_iteration s"
  by (simp add: quiet_def no_flags_def does_def configured_def chronicle_def)

lemma quiet_mode:
  assumes "quiet L s" "no_flags s" "\<not> idle_mode L"
  shows "wp (configureEventBuildingMode L bt (- 1)) (\<lambda>_ s'. quiet L s' \<and> no_flags s' \<and> fs_iteration s' = fs_iteration s) s"
  using assms
  by (simp add: configureEventBuildingMode_def isMyConfigureSubsystemIteration_def wp_bindE [of "gets f" for f] wp_basic)
    (auto simp: quiet_def late_phase)

lemma quiet_call:
  assumes "quiet L s" "first_only L"
  shows "wp (configure_call L bt) (\<lambda>_ s'. quiet L s' \<and> no_flags s' \<and> fs_iteration s' = fs_iteration s) s"
proof -
  let ?s = "s\<lparr>fs_subWork := False, fs_iterationWork := False, fs_passWork := False\<rparr>"
  have s: "quiet L ?s" "no_flags ?s" using assms(1) by (simp_all add: quiet_def no_flags_def configured_def chronicle_def)
  have "\<not> fl_isFirst L (fs_iteration ?s) (fs_sub ?s)" using assms by (simp add: first_only_def quiet_def)
  moreover have "wp (if fl_skipInit L then ret ()
        else seqE (testAndUpdateTimeAlive L ''Configure'')
          (case cf_operatingMode (fl_cfo L) of
             HARDWARE_DEV \<Rightarrow> ret ()
           | OTHER_MODE \<Rightarrow> throw (''Unknown system operating mode: '' @ fl_modeText L @ line_end
               @ '' Please specify a valid operating mode in the '' @ in_quotes ''Mu2eGlobalsTable.'' @ line_end)
           | _ \<Rightarrow> configureEventBuildingMode L bt (- 1))) (\<lambda>_ s'. quiet L s' \<and> no_flags s' \<and> fs_iteration s' = fs_iteration ?s) ?s"
  proof (cases "fl_skipInit L")
    case True
    then show ?thesis using s by (simp add: wp_basic)
  next
    case False
    show ?thesis
      unfolding if_not_P [OF False] wp_seqE
    proof (rule wp_mono [OF does_test])
      fix s1
      assume "does ?s [] s1"
      then have s1: "quiet L s1" "no_flags s1" "fs_iteration s1 = fs_iteration ?s" using quiet_does [OF s] by blast+
      have "wp (configureEventBuildingMode L bt (- 1)) (\<lambda>_ s'. quiet L s' \<and> no_flags s' \<and> fs_iteration s' = fs_iteration ?s) s1"
        if "cf_operatingMode (fl_cfo L) \<noteq> HARDWARE_DEV"
        using quiet_mode [OF s1(1,2), of bt] that False s1(3) by (simp add: idle_mode_def)
      then show "wp (case cf_operatingMode (fl_cfo L) of
             HARDWARE_DEV \<Rightarrow> ret ()
           | OTHER_MODE \<Rightarrow> throw (''Unknown system operating mode: '' @ fl_modeText L @ line_end
               @ '' Please specify a valid operating mode in the '' @ in_quotes ''Mu2eGlobalsTable.'' @ line_end)
           | _ \<Rightarrow> configureEventBuildingMode L bt (- 1)) (\<lambda>_ s'. quiet L s' \<and> no_flags s' \<and> fs_iteration s' = fs_iteration ?s) s1"
        using s1 by (cases "cf_operatingMode (fl_cfo L)") (simp_all add: wp_basic)
    qed
  qed
  ultimately show ?thesis
    unfolding configure_call_def configure_def wp_seqE wp_bindE [of "gets f" for f] wp_basic(3,4) wp_whenE by simp
qed

text \<open>After \<open>2^32\<close> calls the iterations begin anew.\<close>

lemma quiet_round:
  assumes q: "quiet L s" and first: "first_only L" and N: "repeats N"
  shows "wp (transition_round L bt N ())
     (\<lambda>x s'. case x of Inr _ \<Rightarrow> configured L s'
        | Inl _ \<Rightarrow> for_others N s' \<and> fs_iteration s' = fs_iteration s + 1 \<and> (if fs_iteration s' = 0 then ready L 0 0 s' else quiet L s')) s"
  unfolding transition_round_def wp_seqE wp_bindE [of "gets f" for f] wp_basic(3)
proof (rule wp_mono [OF quiet_call [OF q first]], elim conjE)
  fix s' :: "'a cfo_fe"
  assume s': "quiet L s'" "no_flags s'" "fs_iteration s' = fs_iteration s"
  let ?Q = "\<lambda>x s'. case x of Inr _ \<Rightarrow> configured L s'
        | Inl _ \<Rightarrow> for_others N s' \<and> fs_iteration s' = fs_iteration s + 1 \<and> (if fs_iteration s' = 0 then ready L 0 0 s' else quiet L s')"
  let ?t = "s'\<lparr>fs_iteration := fs_iteration s' + 1, fs_sub := 0\<rparr>"
  have none: "configured L s'" "\<not> fs_subWork s'" "\<not> fs_iterationWork s'" using s'(1,2) by (simp_all add: quiet_def no_flags_def)
  have late: "13 < fs_iteration s' + 1 \<or> fs_iteration s' + 1 = 0" if "13 < fs_iteration s'"
  proof -
    have "unat (fs_iteration s' + 1) = Suc (unat (fs_iteration s')) \<or> fs_iteration s' + 1 = 0"
      using unatSuc [of "fs_iteration s'"] by (auto simp: add.commute)
    then show ?thesis using that by (auto simp: word_less_nat_alt)
  qed
  have t: "fs_iteration s' + 1 = 0 \<Longrightarrow> ready L 0 0 ?t" "fs_iteration s' + 1 \<noteq> 0 \<Longrightarrow> quiet L ?t"
    using s'(1) late by (auto simp: quiet_def ready_def before_def configured_def chronicle_def)
  consider "N (fs_iteration s', fs_sub s') False False = None"
    | "N (fs_iteration s', fs_sub s') False False = Some (fs_iteration s' + 1, 0)" by (rule disjE [OF repeats_others [OF N]])
  then show "wp (case N (fs_iteration s', fs_sub s') (fs_subWork s') (fs_iterationWork s') of None \<Rightarrow> ret (Inr ())
      | Some (i, k) \<Rightarrow> seqE (modify (\<lambda>s. s\<lparr>fs_iteration := i, fs_sub := k\<rparr>)) (ret (Inl ()))) ?Q s'"
  proof cases
    case 1
    then show ?thesis using none by (simp add: wp_basic)
  next
    case 2
    then have "for_others N ?t" using s'(2) by (auto simp: for_others_def no_flags_def)
    then show ?thesis using 2 none t s'(3) by (simp add: wp_basic wp_seqE)
  qed
qed

lemma one_round:
  assumes r: "ready L i k s" and first: "first_only L" and N: "repeats N"
  shows "wp (transition_round L bt N ())
     (\<lambda>x s'. case x of Inr _ \<Rightarrow> configured L s'
        | Inl _ \<Rightarrow> (\<exists>i' k'. i' \<le> Suc i \<and> ready L i' k' s' \<and> Suc (calls_left i' k') \<le> calls_left i k)
            \<or> for_others N s' \<and> quiet L s' \<and> unat (fs_iteration s') = Suc i) s"
  unfolding transition_round_def wp_seqE wp_bindE [of "gets f" for f] wp_basic(3)
proof (rule wp_mono [OF one_call [OF _ first]])
  show "before L i k s" using r by (simp add: ready_def)
  have ik: "i \<le> 13" "k \<le> last_sub i" using r by (simp_all add: ready_def)
  fix s' :: "'a cfo_fe"
  assume d: "call_done L i k s'"
  let ?Q = "\<lambda>x s'. case x of Inr _ \<Rightarrow> configured L s'
        | Inl _ \<Rightarrow> (\<exists>i' k'. i' \<le> Suc i \<and> ready L i' k' s' \<and> Suc (calls_left i' k') \<le> calls_left i k)
            \<or> for_others N s' \<and> quiet L s' \<and> unat (fs_iteration s') = Suc i"
  have idx: "fs_iteration s' = of_nat i" "fs_sub s' = of_nat k" "fl_standalone L \<or> fs_pass s' = 0" using d by (simp_all add: call_done_def)
  consider (no_flags) "no_flags s'" "idle_mode L \<or> asked L i k s'" | (sub) "fs_subWork s'" "asked L i k s'"
    | (iter) "\<not> fs_subWork s'" "fs_iterationWork s'" "asked L i k s'"
    using d by (auto simp: call_done_def no_flags_def split: if_splits)
  then show "wp (case N (fs_iteration s', fs_sub s') (fs_subWork s') (fs_iterationWork s') of None \<Rightarrow> ret (Inr ())
      | Some (i, k) \<Rightarrow> seqE (modify (\<lambda>s. s\<lparr>fs_iteration := i, fs_sub := k\<rparr>)) (ret (Inl ()))) ?Q s'"
  proof cases
    case no_flags
    let ?t = "s'\<lparr>fs_iteration := of_nat i + 1, fs_sub := 0\<rparr>"
    have c: "configured L s'"
      using no_flags by (auto simp: configured_def idle_mode_def event_building_def asked_def no_flags_def after_sync_def final_calls_def)
    have "i = 13 \<and> fs_phaseBase s' = 0" if "\<not> idle_mode L"
      using no_flags that by (simp add: asked_def at_call_def no_flags_def)
    moreover have num: "unat (of_nat i + 1 :: u32) = Suc i" using ik(1) by (simp add: unat_word_ariths unat_of_nat)
    moreover from this have "of_nat i + 1 \<noteq> (0 :: u32)" by auto
    ultimately have q: "quiet L ?t" using c idx(3) by (auto simp: quiet_def configured_def chronicle_def word_less_nat_alt)
    have f: "\<not> fs_subWork s'" "\<not> fs_iterationWork s'" using no_flags(1) by (simp_all add: no_flags_def)
    consider "N (of_nat i, of_nat k) False False = None" | "N (of_nat i, of_nat k) False False = Some (of_nat i + 1, 0)"
      by (rule disjE [OF repeats_others [OF N]])
    then show ?thesis
    proof cases
      case 1
      then show ?thesis using c f idx by (simp add: wp_basic)
    next
      case 2
      then have "for_others N ?t" using f by (auto simp: for_others_def no_flags_def)
      then show ?thesis using 2 f q num idx(1,2) by (simp add: wp_basic wp_seqE)
    qed
  next
    case sub
    then have inv: "inv L i (Suc k) s'" and at_call: "at_call L i k s'" by (simp_all add: asked_def)
    let ?t = "s'\<lparr>fs_iteration := of_nat i, fs_sub := of_nat k + 1\<rparr>"
    have "before L i (Suc k) ?t" using inv at_call by (simp add: before_def inv_def at_call_def chronicle_def add.commute)
    moreover have b: "i \<le> 13" "Suc k \<le> last_sub i" using inv by (simp_all add: inv_def)
    moreover from this have "Suc (calls_left i (Suc k)) \<le> calls_left i k" using calls_left_sub by simp
    ultimately have "\<exists>i' k'. i' \<le> Suc i \<and> ready L i' k' ?t \<and> Suc (calls_left i' k') \<le> calls_left i k"
      by (intro exI [of _ i] exI [of _ "Suc k"]) (simp add: ready_def)
    then show ?thesis using sub N idx by (simp add: repeats_def wp_basic wp_seqE)
  next
    case iter
    then have inv: "inv L (Suc i) 0 s'" and at_call: "at_call L i k s'" by (simp_all add: asked_def)
    let ?t = "s'\<lparr>fs_iteration := of_nat i + 1, fs_sub := 0\<rparr>"
    have "before L (Suc i) 0 ?t" using inv at_call by (simp add: before_def inv_def at_call_def chronicle_def add.commute)
    moreover have "Suc i \<le> 13" using inv by (simp add: inv_def)
    moreover have "Suc (calls_left (Suc i) 0) \<le> calls_left i k" using ik by (rule calls_left_next)
    ultimately have "\<exists>i' k'. i' \<le> Suc i \<and> ready L i' k' ?t \<and> Suc (calls_left i' k') \<le> calls_left i k"
      by (intro exI [of _ "Suc i"] exI [of _ 0]) (simp add: ready_def)
    then show ?thesis using iter N idx by (simp add: repeats_def wp_basic wp_seqE)
  qed
qed

text \<open>However many calls it takes, and whatever follows for the others.\<close>

lemma transition_configured:
  assumes "first_only L" "repeats N" "loopE n (transition_round L bt N) () s = (Ret (), s')" "(\<exists>i k. ready L i k s) \<or> quiet L s"
  shows "configured L s'"
  using assms(3,4)
proof (induction n arbitrary: s)
  case (Suc n)
  obtain x s1 where x: "transition_round L bt N () s = (x, s1)" by fastforce
  then obtain u where u: "x = Ret u" using Suc.prems(1) by (cases x) (simp_all add: bindE_def)
  have one: "\<exists>i k. ready L i k s1" if "ready L 0 0 s1" using that by blast
  have "case u of Inr _ \<Rightarrow> configured L s1 | Inl _ \<Rightarrow> (\<exists>i k. ready L i k s1) \<or> quiet L s1"
    using Suc.prems(2)
  proof
    assume "quiet L s"
    then show ?thesis
      using quiet_round [OF _ assms(1,2), of s bt] x u one by (auto simp: wp_def split: sum.splits if_splits)
  next
    assume "\<exists>i k. ready L i k s"
    then obtain i k where "ready L i k s" by blast
    then show ?thesis using one_round [OF _ assms(1,2), of i k s bt] x u by (auto simp: wp_def split: sum.splits)
  qed
  then show ?case using Suc.IH [of s1] Suc.prems(1) x u by (cases u) (simp_all add: bindE_def ret_def)
qed simp

lemma quiet_ends:
  assumes "first_only L" "repeats N" "loopE n (transition_round L bt N) () s = (Spin, s')"
    and "quiet L s" "for_others N s" "unat (fs_iteration s) + n < 2 ^ 32"
  shows "for_others N s'"
  using assms(3-6)
proof (induction n arbitrary: s)
  case (Suc n)
  have "wp (transition_round L bt N ()) (\<lambda>x s'. case x of Inr _ \<Rightarrow> True
      | Inl _ \<Rightarrow> for_others N s' \<and> quiet L s' \<and> unat (fs_iteration s') = Suc (unat (fs_iteration s))) s"
  proof (rule wp_mono [OF quiet_round [OF Suc.prems(2) assms(1,2)]])
    have "unat (fs_iteration s + 1) = Suc (unat (fs_iteration s))" using Suc.prems(4) by (simp add: unat_word_ariths)
    moreover from this have "fs_iteration s + 1 \<noteq> 0" by auto
    ultimately show "case x of Inr _ \<Rightarrow> True
      | Inl _ \<Rightarrow> for_others N t \<and> quiet L t \<and> unat (fs_iteration t) = Suc (unat (fs_iteration s))"
      if "case x of Inr _ \<Rightarrow> configured L t
        | Inl _ \<Rightarrow> for_others N t \<and> fs_iteration t = fs_iteration s + 1 \<and> (if fs_iteration t = 0 then ready L 0 0 t else quiet L t)"
      for x :: "unit + unit" and t
      using that by (auto split: sum.splits)
  qed
  then show ?case
    using Suc.IH Suc.prems(1,4) by (auto simp: wp_def bindE_def ret_def split: prod.splits outcome.splits sum.splits)
qed simp

lemma ready_ends:
  assumes "first_only L" "repeats N" "loopE n (transition_round L bt N) () s = (Spin, s')"
    and "ready L i k s" "calls_left i k \<le> n" "i + n < 2 ^ 32"
  shows "for_others N s'"
  using assms(3-6)
proof (induction n arbitrary: i k s)
  case 0
  then have "i \<le> 13" "k \<le> last_sub i" by (simp_all add: ready_def)
  moreover from this have "last_sub i < (\<Sum>j = i..<14. Suc (last_sub j))" by (simp add: sum.atLeast_Suc_lessThan)
  ultimately show ?case using 0 by (simp add: calls_left_def)
next
  case (Suc n)
  obtain x s1 where x: "transition_round L bt N () s = (Ret x, s1)"
    and o: "case x of Inr _ \<Rightarrow> configured L s1
        | Inl _ \<Rightarrow> (\<exists>i' k'. i' \<le> Suc i \<and> ready L i' k' s1 \<and> Suc (calls_left i' k') \<le> calls_left i k)
            \<or> for_others N s1 \<and> quiet L s1 \<and> unat (fs_iteration s1) = Suc i"
    using one_round [OF Suc.prems(2) assms(1,2), of bt] Suc.prems(1)
    by (auto simp: wp_def bindE_def split: prod.splits outcome.splits)
  obtain u where u: "x = Inl u" using Suc.prems(1) x by (cases x) (simp_all add: bindE_def ret_def)
  have rest: "loopE n (transition_round L bt N) () s1 = (Spin, s')" using Suc.prems(1) x u by (simp add: bindE_def)
  from o u consider i' k' where "i' \<le> Suc i" "ready L i' k' s1" "Suc (calls_left i' k') \<le> calls_left i k"
    | "for_others N s1" "quiet L s1" "unat (fs_iteration s1) = Suc i" by auto
  then show ?case
  proof cases
    case 1
    then show ?thesis using Suc.IH [OF rest 1(2)] Suc.prems(3,4) by simp
  next
    case 2
    then show ?thesis using quiet_ends [OF assms(1,2) rest] Suc.prems(4) by simp
  qed
qed

end
