(* ===== verification/Dtc_Edge.thy ===== *)
theory Dtc_Edge
  imports Cfo_Configure
begin

section \<open>What a DTC tells the CFO about its clock\<close>

text \<open>
  The two front-end macros of a DTC (otsdaq-mu2e/FEInterfaces/DTCFrontEndInterfaceImpl.cc) whose text answers the CFO
  searches while it configures: the settings at the head of the status of the RTF interface, and the repair of the
  edge on which the DTC samples the CFO's clock. The registers are read through the record \<open>edgelib\<close>.
\<close>

subsection \<open>The status of the RTF interface\<close>

record rtf_regs =
  rr_jaSelect :: nat
  rr_edgeMode :: u32
  rr_cfoEmMode :: bool
  rr_cdrLock :: bool
  rr_measuredPos :: int
  rr_impliedPos :: int
  rr_permOffset :: int
  rr_rtfHist :: u32
  rr_punchEdge :: bool
  rr_clockMarkers :: u32

definition ja_source :: "rtf_regs \<Rightarrow> string" where
  "ja_source R = (if rr_jaSelect R = 0 then ''Internal CFO'' else if rr_jaSelect R = 1 then ''RJ45'' else ''Timing Card'')"

definition rtf_saturated :: "u32 \<Rightarrow> bool" where "rtf_saturated h \<longleftrightarrow> bit h 10"
definition sat_bin :: "u32 \<Rightarrow> u32" where "sat_bin h = drop_bit 7 h AND 7"

definition sat_bin_text :: "u32 \<Rightarrow> string" where
  "sat_bin_text h =
     (if rtf_saturated h \<and> sat_bin h \<noteq> 7 then to_string (unat (sat_bin h)) else if sat_bin h = 7 then ''invalid'' else ''N/A'')"

text \<open>\<^verbatim>\<open>std::left\<close> with a width.\<close>

definition column :: "nat \<Rightarrow> string \<Rightarrow> string" where
  "column w t = t @ replicate (w - length t) (CHR '' '')"

definition edge_text :: "rtf_regs \<Rightarrow> string" where
  "edge_text R = (if rr_edgeMode R AND 1 = 0 then ''posedge'' else ''negedge'') @ ''/'' @ (if rr_punchEdge R then ''posedge'' else ''negedge'')"

definition rtf_lines :: "rtf_regs \<Rightarrow> string list" where
  "rtf_lines R =
     [''=== CFO/RTF Settings & Status ==='',
      ''  CFO Emulation Mode:     '' @ column 22 (if rr_cfoEmMode R then ''ON'' else ''OFF'') @ column 18 ''JA Source:'' @ ja_source R,
      ''  CFO-RTF/PunchClk Edge:  '' @ column 22 (edge_text R) @ column 18 ''CFO CDR Lock:'' @ (if rr_cdrLock R then ''LOCKED'' else ''Not Locked''),
      ''  CFO Marker Pos:         ''
        @ column 22 (to_string_int (rr_measuredPos R) @ '' ==> '' @ (if rr_measuredPos R = 7 then ''invalid'' else to_string_int (rr_impliedPos R)))
        @ column 18 ''Perm Offset:'' @ to_string_int (rr_permOffset R),
      ''  RTF Hist Sat Bin:       ''
        @ column 22 (sat_bin_text (rr_rtfHist R) @ '' Saturated: '' @ (if rtf_saturated (rr_rtfHist R) then ''YES'' else ''NO''))
        @ column 18 ''Rx Clock Markers:'' @ to_string (unat (rr_clockMarkers R))]"

definition rtf_settings :: "rtf_regs \<Rightarrow> string" where
  "rtf_settings R = line_end @ concat (map (\<lambda>l. l @ line_end) (rtf_lines R))"

subsection \<open>The repair of the clock edge\<close>

record 'e edgelib =
  el_uid :: string
  el_markers :: "'e \<Rightarrow> (string + u32) \<times> 'e"
  el_linkErrors :: "'e \<Rightarrow> (string + u32) \<times> 'e"
  el_txMarkers :: "u32 \<Rightarrow> bool"
  el_rxToTx :: "u32 \<Rightarrow> bool"
  el_cdcDiag :: "'e \<Rightarrow> (string + u32) \<times> 'e"
  el_toggleEdge :: "'e \<Rightarrow> (string + bool) \<times> 'e"
  el_SoftReset :: "'e \<Rightarrow> (string + unit) \<times> 'e"
  el_usleep :: "u64 \<Rightarrow> 'e \<Rightarrow> 'e"

definition edge_io :: "('e \<Rightarrow> (string + 'a) \<times> 'e) \<Rightarrow> ('e, 'a) eff" where
  "edge_io f e = (case f e of (x, e) \<Rightarrow> ((case x of Inl m \<Rightarrow> Throw m | Inr a \<Rightarrow> Ret a), e))"

definition wait_markers :: "'e edgelib \<Rightarrow> u32 \<times> u32 \<times> nat \<Rightarrow> ('e, (u32 \<times> u32 \<times> nat) + unit) eff" where
  "wait_markers E x =
     (case x of (markers, before, polls) \<Rightarrow>
      if markers > 1000 then ret (Inr ())
      else seqE (modify (el_usleep E 100000))
          (bindE (edge_io (el_markers E)) (\<lambda>markers.
           let polls = Suc polls in
           if markers = before \<and> polls \<ge> 5
           then throw (''Fix CFO Clock Edge: no CFO clock markers arriving on DTC '' @ el_uid E @ '' (count stuck at ''
                  @ to_string (unat markers) @ '' after '' @ to_string (polls * 100) @ '' ms).'')
           else if polls \<ge> 30
           then throw (''Fix CFO Clock Edge: CFO clock markers too slow on DTC '' @ el_uid E @ '' ('' @ to_string (unat markers)
                  @ '' after 3 s, need > 1000).'')
           else ret (Inl (markers, markers, polls)))))"

definition edge_needs_flip :: "bool \<Rightarrow> bool \<Rightarrow> u32 \<Rightarrow> bool" where
  "edge_needs_flip txMarkers rxToTx cdc \<longleftrightarrow> txMarkers \<or> rxToTx \<or> drop_bit 16 cdc AND 0xFFFF \<noteq> 0 \<or> cdc AND 0xFFFF \<noteq> 0"

definition flip_answer :: "bool \<Rightarrow> bool \<Rightarrow> u32 \<Rightarrow> bool \<Rightarrow> string" where
  "flip_answer txMarkers rxToTx cdc newEdge =
     ''CFO interface errors present (TxMarkers='' @ (if txMarkers then ''x'' else '' '') @ '' Rx-to-Tx='' @ (if rxToTx then ''x'' else '' '')
     @ '' Parity='' @ to_string (unat (drop_bit 16 cdc AND 0xFFFF)) @ '' BatchSlip='' @ to_string (unat (cdc AND 0xFFFF))
     @ ''); toggled CFO clock edge to '' @ (if newEdge then ''negedge (falling)'' else ''posedge (rising)'') @ '' and issued a DTC Soft Reset.''"

definition no_flip_answer :: string where
  "no_flip_answer = ''No edge-related errors present; CFO clock edge left unchanged.''"

definition FixCFOClockEdge :: "'e edgelib \<Rightarrow> ('e, string) eff" where
  "FixCFOClockEdge E =
     bindE (edge_io (el_markers E)) (\<lambda>markers.
     seqE (loopE 31 (wait_markers E) (markers, markers, 0))
    (bindE (edge_io (el_linkErrors E)) (\<lambda>cfoErr.
     bindE (edge_io (el_cdcDiag E)) (\<lambda>cdc.
     let txMarkers = el_txMarkers E cfoErr; rxToTx = el_rxToTx E cfoErr in
     if edge_needs_flip txMarkers rxToTx cdc
     then bindE (edge_io (el_toggleEdge E)) (\<lambda>newEdge.
          seqE (modify (el_usleep E 100000))
         (seqE (edge_io (el_SoftReset E))
               (ret (flip_answer txMarkers rxToTx cdc newEdge))))
     else ret no_flip_answer))))"

subsection \<open>What the CFO reads in it\<close>

lemma getlines_line: "CHR 0x0A \<notin> set l \<Longrightarrow> getlines acc (l @ CHR 0x0A # rest) = (acc @ l) # getlines [] rest"
  by (induction l arbitrary: acc) auto

lemma getlines_lines:
  "\<forall>l\<in>set ls. CHR 0x0A \<notin> set l \<Longrightarrow> getlines [] (concat (map (\<lambda>l. l @ line_end) ls) @ rest) = ls @ getlines [] rest"
  by (induction ls) (simp_all add: getlines_line)

lemma finds_letter: "c \<in> set t \<Longrightarrow> c \<notin> set line \<Longrightarrow> \<not> finds t line"
  unfolding finds_def sublist_def by auto

lemma radix_string_dec: "set (to_string n) \<subseteq> set ''0123456789''"
proof (induction n rule: less_induct)
  case (less n)
  have digit: "digit_char d \<in> set ''0123456789''" if "d < 10" for d
  proof -
    have "\<forall>k \<in> set [0..<10]. digit_char k \<in> set ''0123456789''" by code_simp
    then show ?thesis using that by simp
  qed
  show ?case
  proof (cases "n < 10")
    case True
    then show ?thesis using digit by (subst radix_string.simps) auto
  next
    case False
    then have "set (to_string (n div 10)) \<subseteq> set ''0123456789''" by (intro less) simp
    then show ?thesis using False digit [of "n mod 10"] by (subst radix_string.simps) simp
  qed
qed

lemma no_letter:
  assumes "c \<notin> set ''0123456789-''"
  shows "c \<notin> set (to_string n)" "c \<notin> set (to_string_int i)"
  using assms radix_string_dec [of n] radix_string_dec [of "nat i"] radix_string_dec [of "nat (- i)"]
  by (auto simp: to_string_int_def)

lemma set_column: "set (column w t) \<subseteq> insert (CHR '' '') (set t)"
  by (auto simp: column_def)

lemma finds_inside: "finds t (xs @ t @ ys)"
  unfolding finds_def by (rule sublist_appendI)

lemma finds_append: "finds t xs \<Longrightarrow> finds t (ys @ xs)" "finds t xs \<Longrightarrow> finds t (xs @ ys)" "finds t xs \<Longrightarrow> finds t (column w xs)" "finds t t"
proof -
  have ex: "finds t u \<longleftrightarrow> (\<exists>ps ss. u = ps @ t @ ss)" for u by (simp add: finds_def sublist_def)
  show a: "finds t xs \<Longrightarrow> finds t (ys @ xs)" for ys unfolding ex by (metis append.assoc)
  show b: "finds t xs \<Longrightarrow> finds t (xs @ ys)" for ys unfolding ex by (metis append.assoc)
  show "finds t xs \<Longrightarrow> finds t (column w xs)" unfolding column_def by (rule b)
  show "finds t t" unfolding ex by (intro exI [of _ "[]"]) simp
qed

definition mode_line :: "bool \<Rightarrow> string \<Rightarrow> string" where
  "mode_line em ja = ''  CFO Emulation Mode:     '' @ column 22 (if em then ''ON'' else ''OFF'') @ column 18 ''JA Source:'' @ ja"

lemma mode_line_finds:
  assumes "ja = ''Internal CFO'' \<or> ja = ''RJ45'' \<or> ja = ''Timing Card''"
  shows "finds ''CFO Emulation Mode'' (mode_line em ja)" "finds ''JA Source'' (mode_line em ja)"
    "\<not> finds ''Saturated'' (mode_line em ja)" "\<not> finds ''CFO CDR Lock'' (mode_line em ja)"
    "finds ''OFF'' (mode_line em ja) \<longleftrightarrow> \<not> em" "finds ''RJ45'' (mode_line em ja) \<longleftrightarrow> ja = ''RJ45''"
proof -
  have "\<forall>em \<in> set [True, False]. \<forall>ja \<in> set [''Internal CFO'', ''RJ45'', ''Timing Card'']. let l = mode_line em ja in
     finds ''CFO Emulation Mode'' l \<and> finds ''JA Source'' l \<and> \<not> finds ''Saturated'' l \<and> \<not> finds ''CFO CDR Lock'' l
     \<and> (finds ''OFF'' l \<longleftrightarrow> \<not> em) \<and> (finds ''RJ45'' l \<longleftrightarrow> ja = ''RJ45'')"
    by code_simp
  moreover have "em \<in> set [True, False]" "ja \<in> set [''Internal CFO'', ''RJ45'', ''Timing Card'']" using assms by (cases em; simp)+
  ultimately show "finds ''CFO Emulation Mode'' (mode_line em ja)" "finds ''JA Source'' (mode_line em ja)"
    "\<not> finds ''Saturated'' (mode_line em ja)" "\<not> finds ''CFO CDR Lock'' (mode_line em ja)"
    "finds ''OFF'' (mode_line em ja) \<longleftrightarrow> \<not> em" "finds ''RJ45'' (mode_line em ja) \<longleftrightarrow> ja = ''RJ45''"
    unfolding Let_def by blast+
qed

definition lock_line :: "string \<Rightarrow> string \<Rightarrow> bool \<Rightarrow> string" where
  "lock_line edge punch locked =
     ''  CFO-RTF/PunchClk Edge:  '' @ column 22 (edge @ ''/'' @ punch) @ column 18 ''CFO CDR Lock:'' @ (if locked then ''LOCKED'' else ''Not Locked'')"

lemma lock_line_finds:
  assumes "edge = ''posedge'' \<or> edge = ''negedge''" "punch = ''posedge'' \<or> punch = ''negedge''"
  shows "\<not> finds ''Saturated'' (lock_line edge punch locked)" "finds ''CFO CDR Lock'' (lock_line edge punch locked)"
    "finds ''LOCKED'' (lock_line edge punch locked) \<longleftrightarrow> locked"
proof -
  have "\<forall>locked \<in> set [True, False]. \<forall>edge \<in> set [''posedge'', ''negedge'']. \<forall>punch \<in> set [''posedge'', ''negedge''].
     let l = lock_line edge punch locked in \<not> finds ''Saturated'' l \<and> finds ''CFO CDR Lock'' l \<and> (finds ''LOCKED'' l \<longleftrightarrow> locked)"
    by code_simp
  moreover have "locked \<in> set [True, False]" "edge \<in> set [''posedge'', ''negedge'']" "punch \<in> set [''posedge'', ''negedge'']"
    using assms by (cases locked; simp)+
  ultimately show "\<not> finds ''Saturated'' (lock_line edge punch locked)" "finds ''CFO CDR Lock'' (lock_line edge punch locked)"
    "finds ''LOCKED'' (lock_line edge punch locked) \<longleftrightarrow> locked"
    unfolding Let_def by blast+
qed

definition marker_line :: "rtf_regs \<Rightarrow> string" where "marker_line R = rtf_lines R ! 3"
definition saturation_line :: "rtf_regs \<Rightarrow> string" where "saturation_line R = rtf_lines R ! 4"

lemma rtf_lines_are:
  "rtf_lines R = [''=== CFO/RTF Settings & Status ==='', mode_line (rr_cfoEmMode R) (ja_source R),
     lock_line (if rr_edgeMode R AND 1 = 0 then ''posedge'' else ''negedge'') (if rr_punchEdge R then ''posedge'' else ''negedge'') (rr_cdrLock R),
     marker_line R, saturation_line R]"
  by (simp add: rtf_lines_def mode_line_def lock_line_def marker_line_def saturation_line_def edge_text_def)

lemma marker_line_finds: "\<not> finds ''Saturated'' (marker_line R)"
proof (rule finds_letter [where c = "CHR ''S''"])
  show "CHR ''S'' \<notin> set (marker_line R)"
    using no_letter [of "CHR ''S''"] by (auto simp: marker_line_def rtf_lines_def column_def split: if_splits)
qed simp

lemma saturation_line_finds:
  "finds ''Saturated'' (saturation_line R)" "finds ''YES'' (saturation_line R) \<longleftrightarrow> rtf_saturated (rr_rtfHist R)"
proof -
  have line: "saturation_line R = ''  RTF Hist Sat Bin:       ''
        @ column 22 (sat_bin_text (rr_rtfHist R) @ '' Saturated: '' @ (if rtf_saturated (rr_rtfHist R) then ''YES'' else ''NO''))
        @ column 18 ''Rx Clock Markers:'' @ to_string (unat (rr_clockMarkers R))"
    by (simp add: saturation_line_def rtf_lines_def)
  have "finds ''Saturated'' '' Saturated: ''" by code_simp
  then show "finds ''Saturated'' (saturation_line R)" unfolding line by (intro finds_append)
  show "finds ''YES'' (saturation_line R) \<longleftrightarrow> rtf_saturated (rr_rtfHist R)"
  proof (cases "rtf_saturated (rr_rtfHist R)")
    case True
    have "finds ''YES'' (saturation_line R)" unfolding line if_P [OF True] by (intro finds_append)
    with True show ?thesis by simp
  next
    case False
    have "CHR ''Y'' \<notin> set (saturation_line R)"
      unfolding line if_not_P [OF False] using no_letter [of "CHR ''Y''"] by (auto simp: column_def sat_bin_text_def split: if_splits)
    then have "\<not> finds ''YES'' (saturation_line R)" by (rule finds_letter [rotated]) simp
    with False show ?thesis by simp
  qed
qed

lemma no_newline: "\<forall>l\<in>set (rtf_lines R). CHR 0x0A \<notin> set l"
  using no_letter [of "CHR 0x0A"] by (auto simp: rtf_lines_def column_def sat_bin_text_def edge_text_def ja_source_def split: if_splits)

text \<open>The text the CFO gets: the settings, and whatever the macro writes after them.\<close>

lemma rtf_finds:
  "find (finds ''CFO Emulation Mode'') (getlines [] (rtf_settings R @ rest)) = Some (mode_line (rr_cfoEmMode R) (ja_source R))"
  "find (finds ''JA Source'') (getlines [] (rtf_settings R @ rest)) = Some (mode_line (rr_cfoEmMode R) (ja_source R))"
  "find (finds ''Saturated'') (getlines [] (rtf_settings R @ rest)) = Some (saturation_line R)"
  "find (finds ''CFO CDR Lock'') (getlines [] (rtf_settings R @ rest))
     = Some (lock_line (if rr_edgeMode R AND 1 = 0 then ''posedge'' else ''negedge'') (if rr_punchEdge R then ''posedge'' else ''negedge'') (rr_cdrLock R))"
proof -
  have "getlines [] (rtf_settings R @ rest) = [] # rtf_lines R @ getlines [] rest"
    using getlines_lines [OF no_newline, of R rest] by (simp add: rtf_settings_def)
  note lines = this [unfolded rtf_lines_are append_Cons append_Nil]
  have ja: "ja_source R = ''Internal CFO'' \<or> ja_source R = ''RJ45'' \<or> ja_source R = ''Timing Card''" by (simp add: ja_source_def)
  note mode = mode_line_finds [OF ja]
  have lock: "\<not> finds ''Saturated'' (lock_line (if e then ''posedge'' else ''negedge'') (if p then ''posedge'' else ''negedge'') c)"
    "finds ''CFO CDR Lock'' (lock_line (if e then ''posedge'' else ''negedge'') (if p then ''posedge'' else ''negedge'') c)" for e p c
    by (rule lock_line_finds; simp)+
  have head: "\<not> finds ''CFO Emulation Mode'' ''=== CFO/RTF Settings & Status ===''" "\<not> finds ''JA Source'' ''=== CFO/RTF Settings & Status ===''"
    "\<not> finds ''Saturated'' ''=== CFO/RTF Settings & Status ===''" "\<not> finds ''CFO CDR Lock'' ''=== CFO/RTF Settings & Status ===''"
    by code_simp+
  have none: "\<not> finds ''CFO Emulation Mode'' []" "\<not> finds ''JA Source'' []" "\<not> finds ''Saturated'' []" "\<not> finds ''CFO CDR Lock'' []"
    by code_simp+
  show "find (finds ''CFO Emulation Mode'') (getlines [] (rtf_settings R @ rest)) = Some (mode_line (rr_cfoEmMode R) (ja_source R))"
    unfolding lines using none(1) head(1) mode(1) by (simp only: find.simps if_True if_False simp_thms)
  show "find (finds ''JA Source'') (getlines [] (rtf_settings R @ rest)) = Some (mode_line (rr_cfoEmMode R) (ja_source R))"
    unfolding lines using none(2) head(2) mode(2) by (simp only: find.simps if_True if_False simp_thms)
  show "find (finds ''Saturated'') (getlines [] (rtf_settings R @ rest)) = Some (saturation_line R)"
    unfolding lines using none(3) head(3) mode(3) lock(1) marker_line_finds saturation_line_finds(1)
    by (simp only: find.simps if_True if_False simp_thms)
  show "find (finds ''CFO CDR Lock'') (getlines [] (rtf_settings R @ rest))
     = Some (lock_line (if rr_edgeMode R AND 1 = 0 then ''posedge'' else ''negedge'') (if rr_punchEdge R then ''posedge'' else ''negedge'') (rr_cdrLock R))"
    unfolding lines using none(4) head(4) mode(4) lock(2) by (simp only: find.simps if_True if_False simp_thms)
qed

lemma lock_line_locked:
  "finds ''LOCKED'' (lock_line (if e then ''posedge'' else ''negedge'') (if p then ''posedge'' else ''negedge'') c) \<longleftrightarrow> c"
  by (rule lock_line_finds; simp)

lemma no_flip_text: "\<not> finds ''toggled'' no_flip_answer"
  unfolding no_flip_answer_def by code_simp

lemma flip_text: "finds ''toggled'' (flip_answer tx rx cdc newEdge)"
proof -
  have "finds ''toggled'' ''); toggled CFO clock edge to ''" by code_simp
  then show ?thesis unfolding flip_answer_def by (intro finds_append)
qed

end
