(* ===== verification/Cfo_Up.thy ===== *)
theory Cfo_Up
  imports Cfo_Sequence Dtc_Edge
begin

section \<open>The chain is up when the CFO is configured\<close>

text \<open>
  What the invariant of the configure calls gives for the transition as a whole, and what the DTC's answers mean.
\<close>

definition starts :: "'e felib \<Rightarrow> 'e cfo_fe \<Rightarrow> bool" where
  "starts L s \<longleftrightarrow> fs_iteration s = 0 \<and> fs_sub s = 0 \<and> (fl_standalone L \<or> fs_pass s = 0)"

lemma starts_ready: "starts L s \<Longrightarrow> ready L 0 0 s"
  by (simp add: starts_def ready_def before_def)

text \<open>
  C14. Whatever the CFO, the clocks and the other front ends answer, the front end is done after at most 38 configure calls: 13
  for the clocks, 2 for the locks of the DTCs, 12 for the clock edges, one for every other phase. If the transition goes
  on after 38 calls, the last call asked for no other one, and the framework makes the next one only for others; so it is
  with every later call, up to the 2 ^ 32 of the iteration's index.
\<close>

theorem configure_ends:
  assumes "first_only L" "repeats N" "starts L s" "38 \<le> n" "n < 2 ^ 32"
  shows "case configure_transition L bt N n s of (x, s') \<Rightarrow> x \<noteq> Spin
    \<or> \<not> fs_subWork s' \<and> \<not> fs_iterationWork s' \<and> (\<exists>k. N (fs_iteration s' - 1, k) False False = Some (fs_iteration s', 0))"
proof -
  obtain x s' where x: "loopE n (transition_round L bt N) () s = (x, s')" by fastforce
  have "for_others N s'" if "x = Spin"
    using ready_ends [OF assms(1,2) x [unfolded that] starts_ready [OF assms(3)]] assms(4,5) by (simp add: calls_left_0)
  then show ?thesis by (auto simp: configure_transition_def x for_others_def no_flags_def)
qed

text \<open>
  C13. A configure transition of an event building mode that ended without an exception has brought up the chain: the
  last report of the link locks had every DTC of the subsystem locked to the CFO, right after it every DTC passed the
  RTF checks, then at most 11 passes over the clock edges of all DTCs followed, the last two without a change, and after
  them the CFO only stopped the beam, released its buffers, was reset and enabled, however long others kept the
  transition going.
\<close>

theorem configured_chain_up:
  assumes "first_only L" "repeats N" "starts L s" "event_building L" "\<not> fl_skipInit L"
    and "configure_transition L bt N n s = (Ret (), s')"
  shows "\<exists>t0 locks rtf ps p q. chronicle s' = t0 @ locks @ rtf @ concat ps @ p @ q @ final_calls
    \<and> links_locked L locks \<and> rtf_valid L rtf \<and> length ps \<le> 9 \<and> (\<forall>x\<in>set ps. pass_ran L (\<lambda>_. True) x)
    \<and> pass_clean L p \<and> pass_clean L q"
proof -
  have "configured L s'"
    using transition_configured [OF assms(1,2) assms(6) [unfolded configure_transition_def]] starts_ready [OF assms(3)] by blast
  then have "chain_up L final_calls (chronicle s')" using assms(4,5) by (simp add: configured_def)
  then obtain t0 ps p q where 1: "chronicle s' = t0 @ final_calls" "edge_passes L t0 (ps @ [p, q])" "length ps \<le> 9" "pass_clean L p" "pass_clean L q"
    unfolding chain_up_def by blast
  from 1(2) obtain t1 locks rtf where 2: "t0 = t1 @ locks @ rtf @ concat (ps @ [p, q])" "links_locked L locks" "rtf_valid L rtf"
    "\<forall>x\<in>set (ps @ [p, q]). pass_ran L (\<lambda>_. True) x"
    unfolding edge_passes_def by blast
  show ?thesis
    by (intro exI [of _ t1] exI [of _ locks] exI [of _ rtf] exI [of _ ps] exI [of _ p] exI [of _ q]) (use 1 2 in simp)
qed

lemma rtf_outcome:
  "forE rtf_checks (rtf_check uid (rtf_settings R @ rest)) s = (x, s') \<Longrightarrow> s' = s
     \<and> (x = Ret () \<longleftrightarrow> \<not> rr_cfoEmMode R \<and> rr_jaSelect R = 1 \<and> rtf_saturated (rr_rtfHist R) \<and> rr_cdrLock R)"
proof -
  have ja: "ja_source R = ''Internal CFO'' \<or> ja_source R = ''RJ45'' \<or> ja_source R = ''Timing Card''" by (simp add: ja_source_def)
  have rj: "ja_source R = ''RJ45'' \<longleftrightarrow> rr_jaSelect R = 1" by (simp add: ja_source_def)
  have one: "rtf_check uid (rtf_settings R @ rest) (keyword, required, label) s
    = (if finds required line then (Ret (), s) else (Throw (''Phase 2c (CFO Edge Fix): DTC '' @ uid @ '' failed check: '' @ label @ ''. Line: '' @ line), s))"
    if "find (finds keyword) (getlines [] (rtf_settings R @ rest)) = Some line" for keyword required label line
    using that by (simp add: rtf_check_def whenE_def throw_def ret_def)
  assume "forE rtf_checks (rtf_check uid (rtf_settings R @ rest)) s = (x, s')"
  then show "s' = s \<and> (x = Ret () \<longleftrightarrow> \<not> rr_cfoEmMode R \<and> rr_jaSelect R = 1 \<and> rtf_saturated (rr_rtfHist R) \<and> rr_cdrLock R)"
    unfolding rtf_checks_def forE_def foldE.simps bindE_def
    by (auto simp: one [OF rtf_finds(1)] one [OF rtf_finds(2)] one [OF rtf_finds(3)] one [OF rtf_finds(4)]
        mode_line_finds(5,6) [OF ja] saturation_line_finds(2) lock_line_locked rj ret_def split: if_splits)
qed


lemma rtf_returns:
  "forE rtf_checks (rtf_check uid (rtf_settings R @ rest)) s = (Ret (), s)
     \<longleftrightarrow> \<not> rr_cfoEmMode R \<and> rr_jaSelect R = 1 \<and> rtf_saturated (rr_rtfHist R) \<and> rr_cdrLock R"
  using rtf_outcome [of uid R rest s] by (cases "forE rtf_checks (rtf_check uid (rtf_settings R @ rest)) s") blast

text \<open>
  C15. The CFO reads the status of a DTC's RTF interface right: its checks pass exactly when the DTC does not emulate a
  CFO, takes its clock from the RJ45 input, has a saturated histogram and is locked to the CFO, whatever the macro
  writes after the settings.
\<close>

theorem rtf_checks_exact:
  "fst (forE rtf_checks (rtf_check uid (rtf_settings R @ rest)) s) = Ret ()
     \<longleftrightarrow> \<not> rr_cfoEmMode R \<and> rr_jaSelect R = 1 \<and> rtf_saturated (rr_rtfHist R) \<and> rr_cdrLock R"
  using rtf_outcome [of uid R rest s] by (cases "forE rtf_checks (rtf_check uid (rtf_settings R @ rest)) s") auto





text \<open>The repair of a clock edge waits for at most 30 polls of 100 ms; the bound 31 of its loop is never used up.\<close>

lemma nospin_edge_io [spin_intros]: "nospin (edge_io f)"
  by (simp add: nospin_def edge_io_def split: prod.splits sum.splits)

lemma wait_markers_ends: "p \<le> 29 \<Longrightarrow> 30 - p \<le> n \<Longrightarrow> fst (loopE n (wait_markers E) (m, b, p) e) \<noteq> Spin"
proof (induction n arbitrary: m b p e)
  case (Suc n)
  show ?case
  proof (cases "m > 1000")
    case True
    then show ?thesis by (simp add: wait_markers_def bindE_def ret_def)
  next
    case False
    obtain x e' where x: "edge_io (el_markers E) (el_usleep E 100000 e) = (x, e')" by fastforce
    have "x \<noteq> Spin" using nospin_edge_io [of "el_markers E"] x unfolding nospin_def by (metis fst_conv)
    then show ?thesis
      using False x Suc.IH [of "Suc p"] Suc.prems
      by (auto simp: wait_markers_def bindE_def seqE_def modify_def Let_def throw_def ret_def split: outcome.splits)
  qed
qed simp

theorem edge_repair_ends: "fst (FixCFOClockEdge E e) \<noteq> Spin"
proof -
  have "nospin (loopE 31 (wait_markers E) (m, m, 0))" for m
    unfolding nospin_def by (intro allI wait_markers_ends) simp_all
  then have "nospin (FixCFOClockEdge E)"
    unfolding FixCFOClockEdge_def Let_def by (intro spin_intros)
  then show ?thesis by (simp add: nospin_def)
qed

section \<open>A CFO with one DTC\<close>

definition dtc_regs :: rtf_regs where
  "dtc_regs = \<lparr>rr_jaSelect = 1, rr_edgeMode = 0, rr_cfoEmMode = False, rr_cdrLock = True, rr_measuredPos = 2, rr_impliedPos = 1,
     rr_permOffset = 0, rr_rtfHist = 0x480, rr_punchEdge = True, rr_clockMarkers = 5000\<rparr>"

definition chain_cfo :: "unit cfolib" where
  "chain_cfo =
     \<lparr>cf_operatingMode = EVENT_BUILDING, cf_data_path = Inr ''/data'', cf_FPGAClock = 25,
      cf_do = (\<lambda>_ e. (Inr (), e)), cf_text = (\<lambda>_ e. (Inr [], e)), cf_count = (\<lambda>_ e. (Inr 0, e)),
      cf_ReadBeamOnMode = (\<lambda>e. (Inr False, e)), cf_ReadBeamOffMode = (\<lambda>e. (Inr True, e)),
      cf_SetRunPlanData = (\<lambda>_ e. (Inr (), e)), cf_CompareRunPlanData = (\<lambda>_ e. (Inr \<lparr>rb_mismatches = [], rb_and = [], rb_or = []\<rparr>, e)),
      cf_processFile = (\<lambda>_ _ e. (Inr [], e)), cf_write_file = (\<lambda>_ _ e. (True, e)), cf_read_file = (\<lambda>_ e. (Inr [], e)),
      cf_usleep = (\<lambda>_ e. e), cf_code = (\<lambda>_. 0), cf_ops = (\<lambda>_. None), cf_double = (\<lambda>_. []), cf_getNumber = (\<lambda>_. None),
      cf_strtod = (\<lambda>_. 0), cf_split = (\<lambda>_. [])\<rparr>"

definition dtc_answer :: "string \<Rightarrow> string" where
  "dtc_answer name =
     (if name = ''Get Link Lock Status'' then ''CFO CDR Lock [x]''
      else if name = ''Get RTF Interface Status'' then rtf_settings dtc_regs
      else no_flip_answer)"

definition chain_lib :: "unit felib" where
  "chain_lib =
     \<lparr>fl_cfo = chain_cfo, fl_modeText = [], fl_skipInit = False, fl_configure_clock = False, fl_selectSource = None,
      fl_autoEnable = None, fl_autoDuration = None,
      fl_contexts = Inr [\<lparr>cn_enabled = True, cn_apps = Some [\<lparr>an_enabled = True,
        an_fes = Some [\<lparr>fn_uid = ''DTC0'', fn_enabled = True, fn_plugin = Some ''DTCFrontEndInterface''\<rparr>]\<rparr>]\<rparr>],
      fl_siblings = None, fl_standalone = True, fl_isFirst = (\<lambda>i k. i = 0 \<and> k = 0), fl_minReady = 2, fl_syncStep = (\<lambda>i k. k),
      fl_selfMacro = (\<lambda>_ _ _ e. (Inr [], e)), fl_remoteMacro = (\<lambda>_ name _ e. (Inr [(''answer'', dtc_answer name)], e)),
      fl_argOut = (\<lambda>outs _. case outs of [] \<Rightarrow> Inl [] | (_, v) # _ \<Rightarrow> Inr v),
      fl_jaLocked = (\<lambda>e. (Inr True, e)), fl_jaSelect = (\<lambda>_ _ e. (Inr (), e)), fl_jaCSR = (\<lambda>e. (Inr 0, e)),
      fl_timeAlive = (\<lambda>e. (Inr 7, e)), fl_time = (\<lambda>e. (0, e))\<rparr>"

text \<open>Alone, and with others that never end.\<close>

definition chain_schedule :: schedule where
  "chain_schedule x sub iter = (case x of (i, k) \<Rightarrow> if sub then Some (i, k + 1) else if iter then Some (i + 1, 0) else None)"

definition busy_schedule :: schedule where
  "busy_schedule x sub iter = (case x of (i, k) \<Rightarrow> if sub then Some (i, k + 1) else Some (i + 1, 0))"

definition chain_fe :: "unit cfo_fe" where
  "chain_fe =
     \<lparr>fs_cfo = \<lparr>cs_env = (), cs_planSize = 0, cs_percent = [], cs_hist = []\<rparr>, fs_iteration = 0, fs_sub = 0, fs_pass = 0,
      fs_iterationWork = False, fs_subWork = False, fs_passWork = False, fs_phaseBase = - 1, fs_first = - 1, fs_clean = 0,
      fs_next_tag = 0, fs_timeAlive = 0, fs_timeRead = 0, fs_trace = []\<rparr>"

definition no_bt :: "unit start_bt" where "no_bt _ _ _ = ret ()"

lemma cfo_answers: "cfo_do chain_cfo c b = (Ret (), b)" "cfo_io (cf_text chain_cfo t) b = (Ret [], b)"
  "cfo_io (cf_SetRunPlanData chain_cfo bs) b = (Ret (), b)" "cfo_io (cf_processFile chain_cfo p q) b = (Ret [], b)"
  "read_binary chain_cfo p b = (Ret [], b)"
  by (simp_all add: cfo_do_def cfo_io_def read_binary_def chain_cfo_def)

lemma chain_do: "fe_do chain_lib c s = (Ret (), s\<lparr>fs_trace := Called c # fs_trace s\<rparr>)"
  by (simp add: fe_do_def seqE_def bindE_def modify_def fe_board_def cfo_answers chain_lib_def)

lemma chain_macro:
  "runSubsystemFrontEndMacro chain_lib uid name ins s
     = (Ret [(''answer'', dtc_answer name)], s\<lparr>fs_trace := Ran uid name (Inr [(''answer'', dtc_answer name)]) # fs_trace s\<rparr>)"
  by (simp add: runSubsystemFrontEndMacro_def chain_lib_def runs_here_def)

lemma chain_arg: "get_arg_out chain_lib [(''answer'', v)] name s = (Ret v, s)"
  by (simp add: get_arg_out_def chain_lib_def ret_def)

lemma chain_dtcs: "DTCs chain_lib s = (Ret [''DTC0''], s)"
  by (simp add: DTCs_def getSubsystemFEUIDsOfPlugin_def chain_lib_def ctx_uids_def app_uids_def ret_def)

definition loaded_empty :: "unit cfo \<Rightarrow> unit cfo" where "loaded_empty b = b\<lparr>cs_hist := Loaded [] # cs_hist b\<rparr>"

lemma chain_launch:
  "launch_fixed_width chain_lib no_bt ''1.7us'' 0 0 0 s = (Ret (), s\<lparr>fs_cfo := loaded_empty (fs_cfo s), fs_trace := Launched # fs_trace s\<rparr>)"
proof -
  have lib: "fl_cfo chain_lib = chain_cfo" by (simp add: chain_lib_def)
  have parts: "data_path chain_cfo b = (Ret ''/data/'', b)" "parseEventDurationForRunPlan ''1.7us'' b = (Ret (''1.7'', ''us''), b)"
    "cfo_halt chain_cfo b = (Ret (), b)" "compile chain_cfo base b = (Ret [], b)" "write_template chain_cfo p ls b = (Ret (), b)"
    for b base p ls
    by (simp_all add: data_path_def chain_cfo_def ret_def parseEventDurationForRunPlan_def unit_char_def cfo_halt_def seqE_def bindE_def cfo_do_def cfo_io_def whenE_def
       compile_def write_template_def)
  have load: "\<exists>t. SetRunplan chain_cfo p b = (Ret t, loaded_empty b)" for p b
    by (simp add: SetRunplan_def bindE_def seqE_def cfo_answers record_event_def modify_def ret_def loaded_empty_def)
  obtain t where t: "SetRunplan chain_cfo (out_file ''/data/'') (fs_cfo s) = (Ret t, loaded_empty (fs_cfo s))" using load by blast
  show ?thesis
    unfolding launch_fixed_width_def CompileSetAndLaunchTemplateFixedWidthRunPlan_def load_and_launch_def halt_plan_def EnableOrDisableClockMarkers_def
    by (simp add: seqE_def bindE_def modify_def fe_board_def lib parts cfo_answers t ret_def whenE_def)
qed

lemma cdr_yes: "cdr_locked ''CFO CDR Lock [x]''" by code_simp

lemma chain_locks:
  "unlocked_DTCs chain_lib [''DTC0''] s
     = (Ret [], s\<lparr>fs_trace := Ran ''DTC0'' ''Get Link Lock Status'' (Inr [(''answer'', ''CFO CDR Lock [x]'')]) # fs_trace s\<rparr>)"
  by (simp add: unlocked_DTCs_def lock_status_def tryE_def bindE_def chain_macro chain_arg ret_def dtc_answer_def cdr_yes)

lemma chain_rtf:
  "forE [''DTC0''] (validate_rtf chain_lib) s
     = (Ret (), s\<lparr>fs_trace := Ran ''DTC0'' ''Get RTF Interface Status'' (Inr [(''answer'', rtf_settings dtc_regs)]) # fs_trace s\<rparr>)"
proof -
  have regs: "\<not> rr_cfoEmMode dtc_regs" "rr_jaSelect dtc_regs = 1" "rtf_saturated (rr_rtfHist dtc_regs)" "rr_cdrLock dtc_regs"
    by (simp_all add: dtc_regs_def rtf_saturated_def)
  have "forE rtf_checks (rtf_check uid (rtf_settings dtc_regs)) t = (Ret (), t)" for uid and t :: "unit cfo_fe"
    using rtf_returns [of uid dtc_regs "[]" t] regs by simp
  then show ?thesis
    by (simp add: forE_def [of "[''DTC0'']"] validate_rtf_def tryE_def bindE_def chain_macro chain_arg ret_def dtc_answer_def)
qed

lemma chain_fix:
  "fix_edge chain_lib ''DTC0'' [] s
     = (Ret [], s\<lparr>fs_trace := Ran ''DTC0'' ''Fix CFO Clock Edge'' (Inr [(''answer'', no_flip_answer)]) # fs_trace s\<rparr>)"
  by (simp add: fix_edge_def tryE_def bindE_def chain_macro chain_arg ret_def dtc_answer_def no_flip_text)

lemma chain_params: "fl_skipInit chain_lib = False" "fl_configure_clock chain_lib = False" "fl_isFirst chain_lib i k = (i = 0 \<and> k = 0)"
  "fl_standalone chain_lib" "event_building chain_lib" "cf_operatingMode (fl_cfo chain_lib) = EVENT_BUILDING"
  by (simp_all add: chain_lib_def event_building_def chain_cfo_def)

lemma chain_alive: "fs_timeRead s = 0 \<Longrightarrow> testAndUpdateTimeAlive chain_lib what s = (Ret (), s)"
  "recordTimeAlive chain_lib s = (Ret (), s\<lparr>fs_timeAlive := 7, fs_timeRead := 0\<rparr>)"
  by (simp_all add: testAndUpdateTimeAlive_def recordTimeAlive_def fe_now_def fe_board_def cfo_io_def bindE_def seqE_def gets_def ret_def modify_def chain_lib_def)

lemma chain_link: "forE [''DTC0''] (enable_dtc_link chain_lib) s
   = (Ret (), s\<lparr>fs_trace := Ran ''DTC0'' ''Enable/Disable DTC Link'' (Inr [(''answer'', no_flip_answer)]) # fs_trace s\<rparr>)"
  by (simp add: forE_def enable_dtc_link_def tryE_def bindE_def chain_macro ret_def dtc_answer_def)

lemmas chain_steps = transition_round_def configure_call_def configure_def configureEventBuildingMode_def
  isMyConfigureSubsystemIteration_def configPhase_def resetConfigPhase_def configure_phase_def begin_substeps_def substep_def
  end_phase_def indicateIterationWork_def indicateSubIterationWork_def configureForTimingChain_def clock_setup_def clock_poll_def
  enable_chain_def check_chain_def judge_locks_def edge_fix_def edge_pass_def
  chain_do chain_dtcs chain_link chain_launch chain_locks chain_rtf chain_fix chain_params chain_alive
  bindE_def seqE_def gets_def modify_def ret_def whenE_def

definition chain_st :: "unit cfo \<Rightarrow> u32 \<Rightarrow> u32 \<Rightarrow> u32 \<Rightarrow> int \<Rightarrow> bool \<Rightarrow> bool \<Rightarrow> fe_event list \<Rightarrow> unit cfo_fe" where
  "chain_st c i k f n sw iw tr =
     \<lparr>fs_cfo = c, fs_iteration = i, fs_sub = k, fs_pass = 0, fs_iterationWork = iw, fs_subWork = sw, fs_passWork = False,
      fs_phaseBase = 0, fs_first = f, fs_clean = n, fs_next_tag = 0, fs_timeAlive = 7, fs_timeRead = 0, fs_trace = tr\<rparr>"

abbreviation chain_round :: "schedule \<Rightarrow> (unit, unit + unit) fe_eff" where
  "chain_round N \<equiv> transition_round chain_lib no_bt N ()"

lemma asks_more: "repeats N \<Longrightarrow> N (i, k) True w = Some (i, k + 1)" "repeats N \<Longrightarrow> N (i, k) False True = Some (i + 1, 0)"
  by (simp_all add: repeats_def)

lemma first_rounds:
  assumes "repeats N"
  shows "\<exists>c tr. chain_round N chain_fe = (Ret (Inl ()), chain_st c 0 1 0 0 True True tr)"
  "\<exists>c' tr'. chain_round N (chain_st c 0 1 0 0 sw iw tr) = (Ret (Inl ()), chain_st c' 1 0 0 0 False True tr')"
  "\<exists>c' tr'. chain_round N (chain_st c 1 0 0 0 sw iw tr) = (Ret (Inl ()), chain_st c' 2 0 (- 1) 0 False True tr')"
  "\<exists>c' tr'. chain_round N (chain_st c 2 0 (- 1) 0 sw iw tr) = (Ret (Inl ()), chain_st c' 3 0 (- 1) 0 False True tr')"
  "\<exists>c' tr'. chain_round N (chain_st c 3 0 (- 1) 0 sw iw tr) = (Ret (Inl ()), chain_st c' 4 0 (- 1) 0 False True tr')"
  "\<exists>c' tr'. chain_round N (chain_st c 4 0 (- 1) 0 sw iw tr) = (Ret (Inl ()), chain_st c' 4 1 0 0 True False tr')"
  "\<exists>c' tr'. chain_round N (chain_st c 4 1 0 0 sw iw tr) = (Ret (Inl ()), chain_st c' 4 2 0 1 True False tr')"
  "\<exists>c' tr'. chain_round N (chain_st c 4 2 0 1 sw iw tr) = (Ret (Inl ()), chain_st c' 5 0 (- 1) 2 False True tr')"
  by (simp_all add: chain_steps chain_fe_def chain_st_def asks_more [OF assms])

lemma last_rounds:
  "repeats N \<Longrightarrow> i \<in> {5, 6, 7, 8, 9, 10, 11, 12}
     \<Longrightarrow> \<exists>c' tr'. chain_round N (chain_st c i 0 (- 1) 2 sw iw tr) = (Ret (Inl ()), chain_st c' (i + 1) 0 (- 1) 2 False True tr')"
  "\<exists>c' tr'. chain_round chain_schedule (chain_st c 13 0 (- 1) 2 sw iw tr) = (Ret (Inr ()), chain_st c' 13 0 (- 1) 2 False False tr')"
  "\<exists>c' tr'. chain_round busy_schedule (chain_st c 13 0 (- 1) 2 sw iw tr) = (Ret (Inl ()), chain_st c' 14 0 (- 1) 2 False False tr')"
  by (auto simp: chain_steps chain_st_def asks_more chain_schedule_def busy_schedule_def)

text \<open>After \<open>m\<close> rounds the last phase comes.\<close>

definition last_after :: "schedule \<Rightarrow> nat \<Rightarrow> unit cfo_fe \<Rightarrow> bool" where
  "last_after N m s \<longleftrightarrow> (\<exists>c sw iw tr. \<forall>n. loopE (m + n) (transition_round chain_lib no_bt N) () s
     = loopE n (transition_round chain_lib no_bt N) () (chain_st c 13 0 (- 1) 2 sw iw tr))"

lemma last_next: "chain_round N s = (Ret (Inl ()), s1) \<Longrightarrow> last_after N m s1 \<Longrightarrow> last_after N (Suc m) s"
  by (simp add: last_after_def bindE_def)

lemma last_13: "last_after N 0 (chain_st c 13 0 (- 1) 2 sw iw tr)"
  unfolding last_after_def by (intro exI allI) simp

lemma last_idle:
  assumes "repeats N" "i \<in> {5, 6, 7, 8, 9, 10, 11, 12}" "\<And>c sw iw tr. last_after N n (chain_st c (i + 1) 0 (- 1) 2 sw iw tr)"
  shows "last_after N (Suc n) (chain_st c i 0 (- 1) 2 sw iw tr)"
  using last_rounds(1) [OF assms(1,2), of c sw iw tr] assms(3) last_next by blast

lemma last_5: "repeats N \<Longrightarrow> last_after N 8 (chain_st c 5 0 (- 1) 2 sw iw tr)"
proof -
  assume N: "repeats N"
  note idle = last_idle [OF N]
  have r12: "last_after N 1 (chain_st c 12 0 (- 1) 2 sw iw tr)" for c sw iw tr using idle [of 12 0] last_13 by simp
  have r11: "last_after N 2 (chain_st c 11 0 (- 1) 2 sw iw tr)" for c sw iw tr using idle [of 11 1] r12 by (simp add: numeral_2_eq_2)
  have r10: "last_after N 3 (chain_st c 10 0 (- 1) 2 sw iw tr)" for c sw iw tr using idle [of 10 2] r11 by simp
  have r9: "last_after N 4 (chain_st c 9 0 (- 1) 2 sw iw tr)" for c sw iw tr using idle [of 9 3] r10 by simp
  have r8: "last_after N 5 (chain_st c 8 0 (- 1) 2 sw iw tr)" for c sw iw tr using idle [of 8 4] r9 by simp
  have r7: "last_after N 6 (chain_st c 7 0 (- 1) 2 sw iw tr)" for c sw iw tr using idle [of 7 5] r8 by simp
  have r6: "last_after N 7 (chain_st c 6 0 (- 1) 2 sw iw tr)" for c sw iw tr using idle [of 6 6] r7 by simp
  show ?thesis using idle [of 5 7] r6 by simp
qed

lemma last_phase: "repeats N \<Longrightarrow> last_after N 16 chain_fe"
proof -
  assume N: "repeats N"
  note rounds = first_rounds [OF N]
  have r42: "last_after N 9 (chain_st c 4 2 0 1 sw iw tr)" for c sw iw tr
    using rounds(8) [of c sw iw tr] last_next [of N _ _ 8] last_5 [OF N] by auto
  have r41: "last_after N 10 (chain_st c 4 1 0 0 sw iw tr)" for c sw iw tr
    using rounds(7) [of c sw iw tr] last_next [of N _ _ 9] r42 by auto
  have r40: "last_after N 11 (chain_st c 4 0 (- 1) 0 sw iw tr)" for c sw iw tr
    using rounds(6) [of c sw iw tr] last_next [of N _ _ 10] r41 by auto
  have r3: "last_after N 12 (chain_st c 3 0 (- 1) 0 sw iw tr)" for c sw iw tr
    using rounds(5) [of c sw iw tr] last_next [of N _ _ 11] r40 by auto
  have r2: "last_after N 13 (chain_st c 2 0 (- 1) 0 sw iw tr)" for c sw iw tr
    using rounds(4) [of c sw iw tr] last_next [of N _ _ 12] r3 by auto
  have r1: "last_after N 14 (chain_st c 1 0 0 0 sw iw tr)" for c sw iw tr
    using rounds(3) [of c sw iw tr] last_next [of N _ _ 13] r2 by auto
  have r01: "last_after N 15 (chain_st c 0 1 0 0 sw iw tr)" for c sw iw tr
    using rounds(2) [of c sw iw tr] last_next [of N _ _ 14] r1 by auto
  show ?thesis using rounds(1) last_next [of N _ _ 15] r01 by auto
qed

lemma chain_hypotheses: "first_only chain_lib" "repeats chain_schedule" "starts chain_lib chain_fe" "event_building chain_lib" "\<not> fl_skipInit chain_lib"
  "repeats busy_schedule"
  by (simp_all add: first_only_def repeats_def starts_def chain_schedule_def busy_schedule_def chain_params chain_fe_def)

lemma chain_returns: "\<exists>s'. configure_transition chain_lib no_bt chain_schedule 17 chain_fe = (Ret (), s')"
proof -
  obtain c sw iw tr where l: "\<forall>n. loopE (16 + n) (transition_round chain_lib no_bt chain_schedule) () chain_fe
     = loopE n (transition_round chain_lib no_bt chain_schedule) () (chain_st c 13 0 (- 1) 2 sw iw tr)"
    using last_phase [OF chain_hypotheses(2)] unfolding last_after_def by blast
  have "\<exists>s'. loopE 1 (transition_round chain_lib no_bt chain_schedule) () (chain_st c 13 0 (- 1) 2 sw iw tr) = (Ret (), s')"
    using last_rounds(2) [of c sw iw tr] by (auto simp: bindE_def ret_def)
  then show ?thesis using l [rule_format, of 1] by (simp add: configure_transition_def del: loopE.simps)
qed

lemma late_round:
  "13 < i \<Longrightarrow> chain_round busy_schedule (chain_st c i 0 (- 1) 2 sw iw tr) = (Ret (Inl ()), chain_st c (i + 1) 0 (- 1) 2 False False tr)"
proof -
  assume i: "13 < i"
  then have "i \<noteq> 0" by auto
  then show ?thesis
    using nothing_left [OF i, of chain_lib no_bt]
    by (simp add: transition_round_def configure_call_def configure_def configureEventBuildingMode_def isMyConfigureSubsystemIteration_def
        configPhase_def chain_params chain_alive chain_st_def busy_schedule_def bindE_def seqE_def gets_def modify_def ret_def whenE_def)
qed

lemma late_rounds: "13 < i \<Longrightarrow> unat i + n < 2 ^ 32
   \<Longrightarrow> fst (loopE n (transition_round chain_lib no_bt busy_schedule) () (chain_st c i 0 (- 1) 2 sw iw tr)) = Spin"
proof (induction n arbitrary: i sw iw)
  case (Suc n)
  have "unat (i + 1) = Suc (unat i)" using Suc.prems(2) by (simp add: unat_word_ariths)
  then have "13 < i + 1" "unat (i + 1) + n < 2 ^ 32" using Suc.prems by (simp_all add: word_less_nat_alt)
  then show ?case using Suc.IH late_round [OF Suc.prems(1), of c sw iw tr] by (simp add: bindE_def)
qed simp

lemma busy_goes_on: "fst (configure_transition chain_lib no_bt busy_schedule 38 chain_fe) = Spin"
proof -
  obtain c sw iw tr where l: "\<forall>n. loopE (16 + n) (transition_round chain_lib no_bt busy_schedule) () chain_fe
     = loopE n (transition_round chain_lib no_bt busy_schedule) () (chain_st c 13 0 (- 1) 2 sw iw tr)"
    using last_phase [OF chain_hypotheses(6)] unfolding last_after_def by blast
  have "fst (loopE (Suc 21) (transition_round chain_lib no_bt busy_schedule) () (chain_st c 13 0 (- 1) 2 sw iw tr)) = Spin"
    unfolding loopE.simps(2) using last_rounds(3) [of c sw iw tr] late_rounds [of 14 21] by (auto simp: bindE_def simp del: loopE.simps)
  then show ?thesis using l [rule_format, of 22] by (simp add: configure_transition_def del: loopE.simps)
qed

text \<open>With others that never end the calls go on; none of them is asked for by the CFO.\<close>

theorem configure_ends_witness:
  "fst (configure_transition chain_lib no_bt busy_schedule 38 chain_fe) = Spin
    \<and> \<not> fs_iterationWork (snd (configure_transition chain_lib no_bt busy_schedule 38 chain_fe))
    \<and> fst (configure_transition chain_lib no_bt chain_schedule 38 chain_fe) \<noteq> Spin"
  using configure_ends [OF chain_hypotheses(1,6,3), of 38 no_bt] configure_ends [OF chain_hypotheses(1-3), of 38 no_bt] busy_goes_on
  by (auto simp: chain_schedule_def split: prod.splits)

text \<open>One DTC that answers well: 17 calls.\<close>

theorem configured_chain_up_witness:
  "\<exists>s'. configure_transition chain_lib no_bt chain_schedule 17 chain_fe = (Ret (), s')
    \<and> (\<exists>t0 locks rtf ps p q. chronicle s' = t0 @ locks @ rtf @ concat ps @ p @ q @ final_calls \<and> length p = 1 \<and> pass_clean chain_lib q)"
proof -
  obtain s' where s': "configure_transition chain_lib no_bt chain_schedule 17 chain_fe = (Ret (), s')" using chain_returns by blast
  have one: "dtc_uids chain_lib = [''DTC0'']" by (simp add: dtc_uids_def chain_lib_def ctx_uids_def app_uids_def)
  from configured_chain_up [OF chain_hypotheses(1-5) s'] obtain t0 locks rtf ps p q where
    "chronicle s' = t0 @ locks @ rtf @ concat ps @ p @ q @ final_calls" "pass_clean chain_lib p" "pass_clean chain_lib q" by blast
  moreover from this have "length p = 1" unfolding pass_ran_def one by (auto dest: list_all2_lengthD)
  ultimately show ?thesis using s' by blast
qed



end
