(* ===== verification/Ordered_Map.thy ===== *)
theory Ordered_Map
  imports Prelude
begin

section \<open>\<open>std::map\<close>: an ordered map\<close>

text \<open>
  The code keeps most of its tables in \<open>std::map\<close> and relies on two things: the last value
  stored under a key is the one found, and iteration visits the keys in increasing order (so
  \<open>begin()\<close> is the entry with the least key). Locale \<open>ordered_map\<close> states that interface;
  the clients' lemmas are proved in it once. The model's maps are association lists kept in key
  order, and the interpretation \<open>om\<close> proves that they meet the interface.
\<close>

subsection \<open>The interface\<close>

locale ordered_map =
  fixes empty :: "'m"
    and put :: "'k::linorder \<Rightarrow> 'v \<Rightarrow> 'm \<Rightarrow> 'm"
    and del :: "'k \<Rightarrow> 'm \<Rightarrow> 'm"
    and get :: "'m \<Rightarrow> 'k \<Rightarrow> 'v option"
    and entries :: "'m \<Rightarrow> ('k \<times> 'v) list"
    and ok :: "'m \<Rightarrow> bool"
  assumes ok_empty: "ok empty"
    and get_empty: "get empty k = None"
    and ok_put: "ok m \<Longrightarrow> ok (put k v m)"
    and ok_del: "ok m \<Longrightarrow> ok (del k m)"
    and get_put: "get (put k v m) = (get m)(k \<mapsto> v)"
    and get_del: "get (del k m) = (get m)(k := None)"
    and entries_get: "ok m \<Longrightarrow> (k, v) \<in> set (entries m) \<longleftrightarrow> get m k = Some v"
    and entries_sorted: "ok m \<Longrightarrow> sorted_wrt (<) (map fst (entries m))"
begin

lemma begin_least:
  assumes "ok m" and "entries m = (k, v) # es" and "get m k' = Some v'"
  shows "k \<le> k'"
proof -
  have "(k', v') \<in> set ((k, v) # es)"
    using assms entries_get by metis
  moreover have "sorted_wrt (<) (k # map fst es)"
    using assms(1,2) entries_sorted by fastforce
  ultimately show ?thesis by (force simp: less_imp_le)
qed

lemma distinct_entries: "ok m \<Longrightarrow> distinct (map fst (entries m))"
  using entries_sorted by (simp add: strict_sorted_iff)

lemma keys_dom: "ok m \<Longrightarrow> fst ` set (entries m) = dom (get m)"
proof (rule set_eqI)
  fix k assume "ok m"
  have "k \<in> fst ` set (entries m) \<longleftrightarrow> (\<exists>v. (k, v) \<in> set (entries m))"
    by force
  also have "\<dots> \<longleftrightarrow> k \<in> dom (get m)"
    using \<open>ok m\<close> by (auto simp: entries_get)
  finally show "k \<in> fst ` set (entries m) \<longleftrightarrow> k \<in> dom (get m)" .
qed

lemma finite_dom: "ok m \<Longrightarrow> finite (dom (get m))"
  using keys_dom [of m] by (metis List.finite_set finite_imageI)

lemma length_entries:
  assumes "ok m"
  shows "length (entries m) = card (dom (get m))"
proof -
  have "length (entries m) = card (set (map fst (entries m)))"
    using distinct_card [OF distinct_entries [OF assms]] by simp
  then show ?thesis using keys_dom [OF assms] by simp
qed

lemma length_put_fresh:
  assumes "ok m" and "get m k = None"
  shows "length (entries (put k v m)) = Suc (length (entries m))"
proof -
  have "k \<notin> dom (get m)" using assms(2) by (simp add: domIff)
  then show ?thesis
    using assms(1) by (simp add: length_entries ok_put get_put finite_dom)
qed

lemma length_del_present:
  assumes "ok m" and "get m k = Some v"
  shows "Suc (length (entries (del k m))) = length (entries m)"
proof -
  have "k \<in> dom (get m)" using assms(2) by blast
  then have "Suc (card (dom (get m) - {k})) = card (dom (get m))"
    using card_Suc_Diff1 [OF finite_dom [OF assms(1)]] by blast
  then show ?thesis
    using assms(1) by (simp add: length_entries ok_del get_del)
qed

lemma entries_Nil: "ok m \<Longrightarrow> entries m = [] \<longleftrightarrow> get m = Map.empty"
  using length_entries [of m] finite_dom [of m] by auto

end

subsection \<open>Association lists in key order\<close>

type_synonym ('k, 'v) omap = "('k \<times> 'v) list"

fun om_put :: "'k::linorder \<Rightarrow> 'v \<Rightarrow> ('k, 'v) omap \<Rightarrow> ('k, 'v) omap" where
  "om_put k v [] = [(k, v)]"
| "om_put k v (e # m) =
     (if fst e < k then e # om_put k v m
      else if fst e = k then (k, v) # m
      else (k, v) # e # m)"

definition om_del :: "'k \<Rightarrow> ('k, 'v) omap \<Rightarrow> ('k, 'v) omap" where
  "om_del k m = filter (\<lambda>e. fst e \<noteq> k) m"

abbreviation om_get :: "('k, 'v) omap \<Rightarrow> 'k \<Rightarrow> 'v option" where
  "om_get m k \<equiv> map_of m k"

definition om_has :: "('k, 'v) omap \<Rightarrow> 'k \<Rightarrow> bool" where
  "om_has m k \<longleftrightarrow> om_get m k \<noteq> None"

text \<open>The value \<open>m[k]\<close> yields: a default-constructed one where the key is absent.\<close>

definition om_at :: "'v \<Rightarrow> ('k, 'v) omap \<Rightarrow> 'k \<Rightarrow> 'v" where
  "om_at d m k = (case om_get m k of None \<Rightarrow> d | Some v \<Rightarrow> v)"

definition om_ok :: "('k::linorder, 'v) omap \<Rightarrow> bool" where
  "om_ok m \<longleftrightarrow> sorted_wrt (<) (map fst m)"

lemma om_get_put [simp]: "map_of (om_put k v m) = (map_of m)(k \<mapsto> v)"
  by (induction m) auto

lemma om_get_del [simp]: "map_of (om_del k m) = (map_of m)(k := None)"
  by (induction m) (auto simp: om_del_def)

lemma om_has_put [simp]: "om_has (om_put k v m) k' \<longleftrightarrow> k' = k \<or> om_has m k'"
  by (simp add: om_has_def)

lemma om_has_Nil [simp]: "\<not> om_has [] k"
  by (simp add: om_has_def)

lemma om_at_put [simp]: "om_at d (om_put k v m) k' = (if k' = k then v else om_at d m k')"
  by (simp add: om_at_def)

lemma om_at_Nil [simp]: "om_at d [] k = d"
  by (simp add: om_at_def)

lemma keys_om_put: "fst ` set (om_put k v m) = insert k (fst ` set m)"
  by (induction m) auto

lemma om_put_entries: "e \<in> set (om_put k v m) \<Longrightarrow> e = (k, v) \<or> e \<in> set m"
  by (induction m) (auto split: if_splits)

lemma om_ok_Nil [simp]: "om_ok []"
  by (simp add: om_ok_def)

lemma om_ok_put: "om_ok m \<Longrightarrow> om_ok (om_put k v m)"
proof (induction m)
  case Nil
  then show ?case by (simp add: om_ok_def)
next
  case (Cons e m)
  then show ?case
    using keys_om_put [of k v m] by (auto simp: om_ok_def image_iff)
qed

lemma om_ok_del: "om_ok m \<Longrightarrow> om_ok (om_del k m)"
  unfolding om_ok_def om_del_def by (induction m) auto

lemma om_ok_distinct: "om_ok m \<Longrightarrow> distinct (map fst m)"
  unfolding om_ok_def by (simp add: strict_sorted_iff)

interpretation om: ordered_map "[]" om_put om_del map_of "\<lambda>m. m" om_ok
proof unfold_locales
  fix m :: "('a \<times> 'b) list" and k v
  assume "om_ok m"
  then show "((k, v) \<in> set m) = (map_of m k = Some v)"
    by (simp add: om_ok_distinct)
qed (auto simp: om_ok_put om_ok_del, simp add: om_ok_def)

end
