(* ===== verification/Flash_Port.thy ===== *)
theory Flash_Port
  imports Effects Ordered_Map
begin

section \<open>The ROC port, the options and the state of a flash session\<close>

text \<open>
  The data of \<^verbatim>\<open>rocflash\<close> (otsdaq-mu2e/FEInterfaces/RocFlashProgrammer.h) and the primitive
  steps of a \<^verbatim>\<open>FlashSession\<close>. A \<^verbatim>\<open>RocPort*\<close> is a natural number (its address, the key order
  of the \<^verbatim>\<open>std::map\<close>s). \<^verbatim>\<open>RocPort\<close> and \<^verbatim>\<open>DcsLock\<close> are interfaces the session only calls: they
  are the record \<open>rocio\<close> of functions on an environment of any type, which also holds the
  clock (in nanoseconds). A call of the port that throws is \<open>Inl what\<close>. The session's state
  carries a history of the calls made (\<open>trc\<close>, newest first), which no operation reads.
\<close>

type_synonym roc = nat

record 'e rocio =
  port_name :: "roc \<Rightarrow> string"
  port_readRegister :: "roc \<Rightarrow> u16 \<Rightarrow> 'e \<Rightarrow> (string + u16) \<times> 'e"
  port_writeBlock :: "roc \<Rightarrow> u16 list \<Rightarrow> u16 \<Rightarrow> 'e \<Rightarrow> (string + unit) \<times> 'e"
  port_readBlock :: "roc \<Rightarrow> u16 \<Rightarrow> u16 \<Rightarrow> 'e \<Rightarrow> (string + u16 list) \<times> 'e"
  port_resyncLink :: "roc \<Rightarrow> 'e \<Rightarrow> (string + bool \<times> string) \<times> 'e"
  dcs_lock :: "'e \<Rightarrow> 'e"
  dcs_unlock :: "'e \<Rightarrow> 'e"
  clock_now :: "'e \<Rightarrow> int"
  sleep_for :: "int \<Rightarrow> 'e \<Rightarrow> 'e"

definition REG_DONE :: u16 where "REG_DONE = 128"
definition REG_COUNT :: u16 where "REG_COUNT = 129"
definition REG_RETURN :: u16 where "REG_RETURN = 132"
definition REG_COMMAND :: u16 where "REG_COMMAND = 384"
definition REG_FW_VERSION :: u16 where "REG_FW_VERSION = 246"

definition ACT_ERASE :: u16 where "ACT_ERASE = 3"
definition ACT_PROG_ADDR :: u16 where "ACT_PROG_ADDR = 5"
definition ACT_READ :: u16 where "ACT_READ = 7"
definition ACT_WRITE :: u16 where "ACT_WRITE = 8"
definition ACT_CRC :: u16 where "ACT_CRC = 10"

lemmas action_defs = ACT_ERASE_def ACT_PROG_ADDR_def ACT_READ_def ACT_WRITE_def ACT_CRC_def

record FlashOptions =
  startAddress :: u32
  protectedBelow :: u32
  expectedSha256 :: string
  writeImage :: bool
  program :: bool
  finalImageCrc :: bool
  maxSegmentAttempts :: int
  flashBytes :: u64
  expectedFwVersion :: u16
  pollMs :: int
  writeTimeoutMs :: int
  eraseTimeoutMs :: int
  readTimeoutMs :: int
  crcSegmentTimeoutMs :: int
  crcImageTimeoutMs :: int
  legacyWriteMinMs :: int
  legacyEraseMinMs :: int
  authTimeoutMs :: int
  linkBackTimeoutMs :: int
  linkResyncAfterMs :: int
  linkResyncTries :: int

definition defaultOptions :: FlashOptions where
  "defaultOptions = \<lparr>
     startAddress = 0x01010000, protectedBelow = 0x01010000, expectedSha256 = [],
     writeImage = True, program = False, finalImageCrc = True, maxSegmentAttempts = 5,
     flashBytes = 0, expectedFwVersion = 0, pollMs = 1, writeTimeoutMs = 3000,
     eraseTimeoutMs = 15000, readTimeoutMs = 3000, crcSegmentTimeoutMs = 10000,
     crcImageTimeoutMs = 600000, legacyWriteMinMs = 120, legacyEraseMinMs = 3000,
     authTimeoutMs = 180000, linkBackTimeoutMs = 300000, linkResyncAfterMs = 60000,
     linkResyncTries = 3\<rparr>"

datatype RocState = Selected | Uploading | Verified | Programmed | Failed

record RocResult =
  roc_state :: RocState
  newMiv :: bool
  readBytes :: u32
  segmentRetries :: nat
  roc_error :: string
  rlog :: "string list"

definition defaultResult :: RocResult where
  "defaultResult = \<lparr>roc_state = Selected, newMiv = False, readBytes = 1016, segmentRetries = 0,
     roc_error = [], rlog = []\<rparr>"

fun stateName :: "RocState \<Rightarrow> string" where
  "stateName Selected = ''selected''"
| "stateName Uploading = ''uploading''"
| "stateName Verified = ''verified, not programmed''"
| "stateName Programmed = ''programmed''"
| "stateName Failed = ''FAILED''"

subsection \<open>The session\<close>

datatype io_event =
    RdReg roc u16 "string + u16"
  | WrBlk roc "u16 list" u16 "string + unit"
  | RdBlk roc u16 u16 "string + u16 list"
  | Resync roc
  | DcsLock
  | DcsUnlock
  | Slept int

record 'e session =
  envr :: 'e
  trc :: "io_event list"
  image :: "u8 list"
  cur_tag :: u16
  res :: "(roc, RocResult) omap"
  verBefore :: "(roc, u16) omap"
  out :: "string list"
  percent :: "nat list"

text \<open>What a session never changes: the ports, the options, and the bound on loop rounds.\<close>

record 'e flash =
  rocs :: "roc list"
  opt :: FlashOptions
  io :: "'e rocio"
  fuel :: nat

type_synonym ('e, 'a) flash_eff = "('e session, 'a) eff"

subsection \<open>Calls of the port\<close>

definition port_call ::
  "('e \<Rightarrow> (string + 'a) \<times> 'e) \<Rightarrow> (string + 'a \<Rightarrow> io_event) \<Rightarrow> ('e, 'a) flash_eff" where
  "port_call f ev s =
     (case f (envr s) of (x, e) \<Rightarrow>
        ((case x of Inl m \<Rightarrow> Throw m | Inr a \<Rightarrow> Ret a),
         s\<lparr>envr := e, trc := ev x # trc s\<rparr>))"

definition readRegister :: "'e flash \<Rightarrow> roc \<Rightarrow> u16 \<Rightarrow> ('e, u16) flash_eff" where
  "readRegister C r a = port_call (port_readRegister (io C) r a) (RdReg r a)"

definition writeBlock :: "'e flash \<Rightarrow> roc \<Rightarrow> u16 list \<Rightarrow> u16 \<Rightarrow> ('e, unit) flash_eff" where
  "writeBlock C r c a = port_call (port_writeBlock (io C) r c a) (WrBlk r c a)"

definition readBlock :: "'e flash \<Rightarrow> roc \<Rightarrow> u16 \<Rightarrow> u16 \<Rightarrow> ('e, u16 list) flash_eff" where
  "readBlock C r a n = port_call (port_readBlock (io C) r a n) (RdBlk r a n)"

definition resyncLink :: "'e flash \<Rightarrow> roc \<Rightarrow> ('e, bool \<times> string) flash_eff" where
  "resyncLink C r = port_call (port_resyncLink (io C) r) (\<lambda>_. Resync r)"

text \<open>The scoped lock \<^verbatim>\<open>Held\<close>: locked by the constructor, unlocked by the destructor.\<close>

definition lock_on :: "'e flash \<Rightarrow> 'e session \<Rightarrow> 'e session" where
  "lock_on C s = s\<lparr>envr := dcs_lock (io C) (envr s), trc := DcsLock # trc s\<rparr>"

definition lock_off :: "'e flash \<Rightarrow> 'e session \<Rightarrow> 'e session" where
  "lock_off C s = s\<lparr>envr := dcs_unlock (io C) (envr s), trc := DcsUnlock # trc s\<rparr>"

definition held :: "'e flash \<Rightarrow> ('e, 'a) flash_eff \<Rightarrow> ('e, 'a) flash_eff" where
  "held C m = scopedE (lock_on C) (lock_off C) m"

definition sleepMs :: "'e flash \<Rightarrow> int \<Rightarrow> ('e, unit) flash_eff" where
  "sleepMs C ms = modify (\<lambda>s. s\<lparr>envr := sleep_for (io C) ms (envr s), trc := Slept ms # trc s\<rparr>)"

definition now :: "'e flash \<Rightarrow> ('e, int) flash_eff" where
  "now C = gets (\<lambda>s. clock_now (io C) (envr s))"

text \<open>
  \<^verbatim>\<open>duration_cast<milliseconds>\<close> truncates towards zero. The cast of its count to \<^verbatim>\<open>int\<close> is not modelled: the
  milliseconds are an unbounded integer here, and the two agree for the first 24 days of a wait (\<open>2 ^ 31\<close> ms).
\<close>

definition ns_to_ms :: "int \<Rightarrow> int" where
  "ns_to_ms d = (if 0 \<le> d then d div 1000000 else - ((- d) div 1000000))"

definition msSince :: "'e flash \<Rightarrow> int \<Rightarrow> ('e, int) flash_eff" where
  "msSince C t0 = gets (\<lambda>s. ns_to_ms (clock_now (io C) (envr s) - t0))"

subsection \<open>Bookkeeping\<close>

definition resultOf :: "roc \<Rightarrow> 'e session \<Rightarrow> RocResult" where
  "resultOf r s = om_at defaultResult (res s) r"

definition setResult :: "roc \<Rightarrow> (RocResult \<Rightarrow> RocResult) \<Rightarrow> ('e, unit) flash_eff" where
  "setResult r f = modify (\<lambda>s. s\<lparr>res := om_put r (f (resultOf r s)) (res s)\<rparr>)"

definition noteLog :: "string \<Rightarrow> ('e, unit) flash_eff" where
  "noteLog t = modify (\<lambda>s. s\<lparr>out := out s @ [t]\<rparr>)"

definition noteRoc :: "'e flash \<Rightarrow> roc \<Rightarrow> string \<Rightarrow> ('e, unit) flash_eff" where
  "noteRoc C r t =
     seqE (setResult r (\<lambda>x. x\<lparr>rlog := rlog x @ [t]\<rparr>))
          (noteLog (port_name (io C) r @ '': '' @ t))"

definition fail :: "'e flash \<Rightarrow> roc \<Rightarrow> string \<Rightarrow> ('e, unit) flash_eff" where
  "fail C r why =
     seqE (setResult r (\<lambda>x. x\<lparr>roc_state := Failed\<rparr>))
    (seqE (setResult r (\<lambda>x. x\<lparr>roc_error := why\<rparr>))
          (noteRoc C r (''FAILED: '' @ why)))"

text \<open>\<^verbatim>\<open>res_.at(r)\<close> throws where \<open>r\<close> has no result.\<close>

definition alive :: "roc \<Rightarrow> ('e, bool) flash_eff" where
  "alive r = (\<lambda>s. case om_get (res s) r of
     None \<Rightarrow> (Throw ''map::at'', s)
   | Some x \<Rightarrow> (Ret (roc_state x \<noteq> Failed), s))"

definition nextTag :: "('e, u16) flash_eff" where
  "nextTag s = (let t = cur_tag s + 1; t' = (if t = 0 then 1 else t)
                in (Ret t', s\<lparr>cur_tag := t'\<rparr>))"

definition cmd :: "u16 \<Rightarrow> u32 \<Rightarrow> u32 \<Rightarrow> u16 list" where
  "cmd action p1 p2 = [action, ucast p1, ucast (drop_bit 16 p1), ucast p2, ucast (drop_bit 16 p2)]"

definition reply_count :: "u16 \<Rightarrow> nat" where
  "reply_count w = unat (w AND 0x7ff)"

definition idle_done :: "u16 \<Rightarrow> bool" where
  "idle_done d \<longleftrightarrow> d = 0 \<or> d AND 0x8000 \<noteq> 0"

end
