(* ===== verification/Flash_Digest.thy ===== *)
theory Flash_Digest
  imports Prelude
begin

section \<open>Digests of the flash programmer: CRC-32 and SHA-256\<close>

text \<open>
  \<^verbatim>\<open>crc32\<close> and \<^verbatim>\<open>sha256hex\<close> of otsdaq-mu2e/FEInterfaces/RocFlashProgrammer.h. The CRC
  is the one the MiV computes over the flash content; the SHA-256 identifies the image file.
  Shown: the table-driven CRC is the bit-serial one, it composes over concatenation, and it
  tells any two images apart that differ in at most four consecutive bytes; the digest printed
  is always 64 lower-case hexadecimal digits.
\<close>

subsection \<open>CRC-32\<close>

definition crc_step :: "u32 \<Rightarrow> u32" where
  "crc_step c = (if c AND 1 \<noteq> 0 then 0xEDB88320 XOR drop_bit 1 c else drop_bit 1 c)"

definition crcTable :: "u32 list" where
  "crcTable = map (\<lambda>i. (crc_step ^^ 8) (word_of_nat i)) [0..<256]"

definition crc_byte :: "u32 \<Rightarrow> u8 \<Rightarrow> u32" where
  "crc_byte crc b = (crcTable ! unat ((crc XOR ucast b) AND 0xFF)) XOR drop_bit 8 crc"

definition crc32 :: "u8 list \<Rightarrow> u32 \<Rightarrow> u32" where
  "crc32 p crc = NOT (foldl crc_byte (NOT crc) p)"

subsection \<open>SHA-256\<close>

text \<open>The round constants \<^verbatim>\<open>K\<close>, here in decimal.\<close>

definition sha_K :: "u32 list" where
  "sha_K = [
     1116352408, 1899447441, 3049323471, 3921009573, 961987163, 1508970993,
     2453635748, 2870763221, 3624381080, 310598401, 607225278, 1426881987,
     1925078388, 2162078206, 2614888103, 3248222580, 3835390401, 4022224774,
     264347078, 604807628, 770255983, 1249150122, 1555081692, 1996064986,
     2554220882, 2821834349, 2952996808, 3210313671, 3336571891, 3584528711,
     113926993, 338241895, 666307205, 773529912, 1294757372, 1396182291,
     1695183700, 1986661051, 2177026350, 2456956037, 2730485921, 2820302411,
     3259730800, 3345764771, 3516065817, 3600352804, 4094571909, 275423344,
     430227734, 506948616, 659060556, 883997877, 958139571, 1322822218,
     1537002063, 1747873779, 1955562222, 2024104815, 2227730452, 2361852424,
     2428436474, 2756734187, 3204031479, 3329325298]"

definition sha_H0 :: "u32 list" where
  "sha_H0 = [0x6a09e667, 0xbb67ae85, 0x3c6ef372, 0xa54ff53a, 0x510e527f, 0x9b05688c,
    0x1f83d9ab, 0x5be0cd19]"

definition rotr :: "u32 \<Rightarrow> nat \<Rightarrow> u32" where
  "rotr x n = drop_bit n x OR push_bit (32 - n) x"

function pad_zeros :: "u8 list \<Rightarrow> u8 list" where
  "pad_zeros m = (if length m mod 64 \<noteq> 56 then pad_zeros (m @ [0]) else m)"
  by pat_completeness auto
termination
proof (relation "measure (\<lambda>m. (120 - length m mod 64) mod 64)")
  fix m :: "u8 list"
  assume ne: "length m mod 64 \<noteq> 56"
  have missing: "(120 - r) mod 64 = (if r \<le> 56 then 56 - r else 120 - r)" if "r < 64" for r :: nat
  proof (cases "r \<le> 56")
    case True
    then have "120 - r = (56 - r) + 64" by simp
    then show ?thesis using True by (simp only: mod_add_self2) simp
  qed simp
  define r where "r = length m mod 64"
  have r: "r < 64" "r \<noteq> 56" using ne by (simp_all add: r_def)
  have "(120 - (if r = 63 then 0 else Suc r)) mod 64 < (120 - r) mod 64"
    using r missing [of r] missing [of "if r = 63 then 0 else Suc r"] by (cases "r < 56", simp, simp, arith)
  moreover have "Suc (length m) mod 64 = (if r = 63 then 0 else Suc r)"
    by (simp add: mod_Suc r_def)
  ultimately show "(m @ [0], m) \<in> measure (\<lambda>m. (120 - length m mod 64) mod 64)"
    by (simp add: r_def [symmetric])
qed simp

declare pad_zeros.simps [simp del]

definition sha_pad :: "u8 list \<Rightarrow> u8 list" where
  "sha_pad d =
     (let bits = (word_of_nat (length d) :: u64) * 8
      in pad_zeros (d @ [0x80]) @ map (\<lambda>i. ucast (drop_bit (8 * i) bits)) (rev [0..<8]))"

definition sha_word :: "u8 list \<Rightarrow> nat \<Rightarrow> nat \<Rightarrow> u32" where
  "sha_word m off i =
     push_bit 24 (ucast (m ! (off + 4 * i))) OR push_bit 16 (ucast (m ! (off + 4 * i + 1)))
     OR push_bit 8 (ucast (m ! (off + 4 * i + 2))) OR ucast (m ! (off + 4 * i + 3))"

definition sha_extend :: "u32 list \<Rightarrow> nat \<Rightarrow> u32 list" where
  "sha_extend w i =
     (let s0 = rotr (w ! (i - 15)) 7 XOR rotr (w ! (i - 15)) 18 XOR drop_bit 3 (w ! (i - 15));
          s1 = rotr (w ! (i - 2)) 17 XOR rotr (w ! (i - 2)) 19 XOR drop_bit 10 (w ! (i - 2))
      in w @ [w ! (i - 16) + s0 + w ! (i - 7) + s1])"

definition sha_schedule :: "u8 list \<Rightarrow> nat \<Rightarrow> u32 list" where
  "sha_schedule m off = foldl sha_extend (map (sha_word m off) [0..<16]) [16..<64]"

record sha_regs =
  ra :: u32
  rb :: u32
  rc :: u32
  rd :: u32
  re :: u32
  rf :: u32
  rg :: u32
  rh :: u32

definition sha_round :: "u32 list \<Rightarrow> sha_regs \<Rightarrow> nat \<Rightarrow> sha_regs" where
  "sha_round w r i =
     (let S1 = rotr (re r) 6 XOR rotr (re r) 11 XOR rotr (re r) 25;
          ch = (re r AND rf r) XOR (NOT (re r) AND rg r);
          t1 = rh r + S1 + ch + sha_K ! i + w ! i;
          S0 = rotr (ra r) 2 XOR rotr (ra r) 13 XOR rotr (ra r) 22;
          mj = (ra r AND rb r) XOR (ra r AND rc r) XOR (rb r AND rc r);
          t2 = S0 + mj
      in \<lparr>ra = t1 + t2, rb = ra r, rc = rb r, rd = rc r, re = rd r + t1, rf = re r,
          rg = rf r, rh = rg r\<rparr>)"

definition sha_block :: "u8 list \<Rightarrow> u32 list \<Rightarrow> nat \<Rightarrow> u32 list" where
  "sha_block m h off =
     (let w = sha_schedule m off;
          r = foldl (sha_round w)
                \<lparr>ra = h ! 0, rb = h ! 1, rc = h ! 2, rd = h ! 3, re = h ! 4, rf = h ! 5,
                 rg = h ! 6, rh = h ! 7\<rparr> [0..<64]
      in [h ! 0 + ra r, h ! 1 + rb r, h ! 2 + rc r, h ! 3 + rd r,
          h ! 4 + re r, h ! 5 + rf r, h ! 6 + rg r, h ! 7 + rh r])"

definition sha256 :: "u8 list \<Rightarrow> u32 list" where
  "sha256 d =
     (let m = sha_pad d
      in foldl (sha_block m) sha_H0 (map (\<lambda>k. 64 * k) [0..<length m div 64]))"

definition hex8 :: "u32 \<Rightarrow> string" where
  "hex8 v = pad_left 8 (CHR ''0'') (radix_string 16 (unat v))"

definition sha256hex :: "u8 list \<Rightarrow> string" where
  "sha256hex d = concat (map hex8 (sha256 d))"


text \<open>\<open>std::transform(..., ::tolower)\<close> in the C locale.\<close>

definition tolower :: "char \<Rightarrow> char" where
  "tolower c = (if 65 \<le> (of_char c :: nat) \<and> (of_char c :: nat) \<le> 90
                then char_of ((of_char c :: nat) + 32) else c)"

subsection \<open>The table-driven CRC is the bit-serial one\<close>

lemma and_1_bit: "(c AND 1 \<noteq> 0) = bit (c :: u32) 0"
  by (simp add: bit_0 and_one_eq odd_iff_mod_2_eq_one)

lemma crc_step_bit: "crc_step c = (if bit c 0 then 0xEDB88320 XOR drop_bit 1 c else drop_bit 1 c)"
  unfolding crc_step_def by (simp only: and_1_bit)

lemma xor_cancel: "a XOR (a XOR x) = (x :: u32)"
  by (simp flip: xor.assoc)

lemma xor_left_iff: "a XOR x = a XOR y \<longleftrightarrow> x = (y :: u32)"
proof
  assume "a XOR x = a XOR y"
  then have "a XOR (a XOR x) = a XOR (a XOR y)" by simp
  then show "x = y" by (simp only: xor_cancel)
qed simp

lemma xor_right_iff: "x XOR a = y XOR a \<longleftrightarrow> x = (y :: u32)"
  by (simp only: xor.commute [of _ a] xor_left_iff)

lemma crc_step_linear: "crc_step (a XOR b) = crc_step a XOR crc_step b"
proof -
  have "drop_bit 1 (a XOR b) = drop_bit 1 a XOR drop_bit 1 b"
    by (simp add: drop_bit_xor)
  then show ?thesis
    by (cases "bit a 0"; cases "bit b 0")
      (simp_all add: crc_step_bit bit_xor_iff xor_cancel ac_simps)
qed

lemma crc_steps_linear: "(crc_step ^^ n) (a XOR b) = (crc_step ^^ n) a XOR (crc_step ^^ n) b"
  by (induction n) (simp_all add: crc_step_linear)

lemma crc_steps_push:
  assumes "\<forall>i < n. \<not> bit x i"
  shows "(crc_step ^^ n) x = drop_bit n x"
  using assms
proof (induction n arbitrary: x)
  case 0
  then show ?case by simp
next
  case (Suc n)
  then have "crc_step x = drop_bit 1 x"
    by (simp add: crc_step_bit)
  moreover have "\<forall>i < n. \<not> bit (drop_bit 1 x) i"
    using Suc.prems by (simp add: bit_drop_bit_eq)
  ultimately show ?case
    using Suc.IH [of "drop_bit 1 x"] by (simp add: funpow_swap1 del: funpow.simps(2) add: funpow_Suc_right)
qed

lemma crcTable_nth:
  assumes "i < 256"
  shows "crcTable ! i = (crc_step ^^ 8) (word_of_nat i)"
  using assms by (simp add: crcTable_def del: funpow.simps upt_rec_numeral)

lemma unat_and_255: "unat ((x :: u32) AND 255) < 256"
proof -
  have "unat (x AND 255) \<le> unat (255 :: u32)"
    by (rule word_and_le1 [THEN word_le_nat_alt [THEN iffD1]])
  then show ?thesis by simp
qed

lemma split_low_byte: "(x :: u32) = (x AND 255) XOR (x AND NOT 255)"
  by (rule bit_eqI) (auto simp: bit_simps)

lemma crc_byte_bitserial: "crc_byte c b = (crc_step ^^ 8) (c XOR ucast b)"
proof -
  let ?x = "c XOR ucast b :: u32"
  have low: "crcTable ! unat (?x AND 255) = (crc_step ^^ 8) (?x AND 255)"
    using crcTable_nth [OF unat_and_255 [of ?x]] by simp
  have mask: "(255 :: u32) = mask 8" by (simp add: mask_eq_exp_minus_1)
  have "\<forall>i < 8. \<not> bit (?x AND NOT 255) i"
    by (simp add: mask bit_simps)
  then have "(crc_step ^^ 8) (?x AND NOT 255) = drop_bit 8 (?x AND NOT 255)"
    by (rule crc_steps_push)
  also have "\<dots> = drop_bit 8 c"
    by (rule bit_eqI) (auto simp: mask bit_simps dest: bit_imp_le_length)
  finally have high: "(crc_step ^^ 8) (?x AND NOT 255) = drop_bit 8 c" .
  have "(crc_step ^^ 8) ?x = (crc_step ^^ 8) (?x AND 255) XOR (crc_step ^^ 8) (?x AND NOT 255)"
    using split_low_byte [of ?x] crc_steps_linear by metis
  then show ?thesis using low high by (simp only: crc_byte_def)
qed


lemma foldl_crc_bitserial:
  "foldl crc_byte c p = foldl (\<lambda>c b. (crc_step ^^ 8) (c XOR ucast b)) c p"
  by (induction p arbitrary: c) (simp_all add: crc_byte_bitserial del: funpow.simps)

lemma crc32_append_lemma: "crc32 (p @ q) c = crc32 q (crc32 p c)"
  by (simp add: crc32_def)

subsection \<open>Bursts of up to four bytes are detected\<close>

lemma crc_step_kernel:
  assumes "crc_step x = 0"
  shows "x = 0"
proof (cases "bit x 0")
  case True
  then have "0xEDB88320 XOR drop_bit 1 x = (0 :: u32)"
    using assms by (simp add: crc_step_bit)
  then have "bit (0xEDB88320 XOR drop_bit 1 x) 31 = bit (0 :: u32) 31" by simp
  moreover have "bit (0xEDB88320 :: u32) 31" by code_simp
  ultimately have "bit x 32" by (simp add: bit_simps)
  then show ?thesis by (auto dest: bit_imp_le_length)
next
  case False
  with assms have z: "drop_bit 1 x = 0" by (simp add: crc_step_bit)
  show ?thesis
  proof (rule bit_eqI)
    fix n
    show "bit x n = bit 0 n"
    proof (cases n)
      case 0
      then show ?thesis using False by simp
    next
      case (Suc k)
      have "bit (drop_bit 1 x) k = bit x (Suc k)" by (simp add: bit_drop_bit_eq)
      then show ?thesis using z Suc by simp
    qed
  qed
qed

lemma crc_step_inj: "crc_step a = crc_step b \<Longrightarrow> a = b"
proof -
  assume "crc_step a = crc_step b"
  then have "crc_step (a XOR b) = 0" by (simp add: crc_step_linear)
  then have "a XOR b = a XOR a" by (simp only: crc_step_kernel xor_self_eq)
  then show "a = b" by (simp only: xor_left_iff)
qed

lemma crc_steps_inj: "(crc_step ^^ n) a = (crc_step ^^ n) b \<Longrightarrow> a = b"
  by (induction n) (auto dest: crc_step_inj)

lemma crc_byte_inj: "crc_byte c b = crc_byte d b \<Longrightarrow> c = d"
proof -
  assume "crc_byte c b = crc_byte d b"
  then have "c XOR ucast b = d XOR ucast b"
    by (simp only: crc_byte_bitserial) (rule crc_steps_inj)
  then show "c = d" by (simp only: xor_right_iff)
qed

lemma foldl_crc_inj: "foldl crc_byte c q = foldl crc_byte d q \<Longrightarrow> c = d"
  by (induction q arbitrary: c d) (auto dest: crc_byte_inj)

primrec le_word :: "u8 list \<Rightarrow> u32" where
  "le_word [] = 0"
| "le_word (b # bs) = ucast b XOR push_bit 8 (le_word bs)"

lemma bit_le_word: "bit (le_word bs) i \<Longrightarrow> i < 8 * length bs"
proof (induction bs arbitrary: i)
  case Nil
  then show ?case by simp
next
  case (Cons b bs)
  have b: "bit b i \<Longrightarrow> i < 8" using bit_imp_le_length [of b i] by simp
  show ?case
  proof (cases "i < 8")
    case False
    then have "bit (le_word bs) (i - 8)" using Cons.prems b by (auto simp: bit_simps)
    then show ?thesis using Cons.IH False by fastforce
  qed simp
qed

lemma drop_push_le_word:
  assumes "length bs \<le> 3"
  shows "drop_bit 8 (push_bit 8 (le_word bs)) = le_word bs"
  using assms by (intro bit_eqI) (auto simp: bit_simps dest: bit_le_word)

lemma foldl_crc_burst:
  assumes "length bs \<le> 4"
  shows "foldl crc_byte c bs = (crc_step ^^ (8 * length bs)) (c XOR le_word bs)"
  using assms
proof (induction bs arbitrary: c)
  case Nil
  then show ?case by simp
next
  case (Cons b bs)
  let ?w = "le_word bs"
  have "\<forall>i < 8. \<not> bit (push_bit 8 ?w) i" by (simp add: bit_simps)
  then have w: "(crc_step ^^ 8) (push_bit 8 ?w) = ?w"
    using crc_steps_push drop_push_le_word [of bs] Cons.prems by (metis Suc_le_mono length_Cons numeral_3_eq_3 numeral_eq_Suc pred_numeral_simps(2) semiring_norm(26) semiring_norm(27))
  have "foldl crc_byte c (b # bs) = (crc_step ^^ (8 * length bs)) ((crc_step ^^ 8) (c XOR ucast b) XOR ?w)"
    using Cons.IH [of "crc_byte c b"] Cons.prems by (simp add: crc_byte_bitserial [of c b] del: funpow.simps)
  also have "\<dots> = (crc_step ^^ (8 * length bs)) ((crc_step ^^ 8) (c XOR le_word (b # bs)))"
    using crc_steps_linear [of 8 "c XOR ucast b" "push_bit 8 ?w"] w
    by (simp add: xor.assoc del: funpow.simps)
  also have "\<dots> = (crc_step ^^ (8 * length (b # bs))) (c XOR le_word (b # bs))"
  proof -
    have "8 * length (b # bs) = 8 * length bs + 8" by simp
    then show ?thesis by (simp only: funpow_add o_apply)
  qed
  finally show ?case .
qed

lemma le_word_inj:
  assumes "length a = length b" "length a \<le> 4" "le_word a = le_word b"
  shows "a = b"
  using assms
proof (induction a b rule: list_induct2)
  case Nil
  then show ?case by simp
next
  case (Cons x xs y ys)
  have bits: "bit x i = bit y i" if "i < 8" for i
  proof -
    have "bit (le_word (x # xs)) i = bit (le_word (y # ys)) i" using Cons.prems by simp
    then show ?thesis using that by (simp add: bit_simps)
  qed
  have xy: "x = y"
    by (rule bit_eqI) (use bits bit_imp_le_length in fastforce)
  then have "push_bit 8 (le_word xs) = push_bit 8 (le_word ys)"
    using Cons.prems by (simp only: le_word.simps xor_left_iff)
  then have "drop_bit 8 (push_bit 8 (le_word xs)) = drop_bit 8 (push_bit 8 (le_word ys))"
    by (rule arg_cong)
  moreover have short: "length xs \<le> 3" "length ys \<le> 3"
    using Cons.hyps Cons.prems by simp_all
  ultimately have "le_word xs = le_word ys"
    by (simp only: drop_push_le_word)
  then show ?case using Cons.IH short xy by simp
qed

lemma crc32_burst_lemma:
  assumes "length a = length b" "length a \<le> 4" "a \<noteq> b"
  shows "crc32 (p @ a @ q) c \<noteq> crc32 (p @ b @ q) c"
proof
  assume "crc32 (p @ a @ q) c = crc32 (p @ b @ q) c"
  then have "foldl crc_byte (foldl crc_byte (NOT c) p) a = foldl crc_byte (foldl crc_byte (NOT c) p) b"
    by (auto simp: crc32_def dest: foldl_crc_inj)
  then have "foldl crc_byte (NOT c) p XOR le_word a = foldl crc_byte (NOT c) p XOR le_word b"
    using assms(1,2) foldl_crc_burst [of a] foldl_crc_burst [of b] by (metis crc_steps_inj)
  then have "le_word a = le_word b" by (simp only: xor_left_iff)
  then show False using assms le_word_inj by blast
qed


subsection \<open>Shape of the SHA-256 digest\<close>

lemma length_pad_zeros: "length (pad_zeros m) mod 64 = 56"
proof (induction m rule: pad_zeros.induct)
  case (1 m)
  show ?case
  proof (cases "length m mod 64 = 56")
    case True
    then show ?thesis by (subst pad_zeros.simps) simp
  next
    case False
    then show ?thesis using 1 by (subst pad_zeros.simps) simp
  qed
qed

lemma length_sha_pad: "length (sha_pad d) mod 64 = 0"
  using length_pad_zeros [of "d @ [0x80]"] by (simp add: sha_pad_def Let_def mod_add_left_eq [symmetric])

lemma length_sha_block: "length (sha_block m h off) = 8"
  by (simp add: sha_block_def Let_def)

lemma length_sha256: "length (sha256 d) = 8"
proof -
  have "length (foldl (sha_block m) h ks) = 8" if "length h = 8" for m h ks
    using that by (induction ks arbitrary: h) (simp_all add: length_sha_block)
  then show ?thesis by (simp add: sha256_def Let_def sha_H0_def)
qed

lemma length_hex8: "length (hex8 v) = 8"
proof -
  have "unat v < 16 ^ Suc 7" by (rule order.strict_trans2 [OF unsigned_less]) simp
  then have "length (radix_string 16 (unat v)) \<le> 8"
    using radix_string_length [of 16 "unat v" 7] by simp
  then show ?thesis by (simp add: hex8_def pad_left_def)
qed

lemma set_hex8: "set (hex8 v) \<subseteq> set ''0123456789abcdef''"
  using radix_string_hex [of "unat v"] by (auto simp: hex8_def pad_left_def)

lemma length_concat_const:
  "\<forall>x \<in> set xs. length (f x) = n \<Longrightarrow> length (concat (map f xs)) = length xs * n"
  by (induction xs) auto

lemma length_sha256hex: "length (sha256hex d) = 64"
  using length_concat_const [of "sha256 d" hex8 8] by (simp add: sha256hex_def length_hex8 length_sha256)

lemma set_sha256hex: "set (sha256hex d) \<subseteq> set ''0123456789abcdef''"
  using set_hex8 by (fastforce simp: sha256hex_def)

lemma tolower_hex: "\<forall>c \<in> set ''0123456789abcdef''. tolower c = c"
  by (simp add: tolower_def)

lemma tolower_sha256hex: "map tolower (sha256hex d) = sha256hex d"
  using set_sha256hex [of d] tolower_hex by (intro map_idI) blast

subsection \<open>The properties\<close>

text \<open>The table-driven \<open>crc32\<close> computes the bit-serial reflected CRC-32: eight steps of the
  shift register per byte, for every image and every start value.\<close>

theorem crc32_table_driven:
  "crc32 p crc = NOT (foldl (\<lambda>c b. (crc_step ^^ 8) (c XOR ucast b)) (NOT crc) p)"
  by (simp only: crc32_def foldl_crc_bitserial)

text \<open>The CRC of an image taken in two pieces, the second started from the result of the first,
  is the CRC of the whole image.\<close>

theorem crc32_append: "crc32 (p @ q) crc = crc32 q (crc32 p crc)"
  by (rule crc32_append_lemma)

text \<open>A flash content that differs from the file in a burst of at most four consecutive bytes
  always has a different CRC, wherever the burst lies and whatever surrounds it.\<close>

theorem crc32_detects_burst:
  assumes "length a = length b" and "length a \<le> 4" and "a \<noteq> b"
  shows "crc32 (p @ a @ q) crc \<noteq> crc32 (p @ b @ q) crc"
  using assms by (rule crc32_burst_lemma)

theorem crc32_detects_burst_witness:
  "crc32 ([1, 2] @ [3, 4, 5, 6] @ [7]) 0 \<noteq> crc32 ([1, 2] @ [3, 4, 5, 7] @ [7]) 0"
  by (rule crc32_detects_burst) simp_all

text \<open>The digest compared with the operator's is always 64 lower-case hexadecimal digits, so
  lower-casing the operator's digest is all the normalisation the comparison needs.\<close>

theorem sha256hex_format:
  "length (sha256hex d) = 64 \<and> set (sha256hex d) \<subseteq> set ''0123456789abcdef''
   \<and> map tolower (sha256hex d) = sha256hex d \<and> length (sha_pad d) mod 64 = 0"
  by (simp only: length_sha256hex set_sha256hex tolower_sha256hex length_sha_pad simp_thms)

end
