(* ===== verification/Flash_Commands.thy ===== *)
theory Flash_Commands
  imports Flash_Port Flash_Digest
begin

section \<open>Preflight and the command protocol of the flash programmer\<close>

text \<open>
  The member functions of \<^verbatim>\<open>FlashSession\<close> up to the probe of the ROCs: the checks made before
  anything is sent (\<open>preflight\<close>), the waits for an idle MiV and for replies, the parallel CRC
  and the detection of the MiV's firmware. Each definition is one member function; a
  \<^verbatim>\<open>while(true)\<close> is a \<open>loopE\<close> with the session's bound \<open>fuel\<close>. Where a message evaluates two
  register reads in one expression the model takes them from left to right.
\<close>

subsection \<open>Preflight\<close>

definition segmentBytes :: nat where "segmentBytes = 0x10000"

definition paddedBytes :: "nat \<Rightarrow> nat" where
  "paddedBytes n = ((n + segmentBytes - 1) div segmentBytes) * segmentBytes"

definition footprintEnd :: "FlashOptions \<Rightarrow> nat \<Rightarrow> nat" where
  "footprintEnd p n = unat (startAddress p) + paddedBytes n + segmentBytes"

definition preflight :: "'e flash \<Rightarrow> ('e, unit) flash_eff" where
  "preflight C =
     (let p = opt C; start = startAddress p; want = map tolower (expectedSha256 p) in
      bindE (gets image) (\<lambda>im0.
      if length (expectedSha256 p) \<noteq> 64
      then throw ''expected SHA-256 of the image is mandatory (64 hex digits)''
      else if im0 = [] then throw ''image is empty''
      else if sha256hex im0 \<noteq> want
      then throw (''image SHA-256 '' @ sha256hex im0 @ '' differs from the expected '' @ want
                  @ '': wrong or damaged file, nothing sent'')
      else if start mod 0x10000 \<noteq> 0
      then throw (''start address '' @ hex start @ '' not 64 kB aligned'')
      else if start < protectedBelow p
      then throw (''start address '' @ hex start @ '' inside the protected area ''
                  @ ''(directory/golden) below '' @ hex (protectedBelow p))
      else if writeImage p \<and> maxSegmentAttempts p \<le> 0
      then throw (''maxSegmentAttempts must be positive (is ''
                  @ to_string_int (maxSegmentAttempts p) @ ''): no segment would be written'')
      else
        seqE (whenE (length im0 mod 2 \<noteq> 0) (modify (\<lambda>s. s\<lparr>image := image s @ [0xFF]\<rparr>)))
       (bindE (gets (\<lambda>s. length (image s))) (\<lambda>n.
        if footprintEnd p n > 2 ^ 32
        then throw (''image of '' @ to_string n @ '' bytes at '' @ hex start
                    @ '' (with the erase of the following block) reaches past the ''
                    @ ''32-bit flash address space'')
        else if flashBytes p \<noteq> 0 \<and> footprintEnd p n > unat (flashBytes p)
        then throw (''image of '' @ to_string n @ '' bytes at '' @ hex start
                    @ '' (with the erase of the following block) reaches past the ''
                    @ ''flash capacity of '' @ to_string (unat (flashBytes p)) @ '' bytes'')
        else noteLog (''image '' @ to_string n @ '' bytes, SHA-256 OK, to '' @ hex start
                      @ '', '' @ to_string (length (rocs C)) @ '' ROCs'')))))"

subsection \<open>Waiting for an idle MiV and sending\<close>

text \<open>The three sections that run under the DCS lock: draining stale reply words, sending a command
  after a last check that the MiV is idle, and reading a reply of the announced size.\<close>

definition drain_locked :: "'e flash \<Rightarrow> roc \<Rightarrow> ('e, nat) flash_eff" where
  "drain_locked C r =
     held C
       (bindE (readRegister C r REG_COUNT) (\<lambda>w.
        let count = reply_count w in
        if count \<ge> 4
        then bindE (readBlock C r REG_COMMAND (word_of_nat (count - 4))) (\<lambda>_. ret count)
        else ret count))"

definition send_locked :: "'e flash \<Rightarrow> roc \<Rightarrow> u16 list \<Rightarrow> ('e, unit + bool) flash_eff" where
  "send_locked C r c =
     held C
       (bindE (readRegister C r REG_DONE) (\<lambda>done.
        bindE (readRegister C r REG_COUNT) (\<lambda>w.
        if reply_count w = 0 \<and> idle_done done
        then seqE (writeBlock C r c REG_COMMAND) (ret (Inr True))
        else ret (Inl ()))))"

definition reply_locked :: "'e flash \<Rightarrow> roc \<Rightarrow> nat \<Rightarrow> ('e, u16 list option) flash_eff" where
  "reply_locked C r n =
     held C
       (bindE (readRegister C r REG_COUNT) (\<lambda>w.
        if reply_count w \<noteq> n + 4 then ret None
        else bindE (readBlock C r REG_COMMAND (word_of_nat n)) (\<lambda>reply.
             ret (if length reply = n then Some reply else None))))"

definition waitIdle_round :: "'e flash \<Rightarrow> roc \<Rightarrow> int \<Rightarrow> int \<Rightarrow> unit \<Rightarrow> ('e, unit + bool) flash_eff" where
  "waitIdle_round C r timeoutMs t0 _ =
     bindE (readRegister C r REG_DONE) (\<lambda>done.
     bindE (readRegister C r REG_COUNT) (\<lambda>w.
     let count = reply_count w in
     if count \<ge> 4 then
       bindE (drain_locked C r) (\<lambda>count.
       seqE (noteRoc C r (''drained '' @ to_string_int (int count - 4) @ '' stale reply words''))
      (bindE (msSince C t0) (\<lambda>t.
       if t > timeoutMs then ret (Inr False)
       else seqE (sleepMs C (pollMs (opt C))) (ret (Inl ())))))
     else if count = 0 \<and> idle_done done then ret (Inr True)
     else
       bindE (msSince C t0) (\<lambda>t.
       if t > timeoutMs then ret (Inr False)
       else seqE (sleepMs C (pollMs (opt C))) (ret (Inl ())))))"

definition waitIdle :: "'e flash \<Rightarrow> roc \<Rightarrow> int \<Rightarrow> ('e, bool) flash_eff" where
  "waitIdle C r timeoutMs =
     bindE (now C) (\<lambda>t0. loopE (fuel C) (waitIdle_round C r timeoutMs t0) ())"

definition sendWhenIdle_round ::
  "'e flash \<Rightarrow> roc \<Rightarrow> u16 list \<Rightarrow> int \<Rightarrow> int \<Rightarrow> unit \<Rightarrow> ('e, unit + bool) flash_eff" where
  "sendWhenIdle_round C r c timeoutMs t0 _ =
     bindE (msSince C t0) (\<lambda>t.
     let left = timeoutMs - t in
     if left \<le> 0 then ret (Inr False)
     else bindE (waitIdle C r left) (\<lambda>idle.
     if \<not> idle then ret (Inr False) else send_locked C r c))"

definition sendWhenIdle :: "'e flash \<Rightarrow> roc \<Rightarrow> u16 list \<Rightarrow> int \<Rightarrow> ('e, bool) flash_eff" where
  "sendWhenIdle C r c timeoutMs =
     bindE (now C) (\<lambda>t0. loopE (fuel C) (sendWhenIdle_round C r c timeoutMs t0) ())"

text \<open>A reply of \<open>n\<close> payload words, read under the lock; \<open>None\<close> where the C++ returns false.\<close>

definition readReply :: "'e flash \<Rightarrow> roc \<Rightarrow> nat \<Rightarrow> ('e, u16 list option) flash_eff" where
  "readReply C r n =
     tryE (reply_locked C r n)
       (\<lambda>e. seqE (noteRoc C r (''reply read failed, will ask again: '' @ e)) (ret None))"

definition sendTagged :: "'e flash \<Rightarrow> roc \<Rightarrow> u16 list \<Rightarrow> u16 \<Rightarrow> ('e, bool) flash_eff" where
  "sendTagged C r c tag = sendWhenIdle C r (c @ [tag]) 2000"

definition no_reply :: "'e flash \<Rightarrow> roc \<Rightarrow> int \<Rightarrow> ('e, string) flash_eff" where
  "no_reply C r timeoutMs =
     bindE (readRegister C r REG_DONE) (\<lambda>d.
     bindE (readRegister C r REG_RETURN) (\<lambda>v.
     ret (''no reply after '' @ to_string_int timeoutMs @ '' ms (reg128='' @ hex d
          @ '' reg132='' @ hex v @ '')'')))"

text \<open>The wait of \<open>collectTagged\<close>: \<open>None\<close> when the reply is there, else the reason it is not.\<close>

definition collectTagged_round ::
  "'e flash \<Rightarrow> roc \<Rightarrow> nat \<Rightarrow> int \<Rightarrow> int \<Rightarrow> unit \<Rightarrow> ('e, unit + string option) flash_eff" where
  "collectTagged_round C r nPayload timeoutMs t0 _ =
     bindE (readRegister C r REG_COUNT) (\<lambda>w.
     let count = reply_count w in
     if count = nPayload + 4 then ret (Inr None)
     else if count > nPayload + 4
     then ret (Inr (Some (''unexpected reply size '' @ to_string count)))
     else bindE (msSince C t0) (\<lambda>t.
     if t > timeoutMs then bindE (no_reply C r timeoutMs) (\<lambda>m. ret (Inr (Some m)))
     else seqE (sleepMs C (pollMs (opt C))) (ret (Inl ()))))"

text \<open>The reply and, where it is empty, the reason (the out-parameter \<^verbatim>\<open>why\<close>).\<close>

definition collectTagged ::
  "'e flash \<Rightarrow> roc \<Rightarrow> u16 \<Rightarrow> nat \<Rightarrow> int \<Rightarrow> ('e, u16 list \<times> string) flash_eff" where
  "collectTagged C r tag nPayload timeoutMs =
     bindE (now C) (\<lambda>t0.
     bindE (loopE (fuel C) (collectTagged_round C r nPayload timeoutMs t0) ()) (\<lambda>problem.
     case problem of
       Some why \<Rightarrow> ret ([], why)
     | None \<Rightarrow>
         bindE (readReply C r nPayload) (\<lambda>x.
         case x of
           None \<Rightarrow> ret ([], ''reply lost'')
         | Some reply \<Rightarrow>
             if length reply \<noteq> nPayload
             then ret ([], ''reply tag '' @ (if reply = [] then ''none'' else hex (hd reply))
                           @ '' expected '' @ hex tag)
             else bindE (at reply 0) (\<lambda>got.
                  if got \<noteq> tag
                  then ret ([], ''reply tag '' @ hex got @ '' expected '' @ hex tag)
                  else ret (reply, [])))))"

definition tagged ::
  "'e flash \<Rightarrow> roc \<Rightarrow> u16 list \<Rightarrow> nat \<Rightarrow> int \<Rightarrow> ('e, u16 list \<times> string) flash_eff" where
  "tagged C r c nPayload timeoutMs =
     bindE nextTag (\<lambda>tag.
     bindE (sendTagged C r c tag) (\<lambda>sent.
     if \<not> sent then ret ([], ''MiV not idle before the command'')
     else collectTagged C r tag nPayload timeoutMs))"

subsection \<open>CRC on several ROCs at once\<close>

text \<open>The verdict on a CRC reply: \<open>[]\<close> when it equals the wanted value.\<close>

definition crc_verdict :: "u16 list \<Rightarrow> string \<Rightarrow> u32 \<Rightarrow> ('e, string) flash_eff" where
  "crc_verdict rp why want =
     (if rp = [] then ret (''CRC: '' @ why)
      else bindE (at rp 3) (\<lambda>err.
           if err \<noteq> 0 then ret (''CRC refused, error '' @ hex err)
           else bindE (at rp 2) (\<lambda>hi. bindE (at rp 1) (\<lambda>lo.
           let got = push_bit 16 (ucast hi) OR ucast lo in
           if got \<noteq> want then ret (''CRC '' @ hex got @ '' != file '' @ hex want)
           else ret []))))"

definition crc_send ::
  "'e flash \<Rightarrow> u32 \<Rightarrow> u32 \<Rightarrow> roc \<Rightarrow> (roc, u16) omap \<times> roc list \<times> (roc, string) omap \<Rightarrow>
   ('e, (roc, u16) omap \<times> roc list \<times> (roc, string) omap) flash_eff" where
  "crc_send C addr len r = (\<lambda>(tags, again, verdict).
     tryE
       (bindE nextTag (\<lambda>tag.
        bindE (sendTagged C r (cmd ACT_CRC addr len) tag) (\<lambda>sent.
        if sent then ret (om_put r tag tags, again, verdict)
        else ret (tags, again @ [r], om_put r ''CRC: MiV not idle'' verdict))))
       (\<lambda>e. ret (tags, again @ [r], om_put r (''CRC: '' @ e) verdict)))"

definition crc_collect ::
  "'e flash \<Rightarrow> u32 \<Rightarrow> int \<Rightarrow> roc \<times> u16 \<Rightarrow> roc list \<times> (roc, string) omap \<Rightarrow>
   ('e, roc list \<times> (roc, string) omap) flash_eff" where
  "crc_collect C want timeoutMs = (\<lambda>(r, tag) (again, verdict).
     bindE
       (tryE
         (bindE (collectTagged C r tag 4 timeoutMs) (\<lambda>(rp, why).
          bindE (crc_verdict rp why want) (\<lambda>v. ret (om_put r v verdict))))
         (\<lambda>e. ret (om_put r (''CRC: '' @ e) verdict)))
       (\<lambda>verdict'. ret (if om_at [] verdict' r \<noteq> [] then again @ [r] else again, verdict')))"

definition crc_round ::
  "'e flash \<Rightarrow> u32 \<Rightarrow> u32 \<Rightarrow> u32 \<Rightarrow> int \<Rightarrow> roc list \<times> (roc, string) omap \<Rightarrow>
   ('e, roc list \<times> (roc, string) omap) flash_eff" where
  "crc_round C addr len want timeoutMs = (\<lambda>(todo, verdict).
     bindE (foldE (crc_send C addr len) todo ([], [], verdict)) (\<lambda>(tags, again, verdict).
     foldE (crc_collect C want timeoutMs) tags (again, verdict)))"

definition parallelCrc ::
  "'e flash \<Rightarrow> roc list \<Rightarrow> u32 \<Rightarrow> u32 \<Rightarrow> u32 \<Rightarrow> int \<Rightarrow> nat \<Rightarrow> ('e, (roc, string) omap) flash_eff" where
  "parallelCrc C rs addr len want timeoutMs tries =
     bindE (repeatE tries (\<lambda>(todo, _). todo \<noteq> []) (crc_round C addr len want timeoutMs) (rs, []))
       (\<lambda>(_, verdict). ret verdict)"

end
