(* ===== verification/Flash_Waits.thy ===== *)
theory Flash_Waits
  imports Flash_Commands
begin

section \<open>Probe of the ROCs and waits for erase and write\<close>

text \<open>
  \<^verbatim>\<open>probeAll\<close> finds out which ROCs run the MiV with tags and CRC, \<^verbatim>\<open>probeLegacyReadSize\<close> how many
  bytes an older one returns per read; \<^verbatim>\<open>waitTaggedResult\<close>, \<^verbatim>\<open>waitLegacyDone\<close> and
  \<^verbatim>\<open>waitLegacyAll\<close> wait for the completion of an erase or a write.
\<close>

subsection \<open>Completion of erase and write\<close>

definition err_if :: "roc \<Rightarrow> string \<Rightarrow> string \<Rightarrow> (roc, string) omap \<Rightarrow> (roc, string) omap" where
  "err_if r why what err =
     (if why \<noteq> [] \<and> \<not> om_has err r then om_put r (what @ '': '' @ why) err else err)"

definition waitTaggedResult_round ::
  "'e flash \<Rightarrow> roc \<Rightarrow> int \<Rightarrow> int \<Rightarrow> unit \<Rightarrow> ('e, unit + string option) flash_eff" where
  "waitTaggedResult_round C r timeoutMs t0 _ =
     bindE (readRegister C r REG_COUNT) (\<lambda>w.
     let count = reply_count w in
     if count = 3 + 4 then ret (Inr None)
     else if count > 3 + 4 then ret (Inr (Some (''unexpected reply size '' @ to_string count)))
     else bindE (msSince C t0) (\<lambda>t.
     if t > timeoutMs then bindE (no_reply C r timeoutMs) (\<lambda>m. ret (Inr (Some m)))
     else seqE (sleepMs C (pollMs (opt C))) (ret (Inl ()))))"

definition waitTaggedResult :: "'e flash \<Rightarrow> roc \<Rightarrow> u16 \<Rightarrow> int \<Rightarrow> ('e, string) flash_eff" where
  "waitTaggedResult C r tag timeoutMs =
     bindE (now C) (\<lambda>t0.
     bindE (loopE (fuel C) (waitTaggedResult_round C r timeoutMs t0) ()) (\<lambda>problem.
     case problem of
       Some why \<Rightarrow> ret why
     | None \<Rightarrow>
         bindE (readReply C r 3) (\<lambda>x.
         case x of
           None \<Rightarrow> ret ''reply vanished''
         | Some rep \<Rightarrow>
             if length rep \<noteq> 3 then ret ''reply tag mismatch''
             else bindE (at rep 0) (\<lambda>got.
             if got \<noteq> tag then ret ''reply tag mismatch''
             else bindE (at rep 1) (\<lambda>result.
             if result \<noteq> 0
             then bindE (at rep 2) (\<lambda>cf. ret (''MiV result '' @ hex result @ '' cmd_fail '' @ hex cf))
             else ret [])))))"

definition waitLegacyDone_round ::
  "'e flash \<Rightarrow> roc \<Rightarrow> int \<Rightarrow> int \<Rightarrow> int \<Rightarrow> bool \<Rightarrow> ('e, bool + string) flash_eff" where
  "waitLegacyDone_round C r sent timeoutMs minMs sawBusy =
     bindE (readRegister C r REG_DONE) (\<lambda>done.
     bindE (msSince C sent) (\<lambda>t.
     let busy = done AND 0x8000 = 0 in
     if \<not> busy \<and> (sawBusy \<or> (minMs > 0 \<and> t \<ge> minMs)) then ret (Inr [])
     else if t > timeoutMs
     then ret (Inr (''DONE not seen after '' @ to_string_int timeoutMs @ '' ms (reg128='' @ hex done @ '')''))
     else seqE (sleepMs C (pollMs (opt C))) (ret (Inl (sawBusy \<or> busy)))))"

definition waitLegacyDone :: "'e flash \<Rightarrow> roc \<Rightarrow> int \<Rightarrow> int \<Rightarrow> int \<Rightarrow> ('e, string) flash_eff" where
  "waitLegacyDone C r sent timeoutMs minMs =
     loopE (fuel C) (waitLegacyDone_round C r sent timeoutMs minMs) False"

text \<open>The local variables of \<^verbatim>\<open>waitLegacyAll\<close>.\<close>

record legacy_wait =
  sawBusy :: "(roc, bool) omap"
  ready :: "(roc, bool) omap"
  remaining :: nat
  errs :: "(roc, string) omap"

definition legacy_ready :: "roc \<Rightarrow> legacy_wait \<Rightarrow> legacy_wait" where
  "legacy_ready r L = L\<lparr>ready := om_put r True (ready L), remaining := remaining L - 1\<rparr>"

definition legacy_err :: "roc \<Rightarrow> string \<Rightarrow> legacy_wait \<Rightarrow> legacy_wait" where
  "legacy_err r m L = (if om_has (errs L) r then L else L\<lparr>errs := om_put r m (errs L)\<rparr>)"

definition waitLegacy_poll ::
  "'e flash \<Rightarrow> int \<Rightarrow> int \<Rightarrow> string \<Rightarrow> roc \<times> int \<Rightarrow> legacy_wait \<Rightarrow> ('e, legacy_wait) flash_eff" where
  "waitLegacy_poll C timeoutMs minMs what = (\<lambda>(r, sent) L.
     if om_at False (ready L) r then ret L
     else tryE
       (bindE (readRegister C r REG_DONE) (\<lambda>d.
        bindE (msSince C sent) (\<lambda>t.
        if d AND 0x8000 \<noteq> 0 \<and> (om_at False (sawBusy L) r \<or> t \<ge> minMs)
        then ret (legacy_ready r L)
        else
          let L' = (if d AND 0x8000 = 0 then L\<lparr>sawBusy := om_put r True (sawBusy L)\<rparr> else L) in
          if t > timeoutMs
          then ret (legacy_ready r (legacy_err r
                 (what @ '': DONE not seen after '' @ to_string_int timeoutMs @ '' ms (reg128=''
                  @ hex d @ '')'') L'))
          else ret L')))
       (\<lambda>e. ret (legacy_ready r (legacy_err r (what @ '': '' @ e) L))))"

definition waitLegacyAll_round ::
  "'e flash \<Rightarrow> (roc, int) omap \<Rightarrow> int \<Rightarrow> int \<Rightarrow> string \<Rightarrow> legacy_wait \<Rightarrow>
   ('e, legacy_wait + (roc, string) omap) flash_eff" where
  "waitLegacyAll_round C sent timeoutMs minMs what L =
     (if remaining L = 0 then ret (Inr (errs L))
      else bindE (foldE (waitLegacy_poll C timeoutMs minMs what) sent L) (\<lambda>L.
           seqE (whenE (remaining L \<noteq> 0) (sleepMs C (pollMs (opt C)))) (ret (Inl L))))"

definition waitLegacyAll ::
  "'e flash \<Rightarrow> (roc, int) omap \<Rightarrow> int \<Rightarrow> int \<Rightarrow> string \<Rightarrow> (roc, string) omap \<Rightarrow>
   ('e, (roc, string) omap) flash_eff" where
  "waitLegacyAll C sent timeoutMs minMs what err =
     loopE (fuel C) (waitLegacyAll_round C sent timeoutMs minMs what)
       \<lparr>sawBusy = [], ready = [], remaining = length sent, errs = err\<rparr>"

subsection \<open>Probe\<close>

definition probe_send ::
  "'e flash \<Rightarrow> roc \<Rightarrow> (roc, u16) omap \<Rightarrow> ('e, (roc, u16) omap) flash_eff" where
  "probe_send C r tags =
     tryE
       (bindE (waitIdle C r 3000) (\<lambda>idle.
        if \<not> idle then
          bindE (readRegister C r REG_DONE) (\<lambda>d.
          seqE (fail C r (''MiV busy or not answering (reg128='' @ hex d @ '')'')) (ret tags))
        else
          bindE nextTag (\<lambda>tag.
          bindE (sendTagged C r (cmd ACT_CRC (startAddress (opt C)) 2) tag) (\<lambda>sent.
          if sent then ret (om_put r tag tags)
          else seqE (fail C r ''probe: MiV not idle'') (ret tags)))))
       (\<lambda>e. seqE (fail C r (''probe: '' @ e)) (ret tags))"

definition probe_answer ::
  "'e flash \<Rightarrow> roc \<times> u16 \<Rightarrow> (roc, bool) omap \<Rightarrow> ('e, (roc, bool) omap) flash_eff" where
  "probe_answer C = (\<lambda>(r, tag) answered.
     if om_has answered r then ret answered
     else tryE
       (bindE (readRegister C r REG_COUNT) (\<lambda>w.
        if reply_count w \<noteq> 4 + 4 then ret answered
        else
          bindE (readReply C r 4) (\<lambda>x.
          bindE (case x of
                   None \<Rightarrow> ret False
                 | Some rp \<Rightarrow>
                     bindE (at rp 0) (\<lambda>got.
                     if got \<noteq> tag then ret False
                     else bindE (at rp 3) (\<lambda>err. ret (err = 0)))) (\<lambda>isNew.
          seqE (setResult r (\<lambda>y. y\<lparr>newMiv := isNew\<rparr>)) (ret (om_put r True answered))))))
       (\<lambda>_. ret answered))"

definition probe_round ::
  "'e flash \<Rightarrow> (roc, u16) omap \<Rightarrow> int \<Rightarrow> (roc, bool) omap \<Rightarrow> ('e, (roc, bool) omap + unit) flash_eff" where
  "probe_round C tags t0 answered =
     bindE (msSince C t0) (\<lambda>t.
     if \<not> (t < 1000 \<and> length answered < length tags) then ret (Inr ())
     else bindE (foldE (probe_answer C) tags answered) (\<lambda>answered.
          seqE (sleepMs C (pollMs (opt C))) (ret (Inl answered))))"

definition legacySize_round ::
  "'e flash \<Rightarrow> roc \<Rightarrow> int \<Rightarrow> nat \<Rightarrow> ('e, nat + nat) flash_eff" where
  "legacySize_round C r t0 count =
     bindE (msSince C t0) (\<lambda>t.
     if \<not> t < readTimeoutMs (opt C) then ret (Inr count)
     else
       bindE (readRegister C r REG_COUNT) (\<lambda>w.
       let count = reply_count w in
       if count = 508 + 4 \<or> count = 254 + 4
       then seqE (sleepMs C 5) (bindE (readRegister C r REG_COUNT) (\<lambda>w'. ret (Inr (reply_count w'))))
       else seqE (sleepMs C (pollMs (opt C))) (ret (Inl count))))"

definition probeLegacyReadSize :: "'e flash \<Rightarrow> roc \<Rightarrow> ('e, unit) flash_eff" where
  "probeLegacyReadSize C r =
     bindE (waitIdle C r 2000) (\<lambda>_.
     bindE (sendWhenIdle C r (cmd ACT_READ (startAddress (opt C)) 1016) 2000) (\<lambda>sent.
     if \<not> sent then fail C r ''probe: MiV not idle''
     else
       bindE (now C) (\<lambda>t0.
       bindE (loopE (fuel C) (legacySize_round C r t0) 0) (\<lambda>count.
       let finish = bindE (waitIdle C r 2000) (\<lambda>_. ret ()) in
       if count = 508 + 4 then seqE (setResult r (\<lambda>y. y\<lparr>readBytes := 1016\<rparr>)) finish
       else if count = 254 + 4 then seqE (setResult r (\<lambda>y. y\<lparr>readBytes := 508\<rparr>)) finish
       else fail C r (''probe: SPI read answered with '' @ to_string count @ '' words'')))))"

definition probe_finish :: "'e flash \<Rightarrow> roc \<Rightarrow> ('e, unit) flash_eff" where
  "probe_finish C r =
     tryE
       (bindE (gets (\<lambda>s. newMiv (resultOf r s))) (\<lambda>isNew.
        seqE (whenE (\<not> isNew) (probeLegacyReadSize C r))
       (bindE (alive r) (\<lambda>a.
        whenE a
          (bindE (gets (\<lambda>s. newMiv (resultOf r s))) (\<lambda>isNew.
           noteRoc C r (''MiV '' @ (if isNew then ''with tags/CRC''
                                    else ''without CRC (older): read-back verify''))))))))
       (\<lambda>e. fail C r (''probe: '' @ e))"

definition probeAll :: "'e flash \<Rightarrow> ('e, unit) flash_eff" where
  "probeAll C =
     bindE (foldE (probe_send C) (rocs C) []) (\<lambda>tags.
     bindE (now C) (\<lambda>t0.
     seqE (loopE (fuel C) (probe_round C tags t0) [])
          (forE tags (\<lambda>(r, _). probe_finish C r))))"

end
