(* ===== verification/Flash_Upload.thy ===== *)
theory Flash_Upload
  imports Flash_Waits
begin

section \<open>Erase, write, verify: the upload of an image\<close>

text \<open>
  \<^verbatim>\<open>upload\<close> and the three steps of a segment. The map \<open>err\<close> the C++ passes by reference is taken
  and returned. Addresses and lengths are 32-bit words and wrap as in the code; an index into the
  image is checked (\<open>at\<close>, \<open>slice\<close>), so an access outside it would be \<open>Undef\<close>.
\<close>

definition foldAlive :: "roc list \<Rightarrow> ('e, roc list) flash_eff" where
  "foldAlive rs = foldE (\<lambda>r acc. bindE (alive r) (\<lambda>a. ret (if a then acc @ [r] else acc))) rs []"

text \<open>For a MiV with tags: draw a tag, remember it and append it to the command.\<close>

definition with_tag ::
  "bool \<Rightarrow> roc \<Rightarrow> u16 list \<Rightarrow> (roc, u16) omap \<Rightarrow> ('e, (roc, u16) omap \<times> u16 list) flash_eff" where
  "with_tag isNew r c tags =
     (if isNew then bindE nextTag (\<lambda>tag. ret (om_put r tag tags, c @ [tag]))
      else ret (tags, c))"

subsection \<open>Erase\<close>

definition erase_send ::
  "'e flash \<Rightarrow> u32 \<Rightarrow> roc \<Rightarrow> (roc, u16) omap \<times> (roc, int) omap \<times> (roc, string) omap \<Rightarrow>
   ('e, (roc, u16) omap \<times> (roc, int) omap \<times> (roc, string) omap) flash_eff" where
  "erase_send C addr r = (\<lambda>(tags, sent, err).
     bindE (gets (\<lambda>s. newMiv (resultOf r s))) (\<lambda>isNew.
     let c = cmd ACT_ERASE addr (if isNew then 0x10000 else 1) in
     bindE (with_tag isNew r c tags) (\<lambda>(tags, c).
     tryE
       (bindE (sendWhenIdle C r c 2000) (\<lambda>ok.
        if \<not> ok then ret (tags, sent, om_put r ''MiV not idle before erase'' err)
        else bindE (now C) (\<lambda>t. ret (tags, om_put r t sent, err))))
       (\<lambda>e. ret (tags, sent, om_put r (''erase: '' @ e) err)))))"

definition tagged_result ::
  "'e flash \<Rightarrow> (roc, u16) omap \<Rightarrow> int \<Rightarrow> string \<Rightarrow> roc \<times> int \<Rightarrow>
   (roc, int) omap \<times> (roc, string) omap \<Rightarrow> ('e, (roc, int) omap \<times> (roc, string) omap) flash_eff" where
  "tagged_result C tags timeoutMs what = (\<lambda>(r, t) (legacy, err).
     bindE (gets (\<lambda>s. newMiv (resultOf r s))) (\<lambda>isNew.
     if \<not> isNew then ret (om_put r t legacy, err)
     else tryE
       (bindE (waitTaggedResult C r (om_at 0 tags r) timeoutMs) (\<lambda>why.
        ret (legacy, err_if r why what err)))
       (\<lambda>e. ret (legacy, om_put r (what @ '': '' @ e) err))))"

definition eraseSegment ::
  "'e flash \<Rightarrow> roc list \<Rightarrow> u32 \<Rightarrow> (roc, string) omap \<Rightarrow> ('e, (roc, string) omap) flash_eff" where
  "eraseSegment C rs off err =
     (let addr = startAddress (opt C) + off in
      bindE (foldE (erase_send C addr) rs ([], [], err)) (\<lambda>(tags, sent, err).
      bindE (foldE (tagged_result C tags (eraseTimeoutMs (opt C)) ''erase'') sent ([], err)) (\<lambda>(legacy, err).
      waitLegacyAll C legacy (eraseTimeoutMs (opt C)) (legacyEraseMinMs (opt C)) ''erase'' err)))"

subsection \<open>Write\<close>

definition image_word :: "'e flash \<Rightarrow> u32 \<Rightarrow> ('e, u16) flash_eff" where
  "image_word C k =
     bindE (gets image) (\<lambda>im.
     bindE (at im (unat k)) (\<lambda>lo.
     bindE (at im (unat (k + 1))) (\<lambda>hi.
     ret (ucast lo OR push_bit 8 (ucast hi)))))"

definition write_send ::
  "'e flash \<Rightarrow> u16 list \<Rightarrow> roc \<Rightarrow> (roc, u16) omap \<times> (roc, int) omap \<times> (roc, string) omap \<Rightarrow>
   ('e, (roc, u16) omap \<times> (roc, int) omap \<times> (roc, string) omap) flash_eff" where
  "write_send C c r = (\<lambda>(tags, sent, err).
     bindE (alive r) (\<lambda>a.
     if \<not> a \<or> om_has err r then ret (tags, sent, err)
     else
       bindE (gets (\<lambda>s. newMiv (resultOf r s))) (\<lambda>isNew.
       bindE (with_tag isNew r c tags) (\<lambda>(tags, cc).
       tryE
         (bindE (sendWhenIdle C r cc 2000) (\<lambda>ok.
          if \<not> ok then ret (tags, sent, om_put r ''write: MiV not idle'' err)
          else bindE (now C) (\<lambda>t. ret (tags, om_put r t sent, err))))
         (\<lambda>e. ret (tags, sent, om_put r (''write: '' @ e) err))))))"

definition writeRecord ::
  "'e flash \<Rightarrow> roc list \<Rightarrow> u32 \<Rightarrow> u32 \<Rightarrow> u32 \<Rightarrow> (roc, string) omap \<Rightarrow> ('e, (roc, string) omap) flash_eff" where
  "writeRecord C rs off len rec err =
     (let n = min 1024 (len - rec);
          addr = startAddress (opt C) + off + rec
      in bindE (foldE (\<lambda>i acc. bindE (image_word C (off + rec + word_of_nat i)) (\<lambda>w. ret (acc @ [w])))
                  (piece_starts (unat n) 2) (cmd ACT_WRITE addr (n div 2))) (\<lambda>c.
         bindE (foldE (write_send C c) rs ([], [], err)) (\<lambda>(tags, sent, err).
         bindE (foldE (tagged_result C tags (writeTimeoutMs (opt C)) (''write '' @ hex addr)) sent ([], err))
           (\<lambda>(legacy, err).
         waitLegacyAll C legacy (writeTimeoutMs (opt C)) (legacyWriteMinMs (opt C))
           (''write '' @ hex addr) err))))"

definition writeSegment ::
  "'e flash \<Rightarrow> roc list \<Rightarrow> u32 \<Rightarrow> u32 \<Rightarrow> (roc, string) omap \<Rightarrow> ('e, (roc, string) omap) flash_eff" where
  "writeSegment C rs off len err =
     foldE (\<lambda>rec err. writeRecord C rs off len (word_of_nat rec) err) (piece_starts (unat len) 1024) err"

subsection \<open>Verify\<close>

definition readBack_round ::
  "'e flash \<Rightarrow> roc \<Rightarrow> u32 \<Rightarrow> nat \<Rightarrow> int \<Rightarrow> unit \<Rightarrow> ('e, unit + string option) flash_eff" where
  "readBack_round C r addr n t0 _ =
     bindE (readRegister C r REG_COUNT) (\<lambda>w.
     let count = reply_count w in
     if count = n div 2 + 4 then ret (Inr None)
     else bindE (msSince C t0) (\<lambda>t.
     if t > readTimeoutMs (opt C)
     then ret (Inr (Some (''read-back timeout at '' @ hex addr @ '' (count '' @ to_string count @ '')'')))
     else seqE (sleepMs C (pollMs (opt C))) (ret (Inl ()))))"

text \<open>The expected word at byte \<open>k\<close> of the file: beyond its end the flash is erased.\<close>

definition expected_word :: "'e flash \<Rightarrow> nat \<Rightarrow> ('e, u16) flash_eff" where
  "expected_word C k =
     bindE (gets image) (\<lambda>im.
     bindE (at im k) (\<lambda>lo.
     bindE (if k + 1 < length im then at im (k + 1) else ret 0xFF) (\<lambda>hi.
     ret (ucast lo OR push_bit 8 (ucast hi)))))"

definition compare_word ::
  "'e flash \<Rightarrow> u32 \<Rightarrow> u32 \<Rightarrow> u16 list \<Rightarrow> nat \<times> string \<Rightarrow> ('e, nat \<times> string) flash_eff" where
  "compare_word C addr fileOff w = (\<lambda>(i, _).
     bindE (expected_word C (unat (fileOff + word_of_nat i))) (\<lambda>expect.
     if i div 2 \<ge> length w then ret (i, ''read-back mismatch at '' @ hex (addr + word_of_nat i))
     else bindE (at w (i div 2)) (\<lambda>got.
     ret (if got \<noteq> expect then (i, ''read-back mismatch at '' @ hex (addr + word_of_nat i))
          else (i + 2, [])))))"

definition collectPieceMismatch :: "'e flash \<Rightarrow> roc \<Rightarrow> u32 \<Rightarrow> u32 \<Rightarrow> ('e, string) flash_eff" where
  "collectPieceMismatch C r fileOff n =
     (let addr = startAddress (opt C) + fileOff in
      bindE (now C) (\<lambda>t0.
      bindE (loopE (fuel C) (readBack_round C r addr (unat n) t0) ()) (\<lambda>problem.
      case problem of
        Some why \<Rightarrow> ret why
      | None \<Rightarrow>
          bindE (readReply C r (unat (ucast (n div 2) :: u16))) (\<lambda>x.
          case x of
            None \<Rightarrow> ret (''read-back reply lost at '' @ hex addr)
          | Some w \<Rightarrow>
              bindE (repeatE (length (piece_starts (unat n) 2)) (\<lambda>(_, problem). problem = [])
                       (compare_word C addr fileOff w) (0, [])) (\<lambda>(_, problem). ret problem)))))"

definition readBack_send ::
  "'e flash \<Rightarrow> u32 \<Rightarrow> u32 \<Rightarrow> roc \<Rightarrow> roc list \<times> roc list \<times> (roc, string) omap \<Rightarrow>
   ('e, roc list \<times> roc list \<times> (roc, string) omap) flash_eff" where
  "readBack_send C addr n r = (\<lambda>(sent, again, last).
     tryE
       (bindE (sendWhenIdle C r (cmd ACT_READ addr n) 2000) (\<lambda>ok.
        ret (if ok then (sent @ [r], again, last)
             else (sent, again @ [r], om_put r ''read-back: MiV not idle'' last))))
       (\<lambda>e. ret (sent, again @ [r], om_put r (''read-back: '' @ e) last)))"

definition readBack_collect ::
  "'e flash \<Rightarrow> u32 \<Rightarrow> u32 \<Rightarrow> roc \<Rightarrow> roc list \<times> (roc, string) omap \<Rightarrow>
   ('e, roc list \<times> (roc, string) omap) flash_eff" where
  "readBack_collect C fileOff n r = (\<lambda>(again, last).
     bindE
       (tryE (bindE (collectPieceMismatch C r fileOff n) (\<lambda>m. ret (om_put r m last)))
             (\<lambda>e. ret (om_put r (''read-back: '' @ e) last)))
       (\<lambda>last. ret (if om_at [] last r \<noteq> [] then again @ [r] else again, last)))"

text \<open>One of at most four attempts to read a piece back from the pending ROCs.\<close>

definition readBack_attempt ::
  "'e flash \<Rightarrow> u32 \<Rightarrow> u32 \<Rightarrow> u32 \<Rightarrow> roc list \<times> (roc, string) omap \<Rightarrow>
   ('e, roc list \<times> (roc, string) omap) flash_eff" where
  "readBack_attempt C addr fileOff n = (\<lambda>(pending, last).
     bindE (foldE (readBack_send C addr n) pending ([], [], last)) (\<lambda>(sent, again, last).
     foldE (readBack_collect C fileOff n) sent (again, last)))"

definition readBack_piece ::
  "'e flash \<Rightarrow> u32 \<Rightarrow> u32 \<Rightarrow> u32 \<Rightarrow> u32 \<times> roc list \<times> (roc, string) omap \<Rightarrow>
   ('e, u32 \<times> roc list \<times> (roc, string) omap) flash_eff" where
  "readBack_piece C off len piece = (\<lambda>(p, rbRocs, err).
     let m = min piece (len - p);
         n = m + m mod 2
     in bindE (repeatE 4 (\<lambda>(pending, _). pending \<noteq> [])
                 (readBack_attempt C (startAddress (opt C) + off + p) (off + p) n) (rbRocs, []))
          (\<lambda>(pending, last).
        let err = fold (\<lambda>r e. om_put r (om_at [] last r) e) pending err
        in ret (p + piece, filter (\<lambda>r. \<not> om_has err r) rbRocs, err)))"

definition verify_split ::
  "(roc, string) omap \<Rightarrow> roc \<Rightarrow> roc list \<times> roc list \<Rightarrow> ('e, roc list \<times> roc list) flash_eff" where
  "verify_split err r = (\<lambda>(crcRocs, rbRocs).
     bindE (alive r) (\<lambda>a.
     if \<not> a \<or> om_has err r then ret (crcRocs, rbRocs)
     else bindE (gets (\<lambda>s. newMiv (resultOf r s))) (\<lambda>isNew.
          ret (if isNew then (crcRocs @ [r], rbRocs) else (crcRocs, rbRocs @ [r])))))"

definition verifySegment ::
  "'e flash \<Rightarrow> roc list \<Rightarrow> u32 \<Rightarrow> u32 \<Rightarrow> (roc, string) omap \<Rightarrow> ('e, (roc, string) omap) flash_eff" where
  "verifySegment C rs off len err =
     bindE (foldE (verify_split err) rs ([], [])) (\<lambda>(crcRocs, rbRocs).
     bindE (if crcRocs = [] then ret err
            else
              bindE (gets image) (\<lambda>im.
              bindE (slice im (unat off) (unat len)) (\<lambda>content.
              bindE (parallelCrc C crcRocs (startAddress (opt C) + off) len (crc32 content 0)
                       (crcSegmentTimeoutMs (opt C)) 2) (\<lambda>chk.
              ret (fold (\<lambda>r e. if om_at [] chk r \<noteq> [] then om_put r (om_at [] chk r) e else e)
                     crcRocs err))))) (\<lambda>err.
     bindE (gets (\<lambda>s. foldl (\<lambda>p r. min p (readBytes (resultOf r s))) 1016 rbRocs)) (\<lambda>piece.
     if piece = 0 \<and> len \<noteq> 0 \<and> rbRocs \<noteq> [] then spin
     else bindE (repeatE (length (piece_starts (unat len) (unat piece))) (\<lambda>(_, rb, _). rb \<noteq> [])
                   (readBack_piece C off len piece) (0, rbRocs, err)) (\<lambda>(_, _, err). ret err))))"

subsection \<open>The segments\<close>

definition fail_segment :: "'e flash \<Rightarrow> u32 \<Rightarrow> int \<Rightarrow> (roc, string) omap \<Rightarrow> roc \<Rightarrow> roc list \<Rightarrow> ('e, roc list) flash_eff" where
  "fail_segment C off attempt err r again =
     bindE (alive r) (\<lambda>a.
     if \<not> a \<or> \<not> om_has err r then ret again
     else
       let at_seg = ''segment '' @ hex (startAddress (opt C) + off) in
       seqE (setResult r (\<lambda>y. y\<lparr>segmentRetries := Suc (segmentRetries y)\<rparr>))
      (seqE (noteRoc C r (at_seg @ '' attempt '' @ to_string_int attempt @ '': '' @ om_at [] err r))
        (if attempt = maxSegmentAttempts (opt C)
         then seqE (fail C r (at_seg @ '' not verified after '' @ to_string_int attempt
                              @ '' attempts: '' @ om_at [] err r)) (ret again)
         else ret (again @ [r]))))"

definition segment_attempt ::
  "'e flash \<Rightarrow> u32 \<Rightarrow> u32 \<Rightarrow> int \<times> roc list \<Rightarrow> ('e, int \<times> roc list) flash_eff" where
  "segment_attempt C off len = (\<lambda>(attempt, todo).
     bindE (eraseSegment C todo off []) (\<lambda>err.
     bindE (writeSegment C todo off len err) (\<lambda>err.
     bindE (verifySegment C todo off len err) (\<lambda>err.
     bindE (foldE (fail_segment C off attempt err) todo []) (\<lambda>again.
     ret (attempt + 1, again))))))"

definition verify_only :: "'e flash \<Rightarrow> u32 \<Rightarrow> u32 \<Rightarrow> roc list \<Rightarrow> ('e, unit) flash_eff" where
  "verify_only C off len todo =
     bindE (verifySegment C todo off len []) (\<lambda>err.
     forE todo (\<lambda>r.
       bindE (alive r) (\<lambda>a.
       whenE (a \<and> om_has err r)
         (fail C r (''flash content differs from the file at segment ''
            @ hex (startAddress (opt C) + off) @ '': '' @ om_at [] err r
            @ '' (nothing written; use write + program)'')))))"

text \<open>One round of the segment loop; false when no ROC is left (the \<^verbatim>\<open>break\<close>).\<close>

definition upload_segment :: "'e flash \<Rightarrow> nat \<Rightarrow> int \<Rightarrow> nat \<Rightarrow> ('e, bool) flash_eff" where
  "upload_segment C nSeg t0 k =
     bindE (gets (\<lambda>s. length (image s))) (\<lambda>size.
     let off = word_of_nat (k * segmentBytes);
         len = word_of_nat (min segmentBytes (size - unat off))
     in bindE (foldAlive (rocs C)) (\<lambda>todo.
        if todo = [] then ret False
        else
          seqE (if writeImage (opt C)
                then bindE (repeatE (nat (maxSegmentAttempts (opt C))) (\<lambda>(_, todo). todo \<noteq> [])
                              (segment_attempt C off len) (1, todo)) (\<lambda>_. ret ())
                else verify_only C off len todo)
         (seqE (modify (\<lambda>s. s\<lparr>percent := percent s @ [90 * (k + 1) div nSeg]\<rparr>))
         (bindE (msSince C t0) (\<lambda>t.
          seqE (whenE (k mod 16 = 15 \<or> k + 1 = nSeg)
                  (noteLog (''segment '' @ to_string (k + 1) @ ''/'' @ to_string nSeg @ '' done, ''
                            @ to_string_int (t div 1000) @ '' s'')))
               (ret True))))))"

text \<open>The CRC of the whole image on the ROCs that have it.\<close>

definition final_crc_check :: "'e flash \<Rightarrow> roc list \<Rightarrow> ('e, unit) flash_eff" where
  "final_crc_check C crcRocs =
     bindE (now C) (\<lambda>t0.
     bindE (gets image) (\<lambda>im.
     bindE (parallelCrc C crcRocs (startAddress (opt C)) (word_of_nat (length im)) (crc32 im 0)
              (crcImageTimeoutMs (opt C)) 2) (\<lambda>chk.
     seqE (forE crcRocs (\<lambda>r. whenE (om_at [] chk r \<noteq> [])
             (fail C r (''whole-image '' @ om_at [] chk r))))
    (bindE (msSince C t0) (\<lambda>t.
     noteLog (''whole-image CRC on '' @ to_string (length crcRocs) @ '' ROCs: ''
              @ to_string_int (t div 1000) @ '' s''))))))"

definition final_crc :: "'e flash \<Rightarrow> ('e, unit) flash_eff" where
  "final_crc C =
     bindE (foldE (\<lambda>r acc. bindE (alive r) (\<lambda>a. bindE (gets (\<lambda>s. newMiv (resultOf r s))) (\<lambda>isNew.
              ret (if a \<and> isNew then acc @ [r] else acc)))) (rocs C) []) (\<lambda>crcRocs.
     whenE (crcRocs \<noteq> []) (final_crc_check C crcRocs))"

definition upload :: "'e flash \<Rightarrow> ('e, unit) flash_eff" where
  "upload C =
     bindE (gets (\<lambda>s. length (image s))) (\<lambda>size.
     let nSeg = (size + segmentBytes - 1) div segmentBytes in
     bindE (now C) (\<lambda>t0.
     seqE (forE (rocs C) (\<lambda>r. bindE (alive r) (\<lambda>a.
             whenE a (setResult r (\<lambda>y. y\<lparr>roc_state := Uploading\<rparr>)))))
    (seqE (bindE (repeatE nSeg snd (\<lambda>(k, _). bindE (upload_segment C nSeg t0 k) (\<lambda>go. ret (Suc k, go)))
             (0, True)) (\<lambda>_. ret ()))
    (seqE (whenE (finalImageCrc (opt C)) (final_crc C))
          (forE (rocs C) (\<lambda>r. bindE (alive r) (\<lambda>a.
             whenE a (seqE (setResult r (\<lambda>y. y\<lparr>roc_state := Verified\<rparr>))
                           (noteRoc C r ''image written and verified'')))))))))"

end
