(* ===== verification/Flash_Run.thy ===== *)
theory Flash_Run
  imports Flash_Upload
begin

section \<open>Activation and the whole session\<close>

text \<open>
  \<^verbatim>\<open>activate\<close> requests the IAP of every verified ROC and polls the requested ROCs in turn until
  each is programmed or failed; \<^verbatim>\<open>run\<close> is the whole session and \<^verbatim>\<open>summary\<close> its report.
\<close>

subsection \<open>The request\<close>

definition iap_send :: "'e flash \<Rightarrow> roc \<Rightarrow> (roc, int) omap \<Rightarrow> ('e, (roc, int) omap) flash_eff" where
  "iap_send C r sent =
     tryE
       (bindE (readRegister C r REG_FW_VERSION) (\<lambda>v.
        seqE (modify (\<lambda>s. s\<lparr>verBefore := om_put r v (verBefore s)\<rparr>))
       (bindE (sendWhenIdle C r (cmd ACT_PROG_ADDR (startAddress (opt C)) 0) 2000) (\<lambda>ok.
        if \<not> ok then seqE (fail C r ''MiV not idle before the IAP'') (ret sent)
        else bindE (now C) (\<lambda>t.
             seqE (noteRoc C r ''IAP requested'') (ret (om_put r t sent)))))))
       (\<lambda>e. seqE (fail C r (''IAP request: '' @ e)) (ret sent))"

subsection \<open>The wait for the ROCs to come back\<close>

text \<open>The local maps of \<^verbatim>\<open>activate\<close>.\<close>

record iap_wait =
  wentDown :: "(roc, bool) omap"
  finished :: "(roc, bool) omap"
  answering :: "(roc, bool) omap"
  resyncs :: "(roc, int) omap"

text \<open>What one poll of a ROC reads: the registers read before an exception keep their values.\<close>

record iap_poll =
  p_done :: u16
  p_ret :: u16
  p_ver :: u16
  p_ok :: bool

definition try_read :: "'e flash \<Rightarrow> roc \<Rightarrow> u16 \<Rightarrow> ('e, u16 option) flash_eff" where
  "try_read C r a = tryE (bindE (readRegister C r a) (\<lambda>v. ret (Some v))) (\<lambda>_. ret None)"

definition iap_read :: "'e flash \<Rightarrow> roc \<Rightarrow> ('e, iap_poll) flash_eff" where
  "iap_read C r =
     (let P = \<lparr>p_done = 0, p_ret = 0, p_ver = 0, p_ok = False\<rparr> in
      bindE (try_read C r REG_DONE) (\<lambda>d. case d of None \<Rightarrow> ret P | Some d \<Rightarrow>
      bindE (try_read C r REG_RETURN) (\<lambda>v. case v of None \<Rightarrow> ret (P\<lparr>p_done := d\<rparr>) | Some v \<Rightarrow>
      bindE (try_read C r REG_FW_VERSION) (\<lambda>w. case w of
          None \<Rightarrow> ret (P\<lparr>p_done := d, p_ret := v\<rparr>)
        | Some w \<Rightarrow> ret \<lparr>p_done = d, p_ret = v, p_ver = w, p_ok = True\<rparr>))))"

definition disconnected :: "iap_poll \<Rightarrow> bool" where
  "disconnected P \<longleftrightarrow> \<not> p_ok P \<or> p_done P = 0xffff"

definition finish :: "roc \<Rightarrow> iap_wait \<Rightarrow> iap_wait" where
  "finish r L = L\<lparr>finished := om_put r True (finished L)\<rparr>"

text \<open>The \<^verbatim>\<open>if\<close>/\<^verbatim>\<open>else if\<close> chain on what was read.\<close>

definition iap_decide :: "'e flash \<Rightarrow> roc \<Rightarrow> int \<Rightarrow> iap_poll \<Rightarrow> iap_wait \<Rightarrow> ('e, iap_wait) flash_eff" where
  "iap_decide C r t P L0 =
     (let L = L0\<lparr>answering := om_put r (\<not> disconnected P) (answering L0)\<rparr>;
          down = om_at False (wentDown L) r; expected = expectedFwVersion (opt C) in
      if disconnected P then ret (L\<lparr>wentDown := om_put r True (wentDown L)\<rparr>)
      else if \<not> down \<and> p_done P AND 0x8000 \<noteq> 0 \<and> p_ret P \<noteq> 0 \<and> t > 200 then
        seqE (fail C r (''IAP refused, PROG_RETURN '' @ hex (p_ret P)
                @ (if p_ret P AND 0xFF00 = 0xA000
                   then '' (image authentication failed: NOT programmed, old firmware running)''
                   else '''')))
             (ret (finish r L))
      else if (p_done P \<noteq> 0 \<and> p_done P AND 0x8000 = 0) \<or> p_ret P \<noteq> 0 then ret L
      else bindE (gets (\<lambda>s. om_at 0 (verBefore s) r)) (\<lambda>before.
        if down \<or> (expected \<noteq> 0 \<and> p_ver P = expected \<and> p_ver P \<noteq> before) then
          if expected \<noteq> 0 \<and> p_ver P \<noteq> expected then
            if t > linkBackTimeoutMs (opt C) then
              seqE (fail C r (''back after IAP with firmware version '' @ hex (p_ver P)
                      @ '', expected '' @ hex expected))
                   (ret (finish r L))
            else ret L
          else
            seqE (setResult r (\<lambda>y. y\<lparr>roc_state := Programmed\<rparr>))
           (seqE (noteRoc C r (''back after IAP in '' @ to_string_int (t div 1000) @ '' s''
                    @ (if om_at 0 (resyncs L) r \<noteq> 0
                       then '' (after '' @ to_string_int (om_at 0 (resyncs L) r) @ '' link reset)''
                       else '''')
                    @ '', firmware version '' @ hex (p_ver P)))
                 (ret (finish r L)))
        else ret L))"

definition iap_auth_timeout :: "'e flash \<Rightarrow> roc \<Rightarrow> int \<Rightarrow> iap_poll \<Rightarrow> iap_wait \<Rightarrow> ('e, iap_wait) flash_eff" where
  "iap_auth_timeout C r t P L =
     (if \<not> om_at False (finished L) r \<and> \<not> om_at False (wentDown L) r \<and> t > authTimeoutMs (opt C)
      then seqE (fail C r (''IAP: link never dropped and no result after '' @ to_string_int (t div 1000)
                  @ '' s'' @ (if p_ok P \<and> p_done P = 0x4000
                     then '' (register 128 = 0x4000: the MiV is stuck in a system service, ''
                          @ ''power-cycle the ROC; the verified image stays in the flash)''
                     else '''')))
                (ret (finish r L))
      else ret L)"

definition iap_resync :: "'e flash \<Rightarrow> roc \<Rightarrow> int \<Rightarrow> iap_wait \<Rightarrow> ('e, iap_wait) flash_eff" where
  "iap_resync C r t L =
     (if \<not> om_at False (finished L) r \<and> om_at False (wentDown L) r \<and> \<not> om_at False (answering L) r
         \<and> om_at 0 (resyncs L) r < linkResyncTries (opt C)
         \<and> t > linkResyncAfterMs (opt C) * (om_at 0 (resyncs L) r + 1)
      then
        let k = om_at 0 (resyncs L) r + 1 in
        bindE (tryE (resyncLink C r) (\<lambda>e. ret (False, e))) (\<lambda>(done, info).
        seqE (noteRoc C r (''not answering '' @ to_string_int (t div 1000) @ '' s after the IAP: link reset ''
                @ to_string_int k @ (if done then '' done'' else '' not available'')
                @ (if info = [] then '''' else '' ('' @ info @ '')'')))
             (ret (L\<lparr>resyncs := om_put r k (resyncs L)\<rparr>)))
      else ret L)"

definition iap_back_timeout :: "'e flash \<Rightarrow> roc \<Rightarrow> int \<Rightarrow> iap_poll \<Rightarrow> iap_wait \<Rightarrow> ('e, iap_wait) flash_eff" where
  "iap_back_timeout C r t P L =
     (if \<not> om_at False (finished L) r \<and> om_at False (wentDown L) r \<and> t > linkBackTimeoutMs (opt C)
      then seqE
        (if om_at False (answering L) r
         then fail C r (''IAP: ROC back after '' @ to_string_int (t div 1000)
                @ '' s but the MiV never reported idle without error (reg128='' @ hex (p_done P)
                @ '' reg132='' @ hex (p_ret P) @ '', firmware version '' @ hex (p_ver P)
                @ ''): not accepted as programmed'')
         else fail C r (''IAP: ROC not answering '' @ to_string_int (t div 1000)
                @ '' s after the request, also after '' @ to_string_int (om_at 0 (resyncs L) r)
                @ '' link reset(s): power-cycle the ROC (the verified image is ''
                @ ''in its flash; on 2026-10-16 such a ROC came back after a power cycle)''))
        (ret (finish r L))
      else ret L)"

definition iap_poll_roc ::
  "'e flash \<Rightarrow> roc \<times> int \<Rightarrow> bool \<times> iap_wait \<Rightarrow> ('e, bool \<times> iap_wait) flash_eff" where
  "iap_poll_roc C = (\<lambda>(r, t0) (pending, L).
     if om_at False (finished L) r then ret (pending, L)
     else
       bindE (msSince C t0) (\<lambda>t.
       bindE (iap_read C r) (\<lambda>P.
       bindE (iap_decide C r t P L) (\<lambda>L.
       bindE (iap_auth_timeout C r t P L) (\<lambda>L.
       bindE (iap_resync C r t L) (\<lambda>L.
       bindE (iap_back_timeout C r t P L) (\<lambda>L. ret (True, L))))))))"

definition iap_round :: "'e flash \<Rightarrow> (roc, int) omap \<Rightarrow> iap_wait \<Rightarrow> ('e, iap_wait + unit) flash_eff" where
  "iap_round C sent L =
     bindE (foldE (iap_poll_roc C) sent (False, L)) (\<lambda>(pending, L).
     if \<not> pending then ret (Inr ())
     else seqE (sleepMs C 100) (ret (Inl L)))"

definition activate :: "'e flash \<Rightarrow> ('e, unit) flash_eff" where
  "activate C =
     bindE (gets (\<lambda>s. filter (\<lambda>r. roc_state (resultOf r s) = Verified) (rocs C))) (\<lambda>go.
     bindE (foldE (iap_send C) go []) (\<lambda>sent.
     seqE (loopE (fuel C) (iap_round C sent) \<lparr>wentDown = [], finished = [], answering = [], resyncs = []\<rparr>)
          (modify (\<lambda>s. s\<lparr>percent := percent s @ [100]\<rparr>))))"

subsection \<open>The session\<close>

definition all_ok :: "FlashOptions \<Rightarrow> (roc, RocResult) omap \<Rightarrow> bool" where
  "all_ok p results \<longleftrightarrow>
     foldl (\<lambda>ok kv. ok \<and> roc_state (snd kv) = (if program p then Programmed else Verified)) True results"

definition run :: "'e flash \<Rightarrow> ('e, bool) flash_eff" where
  "run C =
     seqE (modify (\<lambda>s. s\<lparr>res := []\<rparr>))
    (seqE (forE (rocs C) (\<lambda>r. setResult r (\<lambda>_. defaultResult)))
    (seqE (preflight C)
    (seqE (probeAll C)
    (seqE (upload C)
    (seqE (whenE (program (opt C)) (activate C))
          (gets (\<lambda>s. all_ok (opt C) (res s))))))))"

text \<open>A session as the constructor leaves it.\<close>

definition new_session :: "'e \<Rightarrow> u8 list \<Rightarrow> 'e session" where
  "new_session e im = \<lparr>envr = e, trc = [], image = im, cur_tag = 0, res = [], verBefore = [],
     out = [], percent = []\<rparr>"

definition summary_line :: "'e flash \<Rightarrow> roc \<Rightarrow> RocResult \<Rightarrow> string" where
  "summary_line C r x =
     port_name (io C) r @ '': '' @ stateName (roc_state x)
     @ (if newMiv x then '' (MiV with CRC)''
        else '' (older MiV, read-back '' @ to_string (unat (readBytes x)) @ '' B)'')
     @ '', segment retries '' @ to_string (segmentRetries x)
     @ (if roc_error x \<noteq> [] then '', '' @ roc_error x else '''')
     @ [CHR 0x0A]"

definition summary :: "'e flash \<Rightarrow> ('e, string) flash_eff" where
  "summary C =
     foldE (\<lambda>r acc s. case om_get (res s) r of
              None \<Rightarrow> (Throw ''map::at'', s)
            | Some x \<Rightarrow> (Ret (acc @ summary_line C r x), s)) (rocs C) []"

end
