(* ===== verification/Flash_Invariant.thy ===== *)
theory Flash_Invariant
  imports Flash_Run
begin

section \<open>Invariants of a flash session\<close>

text \<open>
  Two interfaces between the protocol's member functions and a property \<open>I\<close> of the session.
  \<open>query_invariant\<close>: the steps of a query (register reads, the three locked sections, sleeping, the
  log of a ROC and a new tag) keep \<open>I\<close>, where \<open>W\<close> permits the command a locked section sends; then
  every wait and the parallel CRC keep it. \<open>session_invariant\<close> adds the steps that change results
  (and link resets); then every member function keeps \<open>I\<close>, up to the permissions of the erase, write
  and IAP commands it builds. The safety properties are interpretations of these locales.
\<close>

locale query_invariant =
  fixes C :: "'e flash"
    and I :: "'e session \<Rightarrow> bool"
    and W :: "roc \<Rightarrow> u16 list \<Rightarrow> bool"
  assumes keeps_readRegister: "keeps I (readRegister C r a)"
    and keeps_drain: "keeps I (drain_locked C r)"
    and keeps_send: "W r c \<Longrightarrow> keeps I (send_locked C r c)"
    and keeps_reply: "keeps I (reply_locked C r n)"
    and keeps_sleep: "keeps I (sleepMs C ms)"
    and keeps_noteRoc: "keeps I (noteRoc C r note)"
    and indep_cur_tag: "I (s\<lparr>cur_tag := t\<rparr>) = I s"
    and permits_query: "a = ACT_CRC \<or> a = ACT_READ \<Longrightarrow> W r (cmd a p1 p2 @ x)"
begin

lemma keeps_msSince: "keeps I (msSince C t0)"
  by (simp add: msSince_def keeps_gets)

lemma keeps_now: "keeps I (now C)"
  by (simp add: now_def keeps_gets)

lemma keeps_nextTag: "keeps I nextTag"
  by (simp add: nextTag_def keeps_def Let_def indep_cur_tag)

lemma permits_crc [simp]: "W r (cmd ACT_CRC p1 p2 @ x)"
  by (simp add: permits_query)

lemma permits_crc' [simp]: "W r (cmd ACT_CRC p1 p2)"
  using permits_crc [of r p1 p2 "[]"] by simp

lemma permits_read [simp]: "W r (cmd ACT_READ p1 p2)"
  using permits_query [of ACT_READ r p1 p2 "[]"] by simp

lemmas primitive = keeps_readRegister keeps_drain keeps_send keeps_reply
  keeps_sleep keeps_msSince keeps_now keeps_noteRoc keeps_nextTag

lemma keeps_waitIdle: "keeps I (waitIdle C r t)"
  unfolding waitIdle_def waitIdle_round_def by (intro inv_intros primitive)

lemma keeps_sendWhenIdle: "W r c \<Longrightarrow> keeps I (sendWhenIdle C r c t)"
  unfolding sendWhenIdle_def sendWhenIdle_round_def by (intro inv_intros primitive keeps_waitIdle)

lemma keeps_readReply: "keeps I (readReply C r n)"
  unfolding readReply_def by (intro inv_intros primitive)

lemma keeps_no_reply: "keeps I (no_reply C r t)"
  unfolding no_reply_def by (intro inv_intros primitive)

lemma keeps_sendTagged: "W r (c @ [tag]) \<Longrightarrow> keeps I (sendTagged C r c tag)"
  unfolding sendTagged_def by (rule keeps_sendWhenIdle)

lemma keeps_collectTagged: "keeps I (collectTagged C r tag n t)"
  unfolding collectTagged_def collectTagged_round_def
  by (intro inv_intros primitive keeps_readReply keeps_no_reply)

lemma keeps_crc_verdict: "keeps I (crc_verdict rp why want)"
  unfolding crc_verdict_def by (intro inv_intros)

lemma keeps_parallelCrc: "keeps I (parallelCrc C rs addr len want t tries)"
  unfolding parallelCrc_def crc_round_def crc_send_def crc_collect_def
  by (intro inv_intros primitive keeps_sendTagged permits_crc keeps_collectTagged keeps_crc_verdict)

lemma keeps_waitTaggedResult: "keeps I (waitTaggedResult C r tag t)"
  unfolding waitTaggedResult_def waitTaggedResult_round_def
  by (intro inv_intros primitive keeps_readReply keeps_no_reply)

lemma keeps_waitLegacyAll: "keeps I (waitLegacyAll C sent t m what err)"
  unfolding waitLegacyAll_def waitLegacyAll_round_def waitLegacy_poll_def
  by (intro inv_intros primitive)

end

subsection \<open>The whole session\<close>

locale session_invariant = query_invariant C I W
  for C :: "'e flash" and I :: "'e session \<Rightarrow> bool" and W :: "roc \<Rightarrow> u16 list \<Rightarrow> bool" +
  assumes keeps_resyncLink: "keeps I (resyncLink C r)"
    and indep_res: "I (s\<lparr>res := m\<rparr>) = I s"
    and indep_out: "I (s\<lparr>out := ls\<rparr>) = I s"
    and indep_percent: "I (s\<lparr>percent := y\<rparr>) = I s"
    and indep_verBefore: "I (s\<lparr>verBefore := v\<rparr>) = I s"
begin

lemma keeps_setResult: "keeps I (setResult r f)"
  by (simp add: setResult_def keeps_modify indep_res)

lemma keeps_noteLog: "keeps I (noteLog t)"
  by (simp add: noteLog_def keeps_modify indep_out)

lemma keeps_fail: "keeps I (fail C r t)"
  unfolding fail_def by (intro keeps_seqE keeps_setResult keeps_noteRoc)

lemma keeps_alive: "keeps I (alive r)"
  by (simp add: alive_def keeps_def split: option.splits)

lemma keeps_verBefore: "keeps I (modify (\<lambda>s. s\<lparr>verBefore := f s\<rparr>))"
  by (simp add: keeps_modify indep_verBefore)

lemma keeps_percent: "keeps I (modify (\<lambda>s. s\<lparr>percent := f s\<rparr>))"
  by (simp add: keeps_modify indep_percent)

lemmas steps = primitive keeps_resyncLink keeps_setResult keeps_noteLog keeps_fail keeps_alive
  keeps_verBefore keeps_percent

subsection \<open>Probe\<close>

lemma keeps_probeLegacyReadSize: "keeps I (probeLegacyReadSize C r)"
  unfolding probeLegacyReadSize_def legacySize_round_def
  by (intro inv_intros steps keeps_waitIdle keeps_sendWhenIdle permits_read)

lemma keeps_probeAll: "keeps I (probeAll C)"
  unfolding probeAll_def probe_send_def probe_round_def probe_answer_def probe_finish_def
  by (intro inv_intros steps keeps_waitIdle keeps_sendTagged permits_crc keeps_readReply
      keeps_probeLegacyReadSize)

subsection \<open>Segments\<close>

lemma keeps_foldAlive: "keeps I (foldAlive rs)"
  unfolding foldAlive_def by (intro inv_intros steps)

lemma keeps_tagged_result: "keeps I (tagged_result C tags t what kv acc)"
  unfolding tagged_result_def by (intro inv_intros steps keeps_waitTaggedResult)

lemma keeps_bindE_with_tag:
  assumes "\<And>tags' x. keeps I (k (tags', c @ x))"
  shows "keeps I (bindE (with_tag b r c tags) k)"
proof (rule keeps_bindE_via [where P = "\<lambda>(_, c'). \<exists>x. c' = c @ x"])
  show "keeps I (with_tag b r c tags)"
    unfolding with_tag_def by (intro inv_intros steps)
  show "returns (\<lambda>(_, c'). \<exists>x. c' = c @ x) (with_tag b r c tags)"
    unfolding with_tag_def by (intro returns_if returns_bindE returns_ret) auto
qed (use assms in auto)

lemma keeps_eraseSegment:
  assumes "\<And>r n x. n = 0x10000 \<or> n = 1 \<Longrightarrow> W r (cmd ACT_ERASE (startAddress (opt C) + off) n @ x)"
  shows "keeps I (eraseSegment C rs off err)"
proof -
  have "keeps I (erase_send C (startAddress (opt C) + off) r acc)" for r acc
    unfolding erase_send_def Let_def
    apply (intro keeps_case_prod, rule keeps_bindE_gets, rule keeps_bindE_with_tag)
    using assms by (auto intro!: inv_intros steps keeps_sendWhenIdle)
  then show ?thesis
    unfolding eraseSegment_def
    by (intro inv_intros keeps_tagged_result keeps_waitLegacyAll)
qed

lemma returns_payload:
  "returns (\<lambda>c'. \<exists>x. c' = c @ x)
     (foldE (\<lambda>i acc. bindE (image_word C (k i)) (\<lambda>w. ret (acc @ [w]))) xs c)"
  by (rule returns_foldE) (auto intro!: returns_bindE returns_ret)

lemma keeps_image_word: "keeps I (image_word C k)"
  unfolding image_word_def by (intro inv_intros)

lemma keeps_writeRecord:
  assumes "\<And>r x. W r (cmd ACT_WRITE (startAddress (opt C) + off + rec) (min 1024 (len - rec) div 2) @ x)"
  shows "keeps I (writeRecord C rs off len rec err)"
proof -
  let ?h = "cmd ACT_WRITE (startAddress (opt C) + off + rec) (min 1024 (len - rec) div 2)"
  have send: "keeps I (write_send C (?h @ x) r acc)" for x r acc
    unfolding write_send_def Let_def
    apply (intro keeps_case_prod, rule keeps_bindE [OF keeps_alive], rule keeps_if, rule keeps_ret)
    apply (rule keeps_bindE_gets, rule keeps_bindE_with_tag)
    using assms by (auto intro!: inv_intros steps keeps_sendWhenIdle)
  show ?thesis
    unfolding writeRecord_def Let_def
    apply (rule keeps_bindE_via [OF _ returns_payload])
     apply (intro inv_intros keeps_image_word)
    using send by (auto intro!: inv_intros keeps_tagged_result keeps_waitLegacyAll)
qed

lemma keeps_verifySegment: "keeps I (verifySegment C rs off len err)"
  unfolding verifySegment_def verify_split_def readBack_piece_def readBack_attempt_def
    readBack_send_def readBack_collect_def collectPieceMismatch_def readBack_round_def
    compare_word_def expected_word_def
  by (intro inv_intros steps keeps_sendWhenIdle permits_read keeps_readReply keeps_parallelCrc)

lemma keeps_fail_segment: "keeps I (fail_segment C off n err r acc)"
  unfolding fail_segment_def by (intro inv_intros steps)

lemma keeps_verify_only: "keeps I (verify_only C off len todo)"
  unfolding verify_only_def by (intro inv_intros steps keeps_verifySegment)

lemma keeps_final_crc: "keeps I (final_crc C)"
  unfolding final_crc_def final_crc_check_def by (intro inv_intros steps keeps_parallelCrc)

subsection \<open>Upload and activation\<close>

lemma keeps_segment_attempt:
  assumes "\<And>r n x. n = 0x10000 \<or> n = 1 \<Longrightarrow> W r (cmd ACT_ERASE (startAddress (opt C) + off) n @ x)"
    and "\<And>r k x. k \<in> set (piece_starts (unat len) 1024) \<Longrightarrow>
      W r (cmd ACT_WRITE (startAddress (opt C) + off + word_of_nat k)
             (min 1024 (len - word_of_nat k) div 2) @ x)"
  shows "keeps I (segment_attempt C off len acc)"
  unfolding segment_attempt_def writeSegment_def
  by (intro inv_intros keeps_eraseSegment keeps_writeRecord keeps_verifySegment keeps_fail_segment assms)

lemma keeps_activate:
  assumes "\<And>r. r \<in> set (rocs C) \<Longrightarrow> program (opt C) \<Longrightarrow> W r (cmd ACT_PROG_ADDR (startAddress (opt C)) 0)"
    and "program (opt C)"
  shows "keeps I (activate C)"
  unfolding activate_def iap_send_def iap_round_def iap_poll_roc_def iap_read_def try_read_def
    iap_decide_def iap_auth_timeout_def iap_resync_def iap_back_timeout_def
  apply (rule keeps_bindE_gets)
  using assms by (auto intro!: inv_intros steps keeps_sendWhenIdle simp: Let_def)


lemma keeps_upload_segment:
  assumes "\<And>s. I s \<Longrightarrow> length (image s) = sz"
    and "\<And>r n x. writeImage (opt C) \<Longrightarrow> n = 0x10000 \<or> n = 1 \<Longrightarrow>
      W r (cmd ACT_ERASE (startAddress (opt C) + word_of_nat (k * segmentBytes)) n @ x)"
    and "\<And>r len j x. writeImage (opt C) \<Longrightarrow>
      len = (word_of_nat (min segmentBytes (sz - unat (word_of_nat (k * segmentBytes) :: u32))) :: u32) \<Longrightarrow>
      j \<in> set (piece_starts (unat len) 1024) \<Longrightarrow>
      W r (cmd ACT_WRITE (startAddress (opt C) + word_of_nat (k * segmentBytes) + word_of_nat j)
             (min 1024 (len - word_of_nat j) div 2) @ x)"
  shows "keeps I (upload_segment C nSeg t0 k)"
  unfolding upload_segment_def Let_def
  apply (rule keeps_bindE_gets)
  apply (intro keeps_bindE keeps_seqE keeps_if keeps_ret keeps_foldAlive keeps_repeatE keeps_segment_attempt
      keeps_verify_only keeps_percent keeps_msSince keeps_whenE keeps_noteLog)
  using assms by simp_all

lemma keeps_upload:
  assumes "\<And>s. I s \<Longrightarrow> length (image s) = sz"
    and "\<And>r k n x. writeImage (opt C) \<Longrightarrow> k * segmentBytes < sz \<Longrightarrow> n = 0x10000 \<or> n = 1 \<Longrightarrow>
      W r (cmd ACT_ERASE (startAddress (opt C) + word_of_nat (k * segmentBytes)) n @ x)"
    and "\<And>r k len j x. writeImage (opt C) \<Longrightarrow> k * segmentBytes < sz \<Longrightarrow>
      len = (word_of_nat (min segmentBytes (sz - unat (word_of_nat (k * segmentBytes) :: u32))) :: u32) \<Longrightarrow>
      j \<in> set (piece_starts (unat len) 1024) \<Longrightarrow>
      W r (cmd ACT_WRITE (startAddress (opt C) + word_of_nat (k * segmentBytes) + word_of_nat j)
             (min 1024 (len - word_of_nat j) div 2) @ x)"
  shows "keeps I (upload C)"
proof -
  let ?n = "(sz + segmentBytes - 1) div segmentBytes"
  have small: "k * segmentBytes < sz" if "k < ?n" for k
    using that by (simp add: segmentBytes_def)
  have loop: "keeps I (repeatE ?n snd
      (\<lambda>(k, _). bindE (upload_segment C ?n t0 k) (\<lambda>go. ret (Suc k, go))) (0, True))" for t0
  proof (rule keeps_repeatE_via [where P = "\<lambda>j acc. fst acc = j" and i = 0])
    fix j and acc :: "nat \<times> bool"
    assume j: "j < 0 + ?n" and "fst acc = j"
    then obtain b where acc: "acc = (j, b)" by (cases acc) simp
    have "keeps I (upload_segment C ?n t0 j)"
      using j small by (intro keeps_upload_segment [where sz = sz] assms) simp_all
    then show "keeps I ((\<lambda>(k, _). bindE (upload_segment C ?n t0 k) (\<lambda>go. ret (Suc k, go))) acc) \<and>
        returns (\<lambda>acc. fst acc = Suc j) ((\<lambda>(k, _). bindE (upload_segment C ?n t0 k) (\<lambda>go. ret (Suc k, go))) acc)"
      by (auto simp: acc intro!: keeps_bindE keeps_ret returns_bindE returns_ret)
  qed simp
  show ?thesis
    unfolding upload_def Let_def
    apply (rule keeps_bindE_gets)
    using assms(1) loop
    by (auto intro!: keeps_bindE keeps_seqE keeps_now keeps_forE keeps_alive keeps_whenE keeps_setResult
        keeps_ret keeps_final_crc keeps_noteRoc)
qed

end

end
