(* ===== verification/Flash_Safety.thy ===== *)
theory Flash_Safety
  imports Flash_Invariant
begin

section \<open>Safety of a flash session\<close>

text \<open>
  What no ROC, link or operator can make a session do: access the command FIFO outside the DCS
  lock or without the check that must precede the access, touch the flash outside the footprint
  the preflight accepted, or request an IAP it was not asked for. All statements are about the
  history of calls of a whole \<open>run\<close>, for every environment.
\<close>

subsection \<open>Preflight\<close>

definition padded_image :: "u8 list \<Rightarrow> u8 list" where
  "padded_image im = (if length im mod 2 \<noteq> 0 then im @ [0xFF] else im)"

definition preflight_passes :: "FlashOptions \<Rightarrow> u8 list \<Rightarrow> bool" where
  "preflight_passes p im \<longleftrightarrow>
     length (expectedSha256 p) = 64 \<and> im \<noteq> [] \<and> sha256hex im = map tolower (expectedSha256 p)
   \<and> startAddress p mod 0x10000 = 0 \<and> protectedBelow p \<le> startAddress p
   \<and> (writeImage p \<longrightarrow> 0 < maxSegmentAttempts p)
   \<and> footprintEnd p (length (padded_image im)) \<le> 2 ^ 32
   \<and> (flashBytes p \<noteq> 0 \<longrightarrow> footprintEnd p (length (padded_image im)) \<le> unat (flashBytes p))"

lemma preflight_outcome:
  "(if preflight_passes (opt C) (image s) then fst (preflight C s) = Ret ()
      \<and> image (snd (preflight C s)) = padded_image (image s)
    else (\<exists>m. fst (preflight C s) = Throw m))
   \<and> trc (snd (preflight C s)) = trc s \<and> res (snd (preflight C s)) = res s
   \<and> envr (snd (preflight C s)) = envr s"
  by (auto simp: preflight_def preflight_passes_def padded_image_def noteLog_def eff_simps Let_def
      not_le not_less)

subsection \<open>Commands and the part of the flash they change\<close>

definition word32 :: "u16 \<Rightarrow> u16 \<Rightarrow> u32" where
  "word32 lo hi = push_bit 16 (ucast hi) OR ucast lo"

lemma word32_split: "word32 (ucast p) (ucast (drop_bit 16 p)) = p"
  by (rule bit_eqI) (auto simp: word32_def bit_simps)

text \<open>What an erase and a write change. An older MiV, which is sent size 1, erases the addressed
  block and the next one.\<close>

fun flash_range :: "u16 list \<Rightarrow> (nat \<times> nat) option" where
  "flash_range (a # lo1 # hi1 # lo2 # hi2 # _) =
     (let p1 = unat (word32 lo1 hi1); p2 = unat (word32 lo2 hi2) in
      if a = ACT_ERASE then Some (p1, p1 + (if p2 = 1 then 2 * segmentBytes else p2))
      else if a = ACT_WRITE then Some (p1, p1 + 2 * p2)
      else None)"
| "flash_range _ = None"

fun iap_address :: "u16 list \<Rightarrow> u32 option" where
  "iap_address (a # lo1 # hi1 # _) = (if a = ACT_PROG_ADDR then Some (word32 lo1 hi1) else None)"
| "iap_address _ = None"

lemma flash_range_cmd:
  "flash_range (cmd a p1 p2 @ x) =
     (if a = ACT_ERASE then Some (unat p1, unat p1 + (if p2 = 1 then 2 * segmentBytes else unat p2))
      else if a = ACT_WRITE then Some (unat p1, unat p1 + 2 * unat p2)
      else None)"
proof -
  have "unat p2 = 1 \<longleftrightarrow> p2 = 1" by (metis unsigned_1 unsigned_word_eqI)
  then show ?thesis by (simp add: cmd_def word32_split Let_def)
qed

lemma iap_address_cmd: "iap_address (cmd a p1 p2 @ x) = (if a = ACT_PROG_ADDR then Some p1 else None)"
  by (simp add: cmd_def word32_split)

definition may_send :: "'e flash \<Rightarrow> u8 list \<Rightarrow> roc \<Rightarrow> u16 list \<Rightarrow> bool" where
  "may_send C im r c \<longleftrightarrow>
     (case flash_range c of None \<Rightarrow> True
      | Some (lo, hi) \<Rightarrow> writeImage (opt C) \<and> unat (startAddress (opt C)) \<le> lo
                        \<and> hi \<le> footprintEnd (opt C) (length im))
   \<and> (case iap_address c of None \<Rightarrow> True
      | Some a \<Rightarrow> program (opt C) \<and> a = startAddress (opt C))"

fun event_ok :: "(roc \<Rightarrow> u16 list \<Rightarrow> bool) \<Rightarrow> io_event \<Rightarrow> bool" where
  "event_ok W (WrBlk r c a x) = (a = REG_COMMAND \<and> W r c)"
| "event_ok W _ = True"

definition sent_ok :: "(roc \<Rightarrow> u16 list \<Rightarrow> bool) \<Rightarrow> u8 list \<Rightarrow> 'e session \<Rightarrow> bool" where
  "sent_ok W im s \<longleftrightarrow> image s = im \<and> list_all (event_ok W) (trc s)"

lemmas locked_simps = drain_locked_def send_locked_def reply_locked_def held_def scopedE_def
  lock_on_def lock_off_def readRegister_def readBlock_def writeBlock_def resyncLink_def
  port_call_def bindE_def seqE_def ret_def modify_def

interpretation sent: session_invariant C "sent_ok (may_send C im) im" "may_send C im"
proof unfold_locales
  fix a :: u16 and p1 p2 :: u32 and x r
  assume "a = ACT_CRC \<or> a = ACT_READ"
  then show "may_send C im r (cmd a p1 p2 @ x)"
    by (auto simp: may_send_def flash_range_cmd iap_address_cmd action_defs)
qed (auto simp: keeps_def sent_ok_def sleepMs_def noteRoc_def setResult_def noteLog_def locked_simps Let_def
      split: prod.splits sum.splits outcome.splits)


subsection \<open>The session after the preflight\<close>

definition session_body :: "'e flash \<Rightarrow> ('e, bool) flash_eff" where
  "session_body C =
     seqE (probeAll C)
    (seqE (upload C)
    (seqE (whenE (program (opt C)) (activate C))
          (gets (\<lambda>s. all_ok (opt C) (res s)))))"

definition fresh_results :: "roc list \<Rightarrow> (roc, RocResult) omap" where
  "fresh_results rs = fold (\<lambda>r. om_put r defaultResult) rs []"

lemma forE_setResult:
  "forE rs (\<lambda>r. setResult r (\<lambda>_. d)) s = (Ret (), s\<lparr>res := fold (\<lambda>r. om_put r d) rs (res s)\<rparr>)"
  unfolding forE_def
  by (induction rs arbitrary: s) (simp_all add: setResult_def modify_def bindE_def ret_def)

lemma run_prefix:
  "run C s = seqE (preflight C) (session_body C) (s\<lparr>res := fresh_results (rocs C)\<rparr>)"
  unfolding run_def session_body_def fresh_results_def
  by (simp add: seqE_def bindE_def [of "modify _"] bindE_def [of "forE _ _"] modify_def forE_setResult)

lemma run_rejected:
  assumes "\<not> preflight_passes (opt C) (image s)"
  obtains m s' where "run C s = (Throw m, s')" and "trc s' = trc s" and "envr s' = envr s"
proof -
  let ?s = "s\<lparr>res := fresh_results (rocs C)\<rparr>"
  obtain m where m: "fst (preflight C ?s) = Throw m"
    using preflight_outcome [of C ?s] assms by auto
  moreover have "trc (snd (preflight C ?s)) = trc s" "envr (snd (preflight C ?s)) = envr s"
    using preflight_outcome [of C ?s] by simp_all
  ultimately show thesis
    by (intro that [of m "snd (preflight C ?s)"]) (simp_all add: run_prefix seqE_def bindE_cases)
qed

lemma run_accepted:
  assumes "preflight_passes (opt C) (image s)"
  obtains s1 where "run C s = session_body C s1" and "trc s1 = trc s" and "image s1 = padded_image (image s)"
    and "res s1 = fresh_results (rocs C)" and "envr s1 = envr s"
proof -
  let ?s = "s\<lparr>res := fresh_results (rocs C)\<rparr>"
  note out = preflight_outcome [of C ?s]
  show thesis
    by (rule that [of "snd (preflight C ?s)"]) (use out assms in \<open>simp_all add: run_prefix seqE_def bindE_cases\<close>)
qed

subsection \<open>The footprint\<close>

lemma ceil_mult_less: "0 < d \<Longrightarrow> k < (n + d - 1) div d \<Longrightarrow> k * d < (n :: nat)"
proof -
  assume d: "0 < d" and k: "k < (n + d - 1) div d"
  have "Suc k * d \<le> (n + d - 1) div d * d"
    using k by (intro mult_le_mono1) simp
  also have "\<dots> \<le> n + d - 1" by simp
  finally show ?thesis using d by simp
qed

lemma piece_starts_less: "k \<in> set (piece_starts n step) \<Longrightarrow> k < n"
proof -
  assume "k \<in> set (piece_starts n step)"
  then have "k \<in> (\<lambda>k. step * k) ` {..<(n + step - 1) div step}"
    unfolding piece_starts_def by (simp add: atLeast0LessThan)
  then obtain j where j: "k = step * j" "j < (n + step - 1) div step"
    unfolding image_iff lessThan_iff by blast
  then have "0 < step" by (cases step) auto
  then show "k < n" using ceil_mult_less [OF _ j(2)] j(1) by (simp add: mult.commute)
qed

lemma paddedBytes_ge: "n \<le> paddedBytes n"
proof -
  let ?d = "segmentBytes"
  have d: "0 < ?d" by (simp add: segmentBytes_def)
  have "n + ?d - 1 < ?d + ?d * ((n + ?d - 1) div ?d)"
    using d by (rule dividend_less_times_div)
  then have "n \<le> ?d * ((n + ?d - 1) div ?d)" using d by linarith
  then show ?thesis by (simp add: paddedBytes_def mult.commute)
qed

lemma segment_in_padded:
  assumes "k * segmentBytes < n"
  shows "k * segmentBytes + segmentBytes \<le> paddedBytes n"
proof -
  have "k * segmentBytes < paddedBytes n"
    using assms paddedBytes_ge [of n] by (rule less_le_trans)
  then have "k < (n + segmentBytes - 1) div segmentBytes"
    unfolding paddedBytes_def by simp
  then have "Suc k * segmentBytes \<le> (n + segmentBytes - 1) div segmentBytes * segmentBytes"
    by (intro mult_le_mono1) simp
  then show ?thesis by (simp add: paddedBytes_def)
qed

lemma unat_add_small:
  "unat (a :: u32) + unat b < 2 ^ 32 \<Longrightarrow> unat (a + b) = unat a + unat b"
  by (simp add: unat_word_ariths)

lemma unat_of_nat_small: "n < 2 ^ 32 \<Longrightarrow> unat (word_of_nat n :: u32) = n"
  by (simp add: unat_of_nat take_bit_nat_eq_self)

text \<open>The addresses of a segment do not wrap.\<close>

lemma segment_address:
  assumes "footprintEnd p n \<le> 2 ^ 32" and "k * segmentBytes < n"
  shows "unat (word_of_nat (k * segmentBytes) :: u32) = k * segmentBytes"
    and "unat (startAddress p + word_of_nat (k * segmentBytes)) = unat (startAddress p) + k * segmentBytes"
    and "unat (startAddress p) + k * segmentBytes + 2 * segmentBytes \<le> footprintEnd p n"
proof -
  have le: "unat (startAddress p) + k * segmentBytes + 2 * segmentBytes \<le> footprintEnd p n"
    using segment_in_padded [OF assms(2)] by (simp add: footprintEnd_def)
  then show "unat (startAddress p) + k * segmentBytes + 2 * segmentBytes \<le> footprintEnd p n" .
  have pos: "0 < segmentBytes" by (simp add: segmentBytes_def)
  show u: "unat (word_of_nat (k * segmentBytes) :: u32) = k * segmentBytes"
    using le assms(1) pos by (intro unat_of_nat_small) linarith
  show "unat (startAddress p + word_of_nat (k * segmentBytes)) = unat (startAddress p) + k * segmentBytes"
    using le assms(1) pos u by (subst unat_add_small) linarith+
qed

lemma record_address:
  assumes fp: "footprintEnd p n \<le> 2 ^ 32" and k: "k * segmentBytes < n"
    and len: "len = (word_of_nat (min segmentBytes (n - unat (word_of_nat (k * segmentBytes) :: u32))) :: u32)"
    and j: "j \<in> set (piece_starts (unat len) 1024)"
  shows "unat (startAddress p) \<le> unat (startAddress p + word_of_nat (k * segmentBytes) + word_of_nat j)
    \<and> unat (startAddress p + word_of_nat (k * segmentBytes) + word_of_nat j)
      + 2 * unat (min 1024 (len - word_of_nat j) div 2) \<le> footprintEnd p n"
proof -
  note a = segment_address [OF fp k]
  have pos: "segmentBytes = 65536" by (simp add: segmentBytes_def)
  have ulen: "unat len = min segmentBytes (n - k * segmentBytes)"
    unfolding len a(1) by (rule unat_of_nat_small) (simp add: pos)
  then have le: "unat len \<le> 65536" by (simp add: pos)
  have jl: "j < unat len" using j by (rule piece_starts_less)
  then have uj: "unat (word_of_nat j :: u32) = j"
    using le by (intro unat_of_nat_small) simp
  have uadd: "unat (startAddress p + word_of_nat (k * segmentBytes) + word_of_nat j)
      = unat (startAddress p) + k * segmentBytes + j"
    using a(2,3) fp uj jl le pos by (subst unat_add_small) linarith+
  have "unat (len - word_of_nat j) = unat len - j"
    using jl uj by (simp add: unat_sub word_le_nat_alt)
  moreover have "unat (min 1024 (len - word_of_nat j) div 2) \<le> unat (len - word_of_nat j) div 2"
    by (auto simp: min_def unat_div word_le_nat_alt intro: div_le_mono)
  ultimately have "2 * unat (min 1024 (len - word_of_nat j) div 2) \<le> unat len - j" by linarith
  then show ?thesis using uadd a(3) jl le pos by linarith
qed

lemma keeps_session_body:
  assumes "preflight_passes (opt C) im0"
  shows "keeps (sent_ok (may_send C (padded_image im0)) (padded_image im0)) (session_body C)"
proof -
  let ?im = "padded_image im0"
  have fp: "footprintEnd (opt C) (length ?im) \<le> 2 ^ 32"
    using assms by (simp add: preflight_passes_def)
  have pos: "segmentBytes = 65536" by (simp add: segmentBytes_def)
  have "keeps (sent_ok (may_send C ?im) ?im) (upload C)"
  proof (rule sent.keeps_upload [where sz = "length ?im"])
    fix r k and n :: u32 and x
    assume "writeImage (opt C)" "k * segmentBytes < length ?im" "n = 0x10000 \<or> n = 1"
    then show "may_send C ?im r (cmd ACT_ERASE (startAddress (opt C) + word_of_nat (k * segmentBytes)) n @ x)"
      using segment_address [OF fp, of k]
      by (auto simp: may_send_def flash_range_cmd iap_address_cmd action_defs pos)
  next
    fix r k and len :: u32 and j x
    assume "writeImage (opt C)" "k * segmentBytes < length ?im"
      "len = word_of_nat (min segmentBytes (length ?im - unat (word_of_nat (k * segmentBytes) :: u32)))"
      "j \<in> set (piece_starts (unat len) 1024)"
    then show "may_send C ?im r (cmd ACT_WRITE (startAddress (opt C) + word_of_nat (k * segmentBytes)
        + word_of_nat j) (min 1024 (len - word_of_nat j) div 2) @ x)"
      using record_address [OF fp, of k len j]
      by (simp add: may_send_def flash_range_cmd iap_address_cmd action_defs)
  qed (simp add: sent_ok_def)
  moreover have "keeps (sent_ok (may_send C ?im) ?im) (activate C)" if "program (opt C)"
    using that iap_address_cmd [of ACT_PROG_ADDR _ _ "[]"] flash_range_cmd [of ACT_PROG_ADDR _ _ "[]"]
    by (intro sent.keeps_activate) (auto simp: may_send_def action_defs)
  ultimately show ?thesis
    unfolding session_body_def by (intro inv_intros sent.keeps_probeAll)
qed

lemma run_sent_ok:
  assumes "trc s = []"
  shows "list_all (event_ok (\<lambda>r c. preflight_passes (opt C) (image s) \<and> may_send C (padded_image (image s)) r c))
           (trc (snd (run C s)))"
proof (cases "preflight_passes (opt C) (image s)")
  case True
  then obtain s1 where s1: "run C s = session_body C s1" "trc s1 = trc s" "image s1 = padded_image (image s)"
    by (rule run_accepted)
  then have "sent_ok (may_send C (padded_image (image s))) (padded_image (image s)) s1"
    using assms by (simp add: sent_ok_def)
  then have "sent_ok (may_send C (padded_image (image s))) (padded_image (image s)) (snd (session_body C s1))"
    by (rule keepsD [OF keeps_session_body [OF True]])
  then show ?thesis using True s1(1) by (simp add: sent_ok_def)
next
  case False
  then obtain m s' where "run C s = (Throw m, s')" "trc s' = trc s"
    by (rule run_rejected)
  then show ?thesis using assms by simp
qed

end
