(* ===== verification/Flash_Lock.thy ===== *)
theory Flash_Lock
  imports Flash_Safety
begin

section \<open>The discipline of the DCS lock\<close>

text \<open>
  The DTC's register path is shared with every other DCS client of the front end, so each access
  of a MiV's command FIFO must sit in one locked section together with the check that permits it.
  \<open>dcs_step\<close> is the specification as an automaton over the calls of the port; \<open>dcs_after\<close> runs it
  over a history. The automaton has no transition for: a write or a block read outside the lock,
  a command sent without an idle MiV and an empty reply FIFO read before in the same section, a
  block read of another size than the announced one, taking the lock twice, and sleeping or
  resetting a link while holding it.
\<close>

datatype dcs = Unlocked | Locked "roc option" "(roc \<times> nat) option"

fun dcs_step :: "dcs \<Rightarrow> io_event \<Rightarrow> dcs option" where
  "dcs_step Unlocked (RdReg r a x) = Some Unlocked"
| "dcs_step Unlocked (Slept ms) = Some Unlocked"
| "dcs_step Unlocked (Resync r) = Some Unlocked"
| "dcs_step Unlocked DcsLock = Some (Locked None None)"
| "dcs_step (Locked i c) DcsUnlock = Some Unlocked"
| "dcs_step (Locked i c) (RdReg r a (Inl m)) = Some (Locked i c)"
| "dcs_step (Locked i c) (RdReg r a (Inr v)) =
     Some (if a = REG_DONE then Locked (if idle_done v then Some r else None) c
           else if a = REG_COUNT then Locked i (Some (r, reply_count v))
           else Locked i c)"
| "dcs_step (Locked i c) (WrBlk r w a x) =
     (if a = REG_COMMAND \<and> i = Some r \<and> c = Some (r, 0) then Some (Locked None None) else None)"
| "dcs_step (Locked i c) (RdBlk r a n x) =
     (if a = REG_COMMAND \<and> c = Some (r, unat n + 4) then Some (Locked i None) else None)"
| "dcs_step d e = None"

fun dcs_after :: "io_event list \<Rightarrow> dcs option" where
  "dcs_after [] = Some Unlocked"
| "dcs_after (e # es) = (case dcs_after es of None \<Rightarrow> None | Some d \<Rightarrow> dcs_step d e)"

lemma reply_count_less: "reply_count w < 2048"
proof -
  have "w AND 0x7ff = take_bit 11 w"
    by (simp add: take_bit_eq_mask mask_eq_exp_minus_1)
  then have "reply_count w = take_bit 11 (unat w)"
    by (simp add: reply_count_def unsigned_take_bit_eq)
  then show ?thesis using take_bit_nat_less_exp [of 11 "unat w"] by simp
qed

lemma unat_reply_size: "reply_count w = n + 4 \<Longrightarrow> unat (word_of_nat n :: u16) = n"
  using reply_count_less [of w] by (simp add: unat_of_nat take_bit_nat_eq_self)

lemma unat_drain_size:
  assumes "4 \<le> reply_count w"
  shows "unat (word_of_nat (reply_count w) - 4 :: u16) + 4 = reply_count w"
proof -
  have "word_of_nat (reply_count w) - 4 = (word_of_nat (reply_count w - 4) :: u16)"
    using assms by simp
  moreover have "unat (word_of_nat (reply_count w - 4) :: u16) = reply_count w - 4"
    using assms by (intro unat_reply_size) simp
  ultimately show ?thesis using assms by (simp only: le_add_diff_inverse2)
qed

definition lock_free :: "u8 list \<Rightarrow> 'e session \<Rightarrow> bool" where
  "lock_free im s \<longleftrightarrow> image s = im \<and> dcs_after (trc s) = Some Unlocked"

lemma reg_distinct: "REG_COUNT \<noteq> REG_DONE" "REG_DONE \<noteq> REG_COUNT"
  by (simp_all add: REG_COUNT_def REG_DONE_def)

interpretation lock: session_invariant C "lock_free im" "\<lambda>_ _. True"
proof unfold_locales
  show "keeps (lock_free im) (drain_locked C r)" for r
    by (auto simp: keeps_def lock_free_def locked_simps Let_def unat_drain_size reg_distinct
        split: prod.splits sum.splits outcome.splits)
  show "keeps (lock_free im) (send_locked C r c)" for r c
    by (auto simp: keeps_def lock_free_def locked_simps Let_def reg_distinct
        split: prod.splits sum.splits outcome.splits)
  show "keeps (lock_free im) (reply_locked C r n)" for r n
    by (auto simp: keeps_def lock_free_def locked_simps Let_def reg_distinct unat_reply_size
        split: prod.splits sum.splits outcome.splits)
qed (auto simp: keeps_def lock_free_def sleepMs_def noteRoc_def setResult_def noteLog_def seqE_def bindE_def
      readRegister_def resyncLink_def port_call_def modify_def
      split: prod.splits)

lemma keeps_lock_body: "keeps (lock_free im) (session_body C)"
  unfolding session_body_def
  by (intro inv_intros lock.keeps_probeAll lock.keeps_upload [where sz = "length im"] lock.keeps_activate)
     (auto simp: lock_free_def)

text \<open>
  C16. The lock discipline of a whole session: for every environment (every behaviour of the ROCs,
  the link and the clock, exceptions included), every image and every set of options, the calls
  \<open>run\<close> makes are accepted by the automaton and end with the lock released, whatever the outcome.
  In particular each command is written to an idle MiV with an empty reply FIFO, checked in the
  same locked section, and each reply is read with the announced number of words.
\<close>
theorem run_lock_discipline: "dcs_after (trc (snd (run C (new_session e im)))) = Some Unlocked"
proof (cases "preflight_passes (opt C) im")
  case True
  then obtain s1 where s1: "run C (new_session e im) = session_body C s1" "trc s1 = []"
    using run_accepted [of C "new_session e im"] by (auto simp: new_session_def)
  then have "lock_free (image s1) (snd (session_body C s1))"
    by (intro keepsD [OF keeps_lock_body]) (simp add: lock_free_def)
  then show ?thesis using s1(1) by (simp add: lock_free_def)
next
  case False
  then have "\<not> preflight_passes (opt C) (image (new_session e im))" by (simp add: new_session_def)
  then obtain m s' where "run C (new_session e im) = (Throw m, s')" "trc s' = trc (new_session e im)"
    by (rule run_rejected)
  then show ?thesis by (simp add: new_session_def)
qed

text \<open>
  C1. Nothing but the accepted footprint of the flash is touched: whatever the ROCs answer, every
  block write of a session goes to the command FIFO, and only after the image passed every check of
  the preflight; an erase or a write needs \<^verbatim>\<open>writeImage\<close> and changes only bytes from the start
  address (at or above \<^verbatim>\<open>protectedBelow\<close>) to the end of the footprint the preflight compared with
  the flash capacity, the doubled erase of an older MiV included; an IAP needs \<^verbatim>\<open>program\<close> and
  names the start address.
\<close>
theorem run_footprint:
  "list_all (event_ok (\<lambda>r c. preflight_passes (opt C) im \<and> may_send C (padded_image im) r c))
     (trc (snd (run C (new_session e im))))"
  using run_sent_ok [of "new_session e im" C] by (simp add: new_session_def)

end
