(* ===== verification/Flash_Confirm.thy ===== *)
theory Flash_Confirm
  imports Flash_Lock
begin

section \<open>What a verified ROC has confirmed\<close>

text \<open>
  The purpose of a session: a ROC with tags and CRC that the session reports as verified or
  programmed has itself computed the CRC of the whole written area and answered with the CRC of the
  file. The history shows it: the command with the whole image's range and a tag, and after it the
  reply with that tag, no error, and the file's CRC.
\<close>

subsection \<open>Facts that later calls keep\<close>

definition precedes :: "io_event \<Rightarrow> io_event \<Rightarrow> io_event list \<Rightarrow> bool" where
  "precedes w e tr \<longleftrightarrow> (\<exists>xs ys. tr = xs @ e # ys \<and> w \<in> set ys)"

lemma precedes_Cons: "precedes w e tr \<Longrightarrow> precedes w e (x # tr)"
  unfolding precedes_def by (metis append_Cons)

lemma precedes_head: "w \<in> set tr \<Longrightarrow> precedes w e (e # tr)"
  unfolding precedes_def by (metis append_Nil)

lemma precedes_append: "precedes w e tr \<Longrightarrow> precedes w e (xs @ tr)"
  by (induction xs) (simp_all add: precedes_Cons)

text \<open>\<open>J\<close> held of the history of an earlier moment.\<close>

definition once :: "(io_event list \<Rightarrow> bool) \<Rightarrow> 'e session \<Rightarrow> bool" where
  "once J s \<longleftrightarrow> (\<exists>xs ys. trc s = xs @ ys \<and> J ys)"

lemma once_now: "J (trc s) \<Longrightarrow> once J s"
  unfolding once_def by (metis append_Nil)

lemma once_later: "once J s \<Longrightarrow> trc s' = x # trc s \<Longrightarrow> once J s'"
  unfolding once_def by (metis append_Cons)

lemma once_step:
  assumes "once J s" and "\<exists>xs. trc s' = xs @ trc s"
  shows "once J s'"
  using assms unfolding once_def by (metis append_assoc)

lemma port_call_trc: "trc (snd (port_call f ev s)) = ev (fst (f (envr s))) # trc s"
  by (simp add: port_call_def split: prod.splits)

lemma trc_bindE:
  assumes "\<And>s. \<exists>xs. trc (snd (m s)) = xs @ trc s" and "\<And>a s. \<exists>xs. trc (snd (k a s)) = xs @ trc s"
  shows "\<exists>xs. trc (snd (bindE m k s)) = xs @ trc s"
proof (cases "fst (m s)")
  case (Ret a)
  then show ?thesis using assms(1) [of s] assms(2) [of a "snd (m s)"] by (auto simp: bindE_cases)
qed (use assms(1) [of s] in \<open>simp_all add: bindE_cases\<close>)

lemma trc_held: "(\<And>s. \<exists>xs. trc (snd (m s)) = xs @ trc s) \<Longrightarrow> \<exists>xs. trc (snd (held C m s)) = xs @ trc s"
proof -
  assume m: "\<And>s. \<exists>xs. trc (snd (m s)) = xs @ trc s"
  obtain xs where "trc (snd (m (lock_on C s))) = xs @ trc (lock_on C s)" using m by blast
  then show ?thesis
    by (auto simp: held_def scopedE_def lock_off_def lock_on_def split: prod.splits)
qed

lemma trc_call: "\<exists>xs. trc (snd (port_call f ev s)) = xs @ trc s"
  by (simp add: port_call_trc)

lemma trc_ret: "\<exists>xs. trc (snd (ret a s)) = xs @ trc s"
  by (simp add: ret_def)

lemmas trc_intros = trc_held trc_bindE trc_call trc_ret

lemma trc_locked:
  "\<exists>xs. trc (snd (drain_locked C r s)) = xs @ trc s"
  "\<exists>xs. trc (snd (send_locked C r c s)) = xs @ trc s"
  "\<exists>xs. trc (snd (reply_locked C r n s)) = xs @ trc s"
  unfolding drain_locked_def send_locked_def reply_locked_def readRegister_def readBlock_def writeBlock_def
    Let_def seqE_def
  by (intro trc_intros; simp add: trc_call trc_ret trc_bindE)+

lemma keeps_once: "(\<And>s. \<exists>xs. trc (snd (m s)) = xs @ trc s) \<Longrightarrow> keeps (once J) m"
  by (rule keepsI) (rule once_step)

interpretation past: session_invariant C "once J" "\<lambda>_ _. True"
proof unfold_locales
  fix s :: "'a session" and t m ls y v
  show "once J (s\<lparr>cur_tag := t\<rparr>) = once J s" "once J (s\<lparr>res := m\<rparr>) = once J s"
    "once J (s\<lparr>out := ls\<rparr>) = once J s" "once J (s\<lparr>percent := y\<rparr>) = once J s"
    "once J (s\<lparr>verBefore := v\<rparr>) = once J s"
    by (simp_all add: once_def)
qed (auto intro!: keeps_once trc_locked simp: readRegister_def resyncLink_def port_call_trc sleepMs_def modify_def
      noteRoc_def setResult_def noteLog_def seqE_def bindE_def)

subsection \<open>Commands sent and replies received\<close>

lemma send_locked_sent:
  "post P (send_locked C r c) (\<lambda>x s. x = Inr True \<longrightarrow> WrBlk r c REG_COMMAND (Inr ()) \<in> set (trc s))"
  by (rule postI) (auto simp: locked_simps port_call_def Let_def split: prod.splits sum.splits outcome.splits if_splits)

lemma send_locked_result: "post P (send_locked C r c) (\<lambda>x s. x = Inr True \<or> x = Inl ())"
  by (rule postI) (auto simp: locked_simps port_call_def Let_def split: prod.splits sum.splits outcome.splits if_splits)

lemma sendWhenIdle_sent:
  "post (\<lambda>_. True) (sendWhenIdle C r c t) (\<lambda>ok s. ok \<longrightarrow> WrBlk r c REG_COMMAND (Inr ()) \<in> set (trc s))"
  unfolding sendWhenIdle_def sendWhenIdle_round_def Let_def
  apply (rule post_bindE [where R = "\<lambda>_ _. True"])
   apply (simp add: post_def)
  apply (rule post_loopE)
  apply (rule post_bindE [where R = "\<lambda>_ _. True"])
   apply (simp add: post_def)
  apply (rule post_if)
   apply (rule post_ret, simp)
  apply (rule post_bindE [where R = "\<lambda>_ _. True"])
   apply (simp add: post_def)
  apply (rule post_if)
   apply (rule post_ret, simp)
  apply (rule post_weaken [OF send_locked_sent])
  by (auto split: sum.splits)

lemma reply_locked_reply:
  "post (\<lambda>s. w \<in> set (trc s)) (reply_locked C r n) (\<lambda>x s. \<forall>rep. x = Some rep \<longrightarrow>
     precedes w (RdBlk r REG_COMMAND (word_of_nat n) (Inr rep)) (trc s))"
  by (rule postI) (auto simp: locked_simps port_call_def Let_def precedes_head precedes_Cons
      split: prod.splits sum.splits outcome.splits if_splits)

lemma readReply_reply:
  "post (\<lambda>s. once (\<lambda>tr. w \<in> set tr) s) (readReply C r n) (\<lambda>x s. \<forall>rep. x = Some rep \<longrightarrow>
     precedes w (RdBlk r REG_COMMAND (word_of_nat n) (Inr rep)) (trc s))"
  unfolding readReply_def
  apply (rule post_tryE)
    apply (rule post_weaken [OF reply_locked_reply], auto simp: once_def)[1]
   apply (rule past.keeps_reply)
  apply (rule post_seqE [OF post_keeps [OF past.keeps_noteRoc]])
  by (rule post_ret) simp

lemma collectTagged_reply:
  "post (\<lambda>s. once (\<lambda>tr. w \<in> set tr) s) (collectTagged C r tag n t) (\<lambda>(rp, _) s. rp \<noteq> [] \<longrightarrow>
     length rp = n \<and> rp ! 0 = tag \<and> precedes w (RdBlk r REG_COMMAND (word_of_nat n) (Inr rp)) (trc s))"
  unfolding collectTagged_def
  apply (rule post_bindE [OF post_keeps [OF past.keeps_now]])
  apply (rule post_bindE [OF post_keeps])
   apply (unfold collectTagged_round_def)[1]
   apply (intro inv_intros past.primitive past.keeps_no_reply)
  apply (rule post_case_option)
   apply (rule post_bindE [OF readReply_reply])
  by (auto simp: post_def at_def ret_def undefined_behaviour_def bindE_def
      split: option.splits if_splits prod.splits outcome.splits)

lemma crc_verdict_ok:
  assumes "crc_verdict rp why want s = (Ret [], s')" and "length rp = 4"
  shows "rp = [rp ! 0, rp ! 1, rp ! 2, 0] \<and> word32 (rp ! 1) (rp ! 2) = want \<and> s' = s"
proof -
  obtain a b c d where "rp = [a, b, c, d]"
    using assms(2) by (auto simp: numeral_eq_Suc length_Suc_conv)
  then show ?thesis using assms(1)
    by (auto simp: crc_verdict_def at_def ret_def bindE_def Let_def word32_def split: if_splits)
qed

lemma crc_verdict_quiet: "crc_verdict rp why want s = (Ret v, s') \<Longrightarrow> s' = s"
  by (auto simp: crc_verdict_def at_def ret_def bindE_def Let_def undefined_behaviour_def split: if_splits)

lemma crc_verdict_no_reply: "crc_verdict rp why want s = (Ret [], s') \<Longrightarrow> rp \<noteq> []"
  by (auto simp: crc_verdict_def ret_def)

subsection \<open>The parallel CRC\<close>

definition crc_request :: "u32 \<Rightarrow> u32 \<Rightarrow> roc \<Rightarrow> u16 \<Rightarrow> io_event" where
  "crc_request addr len r tag = WrBlk r (cmd ACT_CRC addr len @ [tag]) REG_COMMAND (Inr ())"

definition confirmed :: "u32 \<Rightarrow> u32 \<Rightarrow> u32 \<Rightarrow> roc \<Rightarrow> io_event list \<Rightarrow> bool" where
  "confirmed addr len want r tr \<longleftrightarrow> (\<exists>tag lo hi. word32 lo hi = want \<and>
     precedes (crc_request addr len r tag) (RdBlk r REG_COMMAND 4 (Inr [tag, lo, hi, 0])) tr)"

text \<open>Each ROC of \<open>R\<close> is still to be asked (\<open>X\<close>), has been asked (\<open>tags\<close>), has a problem noted, or has
  confirmed the CRC.\<close>

definition crc_progress ::
  "u32 \<Rightarrow> u32 \<Rightarrow> u32 \<Rightarrow> roc set \<Rightarrow> roc set \<Rightarrow> (roc, u16) omap \<Rightarrow> (roc, string) omap \<Rightarrow> io_event list \<Rightarrow> bool" where
  "crc_progress addr len want R X tags verdict tr \<longleftrightarrow>
     (\<forall>x \<in> R. x \<in> X \<or> x \<in> fst ` set tags \<or> om_at [] verdict x \<noteq> [] \<or> confirmed addr len want x tr)
   \<and> (\<forall>x tag. (x, tag) \<in> set tags \<longrightarrow> crc_request addr len x tag \<in> set tr)"

lemma confirmed_later: "confirmed addr len want r tr \<Longrightarrow> confirmed addr len want r (xs @ tr)"
  unfolding confirmed_def by (blast intro: precedes_append)

lemma once_confirmed: "once (confirmed addr len want r) s \<longleftrightarrow> confirmed addr len want r (trc s)"
  by (auto simp: once_def intro: confirmed_later exI [of _ "[]"])

lemma once_progress:
  "once (crc_progress addr len want R X tags verdict) s \<longleftrightarrow> crc_progress addr len want R X tags verdict (trc s)"
proof
  assume "once (crc_progress addr len want R X tags verdict) s"
  then show "crc_progress addr len want R X tags verdict (trc s)"
    by (force simp: once_def crc_progress_def intro: confirmed_later)
qed (rule once_now)

lemma keeps_progress:
  "(\<And>J. keeps (once J) m) \<Longrightarrow> keeps (\<lambda>s. crc_progress addr len want R X tags verdict (trc s)) m"
  unfolding once_progress [symmetric] by blast

lemma keeps_in_trace: "(\<And>J. keeps (once J) m) \<Longrightarrow> post (\<lambda>s. w \<in> set (trc s)) m (\<lambda>_ s. w \<in> set (trc s))"
proof (rule postI)
  fix s a s' assume k: "\<And>J. keeps (once J) m" and w: "w \<in> set (trc s)" and m: "m s = (Ret a, s')"
  have "once (\<lambda>tr. w \<in> set tr) (snd (m s))"
    by (rule keepsD [OF k]) (rule once_now [where J = "\<lambda>tr. w \<in> set tr", OF w])
  then show "w \<in> set (trc s')" using m by (auto simp: once_def)
qed

lemma past_collectTagged: "keeps (once J) (collectTagged C r tag n t)"
  by (rule past.keeps_collectTagged)

lemma crc_collect_progress:
  "post (\<lambda>s. crc_progress addr len want R {} ((r, tag) # ts) verdict (trc s))
     (crc_collect C want ms (r, tag) (again, verdict))
     (\<lambda>(_, verdict') s. crc_progress addr len want R {} ts verdict' (trc s))"
proof -
  let ?P = "\<lambda>s. crc_progress addr len want R {} ((r, tag) # ts) verdict (trc s)"
  let ?Q = "\<lambda>v s. crc_progress addr len want R {} ts v (trc s)"
  have collect: "post ?P (collectTagged C r tag 4 ms) (\<lambda>(rp, _) s. ?P s \<and> (rp \<noteq> [] \<longrightarrow>
      length rp = 4 \<and> rp ! 0 = tag \<and> precedes (crc_request addr len r tag) (RdBlk r REG_COMMAND 4 (Inr rp)) (trc s)))"
  proof (rule postI)
    fix s a s' assume P: "?P s" and run: "collectTagged C r tag 4 ms s = (Ret a, s')"
    have "once (\<lambda>tr. crc_request addr len r tag \<in> set tr) s"
      using P by (intro once_now) (simp add: crc_progress_def)
    moreover have "?P s'"
      using keepsD [OF keeps_progress [OF past_collectTagged [of _ C r tag 4 ms]] P] run by simp
    ultimately show "(case a of (rp, _) \<Rightarrow> \<lambda>s. ?P s \<and> (rp \<noteq> [] \<longrightarrow> length rp = 4 \<and> rp ! 0 = tag \<and>
        precedes (crc_request addr len r tag) (RdBlk r REG_COMMAND 4 (Inr rp)) (trc s))) s'"
      using postD [OF collectTagged_reply _ run] by (cases a) simp
  qed
  have judge: "post ?P (bindE (collectTagged C r tag 4 ms) (\<lambda>(rp, why).
      bindE (crc_verdict rp why want) (\<lambda>v. ret (om_put r v verdict)))) ?Q"
  proof (rule post_bindE [OF collect])
    fix a :: "u16 list \<times> string"
    obtain rp why where a: "a = (rp, why)" by (cases a)
    show "post ((\<lambda>(rp, _) s. ?P s \<and> (rp \<noteq> [] \<longrightarrow> length rp = 4 \<and> rp ! 0 = tag \<and>
        precedes (crc_request addr len r tag) (RdBlk r REG_COMMAND 4 (Inr rp)) (trc s))) a)
      (case a of (rp, why) \<Rightarrow> bindE (crc_verdict rp why want) (\<lambda>v. ret (om_put r v verdict))) ?Q"
      unfolding a prod.case
    proof (rule postI)
      fix s v s'
      assume "?P s \<and> (rp \<noteq> [] \<longrightarrow> length rp = 4 \<and> rp ! 0 = tag \<and>
          precedes (crc_request addr len r tag) (RdBlk r REG_COMMAND 4 (Inr rp)) (trc s))"
        and "bindE (crc_verdict rp why want) (\<lambda>v. ret (om_put r v verdict)) s = (Ret v, s')"
      then obtain u where P: "?P s" and rep: "rp \<noteq> [] \<longrightarrow> length rp = 4 \<and> rp ! 0 = tag \<and>
          precedes (crc_request addr len r tag) (RdBlk r REG_COMMAND 4 (Inr rp)) (trc s)"
        and u: "crc_verdict rp why want s = (Ret u, s')" "v = om_put r u verdict"
        by (auto simp: bindE_Ret ret_def)
      have "u = [] \<Longrightarrow> confirmed addr len want r (trc s)"
        using crc_verdict_no_reply [of rp why want s s'] u rep crc_verdict_ok [of rp why want s s'] unfolding confirmed_def by metis
      then show "?Q v s'"
        using P u crc_verdict_quiet [OF u(1)] by (auto simp: crc_progress_def)
    qed
  qed
  have "post ?P (tryE (bindE (collectTagged C r tag 4 ms) (\<lambda>(rp, why).
      bindE (crc_verdict rp why want) (\<lambda>v. ret (om_put r v verdict))))
      (\<lambda>e. ret (om_put r (''CRC: '' @ e) verdict))) ?Q"
  proof (rule post_tryE [OF judge])
    show "keeps ?P (bindE (collectTagged C r tag 4 ms) (\<lambda>(rp, why).
        bindE (crc_verdict rp why want) (\<lambda>v. ret (om_put r v verdict))))"
      by (intro keeps_progress inv_intros past_collectTagged past.keeps_crc_verdict)
    show "post ?P (ret (om_put r (''CRC: '' @ e) verdict)) ?Q" for e
      by (rule post_ret) (auto simp: crc_progress_def split: if_splits)
  qed
  then show ?thesis
    unfolding crc_collect_def prod.case
    by (rule post_bindE) (auto intro: post_ret)
qed

lemma crc_send_progress:
  "post (\<lambda>s. crc_progress addr len want R (set (r # rs)) tags verdict (trc s))
     (crc_send C addr len r (tags, again, verdict))
     (\<lambda>(tags', _, verdict') s. crc_progress addr len want R (set rs) tags' verdict' (trc s))"
proof -
  let ?P = "\<lambda>s. crc_progress addr len want R (set (r # rs)) tags verdict (trc s)"
  let ?Q = "\<lambda>(tags', _, verdict') s. crc_progress addr len want R (set rs) tags' verdict' (trc s)"
  have noted: "post ?P (ret (tags, again @ [r], om_put r (CHR ''C'' # e) verdict)) ?Q" for e
    by (rule post_ret) (auto simp: crc_progress_def split: if_splits)
  have keep: "keeps ?P (sendTagged C r (cmd ACT_CRC addr len) tag)" for tag
    by (intro keeps_progress past.keeps_sendTagged) simp
  have sent: "post ?P (sendTagged C r (cmd ACT_CRC addr len) tag)
      (\<lambda>ok s. ?P s \<and> (ok \<longrightarrow> crc_request addr len r tag \<in> set (trc s)))" for tag
  proof (rule postI)
    fix s ok s' assume "?P s" and run: "sendTagged C r (cmd ACT_CRC addr len) tag s = (Ret ok, s')"
    then show "?P s' \<and> (ok \<longrightarrow> crc_request addr len r tag \<in> set (trc s'))"
      using keepsD [OF keep [of tag], of s] postD [OF sendWhenIdle_sent TrueI run [unfolded sendTagged_def]]
      by (simp add: crc_request_def)
  qed
  have ask: "post ?P (bindE nextTag (\<lambda>tag. bindE (sendTagged C r (cmd ACT_CRC addr len) tag) (\<lambda>sent.
      if sent then ret (om_put r tag tags, again, verdict)
      else ret (tags, again @ [r], om_put r ''CRC: MiV not idle'' verdict)))) ?Q"
  proof (rule post_bindE [OF post_keeps [OF keeps_progress [OF past.keeps_nextTag]]],
      rule post_bindE [OF sent], rule post_if)
    show "post (\<lambda>s. ?P s \<and> (ok \<longrightarrow> crc_request addr len r tag \<in> set (trc s)))
        (ret (om_put r tag tags, again, verdict)) ?Q" if ok for tag ok
      using that by (intro post_ret)
        (auto simp: crc_progress_def keys_om_put dest!: om_put_entries)
    show "post (\<lambda>s. ?P s \<and> (ok \<longrightarrow> crc_request addr len r tag \<in> set (trc s)))
        (ret (tags, again @ [r], om_put r ''CRC: MiV not idle'' verdict)) ?Q" for ok tag
      by (rule post_weaken [OF noted]) simp_all
  qed
  show ?thesis
    unfolding crc_send_def prod.case
    apply (rule post_tryE [OF ask])
     apply (intro keeps_progress inv_intros past.keeps_nextTag past.keeps_sendTagged)
     apply simp
    using noted by simp
qed

text \<open>After a round each ROC has confirmed the CRC or has a problem noted.\<close>

lemma crc_round_progress:
  "post (\<lambda>s. crc_progress addr len want R (set todo) [] verdict (trc s))
     (crc_round C addr len want ms (todo, verdict))
     (\<lambda>(_, verdict') s. crc_progress addr len want R {} [] verdict' (trc s))"
proof -
  have send: "post (\<lambda>s. crc_progress addr len want R (set todo) (fst acc) (snd (snd acc)) (trc s))
      (foldE (crc_send C addr len) todo acc)
      (\<lambda>acc s. crc_progress addr len want R {} (fst acc) (snd (snd acc)) (trc s))" for acc
    using crc_send_progress [of addr len want R _ _ _ _ C]
    by (intro post_foldE [where P = "\<lambda>rs acc s. crc_progress addr len want R (set rs) (fst acc) (snd (snd acc)) (trc s)",
        simplified]) (simp add: case_prod_unfold split_paired_all)
  have collect: "post (\<lambda>s. crc_progress addr len want R {} ts (snd acc) (trc s))
      (foldE (crc_collect C want ms) ts acc)
      (\<lambda>acc s. crc_progress addr len want R {} [] (snd acc) (trc s))" for ts acc
    using crc_collect_progress [of addr len want R _ _ _ _ C ms]
    by (intro post_foldE [where P = "\<lambda>ts acc s. crc_progress addr len want R {} ts (snd acc) (trc s)"])
       (simp add: case_prod_unfold split_paired_all)
  show ?thesis
    unfolding crc_round_def prod.case
    by (rule post_bindE [OF send [of "([], [], verdict)", simplified]])
       (use collect [of _ "(_, _)"] in \<open>auto simp: case_prod_unfold\<close>)
qed

text \<open>So does the parallel CRC, which makes at least one round.\<close>

lemma crc_rounds_progress:
  "post (\<lambda>s. crc_progress addr len want R {} [] v (trc s))
     (repeatE n c (crc_round C addr len want ms) (todo, v))
     (\<lambda>(_, v) s. crc_progress addr len want R {} [] v (trc s))"
proof (induction n arbitrary: todo v)
  case 0
  then show ?case by (simp add: post_ret)
next
  case (Suc n)
  have round: "post (\<lambda>s. crc_progress addr len want R {} [] v (trc s)) (crc_round C addr len want ms (todo, v))
      (\<lambda>(_, v') s. crc_progress addr len want R {} [] v' (trc s))"
    by (rule post_weaken [OF crc_round_progress]) (auto simp: crc_progress_def)
  show ?case
    unfolding repeatE.simps
    by (rule post_if, rule post_bindE [OF round]) (auto simp: case_prod_unfold intro: Suc [unfolded case_prod_unfold] post_ret)
qed

lemma parallelCrc_confirmed:
  "post (\<lambda>_. True) (parallelCrc C rs addr len want ms 2)
     (\<lambda>v s. \<forall>r \<in> set rs. om_at [] v r \<noteq> [] \<or> confirmed addr len want r (trc s))"
proof -
  let ?R = "set rs"
  let ?Q = "\<lambda>(_ :: roc list, v) s. crc_progress addr len want ?R {} [] v (trc s)"
  have first: "post (\<lambda>_. True) (crc_round C addr len want ms (rs, [])) ?Q"
    by (rule post_weaken [OF crc_round_progress]) (auto simp: crc_progress_def)
  have "post (\<lambda>_. True) (repeatE 2 (\<lambda>(todo, _). todo \<noteq> []) (crc_round C addr len want ms) (rs, [])) ?Q"
    unfolding numeral_2_eq_2 repeatE.simps(2) [of "Suc 0"] prod.case
  proof (rule post_if, rule post_bindE [OF first])
    show "post (?Q a) (repeatE (Suc 0) (\<lambda>(todo, _). todo \<noteq> []) (crc_round C addr len want ms) a) ?Q" for a
      using crc_rounds_progress [of addr len want ?R "snd a" "Suc 0" _ C ms "fst a"]
      by (simp only: case_prod_unfold prod.collapse)
    show "post (\<lambda>_. True) (ret (rs, [])) ?Q" if "\<not> rs \<noteq> []"
      using that by (intro post_ret) (simp add: crc_progress_def)
  qed
  then show ?thesis
    unfolding parallelCrc_def by (rule post_bindE) (auto simp: crc_progress_def intro: post_ret)
qed

subsection \<open>Results that stay\<close>

definition results_are :: "(roc \<Rightarrow> RocState \<times> bool) \<Rightarrow> u8 list \<Rightarrow> 'e session \<Rightarrow> bool" where
  "results_are z im s \<longleftrightarrow> image s = im \<and> (\<forall>r. roc_state (resultOf r s) = fst (z r) \<and> newMiv (resultOf r s) = snd (z r))"

lemma resultOf_trc [simp]: "resultOf r (s\<lparr>envr := e, trc := tr\<rparr>) = resultOf r s"
  by (simp add: resultOf_def)

lemma resultOf_put: "resultOf r (s\<lparr>res := om_put k v m\<rparr>) = (if r = k then v else resultOf r (s\<lparr>res := m\<rparr>))"
  by (simp add: resultOf_def)

lemma noteRoc_result:
  "roc_state (resultOf r (snd (noteRoc C k t s))) = roc_state (resultOf r s)"
  "newMiv (resultOf r (snd (noteRoc C k t s))) = newMiv (resultOf r s)"
  by (simp_all add: noteRoc_def setResult_def noteLog_def seqE_def bindE_def modify_def resultOf_def)

interpretation same: query_invariant C "results_are z im" "\<lambda>_ _. True"
proof unfold_locales
  show "keeps (results_are z im) (noteRoc C r m)" for r m
    by (rule keepsI) (simp add: results_are_def noteRoc_result,
        simp add: noteRoc_def setResult_def noteLog_def seqE_def bindE_def modify_def)
qed (auto simp: keeps_def results_are_def resultOf_def sleepMs_def locked_simps Let_def
      split: prod.splits sum.splits outcome.splits)

subsection \<open>The final CRC\<close>

definition image_confirmed :: "FlashOptions \<Rightarrow> u8 list \<Rightarrow> roc \<Rightarrow> io_event list \<Rightarrow> bool" where
  "image_confirmed p im r tr \<longleftrightarrow> confirmed (startAddress p) (word_of_nat (length im)) (crc32 im 0) r tr"

definition live_confirmed :: "'e flash \<Rightarrow> u8 list \<Rightarrow> 'e session \<Rightarrow> bool" where
  "live_confirmed C im s \<longleftrightarrow> (\<forall>r \<in> set (rocs C).
     roc_state (resultOf r s) \<noteq> Failed \<and> newMiv (resultOf r s) \<longrightarrow> image_confirmed (opt C) im r (trc s))"

lemma alive_value: "alive r s = (Ret a, s') \<Longrightarrow> s' = s \<and> a = (roc_state (resultOf r s) \<noteq> Failed)"
  by (auto simp: alive_def resultOf_def om_at_def split: option.splits)

lemma post_alive: "post P (alive r) (\<lambda>a s. P s \<and> a = (roc_state (resultOf r s) \<noteq> Failed))"
  by (rule postI) (use alive_value in blast)

lemma results_results:
  assumes "results_are z im s"
  shows "roc_state (resultOf r s) = fst (z r)" and "newMiv (resultOf r s) = snd (z r)"
  using assms by (simp_all add: results_are_def)

lemma final_crc_rocs:
  "post (results_are z im)
     (foldE (\<lambda>r acc. bindE (alive r) (\<lambda>a. bindE (gets (\<lambda>s. newMiv (resultOf r s))) (\<lambda>isNew.
        ret (if a \<and> isNew then acc @ [r] else acc)))) rs [])
     (\<lambda>xs s. results_are z im s \<and> (\<forall>r \<in> set rs. fst (z r) \<noteq> Failed \<and> snd (z r) \<longrightarrow> r \<in> set xs))"
proof -
  let ?P = "\<lambda>rest acc s. results_are z im s \<and>
      (\<forall>r \<in> set rs - set rest. fst (z r) \<noteq> Failed \<and> snd (z r) \<longrightarrow> r \<in> set acc)"
  have "post (?P (x # ys) acc) (bindE (alive x) (\<lambda>a. bindE (gets (\<lambda>s. newMiv (resultOf x s))) (\<lambda>isNew.
        ret (if a \<and> isNew then acc @ [x] else acc)))) (?P ys)" for x ys acc
    by (rule post_bindE [OF post_alive], rule post_bindE_gets, rule post_ret) (auto simp: results_results)
  then have "post (?P rs []) (foldE (\<lambda>r acc. bindE (alive r) (\<lambda>a. bindE (gets (\<lambda>s. newMiv (resultOf r s))) (\<lambda>isNew.
        ret (if a \<and> isNew then acc @ [r] else acc)))) rs []) (?P [])"
    by (rule post_foldE)
  then show ?thesis by (rule post_weaken) auto
qed

lemma fail_result:
  "roc_state (resultOf r (snd (fail C k m s))) = (if r = k then Failed else roc_state (resultOf r s))"
  "newMiv (resultOf r (snd (fail C k m s))) = newMiv (resultOf r s)"
  "trc (snd (fail C k m s)) = trc s" "fst (fail C k m s) = Ret ()"
  by (simp_all add: fail_def noteRoc_def setResult_def noteLog_def seqE_def bindE_def modify_def resultOf_def)

lemma final_crc_fails:
  "post (\<lambda>s. \<forall>r \<in> set (rocs C). roc_state (resultOf r s) \<noteq> Failed \<and> newMiv (resultOf r s) \<longrightarrow>
            r \<in> set rs \<and> om_at [] chk r \<noteq> [] \<or> image_confirmed (opt C) im r (trc s))
     (forE rs (\<lambda>r. whenE (om_at [] chk r \<noteq> []) (fail C r (msg r))))
     (\<lambda>_. live_confirmed C im)"
proof -
  let ?P = "\<lambda>rest (_ :: unit) s. \<forall>r \<in> set (rocs C). roc_state (resultOf r s) \<noteq> Failed \<and> newMiv (resultOf r s) \<longrightarrow>
            r \<in> set rest \<and> om_at [] chk r \<noteq> [] \<or> image_confirmed (opt C) im r (trc s)"
  have "post (?P (x # ys) u) (whenE (om_at [] chk x \<noteq> []) (fail C x (msg x))) (?P ys)" for x ys and u :: unit
  proof (rule postI)
    fix s a s' assume P: "?P (x # ys) u s" and run: "whenE (om_at [] chk x \<noteq> []) (fail C x (msg x)) s = (Ret a, s')"
    show "?P ys a s'"
    proof (cases "om_at [] chk x = []")
      case True
      then have "s' = s" using run by (simp add: whenE_def ret_def)
      then show ?thesis using P True by auto
    next
      case False
      then have s': "s' = snd (fail C x (msg x) s)" using run by (simp add: whenE_def)
      show ?thesis
        unfolding s' fail_result using P by auto
    qed
  qed
  then have "post (?P rs ()) (foldE (\<lambda>r _. whenE (om_at [] chk r \<noteq> []) (fail C r (msg r))) rs ()) (?P [])"
    by (rule post_foldE)
  then show ?thesis
    unfolding forE_def by (rule post_weaken) (auto simp: live_confirmed_def)
qed

lemma post_false: "(\<And>s. \<not> P s) \<Longrightarrow> post P m Q"
  by (simp add: post_def)

lemma post_exists: "(\<And>z. post (P z) m Q) \<Longrightarrow> post (\<lambda>s. \<exists>z. P z s) m Q"
  unfolding post_def by blast

lemma results_are_exists: "image s = im \<Longrightarrow> \<exists>z. results_are z im s"
  by (rule exI [of _ "\<lambda>r. (roc_state (resultOf r s), newMiv (resultOf r s))"]) (simp add: results_are_def)

lemma results_are_image: "results_are z im s \<Longrightarrow> image s = im"
  by (simp add: results_are_def)

lemma keeps_live_noteLog: "keeps (live_confirmed C im) (noteLog m)"
  by (simp add: keeps_def live_confirmed_def noteLog_def modify_def resultOf_def)

lemma final_crc_check_crc:
  "post (\<lambda>s. results_are z im s \<and> (\<forall>r \<in> set (rocs C). fst (z r) \<noteq> Failed \<and> snd (z r) \<longrightarrow> r \<in> set xs))
     (parallelCrc C xs (startAddress (opt C)) (word_of_nat (length im)) (crc32 im 0) ms 2)
     (\<lambda>chk s. \<forall>r \<in> set (rocs C). roc_state (resultOf r s) \<noteq> Failed \<and> newMiv (resultOf r s) \<longrightarrow>
            r \<in> set xs \<and> om_at [] chk r \<noteq> [] \<or> image_confirmed (opt C) im r (trc s))"
proof (rule postI)
  fix s chk s'
  assume z: "results_are z im s \<and> (\<forall>r \<in> set (rocs C). fst (z r) \<noteq> Failed \<and> snd (z r) \<longrightarrow> r \<in> set xs)"
    and run: "parallelCrc C xs (startAddress (opt C)) (word_of_nat (length im)) (crc32 im 0) ms 2 s = (Ret chk, s')"
  have "results_are z im s'"
    using keepsD [OF same.keeps_parallelCrc [of z im C xs "startAddress (opt C)" "word_of_nat (length im)"
      "crc32 im 0" ms 2]] z run by (metis snd_conv)
  then show "\<forall>r \<in> set (rocs C). roc_state (resultOf r s') \<noteq> Failed \<and> newMiv (resultOf r s') \<longrightarrow>
      r \<in> set xs \<and> om_at [] chk r \<noteq> [] \<or> image_confirmed (opt C) im r (trc s')"
    using z postD [OF parallelCrc_confirmed TrueI run]
    by (auto simp: image_confirmed_def results_results [of z im])
qed

lemma final_crc_check_confirmed:
  "post (\<lambda>s. results_are z im s \<and> (\<forall>r \<in> set (rocs C). fst (z r) \<noteq> Failed \<and> snd (z r) \<longrightarrow> r \<in> set xs))
     (final_crc_check C xs) (\<lambda>_. live_confirmed C im)"
  (is "post ?A _ _")
  unfolding final_crc_check_def now_def msSince_def
proof (rule post_bindE_gets, rule post_bindE_gets)
  fix t0 im'
  let ?rest = "\<lambda>chk. seqE (forE xs (\<lambda>r. whenE (om_at [] chk r \<noteq> []) (fail C r (''whole-image '' @ om_at [] chk r))))
     (bindE (gets (\<lambda>s. ns_to_ms (clock_now (io C) (envr s) - t0))) (\<lambda>t.
      noteLog (''whole-image CRC on '' @ to_string (length xs) @ '' ROCs: '' @ to_string_int (t div 1000) @ '' s'')))"
  have rest: "post (\<lambda>s. \<forall>r \<in> set (rocs C). roc_state (resultOf r s) \<noteq> Failed \<and> newMiv (resultOf r s) \<longrightarrow>
      r \<in> set xs \<and> om_at [] chk r \<noteq> [] \<or> image_confirmed (opt C) im r (trc s)) (?rest chk) (\<lambda>_. live_confirmed C im)"
    for chk
    by (rule post_seqE [OF final_crc_fails], rule post_bindE_gets,
        rule post_weaken [OF post_keeps [OF keeps_live_noteLog]]) simp_all
  show "post (\<lambda>s. (?A s \<and> clock_now (io C) (envr s) = t0) \<and> image s = im')
      (bindE (parallelCrc C xs (startAddress (opt C)) (word_of_nat (length im')) (crc32 im' 0)
         (crcImageTimeoutMs (opt C)) 2) ?rest) (\<lambda>_. live_confirmed C im)"
  proof (cases "im' = im")
    case True
    have "post (\<lambda>s. (?A s \<and> clock_now (io C) (envr s) = t0) \<and> image s = im')
        (parallelCrc C xs (startAddress (opt C)) (word_of_nat (length im')) (crc32 im' 0)
           (crcImageTimeoutMs (opt C)) 2)
        (\<lambda>chk s. \<forall>r \<in> set (rocs C). roc_state (resultOf r s) \<noteq> Failed \<and> newMiv (resultOf r s) \<longrightarrow>
            r \<in> set xs \<and> om_at [] chk r \<noteq> [] \<or> image_confirmed (opt C) im r (trc s))"
      unfolding True by (rule post_weaken [OF final_crc_check_crc [of z]]) simp_all
    then show ?thesis by (rule post_bindE) (rule rest)
  next
    case False
    then show ?thesis by (intro post_false) (blast dest: results_are_image)
  qed
qed

lemma final_crc_confirmed: "post (\<lambda>s. image s = im) (final_crc C) (\<lambda>_. live_confirmed C im)"
proof -
  have "post (results_are z im) (final_crc C) (\<lambda>_. live_confirmed C im)" for z
    unfolding final_crc_def whenE_def
    by (rule post_bindE [OF final_crc_rocs], rule post_if, rule final_crc_check_confirmed, rule post_ret)
       (auto simp: live_confirmed_def results_results [of z im])
  then have "post (\<lambda>s. \<exists>z. results_are z im s) (final_crc C) (\<lambda>_. live_confirmed C im)"
    by (rule post_exists)
  then show ?thesis
    by (rule post_weaken) (simp_all add: results_are_exists)
qed

subsection \<open>Upload and activation\<close>

interpretation img: session_invariant C "\<lambda>s. image s = im" "\<lambda>_ _. True"
  by unfold_locales
     (auto simp: keeps_def sleepMs_def noteRoc_def setResult_def noteLog_def locked_simps Let_def
       split: prod.splits sum.splits outcome.splits)

lemma upload_verified:
  "post (live_confirmed C im)
     (forE rs (\<lambda>r. bindE (alive r) (\<lambda>a.
        whenE a (seqE (setResult r (\<lambda>y. y\<lparr>roc_state := Verified\<rparr>)) (noteRoc C r msg)))))
     (\<lambda>_. live_confirmed C im)"
proof -
  have "post (live_confirmed C im) (bindE (alive x) (\<lambda>a.
      whenE a (seqE (setResult x (\<lambda>y. y\<lparr>roc_state := Verified\<rparr>)) (noteRoc C x msg)))) (\<lambda>_. live_confirmed C im)" for x
  proof (rule post_bindE [OF post_alive], rule postI)
    fix a s u s'
    assume P: "live_confirmed C im s \<and> a = (roc_state (resultOf x s) \<noteq> Failed)"
      and run: "whenE a (seqE (setResult x (\<lambda>y. y\<lparr>roc_state := Verified\<rparr>)) (noteRoc C x msg)) s = (Ret u, s')"
    then show "live_confirmed C im s'"
      by (cases a) (auto simp: whenE_def ret_def live_confirmed_def setResult_def seqE_def bindE_def noteRoc_def
          noteLog_def modify_def resultOf_def split: if_splits)
  qed
  then show ?thesis
    unfolding forE_def by (intro post_foldE [where P = "\<lambda>_ _. live_confirmed C im"])
qed

lemma upload_confirmed:
  assumes "finalImageCrc (opt C)"
  shows "post (\<lambda>s. image s = im) (upload C) (\<lambda>_. live_confirmed C im)"
  unfolding upload_def Let_def
  apply (rule post_bindE_gets)
  apply (rule post_bindE [where R = "\<lambda>_ s. image s = im"])
   apply (rule post_weaken [OF post_keeps [OF img.keeps_now]], simp_all)
  apply (rule post_seqE [where R = "\<lambda>s. image s = im"])
   apply (rule post_keeps, intro inv_intros img.steps)
  apply (rule post_seqE [where R = "\<lambda>s. image s = im"])
   apply (rule post_keeps)
   apply (intro inv_intros img.keeps_upload_segment [where sz = "length im"]; simp)
  apply (rule post_seqE [where R = "live_confirmed C im"])
   apply (simp add: whenE_def assms final_crc_confirmed)
  by (rule upload_verified)

text \<open>During the activation: also the ROCs the IAP was requested of have confirmed the image.\<close>

definition iap_confirmed :: "'e flash \<Rightarrow> u8 list \<Rightarrow> roc set \<Rightarrow> 'e session \<Rightarrow> bool" where
  "iap_confirmed C im R s \<longleftrightarrow> live_confirmed C im s
     \<and> (\<forall>r \<in> R. newMiv (resultOf r s) \<longrightarrow> image_confirmed (opt C) im r (trc s))"

lemma image_confirmed_later: "image_confirmed p im r tr \<Longrightarrow> image_confirmed p im r (xs @ tr)"
  unfolding image_confirmed_def by (rule confirmed_later)

lemma image_confirmed_Cons: "image_confirmed p im r tr \<Longrightarrow> image_confirmed p im r (x # tr)"
  using image_confirmed_later [of p im r tr "[x]"] by simp

lemma iap_confirmed_later:
  assumes "iap_confirmed C im R s" and "res s' = res s" and "\<exists>xs. trc s' = xs @ trc s"
  shows "iap_confirmed C im R s'"
  using assms by (auto simp: iap_confirmed_def live_confirmed_def resultOf_def intro!: image_confirmed_later)

lemma res_port_call: "res (snd (port_call f ev s)) = res s"
  by (simp add: port_call_def split: prod.splits)

lemma res_locked:
  "res (snd (drain_locked C r s)) = res s"
  "res (snd (send_locked C r c s)) = res s"
  "res (snd (reply_locked C r n s)) = res s"
  by (auto simp: locked_simps Let_def split: prod.splits sum.splits outcome.splits)

lemma keeps_iap_later:
  "(\<And>s. res (snd (m s)) = res s) \<Longrightarrow> (\<And>s. \<exists>xs. trc (snd (m s)) = xs @ trc s) \<Longrightarrow> keeps (iap_confirmed C im R) m"
  by (rule keepsI) (rule iap_confirmed_later)

lemma keeps_iap_noteRoc: "keeps (iap_confirmed C im R) (noteRoc C' r m)"
  by (rule keepsI) (simp add: iap_confirmed_def live_confirmed_def noteRoc_result,
      simp add: noteRoc_def setResult_def noteLog_def seqE_def bindE_def modify_def)

lemma keeps_iap_fail: "keeps (iap_confirmed C im R) (fail C' r m)"
  by (rule keepsI) (auto simp: iap_confirmed_def live_confirmed_def fail_result)

lemma keeps_iap_setResult:
  assumes "r \<in> R" and "\<And>x. newMiv (f x) = newMiv x"
  shows "keeps (iap_confirmed C im R) (setResult r f)"
  by (rule keepsI) (use assms in \<open>auto simp: iap_confirmed_def live_confirmed_def setResult_def modify_def resultOf_def
      split: if_splits\<close>)

interpretation iap: query_invariant C "iap_confirmed C im R" "\<lambda>_ _. True"
proof unfold_locales
  show "iap_confirmed C im R (s\<lparr>cur_tag := t\<rparr>) = iap_confirmed C im R s" for s t
    by (simp add: iap_confirmed_def live_confirmed_def resultOf_def)
qed (auto intro!: keeps_iap_later keeps_iap_noteRoc res_locked trc_locked
      simp: readRegister_def port_call_trc res_port_call sleepMs_def modify_def)

lemma keeps_iap_steps:
  "keeps (iap_confirmed C im R) (resyncLink C r)"
  "keeps (iap_confirmed C im R) (modify (\<lambda>s. s\<lparr>verBefore := f s\<rparr>))"
  "keeps (iap_confirmed C im R) (modify (\<lambda>s. s\<lparr>percent := g s\<rparr>))"
  by (auto intro!: keeps_iap_later simp: resyncLink_def port_call_trc res_port_call modify_def)

lemmas iap_steps = iap.primitive keeps_iap_steps keeps_iap_noteRoc keeps_iap_fail iap.keeps_sendWhenIdle

lemma returns_seqE: "returns P k \<Longrightarrow> returns P (seqE m k)"
  unfolding seqE_def by (rule returns_bindE)

lemma returns_iap_send:
  "fst ` set m \<subseteq> R \<Longrightarrow> r \<in> R \<Longrightarrow> returns (\<lambda>m. fst ` set m \<subseteq> R) (iap_send C r m)"
  unfolding iap_send_def
  by (intro returns_tryE returns_bindE returns_seqE returns_if returns_ret) (simp_all add: keys_om_put)

lemma keeps_iap_poll:
  assumes "fst x \<in> R"
  shows "keeps (iap_confirmed C im R) (iap_poll_roc C x acc)"
  unfolding iap_poll_roc_def iap_read_def try_read_def iap_decide_def iap_auth_timeout_def iap_resync_def
    iap_back_timeout_def Let_def
  using assms by (cases x) (auto intro!: inv_intros iap_steps keeps_iap_setResult)

lemma keeps_activate_confirmed: "keeps (live_confirmed C im) (activate C)"
proof (rule keepsI)
  fix s :: "'a session" assume live: "live_confirmed C im s"
  let ?go = "filter (\<lambda>r. roc_state (resultOf r s) = Verified) (rocs C)"
  let ?I = "iap_confirmed C im (set ?go)"
  have "?I s" using live by (auto simp: iap_confirmed_def live_confirmed_def)
  have send: "keeps ?I (foldE (iap_send C) ?go [])"
    unfolding iap_send_def by (intro inv_intros iap_steps) simp_all
  have sent: "returns (\<lambda>m. fst ` set m \<subseteq> set ?go) (foldE (iap_send C) ?go [])"
    by (rule returns_foldE) (auto intro: returns_iap_send)
  have wait: "keeps ?I (loopE n (iap_round C m) L)" if "fst ` set m \<subseteq> set ?go" for n m L
    unfolding iap_round_def using that
    by (intro inv_intros iap_steps keeps_iap_poll) auto
  have "keeps ?I (bindE (foldE (iap_send C) ?go []) (\<lambda>sent.
     seqE (loopE (fuel C) (iap_round C sent) \<lparr>wentDown = [], finished = [], answering = [], resyncs = []\<rparr>)
          (modify (\<lambda>s. s\<lparr>percent := percent s @ [100]\<rparr>))))"
    by (rule keeps_bindE_via [OF send sent]) (intro keeps_seqE wait keeps_iap_steps)
  then show "live_confirmed C im (snd (activate C s))"
    using \<open>?I s\<close> by (auto simp: activate_def bindE_def [of "gets _"] gets_def iap_confirmed_def dest: keepsD)
qed

lemma run_confirmed:
  assumes "run C (new_session e im) = (Ret ok, s)" and "finalImageCrc (opt C)"
  shows "preflight_passes (opt C) im \<and> live_confirmed C (padded_image im) s"
proof (cases "preflight_passes (opt C) im")
  case True
  then obtain s1 where s1: "run C (new_session e im) = session_body C s1" "image s1 = padded_image im"
    using run_accepted [of C "new_session e im"] by (auto simp: new_session_def)
  have body: "post (\<lambda>s. image s = padded_image im) (session_body C) (\<lambda>_. live_confirmed C (padded_image im))"
    unfolding session_body_def
    by (intro post_seqE [OF post_keeps [OF img.keeps_probeAll]] post_seqE [OF upload_confirmed [OF assms(2)]]
        post_seqE [OF post_keeps] keeps_whenE keeps_activate_confirmed post_gets)
  have "session_body C s1 = (Ret ok, s)" using s1(1) assms(1) by simp
  with body s1(2) have "live_confirmed C (padded_image im) s" by (rule postD)
  then show ?thesis using True by simp
next
  case False
  then have "\<not> preflight_passes (opt C) (image (new_session e im))" by (simp add: new_session_def)
  then obtain m s' where "run C (new_session e im) = (Throw m, s')"
    by (rule run_rejected)
  then show ?thesis using assms(1) by simp
qed

text \<open>
  C2. What a verified ROC has confirmed: whatever the environment does, when a session with
  \<^verbatim>\<open>finalImageCrc\<close> returns, every ROC it reports as verified or programmed and found to run the
  MiV with CRC has been sent the CRC command for the whole padded image at the start address and
  has afterwards replied with that command's tag, no error, and the CRC-32 of the padded file.
\<close>
theorem verified_roc_confirmed_crc:
  "case run C (new_session e im) of
     (Ret ok, s) \<Rightarrow>
       {r \<in> set (rocs C). finalImageCrc (opt C) \<and> newMiv (resultOf r s)
          \<and> roc_state (resultOf r s) \<in> {Verified, Programmed}}
       \<subseteq> {r. image_confirmed (opt C) (padded_image im) r (trc s)}
   | _ \<Rightarrow> True"
proof (cases "run C (new_session e im)")
  case (Pair x s)
  then show ?thesis using run_confirmed [of C e im _ s] by (cases x) (auto simp: live_confirmed_def)
qed

end
