(* ===== verification/Flash_Total.thy ===== *)
theory Flash_Total
  imports Flash_Safety
begin

section \<open>A session past the preflight neither throws nor leaves the image\<close>

text \<open>
  After the preflight nothing throws out of \<open>run\<close>: every call of a port that can fail is made
  under a handler, \<^verbatim>\<open>res_.at\<close> finds every ROC of the session, and each index into the image, a
  reply or a read-back piece is inside it. \<open>flash_wf\<close> is the invariant these facts rest on.
\<close>

definition flash_wf :: "'e flash \<Rightarrow> u8 list \<Rightarrow> 'e session \<Rightarrow> bool" where
  "flash_wf C im s \<longleftrightarrow> image s = im \<and> (\<forall>r \<in> set (rocs C). om_has (res s) r)"

subsection \<open>Primitive steps\<close>

lemma safe_port_call: "safe True (flash_wf C im) any (port_call f ev)"
  by (rule safeI) (auto simp: port_call_def flash_wf_def split: prod.splits sum.splits)

lemma safe_readRegister: "safe True (flash_wf C im) any (readRegister C r a)"
  unfolding readRegister_def by (rule safe_port_call)

lemma safe_resyncLink: "safe True (flash_wf C im) any (resyncLink C r)"
  unfolding resyncLink_def by (rule safe_port_call)

lemma safe_sleepMs: "safe t (flash_wf C im) any (sleepMs C ms)"
  unfolding sleepMs_def by (rule safe_modify) (simp add: flash_wf_def)

lemma safe_setResult: "safe t (flash_wf C im) any (setResult r f)"
  unfolding setResult_def by (rule safe_modify) (simp add: flash_wf_def)

lemma safe_noteLog: "safe t (flash_wf C im) any (noteLog m)"
  unfolding noteLog_def by (rule safe_modify) (simp add: flash_wf_def)

lemma safe_percent: "safe t (flash_wf C im) any (modify (\<lambda>s. s\<lparr>percent := f s\<rparr>))"
  by (rule safe_modify) (simp add: flash_wf_def)

lemma safe_verBefore: "safe t (flash_wf C im) any (modify (\<lambda>s. s\<lparr>verBefore := f s\<rparr>))"
  by (rule safe_modify) (simp add: flash_wf_def)

lemma safe_noteRoc: "safe t (flash_wf C im) any (noteRoc C r m)"
  unfolding noteRoc_def by (intro safe_seqE safe_setResult safe_noteLog)

lemma safe_fail: "safe t (flash_wf C im) any (fail C r m)"
  unfolding fail_def by (intro safe_seqE safe_setResult safe_noteRoc)

lemma safe_now: "safe t (flash_wf C im) any (now C)"
  unfolding now_def by (rule safe_gets) simp

lemma safe_msSince: "safe t (flash_wf C im) any (msSince C t0)"
  unfolding msSince_def by (rule safe_gets) simp

lemma safe_nextTag: "safe t (flash_wf C im) any nextTag"
  by (rule safeI) (simp add: nextTag_def Let_def flash_wf_def)

lemma safe_alive: "r \<in> set (rocs C) \<Longrightarrow> safe t (flash_wf C im) any (alive r)"
  by (rule safeI) (auto simp: alive_def flash_wf_def om_has_def split: option.splits)

lemmas safe_primitive = safe_readRegister safe_resyncLink safe_sleepMs safe_setResult safe_noteLog
  safe_percent safe_verBefore safe_noteRoc safe_fail safe_now safe_msSince safe_nextTag

lemma safe_locked:
  assumes "safe t (flash_wf C im) P m"
  shows "safe t (flash_wf C im) P (held C m)"
proof (rule safeI)
  fix s :: "'a session" assume "flash_wf C im s"
  then have "flash_wf C im (lock_on C s)" by (simp add: flash_wf_def lock_on_def)
  from safeD [OF assms this] show "flash_wf C im (snd (held C m s)) \<and> permits t P (fst (held C m s))"
    by (auto simp: held_def scopedE_def lock_off_def flash_wf_def split: prod.splits)
qed

lemma safe_readBlock: "safe True (flash_wf C im) any (readBlock C r a n)"
  unfolding readBlock_def by (rule safe_port_call)

lemma safe_writeBlock: "safe True (flash_wf C im) any (writeBlock C r c a)"
  unfolding writeBlock_def by (rule safe_port_call)

lemmas safe_bind = safe_bindE_any [OF safe_readRegister] safe_bindE_any [OF safe_readBlock]
  safe_bindE_any [OF safe_now] safe_bindE_any [OF safe_msSince] safe_bindE_any [OF safe_nextTag]

subsection \<open>Commands and replies\<close>

lemma safe_drain: "safe True (flash_wf C im) any (drain_locked C r)"
  unfolding drain_locked_def Let_def
  by (intro safe_locked safe_bind safe_if safe_ret) simp_all

lemma safe_send: "safe True (flash_wf C im) any (send_locked C r c)"
  unfolding send_locked_def
  by (intro safe_locked safe_bind safe_if safe_seqE safe_writeBlock safe_ret) simp_all

lemma safe_reply:
  "safe True (flash_wf C im) (\<lambda>x. case x of None \<Rightarrow> True | Some rep \<Rightarrow> length rep = n) (reply_locked C r n)"
  unfolding reply_locked_def
  by (intro safe_locked safe_bind safe_if safe_ret) simp_all

lemma safe_waitIdle: "safe True (flash_wf C im) any (waitIdle C r t)"
  unfolding waitIdle_def waitIdle_round_def Let_def
  by (intro safe_bind safe_bindE_any [OF safe_drain] safe_loopE safe_intros safe_primitive safe_ret)
     simp_all

lemma safe_sendWhenIdle: "safe True (flash_wf C im) any (sendWhenIdle C r c t)"
  unfolding sendWhenIdle_def sendWhenIdle_round_def Let_def
  by (intro safe_bind safe_loopE safe_if safe_bindE_any [OF safe_waitIdle] safe_ret
      safe_mono [OF safe_send]) (simp_all split: sum.splits)

lemma safe_sendTagged: "safe True (flash_wf C im) any (sendTagged C r c tag)"
  unfolding sendTagged_def by (rule safe_sendWhenIdle)

lemma safe_readReply:
  "safe t (flash_wf C im) (\<lambda>x. case x of None \<Rightarrow> True | Some rep \<Rightarrow> length rep = n) (readReply C r n)"
  unfolding readReply_def
  by (intro safe_tryE safe_reply safe_seqE safe_noteRoc safe_ret) simp

lemma safe_no_reply: "safe True (flash_wf C im) any (no_reply C r t)"
  unfolding no_reply_def by (intro safe_bind safe_ret) simp

lemma safe_collectTagged:
  assumes "0 < n"
  shows "safe True (flash_wf C im) (\<lambda>(rep, _). rep = [] \<or> length rep = n) (collectTagged C r tag n t)"
proof -
  have 1: "safe True (flash_wf C im) any (loopE (fuel C) (collectTagged_round C r n t t0) ())" for t0
    unfolding collectTagged_round_def Let_def
    by (intro safe_bind safe_loopE safe_intros safe_primitive safe_bindE_any [OF safe_no_reply] safe_ret) simp_all
  show ?thesis
    unfolding collectTagged_def
    by (intro safe_bind safe_bindE_any [OF 1] safe_case_option safe_bindE [OF safe_readReply] safe_if safe_ret
        safe_bindE_any [OF safe_at]) (use assms in auto)
qed

lemma safe_crc_verdict: "rp = [] \<or> length rp = 4 \<Longrightarrow> safe t (flash_wf C im) any (crc_verdict rp why want)"
  unfolding crc_verdict_def Let_def by (auto intro!: safe_ret safe_bindE_any safe_at)

lemma safe_crc_send: "safe t (flash_wf C im) any (crc_send C addr len r acc)"
  unfolding crc_send_def
  by (intro safe_intros safe_bind safe_bindE_any [OF safe_sendTagged] safe_ret) simp_all

lemma safe_crc_collect: "safe t (flash_wf C im) any (crc_collect C want ms x acc)"
  unfolding crc_collect_def
  by (intro safe_bindE_any safe_intros safe_bindE [OF safe_collectTagged] safe_crc_verdict safe_ret) auto

lemma safe_parallelCrc: "safe t (flash_wf C im) any (parallelCrc C rs addr len want ms tries)"
  unfolding parallelCrc_def crc_round_def
  by (intro safe_bindE_any safe_repeatE_any safe_foldE safe_crc_send safe_crc_collect safe_intros safe_ret)
     simp_all

lemma safe_waitTaggedResult: "safe True (flash_wf C im) any (waitTaggedResult C r tag ms)"
proof -
  have 1: "safe True (flash_wf C im) any (loopE (fuel C) (waitTaggedResult_round C r ms t0) ())" for t0
    unfolding waitTaggedResult_round_def Let_def
    by (intro safe_bind safe_loopE safe_intros safe_primitive safe_bindE_any [OF safe_no_reply] safe_ret) simp_all
  show ?thesis
    unfolding waitTaggedResult_def
    by (intro safe_bind safe_bindE_any [OF 1] safe_case_option safe_bindE [OF safe_readReply] safe_if safe_ret
        safe_bindE_any [OF safe_at]) auto
qed

lemma safe_waitLegacyAll: "safe t (flash_wf C im) any (waitLegacyAll C sent ms mn what err)"
  unfolding waitLegacyAll_def waitLegacyAll_round_def waitLegacy_poll_def Let_def
  by (intro safe_loopE safe_bind safe_intros safe_bindE_any safe_foldE safe_primitive safe_ret)
     (simp_all split: prod.splits)

subsection \<open>Probe\<close>

lemma safe_probe_send:
  assumes "r \<in> set (rocs C)" and "fst ` set tags \<subseteq> set (rocs C)"
  shows "safe t (flash_wf C im) (\<lambda>m. fst ` set m \<subseteq> set (rocs C)) (probe_send C r tags)"
  unfolding probe_send_def
  by (intro safe_intros safe_bindE_any [OF safe_waitIdle] safe_bind safe_bindE_any [OF safe_sendTagged]
      safe_primitive safe_ret) (use assms in \<open>simp_all add: keys_om_put\<close>)

lemma safe_probe_answer: "safe t (flash_wf C im) any (probe_answer C x acc)"
  unfolding probe_answer_def
  by (intro safe_intros safe_bind safe_bindE [OF safe_readReply] safe_bindE_any safe_case_option safe_at
      safe_primitive safe_ret) auto

lemma safe_probeLegacyReadSize: "safe True (flash_wf C im) any (probeLegacyReadSize C r)"
  unfolding probeLegacyReadSize_def legacySize_round_def Let_def
  by (intro safe_bindE_any [OF safe_waitIdle] safe_bindE_any [OF safe_sendWhenIdle] safe_bind
      safe_bindE_any safe_loopE safe_intros safe_primitive safe_ret) simp_all

lemma safe_probe_finish: "r \<in> set (rocs C) \<Longrightarrow> safe t (flash_wf C im) any (probe_finish C r)"
  unfolding probe_finish_def
  by (intro safe_intros safe_bindE_gets safe_probeLegacyReadSize safe_bindE_any [OF safe_alive] safe_primitive)

lemma safe_probeAll: "safe t (flash_wf C im) any (probeAll C)"
proof -
  have send: "safe t (flash_wf C im) (\<lambda>m. fst ` set m \<subseteq> set (rocs C)) (foldE (probe_send C) (rocs C) [])"
    by (rule safe_foldE) (simp_all add: safe_probe_send)
  have poll: "safe t (flash_wf C im) any (loopE (fuel C) (probe_round C tags t0) [])" for tags t0
    unfolding probe_round_def
    by (intro safe_loopE safe_bind safe_intros safe_bindE_any safe_foldE safe_probe_answer safe_primitive safe_ret)
       simp_all
  show ?thesis
    unfolding probeAll_def
    by (intro safe_bindE [OF send] safe_bind safe_intros poll safe_probe_finish) auto
qed

subsection \<open>Erase and write\<close>

lemma safe_foldAlive: "set rs \<subseteq> set (rocs C) \<Longrightarrow> safe t (flash_wf C im) (\<lambda>xs. set xs \<subseteq> set rs) (foldAlive rs)"
  unfolding foldAlive_def
  by (intro safe_foldE safe_bindE_any [OF safe_alive] safe_ret) auto

lemma safe_with_tag: "safe t (flash_wf C im) any (with_tag b r c tags)"
  unfolding with_tag_def by (intro safe_if safe_bind safe_ret) simp_all

lemma safe_erase_send: "safe t (flash_wf C im) any (erase_send C addr r acc)"
  unfolding erase_send_def Let_def
  by (intro safe_intros safe_bindE_gets safe_bindE_any [OF safe_with_tag] safe_bindE_any [OF safe_sendWhenIdle]
      safe_bind safe_ret) simp_all

lemma safe_tagged_result: "safe t (flash_wf C im) any (tagged_result C tags ms what x acc)"
  unfolding tagged_result_def
  by (intro safe_intros safe_bindE_gets safe_bindE_any [OF safe_waitTaggedResult] safe_ret) simp_all

lemma safe_eraseSegment: "safe t (flash_wf C im) any (eraseSegment C rs off err)"
  unfolding eraseSegment_def Let_def
  by (intro safe_bindE_any safe_foldE safe_erase_send safe_tagged_result safe_intros safe_waitLegacyAll) simp_all

lemma safe_write_send: "r \<in> set (rocs C) \<Longrightarrow> safe t (flash_wf C im) any (write_send C c r acc)"
  unfolding write_send_def Let_def
  by (intro safe_intros safe_bindE_any [OF safe_alive] safe_bindE_gets safe_bindE_any [OF safe_with_tag]
      safe_bindE_any [OF safe_sendWhenIdle] safe_bind safe_ret) simp_all

lemma safe_image_word:
  "unat k < length im \<Longrightarrow> unat (k + 1) < length im \<Longrightarrow> safe t (flash_wf C im) any (image_word C k)"
  unfolding image_word_def
  by (intro safe_bindE_gets safe_bindE_any [OF safe_at] safe_ret) (simp_all add: flash_wf_def)

text \<open>The indices of a record: even, below the end of an image of even length.\<close>

lemma piece_starts_multiple: "k \<in> set (piece_starts n step) \<Longrightarrow> step dvd k"
  by (auto simp: piece_starts_def)

lemma piece_starts_member: "j < length (piece_starts n step) \<Longrightarrow> step * j \<in> set (piece_starts n step)"
  using nth_mem [of j "piece_starts n step"] by (simp add: piece_starts_def)

lemma record_index:
  fixes off len rec :: u32
  assumes "unat off + unat len \<le> sz" and "sz < 2 ^ 32" and "even (unat off)" and "even (unat len)"
    and "even (unat rec)" and "unat rec < unat len"
    and i: "i \<in> set (piece_starts (unat (min 1024 (len - rec))) 2)"
  shows "unat (off + rec + word_of_nat i) < sz" and "unat (off + rec + word_of_nat i + 1) < sz"
proof -
  have "unat (len - rec) = unat len - unat rec"
    using assms(6) by (simp add: unat_sub word_le_nat_alt)
  then have "unat (min 1024 (len - rec)) \<le> unat len - unat rec"
    by (auto simp: min_def word_le_nat_alt)
  then have lt: "unat rec + i < unat len" using piece_starts_less [OF i] by linarith
  have "even i" using piece_starts_multiple [OF i] .
  then have lt2: "unat rec + i + 1 < unat len"
    using lt assms(4,5) by (metis Suc_eq_plus1 Suc_lessI even_Suc even_add)
  have ui: "unat (word_of_nat i :: u32) = i"
    using lt assms(1,2) by (intro unat_of_nat_small) linarith
  have 1: "unat (off + rec) = unat off + unat rec"
    using lt assms(1,2) by (intro unat_add_small) linarith
  have 2: "unat (off + rec + word_of_nat i) = unat off + unat rec + i"
    using lt assms(1,2) 1 ui by (subst unat_add_small) linarith+
  have 3: "unat (off + rec + word_of_nat i + 1) = unat off + unat rec + i + 1"
    using lt2 assms(1,2) 2 by (subst unat_add_small) simp_all
  show "unat (off + rec + word_of_nat i) < sz" "unat (off + rec + word_of_nat i + 1) < sz"
    using 2 3 lt2 assms(1) by linarith+
qed

definition segment_ok :: "u8 list \<Rightarrow> u32 \<Rightarrow> u32 \<Rightarrow> bool" where
  "segment_ok im off len \<longleftrightarrow> unat off + unat len \<le> length im \<and> length im < 2 ^ 32
     \<and> even (unat off) \<and> even (unat len)"

lemma safe_writeRecord:
  assumes "set rs \<subseteq> set (rocs C)" and "segment_ok im off len" and "even (unat rec)" and "unat rec < unat len"
  shows "safe t (flash_wf C im) any (writeRecord C rs off len rec err)"
proof -
  have word: "safe t (flash_wf C im) any (image_word C (off + rec + word_of_nat i))"
    if "i \<in> set (piece_starts (unat (min 1024 (len - rec))) 2)" for i
    using assms that by (intro safe_image_word record_index) (auto simp: segment_ok_def)
  show ?thesis
    unfolding writeRecord_def Let_def
    using assms(1)
    by (intro safe_bindE_any safe_foldE word safe_write_send safe_tagged_result safe_waitLegacyAll safe_intros
        safe_ret) auto
qed

lemma safe_writeSegment:
  assumes "set rs \<subseteq> set (rocs C)" and "segment_ok im off len"
  shows "safe t (flash_wf C im) any (writeSegment C rs off len err)"
  unfolding writeSegment_def
proof (rule safe_foldE)
  fix k e assume k: "k \<in> set (piece_starts (unat len) 1024)"
  then have "k < unat len" by (rule piece_starts_less)
  then have u: "unat (word_of_nat k :: u32) = k"
    using assms(2) by (intro unat_of_nat_small) (auto simp: segment_ok_def)
  have "even k" using dvd_trans [OF _ piece_starts_multiple [OF k], of 2] by simp
  then show "safe t (flash_wf C im) any (writeRecord C rs off len (word_of_nat k) e)"
    using assms \<open>k < unat len\<close> u by (intro safe_writeRecord) simp_all
qed simp

subsection \<open>Verify\<close>

lemma safe_expected_word: "k < length im \<Longrightarrow> safe t (flash_wf C im) any (expected_word C k)"
  unfolding expected_word_def
  by (intro safe_bindE_gets safe_bindE_any [OF safe_at] safe_bindE_any [OF safe_if] safe_at safe_ret)
     (simp_all add: flash_wf_def)

text \<open>The offsets of a read-back piece of \<open>m\<close> bytes, rounded up to whole words.\<close>

lemma safe_compare_piece:
  fixes fo n :: u32
  assumes "unat fo + m \<le> length im" and "length im < 2 ^ 32" and "unat n \<le> m + m mod 2"
  shows "safe t (flash_wf C im) any
    (repeatE (length (piece_starts (unat n) 2)) (\<lambda>(_, problem). problem = []) (compare_word C addr fo w) (0, []))"
proof (rule safe_repeatE [where i = 0 and P = "\<lambda>j (i, p). p = [] \<longrightarrow> i = 2 * j"])
  fix j and acc :: "nat \<times> string"
  assume j: "j < 0 + length (piece_starts (unat n) 2)"
    and P: "case acc of (i, p) \<Rightarrow> p = [] \<longrightarrow> i = 2 * j" and c: "case acc of (_, p) \<Rightarrow> p = []"
  then obtain i where acc: "acc = (2 * j, [])" by (cases acc) auto
  have "2 * j \<in> set (piece_starts (unat n) 2)"
    using j by (intro piece_starts_member) simp
  then have "2 * j < unat n" by (rule piece_starts_less)
  then have lt: "2 * j < m" using assms(3) by presburger
  then have u: "unat (word_of_nat (2 * j) :: u32) = 2 * j"
    using assms(1,2) by (intro unat_of_nat_small) linarith
  have k: "unat (fo + word_of_nat (2 * j)) < length im"
    using lt assms(1,2) u by (subst unat_add_small) linarith+
  show "safe t (flash_wf C im) (\<lambda>(i, p). p = [] \<longrightarrow> i = 2 * Suc j) (compare_word C addr fo w acc)"
    unfolding compare_word_def acc prod.case
    by (intro safe_bindE_any [OF safe_expected_word [OF k]] safe_if safe_ret safe_bindE_any [OF safe_at]) simp_all
qed simp_all

lemma safe_collectPieceMismatch:
  assumes "unat fo + m \<le> length im" and "length im < 2 ^ 32" and "unat n \<le> m + m mod 2"
  shows "safe True (flash_wf C im) any (collectPieceMismatch C r fo n)"
proof -
  have 1: "safe True (flash_wf C im) any (loopE (fuel C) (readBack_round C r addr k t0) ())" for addr k t0
    unfolding readBack_round_def Let_def
    by (intro safe_bind safe_loopE safe_intros safe_primitive safe_ret) simp_all
  show ?thesis
    unfolding collectPieceMismatch_def Let_def
    by (intro safe_bind safe_bindE_any [OF 1] safe_case_option safe_bindE_any [OF safe_any [OF safe_readReply]]
        safe_bindE_any [OF safe_compare_piece [OF assms]] safe_intros safe_ret) simp_all
qed

lemma safe_readBack_attempt:
  assumes "unat fo + m \<le> length im" and "length im < 2 ^ 32" and "unat n \<le> m + m mod 2"
  shows "safe t (flash_wf C im) any (readBack_attempt C addr fo n acc)"
  unfolding readBack_attempt_def readBack_send_def readBack_collect_def
  by (intro safe_intros safe_bindE_any safe_foldE safe_sendWhenIdle safe_collectPieceMismatch [OF assms] safe_ret)
     simp_all

lemma piece_length:
  fixes off len p piece :: u32
  assumes "unat p < unat len" and "unat off + unat len \<le> sz" and "sz < 2 ^ 32"
  shows "unat (off + p) + unat (min piece (len - p)) \<le> sz"
    and "unat (min piece (len - p) + min piece (len - p) mod 2)
         \<le> unat (min piece (len - p)) + unat (min piece (len - p)) mod 2"
proof -
  let ?m = "min piece (len - p)"
  have "unat (len - p) = unat len - unat p"
    using assms(1) by (simp add: unat_sub word_le_nat_alt)
  then have m: "unat ?m \<le> unat len - unat p"
    by (auto simp: min_def word_le_nat_alt)
  have "unat (off + p) = unat off + unat p"
    using assms by (intro unat_add_small) linarith
  then show "unat (off + p) + unat ?m \<le> sz" using m assms(1,2) by linarith
  have "unat (?m + ?m mod 2) \<le> unat ?m + unat (?m mod 2)"
    by (simp only: unat_word_ariths mod_less_eq_dividend)
  then show "unat (?m + ?m mod 2) \<le> unat ?m + unat ?m mod 2"
    by (simp add: unat_mod)
qed

lemma safe_readBack_pieces:
  assumes "segment_ok im off len"
  shows "safe t (flash_wf C im) any (repeatE (length (piece_starts (unat len) (unat piece))) c
    (readBack_piece C off len piece) (0, rbRocs, err))"
proof (rule safe_repeatE [where i = 0 and P = "\<lambda>j (p, _). p = word_of_nat (unat piece * j)"])
  fix j and acc :: "u32 \<times> roc list \<times> (roc, string) omap"
  assume j: "j < 0 + length (piece_starts (unat len) (unat piece))"
    and P: "case acc of (p, _) \<Rightarrow> p = word_of_nat (unat piece * j)"
  then obtain rbs e where acc: "acc = (word_of_nat (unat piece * j), rbs, e)" by (cases acc) auto
  have "unat piece * j \<in> set (piece_starts (unat len) (unat piece))"
    using j by (intro piece_starts_member) simp
  then have lt: "unat piece * j < unat len" by (rule piece_starts_less)
  then have "unat (word_of_nat (unat piece * j) :: u32) < unat len"
    using unat_of_nat_small [of "unat piece * j"] unsigned_less [where ?'a = nat, of len] by simp
  note len = piece_length [OF this, of off "length im" piece]
  show "safe t (flash_wf C im) (\<lambda>(p, _). p = word_of_nat (unat piece * Suc j)) (readBack_piece C off len piece acc)"
    unfolding readBack_piece_def acc prod.case Let_def
    apply (intro safe_bindE_any safe_repeatE_any safe_readBack_attempt)
    using len assms by (auto simp: segment_ok_def algebra_simps intro!: safe_ret split: prod.splits)
qed simp_all

lemma safe_verify_split: "r \<in> set (rocs C) \<Longrightarrow> safe t (flash_wf C im) any (verify_split err r acc)"
  unfolding verify_split_def
  by (intro safe_intros safe_bindE_any [OF safe_alive] safe_bindE_gets safe_ret) simp_all

lemma safe_verifySegment:
  assumes "set rs \<subseteq> set (rocs C)" and "segment_ok im off len"
  shows "safe t (flash_wf C im) any (verifySegment C rs off len err)"
  unfolding verifySegment_def
  using assms
  by (intro safe_bindE_any safe_foldE safe_verify_split safe_case_prod safe_if safe_ret safe_bindE_gets
      safe_bindE_any [OF safe_slice] safe_parallelCrc safe_spin safe_readBack_pieces)
     (auto simp: flash_wf_def segment_ok_def intro: safe_ret)

subsection \<open>Segments\<close>

lemma safe_fail_segment:
  assumes "r \<in> set (rocs C)" and "set acc \<subseteq> set (rocs C)"
  shows "safe t (flash_wf C im) (\<lambda>xs. set xs \<subseteq> set (rocs C)) (fail_segment C off k err r acc)"
  unfolding fail_segment_def Let_def
  by (intro safe_bindE_any [OF safe_alive] safe_seqE safe_if safe_primitive safe_ret) (use assms in simp_all)

lemma safe_segment_attempt:
  assumes "set (snd acc) \<subseteq> set (rocs C)" and "segment_ok im off len"
  shows "safe t (flash_wf C im) (\<lambda>a. set (snd a) \<subseteq> set (rocs C)) (segment_attempt C off len acc)"
proof -
  obtain k todo where acc: "acc = (k, todo)" by (cases acc)
  have again: "safe t (flash_wf C im) (\<lambda>xs. set xs \<subseteq> set (rocs C)) (foldE (fail_segment C off k err) todo [])"
    for err
    by (rule safe_foldE) (use assms acc in \<open>auto intro: safe_fail_segment\<close>)
  show ?thesis
    unfolding segment_attempt_def acc prod.case
    using assms acc
    by (intro safe_bindE_any [OF safe_eraseSegment] safe_bindE_any [OF safe_writeSegment]
      safe_bindE_any [OF safe_verifySegment] safe_bindE [OF again] safe_ret) auto
qed

lemma safe_verify_only:
  assumes "set todo \<subseteq> set (rocs C)" and "segment_ok im off len"
  shows "safe t (flash_wf C im) any (verify_only C off len todo)"
  unfolding verify_only_def
  by (intro safe_bindE_any [OF safe_verifySegment] safe_forE safe_bindE_any [OF safe_alive] safe_whenE safe_primitive)
     (use assms in auto)

subsection \<open>Upload, activation and the whole session\<close>

text \<open>The geometry of segment \<open>k\<close> of an image the preflight accepted.\<close>

lemma segment_ok_upload:
  assumes fp: "footprintEnd p (length im) \<le> 2 ^ 32" and "even (length im)" and k: "k * segmentBytes < length im"
  shows "segment_ok im (word_of_nat (k * segmentBytes))
           (word_of_nat (min segmentBytes (length im - unat (word_of_nat (k * segmentBytes) :: u32))))"
proof -
  note off = segment_address(1) [OF fp k]
  have sz: "length im < 2 ^ 32"
    using fp paddedBytes_ge [of "length im"] by (simp add: footprintEnd_def segmentBytes_def)
  have ulen: "unat (word_of_nat (min segmentBytes (length im - k * segmentBytes)) :: u32)
      = min segmentBytes (length im - k * segmentBytes)"
    by (rule unat_of_nat_small) (simp add: segmentBytes_def min_less_iff_disj)
  have "even (min segmentBytes (length im - k * segmentBytes))"
    using assms(2) by (auto simp: min_def segmentBytes_def)
  moreover have "even (k * segmentBytes)" by (simp add: segmentBytes_def)
  moreover have "k * segmentBytes + min segmentBytes (length im - k * segmentBytes) \<le> length im"
    using k by simp
  ultimately show ?thesis using off ulen sz by (simp only: segment_ok_def simp_thms)
qed

lemma safe_upload_segment:
  assumes "footprintEnd (opt C) (length im) \<le> 2 ^ 32" and "even (length im)" and "k * segmentBytes < length im"
  shows "safe t (flash_wf C im) any (upload_segment C nSeg t0 k)"
proof -
  let ?off = "word_of_nat (k * segmentBytes) :: u32"
  let ?len = "word_of_nat (min segmentBytes (length im - unat ?off)) :: u32"
  note seg = segment_ok_upload [OF assms]
  have attempts: "safe t (flash_wf C im) any
      (repeatE n c (segment_attempt C ?off ?len) (1, todo))" if "set todo \<subseteq> set (rocs C)" for n c todo
    using that seg
    by (intro safe_repeatE [where P = "\<lambda>_ a. set (snd a) \<subseteq> set (rocs C)"] safe_segment_attempt) simp_all
  show ?thesis
    unfolding upload_segment_def Let_def
    apply (rule safe_bindE_gets)
    apply (simp only: flash_wf_def [THEN iffD1, THEN conjunct1])
    apply (rule safe_bindE [OF safe_foldAlive [OF subset_refl]])
    using seg
    by (intro safe_if safe_ret safe_seqE safe_bindE_any [OF attempts] safe_verify_only safe_percent safe_bind
        safe_whenE safe_noteLog) simp_all
qed

lemma safe_final_crc: "safe t (flash_wf C im) any (final_crc C)"
  unfolding final_crc_def final_crc_check_def
  by (intro safe_bindE_any safe_foldE safe_alive safe_bindE_gets safe_whenE safe_bind safe_parallelCrc
      safe_seqE safe_forE safe_primitive safe_ret) simp_all

lemma safe_upload:
  assumes "footprintEnd (opt C) (length im) \<le> 2 ^ 32" and "even (length im)"
  shows "safe t (flash_wf C im) any (upload C)"
proof -
  let ?n = "(length im + segmentBytes - 1) div segmentBytes"
  have loop: "safe t (flash_wf C im) any (repeatE ?n snd
      (\<lambda>(k, _). bindE (upload_segment C ?n t0 k) (\<lambda>go. ret (Suc k, go))) (0, True))" for t0
  proof (rule safe_repeatE [where i = 0 and P = "\<lambda>j acc. fst acc = j"])
    fix j and acc :: "nat \<times> bool" assume j: "j < 0 + ?n" and "fst acc = j"
    then obtain b where acc: "acc = (j, b)" by (cases acc) simp
    have "j * segmentBytes < length im"
      using j by (intro ceil_mult_less) (simp_all add: segmentBytes_def)
    then show "safe t (flash_wf C im) (\<lambda>a. fst a = Suc j)
        ((\<lambda>(k, _). bindE (upload_segment C ?n t0 k) (\<lambda>go. ret (Suc k, go))) acc)"
      unfolding acc prod.case
      by (intro safe_bindE_any [OF safe_upload_segment] assms safe_ret) simp_all
  qed simp_all
  show ?thesis
    unfolding upload_def Let_def
    apply (rule safe_bindE_gets)
    apply (simp only: flash_wf_def [THEN iffD1, THEN conjunct1])
    by (intro safe_bind safe_seqE safe_forE safe_bindE_any [OF safe_alive] safe_bindE_any [OF loop] safe_whenE
        safe_primitive safe_final_crc safe_ret) simp_all
qed

lemma safe_activate: "safe t (flash_wf C im) any (activate C)"
proof -
  have tr: "safe t (flash_wf C im) any (try_read C r a)" for t r a
    unfolding try_read_def by (intro safe_tryE safe_bind safe_ret) simp_all
  have rd: "safe t (flash_wf C im) any (iap_read C r)" for t r
    unfolding iap_read_def Let_def by (intro safe_bindE_any [OF tr] safe_case_option safe_ret) simp_all
  have decide: "safe t (flash_wf C im) any (iap_decide C r ms P L)" for t r ms P L
    unfolding iap_decide_def Let_def
    by (intro safe_if safe_ret safe_seqE safe_bindE_gets safe_primitive) simp_all
  have tails: "safe t (flash_wf C im) any (iap_auth_timeout C r ms P L)"
      "safe t (flash_wf C im) any (iap_resync C r ms L)"
      "safe t (flash_wf C im) any (iap_back_timeout C r ms P L)" for t r ms P L
    unfolding iap_auth_timeout_def iap_resync_def iap_back_timeout_def Let_def
    by (intro safe_if safe_ret safe_seqE safe_bindE_any safe_tryE safe_case_prod safe_primitive; simp)+
  have poll: "safe t (flash_wf C im) any (iap_poll_roc C x acc)" for t x acc
    unfolding iap_poll_roc_def
    by (intro safe_case_prod safe_case_prod_arg safe_if safe_ret safe_bind safe_bindE_any [OF rd]
        safe_bindE_any [OF decide] safe_bindE_any [OF tails(1)] safe_bindE_any [OF tails(2)]
        safe_bindE_any [OF tails(3)]) simp_all
  have send: "safe t (flash_wf C im) any (iap_send C r acc)" for t r acc
    unfolding iap_send_def
    by (intro safe_tryE safe_bind safe_seqE safe_bindE_any [OF safe_sendWhenIdle] safe_if safe_primitive safe_ret)
       simp_all
  show ?thesis
    unfolding activate_def iap_round_def
    by (intro safe_bindE_gets safe_bindE_any safe_foldE send poll safe_loopE safe_case_prod safe_if safe_ret
        safe_seqE safe_primitive) simp_all
qed

lemma fresh_results_has: "om_has (fresh_results rs) r \<longleftrightarrow> r \<in> set rs"
proof -
  have "om_has (fold (\<lambda>r. om_put r defaultResult) rs m) r \<longleftrightarrow> r \<in> set rs \<or> om_has m r" for m
    by (induction rs arbitrary: m) auto
  then show ?thesis by (simp add: fresh_results_def)
qed

lemma even_padded_image: "even (length (padded_image im))"
  by (simp add: padded_image_def) presburger

lemma safe_session_body:
  assumes "preflight_passes (opt C) im0"
  shows "safe False (flash_wf C (padded_image im0)) any (session_body C)"
  unfolding session_body_def
  using assms even_padded_image [of im0]
  by (intro safe_seqE safe_probeAll safe_upload safe_whenE safe_activate safe_gets)
     (simp_all add: preflight_passes_def)

lemma run_wf:
  assumes "preflight_passes (opt C) im"
  shows "flash_wf C (padded_image im) (snd (run C (new_session e im))) \<and> permits False any (fst (run C (new_session e im)))"
proof -
  obtain s1 where s1: "run C (new_session e im) = session_body C s1"
      "image s1 = padded_image im" "res s1 = fresh_results (rocs C)"
    using run_accepted [of C "new_session e im"] assms by (auto simp: new_session_def)
  then have "flash_wf C (padded_image im) s1"
    by (simp add: flash_wf_def fresh_results_has)
  from safeD [OF safe_session_body [OF assms] this] show ?thesis using s1(1) by simp
qed

text \<open>
  C18. Exceptions of a session: \<open>run\<close> throws exactly when the preflight rejects the image, and then
  not one call of a port has been made. A session the preflight accepts never throws, whatever the
  ports throw at it, and never indexes outside the image, a reply or a read-back piece.
\<close>
theorem run_throws_iff_rejected:
  "case run C (new_session e im) of (x, s') \<Rightarrow>
     (case x of
        Throw _ \<Rightarrow> \<not> preflight_passes (opt C) im \<and> trc s' = []
      | Undef \<Rightarrow> False
      | Ret _ \<Rightarrow> preflight_passes (opt C) im
      | Spin \<Rightarrow> preflight_passes (opt C) im)"
proof (cases "preflight_passes (opt C) im")
  case True
  then show ?thesis using run_wf [OF True, of e] by (cases "run C (new_session e im)") (auto split: outcome.splits)
next
  case False
  then have "\<not> preflight_passes (opt C) (image (new_session e im))" by (simp add: new_session_def)
  then obtain m s' where "run C (new_session e im) = (Throw m, s')" "trc s' = trc (new_session e im)"
    by (rule run_rejected)
  then show ?thesis using False by (simp add: new_session_def)
qed

end
