(* ===== verification/Program_Safe.thy ===== *)
theory Program_Safe
  imports Flash_Run
begin

section \<open>Program ROCs Safe: the front-end macro around a flash session\<close>

text \<open>
  \<^verbatim>\<open>DTCFrontEndInterface::ProgramROCsSafe\<close> and the adapters \<^verbatim>\<open>OtsRocPort\<close>, \<^verbatim>\<open>OtsDcsLock\<close> with which it
  runs a \<^verbatim>\<open>FlashSession\<close> (DTCFrontEndInterfaceImpl.cc): it selects the ROCs, takes the action lock of
  each, reads the image and its checksum, pauses the slow controls, runs the session and reports. A ROC
  is named by its position in \<^verbatim>\<open>rocs_\<close>; the address of its port is taken to be in the same order. The
  DTC library, the ROC objects and the file system are the record \<open>board\<close>. The scopes whose destructors
  release the locks and restore the slow controls are \<open>scopedE\<close>.
\<close>

record roc_dev =
  rd_uid :: string
  rd_link :: nat
  rd_polarfire :: bool

record 'e board =
  bd_readRegister :: "roc \<Rightarrow> u16 \<Rightarrow> 'e \<Rightarrow> (string + u16) \<times> 'e"
  bd_writeBlock :: "roc \<Rightarrow> u16 list \<Rightarrow> u16 \<Rightarrow> bool \<Rightarrow> 'e \<Rightarrow> (string + unit) \<times> 'e"
  bd_ReadROCBlock :: "nat \<Rightarrow> u16 \<Rightarrow> u16 \<Rightarrow> bool \<Rightarrow> int \<Rightarrow> 'e \<Rightarrow> (string + u16 list) \<times> 'e"
  bd_ResetSERDESTX :: "nat \<Rightarrow> 'e \<Rightarrow> (string + unit) \<times> 'e"
  bd_ResetSERDESRX :: "nat \<Rightarrow> 'e \<Rightarrow> (string + unit) \<times> 'e"
  bd_SoftReset :: "'e \<Rightarrow> (string + unit) \<times> 'e"
  bd_ReadSERDESRXCDRLock :: "nat \<Rightarrow> 'e \<Rightarrow> (string + bool) \<times> 'e"
  bd_begin_dcs :: "'e \<Rightarrow> 'e"
  bd_end_dcs :: "'e \<Rightarrow> 'e"
  bd_clock :: "'e \<Rightarrow> int"
  bd_sleep :: "int \<Rightarrow> 'e \<Rightarrow> 'e"
  bd_file :: "string \<Rightarrow> 'e \<Rightarrow> (string + u8 list) \<times> 'e"
  bd_word :: "string \<Rightarrow> 'e \<Rightarrow> string option \<times> 'e"

text \<open>The macro's state: the environment, the action locks of the ROC objects, the flag that lets the
  slow controls run, the ports made so far, and the history of the session's calls.\<close>

record 'e macro =
  ms_env :: 'e
  ms_locked :: "roc \<Rightarrow> bool"
  ms_slow :: bool
  ms_ports :: "roc list"
  ms_calls :: "io_event list"

type_synonym ('e, 'a) macro_eff = "('e macro, 'a) eff"

definition on_board :: "('e \<Rightarrow> (string + 'a) \<times> 'e) \<Rightarrow> ('e, 'a) macro_eff" where
  "on_board f s = (case f (ms_env s) of (x, e) \<Rightarrow> ((case x of Inl m \<Rightarrow> Throw m | Inr a \<Rightarrow> Ret a), s\<lparr>ms_env := e\<rparr>))"

subsection \<open>The port and the lock\<close>

definition port_label :: "roc_dev \<Rightarrow> string" where
  "port_label d = ''ROC '' @ [CHR 0x27] @ rd_uid d @ [CHR 0x27] @ '' link '' @ to_string (rd_link d)"

text \<open>The constructor takes the action lock of a PolarFire ROC or throws.\<close>

definition make_port :: "roc_dev list \<Rightarrow> roc \<Rightarrow> ('e, unit) macro_eff" where
  "make_port devs r =
     bindE (gets (\<lambda>s. ms_locked s r)) (\<lambda>locked.
     if rd_polarfire (devs ! r) \<and> locked
     then throw (port_label (devs ! r)
                 @ '': could not get the ROC action lock (is there an incomplete action?)'')
     else modify (\<lambda>s. s\<lparr>ms_locked := (if rd_polarfire (devs ! r) then (ms_locked s)(r := True) else ms_locked s),
                        ms_ports := ms_ports s @ [r]\<rparr>))"

text \<open>The destructors of the ports.\<close>

definition release_ports :: "roc_dev list \<Rightarrow> 'e macro \<Rightarrow> 'e macro" where
  "release_ports devs s = s\<lparr>ms_locked := (\<lambda>r. ms_locked s r \<and> \<not> (r \<in> set (ms_ports s) \<and> rd_polarfire (devs ! r))),
     ms_ports := []\<rparr>"

definition resync_link :: "'e board \<Rightarrow> nat \<Rightarrow> 'e \<Rightarrow> (string + bool \<times> string) \<times> 'e" where
  "resync_link B link e =
     (case bd_ResetSERDESTX B link e of
        (Inl m, e) \<Rightarrow> (Inl m, e)
      | (Inr _, e) \<Rightarrow> (case bd_ResetSERDESRX B link e of
          (Inl m, e) \<Rightarrow> (Inl m, e)
        | (Inr _, e) \<Rightarrow> (case bd_SoftReset B e of
            (Inl m, e) \<Rightarrow> (Inl m, e)
          | (Inr _, e) \<Rightarrow> (case bd_ReadSERDESRXCDRLock B link e of
              (Inl m, e) \<Rightarrow> (Inl m, e)
            | (Inr locked, e) \<Rightarrow>
                (Inr (True, ''SERDES reset + DTC SoftReset, RX CDR '' @ (if locked then ''locked'' else ''NOT locked'')), e)))))"

definition rocPorts :: "'e board \<Rightarrow> roc_dev list \<Rightarrow> 'e rocio" where
  "rocPorts B devs = \<lparr>
     port_name = (\<lambda>r. port_label (devs ! r)),
     port_readRegister = (\<lambda>r a. bd_readRegister B r a),
     port_writeBlock = (\<lambda>r w a. bd_writeBlock B r w a False),
     port_readBlock = (\<lambda>r a n. bd_ReadROCBlock B (rd_link (devs ! r)) a n False 200),
     port_resyncLink = (\<lambda>r. resync_link B (rd_link (devs ! r))),
     dcs_lock = bd_begin_dcs B, dcs_unlock = bd_end_dcs B,
     clock_now = bd_clock B, sleep_for = bd_sleep B\<rparr>"

subsection \<open>The arguments and the selection\<close>

record safe_args =
  sa_target :: u32
  sa_path :: string
  sa_sha256 :: string
  sa_start :: u32
  sa_write :: bool
  sa_program :: bool
  sa_version :: u16
  sa_quiet :: nat

definition selected :: "u32 \<Rightarrow> nat \<Rightarrow> bool" where
  "selected target link =
     (let usingRocMask = target \<noteq> - 1 \<and> target > 5 in
      (\<not> usingRocMask \<and> (target = - 1 \<or> word_of_nat link = target))
      \<or> (usingRocMask \<and> push_bit (link * 4) 1 AND target \<noteq> 0))"

definition targets :: "roc_dev list \<Rightarrow> u32 \<Rightarrow> roc list" where
  "targets devs target = filter (\<lambda>r. selected target (rd_link (devs ! r))) [0..<length devs]"

definition safe_options :: "safe_args \<Rightarrow> string \<Rightarrow> FlashOptions" where
  "safe_options a sha = defaultOptions\<lparr>writeImage := sa_write a, startAddress := sa_start a, expectedSha256 := sha,
     program := sa_program a, expectedFwVersion := sa_version a\<rparr>"

definition nothing_sent :: "string \<Rightarrow> string" where
  "nothing_sent e = ''Program ROCs Safe stopped before sending anything: '' @ e @ [CHR 0x0A]"

definition take_ports :: "roc_dev list \<Rightarrow> u32 \<Rightarrow> ('e, unit) macro_eff" where
  "take_ports devs target = forE (targets devs target) (\<lambda>r. tryE (make_port devs r) (\<lambda>e. throw (nothing_sent e)))"

subsection \<open>The image and its checksum\<close>

definition read_image :: "'e board \<Rightarrow> string \<Rightarrow> ('e, u8 list) macro_eff" where
  "read_image B path = tryE (on_board (bd_file B path))
     (\<lambda>e. throw (''Could not open the SPI image '' @ [CHR 0x27] @ path @ [CHR 0x27] @ '': '' @ e @ [CHR 0x0A]))"

definition expected_sha :: "'e board \<Rightarrow> safe_args \<Rightarrow> ('e, string) macro_eff" where
  "expected_sha B a =
     (if sa_sha256 a = [] \<or> sa_sha256 a = ''Default''
      then (\<lambda>s. case bd_word B (sa_path a @ ''.sha256'') (ms_env s) of
        (None, e) \<Rightarrow> (Throw (''No SHA-256 given and no '' @ [CHR 0x27] @ sa_path a @ ''.sha256'' @ [CHR 0x27]
            @ '' next to the image: refusing to flash an unchecked file.'' @ [CHR 0x0A]), s\<lparr>ms_env := e\<rparr>)
      | (Some w, e) \<Rightarrow> (Ret w, s\<lparr>ms_env := e\<rparr>))
      else ret (sa_sha256 a))"

subsection \<open>The session and the report\<close>

text \<open>The session gets the environment and hands it back; its summary leaves it alone.\<close>

definition run_session :: "'e flash \<Rightarrow> u8 list \<Rightarrow> ('e, bool \<times> 'e session) macro_eff" where
  "run_session C im s =
     (case run C (new_session (ms_env s) im) of (x, ses) \<Rightarrow>
        ((case x of Ret ok \<Rightarrow> Ret (ok, ses) | Throw e \<Rightarrow> Throw (nothing_sent e) | Undef \<Rightarrow> Undef | Spin \<Rightarrow> Spin),
         s\<lparr>ms_env := envr ses, ms_calls := trc ses\<rparr>))"

definition session_summary :: "'e flash \<Rightarrow> 'e session \<Rightarrow> ('e, string) macro_eff" where
  "session_summary C ses s =
     ((case fst (summary C ses) of Ret t \<Rightarrow> Ret t | Throw m \<Rightarrow> Throw m | Undef \<Rightarrow> Undef | Spin \<Rightarrow> Spin), s)"

definition report_session :: "'e board \<Rightarrow> 'e flash \<Rightarrow> bool \<Rightarrow> 'e session \<Rightarrow> ('e, string) macro_eff" where
  "report_session B C allOk ses =
     bindE (whenE (program (opt C)) (on_board (bd_SoftReset B))) (\<lambda>_.
     bindE (session_summary C ses) (\<lambda>t.
     let results = (if allOk then ''ALL OK'' else ''SOME ROCs FAILED (not programmed unless stated)'') @ [CHR 0x0A] @ t in
     if \<not> allOk then throw (''Program ROCs Safe: '' @ results @ [CHR 0x0A]) else ret results))"

text \<open>The scope \<^verbatim>\<open>SlowControlsPause\<close>: the flag is lowered, and restored on leaving.\<close>

definition paused :: "('e, 'a) macro_eff \<Rightarrow> ('e, 'a) macro_eff" where
  "paused m s = (case m (s\<lparr>ms_slow := False\<rparr>) of (x, s') \<Rightarrow> (x, s'\<lparr>ms_slow := ms_slow s\<rparr>))"

definition flash_ports :: "'e board \<Rightarrow> nat \<Rightarrow> roc_dev list \<Rightarrow> safe_args \<Rightarrow> string \<Rightarrow> u8 list \<Rightarrow> bool \<Rightarrow> ('e, string) macro_eff" where
  "flash_ports B n devs a sha im wasRunning =
     bindE (whenE wasRunning (modify (\<lambda>s. s\<lparr>ms_env := bd_sleep B (int (sa_quiet a) * 1000) (ms_env s)\<rparr>))) (\<lambda>_.
     bindE (gets ms_ports) (\<lambda>ports.
     let C = \<lparr>rocs = ports, opt = safe_options a sha, io = rocPorts B devs, fuel = n\<rparr> in
     bindE (run_session C im) (\<lambda>(allOk, ses). report_session B C allOk ses)))"

definition program_selected :: "'e board \<Rightarrow> nat \<Rightarrow> roc_dev list \<Rightarrow> safe_args \<Rightarrow> ('e, string) macro_eff" where
  "program_selected B n devs a =
     bindE (take_ports devs (sa_target a)) (\<lambda>_.
     bindE (gets ms_ports) (\<lambda>ports.
     if ports = []
     then throw (''Target ROC or Mask 0x'' @ radix_string 16 (unat (sa_target a)) @ '' matches no enabled ROC of this DTC.'' @ [CHR 0x0A])
     else bindE (read_image B (sa_path a)) (\<lambda>im.
          bindE (expected_sha B a) (\<lambda>sha.
          bindE (gets ms_slow) (\<lambda>wasRunning.
          paused (flash_ports B n devs a sha im wasRunning))))))"

definition ProgramROCsSafe :: "'e board \<Rightarrow> nat \<Rightarrow> roc_dev list \<Rightarrow> safe_args \<Rightarrow> ('e, string) macro_eff" where
  "ProgramROCsSafe B n devs a =
     scopedE (\<lambda>s. s\<lparr>ms_ports := [], ms_calls := []\<rparr>) (release_ports devs) (program_selected B n devs a)"

end
