(* ===== verification/Flash_Ports.thy ===== *)
theory Flash_Ports
  imports Flash_Safety
begin

section \<open>A session accesses no ROC but its own\<close>

text \<open>
  Every read, write, block read and link reset of a session goes to one of the ports it was given. Which ROCs a
  step accesses comes from the lists and maps of the steps before it; \<open>stays R P m\<close> says that \<open>m\<close> accesses only ROCs of
  \<open>R\<close> and returns a value with \<open>P\<close>, by which the ROCs in those lists and maps are followed.
\<close>

subsection \<open>Accesses\<close>

fun event_in :: "roc set \<Rightarrow> io_event \<Rightarrow> bool" where
  "event_in R (RdReg r a x) = (r \<in> R)"
| "event_in R (WrBlk r c a x) = (r \<in> R)"
| "event_in R (RdBlk r a n x) = (r \<in> R)"
| "event_in R (Resync r) = (r \<in> R)"
| "event_in R e = True"

definition inside :: "roc set \<Rightarrow> 'e session \<Rightarrow> bool" where
  "inside R s \<longleftrightarrow> list_all (event_in R) (trc s)"

definition stays :: "roc set \<Rightarrow> ('a \<Rightarrow> bool) \<Rightarrow> ('e, 'a) flash_eff \<Rightarrow> bool" where
  "stays R P m \<longleftrightarrow> (\<forall>s. inside R s \<longrightarrow> inside R (snd (m s)) \<and> (\<forall>a. fst (m s) = Ret a \<longrightarrow> P a))"

abbreviation visits :: "roc set \<Rightarrow> ('e, 'a) flash_eff \<Rightarrow> bool" where
  "visits R \<equiv> stays R (\<lambda>_. True)"

named_theorems stay_intros \<open>an effect accesses only given ROCs\<close>

lemma stayD:
  assumes "stays R P m" "inside R s"
  shows "inside R (snd (m s))" "fst (m s) = Ret a \<Longrightarrow> P a"
  using assms by (simp_all add: stays_def)

lemma stay_bind:
  assumes m: "stays R Q (m :: ('e, 'q) flash_eff)" and k: "\<And>a. Q a \<Longrightarrow> stays R P (k a)"
  shows "stays R P (bindE m k)"
  unfolding stays_def
proof (intro allI impI)
  fix s :: "'e session"
  assume s: "inside R s"
  show "inside R (snd (bindE m k s)) \<and> (\<forall>a. fst (bindE m k s) = Ret a \<longrightarrow> P a)"
  proof (cases "fst (m s)")
    case (Ret a)
    have "stays R P (k a)" using k stayD(2) [OF m s Ret] .
    then show ?thesis using stayD [OF _ stayD(1) [OF m s], of P "k a"] Ret by (simp add: bindE_cases)
  qed (use stayD(1) [OF m s] in \<open>simp_all add: bindE_cases\<close>)
qed

lemma stay_then: "visits R m \<Longrightarrow> (\<And>a. stays R P (k a)) \<Longrightarrow> stays R P (bindE m k)"
  by (rule stay_bind)

lemma stay_seq [stay_intros]: "visits R m \<Longrightarrow> stays R P k \<Longrightarrow> stays R P (seqE m k)"
  unfolding seqE_def by (rule stay_then)

lemma stay_ret [stay_intros]: "P a \<Longrightarrow> stays R P (ret a)"
  by (simp add: stays_def ret_def)

lemma stay_gets: "(\<And>s. P (f s)) \<Longrightarrow> stays R P (gets f)"
  by (simp add: stays_def gets_def)

lemma stay_gets_then [stay_intros]: "(\<And>s. stays R P (k (f s))) \<Longrightarrow> stays R P (bindE (gets f) k)"
  by (simp add: stays_def bindE_def gets_def)

lemma stay_elements [stay_intros]: "visits R (at xs i)" "visits R (slice xs i j)" "stays R P spin"
  by (simp_all add: stays_def at_def slice_def spin_def ret_def undefined_behaviour_def)

lemma stay_try [stay_intros]: "stays R P m \<Longrightarrow> (\<And>e. stays R P (h' e)) \<Longrightarrow> stays R P (tryE m h')"
  by (simp add: stays_def tryE_cases split: outcome.split) blast

lemma stay_control [stay_intros]:
  "(b \<Longrightarrow> stays R P m) \<Longrightarrow> (\<not> b \<Longrightarrow> stays R P k) \<Longrightarrow> stays R P (if b then m else k)"
  "(b \<Longrightarrow> visits R u) \<Longrightarrow> visits R (whenE b u)"
  "stays R P m \<Longrightarrow> (\<And>a. stays R P (g1 a)) \<Longrightarrow> stays R P (case p of None \<Rightarrow> m | Some a \<Rightarrow> g1 a)"
  "(\<And>a c. q = (a, c) \<Longrightarrow> stays R P (g2 a c)) \<Longrightarrow> stays R P (case q of (a, c) \<Rightarrow> g2 a c)"
  "(\<And>a c. q = (a, c) \<Longrightarrow> stays R P (g3 a c y)) \<Longrightarrow> stays R P ((case q of (a, c) \<Rightarrow> g3 a c) y)"
  by (simp_all add: whenE_def stay_ret split: option.split prod.split)

lemma stay_fold:
  "P acc \<Longrightarrow> (\<And>x acc. x \<in> set xs \<Longrightarrow> P acc \<Longrightarrow> stays R P (f x acc)) \<Longrightarrow> stays R P (foldE f xs acc)"
  by (induction xs arbitrary: acc) (auto intro: stay_ret stay_bind)

lemma stay_for [stay_intros]: "(\<And>x. x \<in> set xs \<Longrightarrow> visits R (f x)) \<Longrightarrow> visits R (forE xs f)"
  unfolding forE_def by (rule stay_fold) simp_all

lemma stay_repeat: "P acc \<Longrightarrow> (\<And>acc. P acc \<Longrightarrow> stays R P (b acc)) \<Longrightarrow> stays R P (repeatE n c b acc)"
  by (induction n arbitrary: acc) (auto intro: stay_ret stay_bind)

lemma stay_loop [stay_intros]: "(\<And>l. visits R (b l)) \<Longrightarrow> visits R (loopE n b l)"
  by (induction n arbitrary: l) (auto simp: stays_def [of R _ "\<lambda>s. (Spin, s)"] split: sum.split intro!: stay_ret stay_then)

lemma stay_any: "stays R P m \<Longrightarrow> visits R m"
  by (simp add: stays_def)

subsection \<open>The calls of a port\<close>

lemma stay_call: "(\<And>x. event_in R (ev x)) \<Longrightarrow> visits R (port_call f ev)"
  by (auto simp: stays_def port_call_def inside_def split: prod.split)

lemma stay_modify: "(\<And>s. trc (f s) = trc s) \<Longrightarrow> visits R (modify f)"
  by (simp add: stays_def modify_def inside_def)

lemma stay_ports [stay_intros]:
  "r \<in> R \<Longrightarrow> visits R (readRegister C r a)" "r \<in> R \<Longrightarrow> visits R (writeBlock C r c a)" "r \<in> R \<Longrightarrow> visits R (readBlock C r a n)"
  "r \<in> R \<Longrightarrow> visits R (resyncLink C r)"
  unfolding readRegister_def writeBlock_def readBlock_def resyncLink_def by (auto intro: stay_call)

lemma stay_notes [stay_intros]:
  "visits R (setResult r g)" "visits R (noteLog t)" "visits R (modify (\<lambda>s. s\<lparr>percent := h1 s\<rparr>))" "visits R (modify (\<lambda>s. s\<lparr>verBefore := h2 s\<rparr>))"
  unfolding setResult_def noteLog_def by (rule stay_modify; simp)+

lemma stay_more_notes [stay_intros]: "visits R (noteRoc C r t)" "visits R (fail C r t)"
  unfolding noteRoc_def fail_def by (intro stay_intros)+

lemma stay_time [stay_intros]: "visits R (sleepMs C ms)" "visits R (now C)" "visits R (msSince C t0)" "visits R nextTag"
  by (simp_all add: stays_def inside_def sleepMs_def modify_def now_def msSince_def gets_def nextTag_def Let_def)

lemma stay_alive [stay_intros]: "visits R (alive r)"
  by (simp add: stays_def alive_def split: option.split)

lemma stay_held: "stays R P m \<Longrightarrow> stays R P (held C m)"
  for C :: "'e flash"
  unfolding stays_def
proof (intro allI impI)
  fix s :: "'e session"
  assume m: "\<forall>s. inside R s \<longrightarrow> inside R (snd (m s)) \<and> (\<forall>a. fst (m s) = Ret a \<longrightarrow> P a)" and "inside R s"
  then have "inside R (lock_on C s)" by (simp add: inside_def lock_on_def)
  with m have "inside R (snd (m (lock_on C s))) \<and> (\<forall>a. fst (m (lock_on C s)) = Ret a \<longrightarrow> P a)" by blast
  then show "inside R (snd (held C m s)) \<and> (\<forall>a. fst (held C m s) = Ret a \<longrightarrow> P a)"
    by (cases "m (lock_on C s)") (simp add: held_def scopedE_def inside_def lock_off_def)
qed

subsection \<open>Commands and replies\<close>

lemma stay_locked [stay_intros]:
  "r \<in> R \<Longrightarrow> visits R (drain_locked C r)" "r \<in> R \<Longrightarrow> visits R (send_locked C r c)" "r \<in> R \<Longrightarrow> visits R (reply_locked C r n)"
  unfolding drain_locked_def send_locked_def reply_locked_def Let_def
  by (intro stay_held stay_intros stay_then; simp)+

lemma stay_waits [stay_intros]:
  "r \<in> R \<Longrightarrow> visits R (waitIdle C r t)" "r \<in> R \<Longrightarrow> visits R (readReply C r n)" "r \<in> R \<Longrightarrow> visits R (no_reply C r t)"
  unfolding waitIdle_def waitIdle_round_def readReply_def no_reply_def Let_def
  by (intro stay_intros stay_then; simp)+

lemma stay_sends [stay_intros]: "r \<in> R \<Longrightarrow> visits R (sendWhenIdle C r c t)" "r \<in> R \<Longrightarrow> visits R (sendTagged C r c tag)"
  unfolding sendTagged_def sendWhenIdle_def sendWhenIdle_round_def Let_def
  by (intro stay_intros stay_then; simp)+

lemma stay_collects [stay_intros]:
  "r \<in> R \<Longrightarrow> visits R (collectTagged C r tag n t)" "r \<in> R \<Longrightarrow> visits R (waitTaggedResult C r tag t)"
  unfolding collectTagged_def collectTagged_round_def waitTaggedResult_def waitTaggedResult_round_def Let_def
  by (intro stay_intros stay_then; simp)+

subsection \<open>The ROCs in lists and maps\<close>

definition keys_in :: "roc set \<Rightarrow> (roc, 'v) omap \<Rightarrow> bool" where
  "keys_in R m \<longleftrightarrow> fst ` set m \<subseteq> R"

lemma keys_in_put [simp]: "keys_in R []" "keys_in R (om_put r v m) \<longleftrightarrow> r \<in> R \<and> keys_in R m"
  by (simp_all add: keys_in_def keys_om_put)

lemma key_in: "(r, x) \<in> set m \<Longrightarrow> keys_in R m \<Longrightarrow> r \<in> R"
  by (force simp: keys_in_def)

lemma stay_crc_send:
  assumes "r \<in> R" "keys_in R (fst acc)" "set (fst (snd acc)) \<subseteq> R"
  shows "stays R (\<lambda>a. keys_in R (fst a) \<and> set (fst (snd a)) \<subseteq> R) (crc_send C addr len r acc)"
  using assms unfolding crc_send_def
  by (cases acc) (auto intro!: stay_intros stay_then split: if_splits)

lemma stay_crc_collect:
  assumes "fst x \<in> R" "set (fst acc) \<subseteq> R"
  shows "stays R (\<lambda>a. set (fst a) \<subseteq> R) (crc_collect C want t x acc)"
  using assms unfolding crc_collect_def crc_verdict_def Let_def
  by (cases x; cases acc) (auto intro!: stay_intros stay_then split: if_splits)

lemma stay_crc_round:
  assumes "set (fst acc) \<subseteq> R"
  shows "stays R (\<lambda>a. set (fst a) \<subseteq> R) (crc_round C addr len want t acc)"
proof (cases acc)
  case (Pair todo verdict)
  have send: "stays R (\<lambda>a. keys_in R (fst a) \<and> set (fst (snd a)) \<subseteq> R) (foldE (crc_send C addr len) todo ([], [], verdict))"
    by (rule stay_fold) (use assms Pair in \<open>auto intro: stay_crc_send\<close>)
  have collect: "stays R (\<lambda>a. set (fst a) \<subseteq> R) (foldE (crc_collect C want t) tags (again, v))"
    if "keys_in R tags" "set again \<subseteq> R" for tags again v
    by (rule stay_fold) (use that key_in in \<open>auto intro!: stay_crc_collect\<close>)
  show ?thesis
    unfolding crc_round_def Pair prod.case
    by (rule stay_bind [OF send]) (auto intro: collect)
qed

lemma stay_parallelCrc: "set rs \<subseteq> R \<Longrightarrow> visits R (parallelCrc C rs addr len want t n)"
  unfolding parallelCrc_def
  by (rule stay_then [OF stay_any [OF stay_repeat [where P = "\<lambda>a. set (fst a) \<subseteq> R"]]])
    (auto intro: stay_crc_round stay_ret)

lemma stay_waitLegacyAll: "keys_in R sent \<Longrightarrow> visits R (waitLegacyAll C sent t mn what err)"
proof -
  assume R: "keys_in R sent"
  have poll: "visits R (waitLegacy_poll C t mn what x L)" if "x \<in> set sent" for x L
    using that key_in [OF _ R] unfolding waitLegacy_poll_def Let_def
    by (cases x) (auto intro!: stay_intros stay_then)
  show ?thesis
    unfolding waitLegacyAll_def waitLegacyAll_round_def
    by (intro stay_intros stay_then stay_fold poll) simp_all
qed

subsection \<open>Probe\<close>

lemma stay_probe_send:
  assumes "r \<in> R" "keys_in R tags"
  shows "stays R (\<lambda>m. keys_in R m) (probe_send C r tags)"
  using assms unfolding probe_send_def by (auto intro!: stay_intros stay_then split: if_splits)

lemma stay_probe_answer: "fst x \<in> R \<Longrightarrow> visits R (probe_answer C x acc)"
  unfolding probe_answer_def by (cases x) (auto intro!: stay_intros stay_then)

lemma stay_probe_finish: "r \<in> R \<Longrightarrow> visits R (probe_finish C r)"
  unfolding probe_finish_def probeLegacyReadSize_def legacySize_round_def Let_def by (auto intro!: stay_intros stay_then)

lemma stay_probeAll: "set (rocs C) \<subseteq> R \<Longrightarrow> visits R (probeAll C)"
proof -
  assume R: "set (rocs C) \<subseteq> R"
  have send: "stays R (\<lambda>m. keys_in R m) (foldE (probe_send C) (rocs C) [])"
    by (rule stay_fold) (use R in \<open>auto intro!: stay_probe_send\<close>)
  show ?thesis
    unfolding probeAll_def
  proof (rule stay_bind [OF send])
    fix tags :: "(roc, u16) omap"
    assume tags: "keys_in R tags"
    have answer: "visits R (foldE (probe_answer C) tags a)" for a
      by (rule stay_fold) (use key_in [OF _ tags] in \<open>auto intro!: stay_probe_answer\<close>)
    have finish: "visits R (probe_finish C r)" if "(r, x) \<in> set tags" for r x
      using stay_probe_finish key_in [OF that tags] .
    show "visits R (bindE (now C) (\<lambda>t0. seqE (loopE (fuel C) (probe_round C tags t0) []) (forE tags (\<lambda>(r, _). probe_finish C r))))"
      unfolding probe_round_def by (intro stay_intros stay_then answer) (auto intro: finish)
  qed
qed

subsection \<open>Erase and write\<close>

lemma stay_with_tag: "visits R (with_tag b r c tags)"
  unfolding with_tag_def by (intro stay_intros stay_then TrueI)

lemma stay_erase_send:
  assumes "r \<in> R" "keys_in R (fst (snd acc))"
  shows "stays R (\<lambda>a. keys_in R (fst (snd a))) (erase_send C addr r acc)"
  using assms unfolding erase_send_def Let_def
  by (cases acc) (auto intro!: stay_intros stay_then [OF stay_with_tag] stay_then)

lemma stay_write_send:
  assumes "r \<in> R" "keys_in R (fst (snd acc))"
  shows "stays R (\<lambda>a. keys_in R (fst (snd a))) (write_send C c r acc)"
  using assms unfolding write_send_def Let_def
  by (cases acc) (auto intro!: stay_intros stay_then [OF stay_with_tag] stay_then [OF stay_alive] stay_then)

lemma stay_tagged_result:
  assumes "fst x \<in> R" "keys_in R (fst acc)"
  shows "stays R (\<lambda>a. keys_in R (fst a)) (tagged_result C tags t what x acc)"
  using assms unfolding tagged_result_def
  by (cases x; cases acc) (auto intro!: stay_intros stay_then)

lemma stay_results:
  assumes "keys_in R sent"
  shows "stays R (\<lambda>a. keys_in R (fst a)) (foldE (tagged_result C tags t what) sent ([], err))"
  by (rule stay_fold) (use assms key_in in \<open>auto intro!: stay_tagged_result\<close>)

lemma stay_eraseSegment: "set rs \<subseteq> R \<Longrightarrow> visits R (eraseSegment C rs off err)"
proof -
  assume R: "set rs \<subseteq> R"
  have send: "stays R (\<lambda>a. keys_in R (fst (snd a))) (foldE (erase_send C addr) rs ([], [], err))" for addr
    by (rule stay_fold) (use R in \<open>auto intro!: stay_erase_send\<close>)
  show ?thesis
    unfolding eraseSegment_def Let_def
    by (rule stay_bind [OF send], clarsimp, rule stay_bind [OF stay_results], assumption, clarsimp, erule stay_waitLegacyAll)
qed

lemma stay_writeRecord: "set rs \<subseteq> R \<Longrightarrow> visits R (writeRecord C rs off len rec err)"
proof -
  assume R: "set rs \<subseteq> R"
  have send: "stays R (\<lambda>a. keys_in R (fst (snd a))) (foldE (write_send C c) rs ([], [], err))" for c
    by (rule stay_fold) (use R in \<open>auto intro!: stay_write_send\<close>)
  have word: "visits R (image_word C k)" for k
    unfolding image_word_def by (intro stay_intros stay_then TrueI)
  have words: "visits R (foldE (\<lambda>i acc. bindE (image_word C (k i)) (\<lambda>w. ret (acc @ [w]))) xs c)" for k xs c
    by (intro stay_fold stay_then [OF word] stay_ret) simp_all
  show ?thesis
    unfolding writeRecord_def Let_def
    by (rule stay_then [OF words], rule stay_bind [OF send], clarsimp, rule stay_bind [OF stay_results], assumption, clarsimp,
        erule stay_waitLegacyAll)
qed

lemma stay_writeSegment: "set rs \<subseteq> R \<Longrightarrow> visits R (writeSegment C rs off len err)"
  unfolding writeSegment_def by (rule stay_fold) (auto intro: stay_writeRecord)

subsection \<open>Verify\<close>

lemma stay_verify_split:
  assumes "r \<in> R" "set (fst acc) \<subseteq> R \<and> set (snd acc) \<subseteq> R"
  shows "stays R (\<lambda>a. set (fst a) \<subseteq> R \<and> set (snd a) \<subseteq> R) (verify_split err r acc)"
  using assms unfolding verify_split_def
  by (cases acc) (auto intro!: stay_intros stay_then [OF stay_alive] split: if_splits)

lemma stay_piece: "r \<in> R \<Longrightarrow> visits R (collectPieceMismatch C r fo n)"
proof -
  assume r: "r \<in> R"
  have "visits R (compare_word C addr fo w acc)" for addr w acc
    unfolding compare_word_def expected_word_def by (intro stay_intros stay_then TrueI)
  then have compare: "visits R (repeatE k c (compare_word C addr fo w) acc)" for k c addr w acc
    by (intro stay_repeat) simp_all
  show ?thesis
    using r unfolding collectPieceMismatch_def readBack_round_def Let_def
    by (intro stay_intros stay_then compare; simp)
qed

lemma stay_readBack_send:
  assumes "r \<in> R" "set (fst acc) \<subseteq> R \<and> set (fst (snd acc)) \<subseteq> R"
  shows "stays R (\<lambda>a. set (fst a) \<subseteq> R \<and> set (fst (snd a)) \<subseteq> R) (readBack_send C addr n r acc)"
  using assms unfolding readBack_send_def
  by (cases acc) (auto intro!: stay_intros stay_then split: if_splits)

lemma stay_readBack_collect:
  assumes "r \<in> R" "set (fst acc) \<subseteq> R"
  shows "stays R (\<lambda>a. set (fst a) \<subseteq> R) (readBack_collect C fo n r acc)"
  using assms unfolding readBack_collect_def
  by (cases acc) (auto intro!: stay_intros stay_then [OF stay_try] stay_then [OF stay_piece] split: if_splits)

lemma stay_readBack_attempt:
  assumes "set (fst acc) \<subseteq> R"
  shows "stays R (\<lambda>a. set (fst a) \<subseteq> R) (readBack_attempt C addr fo n acc)"
proof (cases acc)
  case (Pair pending last_errs)
  have send: "stays R (\<lambda>a. set (fst a) \<subseteq> R \<and> set (fst (snd a)) \<subseteq> R) (foldE (readBack_send C addr n) pending ([], [], last_errs))"
    by (rule stay_fold) (use assms Pair in \<open>auto intro!: stay_readBack_send\<close>)
  have collect: "stays R (\<lambda>a. set (fst a) \<subseteq> R) (foldE (readBack_collect C fo n) sent (again, v))"
    if "set sent \<subseteq> R" "set again \<subseteq> R" for sent again v
    by (rule stay_fold) (use that in \<open>auto intro!: stay_readBack_collect\<close>)
  show ?thesis
    unfolding readBack_attempt_def Pair prod.case
    by (rule stay_bind [OF send]) (auto intro: collect)
qed

lemma stay_readBack_piece:
  assumes "set (fst (snd acc)) \<subseteq> R"
  shows "stays R (\<lambda>a. set (fst (snd a)) \<subseteq> R) (readBack_piece C off len piece acc)"
proof (cases acc)
  case (fields p rb err)
  have "stays R (\<lambda>a. set (fst a) \<subseteq> R) (repeatE 4 c (readBack_attempt C a1 a2 n) (rb, []))" for c a1 a2 n
    by (rule stay_repeat) (use assms fields in \<open>auto intro: stay_readBack_attempt\<close>)
  then show ?thesis
    using assms fields unfolding readBack_piece_def fields prod.case Let_def
    by (intro stay_then [OF stay_any]) (auto intro!: stay_intros)
qed

lemma stay_verifySegment: "set rs \<subseteq> R \<Longrightarrow> visits R (verifySegment C rs off len err)"
proof -
  assume R: "set rs \<subseteq> R"
  have split: "stays R (\<lambda>a. set (fst a) \<subseteq> R \<and> set (snd a) \<subseteq> R) (foldE (verify_split err) rs ([], []))"
    by (rule stay_fold) (use R in \<open>auto intro!: stay_verify_split\<close>)
  have pieces: "visits R (repeatE k c (readBack_piece C off len piece) (p, rb, e))" if "set rb \<subseteq> R" for k c piece p rb e
    by (rule stay_any [OF stay_repeat [where P = "\<lambda>a. set (fst (snd a)) \<subseteq> R"]]) (use that in \<open>auto intro: stay_readBack_piece\<close>)
  show ?thesis
    unfolding verifySegment_def
  proof (rule stay_bind [OF split])
    fix a :: "roc list \<times> roc list"
    assume a: "set (fst a) \<subseteq> R \<and> set (snd a) \<subseteq> R"
    obtain crcRocs rbRocs where p: "a = (crcRocs, rbRocs)" by (cases a)
    then have in_R: "set crcRocs \<subseteq> R" "set rbRocs \<subseteq> R" using a by simp_all
    show "visits R (case a of (crcRocs, rbRocs) \<Rightarrow>
     bindE (if crcRocs = [] then ret err
            else
              bindE (gets image) (\<lambda>im.
              bindE (slice im (unat off) (unat len)) (\<lambda>content.
              bindE (parallelCrc C crcRocs (startAddress (opt C) + off) len (crc32 content 0)
                       (crcSegmentTimeoutMs (opt C)) 2) (\<lambda>chk.
              ret (fold (\<lambda>r e. if om_at [] chk r \<noteq> [] then om_put r (om_at [] chk r) e else e)
                     crcRocs err))))) (\<lambda>err.
     bindE (gets (\<lambda>s. foldl (\<lambda>p r. min p (readBytes (resultOf r s))) 1016 rbRocs)) (\<lambda>piece.
     if piece = 0 \<and> len \<noteq> 0 \<and> rbRocs \<noteq> [] then spin
     else bindE (repeatE (length (piece_starts (unat len) (unat piece))) (\<lambda>(_, rb, _). rb \<noteq> [])
                   (readBack_piece C off len piece) (0, rbRocs, err)) (\<lambda>(_, _, err). ret err))))"
      unfolding p prod.case
      by (intro stay_intros stay_then stay_parallelCrc pieces in_R TrueI)
  qed
qed

subsection \<open>The upload\<close>

lemma stay_foldAlive: "set rs \<subseteq> R \<Longrightarrow> stays R (\<lambda>rs. set rs \<subseteq> R) (foldAlive rs)"
  unfolding foldAlive_def by (rule stay_fold) (auto intro!: stay_intros stay_then [OF stay_alive] split: if_splits)

lemma stay_fail_segment:
  assumes "r \<in> R" "set again \<subseteq> R"
  shows "stays R (\<lambda>rs. set rs \<subseteq> R) (fail_segment C off attempt err r again)"
  using assms unfolding fail_segment_def Let_def by (auto intro!: stay_intros stay_then [OF stay_alive])

lemma stay_segment_attempt:
  assumes "set (snd acc) \<subseteq> R"
  shows "stays R (\<lambda>a. set (snd a) \<subseteq> R) (segment_attempt C off len acc)"
proof (cases acc)
  case (Pair attempt todo)
  then have todo: "set todo \<subseteq> R" using assms by simp
  have again: "stays R (\<lambda>rs. set rs \<subseteq> R) (foldE (fail_segment C off attempt err) todo [])" for err
    by (rule stay_fold) (use todo in \<open>auto intro!: stay_fail_segment\<close>)
  show ?thesis
    unfolding segment_attempt_def Pair prod.case
    by (intro stay_then [OF stay_eraseSegment] stay_then [OF stay_writeSegment] stay_then [OF stay_verifySegment] todo,
        rule stay_bind [OF again]) (simp add: stay_ret)
qed

lemma stay_verify_only: "set todo \<subseteq> R \<Longrightarrow> visits R (verify_only C off len todo)"
  unfolding verify_only_def by (intro stay_then [OF stay_verifySegment] stay_intros stay_then [OF stay_alive]) simp_all

lemma stay_upload_segment: "set (rocs C) \<subseteq> R \<Longrightarrow> visits R (upload_segment C nSeg t0 k)"
proof -
  assume R: "set (rocs C) \<subseteq> R"
  have tries: "visits R (repeatE m c (segment_attempt C off len) (1, todo))" if "set todo \<subseteq> R" for m c off len todo
    by (rule stay_any [OF stay_repeat [where P = "\<lambda>a. set (snd a) \<subseteq> R"]]) (use that in \<open>auto intro: stay_segment_attempt\<close>)
  show ?thesis
    unfolding upload_segment_def Let_def
    by (rule stay_gets_then, rule stay_bind [OF stay_foldAlive [OF R]])
      (intro stay_intros stay_then [OF tries] stay_then [OF stay_time(3)] stay_verify_only TrueI; assumption)
qed

lemma stay_final_crc: "set (rocs C) \<subseteq> R \<Longrightarrow> visits R (final_crc C)"
proof -
  assume R: "set (rocs C) \<subseteq> R"
  have "stays R (\<lambda>rs. set rs \<subseteq> R) (foldE (\<lambda>r acc. bindE (alive r) (\<lambda>a. bindE (gets (\<lambda>s. newMiv (resultOf r s))) (\<lambda>isNew.
     ret (if a \<and> isNew then acc @ [r] else acc)))) (rocs C) [])"
    by (rule stay_fold) (use R in \<open>auto intro!: stay_intros stay_then [OF stay_alive] split: if_splits\<close>)
  then show ?thesis
    unfolding final_crc_def final_crc_check_def
    by (rule stay_bind) (intro stay_intros stay_then stay_parallelCrc; assumption)
qed

lemma stay_upload: "set (rocs C) \<subseteq> R \<Longrightarrow> visits R (upload C)"
proof -
  assume R: "set (rocs C) \<subseteq> R"
  have segments: "visits R (repeatE m c (\<lambda>(k, _). bindE (upload_segment C m t0 k) (\<lambda>go. ret (Suc k, go))) acc)" for m c t0 acc
    by (rule stay_repeat) (auto intro!: stay_intros stay_then [OF stay_upload_segment [OF R]])
  show ?thesis
    using R unfolding upload_def Let_def
    by (intro stay_intros stay_then segments stay_final_crc TrueI)
qed

subsection \<open>The activation\<close>

lemma stay_iap_send:
  assumes "r \<in> R" "keys_in R sent"
  shows "stays R (\<lambda>m. keys_in R m) (iap_send C r sent)"
  using assms unfolding iap_send_def by (intro stay_intros stay_then; simp)

lemma stay_iap_poll_roc: "fst x \<in> R \<Longrightarrow> visits R (iap_poll_roc C x acc)"
proof -
  assume x: "fst x \<in> R"
  have read: "visits R (iap_read C r)" if "r \<in> R" for r
    using that unfolding iap_read_def try_read_def Let_def by (intro stay_intros stay_then TrueI)
  have decide: "visits R (iap_decide C r t P L)" "visits R (iap_auth_timeout C r t P L)" "visits R (iap_back_timeout C r t P L)" for r t P L
    unfolding iap_decide_def iap_auth_timeout_def iap_back_timeout_def Let_def by (intro stay_intros TrueI)+
  have resync: "visits R (iap_resync C r t L)" if "r \<in> R" for r t L
    using that unfolding iap_resync_def Let_def by (intro stay_intros stay_then TrueI)
  show ?thesis
    using x unfolding iap_poll_roc_def
    by (cases x; cases acc) (auto intro!: stay_intros stay_then [OF stay_time(3)] stay_then [OF read] stay_then [OF decide(1)]
        stay_then [OF decide(2)] stay_then [OF resync] stay_then [OF decide(3)])
qed

lemma stay_activate: "set (rocs C) \<subseteq> R \<Longrightarrow> visits R (activate C)"
proof -
  assume R: "set (rocs C) \<subseteq> R"
  have send: "stays R (\<lambda>m. keys_in R m) (foldE (iap_send C) go [])" if "set go \<subseteq> R" for go
    by (rule stay_fold) (use that in \<open>auto intro!: stay_iap_send\<close>)
  have poll: "visits R (foldE (iap_poll_roc C) sent acc)" if "keys_in R sent" for sent acc
    by (rule stay_fold) (use key_in [OF _ that] in \<open>auto intro!: stay_iap_poll_roc\<close>)
  have rounds: "visits R (loopE n (iap_round C sent) L)" if "keys_in R sent" for n sent L
    using poll [OF that] unfolding iap_round_def by (intro stay_intros stay_then) auto
  have go: "set (filter P (rocs C)) \<subseteq> R" for P using R by auto
  show ?thesis
    unfolding activate_def by (rule stay_gets_then, rule stay_bind [OF send [OF go]]) (intro stay_intros rounds; assumption)
qed

subsection \<open>The session\<close>

lemma run_inside: "list_all (event_in (set (rocs C))) (trc (snd (run C (new_session e im))))"
proof (cases "preflight_passes (opt C) (image (new_session e im))")
  case True
  have body: "visits (set (rocs C)) (session_body C)"
    unfolding session_body_def
    by (intro stay_intros stay_probeAll stay_upload stay_activate stay_gets subset_refl TrueI)
  from True obtain s1 where s1: "run C (new_session e im) = session_body C s1" "trc s1 = trc (new_session e im)"
    by (rule run_accepted)
  then have "inside (set (rocs C)) s1" by (simp add: inside_def new_session_def)
  from stayD(1) [OF body this] s1(1) show ?thesis by (simp add: inside_def)
next
  case False
  then obtain m s' where "run C (new_session e im) = (Throw m, s')" "trc s' = trc (new_session e im)"
    by (rule run_rejected)
  then show ?thesis by (simp add: new_session_def)
qed

end
