(* ===== verification/Program_Outcome.thy ===== *)
theory Program_Outcome
  imports Program_Safe Flash_Confirm Flash_Total Flash_Ports
begin

section \<open>What Program ROCs Safe promises\<close>

text \<open>
  The macro restores what it took, sends nothing unless the image is the expected one, and returns only
  when every target ROC is verified (programmed, if asked).
\<close>

subsection \<open>The locks and the slow controls\<close>

text \<open>While ports exist, the locks are the original ones and those of the ports.\<close>

definition holding :: "roc_dev list \<Rightarrow> (roc \<Rightarrow> bool) \<Rightarrow> 'e macro \<Rightarrow> bool" where
  "holding devs orig s \<longleftrightarrow>
     (\<forall>r. ms_locked s r \<longleftrightarrow> orig r \<or> (r \<in> set (ms_ports s) \<and> rd_polarfire (devs ! r)))
   \<and> (\<forall>r \<in> set (ms_ports s). \<not> (rd_polarfire (devs ! r) \<and> orig r))"

lemma keeps_make_port: "keeps (holding devs orig) (make_port devs r)"
  unfolding make_port_def
proof (rule keepsI)
  fix s assume s: "holding devs orig s"
  show "holding devs orig (snd (bindE (gets (\<lambda>s. ms_locked s r)) (\<lambda>locked.
     if rd_polarfire (devs ! r) \<and> locked
     then throw (port_label (devs ! r) @ '': could not get the ROC action lock (is there an incomplete action?)'')
     else modify (\<lambda>s. s\<lparr>ms_locked := (if rd_polarfire (devs ! r) then (ms_locked s)(r := True) else ms_locked s),
                        ms_ports := ms_ports s @ [r]\<rparr>)) s))"
    using s by (auto simp: bindE_def gets_def throw_def modify_def holding_def)
qed

lemma keeps_holding:
  "keeps (holding devs orig) (take_ports devs t)" "keeps (holding devs orig) (on_board f)"
  "keeps (holding devs orig) (run_session C im)" "keeps (holding devs orig) (session_summary C ses)"
  "keeps (holding devs orig) (expected_sha B a)"
proof -
  show "keeps (holding devs orig) (take_ports devs t)"
    unfolding take_ports_def by (intro inv_intros keeps_make_port)
  show "keeps (holding devs orig) (on_board f)" "keeps (holding devs orig) (run_session C im)"
    "keeps (holding devs orig) (session_summary C ses)" "keeps (holding devs orig) (expected_sha B a)"
    by (auto simp: keeps_def on_board_def run_session_def session_summary_def expected_sha_def holding_def ret_def
        split: prod.split option.split)
qed

lemma snd_paused: "snd (paused m s) = (snd (m (s\<lparr>ms_slow := False\<rparr>)))\<lparr>ms_slow := ms_slow s\<rparr>"
  by (simp add: paused_def split: prod.split)

lemma keeps_paused:
  assumes "\<And>s b. I s \<Longrightarrow> I (s\<lparr>ms_slow := b\<rparr>)" and "keeps I m"
  shows "keeps I (paused m)"
proof (rule keepsI)
  fix s assume "I s"
  then have "I (snd (m (s\<lparr>ms_slow := False\<rparr>)))" by (intro keepsD [OF assms(2)] assms(1))
  then show "I (snd (paused m s))" unfolding snd_paused by (rule assms(1))
qed

lemma keeps_program_selected: "keeps (holding devs orig) (program_selected B n devs a)"
proof -
  have "keeps (holding devs orig) (flash_ports B n devs a sha im w)" for sha im w
    unfolding flash_ports_def report_session_def Let_def
    by (intro inv_intros keeps_modify keeps_holding) (simp add: holding_def)
  then show ?thesis
    unfolding program_selected_def read_image_def
    by (intro inv_intros keeps_paused keeps_holding) (simp add: holding_def)
qed

lemma keeps_slow: "keeps (\<lambda>s. ms_slow s = b) (program_selected B n devs a)"
proof -
  have parts: "keeps (\<lambda>s. ms_slow s = b) (make_port devs r)" "keeps (\<lambda>s. ms_slow s = b) (on_board f)"
    "keeps (\<lambda>s. ms_slow s = b) (expected_sha B a)" "keeps (\<lambda>s. ms_slow s = b) (paused m)" for r f and m :: "('a, 'c) macro_eff"
  proof -
    show "keeps (\<lambda>s. ms_slow s = b) (make_port devs r)" unfolding make_port_def by (intro inv_intros keeps_modify) simp
    show "keeps (\<lambda>s. ms_slow s = b) (on_board f)" "keeps (\<lambda>s. ms_slow s = b) (expected_sha B a)" "keeps (\<lambda>s. ms_slow s = b) (paused m)"
      by (auto simp: keeps_def on_board_def expected_sha_def ret_def snd_paused split: prod.split option.split)
  qed
  show ?thesis
    unfolding program_selected_def read_image_def take_ports_def by (intro inv_intros parts)
qed

text \<open>
  C26. The macro restores what it took: however \<open>ProgramROCsSafe\<close> ends - it returns, any step throws, a
  later ROC is busy when earlier ROCs are already locked - the action lock of every ROC and the flag that
  lets the slow controls run are as they were before.
\<close>

theorem macro_restores: "ms_locked (snd (ProgramROCsSafe B n devs a s)) = ms_locked s \<and> ms_slow (snd (ProgramROCsSafe B n devs a s)) = ms_slow s"
proof -
  let ?s = "s\<lparr>ms_ports := [], ms_calls := []\<rparr>"
  let ?t = "snd (program_selected B n devs a ?s)"
  have "holding devs (ms_locked s) ?s" by (simp add: holding_def)
  then have "holding devs (ms_locked s) ?t" by (rule keepsD [OF keeps_program_selected])
  then have "ms_locked (release_ports devs ?t) r = ms_locked s r" for r
    by (auto simp: holding_def release_ports_def)
  moreover have "ms_slow ?t = ms_slow s" using keepsD [OF keeps_slow, of ?s "ms_slow s"] by simp
  moreover have "snd (ProgramROCsSafe B n devs a s) = release_ports devs ?t"
    by (simp add: ProgramROCsSafe_def scopedE_def split: prod.split)
  ultimately show ?thesis by (simp add: fun_eq_iff release_ports_def)
qed

subsection \<open>Nothing is sent unless the image is the expected one\<close>

text \<open>The session the macro runs, and the environment in which it starts it, after the wait for the slow controls.\<close>

definition macro_session :: "'e board \<Rightarrow> nat \<Rightarrow> roc_dev list \<Rightarrow> safe_args \<Rightarrow> roc list \<Rightarrow> string \<Rightarrow> 'e flash" where
  "macro_session B n devs a ports sha = \<lparr>rocs = ports, opt = safe_options a sha, io = rocPorts B devs, fuel = n\<rparr>"

definition quiet_env :: "'e board \<Rightarrow> safe_args \<Rightarrow> bool \<Rightarrow> 'e \<Rightarrow> 'e" where
  "quiet_env B a wasRunning e = (if wasRunning then bd_sleep B (int (sa_quiet a) * 1000) e else e)"

lemma flash_ports_calls:
  "ms_calls (snd (flash_ports B n devs a sha im w s))
   = trc (snd (run (macro_session B n devs a (ms_ports s) sha) (new_session (quiet_env B a w (ms_env s)) im)))"
proof -
  have report: "ms_calls (snd (report_session B C ok ses t)) = ms_calls t" for C ok ses and t :: "'a macro"
  proof -
    have "keeps (\<lambda>s. ms_calls s = ms_calls t) (on_board f)" "keeps (\<lambda>s. ms_calls s = ms_calls t) (session_summary C ses)" for f
      by (auto simp: keeps_def on_board_def session_summary_def split: prod.split)
    then have "keeps (\<lambda>s. ms_calls s = ms_calls t) (report_session B C ok ses)"
      unfolding report_session_def Let_def by (intro inv_intros)
    from keepsD [OF this, of t] show ?thesis by simp
  qed
  let ?C = "macro_session B n devs a (ms_ports s) sha"
  let ?e = "quiet_env B a w (ms_env s)"
  obtain x ses where run: "run ?C (new_session ?e im) = (x, ses)" by (cases "run ?C (new_session ?e im)")
  have "flash_ports B n devs a sha im w s
    = bindE (run_session ?C im) (\<lambda>(ok, ses). report_session B ?C ok ses) (s\<lparr>ms_env := ?e\<rparr>)"
    by (cases w) (simp_all add: flash_ports_def macro_session_def quiet_env_def bindE_def [of "modify _"] bindE_def [of "ret _"]
        bindE_def [of "gets _"] whenE_def modify_def ret_def gets_def Let_def)
  then show ?thesis
    by (cases x) (simp_all add: run run_session_def bindE_cases report)
qed

text \<open>The image was read from the given path, its SHA-256 is the given one or the one in the file next to
  it, and it passes the preflight.\<close>

definition image_checked :: "'e board \<Rightarrow> safe_args \<Rightarrow> 'e \<Rightarrow> string \<Rightarrow> u8 list \<Rightarrow> 'e \<Rightarrow> bool" where
  "image_checked B a e sha im e2 \<longleftrightarrow>
     (\<exists>e1. bd_file B (sa_path a) e = (Inr im, e1)
       \<and> (if sa_sha256 a = [] \<or> sa_sha256 a = ''Default''
          then bd_word B (sa_path a @ ''.sha256'') e1 = (Some sha, e2) else sha = sa_sha256 a \<and> e2 = e1))
   \<and> preflight_passes (safe_options a sha) im"

text \<open>The calls of a macro started in \<open>s\<close>: none, or exactly those of the session that starts when the image has been read
  and checked, each to a ROC of the selection.\<close>

definition calls_justified :: "'e board \<Rightarrow> nat \<Rightarrow> roc_dev list \<Rightarrow> safe_args \<Rightarrow> 'e macro \<Rightarrow> io_event list \<Rightarrow> bool" where
  "calls_justified B n devs a s calls \<longleftrightarrow>
     calls = []
   \<or> (\<exists>sha im e2. image_checked B a (ms_env s) sha im e2
        \<and> calls = trc (snd (run (macro_session B n devs a (targets devs (sa_target a)) sha) (new_session (quiet_env B a (ms_slow s) e2) im)))
        \<and> list_all (event_in (set (targets devs (sa_target a)))) calls)"

lemma take_ports_ports:
  assumes "take_ports devs t s = (Ret (), s')"
  shows "ms_ports s' = ms_ports s @ targets devs t"
proof -
  have "forE rs (\<lambda>r. tryE (make_port devs r) (\<lambda>e. throw (nothing_sent e))) s = (Ret (), s') \<Longrightarrow> ms_ports s' = ms_ports s @ rs" for rs s
    unfolding forE_def
  proof (induction rs arbitrary: s)
    case (Cons r rs)
    then obtain u where u: "tryE (make_port devs r) (\<lambda>e. throw (nothing_sent e)) s = (Ret (), u)"
      and rest: "foldE (\<lambda>x _. tryE (make_port devs x) (\<lambda>e. throw (nothing_sent e))) rs () u = (Ret (), s')"
      by (auto simp: bindE_Ret)
    from u have "ms_ports u = ms_ports s @ [r]"
      by (auto simp: tryE_def make_port_def bindE_def gets_def throw_def modify_def split: if_splits)
    with Cons.IH [OF rest] show ?case by simp
  qed (simp add: ret_def)
  then show ?thesis using assms unfolding take_ports_def by blast
qed

text \<open>Up to the session nothing but the ports and the environment changes.\<close>

abbreviation same_but_ports :: "'e macro \<Rightarrow> 'e macro \<Rightarrow> bool" where
  "same_but_ports s u \<equiv> ms_calls u = ms_calls s \<and> ms_slow u = ms_slow s"

lemma take_ports_same: "same_but_ports s (snd (take_ports devs t s)) \<and> ms_env (snd (take_ports devs t s)) = ms_env s"
  for s :: "'e macro"
proof -
  have "keeps (\<lambda>u :: 'e macro. same_but_ports s u \<and> ms_env u = ms_env s) (take_ports devs t)"
    unfolding take_ports_def make_port_def by (intro inv_intros keeps_modify) simp
  from keepsD [OF this, of s] show ?thesis by simp
qed

lemma read_image_same:
  assumes "read_image B p s = (x, u)"
  shows "same_but_ports s u" "ms_ports u = ms_ports s" "x = Ret im \<Longrightarrow> bd_file B p (ms_env s) = (Inr im, ms_env u)"
  using assms by (auto simp: read_image_def tryE_cases on_board_def throw_def split: prod.splits sum.splits)

lemma expected_sha_same:
  assumes "expected_sha B a s = (x, u)"
  shows "same_but_ports s u" "ms_ports u = ms_ports s"
    "x = Ret sha \<Longrightarrow> if sa_sha256 a = [] \<or> sa_sha256 a = ''Default''
       then bd_word B (sa_path a @ ''.sha256'') (ms_env s) = (Some sha, ms_env u) else sha = sa_sha256 a \<and> ms_env u = ms_env s"
  using assms by (auto simp: expected_sha_def ret_def split: prod.splits option.splits if_splits)

text \<open>What the macro does before the session, and the state in which it enters it.\<close>

lemma program_selected_cases:
  assumes "ms_calls s = []" "ms_ports s = []"
  shows "(ms_calls (snd (program_selected B n devs a s)) = [] \<and> (\<forall>t. fst (program_selected B n devs a s) \<noteq> Ret t))
   \<or> (\<exists>im sha u. program_selected B n devs a s = paused (flash_ports B n devs a sha im (ms_slow s)) u
        \<and> ms_ports u = targets devs (sa_target a) \<and> targets devs (sa_target a) \<noteq> []
        \<and> (\<exists>e1. bd_file B (sa_path a) (ms_env s) = (Inr im, e1)
            \<and> (if sa_sha256 a = [] \<or> sa_sha256 a = ''Default''
               then bd_word B (sa_path a @ ''.sha256'') e1 = (Some sha, ms_env u) else sha = sa_sha256 a \<and> ms_env u = e1)))"
    (is "?stopped \<or> ?entered")
proof (cases "take_ports devs (sa_target a) s")
  case (Pair x u)
  have u: "same_but_ports s u" "ms_env u = ms_env s" using take_ports_same [of devs "sa_target a" s] Pair by simp_all
  show ?thesis
  proof (cases x)
    case (Ret y)
    then have ports: "ms_ports u = targets devs (sa_target a)" using take_ports_ports [of devs "sa_target a" s u] Pair assms by simp
    obtain y u1 where img: "read_image B (sa_path a) u = (y, u1)" by (cases "read_image B (sa_path a) u")
    obtain z u2 where sha: "expected_sha B a u1 = (z, u2)" by (cases "expected_sha B a u1")
    note steps = Pair Ret img sha u ports read_image_same(1,2) [OF img] expected_sha_same(1,2) [OF sha] assms
    consider "targets devs (sa_target a) = []" | "\<forall>im. y \<noteq> Ret im" | im where "y = Ret im" "\<forall>w. z \<noteq> Ret w"
      | im w where "y = Ret im" "z = Ret w" "targets devs (sa_target a) \<noteq> []" by blast
    then show ?thesis
    proof cases
      case (4 im w)
      then have "program_selected B n devs a s = paused (flash_ports B n devs a w im (ms_slow s)) u2"
        using steps by (simp add: program_selected_def bindE_cases gets_def)
      then show ?thesis
        using 4 steps read_image_same(3) [OF img, of im] expected_sha_same(3) [OF sha, of w] by (intro disjI2 exI) auto
    qed (use steps in \<open>simp_all add: program_selected_def bindE_cases gets_def throw_def split: outcome.split\<close>)
  qed (use Pair u assms in \<open>simp_all add: program_selected_def bindE_cases\<close>)
qed

text \<open>
  C25. Nothing is sent of an unexpected file, and nothing to a ROC that was not selected: whatever the outcome of
  \<open>ProgramROCsSafe\<close>, either the session has made no call at all, or the macro has first read the image from the given
  path and, right after it, its SHA-256 (the given one or, where none is given, the one in the file next to the image),
  the image has that SHA-256 and passes every check of the preflight, the calls are exactly those of the session that
  starts afterwards with this image over the selected ROCs, and every register read, block read, command and link reset
  among them is to a selected ROC.
\<close>

theorem nothing_sent_unchecked: "calls_justified B n devs a s (ms_calls (snd (ProgramROCsSafe B n devs a s)))"
proof -
  let ?s = "s\<lparr>ms_ports := [], ms_calls := []\<rparr>"
  have calls: "ms_calls (snd (ProgramROCsSafe B n devs a s)) = ms_calls (snd (program_selected B n devs a ?s))"
    by (simp add: ProgramROCsSafe_def scopedE_def release_ports_def split: prod.split)
  consider "ms_calls (snd (program_selected B n devs a ?s)) = []"
    | im sha u e1 where "program_selected B n devs a ?s = paused (flash_ports B n devs a sha im (ms_slow s)) u"
        "ms_ports u = targets devs (sa_target a)" "bd_file B (sa_path a) (ms_env s) = (Inr im, e1)"
        "if sa_sha256 a = [] \<or> sa_sha256 a = ''Default''
         then bd_word B (sa_path a @ ''.sha256'') e1 = (Some sha, ms_env u) else sha = sa_sha256 a \<and> ms_env u = e1"
    using program_selected_cases [of ?s B n devs a] by (simp del: if_split) blast
  then show ?thesis
  proof cases
    case (2 im sha u e1)
    let ?C = "macro_session B n devs a (targets devs (sa_target a)) sha"
    let ?e = "quiet_env B a (ms_slow s) (ms_env u)"
    have made: "ms_calls (snd (ProgramROCsSafe B n devs a s)) = trc (snd (run ?C (new_session ?e im)))"
      unfolding calls using 2(1,2) by (simp add: snd_paused flash_ports_calls)
    have own: "list_all (event_in (set (targets devs (sa_target a)))) (trc (snd (run ?C (new_session ?e im))))"
      using run_inside [of ?C ?e im] by (simp add: macro_session_def)
    show ?thesis
    proof (cases "preflight_passes (safe_options a sha) im")
      case True
      then have "image_checked B a (ms_env s) sha im (ms_env u)" using 2(3,4) unfolding image_checked_def by blast
      then show ?thesis using made own unfolding calls_justified_def by (intro disjI2 exI conjI) simp_all
    next
      case False
      then have "\<not> preflight_passes (opt ?C) (image (new_session ?e im))" by (simp add: macro_session_def new_session_def)
      then obtain m t where "run ?C (new_session ?e im) = (Throw m, t)" "trc t = trc (new_session ?e im)"
        by (rule run_rejected)
      then show ?thesis using made by (simp add: calls_justified_def new_session_def)
    qed
  qed (simp add: calls calls_justified_def)
qed

subsection \<open>The macro returns only when every target is verified\<close>

lemma foldl_conj: "foldl (\<lambda>ok kv. ok \<and> P kv) b xs \<longleftrightarrow> b \<and> (\<forall>kv \<in> set xs. P kv)"
  by (induction xs arbitrary: b) auto

lemma om_get_mem: "om_get m k = Some v \<Longrightarrow> (k, v) \<in> set m"
  by (induction m) (auto split: if_splits)

text \<open>A session that returns true leaves every ROC of the session in the wanted state.\<close>

lemma run_all_ok:
  assumes "run C (new_session e im) = (Ret True, s)" and "preflight_passes (opt C) im" and "r \<in> set (rocs C)"
  shows "roc_state (resultOf r s) = (if program (opt C) then Programmed else Verified)"
proof -
  have "post (\<lambda>_. True) (run C) (\<lambda>ok s. ok = all_ok (opt C) (res s))"
    unfolding run_def by (intro post_seqE [where R = "\<lambda>_. True"] post_gets) (simp_all add: post_def)
  from postD [OF this _ assms(1)] have all: "all_ok (opt C) (res s)" by simp
  have "om_has (res s) r" using run_wf [OF assms(2), of e] assms(1,3) by (simp add: flash_wf_def)
  then obtain x where x: "om_get (res s) r = Some x" by (auto simp: om_has_def)
  then have "roc_state x = (if program (opt C) then Programmed else Verified)"
    using all om_get_mem [OF x] unfolding all_ok_def foldl_conj by auto
  then show ?thesis using x by (simp add: resultOf_def om_at_def)
qed

text \<open>The options of the macro always ask for the final CRC.\<close>

lemma safe_options_fields [simp]:
  "finalImageCrc (safe_options a sha)" "program (safe_options a sha) = sa_program a"
  by (simp_all add: safe_options_def defaultOptions_def)

text \<open>The session ran to its end, every ROC of the selection is in the wanted state, and the ones with CRC have confirmed the image.\<close>

definition all_flashed :: "'e board \<Rightarrow> nat \<Rightarrow> roc_dev list \<Rightarrow> safe_args \<Rightarrow> string \<Rightarrow> u8 list \<Rightarrow> 'e session \<Rightarrow> bool" where
  "all_flashed B n devs a sha im ses \<longleftrightarrow>
     (\<exists>e. run \<lparr>rocs = targets devs (sa_target a), opt = safe_options a sha, io = rocPorts B devs, fuel = n\<rparr> (new_session e im) = (Ret True, ses))
   \<and> (\<forall>r \<in> set (targets devs (sa_target a)).
        roc_state (resultOf r ses) = (if sa_program a then Programmed else Verified)
      \<and> (newMiv (resultOf r ses) \<longrightarrow> image_confirmed (safe_options a sha) (padded_image im) r (trc ses)))"

lemma flash_ports_Ret:
  assumes "flash_ports B n devs a sha im w s = (Ret t, s')" and "ms_ports s = targets devs (sa_target a)"
  shows "preflight_passes (safe_options a sha) im \<and> (\<exists>ses. all_flashed B n devs a sha im ses \<and> ms_calls s' = trc ses)"
proof -
  let ?C = "\<lparr>rocs = targets devs (sa_target a), opt = safe_options a sha, io = rocPorts B devs, fuel = n\<rparr>"
  obtain s1 ok ses s2 where s1: "run_session ?C im s1 = (Ret (ok, ses), s2)" and report: "report_session B ?C ok ses s2 = (Ret t, s')"
    using assms by (auto simp: flash_ports_def bindE_Ret gets_def whenE_def modify_def ret_def Let_def split: if_splits)
  from report have ok: "ok" and calls: "ms_calls s' = ms_calls s2"
    by (auto simp: report_session_def bindE_Ret whenE_def on_board_def session_summary_def throw_def ret_def Let_def
        split: if_splits prod.splits)
  from s1 have run: "run ?C (new_session (ms_env s1) im) = (Ret True, ses)" and trc: "ms_calls s2 = trc ses"
    using ok by (auto simp: run_session_def split: prod.splits outcome.splits)
  have passed: "preflight_passes (safe_options a sha) im" and live: "live_confirmed ?C (padded_image im) ses"
    using run_confirmed [OF run] by simp_all
  have "roc_state (resultOf r ses) = (if sa_program a then Programmed else Verified)" if "r \<in> set (targets devs (sa_target a))" for r
    using run_all_ok [OF run, of r] passed that by simp
  then have "all_flashed B n devs a sha im ses"
    using live run by (auto simp: all_flashed_def live_confirmed_def)
  then show ?thesis using passed calls trc by auto
qed

text \<open>
  The macro returns only when all its work is done: when \<open>ProgramROCsSafe\<close> returns (rather than throws) the
  selection is not empty, the image is the checked one, every selected ROC has been verified (programmed, if
  asked), and each of them that can compute the CRC has confirmed the CRC of the whole image in the calls made.
\<close>

theorem macro_returns_all_flashed:
  "case ProgramROCsSafe B n devs a s of
     (Ret t, s') \<Rightarrow> targets devs (sa_target a) \<noteq> []
       \<and> (\<exists>sha im e2 ses. image_checked B a (ms_env s) sha im e2 \<and> all_flashed B n devs a sha im ses \<and> ms_calls s' = trc ses)
   | _ \<Rightarrow> True"
proof -
  let ?s = "s\<lparr>ms_ports := [], ms_calls := []\<rparr>"
  have "targets devs (sa_target a) \<noteq> []
       \<and> (\<exists>sha im e2 ses. image_checked B a (ms_env s) sha im e2 \<and> all_flashed B n devs a sha im ses \<and> ms_calls s1 = trc ses)"
    if run: "program_selected B n devs a ?s = (Ret t, s1)" for t s1
  proof -
    obtain im sha u e1 where flash: "(Ret t, s1) = paused (flash_ports B n devs a sha im (ms_slow s)) u"
      and ports: "ms_ports u = targets devs (sa_target a)" and some: "targets devs (sa_target a) \<noteq> []"
      and read: "bd_file B (sa_path a) (ms_env s) = (Inr im, e1)"
        "if sa_sha256 a = [] \<or> sa_sha256 a = ''Default''
         then bd_word B (sa_path a @ ''.sha256'') e1 = (Some sha, ms_env u) else sha = sa_sha256 a \<and> ms_env u = e1"
      using program_selected_cases [of ?s B n devs a] run by (simp del: if_split) blast
    obtain s2 where s2: "flash_ports B n devs a sha im (ms_slow s) (u\<lparr>ms_slow := False\<rparr>) = (Ret t, s2)" "ms_calls s1 = ms_calls s2"
      using flash by (auto simp: paused_def split: prod.splits)
    from flash_ports_Ret [OF s2(1)] ports obtain ses where passed: "preflight_passes (safe_options a sha) im"
      and ses: "all_flashed B n devs a sha im ses" "ms_calls s1 = trc ses"
      using s2(2) by auto
    have "image_checked B a (ms_env s) sha im (ms_env u)"
      using passed read unfolding image_checked_def by blast
    then show ?thesis using some ses by blast
  qed
  then show ?thesis
    by (auto simp: ProgramROCsSafe_def scopedE_def release_ports_def split: prod.split outcome.split)
qed

end
