(* ===== verification/Detached_Types.thy ===== *)
theory Detached_Types
  imports Effects Ordered_Map
begin

section \<open>The detached Buffer Test: data, library interface and thread state\<close>

text \<open>
  The data of the detached Buffer Test of the DTC front end
  (otsdaq-mu2e/FEInterfaces/DTCFrontEndInterface.h and DTCFrontEndInterfaceImpl.cc).
  Events, subevents and data blocks belong to the DTC library; the records below hold what its
  accessors return, the fields the code reads. The library's functions and the hardware are the
  records \<open>dtclib\<close> (pure) and \<open>dtcio\<close> (calls on an environment of any type, which also holds the
  clock in nanoseconds and the flag \<^verbatim>\<open>exitThread_\<close> another thread sets). A \<^verbatim>\<open>DTC*\<close> is a natural
  number, \<^verbatim>\<open>nullptr\<close> is \<open>None\<close>. \<open>thread\<close> is \<^verbatim>\<open>DetachedBufferTestThreadStruct\<close>.
\<close>

type_synonym dtc = nat

subsection \<open>What the library's accessors return\<close>

record data_block =
  db_link :: nat
  db_byteCount :: u16
  db_status :: u8
  db_raw :: "u8 list"
  db_data :: "u8 list"
  db_json :: string

record sub_event =
  se_tag :: u64
  se_source :: u8
  se_eventMode :: u64
  se_linkStatus :: "nat \<Rightarrow> u8"
  se_blocks :: "data_block list"
  se_headerRaw :: "u8 list"
  se_mac :: u8
  se_partition :: u8
  se_evbMode :: u8

record dtc_event =
  ev_tag :: u64
  ev_byteCount :: nat
  ev_raw :: "u8 list"
  ev_subs :: "sub_event list"
  ev_corrupt :: bool

record event_header =
  eh_byte_count :: u32
  eh_num_dtcs :: u8
  eh_tag_low :: u32
  eh_tag_high :: u16
  eh_event_mode :: u64
  eh_dtc_mac :: u8
  eh_partition :: u8
  eh_evb_mode :: u8

record evb_check =
  ck_sticky :: u32
  ck_ddr :: bool
  ck_missingFrontier :: bool
  ck_ready :: bool

text \<open>\<^verbatim>\<open>sizeof\<close> of the two headers, the header's bytes, and an event set up from a buffer; the ROC
  links and the decoder of their enable register; the decoders of register 0x9370
  (\<open>CheckEVBTraffic\<close> is \<^verbatim>\<open>CheckEVBStatus\<close> with its two optional arguments given).\<close>

record dtclib =
  hdr_size :: nat
  subhdr_size :: nat
  encode_header :: "event_header \<Rightarrow> u8 list"
  setup_event :: "u8 list \<Rightarrow> dtc_event"
  ROC_Links :: "nat list"
  ReadLinkEnabled :: "nat \<Rightarrow> u32 \<Rightarrow> bool \<times> bool"
  CheckEVBStatus :: "u32 \<Rightarrow> evb_check"
  CheckEVBTraffic :: "u32 \<Rightarrow> bool \<Rightarrow> bool \<Rightarrow> evb_check"
  FormatEVBStatusCheck :: "u32 \<Rightarrow> string \<Rightarrow> u32 \<Rightarrow> string"
  DecodeEVBErrorStatus :: "u32 \<Rightarrow> string list"
  EVBDefinedErrorMask :: u32
  EVBRxSequenceGapBit :: u32
  ReadEVBResendsRequested :: "u32 \<Rightarrow> nat"
  ReadEVBResendsServed :: "u32 \<Rightarrow> nat"

text \<open>The library's register getters the code calls; each may throw.\<close>

datatype getter =
    ReadEVBStartNode | ReadEVBNumberOfDestinationNodes | ReadEVBLocalMACAddress | ReadEVBDDRToTXWords
  | ReadEVBGBERXWords | ReadEVBROCInputWords | GetEVBNumSources | GetEVBEventsReleased
  | GetEVBOpenTagCount | GetEVBEventTimeout | GetEVBDrainedBytes

text \<open>The calls that act on the device or its reader; each may throw.\<close>

datatype devop = ReleaseAllBuffers_DAQ | ResetEVBAssembly | SetEVBDrainOnly bool

datatype reader = GetEVBDataAsEvents | GetSubEventDataAsEvents

text \<open>
  The rest of the environment: the clock, sleeping, the flag that asks the thread to exit, the
  time stamps of a default file name, the data directory, opening and closing the output file (the
  bytes written are handed over at closing), the DMA spy of the abort path, and the status report
  that a restart only logs (it reads registers).
\<close>

record 'e dtcio =
  d_uid :: "dtc \<Rightarrow> string"
  d_read :: "dtc \<Rightarrow> u16 \<Rightarrow> 'e \<Rightarrow> (int \<times> u32) \<times> 'e"
  d_write :: "dtc \<Rightarrow> u16 \<Rightarrow> u32 \<Rightarrow> 'e \<Rightarrow> int \<times> 'e"
  d_get :: "dtc \<Rightarrow> getter \<Rightarrow> 'e \<Rightarrow> (string + nat) \<times> 'e"
  d_ackPosition :: "dtc \<Rightarrow> u8 \<Rightarrow> 'e \<Rightarrow> (string + bool \<times> nat \<times> nat) \<times> 'e"
  d_stallCounters :: "dtc \<Rightarrow> 'e \<Rightarrow> (string + u32 list) \<times> 'e"
  d_clock :: "'e \<Rightarrow> int \<times> 'e"
  d_sleep :: "int \<Rightarrow> 'e \<Rightarrow> 'e"
  d_exit :: "'e \<Rightarrow> bool \<times> 'e"
  d_setExit :: "bool \<Rightarrow> 'e \<Rightarrow> 'e"
  d_device :: "dtc \<Rightarrow> devop \<Rightarrow> 'e \<Rightarrow> (string + unit) \<times> 'e"
  d_linkEnabledData :: "dtc \<Rightarrow> 'e \<Rightarrow> (string + u32) \<times> 'e"
  d_events :: "dtc \<Rightarrow> reader \<Rightarrow> u64 option \<Rightarrow> 'e \<Rightarrow> (string + dtc_event list) \<times> 'e"
  d_getData :: "dtc \<Rightarrow> u64 \<Rightarrow> 'e \<Rightarrow> (string + dtc_event option list) \<times> 'e"
  d_stamp :: "'e \<Rightarrow> (nat \<times> nat) \<times> 'e"
  d_dataDir :: "'e \<Rightarrow> (string + string) \<times> 'e"
  d_fopen :: "string \<Rightarrow> 'e \<Rightarrow> bool \<times> 'e"
  d_fclose :: "u8 list \<Rightarrow> 'e \<Rightarrow> 'e"
  d_spy :: "dtc \<Rightarrow> 'e \<Rightarrow> 'e"
  d_logStatus :: "'e \<Rightarrow> (string + unit) \<times> 'e"

subsection \<open>The thread's state\<close>

datatype DetachedMergeMode = Off | EvenOdd | Matching

text \<open>The counters and latches of the event builder's status polling, a part of the same struct.\<close>

record evb_stats =
  es_chunks :: u64
  es_words :: u64
  es_fillers :: u64
  es_framing :: u64
  es_stickySeen :: u32
  es_stickyIgnore :: u32
  es_operatorIgnore :: u32
  es_trafficStarted :: bool
  es_readFailed :: bool
  es_selfThrottle :: u64
  es_dmaBackpressure :: u64
  es_creditThrottle :: u64
  es_rxHigh :: u64
  es_polls :: u64
  es_liveBits :: "u64 list"
  es_firstValid :: bool
  es_firstMask :: u32
  es_firstUs :: int
  es_firstIteration :: u64
  es_firstSubevents :: u64
  es_bit12Valid :: bool
  es_bit12 :: u32
  es_bit12Us :: int
  es_trafficStart :: int
  es_readerNs :: u64
  es_pollNs :: u64
  es_handlingNs :: u64
  es_iterations :: u64
  es_onsetValid :: bool
  es_onset :: u32
  es_onsetIteration :: u64
  es_onsetTime :: int
  es_stallStartValid :: bool
  es_stallEndValid :: bool
  es_stallStart :: "u32 list"
  es_stallEnd :: "u32 list"
  es_stallTotal :: "u64 list"
  es_stallTime :: int

definition new_evb_stats :: evb_stats where
  "new_evb_stats = \<lparr>es_chunks = 0, es_words = 0, es_fillers = 0, es_framing = 0, es_stickySeen = 0,
     es_stickyIgnore = 0, es_operatorIgnore = 0, es_trafficStarted = False, es_readFailed = False,
     es_selfThrottle = 0, es_dmaBackpressure = 0, es_creditThrottle = 0, es_rxHigh = 0, es_polls = 0,
     es_liveBits = replicate 8 0, es_firstValid = False, es_firstMask = 0, es_firstUs = 0,
     es_firstIteration = 0, es_firstSubevents = 0, es_bit12Valid = False, es_bit12 = 0, es_bit12Us = 0,
     es_trafficStart = 0, es_readerNs = 0, es_pollNs = 0, es_handlingNs = 0, es_iterations = 0,
     es_onsetValid = False, es_onset = 0, es_onsetIteration = 0, es_onsetTime = 0,
     es_stallStartValid = False, es_stallEndValid = False, es_stallStart = replicate 15 0,
     es_stallEnd = replicate 15 0, es_stallTotal = replicate 15 0, es_stallTime = 0\<rparr>"

record 'e thread =
  tenv :: 'e
  running :: bool
  resetStartEventTag :: bool
  releaseAllComplete :: bool
  inSubeventMode :: bool
  inEVBMode :: bool
  evbNumDestNodes :: u8
  evbSourcesSeenForTag :: "u16 list"
  evbTagSynced :: bool
  evbRocFragmentsBySource :: "(u16, u64 list) omap"
  evbRocPayloadBytesBySource :: "(u16, u64 list) omap"
  mergeMode :: DetachedMergeMode
  thisDTC :: "dtc option"
  otherDTC :: "dtc option"
  otherDTCUID :: string
  evbNumDestNodesOther :: u8
  pairTimeoutMs :: u32
  pairMaxPending :: nat
  pendingDTC0 :: "(u64, dtc_event \<times> int) omap"
  pendingDTC1 :: "(u64, dtc_event \<times> int) omap"
  haveMergedTag :: bool
  lastMergedBaseTag :: u64
  mergedEventsCount :: u64
  unmatchedDTC0Count :: u64
  unmatchedDTC1Count :: u64
  mergeTimeTotalNs :: u64
  mergeTimeMaxNs :: u64
  mergedBytesTotal :: u64
  pendingDTC0Count :: nat
  pendingDTC1Count :: nat
  oldestPendingDTC0Tag :: u64
  oldestPendingDTC1Tag :: u64
  activeMatch :: bool
  expectedEventTag :: u64
  nextEventWindowTag :: u64
  saveBinaryData :: bool
  saveSubeventHeadersToBinaryData :: bool
  doNotResetCounters :: bool
  skipBy32 :: bool
  checkROCEmulatorData :: bool
  evbDrainOnly :: bool
  rocEmulatorExpectedPackets :: int
  rocEmulatorDataErrorsCount :: "u64 list"
  rocEmulatorPacketCountErrorsCount :: "u64 list"
  rocEmulatorNextCounter :: "(u16, u16) omap"
  rocEmulatorFirstErrors :: "string list"
  eventsCount :: u64
  subeventsCount :: u64
  mismatchedEventTagsCount :: u64
  mismatchedEventTagJumps :: "(u64 \<times> u64) list"
  subrunTransitionCount :: u64
  lastSubrunBit :: bool
  rocFragmentsCount :: "u64 list"
  rocFragmentTimeoutsCount :: "u64 list"
  rocFragmentErrorsCount :: "u64 list"
  rocPayloadEmptyCount :: "u64 list"
  rocHeaderTimeoutsCount :: "u64 list"
  rocPayloadByteCount :: "u64 list"
  totalSubeventBytesTransferred :: u64
  evb :: evb_stats
  transferStartTime :: "int option"
  transferEndTime :: "int option"
  fp :: "u8 list option"
  error_text :: string
  saveBinaryDataFilename :: string
  packetThresholdToSave :: u32
  savedCount :: u64
  rocLinkEnabledLatch :: "(nat, bool) omap"

text \<open>
  The program's parameters: the environment, the library, and what other threads do to the state
  between two rounds of the thread's loop (\<open>others\<close>; the front end's Start and Halt).
\<close>

record 'e det =
  dio :: "'e dtcio"
  dlib :: dtclib
  others :: "'e thread \<Rightarrow> 'e thread"

type_synonym ('e, 'a) det_eff = "('e thread, 'a) eff"

text \<open>The default member initialisers; the vectors of counters are empty until the thread starts.\<close>

definition new_thread :: "'e \<Rightarrow> 'e thread" where
  "new_thread e = \<lparr>tenv = e, running = False, resetStartEventTag = False,
     releaseAllComplete = False, inSubeventMode = False, inEVBMode = False, evbNumDestNodes = 1,
     evbSourcesSeenForTag = [], evbTagSynced = False, evbRocFragmentsBySource = [],
     evbRocPayloadBytesBySource = [], mergeMode = Off, thisDTC = None, otherDTC = None, otherDTCUID = [],
     evbNumDestNodesOther = 1, pairTimeoutMs = 2000, pairMaxPending = 1024, pendingDTC0 = [],
     pendingDTC1 = [], haveMergedTag = False, lastMergedBaseTag = 0, mergedEventsCount = 0,
     unmatchedDTC0Count = 0, unmatchedDTC1Count = 0, mergeTimeTotalNs = 0, mergeTimeMaxNs = 0,
     mergedBytesTotal = 0, pendingDTC0Count = 0, pendingDTC1Count = 0, oldestPendingDTC0Tag = - 1,
     oldestPendingDTC1Tag = - 1, activeMatch = False, expectedEventTag = - 1, nextEventWindowTag = - 1,
     saveBinaryData = False, saveSubeventHeadersToBinaryData = False, doNotResetCounters = False,
     skipBy32 = False, checkROCEmulatorData = False, evbDrainOnly = False,
     rocEmulatorExpectedPackets = - 1, rocEmulatorDataErrorsCount = [],
     rocEmulatorPacketCountErrorsCount = [], rocEmulatorNextCounter = [], rocEmulatorFirstErrors = [],
     eventsCount = 0, subeventsCount = 0, mismatchedEventTagsCount = 0, mismatchedEventTagJumps = [],
     subrunTransitionCount = 0, lastSubrunBit = False, rocFragmentsCount = [],
     rocFragmentTimeoutsCount = [], rocFragmentErrorsCount = [], rocPayloadEmptyCount = [],
     rocHeaderTimeoutsCount = [], rocPayloadByteCount = [], totalSubeventBytesTransferred = 0,
     evb = new_evb_stats,
     transferStartTime = None, transferEndTime = None, fp = None, error_text = [], saveBinaryDataFilename = [], packetThresholdToSave = 0,
     savedCount = 0, rocLinkEnabledLatch = []\<rparr>"

subsection \<open>Calls of the environment\<close>

text \<open>The hardware functions are effects on the environment alone; \<open>hw\<close> runs one from the thread.\<close>

type_synonym ('e, 'a) hw_eff = "('e, 'a) eff"

definition hw :: "('e, 'a) hw_eff \<Rightarrow> ('e, 'a) det_eff" where
  "hw m s = (case m (tenv s) of (x, e) \<Rightarrow> (x, s\<lparr>tenv := e\<rparr>))"

definition call :: "('e \<Rightarrow> 'a \<times> 'e) \<Rightarrow> ('e, 'a) hw_eff" where
  "call f e = (case f e of (x, e') \<Rightarrow> (Ret x, e'))"

text \<open>A call that may throw.\<close>

definition call_try :: "('e \<Rightarrow> (string + 'a) \<times> 'e) \<Rightarrow> ('e, 'a) hw_eff" where
  "call_try f e = (case f e of (Inl m, e') \<Rightarrow> (Throw m, e') | (Inr a, e') \<Rightarrow> (Ret a, e'))"

definition get :: "'e det \<Rightarrow> dtc \<Rightarrow> getter \<Rightarrow> ('e, nat) hw_eff" where
  "get D d g = call_try (d_get (dio D) d g)"

definition steady_now :: "'e det \<Rightarrow> ('e, int) hw_eff" where
  "steady_now D = call (d_clock (dio D))"

definition sleep_ms :: "'e det \<Rightarrow> int \<Rightarrow> ('e, unit) hw_eff" where
  "sleep_ms D ms = modify (d_sleep (dio D) ms)"

definition exitThread :: "'e det \<Rightarrow> ('e, bool) hw_eff" where
  "exitThread D = call (d_exit (dio D))"

definition hexw :: "nat \<Rightarrow> nat \<Rightarrow> string" where
  "hexw w n = pad_left w (CHR ''0'') (radix_string 16 n)"

text \<open>\<^verbatim>\<open>v[i] += d\<close> on a vector of counters: an index outside it has no defined behaviour.\<close>

definition add_at ::
  "('e thread \<Rightarrow> u64 list) \<Rightarrow> ((u64 list \<Rightarrow> u64 list) \<Rightarrow> 'e thread \<Rightarrow> 'e thread) \<Rightarrow> nat \<Rightarrow> u64 \<Rightarrow>
   ('e, unit) det_eff" where
  "add_at sel upd i d s =
     (if i < length (sel s) then (Ret (), upd (\<lambda>v. v[i := v ! i + d]) s) else (Undef, s))"

definition le16 :: "u8 list \<Rightarrow> nat \<Rightarrow> ('s, u16) eff" where
  "le16 bs i = bindE (at bs (2 * i)) (\<lambda>lo. bindE (at bs (2 * i + 1)) (\<lambda>hi.
     ret (ucast lo OR push_bit 8 (ucast hi))))"

subsection \<open>A quiet environment, for examples\<close>

text \<open>Nothing arrives, every call succeeds, and the clock of one environment never advances.\<close>

definition quiet_io :: "unit dtcio" where
  "quiet_io = \<lparr>d_uid = (\<lambda>_. ''DTC0''), d_read = (\<lambda>_ _ e. ((0, 0), e)), d_write = (\<lambda>_ _ _ e. (0, e)),
     d_get = (\<lambda>_ _ e. (Inr 0, e)), d_ackPosition = (\<lambda>_ _ e. (Inr (False, 0, 0), e)),
     d_stallCounters = (\<lambda>_ e. (Inr [], e)), d_clock = (\<lambda>e. (0, e)), d_sleep = (\<lambda>_ e. e), d_exit = (\<lambda>e. (False, e)),
     d_setExit = (\<lambda>_ e. e), d_device = (\<lambda>_ _ e. (Inr (), e)), d_linkEnabledData = (\<lambda>_ e. (Inr 0, e)),
     d_events = (\<lambda>_ _ _ e. (Inr [], e)), d_getData = (\<lambda>_ _ e. (Inr [], e)), d_stamp = (\<lambda>e. ((0, 0), e)),
     d_dataDir = (\<lambda>e. (Inr ''/data'', e)), d_fopen = (\<lambda>_ e. (True, e)), d_fclose = (\<lambda>_ e. e), d_spy = (\<lambda>_ e. e),
     d_logStatus = (\<lambda>e. (Inr (), e))\<rparr>"

definition quiet_lib :: dtclib where
  "quiet_lib = \<lparr>hdr_size = 24, subhdr_size = 48, encode_header = (\<lambda>_. replicate 24 0),
     setup_event = (\<lambda>bs. \<lparr>ev_tag = 0, ev_byteCount = length bs, ev_raw = bs, ev_subs = [], ev_corrupt = False\<rparr>),
     ROC_Links = [0, 1, 2, 3, 4, 5], ReadLinkEnabled = (\<lambda>_ _. (True, True)),
     CheckEVBStatus = (\<lambda>_. \<lparr>ck_sticky = 0, ck_ddr = True, ck_missingFrontier = False, ck_ready = True\<rparr>),
     CheckEVBTraffic = (\<lambda>_ _ _. \<lparr>ck_sticky = 0, ck_ddr = True, ck_missingFrontier = False, ck_ready = True\<rparr>),
     FormatEVBStatusCheck = (\<lambda>_ _ _. []), DecodeEVBErrorStatus = (\<lambda>_. []), EVBDefinedErrorMask = 0x7FFF,
     EVBRxSequenceGapBit = 0, ReadEVBResendsRequested = (\<lambda>_. 0), ReadEVBResendsServed = (\<lambda>_. 0)\<rparr>"

definition quiet :: "unit det" where
  "quiet = \<lparr>dio = quiet_io, dlib = quiet_lib, others = (\<lambda>s. s)\<rparr>"

end
