(* ===== verification/ROC_Emulator.thy ===== *)
theory ROC_Emulator
  imports Detached_Types
begin

section \<open>The check of ROC emulator data\<close>

text \<open>
  \<^verbatim>\<open>checkROCEmulatorBlock\<close> (DTCFrontEndInterfaceImpl.cc): with "Check ROC Emulator Data" on, every
  non-empty data block must continue the emulator's pattern: 16-bit pairs of a constant and a
  counter that grows by 2 per pair and runs on from block to block of the same source DTC and link.
  The first deviation is recorded and thrown.
\<close>

subsection \<open>The code\<close>

definition hex4 :: "u16 \<Rightarrow> string" where
  "hex4 v = ''0x'' @ hexw 4 (unat v)"

text \<open>\<^verbatim>\<open>payloadBytes\<close> and the timeout bit of the data header's status.\<close>

definition payloadBytes :: "data_block \<Rightarrow> int" where
  "payloadBytes b = uint (db_byteCount b) - 16"

definition timed_out :: "data_block \<Rightarrow> bool" where
  "timed_out b \<longleftrightarrow> drop_bit 3 (db_status b) AND 1 = 1"

definition payload_dump :: "data_block \<Rightarrow> ('e, string) det_eff" where
  "payload_dump b =
     foldE (\<lambda>k acc. bindE (le16 (db_data b) k) (\<lambda>w.
        ret (acc @ (if k mod 8 = 0 then CHR 0x0A # ''    '' else '' '') @ hexw 4 (unat w))))
       [0..<min 64 (nat (payloadBytes b) div 2)] []"

definition noteError ::
  "(nat \<Rightarrow> ('e, unit) det_eff) \<Rightarrow> data_block \<Rightarrow> u8 \<Rightarrow> u64 \<Rightarrow> string \<Rightarrow> ('e, unit) det_eff" where
  "noteError counter b src ewt what =
     seqE (counter (db_link b))
    (bindE (payload_dump b) (\<lambda>dump.
     let t = ''ROC emulator data check FAILED at EWT '' @ to_string (unat ewt) @ '' src 0x''
             @ radix_string 16 (unat src) @ '' link '' @ to_string (db_link b) @ '': '' @ what
             @ [CHR 0x0A] @ ''  Data header: '' @ db_json b @ [CHR 0x0A]
             @ ''  Payload ('' @ to_string (nat (payloadBytes b)) @ '' bytes, 16-bit words, first 64):''
             @ dump @ [CHR 0x0A] @ ''  Stopping the buffer test (Check ROC Emulator Data is on).''
     in seqE (modify (\<lambda>s. s\<lparr>rocEmulatorFirstErrors := rocEmulatorFirstErrors s @ [t]\<rparr>)) (throw t)))"

definition dataError :: "data_block \<Rightarrow> u8 \<Rightarrow> u64 \<Rightarrow> string \<Rightarrow> ('e, unit) det_eff" where
  "dataError =
     noteError (\<lambda>l. add_at rocEmulatorDataErrorsCount rocEmulatorDataErrorsCount_update l 1)"

definition packetCountError :: "data_block \<Rightarrow> u8 \<Rightarrow> u64 \<Rightarrow> string \<Rightarrow> ('e, unit) det_eff" where
  "packetCountError =
     noteError (\<lambda>l. add_at rocEmulatorPacketCountErrorsCount rocEmulatorPacketCountErrorsCount_update l 1)"

definition streamKey :: "u8 \<Rightarrow> nat \<Rightarrow> u16" where
  "streamKey src link = push_bit 3 (ucast src) OR word_of_nat link"

text \<open>One pair of the loop over the words, with the counter it must show.\<close>

definition check_pair ::
  "data_block \<Rightarrow> u8 \<Rightarrow> u64 \<Rightarrow> u16 \<Rightarrow> nat \<Rightarrow> u16 \<Rightarrow> ('e, u16) det_eff" where
  "check_pair b src ewt constantWord k expectedCounter =
     bindE (le16 (db_data b) (2 * k)) (\<lambda>c.
     seqE (whenE (c \<noteq> constantWord)
             (dataError b src ewt (''pair '' @ to_string k @ '' constant '' @ hex4 c @ '' != '' @ hex4 constantWord)))
    (bindE (le16 (db_data b) (2 * k + 1)) (\<lambda>n.
     seqE (whenE (n \<noteq> expectedCounter)
             (dataError b src ewt (''pair '' @ to_string k @ '' counter '' @ hex4 n @ '' != expected ''
                @ hex4 expectedCounter)))
          (ret (expectedCounter + 2)))))"

definition check_packets :: "data_block \<Rightarrow> u8 \<Rightarrow> u64 \<Rightarrow> ('e, unit) det_eff" where
  "check_packets b src ewt =
     (let packets = payloadBytes b div 16 in
      bindE (gets rocEmulatorExpectedPackets) (\<lambda>expected.
      if expected < 0 then modify (\<lambda>s. s\<lparr>rocEmulatorExpectedPackets := packets\<rparr>)
      else whenE (packets \<noteq> expected)
             (packetCountError b src ewt (''packet count '' @ to_string_int packets @ '' != ''
                @ to_string_int expected @ '' seen first''))))"

definition check_words :: "data_block \<Rightarrow> u8 \<Rightarrow> u64 \<Rightarrow> ('e, unit) det_eff" where
  "check_words b src ewt =
     (let wordCount = nat (payloadBytes b) div 2; key = streamKey src (db_link b) in
      if wordCount < 2 then ret ()
      else
        bindE (le16 (db_data b) 0) (\<lambda>constantWord.
        bindE (le16 (db_data b) 1) (\<lambda>first.
        bindE (gets (\<lambda>s. om_get (rocEmulatorNextCounter s) key)) (\<lambda>previous.
        seqE (case previous of
                None \<Rightarrow> ret ()
              | Some p \<Rightarrow> whenE (first \<noteq> p)
                  (dataError b src ewt (''block starts at counter '' @ hex4 first @ '', expected ''
                     @ hex4 p @ '' after the previous block (''
                     @ to_string (unat (first - p) div 2) @ '' pairs skipped)'')))
       (bindE (foldE (check_pair b src ewt constantWord) [0..<wordCount div 2] first) (\<lambda>_.
        bindE (le16 (db_data b) (wordCount - 1)) (\<lambda>last_word.
        modify (\<lambda>s. s\<lparr>rocEmulatorNextCounter := om_put key (last_word + 2) (rocEmulatorNextCounter s)\<rparr>))))))))"

definition checkROCEmulatorBlock :: "data_block \<Rightarrow> u8 \<Rightarrow> u64 \<Rightarrow> ('e, unit) det_eff" where
  "checkROCEmulatorBlock b src ewt =
     (if db_link b \<ge> 6 then ret ()
      else if payloadBytes b \<le> 0 \<or> timed_out b then ret ()
      else seqE (check_packets b src ewt) (check_words b src ewt))"

subsection \<open>The emulator's pattern\<close>

text \<open>The words of a block, and those an emulator produces for \<open>n\<close> pairs.\<close>

definition w16 :: "u8 list \<Rightarrow> nat \<Rightarrow> u16" where
  "w16 bs i = ucast (bs ! (2 * i)) OR push_bit 8 (ucast (bs ! (2 * i + 1)))"

definition block_words :: "data_block \<Rightarrow> u16 list" where
  "block_words b = map (w16 (db_data b)) [0..<nat (payloadBytes b) div 2]"

fun emulator_words :: "u16 \<Rightarrow> u16 \<Rightarrow> nat \<Rightarrow> u16 list" where
  "emulator_words c n 0 = []"
| "emulator_words c n (Suc k) = c # n # emulator_words c (n + 2) k"

lemma length_emulator_words [simp]: "length (emulator_words c n k) = 2 * k"
  by (induction k arbitrary: n) auto

lemma emulator_words_nth:
  "i < k \<Longrightarrow> emulator_words c n k ! (2 * i) = c \<and> emulator_words c n k ! (2 * i + 1) = n + 2 * of_nat i"
proof (induction k arbitrary: n i)
  case (Suc k)
  show ?case
  proof (cases i)
    case (Suc j)
    then show ?thesis using Suc.IH [of j "n + 2"] Suc.prems by (simp add: algebra_simps)
  qed simp
qed simp

lemma emulator_words_append:
  "emulator_words c n j @ emulator_words c (n + 2 * of_nat j) k = emulator_words c n (j + k)"
proof (induction j arbitrary: n)
  case (Suc j)
  then show ?case using Suc.IH [of "n + 2"] by (simp add: algebra_simps)
qed simp

lemma emulator_words_snoc:
  "emulator_words c n (Suc k) = emulator_words c n k @ [c, n + 2 * of_nat k]"
  using emulator_words_append [of c n k 1] by simp

lemma emulator_words_eqI:
  assumes "length ws = 2 * k" and "\<And>i. i < k \<Longrightarrow> ws ! (2 * i) = c \<and> ws ! (2 * i + 1) = n + 2 * of_nat i"
  shows "ws = emulator_words c n k"
proof (rule nth_equalityI)
  fix j assume j: "j < length ws"
  show "ws ! j = emulator_words c n k ! j"
  proof (cases "even j")
    case True
    then obtain i where "j = 2 * i" by (elim evenE)
    then show ?thesis using assms emulator_words_nth [of i k c n] j by simp
  next
    case False
    then obtain i where "j = 2 * i + 1" by (elim oddE)
    then show ?thesis using assms emulator_words_nth [of i k c n] j by simp
  qed
qed (simp add: assms)

subsection \<open>What the check accepts\<close>

lemma le16_w16: "2 * i + 1 < length bs \<Longrightarrow> le16 bs i = ret (w16 bs i)"
  by (rule ext) (simp add: le16_def at_def w16_def)

text \<open>The data of a block as the library hands it out: the payload is readable.\<close>

definition block_readable :: "data_block \<Rightarrow> bool" where
  "block_readable b \<longleftrightarrow> payloadBytes b \<le> int (length (db_data b))"

lemma readable_word:
  "block_readable b \<Longrightarrow> i < nat (payloadBytes b) div 2 \<Longrightarrow> 2 * i + 1 < length (db_data b)"
  by (simp add: block_readable_def)

lemma payload_dump_ret:
  assumes "block_readable b"
  shows "\<exists>t. payload_dump b s = (Ret t, s)"
proof -
  have "\<exists>t. foldE (\<lambda>k acc. bindE (le16 (db_data b) k) (\<lambda>w.
        ret (acc @ (if k mod 8 = 0 then CHR 0x0A # ''    '' else '' '') @ hexw 4 (unat w)))) xs acc s = (Ret t, s)"
    if "\<And>k. k \<in> set xs \<Longrightarrow> k < nat (payloadBytes b) div 2" for xs acc
    using that
  proof (induction xs arbitrary: acc)
    case (Cons x xs)
    then show ?case using readable_word [OF assms] by (simp add: le16_w16)
  qed (simp add: ret_def)
  note dump = this
  show ?thesis unfolding payload_dump_def by (rule dump) simp
qed

text \<open>An error throws, counts and records, and changes nothing else.\<close>

lemma noteError_throws:
  assumes "block_readable b" and "counter (db_link b) s = (Ret (), s')"
  shows "\<exists>t. noteError counter b src ewt what s
    = (Throw t, s'\<lparr>rocEmulatorFirstErrors := rocEmulatorFirstErrors s' @ [t]\<rparr>)"
  using payload_dump_ret [OF assms(1), of s'] assms(2)
  by (auto simp: noteError_def seqE_def bindE_def modify_def throw_def Let_def)

definition emulator_ready :: "'e thread \<Rightarrow> bool" where
  "emulator_ready s \<longleftrightarrow> length (rocEmulatorDataErrorsCount s) = 6 \<and> length (rocEmulatorPacketCountErrorsCount s) = 6"

lemma dataError_throws:
  assumes "block_readable b" and "db_link b < 6" and "emulator_ready s"
  shows "\<exists>t. dataError b src ewt what s = (Throw t,
     s\<lparr>rocEmulatorDataErrorsCount := (rocEmulatorDataErrorsCount s)[db_link b := rocEmulatorDataErrorsCount s ! db_link b + 1],
       rocEmulatorFirstErrors := rocEmulatorFirstErrors s @ [t]\<rparr>)"
proof -
  let ?s = "s\<lparr>rocEmulatorDataErrorsCount := (rocEmulatorDataErrorsCount s)[db_link b := rocEmulatorDataErrorsCount s ! db_link b + 1]\<rparr>"
  have "add_at rocEmulatorDataErrorsCount rocEmulatorDataErrorsCount_update (db_link b) 1 s = (Ret (), ?s)"
    using assms(2,3) by (simp add: add_at_def emulator_ready_def)
  from noteError_throws [where counter = "\<lambda>l. add_at rocEmulatorDataErrorsCount rocEmulatorDataErrorsCount_update l 1",
      OF assms(1) this]
  show ?thesis by (simp add: dataError_def)
qed

lemma packetCountError_throws:
  assumes "block_readable b" and "db_link b < 6" and "emulator_ready s"
  shows "\<exists>t. packetCountError b src ewt what s = (Throw t,
     s\<lparr>rocEmulatorPacketCountErrorsCount := (rocEmulatorPacketCountErrorsCount s)[db_link b :=
         rocEmulatorPacketCountErrorsCount s ! db_link b + 1],
       rocEmulatorFirstErrors := rocEmulatorFirstErrors s @ [t]\<rparr>)"
proof -
  let ?s = "s\<lparr>rocEmulatorPacketCountErrorsCount := (rocEmulatorPacketCountErrorsCount s)[db_link b :=
      rocEmulatorPacketCountErrorsCount s ! db_link b + 1]\<rparr>"
  have "add_at rocEmulatorPacketCountErrorsCount rocEmulatorPacketCountErrorsCount_update (db_link b) 1 s = (Ret (), ?s)"
    using assms(2,3) by (simp add: add_at_def emulator_ready_def)
  from noteError_throws [where counter = "\<lambda>l. add_at rocEmulatorPacketCountErrorsCount rocEmulatorPacketCountErrorsCount_update l 1",
      OF assms(1) this]
  show ?thesis by (simp add: packetCountError_def)
qed

text \<open>The state after an error: one more counted on the block's link, one more message kept.\<close>

definition data_error_state :: "data_block \<Rightarrow> string \<Rightarrow> 'e thread \<Rightarrow> 'e thread" where
  "data_error_state b t s = s\<lparr>
     rocEmulatorDataErrorsCount := (rocEmulatorDataErrorsCount s)[db_link b := rocEmulatorDataErrorsCount s ! db_link b + 1],
     rocEmulatorFirstErrors := rocEmulatorFirstErrors s @ [t]\<rparr>"

definition packet_error_state :: "data_block \<Rightarrow> string \<Rightarrow> 'e thread \<Rightarrow> 'e thread" where
  "packet_error_state b t s = s\<lparr>
     rocEmulatorPacketCountErrorsCount := (rocEmulatorPacketCountErrorsCount s)[db_link b :=
       rocEmulatorPacketCountErrorsCount s ! db_link b + 1],
     rocEmulatorFirstErrors := rocEmulatorFirstErrors s @ [t]\<rparr>"

definition pair_ok :: "data_block \<Rightarrow> u16 \<Rightarrow> u16 \<Rightarrow> nat \<Rightarrow> bool" where
  "pair_ok b c n k \<longleftrightarrow> w16 (db_data b) (2 * k) = c \<and> w16 (db_data b) (2 * k + 1) = n"

lemma check_pair_words:
  fixes s :: "'e thread"
  assumes "le16 (db_data b) (2 * k) = (ret c' :: ('e thread, u16) eff)"
    and "le16 (db_data b) (2 * k + 1) = (ret n' :: ('e thread, u16) eff)"
    and "block_readable b" and "db_link b < 6" and "emulator_ready s"
  shows "((c' = c \<and> n' = n) \<and> check_pair b src ewt c k n s = (Ret (n + 2), s))
       \<or> (\<not> (c' = c \<and> n' = n) \<and> (\<exists>t. check_pair b src ewt c k n s = (Throw t, data_error_state b t s)))"
proof -
  have err: "\<exists>t. bindE (dataError b src ewt what) k' s = (Throw t, data_error_state b t s)"
    for what and k' :: "unit \<Rightarrow> ('e, u16) det_eff"
    using dataError_throws [OF assms(3-5), of src ewt what] by (auto simp: bindE_cases data_error_state_def)
  show ?thesis
    unfolding check_pair_def assms(1,2) bindE_ret whenE_def seqE_def
    using err by (cases "c' = c"; cases "n' = n") (simp_all add: ret_def [of _ s])
qed

lemma check_pair_outcome:
  assumes "block_readable b" and "db_link b < 6" and "emulator_ready s" and "k < nat (payloadBytes b) div 2 div 2"
  shows "(pair_ok b c n k \<and> check_pair b src ewt c k n s = (Ret (n + 2), s))
       \<or> (\<not> pair_ok b c n k \<and> (\<exists>t. check_pair b src ewt c k n s = (Throw t, data_error_state b t s)))"
proof -
  have "2 * (2 * k) + 1 < length (db_data b)" "2 * (2 * k + 1) + 1 < length (db_data b)"
    using assms(4) by (intro readable_word [OF assms(1)]; linarith)+
  then show ?thesis
    unfolding pair_ok_def by (intro check_pair_words le16_w16 assms(1-3))
qed

text \<open>The loop over the pairs \<open>j\<close> to \<open>m - 1\<close>.\<close>

lemma pairs_outcome:
  assumes "block_readable b" and "db_link b < 6" and "emulator_ready s" and "m \<le> nat (payloadBytes b) div 2 div 2"
  shows "((\<forall>i. j \<le> i \<and> i < m \<longrightarrow> pair_ok b c (n + 2 * of_nat (i - j)) i)
            \<and> foldE (check_pair b src ewt c) [j..<m] n s = (Ret (n + 2 * of_nat (m - j)), s))
       \<or> (\<not> (\<forall>i. j \<le> i \<and> i < m \<longrightarrow> pair_ok b c (n + 2 * of_nat (i - j)) i)
            \<and> (\<exists>t. foldE (check_pair b src ewt c) [j..<m] n s = (Throw t, data_error_state b t s)))"
proof (induction "m - j" arbitrary: j n)
  case 0
  then show ?case by (auto simp: ret_def)
next
  case (Suc d)
  then have j: "j < m" and d: "d = m - Suc j" by simp_all
  have shift: "n + 2 * of_nat (i - j) = n + 2 + 2 * (of_nat (i - Suc j) :: u16)" if "Suc j \<le> i" for i
  proof -
    have "i - j = Suc (i - Suc j)" using that by simp
    then show ?thesis by (simp add: distrib_left)
  qed
  have all: "(\<forall>i. j \<le> i \<and> i < m \<longrightarrow> pair_ok b c (n + 2 * of_nat (i - j)) i) \<longleftrightarrow>
      pair_ok b c n j \<and> (\<forall>i. Suc j \<le> i \<and> i < m \<longrightarrow> pair_ok b c (n + 2 + 2 * of_nat (i - Suc j)) i)"
  proof (intro iffI conjI allI impI; (elim conjE)?)
    fix i assume "pair_ok b c n j" "\<forall>i. Suc j \<le> i \<and> i < m \<longrightarrow> pair_ok b c (n + 2 + 2 * of_nat (i - Suc j)) i"
      and "j \<le> i" "i < m"
    then show "pair_ok b c (n + 2 * of_nat (i - j)) i"
      using shift [of i] by (cases "i = j") simp_all
  qed (use j shift in fastforce)+
  have "j < nat (payloadBytes b) div 2 div 2" using j assms(4) by simp
  note pair = check_pair_outcome [OF assms(1-3) this, of c n src ewt]
  show ?case
    unfolding upt_conv_Cons [OF j] foldE.simps all
    using pair Suc.hyps(1) [OF d, of "n + 2"] shift [of m] j
    by (auto simp: bindE_cases)
qed

subsection \<open>The whole block\<close>

text \<open>What the check demands of a block, given the state: the packet count seen first, and for a block
  of at least two words the pattern, started at the counter the previous block announced.\<close>

definition block_pairs :: "data_block \<Rightarrow> nat" where
  "block_pairs b = nat (payloadBytes b) div 2 div 2"

definition words_ok :: "data_block \<Rightarrow> u8 \<Rightarrow> 'e thread \<Rightarrow> bool" where
  "words_ok b src s \<longleftrightarrow> nat (payloadBytes b) div 2 < 2
     \<or> om_get (rocEmulatorNextCounter s) (streamKey src (db_link b)) \<in> {None, Some (w16 (db_data b) 1)}
       \<and> take (2 * block_pairs b) (block_words b)
           = emulator_words (w16 (db_data b) 0) (w16 (db_data b) 1) (block_pairs b)"

definition continues_stream :: "data_block \<Rightarrow> u8 \<Rightarrow> 'e thread \<Rightarrow> bool" where
  "continues_stream b src s \<longleftrightarrow>
     (rocEmulatorExpectedPackets s < 0 \<or> rocEmulatorExpectedPackets s = payloadBytes b div 16) \<and> words_ok b src s"

definition checked :: "data_block \<Rightarrow> bool" where
  "checked b \<longleftrightarrow> db_link b < 6 \<and> 0 < payloadBytes b \<and> \<not> timed_out b"

text \<open>The state after an accepted block.\<close>

definition packets_state :: "data_block \<Rightarrow> 'e thread \<Rightarrow> 'e thread" where
  "packets_state b s =
     (if rocEmulatorExpectedPackets s < 0 then s\<lparr>rocEmulatorExpectedPackets := payloadBytes b div 16\<rparr> else s)"

definition accepted_state :: "data_block \<Rightarrow> u8 \<Rightarrow> 'e thread \<Rightarrow> 'e thread" where
  "accepted_state b src s =
     (if nat (payloadBytes b) div 2 < 2 then s
      else s\<lparr>rocEmulatorNextCounter := om_put (streamKey src (db_link b))
             (w16 (db_data b) (nat (payloadBytes b) div 2 - 1) + 2) (rocEmulatorNextCounter s)\<rparr>)"

lemma block_pairs_ok:
  "(\<forall>i. 0 \<le> i \<and> i < block_pairs b \<longrightarrow> pair_ok b c (n + 2 * of_nat (i - 0)) i)
   \<longleftrightarrow> take (2 * block_pairs b) (block_words b) = emulator_words c n (block_pairs b)"
proof -
  let ?ws = "take (2 * block_pairs b) (block_words b)"
  have len: "length ?ws = 2 * block_pairs b"
    by (simp add: block_words_def block_pairs_def)
  have nth: "?ws ! k = w16 (db_data b) k" if "k < 2 * block_pairs b" for k
    using that by (simp add: block_words_def block_pairs_def)
  show ?thesis
  proof
    assume ok: "\<forall>i. 0 \<le> i \<and> i < block_pairs b \<longrightarrow> pair_ok b c (n + 2 * of_nat (i - 0)) i"
    show "?ws = emulator_words c n (block_pairs b)"
      by (rule emulator_words_eqI [OF len]) (use ok nth in \<open>simp add: pair_ok_def\<close>)
  next
    assume ws: "?ws = emulator_words c n (block_pairs b)"
    show "\<forall>i. 0 \<le> i \<and> i < block_pairs b \<longrightarrow> pair_ok b c (n + 2 * of_nat (i - 0)) i"
    proof (intro allI impI)
      fix i assume "0 \<le> i \<and> i < block_pairs b"
      then show "pair_ok b c (n + 2 * of_nat (i - 0)) i"
        using emulator_words_nth [of i "block_pairs b" c n] nth [of "2 * i"] nth [of "2 * i + 1"] ws
        by (simp add: pair_ok_def)
    qed
  qed
qed

lemma check_packets_outcome:
  assumes "block_readable b" and "db_link b < 6" and "emulator_ready s"
  shows "if rocEmulatorExpectedPackets s < 0 \<or> rocEmulatorExpectedPackets s = payloadBytes b div 16
         then check_packets b src ewt s = (Ret (), packets_state b s)
         else (\<exists>t. check_packets b src ewt s = (Throw t, packet_error_state b t s))"
  using packetCountError_throws [OF assms]
  by (auto simp: check_packets_def packets_state_def Let_def bindE_def gets_def whenE_def ret_def modify_def
      packet_error_state_def)

lemma check_words_long:
  fixes s :: "'e thread"
  assumes "block_readable b" and "db_link b < 6" and "emulator_ready s" and long: "2 \<le> nat (payloadBytes b) div 2"
  shows "if words_ok b src s then check_words b src ewt s = (Ret (), accepted_state b src s)
         else (\<exists>t. check_words b src ewt s = (Throw t, data_error_state b t s))"
proof -
  let ?n = "nat (payloadBytes b) div 2"
  let ?c = "w16 (db_data b) 0" and ?f = "w16 (db_data b) 1"
  let ?key = "streamKey src (db_link b)"
  have read: "le16 (db_data b) 0 = ret ?c" "le16 (db_data b) 1 = ret ?f"
    "le16 (db_data b) (?n - 1) = ret (w16 (db_data b) (?n - 1))"
    by ((rule le16_w16, rule readable_word [OF assms(1)], use long in linarith)+)
  have err: "\<exists>t. bindE (dataError b src ewt what) k s = (Throw t, data_error_state b t s)"
    for what and k :: "unit \<Rightarrow> ('e, unit) det_eff"
    using dataError_throws [OF assms(1-3), of src ewt what] by (auto simp: bindE_cases data_error_state_def)
  have pairs: "if take (2 * block_pairs b) (block_words b) = emulator_words ?c ?f (block_pairs b)
      then foldE (check_pair b src ewt ?c) [0..<?n div 2] ?f s = (Ret (?f + 2 * of_nat (block_pairs b)), s)
      else (\<exists>t. foldE (check_pair b src ewt ?c) [0..<?n div 2] ?f s = (Throw t, data_error_state b t s))"
    using pairs_outcome [OF assms(1-3), of "block_pairs b" 0 ?c ?f src ewt] block_pairs_ok [of b ?c ?f]
    by (auto simp: block_pairs_def)
  let ?tail = "\<lambda>prev :: u16 option. seqE (case prev of None \<Rightarrow> ret () | Some p \<Rightarrow> whenE (?f \<noteq> p)
        (dataError b src ewt (''block starts at counter '' @ hex4 ?f @ '', expected ''
                     @ hex4 p @ '' after the previous block (''
                     @ to_string (unat (?f - p) div 2) @ '' pairs skipped)'')))
       (bindE (foldE (check_pair b src ewt ?c) [0..<?n div 2] ?f) (\<lambda>_.
        modify (\<lambda>s. s\<lparr>rocEmulatorNextCounter := om_put ?key (w16 (db_data b) (?n - 1) + 2) (rocEmulatorNextCounter s)\<rparr>)))"
  have eq: "check_words b src ewt s = ?tail (om_get (rocEmulatorNextCounter s) ?key) s"
    unfolding check_words_def Let_def using long by (simp add: read bindE_def [of "gets _"] gets_def del: One_nat_def)
  have all: "if prev \<in> {None, Some ?f} \<and> take (2 * block_pairs b) (block_words b) = emulator_words ?c ?f (block_pairs b)
      then ?tail prev s = (Ret (), accepted_state b src s)
      else (\<exists>t. ?tail prev s = (Throw t, data_error_state b t s))" for prev
  proof (cases "prev \<in> {None, Some ?f}")
    case True
    then have tail: "?tail prev = bindE (foldE (check_pair b src ewt ?c) [0..<?n div 2] ?f) (\<lambda>_.
        modify (\<lambda>s. s\<lparr>rocEmulatorNextCounter := om_put ?key (w16 (db_data b) (?n - 1) + 2) (rocEmulatorNextCounter s)\<rparr>))"
      by (auto simp: seqE_def whenE_def)
    show ?thesis
      unfolding tail using pairs True long
      by (auto simp: bindE_cases modify_def accepted_state_def split: if_splits)
  next
    case False
    then obtain p where "prev = Some p" "?f \<noteq> p" by (cases prev) auto
    then show ?thesis using err False by (simp add: seqE_def whenE_def del: One_nat_def)
  qed
  have ok: "words_ok b src s \<longleftrightarrow> om_get (rocEmulatorNextCounter s) ?key \<in> {None, Some ?f}
      \<and> take (2 * block_pairs b) (block_words b) = emulator_words ?c ?f (block_pairs b)"
    using long by (simp only: words_ok_def) linarith
  show ?thesis unfolding eq ok by (rule all)
qed

lemma check_words_outcome:
  assumes "block_readable b" and "db_link b < 6" and "emulator_ready s"
  shows "if words_ok b src s then check_words b src ewt s = (Ret (), accepted_state b src s)
         else (\<exists>t. check_words b src ewt s = (Throw t, data_error_state b t s))"
proof (cases "2 \<le> nat (payloadBytes b) div 2")
  case True
  from check_words_long [OF assms this] show ?thesis .
next
  case False
  then show ?thesis by (simp add: words_ok_def check_words_def accepted_state_def ret_def Let_def)
qed

lemma emulator_check_exact_raw:
  assumes "checked b" and "block_readable b" and "emulator_ready s"
  shows "if continues_stream b src s
         then checkROCEmulatorBlock b src ewt s = (Ret (), accepted_state b src (packets_state b s))
         else (\<exists>t. checkROCEmulatorBlock b src ewt s
                 \<in> {(Throw t, packet_error_state b t s), (Throw t, data_error_state b t (packets_state b s))})"
proof -
  have link: "db_link b < 6" and body: "checkROCEmulatorBlock b src ewt s = seqE (check_packets b src ewt) (check_words b src ewt) s"
    using assms(1) by (simp_all add: checkROCEmulatorBlock_def checked_def)
  have ready: "emulator_ready (packets_state b s)" and same: "words_ok b src (packets_state b s) = words_ok b src s"
    using assms(3) by (simp_all add: packets_state_def emulator_ready_def words_ok_def)
  show ?thesis
    using check_packets_outcome [OF assms(2) link assms(3), of src ewt]
      check_words_outcome [OF assms(2) link ready, of src ewt] same
    unfolding body continues_stream_def seqE_def
    by (auto simp: bindE_cases split: if_splits)
qed

text \<open>
  C19. What the emulator check accepts: for every state and every readable, non-empty, not timed-out
  block of a link below 6, \<open>checkROCEmulatorBlock\<close> returns exactly when the block has the packet
  count of the first block seen and its words are the emulator's pattern (one constant, a counter
  growing by 2 modulo 2^16) continued from the last block of the same source and link; it then
  stores the next counter. Otherwise it throws, counts one error on that link and keeps its message.
\<close>
theorem emulator_check_exact:
  assumes "checked b" and "block_readable b" and "emulator_ready s"
  shows "if continues_stream b src s
         then checkROCEmulatorBlock b src ewt s = (Ret (), accepted_state b src (packets_state b s))
         else (\<exists>t. checkROCEmulatorBlock b src ewt s
                 \<in> {(Throw t, packet_error_state b t s), (Throw t, data_error_state b t (packets_state b s))})"
  using assms by (rule emulator_check_exact_raw)

definition sample_block :: data_block where
  "sample_block = \<lparr>db_link = 2, db_byteCount = 24, db_status = 1, db_raw = [],
     db_data = [0xAD, 0xDE, 0xFE, 0xFF, 0xAD, 0xDE, 0x00, 0x00], db_json = ''{}''\<rparr>"

definition sample_thread :: "unit thread" where
  "sample_thread = (new_thread ())\<lparr>rocEmulatorDataErrorsCount := replicate 6 0,
     rocEmulatorPacketCountErrorsCount := replicate 6 0\<rparr>"

lemma sample_hypotheses:
  "checked sample_block" "block_readable sample_block" "emulator_ready sample_thread"
  "continues_stream sample_block 1 sample_thread"
  by (code_simp, code_simp, simp add: sample_thread_def emulator_ready_def,
      simp add: sample_thread_def new_thread_def continues_stream_def words_ok_def, code_simp)

theorem emulator_check_exact_witness:
  "checkROCEmulatorBlock sample_block 1 7 sample_thread
     = (Ret (), accepted_state sample_block 1 (packets_state sample_block sample_thread))"
  using emulator_check_exact [OF sample_hypotheses(1-3), of 1 7] sample_hypotheses(4) by simp

subsection \<open>Streams across blocks\<close>

definition counters :: "data_block \<Rightarrow> u16 list" where
  "counters b = map (\<lambda>k. w16 (db_data b) (2 * k + 1)) [0..<block_pairs b]"

text \<open>A block of link \<open>l\<close> that carries whole pairs.\<close>

definition whole_block :: "nat \<Rightarrow> data_block \<Rightarrow> bool" where
  "whole_block l b \<longleftrightarrow> checked b \<and> block_readable b \<and> db_link b = l \<and> 4 dvd payloadBytes b"

lemma whole_block_pairs:
  assumes "whole_block l b"
  shows "0 < block_pairs b" and "nat (payloadBytes b) div 2 = 2 * block_pairs b"
proof -
  obtain k where k: "payloadBytes b = 4 * k" "0 < k"
    using assms by (auto simp: whole_block_def checked_def elim!: dvdE)
  then have "nat (payloadBytes b) = 4 * nat k" by (simp add: nat_mult_distrib)
  then show "0 < block_pairs b" "nat (payloadBytes b) div 2 = 2 * block_pairs b"
    using k(2) by (simp_all add: block_pairs_def)
qed

lemma accepted_counters:
  assumes "whole_block l b" and "continues_stream b src s"
    and "om_get (rocEmulatorNextCounter s) (streamKey src l) = Some n"
  shows "counters b = map (\<lambda>i. n + 2 * of_nat i) [0..<block_pairs b]"
    and "om_get (rocEmulatorNextCounter (accepted_state b src (packets_state b s))) (streamKey src l)
       = Some (n + 2 * of_nat (block_pairs b))"
proof -
  note p = whole_block_pairs [OF assms(1)]
  have start: "w16 (db_data b) 1 = n"
    and ws: "take (2 * block_pairs b) (block_words b) = emulator_words (w16 (db_data b) 0) n (block_pairs b)"
    using assms(2,3) assms(1) p by (auto simp: continues_stream_def words_ok_def whole_block_def)
  have pair: "w16 (db_data b) (2 * i + 1) = n + 2 * of_nat i" if "i < block_pairs b" for i
    using that block_pairs_ok [of b "w16 (db_data b) 0" n] ws by (auto simp: pair_ok_def)
  then show "counters b = map (\<lambda>i. n + 2 * of_nat i) [0..<block_pairs b]"
    by (auto simp: counters_def)
  obtain k where k: "block_pairs b = Suc k" using p(1) by (cases "block_pairs b") auto
  have "nat (payloadBytes b) div 2 - 1 = 2 * k + 1" using p(2) k by simp
  then have "w16 (db_data b) (nat (payloadBytes b) div 2 - 1) = n + 2 * of_nat k" using pair [of k] k by simp
  then show "om_get (rocEmulatorNextCounter (accepted_state b src (packets_state b s))) (streamKey src l)
       = Some (n + 2 * of_nat (block_pairs b))"
    using assms(1) p k by (simp add: accepted_state_def packets_state_def whole_block_def distrib_left)
qed

lemma seq_map_append: "map f [0..<a] @ map (\<lambda>i. f (a + i)) [0..<b] = map f [0..<a + b]"
  by (rule nth_equalityI) (auto simp: nth_append)

text \<open>
  Counters run on across blocks and events: when the check accepts a sequence of blocks of one
  source and link (of whole pairs, other parameters arbitrary), starting from a known next counter
  \<open>n\<close>, the counters of all the blocks together are n, n+2, n+4, ... without a gap or a repetition,
  and the next counter kept is the one after the last.
\<close>
theorem emulator_stream_continuous:
  assumes "\<forall>x \<in> set bs. whole_block l (fst x)" and "emulator_ready s"
    and "om_get (rocEmulatorNextCounter s) (streamKey src l) = Some n"
    and "forE bs (\<lambda>(b, ewt). checkROCEmulatorBlock b src ewt) s = (Ret (), s')"
  shows "concat (map (\<lambda>(b, _). counters b) bs)
           = map (\<lambda>i. n + 2 * of_nat i) [0..<sum_list (map (\<lambda>(b, _). block_pairs b) bs)]
       \<and> om_get (rocEmulatorNextCounter s') (streamKey src l)
           = Some (n + 2 * of_nat (sum_list (map (\<lambda>(b, _). block_pairs b) bs)))"
  using assms
proof (induction bs arbitrary: s n)
  case Nil
  then show ?case by (simp add: forE_def ret_def)
next
  case (Cons x bs)
  obtain b ewt where x: "x = (b, ewt)" by (cases x)
  have b: "whole_block l b" using Cons.prems(1) x by simp
  obtain s1 where run: "checkROCEmulatorBlock b src ewt s = (Ret (), s1)"
    and rest: "forE bs (\<lambda>(b, ewt). checkROCEmulatorBlock b src ewt) s1 = (Ret (), s')"
    using Cons.prems(4) by (auto simp: x forE_def bindE_Ret)
  have "continues_stream b src s" and s1: "s1 = accepted_state b src (packets_state b s)"
    using emulator_check_exact_raw [of b s src ewt] b Cons.prems(2) run
    by (auto simp: whole_block_def split: if_splits)
  note nxt = accepted_counters [OF b this(1) Cons.prems(3)]
  have "emulator_ready s1"
    using Cons.prems(2) by (simp add: s1 emulator_ready_def accepted_state_def packets_state_def)
  from Cons.IH [OF _ this nxt(2) [folded s1] rest] Cons.prems(1) nxt(1)
  show ?case
    using seq_map_append [of "\<lambda>i. n + 2 * of_nat i" "block_pairs b"] by (simp add: x add.assoc flip: distrib_left of_nat_add)
qed

text \<open>Two blocks whose counters wrap.\<close>

definition sample_next :: data_block where
  "sample_next = sample_block\<lparr>db_data := [0xAD, 0xDE, 0x02, 0x00, 0xAD, 0xDE, 0x04, 0x00]\<rparr>"

definition sample_stream :: "unit thread" where
  "sample_stream = sample_thread\<lparr>rocEmulatorNextCounter := [(streamKey 1 2, 0xFFFE)]\<rparr>"

definition sample_mid :: "unit thread" where
  "sample_mid = accepted_state sample_block 1 (packets_state sample_block sample_stream)"

lemma sample_stream_run:
  "checkROCEmulatorBlock sample_block 1 7 sample_stream = (Ret (), sample_mid)"
  "checkROCEmulatorBlock sample_next 1 8 sample_mid = (Ret (), accepted_state sample_next 1 sample_mid)"
proof -
  have ready: "emulator_ready sample_stream" "emulator_ready sample_mid"
    by (simp_all add: sample_mid_def sample_stream_def sample_thread_def emulator_ready_def accepted_state_def
        packets_state_def)
  have blocks: "checked sample_block" "block_readable sample_block" "checked sample_next" "block_readable sample_next"
    by code_simp+
  have ok: "continues_stream sample_block 1 sample_stream" "continues_stream sample_next 1 sample_mid"
    by code_simp+
  have same: "packets_state sample_next sample_mid = sample_mid"
    by (simp add: packets_state_def sample_mid_def accepted_state_def sample_stream_def sample_thread_def
        sample_next_def payloadBytes_def)
  show "checkROCEmulatorBlock sample_block 1 7 sample_stream = (Ret (), sample_mid)"
    using emulator_check_exact_raw [OF blocks(1,2) ready(1), of 1 7] ok by (simp add: sample_mid_def)
  show "checkROCEmulatorBlock sample_next 1 8 sample_mid = (Ret (), accepted_state sample_next 1 sample_mid)"
    using emulator_check_exact_raw [OF blocks(3,4) ready(2), of 1 8] ok same by simp
qed

theorem emulator_stream_continuous_witness:
  "concat (map (\<lambda>(b, _). counters b) [(sample_block, 7 :: u64), (sample_next, 8)]) = [0xFFFE, 0, 2, 4]"
proof -
  let ?bs = "[(sample_block, 7 :: u64), (sample_next, 8)]"
  have run: "forE ?bs (\<lambda>(b, ewt). checkROCEmulatorBlock b 1 ewt) sample_stream
      = (Ret (), accepted_state sample_next 1 sample_mid)"
    by (simp add: forE_def bindE_def sample_stream_run ret_def)
  have hyp: "\<forall>x \<in> set ?bs. whole_block 2 (fst x)" "emulator_ready sample_stream"
    "om_get (rocEmulatorNextCounter sample_stream) (streamKey 1 2) = Some 0xFFFE"
    by code_simp+
  have total: "sum_list (map (\<lambda>(b, _). block_pairs b) ?bs) = 4" by code_simp
  have "map (\<lambda>i. 0xFFFE + 2 * of_nat i) [0..<4] = [0xFFFE, 0, 2, 4 :: u16]" by code_simp
  with emulator_stream_continuous [OF hyp run] show ?thesis unfolding total by simp
qed

end
