(* ===== verification/EVB_Gate.thy ===== *)
theory EVB_Gate
  imports Detached_Types
begin

section \<open>The event builder's start gate and register helpers\<close>

text \<open>
  The helpers at the top of DTCFrontEndInterfaceImpl.cc: the EVB status word 0x9370 and the masks
  that excuse bits of it, the gate a Buffer Test must pass, the accumulation of the 32-bit stall
  counters, the register access of the EVB link 7 and the decoders of status words.
\<close>

subsection \<open>Registers\<close>

definition kRegDesignVersion :: u16 where "kRegDesignVersion = 0x9004"
definition kRegSERDESLoopback :: u16 where "kRegSERDESLoopback = 0x9108"
definition kRegLinkEnable :: u16 where "kRegLinkEnable = 0x9114"
definition kRegSERDESReset :: u16 where "kRegSERDESReset = 0x9118"
definition kRegSERDESPLLLocked :: u16 where "kRegSERDESPLLLocked = 0x9128"
definition kRegSERDESResetDone :: u16 where "kRegSERDESResetDone = 0x9138"
definition kRegSERDESRXCDRLock :: u16 where "kRegSERDESRXCDRLock = 0x9140"
definition kRegEVBErrorFlags :: u16 where "kRegEVBErrorFlags = 0x9370"
definition kRegEVBResendCount :: u16 where "kRegEVBResendCount = 0x9174"
definition kRegFireFlyStatus :: u16 where "kRegFireFlyStatus = 0x93A0"
definition kLink7ResetDoneMask :: u32 where "kLink7ResetDoneMask = 0x80808080"
definition kLink7Bit :: u32 where "kLink7Bit = push_bit 7 1"

definition read_register :: "'e det \<Rightarrow> dtc \<Rightarrow> u16 \<Rightarrow> ('e, int \<times> u32) hw_eff" where
  "read_register D d a = call (d_read (dio D) d a)"

definition readReg :: "'e det \<Rightarrow> dtc \<Rightarrow> u16 \<Rightarrow> ('e, u32) hw_eff" where
  "readReg D d addr =
     bindE (read_register D d addr) (\<lambda>(err, v).
     if err \<noteq> 0
     then throw (''read_register(0x'' @ radix_string 16 (unat addr) @ '') failed, error '' @ to_string_int err)
     else ret v)"

definition writeReg :: "'e det \<Rightarrow> dtc \<Rightarrow> u16 \<Rightarrow> u32 \<Rightarrow> ('e, unit) hw_eff" where
  "writeReg D d addr v =
     bindE (call (d_write (dio D) d addr v)) (\<lambda>err.
     if err \<noteq> 0
     then throw (''write_register(0x'' @ radix_string 16 (unat addr) @ '', 0x'' @ radix_string 16 (unat v)
                 @ '') failed, error '' @ to_string_int err)
     else ret ())"

definition link7_value :: "bool \<Rightarrow> u32 \<Rightarrow> u32" where
  "link7_value b v = (if b then v OR kLink7Bit else v AND NOT kLink7Bit)"

definition setEVBLink7Reset :: "'e det \<Rightarrow> dtc \<Rightarrow> bool \<Rightarrow> ('e, unit) hw_eff" where
  "setEVBLink7Reset D d b =
     bindE (readReg D d kRegSERDESReset) (\<lambda>v. writeReg D d kRegSERDESReset (link7_value b v))"

definition evbLink7TransceiverReady :: "u32 \<Rightarrow> u32 \<Rightarrow> bool" where
  "evbLink7TransceiverReady resetDone pllLocked \<longleftrightarrow>
     resetDone AND kLink7ResetDoneMask = kLink7ResetDoneMask \<and> pllLocked AND kLink7Bit \<noteq> 0"

text \<open>\<^verbatim>\<open>pollUntil\<close>, with a bound on its rounds; the clock is in nanoseconds.\<close>

definition pollUntil :: "'e det \<Rightarrow> nat \<Rightarrow> ('e, bool) hw_eff \<Rightarrow> int \<Rightarrow> ('e, unit) hw_eff \<Rightarrow> ('e, bool) hw_eff" where
  "pollUntil D n pred timeoutMs usleep =
     bindE (steady_now D) (\<lambda>t.
     let deadline = t + timeoutMs * 1000000 in
     loopE n (\<lambda>_. bindE pred (\<lambda>b.
       if b then ret (Inr True)
       else bindE (steady_now D) (\<lambda>t.
         if t \<ge> deadline then bindE pred (\<lambda>b. ret (Inr b))
         else seqE usleep (ret (Inl ()))))) ())"

subsection \<open>The status word and its masks\<close>

definition readEVBBufferTestStatus :: "'e det \<Rightarrow> dtc option \<Rightarrow> ('e, u32) hw_eff" where
  "readEVBBufferTestStatus D p =
     (case p of
        None \<Rightarrow> throw ''Cannot check EVB 0x9370: DTC is not initialized''
      | Some d \<Rightarrow>
          bindE (read_register D d kRegEVBErrorFlags) (\<lambda>(err, v).
          if err \<noteq> 0
          then throw (''DTC '' @ d_uid (dio D) d @ '': cannot check EVB 0x9370; read error '' @ to_string_int err)
          else ret v))"

definition defect_mask :: "u32 \<Rightarrow> u32" where
  "defect_mask designDate =
     (if designDate \<in> {0xd6091797, 0xd60919a0, 0xd6092192, 0xd6092291, 0xd6092496, 0xd60924a0}
      then push_bit 13 1 else 0)"

definition evbKnownDefectMask :: "'e det \<Rightarrow> dtc option \<Rightarrow> ('e, u32) hw_eff" where
  "evbKnownDefectMask D p =
     (case p of None \<Rightarrow> ret 0
      | Some d \<Rightarrow> bindE (read_register D d kRegDesignVersion) (\<lambda>(_, v). ret (defect_mask v)))"

definition has_retransmission :: "u32 \<Rightarrow> bool" where
  "has_retransmission designDate \<longleftrightarrow> designDate AND NOT 0x80 \<ge> 0xd6100291 AND NOT (0x80 :: u32)"

definition evbHasRetransmission :: "'e det \<Rightarrow> dtc option \<Rightarrow> ('e, bool) hw_eff" where
  "evbHasRetransmission D p =
     (case p of None \<Rightarrow> ret False
      | Some d \<Rightarrow> bindE (read_register D d kRegDesignVersion) (\<lambda>(_, v). ret (has_retransmission v)))"

definition evbRecoveredLossMask :: "'e det \<Rightarrow> dtc option \<Rightarrow> ('e, u32) hw_eff" where
  "evbRecoveredLossMask D p =
     bindE (evbHasRetransmission D p) (\<lambda>b. ret (if b then EVBRxSequenceGapBit (dlib D) else 0))"

subsection \<open>The start gate\<close>

definition gate_mask :: "'e det \<Rightarrow> u32 \<Rightarrow> u32 \<Rightarrow> u32" where
  "gate_mask D buildMask operatorIgnoreMask = buildMask OR (operatorIgnoreMask AND EVBDefinedErrorMask (dlib D))"

text \<open>The wait for the DDR calibration: the status word last read and the time waited.\<close>

definition gate_round ::
  "'e det \<Rightarrow> dtc option \<Rightarrow> u32 \<Rightarrow> int \<Rightarrow> u32 \<times> int \<Rightarrow> ('e, (u32 \<times> int) + (u32 \<times> int)) hw_eff" where
  "gate_round D p ignoreMask deadline = (\<lambda>(v, waitedMs).
     let check = CheckEVBStatus (dlib D) (v AND NOT ignoreMask) in
     if ck_ddr check \<or> ck_sticky check \<noteq> 0 then ret (Inr (v, waitedMs))
     else bindE (steady_now D) (\<lambda>t.
       if t \<ge> deadline then ret (Inr (v, waitedMs))
       else seqE (sleep_ms D 100)
         (bindE (readEVBBufferTestStatus D p) (\<lambda>v'. ret (Inl (v', waitedMs + 100))))))"

definition gate_report :: "'e det \<Rightarrow> dtc option \<Rightarrow> u32 \<Rightarrow> u32 \<Rightarrow> u32 \<Rightarrow> int \<Rightarrow> string" where
  "gate_report D p buildMask operatorIgnoreMask v waitedMs =
     FormatEVBStatusCheck (dlib D) v (case p of None \<Rightarrow> [] | Some d \<Rightarrow> d_uid (dio D) d)
       (gate_mask D buildMask operatorIgnoreMask)
     @ (if buildMask \<noteq> 0
        then ''NOTE: bit 13 (RX_FCS_BAD) excluded from start gate on this bitfile (checker ''
             @ ''defect, not data loss); still reported in EVB Status.'' @ [CHR 0x0A] else [])
     @ (let m = operatorIgnoreMask AND EVBDefinedErrorMask (dlib D) in
        if m \<noteq> 0
        then ''NOTE: operator override: 0x9370 bits 0x'' @ radix_string 16 (unat m)
             @ '' excluded from the start gate this session (FE Macro 'EVB Start-Gate ''
             @ ''Ignore Mask'); still reported in EVB Status.'' @ [CHR 0x0A] else [])
     @ (if waitedMs \<noteq> 0
        then ''Waited '' @ to_string_int waitedMs @ '' ms for DDR calibration (bit 25) after reset.'' @ [CHR 0x0A]
        else [])"

definition requireEVBBufferTestReady :: "'e det \<Rightarrow> nat \<Rightarrow> dtc option \<Rightarrow> u32 \<Rightarrow> ('e, string) hw_eff" where
  "requireEVBBufferTestReady D n p operatorIgnoreMask =
     bindE (evbKnownDefectMask D p) (\<lambda>buildMask.
     let ignoreMask = gate_mask D buildMask operatorIgnoreMask in
     bindE (steady_now D) (\<lambda>t0.
     bindE (readEVBBufferTestStatus D p) (\<lambda>v0.
     bindE (loopE n (gate_round D p ignoreMask (t0 + 3000000000)) (v0, 0)) (\<lambda>(v, waitedMs).
     let report = gate_report D p buildMask operatorIgnoreMask v waitedMs in
     if \<not> ck_ready (CheckEVBStatus (dlib D) (v AND NOT ignoreMask))
     then throw (''Hardware EVB buffer test cannot start.'' @ [CHR 0x0A] @ report)
     else ret (report @ ''Before the first event, SoftReset all participating DTCs together with ''
                      @ ''traffic stopped. This check does not reset hardware.'' @ [CHR 0x0A])))))"

subsection \<open>The stall counters\<close>

text \<open>Counter 13 is a longest hold (the maximum is kept), the others are 32-bit counters that wrap.\<close>

definition stall_step :: "nat \<Rightarrow> u32 \<Rightarrow> u32 \<Rightarrow> u64 \<Rightarrow> u64" where
  "stall_step i v old acc =
     (if i = 13 then (if ucast v > acc then ucast v else acc) else acc + ucast (v - old))"

definition accumulate_stall :: "u32 list \<Rightarrow> u32 list \<times> u64 list \<Rightarrow> u32 list \<times> u64 list" where
  "accumulate_stall values = (\<lambda>(lastSnapshot, accumulated).
     (map (\<lambda>i. if i < length values then values ! i else lastSnapshot ! i) [0..<length lastSnapshot],
      map (\<lambda>i. if i < length values then stall_step i (values ! i) (lastSnapshot ! i) (accumulated ! i)
               else accumulated ! i) [0..<length lastSnapshot]))"

definition accumulateEVBStallCounters ::
  "'e det \<Rightarrow> dtc \<Rightarrow> u32 list \<times> u64 list \<Rightarrow> ('e, u32 list \<times> u64 list) hw_eff" where
  "accumulateEVBStallCounters D d acc =
     bindE (call_try (d_stallCounters (dio D) d)) (\<lambda>values. ret (accumulate_stall values acc))"

definition snapshotEVBStallCounters :: "'e det \<Rightarrow> dtc \<Rightarrow> u32 list \<Rightarrow> ('e, u32 list \<times> bool) hw_eff" where
  "snapshotEVBStallCounters D d target =
     bindE (call_try (d_stallCounters (dio D) d)) (\<lambda>values.
     ret (map (\<lambda>i. if i < length values then values ! i else target ! i) [0..<length target], True))"

subsection \<open>Decoders\<close>

definition ringErrorBits :: "(nat \<times> string) list" where
  "ringErrorBits =
     [(0, ''S2C_OVF''), (1, ''INVALID_S2C''), (2, ''DCS_PEND''), (3, ''EWM_HBP''), (4, ''PLL''), (5, ''RXCDR''),
      (6, ''RX_OVF''), (7, ''RX_INVALID''), (8, ''DCS_TMO''), (9, ''DCS_OVF''), (10, ''CFO_TAG''),
      (11, ''HBP_OVF''), (12, ''OUT_OF_BAND''), (13, ''BUF_RESIDUE''), (14, ''STRAY_EWM''), (15, ''INT_EMU''),
      (20, ''EXT_EMU'')]"

definition decodeRingErrorFlags :: "u32 \<Rightarrow> string" where
  "decodeRingErrorFlags flags =
     (if flags AND 0x001FFFFF = 0 then ''(clean)''
      else
        let names = foldl (\<lambda>result (b, name).
              if flags AND push_bit b 1 \<noteq> 0 then (if result \<noteq> [] then result @ '' '' else result) @ name else result)
              [] ringErrorBits;
            txFsmState = drop_bit 16 flags AND 0xF;
            result = (if txFsmState \<noteq> 0
                      then (if names \<noteq> [] then names @ ''  '' else names) @ ''fsm='' @ to_string (unat txFsmState)
                      else names)
        in if result = [] then ''(status only)'' else result)"

text \<open>The retransmission report: the text and the number of peers that still ask for a resend.\<close>

definition retransmission_slot ::
  "'e det \<Rightarrow> dtc \<Rightarrow> string \<Rightarrow> nat \<Rightarrow> int \<Rightarrow> nat \<Rightarrow> string \<times> nat \<Rightarrow> ('e, string \<times> nat) hw_eff" where
  "retransmission_slot D d indent startNode selfSlot slot = (\<lambda>(o_text, peers).
     if int slot = selfSlot then ret (o_text, peers)
     else bindE (call_try (d_ackPosition (dio D) d (word_of_nat slot))) (\<lambda>(resendRequested, lastSequenceSeen, ackPosition).
       ret (o_text @ indent @ ''  from #'' @ to_string (startNode + slot) @ '': resend_req=''
              @ (if resendRequested then ''1'' else ''0'') @ ''  last_seq_seen=0x'' @ hexw 2 lastSequenceSeen
              @ ''  ack_pos='' @ to_string ackPosition
              @ (if resendRequested then ''  <- peer still waiting for a resend'' else []) @ [CHR 0x0A],
            if resendRequested then peers + 1 else peers)))"

definition formatEVBRetransmission :: "'e det \<Rightarrow> dtc \<Rightarrow> string \<Rightarrow> ('e, string \<times> nat) hw_eff" where
  "formatEVBRetransmission D d indent =
     bindE (read_register D d kRegEVBResendCount) (\<lambda>(readError, resendCount).
     let o1 = (if readError \<noteq> 0 then indent @ ''0x9174 read error '' @ to_string_int readError @ [CHR 0x0A]
               else indent @ ''Resends requested by this RX (0x9174[15:0]): '' @ to_string (ReadEVBResendsRequested (dlib D) resendCount)
                    @ [CHR 0x0A] @ indent @ ''Resends served by this TX (0x9174[31:16]):   ''
                    @ to_string (ReadEVBResendsServed (dlib D) resendCount) @ [CHR 0x0A])
     in bindE (get D d ReadEVBStartNode) (\<lambda>startNode.
        bindE (get D d ReadEVBNumberOfDestinationNodes) (\<lambda>n.
        bindE (get D d ReadEVBLocalMACAddress) (\<lambda>mac.
        foldE (retransmission_slot D d indent startNode (int mac - int startNode)) [0..<min n 32]
          (o1 @ indent @ ''Peer feedback on our stream (RX_ACKPOS row 0xA, snapshot):'' @ [CHR 0x0A], 0)))))"

subsection \<open>The dump of the link-7 registers\<close>

text \<open>\<^verbatim>\<open>d.find(key)\<close> and \<^verbatim>\<open>d.replace\<close> of the first occurrence.\<close>

fun replace_first :: "string \<Rightarrow> string \<Rightarrow> string \<Rightarrow> string" where
  "replace_first key val [] = (if key = [] then val else [])"
| "replace_first key val (c # cs) =
     (if take (length key) (c # cs) = key then val @ drop (length key) (c # cs)
      else c # replace_first key val cs)"

definition decode_link7 :: "u32 \<Rightarrow> string \<Rightarrow> string" where
  "decode_link7 v d =
     foldl (\<lambda>d (key, b). replace_first key (if v AND push_bit b 1 \<noteq> 0 then ''1'' else ''0'') d) d
       [(''$TXFSM'', 15), (''$RXFSM'', 31), (''$TX'', 7), (''$RX'', 23), (''$B7'', 7), (''$B15'', 15), (''$B25'', 25)]"

definition dump_line :: "'e det \<Rightarrow> dtc \<Rightarrow> u16 \<times> string \<times> string \<Rightarrow> string \<Rightarrow> ('e, string) hw_eff" where
  "dump_line D d = (\<lambda>(addr, name, decode) acc.
     tryE
       (bindE (readReg D d addr) (\<lambda>v.
        ret (acc @ ''    0x'' @ radix_string 16 (unat addr) @ '' '' @ name @ replicate (20 - length name) (CHR '' '')
             @ '' 0x'' @ hexw 8 (unat v) @ (if decode \<noteq> [] then ''  '' @ decode_link7 v decode else []) @ [CHR 0x0A])))
       (\<lambda>e. ret (acc @ ''    0x'' @ radix_string 16 (unat addr) @ '' '' @ name @ '': read error: '' @ e @ [CHR 0x0A])))"

definition dumpEVBLink7Registers :: "'e det \<Rightarrow> dtc \<Rightarrow> string \<Rightarrow> ('e, string) hw_eff" where
  "dumpEVBLink7Registers D d label =
     foldE (dump_line D d)
       [(kRegDesignVersion, ''design version'', []),
        (kRegSERDESReset, ''SERDES reset'', ''link-7 reset level=$B7''),
        (kRegSERDESResetDone, ''SERDES reset done'', ''link-7 TX done=$TX TX FSM=$TXFSM RX done=$RX RX FSM=$RXFSM''),
        (kRegSERDESPLLLocked, ''SERDES PLL locked'', ''link-7 PLL+clocks=$B7''),
        (kRegSERDESRXCDRLock, ''RX link locked'', ''link-7 CDR LOCKED=$B7''),
        (kRegSERDESLoopback, ''SERDES loopback'', []),
        (kRegFireFlyStatus, ''FireFly status'', ''EVB FireFly present=$B25''),
        (kRegLinkEnable, ''link enable'', ''EVB TX=$B7 RX=$B15''),
        (kRegEVBErrorFlags, ''EVB error/status'', [])]
       (''  ['' @ label @ ''] '' @ d_uid (dio D) d @ '':'' @ [CHR 0x0A])"

subsection \<open>Properties\<close>

lemma bit_kLink7Bit: "bit kLink7Bit n \<longleftrightarrow> n = 7"
proof (cases "n < 32")
  case True
  have "\<forall>k \<in> set [0..<32]. bit kLink7Bit k \<longleftrightarrow> k = 7" by code_simp
  then show ?thesis using True by simp
next
  case False
  then show ?thesis by (auto dest: bit_imp_le_length)
qed

text \<open>
  The reset of EVB link 7 is a read-modify-write of one bit: when \<open>setEVBLink7Reset\<close> returns, the
  value it wrote to the SERDES reset register has bit 7 as asked and every other bit as the register
  held it when it was read.
\<close>
theorem link7_reset_single_bit:
  "case setEVBLink7Reset D d b e of
     (Ret _, e') \<Rightarrow> \<exists>v w e1. d_read (dio D) d kRegSERDESReset e = ((0, v), e1)
        \<and> d_write (dio D) d kRegSERDESReset w e1 = (0, e')
        \<and> (\<forall>n. bit w n = (if n = 7 then b else bit v n))
   | _ \<Rightarrow> True"
proof -
  have bits: "\<forall>n. bit (link7_value b v) n = (if n = 7 then b else bit v n)" for v
    by (auto simp: link7_value_def bit_kLink7Bit bit_simps dest: bit_imp_le_length)
  obtain err v e1 where r: "d_read (dio D) d kRegSERDESReset e = ((err, v), e1)" by (metis surj_pair)
  obtain err' e2 where w: "d_write (dio D) d kRegSERDESReset (link7_value b v) e1 = (err', e2)" by (metis surj_pair)
  show ?thesis
    using r w bits
    by (auto simp: setEVBLink7Reset_def readReg_def writeReg_def read_register_def call_def bindE_def throw_def ret_def
        split: outcome.splits)
qed

lemma stall_lengths:
  assumes "length (snd p) = length (fst p)"
  shows "length (fst (accumulate_stall vs p)) = length (fst p)" and "length (snd (accumulate_stall vs p)) = length (fst p)"
  using assms by (simp_all add: accumulate_stall_def case_prod_unfold)

lemma stall_increment:
  assumes "a \<le> b" and "b - a < 2 ^ 32"
  shows "ucast (word_of_nat b - word_of_nat a :: u32) = (word_of_nat (b - a) :: u64)"
proof -
  have "word_of_nat b - word_of_nat a = (word_of_nat (b - a) :: u32)" using assms(1) by simp
  then show ?thesis
    using assms(2) by (simp only: unsigned_of_nat) (simp add: take_bit_nat_eq_self)
qed

lemma fold_stall_lengths:
  assumes "length (snd p) = length (fst p)"
  shows "length (fst (fold accumulate_stall rs p)) = length (fst p) \<and> length (snd (fold accumulate_stall rs p)) = length (fst p)"
  using assms by (induction rs rule: rev_induct) (simp_all add: stall_lengths)

lemma stall_accumulation_lemma:
  assumes "i \<noteq> 13" and "i < length olds" and "length accs = length olds"
    and "\<forall>k < length rs. i < length (rs ! k) \<and> rs ! k ! i = word_of_nat (T (Suc k))"
    and "\<forall>k < length rs. T k \<le> T (Suc k) \<and> T (Suc k) - T k < 2 ^ 32"
    and "olds ! i = word_of_nat (T 0)"
  shows "fst (fold accumulate_stall rs (olds, accs)) ! i = word_of_nat (T (length rs))
    \<and> snd (fold accumulate_stall rs (olds, accs)) ! i = accs ! i + word_of_nat (T (length rs) - T 0)
    \<and> T 0 \<le> T (length rs)"
  using assms(4,5)
proof (induction rs rule: rev_induct)
  case Nil
  then show ?case using assms(6) by simp
next
  case (snoc r rs)
  let ?n = "length rs"
  obtain ls as where p: "fold accumulate_stall rs (olds, accs) = (ls, as)" by (metis surj_pair)
  have len: "length ls = length olds" "length as = length olds"
    using fold_stall_lengths [of "(olds, accs)" rs] assms(3) p by simp_all
  have IH: "ls ! i = word_of_nat (T ?n)" "as ! i = accs ! i + word_of_nat (T ?n - T 0)" "T 0 \<le> T ?n"
    using snoc.IH snoc.prems p by (auto simp: nth_append less_Suc_eq)
  have r: "i < length r" "r ! i = word_of_nat (T (Suc ?n))" "T ?n \<le> T (Suc ?n)" "T (Suc ?n) - T ?n < 2 ^ 32"
    using snoc.prems by (auto simp: nth_append dest: spec [of _ ?n])
  have "T (Suc ?n) - T 0 = (T ?n - T 0) + (T (Suc ?n) - T ?n)" using IH(3) r(3) by simp
  then have grow: "word_of_nat (T (Suc ?n) - T 0) = word_of_nat (T ?n - T 0) + (word_of_nat (T (Suc ?n) - T ?n) :: u64)"
    by (simp only: of_nat_add)
  have step: "fold accumulate_stall (rs @ [r]) (olds, accs) = accumulate_stall r (ls, as)"
    by (simp only: fold_append fold_simps comp_apply p)
  have "as ! i + ucast (r ! i - ls ! i) = accs ! i + word_of_nat (T (Suc ?n) - T 0)"
    unfolding r(2) IH(1,2) stall_increment [OF r(3,4)] grow by (simp only: add.assoc)
  then show ?case
    unfolding step using IH r len assms(1,2) by (simp add: accumulate_stall_def stall_step_def del: of_nat_diff)
qed

text \<open>
  The accumulated stall counters are exact although the hardware's 32-bit counters wrap: if a
  counter's true value at snapshot \<open>k\<close> is \<open>T k\<close>, read modulo 2^32, and it grows by less than 2^32
  between two snapshots, then after any number of snapshots the accumulated value is the true growth
  since the first one (modulo 2^64). The longest-hold counter 13 is excepted.
\<close>
theorem stall_accumulation_exact:
  assumes "i \<noteq> 13" and "i < length olds" and "length accs = length olds"
    and "\<forall>k < length rs. i < length (rs ! k) \<and> rs ! k ! i = word_of_nat (T (Suc k))"
    and "\<forall>k < length rs. T k \<le> T (Suc k) \<and> T (Suc k) - T k < 2 ^ 32"
    and "olds ! i = word_of_nat (T 0)" and "accs ! i = 0"
  shows "snd (fold accumulate_stall rs (olds, accs)) ! i = word_of_nat (T (length rs) - T 0)"
  using stall_accumulation_lemma [OF assms(1-6)] assms(7) by simp

theorem stall_accumulation_exact_witness:
  "snd (fold accumulate_stall [[0xFFFFFFF0], [0x10]] ([0xFFFFFF00], [0])) ! 0 = (0x110 :: u64)"
proof -
  let ?T = "\<lambda>k :: nat. if k = 0 then 0xFFFFFF00 else if k = 1 then 0xFFFFFFF0 else 0x100000010"
  have "snd (fold accumulate_stall [[0xFFFFFFF0], [0x10]] ([0xFFFFFF00], [0])) ! 0
      = word_of_nat (?T (length [[0xFFFFFFF0], [0x10 :: u32]]) - ?T 0)"
    by (rule stall_accumulation_exact) (auto simp: less_Suc_eq nth_Cons split: nat.splits)
  then show ?thesis by simp
qed

lemma defect_mask_bit: "bit (defect_mask b) k \<Longrightarrow> k = 13"
  by (cases "b \<in> {0xd6091797, 0xd60919a0, 0xd6092192, 0xd6092291, 0xd6092496, 0xd60924a0}")
    (simp_all only: defect_mask_def if_True if_False bit_push_bit_iff bit_0 bit_1_iff, simp_all)

text \<open>
  The start gate opens only on a ready status: when \<open>requireEVBBufferTestReady\<close> returns, the
  DTC's status register 0x9370 was read without error and the value read passes the library's check
  after nothing but the build's known defect (bit 13, for six listed builds) and the operator's
  choice of defined error bits has been masked; each other bit is checked as it was read.
\<close>
theorem gate_returns_ready:
  "case requireEVBBufferTestReady D n p operatorMask e of
     (Ret report, _) \<Rightarrow> \<exists>d v build e1 e2. p = Some d
        \<and> d_read (dio D) d kRegEVBErrorFlags e1 = ((0, v), e2)
        \<and> build \<in> range defect_mask
        \<and> ck_ready (CheckEVBStatus (dlib D) (v AND NOT (gate_mask D build operatorMask)))
        \<and> {k. bit (v AND NOT (gate_mask D build operatorMask)) k \<noteq> bit v k}
            \<subseteq> insert 13 {k. bit operatorMask k \<and> bit (EVBDefinedErrorMask (dlib D)) k}
   | _ \<Rightarrow> True"
proof -
  let ?read = "\<lambda>d v. \<exists>e1 e2. d_read (dio D) d kRegEVBErrorFlags e1 = ((0, v), e2)"
  let ?seen = "\<lambda>v. \<exists>d. p = Some d \<and> ?read d v"
  have status: "post (\<lambda>_. True) (readEVBBufferTestStatus D p) (\<lambda>v _. ?seen v)"
    by (rule postI) (auto simp: readEVBBufferTestStatus_def read_register_def call_def bindE_def throw_def ret_def
        split: option.splits prod.splits if_splits, blast+)
  have rounds: "post (\<lambda>_. ?seen (fst a)) (loopE n (gate_round D p m t) a) (\<lambda>a' _. ?seen (fst a'))" for m t a
  proof (rule post_loopE_acc [where I = "\<lambda>a _. ?seen (fst a)"])
    fix a :: "u32 \<times> int"
    show "post (\<lambda>_. ?seen (fst a)) (gate_round D p m t a)
        (\<lambda>x s. case x of Inl l' \<Rightarrow> ?seen (fst l') | Inr a \<Rightarrow> ?seen (fst a))"
      using status by (cases a) (auto simp: gate_round_def post_def Let_def bindE_Ret seqE_def ret_def, blast)
  qed
  have mask: "build \<in> range defect_mask \<Longrightarrow> {k. bit (v AND NOT (gate_mask D build operatorMask)) k \<noteq> bit v k}
      \<subseteq> insert 13 {k. bit operatorMask k \<and> bit (EVBDefinedErrorMask (dlib D)) k}" for build v
    by (auto simp: gate_mask_def bit_simps dest: bit_imp_le_length defect_mask_bit)
  have ready: "\<exists>d v build. p = Some d \<and> ?read d v \<and> build \<in> range defect_mask
        \<and> ck_ready (CheckEVBStatus (dlib D) (v AND NOT (gate_mask D build operatorMask)))
        \<and> {k. bit (v AND NOT (gate_mask D build operatorMask)) k \<noteq> bit v k}
            \<subseteq> insert 13 {k. bit operatorMask k \<and> bit (EVBDefinedErrorMask (dlib D)) k}"
    if run: "requireEVBBufferTestReady D n p operatorMask e = (Ret report, e')" for report e'
  proof -
    obtain build t0 v0 v w e1 e2 e3 e4 where steps: "evbKnownDefectMask D p e = (Ret build, e1)"
        "readEVBBufferTestStatus D p e2 = (Ret v0, e3)"
        "loopE n (gate_round D p (gate_mask D build operatorMask) (t0 + 3000000000)) (v0, 0) e3 = (Ret (v, w), e4)"
        "ck_ready (CheckEVBStatus (dlib D) (v AND NOT (gate_mask D build operatorMask)))"
      using run by (auto simp: requireEVBBufferTestReady_def bindE_Ret Let_def throw_def split: if_splits)
    have s0: "?seen v0" using postD [OF status _ steps(2)] by simp
    have "?seen v" using postD [OF rounds _ steps(3)] s0 by simp
    moreover from this have "build \<in> range defect_mask"
      using steps(1) by (auto simp: evbKnownDefectMask_def bindE_Ret ret_def)
    ultimately show ?thesis using steps(4) mask by blast
  qed
  show ?thesis
  proof (cases "requireEVBBufferTestReady D n p operatorMask e")
    case (Pair r e')
    show ?thesis
    proof (cases r)
      case (Ret report)
      show ?thesis using ready [OF Pair [unfolded Ret]] unfolding Pair Ret prod.case outcome.case by blast
    qed (simp_all add: Pair)
  qed
qed

end
