(* ===== verification/Detached_Subevent.thy ===== *)
theory Detached_Subevent
  imports ROC_Emulator
begin

section \<open>One subevent of the detached Buffer Test\<close>

text \<open>
  \<^verbatim>\<open>handleDetachedSubevent\<close> (DTCFrontEndInterfaceImpl.cc): the check of the subevent's event window
  tag against the expected one, and the accounting of its data blocks. With several sources per tag
  (event builder mode, merge modes) each tag must arrive once from each source, in any order, before
  the expected tag advances; the sources seen are a list without duplicates (\<^verbatim>\<open>std::set\<close>). The
  struct's mutex is not modelled: one call runs at a time.
\<close>

subsection \<open>The expected tag\<close>

text \<open>How many subevents a tag needs, the distance of consecutive tags, and whether sources are tracked.\<close>

record tag_plan =
  tp_sources :: nat
  tp_stride :: u64
  tp_bySource :: bool

definition merging :: "'e thread \<Rightarrow> bool" where
  "merging s \<longleftrightarrow> mergeMode s \<noteq> Off"

definition by_source :: "'e thread \<Rightarrow> bool" where
  "by_source s \<longleftrightarrow> inEVBMode s \<or> merging s"

definition num_sources :: "'e det \<Rightarrow> bool \<Rightarrow> dtc option \<Rightarrow> u8 \<Rightarrow> ('e, u8) hw_eff" where
  "num_sources D live p cached =
     (case p of
        None \<Rightarrow> ret cached
      | Some d \<Rightarrow>
          if \<not> live then ret cached
          else bindE (get D d GetEVBNumSources) (\<lambda>n.
            if (word_of_nat n :: u8) > 0
            then bindE (get D d GetEVBNumSources) (\<lambda>n. ret (word_of_nat n))
            else ret cached))"

definition plan_tags :: "'e det \<Rightarrow> ('e, tag_plan) det_eff" where
  "plan_tags D =
     bindE (gets (\<lambda>s. s)) (\<lambda>s.
     bindE (hw (num_sources D (inEVBMode s) (thisDTC s) (evbNumDestNodes s))) (\<lambda>evbN.
     bindE (hw (num_sources D (inEVBMode s \<and> merging s) (otherDTC s) (evbNumDestNodesOther s))) (\<lambda>evbNOther.
     ret \<lparr>tp_sources = (if inEVBMode s then unat evbN + (if merging s then unat evbNOther else 0)
                        else if merging s then 2 else 1),
          tp_stride = (if inEVBMode s then ucast evbN else if skipBy32 s then 32 else 1),
          tp_bySource = by_source s\<rparr>)))"

definition source_key :: "u8 \<Rightarrow> u8 \<Rightarrow> u16" where
  "source_key grp src = push_bit 8 (ucast grp) OR ucast src"

definition sync_tag :: "u64 \<Rightarrow> 'e thread \<Rightarrow> 'e thread" where
  "sync_tag t s =
     (if inEVBMode s \<and> \<not> evbTagSynced s
      then s\<lparr>nextEventWindowTag := t, expectedEventTag := t, evbSourcesSeenForTag := [], evbTagSynced := True\<rparr>
      else s)"

text \<open>Is the delivery the expected one? A tracked source is recorded when it is.\<close>

definition accept_tag :: "tag_plan \<Rightarrow> u16 \<Rightarrow> u64 \<Rightarrow> ('e, bool) det_eff" where
  "accept_tag plan key t s =
     (if nextEventWindowTag s \<noteq> t then (Ret False, s)
      else if \<not> tp_bySource plan then (Ret True, s)
      else if key \<in> set (evbSourcesSeenForTag s) then (Ret False, s)
      else (Ret True, s\<lparr>evbSourcesSeenForTag := evbSourcesSeenForTag s @ [key]\<rparr>))"

definition mismatch_text :: "'e thread \<Rightarrow> u64 \<Rightarrow> u64 \<Rightarrow> u64 \<Rightarrow> u8 \<Rightarrow> string" where
  "mismatch_text s t rxTag tagOffset grp =
     ''Mismatched event tag. Expected = '' @ to_string (unat (nextEventWindowTag s))
     @ '' (0x'' @ hexw 4 (unat (nextEventWindowTag s)) @ ''), Received = '' @ to_string (unat t)
     @ '' (0x'' @ hexw 4 (unat t) @ '')''
     @ (if tagOffset \<noteq> 0
        then '' (raw EWT='' @ to_string (unat rxTag) @ '', offset -'' @ to_string (unat tagOffset) @ '')'' else [])
     @ (if grp \<noteq> 0 then '' [via '' @ otherDTCUID s @ '']'' else [])"

definition note_mismatch :: "u64 \<Rightarrow> u64 \<Rightarrow> u64 \<Rightarrow> u8 \<Rightarrow> ('e, unit) det_eff" where
  "note_mismatch t rxTag tagOffset grp =
     seqE (modify (\<lambda>s. s\<lparr>mismatchedEventTagsCount := mismatchedEventTagsCount s + 1\<rparr>))
    (seqE (modify (\<lambda>s. if length (mismatchedEventTagJumps s) < 100
                  then s\<lparr>mismatchedEventTagJumps := mismatchedEventTagJumps s @ [(nextEventWindowTag s, t)]\<rparr>
                  else s))
    (bindE (gets (\<lambda>s. s)) (\<lambda>s.
     whenE (activeMatch s) (throw (mismatch_text s t rxTag tagOffset grp)))))"

definition advance_tag :: "tag_plan \<Rightarrow> bool \<Rightarrow> u16 \<Rightarrow> u64 \<Rightarrow> 'e thread \<Rightarrow> 'e thread" where
  "advance_tag plan tagOK key t s =
     (if tp_bySource plan
      then let s1 = (if tagOK then s else s\<lparr>evbSourcesSeenForTag := [key], nextEventWindowTag := t\<rparr>)
           in if length (evbSourcesSeenForTag s1) \<ge> tp_sources plan
              then s1\<lparr>evbSourcesSeenForTag := [], nextEventWindowTag := t + tp_stride plan\<rparr>
              else s1
      else s\<lparr>nextEventWindowTag := t + tp_stride plan\<rparr>)"

definition follow_tag :: "tag_plan \<Rightarrow> u16 \<Rightarrow> u64 \<Rightarrow> u64 \<Rightarrow> u8 \<Rightarrow> ('e, unit) det_eff" where
  "follow_tag plan key rxTag tagOffset grp =
     (let t = rxTag - tagOffset in
      seqE (modify (sync_tag t))
     (bindE (accept_tag plan key t) (\<lambda>tagOK.
      seqE (whenE (\<not> tagOK) (note_mismatch t rxTag tagOffset grp))
           (modify (advance_tag plan tagOK key t)))))"

subsection \<open>Accounting\<close>

definition note_subrun :: "sub_event \<Rightarrow> 'e thread \<Rightarrow> 'e thread" where
  "note_subrun se s =
     (let b = bit (se_eventMode se) 33 in
      if b \<noteq> lastSubrunBit s
      then s\<lparr>subrunTransitionCount := subrunTransitionCount s + 1, lastSubrunBit := b\<rparr> else s)"

definition note_start :: "'e det \<Rightarrow> ('e, unit) det_eff" where
  "note_start D =
     bindE (gets transferStartTime) (\<lambda>t0.
     whenE (t0 = None) (bindE (hw (steady_now D)) (\<lambda>t. modify (\<lambda>s. s\<lparr>transferStartTime := Some t\<rparr>))))"

definition payload_packets :: "data_block list \<Rightarrow> u32" where
  "payload_packets bs = foldl (\<lambda>n b. n + word_of_int (cdiv (payloadBytes b) 16)) 0 bs"

definition save_subevent :: "sub_event \<Rightarrow> 'e thread \<Rightarrow> bool" where
  "save_subevent se s \<longleftrightarrow> saveBinaryData s
     \<and> \<not> (packetThresholdToSave s > 0 \<and> payload_packets (se_blocks se) < packetThresholdToSave s)"

text \<open>\<open>n\<close> bytes are written in pieces of four, when the file is open.\<close>

definition save_bytes :: "bool \<Rightarrow> u8 list \<Rightarrow> nat \<Rightarrow> ('e, unit) det_eff" where
  "save_bytes sv raw n =
     bindE (gets fp) (\<lambda>f.
     case f of
       None \<Rightarrow> ret ()
     | Some bytes \<Rightarrow>
         whenE sv (bindE (slice raw 0 (4 * ((n + 3) div 4))) (\<lambda>bs. modify (\<lambda>s. s\<lparr>fp := Some (bytes @ bs)\<rparr>))))"

definition save_header :: "'e det \<Rightarrow> sub_event \<Rightarrow> bool \<Rightarrow> ('e, unit) det_eff" where
  "save_header D se sv =
     bindE (gets saveSubeventHeadersToBinaryData) (\<lambda>hdrs.
     whenE (hdrs \<and> sv)
       (seqE (modify (\<lambda>s. s\<lparr>savedCount := savedCount s + 1\<rparr>))
             (save_bytes True (se_headerRaw se) (subhdr_size (dlib D)))))"

text \<open>\<^verbatim>\<open>rocLinkEnabledLatch_[r]\<close> inserts \<^verbatim>\<open>false\<close> for a link that is not in the map.\<close>

definition latch :: "nat \<Rightarrow> ('e, bool) det_eff" where
  "latch r s =
     (let b = om_at False (rocLinkEnabledLatch s) r
      in (Ret b, s\<lparr>rocLinkEnabledLatch := om_put r b (rocLinkEnabledLatch s)\<rparr>))"

definition link_status :: "sub_event \<Rightarrow> nat \<Rightarrow> ('e, unit) det_eff" where
  "link_status se r =
     whenE (se_linkStatus se r > 0)
       (if bit (se_linkStatus se r) 0
        then seqE (add_at rocFragmentTimeoutsCount rocFragmentTimeoutsCount_update r 1)
               (bindE (latch r) (\<lambda>enabled.
                whenE enabled (add_at rocFragmentErrorsCount rocFragmentErrorsCount_update r 1)))
        else add_at rocFragmentErrorsCount rocFragmentErrorsCount_update r 1)"

text \<open>The counters kept per source: six per source, created on the first use.\<close>

definition add_source ::
  "('e thread \<Rightarrow> (u16, u64 list) omap) \<Rightarrow>
   (((u16, u64 list) omap \<Rightarrow> (u16, u64 list) omap) \<Rightarrow> 'e thread \<Rightarrow> 'e thread) \<Rightarrow>
   u16 \<Rightarrow> nat \<Rightarrow> u64 \<Rightarrow> ('e, unit) det_eff" where
  "add_source sel upd key i d s =
     (let v = om_at [] (sel s) key;
          v = (if length v < 6 then replicate 6 0 else v)
      in if i < length v then (Ret (), upd (om_put key (v[i := v ! i + d])) s)
         else (Undef, upd (om_put key v) s))"

definition count_fragment :: "bool \<Rightarrow> u16 \<Rightarrow> data_block \<Rightarrow> ('e, unit) det_eff" where
  "count_fragment perSource key b =
     seqE (add_at rocFragmentsCount rocFragmentsCount_update (db_link b) 1)
    (seqE (whenE perSource
             (add_source evbRocFragmentsBySource evbRocFragmentsBySource_update key (db_link b) 1))
          (whenE (timed_out b) (add_at rocHeaderTimeoutsCount rocHeaderTimeoutsCount_update (db_link b) 1)))"

definition count_payload :: "bool \<Rightarrow> u16 \<Rightarrow> data_block \<Rightarrow> ('e, unit) det_eff" where
  "count_payload perSource key b =
     (let n = word_of_int (payloadBytes b) in
      seqE (add_at rocPayloadByteCount rocPayloadByteCount_update (db_link b) n)
     (seqE (whenE perSource
              (add_source evbRocPayloadBytesBySource evbRocPayloadBytesBySource_update key (db_link b) n))
     (seqE (modify (\<lambda>s. s\<lparr>totalSubeventBytesTransferred :=
                            totalSubeventBytesTransferred s + ucast (db_byteCount b)\<rparr>))
           (whenE (payloadBytes b = 0)
              (add_at rocPayloadEmptyCount rocPayloadEmptyCount_update (db_link b) 1)))))"

definition handle_block :: "bool \<Rightarrow> bool \<Rightarrow> u16 \<Rightarrow> u8 \<Rightarrow> u64 \<Rightarrow> data_block \<Rightarrow> ('e, unit) det_eff" where
  "handle_block sv perSource key src rxTag b =
     seqE (count_fragment perSource key b)
    (seqE (save_bytes sv (db_raw b) 16)
    (seqE (count_payload perSource key b)
    (seqE (bindE (gets checkROCEmulatorData) (\<lambda>check. whenE check (checkROCEmulatorBlock b src rxTag)))
          (save_bytes sv (db_data b) (nat (payloadBytes b))))))"

definition handle_blocks :: "sub_event \<Rightarrow> bool \<Rightarrow> u16 \<Rightarrow> ('e, unit) det_eff" where
  "handle_blocks se sv key =
     (if length (se_blocks se) \<noteq> 6
      then throw (''Unexpected number of ROC fragments found in subevent (EWT='' @ to_string (unat (se_tag se))
             @ ''): '' @ to_string (length (se_blocks se)) @ '' ROC fragments found (expected 6)'')
      else bindE (gets by_source) (\<lambda>perSource.
           forE (se_blocks se) (handle_block sv perSource key (se_source se) (se_tag se))))"

definition account_subevent :: "'e det \<Rightarrow> sub_event \<Rightarrow> u16 \<Rightarrow> ('e, unit) det_eff" where
  "account_subevent D se key =
     seqE (modify (note_subrun se))
    (seqE (note_start D)
    (seqE (modify (\<lambda>s. s\<lparr>totalSubeventBytesTransferred :=
                           totalSubeventBytesTransferred s + word_of_nat (subhdr_size (dlib D))\<rparr>))
    (bindE (gets (save_subevent se)) (\<lambda>sv.
     seqE (save_header D se sv)
    (seqE (forE (ROC_Links (dlib D)) (link_status se))
    (seqE (handle_blocks se sv key)
          (bindE (hw (steady_now D)) (\<lambda>t. modify (\<lambda>s. s\<lparr>transferEndTime := Some t\<rparr>)))))))))"

definition handleDetachedSubevent :: "'e det \<Rightarrow> sub_event \<Rightarrow> u64 \<Rightarrow> u8 \<Rightarrow> ('e, unit) det_eff" where
  "handleDetachedSubevent D se tagOffset grp =
     (let key = source_key grp (se_source se) in
      seqE (modify (\<lambda>s. s\<lparr>subeventsCount := subeventsCount s + 1\<rparr>))
     (bindE (plan_tags D) (\<lambda>plan.
      seqE (follow_tag plan key (se_tag se) tagOffset grp)
           (account_subevent D se key))))"

subsection \<open>Active matching: which deliveries pass\<close>

text \<open>A delivery: its source's key, the tag received, the caller's offset and group.\<close>

type_synonym delivery = "u16 \<times> u64 \<times> u64 \<times> u8"

definition dtag :: "delivery \<Rightarrow> u64" where
  "dtag d = (case d of (_, rx, off, _) \<Rightarrow> rx - off)"

definition deliver :: "tag_plan \<Rightarrow> delivery \<Rightarrow> ('e, unit) det_eff" where
  "deliver plan d = (case d of (key, rx, off, grp) \<Rightarrow> follow_tag plan key rx off grp)"

definition orderly :: "tag_plan \<Rightarrow> u64 \<Rightarrow> delivery list \<Rightarrow> bool" where
  "orderly plan T ds \<longleftrightarrow>
     (\<forall>i < length ds. dtag (ds ! i) = T + of_nat (i div tp_sources plan) * tp_stride plan)
   \<and> (\<forall>i j. i < j \<longrightarrow> j < length ds \<longrightarrow> i div tp_sources plan = j div tp_sources plan \<longrightarrow> fst (ds ! i) \<noteq> fst (ds ! j))"

definition round_keys :: "tag_plan \<Rightarrow> delivery list \<Rightarrow> u16 list" where
  "round_keys plan ds = map fst (drop (tp_sources plan * (length ds div tp_sources plan)) ds)"

definition tracked :: "tag_plan \<Rightarrow> u64 \<Rightarrow> delivery list \<Rightarrow> 'e thread \<Rightarrow> 'e thread" where
  "tracked plan T ds s =
     s\<lparr>nextEventWindowTag := T + of_nat (length ds div tp_sources plan) * tp_stride plan,
       evbSourcesSeenForTag := round_keys plan ds\<rparr>"

lemma round_keys_mem:
  assumes "0 < tp_sources plan"
  shows "k \<in> set (round_keys plan ds) \<longleftrightarrow>
    (\<exists>i < length ds. i div tp_sources plan = length ds div tp_sources plan \<and> fst (ds ! i) = k)"
proof -
  let ?N = "tp_sources plan" and ?n = "length ds"
  have "?N * (?n div ?N) \<le> i \<longleftrightarrow> i div ?N = ?n div ?N" if "i < ?n" for i
    using less_eq_div_iff_mult_less_eq [OF assms, of "?n div ?N" i] div_le_mono [of i ?n ?N] that
    by (auto simp: mult.commute)
  then have eq: "i < ?n \<Longrightarrow> ?N * (?n div ?N) \<le> i \<longleftrightarrow> i div ?N = ?n div ?N" for i .
  have "k \<in> set (round_keys plan ds) \<longleftrightarrow> (\<exists>i. ?N * (?n div ?N) \<le> i \<and> i < ?n \<and> fst (ds ! i) = k)"
  proof
    assume "k \<in> set (round_keys plan ds)"
    then obtain j where "j < ?n - ?N * (?n div ?N)" "fst (ds ! (?N * (?n div ?N) + j)) = k"
      by (auto simp: round_keys_def in_set_conv_nth)
    then show "\<exists>i. ?N * (?n div ?N) \<le> i \<and> i < ?n \<and> fst (ds ! i) = k"
      by (intro exI [of _ "?N * (?n div ?N) + j"]) simp
  next
    assume "\<exists>i. ?N * (?n div ?N) \<le> i \<and> i < ?n \<and> fst (ds ! i) = k"
    then obtain i where "?N * (?n div ?N) \<le> i" "i < ?n" "fst (ds ! i) = k" by blast
    then show "k \<in> set (round_keys plan ds)"
      unfolding round_keys_def in_set_conv_nth
      by (intro exI [of _ "i - ?N * (?n div ?N)"]) simp
  qed
  with eq show ?thesis by blast
qed

lemma orderly_snoc:
  assumes "0 < tp_sources plan"
  shows "orderly plan T (ds @ [d]) \<longleftrightarrow> orderly plan T ds
    \<and> dtag d = T + of_nat (length ds div tp_sources plan) * tp_stride plan \<and> fst d \<notin> set (round_keys plan ds)"
proof -
  let ?N = "tp_sources plan" and ?n = "length ds" and ?e = "ds @ [d]"
  let ?tag = "\<lambda>i. T + of_nat (i div ?N) * tp_stride plan"
  have old: "i < ?n \<Longrightarrow> ?e ! i = ds ! i" for i by (simp add: nth_append)
  have new: "?e ! ?n = d" by simp
  have tags: "(\<forall>i < Suc ?n. dtag (?e ! i) = ?tag i) \<longleftrightarrow> (\<forall>i < ?n. dtag (ds ! i) = ?tag i) \<and> dtag d = ?tag ?n"
    unfolding All_less_Suc new using old by auto
  have keys: "(\<forall>i j. i < j \<longrightarrow> j < Suc ?n \<longrightarrow> i div ?N = j div ?N \<longrightarrow> fst (?e ! i) \<noteq> fst (?e ! j)) \<longleftrightarrow>
      (\<forall>i j. i < j \<longrightarrow> j < ?n \<longrightarrow> i div ?N = j div ?N \<longrightarrow> fst (ds ! i) \<noteq> fst (ds ! j))
      \<and> (\<forall>i < ?n. i div ?N = ?n div ?N \<longrightarrow> fst (ds ! i) \<noteq> fst d)" (is "?L \<longleftrightarrow> ?R \<and> ?S")
  proof
    assume l: ?L
    have ?R
    proof (intro allI impI)
      fix i j assume "i < j" "j < ?n" "i div ?N = j div ?N"
      then show "fst (ds ! i) \<noteq> fst (ds ! j)" using l [rule_format, of i j] old [of i] old [of j] by simp
    qed
    moreover have ?S
    proof (intro allI impI)
      fix i assume "i < ?n" "i div ?N = ?n div ?N"
      then show "fst (ds ! i) \<noteq> fst d" using l old [of i] new by (metis lessI)
    qed
    ultimately show "?R \<and> ?S" by blast
  next
    assume r: "?R \<and> ?S"
    show ?L
    proof (intro allI impI)
      fix i j assume ij: "i < j" "j < Suc ?n" "i div ?N = j div ?N"
      show "fst (?e ! i) \<noteq> fst (?e ! j)"
      proof (cases "j = ?n")
        case True
        then show ?thesis using r ij old [of i] new by simp
      next
        case False
        then show ?thesis using r ij old [of i] old [of j] by simp
      qed
    qed
  qed
  have "orderly plan T ?e \<longleftrightarrow> (\<forall>i < Suc ?n. dtag (?e ! i) = ?tag i)
      \<and> (\<forall>i j. i < j \<longrightarrow> j < Suc ?n \<longrightarrow> i div ?N = j div ?N \<longrightarrow> fst (?e ! i) \<noteq> fst (?e ! j))"
    by (simp add: orderly_def)
  moreover have "(\<forall>i < ?n. i div ?N = ?n div ?N \<longrightarrow> fst (ds ! i) \<noteq> fst d) \<longleftrightarrow> fst d \<notin> set (round_keys plan ds)"
    unfolding round_keys_mem [OF assms] by blast
  ultimately show ?thesis
    unfolding tags keys orderly_def by (simp only: conj_ac)
qed

lemma round_keys_snoc:
  assumes "0 < tp_sources plan"
  shows "round_keys plan (ds @ [d]) =
    (if Suc (length (round_keys plan ds)) \<ge> tp_sources plan then [] else round_keys plan ds @ [fst d])"
    and "length (ds @ [d]) div tp_sources plan =
    (if Suc (length (round_keys plan ds)) \<ge> tp_sources plan then Suc (length ds div tp_sources plan)
     else length ds div tp_sources plan)"
proof -
  let ?N = "tp_sources plan" and ?n = "length ds"
  have len: "length (round_keys plan ds) = ?n mod ?N"
    by (simp add: round_keys_def minus_mult_div_eq_mod)
  have lt: "?n mod ?N < ?N" using assms by simp
  have split: "?N * (?n div ?N) + ?n mod ?N = ?n" by simp
  show div: "length (ds @ [d]) div ?N =
    (if Suc (length (round_keys plan ds)) \<ge> ?N then Suc (?n div ?N) else ?n div ?N)"
  proof (cases "Suc (?n mod ?N) = ?N")
    case True
    then have "Suc ?n mod ?N = 0" using mod_Suc [of ?n ?N] by argo
    then have "Suc ?n div ?N = Suc (?n div ?N)" using div_Suc [of ?n ?N] by argo
    then show ?thesis unfolding len using True by simp
  next
    case False
    then have "Suc ?n mod ?N = Suc (?n mod ?N)" using mod_Suc [of ?n ?N] by argo
    then have "Suc ?n mod ?N \<noteq> 0" by simp
    then have "Suc ?n div ?N = ?n div ?N" using div_Suc [of ?n ?N] by argo
    then show ?thesis unfolding len using False lt by simp
  qed
  show "round_keys plan (ds @ [d]) =
    (if Suc (length (round_keys plan ds)) \<ge> ?N then [] else round_keys plan ds @ [fst d])"
  proof (cases "Suc (length (round_keys plan ds)) \<ge> ?N")
    case True
    then have full: "Suc (?n mod ?N) = ?N" and quot: "length (ds @ [d]) div ?N = Suc (?n div ?N)"
      using lt len div by simp_all
    have "?N * Suc (?n div ?N) = ?N * (?n div ?N) + Suc (?n mod ?N)" by (simp only: full mult_Suc_right add.commute)
    also have "\<dots> = Suc ?n" using split by (simp only: add_Suc_right)
    finally have "length (ds @ [d]) \<le> ?N * Suc (?n div ?N)" by simp
    then have "round_keys plan (ds @ [d]) = []" unfolding round_keys_def quot by simp
    with True show ?thesis by simp
  next
    case False
    then have quot: "length (ds @ [d]) div ?N = ?n div ?N" using div by simp
    have "?N * (?n div ?N) \<le> ?n" by simp
    then have "round_keys plan (ds @ [d]) = round_keys plan ds @ [fst d]" unfolding round_keys_def quot by simp
    with False show ?thesis by simp
  qed
qed

lemma round_keys_one: "tp_sources plan = 1 \<Longrightarrow> round_keys plan ds = []"
  by (simp add: round_keys_def)

definition ready_to_track :: "u64 \<Rightarrow> 'e thread \<Rightarrow> bool" where
  "ready_to_track T s \<longleftrightarrow> nextEventWindowTag s = T \<and> evbSourcesSeenForTag s = []
     \<and> (inEVBMode s \<longrightarrow> evbTagSynced s)"

lemma synced_same: "inEVBMode s \<longrightarrow> evbTagSynced s \<Longrightarrow> sync_tag t s = s"
  by (auto simp: sync_tag_def)

lemma deliver_step:
  assumes n: "0 < tp_sources plan" and set_or_one: "tp_bySource plan \<or> tp_sources plan = 1"
    and s: "ready_to_track T s"
    and good: "dtag d = T + of_nat (length ds div tp_sources plan) * tp_stride plan" "fst d \<notin> set (round_keys plan ds)"
  shows "deliver plan d (tracked plan T ds s) = (Ret (), tracked plan T (ds @ [d]) s)"
proof -
  obtain key rx off grp where d: "d = (key, rx, off, grp)" by (cases d) auto
  have sync: "sync_tag (rx - off) (tracked plan T ds s) = tracked plan T ds s"
    using s by (intro synced_same) (simp add: tracked_def ready_to_track_def)
  have t: "rx - off = T + of_nat (length ds div tp_sources plan) * tp_stride plan"
    using good(1) d by (simp add: dtag_def)
  have key: "key \<notin> set (round_keys plan ds)" using good(2) d by simp
  let ?tr = "tracked plan T ds s"
  have tr: "nextEventWindowTag ?tr = rx - off" "evbSourcesSeenForTag ?tr = round_keys plan ds"
    unfolding t by (simp_all add: tracked_def)
  show ?thesis
  proof (cases "tp_bySource plan")
    case True
    have "deliver plan d ?tr = (Ret (), advance_tag plan True key (rx - off) (?tr\<lparr>evbSourcesSeenForTag := round_keys plan ds @ [key]\<rparr>))"
      using True key tr
      by (simp add: d deliver_def follow_tag_def Let_def seqE_def bindE_def modify_def sync accept_tag_def whenE_def ret_def)
    also have "advance_tag plan True key (rx - off) (?tr\<lparr>evbSourcesSeenForTag := round_keys plan ds @ [key]\<rparr>)
        = tracked plan T (ds @ [d]) s"
      unfolding advance_tag_def Let_def tracked_def round_keys_snoc [OF n] t
      using True by (simp add: d distrib_right)
    finally show ?thesis .
  next
    case False
    have one: "tp_sources plan = 1" using False set_or_one by blast
    have "deliver plan d ?tr = (Ret (), advance_tag plan True key (rx - off) ?tr)"
      using False tr
      by (simp add: d deliver_def follow_tag_def Let_def seqE_def bindE_def modify_def sync accept_tag_def whenE_def ret_def)
    also have "advance_tag plan True key (rx - off) ?tr = tracked plan T (ds @ [d]) s"
      unfolding advance_tag_def tracked_def t using False
      by (simp add: one round_keys_one distrib_right)
    finally show ?thesis .
  qed
qed

lemma deliver_reject:
  assumes s: "ready_to_track T s" "activeMatch s" and set_or_one: "tp_bySource plan \<or> tp_sources plan = 1"
    and bad: "\<not> (dtag d = T + of_nat (length ds div tp_sources plan) * tp_stride plan \<and> fst d \<notin> set (round_keys plan ds))"
  shows "\<exists>m s'. deliver plan d (tracked plan T ds s) = (Throw m, s')"
proof -
  obtain key rx off grp where d: "d = (key, rx, off, grp)" by (cases d) auto
  have sync: "sync_tag (rx - off) (tracked plan T ds s) = tracked plan T ds s"
    using s by (intro synced_same) (simp add: tracked_def ready_to_track_def)
  have "fst (accept_tag plan key (rx - off) (tracked plan T ds s)) = Ret False \<and>
      snd (accept_tag plan key (rx - off) (tracked plan T ds s)) = tracked plan T ds s"
    using bad set_or_one round_keys_one [of plan ds] by (auto simp: accept_tag_def tracked_def d dtag_def)
  then have "accept_tag plan key (rx - off) (tracked plan T ds s) = (Ret False, tracked plan T ds s)"
    by (simp add: prod_eq_iff)
  moreover have "activeMatch (tracked plan T ds s)" using s by (simp add: tracked_def)
  ultimately show ?thesis
    by (simp add: d deliver_def follow_tag_def Let_def seqE_def bindE_def modify_def sync whenE_def note_mismatch_def
        gets_def throw_def)
qed

lemma active_match_run:
  assumes "0 < tp_sources plan" and "tp_bySource plan \<or> tp_sources plan = 1"
    and "ready_to_track T s" and "activeMatch s"
  shows "if orderly plan T ds then forE ds (deliver plan) s = (Ret (), tracked plan T ds s)
         else \<exists>m s'. forE ds (deliver plan) s = (Throw m, s')"
proof (induction ds rule: rev_induct)
  case Nil
  then show ?case using assms(3)
    by (simp add: orderly_def forE_def ret_def tracked_def ready_to_track_def round_keys_def)
next
  case (snoc d ds)
  show ?case
  proof (cases "orderly plan T ds")
    case True
    then have run: "forE ds (deliver plan) s = (Ret (), tracked plan T ds s)" using snoc by simp
    show ?thesis
      using True deliver_step [OF assms(1-3), of d ds] deliver_reject [OF assms(3,4,2), of d ds]
      by (auto simp: forE_snoc seqE_def bindE_def run orderly_snoc [OF assms(1)])
  next
    case False
    then show ?thesis using snoc by (auto simp: forE_snoc seqE_def bindE_def orderly_snoc [OF assms(1)])
  qed
qed

text \<open>
  C20. With active matching on, the tags received are checked exactly: a run over a list of deliveries
  returns if and only if delivery number i carries the tag T + (i div N) * stride and the N deliveries
  of each tag come from N different sources, in any order. N is the number of sources per tag; without
  tracking of sources (N = 1) each tag arrives once.
\<close>
theorem active_match_exact:
  assumes "0 < tp_sources plan" and "tp_bySource plan \<or> tp_sources plan = 1"
    and "nextEventWindowTag s = T" and "evbSourcesSeenForTag s = []"
    and "inEVBMode s \<longrightarrow> evbTagSynced s" and "activeMatch s"
  shows "(\<exists>s'. forE ds (deliver plan) s = (Ret (), s')) \<longleftrightarrow> orderly plan T ds"
  using active_match_run [of plan T s ds] assms by (auto simp: ready_to_track_def split: if_splits)

theorem active_match_exact_witness:
  "\<exists>s'. forE [(0, 10, 0, 0), (1, 10, 0, 0), (1, 12, 0, 0), (0, 12, 0, 0)]
     (deliver \<lparr>tp_sources = 2, tp_stride = 2, tp_bySource = True\<rparr>)
     ((new_thread ())\<lparr>activeMatch := True, nextEventWindowTag := 10\<rparr>) = (Ret (), s')"
proof -
  let ?plan = "\<lparr>tp_sources = 2, tp_stride = 2, tp_bySource = True\<rparr>"
  let ?ds = "[(0, 10, 0, 0), (1, 10, 0, 0), (1, 12, 0, 0), (0, 12, 0, 0)] :: delivery list"
  have four: "i < Suc (Suc (Suc (Suc 0))) \<longleftrightarrow> i = 0 \<or> i = 1 \<or> i = 2 \<or> i = 3" for i by auto
  have "orderly ?plan 10 ?ds"
    unfolding orderly_def by (auto simp: four dtag_def)
  then show ?thesis
    using active_match_exact [of ?plan "(new_thread ())\<lparr>activeMatch := True, nextEventWindowTag := 10\<rparr>" 10 ?ds]
    by (simp add: new_thread_def)
qed

end
