(* ===== verification/Detached_Merge.thy ===== *)
theory Detached_Merge
  imports Detached_Subevent EVB_Gate "HOL-Library.Multiset"
begin

section \<open>Merging the events of two DTCs\<close>

text \<open>
  The merge modes of the detached Buffer Test (DTCFrontEndInterfaceImpl.cc): halves of events from
  two DTCs are paired by tag (\<^verbatim>\<open>stageDetachedHalf\<close>, \<^verbatim>\<open>mergeDetachedEvents\<close>), merged
  (\<^verbatim>\<open>buildMergedDetachedEvent\<close>) and handled (\<^verbatim>\<open>handleMergedDetachedEvents\<close>). A half that cannot pair,
  waits too long or piles up aborts the test by an exception.
\<close>

definition detachedMergeModeName :: "DetachedMergeMode \<Rightarrow> string" where
  "detachedMergeModeName m =
     (case m of
        EvenOdd \<Rightarrow> ''Merge DTC1 into DTC0 even/odd Events''
      | Matching \<Rightarrow> ''Merge DTC1 into DTC0 matching Events''
      | Off \<Rightarrow> ''Off'')"

definition resetDetachedMergeState :: "'e thread \<Rightarrow> 'e thread" where
  "resetDetachedMergeState s =
     s\<lparr>pendingDTC0 := [], pendingDTC1 := [], haveMergedTag := False, lastMergedBaseTag := 0,
       mergedEventsCount := 0, unmatchedDTC0Count := 0, unmatchedDTC1Count := 0, mergeTimeTotalNs := 0,
       mergeTimeMaxNs := 0, mergedBytesTotal := 0, pendingDTC0Count := 0, pendingDTC1Count := 0,
       oldestPendingDTC0Tag := - 1, oldestPendingDTC1Tag := - 1\<rparr>"

subsection \<open>The merged event\<close>

record merged_event =
  me_event :: dtc_event
  me_fromDTC0 :: nat
  me_base :: u64

definition merged_header :: "dtc_event \<Rightarrow> dtc_event \<Rightarrow> sub_event \<Rightarrow> nat \<Rightarrow> u64 \<Rightarrow> event_header" where
  "merged_header half0 half1 firstSub eventSize baseTag =
     \<lparr>eh_byte_count = word_of_nat eventSize,
      eh_num_dtcs = word_of_nat (length (ev_subs half0) + length (ev_subs half1)),
      eh_tag_low = ucast (baseTag AND 0xFFFFFFFF), eh_tag_high = ucast (drop_bit 32 baseTag),
      eh_event_mode = se_eventMode firstSub, eh_dtc_mac = se_mac firstSub, eh_partition = se_partition firstSub,
      eh_evb_mode = se_evbMode firstSub\<rparr>"

text \<open>The buffer of the merged event, set up; the copies read \<open>ev_byteCount\<close> bytes of the halves' buffers.\<close>

definition merge_halves :: "'e det \<Rightarrow> dtc_event \<Rightarrow> dtc_event \<Rightarrow> u64 \<Rightarrow> sub_event \<Rightarrow> ('e, dtc_event) det_eff" where
  "merge_halves D half0 half1 baseTag firstSub =
     (let h = hdr_size (dlib D); body0 = ev_byteCount half0 - h; body1 = ev_byteCount half1 - h;
          eventSize = h + body0 + body1
      in if int eventSize \<ge> 2 ^ 24
         then throw (''Merge: merged event of '' @ to_string eventSize
                @ '' bytes exceeds the 24-bit event byte count at base EWT='' @ to_string (unat baseTag))
         else bindE (slice (ev_raw half0) h body0) (\<lambda>bytes0.
              bindE (slice (ev_raw half1) h body1) (\<lambda>bytes1.
              let hdr = merged_header half0 half1 firstSub eventSize baseTag;
                  event = setup_event (dlib D) (encode_header (dlib D) hdr @ bytes0 @ bytes1)
              in if ev_corrupt event
                 then throw (''Merge: merged event failed SetupEvent at base EWT='' @ to_string (unat baseTag) @ '' (''
                        @ to_string (unat (eh_num_dtcs hdr)) @ '' subevents, '' @ to_string eventSize
                        @ '' bytes) although both halves validated individually.'')
                 else ret event)))"

definition buildMergedDetachedEvent :: "'e det \<Rightarrow> dtc_event \<Rightarrow> dtc_event \<Rightarrow> u64 \<Rightarrow> ('e, dtc_event) det_eff" where
  "buildMergedDetachedEvent D half0 half1 baseTag =
     (let h = hdr_size (dlib D) in
      if ev_byteCount half0 < h \<or> ev_byteCount half1 < h \<or> ev_subs half0 = []
      then throw (''Merge: malformed half at base EWT='' @ to_string (unat baseTag) @ '' (DTC_0 bytes=''
             @ to_string (ev_byteCount half0) @ '', DTC_1 bytes='' @ to_string (ev_byteCount half1) @ '')'')
      else merge_halves D half0 half1 baseTag (hd (ev_subs half0)))"

subsection \<open>Pairing\<close>

definition last_text :: "'e thread \<Rightarrow> string" where
  "last_text s = (if haveMergedTag s then to_string (unat (lastMergedBaseTag s)) else ''none'')"

definition abortWith :: "bool \<Rightarrow> u64 \<Rightarrow> string \<Rightarrow> ('e, 'a) det_eff" where
  "abortWith fromDTC1 tag why =
     bindE (modify (\<lambda>s. if fromDTC1 then s\<lparr>unmatchedDTC1Count := unmatchedDTC1Count s + 1\<rparr>
                        else s\<lparr>unmatchedDTC0Count := unmatchedDTC0Count s + 1\<rparr>)) (\<lambda>_.
     bindE (gets (\<lambda>s. s)) (\<lambda>s.
     throw (''Merge ('' @ detachedMergeModeName (mergeMode s) @ ''): '' @ (if fromDTC1 then ''DTC_1'' else ''DTC_0'')
       @ '' delivered EWT='' @ to_string (unat tag) @ '' that can never pair: '' @ why
       @ ''. Pending unpaired DTC_0='' @ to_string (length (pendingDTC0 s)) @ '' DTC_1=''
       @ to_string (length (pendingDTC1 s)) @ '', merged so far='' @ to_string (unat (mergedEventsCount s))
       @ '', last merged base tag='' @ last_text s @ ''. Aborting buffer test.'')))"

definition mine :: "bool \<Rightarrow> 'e thread \<Rightarrow> (u64, dtc_event \<times> int) omap" where
  "mine fromDTC1 s = (if fromDTC1 then pendingDTC1 s else pendingDTC0 s)"

definition upd_mine ::
  "bool \<Rightarrow> ((u64, dtc_event \<times> int) omap \<Rightarrow> (u64, dtc_event \<times> int) omap) \<Rightarrow> 'e thread \<Rightarrow> 'e thread" where
  "upd_mine fromDTC1 f s = (if fromDTC1 then pendingDTC1_update f s else pendingDTC0_update f s)"

definition base_key :: "'e thread \<Rightarrow> bool \<Rightarrow> u64 \<Rightarrow> u64" where
  "base_key s fromDTC1 tag = (if fromDTC1 \<and> mergeMode s = EvenOdd then tag - 1 else tag)"

definition note_merged :: "bool \<Rightarrow> u64 \<Rightarrow> int \<Rightarrow> dtc_event \<Rightarrow> 'e thread \<Rightarrow> 'e thread" where
  "note_merged fromDTC1 key ns ev s =
     upd_mine (\<not> fromDTC1) (om_del key)
       (s\<lparr>mergeTimeTotalNs := mergeTimeTotalNs s + word_of_int ns,
          mergeTimeMaxNs := (if word_of_int ns > mergeTimeMaxNs s then word_of_int ns else mergeTimeMaxNs s),
          mergedBytesTotal := mergedBytesTotal s + word_of_nat (ev_byteCount ev),
          mergedEventsCount := mergedEventsCount s + 1, lastMergedBaseTag := key, haveMergedTag := True\<rparr>)"

definition merge_pair ::
  "'e det \<Rightarrow> bool \<Rightarrow> u64 \<Rightarrow> dtc_event \<Rightarrow> dtc_event \<Rightarrow> ('e, merged_event) det_eff" where
  "merge_pair D fromDTC1 key half partner =
     (let half0 = (if fromDTC1 then partner else half); half1 = (if fromDTC1 then half else partner) in
      bindE (hw (steady_now D)) (\<lambda>t0.
      bindE (buildMergedDetachedEvent D half0 half1 key) (\<lambda>ev.
      bindE (hw (steady_now D)) (\<lambda>t1.
      bindE (modify (note_merged fromDTC1 key (t1 - t0) ev)) (\<lambda>_.
      ret \<lparr>me_event = ev, me_fromDTC0 = length (ev_subs half0), me_base = key\<rparr>)))))"

definition stageDetachedHalf ::
  "'e det \<Rightarrow> dtc_event \<Rightarrow> bool \<Rightarrow> merged_event list \<Rightarrow> ('e, merged_event list) det_eff" where
  "stageDetachedHalf D half fromDTC1 mergedOut =
     (let tag = ev_tag half in
      bindE (gets (\<lambda>s. s)) (\<lambda>s.
      let key = base_key s fromDTC1 tag in
      if mergeMode s = EvenOdd \<and> bit tag 0 \<noteq> fromDTC1
      then abortWith fromDTC1 tag (if fromDTC1 then ''odd tag expected from DTC_1'' else ''even tag expected from DTC_0'')
      else if haveMergedTag s \<and> key \<le> lastMergedBaseTag s
      then abortWith fromDTC1 tag (''base tag '' @ to_string (unat key) @ '' was already merged or passed'')
      else if om_has (mine fromDTC1 s) key
      then abortWith fromDTC1 tag (''duplicate half for base tag '' @ to_string (unat key))
      else case om_get (mine (\<not> fromDTC1) s) key of
             None \<Rightarrow>
               bindE (hw (steady_now D)) (\<lambda>t.
               bindE (modify (upd_mine fromDTC1 (om_put key (half, t)))) (\<lambda>_. ret mergedOut))
           | Some (partner, _) \<Rightarrow>
               bindE (merge_pair D fromDTC1 key half partner) (\<lambda>m. ret (mergedOut @ [m]))))"

subsection \<open>Time-out and overflow\<close>

text \<open>The report of one DTC: an exception ends it where it occurs, with its text appended.\<close>

definition attempt :: "('s, 'a) eff \<Rightarrow> ('s, string + 'a) eff" where
  "attempt m = tryE (bindE m (\<lambda>a. ret (Inr a))) (\<lambda>e. ret (Inl e))"

definition dtc_report :: "'e det \<Rightarrow> dtc \<Rightarrow> ('e, string) hw_eff" where
  "dtc_report D d =
     (let failed = (\<lambda>e. ''  '' @ d_uid (dio D) d @ '' status read failed: '' @ e @ [CHR 0x0A]) in
      bindE (attempt (readEVBBufferTestStatus D (Some d))) (\<lambda>r. case r of Inl e \<Rightarrow> ret (failed e) | Inr err \<Rightarrow>
      let t = ''  '' @ d_uid (dio D) d @ '' 0x9370=0x'' @ hexw 8 (unat err) @ '', EVB events released='' in
      bindE (attempt (get D d GetEVBEventsReleased)) (\<lambda>r. case r of Inl e \<Rightarrow> ret (t @ failed e) | Inr released \<Rightarrow>
      let t = t @ to_string released @ '', open tags='' in
      bindE (attempt (get D d GetEVBOpenTagCount)) (\<lambda>r. case r of Inl e \<Rightarrow> ret (t @ failed e) | Inr opened \<Rightarrow>
      ret (t @ to_string opened @ [CHR 0x0A]
           @ concat (map (\<lambda>l. ''    '' @ l @ [CHR 0x0A]) (DecodeEVBErrorStatus (dlib D) err)))))))"

definition oldest :: "(u64, 'v) omap \<Rightarrow> string" where
  "oldest m = (case m of [] \<Rightarrow> ''-'' | e # _ \<Rightarrow> to_string (unat (fst e)))"

definition stuck_text :: "'e thread \<Rightarrow> bool \<Rightarrow> string \<Rightarrow> u64 \<Rightarrow> int \<Rightarrow> string" where
  "stuck_text s isDTC0 reason key ageMs =
     (let other = (if isDTC0 then ''DTC_1'' else ''DTC_0'');
          partner = (if isDTC0 \<and> mergeMode s = EvenOdd then key + 1 else key)
      in ''Merge pair '' @ reason @ '': base EWT='' @ to_string (unat key) @ '' has waited '' @ to_string_int ageMs
         @ '' ms for its '' @ other @ '' half (expected '' @ other @ '' EWT='' @ to_string (unat partner) @ ''; limit ''
         @ to_string (unat (pairTimeoutMs s)) @ '' ms, max pending '' @ to_string (pairMaxPending s)
         @ ''). Pending unpaired DTC_0='' @ to_string (length (pendingDTC0 s)) @ '' (oldest '' @ oldest (pendingDTC0 s)
         @ '') DTC_1='' @ to_string (length (pendingDTC1 s)) @ '' (oldest '' @ oldest (pendingDTC1 s)
         @ ''); merged so far='' @ to_string (unat (mergedEventsCount s)) @ '', last merged base tag=''
         @ last_text s @ ''.'' @ [CHR 0x0A])"

definition abort_stuck :: "'e det \<Rightarrow> bool \<Rightarrow> string \<Rightarrow> u64 \<Rightarrow> int \<Rightarrow> ('e, unit) det_eff" where
  "abort_stuck D isDTC0 reason key ageMs =
     seqE (modify (\<lambda>s. s\<lparr>unmatchedDTC0Count := word_of_nat (length (pendingDTC0 s)),
                         unmatchedDTC1Count := word_of_nat (length (pendingDTC1 s))\<rparr>))
    (bindE (gets (\<lambda>s. s)) (\<lambda>s.
     bindE (if inEVBMode s
            then foldE (\<lambda>p acc. case p of
                   None \<Rightarrow> ret acc
                 | Some d \<Rightarrow> bindE (hw (dtc_report D d)) (\<lambda>r. ret (acc @ r))) [thisDTC s, otherDTC s] []
            else ret []) (\<lambda>reports.
     throw (stuck_text s isDTC0 reason key ageMs @ reports @ ''Aborting buffer test.''))))"

text \<open>\<^verbatim>\<open>scan\<close>: with no reason given only a half older than the time-out aborts.\<close>

definition scan_half ::
  "'e det \<Rightarrow> int \<Rightarrow> bool \<Rightarrow> string option \<Rightarrow> u64 \<times> dtc_event \<times> int \<Rightarrow> ('e, unit) det_eff" where
  "scan_half D now isDTC0 reason = (\<lambda>(key, _, arrival).
     let ageMs = cdiv (now - arrival) 1000000 in
     bindE (gets pairTimeoutMs) (\<lambda>limit.
     if reason = None \<and> ageMs \<le> uint limit then ret ()
     else abort_stuck D isDTC0 (case reason of None \<Rightarrow> ''TIMEOUT'' | Some r \<Rightarrow> r) key ageMs))"

definition scan_pending :: "'e det \<Rightarrow> int \<Rightarrow> bool \<Rightarrow> string option \<Rightarrow> ('e, unit) det_eff" where
  "scan_pending D now isDTC0 reason =
     bindE (gets (mine (\<not> isDTC0))) (\<lambda>pend. forE pend (scan_half D now isDTC0 reason))"

definition oldest_tag :: "(u64, 'v) omap \<Rightarrow> u64" where
  "oldest_tag m = (case m of [] \<Rightarrow> - 1 | e # _ \<Rightarrow> fst e)"

definition publish_pending :: "'e thread \<Rightarrow> 'e thread" where
  "publish_pending s =
     s\<lparr>pendingDTC0Count := length (pendingDTC0 s), pendingDTC1Count := length (pendingDTC1 s),
       oldestPendingDTC0Tag := oldest_tag (pendingDTC0 s), oldestPendingDTC1Tag := oldest_tag (pendingDTC1 s)\<rparr>"

definition scan_overflow :: "'e det \<Rightarrow> int \<Rightarrow> bool \<Rightarrow> ('e, unit) det_eff" where
  "scan_overflow D now isDTC0 =
     bindE (gets (\<lambda>s. length (mine (\<not> isDTC0) s) > pairMaxPending s)) (\<lambda>over.
     whenE over (scan_pending D now isDTC0 (Some ''OVERFLOW'')))"

definition mergeDetachedEvents ::
  "'e det \<Rightarrow> dtc_event list \<Rightarrow> dtc_event list \<Rightarrow> merged_event list \<Rightarrow> ('e, merged_event list) det_eff" where
  "mergeDetachedEvents D eventsFromDTC0 eventsFromDTC1 mergedOut =
     bindE (foldE (\<lambda>e. stageDetachedHalf D e False) eventsFromDTC0 mergedOut) (\<lambda>mergedOut.
     bindE (foldE (\<lambda>e. stageDetachedHalf D e True) eventsFromDTC1 mergedOut) (\<lambda>mergedOut.
     bindE (hw (steady_now D)) (\<lambda>now.
     bindE (seqE (scan_pending D now True None)
           (seqE (scan_pending D now False None)
           (seqE (scan_overflow D now True)
           (seqE (scan_overflow D now False)
                 (modify publish_pending))))) (\<lambda>_.
     ret mergedOut))))"

subsection \<open>Handling the merged events\<close>

definition handle_merged_subevents :: "'e det \<Rightarrow> bool \<Rightarrow> merged_event \<Rightarrow> ('e, unit) det_eff" where
  "handle_merged_subevents D evenOdd m =
     forE [0..<length (ev_subs (me_event m))] (\<lambda>i.
       let fromDTC1 = i \<ge> me_fromDTC0 m in
       handleDetachedSubevent D (ev_subs (me_event m) ! i) (if fromDTC1 \<and> evenOdd then 1 else 0)
         (if fromDTC1 then 1 else 0))"

text \<open>The exit flag ends the loop: the accumulator says whether it has been seen.\<close>

definition handleMergedDetachedEvents :: "'e det \<Rightarrow> merged_event list \<Rightarrow> ('e, unit) det_eff" where
  "handleMergedDetachedEvents D merged =
     bindE (gets (\<lambda>s. mergeMode s = EvenOdd)) (\<lambda>evenOdd.
     bindE (foldE (\<lambda>m left_loop.
         if left_loop then ret True
         else bindE (hw (exitThread D)) (\<lambda>leaving.
           if leaving then ret True
           else if ev_corrupt (me_event m)
           then throw (''Merged event corruption detected at base EWT='' @ to_string (unat (me_base m))
                  @ ''. Aborting buffer test.'')
           else bindE (modify (\<lambda>s. s\<lparr>eventsCount := eventsCount s + 1\<rparr>)) (\<lambda>_.
                bindE (handle_merged_subevents D evenOdd m) (\<lambda>_. ret False)))) merged False) (\<lambda>_. ret ()))"

end
