(* ===== verification/Detached_Thread.thy ===== *)
theory Detached_Thread
  imports Detached_Merge
begin

section \<open>The detached Buffer Test thread\<close>

text \<open>
  \<^verbatim>\<open>detachedBufferTestThread\<close> (DTCFrontEndInterfaceImpl.cc): start-up, the loop that reads events in
  event builder, event or subevent mode, the restart another thread asks for, the polling of the
  event builder's status, and the handler that every exception ends in. \<open>others\<close> acts before each
  round of the loop. What only steers the log (the last status word, progress marks) is left out;
  a restart logs the previous status (\<open>d_logStatus\<close>). The loops have a bound on their rounds.
\<close>

subsection \<open>The output file\<close>

definition sanitize :: "string \<Rightarrow> string" where
  "sanitize name = filter (\<lambda>c. c \<noteq> CHR ''/'' \<and> c \<noteq> CHR 0x5C) name"

definition output_name :: "'e det \<Rightarrow> ('e, unit) det_eff" where
  "output_name D =
     bindE (gets (\<lambda>s. s)) (\<lambda>s.
     let name = saveBinaryDataFilename s in
     if name = ''Default'' \<or> name = []
     then bindE (hw (call (d_stamp (dio D)))) (\<lambda>(t, ticks).
          modify (\<lambda>s. s\<lparr>saveBinaryDataFilename := ''macroOutput_'' @ to_string t @ ''_'' @ to_string ticks @ ''.bin''\<rparr>))
     else modify (\<lambda>s. s\<lparr>saveBinaryDataFilename :=
            (case thisDTC s of Some d \<Rightarrow> d_uid (dio D) d @ ''_'' | None \<Rightarrow> ''SIM_'') @ sanitize name\<rparr>))"

definition open_output :: "'e det \<Rightarrow> ('e, unit) det_eff" where
  "open_output D =
     seqE (output_name D)
    (bindE (hw (call_try (d_dataDir (dio D)))) (\<lambda>dir.
     bindE (gets saveBinaryDataFilename) (\<lambda>name.
     let path = dir @ ''/'' @ name in
     bindE (hw (call (d_fopen (dio D) path))) (\<lambda>opened.
     if opened then modify (\<lambda>s. s\<lparr>fp := Some []\<rparr>)
     else seqE (modify (\<lambda>s. s\<lparr>fp := None\<rparr>))
               (throw (''Failed to open file to save macro output '' @ [CHR 0x27] @ path @ [CHR 0x27] @ ''...''
                       @ [CHR 0x0A]))))))"

definition close_output :: "'e det \<Rightarrow> ('e, unit) det_eff" where
  "close_output D =
     bindE (gets fp) (\<lambda>f.
     case f of
       None \<Rightarrow> ret ()
     | Some bytes \<Rightarrow> seqE (hw (modify (d_fclose (dio D) bytes))) (modify (\<lambda>s. s\<lparr>fp := None\<rparr>)))"

subsection \<open>Releasing the buffers and resetting the state\<close>

definition device :: "'e det \<Rightarrow> dtc \<Rightarrow> devop \<Rightarrow> ('e, unit) det_eff" where
  "device D d x = hw (call_try (d_device (dio D) d x))"

definition on_dtc :: "dtc option \<Rightarrow> (dtc \<Rightarrow> ('e, unit) det_eff) \<Rightarrow> ('e, unit) det_eff" where
  "on_dtc p f = (case p of None \<Rightarrow> ret () | Some d \<Rightarrow> f d)"

definition latch_links :: "'e det \<Rightarrow> dtc \<Rightarrow> ('e, unit) det_eff" where
  "latch_links D d =
     bindE (hw (call_try (d_linkEnabledData (dio D) d))) (\<lambda>regVal.
     forE (ROC_Links (dlib D)) (\<lambda>r.
       let re = ReadLinkEnabled (dlib D) r regVal in
       modify (\<lambda>s. s\<lparr>rocLinkEnabledLatch := om_put r (fst re \<and> snd re) (rocLinkEnabledLatch s)\<rparr>)))"

definition start_release :: "'e det \<Rightarrow> ('e, unit) det_eff" where
  "start_release D =
     bindE (gets (\<lambda>s. s)) (\<lambda>s.
     on_dtc (thisDTC s) (\<lambda>d.
       seqE (modify (\<lambda>s. s\<lparr>releaseAllComplete := False\<rparr>))
      (seqE (device D d ReleaseAllBuffers_DAQ)
      (seqE (if mergeMode s \<noteq> Off
             then on_dtc (otherDTC s) (\<lambda>o'. seqE (device D o' ReleaseAllBuffers_DAQ)
                    (whenE (inEVBMode s) (device D o' ResetEVBAssembly)))
             else ret ())
      (seqE (modify (\<lambda>s. s\<lparr>releaseAllComplete := True\<rparr>))
            (latch_links D d))))))"

definition restart_release :: "'e det \<Rightarrow> ('e, unit) det_eff" where
  "restart_release D =
     bindE (gets (\<lambda>s. s)) (\<lambda>s.
     on_dtc (thisDTC s) (\<lambda>d.
       seqE (modify (\<lambda>s. s\<lparr>releaseAllComplete := False\<rparr>))
      (seqE (device D d ReleaseAllBuffers_DAQ)
      (seqE (if mergeMode s \<noteq> Off then on_dtc (otherDTC s) (\<lambda>o'. device D o' ReleaseAllBuffers_DAQ) else ret ())
      (seqE (modify (\<lambda>s. s\<lparr>releaseAllComplete := True, rocLinkEnabledLatch := []\<rparr>))
            (latch_links D d))))))"

text \<open>The counters both the start and a restart clear, before and after the event builder's reset.\<close>

definition reset_evb_stats :: "evb_stats \<Rightarrow> evb_stats" where
  "reset_evb_stats v =
     v\<lparr>es_stickySeen := 0, es_trafficStarted := False, es_readFailed := False, es_selfThrottle := 0,
       es_dmaBackpressure := 0, es_creditThrottle := 0, es_rxHigh := 0, es_polls := 0,
       es_liveBits := map (\<lambda>_. 0) (es_liveBits v), es_firstValid := False, es_firstMask := 0,
       es_bit12Valid := False, es_bit12 := 0, es_readerNs := 0, es_pollNs := 0, es_handlingNs := 0,
       es_iterations := 0\<rparr>"

definition reset_tracking :: "'e thread \<Rightarrow> 'e thread" where
  "reset_tracking s =
     s\<lparr>error_text := [], eventsCount := 0, subeventsCount := 0, mismatchedEventTagsCount := 0,
       mismatchedEventTagJumps := [], evbSourcesSeenForTag := [], evbTagSynced := False,
       evb := reset_evb_stats (evb s), evbRocFragmentsBySource := [], evbRocPayloadBytesBySource := []\<rparr>"

definition reset_counts :: "'e thread \<Rightarrow> 'e thread" where
  "reset_counts s =
     s\<lparr>subrunTransitionCount := 0, lastSubrunBit := False, rocFragmentsCount := replicate 6 0,
       rocPayloadEmptyCount := replicate 6 0, rocEmulatorDataErrorsCount := replicate 6 0,
       rocEmulatorPacketCountErrorsCount := replicate 6 0, rocEmulatorExpectedPackets := - 1,
       rocEmulatorNextCounter := [], rocEmulatorFirstErrors := [],
       rocFragmentTimeoutsCount := replicate 6 0, rocFragmentErrorsCount := replicate 6 0,
       rocHeaderTimeoutsCount := replicate 6 0, rocPayloadByteCount := replicate 6 0,
       evb := (evb s)\<lparr>es_chunks := 0, es_words := 0, es_fillers := 0, es_framing := 0\<rparr>,
       totalSubeventBytesTransferred := 0, transferStartTime := None, transferEndTime := None\<rparr>"

definition reset_assembly :: "'e det \<Rightarrow> ('e, unit) det_eff" where
  "reset_assembly D =
     bindE (gets (\<lambda>s. s)) (\<lambda>s.
     if inEVBMode s
     then on_dtc (thisDTC s) (\<lambda>d.
            seqE (device D d ResetEVBAssembly)
           (seqE (device D d (SetEVBDrainOnly (evbDrainOnly s)))
                 (on_dtc (otherDTC s) (\<lambda>o'. device D o' (SetEVBDrainOnly (evbDrainOnly s))))))
     else ret ())"

definition clear_stalls :: "'e thread \<Rightarrow> 'e thread" where
  "clear_stalls s =
     s\<lparr>evb := (evb s)\<lparr>es_onsetValid := False, es_stallStartValid := False, es_stallEndValid := False,
                     es_stallTotal := map (\<lambda>_. 0) (es_stallTotal (evb s))\<rparr>\<rparr>"

definition start_reset :: "'e det \<Rightarrow> ('e, unit) det_eff" where
  "start_reset D =
     seqE (modify (\<lambda>s. reset_tracking (s\<lparr>nextEventWindowTag := expectedEventTag s\<rparr>)))
    (seqE (reset_assembly D)
          (modify (resetDetachedMergeState \<circ> reset_counts)))"

text \<open>The bits of 0x9370 that are not errors for this run.\<close>

definition set_ignore_mask :: "'e det \<Rightarrow> ('e, unit) det_eff" where
  "set_ignore_mask D =
     bindE (gets thisDTC) (\<lambda>p.
     bindE (hw (evbKnownDefectMask D p)) (\<lambda>known.
     bindE (hw (evbRecoveredLossMask D p)) (\<lambda>recovered.
     modify (\<lambda>s. s\<lparr>evb := (evb s)\<lparr>es_stickyIgnore :=
       known OR recovered OR (es_operatorIgnore (evb s) AND EVBDefinedErrorMask (dlib D))\<rparr>\<rparr>))))"

definition thread_start :: "'e det \<Rightarrow> ('e, unit) det_eff" where
  "thread_start D =
     bindE (gets fp) (\<lambda>f.
     if f \<noteq> None then throw (''Impossible?! File pointer already initialized?'' @ [CHR 0x0A])
     else
       seqE (bindE (gets saveBinaryData) (\<lambda>sv. whenE sv (open_output D)))
      (seqE (start_release D)
      (seqE (start_reset D)
      (seqE (modify clear_stalls)
            (set_ignore_mask D)))))"

subsection \<open>A restart\<close>

text \<open>The locals of the loop: the iteration number and the drained bytes at the last iteration.\<close>

record loop_locals =
  ll_ii :: u64
  ll_drained :: u64

definition restart_counters :: "'e det \<Rightarrow> loop_locals \<Rightarrow> ('e, loop_locals) det_eff" where
  "restart_counters D l =
     bindE (close_output D) (\<lambda>_.
     bindE (bindE (gets saveBinaryData) (\<lambda>sv. whenE sv (open_output D))) (\<lambda>_.
     bindE (modify reset_tracking) (\<lambda>_.
     bindE (reset_assembly D) (\<lambda>_.
     bindE (gets (\<lambda>s. s)) (\<lambda>s.
     bindE (if inEVBMode s \<and> mergeMode s \<noteq> Off then on_dtc (otherDTC s) (\<lambda>o'. device D o' ResetEVBAssembly)
            else ret ()) (\<lambda>_.
     bindE (modify (reset_counts \<circ> resetDetachedMergeState)) (\<lambda>_.
     ret (if inEVBMode s \<and> thisDTC s \<noteq> None then l\<lparr>ll_drained := 0\<rparr> else l))))))))"

definition restart :: "'e det \<Rightarrow> loop_locals \<Rightarrow> ('e, loop_locals) det_eff" where
  "restart D l =
     bindE (hw (call_try (d_logStatus (dio D)))) (\<lambda>_.
     bindE (modify (\<lambda>s. s\<lparr>nextEventWindowTag := expectedEventTag s\<rparr>)) (\<lambda>_.
     bindE (gets (\<lambda>s. s)) (\<lambda>s.
     bindE (if \<not> doNotResetCounters s then restart_counters D l
            else if \<not> saveBinaryData s then bindE (close_output D) (\<lambda>_. ret l)
            else ret l) (\<lambda>l.
     bindE (modify (\<lambda>s. clear_stalls (s\<lparr>resetStartEventTag := False\<rparr>))) (\<lambda>_.
     bindE (restart_release D) (\<lambda>_. ret l))))))"

subsection \<open>Polling the event builder's status\<close>

definition note_poll :: "'e det \<Rightarrow> u32 \<Rightarrow> evb_stats \<Rightarrow> evb_stats" where
  "note_poll D evbErr v =
     (let one = (\<lambda>n. if bit evbErr n then 1 else 0) in
      v\<lparr>es_stickySeen := es_stickySeen v OR (evbErr AND EVBDefinedErrorMask (dlib D) AND NOT (es_stickyIgnore v)),
        es_polls := es_polls v + 1,
        es_selfThrottle := es_selfThrottle v + one 17, es_dmaBackpressure := es_dmaBackpressure v + one 23,
        es_creditThrottle := es_creditThrottle v + one 18, es_rxHigh := es_rxHigh v + one 22,
        es_liveBits := map (\<lambda>i. es_liveBits v ! i + one (16 + i)) [0..<length (es_liveBits v)]\<rparr>)"

definition mod_evb :: "(evb_stats \<Rightarrow> evb_stats) \<Rightarrow> ('e, unit) det_eff" where
  "mod_evb f = modify (\<lambda>s. s\<lparr>evb := f (evb s)\<rparr>)"

definition note_traffic :: "'e det \<Rightarrow> dtc \<Rightarrow> bool \<Rightarrow> ('e, unit) det_eff" where
  "note_traffic D d dataSeen =
     bindE (gets (\<lambda>s. es_trafficStarted (evb s))) (\<lambda>started.
     if started then ret ()
     else bindE (if dataSeen then ret True
                 else bindE (hw (get D d ReadEVBROCInputWords)) (\<lambda>n.
                      if n \<noteq> 0 then ret True
                      else bindE (hw (get D d ReadEVBGBERXWords)) (\<lambda>n. ret (n \<noteq> 0)))) (\<lambda>b.
          whenE b (bindE (hw (steady_now D)) (\<lambda>t.
            mod_evb (\<lambda>v. v\<lparr>es_trafficStarted := True, es_trafficStart := t\<rparr>)))))"

text \<open>Microseconds since traffic was first seen, or -1.\<close>

definition since_traffic :: "'e det \<Rightarrow> ('e, int) det_eff" where
  "since_traffic D =
     bindE (gets evb) (\<lambda>v.
     if es_trafficStarted v then bindE (hw (steady_now D)) (\<lambda>t. ret (cdiv (t - es_trafficStart v) 1000))
     else ret (- 1))"

definition note_first_errors :: "'e det \<Rightarrow> u64 \<Rightarrow> u32 \<Rightarrow> ('e, unit) det_eff" where
  "note_first_errors D ii evbErr =
     bindE (gets evb) (\<lambda>v.
     let stickyNow = evbErr AND EVBDefinedErrorMask (dlib D) AND NOT (es_stickyIgnore v) in
     seqE (whenE (bit evbErr 12 \<and> \<not> es_bit12Valid v)
             (bindE (since_traffic D) (\<lambda>us.
              mod_evb (\<lambda>v. v\<lparr>es_bit12 := evbErr, es_bit12Us := us, es_bit12Valid := True\<rparr>))))
          (whenE (stickyNow \<noteq> 0 \<and> \<not> es_firstValid v)
             (bindE (since_traffic D) (\<lambda>us.
              modify (\<lambda>s. s\<lparr>evb := (evb s)\<lparr>es_firstMask := stickyNow, es_firstUs := us, es_firstIteration := ii,
                                        es_firstSubevents := subeventsCount s, es_firstValid := True\<rparr>\<rparr>)))))"

definition poll_stalls :: "'e det \<Rightarrow> dtc \<Rightarrow> ('e, unit) det_eff" where
  "poll_stalls D d =
     bindE (gets evb) (\<lambda>v.
     if es_trafficStarted v \<and> \<not> es_stallStartValid v
     then bindE (hw (snapshotEVBStallCounters D d (es_stallStart v))) (\<lambda>(target, valid).
          seqE (mod_evb (\<lambda>v. v\<lparr>es_stallStart := target, es_stallStartValid := valid\<rparr>))
               (bindE (hw (steady_now D)) (\<lambda>t. mod_evb (\<lambda>v. v\<lparr>es_stallTime := t\<rparr>))))
     else if es_stallStartValid v \<and> \<not> es_stallEndValid v
     then bindE (hw (steady_now D)) (\<lambda>t.
          whenE (t - es_stallTime v > 8000000000)
            (bindE (hw (accumulateEVBStallCounters D d (es_stallStart v, es_stallTotal v))) (\<lambda>(lasts, accs).
             seqE (mod_evb (\<lambda>v. v\<lparr>es_stallStart := lasts, es_stallTotal := accs\<rparr>))
                  (bindE (hw (steady_now D)) (\<lambda>t. mod_evb (\<lambda>v. v\<lparr>es_stallTime := t\<rparr>))))))
     else ret ())"

definition note_stall_onset :: "'e det \<Rightarrow> dtc \<Rightarrow> u64 \<Rightarrow> u32 \<Rightarrow> bool \<Rightarrow> ('e, unit) det_eff" where
  "note_stall_onset D d ii evbErr dataSeen =
     bindE (gets evb) (\<lambda>v.
     if dataSeen then mod_evb (\<lambda>v. v\<lparr>es_onsetValid := False, es_stallEndValid := False\<rparr>)
     else if es_onsetValid v then ret ()
     else bindE (hw (steady_now D)) (\<lambda>t.
       seqE (mod_evb (\<lambda>v. v\<lparr>es_onset := evbErr, es_onsetIteration := ii, es_onsetTime := t, es_onsetValid := True\<rparr>))
            (whenE (es_stallStartValid v)
               (bindE (hw (snapshotEVBStallCounters D d (es_stallEnd v))) (\<lambda>(target, valid).
                mod_evb (\<lambda>v. v\<lparr>es_stallEnd := target, es_stallEndValid := valid\<rparr>))))))"

definition poll_status :: "'e det \<Rightarrow> dtc \<Rightarrow> u64 \<Rightarrow> bool \<Rightarrow> ('e, unit) det_eff" where
  "poll_status D d ii dataSeen =
     tryE (bindE (hw (readEVBBufferTestStatus D (Some d))) (\<lambda>evbErr.
           seqE (mod_evb (note_poll D evbErr))
          (seqE (note_traffic D d dataSeen)
          (seqE (note_first_errors D ii evbErr)
          (seqE (poll_stalls D d)
                (note_stall_onset D d ii evbErr dataSeen))))))
       (\<lambda>_. mod_evb (\<lambda>v. v\<lparr>es_readFailed := True\<rparr>))"

subsection \<open>One round of the loop\<close>

text \<open>How a round ends: the next one, \<^verbatim>\<open>continue\<close> (which skips the end of the round), or leaving.\<close>

datatype round_end = Onward | Continue | Leave

definition read_events :: "'e det \<Rightarrow> dtc \<Rightarrow> reader \<Rightarrow> u64 option \<Rightarrow> ('e, dtc_event list) det_eff" where
  "read_events D d r t = hw (call_try (d_events (dio D) d r t))"

definition partner_dtc :: "'e thread \<Rightarrow> dtc option" where
  "partner_dtc s = (if mergeMode s \<noteq> Off then otherDTC s else None)"

definition read_partner :: "'e det \<Rightarrow> reader \<Rightarrow> ('e, dtc_event list) det_eff" where
  "read_partner D r =
     bindE (gets partner_dtc) (\<lambda>p. case p of None \<Rightarrow> ret [] | Some o' \<Rightarrow> read_events D o' r None)"

text \<open>\<^verbatim>\<open>loopLap\<close>: the time since the last lap is added to a counter.\<close>

definition lap :: "'e det \<Rightarrow> (u64 \<Rightarrow> evb_stats \<Rightarrow> evb_stats) \<Rightarrow> int \<Rightarrow> ('e, int) det_eff" where
  "lap D add t0 =
     bindE (hw (steady_now D)) (\<lambda>t.
     bindE (mod_evb (add (word_of_int (t - t0)))) (\<lambda>_. ret t))"

definition drained_delta :: "u64 \<Rightarrow> u64 \<Rightarrow> u64" where
  "drained_delta tot last_total = (if tot \<ge> last_total then tot - last_total else tot)"

definition note_drained :: "'e det \<Rightarrow> dtc \<Rightarrow> loop_locals \<Rightarrow> ('e, u64 \<times> loop_locals) det_eff" where
  "note_drained D d l =
     bindE (gets evbDrainOnly) (\<lambda>drain.
     if \<not> drain then ret (0, l)
     else bindE (hw (get D d GetEVBDrainedBytes)) (\<lambda>n.
          bindE (bindE (gets partner_dtc) (\<lambda>p. case p of None \<Rightarrow> ret 0 | Some o' \<Rightarrow> hw (get D o' GetEVBDrainedBytes))) (\<lambda>n'.
          let drainedTotal = word_of_nat n + word_of_nat n'; delta = drained_delta drainedTotal (ll_drained l) in
          bindE (whenE (delta \<noteq> 0)
            (seqE (note_start D)
                  (bindE (hw (steady_now D)) (\<lambda>t.
                   modify (\<lambda>s. s\<lparr>transferEndTime := Some t,
                                 totalSubeventBytesTransferred := totalSubeventBytesTransferred s + delta\<rparr>))))) (\<lambda>_.
          ret (delta, l\<lparr>ll_drained := drainedTotal\<rparr>)))))"

text \<open>A loop over events that the exit flag ends before an event.\<close>

definition each_event :: "'e det \<Rightarrow> 'x list \<Rightarrow> ('x \<Rightarrow> ('e, unit) det_eff) \<Rightarrow> ('e, unit) det_eff" where
  "each_event D xs f =
     bindE (foldE (\<lambda>x left_loop.
        if left_loop then ret True
        else bindE (hw (exitThread D)) (\<lambda>leaving.
             if leaving then ret True else bindE (f x) (\<lambda>_. ret False))) xs False) (\<lambda>_. ret ())"

definition handle_evb_event :: "'e det \<Rightarrow> dtc_event \<Rightarrow> ('e, unit) det_eff" where
  "handle_evb_event D e =
     (if ev_corrupt e
      then throw (''EVB event corruption detected at EWT='' @ to_string (unat (ev_tag e)) @ ''. Aborting buffer test.'')
      else seqE (modify (\<lambda>s. s\<lparr>eventsCount := eventsCount s + 1\<rparr>))
                (forE (ev_subs e) (\<lambda>sub. handleDetachedSubevent D sub 0 0)))"

definition evb_data :: "'e det \<Rightarrow> dtc_event list \<Rightarrow> dtc_event list \<Rightarrow> int \<Rightarrow> ('e, round_end) det_eff" where
  "evb_data D events events1 t =
     bindE (gets (\<lambda>s. partner_dtc s \<noteq> None)) (\<lambda>joined.
     bindE (if joined then mergeDetachedEvents D events events1 [] else ret []) (\<lambda>merged.
     if (if joined then merged = [] else events = [])
     then bindE (lap D (\<lambda>ns v. v\<lparr>es_handlingNs := es_handlingNs v + ns\<rparr>) t) (\<lambda>_. ret Continue)
     else bindE (if joined then handleMergedDetachedEvents D merged
                 else each_event D events (handle_evb_event D)) (\<lambda>_.
          ret Onward)))"

definition evb_round :: "'e det \<Rightarrow> dtc \<Rightarrow> loop_locals \<Rightarrow> ('e, round_end \<times> loop_locals) det_eff" where
  "evb_round D d l =
     bindE (hw (exitThread D)) (\<lambda>leaving.
     if leaving then ret (Leave, l)
     else bindE (hw (steady_now D)) (\<lambda>t.
          bindE (mod_evb (\<lambda>v. v\<lparr>es_iterations := es_iterations v + 1\<rparr>)) (\<lambda>_.
          bindE (gets nextEventWindowTag) (\<lambda>wanted.
          bindE (read_events D d GetEVBDataAsEvents (Some wanted)) (\<lambda>events.
          bindE (read_partner D GetEVBDataAsEvents) (\<lambda>events1.
          bindE (lap D (\<lambda>ns v. v\<lparr>es_readerNs := es_readerNs v + ns\<rparr>) t) (\<lambda>t.
          bindE (note_drained D d l) (\<lambda>(delta, l).
          let dataSeen = (events \<noteq> [] \<or> events1 \<noteq> [] \<or> delta \<noteq> 0); l = l\<lparr>ll_ii := ll_ii l + 1\<rparr> in
          bindE (poll_status D d (ll_ii l) dataSeen) (\<lambda>_.
          bindE (lap D (\<lambda>ns v. v\<lparr>es_pollNs := es_pollNs v + ns\<rparr>) t) (\<lambda>t.
          bindE (evb_data D events events1 t) (\<lambda>x. ret (x, l))))))))))))"

text \<open>Event mode: the expected tag is moved on before the event's subevents are handled.\<close>

definition handle_event :: "'e det \<Rightarrow> dtc_event \<Rightarrow> ('e, unit) det_eff" where
  "handle_event D e =
     seqE (modify (\<lambda>s. s\<lparr>eventsCount := eventsCount s + 1\<rparr>))
    (seqE (modify (\<lambda>s. if nextEventWindowTag s \<noteq> ev_tag e
             then s\<lparr>mismatchedEventTagsCount := mismatchedEventTagsCount s + 1,
                    mismatchedEventTagJumps := mismatchedEventTagJumps s @ [(nextEventWindowTag s, ev_tag e)]\<rparr>
             else s))
    (seqE (modify (\<lambda>s. s\<lparr>nextEventWindowTag := ev_tag e + 1\<rparr>))
          (forE (ev_subs e) (\<lambda>sub. handleDetachedSubevent D sub 0 0))))"

definition event_pass :: "'e det \<Rightarrow> dtc \<Rightarrow> unit \<Rightarrow> ('e, unit + unit) det_eff" where
  "event_pass D d _ =
     bindE (gets nextEventWindowTag) (\<lambda>wanted.
     bindE (hw (call_try (d_getData (dio D) d wanted))) (\<lambda>events.
     if events = [] then ret (Inr ())
     else bindE (hw (exitThread D)) (\<lambda>leaving.
          if leaving then ret (Inr ())
          else bindE (each_event D events (\<lambda>p. case p of None \<Rightarrow> ret () | Some e \<Rightarrow> handle_event D e)) (\<lambda>_.
               ret (Inl ())))))"

definition handle_extracted :: "'e det \<Rightarrow> dtc_event \<Rightarrow> ('e, unit) det_eff" where
  "handle_extracted D e =
     (case ev_subs e of
        [] \<Rightarrow> throw (''Error: No subevents found in extracted event! EWT='' @ to_string (unat (ev_tag e)))
      | sub # _ \<Rightarrow> handleDetachedSubevent D sub 0 0)"

definition subevent_round :: "'e det \<Rightarrow> dtc \<Rightarrow> loop_locals \<Rightarrow> ('e, round_end \<times> loop_locals) det_eff" where
  "subevent_round D d l =
     bindE (hw (exitThread D)) (\<lambda>leaving.
     if leaving then ret (Leave, l)
     else bindE (gets nextEventWindowTag) (\<lambda>wanted.
          bindE (read_events D d GetSubEventDataAsEvents (Some wanted)) (\<lambda>events.
          bindE (read_partner D GetSubEventDataAsEvents) (\<lambda>events1.
          let l = l\<lparr>ll_ii := ll_ii l + 1\<rparr> in
          bindE (gets (\<lambda>s. partner_dtc s \<noteq> None)) (\<lambda>joined.
          bindE (if joined then mergeDetachedEvents D events events1 [] else ret []) (\<lambda>merged.
          if (if joined then merged = [] else events = []) then ret (Continue, l)
          else bindE (if joined then handleMergedDetachedEvents D merged
                      else each_event D events (handle_extracted D)) (\<lambda>_.
               ret (Onward, l))))))))"

definition thread_round :: "'e det \<Rightarrow> nat \<Rightarrow> loop_locals \<Rightarrow> ('e, loop_locals + unit) det_eff" where
  "thread_round D n l =
     bindE (modify (others D)) (\<lambda>_.
     bindE (gets thisDTC) (\<lambda>p.
     case p of
       None \<Rightarrow> ret (Inr ())
     | Some d \<Rightarrow>
         bindE (hw (exitThread D)) (\<lambda>leaving.
         if leaving then ret (Inr ())
         else bindE (gets resetStartEventTag) (\<lambda>asked.
              bindE (if asked then restart D l else ret l) (\<lambda>l.
              bindE (gets (\<lambda>s. s)) (\<lambda>s.
              bindE (if inEVBMode s then evb_round D d l
                     else if \<not> inSubeventMode s then bindE (loopE n (event_pass D d) ()) (\<lambda>_. ret (Onward, l))
                     else subevent_round D d l) (\<lambda>(x, l).
              ret (case x of
                     Leave \<Rightarrow> Inr ()
                   | Continue \<Rightarrow> Inl l
                   | Onward \<Rightarrow> Inl (l\<lparr>ll_ii := ll_ii l + 1\<rparr>)))))))))"

subsection \<open>The thread\<close>

definition thread_body :: "'e det \<Rightarrow> nat \<Rightarrow> ('e, unit) det_eff" where
  "thread_body D n =
     seqE (thread_start D)
    (seqE (loopE n (thread_round D n) \<lparr>ll_ii = 0, ll_drained = 0\<rparr>)
    (seqE (close_output D)
          (modify (\<lambda>s. s\<lparr>running := False\<rparr>))))"

text \<open>The handler's report: the message, the status at the stall, the state of the merge.\<close>

definition stall_report :: "'e det \<Rightarrow> ('e, string) det_eff" where
  "stall_report D =
     bindE (gets (\<lambda>s. s)) (\<lambda>s.
     if inEVBMode s \<and> es_onsetValid (evb s)
     then bindE (hw (steady_now D)) (\<lambda>t.
       ret (''EVB Error/Status (0x9370) at stall onset: 0x'' @ hexw 8 (unat (es_onset (evb s)))
            @ '' (first idle iteration #'' @ to_string (unat (es_onsetIteration (evb s))) @ '' after last subevent, ''
            @ to_string_int (cdiv (t - es_onsetTime (evb s)) 1000000) @ '' ms before this abort)'' @ [CHR 0x0A]
            @ concat (map (\<lambda>x. ''  '' @ x @ [CHR 0x0A]) (DecodeEVBErrorStatus (dlib D) (es_onset (evb s))))))
     else ret [])"

definition merge_counts_text :: "'e thread \<Rightarrow> string" where
  "merge_counts_text s =
     ''Merge state at abort: merged events = '' @ to_string (unat (mergedEventsCount s))
     @ '', pending unpaired DTC_0/DTC_1 = '' @ to_string (pendingDTC0Count s) @ ''/'' @ to_string (pendingDTC1Count s)
     @ '', unmatched DTC_0/DTC_1 = '' @ to_string (unat (unmatchedDTC0Count s)) @ ''/''
     @ to_string (unat (unmatchedDTC1Count s)) @ [CHR 0x0A]
     @ (if oldestPendingDTC0Tag s \<noteq> - 1
        then ''  oldest pending DTC_0 base tag = '' @ to_string (unat (oldestPendingDTC0Tag s)) @ [CHR 0x0A] else [])
     @ (if oldestPendingDTC1Tag s \<noteq> - 1
        then ''  oldest pending DTC_1 base tag = '' @ to_string (unat (oldestPendingDTC1Tag s)) @ [CHR 0x0A] else [])"

definition merge_report :: "'e det \<Rightarrow> ('e, string) det_eff" where
  "merge_report D =
     bindE (gets (\<lambda>s. s)) (\<lambda>s.
     if mergeMode s = Off then ret []
     else case (if inEVBMode s then otherDTC s else None) of
            None \<Rightarrow> ret (merge_counts_text s)
          | Some o' \<Rightarrow>
              bindE (hw (attempt (readEVBBufferTestStatus D (Some o')))) (\<lambda>r.
              ret (merge_counts_text s
                @ (case r of
                     Inl m \<Rightarrow> ''DTC_1 EVB status read failed: '' @ m @ [CHR 0x0A]
                   | Inr err \<Rightarrow> ''DTC_1 ('' @ otherDTCUID s @ '') EVB Error/Status (0x9370) at abort: 0x''
                       @ hexw 8 (unat err) @ [CHR 0x0A]
                       @ concat (map (\<lambda>x. ''  '' @ x @ [CHR 0x0A]) (DecodeEVBErrorStatus (dlib D) err))))))"

definition thread_abort :: "'e det \<Rightarrow> string \<Rightarrow> ('e, unit) det_eff" where
  "thread_abort D m =
     seqE (modify (\<lambda>s. s\<lparr>running := False\<rparr>))
    (seqE (bindE (gets thisDTC) (\<lambda>p. case p of None \<Rightarrow> ret () | Some d \<Rightarrow> hw (modify (d_spy (dio D) d))))
    (seqE (close_output D)
    (bindE (stall_report D) (\<lambda>stalls.
     bindE (merge_report D) (\<lambda>merges.
     modify (\<lambda>s. s\<lparr>error_text := error_text s
       @ ''Exception caught. Exiting detachedBufferTestThread().'' @ [CHR 0x0A]
       @ ''Error message: '' @ m @ [CHR 0x0A] @ stalls @ merges\<rparr>)))))) "

definition detachedBufferTestThread :: "'e det \<Rightarrow> nat \<Rightarrow> ('e, unit) det_eff" where
  "detachedBufferTestThread D n = tryE (thread_body D n) (thread_abort D)"

end
