(* ===== verification/Subevent_Counts.thy ===== *)
theory Subevent_Counts
  imports Detached_Subevent
begin

section \<open>The accounting of a subevent\<close>

text \<open>
  What \<open>handleDetachedSubevent\<close> adds to the counters when it returns, the agreement of the counters
  kept per source with those kept per link, and when the handling has no undefined behaviour.
\<close>

subsection \<open>What one block and one subevent add\<close>

text \<open>The fields the check of emulator data and the writing of the file leave alone.\<close>

definition tallies :: "'e thread \<Rightarrow> _" where
  "tallies s = (rocFragmentsCount s, rocPayloadByteCount s, rocPayloadEmptyCount s, rocHeaderTimeoutsCount s,
     evbRocFragmentsBySource s, evbRocPayloadBytesBySource s, totalSubeventBytesTransferred s, subeventsCount s, by_source s)"

lemmas tallies_defs = tallies_def by_source_def merging_def

lemma keeps_emulator_check: "keeps (\<lambda>s. tallies s = L \<and> fp s = F) (checkROCEmulatorBlock b src ewt)"
proof -
  have err: "keeps (\<lambda>s. tallies s = L \<and> fp s = F) (dataError b src ewt w)"
    "keeps (\<lambda>s. tallies s = L \<and> fp s = F) (packetCountError b src ewt w)" for w
    unfolding dataError_def packetCountError_def noteError_def payload_dump_def le16_def Let_def
    by (intro inv_intros keeps_modify; simp add: keeps_def add_at_def tallies_defs)+
  show ?thesis
    unfolding checkROCEmulatorBlock_def check_packets_def check_words_def check_pair_def le16_def Let_def
    by (intro inv_intros keeps_modify err; simp add: tallies_defs)
qed

lemma keeps_save_bytes: "keeps (\<lambda>s. tallies s = L) (save_bytes sv raw n)"
  unfolding save_bytes_def by (intro inv_intros keeps_modify; simp add: tallies_defs)

lemma whenE_Ret: "whenE b m s = (Ret (), s') \<longleftrightarrow> (if b then m s = (Ret (), s') else s' = s)"
  by (auto simp: whenE_def ret_def)

lemma keeps_Ret: "keeps I m \<Longrightarrow> I s \<Longrightarrow> m s = (r, s') \<Longrightarrow> I s'"
  by (metis keepsD snd_conv)

definition bump :: "nat \<Rightarrow> u64 \<Rightarrow> u64 list \<Rightarrow> u64 list" where
  "bump l d v = v[l := v ! l + d]"

lemma length_bump [simp]: "length (bump l d v) = length v"
  by (simp add: bump_def)

definition bump_source :: "u16 \<Rightarrow> nat \<Rightarrow> u64 \<Rightarrow> (u16, u64 list) omap \<Rightarrow> (u16, u64 list) omap" where
  "bump_source key l d m =
     (let v = om_at [] m key; v = (if length v < 6 then replicate 6 0 else v) in om_put key (bump l d v) m)"

lemma add_at_Ret: "add_at sel upd i d s = (Ret (), s') \<Longrightarrow> s' = upd (bump i d) s"
  by (auto simp: add_at_def bump_def [abs_def] split: if_splits)

lemma add_source_Ret:
  assumes "add_source sel upd key i d s = (Ret (), s')" and "\<And>x. upd (om_put key x) s = upd (\<lambda>_. om_put key x (sel s)) s"
  shows "s' = upd (\<lambda>_. bump_source key i d (sel s)) s"
  using assms by (auto simp: add_source_def bump_source_def bump_def Let_def split: if_splits)

lemma whenE_cases:
  assumes "whenE b m s = (Ret (), s')" and "m s = (Ret (), s') \<Longrightarrow> s' = f s"
  shows "s' = (if b then f s else s)"
  using assms by (auto simp: whenE_Ret split: if_splits)

definition tally_block ::
  "u16 \<Rightarrow> data_block \<Rightarrow> _ \<Rightarrow> _" where
  "tally_block key b = (\<lambda>(frag, bytes, empty, tmo, fragBySource, bytesBySource, total, subs, perSource).
     let l = db_link b; n = word_of_int (payloadBytes b) in
     (bump l 1 frag, bump l n bytes, (if payloadBytes b = 0 then bump l 1 empty else empty),
      (if timed_out b then bump l 1 tmo else tmo),
      (if perSource then bump_source key l 1 fragBySource else fragBySource),
      (if perSource then bump_source key l n bytesBySource else bytesBySource),
      total + ucast (db_byteCount b), subs, perSource))"

lemma handle_block_tally:
  assumes "handle_block sv perSource key src rx b s = (Ret (), s')" and per: "by_source s = perSource"
  shows "tallies s' = tally_block key b (tallies s)"
proof -
  obtain s1 s2 s3 s4 where 1: "count_fragment perSource key b s = (Ret (), s1)"
    and 2: "save_bytes sv (db_raw b) 16 s1 = (Ret (), s2)" and 3: "count_payload perSource key b s2 = (Ret (), s3)"
    and 4: "bindE (gets checkROCEmulatorData) (\<lambda>check. whenE check (checkROCEmulatorBlock b src rx)) s3 = (Ret (), s4)"
    and 5: "save_bytes sv (db_data b) (nat (payloadBytes b)) s4 = (Ret (), s')"
    using assms(1) unfolding handle_block_def seqE_Ret by blast
  have "tallies s2 = tallies s1" using keeps_Ret [OF keeps_save_bytes _ 2] by blast
  moreover have "tallies s4 = tallies s3"
    using 4 keeps_Ret [OF keeps_emulator_check [of "tallies s3" "fp s3" b src rx], of s3 "Ret ()" s4]
    by (auto simp: bindE_Ret gets_def whenE_Ret split: if_splits)
  moreover have "tallies s' = tallies s4" using keeps_Ret [OF keeps_save_bytes _ 5] by blast
  moreover have "s1 = (let t = rocFragmentsCount_update (bump (db_link b) 1) s;
        t = (if perSource then evbRocFragmentsBySource_update (\<lambda>_. bump_source key (db_link b) 1 (evbRocFragmentsBySource t)) t else t)
      in if timed_out b then rocHeaderTimeoutsCount_update (bump (db_link b) 1) t else t)"
  proof -
    obtain t1 t2 where t: "add_at rocFragmentsCount rocFragmentsCount_update (db_link b) 1 s = (Ret (), t1)"
      "whenE perSource (add_source evbRocFragmentsBySource evbRocFragmentsBySource_update key (db_link b) 1) t1 = (Ret (), t2)"
      "whenE (timed_out b) (add_at rocHeaderTimeoutsCount rocHeaderTimeoutsCount_update (db_link b) 1) t2 = (Ret (), s1)"
      using 1 unfolding count_fragment_def seqE_Ret by blast
    have "t2 = (if perSource then evbRocFragmentsBySource_update (\<lambda>_. bump_source key (db_link b) 1 (evbRocFragmentsBySource t1)) t1 else t1)"
      by (rule whenE_cases [OF t(2)], erule add_source_Ret) simp
    moreover have "s1 = (if timed_out b then rocHeaderTimeoutsCount_update (bump (db_link b) 1) t2 else t2)"
      by (rule whenE_cases [OF t(3)], erule add_at_Ret)
    ultimately show ?thesis unfolding Let_def add_at_Ret [OF t(1), symmetric] by simp
  qed
  moreover have "s3 = (let n = word_of_int (payloadBytes b); t = rocPayloadByteCount_update (bump (db_link b) n) s2;
        t = (if perSource then evbRocPayloadBytesBySource_update (\<lambda>_. bump_source key (db_link b) n (evbRocPayloadBytesBySource t)) t else t);
        t = t\<lparr>totalSubeventBytesTransferred := totalSubeventBytesTransferred t + ucast (db_byteCount b)\<rparr>
      in if payloadBytes b = 0 then rocPayloadEmptyCount_update (bump (db_link b) 1) t else t)"
  proof -
    let ?n = "word_of_int (payloadBytes b)"
    obtain t1 t2 t3 where t: "add_at rocPayloadByteCount rocPayloadByteCount_update (db_link b) ?n s2 = (Ret (), t1)"
      "whenE perSource (add_source evbRocPayloadBytesBySource evbRocPayloadBytesBySource_update key (db_link b) ?n) t1 = (Ret (), t2)"
      "modify (\<lambda>s. s\<lparr>totalSubeventBytesTransferred := totalSubeventBytesTransferred s + ucast (db_byteCount b)\<rparr>) t2 = (Ret (), t3)"
      "whenE (payloadBytes b = 0) (add_at rocPayloadEmptyCount rocPayloadEmptyCount_update (db_link b) 1) t3 = (Ret (), s3)"
      using 3 unfolding count_payload_def seqE_Ret Let_def by blast
    have t3: "t3 = t2\<lparr>totalSubeventBytesTransferred := totalSubeventBytesTransferred t2 + ucast (db_byteCount b)\<rparr>"
      using t(3) by (simp add: modify_def)
    have "t2 = (if perSource then evbRocPayloadBytesBySource_update (\<lambda>_. bump_source key (db_link b) ?n (evbRocPayloadBytesBySource t1)) t1 else t1)"
      by (rule whenE_cases [OF t(2)], erule add_source_Ret) simp
    moreover have "s3 = (if payloadBytes b = 0 then rocPayloadEmptyCount_update (bump (db_link b) 1) t3 else t3)"
      by (rule whenE_cases [OF t(4)], erule add_at_Ret)
    ultimately show ?thesis unfolding Let_def add_at_Ret [OF t(1), symmetric] using t3 by simp
  qed
  ultimately show ?thesis
    using per
    by (cases perSource; cases "timed_out b"; cases "payloadBytes b = 0";
        simp add: tallies_def tally_block_def Let_def; simp add: by_source_def merging_def)
qed

lemma forE_fold:
  assumes "\<And>x s s'. x \<in> set xs \<Longrightarrow> J s \<Longrightarrow> f x s = (Ret (), s') \<Longrightarrow> h s' = g x (h s) \<and> J s'"
  shows "forE xs f s = (Ret (), s') \<Longrightarrow> J s \<Longrightarrow> h s' = fold g xs (h s)"
  using assms
proof (induction xs arbitrary: s)
  case Nil
  then show ?case by (simp add: forE_def ret_def)
next
  case (Cons x xs)
  then obtain t where t: "f x s = (Ret (), t)" and rest: "forE xs f t = (Ret (), s')"
    by (auto simp: forE_def bindE_Ret)
  have "h t = g x (h s) \<and> J t" using Cons.prems(3) [OF _ Cons.prems(2) t] by simp
  moreover from this have "h s' = fold g xs (h t)"
    using Cons.IH [OF rest] Cons.prems(3) by (meson list.set_intros(2))
  ultimately show ?case by simp
qed

lemma forE_each:
  assumes "\<And>x s s'. J s \<Longrightarrow> f x s = (Ret (), s') \<Longrightarrow> J s' \<and> Q x"
  shows "forE xs f s = (Ret (), s') \<Longrightarrow> J s \<Longrightarrow> J s' \<and> (\<forall>x \<in> set xs. Q x)"
proof (induction xs arbitrary: s)
  case (Cons x xs)
  then obtain t where "f x s = (Ret (), t)" "forE xs f t = (Ret (), s')"
    by (auto simp: forE_def bindE_Ret)
  then show ?case using Cons.IH [of t] assms [OF Cons.prems(2), of x t] by auto
qed (simp add: forE_def ret_def)

lemma handle_block_link:
  "handle_block sv perSource key src rx b s = (Ret (), s') \<Longrightarrow> db_link b < length (rocFragmentsCount s)"
  by (auto simp: handle_block_def seqE_Ret count_fragment_def add_at_def split: if_splits)

definition tally_start :: "'e det \<Rightarrow> _ \<Rightarrow> _" where
  "tally_start D = (\<lambda>(frag, bytes, empty, tmo, fragBySource, bytesBySource, total, subs, perSource).
     (frag, bytes, empty, tmo, fragBySource, bytesBySource, total + word_of_nat (subhdr_size (dlib D)), subs + 1, perSource))"

lemma keeps_hw: "(\<And>s e. I s \<Longrightarrow> I (s\<lparr>tenv := e\<rparr>)) \<Longrightarrow> keeps I (hw m)"
  by (auto simp: keeps_def hw_def split: prod.splits)

lemma keeps_tallies:
  "keeps (\<lambda>s. tallies s = L) (plan_tags D)"
  "keeps (\<lambda>s. tallies s = L) (follow_tag plan key rx off grp)"
  "keeps (\<lambda>s. tallies s = L) (note_start D)"
  "keeps (\<lambda>s. tallies s = L) (save_header D se sv)"
  "keeps (\<lambda>s. tallies s = L) (forE ls (link_status se))"
proof -
  show "keeps (\<lambda>s. tallies s = L) (plan_tags D)"
    unfolding plan_tags_def by (intro inv_intros keeps_hw) (simp_all add: tallies_defs)
  have "keeps (\<lambda>s. tallies s = L) (accept_tag plan key t)" for t
    by (simp add: keeps_def accept_tag_def tallies_defs)
  then show "keeps (\<lambda>s. tallies s = L) (follow_tag plan key rx off grp)"
    unfolding follow_tag_def note_mismatch_def Let_def
    by (intro inv_intros keeps_modify) (auto simp: tallies_defs sync_tag_def advance_tag_def Let_def)
  show "keeps (\<lambda>s. tallies s = L) (note_start D)"
    unfolding note_start_def by (intro inv_intros keeps_hw keeps_modify) (simp_all add: tallies_defs)
  show "keeps (\<lambda>s. tallies s = L) (save_header D se sv)"
    unfolding save_header_def by (intro inv_intros keeps_modify keeps_save_bytes) (simp add: tallies_defs)
  show "keeps (\<lambda>s. tallies s = L) (forE ls (link_status se))"
    unfolding link_status_def by (intro inv_intros; simp add: keeps_def add_at_def latch_def tallies_defs Let_def)
qed

text \<open>A returned call: the tallies of the six blocks, one after the other.\<close>

lemma handle_tallies:
  assumes "handleDetachedSubevent D se off grp s = (Ret (), s')"
  shows "length (se_blocks se) = 6"
    and "length (rocFragmentsCount s) = 6 \<Longrightarrow> \<forall>b \<in> set (se_blocks se). db_link b < 6"
    and "tallies s' = fold (tally_block (source_key grp (se_source se))) (se_blocks se)
      (tally_start D (tallies s))"
proof -
  let ?key = "source_key grp (se_source se)"
  let ?s1 = "s\<lparr>subeventsCount := subeventsCount s + 1\<rparr>"
  obtain plan s2 s3 where run: "plan_tags D ?s1 = (Ret plan, s2)"
    "follow_tag plan ?key (se_tag se) off grp s2 = (Ret (), s3)" "account_subevent D se ?key s3 = (Ret (), s')"
    using assms unfolding handleDetachedSubevent_def Let_def seqE_Ret bindE_Ret by (auto simp: modify_def)
  obtain s4 s5 s6 s7 s8 where acc: "note_start D (note_subrun se s3) = (Ret (), s4)"
    "s5 = s4\<lparr>totalSubeventBytesTransferred := totalSubeventBytesTransferred s4 + word_of_nat (subhdr_size (dlib D))\<rparr>"
    "save_header D se (save_subevent se s5) s5 = (Ret (), s6)"
    "forE (ROC_Links (dlib D)) (link_status se) s6 = (Ret (), s7)"
    "handle_blocks se (save_subevent se s5) ?key s7 = (Ret (), s8)" "tallies s' = tallies s8"
    using run(3) unfolding account_subevent_def seqE_Ret bindE_Ret
    by (auto simp: modify_def gets_def hw_def steady_now_def call_def tallies_defs split: prod.splits)
  show six: "length (se_blocks se) = 6"
    using acc(5) by (auto simp: handle_blocks_def throw_def split: if_splits)
  have t4: "tallies s4 = tallies ?s1"
    using keeps_Ret [OF keeps_tallies(1) refl run(1)] keeps_Ret [OF keeps_tallies(2) refl run(2)]
      keeps_Ret [OF keeps_tallies(3) refl acc(1)]
    by (simp add: note_subrun_def tallies_defs Let_def)
  have t7: "tallies s7 = tallies s5"
    using keeps_Ret [OF keeps_tallies(4) refl acc(3)] keeps_Ret [OF keeps_tallies(5) refl acc(4)] by simp
  have blocks: "forE (se_blocks se) (handle_block (save_subevent se s5) (by_source s7) ?key (se_source se) (se_tag se)) s7
      = (Ret (), s8)"
    using acc(5) six by (simp add: handle_blocks_def bindE_def gets_def)
  have len7: "length (rocFragmentsCount s7) = length (rocFragmentsCount s)"
    using t4 t7 acc(2) by (auto simp: tallies_def)
  have step: "(by_source t' = by_source s7 \<and> length (rocFragmentsCount t') = 6) \<and> db_link b < 6"
    if "by_source t = by_source s7 \<and> length (rocFragmentsCount t) = 6"
      "handle_block (save_subevent se s5) (by_source s7) ?key (se_source se) (se_tag se) b t = (Ret (), t')" for t t' b
    using handle_block_link [OF that(2)] handle_block_tally [OF that(2)] that(1)
    by (auto simp: tallies_def tally_block_def Let_def bump_def)
  show "\<forall>b \<in> set (se_blocks se). db_link b < 6" if "length (rocFragmentsCount s) = 6"
  proof (rule forE_each [where J = "\<lambda>t. by_source t = by_source s7 \<and> length (rocFragmentsCount t) = 6",
      THEN conjunct2, OF _ blocks])
    show "by_source s7 = by_source s7 \<and> length (rocFragmentsCount s7) = 6" using len7 that by metis
  qed (rule step)
  from blocks have "tallies s8 = fold (tally_block ?key) (se_blocks se) (tallies s7)"
  proof (rule forE_fold [where J = "\<lambda>s. by_source s = by_source s7", rotated])
    fix b t t' assume per: "by_source t = by_source s7"
      and b: "handle_block (save_subevent se s5) (by_source s7) ?key (se_source se) (se_tag se) b t = (Ret (), t')"
    show "tallies t' = tally_block ?key b (tallies t) \<and> by_source t' = by_source s7"
      using handle_block_tally [OF b per] per by (simp add: tally_block_def tallies_def Let_def)
  qed simp
  moreover have "tallies s7 = tally_start D (tallies s)"
    using t4 t7 acc(2) by (auto simp: tally_start_def tallies_def by_source_def merging_def)
  ultimately show "tallies s' = fold (tally_block ?key) (se_blocks se) (tally_start D (tallies s))"
    using acc(6) by simp
qed

subsection \<open>Sums over the blocks\<close>

definition on_link :: "nat \<Rightarrow> data_block list \<Rightarrow> data_block list" where
  "on_link l bs = filter (\<lambda>b. db_link b = l) bs"

lemma fold_bump_if:
  "length (fold (\<lambda>b v. if P b then bump (db_link b) (w b) v else v) bs v) = length v"
  "l < length v \<Longrightarrow> fold (\<lambda>b v. if P b then bump (db_link b) (w b) v else v) bs v ! l
     = v ! l + sum_list (map w (filter P (on_link l bs)))"
proof (induction bs arbitrary: v)
  case (Cons b bs)
  have step: "length (if P b then bump (db_link b) (w b) v else v) = length v" by simp
  { case 1 show ?case using Cons.IH(1) by simp
  next
    case 2
    then show ?case
      using Cons.IH(2) [of "if P b then bump (db_link b) (w b) v else v"] step
      by (auto simp: bump_def on_link_def nth_list_update add.assoc) }
qed (simp_all add: on_link_def)

lemmas fold_bump = fold_bump_if [where P = "\<lambda>_. True", simplified]

lemma fold_tally_block:
  "fold (tally_block key) bs (frag, bytes, emp, tmo, fs, ps, tot, subs, per) =
    (fold (\<lambda>b. bump (db_link b) 1) bs frag,
     fold (\<lambda>b. bump (db_link b) (word_of_int (payloadBytes b))) bs bytes,
     fold (\<lambda>b v. if payloadBytes b = 0 then bump (db_link b) 1 v else v) bs emp,
     fold (\<lambda>b v. if timed_out b then bump (db_link b) 1 v else v) bs tmo,
     (if per then fold (\<lambda>b. bump_source key (db_link b) 1) bs fs else fs),
     (if per then fold (\<lambda>b. bump_source key (db_link b) (word_of_int (payloadBytes b))) bs ps else ps),
     tot + (\<Sum>b\<leftarrow>bs. ucast (db_byteCount b)), subs, per)"
  by (induction bs arbitrary: frag bytes emp tmo fs ps tot)
    (simp_all add: tally_block_def Let_def add.assoc)

lemma handle_fields:
  assumes "handleDetachedSubevent D se off grp s = (Ret (), s')"
  defines "bs \<equiv> se_blocks se" and "key \<equiv> source_key grp (se_source se)"
  shows "rocFragmentsCount s' = fold (\<lambda>b. bump (db_link b) 1) bs (rocFragmentsCount s)"
    and "rocPayloadByteCount s' = fold (\<lambda>b. bump (db_link b) (word_of_int (payloadBytes b))) bs (rocPayloadByteCount s)"
    and "rocPayloadEmptyCount s' = fold (\<lambda>b v. if payloadBytes b = 0 then bump (db_link b) 1 v else v) bs (rocPayloadEmptyCount s)"
    and "rocHeaderTimeoutsCount s' = fold (\<lambda>b v. if timed_out b then bump (db_link b) 1 v else v) bs (rocHeaderTimeoutsCount s)"
    and "totalSubeventBytesTransferred s' = totalSubeventBytesTransferred s + word_of_nat (subhdr_size (dlib D))
      + (\<Sum>b\<leftarrow>bs. ucast (db_byteCount b))"
    and "subeventsCount s' = subeventsCount s + 1"
    and "by_source s' = by_source s"
    and "by_source s \<Longrightarrow> evbRocFragmentsBySource s' = fold (\<lambda>b. bump_source key (db_link b) 1) bs (evbRocFragmentsBySource s)"
    and "by_source s \<Longrightarrow> evbRocPayloadBytesBySource s'
      = fold (\<lambda>b. bump_source key (db_link b) (word_of_int (payloadBytes b))) bs (evbRocPayloadBytesBySource s)"
  using handle_tallies(3) [OF assms(1)]
  unfolding bs_def key_def tallies_def tally_start_def prod.case fold_tally_block by simp_all

definition ready_counters :: "'e thread \<Rightarrow> bool" where
  "ready_counters s \<longleftrightarrow> length (rocFragmentsCount s) = 6 \<and> length (rocPayloadByteCount s) = 6
     \<and> length (rocPayloadEmptyCount s) = 6 \<and> length (rocHeaderTimeoutsCount s) = 6"

lemma ready_counters_kept:
  "handleDetachedSubevent D se off grp s = (Ret (), s') \<Longrightarrow> ready_counters s \<Longrightarrow> ready_counters s'"
  by (simp add: ready_counters_def handle_fields fold_bump fold_bump_if)

text \<open>
  C27. The accounting of a subevent is exact: when \<open>handleDetachedSubevent\<close> returns, the subevent had
  six data blocks, one subevent and its header and blocks' bytes have been added to the totals, and
  each link's counters have grown by the number, payload bytes, empty payloads and timed-out headers
  of the blocks with that link number (modulo 2^64), whatever the tag check and the options.
\<close>
theorem subevent_counts_exact:
  assumes "handleDetachedSubevent D se off grp s = (Ret (), s')" and "ready_counters s"
  shows "length (se_blocks se) = 6 \<and> ready_counters s'
    \<and> subeventsCount s' = subeventsCount s + 1
    \<and> totalSubeventBytesTransferred s' = totalSubeventBytesTransferred s + word_of_nat (subhdr_size (dlib D))
        + (\<Sum>b\<leftarrow>se_blocks se. ucast (db_byteCount b))
    \<and> (\<forall>l < 6. rocFragmentsCount s' ! l = rocFragmentsCount s ! l + of_nat (length (on_link l (se_blocks se)))
        \<and> rocPayloadByteCount s' ! l = rocPayloadByteCount s ! l
            + (\<Sum>b\<leftarrow>on_link l (se_blocks se). word_of_int (payloadBytes b))
        \<and> rocPayloadEmptyCount s' ! l = rocPayloadEmptyCount s ! l
            + of_nat (length (filter (\<lambda>b. payloadBytes b = 0) (on_link l (se_blocks se))))
        \<and> rocHeaderTimeoutsCount s' ! l = rocHeaderTimeoutsCount s ! l
            + of_nat (length (filter timed_out (on_link l (se_blocks se)))))"
  using assms handle_tallies(1) [OF assms(1)] ready_counters_kept [OF assms]
  by (simp add: handle_fields [OF assms(1)] fold_bump fold_bump_if ready_counters_def sum_list_triv)

subsection \<open>Counts per source agree with the counts per link\<close>

definition source_total :: "(u16, u64 list) omap \<Rightarrow> nat \<Rightarrow> u64" where
  "source_total m l = (\<Sum>e\<leftarrow>m. snd e ! l)"

definition six_each :: "(u16, u64 list) omap \<Rightarrow> bool" where
  "six_each m \<longleftrightarrow> om_ok m \<and> (\<forall>e \<in> set m. length (snd e) = 6)"

definition sources_agree :: "'e thread \<Rightarrow> bool" where
  "sources_agree s \<longleftrightarrow> by_source s \<and> ready_counters s
     \<and> six_each (evbRocFragmentsBySource s) \<and> six_each (evbRocPayloadBytesBySource s)
     \<and> (\<forall>l < 6. source_total (evbRocFragmentsBySource s) l = rocFragmentsCount s ! l
              \<and> source_total (evbRocPayloadBytesBySource s) l = rocPayloadByteCount s ! l)"

lemma source_total_put:
  assumes "om_ok m" and that: "l < 6"
  shows "source_total (om_put k v m) l + om_at (replicate 6 0) m k ! l = source_total m l + v ! l"
  using assms(1)
proof (induction m)
  case Nil
  then show ?case using that by (simp add: source_total_def)
next
  case (Cons e m)
  obtain k' v' where e: "e = (k', v')" by (cases e)
  have ok: "om_ok m" and least: "\<And>x. x \<in> fst ` set m \<Longrightarrow> k' < x"
    using Cons.prems by (auto simp: om_ok_def e)
  have absent: "map_of m k = None" if "\<not> k' < k"
    using least [of k] that by (auto simp: map_of_eq_None_iff)
  show ?case
    using Cons.IH [OF ok] absent that
    by (auto simp: e source_total_def om_at_def algebra_simps split: option.splits)
qed

lemma bump_source_six:
  assumes "six_each m" and "l < 6"
  shows "six_each (bump_source key l d m)"
    and "j < 6 \<Longrightarrow> source_total (bump_source key l d m) j = source_total m j + (if j = l then d else 0)"
proof -
  have "length v = 6" if "map_of m key = Some v" for v
    using map_of_SomeD [OF that] assms(1) by (force simp: six_each_def)
  then have row: "(let v = om_at [] m key in if length v < 6 then replicate 6 0 else v) = om_at (replicate 6 0) m key"
    and six: "length (om_at (replicate 6 0) m key) = 6"
    by (auto simp: om_at_def Let_def split: option.splits)
  have b: "bump_source key l d m = om_put key (bump l d (om_at (replicate 6 0) m key)) m"
    using row by (simp add: bump_source_def Let_def)
  show "six_each (bump_source key l d m)"
    using assms(1) six unfolding b six_each_def by (auto simp: om_ok_put bump_def dest!: om_put_entries)
  show "source_total (bump_source key l d m) j = source_total m j + (if j = l then d else 0)" if "j < 6"
    using source_total_put [of m j key "bump l d (om_at (replicate 6 0) m key)"] assms that six
    unfolding b by (auto simp: six_each_def bump_def nth_list_update algebra_simps)
qed

lemma fold_bump_source:
  assumes "six_each m" and "\<forall>b \<in> set bs. db_link b < 6"
  shows "six_each (fold (\<lambda>b. bump_source key (db_link b) (w b)) bs m)
    \<and> (\<forall>l < 6. source_total (fold (\<lambda>b. bump_source key (db_link b) (w b)) bs m) l
        = source_total m l + sum_list (map w (on_link l bs)))"
  using assms
proof (induction bs arbitrary: m)
  case (Cons b bs)
  have "six_each (bump_source key (db_link b) (w b) m)" using Cons.prems by (simp add: bump_source_six)
  then show ?case
    using Cons.IH [of "bump_source key (db_link b) (w b) m"] Cons.prems
    by (auto simp: bump_source_six on_link_def add.assoc)
qed (simp add: on_link_def)

lemma sources_agree_kept:
  assumes "handleDetachedSubevent D se off grp s = (Ret (), s')" and "sources_agree s"
  shows "sources_agree s'"
proof -
  have links: "\<forall>b \<in> set (se_blocks se). db_link b < 6"
    using handle_tallies(2) [OF assms(1)] assms(2) by (simp add: sources_agree_def ready_counters_def)
  show ?thesis
    using assms(2) ready_counters_kept [OF assms(1)] fold_bump_source [OF _ links]
    by (simp add: sources_agree_def handle_fields [OF assms(1)] ready_counters_def fold_bump)
qed

text \<open>
  With sources tracked (event builder mode or a merge mode), the counters kept per source and
  link stay a partition of the counters per link: summed over the sources they give the per-link
  fragment and payload-byte counters, before and after every subevent.
\<close>
theorem per_source_counts_agree:
  assumes "handleDetachedSubevent D se off grp s = (Ret (), s')" and "by_source s" and "ready_counters s"
    and "six_each (evbRocFragmentsBySource s)" and "six_each (evbRocPayloadBytesBySource s)"
    and "\<forall>l < 6. source_total (evbRocFragmentsBySource s) l = rocFragmentsCount s ! l
          \<and> source_total (evbRocPayloadBytesBySource s) l = rocPayloadByteCount s ! l"
  shows "\<forall>l < 6. source_total (evbRocFragmentsBySource s') l = rocFragmentsCount s' ! l
          \<and> source_total (evbRocPayloadBytesBySource s') l = rocPayloadByteCount s' ! l"
  using sources_agree_kept [OF assms(1)] assms(2-) by (simp add: sources_agree_def)

subsection \<open>Undefined behaviour\<close>

definition ready_struct :: "'e thread \<Rightarrow> bool" where
  "ready_struct s \<longleftrightarrow> ready_counters s \<and> length (rocFragmentTimeoutsCount s) = 6
     \<and> length (rocFragmentErrorsCount s) = 6 \<and> length (rocEmulatorDataErrorsCount s) = 6
     \<and> length (rocEmulatorPacketCountErrorsCount s) = 6
     \<and> six_each (evbRocFragmentsBySource s) \<and> six_each (evbRocPayloadBytesBySource s)"

text \<open>The subevent as the library hands it out: link numbers below 6, headers and payloads readable.\<close>

definition well_formed_block :: "data_block \<Rightarrow> bool" where
  "well_formed_block b \<longleftrightarrow> db_link b < 6 \<and> 16 \<le> length (db_raw b)
     \<and> 4 * ((nat (payloadBytes b) + 3) div 4) \<le> length (db_data b)"

definition well_formed_subevent :: "'e det \<Rightarrow> sub_event \<Rightarrow> bool" where
  "well_formed_subevent D se \<longleftrightarrow> (\<forall>b \<in> set (se_blocks se). well_formed_block b)
     \<and> 4 * ((subhdr_size (dlib D) + 3) div 4) \<le> length (se_headerRaw se)
     \<and> (\<forall>r \<in> set (ROC_Links (dlib D)). r < 6)"

lemma ready_struct_update [simp]:
  "ready_struct (tenv_update f s) = ready_struct s"
  "ready_struct (s\<lparr>subeventsCount := c\<rparr>) = ready_struct s"
  "ready_struct (s\<lparr>totalSubeventBytesTransferred := c\<rparr>) = ready_struct s"
  "ready_struct (s\<lparr>savedCount := c\<rparr>) = ready_struct s"
  "ready_struct (s\<lparr>fp := f'\<rparr>) = ready_struct s"
  "ready_struct (s\<lparr>transferStartTime := t\<rparr>) = ready_struct s"
  "ready_struct (s\<lparr>transferEndTime := t\<rparr>) = ready_struct s"
  "ready_struct (s\<lparr>rocEmulatorFirstErrors := x\<rparr>) = ready_struct s"
  "ready_struct (s\<lparr>rocEmulatorExpectedPackets := n\<rparr>) = ready_struct s"
  "ready_struct (s\<lparr>rocEmulatorNextCounter := m\<rparr>) = ready_struct s"
  "ready_struct (sync_tag tg s) = ready_struct s"
  "ready_struct (advance_tag plan b key tg s) = ready_struct s"
  "ready_struct (note_subrun se s) = ready_struct s"
  by (simp_all add: ready_struct_def ready_counters_def sync_tag_def advance_tag_def note_subrun_def Let_def)

lemma safe_hw:
  assumes "safe True any any m" and "\<And>s e. I s \<Longrightarrow> I (tenv_update (\<lambda>_. e) s)"
  shows "safe True I any (hw m)"
proof (rule safeI)
  fix s assume s: "I s"
  obtain x e where m: "m (tenv s) = (x, e)" by (metis surj_pair)
  have "permits True any x" using safeD [OF assms(1), of "tenv s"] m by simp
  then show "I (snd (hw m s)) \<and> permits True any (fst (hw m s))"
    using assms(2) [OF s] by (cases x) (simp_all add: hw_def m)
qed

lemma safe_calls [nothrow_intros]:
  "safe True any any (call f)" "safe True any any (call_try g)" "safe True any any (get D d k)"
  by (auto simp: safe_def call_def call_try_def get_def split: prod.splits sum.splits)

lemma safe_num_sources: "safe True any any (num_sources D live p cached)"
  unfolding num_sources_def
  by (intro safe_case_option safe_if safe_bindE_any nothrow_intros safe_ret) simp_all

abbreviation fine :: "('e, 'a) det_eff \<Rightarrow> bool" where
  "fine m \<equiv> safe True ready_struct any m"

lemma fine_add_at:
  assumes "l < 6" and "\<And>s. ready_struct s \<Longrightarrow> length (sel s) = 6 \<and> ready_struct (upd (\<lambda>v. v[l := v ! l + d]) s)"
  shows "fine (add_at sel upd l d)"
  using assms by (auto simp: safe_def add_at_def)

lemma fine_counter:
  assumes "l < 6"
  shows "fine (add_at rocFragmentsCount rocFragmentsCount_update l d)"
    "fine (add_at rocPayloadByteCount rocPayloadByteCount_update l d)"
    "fine (add_at rocPayloadEmptyCount rocPayloadEmptyCount_update l d)"
    "fine (add_at rocHeaderTimeoutsCount rocHeaderTimeoutsCount_update l d)"
    "fine (add_at rocFragmentTimeoutsCount rocFragmentTimeoutsCount_update l d)"
    "fine (add_at rocFragmentErrorsCount rocFragmentErrorsCount_update l d)"
    "fine (add_at rocEmulatorDataErrorsCount rocEmulatorDataErrorsCount_update l d)"
    "fine (add_at rocEmulatorPacketCountErrorsCount rocEmulatorPacketCountErrorsCount_update l d)"
  by (rule fine_add_at [OF assms]; simp add: ready_struct_def ready_counters_def)+

lemma add_source_bumps:
  assumes "six_each (sel s)" and "l < 6"
  shows "add_source sel upd key l d s = (Ret (), upd (om_put key (bump l d (om_at (replicate 6 0) (sel s) key))) s)"
    and "six_each (om_put key (bump l d (om_at (replicate 6 0) (sel s) key)) (sel s))"
proof -
  have six: "length v = 6" if "map_of (sel s) key = Some v" for v
    using map_of_SomeD [OF that] assms(1) by (force simp: six_each_def)
  show "add_source sel upd key l d s = (Ret (), upd (om_put key (bump l d (om_at (replicate 6 0) (sel s) key))) s)"
    using assms(2) six by (auto simp: add_source_def om_at_def bump_def Let_def split: option.splits)
  show "six_each (om_put key (bump l d (om_at (replicate 6 0) (sel s) key)) (sel s))"
    using assms(1) six by (auto simp: six_each_def om_ok_put om_at_def dest!: om_put_entries split: option.splits)
qed

lemma fine_source1:
  assumes "l < 6"
  shows "fine (add_source evbRocFragmentsBySource evbRocFragmentsBySource_update key l d :: ('e, unit) det_eff)"
proof (rule safeI)
  fix s :: "'e thread" assume r: "ready_struct s"
  then have six: "six_each (evbRocFragmentsBySource s)" by (simp add: ready_struct_def)
  show "ready_struct (snd (add_source evbRocFragmentsBySource evbRocFragmentsBySource_update key l d s))
      \<and> permits True any (fst (add_source evbRocFragmentsBySource evbRocFragmentsBySource_update key l d s))"
    using r add_source_bumps(2) [of evbRocFragmentsBySource, OF six assms]
    unfolding add_source_bumps(1) [of evbRocFragmentsBySource, OF six assms]
    by (simp add: ready_struct_def ready_counters_def)
qed

lemma fine_source2:
  assumes "l < 6"
  shows "fine (add_source evbRocPayloadBytesBySource evbRocPayloadBytesBySource_update key l d :: ('e, unit) det_eff)"
proof (rule safeI)
  fix s :: "'e thread" assume r: "ready_struct s"
  then have six: "six_each (evbRocPayloadBytesBySource s)" by (simp add: ready_struct_def)
  show "ready_struct (snd (add_source evbRocPayloadBytesBySource evbRocPayloadBytesBySource_update key l d s))
      \<and> permits True any (fst (add_source evbRocPayloadBytesBySource evbRocPayloadBytesBySource_update key l d s))"
    using r add_source_bumps(2) [of evbRocPayloadBytesBySource, OF six assms]
    unfolding add_source_bumps(1) [of evbRocPayloadBytesBySource, OF six assms]
    by (simp add: ready_struct_def ready_counters_def)
qed

lemma fine_modify: "(\<And>s. ready_struct s \<Longrightarrow> ready_struct (f s)) \<Longrightarrow> fine (modify f)"
  by (rule safe_modify)

lemma fine_save_bytes: "4 * ((n + 3) div 4) \<le> length raw \<Longrightarrow> fine (save_bytes sv raw n)"
  unfolding save_bytes_def
  by (intro safe_bindE_gets safe_case_option safe_whenE safe_bindE_any safe_slice fine_modify safe_ret) simp_all

lemma fine_emulator_check:
  assumes "well_formed_block b"
  shows "fine (checkROCEmulatorBlock b src ewt)"
proof -
  have l: "db_link b < 6" and readable: "block_readable b"
    using assms by (auto simp: well_formed_block_def block_readable_def)
  have words: "fine (le16 (db_data b) i)" if "i < nat (payloadBytes b) div 2" for i
    using readable_word [OF readable that] by (simp add: le16_w16 safe_ret)
  have dump: "fine (payload_dump b)"
    unfolding payload_dump_def
    by (rule safe_foldE [where P = any]) (auto intro!: safe_bindE_any words safe_ret)
  have err: "fine (dataError b src ewt w)" "fine (packetCountError b src ewt w)" for w
    unfolding dataError_def packetCountError_def noteError_def Let_def
    by (intro safe_seqE safe_bindE_any fine_counter [OF l] dump fine_modify safe_throw; simp)+
  have pair: "fine (check_pair b src ewt c k e)" if "k < nat (payloadBytes b) div 2 div 2" for c k e
    unfolding check_pair_def
    using that by (intro safe_seqE safe_bindE_any safe_whenE err words safe_ret) auto
  have packets: "fine (check_packets b src ewt)"
    unfolding check_packets_def Let_def
    by (intro safe_bindE_gets safe_if safe_whenE err fine_modify) simp
  have "fine (check_words b src ewt)"
    unfolding check_words_def Let_def
    by (intro safe_if safe_ret safe_bindE_any safe_seqE safe_bindE_gets safe_case_option safe_whenE err words fine_modify
        safe_foldE [where P = any] pair TrueI) auto
  then show ?thesis
    unfolding checkROCEmulatorBlock_def by (intro safe_if safe_ret safe_seqE packets) simp_all
qed

lemma fine_handle_block:
  assumes "well_formed_block b"
  shows "fine (handle_block sv perSource key src rx b)"
proof -
  have l: "db_link b < 6" using assms by (simp add: well_formed_block_def)
  show ?thesis
    unfolding handle_block_def count_fragment_def count_payload_def Let_def
    using assms by (intro safe_seqE safe_whenE fine_counter [OF l] fine_source1 [OF l] fine_source2 [OF l] fine_save_bytes fine_modify
        safe_bindE_gets fine_emulator_check) (simp_all add: well_formed_block_def)
qed

lemma fine_follow_tag: "fine (follow_tag plan key rx off grp)"
proof -
  have accept: "fine (accept_tag plan key t)" for t
    by (simp add: safe_def accept_tag_def ready_struct_def ready_counters_def)
  show ?thesis
    unfolding follow_tag_def note_mismatch_def Let_def
    by (intro safe_seqE safe_bindE_any safe_bindE_gets safe_whenE safe_throw accept fine_modify)
      (simp_all add: ready_struct_def ready_counters_def sync_tag_def advance_tag_def Let_def)
qed

lemma fine_account:
  assumes "well_formed_subevent D se"
  shows "fine (account_subevent D se key)"
proof -
  have latch: "fine (latch r)" for r
    by (simp add: safe_def latch_def ready_struct_def ready_counters_def Let_def)
  have now: "fine (hw (steady_now D))" unfolding steady_now_def by (rule safe_hw [OF safe_calls(1)]) simp
  have link: "fine (link_status se r)" if "r < 6" for r
    unfolding link_status_def
    by (intro safe_whenE safe_if safe_seqE safe_bindE_any latch fine_counter [OF that])
  show ?thesis
    unfolding account_subevent_def note_start_def save_header_def handle_blocks_def
    using assms
    by (intro safe_seqE safe_bindE_gets safe_bindE_any safe_whenE safe_forE safe_if safe_throw now link fine_modify
        fine_save_bytes fine_handle_block) (auto simp: well_formed_subevent_def)
qed

lemma fine_subevent:
  assumes "well_formed_subevent D se"
  shows "fine (handleDetachedSubevent D se off grp)"
proof -
  have "fine (plan_tags D)"
    unfolding plan_tags_def by (intro safe_bindE_gets safe_bindE_any safe_hw safe_num_sources safe_ret) simp_all
  then show ?thesis
    unfolding handleDetachedSubevent_def Let_def
    by (intro safe_seqE safe_bindE_any fine_modify fine_follow_tag fine_account [OF assms]) simp_all
qed

text \<open>
  C28. Handling a subevent has no undefined behaviour, whatever it counts, saves or throws, when the
  library hands out link numbers below 6 and readable buffers and the counter vectors have their six
  entries, and it keeps the vectors that way.
\<close>
theorem subevent_defined:
  assumes "well_formed_subevent D se" and "ready_struct s"
  shows "fst (handleDetachedSubevent D se off grp s) \<noteq> Undef \<and> ready_struct (snd (handleDetachedSubevent D se off grp s))"
  using safeD [OF fine_subevent [OF assms(1)] assms(2), of off grp]
  by (cases "fst (handleDetachedSubevent D se off grp s)") simp_all

text \<open>
  The link number of a data block is not checked before it indexes the six counters: a block with
  a link number of 6 or 7 makes the handling undefined, although the check of emulator data, called
  later for the same block, skips such links.
\<close>
theorem block_link_unchecked:
  assumes "ready_struct s" and "6 \<le> db_link b"
  shows "fst (handle_block sv perSource key src rxTag b s) = Undef
    \<and> checkROCEmulatorBlock b src rxTag s = (Ret (), s)"
  using assms by (simp add: handle_block_def count_fragment_def seqE_def bindE_def add_at_def ready_struct_def
      ready_counters_def checkROCEmulatorBlock_def ret_def)

subsection \<open>Examples\<close>

definition sample_fragment :: "nat \<Rightarrow> data_block" where
  "sample_fragment l = \<lparr>db_link = l, db_byteCount = 16 + 16 * word_of_nat l, db_status = 1, db_raw = replicate 16 0,
     db_data = replicate (16 * l) 0, db_json = []\<rparr>"

definition sample_subevent :: sub_event where
  "sample_subevent = \<lparr>se_tag = 10, se_source = 3, se_eventMode = 0, se_linkStatus = (\<lambda>_. 0),
     se_blocks = map sample_fragment [0, 1, 2, 3, 4, 5], se_headerRaw = replicate 48 0, se_mac = 0, se_partition = 0,
     se_evbMode = 0\<rparr>"

definition counting_thread :: "unit thread" where
  "counting_thread = (new_thread ())\<lparr>rocFragmentsCount := replicate 6 0, rocFragmentTimeoutsCount := replicate 6 0,
     rocFragmentErrorsCount := replicate 6 0, rocPayloadEmptyCount := replicate 6 0,
     rocHeaderTimeoutsCount := replicate 6 0, rocPayloadByteCount := replicate 6 0,
     rocEmulatorDataErrorsCount := replicate 6 0, rocEmulatorPacketCountErrorsCount := replicate 6 0,
     inEVBMode := True, evbNumDestNodes := 1\<rparr>"

definition counted_thread :: "unit thread" where
  "counted_thread = snd (handleDetachedSubevent quiet sample_subevent 0 0 counting_thread)"

lemma counting_run: "handleDetachedSubevent quiet sample_subevent 0 0 counting_thread = (Ret (), counted_thread)"
proof -
  have "fst (handleDetachedSubevent quiet sample_subevent 0 0 counting_thread) = Ret ()" by code_simp
  then show ?thesis by (simp add: counted_thread_def prod_eq_iff)
qed

lemma counting_ready: "ready_struct counting_thread" "ready_counters counting_thread" "by_source counting_thread"
  "evbRocFragmentsBySource counting_thread = []" "evbRocPayloadBytesBySource counting_thread = []"
  by (simp_all add: counting_thread_def ready_struct_def ready_counters_def new_thread_def six_each_def by_source_def)

theorem subevent_counts_exact_witness:
  "rocPayloadByteCount counted_thread ! 5 = 80 \<and> totalSubeventBytesTransferred counted_thread = 48 + 336"
proof -
  have "rocPayloadByteCount counting_thread ! 5 + (\<Sum>b\<leftarrow>on_link 5 (se_blocks sample_subevent). word_of_int (payloadBytes b)) = 80"
    and "totalSubeventBytesTransferred counting_thread + word_of_nat (subhdr_size (dlib quiet))
      + (\<Sum>b\<leftarrow>se_blocks sample_subevent. ucast (db_byteCount b)) = 48 + 336"
    by code_simp+
  with subevent_counts_exact [OF counting_run counting_ready(2)] show ?thesis by simp
qed

theorem per_source_counts_agree_witness:
  "source_total (evbRocPayloadBytesBySource counted_thread) 5 = rocPayloadByteCount counted_thread ! 5"
  using per_source_counts_agree [OF counting_run counting_ready(3) counting_ready(2)]
  by (simp add: counting_ready six_each_def source_total_def) (simp add: counting_thread_def)

theorem subevent_defined_witness:
  "fst (handleDetachedSubevent quiet sample_subevent 0 0 counting_thread) \<noteq> Undef"
proof -
  have "well_formed_subevent quiet sample_subevent" by code_simp
  from subevent_defined [OF this counting_ready(1)] show ?thesis by blast
qed

theorem block_link_unchecked_witness:
  "fst (handle_block False True 0 3 10 (sample_fragment 6) counting_thread) = Undef"
  using block_link_unchecked [OF counting_ready(1), of "sample_fragment 6"] by (simp add: sample_fragment_def)


end
