(* ===== verification/Merge_Pairing.thy ===== *)
theory Merge_Pairing
  imports Detached_Merge Subevent_Counts
begin

section \<open>The pairing of halves\<close>

text \<open>
  What the merge modes guarantee: no half is lost or used twice, base tags increase, a merged event is
  made of its own halves, and no half waits beyond the limits.
\<close>

subsection \<open>What staging a half does\<close>

lemma abortWith_throws: "abortWith f t w s \<noteq> (Ret x, s')"
  by (simp add: abortWith_def bindE_def modify_def gets_def throw_def)

definition merged_of :: "'e det \<Rightarrow> dtc_event \<Rightarrow> dtc_event \<Rightarrow> u64 \<Rightarrow> dtc_event \<Rightarrow> bool" where
  "merged_of D half0 half1 baseTag ev \<longleftrightarrow>
     (let h = hdr_size (dlib D); n0 = ev_byteCount half0 - h; n1 = ev_byteCount half1 - h
      in h \<le> ev_byteCount half0 \<and> h \<le> ev_byteCount half1 \<and> h + n0 + n1 < 2 ^ 24 \<and> ev_subs half0 \<noteq> []
         \<and> ev = setup_event (dlib D) (encode_header (dlib D) (merged_header half0 half1 (hd (ev_subs half0)) (h + n0 + n1) baseTag)
                  @ take n0 (drop h (ev_raw half0)) @ take n1 (drop h (ev_raw half1)))
         \<and> \<not> ev_corrupt ev)"

lemma build_Ret:
  assumes "buildMergedDetachedEvent D half0 half1 baseTag s = (Ret ev, s')"
  shows "s' = s \<and> merged_of D half0 half1 baseTag ev"
  using assms
  by (auto simp: buildMergedDetachedEvent_def merge_halves_def Let_def throw_def bindE_Ret slice_def ret_def
      undefined_behaviour_def merged_of_def split: if_splits)

lemma hw_Ret: "hw m s = (Ret a, s') \<Longrightarrow> \<exists>e. s' = s\<lparr>tenv := e\<rparr>"
  by (auto simp: hw_def split: prod.splits)

lemma stage_Ret:
  assumes "stageDetachedHalf D half side acc s = (Ret acc', s')"
  defines "key \<equiv> base_key s side (ev_tag half)"
  shows "(mergeMode s = EvenOdd \<longrightarrow> bit (ev_tag half) 0 = side)
    \<and> (haveMergedTag s \<longrightarrow> lastMergedBaseTag s < key) \<and> om_get (mine side s) key = None
    \<and> ((om_get (mine (\<not> side) s) key = None \<and> acc' = acc
         \<and> (\<exists>e t. s' = upd_mine side (om_put key (half, t)) (s\<lparr>tenv := e\<rparr>)))
       \<or> (\<exists>partner t0 e ns ev. om_get (mine (\<not> side) s) key = Some (partner, t0)
           \<and> s' = note_merged side key ns ev (s\<lparr>tenv := e\<rparr>)
           \<and> merged_of D (if side then partner else half) (if side then half else partner) key ev
           \<and> acc' = acc @ [\<lparr>me_event = ev, me_fromDTC0 = length (ev_subs (if side then partner else half)), me_base = key\<rparr>]))"
proof -
  have run: "(if mergeMode s = EvenOdd \<and> bit (ev_tag half) 0 \<noteq> side
      then abortWith side (ev_tag half) (if side then ''odd tag expected from DTC_1'' else ''even tag expected from DTC_0'')
      else if haveMergedTag s \<and> key \<le> lastMergedBaseTag s
      then abortWith side (ev_tag half) (''base tag '' @ to_string (unat key) @ '' was already merged or passed'')
      else if om_has (mine side s) key
      then abortWith side (ev_tag half) (''duplicate half for base tag '' @ to_string (unat key))
      else case om_get (mine (\<not> side) s) key of
             None \<Rightarrow> bindE (hw (steady_now D)) (\<lambda>t. bindE (modify (upd_mine side (om_put key (half, t)))) (\<lambda>_. ret acc))
           | Some (partner, _) \<Rightarrow> bindE (merge_pair D side key half partner) (\<lambda>m. ret (acc @ [m]))) s = (Ret acc', s')"
    using assms(1) unfolding stageDetachedHalf_def Let_def key_def
    by (simp only: bindE_def [of "gets _"] gets_def prod.case outcome.case)
  from run have parity: "mergeMode s = EvenOdd \<longrightarrow> bit (ev_tag half) 0 = side"
    and newer: "haveMergedTag s \<longrightarrow> lastMergedBaseTag s < key" and absent: "\<not> om_has (mine side s) key"
    by (auto simp: abortWith_throws not_le split: if_splits)
  have fresh: "om_get (mine side s) key = None" using absent unfolding om_has_def by blast
  show ?thesis
  proof (cases "om_get (mine (\<not> side) s) key")
    case None
    then show ?thesis
      using run parity newer fresh absent
      by (auto simp: abortWith_throws bindE_Ret modify_def ret_def dest!: hw_Ret split: if_splits)
  next
    case (Some p)
    obtain partner t0 where p: "p = (partner, t0)" by (cases p)
    let ?h0 = "if side then partner else half" and ?h1 = "if side then half else partner"
    obtain m where m: "merge_pair D side key half partner s = (Ret m, s')" and acc: "acc' = acc @ [m]"
      using run Some p absent by (auto simp: abortWith_throws bindE_Ret ret_def split: if_splits)
    obtain t1 t2 s1 s1' s2 ev where steps: "hw (steady_now D) s = (Ret t1, s1)"
      "buildMergedDetachedEvent D ?h0 ?h1 key s1 = (Ret ev, s1')" "hw (steady_now D) s1' = (Ret t2, s2)"
      "s' = note_merged side key (t2 - t1) ev s2" "m = \<lparr>me_event = ev, me_fromDTC0 = length (ev_subs ?h0), me_base = key\<rparr>"
      using m by (auto simp: merge_pair_def Let_def bindE_Ret modify_def ret_def)
    have ev: "s1' = s1" "merged_of D ?h0 ?h1 key ev" using build_Ret [OF steps(2)] by simp_all
    obtain e where "s2 = s\<lparr>tenv := e\<rparr>" using hw_Ret [OF steps(1)] hw_Ret [OF steps(3)] ev(1) by auto
    then show ?thesis using steps ev(2) p Some parity newer fresh acc by blast
  qed
qed

subsection \<open>Runs\<close>

text \<open>A run stages halves of either DTC (\<open>True\<close> for DTC_1) in any order.\<close>

definition stage_all :: "'e det \<Rightarrow> (dtc_event \<times> bool) list \<Rightarrow> ('e, merged_event list) det_eff" where
  "stage_all D hs = foldE (\<lambda>(half, side). stageDetachedHalf D half side) hs []"

definition keys_of :: "'e thread \<Rightarrow> bool \<Rightarrow> (dtc_event \<times> bool) list \<Rightarrow> u64 list" where
  "keys_of s side hs = map (\<lambda>h. base_key s side (ev_tag (fst h))) (filter (\<lambda>h. snd h = side) hs)"

definition made_of :: "'e det \<Rightarrow> 'e thread \<Rightarrow> (dtc_event \<times> bool) list \<Rightarrow> merged_event \<Rightarrow> bool" where
  "made_of D s hs m \<longleftrightarrow> (\<exists>half0 half1. (half0, False) \<in> set hs \<and> (half1, True) \<in> set hs
     \<and> base_key s False (ev_tag half0) = me_base m \<and> base_key s True (ev_tag half1) = me_base m
     \<and> me_fromDTC0 m = length (ev_subs half0) \<and> merged_of D half0 half1 (me_base m) (me_event m))"

definition staged :: "'e det \<Rightarrow> 'e thread \<Rightarrow> (dtc_event \<times> bool) list \<Rightarrow> merged_event list \<Rightarrow> 'e thread \<Rightarrow> bool" where
  "staged D s0 hs ms s \<longleftrightarrow> mergeMode s = mergeMode s0 \<and> (\<forall>side. om_ok (mine side s))
     \<and> sorted_wrt (<) (map me_base ms) \<and> (haveMergedTag s \<longleftrightarrow> ms \<noteq> [])
     \<and> (ms \<noteq> [] \<longrightarrow> lastMergedBaseTag s = me_base (last ms))
     \<and> (\<forall>side. mset (keys_of s0 side hs) = mset (map fst (mine side s)) + mset (map me_base ms))
     \<and> (\<forall>side k half t. om_get (mine side s) k = Some (half, t) \<longrightarrow> (half, side) \<in> set hs \<and> base_key s0 side (ev_tag half) = k)
     \<and> (\<forall>m \<in> set ms. made_of D s0 hs m)"

lemma mine_upd [simp]:
  "mine side' (upd_mine side f s) = (if side' = side then f (mine side s) else mine side' s)"
  "mine side' (s\<lparr>tenv := e\<rparr>) = mine side' s"
  by (simp_all add: mine_def upd_mine_def)

lemma mine_note_merged [simp]:
  "mine side' (note_merged side key ns ev s) = (if side' = (\<not> side) then om_del key (mine (\<not> side) s) else mine side' s)"
  by (simp add: note_merged_def) (simp add: mine_def)

lemma note_merged_fields [simp]:
  "mergeMode (note_merged side key ns ev s) = mergeMode s" "haveMergedTag (note_merged side key ns ev s)"
  "lastMergedBaseTag (note_merged side key ns ev s) = key"
  by (simp_all add: note_merged_def upd_mine_def)

lemma upd_mine_fields [simp]:
  "mergeMode (upd_mine side f s) = mergeMode s" "haveMergedTag (upd_mine side f s) = haveMergedTag s"
  "lastMergedBaseTag (upd_mine side f s) = lastMergedBaseTag s"
  by (simp_all add: upd_mine_def)

lemma base_key_mode: "mergeMode s = mergeMode s0 \<Longrightarrow> base_key s = base_key s0"
  by (simp add: base_key_def fun_eq_iff)

lemma mset_om_put_fresh:
  "om_get m k = None \<Longrightarrow> image_mset fst (mset (om_put k v m)) = add_mset k (image_mset fst (mset m))"
  by (induction m) (auto split: if_splits)

lemma mset_om_del:
  "om_ok m \<Longrightarrow> om_get m k = Some v \<Longrightarrow> image_mset fst (mset m) = add_mset k (image_mset fst (mset (om_del k m)))"
proof (induction m)
  case (Cons e m)
  have ok: "om_ok m" and least: "\<And>x. x \<in> fst ` set m \<Longrightarrow> fst e < x"
    using Cons.prems by (auto simp: om_ok_def)
  show ?case
  proof (cases "fst e = k")
    case True
    then have "om_del k m = m" using least by (force simp: om_del_def filter_id_conv)
    then show ?thesis using True by (simp add: om_del_def)
  next
    case False
    then show ?thesis using Cons.IH [OF ok] Cons.prems by (cases e) (auto simp: om_del_def)
  qed
qed simp

lemma made_of_mono: "made_of D s hs m \<Longrightarrow> set hs \<subseteq> set hs' \<Longrightarrow> made_of D s hs' m"
  unfolding made_of_def by blast

lemma staged_step:
  assumes st: "staged D s0 hs ms s" and run: "stageDetachedHalf D half side ms s = (Ret ms', s')"
  shows "staged D s0 (hs @ [(half, side)]) ms' s'"
proof -
  let ?key = "base_key s side (ev_tag half)" and ?hs = "hs @ [(half, side)]"
  have keys: "mset (keys_of s0 z ?hs) = mset (keys_of s0 z hs) + (if z = side then {#?key#} else {#})" for z
    using st by (auto simp: keys_of_def staged_def base_key_mode [of s s0])
  have here: "base_key s0 side (ev_tag half) = ?key" using st by (simp add: staged_def base_key_mode [of s s0])
  have newer: "haveMergedTag s \<longrightarrow> lastMergedBaseTag s < ?key" and fresh: "om_get (mine side s) ?key = None"
    using stage_Ret [OF run] by blast+
  have old: "\<forall>m \<in> set ms. made_of D s0 ?hs m"
  proof
    fix m assume "m \<in> set ms"
    then have "made_of D s0 hs m" using st by (simp add: staged_def)
    then show "made_of D s0 ?hs m" by (rule made_of_mono) auto
  qed
  from stage_Ret [OF run] consider
      (wait) e t where "om_get (mine (\<not> side) s) ?key = None" "ms' = ms" "s' = upd_mine side (om_put ?key (half, t)) (s\<lparr>tenv := e\<rparr>)"
    | (pair) partner t0 e ns ev where "om_get (mine (\<not> side) s) ?key = Some (partner, t0)"
        "s' = note_merged side ?key ns ev (s\<lparr>tenv := e\<rparr>)"
        "merged_of D (if side then partner else half) (if side then half else partner) ?key ev"
        "ms' = ms @ [\<lparr>me_event = ev, me_fromDTC0 = length (ev_subs (if side then partner else half)), me_base = ?key\<rparr>]"
    by blast
  then show ?thesis
  proof cases
    case wait
    show ?thesis
      using st fresh here old
      unfolding staged_def keys
      by (auto simp: wait om_ok_put mset_om_put_fresh)
  next
    case pair
    have ms': "map me_base ms' = map me_base ms @ [?key]" by (simp add: pair)
    have last: "me_base x \<le> lastMergedBaseTag s" if "x \<in> set ms" for x
    proof -
      have "ms \<noteq> []" using that by auto
      then obtain xs where xs: "ms = xs @ [last ms]" by (metis append_butlast_last_id)
      have "sorted_wrt (<) (map me_base xs @ [me_base (last ms)])" using st xs by (metis (no_types) list.simps(8,9) map_append staged_def)
      moreover have "x \<in> set xs \<or> x = last ms" using that xs by (metis Un_iff empty_iff insert_iff list.set(1,2) set_append)
      ultimately have "me_base x \<le> me_base (last ms)" by (auto simp: sorted_wrt_append intro: less_imp_le)
      then show ?thesis using st \<open>ms \<noteq> []\<close> by (simp add: staged_def)
    qed
    have sorted: "sorted_wrt (<) (map me_base ms')"
      using st last newer unfolding ms' by (force simp: sorted_wrt_append staged_def)
    have conserve: "mset (keys_of s0 z ?hs) = mset (map fst (mine z s')) + mset (map me_base ms')" for z
    proof -
      have "mset (keys_of s0 z hs) = image_mset fst (mset (mine z s)) + mset (map me_base ms)" using st by (simp add: staged_def)
      moreover have "image_mset fst (mset (mine (\<not> side) s)) = add_mset ?key (image_mset fst (mset (om_del ?key (mine (\<not> side) s))))"
        by (rule mset_om_del) (use st pair(1) in \<open>auto simp: staged_def\<close>)
      ultimately show ?thesis unfolding keys ms' by (auto simp: pair(2))
    qed
    have partner: "(partner, \<not> side) \<in> set hs" "base_key s0 (\<not> side) (ev_tag partner) = ?key"
      using st [unfolded staged_def] pair(1) by blast+
    have made: "made_of D s0 ?hs (last ms')"
      using partner here pair(3,4) by (cases side) (auto simp: made_of_def)
    show ?thesis
      using st sorted conserve made old
      by (auto simp: staged_def pair om_ok_del)
  qed
qed

lemma staged_run:
  assumes "staged D s0 hs ms s" and "foldE (\<lambda>(half, side). stageDetachedHalf D half side) hs' ms s = (Ret ms', s')"
  shows "staged D s0 (hs @ hs') ms' s'"
  using assms
proof (induction hs' arbitrary: hs ms s)
  case (Cons h hs')
  obtain half side where h: "h = (half, side)" by (cases h)
  obtain ms1 s1 where "stageDetachedHalf D half side ms s = (Ret ms1, s1)"
    and rest: "foldE (\<lambda>(half, side). stageDetachedHalf D half side) hs' ms1 s1 = (Ret ms', s')"
    using Cons.prems(2) by (auto simp: h bindE_Ret)
  from staged_step [OF Cons.prems(1) this(1)] show ?case using Cons.IH [OF _ rest] h by fastforce
qed (simp add: ret_def)

lemma stage_all_staged:
  assumes "stage_all D hs s = (Ret ms, s')" and "pendingDTC0 s = []" and "pendingDTC1 s = []" and "\<not> haveMergedTag s"
  shows "staged D s hs ms s'"
proof -
  have "staged D s [] [] s" using assms(2-) by (auto simp: staged_def keys_of_def mine_def)
  from staged_run [OF this] show ?thesis using assms(1) by (simp add: stage_all_def)
qed

text \<open>
  C3. Pairing loses nothing and repeats nothing: when a run that stages halves of the two DTCs in any
  order returns, the base tags of the merged events strictly increase, and on each side the base tags
  of the halves staged are, as a multiset, those of the halves still waiting and those of the merged
  events.
\<close>
theorem merge_conserves_halves:
  assumes "stage_all D hs s = (Ret ms, s')" and "pendingDTC0 s = []" and "pendingDTC1 s = []" and "\<not> haveMergedTag s"
  shows "sorted_wrt (<) (map me_base ms)
    \<and> mset (keys_of s False hs) = mset (map fst (pendingDTC0 s')) + mset (map me_base ms)
    \<and> mset (keys_of s True hs) = mset (map fst (pendingDTC1 s')) + mset (map me_base ms)"
proof -
  have "staged D s hs ms s'" by (rule stage_all_staged [OF assms])
  then have "sorted_wrt (<) (map me_base ms)"
    and side: "\<And>side. mset (keys_of s side hs) = mset (map fst (mine side s')) + mset (map me_base ms)"
    unfolding staged_def by blast+
  then show ?thesis using side [of False] side [of True] unfolding mine_def by simp
qed

text \<open>
  Each merged event is made of its own two halves: for each event of a run there are a half of
  DTC_0 with the base tag and a half of DTC_1 with the base tag (plus 1 in even/odd mode) that were
  staged, and the event is the library's set-up of one header followed by the two bodies, of less
  than 2^24 bytes, not corrupt.
\<close>
theorem merged_event_contents:
  assumes "stage_all D hs s = (Ret ms, s')" and "pendingDTC0 s = []" and "pendingDTC1 s = []" and "\<not> haveMergedTag s"
    and "m \<in> set ms"
  shows "\<exists>half0 half1. (half0, False) \<in> set hs \<and> (half1, True) \<in> set hs
    \<and> ev_tag half0 = me_base m \<and> ev_tag half1 = me_base m + (if mergeMode s = EvenOdd then 1 else 0)
    \<and> me_fromDTC0 m = length (ev_subs half0) \<and> merged_of D half0 half1 (me_base m) (me_event m)"
proof -
  have "made_of D s hs m"
    using stage_all_staged [OF assms(1-4)] assms(5) by (simp add: staged_def)
  then obtain half0 half1 where h: "(half0, False) \<in> set hs" "(half1, True) \<in> set hs"
    "base_key s False (ev_tag half0) = me_base m" "base_key s True (ev_tag half1) = me_base m"
    "me_fromDTC0 m = length (ev_subs half0)" "merged_of D half0 half1 (me_base m) (me_event m)"
    unfolding made_of_def by blast
  have "ev_tag half0 = me_base m" using h(3) by (simp add: base_key_def)
  moreover have "ev_tag half1 = me_base m + (if mergeMode s = EvenOdd then 1 else 0)"
    using h(4) by (auto simp: base_key_def diff_eq_eq split: if_splits)
  ultimately show ?thesis using h by blast
qed

subsection \<open>The limits\<close>

lemma abort_stuck_throws: "abort_stuck D b r k ms s \<noteq> (Ret (), s')"
  by (auto simp: abort_stuck_def seqE_def bindE_Ret throw_def)

lemma scan_half_Ret:
  "scan_half D now b None e s = (Ret (), s') \<Longrightarrow>
    s' = s \<and> cdiv (now - snd (snd e)) 1000000 \<le> uint (pairTimeoutMs s)"
  "scan_half D now b (Some r) e s \<noteq> (Ret (), s')"
  by (auto simp: scan_half_def Let_def bindE_Ret gets_def ret_def abort_stuck_throws split: prod.splits if_splits)

lemma scan_pending_Ret:
  assumes "scan_pending D now b None s = (Ret (), s')"
  shows "s' = s \<and> (\<forall>e \<in> set (mine (\<not> b) s). cdiv (now - snd (snd e)) 1000000 \<le> uint (pairTimeoutMs s))"
proof -
  have run: "forE (mine (\<not> b) s) (scan_half D now b None) s = (Ret (), s')"
    using assms by (simp add: scan_pending_def bindE_Ret gets_def)
  show ?thesis
    using forE_each [where J = "\<lambda>t. t = s" and Q = "\<lambda>e. cdiv (now - snd (snd e)) 1000000 \<le> uint (pairTimeoutMs s)", OF _ run]
      scan_half_Ret(1) by blast
qed

lemma scan_overflow_Ret:
  assumes "scan_overflow D now b s = (Ret (), s')"
  shows "s' = s \<and> length (mine (\<not> b) s) \<le> pairMaxPending s"
proof -
  have "\<not> length (mine (\<not> b) s) > pairMaxPending s"
  proof
    assume over: "length (mine (\<not> b) s) > pairMaxPending s"
    then have run: "forE (mine (\<not> b) s) (scan_half D now b (Some ''OVERFLOW'')) s = (Ret (), s')"
      using assms by (auto simp: scan_overflow_def scan_pending_def bindE_Ret gets_def whenE_def)
    have "mine (\<not> b) s \<noteq> []" using over by auto
    then obtain e es where "mine (\<not> b) s = e # es" by (cases "mine (\<not> b) s") auto
    then obtain t where "scan_half D now b (Some ''OVERFLOW'') e s = (Ret (), t)"
      using run by (auto simp: forE_def bindE_Ret)
    then show False using scan_half_Ret(2) by blast
  qed
  then show ?thesis using assms by (auto simp: scan_overflow_def bindE_Ret gets_def whenE_def ret_def)
qed

text \<open>
  A pass of \<open>mergeDetachedEvents\<close> that returns leaves no half that has waited longer than the pair
  time-out at the time of its scan, no side with more than the permitted number of waiting halves,
  and the published counts and oldest tags are those of the waiting halves.
\<close>
theorem merge_pass_limits:
  assumes "mergeDetachedEvents D es0 es1 acc s = (Ret ms, s')"
  shows "\<exists>ms0 s0 s1. foldE (\<lambda>e. stageDetachedHalf D e False) es0 acc s = (Ret ms0, s0)
    \<and> foldE (\<lambda>e. stageDetachedHalf D e True) es1 ms0 s0 = (Ret ms, s1)
    \<and> (let now = fst (d_clock (dio D) (tenv s1)) in
        (\<forall>e \<in> set (pendingDTC0 s') \<union> set (pendingDTC1 s'). cdiv (now - snd (snd e)) 1000000 \<le> uint (pairTimeoutMs s')))
    \<and> length (pendingDTC0 s') \<le> pairMaxPending s' \<and> length (pendingDTC1 s') \<le> pairMaxPending s'
    \<and> pendingDTC0Count s' = length (pendingDTC0 s') \<and> pendingDTC1Count s' = length (pendingDTC1 s')
    \<and> oldestPendingDTC0Tag s' = oldest_tag (pendingDTC0 s') \<and> oldestPendingDTC1Tag s' = oldest_tag (pendingDTC1 s')"
proof -
  obtain ms0 s0 t0 now t1 s1 s2 s3 s4 where fold: "foldE (\<lambda>e. stageDetachedHalf D e False) es0 acc s = (Ret ms0, s0)"
      "foldE (\<lambda>e. stageDetachedHalf D e True) es1 ms0 s0 = (Ret ms, t0)" and clock: "hw (steady_now D) t0 = (Ret now, t1)"
    and scans: "scan_pending D now True None t1 = (Ret (), s1)" "scan_pending D now False None s1 = (Ret (), s2)"
      "scan_overflow D now True s2 = (Ret (), s3)" "scan_overflow D now False s3 = (Ret (), s4)" "s' = publish_pending s4"
    using assms unfolding mergeDetachedEvents_def bindE_Ret seqE_def by (auto simp: ret_def modify_def)
  have now: "fst (d_clock (dio D) (tenv t0)) = now"
    using clock by (auto simp: hw_def steady_now_def call_def split: prod.splits)
  have "s4 = t1" "\<forall>e \<in> set (pendingDTC0 t1) \<union> set (pendingDTC1 t1). cdiv (now - snd (snd e)) 1000000 \<le> uint (pairTimeoutMs t1)"
    "length (pendingDTC0 t1) \<le> pairMaxPending t1" "length (pendingDTC1 t1) \<le> pairMaxPending t1"
    using scan_pending_Ret [OF scans(1)] scan_pending_Ret [OF scans(2)] scan_overflow_Ret [OF scans(3)]
      scan_overflow_Ret [OF scans(4)] by (auto simp: mine_def)
  then show ?thesis
    using fold now scans(5) by (intro exI [of _ ms0] exI [of _ s0] exI [of _ t0]) (simp add: publish_pending_def)
qed

text \<open>
  The merged event's header carries the base tag and the size without loss: the two tag fields
  give back a base tag below 2^48, and for a merged event the 24-bit byte count is the size of its
  buffer.
\<close>
theorem merged_header_roundtrip:
  assumes "baseTag < 2 ^ 48" and "n < 2 ^ 24"
  shows "push_bit 32 (ucast (eh_tag_high (merged_header half0 half1 fst_sub n baseTag)))
        OR ucast (eh_tag_low (merged_header half0 half1 fst_sub n baseTag)) = baseTag
    \<and> unat (eh_byte_count (merged_header half0 half1 fst_sub n baseTag)) = n"
proof
  have "take_bit 48 baseTag = baseTag"
  proof (rule word_unat_eq_iff [THEN iffD2])
    have "unat baseTag < 2 ^ 48" using assms(1) by (simp add: word_less_nat_alt)
    then show "unat (take_bit 48 baseTag) = unat baseTag" by (simp add: unsigned_take_bit_eq take_bit_nat_eq_self)
  qed
  then have low: "i < 48" if "bit baseTag i" for i
    using that by (metis bit_take_bit_iff)
  have m: "(0xFFFFFFFF :: u64) = mask 32" by (simp add: mask_eq_exp_minus_1)
  show "push_bit 32 (ucast (eh_tag_high (merged_header half0 half1 fst_sub n baseTag)))
        OR ucast (eh_tag_low (merged_header half0 half1 fst_sub n baseTag)) = baseTag"
  proof (rule bit_word_eqI)
    fix i assume "i < LENGTH(64)"
    show "bit (push_bit 32 (ucast (eh_tag_high (merged_header half0 half1 fst_sub n baseTag)))
        OR ucast (eh_tag_low (merged_header half0 half1 fst_sub n baseTag)) :: u64) i = bit baseTag i"
      using low [of i] by (cases "i < 32") (auto simp: merged_header_def m bit_simps)
  qed
  show "unat (eh_byte_count (merged_header half0 half1 fst_sub n baseTag)) = n"
    using assms(2) by (simp add: merged_header_def unat_of_nat take_bit_nat_eq_self)
qed

subsection \<open>Examples\<close>

definition sample_half :: "u64 \<Rightarrow> dtc_event" where
  "sample_half tag = \<lparr>ev_tag = tag, ev_byteCount = 26, ev_raw = replicate 26 7, ev_subs = [sample_subevent], ev_corrupt = False\<rparr>"

definition evenodd_thread :: "unit thread" where
  "evenodd_thread = (new_thread ())\<lparr>mergeMode := EvenOdd\<rparr>"

definition sample_halves :: "(dtc_event \<times> bool) list" where
  "sample_halves = [(sample_half 11, True), (sample_half 12, False), (sample_half 10, False)]"

lemma sample_pairing:
  obtains m s' where "stage_all quiet sample_halves evenodd_thread = (Ret [m], s')" and "me_base m = 10"
    and "map fst (pendingDTC0 s') = [12]"
proof -
  have "case stage_all quiet sample_halves evenodd_thread of
      (Ret ms, s') \<Rightarrow> map me_base ms = [10] \<and> map fst (pendingDTC0 s') = [12] | _ \<Rightarrow> False"
    by code_simp
  then obtain ms s' where r: "stage_all quiet sample_halves evenodd_thread = (Ret ms, s')"
    "map me_base ms = [10]" "map fst (pendingDTC0 s') = [12]"
    by (auto split: prod.splits outcome.splits)
  from r(2) obtain m where m: "ms = [m]" "me_base m = 10" by auto
  show ?thesis by (rule that [of m s']) (use r m in simp_all)
qed

lemma evenodd_fresh: "pendingDTC0 evenodd_thread = []" "pendingDTC1 evenodd_thread = []" "\<not> haveMergedTag evenodd_thread"
  "mergeMode evenodd_thread = EvenOdd"
  by (simp_all add: evenodd_thread_def new_thread_def)

theorem merge_conserves_halves_witness:
  "\<exists>ms s'. stage_all quiet sample_halves evenodd_thread = (Ret ms, s')
    \<and> mset (keys_of evenodd_thread False sample_halves) = {#12#} + mset (map me_base ms)"
proof -
  obtain m s' where r: "stage_all quiet sample_halves evenodd_thread = (Ret [m], s')" "map fst (pendingDTC0 s') = [12]"
    by (rule sample_pairing)
  from merge_conserves_halves [OF r(1) evenodd_fresh(1-3)] r show ?thesis by auto
qed

theorem merged_event_contents_witness:
  "\<exists>m s'. stage_all quiet sample_halves evenodd_thread = (Ret [m], s')
    \<and> (\<exists>half1. (half1, True) \<in> set sample_halves \<and> ev_tag half1 = 11)"
proof -
  obtain m s' where r: "stage_all quiet sample_halves evenodd_thread = (Ret [m], s')" "me_base m = 10"
    by (rule sample_pairing)
  from merged_event_contents [OF r(1) evenodd_fresh(1-3), of m] r evenodd_fresh(4) show ?thesis by auto
qed

theorem merge_pass_limits_witness:
  "\<exists>ms s'. mergeDetachedEvents quiet [sample_half 10] [sample_half 11] [] evenodd_thread = (Ret ms, s')
    \<and> length (pendingDTC0 s') \<le> pairMaxPending s'"
proof -
  have "case mergeDetachedEvents quiet [sample_half 10] [sample_half 11] [] evenodd_thread of
      (Ret ms, s') \<Rightarrow> True | _ \<Rightarrow> False"
    by code_simp
  then obtain ms s' where r: "mergeDetachedEvents quiet [sample_half 10] [sample_half 11] [] evenodd_thread = (Ret ms, s')"
    by (auto split: prod.splits outcome.splits)
  from merge_pass_limits [OF r] r show ?thesis by blast
qed

theorem merged_header_roundtrip_witness:
  "unat (eh_byte_count (merged_header (sample_half 10) (sample_half 11) sample_subevent 28 0xABCD12345678)) = 28"
  using merged_header_roundtrip [where baseTag = "0xABCD12345678" and n = 28] by simp

end
