(* ===== verification/Thread_Runs.thy ===== *)
theory Thread_Runs
  imports Detached_Thread Merge_Pairing
begin

section \<open>Runs of the test thread\<close>

text \<open>
  What holds of every run of \<open>detachedBufferTestThread\<close>: it ends stopped with its file closed and
  its exception reported, a restart clears exactly what it should, and two places where the thread does
  not do what its counters say (event mode, the handling time).
\<close>

subsection \<open>Every run ends stopped, with the file closed\<close>

lemma close_output_Ret: "\<exists>s'. close_output D s = (Ret (), s') \<and> fp s' = None \<and> running s' = running s
    \<and> error_text s' = error_text s \<and> tallies s' = tallies s \<and> eventsCount s' = eventsCount s"
  by (cases "fp s") (auto simp: close_output_def bindE_def gets_def ret_def seqE_def hw_def modify_def tallies_defs)

lemma hw_total:
  assumes "\<And>e. \<exists>a e'. m e = (Ret a, e')"
  shows "\<exists>a e. hw m s = (Ret a, s\<lparr>tenv := e\<rparr>)"
proof -
  obtain a e' where "m (tenv s) = (Ret a, e')" using assms by blast
  then have "hw m s = (Ret a, s\<lparr>tenv := e'\<rparr>)" by (simp add: hw_def)
  then show ?thesis by blast
qed

lemma attempt_status: "\<exists>a e'. attempt (readEVBBufferTestStatus D p) e = (Ret a, e')"
  by (auto simp: attempt_def readEVBBufferTestStatus_def read_register_def call_def bindE_def tryE_def ret_def throw_def
      split: option.splits prod.splits)

lemma steady_now_total: "\<exists>a e'. steady_now D e = (Ret a, e')"
  by (cases "d_clock (dio D) e") (simp add: steady_now_def call_def)

lemma stall_report_Ret: "\<exists>t e. stall_report D s = (Ret t, s\<lparr>tenv := e\<rparr>)"
proof (cases "inEVBMode s \<and> es_onsetValid (evb s)")
  case True
  obtain t e where "hw (steady_now D) s = (Ret t, s\<lparr>tenv := e\<rparr>)"
    using hw_total [of "steady_now D" s, OF steady_now_total] by blast
  then have "\<exists>x. stall_report D s = (Ret x, s\<lparr>tenv := e\<rparr>)"
    using True by (simp add: stall_report_def bindE_def gets_def ret_def)
  then show ?thesis by blast
next
  case False
  then have "stall_report D s = (Ret [], s\<lparr>tenv := tenv s\<rparr>)" by (auto simp: stall_report_def bindE_def gets_def ret_def)
  then show ?thesis by blast
qed

lemma merge_report_Ret: "\<exists>t e. merge_report D s = (Ret t, s\<lparr>tenv := e\<rparr>)"
proof (cases "mergeMode s = Off \<or> (if inEVBMode s then otherDTC s else None) = None")
  case True
  then have "\<exists>t. merge_report D s = (Ret t, s\<lparr>tenv := tenv s\<rparr>)"
    by (cases "mergeMode s = Off") (simp_all add: merge_report_def bindE_def gets_def ret_def)
  then show ?thesis by blast
next
  case False
  then obtain o' where o': "(if inEVBMode s then otherDTC s else None) = Some o'" "mergeMode s \<noteq> Off" by auto
  obtain r e where "hw (attempt (readEVBBufferTestStatus D (Some o'))) s = (Ret r, s\<lparr>tenv := e\<rparr>)"
    using hw_total [of "attempt (readEVBBufferTestStatus D (Some o'))" s, OF attempt_status] by blast
  then have "\<exists>t. merge_report D s = (Ret t, s\<lparr>tenv := e\<rparr>)"
    using o' by (simp add: merge_report_def bindE_def gets_def ret_def)
  then show ?thesis by blast
qed

lemma thread_abort_Ret:
  "\<exists>s' rest. thread_abort D m s = (Ret (), s') \<and> \<not> running s' \<and> fp s' = None
    \<and> error_text s' = error_text s @ ''Exception caught. Exiting detachedBufferTestThread().'' @ [CHR 0x0A]
        @ ''Error message: '' @ m @ [CHR 0x0A] @ rest
    \<and> tallies s' = tallies s \<and> eventsCount s' = eventsCount s"
proof -
  let ?s1 = "s\<lparr>running := False\<rparr>"
  obtain e1 where spy: "bindE (gets thisDTC) (\<lambda>p. case p of None \<Rightarrow> ret () | Some d \<Rightarrow> hw (modify (d_spy (dio D) d))) ?s1
      = (Ret (), ?s1\<lparr>tenv := e1\<rparr>)"
  proof (cases "thisDTC s")
    case None
    then show ?thesis by (intro that [of "tenv s"]) (simp add: bindE_def gets_def ret_def)
  next
    case (Some d)
    then show ?thesis by (intro that [of "d_spy (dio D) d (tenv s)"]) (simp add: bindE_def gets_def hw_def modify_def)
  qed
  obtain s2 where close: "close_output D (?s1\<lparr>tenv := e1\<rparr>) = (Ret (), s2)" "fp s2 = None" "\<not> running s2"
      "error_text s2 = error_text s" "tallies s2 = tallies s" "eventsCount s2 = eventsCount s"
    using close_output_Ret [of D "?s1\<lparr>tenv := e1\<rparr>"] by (auto simp: tallies_defs)
  obtain t2 e2 where stall: "stall_report D s2 = (Ret t2, s2\<lparr>tenv := e2\<rparr>)" using stall_report_Ret [of D s2] by blast
  obtain t3 e3 where merge: "merge_report D (s2\<lparr>tenv := e2\<rparr>) = (Ret t3, s2\<lparr>tenv := e2\<rparr>\<lparr>tenv := e3\<rparr>)"
    using merge_report_Ret [of D "s2\<lparr>tenv := e2\<rparr>"] by blast
  have "thread_abort D m s = (Ret (), (s2\<lparr>tenv := e3\<rparr>)\<lparr>error_text := error_text s
       @ ''Exception caught. Exiting detachedBufferTestThread().'' @ [CHR 0x0A]
       @ ''Error message: '' @ m @ [CHR 0x0A] @ t2 @ t3\<rparr>)"
    unfolding thread_abort_def seqE_def
    using spy close stall merge by (simp add: bindE_def modify_def)
  moreover have "tallies ((s2\<lparr>tenv := e3\<rparr>)\<lparr>error_text := x\<rparr>) = tallies s" for x
    using close(5) by (simp add: tallies_defs)
  ultimately show ?thesis using close by (intro exI conjI) (assumption | simp)+
qed

lemma thread_outcome:
  "case detachedBufferTestThread D n s of
     (Ret _, s') \<Rightarrow> \<not> running s' \<and> fp s' = None
   | (Throw _, _) \<Rightarrow> False
   | _ \<Rightarrow> True"
proof (cases "thread_body D n s")
  case (Pair r t)
  show ?thesis
  proof (cases r)
    case (Ret u)
    then obtain t1 t2 where "close_output D t1 = (Ret (), t2)" "t = t2\<lparr>running := False\<rparr>"
      using Pair by (auto simp: thread_body_def seqE_Ret modify_def)
    then have "\<not> running t \<and> fp t = None" using close_output_Ret [of D t1] by auto
    then show ?thesis by (simp add: detachedBufferTestThread_def tryE_def Pair Ret)
  next
    case (Throw m)
    obtain s' where "thread_abort D m t = (Ret (), s')" "\<not> running s'" "fp s' = None"
      using thread_abort_Ret by blast
    then show ?thesis by (simp add: detachedBufferTestThread_def tryE_def Pair Throw)
  qed (simp_all add: detachedBufferTestThread_def tryE_def Pair)
qed

text \<open> C29. However the thread ends - the exit flag, a lost DTC, or any exception thrown by the start, the
  restarts or the loop - it ends with the running flag cleared and the data file closed, and no exception
  leaves it. The excluded outcomes are undefined behaviour and a loop that is still going round.\<close>

theorem thread_ends_stopped:
  "case detachedBufferTestThread D n s of
     (Ret _, s') \<Rightarrow> \<not> running s' \<and> fp s' = None
   | (Throw _, _) \<Rightarrow> False
   | _ \<Rightarrow> True"
  by (rule thread_outcome)

text \<open> An exception that leaves the body is caught by the handler, which itself cannot fail: the
  exception's message is appended to the error text, and no counter of the run is changed.\<close>

theorem abort_reports_exception:
  assumes "thread_body D n s = (Throw m, t)"
  shows "\<exists>s' rest. detachedBufferTestThread D n s = (Ret (), s')
    \<and> error_text s' = error_text t @ ''Exception caught. Exiting detachedBufferTestThread().'' @ [CHR 0x0A]
        @ ''Error message: '' @ m @ [CHR 0x0A] @ rest
    \<and> tallies s' = tallies t \<and> eventsCount s' = eventsCount t"
proof -
  have "detachedBufferTestThread D n s = thread_abort D m t"
    by (simp add: detachedBufferTestThread_def tryE_def assms)
  then show ?thesis using thread_abort_Ret [of D m t] by auto
qed

subsection \<open>What handling a subevent leaves alone\<close>

definition outside :: "'e thread \<Rightarrow> _" where
  "outside s = (evb s, pendingDTC0 s, pendingDTC1 s, running s, thisDTC s, otherDTC s, mergeMode s, inEVBMode s,
     inSubeventMode s, activeMatch s, skipBy32 s)"

lemma keeps_add_at: "(\<And>f s. g (upd f s) = g s) \<Longrightarrow> keeps (\<lambda>s. g s = x) (add_at sel upd i d)"
  by (simp add: keeps_def add_at_def)

lemma keeps_add_source: "(\<And>f s. g (upd f s) = g s) \<Longrightarrow> keeps (\<lambda>s. g s = x) (add_source sel upd key i d)"
  by (simp add: keeps_def add_source_def Let_def)

definition tagging :: "'e thread \<Rightarrow> _" where
  "tagging s = (nextEventWindowTag s, mismatchedEventTagsCount s, outside s)"

lemma keeps_fun: "(\<And>x. keeps (\<lambda>s. g s = x) m) \<Longrightarrow> keeps (\<lambda>s. h (g s) = y) m"
  by (force simp: keeps_def)

lemma keeps_tagging_account: "keeps (\<lambda>s. tagging s = x) (account_subevent D se key)"
proof -
  have up: "tagging (rocFragmentsCount_update f s) = tagging s" "tagging (rocPayloadByteCount_update f s) = tagging s"
    "tagging (rocPayloadEmptyCount_update f s) = tagging s" "tagging (rocHeaderTimeoutsCount_update f s) = tagging s"
    "tagging (rocFragmentTimeoutsCount_update f s) = tagging s" "tagging (rocFragmentErrorsCount_update f s) = tagging s"
    "tagging (rocEmulatorDataErrorsCount_update f s) = tagging s" "tagging (rocEmulatorPacketCountErrorsCount_update f s) = tagging s"
    "tagging (evbRocFragmentsBySource_update g s) = tagging s" "tagging (evbRocPayloadBytesBySource_update g s) = tagging s"
    for f g and s :: "'a thread" by (simp_all add: tagging_def outside_def)
  have err: "keeps (\<lambda>s. tagging s = x) (dataError b src ewt w)" "keeps (\<lambda>s. tagging s = x) (packetCountError b src ewt w)" for b src ewt w
    unfolding dataError_def packetCountError_def noteError_def payload_dump_def le16_def Let_def
    by (intro inv_intros keeps_modify keeps_add_at up; simp add: tagging_def outside_def)+
  have check: "keeps (\<lambda>s. tagging s = x) (checkROCEmulatorBlock b src ewt)" for b src ewt
    unfolding checkROCEmulatorBlock_def check_packets_def check_words_def check_pair_def le16_def Let_def
    by (intro inv_intros keeps_modify err; simp add: tagging_def outside_def)
  have save: "keeps (\<lambda>s. tagging s = x) (save_bytes sv raw n)" for sv raw n
    unfolding save_bytes_def by (intro inv_intros keeps_modify; simp add: tagging_def outside_def)
  have latch: "keeps (\<lambda>s. tagging s = x) (latch r)" for r
    by (simp add: keeps_def latch_def tagging_def outside_def Let_def)
  have blocks: "keeps (\<lambda>s. tagging s = x) (handle_blocks se sv key)" for sv
    unfolding handle_blocks_def handle_block_def count_fragment_def count_payload_def Let_def
    by (intro inv_intros keeps_modify keeps_add_at keeps_add_source up save check; simp add: tagging_def outside_def)
  show ?thesis
    unfolding account_subevent_def note_start_def save_header_def link_status_def
    by (intro inv_intros keeps_modify keeps_hw keeps_add_at up save latch blocks)
      (simp_all add: tagging_def outside_def note_subrun_def Let_def)
qed

lemma keeps_outside: "keeps (\<lambda>s. outside s = x) (handleDetachedSubevent D se off grp)"
proof -
  have accept: "keeps (\<lambda>s. outside s = x) (accept_tag plan key t)" for plan key t
    by (simp add: keeps_def accept_tag_def outside_def)
  have follow: "keeps (\<lambda>s. outside s = x) (follow_tag plan key rx o' g)" for plan key rx o' g
    unfolding follow_tag_def note_mismatch_def Let_def
    by (intro inv_intros keeps_modify accept) (auto simp: outside_def sync_tag_def advance_tag_def Let_def)
  have plan: "keeps (\<lambda>s. outside s = x) (plan_tags D)"
    unfolding plan_tags_def by (intro inv_intros keeps_hw) (simp_all add: outside_def)
  have acc: "keeps (\<lambda>s. outside s = x) (account_subevent D se key)" for key
    using keeps_fun [where h = "\<lambda>(_, _, y). y", OF keeps_tagging_account] by (simp add: tagging_def)
  show ?thesis
    unfolding handleDetachedSubevent_def Let_def
    by (intro inv_intros keeps_modify follow plan acc) (simp add: outside_def)
qed

subsection \<open>Event mode\<close>

text \<open>Without tracking of sources the tag check does not depend on the hardware.\<close>

lemma plan_off:
  assumes "\<not> by_source s"
  shows "plan_tags D s = (Ret \<lparr>tp_sources = 1, tp_stride = (if skipBy32 s then 32 else 1), tp_bySource = False\<rparr>, s)"
  using assms
  by (auto simp: plan_tags_def bindE_def gets_def hw_def num_sources_def ret_def by_source_def split: option.splits)

definition off_track :: "u64 \<Rightarrow> 'e thread \<Rightarrow> bool" where
  "off_track T s \<longleftrightarrow> \<not> by_source s \<and> nextEventWindowTag s \<noteq> T"

lemma off_track_subevent:
  fixes s :: "'e thread"
  assumes "off_track (se_tag se) s" and run: "handleDetachedSubevent D se 0 0 s = (Ret (), s')"
  shows "off_track (se_tag se) s' \<and> mismatchedEventTagsCount s' = mismatchedEventTagsCount s + 1 \<and> \<not> activeMatch s"
proof -
  let ?t = "se_tag se" and ?s1 = "s\<lparr>subeventsCount := subeventsCount s + 1\<rparr>"
  let ?stride = "if skipBy32 s then 32 else 1 :: u64"
  let ?plan = "\<lparr>tp_sources = 1, tp_stride = ?stride, tp_bySource = False\<rparr>"
  have off: "\<not> by_source ?s1" and next1: "nextEventWindowTag ?s1 \<noteq> ?t"
    using assms(1) by (simp_all add: off_track_def by_source_def merging_def)
  have plan: "plan_tags D ?s1 = (Ret ?plan, ?s1)" using plan_off [OF off, of D] by simp
  obtain s2 where follow: "follow_tag ?plan (source_key 0 (se_source se)) ?t 0 0 ?s1 = (Ret (), s2)"
    and acc: "account_subevent D se (source_key 0 (se_source se)) s2 = (Ret (), s')"
    using run by (auto simp: handleDetachedSubevent_def Let_def seqE_Ret bindE_Ret modify_def plan)
  have sync: "sync_tag ?t ?s1 = ?s1" using off by (simp add: sync_tag_def by_source_def)
  obtain s3 where miss: "note_mismatch ?t ?t 0 0 ?s1 = (Ret (), s3)" and s2: "s2 = s3\<lparr>nextEventWindowTag := ?t + ?stride\<rparr>"
    using follow next1 by (auto simp: follow_tag_def Let_def seqE_Ret bindE_Ret modify_def sync accept_tag_def whenE_def advance_tag_def)
  have m3: "mismatchedEventTagsCount s3 = mismatchedEventTagsCount s + 1" "\<not> activeMatch s" "outside s3 = outside s"
    using miss by (auto simp: note_mismatch_def seqE_Ret bindE_Ret modify_def gets_def whenE_def throw_def ret_def outside_def
        split: if_splits)
  have "tagging s' = tagging s2" using keeps_Ret [OF keeps_tagging_account refl acc] .
  then have "nextEventWindowTag s' = ?t + ?stride" "mismatchedEventTagsCount s' = mismatchedEventTagsCount s + 1" "outside s' = outside s"
    using s2 m3 by (auto simp: tagging_def outside_def)
  moreover have "?t + ?stride \<noteq> ?t" by simp
  moreover have "by_source s' = by_source s"
    using \<open>outside s' = outside s\<close> by (simp add: outside_def by_source_def merging_def)
  ultimately show ?thesis using m3 off assms(1) by (simp add: off_track_def)
qed

lemma off_track_subevents:
  fixes s :: "'e thread"
  assumes "off_track T s" and "\<forall>sub \<in> set subs. se_tag sub = T"
    and "forE subs (\<lambda>sub. handleDetachedSubevent D sub 0 0) s = (Ret (), s')"
  shows "mismatchedEventTagsCount s' = mismatchedEventTagsCount s + of_nat (length subs) \<and> (subs \<noteq> [] \<longrightarrow> \<not> activeMatch s)"
  using assms
proof (induction subs arbitrary: s)
  case (Cons sub subs)
  then obtain t where t: "handleDetachedSubevent D sub 0 0 s = (Ret (), t)"
    "forE subs (\<lambda>sub. handleDetachedSubevent D sub 0 0) t = (Ret (), s')"
    by (auto simp: forE_def bindE_Ret)
  have tag: "se_tag sub = T" using Cons.prems(2) by simp
  have step: "off_track T t" "mismatchedEventTagsCount t = mismatchedEventTagsCount s + 1" "\<not> activeMatch s"
    using off_track_subevent [OF _ t(1)] Cons.prems(1) tag by auto
  show ?case using Cons.IH [OF step(1) _ t(2)] Cons.prems(2) step by simp
qed (simp add: forE_def ret_def)

text \<open> In event mode without tag tracking by source, the expected tag is moved past the event before
  its subevents are handled, and each subevent is then compared with the moved tag: an event whose
  subevents all carry its own tag counts one mismatch for every subevent, however good the data are. With
  an active match requested, the first such event cannot be handled at all (the test throws).\<close>

theorem event_mode_always_mismatches:
  fixes s :: "'e thread"
  assumes "handle_event D e s = (Ret (), s')" and "\<not> inEVBMode s" and "mergeMode s = Off"
    and "\<forall>sub \<in> set (ev_subs e). se_tag sub = ev_tag e"
  shows "mismatchedEventTagsCount s' = mismatchedEventTagsCount s
      + (if nextEventWindowTag s \<noteq> ev_tag e then 1 else 0) + of_nat (length (ev_subs e))
    \<and> (ev_subs e \<noteq> [] \<longrightarrow> \<not> activeMatch s)"
proof -
  let ?s1 = "s\<lparr>eventsCount := eventsCount s + 1\<rparr>"
  let ?s2 = "if nextEventWindowTag ?s1 \<noteq> ev_tag e
             then ?s1\<lparr>mismatchedEventTagsCount := mismatchedEventTagsCount ?s1 + 1,
                    mismatchedEventTagJumps := mismatchedEventTagJumps ?s1 @ [(nextEventWindowTag ?s1, ev_tag e)]\<rparr>
             else ?s1"
  let ?s3 = "?s2\<lparr>nextEventWindowTag := ev_tag e + 1\<rparr>"
  have run: "forE (ev_subs e) (\<lambda>sub. handleDetachedSubevent D sub 0 0) ?s3 = (Ret (), s')"
    using assms(1) unfolding handle_event_def seqE_def bindE_def modify_def prod.case outcome.case .
  have "off_track (ev_tag e) ?s3" using assms(2,3) by (simp add: off_track_def by_source_def merging_def)
  from off_track_subevents [OF this assms(4) run] show ?thesis by (auto simp: algebra_simps)
qed

subsection \<open>The time spent handling events\<close>

lemma keeps_evb_subevent: "keeps (\<lambda>s. evb s = v) (handleDetachedSubevent D se off grp)"
  using keeps_fun [where h = fst, OF keeps_outside] by (simp add: outside_def)

lemma keeps_each_event:
  assumes "\<And>x. x \<in> set xs \<Longrightarrow> keeps I (f x)" and "\<And>s e. I s \<Longrightarrow> I (s\<lparr>tenv := e\<rparr>)"
  shows "keeps I (each_event D xs f)"
  unfolding each_event_def by (intro inv_intros keeps_hw assms)

lemma keeps_evb_merged: "keeps (\<lambda>s. evb s = v) (handleMergedDetachedEvents D ms)"
  unfolding handleMergedDetachedEvents_def handle_merged_subevents_def Let_def
  by (intro inv_intros keeps_hw keeps_modify keeps_evb_subevent; simp)

lemma keeps_evb_stage: "keeps (\<lambda>s. evb s = v) (stageDetachedHalf D half side acc)"
  unfolding stageDetachedHalf_def abortWith_def merge_pair_def buildMergedDetachedEvent_def merge_halves_def Let_def
  by (intro inv_intros keeps_hw keeps_modify; simp add: upd_mine_def note_merged_def)

lemma keeps_evb_merge: "keeps (\<lambda>s. evb s = v) (mergeDetachedEvents D es0 es1 acc)"
  unfolding mergeDetachedEvents_def scan_pending_def scan_overflow_def scan_half_def abort_stuck_def Let_def
  by (intro inv_intros keeps_hw keeps_modify keeps_evb_stage; simp add: publish_pending_def)

text \<open> The statistic that is to hold the time spent in merging and handling (H:235) is left unchanged by
  every round that handles an event: the time is only added in rounds that found nothing to handle.\<close>

theorem handling_time_not_counted:
  assumes "evb_data D events events1 t s = (Ret Onward, s')"
  shows "es_handlingNs (evb s') = es_handlingNs (evb s)"
proof -
  let ?joined = "partner_dtc s \<noteq> None"
  obtain merged s1 where m: "(if ?joined then mergeDetachedEvents D events events1 [] else ret []) s = (Ret merged, s1)"
    and h: "(if if ?joined then merged = [] else events = []
       then bindE (lap D (\<lambda>ns v. v\<lparr>es_handlingNs := es_handlingNs v + ns\<rparr>) t) (\<lambda>_. ret Continue)
       else bindE (if ?joined then handleMergedDetachedEvents D merged else each_event D events (handle_evb_event D))
              (\<lambda>_. ret Onward)) s1 = (Ret Onward, s')"
    using assms unfolding evb_data_def bindE_Ret gets_def by (auto simp del: not_None_eq)
  have k: "keeps (\<lambda>s. evb s = evb s1) (if ?joined then handleMergedDetachedEvents D merged else each_event D events (handle_evb_event D))"
    unfolding handle_evb_event_def
    by (intro keeps_each_event inv_intros keeps_modify keeps_evb_subevent keeps_evb_merged; simp)
  have "evb s1 = evb s"
    using keeps_Ret [OF keeps_evb_merge refl, of D events events1 "[]" s] m by (auto simp: ret_def split: if_splits)
  moreover obtain u where run: "(if ?joined then handleMergedDetachedEvents D merged else each_event D events (handle_evb_event D)) s1 = (Ret u, s')"
    using h by (auto simp: bindE_Ret ret_def split: if_splits)
  ultimately show ?thesis using keeps_Ret [OF k refl run] by simp
qed

subsection \<open>A restart\<close>

lemma keeps_device: "(\<And>s e. I s \<Longrightarrow> I (s\<lparr>tenv := e\<rparr>)) \<Longrightarrow> keeps I (device D d x)"
  unfolding device_def by (rule keeps_hw)

lemma keeps_on_dtc: "(\<And>d. keeps I (f d)) \<Longrightarrow> keeps I (on_dtc p f)"
  by (cases p) (simp_all add: on_dtc_def keeps_ret)

definition tracking_cleared :: "'e thread \<Rightarrow> bool" where
  "tracking_cleared s \<longleftrightarrow> eventsCount s = 0 \<and> subeventsCount s = 0 \<and> mismatchedEventTagsCount s = 0
     \<and> mismatchedEventTagJumps s = [] \<and> evbSourcesSeenForTag s = [] \<and> \<not> evbTagSynced s
     \<and> evbRocFragmentsBySource s = [] \<and> evbRocPayloadBytesBySource s = [] \<and> error_text s = []"

definition counts_cleared :: "'e thread \<Rightarrow> bool" where
  "counts_cleared s \<longleftrightarrow> rocFragmentsCount s = replicate 6 0 \<and> rocPayloadByteCount s = replicate 6 0
     \<and> rocPayloadEmptyCount s = replicate 6 0 \<and> rocHeaderTimeoutsCount s = replicate 6 0
     \<and> rocFragmentTimeoutsCount s = replicate 6 0 \<and> rocFragmentErrorsCount s = replicate 6 0
     \<and> rocEmulatorDataErrorsCount s = replicate 6 0 \<and> rocEmulatorPacketCountErrorsCount s = replicate 6 0
     \<and> rocEmulatorNextCounter s = [] \<and> rocEmulatorExpectedPackets s = - 1
     \<and> pendingDTC0 s = [] \<and> pendingDTC1 s = [] \<and> \<not> haveMergedTag s \<and> mergedEventsCount s = 0
     \<and> totalSubeventBytesTransferred s = 0 \<and> transferStartTime s = None"

definition mailbox :: "'e thread \<Rightarrow> _" where
  "mailbox s = (expectedEventTag s, nextEventWindowTag s, saveBinaryData s, doNotResetCounters s)"

lemma keeps_reset_assembly:
  "(\<And>s e. I s \<Longrightarrow> I (s\<lparr>tenv := e\<rparr>)) \<Longrightarrow> keeps I (reset_assembly D)"
  unfolding reset_assembly_def by (intro inv_intros keeps_on_dtc keeps_device)

lemma keeps_latch_links:
  assumes "\<And>s e. I s \<Longrightarrow> I (s\<lparr>tenv := e\<rparr>)" and "\<And>s m. I s \<Longrightarrow> I (s\<lparr>rocLinkEnabledLatch := m\<rparr>)"
  shows "keeps I (latch_links D d)"
  unfolding latch_links_def Let_def by (intro inv_intros keeps_hw keeps_modify assms)

lemma keeps_restart_release:
  assumes "\<And>s e. I s \<Longrightarrow> I (s\<lparr>tenv := e\<rparr>)" and "\<And>s m. I s \<Longrightarrow> I (s\<lparr>rocLinkEnabledLatch := m\<rparr>)"
    and "\<And>s b. I s \<Longrightarrow> I (s\<lparr>releaseAllComplete := b\<rparr>)"
  shows "keeps I (restart_release D)"
proof -
  have "keeps I (modify (\<lambda>s. s\<lparr>releaseAllComplete := True, rocLinkEnabledLatch := []\<rparr>))"
    by (rule keeps_modify) (intro assms)
  then show ?thesis
    unfolding restart_release_def
    by (intro inv_intros keeps_on_dtc keeps_device keeps_latch_links keeps_modify [where f = "\<lambda>s. s\<lparr>releaseAllComplete := _\<rparr>"] assms)
qed

lemma open_output_Ret:
  assumes "open_output D s = (Ret (), s')"
  shows "fp s' = Some [] \<and> mailbox s' = mailbox s"
proof -
  have "keeps (\<lambda>s. mailbox s = m) (output_name D)" for m
    unfolding output_name_def Let_def by (intro inv_intros keeps_hw keeps_modify; simp add: mailbox_def)
  note name = keeps_Ret [OF this refl]
  obtain s1 s2 s3 dir b where steps: "output_name D s = (Ret (), s1)" "hw (call_try (d_dataDir (dio D))) s1 = (Ret dir, s2)"
    "hw (call (d_fopen (dio D) (dir @ ''/'' @ saveBinaryDataFilename s2))) s2 = (Ret b, s3)"
    "(if b then modify (\<lambda>s. s\<lparr>fp := Some []\<rparr>)
     else seqE (modify (\<lambda>s. s\<lparr>fp := None\<rparr>))
               (throw (''Failed to open file to save macro output '' @ [CHR 0x27] @ (dir @ ''/'' @ saveBinaryDataFilename s2)
                       @ [CHR 0x27] @ ''...'' @ [CHR 0x0A]))) s3 = (Ret (), s')"
    using assms unfolding open_output_def seqE_Ret bindE_Ret gets_def Let_def by auto
  show ?thesis
    using name [OF steps(1)] hw_Ret [OF steps(2)] hw_Ret [OF steps(3)] steps(4)
    by (auto simp: modify_def seqE_def bindE_def throw_def mailbox_def split: if_splits)
qed

lemma close_output_same: "close_output D s = (r, s') \<Longrightarrow> fp s' = None \<and> mailbox s' = mailbox s"
  by (cases "fp s") (auto simp: close_output_def bindE_def gets_def ret_def seqE_def hw_def modify_def mailbox_def)

lemma restart_counters_Ret:
  assumes "restart_counters D l s = (Ret l', s')"
  shows "tracking_cleared s' \<and> counts_cleared s' \<and> mailbox s' = mailbox s
    \<and> fp s' = (if saveBinaryData s then Some [] else None)"
proof -
  obtain s1 s2 s3 s4 s5 where steps: "close_output D s = (Ret (), s1)"
    "bindE (gets saveBinaryData) (\<lambda>sv. whenE sv (open_output D)) s1 = (Ret (), s2)"
    "s3 = reset_tracking s2" "reset_assembly D s3 = (Ret (), s4)"
    "(if inEVBMode s4 \<and> mergeMode s4 \<noteq> Off then on_dtc (otherDTC s4) (\<lambda>o'. device D o' ResetEVBAssembly)
            else ret ()) s4 = (Ret (), s5)" "s' = reset_counts (resetDetachedMergeState s5)"
    using assms unfolding restart_counters_def bindE_Ret by (auto simp: modify_def gets_def ret_def)
  let ?I = "\<lambda>t. tracking_cleared t \<and> mailbox t = mailbox s \<and> fp t = (if saveBinaryData s then Some [] else None)"
  have s1: "fp s1 = None" "mailbox s1 = mailbox s" using close_output_same [OF steps(1)] by simp_all
  have "saveBinaryData s1 = saveBinaryData s" using s1(2) by (simp add: mailbox_def)
  then have s2: "mailbox s2 = mailbox s" "fp s2 = (if saveBinaryData s then Some [] else None)"
    using steps(2) s1 open_output_Ret [of D s1 s2] by (auto simp: bindE_Ret gets_def whenE_Ret split: if_splits)
  then have "?I s3" unfolding steps(3) by (simp add: reset_tracking_def tracking_cleared_def mailbox_def)
  then have "?I s4"
    by (rule keeps_Ret [OF keeps_reset_assembly _ steps(4), rotated]) (simp add: tracking_cleared_def mailbox_def)
  moreover have k: "keeps ?I (if inEVBMode s4 \<and> mergeMode s4 \<noteq> Off then on_dtc (otherDTC s4) (\<lambda>o'. device D o' ResetEVBAssembly)
            else ret ())"
    by (intro inv_intros keeps_on_dtc keeps_device) (simp add: tracking_cleared_def mailbox_def)
  ultimately have "?I s5" using keeps_Ret [OF k _ steps(5)] by blast
  then show ?thesis
    unfolding steps(6)
    by (simp add: tracking_cleared_def mailbox_def counts_cleared_def reset_counts_def resetDetachedMergeState_def)
qed

lemma restart_steps:
  assumes "restart D l s = (Ret l', s')"
  obtains s1 s2 where "tallies s1 = tallies s" "outside s1 = outside s" "eventsCount s1 = eventsCount s"
    "fp s1 = fp s" "expectedEventTag s1 = expectedEventTag s" "nextEventWindowTag s1 = expectedEventTag s"
    "saveBinaryData s1 = saveBinaryData s" "doNotResetCounters s1 = doNotResetCounters s"
    "(if \<not> doNotResetCounters s1 then restart_counters D l
      else if \<not> saveBinaryData s1 then bindE (close_output D) (\<lambda>_. ret l) else ret l) s1 = (Ret l', s2)"
    "restart_release D (clear_stalls (s2\<lparr>resetStartEventTag := False\<rparr>)) = (Ret (), s')"
proof -
  obtain u t s2 where t: "hw (call_try (d_logStatus (dio D))) s = (Ret u, t)"
    and m: "(if \<not> doNotResetCounters (t\<lparr>nextEventWindowTag := expectedEventTag t\<rparr>)
      then restart_counters D l
      else if \<not> saveBinaryData (t\<lparr>nextEventWindowTag := expectedEventTag t\<rparr>) then bindE (close_output D) (\<lambda>_. ret l) else ret l)
        (t\<lparr>nextEventWindowTag := expectedEventTag t\<rparr>) = (Ret l', s2)"
    and r: "restart_release D (clear_stalls (s2\<lparr>resetStartEventTag := False\<rparr>)) = (Ret (), s')"
    using assms unfolding restart_def bindE_Ret by (auto simp: modify_def gets_def ret_def)
  obtain e where "t = s\<lparr>tenv := e\<rparr>" using hw_Ret [OF t] by blast
  then show ?thesis
    by (intro that [OF _ _ _ _ _ _ _ _ m r]) (simp_all add: tallies_defs outside_def)
qed

definition fresh_restart :: "'e thread \<Rightarrow> 'e thread \<Rightarrow> bool" where
  "fresh_restart s t \<longleftrightarrow> tracking_cleared t \<and> counts_cleared t \<and> nextEventWindowTag t = expectedEventTag s
     \<and> \<not> resetStartEventTag t \<and> fp t = (if saveBinaryData s then Some [] else None)"

text \<open> A restart that is to reset the counters leaves every counter, the tag tracking, the merge state and
  the error text as at the start, takes the new expected tag from the mailbox, lowers the restart flag, and
  has a freshly opened file exactly if data are to be saved.\<close>

theorem restart_clears:
  assumes "restart D l s = (Ret l', s')" and "\<not> doNotResetCounters s"
  shows "fresh_restart s s'"
proof -
  from assms(1) obtain s1 s2 where st: "expectedEventTag s1 = expectedEventTag s" "nextEventWindowTag s1 = expectedEventTag s"
    "saveBinaryData s1 = saveBinaryData s" "doNotResetCounters s1 = doNotResetCounters s"
    "(if \<not> doNotResetCounters s1 then restart_counters D l
      else if \<not> saveBinaryData s1 then bindE (close_output D) (\<lambda>_. ret l) else ret l) s1 = (Ret l', s2)"
    "restart_release D (clear_stalls (s2\<lparr>resetStartEventTag := False\<rparr>)) = (Ret (), s')"
    by (rule restart_steps)
  have "restart_counters D l s1 = (Ret l', s2)" using st(4,5) assms(2) by simp
  from restart_counters_Ret [OF this] have "fresh_restart s (clear_stalls (s2\<lparr>resetStartEventTag := False\<rparr>))"
    using st by (simp add: fresh_restart_def clear_stalls_def tracking_cleared_def counts_cleared_def mailbox_def)
  then show ?thesis
    by (rule keeps_Ret [OF keeps_restart_release _ st(6), rotated 3])
      (simp_all add: fresh_restart_def tracking_cleared_def counts_cleared_def)
qed

definition kept_restart :: "'e thread \<Rightarrow> 'e thread \<Rightarrow> bool" where
  "kept_restart s t \<longleftrightarrow> tallies t = tallies s \<and> eventsCount t = eventsCount s
     \<and> nextEventWindowTag t = expectedEventTag s \<and> \<not> resetStartEventTag t
     \<and> fp t = (if saveBinaryData s then fp s else None)
     \<and> pendingDTC0 t = pendingDTC0 s \<and> pendingDTC1 t = pendingDTC1 s"

text \<open> A restart that is to keep the counters changes none of them and no pending half event, takes the new
  expected tag, lowers the restart flag, and keeps the open file exactly if data are still to be saved.\<close>

theorem restart_keeps_counters:
  assumes "restart D l s = (Ret l', s')" and "doNotResetCounters s"
  shows "kept_restart s s'"
proof -
  from assms(1) obtain s1 s2 where st: "tallies s1 = tallies s" "outside s1 = outside s" "eventsCount s1 = eventsCount s"
    "fp s1 = fp s" "nextEventWindowTag s1 = expectedEventTag s" "saveBinaryData s1 = saveBinaryData s"
    "doNotResetCounters s1 = doNotResetCounters s"
    "(if \<not> doNotResetCounters s1 then restart_counters D l
      else if \<not> saveBinaryData s1 then bindE (close_output D) (\<lambda>_. ret l) else ret l) s1 = (Ret l', s2)"
    "restart_release D (clear_stalls (s2\<lparr>resetStartEventTag := False\<rparr>)) = (Ret (), s')"
    by (rule restart_steps)
  have "tallies s2 = tallies s1 \<and> eventsCount s2 = eventsCount s1 \<and> nextEventWindowTag s2 = nextEventWindowTag s1
      \<and> pendingDTC0 s2 = pendingDTC0 s1 \<and> pendingDTC1 s2 = pendingDTC1 s1
      \<and> fp s2 = (if saveBinaryData s1 then fp s1 else None)"
  proof (cases "saveBinaryData s1")
    case True
    then show ?thesis using st(7,8) assms(2) by (simp add: ret_def)
  next
    case False
    then have "close_output D s1 = (Ret (), s2)" using st(7,8) assms(2) by (auto simp: bindE_Ret ret_def)
    then show ?thesis
      using False by (cases "fp s1") (auto simp: close_output_def bindE_def gets_def ret_def seqE_def hw_def modify_def tallies_defs)
  qed
  then have "kept_restart s (clear_stalls (s2\<lparr>resetStartEventTag := False\<rparr>))"
    using st by (simp add: kept_restart_def clear_stalls_def tallies_defs outside_def)
  then show ?thesis
    by (rule keeps_Ret [OF keeps_restart_release _ st(9), rotated 3]) (simp_all add: kept_restart_def tallies_defs)
qed

subsection \<open>Examples\<close>

text \<open>A thread in event mode expecting tag 10, and an event with that tag and one subevent.\<close>

definition event_mode_thread :: "unit thread" where
  "event_mode_thread = counting_thread\<lparr>inEVBMode := False, nextEventWindowTag := 10\<rparr>"

definition tag10_event :: dtc_event where
  "tag10_event = \<lparr>ev_tag = 10, ev_byteCount = 0, ev_raw = [], ev_subs = [sample_subevent], ev_corrupt = False\<rparr>"

lemma run_to: "fst p = Ret a \<Longrightarrow> p = (Ret a, snd p)"
  by (simp add: prod_eq_iff)

theorem event_mode_always_mismatches_witness:
  "mismatchedEventTagsCount (snd (handle_event quiet tag10_event event_mode_thread)) = 1"
proof -
  have run: "fst (handle_event quiet tag10_event event_mode_thread) = Ret ()" by code_simp
  show ?thesis
    using event_mode_always_mismatches [OF run_to [OF run]]
    by (simp add: event_mode_thread_def counting_thread_def new_thread_def tag10_event_def sample_subevent_def)
qed

text \<open>A thread whose file is already open cannot start; its message ends in the error text.\<close>

theorem abort_reports_exception_witness:
  "\<exists>s' rest. detachedBufferTestThread quiet 1 (counting_thread\<lparr>fp := Some []\<rparr>) = (Ret (), s')
    \<and> error_text s' = ''Exception caught. Exiting detachedBufferTestThread().'' @ [CHR 0x0A]
        @ ''Error message: '' @ (''Impossible?! File pointer already initialized?'' @ [CHR 0x0A]) @ [CHR 0x0A] @ rest"
proof -
  have run: "thread_body quiet 1 (counting_thread\<lparr>fp := Some []\<rparr>)
    = (Throw (''Impossible?! File pointer already initialized?'' @ [CHR 0x0A]), counting_thread\<lparr>fp := Some []\<rparr>)"
    by (simp add: thread_body_def thread_start_def seqE_def bindE_def gets_def throw_def)
  have "error_text (counting_thread\<lparr>fp := Some []\<rparr>) = []" by (simp add: counting_thread_def new_thread_def)
  then show ?thesis using abort_reports_exception [OF run] by auto
qed

theorem handling_time_not_counted_witness:
  "es_handlingNs (evb (snd (evb_data quiet [tag10_event] [] 5 counting_thread))) = es_handlingNs (evb counting_thread)"
proof -
  have "fst (evb_data quiet [tag10_event] [] 5 counting_thread) = Ret Onward" by code_simp
  from handling_time_not_counted [OF run_to [OF this]] show ?thesis .
qed

definition start_locals :: loop_locals where
  "start_locals = \<lparr>ll_ii = 7, ll_drained = 5\<rparr>"

theorem restart_clears_witness:
  "rocFragmentsCount (snd (restart quiet start_locals (counting_thread\<lparr>rocFragmentsCount := [1, 2, 3, 4, 5, 6]\<rparr>))) = replicate 6 0"
proof -
  have "case fst (restart quiet start_locals (counting_thread\<lparr>rocFragmentsCount := [1, 2, 3, 4, 5, 6]\<rparr>)) of Ret _ \<Rightarrow> True | _ \<Rightarrow> False"
    by code_simp
  then obtain l where "fst (restart quiet start_locals (counting_thread\<lparr>rocFragmentsCount := [1, 2, 3, 4, 5, 6]\<rparr>)) = Ret l"
    by (auto split: outcome.splits)
  from restart_clears [OF run_to [OF this]] show ?thesis
    by (simp add: counting_thread_def new_thread_def fresh_restart_def counts_cleared_def)
qed

theorem restart_keeps_counters_witness:
  "rocFragmentsCount (snd (restart quiet start_locals (counting_thread\<lparr>rocFragmentsCount := [1, 2, 3, 4, 5, 6], doNotResetCounters := True\<rparr>)))
    = [1, 2, 3, 4, 5, 6]"
proof -
  let ?s = "counting_thread\<lparr>rocFragmentsCount := [1, 2, 3, 4, 5, 6], doNotResetCounters := True\<rparr>"
  have "case fst (restart quiet start_locals ?s) of Ret _ \<Rightarrow> True | _ \<Rightarrow> False"
    by code_simp
  then obtain l where "fst (restart quiet start_locals ?s) = Ret l"
    by (auto split: outcome.splits)
  from restart_keeps_counters [OF run_to [OF this]] show ?thesis by (simp add: kept_restart_def tallies_defs)
qed

end
