(* ===== verification/Detached_Control.thy ===== *)
theory Detached_Control
  imports Detached_Merge EVB_Gate
begin

section \<open>Starting, re-initialising and halting the detached Buffer Test\<close>

text \<open>
  The front-end macros that control the test's thread (DTCFrontEndInterfaceImpl.cc):
  \<^verbatim>\<open>BufferTest_detached\<close>, \<^verbatim>\<open>initDetachedBufferTest\<close>, the searches over the front ends of the
  supervisor, the ignore mask of the start gate and the report of the wire parity. The state is the
  list of the supervisor's DTC front ends in the order of \<^verbatim>\<open>getFEInterfaces()\<close>; a front end is named
  by its position. The environment of the macros is \<open>sy_env\<close>; a thread's flag \<^verbatim>\<open>exitThread_\<close> is
  a part of the thread's own environment. While a macro sleeps, other threads run: \<open>ct_meanwhile\<close>.
  The status texts (\<^verbatim>\<open>getDetachedBufferTestStatus\<close>, \<^verbatim>\<open>getDetachedBufferTestEVBStatus\<close>) are the
  parameter \<open>ct_status\<close>.
\<close>

record 'e frontend =
  fe_uid :: string
  fe_device :: int
  fe_dtc :: "dtc option"
  fe_ignore :: u32
  fe_check :: bool
  fe_drain :: bool
  fe_test :: "'e thread option"

record 'e fesystem =
  sy_env :: 'e
  sy_manager :: bool
  sy_fes :: "'e frontend list"

record 'e control =
  ct_det :: "'e det"
  ct_fuel :: nat
  ct_status :: "'e thread \<Rightarrow> 'e \<Rightarrow> (string + string) \<times> 'e"
  ct_meanwhile :: "'e fesystem \<Rightarrow> 'e fesystem"

type_synonym ('e, 'a) ctl_eff = "('e fesystem, 'a) eff"

abbreviation newline :: string where
  "newline \<equiv> [CHR 0x0A]"

definition on_env :: "('e, 'a) hw_eff \<Rightarrow> ('e, 'a) ctl_eff" where
  "on_env m s = (case m (sy_env s) of (x, e) \<Rightarrow> (x, s\<lparr>sy_env := e\<rparr>))"

abbreviation fe_at :: "'e fesystem \<Rightarrow> nat \<Rightarrow> 'e frontend" where
  "fe_at s i \<equiv> sy_fes s ! i"

definition upd_fe :: "nat \<Rightarrow> ('e frontend \<Rightarrow> 'e frontend) \<Rightarrow> 'e fesystem \<Rightarrow> 'e fesystem" where
  "upd_fe i f s = s\<lparr>sy_fes := (sy_fes s)[i := f (fe_at s i)]\<rparr>"

text \<open>The struct of a front end; \<open>ensure_test\<close> makes it at the first use.\<close>

definition test_of :: "'e fesystem \<Rightarrow> nat \<Rightarrow> 'e thread" where
  "test_of s i = (case fe_test (fe_at s i) of Some t \<Rightarrow> t | None \<Rightarrow> new_thread (sy_env s))"

definition upd_test :: "nat \<Rightarrow> ('e thread \<Rightarrow> 'e thread) \<Rightarrow> 'e fesystem \<Rightarrow> 'e fesystem" where
  "upd_test i f s = upd_fe i (\<lambda>x. x\<lparr>fe_test := Some (f (test_of s i))\<rparr>) s"

definition ensure_test :: "nat \<Rightarrow> ('e, unit) ctl_eff" where
  "ensure_test i = modify (upd_test i (\<lambda>t. t))"

definition getDTC :: "nat \<Rightarrow> ('e, dtc) ctl_eff" where
  "getDTC i =
     bindE (gets (\<lambda>s. fe_dtc (fe_at s i))) (\<lambda>p.
     case p of None \<Rightarrow> throw ''thisDTC_ pointer has not been initialized! '' | Some d \<Rightarrow> ret d)"

definition ask :: "'e control \<Rightarrow> nat \<Rightarrow> getter \<Rightarrow> ('e, nat) ctl_eff" where
  "ask C i g = bindE (getDTC i) (\<lambda>d. on_env (get (ct_det C) d g))"

text \<open>Sleeping: the clock moves on and the other threads run.\<close>

definition pause_ms :: "'e control \<Rightarrow> int \<Rightarrow> ('e, unit) ctl_eff" where
  "pause_ms C ms = seqE (on_env (sleep_ms (ct_det C) ms)) (modify (ct_meanwhile C))"

subsection \<open>The other front ends\<close>

text \<open>The positions of the front ends the interface manager shows.\<close>

definition visible_fes :: "'e fesystem \<Rightarrow> nat list" where
  "visible_fes s = (if sy_manager s then [0..<length (sy_fes s)] else [])"

definition visible_list :: "'e fesystem \<Rightarrow> nat \<Rightarrow> string" where
  "visible_list s i =
     (if \<not> sy_manager s then ''(no interface manager)''
      else foldl (\<lambda>acc j. (if acc \<noteq> [] then acc @ '', '' else acc) @ fe_uid (fe_at s j) @ ''(dev ''
                    @ to_string_int (fe_device (fe_at s j)) @ '')'') [] (filter (\<lambda>j. j \<noteq> i) (visible_fes s)))"

definition findPeerDTCFrontEnd :: "'e fesystem \<Rightarrow> nat \<Rightarrow> int \<Rightarrow> nat option \<times> string" where
  "findPeerDTCFrontEnd s i deviceIndex =
     (List.find (\<lambda>j. j \<noteq> i \<and> fe_device (fe_at s j) = deviceIndex) (visible_fes s), visible_list s i)"

definition merge_reader_of :: "'e fesystem \<Rightarrow> dtc option \<Rightarrow> nat \<Rightarrow> bool" where
  "merge_reader_of s p j \<longleftrightarrow>
     (case fe_test (fe_at s j) of
        None \<Rightarrow> False
      | Some t \<Rightarrow> running t \<and> mergeMode t \<noteq> Off \<and> otherDTC t = p)"

definition requireNoMergeReaderOnThisDTC :: "nat \<Rightarrow> ('e, unit) ctl_eff" where
  "requireNoMergeReaderOnThisDTC i =
     bindE (gets (\<lambda>s. s)) (\<lambda>s.
     case List.find (\<lambda>j. j \<noteq> i \<and> merge_reader_of s (fe_dtc (fe_at s i)) j) (visible_fes s) of
       None \<Rightarrow> ret ()
     | Some j \<Rightarrow> throw ([CHR 0x27] @ fe_uid (fe_at s j) @ [CHR 0x27]
           @ '' is running a merge Buffer Test that reads this DTC'' @ [CHR 0x27] @ ''s DMA; Halt it there first.'' @ newline))"

subsection \<open>Wire parity\<close>

record wire_node =
  wn_uid :: string
  wn_mac :: nat
  wn_tx :: u16
  wn_rx :: u16
  wn_packet :: nat

definition pad_right :: "nat \<Rightarrow> string \<Rightarrow> string" where
  "pad_right w t = t @ replicate (w - length t) (CHR '' '')"

definition packet_words :: "u32 \<Rightarrow> nat" where
  "packet_words designDate = (if designDate \<ge> 0xd6092888 then 128 else 186)"

definition wire_node_of :: "'e control \<Rightarrow> string \<Rightarrow> dtc \<Rightarrow> ('e, wire_node) ctl_eff" where
  "wire_node_of C uid d =
     (let D = ct_det C in
      bindE (on_env (read_register D d kRegDesignVersion)) (\<lambda>(_, designDate).
      bindE (on_env (get D d ReadEVBLocalMACAddress)) (\<lambda>mac.
      bindE (on_env (get D d ReadEVBDDRToTXWords)) (\<lambda>tx.
      bindE (on_env (get D d ReadEVBGBERXWords)) (\<lambda>rx.
      ret \<lparr>wn_uid = uid, wn_mac = mac, wn_tx = word_of_nat tx, wn_rx = word_of_nat rx,
           wn_packet = packet_words designDate\<rparr>)))))"

definition wire_nodes :: "'e control \<Rightarrow> ('e, wire_node list \<times> string) ctl_eff" where
  "wire_nodes C =
     bindE (gets (\<lambda>s. s)) (\<lambda>s.
     foldE (\<lambda>j (nodes, acc).
       case fe_dtc (fe_at s j) of
         None \<Rightarrow> ret (nodes, acc)
       | Some d \<Rightarrow>
           tryE (bindE (wire_node_of C (fe_uid (fe_at s j)) d) (\<lambda>n. ret (nodes @ [n], acc)))
                (\<lambda>e. ret (nodes, acc @ ''  '' @ fe_uid (fe_at s j) @ '': read error: '' @ e @ newline)))
       (visible_fes s) ([], []))"

definition wire_line :: "wire_node \<Rightarrow> string" where
  "wire_line n = ''  '' @ pad_right 8 (wn_uid n) @ '' MAC 0x'' @ radix_string 16 (wn_mac n)
     @ ''  ddr_to_tx='' @ pad_right 5 (to_string (unat (wn_tx n)))
     @ ''  gbe_rx='' @ pad_right 5 (to_string (unat (wn_rx n))) @ newline"

text \<open>The words lost in one direction, modulo 2^16, and the whole packets they make.\<close>

definition wire_lost :: "wire_node \<Rightarrow> wire_node \<Rightarrow> u16" where
  "wire_lost snd_node rcv_node = wn_tx snd_node - wn_rx rcv_node"

definition wire_direction :: "wire_node \<Rightarrow> wire_node \<Rightarrow> string" where
  "wire_direction snd_node rcv_node =
     (let lost = unat (wire_lost snd_node rcv_node); p = wn_packet snd_node in
      ''  '' @ wn_uid snd_node @ '' -> '' @ wn_uid rcv_node @ '': ''
      @ (if lost \<noteq> 0 then ''DIFF '' else ''OK   '') @ to_string lost @ '' words''
      @ (if lost \<noteq> 0 \<and> lost mod p = 0
         then ''  (= '' @ to_string (lost div p) @ '' full '' @ to_string p @ ''-word TX packet''
              @ (if lost > p then ''s'' else []) @ '')'' else [])
      @ newline)"

definition wire_sums :: "wire_node list \<Rightarrow> u16 \<times> u16" where
  "wire_sums nodes = foldl (\<lambda>(t, r) n. (t + wn_tx n, r + wn_rx n)) (0, 0) nodes"

definition wire_verdict :: "wire_node list \<Rightarrow> string" where
  "wire_verdict nodes =
     (if length nodes = 2
      then wire_direction (nodes ! 0) (nodes ! 1) @ wire_direction (nodes ! 1) (nodes ! 0)
      else if length nodes > 2
      then let lost = unat (fst (wire_sums nodes) - snd (wire_sums nodes)) in
           ''  all senders - all receivers: '' @ (if lost \<noteq> 0 then ''DIFF '' else ''OK   '') @ to_string lost
           @ '' words (per-direction needs exactly 2 DTCs)'' @ newline
      else ''  (only '' @ to_string (length nodes) @ '' DTC visible in this FESupervisor)'' @ newline)"

definition getEVBWireParity :: "'e control \<Rightarrow> ('e, string) ctl_eff" where
  "getEVBWireParity C =
     (let title = ''=== EVB Wire Parity (wc_ddr_to_tx sender - wc_gbe_rx receiver, mod 65536, snapshot) ==='' @ newline in
      bindE (gets sy_manager) (\<lambda>manager.
      if \<not> manager then ret (title @ ''  (no interface manager; cannot see peer DTCs)'' @ newline)
      else bindE (wire_nodes C) (\<lambda>(nodes, errs).
           ret (title @ errs @ concat (map wire_line nodes) @ wire_verdict nodes @ newline))))"

subsection \<open>The ignore mask of the start gate\<close>

definition sticky_names :: "string list" where
  "sticky_names = [''RX_BUF_WRITE_FULL'', ''RX_SEQ_GAP'', ''RX_PKT_REJECTED'', ''DDR_WR_UNDERFLOW'',
     ''TX_FSM_FAULT'', ''CREDIT_VIOLATION'', ''LOCAL_BAD_HEADER'', ''RX_STATS_COLLISION'',
     ''DDR_RD_BAD_COUNT'', ''STAGING_WRITE_FULL'', ''TX_PAYLOAD_UNDERFLOW'', ''TX_FRAME_MALFORMED'',
     ''RX_FRAME_SIZE'', ''RX_FCS_BAD'', ''ROC_TAG_SLIP'', ''ROC_RECORD_SHAPE'']"

definition ignored_text :: "u32 \<Rightarrow> string" where
  "ignored_text applied =
     (if applied \<noteq> 0
      then ''  Ignored this session:''
           @ concat (map (\<lambda>b. if bit applied b then '' bit '' @ to_string b @ '' '' @ sticky_names ! b @ '';'' else [])
                [0..<16])
           @ newline @ ''  These bits are still read and printed in every report; only the start gate ''
           @ ''and the run-validity line ignore them.'' @ newline
      else ''  Override cleared; only the per-bitfile known-defect list applies.'' @ newline)"

definition SetEVBStartGateIgnoreMask :: "'e control \<Rightarrow> nat \<Rightarrow> u32 \<Rightarrow> ('e, string) ctl_eff" where
  "SetEVBStartGateIgnoreMask C i requested =
     (let D = ct_det C; applied = requested AND EVBDefinedErrorMask (dlib D) in
      bindE (getDTC i) (\<lambda>d.
      bindE (gets (\<lambda>s. fe_ignore (fe_at s i))) (\<lambda>was.
      bindE (modify (upd_fe i (\<lambda>x. x\<lparr>fe_ignore := applied\<rparr>))) (\<lambda>_.
      bindE (on_env (evbKnownDefectMask D (Some d))) (\<lambda>buildMask.
      bindE (on_env (readReg D d kRegDesignVersion)) (\<lambda>version.
      bindE (gets (\<lambda>s. fe_test (fe_at s i))) (\<lambda>t.
      ret (''EVB start-gate ignore mask on '' @ d_uid (dio D) d @ '': was 0x'' @ radix_string 16 (unat was)
         @ '', now 0x'' @ radix_string 16 (unat applied) @ newline
         @ (if requested \<noteq> applied
            then ''  NOTE: only sticky-error bits [15:0] can be ignored; 0x''
                 @ radix_string 16 (unat (requested AND NOT (EVBDefinedErrorMask (dlib D))))
                 @ '' dropped (status bits 16-31 are never part of the gate).'' @ newline else [])
         @ ignored_text applied
         @ ''  Per-bitfile known-defect mask for this DTC (0x9004=0x'' @ radix_string 16 (unat version)
         @ ''): 0x'' @ radix_string 16 (unat buildMask) @ newline
         @ ''  Effective ignore mask at next Start: 0x'' @ radix_string 16 (unat (buildMask OR applied)) @ newline
         @ (case t of
              None \<Rightarrow> []
            | Some t \<Rightarrow> if running t
                then ''  A buffer test is running; the new value takes effect at its next Start.'' @ newline
                else [])))))))))"

end
