(* ===== verification/Detached_Macros.thy ===== *)
theory Detached_Macros
  imports Detached_Control
begin

section \<open>The macros that launch and halt the detached Buffer Test\<close>

text \<open>
  \<^verbatim>\<open>BufferTest_detached\<close> and \<^verbatim>\<open>initDetachedBufferTest\<close> (DTCFrontEndInterfaceImpl.cc). Launching the
  thread sets \<^verbatim>\<open>running_\<close>; the thread itself is \<open>detachedBufferTestThread\<close>. The members that a
  macro writes under the lock are written in the code's order, so that an exception of a register
  read in between leaves the members written before it.
\<close>

record test_args =
  ta_command :: string
  ta_subevents :: bool
  ta_match :: bool
  ta_start :: u32
  ta_save :: bool
  ta_filename :: string
  ta_saveHeaders :: bool
  ta_evb :: bool
  ta_check :: bool
  ta_drain :: bool
  ta_merge :: u32

text \<open>The tag a DTC expects first: in EVB mode shifted by its slot. The macro's sum is of 32 bits,
  the one of \<^verbatim>\<open>initDetachedBufferTest\<close> of 64.\<close>

definition first_tag :: "'e control \<Rightarrow> nat \<Rightarrow> bool \<Rightarrow> (int \<Rightarrow> u64) \<Rightarrow> ('e, u64) ctl_eff" where
  "first_tag C i inEVB add_slot =
     (if \<not> inEVB then ret (add_slot 0)
      else bindE (ask C i ReadEVBLocalMACAddress) (\<lambda>mac.
           bindE (ask C i ReadEVBStartNode) (\<lambda>start.
           ret (add_slot (int mac - int start)))))"

definition dest_nodes :: "'e control \<Rightarrow> nat \<Rightarrow> bool \<Rightarrow> ('e, u8) ctl_eff" where
  "dest_nodes C i inEVB =
     (if inEVB then bindE (ask C i ReadEVBNumberOfDestinationNodes) (\<lambda>n. ret (word_of_nat n)) else ret 1)"

text \<open>What both macros copy from the front end.\<close>

definition copy_options :: "nat \<Rightarrow> bool \<Rightarrow> bool \<Rightarrow> ('e, unit) ctl_eff" where
  "copy_options i subevents inEVB =
     bindE (gets (\<lambda>s. fe_at s i)) (\<lambda>f.
     modify (upd_test i (\<lambda>t. t\<lparr>inSubeventMode := subevents, inEVBMode := inEVB,
        evb := (evb t)\<lparr>es_operatorIgnore := fe_ignore f\<rparr>,
        checkROCEmulatorData := fe_check f, evbDrainOnly := fe_drain f\<rparr>)))"

definition lower_exit :: "'e control \<Rightarrow> 'e thread \<Rightarrow> 'e thread" where
  "lower_exit C t = t\<lparr>tenv := d_setExit (dio (ct_det C)) False (tenv t)\<rparr>"

subsection \<open>Re-initialising\<close>

record init_args =
  ia_tag :: u64
  ia_save :: bool
  ia_filename :: string
  ia_saveHeaders :: bool
  ia_keepCounters :: bool
  ia_skipBy32 :: bool
  ia_packets :: u32
  ia_evb :: bool

definition no_merge :: "'e thread \<Rightarrow> 'e thread" where
  "no_merge t = t\<lparr>mergeMode := Off, otherDTC := None, otherDTCUID := []\<rparr>"

definition init_struct :: "'e control \<Rightarrow> nat \<Rightarrow> init_args \<Rightarrow> bool \<Rightarrow> ('e, unit) ctl_eff" where
  "init_struct C i a relaunch =
     bindE (copy_options i True (ia_evb a)) (\<lambda>_.
     bindE (dest_nodes C i (ia_evb a)) (\<lambda>n.
     bindE (modify (upd_test i (\<lambda>t. t\<lparr>evbNumDestNodes := n, activeMatch := False\<rparr>))) (\<lambda>_.
     bindE (first_tag C i (ia_evb a) (\<lambda>k. ia_tag a + word_of_int k)) (\<lambda>tag.
     bindE (gets (\<lambda>s. fe_dtc (fe_at s i))) (\<lambda>d.
     modify (upd_test i (\<lambda>t.
       let t1 = lower_exit C (t\<lparr>expectedEventTag := tag, saveBinaryData := ia_save a,
                  saveBinaryDataFilename := ia_filename a, saveSubeventHeadersToBinaryData := ia_saveHeaders a,
                  releaseAllComplete := False, skipBy32 := ia_skipBy32 a, packetThresholdToSave := ia_packets a\<rparr>)
       in no_merge
         (if relaunch
          then t1\<lparr>resetStartEventTag := True, doNotResetCounters := ia_keepCounters a\<rparr>
          else t1\<lparr>resetStartEventTag := False, doNotResetCounters := False, thisDTC := d, running := True,
                 error_text := []\<rparr>))))))))"

definition own_gate :: "'e control \<Rightarrow> nat \<Rightarrow> ('e, unit) ctl_eff" where
  "own_gate C i =
     bindE (getDTC i) (\<lambda>d.
     bindE (gets (\<lambda>s. fe_ignore (fe_at s i))) (\<lambda>ignore.
     bindE (on_env (requireEVBBufferTestReady (ct_det C) (ct_fuel C) (Some d) ignore)) (\<lambda>_. ret ())))"

definition initDetachedBufferTest :: "'e control \<Rightarrow> nat \<Rightarrow> init_args \<Rightarrow> ('e, unit) ctl_eff" where
  "initDetachedBufferTest C i a =
     seqE (whenE (ia_evb a) (own_gate C i))
    (seqE (ensure_test i)
    (seqE (requireNoMergeReaderOnThisDTC i)
    (seqE (bindE (gets (\<lambda>s. running (test_of s i))) (init_struct C i a))
          (pause_ms C 1000))))"

subsection \<open>The checks of a start\<close>

definition merge_mode_of :: "u32 \<Rightarrow> DetachedMergeMode" where
  "merge_mode_of m = (if m = 0 then Off else if m = 1 then EvenOdd else Matching)"

text \<open>The peer whose DMA a merge reads: the position of the front end with device index 1.\<close>

definition merge_peer :: "nat \<Rightarrow> test_args \<Rightarrow> ('e, nat) ctl_eff" where
  "merge_peer i a =
     bindE (gets (\<lambda>s. s)) (\<lambda>s.
     if fe_device (fe_at s i) \<noteq> 0
     then throw (''Merge Mode runs only on the DTC_0 FE instance (device index 0); this FE is device index ''
                 @ to_string_int (fe_device (fe_at s i)) @ ''.'' @ newline)
     else if \<not> ta_subevents a
     then throw (''Merge Mode requires '' @ [CHR 0x27] @ ''Data are SubEvents'' @ [CHR 0x27]
                 @ '' = true: the Event read path returns views into DMA memory that are released ''
                 @ ''on the next read, so a DTC_0 half could not wait for its DTC_1 partner.'' @ newline)
     else if merge_mode_of (ta_merge a) = EvenOdd \<and> \<not> ta_evb a
     then throw (''Merge Mode even/odd requires EVB Mode: only the 2-node EVB routing gives DTC_0 the even ''
                 @ ''tags and DTC_1 the odd tags.'' @ newline)
     else case findPeerDTCFrontEnd s i 1 of
       (None, visible) \<Rightarrow>
         throw (''Merge Mode needs a DTC FE with device index 1 in this FESupervisor; visible DTC FEs: ''
                @ (if visible = [] then ''(none)'' else visible) @ newline)
     | (Some j, _) \<Rightarrow>
         if fe_dtc (fe_at s j) = None
         then throw (''Merge Mode: peer FE '' @ [CHR 0x27] @ fe_uid (fe_at s j) @ [CHR 0x27]
                     @ '' has no DTC handle.'' @ newline)
         else if (case fe_test (fe_at s j) of None \<Rightarrow> False | Some t \<Rightarrow> running t)
         then throw (''Merge Mode: the Buffer Test thread of '' @ [CHR 0x27] @ fe_uid (fe_at s j) @ [CHR 0x27]
                     @ '' is running; Halt it there first (only DTC_0 reads in Merge Mode).'' @ newline)
         else ret j)"

definition slot_of :: "'e control \<Rightarrow> nat \<Rightarrow> ('e, int) ctl_eff" where
  "slot_of C i =
     bindE (ask C i ReadEVBLocalMACAddress) (\<lambda>mac.
     bindE (ask C i ReadEVBStartNode) (\<lambda>start. ret (int mac - int start)))"

text \<open>The event builder's routing must fit the merge mode.\<close>

definition require_routing :: "'e control \<Rightarrow> nat \<Rightarrow> nat \<Rightarrow> DetachedMergeMode \<Rightarrow> ('e, unit) ctl_eff" where
  "require_routing C i j mode =
     bindE (ask C i ReadEVBNumberOfDestinationNodes) (\<lambda>numDest0.
     bindE (ask C j ReadEVBNumberOfDestinationNodes) (\<lambda>numDest1.
     bindE (slot_of C i) (\<lambda>slot0.
     bindE (slot_of C j) (\<lambda>slot1.
     if mode = EvenOdd \<and> (numDest0 \<noteq> 2 \<or> numDest1 \<noteq> 2 \<or> slot0 \<noteq> 0 \<or> slot1 \<noteq> 1)
     then throw (''Merge Mode even/odd expects 2 destination nodes with DTC_0 in slot 0 and DTC_1 in slot 1; ''
                 @ ''found DTC_0: '' @ to_string numDest0 @ '' nodes, slot '' @ to_string_int slot0
                 @ ''; DTC_1: '' @ to_string numDest1 @ '' nodes, slot '' @ to_string_int slot1 @ ''.'' @ newline)
     else if mode = Matching \<and> (numDest0 \<noteq> 1 \<or> numDest1 \<noteq> 1)
     then throw (''Merge Mode matching in EVB Mode expects 1 destination node on both DTCs (with 2 nodes the ''
                 @ ''two DTCs receive disjoint tags); found DTC_0: '' @ to_string numDest0
                 @ '', DTC_1: '' @ to_string numDest1 @ ''.'' @ newline)
     else ret ()))))"

definition start_gates :: "'e control \<Rightarrow> nat \<Rightarrow> test_args \<Rightarrow> nat option \<Rightarrow> ('e, unit) ctl_eff" where
  "start_gates C i a peer =
     (if \<not> ta_evb a then ret ()
      else seqE (own_gate C i)
        (case peer of
           None \<Rightarrow> ret ()
         | Some j \<Rightarrow> seqE (own_gate C j) (require_routing C i j (merge_mode_of (ta_merge a)))))"

subsection \<open>The start\<close>

definition launch_test :: "'e control \<Rightarrow> nat \<Rightarrow> test_args \<Rightarrow> nat option \<Rightarrow> ('e, unit) ctl_eff" where
  "launch_test C i a peer =
     bindE (copy_options i (ta_subevents a) (ta_evb a)) (\<lambda>_.
     bindE (dest_nodes C i (ta_evb a)) (\<lambda>n.
     bindE (modify (upd_test i (\<lambda>t. t\<lparr>evbNumDestNodes := n, activeMatch := ta_match a\<rparr>))) (\<lambda>_.
     bindE (first_tag C i (ta_evb a) (\<lambda>k. ucast (ta_start a + word_of_int k))) (\<lambda>tag.
     bindE (gets (\<lambda>s. (fe_dtc (fe_at s i), case peer of None \<Rightarrow> None | Some j \<Rightarrow> fe_dtc (fe_at s j),
                        case peer of None \<Rightarrow> [] | Some j \<Rightarrow> fe_uid (fe_at s j)))) (\<lambda>(d, other, uid).
     bindE (modify (upd_test i (\<lambda>t. lower_exit C (t\<lparr>expectedEventTag := tag, saveBinaryData := ta_save a,
              saveBinaryDataFilename := ta_filename a, saveSubeventHeadersToBinaryData := ta_saveHeaders a,
              resetStartEventTag := False, thisDTC := d, mergeMode := merge_mode_of (ta_merge a),
              otherDTC := other, otherDTCUID := uid\<rparr>)))) (\<lambda>_.
     bindE (case peer of None \<Rightarrow> ret 1 | Some j \<Rightarrow> dest_nodes C j (ta_evb a)) (\<lambda>m.
     bindE (modify (upd_test i (\<lambda>t. t\<lparr>evbNumDestNodesOther := m\<rparr>))) (\<lambda>_.
     bindE (ask C i GetEVBEventTimeout) (\<lambda>timeout.
     modify (upd_test i (\<lambda>t. t\<lparr>pairTimeoutMs := word_of_nat timeout, running := True, error_text := []\<rparr>)))))))))))"

definition status_text :: "'e control \<Rightarrow> nat \<Rightarrow> ('e, string) ctl_eff" where
  "status_text C i = bindE (gets (\<lambda>s. test_of s i)) (\<lambda>t. on_env (call_try (ct_status C t)))"

definition tag_text :: "u32 \<Rightarrow> string" where
  "tag_text t = to_string (unat t) @ '' (0x'' @ radix_string 16 (unat t) @ '')'' @ newline"

definition start_test :: "'e control \<Rightarrow> nat \<Rightarrow> test_args \<Rightarrow> ('e, string) ctl_eff" where
  "start_test C i a =
     bindE (ensure_test i) (\<lambda>_.
     bindE (gets (\<lambda>s. running (test_of s i))) (\<lambda>busy.
     bindE (if busy
            then ret (''Found buffer test thread already running, doing nothing. Please '' @ [CHR 0x27] @ ''Halt'' @ [CHR 0x27]
                      @ '' before restarting. Or run '' @ [CHR 0x27] @ ''Status'' @ [CHR 0x27]
                      @ '' to read the latest status.'' @ newline)
            else bindE (requireNoMergeReaderOnThisDTC i) (\<lambda>_.
                 bindE (if ta_merge a = 0 then ret None else bindE (merge_peer i a) (\<lambda>j. ret (Some j))) (\<lambda>peer.
                 bindE (start_gates C i a peer) (\<lambda>_.
                 bindE (launch_test C i a peer) (\<lambda>_.
                 ret (''Launched detached Buffer Test thread and reading data DMA-0 starting at event tag ''
                      @ tag_text (ta_start a))))))) (\<lambda>done_text.
     bindE (pause_ms C 1000) (\<lambda>_.
     bindE (status_text C i) (\<lambda>status.
     ret (done_text @ ''Reading status...'' @ newline @ status))))))"

subsection \<open>The halt\<close>

text \<open>Up to ten waits of 100 ms for the thread to exit; \<open>True\<close> ends the wait.\<close>

definition await_exit :: "'e control \<Rightarrow> nat \<Rightarrow> ('e, unit) ctl_eff" where
  "await_exit C i =
     bindE (foldE (\<lambda>_ left_loop.
        if left_loop then ret True
        else seqE (pause_ms C 100) (gets (\<lambda>s. \<not> running (test_of s i)))) [0..<10] False) (\<lambda>_. ret ())"

definition close_left_open :: "'e control \<Rightarrow> nat \<Rightarrow> ('e, unit) ctl_eff" where
  "close_left_open C i =
     bindE (gets (\<lambda>s. fp (test_of s i))) (\<lambda>f.
     case f of
       None \<Rightarrow> ret ()
     | Some bytes \<Rightarrow> seqE (on_env (modify (d_fclose (dio (ct_det C)) bytes)))
                          (modify (upd_test i (\<lambda>t. t\<lparr>fp := None\<rparr>))))"

definition drop_pending :: "'e thread \<Rightarrow> 'e thread" where
  "drop_pending t = t\<lparr>pendingDTC0 := [], pendingDTC1 := [], pendingDTC0Count := 0, pendingDTC1Count := 0,
     oldestPendingDTC0Tag := - 1, oldestPendingDTC1Tag := - 1\<rparr>"

definition end_merge :: "'e control \<Rightarrow> nat \<Rightarrow> ('e, unit) ctl_eff" where
  "end_merge C i =
     bindE (gets (\<lambda>s. test_of s i)) (\<lambda>t.
     if running t \<or> mergeMode t = Off then ret ()
     else seqE (modify (upd_test i drop_pending))
         (seqE (case if inEVBMode t then otherDTC t else None of
                  None \<Rightarrow> ret ()
                | Some d \<Rightarrow> tryE (on_env (call_try (d_device (dio (ct_det C)) d ResetEVBAssembly))) (\<lambda>_. ret ()))
               (modify (upd_test i (\<lambda>t. t\<lparr>otherDTC := None\<rparr>)))))"

definition halt_test :: "'e control \<Rightarrow> nat \<Rightarrow> ('e, string) ctl_eff" where
  "halt_test C i =
     bindE (ensure_test i) (\<lambda>_.
     bindE (modify (upd_test i (\<lambda>t. t\<lparr>tenv := d_setExit (dio (ct_det C)) True (tenv t)\<rparr>))) (\<lambda>_.
     bindE (await_exit C i) (\<lambda>_.
     bindE (close_left_open C i) (\<lambda>_.
     bindE (gets (\<lambda>s. running (test_of s i))) (\<lambda>stuck.
     bindE (tryE (status_text C i) (\<lambda>_. ret [])) (\<lambda>status.
     bindE (end_merge C i) (\<lambda>_.
     ret (''Detached Buffer Test thread '' @ (if stuck then ''is stuck running. '' else ''exited. '') @ newline
          @ ''Reading final status...'' @ newline @ status))))))))"

subsection \<open>The macro\<close>

definition set_options :: "nat \<Rightarrow> test_args \<Rightarrow> ('e, unit) ctl_eff" where
  "set_options i a = modify (upd_fe i (\<lambda>x. x\<lparr>fe_check := ta_check a, fe_drain := ta_drain a\<rparr>))"

definition run_command :: "'e control \<Rightarrow> nat \<Rightarrow> test_args \<Rightarrow> ('e, string) ctl_eff" where
  "run_command C i a =
     (let c = ta_command a in
      if c = ''1'' \<or> c = ''Start'' then start_test C i a
      else if c = ''0'' \<or> c = ''Status''
      then bindE (ensure_test i) (\<lambda>_. bindE (status_text C i) (\<lambda>t. ret (''Reading thread status...'' @ newline @ t)))
      else if c = ''2'' \<or> c = ''Halt'' then halt_test C i
      else ret (''Unrecognized command '' @ [CHR 0x27] @ c @ [CHR 0x27]
                @ '' found. Valid commands are Start, Status, and Halt.'' @ newline))"

definition BufferTest_detached :: "'e control \<Rightarrow> nat \<Rightarrow> test_args \<Rightarrow> ('e, string) ctl_eff" where
  "BufferTest_detached C i a =
     bindE (set_options i a) (\<lambda>_.
     if ta_merge a > 2
     then throw (''Invalid Merge Mode '' @ to_string (unat (ta_merge a))
                 @ ''; valid values are 0 (Off), 1 (even/odd), 2 (matching).'' @ newline)
     else bindE (run_command C i a) (\<lambda>result.
          bindE (gets (\<lambda>s. fe_test (fe_at s i))) (\<lambda>t.
          bindE (if (case t of None \<Rightarrow> False | Some t \<Rightarrow> inEVBMode t)
                 then tryE (getEVBWireParity C) (\<lambda>e. ret (''EVB Wire Parity: '' @ e @ newline))
                 else ret []) (\<lambda>parity.
          ret (''Command: '' @ ta_command a @ newline @ result @ parity)))))"

text \<open>The count a caller polls.\<close>

definition getDetachedBufferTestReceivedCount :: "'e thread \<Rightarrow> u64" where
  "getDetachedBufferTestReceivedCount t =
     (if inEVBMode t then subeventsCount t
      else if \<not> inSubeventMode t then eventsCount t
      else subeventsCount t)"

end
