(* ===== verification/Supervisor_Seats.thy ===== *)
theory Supervisor_Seats
  imports Detached_Macros
begin

section \<open>Who reads whose data: the abstract machine of a supervisor\<close>

text \<open>
  The promise of the detached Buffer Test's macros, on the few facts it concerns: for each front end a
  \<open>seat\<close> with its device index, its DTC and the handles of its test. \<open>seat_step\<close> is the specification
  (an inductive step relation), \<open>supervised\<close> its invariant, \<open>seats\<close> the abstraction function from the
  state of the macros. The second half collects the operations that leave the seats alone.
\<close>

subsection \<open>The abstract machine\<close>

text \<open>
  What decides who reads what, for each front end: its device index and DTC, and of its test whether
  the thread runs, whose DMA it reads and in which mode.
\<close>

record seat =
  at_device :: int
  at_dtc :: "dtc option"
  at_running :: bool
  at_this :: "dtc option"
  at_mode :: DetachedMergeMode
  at_other :: "dtc option"

definition seat_of :: "'e frontend \<Rightarrow> 'e thread \<Rightarrow> seat" where
  "seat_of f t = \<lparr>at_device = fe_device f, at_dtc = fe_dtc f, at_running = running t, at_this = thisDTC t,
     at_mode = mergeMode t, at_other = otherDTC t\<rparr>"

abbreviation fe_count :: "'e fesystem \<Rightarrow> nat" where
  "fe_count s \<equiv> length (sy_fes s)"

definition seats :: "'e fesystem \<Rightarrow> seat list" where
  "seats s = map (\<lambda>i. seat_of (fe_at s i) (test_of s i)) [0..<fe_count s]"

definition reads :: "seat \<Rightarrow> dtc set" where
  "reads v = (if \<not> at_running v then {}
     else set_option (at_this v) \<union> (if at_mode v = Off then {} else set_option (at_other v)))"

definition merge_reads :: "seat \<Rightarrow> dtc option \<Rightarrow> bool" where
  "merge_reads v p \<longleftrightarrow> at_running v \<and> at_mode v \<noteq> Off \<and> at_other v = p"

definition idle_peer :: "seat list \<Rightarrow> nat \<Rightarrow> dtc option \<Rightarrow> bool" where
  "idle_peer vs i p \<longleftrightarrow> (\<exists>j < length vs. j \<noteq> i \<and> at_dtc (vs ! j) \<noteq> None \<and> p = at_dtc (vs ! j) \<and> \<not> at_running (vs ! j))"

text \<open>The promise of the macros: what may happen to the seats.\<close>

inductive seat_step :: "seat list \<Rightarrow> seat list \<Rightarrow> bool" where
  stop: "seat_step vs (vs[i := (vs ! i)\<lparr>at_running := False\<rparr>])"
| leave_merge: "seat_step vs (vs[i := (vs ! i)\<lparr>at_mode := Off, at_other := None\<rparr>])"
| idle: "\<not> at_running (vs ! i) \<Longrightarrow>
    seat_step vs (vs[i := (vs ! i)\<lparr>at_this := d, at_mode := m, at_other := p\<rparr>])"
| launch: "\<lbrakk>\<not> at_running (vs ! i); \<forall>j < length vs. j \<noteq> i \<longrightarrow> \<not> merge_reads (vs ! j) (at_dtc (vs ! i));
    m \<noteq> Off \<longrightarrow> at_device (vs ! i) = 0 \<and> idle_peer vs i p\<rbrakk> \<Longrightarrow>
    seat_step vs (vs[i := (vs ! i)\<lparr>at_running := True, at_this := at_dtc (vs ! i), at_mode := m, at_other := p\<rparr>])"

definition own_devices :: "seat list \<Rightarrow> bool" where
  "own_devices vs \<longleftrightarrow> (\<forall>i < length vs. \<forall>j < length vs. i \<noteq> j \<longrightarrow>
       (at_dtc (vs ! i) = at_dtc (vs ! j) \<longrightarrow> at_dtc (vs ! i) = None)
     \<and> \<not> (at_device (vs ! i) = 0 \<and> at_device (vs ! j) = 0))"

definition well_run :: "seat list \<Rightarrow> nat \<Rightarrow> bool" where
  "well_run vs i \<longleftrightarrow> (at_running (vs ! i) \<longrightarrow> at_this (vs ! i) = at_dtc (vs ! i)
     \<and> (at_mode (vs ! i) \<noteq> Off \<longrightarrow> at_device (vs ! i) = 0 \<and> idle_peer vs i (at_other (vs ! i))))"

definition supervised :: "seat list \<Rightarrow> bool" where
  "supervised vs \<longleftrightarrow> own_devices vs \<and> (\<forall>i < length vs. well_run vs i)"

lemma own_devices_upd:
  "at_device v = at_device (vs ! i) \<Longrightarrow> at_dtc v = at_dtc (vs ! i) \<Longrightarrow> own_devices (vs[i := v]) = own_devices vs"
  by (cases "i < length vs") (simp_all add: own_devices_def nth_list_update, smt (verit))

lemma idle_peer_upd:
  assumes "idle_peer vs k p" and "at_dtc v = at_dtc (vs ! i)" and "at_running v \<Longrightarrow> at_running (vs ! i) \<or> p \<noteq> at_dtc (vs ! i)"
  shows "idle_peer (vs[i := v]) k p"
  using assms by (cases "i < length vs") (auto simp: idle_peer_def nth_list_update)

lemma supervised_step:
  assumes "seat_step vs ws" and "supervised vs"
  shows "supervised ws"
  using assms(1)
proof cases
  case (stop i)
  have "well_run ws k" if "k < length vs" for k
    using that assms(2) unfolding stop
    by (cases "i < length vs") (auto simp: supervised_def well_run_def nth_list_update intro!: idle_peer_upd)
  then show ?thesis using assms(2) unfolding stop by (simp add: supervised_def own_devices_upd)
next
  case (leave_merge i)
  have "well_run ws k" if "k < length vs" for k
    using that assms(2) unfolding leave_merge
    by (cases "i < length vs") (auto simp: supervised_def well_run_def nth_list_update intro!: idle_peer_upd)
  then show ?thesis using assms(2) unfolding leave_merge by (simp add: supervised_def own_devices_upd)
next
  case (idle i d m p)
  have "well_run ws k" if "k < length vs" for k
    using that assms(2) idle(2) unfolding idle(1)
    by (cases "i < length vs") (auto simp: supervised_def well_run_def nth_list_update intro!: idle_peer_upd)
  then show ?thesis using assms(2) unfolding idle(1) by (simp add: supervised_def own_devices_upd)
next
  case (launch i m p)
  have "well_run ws k" if "k < length vs" for k
  proof (cases "k = i")
    case True
    then show ?thesis
      using that launch(4) unfolding launch(1) by (auto simp: well_run_def idle_peer_def nth_list_update)
  next
    case False
    then show ?thesis
      using that launch(3) assms(2) unfolding launch(1)
      by (cases "i < length vs") (auto simp: supervised_def well_run_def merge_reads_def nth_list_update intro!: idle_peer_upd)
  qed
  then show ?thesis using assms(2) unfolding launch(1) by (simp add: supervised_def own_devices_upd)
qed

lemma supervised_disjoint:
  assumes "supervised vs" and "i < length vs" and "j < length vs" and "i \<noteq> j"
  shows "reads (vs ! i) \<inter> reads (vs ! j) = {}"
proof -
  have own: "at_dtc (vs ! k) = at_dtc (vs ! l) \<Longrightarrow> at_dtc (vs ! k) = None"
      "\<not> (at_device (vs ! k) = 0 \<and> at_device (vs ! l) = 0)"
    if "k < length vs" "l < length vs" "k \<noteq> l" for k l
    using assms(1) that by (auto simp: supervised_def own_devices_def)
  have run: "well_run vs i" "well_run vs j" using assms(1-3) by (auto simp: supervised_def)
  show ?thesis
  proof (rule ccontr)
    assume "reads (vs ! i) \<inter> reads (vs ! j) \<noteq> {}"
    then obtain d where d: "d \<in> reads (vs ! i)" "d \<in> reads (vs ! j)" by blast
    have r: "at_running (vs ! i)" "at_running (vs ! j)" using d by (auto simp: reads_def split: if_splits)
    have from_own: "at_dtc (vs ! k) = Some d \<or> (at_device (vs ! k) = 0 \<and> at_mode (vs ! k) \<noteq> Off
        \<and> (\<exists>l < length vs. at_dtc (vs ! l) = Some d \<and> \<not> at_running (vs ! l)))"
      if "d \<in> reads (vs ! k)" "at_running (vs ! k)" "well_run vs k" for k
      using that by (auto simp: reads_def well_run_def idle_peer_def split: if_splits)
    from from_own [OF d(1) r(1) run(1)] from_own [OF d(2) r(2) run(2)] show False
      using own r assms(2-4) by (metis option.distinct(1))
  qed
qed

subsection \<open>Steps that leave the seats alone\<close>

definition view :: "'e fesystem \<Rightarrow> bool \<times> seat list" where
  "view s = (sy_manager s, seats s)"

definition quiet_step :: "('e, 'a) ctl_eff \<Rightarrow> bool" where
  "quiet_step m \<longleftrightarrow> (\<forall>v. keeps (\<lambda>s. view s = v) m)"

named_theorems quiet_intros \<open>an operation of a macro leaves the seats alone\<close>

lemma quiet_combinators [quiet_intros]:
  "quiet_step (ret a)" "quiet_step (throw t)" "quiet_step (gets g)"
  "quiet_step m \<Longrightarrow> (\<And>a. quiet_step (k a)) \<Longrightarrow> quiet_step (bindE m k)"
  "quiet_step n1 \<Longrightarrow> quiet_step n2 \<Longrightarrow> quiet_step (seqE n1 n2)"
  "quiet_step m \<Longrightarrow> (\<And>e. quiet_step (h e)) \<Longrightarrow> quiet_step (tryE m h)"
  "quiet_step m \<Longrightarrow> quiet_step m' \<Longrightarrow> quiet_step (if b then m else m')"
  "quiet_step n1 \<Longrightarrow> quiet_step (whenE b n1)"
  "(\<And>x acc. quiet_step (f x acc)) \<Longrightarrow> quiet_step (foldE f xs acc0)"
  "quiet_step m \<Longrightarrow> (\<And>a. quiet_step (g' a)) \<Longrightarrow> quiet_step (case p of None \<Rightarrow> m | Some a \<Rightarrow> g' a)"
  "(\<And>a b. quiet_step (g2 a b)) \<Longrightarrow> quiet_step (case_prod g2 q)"
  unfolding quiet_step_def by (auto intro!: inv_intros split: option.split prod.split)

lemma quiet_modify: "(\<And>s. view (f s) = view s) \<Longrightarrow> quiet_step (modify f)"
  by (simp add: quiet_step_def keeps_modify)

lemma seats_length [simp]: "length (seats s) = fe_count s"
  by (simp add: seats_def)

lemma seats_nth [simp]: "i < fe_count s \<Longrightarrow> seats s ! i = seat_of (fe_at s i) (test_of s i)"
  by (simp add: seats_def)

lemma seat_of_simps [simp]:
  "at_device (seat_of f t) = fe_device f" "at_dtc (seat_of f t) = fe_dtc f" "at_running (seat_of f t) = running t"
  "at_this (seat_of f t) = thisDTC t" "at_mode (seat_of f t) = mergeMode t" "at_other (seat_of f t) = otherDTC t"
  by (simp_all add: seat_of_def)

lemma seats_env [simp]: "seats (s\<lparr>sy_env := e\<rparr>) = seats s"
  by (simp add: seats_def test_of_def seat_of_def new_thread_def split: option.split)

lemma manager_upd [simp]: "sy_manager (upd_fe i f s) = sy_manager s" "sy_manager (upd_test i f2 s) = sy_manager s"
  by (simp_all add: upd_fe_def upd_test_def)

lemma count_upd [simp]: "fe_count (upd_fe i f s) = fe_count s" "fe_count (upd_test i f2 s) = fe_count s"
  by (simp_all add: upd_fe_def upd_test_def)

lemma seats_upd_test: "seats (upd_test i f s) = (seats s)[i := seat_of (fe_at s i) (f (test_of s i))]"
proof (rule nth_equalityI)
  fix k assume "k < length (seats (upd_test i f s))"
  then have "k < fe_count s" by (simp add: upd_test_def upd_fe_def)
  then show "seats (upd_test i f s) ! k = (seats s)[i := seat_of (fe_at s i) (f (test_of s i))] ! k"
    by (cases "k = i")
      (simp_all add: seats_def upd_test_def upd_fe_def test_of_def seat_of_def nth_list_update new_thread_def split: option.split)
qed simp

lemma view_env: "view (s\<lparr>sy_env := e\<rparr>) = view s"
  by (simp add: view_def)

lemma view_upd_test: "seat_of (fe_at s i) (f (test_of s i)) = seat_of (fe_at s i) (test_of s i) \<Longrightarrow> view (upd_test i f s) = view s"
  by (cases "i < fe_count s") (simp_all add: view_def seats_upd_test list_update_same_conv list_update_beyond)

lemma view_upd_fe:
  assumes "\<And>x. fe_device (f x) = fe_device x \<and> fe_dtc (f x) = fe_dtc x \<and> fe_test (f x) = fe_test x"
  shows "view (upd_fe i f s) = view s"
proof -
  have "seats (upd_fe i f s) = seats s"
  proof (rule nth_equalityI)
    fix k assume "k < length (seats (upd_fe i f s))"
    then have "k < fe_count s" by (simp add: upd_fe_def)
    then show "seats (upd_fe i f s) ! k = seats s ! k"
      using assms by (cases "k = i") (simp_all add: seats_def upd_fe_def test_of_def seat_of_def new_thread_def split: option.split)
  qed simp
  then show ?thesis by (simp add: view_def)
qed

lemma quiet_env [quiet_intros]: "quiet_step (on_env m)"
  by (simp add: quiet_step_def keeps_def on_env_def view_env split: prod.split)

lemma quiet_queries [quiet_intros]:
  "quiet_step (getDTC i)" "quiet_step (ask C i g)" "quiet_step (ensure_test i)" "quiet_step (dest_nodes C i b)"
  "quiet_step (first_tag C i b f)" "quiet_step (own_gate C i)" "quiet_step (slot_of C i)" "quiet_step (status_text C i)"
proof -
  show g: "quiet_step (getDTC i)" for i unfolding getDTC_def by (intro quiet_intros)
  show a: "quiet_step (ask C i g)" for i g unfolding ask_def by (intro quiet_intros g)
  show "quiet_step (ensure_test i)"
    unfolding ensure_test_def by (intro quiet_modify view_upd_test refl)
  show "quiet_step (dest_nodes C i b)" "quiet_step (first_tag C i b f)" "quiet_step (own_gate C i)" "quiet_step (slot_of C i)"
    "quiet_step (status_text C i)"
    unfolding dest_nodes_def first_tag_def own_gate_def slot_of_def status_text_def by (intro quiet_intros a g)+
qed

lemma quiet_options [quiet_intros]: "quiet_step (copy_options i b b')" "quiet_step (set_options i a)"
  unfolding copy_options_def set_options_def
  by (intro quiet_intros quiet_modify view_upd_test view_upd_fe; simp add: seat_of_def)+

lemma quiet_gates [quiet_intros]: "quiet_step (require_routing C i j m)" "quiet_step (start_gates C i a p)"
  "quiet_step (requireNoMergeReaderOnThisDTC i)" "quiet_step (merge_peer i a)"
proof -
  show r: "quiet_step (require_routing C i j m)" for j m unfolding require_routing_def by (intro quiet_intros)
  show "quiet_step (start_gates C i a p)" unfolding start_gates_def by (intro quiet_intros r)
  show "quiet_step (requireNoMergeReaderOnThisDTC i)" "quiet_step (merge_peer i a)"
    unfolding requireNoMergeReaderOnThisDTC_def merge_peer_def by (intro quiet_intros)+
qed

lemma quiet_parity [quiet_intros]: "quiet_step (getEVBWireParity C)"
  unfolding getEVBWireParity_def wire_nodes_def wire_node_of_def Let_def by (intro quiet_intros)

lemma quiet_mask: "quiet_step (SetEVBStartGateIgnoreMask C i m)"
  unfolding SetEVBStartGateIgnoreMask_def Let_def by (intro quiet_intros quiet_modify view_upd_fe; simp)

text \<open>What a macro started with seats \<open>vs\<close> may have reached.\<close>

definition reached :: "seat list \<Rightarrow> 'e fesystem \<Rightarrow> bool" where
  "reached vs s \<longleftrightarrow> sy_manager s \<and> seat_step\<^sup>*\<^sup>* vs (seats s)"

definition at_seats :: "seat list \<Rightarrow> 'e fesystem \<Rightarrow> bool" where
  "at_seats vs s \<longleftrightarrow> view s = (True, vs)"

lemma at_seats_reached: "at_seats vs s \<Longrightarrow> seat_step\<^sup>*\<^sup>* us vs \<Longrightarrow> reached us s"
  by (simp add: at_seats_def reached_def view_def)

lemma quiet_at: "quiet_step m \<Longrightarrow> keeps (at_seats vs) m"
  by (simp add: quiet_step_def at_seats_def [abs_def])

lemma quiet_reached: "quiet_step m \<Longrightarrow> keeps (reached vs) m"
  by (auto simp: quiet_step_def keeps_def reached_def view_def)

lemma ends_quiet: "quiet_step m \<Longrightarrow> seat_step\<^sup>*\<^sup>* us vs \<Longrightarrow> ends (at_seats vs) m (\<lambda>_. at_seats vs) (reached us)"
  by (intro ends_keeps quiet_at at_seats_reached)

lemma ends_modify_seats:
  assumes "\<And>s. at_seats vs s \<Longrightarrow> at_seats ws (f s)" and "seat_step\<^sup>*\<^sup>* us ws"
  shows "ends (at_seats vs) (modify f) (\<lambda>_. at_seats ws) (reached us)"
  using assms by (intro ends_modify) (auto intro: at_seats_reached)

lemma at_seats_upd:
  assumes "at_seats vs s" and "i < fe_count s"
    and "seat_of (fe_at s i) (f (test_of s i)) = v (vs ! i)"
  shows "at_seats (vs[i := v (vs ! i)]) (upd_test i f s)"
  using assms by (auto simp: at_seats_def view_def seats_upd_test)

end
