(* ===== verification/Supervisor_Macros.thy ===== *)
theory Supervisor_Macros
  imports Supervisor_Seats
begin

section \<open>Each macro moves the seats as promised\<close>

text \<open>
  \<open>start_test\<close>, \<open>initDetachedBufferTest\<close>, \<open>halt_test\<close> and \<open>BufferTest_detached\<close>, started with seats
  \<open>vs\<close>, end - by a return or by an exception at any point - with seats the abstract machine reaches
  from \<open>vs\<close>.
\<close>

subsection \<open>The macros keep the promise\<close>

definition plain_meanwhile :: "'e control \<Rightarrow> bool" where
  "plain_meanwhile C \<longleftrightarrow> (\<forall>s. sy_manager (ct_meanwhile C s) = sy_manager s \<and> seat_step\<^sup>*\<^sup>* (seats s) (seats (ct_meanwhile C s)))"

lemma reached_pause: "plain_meanwhile C \<Longrightarrow> keeps (reached vs) (pause_ms C ms)"
  unfolding pause_ms_def
  by (intro keeps_seqE [OF quiet_reached [OF quiet_env]] keeps_modify)
    (auto simp: plain_meanwhile_def reached_def dest: rtranclp_trans)

text \<open>The state in which a launch may happen.\<close>

definition may_launch :: "seat list \<Rightarrow> nat \<Rightarrow> DetachedMergeMode \<Rightarrow> dtc option \<Rightarrow> bool" where
  "may_launch vs i m p \<longleftrightarrow> i < length vs \<and> \<not> at_running (vs ! i)
     \<and> (\<forall>j < length vs. j \<noteq> i \<longrightarrow> \<not> merge_reads (vs ! j) (at_dtc (vs ! i)))
     \<and> (m \<noteq> Off \<longrightarrow> at_device (vs ! i) = 0 \<and> idle_peer vs i p)"

lemma at_seats_fe:
  assumes "at_seats vs s" and "i < length vs"
  shows "sy_manager s" "i < fe_count s" "fe_count s = length vs" "vs ! i = seat_of (fe_at s i) (test_of s i)"
proof -
  have "vs = seats s" "sy_manager s" using assms(1) by (simp_all add: at_seats_def view_def)
  then show "sy_manager s" "i < fe_count s" "fe_count s = length vs" "vs ! i = seat_of (fe_at s i) (test_of s i)"
    using assms(2) by simp_all
qed

lemma reader_test: "merge_reader_of s p j \<longleftrightarrow> merge_reads (seat_of (fe_at s j) (test_of s j)) p"
  by (simp add: merge_reader_of_def merge_reads_def test_of_def new_thread_def split: option.split)

lemma no_reader:
  assumes "i < length vs"
  shows "ends (at_seats vs) (requireNoMergeReaderOnThisDTC i)
    (\<lambda>_ s. at_seats vs s \<and> (\<forall>j < length vs. j \<noteq> i \<longrightarrow> \<not> merge_reads (vs ! j) (at_dtc (vs ! i)))) (at_seats vs)"
proof -
  have "\<forall>j < length vs. j \<noteq> i \<longrightarrow> \<not> merge_reads (vs ! j) (at_dtc (vs ! i))"
    if s: "at_seats vs s" and none: "List.find (\<lambda>j. j \<noteq> i \<and> merge_reader_of s (fe_dtc (fe_at s i)) j) (visible_fes s) = None" for s
  proof (intro allI impI)
    fix j assume j: "j < length vs" "j \<noteq> i"
    then show "\<not> merge_reads (vs ! j) (at_dtc (vs ! i))"
      using none at_seats_fe [OF s assms] at_seats_fe(4) [OF s j(1)]
        by (auto simp: find_None_iff visible_fes_def reader_test)
  qed
  then show ?thesis
    unfolding requireNoMergeReaderOnThisDTC_def
    by (auto simp: ends_def bindE_def gets_def ret_def throw_def split: option.split)
qed

lemma peer_found:
  assumes "i < length vs"
  shows "ends (at_seats vs) (merge_peer i a)
    (\<lambda>j s. at_seats vs s \<and> j < length vs \<and> j \<noteq> i \<and> at_device (vs ! i) = 0 \<and> at_dtc (vs ! j) \<noteq> None \<and> \<not> at_running (vs ! j))
    (at_seats vs)"
proof -
  have "j < length vs \<and> j \<noteq> i \<and> at_device (vs ! i) = 0 \<and> at_dtc (vs ! j) \<noteq> None \<and> \<not> at_running (vs ! j) \<and> t = s"
    if s: "at_seats vs s" and run: "merge_peer i a s = (Ret j, t)" for s j t
  proof -
    have found: "List.find (\<lambda>j. j \<noteq> i \<and> fe_device (fe_at s j) = 1) (visible_fes s) = Some j"
      and ok: "fe_device (fe_at s i) = 0" "fe_dtc (fe_at s j) \<noteq> None"
        "\<not> (case fe_test (fe_at s j) of None \<Rightarrow> False | Some t \<Rightarrow> running t)" "t = s"
      using run by (auto simp: merge_peer_def findPeerDTCFrontEnd_def bindE_def gets_def ret_def throw_def
          split: if_splits option.splits)
    have j: "j < fe_count s" "j \<noteq> i" using found at_seats_fe [OF s assms] by (auto simp: find_Some_iff visible_fes_def)
    then have "j < length vs" using at_seats_fe [OF s assms] by simp
    moreover have "\<not> running (test_of s j)" using ok(3) by (simp add: test_of_def new_thread_def split: option.splits)
    ultimately show ?thesis
      using j(2) ok at_seats_fe [OF s assms] at_seats_fe(4) [OF s \<open>j < length vs\<close>] by simp
  qed
  then show ?thesis
    using quiet_at [OF quiet_gates(4), of vs i a] unfolding ends_def keeps_def by (metis prod.collapse)
qed

lemma launched:
  assumes "may_launch vs i m p" and "seat_step\<^sup>*\<^sup>* us vs"
  shows "seat_step\<^sup>*\<^sup>* us (vs[i := (vs ! i)\<lparr>at_running := True, at_this := at_dtc (vs ! i), at_mode := m, at_other := p\<rparr>])"
  using assms by (intro rtranclp.rtrancl_into_rtrancl [OF assms(2) seat_step.launch]) (auto simp: may_launch_def)

lemma launch_reached:
  assumes may: "may_launch vs i (merge_mode_of (ta_merge a)) (case peer of None \<Rightarrow> None | Some j \<Rightarrow> at_dtc (vs ! j))"
    and peer: "\<And>j. peer = Some j \<Longrightarrow> j < length vs" and us: "seat_step\<^sup>*\<^sup>* us vs"
  shows "ends (at_seats vs) (launch_test C i a peer) (\<lambda>_. reached us) (reached us)"
proof -
  let ?m = "merge_mode_of (ta_merge a)" and ?p = "case peer of None \<Rightarrow> None | Some j \<Rightarrow> at_dtc (vs ! j)"
  let ?w = "\<lambda>v. v\<lparr>at_this := at_dtc v, at_mode := ?m, at_other := ?p\<rparr>"
  let ?r = "\<lambda>v. v\<lparr>at_running := True\<rparr>"
  define ws where "ws = vs[i := ?w (vs ! i)]"
  have i: "i < length vs" "\<not> at_running (vs ! i)" using may by (simp_all add: may_launch_def)
  have ws: "seat_step\<^sup>*\<^sup>* us ws" unfolding ws_def
    by (rule rtranclp.rtrancl_into_rtrancl [OF us seat_step.idle [OF i(2)]])
  have "seat_step\<^sup>*\<^sup>* us (ws[i := ?r (ws ! i)])"
    using launched [OF may us] i by (cases "vs ! i") (simp add: ws_def)
  note steps = us ws this
  have same: "at_seats vs (upd_test i f s)" if "at_seats vs s" "\<And>t x. seat_of x (f t) = seat_of x t" for f s
    using that by (simp add: at_seats_def view_upd_test)
  have same': "at_seats ws (upd_test i f s)" if "at_seats ws s" "\<And>t x. seat_of x (f t) = seat_of x t" for f s
    using that by (simp add: at_seats_def view_upd_test)
  have set: "at_seats ws (upd_test i (\<lambda>t. lower_exit C (t\<lparr>expectedEventTag := tag, saveBinaryData := ta_save a,
              saveBinaryDataFilename := ta_filename a, saveSubeventHeadersToBinaryData := ta_saveHeaders a,
              resetStartEventTag := False, thisDTC := at_dtc (vs ! i), mergeMode := ?m,
              otherDTC := ?p, otherDTCUID := uid\<rparr>)) s)" if "at_seats vs s" for s tag uid
    unfolding ws_def using that i at_seats_fe [OF that i(1)]
    by (intro at_seats_upd [where v = ?w]) (simp_all add: seat_of_def lower_exit_def)
  have run: "at_seats (ws[i := ?r (ws ! i)]) (upd_test i (\<lambda>t. t\<lparr>pairTimeoutMs := n, running := True, error_text := []\<rparr>) s)"
    if "at_seats ws s" for s n
    using that i at_seats_fe [OF that, of i]
    by (intro at_seats_upd [where v = ?r]) (simp_all add: seat_of_def ws_def)
  have who: "ends (at_seats vs) (gets (\<lambda>s. (fe_dtc (fe_at s i), case peer of None \<Rightarrow> None | Some j \<Rightarrow> fe_dtc (fe_at s j),
                        case peer of None \<Rightarrow> [] | Some j \<Rightarrow> fe_uid (fe_at s j))))
    (\<lambda>(d, p, uid) s. at_seats vs s \<and> d = at_dtc (vs ! i) \<and> p = ?p) (reached us)"
  proof (rule ends_gets, goal_cases)
    case (1 s)
    then show ?case
      using at_seats_fe [OF 1 i(1)] at_seats_fe(4) [OF 1 peer] at_seats_reached [OF 1 us] by (auto split: option.split)
  qed
  show ?thesis
    unfolding launch_test_def
    apply (rule ends_bindE [OF ends_quiet [OF quiet_options(1) us]])
    apply (rule ends_bindE [OF ends_quiet [OF quiet_queries(4) us]])
    apply (rule ends_bindE [OF ends_modify_seats [OF same us]], assumption, simp add: seat_of_def)
    apply (rule ends_bindE [OF ends_quiet [OF quiet_queries(5) us]])
    apply (rule ends_bindE [OF who])
    apply (clarsimp, rule ends_bindE [where R = "\<lambda>_. at_seats ws"])
     apply (rule ends_modify, clarsimp, blast intro: set at_seats_reached ws)
    apply (rule ends_bindE [OF ends_quiet [OF _ ws]], intro quiet_intros)
    apply (rule ends_bindE [OF ends_modify_seats [OF same' ws]], assumption, simp add: seat_of_def)
    apply (rule ends_bindE [OF ends_quiet [OF quiet_queries(2) ws]])
    apply (rule ends_modify, blast intro: run at_seats_reached steps)
    done
qed

lemma ends_later: "keeps (reached us) m \<Longrightarrow> ends (reached us) m (\<lambda>_. reached us) (reached us)"
  by (intro ends_keeps)

lemma busy_seat:
  assumes "i < length vs" and "seat_step\<^sup>*\<^sup>* us vs"
  shows "ends (at_seats vs) (gets (\<lambda>s. running (test_of s i))) (\<lambda>b s. at_seats vs s \<and> b = at_running (vs ! i)) (reached us)"
proof (rule ends_gets, goal_cases)
  case (1 s)
  then show ?case using at_seats_fe [OF 1 assms(1)] at_seats_reached [OF 1 assms(2)] by simp
qed

lemma start_reached:
  fixes C :: "'e control"
  assumes "plain_meanwhile C" and i: "i < length vs"
  shows "ends (at_seats vs) (start_test C i a) (\<lambda>_. reached vs) (reached vs)"
proof -
  have vs: "seat_step\<^sup>*\<^sup>* vs vs" by (rule rtranclp.rtrancl_refl)
  have at: "at_seats vs s \<Longrightarrow> reached vs s" for s :: "'e fesystem" by (rule at_seats_reached [OF _ vs])
  let ?free = "\<forall>j < length vs. j \<noteq> i \<longrightarrow> \<not> merge_reads (vs ! j) (at_dtc (vs ! i))"
  let ?p = "\<lambda>peer. case peer of None \<Rightarrow> None | Some j \<Rightarrow> at_dtc (vs ! j)" and ?m = "merge_mode_of (ta_merge a)"
  let ?found = "\<lambda>peer. (\<forall>j. peer = Some j \<longrightarrow> j < length vs)
        \<and> (?m \<noteq> Off \<longrightarrow> at_device (vs ! i) = 0 \<and> idle_peer vs i (?p peer))"
  have peer: "ends (at_seats vs) (if ta_merge a = 0 then ret None else bindE (merge_peer i a) (\<lambda>j. ret (Some j)))
      (\<lambda>peer s. at_seats vs s \<and> ?found peer) (reached vs :: 'e fesystem \<Rightarrow> bool)"
  proof (rule ends_if)
    show "ends (at_seats vs) (ret None) (\<lambda>peer s. at_seats vs s \<and> ?found peer) (reached vs :: 'e fesystem \<Rightarrow> bool)" if "ta_merge a = 0"
      using that by (intro ends_ret) (simp add: merge_mode_of_def at)
    have "ends (at_seats vs) (merge_peer i a) (\<lambda>j s. at_seats vs s \<and> ?found (Some j)) (reached vs :: 'e fesystem \<Rightarrow> bool)"
      using peer_found [OF i, of a, where 'a = 'e] at unfolding ends_def idle_peer_def by fastforce
    then show "ends (at_seats vs) (bindE (merge_peer i a) (\<lambda>j. ret (Some j))) (\<lambda>peer s. at_seats vs s \<and> ?found peer)
        (reached vs :: 'e fesystem \<Rightarrow> bool)"
      by (rule ends_bindE) (auto intro!: ends_ret at)
  qed
  have free: "ends (at_seats vs) (requireNoMergeReaderOnThisDTC i) (\<lambda>_ s. at_seats vs s \<and> ?free) (reached vs :: 'e fesystem \<Rightarrow> bool)"
    using no_reader [OF i, where 'a = 'e] at unfolding ends_def by blast
  have go: "ends (at_seats vs)
      (bindE (requireNoMergeReaderOnThisDTC i) (\<lambda>_.
       bindE (if ta_merge a = 0 then ret None else bindE (merge_peer i a) (\<lambda>j. ret (Some j))) (\<lambda>peer.
       bindE (start_gates C i a peer) (\<lambda>_. bindE (launch_test C i a peer) (\<lambda>_. ret t)))))
      (\<lambda>_. reached vs) (reached vs)" if idle: "\<not> at_running (vs ! i)" for t :: string
  proof (rule ends_bindE [OF free], rule ends_pure, rule ends_bindE [OF peer], rule ends_pure)
    fix peer assume *: ?free "?found peer"
    have "may_launch vs i ?m (?p peer)" using i idle * by (simp add: may_launch_def)
    from launch_reached [OF this _ vs, of C] * show "ends (at_seats vs)
        (bindE (start_gates C i a peer) (\<lambda>_. bindE (launch_test C i a peer) (\<lambda>_. ret t))) (\<lambda>_. reached vs) (reached vs)"
      by (intro ends_bindE [OF ends_quiet [OF quiet_gates(2) vs]] ends_bindE [where R = "\<lambda>_. reached vs"] ends_ret) auto
  qed
  have busy: "ends (at_seats vs) (gets (\<lambda>s. running (test_of s i))) (\<lambda>b s. at_seats vs s \<and> b = at_running (vs ! i))
      (reached vs :: 'e fesystem \<Rightarrow> bool)"
    by (rule busy_seat [OF i vs])
  have tail: "keeps (reached vs) (bindE (pause_ms C 1000) (\<lambda>_. bindE (status_text C i) (\<lambda>status. ret (g status))))" for g :: "string \<Rightarrow> string"
    by (intro keeps_bindE reached_pause [OF assms(1)] quiet_reached quiet_intros)
  show ?thesis
    unfolding start_test_def
    apply (rule ends_bindE [OF ends_quiet [OF quiet_queries(3) vs]])
    apply (rule ends_bindE [OF busy])
    apply (rule ends_pure)
    apply (rule ends_bindE [OF _ ends_later [OF tail]])
    apply (rule ends_if)
     apply (rule ends_ret, simp add: at)
    apply (rule go, simp)
    done
qed

lemma init_reached:
  fixes C :: "'e control"
  assumes "plain_meanwhile C" and i: "i < length vs"
  shows "ends (at_seats vs) (initDetachedBufferTest C i a) (\<lambda>_. reached vs) (reached vs)"
proof -
  have vs: "seat_step\<^sup>*\<^sup>* vs vs" by (rule rtranclp.rtrancl_refl)
  have at: "at_seats vs s \<Longrightarrow> reached vs s" for s :: "'e fesystem" by (rule at_seats_reached [OF _ vs])
  let ?free = "\<forall>j < length vs. j \<noteq> i \<longrightarrow> \<not> merge_reads (vs ! j) (at_dtc (vs ! i))"
  let ?leave = "\<lambda>v. v\<lparr>at_mode := Off, at_other := None\<rparr>"
  let ?run = "\<lambda>v. v\<lparr>at_running := True, at_this := at_dtc v, at_mode := Off, at_other := None\<rparr>"
  have leave: "seat_step\<^sup>*\<^sup>* vs (vs[i := ?leave (vs ! i)])"
    using seat_step.leave_merge by (rule r_into_rtranclp)
  have run: "seat_step\<^sup>*\<^sup>* vs (vs[i := ?run (vs ! i)])" if "\<not> at_running (vs ! i)" ?free
    using that i launched [OF _ vs, of i Off None] by (simp add: may_launch_def)
  have free: "ends (at_seats vs) (requireNoMergeReaderOnThisDTC i) (\<lambda>_ s. at_seats vs s \<and> ?free) (reached vs :: 'e fesystem \<Rightarrow> bool)"
    using no_reader [OF i, where 'a = 'e] at unfolding ends_def by blast
  have busy: "ends (at_seats vs) (gets (\<lambda>s. running (test_of s i))) (\<lambda>b s. at_seats vs s \<and> b = at_running (vs ! i))
      (reached vs :: 'e fesystem \<Rightarrow> bool)"
    by (rule busy_seat [OF i vs])
  have same: "at_seats vs (upd_test i f s)" if "at_seats vs s" "\<And>t x. seat_of x (f t) = seat_of x t" for f and s :: "'e fesystem"
    using that by (simp add: at_seats_def view_upd_test)
  have struct: "ends (at_seats vs) (init_struct C i a (at_running (vs ! i))) (\<lambda>_. reached vs) (reached vs)" if ?free
  proof -
    have last: "ends (\<lambda>s. at_seats vs s \<and> d = at_dtc (vs ! i)) (modify (upd_test i (\<lambda>t.
       let t1 = lower_exit C (t\<lparr>expectedEventTag := tag, saveBinaryData := ia_save a,
                  saveBinaryDataFilename := ia_filename a, saveSubeventHeadersToBinaryData := ia_saveHeaders a,
                  releaseAllComplete := False, skipBy32 := ia_skipBy32 a, packetThresholdToSave := ia_packets a\<rparr>)
       in no_merge
         (if at_running (vs ! i)
          then t1\<lparr>resetStartEventTag := True, doNotResetCounters := ia_keepCounters a\<rparr>
          else t1\<lparr>resetStartEventTag := False, doNotResetCounters := False, thisDTC := d, running := True,
                 error_text := []\<rparr>)))) (\<lambda>_. reached vs) (reached vs)" for tag d
    proof (rule ends_pure, rule ends_modify)
      fix s :: "'e fesystem" assume s: "at_seats vs s" and d: "d = at_dtc (vs ! i)"
      let ?s = "upd_test i (\<lambda>t.
       let t1 = lower_exit C (t\<lparr>expectedEventTag := tag, saveBinaryData := ia_save a,
                  saveBinaryDataFilename := ia_filename a, saveSubeventHeadersToBinaryData := ia_saveHeaders a,
                  releaseAllComplete := False, skipBy32 := ia_skipBy32 a, packetThresholdToSave := ia_packets a\<rparr>)
       in no_merge
         (if at_running (vs ! i)
          then t1\<lparr>resetStartEventTag := True, doNotResetCounters := ia_keepCounters a\<rparr>
          else t1\<lparr>resetStartEventTag := False, doNotResetCounters := False, thisDTC := d, running := True,
                 error_text := []\<rparr>)) s"
      note fe = at_seats_fe [OF s i]
      have "reached vs ?s"
      proof (cases "at_running (vs ! i)")
        case True
        then have "at_seats (vs[i := ?leave (vs ! i)]) ?s"
          using fe by (intro at_seats_upd [OF s]) (simp_all add: seat_of_def Let_def no_merge_def lower_exit_def)
        then show ?thesis using leave by (rule at_seats_reached)
      next
        case False
        then have "at_seats (vs[i := ?run (vs ! i)]) ?s"
          using fe d by (intro at_seats_upd [OF s, where v = ?run]) (simp_all add: seat_of_def Let_def no_merge_def lower_exit_def)
        then show ?thesis using run [OF False that] by (rule at_seats_reached)
      qed
      then show "reached vs ?s \<and> reached vs ?s" by blast
    qed
    have dtc: "ends (at_seats vs) (gets (\<lambda>s. fe_dtc (fe_at s i))) (\<lambda>d s. at_seats vs s \<and> d = at_dtc (vs ! i))
        (reached vs :: 'e fesystem \<Rightarrow> bool)"
    proof (rule ends_gets, goal_cases)
      case (1 s)
      then show ?case using at_seats_fe [OF 1 i] at by simp
    qed
    show ?thesis
      unfolding init_struct_def
      by (intro ends_bindE [OF ends_quiet [OF quiet_options(1) vs]] ends_bindE [OF ends_quiet [OF quiet_queries(4) vs]]
          ends_bindE [OF ends_modify_seats [OF same vs]] ends_bindE [OF ends_quiet [OF quiet_queries(5) vs]]
          ends_bindE [OF dtc] last) (simp_all add: seat_of_def)
  qed
  have gate: "quiet_step (whenE (ia_evb a) (own_gate C i))" by (intro quiet_intros)
  have rest: "ends (at_seats vs) (seqE (bindE (gets (\<lambda>s. running (test_of s i))) (init_struct C i a)) (pause_ms C 1000))
      (\<lambda>_. reached vs) (reached vs)" if ?free
    unfolding seqE_def
    by (rule ends_bindE [OF ends_bindE [OF busy] ends_later [OF reached_pause [OF assms(1)]]], rule ends_pure)
      (simp add: struct [OF that])
  show ?thesis
    unfolding initDetachedBufferTest_def seqE_def [of "whenE _ _"] seqE_def [of "ensure_test _"]
      seqE_def [of "requireNoMergeReaderOnThisDTC _"]
    by (intro ends_bindE [OF ends_quiet [OF gate vs]] ends_bindE [OF ends_quiet [OF quiet_queries(3) vs]]
        ends_bindE [OF free] ends_pure rest)
qed

subsection \<open>The halt and the macro\<close>

lemma seat_step_length: "seat_step vs ws \<Longrightarrow> length ws = length vs"
  by (cases rule: seat_step.cases) auto

lemma seat_steps_length: "seat_step\<^sup>*\<^sup>* vs ws \<Longrightarrow> length ws = length vs"
  by (induction rule: rtranclp_induct) (auto simp: seat_step_length)

lemma quiet_test: "(\<And>x t. seat_of x (f t) = seat_of x t) \<Longrightarrow> quiet_step (modify (upd_test i f))"
  by (intro quiet_modify view_upd_test)

lemma end_merge_reached:
  fixes C :: "'e control"
  assumes us: "seat_step\<^sup>*\<^sup>* us vs" and i: "i < length vs"
  shows "ends (at_seats vs) (end_merge C i) (\<lambda>_. reached us) (reached us)"
proof -
  let ?p = "\<lambda>v. v\<lparr>at_this := at_this v, at_mode := at_mode v, at_other := None\<rparr>"
  have drop: "quiet_step (modify (upd_test i drop_pending))"
    by (rule quiet_test) (simp add: drop_pending_def seat_of_def)
  have last: "ends (at_seats vs) (modify (upd_test i (\<lambda>t. t\<lparr>otherDTC := None\<rparr>))) (\<lambda>_. reached us) (reached us :: 'e fesystem \<Rightarrow> bool)"
    if "\<not> at_running (vs ! i)"
  proof (rule ends_modify)
    fix s :: "'e fesystem" assume s: "at_seats vs s"
    have "at_seats (vs[i := ?p (vs ! i)]) (upd_test i (\<lambda>t. t\<lparr>otherDTC := None\<rparr>) s)"
      using at_seats_fe [OF s i] by (intro at_seats_upd [OF s, where v = ?p]) (simp_all add: seat_of_def)
    then show "reached us (upd_test i (\<lambda>t. t\<lparr>otherDTC := None\<rparr>) s) \<and> reached us (upd_test i (\<lambda>t. t\<lparr>otherDTC := None\<rparr>) s)"
      using rtranclp.rtrancl_into_rtrancl [OF us seat_step.idle [OF that]] at_seats_reached by blast
  qed
  have test: "ends (at_seats vs) (gets (\<lambda>s. test_of s i)) (\<lambda>t s. at_seats vs s \<and> running t = at_running (vs ! i)) (reached us)"
  proof (rule ends_gets, goal_cases)
    case (1 s)
    then show ?case using at_seats_fe [OF 1 i] at_seats_reached [OF 1 us] by simp
  qed
  show ?thesis
    unfolding end_merge_def seqE_def
    apply (rule ends_bindE [OF test])
    apply (rule ends_pure, rule ends_if)
     apply (rule ends_ret, blast intro: at_seats_reached us)
    apply (rule ends_bindE [OF ends_quiet [OF drop us]])
    apply (rule ends_bindE [OF ends_quiet [OF _ us]], intro quiet_intros)
    apply (rule last, simp)
    done
qed

lemma halt_reached:
  fixes C :: "'e control"
  assumes "plain_meanwhile C" and i: "i < length vs"
  shows "keeps (reached vs) (halt_test C i)"
proof -
  have await: "keeps (reached vs) (await_exit C i)"
    unfolding await_exit_def
    by (intro keeps_bindE keeps_foldE keeps_if keeps_seqE reached_pause [OF assms(1)] quiet_reached quiet_intros)
  have close: "quiet_step (close_left_open C i)"
    unfolding close_left_open_def seqE_def by (intro quiet_intros quiet_test) (simp add: seat_of_def)
  have merged: "keeps (reached vs) (end_merge C i)"
  proof (rule keepsI)
    fix s :: "'e fesystem" assume s: "reached vs s"
    then have "at_seats (seats s) s" "seat_step\<^sup>*\<^sup>* vs (seats s)" "i < length (seats s)"
      using i seat_steps_length [of vs "seats s"] by (auto simp: reached_def at_seats_def view_def)
    then show "reached vs (snd (end_merge C i s))" using ends_I [OF end_merge_reached] by blast
  qed
  have raise_exit: "quiet_step (modify (upd_test i (\<lambda>t. t\<lparr>tenv := d_setExit (dio (ct_det C)) True (tenv t)\<rparr>)))"
    by (rule quiet_test) (simp add: seat_of_def)
  have final: "quiet_step (tryE (status_text C i) (\<lambda>_. ret []))" by (intro quiet_intros)
  show ?thesis
    unfolding halt_test_def
    by (rule keeps_bindE [OF quiet_reached [OF quiet_queries(3)]], rule keeps_bindE [OF quiet_reached [OF raise_exit]],
        rule keeps_bindE [OF await], rule keeps_bindE [OF quiet_reached [OF close]], rule keeps_bindE [OF keeps_gets],
        rule keeps_bindE [OF quiet_reached [OF final]], rule keeps_bindE [OF merged], rule keeps_ret)
qed

lemma macro_reached:
  fixes C :: "'e control"
  assumes "plain_meanwhile C" and i: "i < length vs"
  shows "ends (at_seats vs) (BufferTest_detached C i a) (\<lambda>_. reached vs) (reached vs)"
proof -
  have vs: "seat_step\<^sup>*\<^sup>* vs vs" by (rule rtranclp.rtrancl_refl)
  have at: "at_seats vs s \<Longrightarrow> reached vs s" for s :: "'e fesystem" by (rule at_seats_reached [OF _ vs])
  have halt: "ends (at_seats vs) (halt_test C i) (\<lambda>_. reached vs) (reached vs)"
    using halt_reached [OF assms] at unfolding ends_def keeps_def by blast
  have status: "ends (at_seats vs) m (\<lambda>_. reached vs) (reached vs)" if "quiet_step m" for m :: "('e, string) ctl_eff"
    by (rule ends_post [OF ends_quiet [OF that vs]]) (rule at)
  have cmd: "ends (at_seats vs) (run_command C i a) (\<lambda>_. reached vs) (reached vs)"
    unfolding run_command_def Let_def
    by (intro ends_if start_reached [OF assms] halt status quiet_intros)
  have tail: "keeps (reached vs) (bindE (gets (\<lambda>s. fe_test (fe_at s i))) (\<lambda>t.
          bindE (if (case t of None \<Rightarrow> False | Some t \<Rightarrow> inEVBMode t)
                 then tryE (getEVBWireParity C) (\<lambda>e. ret (''EVB Wire Parity: '' @ e @ newline))
                 else ret []) (\<lambda>parity. ret (g parity))))" for g :: "string \<Rightarrow> string"
    by (intro quiet_reached quiet_intros)
  show ?thesis
    unfolding BufferTest_detached_def
    apply (rule ends_bindE [OF ends_quiet [OF quiet_options(2) vs]])
    apply (rule ends_if)
     apply (rule ends_throw, erule at)
    apply (rule ends_bindE [OF cmd])
    apply (rule ends_later [OF tail])
    done
qed


end
