(* ===== verification/One_Reader.thy ===== *)
theory One_Reader
  imports Supervisor_Macros Thread_Runs
begin

section \<open>No two threads read the DMA of one DTC\<close>

text \<open>
  The steps of a whole supervisor - the macros of its front ends and the rounds of their threads - as an
  inductive relation, their refinement to the abstract machine, and the exclusion that follows.
\<close>

subsection \<open>What the thread never touches\<close>

text \<open>The handles and the mode of a test, which decide whose DMA its thread reads.\<close>

definition handles :: "'e thread \<Rightarrow> _" where
  "handles t = (running t, thisDTC t, mergeMode t, otherDTC t)"

lemma handles_simps [simp]:
  "handles (t\<lparr>tenv := e\<rparr>) = handles t"
  "handles (t\<lparr>evb := v\<rparr>) = handles t"
  "handles (t\<lparr>nextEventWindowTag := x\<rparr>) = handles t"
  "handles (t\<lparr>eventsCount := n\<rparr>) = handles t"
  "handles (t\<lparr>releaseAllComplete := b\<rparr>) = handles t"
  "handles (t\<lparr>rocLinkEnabledLatch := m\<rparr>) = handles t"
  "handles (t\<lparr>fp := f\<rparr>) = handles t"
  "handles (t\<lparr>saveBinaryDataFilename := nm\<rparr>) = handles t"
  "handles (t\<lparr>resetStartEventTag := b\<rparr>) = handles t"
  "handles (t\<lparr>unmatchedDTC0Count := n\<rparr>) = handles t"
  "handles (t\<lparr>unmatchedDTC1Count := n\<rparr>) = handles t"
  "handles (t\<lparr>transferStartTime := y\<rparr>) = handles t"
  "handles (t\<lparr>transferEndTime := y\<rparr>) = handles t"
  "handles (t\<lparr>totalSubeventBytesTransferred := n\<rparr>) = handles t"
  "handles (t\<lparr>mismatchedEventTagsCount := n\<rparr>) = handles t"
  "handles (t\<lparr>mismatchedEventTagJumps := js\<rparr>) = handles t"
  by (simp_all add: handles_def)

lemma handles_steps [simp]:
  "handles (reset_tracking t) = handles t" "handles (reset_counts t) = handles t"
  "handles (resetDetachedMergeState t) = handles t" "handles (clear_stalls t) = handles t"
  "handles (publish_pending t) = handles t" "handles (upd_mine side f t) = handles t"
  "handles (note_merged side k ns e t) = handles t"
  by (simp_all add: handles_def reset_tracking_def reset_counts_def resetDetachedMergeState_def clear_stalls_def
      publish_pending_def upd_mine_def note_merged_def)

lemma keeps_handles_subevent: "keeps (\<lambda>s. handles s = h) (handleDetachedSubevent D se off grp)"
  using keeps_fun [where h = "\<lambda>(_, _, _, r, d, p, m, _). (r, d, m, p)", OF keeps_outside]
  by (simp add: outside_def handles_def)

lemmas handle_keeps = keeps_hw keeps_modify keeps_on_dtc keeps_device keeps_latch_links keeps_each_event keeps_handles_subevent

lemma keeps_handles_output: "keeps (\<lambda>s. handles s = h) (open_output D)" "keeps (\<lambda>s. handles s = h) (close_output D)"
  unfolding open_output_def output_name_def close_output_def Let_def by (intro inv_intros handle_keeps; simp)+

lemma keeps_handles_start: "keeps (\<lambda>s. handles s = h) (thread_start D)"
  unfolding thread_start_def start_release_def start_reset_def set_ignore_mask_def
  by (intro inv_intros handle_keeps keeps_handles_output keeps_reset_assembly; simp)

lemma keeps_handles_restart: "keeps (\<lambda>s. handles s = h) (restart D l)"
  unfolding restart_def restart_counters_def
  by (intro inv_intros handle_keeps keeps_handles_output keeps_reset_assembly keeps_restart_release; simp)

lemma keeps_handles_merge: "keeps (\<lambda>s. handles s = h) (mergeDetachedEvents D es0 es1 acc)"
  unfolding mergeDetachedEvents_def scan_pending_def scan_overflow_def scan_half_def abort_stuck_def
    stageDetachedHalf_def abortWith_def merge_pair_def buildMergedDetachedEvent_def merge_halves_def Let_def
  by (intro inv_intros handle_keeps; simp)

lemma keeps_handles_merged: "keeps (\<lambda>s. handles s = h) (handleMergedDetachedEvents D ms)"
  unfolding handleMergedDetachedEvents_def handle_merged_subevents_def Let_def
  by (intro inv_intros handle_keeps; simp)

lemma keeps_handles_events:
  "keeps (\<lambda>s. handles s = h) (handle_evb_event D e)" "keeps (\<lambda>s. handles s = h) (handle_event D e)"
  "keeps (\<lambda>s. handles s = h) (handle_extracted D e)"
proof -
  show "keeps (\<lambda>s. handles s = h) (handle_evb_event D e)" "keeps (\<lambda>s. handles s = h) (handle_event D e)"
    unfolding handle_evb_event_def handle_event_def by (intro inv_intros handle_keeps; simp)+
  show "keeps (\<lambda>s. handles s = h) (handle_extracted D e)"
    by (cases "ev_subs e") (simp_all add: handle_extracted_def keeps_throw keeps_handles_subevent)
qed

lemma keeps_handles_poll: "keeps (\<lambda>s. handles s = h) (poll_status D d ii seen)"
proof -
  have parts: "keeps (\<lambda>s. handles s = h) (note_traffic D d b)" "keeps (\<lambda>s. handles s = h) (note_first_errors D ii w)"
    "keeps (\<lambda>s. handles s = h) (poll_stalls D d)" "keeps (\<lambda>s. handles s = h) (note_stall_onset D d ii w b)" for b w
    unfolding note_traffic_def note_first_errors_def poll_stalls_def note_stall_onset_def mod_evb_def since_traffic_def Let_def
    by (intro inv_intros handle_keeps; simp)+
  show ?thesis
    unfolding poll_status_def mod_evb_def Let_def by (intro inv_intros handle_keeps parts; simp)
qed

lemma keeps_handles_round:
  assumes "others D = (\<lambda>s. s)"
  shows "keeps (\<lambda>s. handles s = h) (thread_round D n l)"
proof -
  have read: "keeps (\<lambda>s. handles s = h) (read_events D d r w)" "keeps (\<lambda>s. handles s = h) (read_partner D r)" for d r w
    unfolding read_events_def read_partner_def by (intro inv_intros handle_keeps; simp)+
  have lap: "keeps (\<lambda>s. handles s = h) (lap D add t)" for add t
    unfolding lap_def mod_evb_def by (intro inv_intros handle_keeps; simp)
  have drained: "keeps (\<lambda>s. handles s = h) (note_drained D d l)" for d l
    unfolding note_drained_def note_start_def Let_def by (intro inv_intros handle_keeps; simp)
  have data: "keeps (\<lambda>s. handles s = h) (evb_data D es es1 t)" for es es1 t
    unfolding evb_data_def by (intro inv_intros handle_keeps keeps_handles_merge keeps_handles_merged keeps_handles_events lap; simp)
  have evb: "keeps (\<lambda>s. handles s = h) (evb_round D d l)" for d l
    unfolding evb_round_def mod_evb_def Let_def
    by (intro inv_intros handle_keeps keeps_handles_poll read lap drained data; simp)
  have sub: "keeps (\<lambda>s. handles s = h) (subevent_round D d l)" for d l
    unfolding subevent_round_def Let_def
    by (intro inv_intros handle_keeps keeps_handles_merge keeps_handles_merged keeps_handles_events read; simp)
  have ev: "keeps (\<lambda>s. handles s = h) (event_pass D d u)" for d u
    unfolding event_pass_def by (intro inv_intros handle_keeps keeps_handles_events; simp)
  show ?thesis
    unfolding thread_round_def by (intro inv_intros handle_keeps keeps_handles_restart evb sub ev) (simp_all add: assms)
qed

subsection \<open>Steps of the supervisor\<close>

text \<open>One step of a running thread: its start, a round, its end, or its end by an exception.\<close>

inductive thread_step :: "'e control \<Rightarrow> 'e thread \<Rightarrow> 'e thread \<Rightarrow> bool" for C where
  starts: "thread_step C t (snd (thread_start (ct_det C) t))"
| goes_round: "thread_step C t (snd (thread_round (ct_det C) (ct_fuel C) l t))"
| finishes: "thread_step C t ((snd (close_output (ct_det C) t))\<lparr>running := False\<rparr>)"
| aborts: "thread_step C t (snd (thread_abort (ct_det C) m t))"

inductive progress :: "'e control \<Rightarrow> 'e fesystem \<Rightarrow> 'e fesystem \<Rightarrow> bool" for C where
  "\<lbrakk>i < fe_count s; running (test_of s i); thread_step C (test_of s i) t\<rbrakk> \<Longrightarrow> progress C s (upd_test i (\<lambda>_. t) s)"

inductive fe_step :: "'e control \<Rightarrow> 'e fesystem \<Rightarrow> 'e fesystem \<Rightarrow> bool" for C where
  thread: "progress C s s' \<Longrightarrow> fe_step C s s'"
| macro: "i < fe_count s \<Longrightarrow> fe_step C s (snd (BufferTest_detached C i a s))"
| init: "i < fe_count s \<Longrightarrow> fe_step C s (snd (initDetachedBufferTest C i b s))"
| mask: "i < fe_count s \<Longrightarrow> fe_step C s (snd (SetEVBStartGateIgnoreMask C i w s))"

lemma thread_step_seat:
  assumes "thread_step C t t'" and "others (ct_det C) = (\<lambda>s. s)" and "running t"
  shows "seat_of f t' = seat_of f t \<or> seat_of f t' = (seat_of f t)\<lparr>at_running := False\<rparr>"
proof -
  have same: "seat_of f s' = seat_of f s" if "handles s' = handles s" for s s' :: "'a thread"
    using that by (simp add: seat_of_def handles_def)
  show ?thesis
    using assms(1)
  proof cases
    case starts
    then show ?thesis using same keepsD [OF keeps_handles_start refl] by metis
  next
    case (goes_round l)
    then show ?thesis using same keepsD [OF keeps_handles_round [OF assms(2)] refl] by metis
  next
    case finishes
    have "handles (snd (close_output (ct_det C) t)) = handles t"
      using keepsD [OF keeps_handles_output(2) refl] .
    then show ?thesis unfolding finishes by (simp add: handles_def seat_of_def)
  next
    case (aborts m)
    have "keeps (\<lambda>s. (thisDTC s, mergeMode s, otherDTC s) = h) (thread_abort D m)" for h and D :: "'a det"
    proof -
      have k: "keeps (\<lambda>s. (thisDTC s, mergeMode s, otherDTC s) = h) (close_output D)"
        unfolding close_output_def by (intro inv_intros keeps_hw keeps_modify; simp)
      show ?thesis
        unfolding thread_abort_def stall_report_def merge_report_def Let_def
        by (intro inv_intros keeps_hw keeps_modify k; simp)
    qed
    from keepsD [OF this refl] have "(thisDTC t', mergeMode t', otherDTC t') = (thisDTC t, mergeMode t, otherDTC t)"
      unfolding aborts .
    moreover have "\<not> running t'" using thread_abort_Ret [of "ct_det C" m t] unfolding aborts by auto
    ultimately show ?thesis by (simp add: seat_of_def)
  qed
qed

lemma progress_seats:
  assumes "progress C s s'" and "others (ct_det C) = (\<lambda>s. s)"
  shows "sy_manager s' = sy_manager s \<and> seat_step\<^sup>*\<^sup>* (seats s) (seats s')"
  using assms(1)
proof cases
  case (1 i t)
  let ?v = "seats s ! i"
  have v: "?v = seat_of (fe_at s i) (test_of s i)" using 1(2) by simp
  have "seats s' = seats s \<or> seats s' = (seats s)[i := ?v\<lparr>at_running := False\<rparr>]"
    using thread_step_seat [OF 1(4) assms(2) 1(3), of "fe_at s i"] v unfolding 1(1) seats_upd_test
    by (metis list_update_id)
  then have "seat_step\<^sup>*\<^sup>* (seats s) (seats s')" using seat_step.stop [of "seats s" i] by auto
  then show ?thesis unfolding 1(1) by simp
qed

text \<open>Other threads act in steps of the relation only: the thread's own parameter does nothing, and
  what runs while a macro sleeps are steps of running threads.\<close>

definition stepwise :: "'e control \<Rightarrow> bool" where
  "stepwise C \<longleftrightarrow> others (ct_det C) = (\<lambda>s. s) \<and> (\<forall>s. (progress C)\<^sup>*\<^sup>* s (ct_meanwhile C s))"

lemma progress_reaches:
  assumes "(progress C)\<^sup>*\<^sup>* s s'" and "others (ct_det C) = (\<lambda>s. s)"
  shows "sy_manager s' = sy_manager s \<and> seat_step\<^sup>*\<^sup>* (seats s) (seats s')"
  using assms(1)
proof (induction rule: rtranclp_induct)
  case (step t u)
  then show ?case using progress_seats [OF step.hyps(2) assms(2)] by (meson rtranclp_trans)
qed simp

lemma stepwise_meanwhile: "stepwise C \<Longrightarrow> plain_meanwhile C"
  unfolding stepwise_def plain_meanwhile_def using progress_reaches by blast

lemma fe_step_reaches:
  assumes "fe_step C s s'" and "stepwise C" and "sy_manager s"
  shows "sy_manager s' \<and> seat_step\<^sup>*\<^sup>* (seats s) (seats s')"
proof -
  note later = stepwise_meanwhile [OF assms(2)]
  have at: "at_seats (seats s) s" using assms(3) by (simp add: at_seats_def view_def)
  have own: "others (ct_det C) = (\<lambda>s. s)" using assms(2) by (simp add: stepwise_def)
  have by_macro: "sy_manager s' \<and> seat_step\<^sup>*\<^sup>* (seats s) (seats s')" if "reached (seats s) s'"
    using that by (simp add: reached_def)
  show ?thesis
    using assms(1)
  proof cases
    case thread
    then show ?thesis using progress_reaches [of C s s'] own assms(3) by auto
  next
    case (macro i a)
    then show ?thesis using ends_I [OF macro_reached [OF later] at] by (intro by_macro) simp
  next
    case (init i b)
    then show ?thesis using ends_I [OF init_reached [OF later] at] by (intro by_macro) simp
  next
    case (mask i w)
    have "reached (seats s) s" by (rule at_seats_reached [OF at rtranclp.rtrancl_refl])
    then show ?thesis using keepsD [OF quiet_reached [OF quiet_mask]] mask by (intro by_macro) simp
  qed
qed

lemma fe_steps_reach:
  assumes "(fe_step C)\<^sup>*\<^sup>* s s'" and "stepwise C" and "sy_manager s"
  shows "sy_manager s' \<and> seat_step\<^sup>*\<^sup>* (seats s) (seats s')"
  using assms(1)
proof (induction rule: rtranclp_induct)
  case (step t u)
  then show ?case using fe_step_reaches [OF step.hyps(2) assms(2)] by (meson rtranclp_trans)
qed (simp add: assms)

lemma supervised_steps: "seat_step\<^sup>*\<^sup>* vs ws \<Longrightarrow> supervised vs \<Longrightarrow> supervised ws"
  by (induction rule: rtranclp_induct) (auto simp: supervised_step)

text \<open>
  C21. The macros implement the supervisor's promise: whatever a macro of a front end or a step of a
  test's thread does - on every path, exceptions included - is a sequence of moves of the abstract
  machine: a test stops or leaves its merge; an idle test changes its handles; an idle test is launched
  on its own DTC when no merge reads that DTC, and in a merge mode only by device 0 with an idle peer.
\<close>

theorem macros_refine_seats:
  assumes "fe_step C s s'" and "stepwise C" and "sy_manager s"
  shows "seat_step\<^sup>*\<^sup>* (seats s) (seats s')"
  using fe_step_reaches [OF assms] by blast

text \<open>
  C4. One reader: from front ends whose tests are all idle, in a supervisor where every front end has
  its own DTC and one has device index 0, no sequence of starts, re-initialisations, halts, mask
  changes and thread steps reaches a state in which the threads of two front ends read the DMA of the
  same DTC, though a merge reads the DTC of another front end.
\<close>

theorem one_reader:
  assumes "(fe_step C)\<^sup>*\<^sup>* s0 s" and "stepwise C" and "sy_manager s0" and "own_devices (seats s0)"
    and "\<forall>v \<in> set (seats s0). \<not> at_running v" and "i < fe_count s" and "j < fe_count s" and "i \<noteq> j"
  shows "reads (seats s ! i) \<inter> reads (seats s ! j) = {}"
proof -
  have "\<not> at_running (seats s0 ! k)" if "k < length (seats s0)" for k using assms(5) nth_mem [OF that] by blast
  then have "supervised (seats s0)" using assms(4) by (simp add: supervised_def well_run_def del: seats_nth)
  then have "supervised (seats s)" using fe_steps_reach [OF assms(1-3)] supervised_steps by blast
  then show ?thesis using supervised_disjoint [of "seats s" i j] assms(6-8) by simp
qed

subsection \<open>Examples\<close>

definition quiet_control :: "unit control" where
  "quiet_control = \<lparr>ct_det = quiet, ct_fuel = 3, ct_status = (\<lambda>_ e. (Inr ''ok'', e)), ct_meanwhile = (\<lambda>s. s)\<rparr>"

definition sample_fe :: "nat \<Rightarrow> unit frontend" where
  "sample_fe k = \<lparr>fe_uid = ''DTC'' @ to_string k, fe_device = int k, fe_dtc = Some k, fe_ignore = 0, fe_check = False,
     fe_drain = False, fe_test = None\<rparr>"

definition sample_supervisor :: "unit fesystem" where
  "sample_supervisor = \<lparr>sy_env = (), sy_manager = True, sy_fes = [sample_fe 0, sample_fe 1]\<rparr>"

text \<open>The first front end starts a merge of matching tags, then the second tries to start.\<close>

definition start_args :: "u32 \<Rightarrow> test_args" where
  "start_args m = \<lparr>ta_command = ''Start'', ta_subevents = True, ta_match = False, ta_start = 0, ta_save = False,
     ta_filename = [], ta_saveHeaders = False, ta_evb = False, ta_check = False, ta_drain = False, ta_merge = m\<rparr>"

definition merging_supervisor :: "unit fesystem" where
  "merging_supervisor = snd (BufferTest_detached quiet_control 0 (start_args 2) sample_supervisor)"

definition tried_supervisor :: "unit fesystem" where
  "tried_supervisor = snd (BufferTest_detached quiet_control 1 (start_args 0) merging_supervisor)"

lemma quiet_stepwise: "stepwise quiet_control"
  by (simp add: stepwise_def quiet_control_def quiet_def)

definition seat_summary :: "unit fesystem \<Rightarrow> (bool \<times> dtc option) list" where
  "seat_summary s = map (\<lambda>v. (at_running v, at_other v)) (seats s)"

lemma two_starts:
  "(case BufferTest_detached quiet_control 0 (start_args 2) sample_supervisor of (_, s) \<Rightarrow>
    (case BufferTest_detached quiet_control 1 (start_args 0) s of (_, t) \<Rightarrow> (seat_summary s, seat_summary t)))
   = ([(True, Some 1), (False, None)], [(True, Some 1), (False, None)])"
  by code_simp

lemma merging_seats:
  "seat_summary merging_supervisor = [(True, Some 1), (False, None)]"
  "seat_summary tried_supervisor = [(True, Some 1), (False, None)]"
  "fe_count merging_supervisor = 2" "fe_count tried_supervisor = 2"
proof -
  show m: "seat_summary merging_supervisor = [(True, Some 1), (False, None)]"
    and t: "seat_summary tried_supervisor = [(True, Some 1), (False, None)]"
    using two_starts unfolding merging_supervisor_def tried_supervisor_def by (simp_all only: case_prod_beta prod.inject)
  show "fe_count merging_supervisor = 2" "fe_count tried_supervisor = 2"
    using arg_cong [OF m, of length] arg_cong [OF t, of length] by (simp_all add: seat_summary_def)
qed

lemma sample_steps:
  "fe_step quiet_control sample_supervisor merging_supervisor" "fe_step quiet_control merging_supervisor tried_supervisor"
proof -
  have "0 < fe_count sample_supervisor" by (simp add: sample_supervisor_def)
  from fe_step.macro [OF this, of quiet_control "start_args 2"]
  show "fe_step quiet_control sample_supervisor merging_supervisor" by (simp only: merging_supervisor_def)
  have "1 < fe_count merging_supervisor" by (simp add: merging_seats)
  from fe_step.macro [OF this, of quiet_control "start_args 0"]
  show "fe_step quiet_control merging_supervisor tried_supervisor" by (simp only: tried_supervisor_def)
qed

lemma sample_start: "sy_manager sample_supervisor" "own_devices (seats sample_supervisor)"
  "\<forall>v \<in> set (seats sample_supervisor). \<not> at_running v"
  by (simp add: sample_supervisor_def)
    (auto simp: sample_supervisor_def seats_def own_devices_def sample_fe_def test_of_def new_thread_def seat_of_def less_Suc_eq)

theorem macros_refine_seats_witness: "seat_step\<^sup>*\<^sup>* (seats sample_supervisor) (seats merging_supervisor)"
  by (rule macros_refine_seats [OF sample_steps(1) quiet_stepwise sample_start(1)])

theorem one_reader_witness:
  "reads (seats tried_supervisor ! 0) \<inter> reads (seats tried_supervisor ! 1) = {} \<and> at_running (seats tried_supervisor ! 0)"
proof -
  have steps: "(fe_step quiet_control)\<^sup>*\<^sup>* sample_supervisor tried_supervisor"
    using sample_steps by (meson r_into_rtranclp rtranclp.rtrancl_into_rtrancl)
  have "seat_summary tried_supervisor ! 0 = (True, Some 1)" by (simp add: merging_seats)
  then have "at_running (seats tried_supervisor ! 0)" using merging_seats(4) by (simp add: seat_summary_def)
  then show ?thesis
    using one_reader [OF steps quiet_stepwise sample_start, of 0 1] merging_seats(4) by simp
qed

end
