(* ===== verification/Detached_Exit.thy ===== *)
theory Detached_Exit
  imports Thread_Runs
begin

section \<open>The exit flag ends the thread\<close>

text \<open>
  The flag \<^verbatim>\<open>exitThread_\<close> goes up at some time while the thread reads, merges or handles events. The thread tests it
  in its loop, in the loop over the passes of the event mode, and before each event. The number of tests up to the one
  that sees the flag is a measure that no other operation of the thread increases; so no loop of the thread goes round
  more often than that.
\<close>

subsection \<open>Effects that keep a measure\<close>

definition tame :: "('s \<Rightarrow> nat) \<Rightarrow> nat \<Rightarrow> ('s, 'a) eff \<Rightarrow> bool" where
  "tame g n m \<longleftrightarrow> (\<forall>s. g s < n \<longrightarrow> fst (m s) \<noteq> Spin \<and> g (snd (m s)) \<le> g s)"

named_theorems tame_intros \<open>an effect neither uses up the bound of a loop nor increases the measure\<close>

lemma tame_bindE [tame_intros]:
  assumes "tame g n m" "\<And>a. tame g n (k a)"
  shows "tame g n (bindE m k)"
  unfolding tame_def
proof (intro allI impI)
  fix s
  assume s: "g s < n"
  have m: "fst (m s) \<noteq> Spin" "g (snd (m s)) \<le> g s" using assms(1) s by (simp_all add: tame_def)
  have "fst (k a (snd (m s))) \<noteq> Spin \<and> g (snd (k a (snd (m s)))) \<le> g (snd (m s))" for a
    using assms(2) [of a] s m(2) by (auto simp: tame_def)
  then show "fst (bindE m k s) \<noteq> Spin \<and> g (snd (bindE m k s)) \<le> g s"
    using m order_trans unfolding bindE_cases by (auto split: outcome.split)
qed

lemma tame_tryE [tame_intros]:
  assumes "tame g n m" "\<And>a. tame g n (h' a)"
  shows "tame g n (tryE m h')"
  unfolding tame_def
proof (intro allI impI)
  fix s
  assume s: "g s < n"
  have m: "fst (m s) \<noteq> Spin" "g (snd (m s)) \<le> g s" using assms(1) s by (simp_all add: tame_def)
  have "fst (h' a (snd (m s))) \<noteq> Spin \<and> g (snd (h' a (snd (m s)))) \<le> g (snd (m s))" for a
    using assms(2) [of a] s m(2) by (auto simp: tame_def)
  then show "fst (tryE m h' s) \<noteq> Spin \<and> g (snd (tryE m h' s)) \<le> g s"
    using m order_trans unfolding tryE_cases by (auto split: outcome.split)
qed

lemma tame_basic [tame_intros]:
  "tame g n (ret a)" "tame g n (throw t)" "tame g n (gets f)" "tame g n undefined_behaviour" "tame g n (at xs i)" "tame g n (slice xs i j)"
  by (simp_all add: tame_def ret_def throw_def gets_def undefined_behaviour_def at_def slice_def)

lemma tame_seqE [tame_intros]: "tame g n m \<Longrightarrow> tame g n k \<Longrightarrow> tame g n (seqE m k)"
  unfolding seqE_def by (rule tame_bindE)

lemma tame_control [tame_intros]:
  "tame g n m \<Longrightarrow> tame g n k \<Longrightarrow> tame g n (if b then m else k)"
  "tame g n u \<Longrightarrow> tame g n (whenE b u)"
  "tame g n m \<Longrightarrow> (\<And>a. tame g n (h' a)) \<Longrightarrow> tame g n (case p of None \<Rightarrow> m | Some a \<Rightarrow> h' a)"
  "(\<And>a b. tame g n (h2 a b)) \<Longrightarrow> tame g n (case q of (a, b) \<Rightarrow> h2 a b)"
  "(\<And>a. tame g n (i1 a)) \<Longrightarrow> (\<And>a. tame g n (i2 a)) \<Longrightarrow> tame g n (case z of Inl a \<Rightarrow> i1 a | Inr a \<Rightarrow> i2 a)"
  "tame g n m \<Longrightarrow> (\<And>x ys. tame g n (l2 x ys)) \<Longrightarrow> tame g n (case xs of [] \<Rightarrow> m | x # ys \<Rightarrow> l2 x ys)"
  by (simp_all add: whenE_def tame_basic split: option.split prod.split sum.split list.split)

lemma tame_foldE [tame_intros]: "(\<And>x acc. tame g n (f x acc)) \<Longrightarrow> tame g n (foldE f xs acc)"
  by (induction xs arbitrary: acc) (simp_all add: tame_intros)

lemma tame_forE [tame_intros]: "(\<And>x. tame g n (f x)) \<Longrightarrow> tame g n (forE xs f)"
  by (simp add: forE_def tame_foldE)

lemma tame_modify: "(\<And>s. g (f s) \<le> g s) \<Longrightarrow> tame g n (modify f)"
  by (simp add: tame_def modify_def)

text \<open>A loop in which every round that asks for another has decreased the measure.\<close>

lemma loop_ends:
  assumes "\<And>l s. g s < n \<Longrightarrow> fst (b l s) \<noteq> Spin \<and> g (snd (b l s)) \<le> g s"
    and "\<And>l l' s. g s < n \<Longrightarrow> fst (b l s) = Ret (Inl l') \<Longrightarrow> g (snd (b l s)) < g s"
    and "g s < m" "m \<le> n"
  shows "fst (loopE m b l s) \<noteq> Spin \<and> g (snd (loopE m b l s)) \<le> g s"
  using assms(3,4)
proof (induction m arbitrary: l s)
  case (Suc m)
  have s: "g s < n" using Suc.prems by simp
  show ?case
  proof (cases "fst (b l s)")
    case (Ret x)
    show ?thesis
    proof (cases x)
      case (Inl l')
      have "g (snd (b l s)) < g s" using assms(2) [OF s] Ret Inl by blast
      then show ?thesis using Suc.IH [of "snd (b l s)" l'] Suc.prems Ret Inl by (simp add: bindE_cases)
    next
      case (Inr a)
      then show ?thesis using Ret assms(1) [OF s, of l] by (simp add: bindE_cases ret_def)
    qed
  qed (use assms(1) [OF s, of l] in \<open>simp_all add: bindE_cases\<close>)
qed simp

subsection \<open>The operations of the thread\<close>

text \<open>
  \<open>c\<close> counts the tests of the flag that are still false; other threads and the hardware do not take the flag back, and
  nothing else than a test matters.
\<close>

definition exit_due :: "'e det \<Rightarrow> ('e \<Rightarrow> nat) \<Rightarrow> bool" where
  "exit_due D c \<longleftrightarrow>
     (\<forall>e. (\<not> fst (d_exit (dio D) e) \<longrightarrow> c (snd (d_exit (dio D) e)) < c e) \<and> c (snd (d_exit (dio D) e)) \<le> c e)
   \<and> (\<forall>e. (\<forall>d a. c (snd (d_read (dio D) d a e)) \<le> c e) \<and> (\<forall>d a v. c (snd (d_write (dio D) d a v e)) \<le> c e)
        \<and> (\<forall>d q. c (snd (d_get (dio D) d q e)) \<le> c e) \<and> (\<forall>d l. c (snd (d_ackPosition (dio D) d l e)) \<le> c e)
        \<and> (\<forall>d. c (snd (d_stallCounters (dio D) d e)) \<le> c e) \<and> c (snd (d_clock (dio D) e)) \<le> c e
        \<and> (\<forall>t. c (d_sleep (dio D) t e) \<le> c e) \<and> (\<forall>d x. c (snd (d_device (dio D) d x e)) \<le> c e)
        \<and> (\<forall>d. c (snd (d_linkEnabledData (dio D) d e)) \<le> c e) \<and> (\<forall>d r t. c (snd (d_events (dio D) d r t e)) \<le> c e)
        \<and> (\<forall>d t. c (snd (d_getData (dio D) d t e)) \<le> c e) \<and> c (snd (d_stamp (dio D) e)) \<le> c e
        \<and> c (snd (d_dataDir (dio D) e)) \<le> c e \<and> (\<forall>p. c (snd (d_fopen (dio D) p e)) \<le> c e) \<and> (\<forall>b. c (d_fclose (dio D) b e) \<le> c e)
        \<and> (\<forall>d. c (d_spy (dio D) d e) \<le> c e) \<and> c (snd (d_logStatus (dio D) e)) \<le> c e)
   \<and> (\<forall>s. c (tenv (others D s)) \<le> c (tenv s))"

abbreviation tests_left :: "('e \<Rightarrow> nat) \<Rightarrow> 'e thread \<Rightarrow> nat" where
  "tests_left c s \<equiv> c (tenv s)"

lemma tame_hw [tame_intros]: "tame c n m \<Longrightarrow> tame (tests_left c) n (hw m)"
  by (auto simp: tame_def hw_def split: prod.splits)

lemma tame_call: "(\<And>e. c (snd (f e)) \<le> c e) \<Longrightarrow> tame c n (call f)"
  by (auto simp: tame_def call_def split: prod.splits) (metis snd_conv)

lemma tame_call_try: "(\<And>e. c (snd (f e)) \<le> c e) \<Longrightarrow> tame c n (call_try f)"
  by (auto simp: tame_def call_try_def split: prod.splits sum.splits) (metis snd_conv)+

lemma tame_calls [tame_intros]:
  assumes "exit_due D c"
  shows "tame c n (read_register D d a)" "tame c n (get D d q)" "tame c n (call_try (d_stallCounters (dio D) d))" "tame c n (steady_now D)"
    "tame c n (call_try (d_device (dio D) d x))" "tame c n (call_try (d_linkEnabledData (dio D) d))" "tame c n (call_try (d_events (dio D) d r t))"
    "tame c n (call_try (d_getData (dio D) d w))" "tame c n (call (d_stamp (dio D)))" "tame c n (call_try (d_dataDir (dio D)))"
    "tame c n (call (d_fopen (dio D) p))" "tame c n (modify (d_fclose (dio D) bs))" "tame c n (modify (d_spy (dio D) d))"
    "tame c n (call_try (d_logStatus (dio D)))" "tame c n (exitThread D)" "tame c n (call_try (d_ackPosition (dio D) d l))"
  using assms unfolding read_register_def get_def steady_now_def exitThread_def
  by (intro tame_call tame_call_try tame_modify; simp add: exit_due_def)+

lemma tame_thread_start: "exit_due D c \<Longrightarrow> tame (tests_left c) n (thread_start D)"
  unfolding thread_start_def open_output_def output_name_def start_release_def start_reset_def reset_assembly_def
    latch_links_def set_ignore_mask_def on_dtc_def device_def evbKnownDefectMask_def evbRecoveredLossMask_def
    evbHasRetransmission_def Let_def
  by (intro tame_intros tame_modify; simp add: resetDetachedMergeState_def reset_counts_def reset_tracking_def clear_stalls_def)

lemma tame_close: "exit_due D c \<Longrightarrow> tame (tests_left c) n (close_output D)"
  unfolding close_output_def by (intro tame_intros tame_modify; simp)

lemma tame_restart: "exit_due D c \<Longrightarrow> tame (tests_left c) n (restart D l)"
  unfolding restart_def restart_counters_def restart_release_def open_output_def output_name_def reset_assembly_def latch_links_def
    on_dtc_def device_def Let_def
  by (intro tame_intros tame_modify tame_close; simp add: resetDetachedMergeState_def reset_counts_def reset_tracking_def clear_stalls_def)

lemma tame_poll: "exit_due D c \<Longrightarrow> tame (tests_left c) n (poll_status D d ii seen)"
  unfolding poll_status_def note_traffic_def note_first_errors_def since_traffic_def poll_stalls_def note_stall_onset_def mod_evb_def
    readEVBBufferTestStatus_def snapshotEVBStallCounters_def accumulateEVBStallCounters_def note_start_def Let_def
  by (intro tame_intros tame_modify; simp)

lemma tame_merge: "exit_due D c \<Longrightarrow> tame (tests_left c) n (mergeDetachedEvents D es0 es1 acc)"
proof -
  assume D: "exit_due D c"
  have stage: "tame (tests_left c) n (stageDetachedHalf D half side acc)" for half side acc
    unfolding stageDetachedHalf_def abortWith_def merge_pair_def buildMergedDetachedEvent_def merge_halves_def Let_def
    by (intro tame_intros tame_modify D; simp add: upd_mine_def note_merged_def)
  have report: "tame c n (dtc_report D d)" for d
    unfolding dtc_report_def attempt_def readEVBBufferTestStatus_def Let_def by (intro tame_intros D)
  show ?thesis
    unfolding mergeDetachedEvents_def scan_pending_def scan_overflow_def scan_half_def abort_stuck_def Let_def
    by (intro tame_intros tame_modify stage report D; simp add: publish_pending_def)
qed

lemma tame_add: "(\<And>f s. tenv (upd f s) = tenv s) \<Longrightarrow> tame (tests_left c) n (add_at sel upd i d)"
  by (simp add: tame_def add_at_def)

lemma tame_add_source: "(\<And>f s. tenv (upd f s) = tenv s) \<Longrightarrow> tame (tests_left c) n (add_source sel upd key i d)"
  by (simp add: tame_def add_source_def Let_def)

lemma tame_subevent: "exit_due D c \<Longrightarrow> tame (tests_left c) n (handleDetachedSubevent D se off grp)"
proof -
  assume D: "exit_due D c"
  have up: "tenv (rocFragmentsCount_update f s) = tenv s" "tenv (rocPayloadByteCount_update f s) = tenv s"
    "tenv (rocPayloadEmptyCount_update f s) = tenv s" "tenv (rocHeaderTimeoutsCount_update f s) = tenv s"
    "tenv (rocFragmentTimeoutsCount_update f s) = tenv s" "tenv (rocFragmentErrorsCount_update f s) = tenv s"
    "tenv (rocEmulatorDataErrorsCount_update f s) = tenv s" "tenv (rocEmulatorPacketCountErrorsCount_update f s) = tenv s"
    "tenv (evbRocFragmentsBySource_update g s) = tenv s" "tenv (evbRocPayloadBytesBySource_update g s) = tenv s"
    for f g and s :: "'a thread" by simp_all
  have err: "tame (tests_left c) n (dataError b src ewt w)" "tame (tests_left c) n (packetCountError b src ewt w)" for b src ewt w
    unfolding dataError_def packetCountError_def noteError_def payload_dump_def le16_def Let_def
    by (intro tame_intros tame_modify tame_add up; simp)+
  have check: "tame (tests_left c) n (checkROCEmulatorBlock b src ewt)" for b src ewt
    unfolding checkROCEmulatorBlock_def check_packets_def check_words_def check_pair_def le16_def Let_def
    by (intro tame_intros tame_modify err; simp)
  have save: "tame (tests_left c) n (save_bytes sv raw m)" for sv raw m
    unfolding save_bytes_def by (intro tame_intros tame_modify; simp)
  have latch: "tame (tests_left c) n (latch r)" for r
    by (simp add: tame_def latch_def Let_def)
  have blocks: "tame (tests_left c) n (handle_blocks se sv key)" for sv key
    unfolding handle_blocks_def handle_block_def count_fragment_def count_payload_def Let_def
    by (intro tame_intros tame_modify tame_add tame_add_source up save check; simp)
  have acc: "tame (tests_left c) n (account_subevent D se key)" for key
    unfolding account_subevent_def note_start_def save_header_def link_status_def
    by (intro tame_intros tame_modify tame_add up save latch blocks D) (simp_all add: note_subrun_def Let_def)
  have accept: "tame (tests_left c) n (accept_tag plan key t)" for plan key t
    by (simp add: tame_def accept_tag_def)
  have follow: "tame (tests_left c) n (follow_tag plan key rx o' g)" for plan key rx o' g
    unfolding follow_tag_def note_mismatch_def Let_def
    by (intro tame_intros tame_modify accept) (auto simp: sync_tag_def advance_tag_def Let_def)
  have plan: "tame (tests_left c) n (plan_tags D)"
    unfolding plan_tags_def num_sources_def by (intro tame_intros D)
  show ?thesis
    unfolding handleDetachedSubevent_def Let_def
    by (intro tame_intros tame_modify follow plan acc) simp
qed

subsection \<open>The rounds\<close>

lemma tame_each: "exit_due D c \<Longrightarrow> (\<And>x. tame (tests_left c) n (f x)) \<Longrightarrow> tame (tests_left c) n (each_event D xs f)"
  unfolding each_event_def by (intro tame_intros)

lemma tame_merged: "exit_due D c \<Longrightarrow> tame (tests_left c) n (handleMergedDetachedEvents D ms)"
  unfolding handleMergedDetachedEvents_def handle_merged_subevents_def Let_def
  by (intro tame_intros tame_modify tame_subevent; simp)

lemma tame_evb_round: "exit_due D c \<Longrightarrow> tame (tests_left c) n (evb_round D d l)"
  unfolding evb_round_def read_events_def read_partner_def lap_def note_drained_def evb_data_def handle_evb_event_def mod_evb_def
    note_start_def Let_def
  by (intro tame_intros tame_modify tame_poll tame_merge tame_merged tame_each tame_subevent; simp)

lemma tame_subevent_round: "exit_due D c \<Longrightarrow> tame (tests_left c) n (subevent_round D d l)"
  unfolding subevent_round_def read_events_def read_partner_def handle_extracted_def Let_def
  by (intro tame_intros tame_merge tame_merged tame_each tame_subevent)

lemma tame_event_pass: "exit_due D c \<Longrightarrow> tame (tests_left c) n (event_pass D d u)"
  unfolding event_pass_def handle_event_def
  by (intro tame_intros tame_modify tame_each tame_subevent; simp)

text \<open>An effect that asks for another round only after a test of the flag that was false.\<close>

definition falls :: "('s \<Rightarrow> nat) \<Rightarrow> nat \<Rightarrow> ('a \<Rightarrow> bool) \<Rightarrow> ('s, 'a) eff \<Rightarrow> bool" where
  "falls g n P m \<longleftrightarrow> (\<forall>s a. g s < n \<longrightarrow> fst (m s) = Ret a \<longrightarrow> P a \<longrightarrow> g (snd (m s)) < g s)"

lemma falls_bindE: "tame g n m \<Longrightarrow> (\<And>a. falls g n P (k a)) \<Longrightarrow> falls g n P (bindE m k)"
  unfolding falls_def
proof (intro allI impI)
  fix s a
  assume m: "tame g n m" and k: "\<And>a. \<forall>s b. g s < n \<longrightarrow> fst (k a s) = Ret b \<longrightarrow> P b \<longrightarrow> g (snd (k a s)) < g s"
    and s: "g s < n" and a: "fst (bindE m k s) = Ret a" "P a"
  obtain b where b: "fst (m s) = Ret b" using a(1) by (cases "fst (m s)") (simp_all add: bindE_cases)
  have le: "g (snd (m s)) \<le> g s" using m s by (simp add: tame_def)
  moreover have "fst (k b (snd (m s))) = Ret a" using a(1) b by (simp add: bindE_cases)
  then have "g (snd (k b (snd (m s)))) < g (snd (m s))" using k [of b] a(2) s le by (metis order_le_less_trans)
  ultimately show "g (snd (bindE m k s)) < g s" using b by (simp add: bindE_cases)
qed

lemma falls_ret: "\<not> P a \<Longrightarrow> falls g n P (ret a)"
  by (simp add: falls_def ret_def)

lemma falls_control:
  "falls g n P m \<Longrightarrow> falls g n P k \<Longrightarrow> falls g n P (if b then m else k)"
  "falls g n P m \<Longrightarrow> (\<And>a. falls g n P (h' a)) \<Longrightarrow> falls g n P (case p of None \<Rightarrow> m | Some a \<Rightarrow> h' a)"
  by (simp_all split: option.split)

lemma falls_test:
  assumes "exit_due D c" "tame (tests_left c) n k" "\<not> P stop"
  shows "falls (tests_left c) n P (bindE (hw (exitThread D)) (\<lambda>leaving. if leaving then ret stop else k))"
  unfolding falls_def
proof (intro allI impI)
  fix s a
  assume s: "tests_left c s < n" and a: "fst (bindE (hw (exitThread D)) (\<lambda>leaving. if leaving then ret stop else k) s) = Ret a" "P a"
  obtain b e where e: "d_exit (dio D) (tenv s) = (b, e)" by fastforce
  then have test: "hw (exitThread D) s = (Ret b, s\<lparr>tenv := e\<rparr>)" by (simp add: hw_def exitThread_def call_def)
  have b: "\<not> b" using a assms(3) test by (auto simp: bindE_def ret_def)
  moreover have "\<not> fst (d_exit (dio D) (tenv s)) \<longrightarrow> c (snd (d_exit (dio D) (tenv s))) < c (tenv s)"
    using assms(1) by (simp add: exit_due_def)
  ultimately have "c e < tests_left c s" using e by simp
  moreover from this have "tests_left c (snd (k (s\<lparr>tenv := e\<rparr>))) \<le> c e"
    using assms(2) [unfolded tame_def, rule_format, of "s\<lparr>tenv := e\<rparr>"] s by simp
  ultimately show "tests_left c (snd (bindE (hw (exitThread D)) (\<lambda>leaving. if leaving then ret stop else k) s)) < tests_left c s"
    using test b by (simp add: bindE_def)
qed

lemma event_pass_falls: "exit_due D c \<Longrightarrow> falls (tests_left c) n isl (event_pass D d u)"
  unfolding event_pass_def handle_event_def
  by (intro falls_bindE falls_control falls_ret falls_test tame_intros tame_modify tame_each tame_subevent; simp)

lemma tame_event_loop: "exit_due D c \<Longrightarrow> tame (tests_left c) n (loopE n (event_pass D d) ())"
  unfolding tame_def
proof (intro allI impI)
  fix s :: "'a thread"
  assume D: "exit_due D c" and s: "tests_left c s < n"
  show "fst (loopE n (event_pass D d) () s) \<noteq> Spin \<and> tests_left c (snd (loopE n (event_pass D d) () s)) \<le> tests_left c s"
  proof (rule loop_ends [where n = n])
    show "fst (event_pass D d u s) \<noteq> Spin \<and> tests_left c (snd (event_pass D d u s)) \<le> tests_left c s" if "tests_left c s < n" for u s
      using tame_event_pass [OF D] that unfolding tame_def by blast
    show "tests_left c (snd (event_pass D d u s)) < tests_left c s" if "tests_left c s < n" "fst (event_pass D d u s) = Ret (Inl u')" for u u' s
      using event_pass_falls [OF D] that unfolding falls_def by fastforce
  qed (use s in simp_all)
qed

definition mode_round :: "'e det \<Rightarrow> nat \<Rightarrow> dtc \<Rightarrow> loop_locals \<Rightarrow> 'e thread \<Rightarrow> ('e, round_end \<times> loop_locals) det_eff" where
  "mode_round D n d l s =
     (if inEVBMode s then evb_round D d l
      else if \<not> inSubeventMode s then bindE (loopE n (event_pass D d) ()) (\<lambda>_. ret (Onward, l))
      else subevent_round D d l)"

lemma tame_mode: "exit_due D c \<Longrightarrow> tame (tests_left c) n (mode_round D n d l s)"
  unfolding mode_round_def by (intro tame_intros tame_evb_round tame_subevent_round tame_event_loop)

lemma tame_others: "exit_due D c \<Longrightarrow> tame (tests_left c) n (modify (others D))"
  by (rule tame_modify) (simp add: exit_due_def)

lemma round_calm_falls:
  assumes "exit_due D c"
  shows "tame (tests_left c) n (thread_round D n l)" "falls (tests_left c) n isl (thread_round D n l)"
  unfolding thread_round_def mode_round_def [symmetric]
  by (intro falls_bindE falls_control falls_ret falls_test tame_intros tame_restart tame_mode tame_others assms; simp)+

lemma loop_calm: "exit_due D c \<Longrightarrow> tame (tests_left c) n (loopE n (thread_round D n) l)"
  unfolding tame_def
proof (intro allI impI)
  fix s :: "'a thread"
  assume D: "exit_due D c" and s: "tests_left c s < n"
  show "fst (loopE n (thread_round D n) l s) \<noteq> Spin \<and> tests_left c (snd (loopE n (thread_round D n) l s)) \<le> tests_left c s"
  proof (rule loop_ends [where n = n])
    show "fst (thread_round D n u s) \<noteq> Spin \<and> tests_left c (snd (thread_round D n u s)) \<le> tests_left c s" if "tests_left c s < n" for u s
      using round_calm_falls(1) [OF D] that unfolding tame_def by blast
    show "tests_left c (snd (thread_round D n u s)) < tests_left c s" if "tests_left c s < n" "fst (thread_round D n u s) = Ret (Inl u')" for u u' s
      using round_calm_falls(2) [OF D] that unfolding falls_def by fastforce
  qed (use s in simp_all)
qed

lemma body_calm: "exit_due D c \<Longrightarrow> tame (tests_left c) n (thread_body D n)"
  unfolding thread_body_def by (intro tame_intros tame_thread_start loop_calm tame_close tame_modify; simp)

subsection \<open>The thread\<close>

text \<open>
  C30. The exit flag ends the thread, whenever it goes up: if at most \<open>c\<close> of the tests of the flag are false before one
  sees it, the thread ends with every loop going round at most \<open>c\<close> times before it leaves - also the loop over the DMA
  passes of the event mode with data that never end - and it ends stopped, with its file closed. Excluded is only
  undefined behaviour on data that lie about their length.
\<close>

theorem raised_flag_ends_thread:
  assumes "exit_due D c" "c (tenv s) < n"
  shows "case detachedBufferTestThread D n s of
     (Ret _, s') \<Rightarrow> \<not> running s' \<and> fp s' = None
   | (Undef, _) \<Rightarrow> True
   | _ \<Rightarrow> False"
proof -
  obtain r s' where r: "detachedBufferTestThread D n s = (r, s')" by fastforce
  have "fst (thread_body D n s) \<noteq> Spin" using body_calm [OF assms(1), of n] assms(2) unfolding tame_def by blast
  moreover have "fst (thread_abort D m t) = Ret ()" for m t using thread_abort_Ret [of D m t] by (metis fst_conv)
  ultimately have "r \<noteq> Spin" using r by (auto simp: detachedBufferTestThread_def tryE_cases split: outcome.splits) (metis fst_conv outcome.distinct(5))+
  then show ?thesis using thread_outcome [of D n s] r by (cases r) simp_all
qed

text \<open>Event mode with data that never end, and a flag that goes up after three tests.\<close>

definition endless :: "nat det" where
  "endless = \<lparr>dio = \<lparr>d_uid = (\<lambda>_. ''DTC0''), d_read = (\<lambda>_ _ e. ((0, 0), e)), d_write = (\<lambda>_ _ _ e. (0, e)),
     d_get = (\<lambda>_ _ e. (Inr 0, e)), d_ackPosition = (\<lambda>_ _ e. (Inr (False, 0, 0), e)),
     d_stallCounters = (\<lambda>_ e. (Inr [], e)), d_clock = (\<lambda>e. (0, e)), d_sleep = (\<lambda>_ e. e),
     d_exit = (\<lambda>e. (e = 0, e - 1)), d_setExit = (\<lambda>_ e. e), d_device = (\<lambda>_ _ e. (Inr (), e)),
     d_linkEnabledData = (\<lambda>_ e. (Inr 0, e)), d_events = (\<lambda>_ _ _ e. (Inr [], e)), d_getData = (\<lambda>_ _ e. (Inr [None], e)),
     d_stamp = (\<lambda>e. ((0, 0), e)), d_dataDir = (\<lambda>e. (Inr ''/data'', e)), d_fopen = (\<lambda>_ e. (True, e)),
     d_fclose = (\<lambda>_ e. e), d_spy = (\<lambda>_ e. e), d_logStatus = (\<lambda>e. (Inr (), e))\<rparr>,
     dlib = quiet_lib, others = (\<lambda>s. s)\<rparr>"

definition endless_thread :: "nat thread" where
  "endless_thread = (new_thread 3)\<lparr>thisDTC := Some 0, running := True\<rparr>"

theorem raised_flag_ends_thread_witness:
  "\<exists>s'. detachedBufferTestThread endless 4 endless_thread = (Ret (), s') \<and> \<not> running s' \<and> fp s' = None"
proof -
  have "exit_due endless (\<lambda>e. e)" by (simp add: exit_due_def endless_def)
  moreover have "tenv endless_thread < 4" by (simp add: endless_thread_def new_thread_def)
  moreover have "fst (detachedBufferTestThread endless 4 endless_thread) = Ret ()" by code_simp
  ultimately show ?thesis
    using raised_flag_ends_thread [of endless "\<lambda>e. e" endless_thread 4] run_to [of "detachedBufferTestThread endless 4 endless_thread" "()"]
    by (cases "detachedBufferTestThread endless 4 endless_thread") auto
qed

end
