(* ===== verification/Detached_Ends.thy ===== *)
theory Detached_Ends
  imports Thread_Runs Detached_Macros
begin

section \<open>The start gate's wait, and what a start leaves alone\<close>

text \<open>
  The wait of the start gate ends; a start of the macro sets some options of the test and leaves others.
\<close>

subsection \<open>The start gate's wait\<close>

text \<open>What is relied on of the clock: it does not run back, and sleeping takes at least its time.\<close>

definition real_clock :: "'e det \<Rightarrow> ('e \<Rightarrow> int) \<Rightarrow> bool" where
  "real_clock D c \<longleftrightarrow>
     (\<forall>e. fst (d_clock (dio D) e) = c e \<and> c e \<le> c (snd (d_clock (dio D) e)))
   \<and> (\<forall>d a e. c e \<le> c (snd (d_read (dio D) d a e)))
   \<and> (\<forall>ms e. c e + ms * 1000000 \<le> c (d_sleep (dio D) ms e))"

lemma clock_read:
  assumes "real_clock D c"
  shows "c e \<le> c (snd (readEVBBufferTestStatus D p e))" "fst (readEVBBufferTestStatus D p e) \<noteq> Spin"
    "c e \<le> c (snd (evbKnownDefectMask D p e))" "fst (evbKnownDefectMask D p e) \<noteq> Spin"
proof -
  have r: "c e \<le> c (snd (d_read (dio D) d a e))" for d a using assms by (simp add: real_clock_def)
  show "c e \<le> c (snd (readEVBBufferTestStatus D p e))" "fst (readEVBBufferTestStatus D p e) \<noteq> Spin"
    "c e \<le> c (snd (evbKnownDefectMask D p e))" "fst (evbKnownDefectMask D p e) \<noteq> Spin"
    using r [of _ kRegEVBErrorFlags] r [of _ kRegDesignVersion]
    by (auto simp: readEVBBufferTestStatus_def evbKnownDefectMask_def read_register_def call_def bindE_cases ret_def throw_def
        split: option.split prod.split) (metis snd_conv)+
qed

lemma gate_loop_ends:
  assumes "real_clock D c" and "deadline \<le> c e + 100000000 * int n"
  shows "fst (loopE (Suc n) (gate_round D p msk deadline) a e) \<noteq> Spin"
  using assms(2)
proof (induction n arbitrary: a e)
  case 0
  have now: "fst (d_clock (dio D) e) \<ge> deadline" using assms(1) 0 by (simp add: real_clock_def)
  show ?case
    using now by (cases a, cases "d_clock (dio D) e") (simp add: gate_round_def Let_def bindE_def steady_now_def call_def ret_def)
next
  case (Suc n)
  obtain v w where a: "a = (v, w)" by (cases a)
  obtain t e1 where t: "d_clock (dio D) e = (t, e1)" by fastforce
  have clock: "t = c e" "c e \<le> c e1" using assms(1) t unfolding real_clock_def by (metis fst_conv, metis snd_conv)
  let ?e2 = "d_sleep (dio D) 100 e1"
  have "c e1 + 100 * 1000000 \<le> c ?e2" using assms(1) unfolding real_clock_def by blast
  then have e2: "c e1 + 100000000 \<le> c ?e2" by simp
  note read = clock_read [OF assms(1), where e = ?e2 and p = p]
  obtain r e3 where rd: "readEVBBufferTestStatus D p ?e2 = (r, e3)" by fastforce
  have e3: "c ?e2 \<le> c e3" "r \<noteq> Spin" using read(1,2) rd by simp_all
  have ih: "fst (loopE (Suc n) (gate_round D p msk deadline) a' e3) \<noteq> Spin" for a'
    using Suc.prems clock e2 e3 by (intro Suc.IH) simp
  show ?case
    using ih e3(2) unfolding a loopE.simps(2) [of "Suc n"]
    by (simp add: gate_round_def Let_def bindE_def steady_now_def call_def ret_def t seqE_def sleep_ms_def modify_def rd
        del: loopE.simps split: outcome.split)
qed

text \<open>
  The start gate ends: if the clock does not run back and sleeping takes at least its time, 31
  rounds of 100 ms are enough for the three seconds the gate waits for the DDR calibration, so
  \<open>requireEVBBufferTestReady\<close> returns its report or throws.
\<close>

theorem gate_wait_ends:
  assumes "real_clock D c"
  shows "fst (requireEVBBufferTestReady D 31 p operatorMask e) \<noteq> Spin"
proof -
  obtain r1 e1 where m: "evbKnownDefectMask D p e = (r1, e1)" by fastforce
  obtain t0 e2 where t: "d_clock (dio D) e1 = (t0, e2)" by fastforce
  have t0: "t0 = c e1" "c e1 \<le> c e2" using assms t unfolding real_clock_def by (metis fst_conv, metis snd_conv)
  obtain r2 e3 where v: "readEVBBufferTestStatus D p e2 = (r2, e3)" by fastforce
  have "c e2 \<le> c e3" "r2 \<noteq> Spin" "r1 \<noteq> Spin"
    using clock_read [OF assms, where e = e2 and p = p] clock_read(4) [OF assms, where e = e and p = p] v m by simp_all
  moreover have "fst (loopE (Suc 30) (gate_round D p msk (t0 + 3000000000)) a e3) \<noteq> Spin" for msk a
    using gate_loop_ends [OF assms, of "t0 + 3000000000" e3 30] t0 \<open>c e2 \<le> c e3\<close> by simp
  moreover have "Suc 30 = (31 :: nat)" by simp
  moreover have "steady_now D e1 = (Ret t0, e2)" by (simp add: steady_now_def call_def t)
  ultimately show ?thesis
    unfolding requireEVBBufferTestReady_def
    by (simp add: bindE_cases [of "evbKnownDefectMask _ _"] m Let_def bindE_cases [of "steady_now _"]
        bindE_cases [of "readEVBBufferTestStatus _ _"] v bindE_cases [of "loopE _ _ _"] throw_def ret_def
        split: outcome.split prod.split del: loopE.simps)
qed

text \<open>A clock that sleeping moves on, with a DDR that never calibrates.\<close>

definition waiting :: "int det" where
  "waiting = \<lparr>dio = \<lparr>d_uid = (\<lambda>_. ''DTC0''), d_read = (\<lambda>_ _ e. ((0, 0), e)), d_write = (\<lambda>_ _ _ e. (0, e)),
     d_get = (\<lambda>_ _ e. (Inr 0, e)), d_ackPosition = (\<lambda>_ _ e. (Inr (False, 0, 0), e)),
     d_stallCounters = (\<lambda>_ e. (Inr [], e)), d_clock = (\<lambda>e. (e, e)), d_sleep = (\<lambda>ms e. e + ms * 1000000),
     d_exit = (\<lambda>e. (False, e)), d_setExit = (\<lambda>_ e. e), d_device = (\<lambda>_ _ e. (Inr (), e)),
     d_linkEnabledData = (\<lambda>_ e. (Inr 0, e)), d_events = (\<lambda>_ _ _ e. (Inr [], e)), d_getData = (\<lambda>_ _ e. (Inr [], e)),
     d_stamp = (\<lambda>e. ((0, 0), e)), d_dataDir = (\<lambda>e. (Inr ''/data'', e)), d_fopen = (\<lambda>_ e. (True, e)),
     d_fclose = (\<lambda>_ e. e), d_spy = (\<lambda>_ e. e), d_logStatus = (\<lambda>e. (Inr (), e))\<rparr>,
     dlib = quiet_lib\<lparr>CheckEVBStatus := (\<lambda>_. \<lparr>ck_sticky = 0, ck_ddr = False, ck_missingFrontier = False, ck_ready = False\<rparr>)\<rparr>,
     others = (\<lambda>s. s)\<rparr>"

theorem gate_wait_ends_witness: "fst (requireEVBBufferTestReady waiting 31 (Some 0) 0 5) \<noteq> Spin"
  by (rule gate_wait_ends [where c = "\<lambda>e. e"]) (simp add: real_clock_def waiting_def)

subsection \<open>What a start leaves as it was\<close>

definition stale :: "'e thread \<Rightarrow> u32 \<times> bool \<times> bool" where
  "stale t = (packetThresholdToSave t, skipBy32 t, doNotResetCounters t)"

lemma test_of_env [simp]: "stale (test_of (s\<lparr>sy_env := e\<rparr>) i) = stale (test_of s i)"
  by (simp add: test_of_def stale_def new_thread_def split: option.split)

lemma stale_upd: "(\<And>t. stale (f t) = stale t) \<Longrightarrow> stale (test_of (upd_test i f s) i) = stale (test_of s i)"
proof (cases "i < length (sy_fes s)")
  case True
  then have "test_of (upd_test i f s) i = f (test_of s i)" by (simp add: upd_test_def upd_fe_def) (simp add: test_of_def [of "s\<lparr>sy_fes := _\<rparr>"])
  then show "(\<And>t. stale (f t) = stale t) \<Longrightarrow> stale (test_of (upd_test i f s) i) = stale (test_of s i)" by simp
next
  case False
  then have "upd_test i f s = s" by (simp add: upd_test_def upd_fe_def list_update_beyond)
  then show "stale (test_of (upd_test i f s) i) = stale (test_of s i)" by simp
qed

lemma keeps_stale:
  "keeps (\<lambda>s. stale (test_of s i) = x) (on_env m)" "(\<And>t. stale (f t) = stale t) \<Longrightarrow> keeps (\<lambda>s. stale (test_of s i) = x) (modify (upd_test i f))"
  by (auto simp: keeps_def on_env_def modify_def stale_upd split: prod.split)

text \<open>
  A start keeps the options it does not set: whatever its arguments, launching a test through
  \<^verbatim>\<open>BufferTest_detached\<close> leaves the packet threshold for saving, the stride option and the option to
  keep the counters as an earlier \<^verbatim>\<open>initDetachedBufferTest\<close> set them - the macro reads an argument for
  the threshold and stores it nowhere.
\<close>

theorem start_keeps_stale_options:
  "keeps (\<lambda>s. (packetThresholdToSave (test_of s i), skipBy32 (test_of s i), doNotResetCounters (test_of s i)) = x)
     (launch_test C i a peer)"
proof -
  have q: "keeps (\<lambda>s. stale (test_of s i) = x) (ask C j g)" for j g
    unfolding ask_def getDTC_def by (intro inv_intros keeps_stale)
  have "keeps (\<lambda>s. stale (test_of s i) = x) (launch_test C i a peer)"
    unfolding launch_test_def copy_options_def dest_nodes_def first_tag_def
    by (intro inv_intros keeps_stale q) (simp_all add: stale_def lower_exit_def)
  then show ?thesis by (simp add: stale_def)
qed

end
