(* ===== verification/ROC_Core.thy ===== *)
theory ROC_Core
  imports Effects
begin

section \<open>The ROC of a DTC link: register and block access\<close>

text \<open>
  \<^verbatim>\<open>ROCCoreVInterface\<close> (otsdaq-mu2e/ROCCore/ROCCoreVInterface.cc): the access of a ROC's registers through
  the DTC library, the reads Macro Maker makes with byte buffers, the check of the expected firmware version
  and the two high-rate checks. The ROCs of a DTC are numbered; the DTC library is the record \<open>rocdtc\<close> of
  functions on an environment of any type. The state holds that environment, the action lock of each ROC, the
  map in which a macro's \<^verbatim>\<open>try\<close> block notes the locks it holds, the percentages a macro reports, and a history of the accesses (newest first) that no operation reads. What
  other threads do while a thread waits for an action lock is \<open>rd_others\<close>.
\<close>

datatype roc_event =
    RocRead nat u16 "string + u16"
  | RocWrite nat u16 u16 "string + unit"
  | RocReadBlock nat u16 u16 "string + u16 list"
  | RocWriteBlock nat "u16 list" u16 "string + unit"

record 'e rocstate =
  rs_env :: 'e
  rs_locked :: "nat \<Rightarrow> bool"
  rs_held :: "nat \<Rightarrow> bool"
  rs_percent :: "nat list"
  rs_hist :: "roc_event list"

record 'e rocdtc =
  rd_link :: "nat \<Rightarrow> nat"
  rd_ReadROCRegister :: "nat \<Rightarrow> u16 \<Rightarrow> int \<Rightarrow> 'e \<Rightarrow> (string + u16) \<times> 'e"
  rd_WriteROCRegister :: "nat \<Rightarrow> u16 \<Rightarrow> u16 \<Rightarrow> bool \<Rightarrow> int \<Rightarrow> 'e \<Rightarrow> (string + unit) \<times> 'e"
  rd_ReadROCBlock :: "u16 list \<Rightarrow> nat \<Rightarrow> u16 \<Rightarrow> u16 \<Rightarrow> bool \<Rightarrow> int \<Rightarrow> 'e \<Rightarrow> (string + u16 list) \<times> 'e"
  rd_WriteROCBlock :: "nat \<Rightarrow> u16 \<Rightarrow> u16 list \<Rightarrow> bool \<Rightarrow> bool \<Rightarrow> int \<Rightarrow> 'e \<Rightarrow> (string + unit) \<times> 'e"
  rd_SoftReset :: "'e \<Rightarrow> (string + unit) \<times> 'e"
  rd_usleep :: "int \<Rightarrow> 'e \<Rightarrow> 'e"
  rd_rand :: "'e \<Rightarrow> nat \<times> 'e"
  rd_others :: "'e rocstate \<Rightarrow> 'e rocstate"
  rd_fuel :: nat

type_synonym ('e, 'a) roc_eff = "('e rocstate, 'a) eff"

subsection \<open>Calls of the DTC library\<close>

definition dtc_call :: "('e \<Rightarrow> (string + 'a) \<times> 'e) \<Rightarrow> (string + 'a \<Rightarrow> roc_event) \<Rightarrow> ('e, 'a) roc_eff" where
  "dtc_call f ev s =
     (case f (rs_env s) of (x, e) \<Rightarrow>
        ((case x of Inl m \<Rightarrow> Throw m | Inr a \<Rightarrow> Ret a), s\<lparr>rs_env := e, rs_hist := ev x # rs_hist s\<rparr>))"

definition writeROCRegister :: "'e rocdtc \<Rightarrow> nat \<Rightarrow> u16 \<Rightarrow> u16 \<Rightarrow> ('e, unit) roc_eff" where
  "writeROCRegister V r a d = dtc_call (rd_WriteROCRegister V (rd_link V r) a d False 0) (RocWrite r a d)"

definition readROCRegister :: "'e rocdtc \<Rightarrow> nat \<Rightarrow> u16 \<Rightarrow> ('e, u16) roc_eff" where
  "readROCRegister V r a = dtc_call (rd_ReadROCRegister V (rd_link V r) a 200) (RocRead r a)"

definition readROCBlock :: "'e rocdtc \<Rightarrow> nat \<Rightarrow> u16 list \<Rightarrow> u16 \<Rightarrow> u16 \<Rightarrow> bool \<Rightarrow> ('e, u16 list) roc_eff" where
  "readROCBlock V r data a n inc =
     bindE (dtc_call (rd_ReadROCBlock V data (rd_link V r) a n inc 0) (RocReadBlock r a n)) (\<lambda>data.
     if length data \<noteq> unat n
     then throw (''ROC block read failed, expecting '' @ to_string (unat n) @ '' words, and read ''
                 @ to_string (length data) @ '' words.'' @ [CHR 0x0A])
     else ret data)"

text \<open>The parameter \<^verbatim>\<open>requestAck\<close> is not passed on: the library is always called with \<^verbatim>\<open>false\<close>.\<close>

definition writeROCBlock :: "'e rocdtc \<Rightarrow> nat \<Rightarrow> u16 list \<Rightarrow> u16 \<Rightarrow> bool \<Rightarrow> bool \<Rightarrow> ('e, unit) roc_eff" where
  "writeROCBlock V r w a inc requestAck =
     dtc_call (rd_WriteROCBlock V (rd_link V r) a w False inc 0) (RocWriteBlock r w a)"

definition roc_writeRegister :: "'e rocdtc \<Rightarrow> nat \<Rightarrow> u16 \<Rightarrow> u16 \<Rightarrow> ('e, unit) roc_eff" where
  "roc_writeRegister V r a d = writeROCRegister V r a d"

definition roc_readRegister :: "'e rocdtc \<Rightarrow> nat \<Rightarrow> u16 \<Rightarrow> ('e, u16) roc_eff" where
  "roc_readRegister V r a = tryE (readROCRegister V r a) throw"

definition roc_readBlock :: "'e rocdtc \<Rightarrow> nat \<Rightarrow> u16 list \<Rightarrow> u16 \<Rightarrow> u16 \<Rightarrow> bool \<Rightarrow> ('e, u16 list) roc_eff" where
  "roc_readBlock V r data a n inc = readROCBlock V r data a n inc"

definition roc_writeBlock :: "'e rocdtc \<Rightarrow> nat \<Rightarrow> u16 list \<Rightarrow> u16 \<Rightarrow> bool \<Rightarrow> bool \<Rightarrow> ('e, unit) roc_eff" where
  "roc_writeBlock V r w a inc requestAck = writeROCBlock V r w a inc requestAck"

subsection \<open>Macro Maker's access by byte buffers\<close>

text \<open>The buffers hold two bytes each, read and stored as little-endian words.\<close>

definition word_of_bytes :: "u8 list \<Rightarrow> u16" where
  "word_of_bytes b = ucast (b ! 0) OR push_bit 8 (ucast (b ! 1))"

definition bytes_of_word :: "u16 \<Rightarrow> u8 list" where
  "bytes_of_word w = [ucast w, ucast (drop_bit 8 w)]"

definition universalRead :: "'e rocdtc \<Rightarrow> nat \<Rightarrow> u8 list \<Rightarrow> ('e, u8 list) roc_eff" where
  "universalRead V r address = bindE (roc_readRegister V r (word_of_bytes address)) (\<lambda>w. ret (bytes_of_word w))"

definition universalWrite :: "'e rocdtc \<Rightarrow> nat \<Rightarrow> u8 list \<Rightarrow> u8 list \<Rightarrow> ('e, unit) roc_eff" where
  "universalWrite V r address val = roc_writeRegister V r (word_of_bytes address) (word_of_bytes val)"

lemma word_of_bytes_of_word [simp]: "word_of_bytes (bytes_of_word w) = w"
  unfolding word_of_bytes_def bytes_of_word_def
  by (rule bit_word_eqI) (auto simp: bit_simps not_less)

subsection \<open>The expected firmware version\<close>

text \<open>In the constructor the virtual \<^verbatim>\<open>getFirmwareVersion\<close> is that of the base class, which throws.\<close>

definition base_getFirmwareVersion :: "('e, string) roc_eff" where
  "base_getFirmwareVersion = throw ''TODO''"

definition check_design_version :: "string option \<Rightarrow> ('e, unit) roc_eff" where
  "check_design_version configured =
     (let expected = (case configured of None \<Rightarrow> [] | Some v \<Rightarrow> v) in
      whenE (expected \<noteq> []) (bindE base_getFirmwareVersion (\<lambda>readback.
        whenE (expected \<noteq> readback)
          (throw (''ROC firmware design version '' @ [CHR 0x27] @ readback @ [CHR 0x27]
                  @ '' does not match required version '' @ [CHR 0x27] @ expected @ [CHR 0x0A])))))"

subsection \<open>The high-rate checks\<close>

definition random_below_100 :: "'e rocdtc \<Rightarrow> ('e, nat) roc_eff" where
  "random_below_100 V s = (case rd_rand V (rs_env s) of (k, e) \<Rightarrow> (Ret (k mod 100), s\<lparr>rs_env := e\<rparr>))"

definition rate_mismatch :: "string \<Rightarrow> nat \<Rightarrow> nat \<Rightarrow> u32 \<Rightarrow> u16 \<Rightarrow> u32 \<Rightarrow> nat \<Rightarrow> string" where
  "rate_mismatch uid i k a v correct n =
     uid @ to_string i @ [CHR 0x09] @ ''x '' @ to_string k @ '' :'' @ [CHR 0x09] @ '' read register '' @ to_string (unat a)
     @ ''. Mismatch on read '' @ to_string (unat v) @ '' vs '' @ to_string (unat correct)
     @ ''. Read failed on read number '' @ to_string n @ [CHR 0x0A]"

text \<open>The counters are the reads in all and those of each of the two registers; the result is what the
  thread prints at its end: the counters, or the exception's message.\<close>

type_synonym rate_counts = "nat \<times> nat \<times> nat"

fun count_read :: "nat \<Rightarrow> rate_counts \<Rightarrow> rate_counts" where
  "count_read j (cnt, a, b) = (Suc cnt, if j = 0 then Suc a else a, if j = 0 then b else Suc b)"

definition check_value :: "string \<Rightarrow> nat \<Rightarrow> nat \<Rightarrow> nat \<Rightarrow> u32 \<Rightarrow> u32 \<Rightarrow> u16 \<Rightarrow> rate_counts \<Rightarrow> ('e, rate_counts) roc_eff" where
  "check_value uid i k j a correct v c =
     (if ucast v \<noteq> correct then throw (rate_mismatch uid i k a v correct (fst (count_read j c)))
      else ret (count_read j c))"

definition rate_rounds :: "u32 \<Rightarrow> (nat \<times> nat) list" where
  "rate_rounds loops = [(i, j). i \<leftarrow> [0..<unat loops], j \<leftarrow> [0, 1]]"

definition high_rate_round :: "'e rocdtc \<Rightarrow> nat \<Rightarrow> string \<Rightarrow> u32 \<Rightarrow> u32 list \<Rightarrow> nat \<times> nat \<Rightarrow> rate_counts \<Rightarrow> ('e, rate_counts) roc_eff" where
  "high_rate_round V r uid base correct ij c =
     (case ij of (i, j) \<Rightarrow>
      bindE (random_below_100 V) (\<lambda>k.
      foldE (\<lambda>_ c. bindE (roc_readRegister V r (ucast (base + word_of_nat j))) (\<lambda>v.
                    check_value uid i k j (base + word_of_nat j) (correct ! j) v c)) [0..<k] c))"

definition high_rate_block_round ::
  "'e rocdtc \<Rightarrow> nat \<Rightarrow> string \<Rightarrow> u32 \<Rightarrow> u32 list \<Rightarrow> nat \<times> nat \<Rightarrow> u16 list \<times> rate_counts \<Rightarrow> ('e, u16 list \<times> rate_counts) roc_eff" where
  "high_rate_block_round V r uid base correct ij acc =
     (case (ij, acc) of ((i, j), (val, c)) \<Rightarrow>
      bindE (random_below_100 V) (\<lambda>k.
      bindE (roc_readBlock V r val (ucast (base + word_of_nat j)) (word_of_nat k) False) (\<lambda>val.
      bindE (foldE (\<lambda>v c. check_value uid i k j (base + word_of_nat j) (correct ! j) v c) val c) (\<lambda>c.
      ret (val, c)))))"

definition highRateCheckThread ::
  "'e rocdtc \<Rightarrow> nat \<Rightarrow> string \<Rightarrow> u32 \<Rightarrow> u32 \<Rightarrow> u32 \<Rightarrow> u32 \<Rightarrow> ('e, string + rate_counts) roc_eff" where
  "highRateCheckThread V r uid loops base correct0 correct1 =
     tryE (bindE (foldE (high_rate_round V r uid base [correct0, correct1]) (rate_rounds loops) (0, 0, 0))
            (\<lambda>c. ret (Inr c))) (\<lambda>e. ret (Inl e))"

definition highRateBlockCheckThread ::
  "'e rocdtc \<Rightarrow> nat \<Rightarrow> string \<Rightarrow> u32 \<Rightarrow> u32 \<Rightarrow> u32 \<Rightarrow> u32 \<Rightarrow> ('e, string + rate_counts) roc_eff" where
  "highRateBlockCheckThread V r uid loops base correct0 correct1 =
     tryE (bindE (foldE (high_rate_block_round V r uid base [correct0, correct1]) (rate_rounds loops) ([], 0, 0, 0))
            (\<lambda>(_, c). ret (Inr c))) (\<lambda>e. ret (Inl e))"

end
