(* ===== verification/ROC_Actions.thy ===== *)
theory ROC_Actions
  imports ROC_Core
begin

section \<open>The actions of a PolarFire ROC\<close>

text \<open>
  \<^verbatim>\<open>ROCPolarFireCoreInterface\<close> (otsdaq-mu2e/FEInterfaces/ROCPolarFireCoreInterfaceImpl.cc): an action of the
  ROC's microprocessor is started by writing a command block to register 384 and is over when bit 15 of
  register 128 is set; register 132 is its status and register 129 the number of words to be read. The action
  lock of a ROC (\<open>rs_locked\<close>) is held while an action runs. An action started with \<^verbatim>\<open>waitForDone = false\<close> takes
  the lock with \<^verbatim>\<open>try_lock\<close> and leaves it held; \<open>isActionDone\<close> with \<^verbatim>\<open>releaseLockOnDone\<close> gives it back.
\<close>

subsection \<open>The action lock\<close>

definition set_lock :: "nat \<Rightarrow> bool \<Rightarrow> 'e rocstate \<Rightarrow> 'e rocstate" where
  "set_lock r b s = s\<lparr>rs_locked := (rs_locked s)(r := b)\<rparr>"

definition try_lock :: "nat \<Rightarrow> ('e, bool) roc_eff" where
  "try_lock r s = (if rs_locked s r then (Ret False, s) else (Ret True, set_lock r True s))"

text \<open>Unlocking a mutex that is not locked has no defined behaviour.\<close>

definition unlock :: "nat \<Rightarrow> ('e, unit) roc_eff" where
  "unlock r s = (if rs_locked s r then (Ret (), set_lock r False s) else (Undef, s))"

text \<open>The blocking lock of \<^verbatim>\<open>std::lock_guard\<close>: other threads run until the lock is free.\<close>

definition wait_lock :: "'e rocdtc \<Rightarrow> nat \<Rightarrow> ('e, unit) roc_eff" where
  "wait_lock V r = loopE (rd_fuel V) (\<lambda>_. bindE (try_lock r) (\<lambda>got.
     if got then ret (Inr ()) else bindE (modify (rd_others V)) (\<lambda>_. ret (Inl ())))) ()"

definition lock_guard :: "'e rocdtc \<Rightarrow> nat \<Rightarrow> ('e, 'a) roc_eff \<Rightarrow> ('e, 'a) roc_eff" where
  "lock_guard V r m = bindE (wait_lock V r) (\<lambda>_. scopedE (\<lambda>s. s) (set_lock r False) m)"

definition no_action_lock :: string where
  "no_action_lock = ''Could not get ROC action lock (is there an incomplete action?)!'' @ [CHR 0x0A]"

definition ROC_ADDRESS_ACTION_DONE :: u16 where "ROC_ADDRESS_ACTION_DONE = 128"
definition ROC_ADDRESS_ACTION_READ_SIZE :: u16 where "ROC_ADDRESS_ACTION_READ_SIZE = 129"
definition ROC_ADDRESS_ACTION_STATUS :: u16 where "ROC_ADDRESS_ACTION_STATUS = 132"
definition ROC_ADDRESS_ACTION_COMMAND :: u16 where "ROC_ADDRESS_ACTION_COMMAND = 384"

definition ROC_ACTION_ERASE_ADDR :: u16 where "ROC_ACTION_ERASE_ADDR = 3"
definition ROC_ACTION_PROG_INDEX :: u16 where "ROC_ACTION_PROG_INDEX = 4"
definition ROC_ACTION_PROG_ADDR :: u16 where "ROC_ACTION_PROG_ADDR = 5"
definition ROC_ACTION_PROG_AUTO :: u16 where "ROC_ACTION_PROG_AUTO = 6"
definition ROC_ACTION_READ_SPI :: u16 where "ROC_ACTION_READ_SPI = 7"
definition ROC_ACTION_WRITE_SPI :: u16 where "ROC_ACTION_WRITE_SPI = 8"
definition ROC_ACTION_WRITE_DIR :: u16 where "ROC_ACTION_WRITE_DIR = 9"

definition send_command :: "'e rocdtc \<Rightarrow> nat \<Rightarrow> u16 list \<Rightarrow> ('e, unit) roc_eff" where
  "send_command V r w = roc_writeBlock V r w ROC_ADDRESS_ACTION_COMMAND False True"

text \<open>The two 16-bit halves of a 32-bit parameter, low half first.\<close>

definition halves :: "u32 \<Rightarrow> u16 list" where
  "halves p = [ucast p, ucast (drop_bit 16 p)]"

text \<open>The branch \<^verbatim>\<open>!waitForDone\<close>. When the write throws, nothing gives the lock back.\<close>

definition launch_action :: "'e rocdtc \<Rightarrow> nat \<Rightarrow> u16 list \<Rightarrow> ('e, unit) roc_eff" where
  "launch_action V r w = bindE (try_lock r) (\<lambda>got. if got then send_command V r w else throw no_action_lock)"

definition forceClearActionLock :: "nat \<Rightarrow> ('e, unit) roc_eff" where
  "forceClearActionLock r = unlock r"

subsection \<open>Polling\<close>

text \<open>A status of \<open>None\<close> stands for the pointer \<^verbatim>\<open>readStatus\<close> not being written.\<close>

definition isActionDone :: "'e rocdtc \<Rightarrow> nat \<Rightarrow> bool \<Rightarrow> bool \<Rightarrow> ('e, bool \<times> u16 option) roc_eff" where
  "isActionDone V r wantStatus releaseLockOnDone =
     bindE (roc_readRegister V r ROC_ADDRESS_ACTION_DONE) (\<lambda>v.
     let done = bit v 15 in
     bindE (if done \<and> wantStatus
            then bindE (roc_readRegister V r ROC_ADDRESS_ACTION_STATUS) (\<lambda>x. ret (Some x)) else ret None) (\<lambda>st.
     seqE (whenE (done \<and> releaseLockOnDone) (unlock r)) (ret (done, st))))"

definition is_done :: "'e rocdtc \<Rightarrow> nat \<Rightarrow> ('e, bool) roc_eff" where
  "is_done V r = bindE (isActionDone V r False False) (\<lambda>(d, _). ret d)"

definition roc_usleep :: "'e rocdtc \<Rightarrow> int \<Rightarrow> ('e, unit) roc_eff" where
  "roc_usleep V us = modify (\<lambda>s. s\<lparr>rs_env := rd_usleep V us (rs_env s)\<rparr>)"

text \<open>A loop that polls until \<open>look\<close> gives a value and sleeps 10 ms after each miss; the miss after
  \<open>k\<close> sleeps is the time-out. A limit \<^verbatim>\<open>i > n\<close> on a counter from 0 allows \<open>n + 1\<close> sleeps.\<close>

primrec poll :: "'e rocdtc \<Rightarrow> nat \<Rightarrow> ('e, 'b + 'a) roc_eff \<Rightarrow> ('b \<Rightarrow> ('e, 'a) roc_eff) \<Rightarrow> ('e, 'a) roc_eff" where
  "poll V 0 look late = bindE look (\<lambda>x. case x of Inl b \<Rightarrow> late b | Inr a \<Rightarrow> ret a)"
| "poll V (Suc k) look late = bindE look (\<lambda>x. case x of
     Inl b \<Rightarrow> seqE (roc_usleep V 10000) (poll V k look late) | Inr a \<Rightarrow> ret a)"

definition await_done :: "'e rocdtc \<Rightarrow> nat \<Rightarrow> bool \<Rightarrow> nat \<Rightarrow> ('e, unit) roc_eff \<Rightarrow> ('e, unit) roc_eff" where
  "await_done V r wanted limit late =
     poll V (limit + 1) (bindE (is_done V r) (\<lambda>d. ret (if d = wanted then Inr () else Inl ()))) (\<lambda>_. late)"

text \<open>The time-outs of the SPI actions read two registers for their message.\<close>

definition spi_timeout :: "'e rocdtc \<Rightarrow> nat \<Rightarrow> string \<Rightarrow> ('e, 'a) roc_eff" where
  "spi_timeout V r phase =
     bindE (roc_readRegister V r ROC_ADDRESS_ACTION_DONE) (\<lambda>reg128.
     bindE (roc_readRegister V r ROC_ADDRESS_ACTION_STATUS) (\<lambda>reg132.
     throw (phase @ '' reg128=0x'' @ radix_string 16 (unat reg128) @ '' reg132=0x'' @ radix_string 16 (unat reg132) @ [CHR 0x0A])))"

text \<open>A waited action: command, DONE low, DONE high, and the status under the lock.\<close>

definition run_action ::
  "'e rocdtc \<Rightarrow> nat \<Rightarrow> u16 list \<Rightarrow> nat \<Rightarrow> nat \<Rightarrow> ('e, unit) roc_eff \<Rightarrow> ('e, unit) roc_eff \<Rightarrow> ('e, 'a) roc_eff \<Rightarrow> ('e, 'a) roc_eff" where
  "run_action V r w acceptLimit doneLimit late1 late2 finish =
     lock_guard V r
       (seqE (send_command V r w)
       (seqE (await_done V r False acceptLimit late1)
       (seqE (await_done V r True doneLimit late2) finish)))"

definition nonzero_status :: "string \<Rightarrow> u16 \<Rightarrow> ('e, unit) roc_eff" where
  "nonzero_status what st =
     whenE (st \<noteq> 0) (throw (''Non-zero status received after '' @ what @ '': 0x'' @ radix_string 16 (unat st) @ [CHR 0x0A]))"

subsection \<open>Reading the SPI flash\<close>

definition launchSPIFlashBlockRead :: "'e rocdtc \<Rightarrow> nat \<Rightarrow> u32 \<Rightarrow> u16 \<Rightarrow> ('e, unit) roc_eff" where
  "launchSPIFlashBlockRead V r startAddress numberOfBytes =
     seqE (whenE (unat numberOfBytes > 1016)
             (throw (''Illegal number of bytes requested for read SPI flash action: '' @ to_string (unat numberOfBytes) @ [CHR 0x0A])))
    (bindE (try_lock r) (\<lambda>got.
     if \<not> got then throw no_action_lock
     else tryE (send_command V r ([ROC_ACTION_READ_SPI] @ halves startAddress @ [numberOfBytes, 0]))
            (\<lambda>e. seqE (unlock r) (throw e))))"

definition read_timeout :: "'e rocdtc \<Rightarrow> nat \<Rightarrow> nat \<Rightarrow> nat \<Rightarrow> ('e, 'a) roc_eff" where
  "read_timeout V r expected readCount =
     bindE (roc_readRegister V r ROC_ADDRESS_ACTION_DONE) (\<lambda>done.
     bindE (roc_readRegister V r ROC_ADDRESS_ACTION_READ_SIZE) (\<lambda>count.
     bindE (roc_readRegister V r ROC_ADDRESS_ACTION_STATUS) (\<lambda>st.
     throw (''Timeout waiting for SPI flash block read action! Check for more info with ROC Read to ''
       @ to_string (unat ROC_ADDRESS_ACTION_DONE) @ '', read count 0x'' @ radix_string 16 readCount
       @ '' expected 0x'' @ radix_string 16 expected @ ''. Final state: reg128=0x'' @ radix_string 16 (unat done)
       @ '' reg129=0x'' @ radix_string 16 (unat count) @ '' reg132=0x'' @ radix_string 16 (unat st) @ [CHR 0x0A]))))"

definition read_size :: "'e rocdtc \<Rightarrow> nat \<Rightarrow> ('e, nat) roc_eff" where
  "read_size V r = bindE (roc_readRegister V r ROC_ADDRESS_ACTION_READ_SIZE) (\<lambda>v. ret (unat (v AND 0x7ff)))"

definition look_for_reply :: "'e rocdtc \<Rightarrow> nat \<Rightarrow> nat \<Rightarrow> ('e, nat + nat) roc_eff" where
  "look_for_reply V r expected =
     bindE (is_done V r) (\<lambda>d. bindE (read_size V r) (\<lambda>n. ret (if d \<and> n = expected then Inr n else Inl n)))"

text \<open>The subtraction of the code is the one of \<^verbatim>\<open>size_t\<close>; \<open>readCount\<close> is at least 4 here.\<close>

definition fetch_reply :: "'e rocdtc \<Rightarrow> nat \<Rightarrow> u16 \<Rightarrow> ('e, u16 list) roc_eff" where
  "fetch_reply V r numberOfBytes =
     (let expected = unat numberOfBytes div 2 + 4 in
      bindE (poll V 501 (look_for_reply V r expected) (read_timeout V r expected)) (\<lambda>readCount.
      if readCount - 4 \<noteq> unat numberOfBytes div 2
      then throw (''Illegal read count received after SPI flash block read action: 0x'' @ radix_string 16 readCount
             @ '' expected 0x'' @ radix_string 16 (unat numberOfBytes div 2 + 4) @ [CHR 0x0A]
             @ ''Consider emptying manually by reading 0x'' @ radix_string 16 (readCount - 4)
             @ '' words with Block Read from address 0x'' @ radix_string 16 (unat ROC_ADDRESS_ACTION_COMMAND) @ [CHR 0x0A])
      else roc_readBlock V r [] ROC_ADDRESS_ACTION_COMMAND (word_of_nat (readCount - 4)) False))"

text \<open>The vector of the caller, with the words read appended. The last read of the count is only for the log,
  but it can throw; the caller's vector has then been extended already, which no caller looks at.\<close>

definition collectSPIFlashBlockRead :: "'e rocdtc \<Rightarrow> nat \<Rightarrow> u16 list \<Rightarrow> u16 \<Rightarrow> ('e, u16 list) roc_eff" where
  "collectSPIFlashBlockRead V r readData numberOfBytes =
     bindE (tryE (fetch_reply V r numberOfBytes) (\<lambda>e. seqE (unlock r) (throw e))) (\<lambda>w.
     seqE (unlock r)
    (bindE (read_size V r) (\<lambda>_. ret (readData @ w))))"

definition readSPIFlashBlock :: "'e rocdtc \<Rightarrow> nat \<Rightarrow> u16 list \<Rightarrow> u32 \<Rightarrow> u16 \<Rightarrow> ('e, u16 list) roc_eff" where
  "readSPIFlashBlock V r readData startAddress numberOfBytes =
     seqE (launchSPIFlashBlockRead V r startAddress numberOfBytes)
          (collectSPIFlashBlockRead V r readData numberOfBytes)"

subsection \<open>Writing and erasing the SPI flash\<close>

definition directory_command :: "u32 list \<Rightarrow> u16 list" where
  "directory_command imageAddresses =
     [ROC_ACTION_WRITE_DIR, word_of_nat (length imageAddresses), 0, 0, 0]
     @ concat (map halves imageAddresses) @ concat (replicate (16 - length imageAddresses) [0, 0])"

definition writeSPIFlashDirectory :: "'e rocdtc \<Rightarrow> nat \<Rightarrow> u32 list \<Rightarrow> bool \<Rightarrow> ('e, unit) roc_eff" where
  "writeSPIFlashDirectory V r imageAddresses waitForDone =
     seqE (whenE (length imageAddresses > 16)
       (throw (''Illegal number of image address requested for SPI flash directory write: ''
               @ to_string (length imageAddresses) @ [CHR 0x0A])))
    (let w = directory_command imageAddresses in
     if \<not> waitForDone then launch_action V r w
     else bindE (run_action V r w 3000 3000
            (spi_timeout V r ''SPI DIRECTORY WRITE TIMEOUT: phase=command-accepted timeout=30s (DONE stuck high)'')
            (spi_timeout V r ''SPI DIRECTORY WRITE TIMEOUT: phase=complete timeout=30s'')
            (roc_readRegister V r ROC_ADDRESS_ACTION_STATUS))
          (nonzero_status ''SPI flash directory write action''))"

definition write_command :: "u16 list \<Rightarrow> u32 \<Rightarrow> u16 list" where
  "write_command writeData startAddress =
     [ROC_ACTION_WRITE_SPI] @ halves startAddress @ [word_of_nat (length writeData), 0] @ writeData"

definition write_failed :: "u32 \<Rightarrow> u16 \<Rightarrow> string" where
  "write_failed a st = ''SPI local write verify failed at flashAddr=0x'' @ radix_string 16 (unat a)
     @ '' failMask=0x'' @ radix_string 16 (unat st)
     @ '' (bit N flags 128-byte subblock N within this 1KB chunk)'' @ [CHR 0x0A]"

definition writeSPIFlashBlock :: "'e rocdtc \<Rightarrow> nat \<Rightarrow> u16 list \<Rightarrow> u32 \<Rightarrow> bool \<Rightarrow> ('e, unit) roc_eff" where
  "writeSPIFlashBlock V r writeData startAddress waitForDone =
     seqE (whenE (length writeData > 512)
       (throw (''Illegal number of write words requested for SPI flash write: '' @ to_string (length writeData) @ [CHR 0x0A])))
    (let w = write_command writeData startAddress in
     if \<not> waitForDone then launch_action V r w
     else bindE (run_action V r w 500 500
            (spi_timeout V r ''SPI WRITE TIMEOUT: phase=command-accepted timeout=5s (DONE stuck high)'')
            (spi_timeout V r ''SPI WRITE TIMEOUT: phase=complete timeout=5s'')
            (roc_readRegister V r ROC_ADDRESS_ACTION_STATUS))
          (\<lambda>st. whenE (st \<noteq> 0) (throw (write_failed startAddress st))))"

definition erase_command :: "u32 \<Rightarrow> u32 \<Rightarrow> u16 list" where
  "erase_command eraseSize startAddress = [ROC_ACTION_ERASE_ADDR] @ halves startAddress @ halves eraseSize"

definition eraseSPIFlashBlock :: "'e rocdtc \<Rightarrow> nat \<Rightarrow> u32 \<Rightarrow> u32 \<Rightarrow> bool \<Rightarrow> ('e, unit) roc_eff" where
  "eraseSPIFlashBlock V r eraseSize startAddress waitForDone =
     (let w = erase_command eraseSize startAddress in
      if \<not> waitForDone then launch_action V r w
      else run_action V r w 500 18000
             (spi_timeout V r ''SPI ERASE TIMEOUT: phase=command-accepted timeout=5s (DONE stuck high)'')
             (spi_timeout V r ''SPI ERASE TIMEOUT: phase=complete timeout=180s'') (ret ()))"

subsection \<open>Programming from the SPI flash\<close>

definition prog_command :: "u16 \<Rightarrow> u32 \<Rightarrow> u16 list" where
  "prog_command a p = [a] @ halves p @ [0, 0]"

definition program_action :: "'e rocdtc \<Rightarrow> nat \<Rightarrow> u16 list \<Rightarrow> string \<Rightarrow> string \<Rightarrow> ('e, unit) roc_eff" where
  "program_action V r w cmdName what =
     bindE (run_action V r w 500 500
        (throw (''Timeout waiting for '' @ cmdName @ '' command to be accepted (DONE stuck high)!'' @ [CHR 0x0A]))
        (throw (''Timeout waiting for '' @ what @ ''! Check for more info with ROC Read to ''
                @ to_string (unat ROC_ADDRESS_ACTION_DONE) @ [CHR 0x0A]))
        (roc_readRegister V r ROC_ADDRESS_ACTION_STATUS))
       (nonzero_status what)"

definition programFromSPIByIndex :: "'e rocdtc \<Rightarrow> nat \<Rightarrow> u8 \<Rightarrow> bool \<Rightarrow> ('e, unit) roc_eff" where
  "programFromSPIByIndex V r index waitForDone =
     (let w = [ROC_ACTION_PROG_INDEX, ucast index, 0, 0, 0] in
      if \<not> waitForDone then launch_action V r w
      else program_action V r w ''programFromSPIByIndex'' ''action to program from SPI flash by index'')"

definition programFromSPIByAddress :: "'e rocdtc \<Rightarrow> nat \<Rightarrow> u32 \<Rightarrow> bool \<Rightarrow> ('e, unit) roc_eff" where
  "programFromSPIByAddress V r startAddress waitForDone =
     (let w = prog_command ROC_ACTION_PROG_ADDR startAddress in
      if \<not> waitForDone then launch_action V r w
      else program_action V r w ''programFromSPIByAddress'' ''action to program from SPI flash by address'')"

text \<open>The command is the one of programming by address, and the counter of the loop is never increased.\<close>

definition auto_wait :: "'e rocdtc \<Rightarrow> nat \<Rightarrow> ('e, unit) roc_eff" where
  "auto_wait V r = loopE (rd_fuel V) (\<lambda>i :: nat.
     bindE (is_done V r) (\<lambda>d.
     if d then ret (Inr ())
     else if i > 500
     then throw (''Timeout waiting for action to program from SPI flash by index! Check for more info with ROC Read to ''
                 @ to_string (unat ROC_ADDRESS_ACTION_DONE) @ [CHR 0x0A])
     else seqE (roc_usleep V 10000) (ret (Inl i)))) 0"

definition autoProgramFromSPI :: "'e rocdtc \<Rightarrow> nat \<Rightarrow> bool \<Rightarrow> ('e, unit) roc_eff" where
  "autoProgramFromSPI V r waitForDone =
     (let w = [ROC_ACTION_PROG_ADDR, 0, 0, 0, 0] in
      if \<not> waitForDone then launch_action V r w
      else bindE (lock_guard V r
             (seqE (send_command V r w)
             (seqE (auto_wait V r) (roc_readRegister V r ROC_ADDRESS_ACTION_STATUS))))
           (nonzero_status ''action to program from SPI flash by index''))"

subsection \<open>The registers of the core\<close>

definition readInjectedPulseTimestamp :: "'e rocdtc \<Rightarrow> nat \<Rightarrow> ('e, int) roc_eff" where
  "readInjectedPulseTimestamp V r = bindE (roc_readRegister V r 12) (\<lambda>v. ret (uint v))"

definition writeDelay :: "'e rocdtc \<Rightarrow> nat \<Rightarrow> u16 \<Rightarrow> ('e, unit) roc_eff" where
  "writeDelay V r delay = roc_writeRegister V r 21 delay"

definition readDelay :: "'e rocdtc \<Rightarrow> nat \<Rightarrow> ('e, int) roc_eff" where
  "readDelay V r = bindE (roc_readRegister V r 7) (\<lambda>v. ret (uint v))"

definition readDTCLinkLossCounter :: "'e rocdtc \<Rightarrow> nat \<Rightarrow> ('e, int) roc_eff" where
  "readDTCLinkLossCounter V r = bindE (roc_readRegister V r 8) (\<lambda>v. ret (uint v))"

definition resetDTCLinkLossCounter :: "'e rocdtc \<Rightarrow> nat \<Rightarrow> ('e, unit) roc_eff" where
  "resetDTCLinkLossCounter V r = roc_writeRegister V r 24 1"

text \<open>\<^verbatim>\<open>delay_\<close> is an \<^verbatim>\<open>unsigned int\<close>; the readback is only printed.\<close>

definition roc_configure :: "'e rocdtc \<Rightarrow> nat \<Rightarrow> u32 \<Rightarrow> ('e, unit) roc_eff" where
  "roc_configure V r delay =
     seqE (writeDelay V r (ucast delay))
    (bindE (readDelay V r) (\<lambda>_. resetDTCLinkLossCounter V r))"

definition SetupForPatternDataTaking :: "'e rocdtc \<Rightarrow> nat \<Rightarrow> ('e, unit) roc_eff" where
  "SetupForPatternDataTaking V r =
     seqE (roc_writeRegister V r 14 1)
    (seqE (roc_writeRegister V r 8 (push_bit 4 1))
    (seqE (roc_writeRegister V r 30 0)
          (roc_writeRegister V r 29 1)))"

end
