(* ===== verification/ROC_Macros.thy ===== *)
theory ROC_Macros
  imports ROC_Actions
begin

section \<open>The front-end macros of a PolarFire ROC and the directory file\<close>

text \<open>
  \<^verbatim>\<open>ReadSPIFlashBlock\<close>, \<^verbatim>\<open>WriteSPIFlashDirectory\<close>, \<^verbatim>\<open>EraseSPIFlashBlock\<close> and \<^verbatim>\<open>ForceClearActionLock\<close>
  (ROCPolarFireCoreInterfaceImpl.cc) with the reader of a directory map file, which \<^verbatim>\<open>ProgramROCs\<close> uses too:
  lines of at most 99 characters, each converted by \<^verbatim>\<open>std::stoi(line, nullptr, 16)\<close>. Files are a parameter:
  opening one gives the error number and text, or the contents.
\<close>

record 'e rocfiles =
  rf_text :: "string \<Rightarrow> 'e \<Rightarrow> ((int \<times> string) + string) \<times> 'e"
  rf_bytes :: "string \<Rightarrow> 'e \<Rightarrow> ((int \<times> string) + u8 list) \<times> 'e"

definition open_file :: "(string \<Rightarrow> 'e \<Rightarrow> ((int \<times> string) + 'a) \<times> 'e) \<Rightarrow> string \<Rightarrow> ('e, 'a) roc_eff" where
  "open_file f path s =
     (case f path (rs_env s) of
        (Inl (errno, why), e) \<Rightarrow>
          (Throw (''Could not open file at '' @ path @ ''. Error: '' @ to_string_int errno @ '' - '' @ why @ [CHR 0x0A]), s\<lparr>rs_env := e\<rparr>)
      | (Inr a, e) \<Rightarrow> (Ret a, s\<lparr>rs_env := e\<rparr>))"

subsection \<open>\<open>std::stoi\<close> in base 16\<close>

definition hex_value :: "char \<Rightarrow> nat option" where
  "hex_value c =
     (let k = of_char c :: nat in
      if 48 \<le> k \<and> k < 58 then Some (k - 48)
      else if 97 \<le> k \<and> k < 103 then Some (k - 87)
      else if 65 \<le> k \<and> k < 71 then Some (k - 55) else None)"

definition hex_run :: "string \<Rightarrow> string" where
  "hex_run t = takeWhile (\<lambda>c. hex_value c \<noteq> None) t"

definition hex_number :: "string \<Rightarrow> nat" where
  "hex_number ds = foldl (\<lambda>v c. 16 * v + the (hex_value c)) 0 ds"

definition strip_0x :: "string \<Rightarrow> string" where
  "strip_0x t = (if take 1 t = ''0'' \<and> (take 1 (drop 1 t) = ''x'' \<or> take 1 (drop 1 t) = ''X'') \<and> hex_run (drop 2 t) \<noteq> []
                 then drop 2 t else t)"

text \<open>A value outside \<^verbatim>\<open>int\<close> and a text without a digit are exceptions whose \<^verbatim>\<open>what()\<close> is \<^verbatim>\<open>stoi\<close>.\<close>

definition stoi16 :: "string \<Rightarrow> string + int" where
  "stoi16 line =
     (let t = dropWhile is_space line;
          neg = (take 1 t = ''-'');
          u = (if neg \<or> take 1 t = ''+'' then drop 1 t else t);
          ds = hex_run (strip_0x u);
          v = (if neg then - int (hex_number ds) else int (hex_number ds))
      in if ds = [] \<or> v < - (2 ^ 31) \<or> 2 ^ 31 \<le> v then Inl ''stoi'' else Inr v)"

subsection \<open>The directory file\<close>

fun read_line :: "nat \<Rightarrow> string \<Rightarrow> string \<times> string" where
  "read_line 0 cs = ([], cs)"
| "read_line (Suc k) [] = ([], [])"
| "read_line (Suc k) (c # cs) =
     (if c = CHR 0x0A then ([c], cs) else (case read_line k cs of (l, rest) \<Rightarrow> (c # l, rest)))"

lemma read_line_rest: "length (snd (read_line k cs)) \<le> length cs"
  by (induction k cs rule: read_line.induct) (auto split: prod.splits)

lemma read_line_shorter: "cs \<noteq> [] \<Longrightarrow> length (snd (read_line (Suc k) cs)) < length cs"
  using read_line_rest [of k "tl cs"] by (cases cs) (auto split: prod.splits)

function fgets_lines :: "string \<Rightarrow> string list" where
  "fgets_lines cs = (if cs = [] then [] else fst (read_line 99 cs) # fgets_lines (snd (read_line 99 cs)))"
  by pat_completeness auto
termination
  using read_line_shorter [of _ 98] by (relation "measure length") (simp_all add: numeral_eq_Suc)

declare fgets_lines.simps [simp del]

definition directory_entry :: "string \<Rightarrow> u32 list \<Rightarrow> ('e, u32 list) roc_eff" where
  "directory_entry line acc =
     (case stoi16 (takeWhile (\<lambda>c. c \<noteq> CHR 0x00) line) of Inl e \<Rightarrow> throw e | Inr v \<Rightarrow> ret (acc @ [word_of_int v]))"

definition read_directory :: "string \<Rightarrow> ('e, u32 list) roc_eff" where
  "read_directory contents = foldE directory_entry (fgets_lines contents) []"

subsection \<open>The macros\<close>

definition word_hex4 :: "u16 \<Rightarrow> string" where
  "word_hex4 w = pad_left 4 CHR ''0'' (radix_string 16 (unat w))"

text \<open>The dump goes through the words two by two; the second of an odd number of words is outside the vector.\<close>

definition dump_pair :: "u16 list \<Rightarrow> u32 \<Rightarrow> nat \<Rightarrow> string \<Rightarrow> ('e, string) roc_eff" where
  "dump_pair d startAddress i t =
     bindE (at d (i + 1)) (\<lambda>hi. bindE (at d i) (\<lambda>lo.
     ret (t @ (if i mod 16 = 0 then ''0x'' @ pad_left 8 CHR ''0'' (radix_string 16 (unat startAddress + i)) @ '': 0x'' else [])
          @ (if i mod 2 = 0 then '' '' else []) @ (if i mod 4 = 0 then ''    '' else [])
          @ word_hex4 hi @ word_hex4 lo @ (if i mod 16 = 14 then [CHR 0x0A] else []))))"

definition ReadSPIFlashBlock :: "'e rocdtc \<Rightarrow> nat \<Rightarrow> u32 \<Rightarrow> u32 \<Rightarrow> ('e, string) roc_eff" where
  "ReadSPIFlashBlock V r startAddress numberOfBytes =
     bindE (readSPIFlashBlock V r [] startAddress (ucast numberOfBytes)) (\<lambda>d.
     foldE (dump_pair d startAddress) (piece_starts (length d) 2)
       ([CHR 0x0A] @ ''Read '' @ to_string (length d * 2) @ '' bytes (requested '' @ to_string (unat numberOfBytes)
        @ '' bytes) from address 0x'' @ radix_string 16 (unat startAddress) @ '':'' @ [CHR 0x0A]))"

definition WriteSPIFlashDirectory :: "'e rocdtc \<Rightarrow> 'e rocfiles \<Rightarrow> nat \<Rightarrow> string \<Rightarrow> ('e, unit) roc_eff" where
  "WriteSPIFlashDirectory V F r path =
     bindE (open_file (rf_text F) path) (\<lambda>contents.
     bindE (read_directory contents) (\<lambda>imageAddresses.
     writeSPIFlashDirectory V r imageAddresses True))"

definition EraseSPIFlashBlock :: "'e rocdtc \<Rightarrow> nat \<Rightarrow> u32 \<Rightarrow> u32 \<Rightarrow> ('e, unit) roc_eff" where
  "EraseSPIFlashBlock V r startAddress numberOfBytes = eraseSPIFlashBlock V r numberOfBytes startAddress True"

definition ForceClearActionLock :: "nat \<Rightarrow> ('e, unit) roc_eff" where
  "ForceClearActionLock r = unlock r"

end
