(* ===== verification/ROC_Directory.thy ===== *)
theory ROC_Directory
  imports ROC_Macros
begin

section \<open>Reading back a directory file\<close>

text \<open>
  A directory file holds one 32-bit address per line, in hexadecimal. What \<^verbatim>\<open>read_directory\<close> makes of a file
  that was printed from a list of addresses: the addresses, or an exception if one of them does not fit the
  signed \<^verbatim>\<open>int\<close> that \<^verbatim>\<open>std::stoi\<close> returns.
\<close>

subsection \<open>Digits\<close>

lemma hex_value_digit: "d < 16 \<Longrightarrow> hex_value (digit_char d) = Some d"
  by (auto simp: hex_value_def digit_char_def Let_def)

lemma hex_number_snoc: "hex_number (xs @ [c]) = 16 * hex_number xs + the (hex_value c)"
  by (simp add: hex_number_def)

lemma hex_number_radix: "hex_number (radix_string 16 n) = n"
proof (induction n rule: less_induct)
  case (less n)
  show ?case
  proof (cases "n < 16")
    case True
    then show ?thesis by (subst radix_string.simps) (simp add: hex_number_def hex_value_digit)
  next
    case False
    then have "hex_number (radix_string 16 (n div 16)) = n div 16" by (intro less) simp
    then show ?thesis using False by (subst radix_string.simps) (simp add: hex_number_snoc hex_value_digit)
  qed
qed

lemma hex_digits_plain:
  "\<forall>c \<in> set ''0123456789abcdef''. hex_value c \<noteq> None \<and> \<not> is_space c \<and> c \<noteq> CHR ''-'' \<and> c \<noteq> CHR ''+'' \<and> c \<noteq> CHR ''x''
     \<and> c \<noteq> CHR ''X'' \<and> c \<noteq> CHR 0x0A \<and> c \<noteq> CHR 0x00"
  by code_simp

lemma radix_chars:
  assumes "c \<in> set (radix_string 16 n)"
  shows "hex_value c \<noteq> None" "\<not> is_space c" "c \<noteq> CHR ''-''" "c \<noteq> CHR ''+''" "c \<noteq> CHR ''x''" "c \<noteq> CHR ''X''" "c \<noteq> CHR 0x0A" "c \<noteq> CHR 0x00"
proof -
  have "c \<in> set ''0123456789abcdef''" using assms radix_string_hex by blast
  then show "hex_value c \<noteq> None" "\<not> is_space c" "c \<noteq> CHR ''-''" "c \<noteq> CHR ''+''" "c \<noteq> CHR ''x''" "c \<noteq> CHR ''X''" "c \<noteq> CHR 0x0A" "c \<noteq> CHR 0x00"
    using hex_digits_plain by blast+
qed

subsection \<open>One line\<close>

definition line_of :: "u32 \<Rightarrow> string" where
  "line_of a = radix_string 16 (unat a) @ [CHR 0x0A]"

lemma hex_run_line: "hex_run (line_of a) = radix_string 16 (unat a)"
proof -
  have "hex_value (CHR 0x0A) = None" by code_simp
  then show ?thesis
    unfolding hex_run_def line_of_def using radix_chars(1) by (subst takeWhile_append2) auto
qed

lemma strip_line: "strip_0x (line_of a) = line_of a"
proof -
  have "take 1 (drop 1 (line_of a)) \<noteq> ''x''" "take 1 (drop 1 (line_of a)) \<noteq> ''X''"
  proof -
    have "c \<noteq> CHR ''x'' \<and> c \<noteq> CHR ''X''" if "c \<in> set (line_of a)" for c
      using that radix_chars(5,6) by (auto simp: line_of_def)
    moreover have "set (take 1 (drop 1 (line_of a))) \<subseteq> set (line_of a)" by (meson order_trans set_drop_subset set_take_subset)
    ultimately show "take 1 (drop 1 (line_of a)) \<noteq> ''x''" "take 1 (drop 1 (line_of a)) \<noteq> ''X''" by force+
  qed
  then show ?thesis by (simp add: strip_0x_def)
qed

lemma stoi_line: "stoi16 (line_of a) = (if unat a < 2 ^ 31 then Inr (int (unat a)) else Inl ''stoi'')"
proof -
  obtain c cs where cs: "radix_string 16 (unat a) = c # cs" by (meson neq_Nil_conv radix_string_not_Nil)
  then have c: "\<not> is_space c" "c \<noteq> CHR ''-''" "c \<noteq> CHR ''+''" using radix_chars [of c "unat a"] by simp_all
  have nonneg: "\<not> uint a < - 2147483648" using uint_ge_0 [of a] by linarith
  have head: "line_of a = c # cs @ [CHR 0x0A]" by (simp add: line_of_def cs)
  have "dropWhile is_space (line_of a) = line_of a" "take 1 (line_of a) \<noteq> ''-''" "take 1 (line_of a) \<noteq> ''+''"
    using c by (simp_all add: head)
  then have "stoi16 (line_of a) = (if (2::int) ^ 31 \<le> int (unat a) then Inl ''stoi'' else Inr (int (unat a)))"
    using nonneg unfolding stoi16_def by (auto simp: Let_def strip_line hex_run_line hex_number_radix)
  moreover have "(2::int) ^ 31 \<le> int k \<longleftrightarrow> \<not> k < 2 ^ 31" for k by auto
  ultimately show ?thesis by presburger
qed

lemma read_line_until:
  "CHR 0x0A \<notin> set xs \<Longrightarrow> length xs < k \<Longrightarrow> read_line k (xs @ CHR 0x0A # rest) = (xs @ [CHR 0x0A], rest)"
proof (induction xs arbitrary: k)
  case Nil
  then show ?case by (cases k) auto
next
  case (Cons x xs)
  then show ?case by (cases k) auto
qed

lemma line_short: "length (radix_string 16 (unat (a :: u32))) < 99"
proof -
  have "unat a < 16 ^ Suc 7" using unsigned_less [where 'a = nat, of a] by simp
  from radix_string_length [OF _ this] show ?thesis by simp
qed

lemma lines_of_file: "fgets_lines (concat (map line_of as)) = map line_of as"
proof (induction as)
  case (Cons a as)
  have "read_line 99 (concat (map line_of (a # as))) = (line_of a, concat (map line_of as))"
    using read_line_until [OF _ line_short, of a "concat (map line_of as)"] radix_chars(7) by (auto simp: line_of_def)
  moreover have "concat (map line_of (a # as)) \<noteq> []" by (simp add: line_of_def)
  ultimately show ?case using Cons by (subst fgets_lines.simps) simp
qed (subst fgets_lines.simps, simp)

lemma directory_entry_line:
  "directory_entry (line_of a) acc = (if unat a < 2 ^ 31 then ret (acc @ [a]) else throw ''stoi'')"
proof -
  have "takeWhile (\<lambda>c. c \<noteq> CHR 0x00) (line_of a) = line_of a"
    unfolding line_of_def using radix_chars(8) by (subst takeWhile_eq_all_conv) auto
  then show ?thesis unfolding directory_entry_def by (simp only: stoi_line) simp
qed

text \<open>
  C32. The directory file read back: of a file with one address per line, printed in hexadecimal, the reader
  returns exactly the addresses if all of them are below \<open>0x80000000\<close>; one at or above it makes the reader
  throw, although it is a 32-bit address as the file format has it.
\<close>

theorem directory_roundtrip:
  "read_directory (concat (map line_of as)) s =
     (if list_all (\<lambda>a. unat a < 2 ^ 31) as then Ret as else Throw ''stoi'', s)"
proof -
  have "foldE directory_entry (map line_of as) acc s = (if list_all (\<lambda>a. unat a < 2 ^ 31) as then Ret (acc @ as) else Throw ''stoi'', s)" for acc
    by (induction as arbitrary: acc) (simp_all add: directory_entry_line ret_def throw_def bindE_def)
  from this [of "[]"] show ?thesis unfolding read_directory_def lines_of_file by simp
qed

end
