(* ===== verification/ROC_Locks.thy ===== *)
theory ROC_Locks
  imports ROC_Macros
begin

section \<open>What the actions of a ROC guarantee\<close>

text \<open>
  The action lock is given back by every waited action however it ends, a waited action ends within a bounded
  number of accesses, and one that returns has seen the ROC accept the command, finish it, and report no error.
  \<open>set_lock r False s\<close> is any state in which the lock is free.
\<close>

subsection \<open>The lock\<close>

lemma keeps_locked_call: "keeps (\<lambda>s. rs_locked s = L) (dtc_call f ev)"
  by (auto simp: keeps_def dtc_call_def split: prod.split)

lemma keeps_locked_modify: "(\<And>s. rs_locked (f s) = rs_locked s) \<Longrightarrow> keeps (\<lambda>s. rs_locked s = L) (modify f)"
  by (rule keeps_modify) simp

lemma keeps_poll [inv_intros]:
  "keeps I look \<Longrightarrow> keeps I (roc_usleep V 10000) \<Longrightarrow> (\<And>b. keeps I (late b)) \<Longrightarrow> keeps I (poll V k look late)"
  by (induction k) (auto intro!: keeps_bindE keeps_seqE keeps_ret split: sum.split)

lemma keeps_locked_read: "keeps (\<lambda>s. rs_locked s = L) (roc_readRegister V r a)"
  unfolding roc_readRegister_def readROCRegister_def by (intro inv_intros keeps_locked_call)

lemma keeps_locked_send: "keeps (\<lambda>s. rs_locked s = L) (send_command V r w)"
  unfolding send_command_def roc_writeBlock_def writeROCBlock_def by (rule keeps_locked_call)

lemma keeps_locked_sleep: "keeps (\<lambda>s. rs_locked s = L) (roc_usleep V n)"
  unfolding roc_usleep_def by (rule keeps_locked_modify) simp

lemma keeps_locked_done: "keeps (\<lambda>s. rs_locked s = L) (is_done V r)"
  unfolding is_done_def isActionDone_def Let_def by (auto intro!: inv_intros keeps_locked_read)

lemma keeps_locked_block: "keeps (\<lambda>s. rs_locked s = L) (roc_readBlock V r d a n inc)"
  unfolding roc_readBlock_def readROCBlock_def by (intro inv_intros keeps_locked_call)

lemmas keeps_locked = keeps_locked_read keeps_locked_send keeps_locked_sleep keeps_locked_done keeps_locked_block

lemma keeps_locked_waits:
  "keeps (\<lambda>s. rs_locked s = L) (await_done V r w n (spi_timeout V r ph))"
  "keeps (\<lambda>s. rs_locked s = L) (await_done V r w n (throw m))"
  "keeps (\<lambda>s. rs_locked s = L) (spi_timeout V r ph)"
  "keeps (\<lambda>s. rs_locked s = L) (auto_wait V r)"
  "keeps (\<lambda>s. rs_locked s = L) (fetch_reply V r nb)"
  "keeps (\<lambda>s. rs_locked s = L) (read_size V r)"
  unfolding await_done_def spi_timeout_def auto_wait_def fetch_reply_def look_for_reply_def read_size_def
    read_timeout_def Let_def
  by (intro inv_intros keeps_locked)+

lemma wait_lock_free:
  "wait_lock (V\<lparr>rd_fuel := Suc n\<rparr>) r (set_lock r False s) = (Ret (), set_lock r True s)"
  by (simp add: wait_lock_def try_lock_def set_lock_def bindE_def ret_def)

lemma lock_guard_free:
  "lock_guard (V\<lparr>rd_fuel := Suc n\<rparr>) r m (set_lock r False s) =
     (fst (m (set_lock r True s)), set_lock r False (snd (m (set_lock r True s))))"
  by (simp add: lock_guard_def bindE_def [of "wait_lock _ _"] wait_lock_free scopedE_def split: prod.split)

text \<open>A locked body that leaves the locks alone returns them as they were.\<close>

lemma lock_guard_releases:
  assumes "keeps (\<lambda>s. rs_locked s = (rs_locked t)(r := True)) m"
  shows "rs_locked (snd (lock_guard (V\<lparr>rd_fuel := Suc n\<rparr>) r m (set_lock r False t))) = (rs_locked t)(r := False)"
proof -
  have "rs_locked (snd (m (set_lock r True t))) = (rs_locked t)(r := True)"
    by (rule keepsD [OF assms]) (simp add: set_lock_def)
  then show ?thesis unfolding lock_guard_free by (simp add: set_lock_def)
qed

lemma locked_bindE:
  assumes "rs_locked (snd (m s)) = L" and "\<And>a. keeps (\<lambda>s. rs_locked s = L) (k a)"
  shows "rs_locked (snd (bindE m k s)) = L"
proof (cases "fst (m s)")
  case (Ret a)
  then show ?thesis using keepsD [OF assms(2) assms(1), of a] by (simp add: bindE_cases)
qed (use assms(1) in \<open>simp_all add: bindE_cases\<close>)

lemma run_action_releases:
  assumes "keeps (\<lambda>s. rs_locked s = (rs_locked t)(r := True)) fin"
    and "keeps (\<lambda>s. rs_locked s = (rs_locked t)(r := True)) l1" and "keeps (\<lambda>s. rs_locked s = (rs_locked t)(r := True)) l2"
  shows "rs_locked (snd (run_action (V\<lparr>rd_fuel := Suc n\<rparr>) r w k1 k2 l1 l2 fin (set_lock r False t))) = (rs_locked t)(r := False)"
  unfolding run_action_def await_done_def
  by (intro lock_guard_releases inv_intros keeps_locked assms)

lemma keeps_locked_status: "keeps (\<lambda>s. rs_locked s = L) (nonzero_status what st)"
  unfolding nonzero_status_def by (intro inv_intros)

subsection \<open>The number of accesses\<close>

text \<open>The effect returns or throws, after at most \<open>n\<close> accesses.\<close>

definition costs :: "nat \<Rightarrow> ('e, 'a) roc_eff \<Rightarrow> bool" where
  "costs n m \<longleftrightarrow> (\<forall>s. fst (m s) \<noteq> Undef \<and> fst (m s) \<noteq> Spin \<and> length (rs_hist (snd (m s))) \<le> length (rs_hist s) + n)"

lemma costs_mono: "costs n m \<Longrightarrow> n \<le> k \<Longrightarrow> costs k m"
  unfolding costs_def by (meson add_le_cancel_left le_trans)

lemma costs_ret: "costs 0 (ret a)" "costs 0 (throw e)" "costs 0 (roc_usleep V us)"
  by (simp_all add: costs_def ret_def throw_def roc_usleep_def modify_def)

lemma costs_bindE:
  assumes "costs n m" and "\<And>a. costs k (f a)"
  shows "costs (n + k) (bindE m f)"
  unfolding costs_def
proof
  fix s
  have m: "fst (m s) \<noteq> Undef" "fst (m s) \<noteq> Spin" "length (rs_hist (snd (m s))) \<le> length (rs_hist s) + n"
    using assms(1) by (simp_all add: costs_def)
  show "fst (bindE m f s) \<noteq> Undef \<and> fst (bindE m f s) \<noteq> Spin \<and> length (rs_hist (snd (bindE m f s))) \<le> length (rs_hist s) + (n + k)"
  proof (cases "fst (m s)")
    case (Ret a)
    then show ?thesis using m assms(2) [of a] by (fastforce simp: bindE_cases costs_def dest: spec [where x = "snd (m s)"])
  qed (use m in \<open>simp_all add: bindE_cases\<close>)
qed

lemma costs_seqE: "costs n m \<Longrightarrow> costs k f \<Longrightarrow> costs (n + k) (seqE m f)"
  unfolding seqE_def by (rule costs_bindE)

lemma costs_whenE: "costs n m \<Longrightarrow> costs n (whenE b m)"
  by (auto simp: whenE_def intro: costs_mono [OF costs_ret(1)])

lemma costs_call: "costs (Suc 0) (dtc_call f ev)"
  by (auto simp: costs_def dtc_call_def split: prod.split sum.split)

lemma tryE_rethrow [simp]: "tryE m throw = m"
  by (rule ext) (simp add: tryE_def throw_def split: prod.split outcome.split)

lemma costs_read: "costs (Suc 0) (roc_readRegister V r a)"
  by (simp add: roc_readRegister_def readROCRegister_def costs_call)

lemma costs_send: "costs (Suc 0) (send_command V r w)"
  by (simp add: send_command_def roc_writeBlock_def writeROCBlock_def costs_call)

lemma is_done_eq: "is_done V r = bindE (roc_readRegister V r ROC_ADDRESS_ACTION_DONE) (\<lambda>v. ret (bit v 15))"
  by (simp add: is_done_def isActionDone_def Let_def bindE_assoc seqE_def whenE_def)

lemma costs_poll:
  assumes "costs c look" and "\<And>b. costs l (late b)"
  shows "costs ((k + 1) * c + l) (poll V k look late)"
proof (induction k)
  case 0
  have "costs (c + l) (poll V 0 look late)"
    by (simp, rule costs_bindE [OF assms(1)]) (auto split: sum.split intro: assms(2) costs_mono [OF costs_ret(1)])
  then show ?case by simp
next
  case (Suc k)
  have "costs (c + (0 + ((k + 1) * c + l))) (poll V (Suc k) look late)"
    by (simp, rule costs_bindE [OF assms(1)])
       (auto split: sum.split intro: costs_seqE [OF costs_ret(3) Suc, simplified] costs_mono [OF costs_ret(1)])
  then show ?case by (rule costs_mono) simp
qed

lemma costs_await:
  assumes "costs l late"
  shows "costs (limit + 2 + l) (await_done V r wanted limit late)"
proof -
  have "costs (Suc 0 + 0 + 0) (bindE (is_done V r) (\<lambda>d. ret (if d = wanted then Inr () else Inl ())))"
    unfolding is_done_eq by (intro costs_bindE costs_read costs_ret)
  from costs_poll [OF this, of l "\<lambda>_. late" "limit + 1" V] show ?thesis
    unfolding await_done_def using assms by (auto intro: costs_mono)
qed

lemma costs_spi_timeout: "costs 2 (spi_timeout V r ph)"
proof -
  have "costs (Suc 0 + (Suc 0 + 0)) (spi_timeout V r ph)"
    unfolding spi_timeout_def by (intro costs_bindE costs_read costs_ret)
  then show ?thesis by (simp add: numeral_2_eq_2)
qed

lemma costs_lock_guard:
  assumes "costs k m"
  shows "let x = lock_guard (V\<lparr>rd_fuel := Suc n\<rparr>) r m (set_lock r False s) in
     fst x \<noteq> Undef \<and> fst x \<noteq> Spin \<and> length (rs_hist (snd x)) \<le> length (rs_hist s) + k"
  using assms [unfolded costs_def, rule_format, of "set_lock r True s"]
  unfolding Let_def lock_guard_free by (simp add: set_lock_def)

subsection \<open>The handshake\<close>

text \<open>In a history: the command has been sent; then DONE was read as 0; then DONE was read as 1.\<close>

definition cmd_sent :: "nat \<Rightarrow> u16 list \<Rightarrow> roc_event list \<Rightarrow> bool" where
  "cmd_sent r w tr \<longleftrightarrow> RocWriteBlock r w ROC_ADDRESS_ACTION_COMMAND (Inr ()) \<in> set tr"

definition then_done :: "nat \<Rightarrow> bool \<Rightarrow> (roc_event list \<Rightarrow> bool) \<Rightarrow> roc_event list \<Rightarrow> bool" where
  "then_done r b P tr \<longleftrightarrow> (\<exists>xs v ys. tr = xs @ RocRead r ROC_ADDRESS_ACTION_DONE (Inr v) # ys \<and> bit v 15 = b \<and> P ys)"

definition completed :: "nat \<Rightarrow> u16 list \<Rightarrow> roc_event list \<Rightarrow> bool" where
  "completed r w = then_done r True (then_done r False (cmd_sent r w))"

definition grown :: "(roc_event list \<Rightarrow> bool) \<Rightarrow> roc_event list \<Rightarrow> 'e rocstate \<Rightarrow> bool" where
  "grown P h s \<longleftrightarrow> (\<exists>xs. rs_hist s = xs @ h \<and> P xs)"

definition stays :: "(roc_event list \<Rightarrow> bool) \<Rightarrow> bool" where
  "stays P \<longleftrightarrow> (\<forall>x t. P t \<longrightarrow> P (x # t))"

lemma stays_stages: "stays (cmd_sent r w)" "stays (then_done r b P)"
  unfolding stays_def cmd_sent_def then_done_def by (simp, metis append_Cons)

lemma keeps_grown_call: "stays P \<Longrightarrow> keeps (grown P h) (dtc_call f ev)"
  unfolding keeps_def grown_def dtc_call_def stays_def
  by (auto split: prod.split)

lemma keeps_grown:
  "stays P \<Longrightarrow> keeps (grown P h) (roc_readRegister V r a)" "stays P \<Longrightarrow> keeps (grown P h) (is_done V r)"
  "keeps (grown P h) (roc_usleep V n)"
  unfolding is_done_eq
  by (auto simp: roc_readRegister_def readROCRegister_def roc_usleep_def grown_def intro!: inv_intros keeps_grown_call keeps_modify)

lemma done_read:
  "post (grown P h) (is_done V r) (\<lambda>d. grown (then_done r d P) h)"
proof (rule postI)
  fix s d s' assume g: "grown P h s" and run: "is_done V r s = (Ret d, s')"
  from run obtain v where v: "roc_readRegister V r ROC_ADDRESS_ACTION_DONE s = (Ret v, s')" "d = bit v 15"
    by (auto simp: is_done_eq bindE_Ret ret_def)
  then have "rs_hist s' = RocRead r ROC_ADDRESS_ACTION_DONE (Inr v) # rs_hist s"
    by (auto simp: roc_readRegister_def readROCRegister_def dtc_call_def split: prod.splits sum.splits)
  then show "grown (then_done r d P) h s'"
    using g v(2) unfolding grown_def then_done_def by (metis append_Cons append_Nil)
qed

lemma post_poll:
  assumes look: "post K look (\<lambda>x s. case x of Inl b \<Rightarrow> K s | Inr a \<Rightarrow> R a s)" and "keeps K (roc_usleep V 10000)"
    and late: "\<And>b. post K (late b) R"
  shows "post K (poll V k look late) R"
proof (induction k)
  case 0
  show ?case
    by (simp, rule post_bindE [OF look]) (auto intro: late post_ret split: sum.split)
next
  case (Suc k)
  show ?case
    by (simp, rule post_bindE [OF look]) (auto intro: post_seqE [OF post_keeps [OF assms(2)]] Suc post_ret split: sum.split)
qed

lemma await_grown:
  assumes "stays P" and "post (grown P h) late (\<lambda>_ _. False)"
  shows "post (grown P h) (await_done V r b n late) (\<lambda>_. grown (then_done r b P) h)"
  unfolding await_done_def
proof (rule post_poll)
  show "post (grown P h) (bindE (is_done V r) (\<lambda>d. ret (if d = b then Inr () else Inl ())))
    (\<lambda>x s. case x of Inl _ \<Rightarrow> grown P h s | Inr _ \<Rightarrow> grown (then_done r b P) h s)"
  proof (rule postI)
    fix s x s' assume g: "grown P h s" and run: "bindE (is_done V r) (\<lambda>d. ret (if d = b then Inr () else Inl ())) s = (Ret x, s')"
    from run obtain d where d: "is_done V r s = (Ret d, s')" "x = (if d = b then Inr () else Inl ())"
      by (auto simp: bindE_Ret ret_def)
    have "grown (then_done r d P) h s'" by (rule postD [OF done_read g d(1)])
    moreover have "grown P h s'" using keepsD [OF keeps_grown(2) [OF assms(1)] g, of V r] d(1) by simp
    ultimately show "case x of Inl _ \<Rightarrow> grown P h s' | Inr _ \<Rightarrow> grown (then_done r b P) h s'"
      using d(2) by (cases d; cases b) simp_all
  qed
  show "post (grown P h) late (\<lambda>_. grown (then_done r b P) h)"
    using assms(2) by (auto simp: post_def)
qed (rule keeps_grown)

lemma never_returns: "post K (throw m) (\<lambda>_ _. False)" "post K (spi_timeout V r ph) (\<lambda>_ _. False)"
  by (auto simp: post_def throw_def spi_timeout_def bindE_Ret)

lemma run_action_completed:
  assumes run: "run_action (V\<lparr>rd_fuel := Suc n\<rparr>) r w k1 k2 l1 l2 fin (set_lock r False s) = (Ret a, s')"
    and late: "\<And>K. post K l1 (\<lambda>_ _. False)" "\<And>K. post K l2 (\<lambda>_ _. False)"
  obtains t t' where "grown (completed r w) (rs_hist s) t" and "fin t = (Ret a, t')" and "rs_hist s' = rs_hist t'"
proof -
  let ?V = "V\<lparr>rd_fuel := Suc n\<rparr>" and ?s = "set_lock r True s"
  have "fst (seqE (send_command ?V r w) (seqE (await_done ?V r False k1 l1) (seqE (await_done ?V r True k2 l2) fin)) ?s) = Ret a"
    and hist: "rs_hist s' = rs_hist (snd (seqE (send_command ?V r w) (seqE (await_done ?V r False k1 l1) (seqE (await_done ?V r True k2 l2) fin)) ?s))"
    using run unfolding run_action_def lock_guard_free by (auto simp: set_lock_def)
  then obtain t1 t2 t t' where 1: "send_command ?V r w ?s = (Ret (), t1)" and 2: "await_done ?V r False k1 l1 t1 = (Ret (), t2)"
    and 3: "await_done ?V r True k2 l2 t2 = (Ret (), t)" and 4: "fin t = (Ret a, t')" and 5: "rs_hist s' = rs_hist t'"
    by (auto simp: seqE_def bindE_cases split: outcome.splits) (metis prod.collapse)
  have "grown (cmd_sent r w) (rs_hist s) t1"
    using 1 by (auto simp: send_command_def roc_writeBlock_def writeROCBlock_def dtc_call_def set_lock_def grown_def cmd_sent_def
        split: prod.splits sum.splits intro!: exI [of _ "[_]"])
  from postD [OF await_grown [OF stays_stages(1) late(1)] this 2]
  have "grown (then_done r False (cmd_sent r w)) (rs_hist s) t2" .
  from postD [OF await_grown [OF stays_stages(2) late(2)] this 3]
  have "grown (completed r w) (rs_hist s) t" by (simp add: completed_def)
  then show thesis using 4 5 by (rule that)
qed

subsection \<open>The guarantees\<close>

text \<open>
  Five of the six actions that can wait, each with the command it sends and the number of accesses it makes at most. The sixth,
  \<open>autoProgramFromSPI\<close>, polls in its own loop, which neither waits for the ROC to become busy nor ends on a ROC that stays
  busy; it is not in this list (C33).
\<close>

definition waited_actions ::
  "'e rocdtc \<Rightarrow> nat \<Rightarrow> u16 list \<Rightarrow> u32 list \<Rightarrow> u32 \<Rightarrow> u32 \<Rightarrow> u8 \<Rightarrow> (u16 list \<times> nat \<times> ('e, unit) roc_eff) list" where
  "waited_actions V r d l a n i =
    [(write_command d a, 1010, writeSPIFlashBlock V r d a True),
     (directory_command l, 6010, writeSPIFlashDirectory V r l True),
     (erase_command n a, 18509, eraseSPIFlashBlock V r n a True),
     ([ROC_ACTION_PROG_INDEX, ucast i, 0, 0, 0], 1006, programFromSPIByIndex V r i True),
     (prog_command ROC_ACTION_PROG_ADDR a, 1006, programFromSPIByAddress V r a True)]"

lemmas waited_defs = waited_actions_def writeSPIFlashBlock_def writeSPIFlashDirectory_def eraseSPIFlashBlock_def
  programFromSPIByIndex_def programFromSPIByAddress_def program_action_def Let_def

text \<open>
  Every action that waits gives the lock back: started when the action lock of its ROC is free, it leaves
  that lock free and the locks of all other ROCs as they were, whether it returns, throws or never ends.
\<close>

theorem waited_actions_release:
  "list_all (\<lambda>m. rs_locked (snd (m (set_lock r False s))) = (rs_locked s)(r := False))
     (autoProgramFromSPI (V\<lparr>rd_fuel := Suc k\<rparr>) r True # map (snd \<circ> snd) (waited_actions (V\<lparr>rd_fuel := Suc k\<rparr>) r d l a n i))"
proof -
  let ?V = "V\<lparr>rd_fuel := Suc k\<rparr>" and ?L = "(rs_locked s)(r := False)"
  have early: "rs_locked (snd (seqE (whenE b (throw e)) m (set_lock r False s))) = ?L"
    if "rs_locked (snd (m (set_lock r False s))) = ?L" for b e and m :: "('a, unit) roc_eff"
    using that by (simp add: seqE_def whenE_def bindE_def throw_def ret_def set_lock_def)
  have rest: "keeps (\<lambda>s. rs_locked s = L) (whenE (st \<noteq> (0 :: u16)) (throw e))" for L e and st
    by (intro inv_intros)
  have "rs_locked (snd (lock_guard ?V r (seqE (send_command ?V r [ROC_ACTION_PROG_ADDR, 0, 0, 0, 0])
      (seqE (auto_wait ?V r) (roc_readRegister ?V r ROC_ADDRESS_ACTION_STATUS))) (set_lock r False s))) = ?L"
    by (intro lock_guard_releases inv_intros keeps_locked keeps_locked_waits)
  then have "rs_locked (snd (autoProgramFromSPI ?V r True (set_lock r False s))) = ?L"
    unfolding autoProgramFromSPI_def Let_def by (simp add: locked_bindE keeps_locked_status)
  moreover have "list_all (\<lambda>m. rs_locked (snd (m (set_lock r False s))) = ?L) (map (snd \<circ> snd) (waited_actions ?V r d l a n i))"
    unfolding waited_defs
    by (simp, intro conjI early locked_bindE run_action_releases keeps_locked keeps_locked_waits keeps_locked_status rest inv_intros)
  ultimately show ?thesis by simp
qed

lemma status_action:
  assumes "bindE (run_action (V\<lparr>rd_fuel := Suc n\<rparr>) r w k1 k2 l1 l2 (roc_readRegister (V\<lparr>rd_fuel := Suc n\<rparr>) r ROC_ADDRESS_ACTION_STATUS))
      (\<lambda>st. whenE (st \<noteq> 0) (throw (e st))) (set_lock r False s) = (Ret u, s')"
    and late: "\<And>K. post K l1 (\<lambda>_ _. False)" "\<And>K. post K l2 (\<lambda>_ _. False)"
  shows "\<exists>new. completed r w new \<and> rs_hist s' = RocRead r ROC_ADDRESS_ACTION_STATUS (Inr 0) # new @ rs_hist s"
proof -
  obtain st t0 where 1: "run_action (V\<lparr>rd_fuel := Suc n\<rparr>) r w k1 k2 l1 l2
      (roc_readRegister (V\<lparr>rd_fuel := Suc n\<rparr>) r ROC_ADDRESS_ACTION_STATUS) (set_lock r False s) = (Ret st, t0)"
    and 2: "whenE (st \<noteq> 0) (throw (e st)) t0 = (Ret u, s')"
    using assms(1) by (auto simp: bindE_Ret)
  from 2 have "st = 0" "s' = t0" by (auto simp: whenE_def throw_def ret_def split: if_splits)
  from 1 obtain t t' where 3: "grown (completed r w) (rs_hist s) t" "rs_hist t0 = rs_hist t'"
    "roc_readRegister (V\<lparr>rd_fuel := Suc n\<rparr>) r ROC_ADDRESS_ACTION_STATUS t = (Ret st, t')"
    using late by (rule run_action_completed)
  then have "rs_hist t' = RocRead r ROC_ADDRESS_ACTION_STATUS (Inr st) # rs_hist t"
    by (auto simp: roc_readRegister_def readROCRegister_def dtc_call_def split: prod.splits sum.splits)
  then show ?thesis using 3 \<open>st = 0\<close> \<open>s' = t0\<close> by (auto simp: grown_def)
qed

text \<open>Since \<open>s\<close>, the ROC took the command and finished it, and its status (except of an erase) is no error.\<close>

definition reports_done :: "nat \<Rightarrow> u16 list \<Rightarrow> 'e rocstate \<Rightarrow> 'e rocstate \<Rightarrow> bool" where
  "reports_done r w s s' \<longleftrightarrow> (\<exists>new. completed r w new \<and>
     rs_hist s' = (if hd w = ROC_ACTION_ERASE_ADDR then new else RocRead r ROC_ADDRESS_ACTION_STATUS (Inr 0) # new) @ rs_hist s)"

lemma early_throw: "seqE (whenE b (throw e)) m s = (Ret a, s') \<Longrightarrow> m s = (Ret a, s')"
  by (auto simp: seqE_def bindE_Ret whenE_def throw_def ret_def split: if_splits)

lemma action_codes [simp]:
  "ROC_ACTION_WRITE_SPI \<noteq> ROC_ACTION_ERASE_ADDR" "ROC_ACTION_WRITE_DIR \<noteq> ROC_ACTION_ERASE_ADDR"
  "ROC_ACTION_PROG_INDEX \<noteq> ROC_ACTION_ERASE_ADDR" "ROC_ACTION_PROG_ADDR \<noteq> ROC_ACTION_ERASE_ADDR"
  by (simp_all add: ROC_ACTION_WRITE_SPI_def ROC_ACTION_WRITE_DIR_def ROC_ACTION_PROG_INDEX_def ROC_ACTION_PROG_ADDR_def
      ROC_ACTION_ERASE_ADDR_def)

lemma status_reports:
  assumes "\<exists>new. completed r w new \<and> rs_hist s' = RocRead r ROC_ADDRESS_ACTION_STATUS (Inr 0) # new @ rs_hist s"
    and "hd w \<noteq> ROC_ACTION_ERASE_ADDR"
  shows "reports_done r w s s'"
  using assms by (simp add: reports_done_def)

lemma program_reports:
  assumes "program_action (V\<lparr>rd_fuel := Suc k\<rparr>) r w c what (set_lock r False s) = (Ret u, s')" and "hd w \<noteq> ROC_ACTION_ERASE_ADDR"
  shows "reports_done r w s s'"
  using assms(1) unfolding program_action_def nonzero_status_def
  by (intro status_reports [OF _ assms(2)] status_action [OF _ never_returns(1) never_returns(1)])

lemma write_reports:
  assumes "writeSPIFlashBlock (V\<lparr>rd_fuel := Suc k\<rparr>) r d a True (set_lock r False s) = (Ret u, s')"
  shows "reports_done r (write_command d a) s s'"
  using early_throw [OF assms [unfolded writeSPIFlashBlock_def]] unfolding Let_def simp_thms if_False
  by (intro status_reports status_action [OF _ never_returns(2) never_returns(2)]) (simp_all add: write_command_def)

lemma directory_reports:
  assumes "writeSPIFlashDirectory (V\<lparr>rd_fuel := Suc k\<rparr>) r l True (set_lock r False s) = (Ret u, s')"
  shows "reports_done r (directory_command l) s s'"
  using early_throw [OF assms [unfolded writeSPIFlashDirectory_def]] unfolding Let_def simp_thms if_False nonzero_status_def
  by (intro status_reports status_action [OF _ never_returns(2) never_returns(2)]) (simp_all add: directory_command_def)

lemma erase_reports:
  fixes s s' :: "'a rocstate"
  assumes "eraseSPIFlashBlock (V\<lparr>rd_fuel := Suc k\<rparr>) r n a True (set_lock r False s) = (Ret u, s')"
  shows "reports_done r (erase_command n a) s s'"
proof -
  have "run_action (V\<lparr>rd_fuel := Suc k\<rparr>) r (erase_command n a) 500 18000
     (spi_timeout (V\<lparr>rd_fuel := Suc k\<rparr>) r ''SPI ERASE TIMEOUT: phase=command-accepted timeout=5s (DONE stuck high)'')
     (spi_timeout (V\<lparr>rd_fuel := Suc k\<rparr>) r ''SPI ERASE TIMEOUT: phase=complete timeout=180s'') (ret ())
     (set_lock r False s) = (Ret u, s')"
    using assms by (simp add: eraseSPIFlashBlock_def Let_def)
  then obtain t t' :: "'a rocstate" where "grown (completed r (erase_command n a)) (rs_hist s) t" "ret () t = (Ret u, t')" "rs_hist s' = rs_hist t'"
    using never_returns(2) never_returns(2) by (rule run_action_completed)
  then show ?thesis by (auto simp: reports_done_def grown_def ret_def erase_command_def)
qed

lemma case_returns:
  "(\<And>u s'. x = (Ret u, s') \<Longrightarrow> R s') \<Longrightarrow> case x of (Ret _, s') \<Rightarrow> R s' | _ \<Rightarrow> True"
  by (auto split: prod.split outcome.split)

text \<open>
  C24. What a block write, a directory write, an erase or a programming by index or by address (the \<open>waited_actions\<close>,
  without \<open>autoProgramFromSPI\<close>), called to wait for its end, has seen when it returns: since it was started its command has
  been written, after that the ROC has been read as busy (the command was taken), after that as done, and then, except
  for the erase, which does not read the status, its status was read as zero. A DONE left over from an earlier action is
  not enough.
\<close>

theorem waited_action_completed:
  "list_all (\<lambda>(w, _, m). case m (set_lock r False s) of (Ret _, s') \<Rightarrow> reports_done r w s s' | _ \<Rightarrow> True)
     (waited_actions (V\<lparr>rd_fuel := Suc k\<rparr>) r d l a n i)"
  unfolding waited_actions_def list.pred_inject prod.case
  by (intro conjI case_returns; (rule erase_reports | rule write_reports | rule directory_reports | rule program_reports)?;
      simp add: programFromSPIByIndex_def programFromSPIByAddress_def prog_command_def)

text \<open>Started when the lock of \<open>r\<close> is free, the effect returns or throws after at most \<open>c\<close> accesses.\<close>

definition ends_within :: "nat \<Rightarrow> nat \<Rightarrow> ('e, 'a) roc_eff \<Rightarrow> bool" where
  "ends_within r c m \<longleftrightarrow> (\<forall>s. fst (m (set_lock r False s)) \<noteq> Spin \<and> fst (m (set_lock r False s)) \<noteq> Undef
     \<and> length (rs_hist (snd (m (set_lock r False s)))) \<le> length (rs_hist s) + c)"

lemma ends_within_bindE:
  assumes "ends_within r n m" and "\<And>a. costs k (f a)" and "n + k \<le> c"
  shows "ends_within r c (bindE m f)"
  unfolding ends_within_def
proof
  fix s
  let ?x = "m (set_lock r False s)"
  have m: "fst ?x \<noteq> Spin" "fst ?x \<noteq> Undef" "length (rs_hist (snd ?x)) \<le> length (rs_hist s) + n"
    using assms(1) by (simp_all add: ends_within_def)
  have f: "fst (f a t) \<noteq> Undef \<and> fst (f a t) \<noteq> Spin \<and> length (rs_hist (snd (f a t))) \<le> length (rs_hist t) + k" for a t
    using assms(2) [of a] unfolding costs_def by blast
  show "fst (bindE m f (set_lock r False s)) \<noteq> Spin \<and> fst (bindE m f (set_lock r False s)) \<noteq> Undef
     \<and> length (rs_hist (snd (bindE m f (set_lock r False s)))) \<le> length (rs_hist s) + c"
  proof (cases "fst ?x")
    case (Ret a)
    then show ?thesis using m(3) f [of a "snd ?x"] assms(3) by (simp add: bindE_cases)
  qed (use m assms(3) in \<open>simp_all add: bindE_cases\<close>)
qed

lemma ends_within_early: "ends_within r c m \<Longrightarrow> ends_within r c (seqE (whenE b (throw e)) m)"
  by (simp add: ends_within_def seqE_def whenE_def bindE_def throw_def ret_def set_lock_def)

lemma ends_within_action:
  assumes "costs c1 l1" and "costs c2 l2" and "costs c3 fin" and "5 + k1 + k2 + c1 + c2 + c3 \<le> c"
  shows "ends_within r c (run_action (V\<lparr>rd_fuel := Suc n\<rparr>) r w k1 k2 l1 l2 fin)"
proof -
  let ?V = "V\<lparr>rd_fuel := Suc n\<rparr>"
  have "costs (Suc 0 + ((k1 + 2 + c1) + ((k2 + 2 + c2) + c3)))
      (seqE (send_command ?V r w) (seqE (await_done ?V r False k1 l1) (seqE (await_done ?V r True k2 l2) fin)))"
    by (intro costs_seqE costs_send costs_await assms(1-3))
  then have body: "costs c (seqE (send_command ?V r w) (seqE (await_done ?V r False k1 l1) (seqE (await_done ?V r True k2 l2) fin)))"
    by (rule costs_mono) (use assms(4) in simp)
  show ?thesis
    using costs_lock_guard [OF body] unfolding ends_within_def run_action_def Let_def by blast
qed

lemma costs_status: "costs 0 (whenE b (throw e))"
  by (rule costs_whenE) (rule costs_ret)

lemma bounded_program: "1006 \<le> c \<Longrightarrow> ends_within r c (program_action (V\<lparr>rd_fuel := Suc k\<rparr>) r w cm what)"
  unfolding program_action_def nonzero_status_def
  by (rule ends_within_bindE [OF ends_within_action [OF costs_ret(2) costs_ret(2) costs_read order_refl] costs_status]) simp

lemma bounded_write: "1010 \<le> c \<Longrightarrow> ends_within r c (writeSPIFlashBlock (V\<lparr>rd_fuel := Suc k\<rparr>) r d a True)"
  unfolding writeSPIFlashBlock_def Let_def simp_thms if_False
  by (rule ends_within_early [OF ends_within_bindE
        [OF ends_within_action [OF costs_spi_timeout costs_spi_timeout costs_read order_refl] costs_status]]) simp

lemma bounded_directory: "6010 \<le> c \<Longrightarrow> ends_within r c (writeSPIFlashDirectory (V\<lparr>rd_fuel := Suc k\<rparr>) r l True)"
  unfolding writeSPIFlashDirectory_def Let_def simp_thms if_False nonzero_status_def
  by (rule ends_within_early [OF ends_within_bindE
        [OF ends_within_action [OF costs_spi_timeout costs_spi_timeout costs_read order_refl] costs_status]]) simp

lemma bounded_erase: "18509 \<le> c \<Longrightarrow> ends_within r c (eraseSPIFlashBlock (V\<lparr>rd_fuel := Suc k\<rparr>) r n a True)"
  unfolding eraseSPIFlashBlock_def Let_def simp_thms if_False
  by (rule ends_within_action [OF costs_spi_timeout costs_spi_timeout costs_ret(1)]) simp

text \<open>
  C31. A block write, a directory write, an erase and a programming by index or by address (the \<open>waited_actions\<close>, without
  \<open>autoProgramFromSPI\<close>, for which C33 shows the contrary) that is called to wait ends: started when the lock is free it
  returns or throws, whatever the ROC answers, after at most the listed number of accesses of the ROC.
\<close>

theorem waited_actions_end:
  "list_all (\<lambda>(_, c, m). ends_within r c m) (waited_actions (V\<lparr>rd_fuel := Suc k\<rparr>) r d l a n i)"
  unfolding waited_actions_def list.pred_inject prod.case
  by (simp add: bounded_write bounded_directory bounded_erase bounded_program programFromSPIByIndex_def programFromSPIByAddress_def)

end
