(* ===== verification/ROC_Faults.thy ===== *)
theory ROC_Faults
  imports ROC_Locks
begin

section \<open>Replies of a read, and the ways in which an action goes wrong\<close>

text \<open>
  What a read of the SPI flash returns, the lock a failed launch leaves behind, the wait of
  \<^verbatim>\<open>autoProgramFromSPI\<close> that never gives up, and the dump of a read with an odd number of words.
\<close>

subsection \<open>The words of a read\<close>

definition words_read :: "nat \<Rightarrow> nat \<Rightarrow> u16 list \<Rightarrow> 'e rocstate \<Rightarrow> bool" where
  "words_read r n w s \<longleftrightarrow> length w = n \<and> RocReadBlock r ROC_ADDRESS_ACTION_COMMAND (word_of_nat n) (Inr w) \<in> set (rs_hist s)"

lemma poll_value: "(\<And>s a s'. look s = (Ret (Inr a), s') \<Longrightarrow> P a) \<Longrightarrow> (\<And>b s a s'. late b s \<noteq> (Ret a, s')) \<Longrightarrow>
   poll V k look late s = (Ret a, s') \<Longrightarrow> P a"
proof (induction k arbitrary: s)
  case 0
  from "0.prems"(3) obtain x t where x: "look s = (Ret x, t)" "(case x of Inl b \<Rightarrow> late b | Inr a \<Rightarrow> ret a) t = (Ret a, s')"
    by (auto simp: bindE_Ret)
  then show ?case using "0.prems"(1,2) by (cases x) (auto simp: ret_def)
next
  case (Suc k)
  from Suc.prems(3) obtain x t where x: "look s = (Ret x, t)"
    and rest: "(case x of Inl b \<Rightarrow> seqE (roc_usleep V 10000) (poll V k look late) | Inr a \<Rightarrow> ret a) t = (Ret a, s')"
    by (auto simp: bindE_Ret)
  show ?case
  proof (cases x)
    case (Inl b)
    then obtain t' where "poll V k look late t' = (Ret a, s')" using rest by (auto simp: seqE_def bindE_Ret)
    with Suc.prems(1,2) show ?thesis by (rule Suc.IH)
  next
    case (Inr a')
    then show ?thesis using rest x Suc.prems(1) by (auto simp: ret_def)
  qed
qed

lemma look_for_reply_value: "look_for_reply V r e s = (Ret (Inr n), s') \<Longrightarrow> n = e"
  by (auto simp: look_for_reply_def bindE_Ret ret_def split: if_splits)

lemma read_timeout_throws: "read_timeout V r e n s \<noteq> (Ret a, s')"
  by (auto simp: read_timeout_def bindE_Ret throw_def)

lemma reply_length:
  assumes "fetch_reply V r n s = (Ret w, s')"
  shows "words_read r (unat n div 2) w s'"
proof -
  let ?k = "unat n div 2"
  obtain c t where c: "poll V 501 (look_for_reply V r (?k + 4)) (read_timeout V r (?k + 4)) s = (Ret c, t)"
    and w: "(if c - 4 \<noteq> ?k then throw e else roc_readBlock V r [] ROC_ADDRESS_ACTION_COMMAND (word_of_nat (c - 4)) False) t = (Ret w, s')" for e
    using assms unfolding fetch_reply_def Let_def by (force simp: bindE_Ret throw_def split: if_splits)
  have "c = ?k + 4"
    by (rule poll_value [OF look_for_reply_value read_timeout_throws c])
  then have "roc_readBlock V r [] ROC_ADDRESS_ACTION_COMMAND (word_of_nat ?k) False t = (Ret w, s')" using w by simp
  moreover have "unat (word_of_nat ?k :: u16) = ?k"
    using unsigned_less [where 'a = nat, of n] by (simp add: unat_of_nat)
  ultimately show ?thesis
    by (auto simp: roc_readBlock_def readROCBlock_def words_read_def bindE_Ret dtc_call_def throw_def ret_def
        split: prod.splits sum.splits if_splits)
qed

lemma keeps_words:
  "keeps (words_read r n w) (dtc_call f ev)" "keeps (words_read r n w) (unlock r')" "keeps (words_read r n w) (read_size V r')"
proof -
  show call: "keeps (words_read r n w) (dtc_call f ev)" for f :: "'a \<Rightarrow> (string + 'b) \<times> 'a" and ev
    by (auto simp: keeps_def dtc_call_def words_read_def split: prod.split)
  show "keeps (words_read r n w) (unlock r')" by (simp add: keeps_def unlock_def set_lock_def words_read_def)
  show "keeps (words_read r n w) (read_size V r')"
    unfolding read_size_def roc_readRegister_def readROCRegister_def
    by (intro inv_intros) (auto simp: keeps_def dtc_call_def words_read_def split: prod.split)
qed

lemma collect_value:
  assumes "collectSPIFlashBlockRead V r d n s = (Ret d', s')"
  shows "\<exists>w. d' = d @ w \<and> words_read r (unat n div 2) w s'"
proof -
  obtain w t where w: "fetch_reply V r n s = (Ret w, t)"
    and rest: "seqE (unlock r) (bindE (read_size V r) (\<lambda>_. ret (d @ w))) t = (Ret d', s')"
    using assms unfolding collectSPIFlashBlockRead_def
    by (auto simp: bindE_Ret tryE_def seqE_def unlock_def throw_def split: prod.splits outcome.splits if_splits)
  have "keeps (words_read r (unat n div 2) w) (seqE (unlock r) (bindE (read_size V r) (\<lambda>_. ret (d @ w))))"
    by (intro inv_intros keeps_words)
  from keepsD [OF this reply_length [OF w]] have "words_read r (unat n div 2) w s'" using rest by simp
  then show ?thesis using rest by (auto simp: seqE_def bindE_Ret ret_def)
qed

text \<open>
  A read of the SPI flash returns what was asked for: when \<open>readSPIFlashBlock\<close> returns, the words added to
  the caller's vector are half as many as the bytes requested, are the reply of one block read of that many
  words, and the action lock is free again (the request was at most 1016 bytes).
\<close>

theorem read_returns_requested:
  "case readSPIFlashBlock V r d a n s of
     (Ret d', s') \<Rightarrow> (\<exists>w. d' = d @ w \<and> words_read r (unat n div 2) w s') \<and> unat n \<le> 1016
   | _ \<Rightarrow> True"
proof -
  have "(\<exists>w. d' = d @ w \<and> words_read r (unat n div 2) w s') \<and> unat n \<le> 1016"
    if "readSPIFlashBlock V r d a n s = (Ret d', s')" for d' s'
    using that collect_value unfolding readSPIFlashBlock_def launchSPIFlashBlockRead_def
    by (auto simp: seqE_def bindE_Ret whenE_def throw_def ret_def split: if_splits)
  then show ?thesis by (auto split: prod.split outcome.split)
qed

subsection \<open>The dump of an odd number of words\<close>

lemma foldE_partial:
  assumes "\<And>x acc. x \<in> set xs \<Longrightarrow> (if P x then \<exists>b. f x acc = ret b else f x acc = undefined_behaviour)"
  shows "fst (foldE f xs acc s) = Undef \<longleftrightarrow> \<not> list_all P xs"
  using assms
proof (induction xs arbitrary: acc)
  case (Cons x xs)
  show ?case
  proof (cases "P x")
    case True
    then obtain b where "f x acc = ret b" using Cons.prems [of x acc] by auto
    then show ?thesis using True Cons.IH [of b] Cons.prems by simp
  next
    case False
    then have "f x acc = undefined_behaviour" using Cons.prems [of x acc] by auto
    then show ?thesis using False by (simp add: bindE_def undefined_behaviour_def)
  qed
qed (simp add: ret_def)

lemma undef_bindE: "bindE undefined_behaviour k = undefined_behaviour"
  by (rule ext) (simp add: bindE_def undefined_behaviour_def)

lemma dump_pair_partial:
  "if i + 1 < length d then \<exists>b. dump_pair d a i t = ret b else dump_pair d a i t = undefined_behaviour"
proof (cases "i + 1 < length d")
  case True
  then have "i < length d" by simp
  then have "\<exists>b. dump_pair d a i t = ret b"
    by (simp only: dump_pair_def at_def True if_True bindE_ret) blast
  then show ?thesis using True by simp
next
  case False
  then show ?thesis by (simp only: dump_pair_def at_def if_False undef_bindE)
qed

lemma pairs_inside: "list_all (\<lambda>i. i + 1 < n) (piece_starts n 2) \<longleftrightarrow> even n"
proof
  assume all: "list_all (\<lambda>i. i + 1 < n) (piece_starts n 2)"
  show "even n"
  proof (rule ccontr)
    assume "odd n"
    then obtain k where k: "n = 2 * k + 1" by (auto elim: oddE)
    then have "2 * k \<in> set (piece_starts n 2)" by (auto simp: piece_starts_def)
    then show False using all k by (auto simp: list_all_iff)
  qed
next
  assume "even n"
  then show "list_all (\<lambda>i. i + 1 < n) (piece_starts n 2)"
    by (auto simp: list_all_iff piece_starts_def elim!: evenE)
qed

text \<open>
  The macro "Read SPI Flash Block" is undefined behaviour for some requests: the size it is given is cut to
  16 bits, so the words read are half of it modulo 65536 (a request above 1016 bytes can pass), and if
  that is an odd number the dump reads past the end of the vector.
\<close>

theorem read_macro_past_end:
  "case readSPIFlashBlock V r [] a (ucast n) s of
     (Ret d, s') \<Rightarrow> length d = unat n mod 2 ^ 16 div 2
       \<and> (fst (ReadSPIFlashBlock V r a n s) = Undef \<longleftrightarrow> odd (unat n mod 2 ^ 16 div 2))
   | _ \<Rightarrow> True"
proof -
  have "length d = unat n mod 2 ^ 16 div 2 \<and> (fst (ReadSPIFlashBlock V r a n s) = Undef \<longleftrightarrow> odd (unat n mod 2 ^ 16 div 2))"
    if run: "readSPIFlashBlock V r [] a (ucast n) s = (Ret d, s')" for d s'
  proof -
    have len: "length d = unat n mod 2 ^ 16 div 2"
      using run collect_value unfolding readSPIFlashBlock_def
      by (fastforce simp: seqE_def bindE_Ret words_read_def unsigned_ucast_eq take_bit_eq_mod)
    have "fst (ReadSPIFlashBlock V r a n s) = Undef \<longleftrightarrow> \<not> list_all (\<lambda>i. i + 1 < length d) (piece_starts (length d) 2)"
      unfolding ReadSPIFlashBlock_def
      by (simp only: bindE_cases run fst_conv snd_conv outcome.case)
         (rule foldE_partial [where P = "\<lambda>i. i + 1 < length d"], rule dump_pair_partial)
    then show ?thesis using len unfolding pairs_inside by simp
  qed
  then show ?thesis by (auto split: prod.split outcome.split)
qed

subsection \<open>The lock of a failed launch\<close>

lemma launch_locks: "rs_locked (snd (launch_action V r w s)) r"
proof -
  have "rs_locked (snd (send_command V r w t)) = rs_locked t" for t
    by (rule keepsD [OF keeps_locked_send]) (rule refl)
  then show ?thesis
    by (simp add: launch_action_def bindE_def try_lock_def throw_def set_lock_def)
qed

text \<open>
  A launch that fails keeps the lock: after \<open>eraseSPIFlashBlock\<close> or one of the three program actions with
  \<^verbatim>\<open>waitForDone = false\<close> the action lock is held even if the command could not be written and the call threw;
  \<open>launchSPIFlashBlockRead\<close>, which catches the exception, holds it exactly when it returns.
\<close>

theorem failed_launch_keeps_lock:
  "list_all (\<lambda>m. rs_locked (snd (m s)) r)
     [eraseSPIFlashBlock V r n a False, programFromSPIByIndex V r i False, programFromSPIByAddress V r a False,
      autoProgramFromSPI V r False]
   \<and> (rs_locked (snd (launchSPIFlashBlockRead V r a k (set_lock r False s))) r
      \<longleftrightarrow> fst (launchSPIFlashBlockRead V r a k (set_lock r False s)) = Ret ())"
proof
  show "list_all (\<lambda>m. rs_locked (snd (m s)) r)
     [eraseSPIFlashBlock V r n a False, programFromSPIByIndex V r i False, programFromSPIByAddress V r a False,
      autoProgramFromSPI V r False]"
    by (simp add: eraseSPIFlashBlock_def programFromSPIByIndex_def programFromSPIByAddress_def autoProgramFromSPI_def
        Let_def launch_locks)
  let ?w = "[ROC_ACTION_READ_SPI] @ halves a @ [k, 0]" and ?s = "set_lock r True s"
  have sent: "rs_locked (snd (send_command V r ?w ?s)) r"
    using keepsD [OF keeps_locked_send, of ?s "rs_locked ?s" V r ?w] by (simp add: set_lock_def)
  have ended: "fst (send_command V r ?w ?s) \<noteq> Undef" "fst (send_command V r ?w ?s) \<noteq> Spin"
    using costs_send [of V r ?w] by (simp_all add: costs_def)
  show "rs_locked (snd (launchSPIFlashBlockRead V r a k (set_lock r False s))) r
      \<longleftrightarrow> fst (launchSPIFlashBlockRead V r a k (set_lock r False s)) = Ret ()"
  proof (cases "unat k > 1016")
    case True
    then show ?thesis by (simp add: launchSPIFlashBlockRead_def seqE_def bindE_def whenE_def throw_def set_lock_def)
  next
    case False
    then have "launchSPIFlashBlockRead V r a k (set_lock r False s) = tryE (send_command V r ?w) (\<lambda>e. seqE (unlock r) (throw e)) ?s"
      by (simp add: launchSPIFlashBlockRead_def seqE_def bindE_def whenE_def ret_def try_lock_def set_lock_def)
    then show ?thesis
      using sent ended by (cases "fst (send_command V r ?w ?s)")
        (simp_all add: tryE_cases seqE_def bindE_cases unlock_def throw_def set_lock_def)
  qed
qed

subsection \<open>The wait that never gives up\<close>

lemma poll_late: "(\<And>s. \<exists>s'. look s = (Ret (Inl b), s')) \<Longrightarrow> \<exists>s'. poll V k look late s = late b s'"
proof (induction k arbitrary: s)
  case 0
  then obtain t where "look s = (Ret (Inl b), t)" by blast
  then have "poll V 0 look late s = late b t" by (simp add: bindE_cases)
  then show ?case by blast
next
  case (Suc k)
  obtain t where "look s = (Ret (Inl b), t)" using Suc.prems by blast
  then show ?case using Suc.IH [OF Suc.prems] by (simp add: bindE_cases seqE_def roc_usleep_def modify_def)
qed

lemma poll_hit: "look s = (Ret (Inr a), s') \<Longrightarrow> poll V k look late s = (Ret a, s')"
  by (cases k) (simp_all add: bindE_cases ret_def)

lemma busy_done:
  assumes "\<And>e. \<exists>v e'. rd_ReadROCRegister V (rd_link V r) ROC_ADDRESS_ACTION_DONE 200 e = (Inr v, e') \<and> \<not> bit v 15"
  shows "\<exists>s'. is_done V r s = (Ret False, s')"
proof -
  obtain v e' where "rd_ReadROCRegister V (rd_link V r) ROC_ADDRESS_ACTION_DONE 200 (rs_env s) = (Inr v, e')" "\<not> bit v 15"
    using assms by blast
  then show ?thesis
    by (simp add: is_done_eq bindE_def roc_readRegister_def readROCRegister_def dtc_call_def ret_def)
qed

lemma auto_wait_spins:
  assumes "\<And>s. \<exists>s'. is_done V r s = (Ret False, s')"
  shows "fst (auto_wait V r s) = Spin"
proof -
  have "fst (loopE n (\<lambda>i :: nat. bindE (is_done V r) (\<lambda>d. if d then ret (Inr ()) else if i > 500 then throw t
     else seqE (roc_usleep V 10000) (ret (Inl i)))) 0 s) = Spin" for n t and s :: "'a rocstate"
  proof (induction n arbitrary: s)
    case (Suc n)
    obtain t where "is_done V r s = (Ret False, t)" using assms by blast
    then show ?case using Suc by (simp add: bindE_cases seqE_def roc_usleep_def modify_def ret_def)
  qed simp
  then show ?thesis unfolding auto_wait_def .
qed

lemma throw_bindE: "fst (m s) = Throw e \<Longrightarrow> fst (bindE m k s) = Throw e"
  by (simp add: bindE_cases)

lemma to_string_128: "to_string 128 = ''128''"
  by code_simp

text \<open>
  C33. \<open>autoProgramFromSPI\<close> has no time-out: with a ROC that takes commands but never sets DONE it does not
  return, however long it runs (its loop never increases the counter it compares), where
  \<open>programFromSPIByAddress\<close> reports the time-out. Its command is that of programming from address 0, not
  the action code for the automatic choice.
\<close>

theorem auto_program_spins:
  assumes "\<And>e. \<exists>v e'. rd_ReadROCRegister V (rd_link V r) ROC_ADDRESS_ACTION_DONE 200 e = (Inr v, e') \<and> \<not> bit v 15"
    and "\<And>w e. \<exists>e'. rd_WriteROCBlock V (rd_link V r) ROC_ADDRESS_ACTION_COMMAND w False False 0 e = (Inr (), e')"
    and "rd_fuel V = Suc n"
  shows "fst (autoProgramFromSPI V r True (set_lock r False s)) = Spin
     \<and> fst (programFromSPIByAddress V r 0 True (set_lock r False s)) =
         Throw (''Timeout waiting for action to program from SPI flash by address! Check for more info with ROC Read to 128'' @ [CHR 0x0A])
     \<and> (\<forall>t. autoProgramFromSPI V r False t = programFromSPIByAddress V r 0 False t)"
proof (intro conjI allI)
  have fuel: "V = V\<lparr>rd_fuel := Suc n\<rparr>" using assms(3) by simp
  have guard: "fst (lock_guard V r m (set_lock r False s)) = fst (m (set_lock r True s))" for m :: "('a, 'b) roc_eff"
    by (subst fuel, subst lock_guard_free) simp
  have busy: "\<exists>s'. is_done V r t = (Ret False, s')" for t by (rule busy_done [OF assms(1)])
  have send: "\<exists>s'. send_command V r w t = (Ret (), s')" for w t
  proof -
    obtain e' where "rd_WriteROCBlock V (rd_link V r) ROC_ADDRESS_ACTION_COMMAND w False False 0 (rs_env t) = (Inr (), e')"
      using assms(2) by blast
    then show ?thesis by (simp add: send_command_def roc_writeBlock_def writeROCBlock_def dtc_call_def)
  qed
  obtain t where t: "send_command V r [ROC_ACTION_PROG_ADDR, 0, 0, 0, 0] (set_lock r True s) = (Ret (), t)" using send by blast
  then have "fst (lock_guard V r (seqE (send_command V r [ROC_ACTION_PROG_ADDR, 0, 0, 0, 0])
      (seqE (auto_wait V r) (roc_readRegister V r ROC_ADDRESS_ACTION_STATUS))) (set_lock r False s)) = Spin"
    using auto_wait_spins [OF busy, of t] unfolding guard by (simp add: seqE_def bindE_cases)
  then show "fst (autoProgramFromSPI V r True (set_lock r False s)) = Spin"
    by (simp add: autoProgramFromSPI_def bindE_cases)
  obtain u where u: "send_command V r (prog_command ROC_ACTION_PROG_ADDR 0) (set_lock r True s) = (Ret (), u)" using send by blast
  obtain u1 where u1: "is_done V r u = (Ret False, u1)" using busy by blast
  let ?m = "''Timeout waiting for action to program from SPI flash by address! Check for more info with ROC Read to 128'' @ [CHR 0x0A]"
  have look: "\<exists>s'. bindE (is_done V r) (\<lambda>d. ret (if d = True then Inr () else Inl ())) x = (Ret (Inl ()), s')" for x
  proof -
    obtain y where "is_done V r x = (Ret False, y)" using busy by blast
    then show ?thesis by (simp add: bindE_cases ret_def)
  qed
  have "\<exists>u2. await_done V r True 500 (throw ?m) u1 = throw ?m u2"
    unfolding await_done_def by (rule poll_late) (rule look)
  then obtain u2 where u2: "await_done V r True 500 (throw ?m) u1 = throw ?m u2" by blast
  have "await_done V r False 500 l u = (Ret (), u1)" for l
    unfolding await_done_def by (rule poll_hit) (use u1 in \<open>simp add: bindE_cases ret_def\<close>)
  then have "fst (seqE (send_command V r (prog_command ROC_ACTION_PROG_ADDR 0)) (seqE (await_done V r False 500 l)
      (seqE (await_done V r True 500 (throw ?m)) fin)) (set_lock r True s)) = Throw ?m" for l and fin :: "('a, u16) roc_eff"
    using u u2 by (simp add: seqE_def bindE_cases throw_def)
  then have run: "fst (run_action V r (prog_command ROC_ACTION_PROG_ADDR 0) 500 500 l (throw ?m) fin (set_lock r False s)) = Throw ?m"
    for l and fin :: "('a, u16) roc_eff"
    unfolding run_action_def guard .
  have late: "''Timeout waiting for '' @ ''action to program from SPI flash by address'' @ ''! Check for more info with ROC Read to ''
      @ to_string (unat ROC_ADDRESS_ACTION_DONE) @ [CHR 0x0A] = ?m"
    by (simp add: ROC_ADDRESS_ACTION_DONE_def to_string_128)
  show "fst (programFromSPIByAddress V r 0 True (set_lock r False s)) = Throw ?m"
    unfolding programFromSPIByAddress_def program_action_def Let_def simp_thms if_False by (simp only: late, rule throw_bindE, rule run)
  show "autoProgramFromSPI V r False t = programFromSPIByAddress V r 0 False t" for t
    by (simp add: autoProgramFromSPI_def programFromSPIByAddress_def prog_command_def halves_def Let_def)
qed

text \<open>A ROC that takes every command and is always busy.\<close>

definition busy_roc :: "unit rocdtc" where
  "busy_roc = \<lparr>rd_link = (\<lambda>r. r), rd_ReadROCRegister = (\<lambda>_ _ _ e. (Inr 0, e)), rd_WriteROCRegister = (\<lambda>_ _ _ _ _ e. (Inr (), e)),
     rd_ReadROCBlock = (\<lambda>_ _ _ _ _ _ e. (Inr [], e)), rd_WriteROCBlock = (\<lambda>_ _ _ _ _ _ e. (Inr (), e)),
     rd_SoftReset = (\<lambda>e. (Inr (), e)), rd_usleep = (\<lambda>_ e. e), rd_rand = (\<lambda>e. (0, e)), rd_others = (\<lambda>s. s), rd_fuel = 7\<rparr>"

definition idle_rocs :: "unit rocstate" where
  "idle_rocs = \<lparr>rs_env = (), rs_locked = (\<lambda>_. False), rs_held = (\<lambda>_. False), rs_percent = [], rs_hist = []\<rparr>"

theorem auto_program_spins_witness:
  "fst (autoProgramFromSPI busy_roc 0 True (set_lock 0 False idle_rocs)) = Spin"
  by (rule auto_program_spins [where n = 6, THEN conjunct1]) (simp_all add: busy_roc_def)

end
