(* ===== verification/Program_ROCs.thy ===== *)
theory Program_ROCs
  imports ROC_Macros
begin

section \<open>Program ROCs: the flash macro over the actions of the ROCs\<close>

text \<open>
  \<^verbatim>\<open>DTCFrontEndInterface::ProgramROCs\<close> (DTCFrontEndInterfaceImpl.cc): the selection of the ROCs, the directory
  map, and the erase, write, verify and program phases, each of which starts the action on every target and
  polls them together. A ROC is named by its position in \<^verbatim>\<open>rocs_\<close>, whose key order the positions have. The
  locals \<^verbatim>\<open>eraseLockHeld\<close>, \<^verbatim>\<open>writeLockHeld\<close> and \<^verbatim>\<open>readLockHeld\<close>, which the handlers of the phases read, are
  the field \<open>rs_held\<close> of the state.
\<close>

record program_args =
  pa_target :: u32
  pa_mapPath :: string
  pa_writeMap :: bool
  pa_verifyMap :: bool
  pa_imageIndex :: u8
  pa_bitfile :: string
  pa_write :: bool
  pa_verify :: bool
  pa_program :: bool
  pa_forceSize :: u32

text \<open>The names of the ROCs of the front end, one for each.\<close>

type_synonym uids = "string list"

subsection \<open>The targets\<close>

definition targeted :: "u32 \<Rightarrow> nat \<Rightarrow> bool" where
  "targeted v link =
     (let usingRocMask = v \<noteq> - 1 \<and> v > 5 in
      (\<not> usingRocMask \<and> (v = - 1 \<or> word_of_nat link = v)) \<or> (usingRocMask \<and> push_bit (link * 4) 1 AND v \<noteq> 0))"

definition target_rocs :: "'e rocdtc \<Rightarrow> uids \<Rightarrow> u32 \<Rightarrow> nat list" where
  "target_rocs V U v = filter (\<lambda>r. targeted v (rd_link V r)) [0..<length U]"

definition quoted :: "string \<Rightarrow> string" where
  "quoted t = [CHR 0x27] @ t @ [CHR 0x27]"

definition roc_link :: "'e rocdtc \<Rightarrow> uids \<Rightarrow> nat \<Rightarrow> string" where
  "roc_link V U r = U ! r @ '' link='' @ to_string (rd_link V r)"

definition quoted_roc_link :: "'e rocdtc \<Rightarrow> uids \<Rightarrow> nat \<Rightarrow> string" where
  "quoted_roc_link V U r = quoted (U ! r) @ '' link='' @ to_string (rd_link V r)"

definition comma_list :: "string list \<Rightarrow> string" where
  "comma_list ws = foldl (\<lambda>t w. (if t = [] then [] else t @ '', '') @ w) [] ws"

definition find_targets :: "'e rocdtc \<Rightarrow> uids \<Rightarrow> u32 \<Rightarrow> ('e, nat list) roc_eff" where
  "find_targets V U v =
     (let ts = target_rocs V U v in
      if ts = []
      then throw (''Fatal error - Target ROC or Mask '' @ quoted (to_string_int (sint v) @ '' (0x'' @ radix_string 16 (unat v) @ '')'')
             @ '' not found in DTC'' @ [CHR 0x27] @ ''s instantiated ROCs (make sure your ROC is enabled)! Here is the list of enabled ROC links: ''
             @ comma_list (map (\<lambda>r. radix_string 16 (rd_link V r)) [0..<length U]) @ [CHR 0x0A])
      else ret ts)"

subsection \<open>The directory map\<close>

definition map_mismatch :: "'e rocdtc \<Rightarrow> uids \<Rightarrow> nat \<Rightarrow> u32 \<Rightarrow> u16 \<Rightarrow> u16 \<Rightarrow> string" where
  "map_mismatch V U r a lo hi =
     roc_link V U r @ '', Mismatch in Directory Map! Expected 0x '' @ word_hex4 (ucast a) @ '' ''
     @ radix_string 16 (unat (ucast (drop_bit 16 a) :: u16)) @ '' and read: 0x'' @ word_hex4 lo @ '' ''
     @ radix_string 16 (unat hi) @ [CHR 0x0A]"

text \<open>The right operand of \<^verbatim>\<open>||\<close> is only evaluated, and its element only read, when the left one is false.\<close>

definition check_entry :: "'e rocdtc \<Rightarrow> uids \<Rightarrow> nat \<Rightarrow> u16 list \<Rightarrow> nat \<times> u32 \<Rightarrow> ('e, unit) roc_eff" where
  "check_entry V U r d ia =
     (case ia of (i, a) \<Rightarrow>
      bindE (at d (i * 2)) (\<lambda>lo.
      bindE (if lo \<noteq> ucast a then ret True else bindE (at d (i * 2 + 1)) (\<lambda>hi. ret (hi \<noteq> ucast (drop_bit 16 a)))) (\<lambda>bad.
      whenE bad (bindE (at d (i * 2)) (\<lambda>lo. bindE (at d (i * 2 + 1)) (\<lambda>hi. throw (map_mismatch V U r a lo hi)))))))"

definition check_rest :: "'e rocdtc \<Rightarrow> uids \<Rightarrow> nat \<Rightarrow> u16 list \<Rightarrow> nat \<Rightarrow> ('e, unit) roc_eff" where
  "check_rest V U r d i =
     bindE (at d i) (\<lambda>x. whenE (x \<noteq> - 1)
       (throw (roc_link V U r @ '', Mismatch in Directory Map! Expected no further addresses (i.e., -1) and read: 0x'' @ word_hex4 x)))"

definition verify_map :: "'e rocdtc \<Rightarrow> uids \<Rightarrow> u32 list \<Rightarrow> nat \<Rightarrow> string \<Rightarrow> ('e, string) roc_eff" where
  "verify_map V U entries r results =
     bindE (readSPIFlashBlock V r [] 0 64) (\<lambda>d.
     seqE (forE (enumerate 0 entries) (check_entry V U r d))
    (seqE (forE [length entries * 2..<32] (check_rest V U r d))
          (ret (results @ roc_link V U r @ '', Directory map verified.'' @ [CHR 0x0A]))))"

definition handle_map :: "'e rocdtc \<Rightarrow> 'e rocfiles \<Rightarrow> uids \<Rightarrow> program_args \<Rightarrow> nat list \<Rightarrow> string \<Rightarrow> ('e, u32 list \<times> string) roc_eff" where
  "handle_map V F U a ts results =
     (if pa_mapPath a = ''Default'' \<or> pa_mapPath a = [] then ret ([], results)
      else bindE (open_file (rf_text F) (pa_mapPath a)) (\<lambda>t.
           bindE (read_directory t) (\<lambda>entries.
           seqE (whenE (pa_writeMap a) (forE ts (\<lambda>r. writeSPIFlashDirectory V r entries True)))
          (bindE (if pa_verifyMap a then foldE (verify_map V U entries) ts results else ret results) (\<lambda>results.
           ret (entries, results))))))"

definition start_address :: "program_args \<Rightarrow> u32 list \<Rightarrow> ('e, u32) roc_eff" where
  "start_address a entries =
     (if unat (pa_imageIndex a) \<ge> length entries
      then throw (''Illegal image index, must be less than Directory size: '' @ [char_of (unat (pa_imageIndex a))]
                  @ '' must be < '' @ to_string (length entries) @ [CHR 0x0A])
      else ret (entries ! unat (pa_imageIndex a)))"

subsection \<open>The image\<close>

definition load_image :: "'e rocfiles \<Rightarrow> program_args \<Rightarrow> string \<Rightarrow> ('e, u8 list \<times> string) roc_eff" where
  "load_image F a results =
     (if pa_bitfile a = ''Default'' \<or> pa_bitfile a = [] then ret ([], results)
      else bindE (open_file (rf_bytes F) (pa_bitfile a)) (\<lambda>bytes.
           ret (bytes, results @ ''Loaded file '' @ quoted (pa_bitfile a) @ '' of size='' @ to_string (length bytes) @ [CHR 0x0A])))"

definition sized_image :: "program_args \<Rightarrow> u8 list \<Rightarrow> u8 list" where
  "sized_image a bytes =
     (let c = (if pa_forceSize a \<noteq> 0 \<and> length bytes > unat (pa_forceSize a) then take (unat (pa_forceSize a)) bytes else bytes) in
      if odd (length c) then c @ [0xFF] else c)"

text \<open>The words of a piece of the image, which has an even number of bytes.\<close>

definition piece_words :: "u8 list \<Rightarrow> nat \<Rightarrow> nat \<Rightarrow> u16 list" where
  "piece_words c i n = map (\<lambda>j. ucast (c ! (i + j)) OR push_bit 8 (ucast (c ! (i + j + 1)))) (piece_starts n 2)"

definition set_percent :: "nat \<Rightarrow> ('e, unit) roc_eff" where
  "set_percent p = modify (\<lambda>s. s\<lparr>rs_percent := rs_percent s @ [p]\<rparr>)"

subsection \<open>Polling all targets\<close>

text \<open>The rounds of a \<^verbatim>\<open>do ... while(!all)\<close> loop: \<open>round\<close> looks at every target, \<open>k\<close> misses are followed by a
  pause, and the miss after them by the time-out.\<close>

primrec poll_all ::
  "nat \<Rightarrow> ('acc \<Rightarrow> ('e, bool \<times> 'acc) roc_eff) \<Rightarrow> ('e, unit) roc_eff \<Rightarrow> ('acc \<Rightarrow> ('e, 'acc) roc_eff) \<Rightarrow> 'acc \<Rightarrow> ('e, 'acc) roc_eff" where
  "poll_all 0 round pause late acc = bindE (round acc) (\<lambda>(all, acc). if all then ret acc else late acc)"
| "poll_all (Suc k) round pause late acc =
     bindE (round acc) (\<lambda>(all, acc). if all then ret acc else seqE pause (poll_all k round pause late acc))"

type_synonym flags = "nat \<Rightarrow> bool"

definition late_list :: "'e rocdtc \<Rightarrow> uids \<Rightarrow> nat list \<Rightarrow> string \<Rightarrow> flags \<Rightarrow> string" where
  "late_list V U ts what m = what @ concat (map (\<lambda>r. '' '' @ quoted_roc_link V U r) (filter (\<lambda>r. \<not> m r) ts)) @ [CHR 0x0A]"

definition accepted_one :: "'e rocdtc \<Rightarrow> nat \<Rightarrow> bool \<times> flags \<Rightarrow> ('e, bool \<times> flags) roc_eff" where
  "accepted_one V r am =
     (case am of (all, m) \<Rightarrow>
      if m r then ret (all, m)
      else bindE (is_done V r) (\<lambda>d. ret (if \<not> d then (all, m(r := True)) else (False, m))))"

definition await_accepted :: "'e rocdtc \<Rightarrow> uids \<Rightarrow> nat list \<Rightarrow> string \<Rightarrow> ('e, flags) roc_eff" where
  "await_accepted V U ts what =
     poll_all 500 (\<lambda>m. foldE (accepted_one V) ts (True, m)) (roc_usleep V 10000)
       (\<lambda>m. throw (late_list V U ts what m)) (\<lambda>_. False)"

definition set_held :: "nat \<Rightarrow> bool \<Rightarrow> ('e, unit) roc_eff" where
  "set_held r b = modify (\<lambda>s. s\<lparr>rs_held := (rs_held s)(r := b)\<rparr>)"

text \<open>The handler \<^verbatim>\<open>catch(...)\<close> of a phase, over the locks noted in its map.\<close>

definition clear_held :: "nat list \<Rightarrow> ('e, unit) roc_eff" where
  "clear_held ts = forE ts (\<lambda>r. bindE (gets (\<lambda>s. rs_held s r)) (\<lambda>h. whenE h (forceClearActionLock r)))"

definition holding_locks :: "nat list \<Rightarrow> ('e, 'a) roc_eff \<Rightarrow> ('e, 'a) roc_eff" where
  "holding_locks ts m =
     seqE (modify (\<lambda>s. s\<lparr>rs_held := (\<lambda>_. False)\<rparr>)) (tryE m (\<lambda>e. seqE (clear_held ts) (throw e)))"

definition launch_all :: "nat list \<Rightarrow> (nat \<Rightarrow> ('e, unit) roc_eff) \<Rightarrow> ('e, unit) roc_eff" where
  "launch_all ts f = forE ts (\<lambda>r. seqE (f r) (set_held r True))"

subsection \<open>Erase\<close>

definition erased_one :: "'e rocdtc \<Rightarrow> nat \<Rightarrow> bool \<times> flags \<Rightarrow> ('e, bool \<times> flags) roc_eff" where
  "erased_one V r am =
     (case am of (all, m) \<Rightarrow>
      if m r then ret (all, m)
      else bindE (isActionDone V r False True) (\<lambda>(d, _).
           if d then seqE (set_held r False) (ret (all, m(r := True))) else ret (False, m)))"

definition erase_all :: "'e rocdtc \<Rightarrow> uids \<Rightarrow> nat list \<Rightarrow> u8 list \<Rightarrow> u32 \<Rightarrow> ('e, unit) roc_eff" where
  "erase_all V U ts c a =
     holding_locks ts
       (seqE (launch_all ts (\<lambda>r. eraseSPIFlashBlock V r (word_of_nat (length c)) a False))
       (bindE (await_accepted V U ts ''SPI ERASE TIMEOUT: phase=command-accepted timeout=5s, ROCs not accepted:'') (\<lambda>_.
        bindE (poll_all 18000 (\<lambda>m. foldE (erased_one V) ts (True, m)) (roc_usleep V 10000)
                (\<lambda>m. throw (late_list V U ts ''SPI ERASE TIMEOUT: phase=complete timeout=180s, ROCs not done:'' m)) (\<lambda>_. False)) (\<lambda>_.
        ret ()))))"

subsection \<open>Write\<close>

definition written_one :: "'e rocdtc \<Rightarrow> nat \<Rightarrow> bool \<times> flags \<times> (nat \<Rightarrow> u16) \<Rightarrow> ('e, bool \<times> flags \<times> (nat \<Rightarrow> u16)) roc_eff" where
  "written_one V r amt =
     (case amt of (all, m, st) \<Rightarrow>
      if m r then ret (all, m, st)
      else bindE (isActionDone V r True True) (\<lambda>(d, x).
           if d then seqE (set_held r False) (ret (all, m(r := True), st(r := (case x of None \<Rightarrow> 0 | Some v \<Rightarrow> v))))
           else ret (False, m, st)))"

definition write_status :: "'e rocdtc \<Rightarrow> uids \<Rightarrow> u32 \<Rightarrow> nat \<Rightarrow> (nat \<Rightarrow> u16) \<Rightarrow> nat \<Rightarrow> ('e, unit) roc_eff" where
  "write_status V U a i st r =
     whenE (st r \<noteq> 0)
       (throw (''At roc '' @ quoted_roc_link V U r @ '', SPI local write verify failed at offset '' @ to_string i
          @ '' flashAddr=0x'' @ radix_string 16 (unat a + i) @ '' failMask=0x'' @ radix_string 16 (unat (st r))
          @ '' (bit N flags 128-byte subblock N within this 1KB chunk)'' @ [CHR 0x0A]))"

definition write_chunk :: "'e rocdtc \<Rightarrow> uids \<Rightarrow> nat list \<Rightarrow> u8 list \<Rightarrow> u32 \<Rightarrow> nat \<Rightarrow> ('e, unit) roc_eff" where
  "write_chunk V U ts c a i =
     (let n = min 1024 (length c - i) in
      seqE (holding_locks ts
       (seqE (launch_all ts (\<lambda>r. writeSPIFlashBlock V r (piece_words c i n) (a + word_of_nat i) False))
       (bindE (await_accepted V U ts (''SPI WRITE TIMEOUT: phase=command-accepted timeout=5s offset='' @ to_string i @ '', ROCs not accepted:'')) (\<lambda>_.
        bindE (poll_all 500 (\<lambda>(m, st). foldE (written_one V) ts (True, m, st)) (roc_usleep V 10000)
                (\<lambda>(m, st). throw (late_list V U ts (''SPI WRITE TIMEOUT: phase=complete timeout=5s offset='' @ to_string i @ '', ROCs not done:'') m))
                (\<lambda>_. False, \<lambda>_. 0)) (\<lambda>(m, st).
        forE ts (write_status V U a i st))))))
      (whenE (n \<noteq> 0) (set_percent (10 + 70 * (i + n) div length c))))"

definition write_all :: "'e rocdtc \<Rightarrow> uids \<Rightarrow> nat list \<Rightarrow> u8 list \<Rightarrow> u32 \<Rightarrow> string \<Rightarrow> ('e, string) roc_eff" where
  "write_all V U ts c a results =
     seqE (erase_all V U ts c a)
    (seqE (set_percent 10)
    (seqE (forE (piece_starts (length c) 1024) (write_chunk V U ts c a))
          (ret (results @ ''Write of bitfile to address 0x'' @ pad_left 8 CHR ''0'' (radix_string 16 (unat a)) @ [CHR 0x0A]))))"

subsection \<open>Verify\<close>

definition ready_one :: "'e rocdtc \<Rightarrow> nat \<Rightarrow> nat \<Rightarrow> bool \<times> flags \<Rightarrow> ('e, bool \<times> flags) roc_eff" where
  "ready_one V n r am =
     (case am of (all, m) \<Rightarrow>
      if m r then ret (all, m)
      else bindE (is_done V r) (\<lambda>d.
           if \<not> d then ret (all, m(r := True))
           else bindE (read_size V r) (\<lambda>k.
                ret (if k = n div 2 + 4 then (all, m(r := True)) else (False, m)))))"

definition verify_mismatch :: "'e rocdtc \<Rightarrow> uids \<Rightarrow> u8 list \<Rightarrow> u32 \<Rightarrow> nat \<Rightarrow> nat \<Rightarrow> nat \<Rightarrow> u16 list \<Rightarrow> nat \<Rightarrow> ('e, unit) roc_eff" where
  "verify_mismatch V U c a i n r d j =
     bindE (roc_readRegister V r 128) (\<lambda>done. bindE (roc_readRegister V r 129) (\<lambda>count. bindE (roc_readRegister V r 132) (\<lambda>st.
     let w = d ! (j div 2); h2 = (\<lambda>k. radix_string 16 k) in
     throw (''SPI VERIFY MISMATCH: roc='' @ quoted_roc_link V U r @ '' offset='' @ to_string (i + j)
       @ '' flashAddr=0x'' @ h2 (unat a + i + j) @ '' chunkOffset='' @ to_string i @ '' chunkSize='' @ to_string n
       @ '' totalBytes='' @ to_string (length c) @ '' verifyChunkSize=1016 expected=0x''
       @ pad_left 2 CHR ''0'' (h2 (unat (c ! (i + j + 1)))) @ h2 (unat (c ! (i + j))) @ '' got=0x''
       @ h2 (unat w div 256) @ h2 (unat w mod 256) @ '' reg128=0x'' @ h2 (unat done) @ '' reg129=0x'' @ h2 (unat count)
       @ '' reg132=0x'' @ h2 (unat st) @ ''. Readback around mismatch (chunk word index, value):''
       @ concat (map (\<lambda>k. '' ['' @ to_string k @ '']=0x'' @ word_hex4 (d ! k))
                  [(if j div 2 \<ge> 4 then j div 2 - 4 else 0)..<min (j div 2 + 5) (length d)]) @ [CHR 0x0A]))))"

definition compare_reply_word :: "'e rocdtc \<Rightarrow> uids \<Rightarrow> u8 list \<Rightarrow> u32 \<Rightarrow> nat \<Rightarrow> nat \<Rightarrow> nat \<Rightarrow> u16 list \<Rightarrow> nat \<Rightarrow> ('e, unit) roc_eff" where
  "compare_reply_word V U c a i n r d j =
     bindE (at d (j div 2)) (\<lambda>w.
     whenE (c ! (i + j) \<noteq> ucast w \<or> c ! (i + j + 1) \<noteq> ucast (drop_bit 8 w)) (verify_mismatch V U c a i n r d j))"

definition check_reply :: "'e rocdtc \<Rightarrow> uids \<Rightarrow> u8 list \<Rightarrow> u32 \<Rightarrow> nat \<Rightarrow> nat \<Rightarrow> nat \<Rightarrow> ('e, unit) roc_eff" where
  "check_reply V U c a i n r =
     bindE (tryE (collectSPIFlashBlockRead V r [] (word_of_nat n)) (\<lambda>e. seqE (set_held r False) (throw e))) (\<lambda>d.
     seqE (set_held r False)
    (seqE (whenE (length d * 2 \<noteq> n)
       (throw (''At roc '' @ quoted_roc_link V U r @ '', SPI VERIFY CHUNK SIZE MISMATCH: offset='' @ to_string i
               @ '' expectedBytes='' @ to_string n @ '' readBytes='' @ to_string (length d * 2) @ [CHR 0x0A])))
          (forE (piece_starts n 2) (compare_reply_word V U c a i n r d))))"

definition verify_chunk :: "'e rocdtc \<Rightarrow> uids \<Rightarrow> nat list \<Rightarrow> u8 list \<Rightarrow> u32 \<Rightarrow> nat \<Rightarrow> ('e, unit) roc_eff" where
  "verify_chunk V U ts c a i =
     (let n = min 1016 (length c - i) in
      holding_locks ts
       (seqE (launch_all ts (\<lambda>r. launchSPIFlashBlockRead V r (a + word_of_nat i) (word_of_nat n)))
       (bindE (poll_all 500 (\<lambda>m. foldE (ready_one V n) ts (True, m)) (roc_usleep V 10000)
                (\<lambda>m. throw (late_list V U ts (''SPI VERIFY TIMEOUT: phase=command-accepted timeout=5s offset='' @ to_string i @ '', ROCs not ready:'') m))
                (\<lambda>_. False)) (\<lambda>_.
        forE ts (check_reply V U c a i n)))))"

definition verify_all :: "'e rocdtc \<Rightarrow> uids \<Rightarrow> nat list \<Rightarrow> u8 list \<Rightarrow> u32 \<Rightarrow> string \<Rightarrow> ('e, string) roc_eff" where
  "verify_all V U ts c a results =
     seqE (set_percent 80)
    (seqE (forE (piece_starts (length c) 1016) (verify_chunk V U ts c a))
          (ret (results @ concat (map (\<lambda>r. ''At roc '' @ quoted_roc_link V U r @ '', SPI data verified.'' @ [CHR 0x0A]) ts))))"

subsection \<open>Program\<close>

text \<open>The locals of the loop: the ROCs done, those that lost the connection, and \<^verbatim>\<open>readStatus\<close>, which has no
  initial value.\<close>

record program_poll =
  pp_done :: flags
  pp_lost :: flags
  pp_status :: "u16 option"
  pp_results :: string

text \<open>The \<^verbatim>\<open>try\<close> of one look at a ROC: its handler counts any exception as a lost connection.\<close>

definition look_programmed :: "'e rocdtc \<Rightarrow> nat \<Rightarrow> program_poll \<Rightarrow> ('e, program_poll) roc_eff" where
  "look_programmed V r L =
     tryE (bindE (isActionDone V r True True) (\<lambda>(d, x).
           ret (L\<lparr>pp_done := (pp_done L)(r := d \<or> pp_lost L r),
                  pp_status := (case x of None \<Rightarrow> pp_status L | Some v \<Rightarrow> Some v)\<rparr>)))
       (\<lambda>e. seqE (roc_usleep V 1000000)
           (bindE (\<lambda>s. case rd_SoftReset V (rs_env s) of (x, e) \<Rightarrow>
                     ((case x of Inl m \<Rightarrow> Throw m | Inr _ \<Rightarrow> Ret ()), s\<lparr>rs_env := e\<rparr>)) (\<lambda>_.
            ret (L\<lparr>pp_done := (pp_done L)(r := False), pp_lost := (pp_lost L)(r := True)\<rparr>))))"

definition programmed_one :: "'e rocdtc \<Rightarrow> uids \<Rightarrow> nat \<Rightarrow> bool \<times> program_poll \<Rightarrow> ('e, bool \<times> program_poll) roc_eff" where
  "programmed_one V U r aL =
     (case aL of (all, L) \<Rightarrow>
      if pp_done L r then ret (all, L)
      else bindE (look_programmed V r L) (\<lambda>L.
           if \<not> pp_done L r then ret (False, L)
           else (case pp_status L of
                   None \<Rightarrow> undefined_behaviour
                 | Some st \<Rightarrow>
                     if st \<noteq> 0
                     then throw (''At roc '' @ quoted_roc_link V U r @ '', Non-zero status received after SPI program action: 0x''
                                 @ radix_string 16 (unat st) @ [CHR 0x0A])
                     else ret (all, L\<lparr>pp_results := pp_results L @ roc_link V U r
                                 @ '', done with program from SPI action.'' @ [CHR 0x0A]\<rparr>))))"

definition program_all :: "'e rocdtc \<Rightarrow> uids \<Rightarrow> nat list \<Rightarrow> u32 \<Rightarrow> string \<Rightarrow> ('e, string) roc_eff" where
  "program_all V U ts a results =
     seqE (set_percent 90)
    (seqE (forE ts (\<lambda>r. programFromSPIByAddress V r a False))
    (bindE (poll_all 120 (\<lambda>L. foldE (programmed_one V U) ts (True, L)) (roc_usleep V 500000)
             (\<lambda>L. throw (''Timeout waiting for SPI flash program action! Check for more info with ROC Read to 128.'' @ [CHR 0x0A]))
             \<lparr>pp_done = (\<lambda>_. False), pp_lost = (\<lambda>_. False), pp_status = None, pp_results = results\<rparr>) (\<lambda>L.
     seqE (set_percent 100) (ret (pp_results L)))))"

subsection \<open>The macro\<close>

definition ProgramROCs :: "'e rocdtc \<Rightarrow> 'e rocfiles \<Rightarrow> uids \<Rightarrow> program_args \<Rightarrow> ('e, string) roc_eff" where
  "ProgramROCs V F U a =
     bindE (find_targets V U (pa_target a)) (\<lambda>ts.
     bindE (handle_map V F U a ts [CHR 0x0A]) (\<lambda>(entries, results).
     bindE (start_address a entries) (\<lambda>startAddress.
     bindE (load_image F a results) (\<lambda>(bytes, results).
     let c = sized_image a bytes in
     seqE (set_percent 0)
    (bindE (if pa_write a \<and> c \<noteq> [] then write_all V U ts c startAddress results else ret results) (\<lambda>results.
     bindE (if pa_verify a \<and> c \<noteq> [] then verify_all V U ts c startAddress results else ret results) (\<lambda>results.
     if \<not> pa_program a then ret results else program_all V U ts startAddress results)))))))"

end
