(* ===== verification/Program_Verified.thy ===== *)
theory Program_Verified
  imports Program_ROCs ROC_Faults
begin

section \<open>What Program ROCs reports\<close>

text \<open>
  "SPI data verified" is what it says: every piece of the image has been read back and compared. "done with
  program from SPI action" is not: a ROC that ignores the command, its DONE still set from an earlier action, is
  reported as programmed.
\<close>

subsection \<open>Accesses since a moment\<close>

lemma keeps_grown_state: "(\<And>s. rs_hist (f s) = rs_hist s) \<Longrightarrow> keeps (grown P h) (modify f)"
  by (rule keeps_modify) (simp add: grown_def)

lemma keeps_grown_lock:
  "keeps (grown P h) (try_lock r)" "keeps (grown P h) (unlock r)" "keeps (grown P h) (set_held r b)" "keeps (grown P h) (set_percent n)"
  by (auto simp: keeps_def grown_def try_lock_def unlock_def set_lock_def set_held_def set_percent_def modify_def)

lemma keeps_grown_more:
  assumes "stays P"
  shows "keeps (grown P h) (send_command V r w)" "keeps (grown P h) (read_size V r)" "keeps (grown P h) (roc_readRegister V r a')"
    "keeps (grown P h) (is_done V r)" "keeps (grown P h) (roc_readBlock V r d k m inc)" "keeps (grown P h) (roc_usleep V us)"
  unfolding send_command_def roc_writeBlock_def writeROCBlock_def read_size_def roc_readBlock_def readROCBlock_def
  by (intro inv_intros keeps_grown_call keeps_grown assms)+

lemma keeps_poll_all [inv_intros]:
  "(\<And>acc. keeps I (round acc)) \<Longrightarrow> keeps I pause \<Longrightarrow> (\<And>acc. keeps I (late acc)) \<Longrightarrow> keeps I (poll_all k round pause late acc)"
  by (induction k arbitrary: acc) (auto intro!: inv_intros)

lemma keeps_grown_launch: "stays P \<Longrightarrow> keeps (grown P h) (launchSPIFlashBlockRead V r a n)"
  unfolding launchSPIFlashBlockRead_def by (intro inv_intros keeps_grown_lock keeps_grown_more)

lemma keeps_grown_fetch: "stays P \<Longrightarrow> keeps (grown P h) (poll V k (look_for_reply V r e) (read_timeout V r e))"
  unfolding look_for_reply_def read_timeout_def by (intro inv_intros keeps_grown_more)

lemma grown_forE:
  assumes "\<And>x P. x \<in> set xs \<Longrightarrow> stays P \<Longrightarrow> post (grown P h) (f x) (\<lambda>_. grown (\<lambda>t. P t \<and> Q x t) h)"
    and "\<And>x. stays (Q x)" and "stays P"
  shows "post (grown P h) (forE xs f) (\<lambda>_. grown (\<lambda>t. P t \<and> list_all (\<lambda>x. Q x t) xs) h)"
  unfolding forE_def using assms(1,3)
proof (induction xs arbitrary: P)
  case Nil
  show ?case by (auto intro: post_ret)
next
  case (Cons x xs)
  have "stays (\<lambda>t. P t \<and> Q x t)" using assms(2) Cons.prems(2) by (auto simp: stays_def)
  then have "post (grown (\<lambda>t. P t \<and> Q x t) h) (foldE (\<lambda>x _. f x) xs ()) (\<lambda>_. grown (\<lambda>t. (P t \<and> Q x t) \<and> list_all (\<lambda>x. Q x t) xs) h)"
    by (intro Cons.IH Cons.prems(1)) simp_all
  then show ?case
    unfolding foldE.simps list.pred_inject conj_assoc by (intro post_bindE [OF Cons.prems(1)] Cons.prems(2)) simp_all
qed

subsection \<open>The verification\<close>

lemma fetch_grown:
  assumes "stays P"
  shows "post (grown P h) (fetch_reply V r n)
     (\<lambda>w. grown (\<lambda>t. P t \<and> RocReadBlock r ROC_ADDRESS_ACTION_COMMAND (word_of_nat (unat n div 2)) (Inr w) \<in> set t) h)"
proof (rule postI)
  fix s w s' assume g: "grown P h s" and run: "fetch_reply V r n s = (Ret w, s')"
  let ?k = "unat n div 2"
  obtain c t where c: "poll V 501 (look_for_reply V r (?k + 4)) (read_timeout V r (?k + 4)) s = (Ret c, t)"
    and w: "(if c - 4 \<noteq> ?k then throw e else roc_readBlock V r [] ROC_ADDRESS_ACTION_COMMAND (word_of_nat (c - 4)) False) t = (Ret w, s')" for e
    using run unfolding fetch_reply_def Let_def by (force simp: bindE_Ret throw_def split: if_splits)
  have "c = ?k + 4"
    by (rule poll_value [OF look_for_reply_value read_timeout_throws c])
  then have "rs_hist s' = RocReadBlock r ROC_ADDRESS_ACTION_COMMAND (word_of_nat ?k) (Inr w) # rs_hist t"
    using w by (auto simp: roc_readBlock_def readROCBlock_def bindE_Ret dtc_call_def throw_def ret_def split: prod.splits sum.splits if_splits)
  moreover have "grown P h t" using keepsD [OF keeps_grown_fetch [OF assms] g] c by (metis snd_conv)
  ultimately show "grown (\<lambda>t. P t \<and> RocReadBlock r ROC_ADDRESS_ACTION_COMMAND (word_of_nat ?k) (Inr w) \<in> set t) h s'"
    using assms by (auto simp: grown_def stays_def intro: exI [of _ "_ # _"])
qed

lemma keeps_grown_reply:
  assumes "stays P"
  shows "keeps (grown P h) (collectSPIFlashBlockRead V r d n)"
  unfolding collectSPIFlashBlockRead_def fetch_reply_def Let_def
  by (intro inv_intros keeps_grown_lock keeps_grown_more keeps_grown_fetch assms)

lemma collect_grown:
  assumes "stays P"
  shows "post (grown P h) (collectSPIFlashBlockRead V r [] n)
     (\<lambda>w. grown (\<lambda>t. P t \<and> RocReadBlock r ROC_ADDRESS_ACTION_COMMAND (word_of_nat (unat n div 2)) (Inr w) \<in> set t) h)"
proof -
  have stays: "stays (\<lambda>t. P t \<and> RocReadBlock r ROC_ADDRESS_ACTION_COMMAND (word_of_nat (unat n div 2)) (Inr w) \<in> set t)" for w
    using assms by (auto simp: stays_def)
  have keeps: "keeps (grown P h) (fetch_reply V r n)"
    unfolding fetch_reply_def Let_def by (intro inv_intros keeps_grown_more keeps_grown_fetch assms)
  show ?thesis
    unfolding collectSPIFlashBlockRead_def
  proof (rule post_bindE [OF post_tryE [OF fetch_grown [OF assms] keeps]])
    show "post (grown P h) (seqE (unlock r) (throw e)) R" for e and R :: "u16 list \<Rightarrow> 'a rocstate \<Rightarrow> bool"
      by (auto simp: post_def seqE_def bindE_Ret throw_def)
    show "post (grown (\<lambda>t. P t \<and> RocReadBlock r ROC_ADDRESS_ACTION_COMMAND (word_of_nat (unat n div 2)) (Inr w) \<in> set t) h)
       (seqE (unlock r) (bindE (read_size V r) (\<lambda>_. ret ([] @ w))))
       (\<lambda>w. grown (\<lambda>t. P t \<and> RocReadBlock r ROC_ADDRESS_ACTION_COMMAND (word_of_nat (unat n div 2)) (Inr w) \<in> set t) h)" for w
      by (intro post_seqE [OF post_keeps] post_bindE [OF post_keeps] keeps_grown_lock keeps_grown_more stays post_ret) simp
  qed
qed

lemma two_bytes: "ucast (ucast w :: u8) OR push_bit 8 (ucast (ucast (drop_bit 8 w) :: u8)) = (w :: u16)"
  by (rule bit_word_eqI) (auto simp: bit_simps not_less)

lemma compare_words:
  assumes "forE xs (compare_reply_word V U c a i n r d) s = (Ret (), s')"
  shows "s' = s \<and> list_all (\<lambda>j. j div 2 < length d \<and> c ! (i + j) = ucast (d ! (j div 2)) \<and> c ! (i + j + 1) = ucast (drop_bit 8 (d ! (j div 2)))) xs"
  using assms unfolding forE_def
proof (induction xs)
  case (Cons j xs)
  have "verify_mismatch V U c a i n r d j t \<noteq> (Ret (), t')" for t t'
    by (auto simp: verify_mismatch_def bindE_Ret throw_def Let_def)
  with Cons show ?case
    by (auto simp: compare_reply_word_def at_def bindE_Ret whenE_def ret_def undefined_behaviour_def split: if_splits)
qed (simp add: ret_def)

lemma piece_words_eq:
  assumes "length d * 2 = n"
    and "list_all (\<lambda>j. j div 2 < length d \<and> c ! (i + j) = ucast (d ! (j div 2)) \<and> c ! (i + j + 1) = ucast (drop_bit 8 (d ! (j div 2)))) (piece_starts n 2)"
  shows "piece_words c i n = d"
proof (rule nth_equalityI)
  show "length (piece_words c i n) = length d" using assms(1) by (auto simp: piece_words_def piece_starts_def)
  fix k assume "k < length (piece_words c i n)"
  then have k: "k < length d" "2 * k \<in> set (piece_starts n 2)" "piece_starts n 2 ! k = 2 * k"
    using assms(1) by (auto simp: piece_words_def piece_starts_def)
  then have "c ! (i + 2 * k) = ucast (d ! k)" "c ! (i + 2 * k + 1) = ucast (drop_bit 8 (d ! k))"
    using assms(2) by (auto simp: list_all_iff)
  then show "piece_words c i n ! k = d ! k"
    using k assms(1) by (simp add: piece_words_def piece_starts_def two_bytes)
qed

text \<open>The reply of a block read with the words of the piece at \<open>i\<close>.\<close>

definition read_back :: "u8 list \<Rightarrow> nat \<Rightarrow> nat \<Rightarrow> roc_event list \<Rightarrow> bool" where
  "read_back c i r t \<longleftrightarrow> (let n = min 1016 (length c - i) in
     RocReadBlock r ROC_ADDRESS_ACTION_COMMAND (word_of_nat (n div 2)) (Inr (piece_words c i n)) \<in> set t)"

lemma stays_read_back: "stays (read_back c i r)" "stays (\<lambda>t. list_all (\<lambda>r. read_back c i r t) ts)"
  by (auto simp: stays_def read_back_def Let_def list_all_iff)

lemma check_reply_grown:
  assumes "stays P"
  shows "post (grown P h) (check_reply V U c a i (min 1016 (length c - i)) r) (\<lambda>_. grown (\<lambda>t. P t \<and> read_back c i r t) h)"
proof (rule postI)
  let ?n = "min 1016 (length c - i)"
  fix s u s' assume g: "grown P h s" and run: "check_reply V U c a i ?n r s = (Ret u, s')"
  then obtain d t t' where d: "collectSPIFlashBlockRead V r [] (word_of_nat ?n) s = (Ret d, t)" and len: "length d * 2 = ?n"
    and cmp: "forE (piece_starts ?n 2) (compare_reply_word V U c a i ?n r d) t' = (Ret (), s')" and hist: "rs_hist t' = rs_hist t"
    by (auto simp: check_reply_def bindE_Ret seqE_def tryE_def set_held_def modify_def whenE_def throw_def ret_def
        split: prod.splits outcome.splits if_splits)
  have "unat (word_of_nat ?n :: u16) = ?n" by (simp add: unat_of_nat)
  then have "grown (\<lambda>t. P t \<and> RocReadBlock r ROC_ADDRESS_ACTION_COMMAND (word_of_nat (?n div 2)) (Inr d) \<in> set t) h t"
    using postD [OF collect_grown [OF assms] g d] by simp
  moreover have "piece_words c i ?n = d" "s' = t'"
    using piece_words_eq [OF len] compare_words [OF cmp] by auto
  ultimately show "grown (\<lambda>t. P t \<and> read_back c i r t) h s'"
    using hist by (simp add: grown_def read_back_def Let_def)
qed

lemma verify_chunk_grown:
  assumes "stays P"
  shows "post (grown P h) (verify_chunk V U ts c a i) (\<lambda>_. grown (\<lambda>t. P t \<and> list_all (\<lambda>r. read_back c i r t) ts) h)"
proof -
  let ?n = "min 1016 (length c - i)"
  have launch: "keeps (grown P h) (launch_all ts (\<lambda>r. launchSPIFlashBlockRead V r (a + word_of_nat i) (word_of_nat ?n)))"
    unfolding launch_all_def by (intro inv_intros keeps_grown_launch keeps_grown_lock assms)
  have ready: "keeps (grown P h) (poll_all 500 (\<lambda>m. foldE (ready_one V ?n) ts (True, m)) (roc_usleep V 10000) (\<lambda>m. throw (e m)) m0)" for e m0
    unfolding ready_one_def by (intro inv_intros keeps_grown_more assms)
  have replies: "keeps (grown P h) (forE ts (check_reply V U c a i ?n))"
    unfolding check_reply_def compare_reply_word_def verify_mismatch_def Let_def
    by (intro inv_intros keeps_grown_reply keeps_grown_lock keeps_grown_more assms)
  show ?thesis
    unfolding verify_chunk_def holding_locks_def Let_def
  proof (intro post_seqE [OF post_keeps [OF keeps_grown_state]] post_tryE post_bindE [OF post_keeps [OF ready]] post_seqE [OF post_keeps [OF launch]])
    show "post (grown P h) (forE ts (check_reply V U c a i ?n)) (\<lambda>_. grown (\<lambda>t. P t \<and> list_all (\<lambda>r. read_back c i r t) ts) h)"
      by (rule grown_forE [OF check_reply_grown stays_read_back(1) assms])
    show "post (grown P h) (seqE (clear_held ts) (throw e)) (\<lambda>_. grown (\<lambda>t. P t \<and> list_all (\<lambda>r. read_back c i r t) ts) h)" for e
      by (auto simp: post_def seqE_def bindE_Ret throw_def)
  qed (simp, intro inv_intros launch ready replies)
qed

text \<open>
  C23. "SPI data verified" is true: when the verification of \<open>ProgramROCs\<close> returns, every ROC of the selection has
  since its start sent a reply for each piece of the image (of 1016 bytes, the last one shorter) that consists of
  exactly the bytes of that piece.
\<close>

theorem verified_contents_read_back:
  "case verify_all V U ts c a results s of
     (Ret t, s') \<Rightarrow> \<exists>new. rs_hist s' = new @ rs_hist s
        \<and> list_all (\<lambda>i. list_all (\<lambda>r. read_back c i r new) ts) (piece_starts (length c) 1016)
   | _ \<Rightarrow> True"
proof -
  let ?h = "rs_hist s"
  let ?all = "\<lambda>new. list_all (\<lambda>i. list_all (\<lambda>r. read_back c i r new) ts) (piece_starts (length c) 1016)"
  have "stays (\<lambda>_. True)" by (simp add: stays_def)
  then have "post (grown (\<lambda>_. True) ?h) (verify_all V U ts c a results) (\<lambda>_. grown (\<lambda>t. True \<and> ?all t) ?h)"
    unfolding verify_all_def
    by (intro post_seqE [OF post_keeps [OF keeps_grown_lock(4)]] post_seqE [OF grown_forE [OF verify_chunk_grown stays_read_back(2)]] post_ret)
      simp_all
  moreover have "grown (\<lambda>_. True) ?h s" by (simp add: grown_def)
  ultimately have "verify_all V U ts c a results s = (Ret t, s') \<Longrightarrow> grown (\<lambda>t. True \<and> ?all t) ?h s'" for t s'
    by (rule postD)
  then show ?thesis by (force simp: grown_def split: prod.split outcome.split)
qed

subsection \<open>A stale DONE\<close>

lemma dtc_call_value: "\<exists>e'. f (rs_env s) = (Inr v, e') \<Longrightarrow> \<exists>s'. dtc_call f ev s = (Ret v, s') \<and> rs_locked s' = rs_locked s"
  by (auto simp: dtc_call_def)

lemma read_value:
  "\<exists>e'. rd_ReadROCRegister V (rd_link V r) a 200 (rs_env s) = (Inr v, e') \<Longrightarrow>
   \<exists>s'. roc_readRegister V r a s = (Ret v, s') \<and> rs_locked s' = rs_locked s"
  unfolding roc_readRegister_def readROCRegister_def tryE_rethrow by (rule dtc_call_value)

text \<open>A ROC whose DONE is set, whose status is zero and that accepts writes, whatever it is sent.\<close>

definition deaf :: "'e rocdtc \<Rightarrow> nat \<Rightarrow> bool" where
  "deaf V r \<longleftrightarrow> (\<forall>e. (\<exists>v e'. rd_ReadROCRegister V (rd_link V r) ROC_ADDRESS_ACTION_DONE 200 e = (Inr v, e') \<and> bit v 15)
     \<and> (\<exists>e'. rd_ReadROCRegister V (rd_link V r) ROC_ADDRESS_ACTION_STATUS 200 e = (Inr 0, e'))
     \<and> (\<forall>w. \<exists>e'. rd_WriteROCBlock V (rd_link V r) ROC_ADDRESS_ACTION_COMMAND w False False 0 e = (Inr (), e')))"

lemma deaf_done:
  assumes "deaf V r" and "rs_locked s r"
  shows "\<exists>s'. isActionDone V r True True s = (Ret (True, Some 0), s') \<and> rs_locked s' = (rs_locked s)(r := False)"
proof -
  obtain v t where v: "roc_readRegister V r ROC_ADDRESS_ACTION_DONE s = (Ret v, t)" "bit v 15" "rs_locked t = rs_locked s"
    using assms(1) read_value unfolding deaf_def by metis
  obtain u where "roc_readRegister V r ROC_ADDRESS_ACTION_STATUS t = (Ret 0, u)" "rs_locked u = rs_locked t"
    using assms(1) read_value unfolding deaf_def by metis
  then show ?thesis using v assms(2)
    by (simp add: isActionDone_def bindE_cases seqE_def whenE_def unlock_def set_lock_def ret_def)
qed

abbreviation done_line :: "'e rocdtc \<Rightarrow> uids \<Rightarrow> nat \<Rightarrow> string" where
  "done_line V U r \<equiv> roc_link V U r @ '', done with program from SPI action.'' @ [CHR 0x0A]"

lemma deaf_programmed:
  assumes "deaf V r" and "rs_locked s r" and "\<not> pp_done L r"
  shows "\<exists>s' L'. programmed_one V U r (True, L) s = (Ret (True, L'), s') \<and> rs_locked s' = (rs_locked s)(r := False)
     \<and> pp_done L' = (pp_done L)(r := True) \<and> pp_results L' = pp_results L @ done_line V U r"
proof -
  obtain s' where "isActionDone V r True True s = (Ret (True, Some 0), s')" "rs_locked s' = (rs_locked s)(r := False)"
    using deaf_done [OF assms(1,2)] by blast
  with assms(3) show ?thesis
    by (simp add: programmed_one_def look_programmed_def bindE_cases tryE_cases ret_def)
qed

lemma deaf_round:
  assumes "list_all (deaf V) ts" and "distinct ts" and "\<forall>r \<in> set ts. rs_locked s r \<and> \<not> pp_done L r"
  shows "\<exists>s' L'. foldE (programmed_one V U) ts (True, L) s = (Ret (True, L'), s')
     \<and> pp_results L' = pp_results L @ concat (map (done_line V U) ts)"
  using assms
proof (induction ts arbitrary: s L)
  case (Cons r ts)
  then have "deaf V r" "rs_locked s r" "\<not> pp_done L r" by simp_all
  then obtain s1 L1 where 1: "programmed_one V U r (True, L) s = (Ret (True, L1), s1)" "rs_locked s1 = (rs_locked s)(r := False)"
    "pp_done L1 = (pp_done L)(r := True)" "pp_results L1 = pp_results L @ done_line V U r"
    using deaf_programmed by blast
  have "\<forall>x \<in> set ts. rs_locked s1 x \<and> \<not> pp_done L1 x" using Cons.prems 1 by auto
  then obtain s' L' where "foldE (programmed_one V U) ts (True, L1) s1 = (Ret (True, L'), s')"
    "pp_results L' = pp_results L1 @ concat (map (done_line V U) ts)"
    using Cons.IH [of s1 L1] Cons.prems by auto
  then show ?case using 1 by (simp add: bindE_cases)
qed (simp add: ret_def)

lemma deaf_send: "deaf V r \<Longrightarrow> \<exists>s'. send_command V r w s = (Ret (), s') \<and> rs_locked s' = rs_locked s"
  unfolding send_command_def roc_writeBlock_def writeROCBlock_def
  by (rule dtc_call_value) (simp add: deaf_def)

lemma deaf_launch:
  assumes "list_all (deaf V) ts" and "distinct ts" and "\<forall>r \<in> set ts. \<not> rs_locked s r"
  shows "\<exists>s'. forE ts (\<lambda>r. programFromSPIByAddress V r a False) s = (Ret (), s') \<and> (\<forall>r \<in> set ts. rs_locked s' r)"
proof -
  have "\<exists>s'. foldE (\<lambda>r _. programFromSPIByAddress V r a False) ts () s = (Ret (), s')
      \<and> (\<forall>r. rs_locked s' r \<longleftrightarrow> rs_locked s r \<or> r \<in> set ts)" if "\<forall>r \<in> set ts. \<not> rs_locked s r" for s
    using assms(1,2) that
  proof (induction ts arbitrary: s)
    case (Cons r ts)
    let ?w = "prog_command ROC_ACTION_PROG_ADDR a"
    have "deaf V r" using Cons.prems(1) by simp
    then obtain s1 where "send_command V r ?w (set_lock r True s) = (Ret (), s1)" "rs_locked s1 = rs_locked (set_lock r True s)"
      using deaf_send by blast
    then have 1: "programFromSPIByAddress V r a False s = (Ret (), s1)" "rs_locked s1 = (rs_locked s)(r := True)"
      using Cons.prems(3) by (simp_all add: programFromSPIByAddress_def launch_action_def bindE_cases try_lock_def Let_def set_lock_def)
    have "\<forall>x \<in> set ts. \<not> rs_locked s1 x" using Cons.prems 1 by auto
    then obtain s2 where 2: "foldE (\<lambda>r _. programFromSPIByAddress V r a False) ts () s1 = (Ret (), s2)"
      "\<forall>r. rs_locked s2 r \<longleftrightarrow> rs_locked s1 r \<or> r \<in> set ts"
      using Cons.IH [of s1] Cons.prems(1,2) by auto
    have "foldE (\<lambda>r _. programFromSPIByAddress V r a False) (r # ts) () s = (Ret (), s2)"
      using 1 2 by (simp add: bindE_cases)
    moreover have "\<forall>x. rs_locked s2 x \<longleftrightarrow> rs_locked s x \<or> x \<in> set (r # ts)" using 1 2 by auto
    ultimately show ?case by blast
  qed (simp add: ret_def)
  then show ?thesis using assms(3) unfolding forE_def by blast
qed

lemma guard_value: "rd_fuel V = Suc n \<Longrightarrow> \<not> rs_locked s r \<Longrightarrow> fst (lock_guard V r m s) = fst (m (set_lock r True s))"
proof -
  assume V: "rd_fuel V = Suc n" and "\<not> rs_locked s r"
  then have s: "set_lock r False s = s" by (simp add: set_lock_def fun_upd_idem)
  have "V\<lparr>rd_fuel := Suc n\<rparr> = V" using V by simp
  then show ?thesis using lock_guard_free [where V = V and n = n and r = r and m = m and s = s] unfolding s by simp
qed

lemma deaf_is_done: "deaf V r \<Longrightarrow> \<exists>s'. is_done V r s = (Ret True, s')"
  using read_value [of V r ROC_ADDRESS_ACTION_DONE s] unfolding deaf_def is_done_eq
  by (fastforce simp: bindE_cases ret_def)

lemma deaf_waited:
  assumes "deaf V r" and "\<not> rs_locked s r" and "rd_fuel V = Suc n"
  shows "fst (programFromSPIByAddress V r a True s) = Throw
     (''Timeout waiting for programFromSPIByAddress command to be accepted (DONE stuck high)!'' @ [CHR 0x0A])"
proof -
  let ?w = "prog_command ROC_ACTION_PROG_ADDR a"
  let ?m = "''Timeout waiting for programFromSPIByAddress command to be accepted (DONE stuck high)!'' @ [CHR 0x0A]"
  have look: "\<exists>s'. bindE (is_done V r) (\<lambda>d. ret (if d = False then Inr () else Inl ())) x = (Ret (Inl ()), s')" for x
  proof -
    obtain y where "is_done V r x = (Ret True, y)" using deaf_is_done [OF assms(1)] by blast
    then show ?thesis by (simp add: bindE_cases ret_def)
  qed
  have late: "\<exists>u. await_done V r False 500 (throw ?m) t = throw ?m u" for t
    unfolding await_done_def by (rule poll_late) (rule look)
  obtain t where t: "send_command V r ?w (set_lock r True s) = (Ret (), t)"
    using deaf_send [OF assms(1)] by blast
  obtain u where u: "await_done V r False 500 (throw ?m) t = throw ?m u" using late by blast
  have "fst (run_action V r ?w 500 500 (throw ?m) l (fin :: ('a, u16) roc_eff) s) = Throw ?m" for l fin
    unfolding run_action_def guard_value [OF assms(3,2)] using t u by (simp add: seqE_def bindE_cases throw_def)
  then have run: "fst (run_action V r ?w 500 500 (throw ?m) l fin s) = Throw ?m" for l and fin :: "('a, u16) roc_eff" .
  have msg: "''Timeout waiting for '' @ ''programFromSPIByAddress'' @ '' command to be accepted (DONE stuck high)!'' @ [CHR 0x0A] = ?m"
    by simp
  show ?thesis
    unfolding programFromSPIByAddress_def program_action_def Let_def simp_thms if_False by (simp only: msg, rule throw_bindE, rule run)
qed

text \<open>
  C34. "done with program from SPI action" can be false: if every target ignores the command, its DONE still set
  from an earlier action, the program phase returns at the first look and reports each of them as programmed,
  where the waiting \<open>programFromSPIByAddress\<close> of the same ROC throws that the command was not accepted.
\<close>

theorem program_trusts_stale_done:
  assumes "list_all (deaf V) ts" and "distinct ts" and "\<forall>r \<in> set ts. \<not> rs_locked s r" and "rd_fuel V = Suc n"
  shows "fst (program_all V U ts a results s) = Ret (results @ concat (map (done_line V U) ts))
     \<and> list_all (\<lambda>r. fst (programFromSPIByAddress V r a True s) = Throw
         (''Timeout waiting for programFromSPIByAddress command to be accepted (DONE stuck high)!'' @ [CHR 0x0A])) ts"
proof
  let ?L = "\<lparr>pp_done = (\<lambda>_. False), pp_lost = (\<lambda>_. False), pp_status = None, pp_results = results\<rparr>"
  let ?late = "\<lambda>L :: program_poll. throw (''Timeout waiting for SPI flash program action! Check for more info with ROC Read to 128.'' @ [CHR 0x0A])"
  have "\<forall>r \<in> set ts. \<not> rs_locked (s\<lparr>rs_percent := rs_percent s @ [90]\<rparr>) r" using assms(3) by simp
  then obtain t where t: "forE ts (\<lambda>r. programFromSPIByAddress V r a False) (s\<lparr>rs_percent := rs_percent s @ [90]\<rparr>) = (Ret (), t)"
    "\<forall>r \<in> set ts. rs_locked t r"
    using deaf_launch [OF assms(1,2)] by blast
  then obtain u L where u: "foldE (programmed_one V U) ts (True, ?L) t = (Ret (True, L), u)"
    "pp_results L = results @ concat (map (done_line V U) ts)"
    using deaf_round [OF assms(1,2), of t ?L U] by auto
  have "poll_all k (\<lambda>L. foldE (programmed_one V U) ts (True, L)) p ?late ?L t = (Ret L, u)" for k p
    using u(1) by (cases k) (simp_all add: bindE_cases ret_def)
  then show "fst (program_all V U ts a results s) = Ret (results @ concat (map (done_line V U) ts))"
    using t(1) u(2) by (simp add: program_all_def seqE_def bindE_cases set_percent_def modify_def ret_def)
  have "fst (programFromSPIByAddress V r a True s) = Throw
         (''Timeout waiting for programFromSPIByAddress command to be accepted (DONE stuck high)!'' @ [CHR 0x0A])"
    if "deaf V r" "\<not> rs_locked s r" for r
    by (rule deaf_waited [OF that assms(4)])
  then show "list_all (\<lambda>r. fst (programFromSPIByAddress V r a True s) = Throw
         (''Timeout waiting for programFromSPIByAddress command to be accepted (DONE stuck high)!'' @ [CHR 0x0A])) ts"
    using assms(1,3) by (simp add: list_all_iff)
qed

text \<open>One ROC that ignores what it is sent, with DONE set and status zero.\<close>

definition deaf_roc :: "unit rocdtc" where
  "deaf_roc = busy_roc\<lparr>rd_ReadROCRegister := (\<lambda>_ a _ e. (Inr (if a = 128 then 0x8000 else 0), e))\<rparr>"

theorem program_trusts_stale_done_witness:
  "fst (program_all deaf_roc [''ROC0''] [0] 0x1010000 [] idle_rocs)
     = Ret ([] @ concat (map (\<lambda>r. roc_link deaf_roc [''ROC0''] r @ '', done with program from SPI action.'' @ [CHR 0x0A]) [0]))"
proof -
  have "bit (0x8000 :: u16) 15" by simp
  then have "deaf deaf_roc 0"
    by (simp add: deaf_def deaf_roc_def busy_roc_def ROC_ADDRESS_ACTION_DONE_def ROC_ADDRESS_ACTION_STATUS_def)
  then show ?thesis
    by (intro program_trusts_stale_done [where n = 6, THEN conjunct1]) (simp_all add: idle_rocs_def deaf_roc_def busy_roc_def)
qed

end
