(* ===== verification/Program_Locks.thy ===== *)
theory Program_Locks
  imports Program_Verified
begin

section \<open>The action locks through the phases of Program ROCs\<close>

text \<open>
  Each phase takes the action locks of all its targets and gives them back: when it returns all are free, when it
  throws all but at most one, the lock of a ROC whose command could not be written. \<open>delivers P m Q E\<close> is total
  correctness with exceptions: from \<open>P\<close>, the effect returns into \<open>Q\<close> or throws into \<open>E\<close>.
\<close>

subsection \<open>Total correctness with exceptions\<close>

definition delivers :: "('s \<Rightarrow> bool) \<Rightarrow> ('s, 'a) eff \<Rightarrow> ('a \<Rightarrow> 's \<Rightarrow> bool) \<Rightarrow> ('s \<Rightarrow> bool) \<Rightarrow> bool" where
  "delivers P m Q E \<longleftrightarrow> (\<forall>s. P s \<longrightarrow> (case fst (m s) of Ret a \<Rightarrow> Q a (snd (m s)) | Throw _ \<Rightarrow> E (snd (m s)) | _ \<Rightarrow> False))"

lemma totalD:
  "delivers P m Q E \<Longrightarrow> P s \<Longrightarrow> (\<exists>a. fst (m s) = Ret a \<and> Q a (snd (m s))) \<or> (\<exists>e. fst (m s) = Throw e \<and> E (snd (m s)))"
  unfolding delivers_def by (cases "fst (m s)") fastforce+

lemma totalI:
  "(\<And>s. P s \<Longrightarrow> (\<exists>a. fst (m s) = Ret a \<and> Q a (snd (m s))) \<or> (\<exists>e. fst (m s) = Throw e \<and> E (snd (m s)))) \<Longrightarrow> delivers P m Q E"
  unfolding delivers_def by (auto split: outcome.split) fastforce+

lemma total_bindE:
  assumes "delivers P m R E" and "\<And>a. delivers (R a) (k a) Q E"
  shows "delivers P (bindE m k) Q E"
proof (rule totalI)
  fix s assume "P s"
  from totalD [OF assms(1) this]
  show "(\<exists>a. fst (bindE m k s) = Ret a \<and> Q a (snd (bindE m k s))) \<or> (\<exists>e. fst (bindE m k s) = Throw e \<and> E (snd (bindE m k s)))"
    using totalD [OF assms(2)] by (fastforce simp: bindE_cases)
qed

lemma total_seqE: "delivers P m (\<lambda>_. R) E \<Longrightarrow> delivers R k Q E \<Longrightarrow> delivers P (seqE m k) Q E"
  unfolding seqE_def by (rule total_bindE)

lemma total_ret: "(\<And>s. P s \<Longrightarrow> Q a s) \<Longrightarrow> delivers P (ret a) Q E"
  by (simp add: delivers_def ret_def)

lemma total_throw: "(\<And>s. P s \<Longrightarrow> E s) \<Longrightarrow> delivers P (throw m) Q E"
  by (simp add: delivers_def throw_def)

lemma total_modify: "(\<And>s. P s \<Longrightarrow> Q () (f s)) \<Longrightarrow> delivers P (modify f) Q E"
  by (simp add: delivers_def modify_def)

lemma total_if: "(b \<Longrightarrow> delivers P m Q E) \<Longrightarrow> (\<not> b \<Longrightarrow> delivers P n Q E) \<Longrightarrow> delivers P (if b then m else n) Q E"
  by simp

lemma total_tryE:
  assumes "delivers P m Q F" and "\<And>e. delivers F (h e) Q E"
  shows "delivers P (tryE m h) Q E"
proof (rule totalI)
  fix s assume "P s"
  from totalD [OF assms(1) this]
  show "(\<exists>a. fst (tryE m h s) = Ret a \<and> Q a (snd (tryE m h s))) \<or> (\<exists>e. fst (tryE m h s) = Throw e \<and> E (snd (tryE m h s)))"
    using totalD [OF assms(2)] by (fastforce simp: tryE_cases)
qed

lemma total_weaken:
  "delivers P m Q E \<Longrightarrow> (\<And>s. P' s \<Longrightarrow> P s) \<Longrightarrow> (\<And>a s. Q a s \<Longrightarrow> Q' a s) \<Longrightarrow> (\<And>s. E s \<Longrightarrow> E' s) \<Longrightarrow> delivers P' m Q' E'"
  unfolding delivers_def by (fastforce split: outcome.splits)

text \<open>A loop over a list, with an invariant of the elements gone through.\<close>

lemma total_foldE:
  assumes "\<And>xs x ys acc. zs = xs @ x # ys \<Longrightarrow> delivers (I xs acc) (f x acc) (I (xs @ [x])) E"
  shows "delivers (I [] acc) (foldE f zs acc) (I zs) E"
proof -
  have "delivers (I xs acc) (foldE f ys acc) (I (xs @ ys)) E" if "zs = xs @ ys" for xs ys acc
    using that
  proof (induction ys arbitrary: xs acc)
    case Nil
    then show ?case by (auto intro: total_ret)
  next
    case (Cons y ys)
    have "delivers (I (xs @ [y]) b) (foldE f ys b) (I ((xs @ [y]) @ ys)) E" for b
      by (rule Cons.IH) (simp add: Cons.prems)
    then show ?case using assms [OF Cons.prems] by (auto intro: total_bindE)
  qed
  from this [of "[]" zs acc] show ?thesis by simp
qed

lemma total_poll_all:
  assumes "\<And>acc. delivers (I acc) (round acc) (\<lambda>(all, acc) s. I acc s \<and> (all \<longrightarrow> Q acc s)) E"
    and "\<And>acc. delivers (I acc) pause (\<lambda>_. I acc) E" and "\<And>acc. delivers (I acc) (late acc) Q E"
  shows "delivers (I acc) (poll_all k round pause late acc) Q E"
proof (induction k arbitrary: acc)
  case 0
  show ?case
    by (simp, rule total_bindE [OF assms(1)])
      (auto intro!: total_ret total_weaken [OF assms(3)])
next
  case (Suc k)
  show ?case
    by (simp, rule total_bindE [OF assms(1)])
      (auto intro!: total_ret total_seqE [OF total_weaken [OF assms(2)] Suc])
qed

subsection \<open>Effects that leave the locks alone\<close>

definition calm :: "('e, 'a) roc_eff \<Rightarrow> bool" where
  "calm m \<longleftrightarrow> (\<forall>s. fst (m s) \<noteq> Undef \<and> fst (m s) \<noteq> Spin \<and> rs_locked (snd (m s)) = rs_locked s \<and> rs_held (snd (m s)) = rs_held s)"

named_theorems calm_intros \<open>an effect ends and leaves the locks alone\<close>

lemma calm_combinators [calm_intros]:
  "calm (ret a)" "calm (throw e)"
  "calm m \<Longrightarrow> (\<And>a. calm (k a)) \<Longrightarrow> calm (bindE m k)"
  "calm n1 \<Longrightarrow> calm n2 \<Longrightarrow> calm (seqE n1 n2)"
  "calm n1 \<Longrightarrow> calm (whenE b n1)"
  "(b \<Longrightarrow> calm m) \<Longrightarrow> (\<not> b \<Longrightarrow> calm m') \<Longrightarrow> calm (if b then m else m')"
  "(\<And>u v. p = (u, v) \<Longrightarrow> calm (g u v)) \<Longrightarrow> calm (case_prod g p)"
  unfolding calm_def
  by (auto simp: ret_def throw_def seqE_def whenE_def bindE_cases split: outcome.split prod.split)

lemma calm_foldE [calm_intros]: "(\<And>x acc. x \<in> set xs \<Longrightarrow> calm (f x acc)) \<Longrightarrow> calm (foldE f xs acc)"
  by (induction xs arbitrary: acc) (simp_all add: calm_intros)

lemma calm_call: "calm (dtc_call f ev)"
  by (auto simp: calm_def dtc_call_def split: prod.split sum.split)

lemma calm_calls [calm_intros]:
  "calm (roc_readRegister V r a)" "calm (send_command V r w)" "calm (roc_usleep V us)"
  "calm (is_done V r)" "calm (read_size V r)" "calm (roc_readBlock V r d a n inc)" "calm (set_percent p)"
proof -
  show "calm (roc_readRegister V r a)" "calm (send_command V r w)" "calm (is_done V r)" "calm (read_size V r)"
    "calm (roc_readBlock V r d a n inc)"
    unfolding is_done_eq read_size_def roc_readRegister_def readROCRegister_def send_command_def roc_writeBlock_def writeROCBlock_def
      roc_readBlock_def readROCBlock_def tryE_rethrow
    by (intro calm_intros calm_call)+
  show "calm (roc_usleep V us)" "calm (set_percent p)"
    by (simp_all add: calm_def roc_usleep_def set_percent_def modify_def)
qed

lemma calm_poll [calm_intros]: "calm look \<Longrightarrow> (\<And>b. calm (late b)) \<Longrightarrow> calm (poll V k look late)"
  by (induction k) (auto intro!: calm_intros split: sum.split)

lemma calm_poll_all [calm_intros]:
  "(\<And>acc. calm (round acc)) \<Longrightarrow> calm pause \<Longrightarrow> (\<And>acc. calm (late acc)) \<Longrightarrow> calm (poll_all k round pause late acc)"
  by (induction k arbitrary: acc) (auto intro!: calm_intros)

text \<open>The ROC of the last access, if that was a command that could not be sent.\<close>

definition unsent :: "'e rocstate \<Rightarrow> nat option" where
  "unsent s = (case rs_hist s of
       RocWriteBlock r w a (Inl m) # _ \<Rightarrow> if a = ROC_ADDRESS_ACTION_COMMAND then Some r else None
     | _ \<Rightarrow> None)"

text \<open>A predicate on that, the locks and the map of held locks.\<close>

definition on_access :: "(nat option \<Rightarrow> (nat \<Rightarrow> bool) \<Rightarrow> (nat \<Rightarrow> bool) \<Rightarrow> bool) \<Rightarrow> 'e rocstate \<Rightarrow> bool" where
  "on_access P s \<longleftrightarrow> P (unsent s) (rs_locked s) (rs_held s)"

abbreviation on_locks :: "((nat \<Rightarrow> bool) \<Rightarrow> (nat \<Rightarrow> bool) \<Rightarrow> bool) \<Rightarrow> 'e rocstate \<Rightarrow> bool" where
  "on_locks P \<equiv> on_access (\<lambda>_. P)"

lemma unsent_upd [simp]: "unsent (s\<lparr>rs_locked := l\<rparr>) = unsent s" "unsent (s\<lparr>rs_held := h\<rparr>) = unsent s"
  by (simp_all add: unsent_def)

lemma total_calm: "calm m \<Longrightarrow> (\<And>u l h. P l h \<Longrightarrow> E u l h) \<Longrightarrow> delivers (on_locks P) m (\<lambda>_. on_locks P) (on_access E)"
  unfolding delivers_def calm_def on_access_def by (auto split: outcome.split)

lemma total_unlock: "(\<And>l h. P l h \<Longrightarrow> l r \<and> Q (l(r := False)) h) \<Longrightarrow> delivers (on_locks P) (unlock r) (\<lambda>_. on_locks Q) E"
  by (auto simp: delivers_def on_access_def unlock_def set_lock_def)

lemma total_held: "(\<And>l h. P l h \<Longrightarrow> Q l (h(r := b))) \<Longrightarrow> delivers (on_locks P) (set_held r b) (\<lambda>_. on_locks Q) E"
  by (auto simp: delivers_def on_access_def set_held_def modify_def)

lemma send_fails: "fst (send_command V r w s) = Throw e \<Longrightarrow> unsent (snd (send_command V r w s)) = Some r"
  by (auto simp: send_command_def roc_writeBlock_def writeROCBlock_def dtc_call_def unsent_def split: prod.splits sum.splits)

lemma total_launch:
  assumes "\<And>l h. P l h \<Longrightarrow> \<not> l r \<and> Q (l(r := True)) h \<and> E (Some r) (l(r := True)) h"
  shows "delivers (on_locks P) (launch_action V r w) (\<lambda>_. on_locks Q) (on_access E)"
proof -
  have "calm (send_command V r w)" by (rule calm_calls)
  then show ?thesis
    using assms unfolding delivers_def calm_def on_access_def launch_action_def try_lock_def
    by (auto simp: bindE_cases set_lock_def send_fails split: outcome.split)
qed

subsection \<open>The locks held by a phase\<close>

text \<open>\<open>X\<close> is the set of targets whose lock the phase holds; \<open>l0\<close> are the locks before the phase.\<close>

definition holds :: "(nat \<Rightarrow> bool) \<Rightarrow> nat set \<Rightarrow> (nat \<Rightarrow> bool) \<Rightarrow> (nat \<Rightarrow> bool) \<Rightarrow> bool" where
  "holds l0 X l h \<longleftrightarrow> (\<forall>x. l x \<longleftrightarrow> l0 x \<or> x \<in> X) \<and> (\<forall>x. h x \<longleftrightarrow> x \<in> X)"

text \<open>When an exception leaves the body (where \<open>b\<close> permits a failed launch), and when it leaves the phase.\<close>

definition few :: "bool \<Rightarrow> nat list \<Rightarrow> nat option \<Rightarrow> nat set \<Rightarrow> bool" where
  "few b ts u L \<longleftrightarrow> L = {} \<or> (b \<and> (\<exists>r \<in> set ts. u = Some r \<and> L = {r}))"

definition thrown :: "bool \<Rightarrow> (nat \<Rightarrow> bool) \<Rightarrow> nat list \<Rightarrow> nat option \<Rightarrow> (nat \<Rightarrow> bool) \<Rightarrow> (nat \<Rightarrow> bool) \<Rightarrow> bool" where
  "thrown b l0 ts u l h \<longleftrightarrow> (\<exists>X L. X \<subseteq> set ts \<and> few b ts u L \<and> X \<inter> L = {} \<and> (\<forall>x. l x \<longleftrightarrow> l0 x \<or> x \<in> X \<or> x \<in> L) \<and> (\<forall>x. h x \<longleftrightarrow> x \<in> X))"

definition leaked :: "bool \<Rightarrow> (nat \<Rightarrow> bool) \<Rightarrow> nat list \<Rightarrow> nat option \<Rightarrow> (nat \<Rightarrow> bool) \<Rightarrow> (nat \<Rightarrow> bool) \<Rightarrow> bool" where
  "leaked b l0 ts u l h \<longleftrightarrow> (\<exists>L. few b ts u L \<and> (\<forall>x. l x \<longleftrightarrow> l0 x \<or> x \<in> L))"

lemma holds_thrown: "holds l0 X l h \<Longrightarrow> X \<subseteq> set ts \<Longrightarrow> thrown b l0 ts u l h"
  unfolding holds_def thrown_def few_def by (intro exI [of _ X] exI [of _ "{}"]) simp

lemma clear_held_total:
  assumes "distinct ts" and "\<forall>r \<in> set ts. \<not> l0 r"
  shows "delivers (on_access (thrown b l0 ts)) (clear_held ts) (\<lambda>_. on_access (leaked b l0 ts)) E"
proof -
  define J where "J xs u l h X L \<longleftrightarrow> X \<subseteq> set ts \<and> few b ts u L \<and> X \<inter> L = {} \<and> (\<forall>x. l x \<longleftrightarrow> l0 x \<or> (x \<in> X \<and> x \<notin> set xs) \<or> x \<in> L) \<and> (\<forall>x. h x \<longleftrightarrow> x \<in> X)"
    for xs u l h X L
  define I where "I xs u l h \<longleftrightarrow> (\<exists>X L. J xs u l h X L)" for xs u l h
  have step: "delivers (on_access (I xs)) (bindE (gets (\<lambda>s. rs_held s x)) (\<lambda>h. whenE h (forceClearActionLock x))) (\<lambda>_. on_access (I (xs @ [x]))) E"
    if ts: "ts = xs @ x # ys" for xs x ys
  proof -
    have x: "x \<notin> set xs" "\<not> l0 x" using assms ts by auto
    have held: "l x \<and> I (xs @ [x]) u (l(x := False)) h" if I: "I xs u l h" and hx: "h x" for u l h
    proof -
      obtain X L where X: "J xs u l h X L" using I unfolding I_def by blast
      then have "x \<in> X" "x \<notin> L" using hx by (auto simp: J_def)
      then have "l x" "J (xs @ [x]) u (l(x := False)) h X L" using X x by (auto simp: J_def)
      then show ?thesis unfolding I_def by blast
    qed
    have free: "I (xs @ [x]) u l h" if I: "I xs u l h" and hx: "\<not> h x" for u l h
    proof -
      obtain X L where X: "J xs u l h X L" using I unfolding I_def by blast
      then have "x \<notin> X" using hx by (auto simp: J_def)
      then have "J (xs @ [x]) u l h X L" using X by (auto simp: J_def)
      then show ?thesis unfolding I_def by blast
    qed
    have "(\<exists>a. fst (bindE (gets (\<lambda>s. rs_held s x)) (\<lambda>h. whenE h (forceClearActionLock x)) s) = Ret a
        \<and> on_access (I (xs @ [x])) (snd (bindE (gets (\<lambda>s. rs_held s x)) (\<lambda>h. whenE h (forceClearActionLock x)) s)))"
      if "on_access (I xs) s" for s :: "'b rocstate"
      using that held [of "unsent s" "rs_locked s" "rs_held s"] free [of "unsent s" "rs_locked s" "rs_held s"]
      by (cases "rs_held s x") (auto simp: on_access_def bindE_def gets_def whenE_def forceClearActionLock_def unlock_def set_lock_def ret_def)
    then show ?thesis by (intro totalI) blast
  qed
  have "delivers (on_access (I [])) (clear_held ts) (\<lambda>_. on_access (I ts)) E"
    unfolding clear_held_def forE_def by (rule total_foldE [where I = "\<lambda>xs _. on_access (I xs)"]) (rule step)
  then show ?thesis
    by (rule total_weaken) (auto simp: on_access_def I_def J_def thrown_def leaked_def)
qed

lemma holding_total:
  assumes "distinct ts" and "\<forall>r \<in> set ts. \<not> l0 r"
    and "delivers (on_locks (holds l0 {})) m (\<lambda>_. on_locks (holds l0 {})) (on_access (thrown b l0 ts))"
  shows "delivers (\<lambda>s. rs_locked s = l0) (holding_locks ts m) (\<lambda>_ s. rs_locked s = l0) (on_access (leaked b l0 ts))"
  unfolding holding_locks_def
proof (rule total_seqE [where R = "on_locks (holds l0 {})"])
  show "delivers (\<lambda>s. rs_locked s = l0) (modify (\<lambda>s. s\<lparr>rs_held := (\<lambda>_. False)\<rparr>)) (\<lambda>_. on_locks (holds l0 {})) (on_access (leaked b l0 ts))"
    by (rule total_modify) (simp add: on_access_def holds_def)
  have "delivers (on_access (thrown b l0 ts)) (seqE (clear_held ts) (throw e)) Q (on_access (leaked b l0 ts))" for e and Q :: "'b \<Rightarrow> 'a rocstate \<Rightarrow> bool"
    by (rule total_seqE [OF clear_held_total [OF assms(1,2)]]) (rule total_throw)
  then have "delivers (on_locks (holds l0 {})) (tryE m (\<lambda>e. seqE (clear_held ts) (throw e))) (\<lambda>_. on_locks (holds l0 {})) (on_access (leaked b l0 ts))"
    by (intro total_tryE [OF assms(3)])
  then show "delivers (on_locks (holds l0 {})) (tryE m (\<lambda>e. seqE (clear_held ts) (throw e))) (\<lambda>_ s. rs_locked s = l0) (on_access (leaked b l0 ts))"
    by (rule total_weaken) (auto simp: on_access_def holds_def fun_eq_iff)
qed

subsection \<open>The bodies of the phases\<close>

lemma launch_all_total:
  assumes "distinct ts" and "\<forall>r \<in> set ts. \<not> l0 r"
    and launch: "\<And>r X. r \<in> set ts \<Longrightarrow> r \<notin> X \<Longrightarrow> X \<subseteq> set ts \<Longrightarrow>
      delivers (on_locks (holds l0 X)) (f r) (\<lambda>_. on_locks (\<lambda>l h. (\<forall>x. l x \<longleftrightarrow> l0 x \<or> x \<in> insert r X) \<and> (\<forall>x. h x \<longleftrightarrow> x \<in> X))) (on_access (thrown b l0 ts))"
  shows "delivers (on_locks (holds l0 {})) (launch_all ts f) (\<lambda>_. on_locks (holds l0 (set ts))) (on_access (thrown b l0 ts))"
proof -
  have "delivers (on_locks (holds l0 (set []))) (launch_all ts f) (\<lambda>_. on_locks (holds l0 (set ts))) (on_access (thrown b l0 ts))"
    unfolding launch_all_def forE_def
  proof (rule total_foldE [where I = "\<lambda>xs _. on_locks (holds l0 (set xs))"])
    fix xs x ys assume ts: "ts = xs @ x # ys"
    then have x: "x \<in> set ts" "x \<notin> set xs" "set xs \<subseteq> set ts" using assms(1) by auto
    show "delivers (on_locks (holds l0 (set xs))) (seqE (f x) (set_held x True)) (\<lambda>_. on_locks (holds l0 (set (xs @ [x])))) (on_access (thrown b l0 ts))"
      by (rule total_seqE [OF launch [OF x]], rule total_held) (auto simp: holds_def)
  qed
  then show ?thesis by simp
qed

lemma launch_action_total:
  assumes "\<not> l0 r" and "r \<in> set ts" and "r \<notin> X" and "X \<subseteq> set ts"
  shows "delivers (on_locks (holds l0 X)) (launch_action V r w)
     (\<lambda>_. on_locks (\<lambda>l h. (\<forall>x. l x \<longleftrightarrow> l0 x \<or> x \<in> insert r X) \<and> (\<forall>x. h x \<longleftrightarrow> x \<in> X))) (on_access (thrown True l0 ts))"
proof (rule total_launch)
  fix l h assume "holds l0 X l h"
  then have *: "\<forall>x. l x \<longleftrightarrow> l0 x \<or> x \<in> X" "\<forall>x. h x \<longleftrightarrow> x \<in> X" by (simp_all add: holds_def)
  moreover have "thrown True l0 ts (Some r) (l(r := True)) h"
    unfolding thrown_def few_def using * assms by (intro exI [of _ X] exI [of _ "{r}"]) auto
  ultimately show "\<not> l r \<and> ((\<forall>x. (l(r := True)) x \<longleftrightarrow> l0 x \<or> x \<in> insert r X) \<and> (\<forall>x. h x \<longleftrightarrow> x \<in> X)) \<and> thrown True l0 ts (Some r) (l(r := True)) h"
    using assms(1,3) by auto
qed

lemma calm_accepted: "calm (await_accepted V U ts what)"
  unfolding await_accepted_def accepted_one_def by (intro calm_intros)

text \<open>Looking for the end of the action of a target, whose lock is given back when it is found.\<close>

lemma isActionDone_total:
  assumes "\<And>u l h. P l h \<Longrightarrow> E u l h" and "\<And>l h. P l h \<Longrightarrow> l r \<and> Q (l(r := False)) h"
  shows "delivers (on_locks P) (isActionDone V r w True) (\<lambda>(d, _). on_locks (if d then Q else P)) (on_access E)"
  unfolding isActionDone_def Let_def
proof (rule total_bindE [OF total_calm [OF calm_calls(1) assms(1)]])
  fix v :: u16
  have "delivers (on_locks P) (if bit v 15 \<and> w then bindE (roc_readRegister V r ROC_ADDRESS_ACTION_STATUS) (\<lambda>x. ret (Some x)) else ret None)
     (\<lambda>_. on_locks P) (on_access E)"
    by (rule total_calm [OF _ assms(1)]) (intro calm_intros)
  then show "delivers (on_locks P) (bindE (if bit v 15 \<and> w then bindE (roc_readRegister V r ROC_ADDRESS_ACTION_STATUS) (\<lambda>x. ret (Some x)) else ret None)
     (\<lambda>st. seqE (whenE (bit v 15 \<and> True) (unlock r)) (ret (bit v 15, st)))) (\<lambda>(d, _). on_locks (if d then Q else P)) (on_access E)"
    by (rule total_bindE)
      (cases "bit v 15"; auto simp: whenE_def seqE_def intro!: total_bindE [OF total_unlock [OF assms(2)]] total_ret)
qed

abbreviation running :: "nat list \<Rightarrow> flags \<Rightarrow> nat set" where
  "running ts m \<equiv> {x \<in> set ts. \<not> m x}"

lemma found_done:
  assumes "\<forall>r \<in> set ts. \<not> l0 r" and "x \<in> running ts m"
  shows "delivers (on_locks (holds l0 (running ts m))) (bindE (isActionDone V x w True) (\<lambda>(d, st).
           if d then seqE (set_held x False) (ret (a st)) else ret c))
     (\<lambda>k s. (\<exists>st. k = a st \<and> on_locks (holds l0 (running ts (m(x := True)))) s) \<or> (k = c \<and> on_locks (holds l0 (running ts m)) s))
     (on_access (thrown b l0 ts))"
proof -
  have *: "l x \<and> (\<forall>y. (l(x := False)) y \<longleftrightarrow> l0 y \<or> y \<in> running ts (m(x := True))) \<and> (\<forall>y. h y \<longleftrightarrow> y \<in> running ts m)"
    if "holds l0 (running ts m) l h" for l h
    using that assms by (auto simp: holds_def)
  have "holds l0 (running ts (m(x := True))) l (h(x := False))"
    if "(\<forall>y. l y \<longleftrightarrow> l0 y \<or> y \<in> running ts (m(x := True))) \<and> (\<forall>y. h y \<longleftrightarrow> y \<in> running ts m)" for l h
    using that by (auto simp: holds_def)
  then have held: "delivers (on_locks (\<lambda>l h. (\<forall>y. l y \<longleftrightarrow> l0 y \<or> y \<in> running ts (m(x := True))) \<and> (\<forall>y. h y \<longleftrightarrow> y \<in> running ts m)))
      (set_held x False) (\<lambda>_. on_locks (holds l0 (running ts (m(x := True))))) (on_access (thrown b l0 ts))"
    by (rule total_held)
  show ?thesis
  proof (rule total_bindE [OF isActionDone_total [OF holds_thrown *]])
    fix p :: "bool \<times> u16 option"
    show "delivers ((case p of (d, _) \<Rightarrow> on_locks (if d then (\<lambda>l h. (\<forall>y. l y \<longleftrightarrow> l0 y \<or> y \<in> running ts (m(x := True))) \<and> (\<forall>y. h y \<longleftrightarrow> y \<in> running ts m))
            else holds l0 (running ts m))))
       (case p of (d, st) \<Rightarrow> if d then seqE (set_held x False) (ret (a st)) else ret c)
       (\<lambda>k s. (\<exists>st. k = a st \<and> on_locks (holds l0 (running ts (m(x := True)))) s) \<or> (k = c \<and> on_locks (holds l0 (running ts m)) s))
       (on_access (thrown b l0 ts))"
    proof (cases p)
      case (Pair d st)
      show ?thesis
      proof (cases d)
        case True
        then have d: "d = True" by simp
        show ?thesis unfolding Pair d prod.case if_True by (rule total_seqE [OF held], rule total_ret) blast
      next
        case False
        then have d: "d = False" by simp
        show ?thesis unfolding Pair d prod.case if_False by (rule total_ret) blast
      qed
    qed
  qed auto
qed

text \<open>A round over all targets: \<open>fl\<close> are the flags of the local variables \<open>A\<close>, set by \<open>upd\<close>.\<close>

lemma done_round:
  assumes free: "\<forall>r \<in> set ts. \<not> l0 r"
    and one: "\<And>x all A. one x (all, A) = (if fl A x then ret (all, A)
       else bindE (isActionDone V x w True) (\<lambda>(d, st). if d then seqE (set_held x False) (ret (all, upd A x st)) else ret (False, A)))"
    and upd: "\<And>A x st. fl (upd A x st) = (fl A)(x := True)"
  shows "delivers (on_locks (holds l0 (running ts (fl A)))) (foldE one ts (True, A))
     (\<lambda>(all, A) s. on_locks (holds l0 (running ts (fl A))) s \<and> (all \<longrightarrow> on_locks (holds l0 {}) s)) (on_access (thrown b l0 ts))"
proof -
  define I where "I xs p s \<longleftrightarrow> on_locks (holds l0 (running ts (fl (snd p)))) s \<and> (fst p \<longrightarrow> (\<forall>x \<in> set xs. fl (snd p) x))"
    for xs and p :: "bool \<times> 'a" and s :: "'b rocstate"
  have step: "delivers (I xs p) (one x p) (I (xs @ [x])) (on_access (thrown b l0 ts))" if ts: "ts = xs @ x # ys" for xs x ys p
  proof (rule totalI)
    fix s assume I: "I xs p s"
    obtain all A where p: "p = (all, A)" by (cases p)
    show "(\<exists>a. fst (one x p s) = Ret a \<and> I (xs @ [x]) a (snd (one x p s))) \<or> (\<exists>e. fst (one x p s) = Throw e \<and> on_access (thrown b l0 ts) (snd (one x p s)))"
    proof (cases "fl A x")
      case True
      then show ?thesis using I by (simp add: p one ret_def I_def)
    next
      case False
      then have x: "x \<in> running ts (fl A)" using ts by simp
      have "on_locks (holds l0 (running ts (fl A))) s" using I by (simp add: I_def p)
      from totalD [OF found_done [OF free x, where V = V and w = w and a = "\<lambda>st. (all, upd A x st)" and c = "(False, A)" and b = b] this]
      show ?thesis
        using False I unfolding p one by (auto simp: I_def upd)
    qed
  qed
  have "delivers (I [] (True, A)) (foldE one ts (True, A)) (I ts) (on_access (thrown b l0 ts))"
    by (rule total_foldE) (rule step)
  then show ?thesis
  proof (rule total_weaken)
    fix p s assume I: "I ts p s"
    obtain all A' where p: "p = (all, A')" by (cases p)
    have none: "running ts (fl A') = {}" if all using I that by (auto simp: I_def p)
    show "(case p of (all, A) \<Rightarrow> \<lambda>s. on_locks (holds l0 (running ts (fl A))) s \<and> (all \<longrightarrow> on_locks (holds l0 {}) s)) s"
    proof (cases all)
      case True
      then show ?thesis using I none [OF True] by (simp only: I_def p fst_conv snd_conv prod.case) simp
    next
      case False
      then show ?thesis using I by (simp add: I_def p)
    qed
  qed (simp_all add: I_def on_access_def)
qed

lemma running_none: "running ts (\<lambda>_. False) = set ts"
  by auto

text \<open>Polling until every target is done; the time-out only throws.\<close>

lemma await_all_total:
  assumes "\<forall>r \<in> set ts. \<not> l0 r"
    and "\<And>x all A. one x (all, A) = (if fl A x then ret (all, A)
       else bindE (isActionDone V x w True) (\<lambda>(d, st). if d then seqE (set_held x False) (ret (all, upd A x st)) else ret (False, A)))"
    and "\<And>A x st. fl (upd A x st) = (fl A)(x := True)" and "fl A = (\<lambda>_. False)"
  shows "delivers (on_locks (holds l0 (set ts))) (poll_all k (\<lambda>A. foldE one ts (True, A)) (roc_usleep V us) (\<lambda>A. throw (late A)) A)
     (\<lambda>_. on_locks (holds l0 {})) (on_access (thrown b l0 ts))"
proof -
  have "delivers (on_locks (holds l0 (running ts (fl A)))) (poll_all k (\<lambda>A. foldE one ts (True, A)) (roc_usleep V us) (\<lambda>A. throw (late A)) A)
     (\<lambda>_. on_locks (holds l0 {})) (on_access (thrown b l0 ts))"
  proof (rule total_poll_all [where I = "\<lambda>A. on_locks (holds l0 (running ts (fl A)))" and Q = "\<lambda>_. on_locks (holds l0 {})"])
    fix acc
    have out: "thrown b l0 ts u l h" if "holds l0 (running ts (fl acc)) l h" for u l h
      by (rule holds_thrown [OF that]) auto
    show "delivers (on_locks (holds l0 (running ts (fl acc)))) (roc_usleep V us) (\<lambda>_. on_locks (holds l0 (running ts (fl acc)))) (on_access (thrown b l0 ts))"
      by (rule total_calm [OF calm_calls(3)]) (rule out)
    show "delivers (on_locks (holds l0 (running ts (fl acc)))) (throw (late acc)) (\<lambda>_. on_locks (holds l0 {})) (on_access (thrown b l0 ts))"
      by (rule total_throw) (use out in \<open>simp add: on_access_def\<close>)
  qed (rule done_round [OF assms(1-3)])
  then show ?thesis unfolding assms(4) running_none .
qed

lemma held_calm:
  "calm m \<Longrightarrow> X \<subseteq> set ts \<Longrightarrow> delivers (on_locks (holds l0 X)) m (\<lambda>_. on_locks (holds l0 X)) (on_access (thrown b l0 ts))"
  by (rule total_calm) (auto intro: holds_thrown)

lemma held_gone: "X \<subseteq> set ts \<Longrightarrow> delivers (on_locks (holds l0 X)) (throw e) Q (on_access (thrown b l0 ts))"
  by (rule total_throw) (auto simp: on_access_def intro: holds_thrown)

lemma launch_actions_total:
  assumes "distinct ts" and "\<forall>r \<in> set ts. \<not> l0 r"
    and f: "\<And>r. f r = seqE (whenE early (throw e)) (launch_action V r w)"
  shows "delivers (on_locks (holds l0 {})) (launch_all ts f) (\<lambda>_. on_locks (holds l0 (set ts))) (on_access (thrown True l0 ts))"
proof (rule launch_all_total [OF assms(1,2)])
  fix r X assume r: "r \<in> set ts" "r \<notin> X" "X \<subseteq> set ts"
  then have "\<not> l0 r" using assms(2) by blast
  then show "delivers (on_locks (holds l0 X)) (f r) (\<lambda>_. on_locks (\<lambda>l h. (\<forall>x. l x \<longleftrightarrow> l0 x \<or> x \<in> insert r X) \<and> (\<forall>x. h x \<longleftrightarrow> x \<in> X))) (on_access (thrown True l0 ts))"
    unfolding f by (intro total_seqE [OF held_calm launch_action_total] calm_intros r)
qed

lemma erase_all_total:
  assumes "distinct ts" and "\<forall>r \<in> set ts. \<not> l0 r"
  shows "delivers (\<lambda>s. rs_locked s = l0) (erase_all V U ts c a) (\<lambda>_ s. rs_locked s = l0) (on_access (leaked True l0 ts))"
  unfolding erase_all_def
proof (rule holding_total [OF assms])
  have "delivers (on_locks (holds l0 {})) (launch_all ts (\<lambda>r. eraseSPIFlashBlock V r (word_of_nat (length c)) a False))
     (\<lambda>_. on_locks (holds l0 (set ts))) (on_access (thrown True l0 ts))"
    by (rule launch_actions_total [OF assms, where early = False and e = "[]"])
      (simp add: eraseSPIFlashBlock_def Let_def seqE_def whenE_def bindE_def ret_def)
  moreover have "delivers (on_locks (holds l0 (set ts))) (poll_all 18000 (\<lambda>m. foldE (erased_one V) ts (True, m)) (roc_usleep V 10000)
       (\<lambda>m. throw (late_list V U ts what m)) (\<lambda>_. False)) (\<lambda>_. on_locks (holds l0 {})) (on_access (thrown True l0 ts))" for what
    by (rule await_all_total [OF assms(2), where fl = "\<lambda>m. m" and upd = "\<lambda>m x _. m(x := True)" and V = V and w = False])
      (simp_all add: erased_one_def)
  ultimately show "delivers (on_locks (holds l0 {}))
      (seqE (launch_all ts (\<lambda>r. eraseSPIFlashBlock V r (word_of_nat (length c)) a False))
       (bindE (await_accepted V U ts ''SPI ERASE TIMEOUT: phase=command-accepted timeout=5s, ROCs not accepted:'') (\<lambda>_.
        bindE (poll_all 18000 (\<lambda>m. foldE (erased_one V) ts (True, m)) (roc_usleep V 10000)
                (\<lambda>m. throw (late_list V U ts ''SPI ERASE TIMEOUT: phase=complete timeout=180s, ROCs not done:'' m)) (\<lambda>_. False)) (\<lambda>_.
        ret ()))))
     (\<lambda>_. on_locks (holds l0 {})) (on_access (thrown True l0 ts))"
    by (intro total_seqE [where R = "on_locks (holds l0 (set ts))"] total_bindE [where R = "\<lambda>_. on_locks (holds l0 (set ts))"]
        total_bindE [where R = "\<lambda>_. on_locks (holds l0 {})"] held_calm calm_accepted total_ret) simp_all
qed

lemma write_chunk_total:
  assumes "distinct ts" and "\<forall>r \<in> set ts. \<not> l0 r"
  shows "delivers (\<lambda>s. rs_locked s = l0) (write_chunk V U ts c a i) (\<lambda>_ s. rs_locked s = l0) (on_access (leaked True l0 ts))"
  unfolding write_chunk_def Let_def
proof (rule total_seqE [OF holding_total [OF assms]])
  let ?n = "min 1024 (length c - i)"
  have "delivers (on_locks (holds l0 {})) (launch_all ts (\<lambda>r. writeSPIFlashBlock V r (piece_words c i ?n) (a + word_of_nat i) False))
     (\<lambda>_. on_locks (holds l0 (set ts))) (on_access (thrown True l0 ts))"
    by (rule launch_actions_total [OF assms]) (simp add: writeSPIFlashBlock_def Let_def)
  moreover have "delivers (on_locks (holds l0 (set ts))) (poll_all 500 (\<lambda>(m, st). foldE (written_one V) ts (True, m, st)) (roc_usleep V 10000)
       (\<lambda>(m, st). throw (late_list V U ts what m)) (\<lambda>_. False, \<lambda>_. 0)) (\<lambda>_. on_locks (holds l0 {})) (on_access (thrown True l0 ts))" for what
  proof -
    have one: "written_one V x (all, A) = (if fst A x then ret (all, A)
       else bindE (isActionDone V x True True) (\<lambda>(d, v). if d then seqE (set_held x False)
         (ret (all, (fst A)(x := True), (snd A)(x := (case v of None \<Rightarrow> 0 | Some v \<Rightarrow> v)))) else ret (False, A)))" for x all A
      unfolding written_one_def by (cases A) (simp only: prod.case fst_conv snd_conv)
    have "delivers (on_locks (holds l0 (set ts))) (poll_all 500 (\<lambda>A. foldE (written_one V) ts (True, A)) (roc_usleep V 10000)
       (\<lambda>A. throw (late_list V U ts what (fst A))) (\<lambda>_. False, \<lambda>_. 0)) (\<lambda>_. on_locks (holds l0 {})) (on_access (thrown True l0 ts))"
      by (rule await_all_total [OF assms(2), where fl = fst
            and upd = "\<lambda>A x v. ((fst A)(x := True), (snd A)(x := (case v of None \<Rightarrow> 0 | Some v \<Rightarrow> v)))", OF one]) simp_all
    then show ?thesis by (simp add: split_def)
  qed
  moreover have "calm (forE ts (write_status V U a i st))" for st
    unfolding forE_def write_status_def by (intro calm_intros)
  ultimately show "delivers (on_locks (holds l0 {}))
       (seqE (launch_all ts (\<lambda>r. writeSPIFlashBlock V r (piece_words c i ?n) (a + word_of_nat i) False))
       (bindE (await_accepted V U ts (''SPI WRITE TIMEOUT: phase=command-accepted timeout=5s offset='' @ to_string i @ '', ROCs not accepted:'')) (\<lambda>_.
        bindE (poll_all 500 (\<lambda>(m, st). foldE (written_one V) ts (True, m, st)) (roc_usleep V 10000)
                (\<lambda>(m, st). throw (late_list V U ts (''SPI WRITE TIMEOUT: phase=complete timeout=5s offset='' @ to_string i @ '', ROCs not done:'') m))
                (\<lambda>_. False, \<lambda>_. 0)) (\<lambda>(m, st).
        forE ts (write_status V U a i st)))))
     (\<lambda>_. on_locks (holds l0 {})) (on_access (thrown True l0 ts))"
    by (intro total_seqE [where R = "on_locks (holds l0 (set ts))"] total_bindE [where R = "\<lambda>_. on_locks (holds l0 (set ts))"]
        total_bindE [where R = "\<lambda>_. on_locks (holds l0 {})"] held_calm calm_accepted total_ret) (auto intro: held_calm)
  show "delivers (\<lambda>s. rs_locked s = l0) (whenE b (set_percent p)) (\<lambda>_ s. rs_locked s = l0) (on_access (leaked True l0 ts))" for b p
    by (simp add: delivers_def whenE_def set_percent_def modify_def ret_def)
qed

lemma launch_read_total:
  assumes "\<not> l0 r" and "r \<in> set ts" and "r \<notin> X" and "X \<subseteq> set ts"
  shows "delivers (on_locks (holds l0 X)) (launchSPIFlashBlockRead V r a n)
     (\<lambda>_. on_locks (\<lambda>l h. (\<forall>x. l x \<longleftrightarrow> l0 x \<or> x \<in> insert r X) \<and> (\<forall>x. h x \<longleftrightarrow> x \<in> X))) (on_access (thrown b l0 ts))"
  unfolding launchSPIFlashBlockRead_def
proof (rule total_seqE [OF held_calm [OF _ assms(4)]])
  let ?M = "\<lambda>l h. (\<forall>x. l x \<longleftrightarrow> l0 x \<or> x \<in> insert r X) \<and> (\<forall>x. h x \<longleftrightarrow> x \<in> X)"
  let ?c = "[ROC_ACTION_READ_SPI] @ halves a @ [n, 0]"
  have freed: "l r \<and> holds l0 X (l(r := False)) h" if "?M l h" for l h
    using that assms(1,3) by (auto simp: holds_def)
  have got: "delivers (on_locks (holds l0 X)) (try_lock r) (\<lambda>got s. got \<and> on_locks ?M s) (on_access (thrown b l0 ts))"
    using assms(1,3) by (auto simp: delivers_def try_lock_def on_access_def set_lock_def holds_def)
  have sent: "delivers (on_locks ?M) (tryE (send_command V r ?c) (\<lambda>e. seqE (unlock r) (throw e))) (\<lambda>_. on_locks ?M) (on_access (thrown b l0 ts))"
    by (rule total_tryE [OF total_calm [OF calm_calls(2)]], assumption)
      (rule total_seqE [OF total_unlock held_gone], erule freed, rule assms(4))
  show "delivers (on_locks (holds l0 X)) (bindE (try_lock r) (\<lambda>got.
     if \<not> got then throw no_action_lock else tryE (send_command V r ?c) (\<lambda>e. seqE (unlock r) (throw e))))
     (\<lambda>_. on_locks ?M) (on_access (thrown b l0 ts))"
  proof (rule total_bindE [OF got])
    fix g
    show "delivers (\<lambda>s. g \<and> on_locks ?M s) (if \<not> g then throw no_action_lock else tryE (send_command V r ?c) (\<lambda>e. seqE (unlock r) (throw e)))
       (\<lambda>_. on_locks ?M) (on_access (thrown b l0 ts))"
      using sent by (cases g) (simp_all add: delivers_def)
  qed
qed (intro calm_intros)

lemma collect_total:
  assumes "\<And>l h. P l h \<Longrightarrow> l r \<and> Q (l(r := False)) h"
  shows "delivers (on_locks P) (collectSPIFlashBlockRead V r d n) (\<lambda>_. on_locks Q) (on_locks Q)"
proof -
  have fetch: "calm (fetch_reply V r n)"
    unfolding fetch_reply_def look_for_reply_def read_timeout_def Let_def by (intro calm_intros)
  have unlock: "delivers (on_locks P) (unlock r) (\<lambda>_. on_locks Q) E" for E
    by (rule total_unlock [OF assms])
  have "delivers (on_locks P) (tryE (fetch_reply V r n) (\<lambda>e. seqE (unlock r) (throw e))) (\<lambda>_. on_locks P) (on_locks Q)"
    by (rule total_tryE [OF total_calm [OF fetch]], assumption) (rule total_seqE [OF unlock], rule total_throw)
  moreover have "delivers (on_locks Q) (bindE (read_size V r) (\<lambda>_. ret x)) (\<lambda>_. on_locks Q) (on_locks Q)" for x
    by (rule total_calm) (intro calm_intros)
  ultimately show ?thesis
    unfolding collectSPIFlashBlockRead_def by (rule total_bindE [OF _ total_seqE [OF unlock]])
qed

text \<open>The comparison reads no word past the end of the reply, whose length has been checked.\<close>

lemma calm_at: "k < length d \<Longrightarrow> calm (at d k)"
  by (simp add: calm_def at_def ret_def)

lemma calm_comparison:
  "calm (seqE (whenE (length d * 2 \<noteq> n) (throw e)) (forE (piece_starts n 2) (compare_reply_word V U c a i n r d)))"
proof (cases "length d * 2 = n")
  case True
  have "calm (compare_reply_word V U c a i n r d j)" if "j \<in> set (piece_starts n 2)" for j
  proof -
    have "j div 2 < length d" using that True by (auto simp: piece_starts_def)
    then show ?thesis
      unfolding compare_reply_word_def verify_mismatch_def Let_def by (intro calm_intros calm_at)
  qed
  then have "calm (forE (piece_starts n 2) (compare_reply_word V U c a i n r d))"
    unfolding forE_def by (rule calm_foldE)
  then show ?thesis by (intro calm_intros)
next
  case False
  then show ?thesis by (simp add: calm_def seqE_def whenE_def bindE_def throw_def)
qed

lemma check_replies_total:
  assumes "distinct ts" and "\<forall>r \<in> set ts. \<not> l0 r"
  shows "delivers (on_locks (holds l0 (set ts))) (forE ts (check_reply V U c a i n)) (\<lambda>_. on_locks (holds l0 {})) (on_access (thrown b l0 ts))"
proof -
  define I where "I xs = holds l0 (set ts - set xs)" for xs
  have "delivers (on_locks (I [])) (forE ts (check_reply V U c a i n)) (\<lambda>_. on_locks (I ts)) (on_access (thrown b l0 ts))"
    unfolding forE_def
  proof (rule total_foldE [where I = "\<lambda>xs _. on_locks (I xs)"])
    fix xs r ys assume ts: "ts = xs @ r # ys"
    have r: "r \<notin> set xs" "\<not> l0 r" using assms ts by auto
    define M where "M l h \<longleftrightarrow> (\<forall>x. l x \<longleftrightarrow> l0 x \<or> x \<in> set ts - set (xs @ [r])) \<and> (\<forall>x. h x \<longleftrightarrow> x \<in> set ts - set xs)" for l h
    have col: "delivers (on_locks (I xs)) (collectSPIFlashBlockRead V r [] (word_of_nat n)) (\<lambda>_. on_locks M) (on_locks M)"
      by (rule collect_total) (use r ts in \<open>auto simp: I_def M_def holds_def\<close>)
    have held: "delivers (on_locks M) (set_held r False) (\<lambda>_. on_locks (I (xs @ [r]))) E" for E
      by (rule total_held) (use r ts in \<open>auto simp: I_def M_def holds_def\<close>)
    have out: "thrown b l0 ts u l h" if "I (xs @ [r]) l h" for u l h
      using that unfolding I_def by (rule holds_thrown) blast
    have fail: "delivers (on_locks M) (seqE (set_held r False) (throw e)) Q (on_access (thrown b l0 ts))" for e and Q :: "u16 list \<Rightarrow> _"
      by (rule total_seqE [OF held total_throw]) (use out in \<open>simp add: on_access_def\<close>)
    show "delivers (on_locks (I xs)) (check_reply V U c a i n r) (\<lambda>_. on_locks (I (xs @ [r]))) (on_access (thrown b l0 ts))"
      unfolding check_reply_def
      by (rule total_bindE [OF total_tryE [OF col fail]], rule total_seqE [OF held], rule total_calm [OF calm_comparison], rule out)
  qed
  then show ?thesis by (simp add: I_def)
qed

lemma verify_chunk_total:
  assumes "distinct ts" and "\<forall>r \<in> set ts. \<not> l0 r"
  shows "delivers (\<lambda>s. rs_locked s = l0) (verify_chunk V U ts c a i) (\<lambda>_ s. rs_locked s = l0) (on_access (leaked False l0 ts))"
  unfolding verify_chunk_def Let_def
proof (rule holding_total [OF assms])
  let ?n = "min 1016 (length c - i)"
  have "delivers (on_locks (holds l0 {})) (launch_all ts (\<lambda>r. launchSPIFlashBlockRead V r (a + word_of_nat i) (word_of_nat ?n)))
     (\<lambda>_. on_locks (holds l0 (set ts))) (on_access (thrown False l0 ts))"
    by (rule launch_all_total [OF assms], rule launch_read_total) (use assms(2) in blast)+
  moreover have "calm (poll_all 500 (\<lambda>m. foldE (ready_one V ?n) ts (True, m)) (roc_usleep V 10000) (\<lambda>m. throw (late m)) (\<lambda>_. False))" for late
    unfolding ready_one_def by (intro calm_intros)
  ultimately show "delivers (on_locks (holds l0 {}))
      (seqE (launch_all ts (\<lambda>r. launchSPIFlashBlockRead V r (a + word_of_nat i) (word_of_nat ?n)))
       (bindE (poll_all 500 (\<lambda>m. foldE (ready_one V ?n) ts (True, m)) (roc_usleep V 10000)
                (\<lambda>m. throw (late_list V U ts (''SPI VERIFY TIMEOUT: phase=command-accepted timeout=5s offset='' @ to_string i @ '', ROCs not ready:'') m))
                (\<lambda>_. False)) (\<lambda>_.
        forE ts (check_reply V U c a i ?n))))
     (\<lambda>_. on_locks (holds l0 {})) (on_access (thrown False l0 ts))"
    by (intro total_seqE [where R = "on_locks (holds l0 (set ts))"] total_bindE [where R = "\<lambda>_. on_locks (holds l0 (set ts))"]
        held_calm check_replies_total assms) simp_all
qed

subsection \<open>The guarantee\<close>

lemma chunks_total:
  assumes "\<And>i. delivers (\<lambda>s. rs_locked s = l0) (f i) (\<lambda>_ s. rs_locked s = l0) E"
  shows "delivers (\<lambda>s. rs_locked s = l0) (forE is f) (\<lambda>_ s. rs_locked s = l0) E"
  unfolding forE_def by (rule total_foldE [where I = "\<lambda>_ _ s. rs_locked s = l0"]) (rule assms)

lemma percent_total: "delivers (\<lambda>s. rs_locked s = l0) (set_percent p) (\<lambda>_ s. rs_locked s = l0) E"
  by (simp add: delivers_def set_percent_def modify_def)

text \<open>
  Run in \<open>s\<close>, the phase ends with the locks as they were. Only if \<open>b\<close>, it may throw with one more lock taken: that of the
  target to which the last access of all was a command that could not be sent.
\<close>

definition ends_unlocked :: "bool \<Rightarrow> nat list \<Rightarrow> 'e rocstate \<Rightarrow> ('e, 'a) roc_eff \<Rightarrow> bool" where
  "ends_unlocked b ts s m \<longleftrightarrow>
     (case m s of
        (Ret _, s') \<Rightarrow> rs_locked s' = rs_locked s
      | (Throw _, s') \<Rightarrow> rs_locked s' = rs_locked s
          \<or> b \<and> (\<exists>r \<in> set ts. unsent s' = Some r \<and> rs_locked s' = (rs_locked s)(r := True))
      | _ \<Rightarrow> False)"

lemma delivers_unlocked:
  assumes "delivers (\<lambda>t. rs_locked t = rs_locked s) m (\<lambda>_ t. rs_locked t = rs_locked s) (on_access (leaked b (rs_locked s) ts))"
  shows "ends_unlocked b ts s m"
  using assms [THEN totalD, OF refl]
  by (auto simp: ends_unlocked_def on_access_def leaked_def few_def fun_eq_iff split: prod.split)

lemma target_rocs_distinct: "distinct (target_rocs V U v)"
  by (simp add: target_rocs_def)

text \<open>
  C22. The phases of \<^verbatim>\<open>ProgramROCs\<close> that erase, write and verify give back every action lock they take. Started
  when the locks of the targets are free, they end (whatever the ROCs answer, and with no undefined behaviour) by
  returning or throwing with all locks as they were. There is one exception: when the last access before the exception
  was an erase or write command that could not be sent, the lock of the target it was meant for, and no other, may stay
  taken.
\<close>

theorem phases_release_locks:
  assumes "\<forall>r \<in> set (target_rocs V U v). \<not> rs_locked s r"
  shows "ends_unlocked True (target_rocs V U v) s (write_all V U (target_rocs V U v) c a results)
    \<and> ends_unlocked False (target_rocs V U v) s (verify_all V U (target_rocs V U v) c a results)"
proof
  note free = target_rocs_distinct assms
  show "ends_unlocked True (target_rocs V U v) s (write_all V U (target_rocs V U v) c a results)"
    unfolding write_all_def
    by (intro delivers_unlocked total_seqE [OF erase_all_total [OF free]] total_seqE [OF percent_total]
        total_seqE [OF chunks_total [OF write_chunk_total [OF free]]] total_ret)
  show "ends_unlocked False (target_rocs V U v) s (verify_all V U (target_rocs V U v) c a results)"
    unfolding verify_all_def
    by (intro delivers_unlocked total_seqE [OF percent_total]
        total_seqE [OF chunks_total [OF verify_chunk_total [OF free]]] total_ret)
qed

theorem phases_release_locks_witness:
  "ends_unlocked True (target_rocs busy_roc [''roc''] (- 1)) idle_rocs
       (write_all busy_roc [''roc''] (target_rocs busy_roc [''roc''] (- 1)) [1, 2] 0 [])
   \<and> ends_unlocked False (target_rocs busy_roc [''roc''] (- 1)) idle_rocs
       (verify_all busy_roc [''roc''] (target_rocs busy_roc [''roc''] (- 1)) [1, 2] 0 [])"
  by (rule phases_release_locks) (simp add: idle_rocs_def)

end
