(* ===== verification/Spec2Isabelle.thy ===== *)
theory Spec2Isabelle
  imports Run_Plan_Count Run_Recorded Cfo_Stream Template_Events Cfo_Up Flash_Confirm Flash_Total Flash_Lock Program_Outcome ROC_Emulator EVB_Gate Thread_Runs Subevent_Counts One_Reader Detached_Exit Detached_Ends
    ROC_Directory ROC_Faults Program_Verified Program_Locks
begin

text \<open>
  A model of the core of otsdaq-mu2e, the plugins with which the otsdaq framework controls the DAQ hardware of
  Mu2e, and the theorems that make it correct. The repository's C++ runs on a server with one or more DTC boards;
  a DTC reaches up to six readout controllers (ROCs) over fibre links. All paths below are under
  \<^verbatim>\<open>otsdaq-mu2e/\<close>.

  \<^bold>\<open>The parts of the program and their theories.\<close>

  \<^enum> The ROC flash programmer, \<^verbatim>\<open>FEInterfaces/RocFlashProgrammer.h\<close> (namespace \<^verbatim>\<open>rocflash\<close>), uploads an FPGA image
  to the SPI flash of many ROCs in parallel, verifies it by read-back and by a CRC the ROC computes, and can
  start the new image. \<open>Flash_Digest\<close>: CRC-32 and SHA-256. \<open>Flash_Port\<close>: the options, the per-ROC result, the
  session, the events of the ports. \<open>Flash_Commands\<close>, \<open>Flash_Waits\<close>, \<open>Flash_Upload\<close>, \<open>Flash_Run\<close>: the member functions
  of \<^verbatim>\<open>FlashSession\<close> in the order of the file. \<open>Flash_Invariant\<close>: the two locales that carry a property through
  all of them (\<open>query_invariant\<close> for the functions that only query, \<open>session_invariant\<close> for all). \<open>Flash_Safety\<close>,
  \<open>Flash_Lock\<close>, \<open>Flash_Confirm\<close>, \<open>Flash_Total\<close>: what a session sends, the DCS lock, what "verified" means, and
  that nothing throws after the preflight; each interprets the locales on the session of the model. \<open>Flash_Ports\<close>: a
  session accesses no ROC but those it was given.
  \<^enum> Program ROCs Safe, \<^verbatim>\<open>ProgramROCsSafe\<close> and its adapters in \<^verbatim>\<open>FEInterfaces/DTCFrontEndInterfaceImpl.cc\<close>, the
  front-end macro around a session. \<open>Program_Safe\<close>: the model; \<open>Program_Outcome\<close>: its guarantees.
  \<^enum> ROC access, \<^verbatim>\<open>ROCCore/ROCCoreVInterface.cc\<close> (\<open>ROC_Core\<close>), the actions of a PolarFire ROC and their macros,
  \<^verbatim>\<open>FEInterfaces/ROCPolarFireCoreInterfaceImpl.cc\<close> (\<open>ROC_Actions\<close>, \<open>ROC_Macros\<close>), and the older macro
  \<^verbatim>\<open>ProgramROCs\<close> of the DTC front end, which runs these actions on all targets at once (\<open>Program_ROCs\<close>).
  \<open>ROC_Locks\<close>: waited actions end, report and release; \<open>ROC_Directory\<close>: the directory file; \<open>ROC_Faults\<close>: reads,
  launches and the automatic programming; \<open>Program_Verified\<close> and \<open>Program_Locks\<close>: what the phases of \<^verbatim>\<open>ProgramROCs\<close>
  report and which locks they leave.
  \<^enum> The detached Buffer Test of the DTC front end (same file): a thread that reads events from the DMA of a DTC,
  checks and counts them, and merges the halves of two DTCs. \<open>Detached_Types\<close>: the struct shared by thread and
  macros, the events and the calls of the DTC library. \<open>ROC_Emulator\<close>: the check of emulated data. \<open>EVB_Gate\<close>: the
  event-builder registers and the gate a test must pass. \<open>Detached_Subevent\<close>: tag tracking and counting of one
  subevent. \<open>Detached_Merge\<close>: the merge modes. \<open>Detached_Thread\<close>: the thread. \<open>Detached_Control\<close> and
  \<open>Detached_Macros\<close>: the macros that start, watch and stop it. The lemmas: \<open>Subevent_Counts\<close>, \<open>Merge_Pairing\<close>,
  \<open>Thread_Runs\<close>, \<open>Detached_Exit\<close>, \<open>Detached_Ends\<close>, and \<open>Supervisor_Seats\<close>, \<open>Supervisor_Macros\<close>, \<open>One_Reader\<close>.
  \<^enum> The Shared Run Plan of the CFO front end, \<^verbatim>\<open>FEInterfaces/CFOFrontEndInterfaceImpl.cc\<close>. A run plan is a program
  of the CFO, the board that sends an event window with 48 mode bits to every DTC: nested loops over 10^9 events in
  which AND, OR and single-shot OR operations change the bits. Subsystems join and leave a running plan: the macros
  read the plan back from the CFO, write it anew with other masks, compile and load it.
  \<open>Doubles\<close>: the double arithmetic of the ratios. \<open>Run_Plan\<close>: the resolution of a duty cycle to M of N events
  and the generated text, with the bit on and off. \<open>Run_Plan_Macros\<close>: loading, the parsing of durations, the
  read-back, start and stop. \<open>Run_Plan_Join\<close>: status, join and leave. \<open>Run_Plan_Shots\<close>: the single-shot join, which
  arms a number of events chunk by chunk. The lemmas: \<open>Run_Plan_Meaning\<close> gives the operations their meaning (a machine
  that executes them, and a pass of the plan), \<open>Run_Plan_Bits\<close> and \<open>Run_Plan_Patterns\<close> compute the events of a bit from
  its masks, \<open>Run_Plan_Duty\<close> and \<open>Run_Plan_Masks\<close> do so for the masks the code writes, \<open>Run_Plan_Ratio\<close> bounds the
  resolved ratio, \<open>Run_Plan_Events\<close> and \<open>Run_Plan_Rejoin\<close> are about joins and leaves, \<open>Run_Plan_Chunks\<close> about the chunks,
  and \<open>Run_Plan_History\<close>, \<open>Run_Plan_Whole\<close> and \<open>Run_Plan_Count\<close> follow whole macros.
  \<^enum> The detached Buffer Test of the CFO front end (same file), a thread that reads the CFO's own records from its DMA.
  \<open>Cfo_Buffer\<close>: the struct, one record, the thread, the macro; \<open>Cfo_Stream\<close>: what it accepts, saves and leaves behind.
  \<^enum> The template run plans (same file), plans of on-spill and off-spill super cycles or of events of one width, which
  two macros write, compile, load and start. \<open>Template_Plan\<close>: text, macros, what a plan sends; \<open>Template_Events\<close>: its tags.
  \<^enum> The state machine of the CFO front end (same file, and \<^verbatim>\<open>CFOandDTCCore/CFOandDTCCoreVInterface.cc\<close>): the framework
  calls \<^verbatim>\<open>configure\<close> repeatedly, and each call does a phase, or a sub-step of a phase, of the bring-up of the timing chain
  through macros of the DTC front ends. \<open>Cfo_Configure\<close>: configure, start, stop. \<open>Cfo_Bringup\<close>: weakest preconditions, what
  the answers of the DTCs mean. \<open>Cfo_Sequence\<close>: the invariant of the calls. \<open>Dtc_Edge\<close>: what a DTC answers
  (\<^verbatim>\<open>DTCFrontEndInterfaceImpl.cc\<close>). \<open>Cfo_Up\<close>: the theorems.
  \<^enum> The run information plugin, \<^verbatim>\<open>RunInfoPlugins/DBRunInfo_runInfo.cc\<close>, claims run numbers from a database and records
  the transitions and configurations of the runs. \<open>Run_Info\<close>: the database library, the connection, transitions and run
  numbers. \<open>Run_Records\<close>: the configurations, the lists of runs and the life of the plugin. \<open>Run_Handles\<close>: every
  connection, result and text is released once. \<open>Run_Recorded\<close>: what a call that returned has inserted.
  Shared by all: \<open>Prelude\<close> (integer types, number printing, lists), \<open>Effects\<close> (the outcome of a call and the
  combinators), \<open>Ordered_Map\<close> (the locale of \<^verbatim>\<open>std::map\<close> and its interpretation on sorted association lists).

  \<^bold>\<open>How code corresponds to definitions.\<close> A function of the code is a definition of the same name; a piece of a long
  function is a definition of its own, composed the way the code composes it. An effect takes the state and gives
  an outcome and the new state: \<open>Ret\<close> for a return, \<open>Throw\<close> with the message for an exception, \<open>Undef\<close> for behaviour
  the C++ standard does not define (an index past the end, unlocking a free mutex, a value never written), \<open>Spin\<close>
  for a loop that runs out of fuel. Destructors are \<open>scopedE\<close>, handlers \<open>tryE\<close>, a function-try-block with a bare
  rethrow is \<open>tryE\<close> with \<open>throw\<close>. Members are records, integers are words of the code's width, \<^verbatim>\<open>std::map\<close> is a sorted
  association list, \<^verbatim>\<open>std::string\<close> a list of characters, \<^verbatim>\<open>std::vector\<close> a list. The messages of exceptions are kept,
  without the location that \<^verbatim>\<open>__SS__\<close> and \<^verbatim>\<open>__FE_SS__\<close> put before them.

  \<^bold>\<open>What is a parameter.\<close> Everything the code calls outside this repository: the DTC library and the device
  (\<open>rocio\<close>, \<open>dtclib\<close>, \<open>dtcio\<close>, \<open>rocdtc\<close>, \<open>board\<close>), the CFO library with its compiler (\<open>cfolib\<close>), the
  reader of the CFO's DMA (\<open>bt_lib\<close>), the database and JSON libraries (\<open>pglib\<close>), the file system (\<open>rocfiles\<close>), the clock and sleeping. They act on
  an environment of any type, so every theorem holds for every behaviour of the hardware. Other threads are
  functions of the state (\<open>others\<close>, \<open>ct_meanwhile\<close>, \<open>rd_others\<close>) applied where the code can be interrupted; a
  mutex-protected block is one atomic step. Histories (\<open>rs_hist\<close> and the events of a session) record the calls made,
  for the theorems only. The two multi-line status texts of the Buffer Test (\<open>ct_status\<close>, \<open>d_logStatus\<close>) are
  parameters, too.

  \<^bold>\<open>What the groups of lemmas show.\<close>
  Sessions: whatever the hardware does, a session writes only inside the area the preflight accepted, asks for a
  restart only of verified ROCs, holds the DCS lock around each access, throws exactly if the preflight rejects, and
  reports a ROC as verified only if the ROC itself computed the CRC of the file; the table-driven CRC equals the
  bitwise one and detects every burst of at most 32 bits. The macro around it runs its session only with
  an image that it has read and checked before, over the selected ROCs and no other, and restores locks and slow controls
  however it ends. Actions: a waited block write, directory write, erase or programming by index or address ends within
  the listed number of accesses, has seen the command taken and finished, and frees its lock (\<^verbatim>\<open>autoProgramFromSPI\<close> is the
  exception: it need not end); the phases of \<^verbatim>\<open>ProgramROCs\<close> verify what
  they say and free their locks, but for one launch that could not be sent. The Buffer Test: counters are exact and
  agree with each other, the emulator check accepts exactly the continuous stream, active match accepts exactly the
  orderly sequences, merging loses and repeats no half, the thread always ends stopped with its file closed, and it ends when its
  exit flag goes up, whatever it is doing (\<open>Detached_Exit\<close>);
  no sequence of macros and thread steps lets two threads read one DMA (a refinement to the abstract machine
  \<open>seat_step\<close>, whose invariant is carried over). Faults of the code are theorems as well: an action lock kept after a
  failed launch, an automatic programming that polls for ever, a programming phase that trusts an old DONE, a dump
  past the end of a vector, an event mode that can match nothing.
  The Shared Run Plan: whatever the mode bits were, a pass of a joined plan has a bit that the plan before it never set and
  kept in its first slot in exactly the events of the resolved duty cycle and leaves the other bits as they were, a plan after a leave has it in none, a single-shot
  join arms exactly the requested number of events, and the macros load exactly these plans. All plans have the same
  operations, which is what the read-back relies on. Again faults are theorems: a join after a leave is undone for
  \<open>N > 100\<close>, and 7 percent resolves to 6 events of 100. A pass starts at the label of the plan with its
  single shots armed; a load in the middle of a pass is not modelled. The meaning of the operations is that of the
  comments and the instruction set of the code, since the CFO's firmware is not part of the repository.
  The Buffer Test of the CFO accepts exactly the consecutive tags and saves exactly their records; after a failure that
  left the file open it cannot start again, and it sees the request to exit only when the DMA is empty.
  A template plan sends the events it should with consecutive tags; but after super cycles the tag kept for the next
  plan is one of those already sent, and a count of one event is a plan without end. A plan that jumps back to its label
  is cut after any number of rounds.
  The CFO is done after at most 38 calls of the configure transition, and if the transition returned, its trace shows the
  DTCs locked, checked, and two passes over the clock edges without a change. The framework that repeats the calls is an
  argument with the behaviour the code relies on (\<open>repeats\<close>, \<open>first_only\<close>); it may go on calling for other front ends.
  The run information plugin: no sequence of calls and answers makes it use a handle it does not hold or keep one, and
  a call that returned has inserted exactly the rows it should, unless the database was lost for the second time. That
  a run can stay in the database without its start is a theorem, too.
  \<^bold>\<open>Bounds and fuel.\<close> Loops over lists recurse on the list. Polling loops with a limit recurse on the misses left
  (501 of 10 ms for an action, 18001 for an erase, 500 and 18000 in the loops of \<^verbatim>\<open>ProgramROCs\<close>, 120 for its last phase);
  the limits are those of the code. The start gate ends after 31 rounds of 100 ms, proved without fuel in its
  statement. Where the code has no limit of its own (the loops of a session against the clock, the main loop of the
  thread, the wait for a mutex, \<^verbatim>\<open>autoProgramFromSPI\<close>) a fuel bounds the model, \<open>Spin\<close> marks its end, and theorems hold for
  every fuel; \<open>raised_flag_ends_thread\<close> shows the thread's loops to end, and \<open>auto_program_spins\<close> that the last does not.

  The \<open>double\<close>s of the CFO front end are rational numbers, rounded to 53 bits after every operation; the exponent
  is not bounded, which the ratios of 32-bit numbers never reach. The loops of a plan are executed in full: the theorems
  about the events of a pass go by the levels of its loops and need no fuel.

  \<^bold>\<open>Not modelled.\<close> Log lines and statistics that only reach the log. Constructors, the registration of macros, and
  the configuration tree. The emulator work loop of a ROC.
  The loopback test of the CFO and the analysis of the CAPTAN pulses in its stop are arguments of start and stop. Link
  numbers are printed in decimal where the stream is left in hexadecimal by an earlier message (the same text for a link
  number). The milliseconds of a wait of a session are not cut to 32 bits. The rest of
  \<^verbatim>\<open>DTCFrontEndInterfaceImpl.cc\<close>, \<^verbatim>\<open>CFOFrontEndInterfaceImpl.cc\<close> and \<^verbatim>\<open>CFOandDTCCoreVInterface.cc\<close>: mostly sequences of calls of the
  DTC and CFO libraries and the text of status reports. The older code in the comments of \<^verbatim>\<open>DBRunInfo_runInfo.cc\<close>.
  \<^verbatim>\<open>CAPTANSignalGenerator_interface.cc\<close> (packets to one device), the table plugins and art modules are glue.
\<close>

end
